(* ===== verification/Go_Strings.thy ===== *)
theory Go_Strings
  imports Complex_Main "HOL-Library.AList" "HOL-Library.Sublist" "HOL-Library.Word"
begin

text \<open>
  The part of Go's \<^verbatim>\<open>strings\<close>, \<^verbatim>\<open>strconv\<close> and \<^verbatim>\<open>net\<close> packages the panel uses, on byte strings.
  A Go string is a sequence of bytes, here a \<^typ>\<open>string\<close>. The functions of the
  \<^verbatim>\<open>strings\<close> package that classify characters (\<open>TrimSpace\<close>, \<open>ToLower\<close>, \<open>Fields\<close>) follow
  their ASCII behaviour: a multi-byte rune is never white space and has no other case.
  Errors are values: a fallible operation returns \<^typ>\<open>string + 'a\<close> with the message.
\<close>

section \<open>Collections of facts\<close>

named_theorems go_simps \<open>evaluation rules of the Go library functions\<close>

type_synonym 'a result = "string + 'a"

section \<open>Trimming, prefixes and searching\<close>

definition is_space :: "char \<Rightarrow> bool" where
  "is_space c \<longleftrightarrow> c \<in> {CHR 0x09, CHR 0x0A, CHR 0x0B, CHR 0x0C, CHR 0x0D, CHR '' ''}"

definition trim_by :: "(char \<Rightarrow> bool) \<Rightarrow> string \<Rightarrow> string" where
  "trim_by p s = rev (dropWhile p (rev (dropWhile p s)))"

definition TrimSpace :: "string \<Rightarrow> string" where
  "TrimSpace s = trim_by is_space s"

definition Trim :: "string \<Rightarrow> string \<Rightarrow> string" where
  "Trim s cutset = trim_by (\<lambda>c. c \<in> set cutset) s"

definition TrimRight :: "string \<Rightarrow> string \<Rightarrow> string" where
  "TrimRight s cutset = rev (dropWhile (\<lambda>c. c \<in> set cutset) (rev s))"

definition lower_char :: "char \<Rightarrow> char" where
  "lower_char c = (let n = of_char c :: int in
     if 65 \<le> n \<and> n \<le> 90 then char_of (n + 32) else c)"

definition ToLower :: "string \<Rightarrow> string" where
  "ToLower s = map lower_char s"

definition HasPrefix :: "string \<Rightarrow> string \<Rightarrow> bool" where
  "HasPrefix s p \<longleftrightarrow> take (length p) s = p"

definition HasSuffix :: "string \<Rightarrow> string \<Rightarrow> bool" where
  "HasSuffix s p \<longleftrightarrow> HasPrefix (rev s) (rev p)"

definition TrimPrefix :: "string \<Rightarrow> string \<Rightarrow> string" where
  "TrimPrefix s p = (if HasPrefix s p then drop (length p) s else s)"

definition TrimSuffix :: "string \<Rightarrow> string \<Rightarrow> string" where
  "TrimSuffix s p = (if HasSuffix s p then take (length s - length p) s else s)"

text \<open>\<open>strings.Cut\<close>: the text before and after the first occurrence of the separator.\<close>

fun Cut :: "string \<Rightarrow> string \<Rightarrow> (string \<times> string) option" where
  "Cut [] sep = (if sep = [] then Some ([], []) else None)"
| "Cut (c # s) sep =
     (if HasPrefix (c # s) sep then Some ([], drop (length sep) (c # s))
      else map_option (\<lambda>(a, b). (c # a, b)) (Cut s sep))"

definition Contains :: "string \<Rightarrow> string \<Rightarrow> bool" where
  "Contains s sub \<longleftrightarrow> Cut s sub \<noteq> None"

definition ContainsAny :: "string \<Rightarrow> string \<Rightarrow> bool" where
  "ContainsAny s chars \<longleftrightarrow> list_ex (\<lambda>c. c \<in> set chars) s"

text \<open>The text before and after the last occurrence of a byte (\<open>LastIndex\<close> and two slices).\<close>

fun cut_last :: "char \<Rightarrow> string \<Rightarrow> (string \<times> string) option" where
  "cut_last c [] = None"
| "cut_last c (x # s) =
     (case cut_last c s of
        Some (a, b) \<Rightarrow> Some (x # a, b)
      | None \<Rightarrow> if x = c then Some ([], s) else None)"

section \<open>Splitting and joining\<close>

text \<open>
  \<open>split_when p s\<close> cuts at every character satisfying \<open>p\<close>: \<open>strings.Split\<close> for a
  one-byte separator keeps the empty pieces, \<open>strings.FieldsFunc\<close> drops them.
\<close>

fun split_when :: "(char \<Rightarrow> bool) \<Rightarrow> string \<Rightarrow> string list" where
  "split_when p [] = [[]]"
| "split_when p (x # s) =
     (if p x then [] # split_when p s
      else (case split_when p s of [] \<Rightarrow> [[x]] | w # ws \<Rightarrow> (x # w) # ws))"

definition Split :: "string \<Rightarrow> char \<Rightarrow> string list" where
  "Split s c = split_when (\<lambda>x. x = c) s"

definition FieldsFunc :: "(char \<Rightarrow> bool) \<Rightarrow> string \<Rightarrow> string list" where
  "FieldsFunc p s = filter (\<lambda>w. w \<noteq> []) (split_when p s)"

definition Fields :: "string \<Rightarrow> string list" where
  "Fields s = FieldsFunc is_space s"

fun Join :: "string list \<Rightarrow> string \<Rightarrow> string" where
  "Join [] sep = []"
| "Join [w] sep = w"
| "Join (w # ws) sep = w @ sep @ Join ws sep"

text \<open>\<open>strings.ReplaceAll\<close> with a non-empty old text.\<close>

function ReplaceAll :: "string \<Rightarrow> string \<Rightarrow> string \<Rightarrow> string" where
  "ReplaceAll s old new =
     (if s = [] \<or> old = [] then s
      else if HasPrefix s old then new @ ReplaceAll (drop (length old) s) old new
      else hd s # ReplaceAll (tl s) old new)"
  by pat_completeness auto
termination
  by (relation "measure (\<lambda>(s, old, new). length s)") auto

declare ReplaceAll.simps [simp del]
declare ReplaceAll.simps [code]

section \<open>Numbers as text\<close>

text \<open>The arithmetic is on \<^typ>\<open>int\<close>, which the simplifier and the code equations compute in binary.\<close>

definition digit_char :: "int \<Rightarrow> char" where
  "digit_char n = ''0123456789'' ! nat n"

definition is_digit :: "char \<Rightarrow> bool" where
  "is_digit c \<longleftrightarrow> (let n = of_char c :: int in 48 \<le> n \<and> n \<le> 57)"

definition digit_val :: "char \<Rightarrow> int" where
  "digit_val c = of_char c - 48"

function nat_str :: "int \<Rightarrow> string" where
  "nat_str n = (if n < 10 then [digit_char n] else nat_str (n div 10) @ [digit_char (n mod 10)])"
  by pat_completeness auto
termination
  by (relation "measure nat") auto

declare nat_str.simps [simp del]

definition Itoa :: "int \<Rightarrow> string" where
  "Itoa i = (if i < 0 then CHR ''-'' # nat_str (- i) else nat_str i)"

definition digits_val :: "string \<Rightarrow> int" where
  "digits_val s = foldl (\<lambda>a c. 10 * a + digit_val c) 0 s"

text \<open>
  \<open>strconv.Atoi\<close>: an optional sign, then at least one decimal digit, in the range of a
  64-bit \<^verbatim>\<open>int\<close>; \<^const>\<open>None\<close> is any error.
\<close>

definition parse_uint :: "string \<Rightarrow> int option" where
  "parse_uint s = (if s \<noteq> [] \<and> list_all is_digit s then Some (digits_val s) else None)"

definition Atoi :: "string \<Rightarrow> int option" where
  "Atoi s =
     (let (neg, ds) = (case s of
          [] \<Rightarrow> (False, [])
        | c # r \<Rightarrow> if c = CHR ''-'' then (True, r) else if c = CHR ''+'' then (False, r) else (False, s))
      in case parse_uint ds of
           None \<Rightarrow> None
         | Some n \<Rightarrow>
             let i = (if neg then - n else n)
             in if - (2 ^ 63) \<le> i \<and> i < 2 ^ 63 then Some i else None)"

section \<open>Results\<close>

lemma map_sum_Inr_iff: "map_sum id f r = Inr y \<longleftrightarrow> (\<exists>z. r = Inr z \<and> y = f z)"
  by (cases r) auto

lemma map_sum_Inl_iff: "map_sum id f r = Inl e \<longleftrightarrow> r = Inl e"
  by (cases r) auto

lemmas results = map_sum_Inr_iff map_sum_Inl_iff

text \<open>Sequencing of fallible steps, and a loop that stops at the first error.\<close>

definition bindr :: "'a result \<Rightarrow> ('a \<Rightarrow> 'b result) \<Rightarrow> 'b result" where
  "bindr r f = (case r of Inl e \<Rightarrow> Inl e | Inr x \<Rightarrow> f x)"

fun mapr :: "('a \<Rightarrow> 'b result) \<Rightarrow> 'a list \<Rightarrow> 'b list result" where
  "mapr f [] = Inr []"
| "mapr f (x # xs) = bindr (f x) (\<lambda>y. map_sum id (Cons y) (mapr f xs))"

lemma bindr_simps [simp]: "bindr (Inl e) f = Inl e" "bindr (Inr x) f = f x"
  by (simp_all add: bindr_def)

lemma bindr_Inr_iff: "bindr r f = Inr y \<longleftrightarrow> (\<exists>x. r = Inr x \<and> f x = Inr y)"
  by (cases r) auto

lemma mapr_Inr_length: "mapr f xs = Inr ys \<Longrightarrow> length ys = length xs"
  by (induction xs arbitrary: ys) (auto simp: bindr_Inr_iff map_sum_Inr_iff)

lemma mapr_Inr_iff: "mapr f xs = Inr ys \<longleftrightarrow> list_all2 (\<lambda>x y. f x = Inr y) xs ys"
  by (induction xs arbitrary: ys) (auto simp: bindr_Inr_iff map_sum_Inr_iff list_all2_Cons1)

text \<open>A loop whose body changes a state and may return an error.\<close>

fun eachr :: "('a \<Rightarrow> 's \<Rightarrow> 's result) \<Rightarrow> 'a list \<Rightarrow> 's \<Rightarrow> 's result" where
  "eachr f [] s = Inr s"
| "eachr f (x # xs) s = bindr (f x s) (eachr f xs)"

lemma eachr_invariant:
  "eachr f xs s = Inr s' \<Longrightarrow> P s \<Longrightarrow> (\<And>x s s'. x \<in> set xs \<Longrightarrow> f x s = Inr s' \<Longrightarrow> P s \<Longrightarrow> P s') \<Longrightarrow> P s'"
proof (induction xs arbitrary: s)
  case (Cons x xs)
  then obtain s1 where s1: "f x s = Inr s1" "eachr f xs s1 = Inr s'" by (auto simp: bindr_Inr_iff)
  show ?case by (rule Cons.IH [OF s1(2)]) (use Cons.prems s1 in auto)
qed simp

lemma find_Some_mem: "find P xs = Some x \<Longrightarrow> x \<in> set xs \<and> P x"
  by (induction xs) (auto split: if_splits)

section \<open>Facts about trimming and splitting\<close>

lemma dropWhile_none: "list_all (\<lambda>c. \<not> p c) s \<Longrightarrow> dropWhile p s = s"
  by (cases s) auto

lemma trim_by_none: "list_all (\<lambda>c. \<not> p c) s \<Longrightarrow> trim_by p s = s"
proof -
  assume a: "list_all (\<lambda>c. \<not> p c) s"
  then have "list_all (\<lambda>c. \<not> p c) (rev s)" by (simp add: list_all_iff)
  then have "dropWhile p (rev s) = rev s" by (rule dropWhile_none)
  with dropWhile_none [OF a] show ?thesis by (simp add: trim_by_def)
qed

lemma set_trim_by: "set (trim_by p s) \<subseteq> set s"
proof
  fix c
  assume "c \<in> set (trim_by p s)"
  then have "c \<in> set (dropWhile p (rev (dropWhile p s)))" by (simp add: trim_by_def)
  then have "c \<in> set (rev (dropWhile p s))" by (blast dest: set_dropWhileD)
  then show "c \<in> set s" by (auto dest: set_dropWhileD)
qed

lemma hd_dropWhile_not: "dropWhile p s \<noteq> [] \<Longrightarrow> \<not> p (hd (dropWhile p s))"
  by (rule hd_dropWhile)

lemma last_trim_by: "trim_by p s \<noteq> [] \<Longrightarrow> \<not> p (last (trim_by p s))"
  unfolding trim_by_def by (metis hd_dropWhile last_rev rev_is_Nil_conv)

lemma dropWhile_last: "dropWhile p s \<noteq> [] \<Longrightarrow> last (dropWhile p s) = last s"
  by (induction s) auto

lemma hd_trim_by: "trim_by p s \<noteq> [] \<Longrightarrow> \<not> p (hd (trim_by p s))"
proof -
  assume ne: "trim_by p s \<noteq> []"
  have "hd (trim_by p s) = last (dropWhile p (rev (dropWhile p s)))"
    using ne by (simp add: trim_by_def hd_rev)
  also have "\<dots> = last (rev (dropWhile p s))"
    using ne by (simp add: trim_by_def dropWhile_last)
  also have "\<dots> = hd (dropWhile p s)" by (simp add: last_rev)
  finally have eq: "hd (trim_by p s) = hd (dropWhile p s)" .
  have "dropWhile p s \<noteq> []"
  proof
    assume "dropWhile p s = []"
    then have "trim_by p s = []" by (simp only: trim_by_def) simp
    with ne show False by simp
  qed
  then show ?thesis by (simp add: eq hd_dropWhile)
qed

lemma dropWhile_hd: "s = [] \<or> \<not> p (hd s) \<Longrightarrow> dropWhile p s = s"
  by (cases s) auto

lemma trim_by_idem [simp]: "trim_by p (trim_by p s) = trim_by p s"
proof -
  let ?t = "trim_by p s"
  have "dropWhile p ?t = ?t" by (rule dropWhile_hd) (auto dest: hd_trim_by)
  moreover have "dropWhile p (rev ?t) = rev ?t"
    by (rule dropWhile_hd) (auto simp: hd_rev dest: last_trim_by)
  ultimately show ?thesis by (simp add: trim_by_def [of p ?t])
qed

lemma TrimSpace_idem [simp]: "TrimSpace (TrimSpace s) = TrimSpace s"
  by (simp add: TrimSpace_def)

lemma set_TrimSpace: "set (TrimSpace s) \<subseteq> set s"
  by (simp add: TrimSpace_def set_trim_by)

lemma split_when_ne [simp]: "split_when p s \<noteq> []"
  by (induction s) (auto split: list.splits)

lemma split_when_none: "list_all (\<lambda>c. \<not> p c) s \<Longrightarrow> split_when p s = [s]"
  by (induction s) auto

lemma split_when_append:
  "list_all (\<lambda>c. \<not> p c) w \<Longrightarrow> p c \<Longrightarrow> split_when p (w @ c # s) = w # split_when p s"
  by (induction w) auto

lemma split_when_no_sep: "w \<in> set (split_when p s) \<Longrightarrow> list_all (\<lambda>c. \<not> p c) w"
  by (induction s arbitrary: w) (auto split: if_splits list.splits)

lemma Split_none: "c \<notin> set s \<Longrightarrow> Split s c = [s]"
  by (auto simp: Split_def list_all_iff intro: split_when_none)

lemma Split_append: "c \<notin> set w \<Longrightarrow> Split (w @ c # s) c = w # Split s c"
  by (auto simp: Split_def list_all_iff intro: split_when_append)

lemma Join_Split: "Join (Split s c) [c] = s"
proof (induction s)
  case Nil
  show ?case by (simp add: Split_def)
next
  case (Cons x s)
  obtain w ws where eq: "Split s c = w # ws"
    by (cases "Split s c") (auto simp: Split_def)
  show ?case
  proof (cases "x = c")
    case True
    then have "Split (x # s) c = [] # w # ws" using eq by (simp add: Split_def)
    with Cons True eq show ?thesis by simp
  next
    case False
    then have "Split (x # s) c = (x # w) # ws" using eq by (simp add: Split_def)
    with Cons eq show ?thesis by (cases ws) auto
  qed
qed

lemma Split_Join:
  assumes "ws \<noteq> []" and "\<forall>w\<in>set ws. c \<notin> set w"
  shows "Split (Join ws [c]) c = ws"
  using assms
proof (induction ws)
  case (Cons w ws)
  then show ?case by (cases ws) (auto simp: Split_none Split_append)
qed simp

lemma FieldsFunc_none: "list_all (\<lambda>c. \<not> p c) s \<Longrightarrow> FieldsFunc p s = (if s = [] then [] else [s])"
  by (simp add: FieldsFunc_def split_when_none)

lemma cut_last_None [simp]: "cut_last c s = None \<longleftrightarrow> c \<notin> set s"
  by (induction s) (auto split: option.splits)

lemma cut_last_Some: "cut_last c s = Some (a, b) \<Longrightarrow> s = a @ c # b \<and> c \<notin> set b"
proof (induction s arbitrary: a b)
  case (Cons x s)
  show ?case
  proof (cases "cut_last c s")
    case None
    with Cons.prems have "x = c" "a = []" "b = s" by (auto split: if_splits)
    with None show ?thesis by auto
  next
    case (Some r)
    with Cons show ?thesis by (cases r) auto
  qed
qed simp

lemma cut_last_append: "c \<notin> set b \<Longrightarrow> cut_last c (a @ c # b) = Some (a, b)"
proof (induction a)
  case Nil
  then have "cut_last c b = None" by simp
  then show ?case by (simp del: cut_last_None)
qed simp

lemma Cut_None_notin: "c \<notin> set s \<Longrightarrow> Cut s (c # p) = None"
  by (induction s) (auto simp: HasPrefix_def)

lemma Contains_single: "Contains s [c] \<longleftrightarrow> c \<in> set s"
proof -
  have "Cut s [c] = None \<longleftrightarrow> c \<notin> set s"
    by (induction s) (auto simp: HasPrefix_def)
  then show ?thesis by (simp add: Contains_def)
qed

section \<open>Decimal text is read back\<close>

lemma digit_char_facts:
  assumes "0 \<le> n" "n < 10"
  shows "is_digit (digit_char n)" and "digit_val (digit_char n) = n"
proof -
  have "n = 0 \<or> n = 1 \<or> n = 2 \<or> n = 3 \<or> n = 4 \<or> n = 5 \<or> n = 6 \<or> n = 7 \<or> n = 8 \<or> n = 9"
    using assms by arith
  then have "is_digit (digit_char n) \<and> digit_val (digit_char n) = n"
    by (elim disjE) (simp_all add: digit_char_def is_digit_def digit_val_def Let_def)
  then show "is_digit (digit_char n)" and "digit_val (digit_char n) = n" by auto
qed

lemma nat_str_ne [simp]: "nat_str n \<noteq> []"
  by (subst nat_str.simps) simp

lemma nat_str_digits: "0 \<le> n \<Longrightarrow> list_all is_digit (nat_str n)"
proof (induction n rule: nat_str.induct)
  case (1 n)
  then show ?case by (subst nat_str.simps) (auto simp: digit_char_facts)
qed

lemma digits_val_nat_str [simp]: "0 \<le> n \<Longrightarrow> digits_val (nat_str n) = n"
proof (induction n rule: nat_str.induct)
  case (1 n)
  show ?case
  proof (cases "n < 10")
    case True
    with 1 show ?thesis by (subst nat_str.simps) (simp add: digits_val_def digit_char_facts)
  next
    case False
    then have "digits_val (nat_str n) = 10 * digits_val (nat_str (n div 10)) + n mod 10"
      by (subst nat_str.simps) (simp add: digits_val_def digit_char_facts)
    also have "\<dots> = n" using 1 False by simp
    finally show ?thesis .
  qed
qed

lemma digit_val_range: "is_digit c \<Longrightarrow> 0 \<le> digit_val c \<and> digit_val c \<le> 9"
  by (simp add: is_digit_def digit_val_def Let_def)

lemma digits_val_nonneg: "list_all is_digit s \<Longrightarrow> 0 \<le> digits_val s"
proof -
  have "list_all is_digit s \<Longrightarrow> 0 \<le> a \<Longrightarrow> 0 \<le> foldl (\<lambda>a c. 10 * a + digit_val c) a s" for a
  proof (induction s arbitrary: a)
    case (Cons c s)
    then have "0 \<le> 10 * a + digit_val c" using digit_val_range [of c] by simp
    with Cons show ?case by simp
  qed simp
  then show "list_all is_digit s \<Longrightarrow> 0 \<le> digits_val s" by (simp add: digits_val_def)
qed

lemma parse_uint_nat_str [simp]: "0 \<le> n \<Longrightarrow> parse_uint (nat_str n) = Some n"
  by (simp add: parse_uint_def nat_str_digits)

lemma is_digit_sign [simp]: "\<not> is_digit (CHR ''-'')" "\<not> is_digit (CHR ''+'')"
  by (simp_all add: is_digit_def)

lemma Atoi_digits:
  assumes "s \<noteq> []" "list_all is_digit s" "digits_val s < 2 ^ 63"
  shows "Atoi s = Some (digits_val s)"
proof -
  obtain c r where s: "s = c # r" using assms(1) by (cases s) auto
  then have "c \<noteq> CHR ''-''" "c \<noteq> CHR ''+''" using assms(2) by auto
  with s assms digits_val_nonneg [OF assms(2)] show ?thesis
    by (simp add: Atoi_def parse_uint_def)
qed

lemma Atoi_Itoa: "- (2 ^ 63) \<le> i \<Longrightarrow> i < 2 ^ 63 \<Longrightarrow> Atoi (Itoa i) = Some i"
  using Atoi_digits [of "nat_str i"]
  by (cases "i < 0") (simp_all add: Itoa_def nat_str_digits Atoi_def [of "CHR ''-'' # nat_str (- i)"])

lemma Itoa_digits: "0 \<le> i \<Longrightarrow> list_all is_digit (Itoa i)"
  by (simp add: Itoa_def nat_str_digits)

lemma Itoa_ne [simp]: "Itoa i \<noteq> []"
  by (simp add: Itoa_def)

lemma Itoa_chars: "0 \<le> i \<Longrightarrow> c \<in> set (Itoa i) \<Longrightarrow> is_digit c"
  using Itoa_digits [of i] by (auto simp: list_all_iff)

lemma Itoa_not_in:
  "0 \<le> i \<Longrightarrow> \<not> is_digit c \<Longrightarrow> c \<notin> set (Itoa i)"
  by (auto dest: Itoa_chars)

lemma Itoa_inj: "Itoa (int m) = Itoa (int n) \<Longrightarrow> m = n"
proof -
  have "Itoa (int k) = nat_str (int k)" for k by (simp add: Itoa_def del: nat_str.simps)
  then show "Itoa (int m) = Itoa (int n) \<Longrightarrow> m = n" by (metis digits_val_nat_str of_nat_0_le_iff of_nat_eq_iff)
qed

end
