(* ===== verification/Go_Values.thy ===== *)
theory Go_Values
  imports Go_Strings
begin

text \<open>
  Dynamic values. Most of the panel's data is \<^verbatim>\<open>map[string]interface{}\<close> decoded from JSON and
  rebuilt by hand, and the code takes decisions with type switches on it, so the model
  keeps the dynamic type of a value: a number that came out of \<^verbatim>\<open>json.Unmarshal\<close> is a
  \<^verbatim>\<open>float64\<close>, one the code wrote is an \<^verbatim>\<open>int\<close>; a decoded array is an \<^verbatim>\<open>[]interface{}\<close>, one the
  code built is often a \<^verbatim>\<open>[]string\<close>. \<open>json_norm\<close> is what is left of these differences after
  a value was marshalled and decoded again.

  A \<^verbatim>\<open>float64\<close> is the rational number it denotes. A map is an association list with
  distinct keys; Go fixes no iteration order, here the list's order, so a statement for
  every list is a statement for every order.

  A \<^verbatim>\<open>json.RawMessage\<close> is nil, bytes that are no JSON text, or the value its bytes decode to.
  Formatting (\<^verbatim>\<open>MarshalIndent\<close> or \<^verbatim>\<open>Marshal\<close>) is not represented.
\<close>

section \<open>The values of \<^verbatim>\<open>interface{}\<close>\<close>

datatype gval =
    GNil
  | GBool bool
  | GFloat rat
  | GInt int
  | GStr string
  | GList "gval list"
  | GStrs "string list"
  | GMap "(string \<times> gval) list"
  | GMaps "(string \<times> gval) list list"

type_synonym gmap = "(string \<times> gval) list"

datatype raw = RNil | RBad | RVal gval

section \<open>Maps\<close>

definition mget :: "gmap \<Rightarrow> string \<Rightarrow> gval" where
  "mget m k = (case map_of m k of None \<Rightarrow> GNil | Some v \<Rightarrow> v)"

definition mhas :: "gmap \<Rightarrow> string \<Rightarrow> bool" where
  "mhas m k \<longleftrightarrow> map_of m k \<noteq> None"

definition mput :: "gmap \<Rightarrow> string \<Rightarrow> gval \<Rightarrow> gmap" where
  "mput m k v = AList.update k v m"

definition mdel :: "gmap \<Rightarrow> string \<Rightarrow> gmap" where
  "mdel m k = AList.delete k m"

text \<open>\<open>for k, v := range n { m[k] = v }\<close>\<close>

definition mmerge :: "gmap \<Rightarrow> gmap \<Rightarrow> gmap" where
  "mmerge m n = foldl (\<lambda>m (k, v). mput m k v) m n"

lemma mget_append: "mget (a @ b) k = (if mhas a k then mget a k else mget b k)"
  by (auto simp: mget_def mhas_def map_add_def split: option.splits)

lemma mhas_append: "mhas (a @ b) k \<longleftrightarrow> mhas a k \<or> mhas b k"
  by (auto simp: mhas_def map_add_def split: option.splits)

section \<open>Type assertions\<close>

text \<open>\<open>s, _ := v.(string)\<close> and its kin: the zero value when the assertion fails.\<close>

definition as_str :: "gval \<Rightarrow> string" where
  "as_str v = (case v of GStr s \<Rightarrow> s | _ \<Rightarrow> [])"

definition as_bool :: "gval \<Rightarrow> bool" where
  "as_bool v = (case v of GBool b \<Rightarrow> b | _ \<Rightarrow> False)"

definition as_map :: "gval \<Rightarrow> gmap" where
  "as_map v = (case v of GMap m \<Rightarrow> m | _ \<Rightarrow> [])"

definition as_list :: "gval \<Rightarrow> gval list" where
  "as_list v = (case v of GList xs \<Rightarrow> xs | _ \<Rightarrow> [])"

definition as_float :: "gval \<Rightarrow> rat" where
  "as_float v = (case v of GFloat r \<Rightarrow> r | _ \<Rightarrow> 0)"

text \<open>\<open>int(f)\<close>: truncation towards zero.\<close>

definition trunc_rat :: "rat \<Rightarrow> int" where
  "trunc_rat r = (if r < 0 then - \<lfloor>- r\<rfloor> else \<lfloor>r\<rfloor>)"

section \<open>Text of a value\<close>

text \<open>
  \<open>fmt.Sprint\<close>. A \<^verbatim>\<open>float64\<close> that is an integer below \<open>10^21\<close> prints in plain decimal, other
  decimals with their digits (17 at most); exponents are not represented. Maps print with
  sorted keys in Go, here in the order of the list.
\<close>

fun frac_digits :: "nat \<Rightarrow> rat \<Rightarrow> string" where
  "frac_digits 0 r = []"
| "frac_digits (Suc n) r =
     (if r = 0 then [] else digit_char \<lfloor>10 * r\<rfloor> # frac_digits n (10 * r - of_int \<lfloor>10 * r\<rfloor>))"

definition float_str :: "rat \<Rightarrow> string" where
  "float_str r =
     (let a = \<bar>r\<bar>; i = \<lfloor>a\<rfloor>; f = a - of_int i in
      (if r < 0 then ''-'' else []) @ Itoa i @ (if f = 0 then [] else ''.'' @ frac_digits 17 f))"

fun sprint :: "gval \<Rightarrow> string" where
  "sprint GNil = ''<nil>''"
| "sprint (GBool b) = (if b then ''true'' else ''false'')"
| "sprint (GFloat r) = float_str r"
| "sprint (GInt i) = Itoa i"
| "sprint (GStr s) = s"
| "sprint (GList xs) = ''['' @ Join (map sprint xs) '' '' @ '']''"
| "sprint (GStrs ss) = ''['' @ Join ss '' '' @ '']''"
| "sprint (GMap m) = ''map['' @ Join (map (\<lambda>(k, v). k @ '':'' @ sprint v) m) '' '' @ '']''"
| "sprint (GMaps ms) =
     ''['' @ Join (map (\<lambda>m. ''map['' @ Join (map (\<lambda>(k, v). k @ '':'' @ sprint v) m) '' '' @ '']'') ms) '' '' @ '']''"

section \<open>A value after it was stored as JSON and read back\<close>

primrec json_norm :: "gval \<Rightarrow> gval" where
  "json_norm GNil = GNil"
| "json_norm (GBool b) = GBool b"
| "json_norm (GFloat r) = GFloat r"
| "json_norm (GInt i) = GFloat (of_int i)"
| "json_norm (GStr s) = GStr s"
| "json_norm (GList xs) = GList (map json_norm xs)"
| "json_norm (GStrs ss) = GList (map GStr ss)"
| "json_norm (GMap m) = GMap (map (map_prod id json_norm) m)"
| "json_norm (GMaps ms) = GList (map GMap (map (map (map_prod id json_norm)) ms))"

text \<open>\<open>json.Marshal\<close> of a value the code built, and \<open>json.Unmarshal\<close> into \<^verbatim>\<open>interface{}\<close> or a map
  (JSON \<^verbatim>\<open>null\<close> decodes to the nil map).\<close>

definition mustJSON :: "gval \<Rightarrow> raw" where
  "mustJSON v = RVal (json_norm v)"

definition decode :: "raw \<Rightarrow> gval option" where
  "decode r = (case r of RVal v \<Rightarrow> Some v | _ \<Rightarrow> None)"

definition decode_map :: "raw \<Rightarrow> gmap option" where
  "decode_map r = (case r of RVal (GMap m) \<Rightarrow> Some m | RVal GNil \<Rightarrow> Some [] | _ \<Rightarrow> None)"

text \<open>The element type \<^verbatim>\<open>[]map[string]interface{}\<close> of a decoded array: every element a map.\<close>

fun all_maps :: "gval list \<Rightarrow> gmap list option" where
  "all_maps [] = Some []"
| "all_maps (GMap m # xs) = map_option (Cons m) (all_maps xs)"
| "all_maps (GNil # xs) = map_option (Cons []) (all_maps xs)"
| "all_maps (_ # xs) = None"

definition decode_maps :: "raw \<Rightarrow> gmap list option" where
  "decode_maps r = (case r of RVal (GList xs) \<Rightarrow> all_maps xs | RVal GNil \<Rightarrow> Some [] | _ \<Rightarrow> None)"

text \<open>\<^verbatim>\<open>[]uint\<close>: every element a non-negative integer.\<close>

fun all_uints :: "gval list \<Rightarrow> nat list option" where
  "all_uints [] = Some []"
| "all_uints (GFloat r # xs) =
     (if 0 \<le> r \<and> of_int \<lfloor>r\<rfloor> = r then map_option (Cons (nat \<lfloor>r\<rfloor>)) (all_uints xs) else None)"
| "all_uints (GNil # xs) = map_option (Cons 0) (all_uints xs)"
| "all_uints (_ # xs) = None"

definition decode_uints :: "raw \<Rightarrow> nat list option" where
  "decode_uints r = (case r of RVal (GList xs) \<Rightarrow> all_uints xs | RVal GNil \<Rightarrow> Some [] | _ \<Rightarrow> None)"

definition uints_raw :: "nat list \<Rightarrow> raw" where
  "uints_raw ns = RVal (GList (map (\<lambda>n. GFloat (of_nat n)) ns))"

section \<open>Facts\<close>

lemma decode_uints_raw [simp]: "decode_uints (uints_raw ns) = Some ns"
proof -
  have "all_uints (map (\<lambda>n. GFloat (of_nat n)) ns) = Some ns"
    by (induction ns) simp_all
  then show ?thesis by (simp add: decode_uints_def uints_raw_def)
qed

lemma decode_mustJSON [simp]: "decode (mustJSON v) = Some (json_norm v)"
  by (simp add: decode_def mustJSON_def)

lemma decode_map_mustJSON [simp]:
  "decode_map (mustJSON (GMap m)) = Some (map (map_prod id json_norm) m)"
  by (simp add: decode_map_def mustJSON_def)

lemma mget_mput [simp]: "mget (mput m k v) k' = (if k' = k then v else mget m k')"
  by (simp add: mget_def mput_def update_conv')

lemma mhas_mput [simp]: "mhas (mput m k v) k' \<longleftrightarrow> k' = k \<or> mhas m k'"
  by (simp add: mhas_def mput_def update_conv')

lemma mget_mdel [simp]: "mget (mdel m k) k' = (if k' = k then GNil else mget m k')"
  by (simp add: mget_def mdel_def delete_conv')

lemma mhas_mdel [simp]: "mhas (mdel m k) k' \<longleftrightarrow> k' \<noteq> k \<and> mhas m k'"
  by (simp add: mhas_def mdel_def delete_conv')

lemma mget_Nil [simp]: "mget [] k = GNil"
  by (simp add: mget_def)

lemma mget_Cons [simp]: "mget ((k, v) # m) k' = (if k = k' then v else mget m k')"
  by (simp add: mget_def)

lemma mhas_Nil [simp]: "\<not> mhas [] k"
  by (simp add: mhas_def)

lemma mhas_Cons [simp]: "mhas ((k, v) # m) k' \<longleftrightarrow> k = k' \<or> mhas m k'"
  by (simp add: mhas_def)

lemma mget_no: "\<not> mhas m k \<Longrightarrow> mget m k = GNil"
  by (simp add: mget_def mhas_def)

lemma distinct_mput: "distinct (map fst m) \<Longrightarrow> distinct (map fst (mput m k v))"
  by (simp add: mput_def distinct_update)

lemma mget_map_prod: "mget (map (map_prod id f) m) k = (if mhas m k then f (mget m k) else GNil)"
  by (induction m) (auto simp: map_prod_def split: prod.splits)

lemma mget_mmerge:
  "distinct (map fst n) \<Longrightarrow> mget (mmerge m n) k = (if mhas n k then mget n k else mget m k)"
  unfolding mmerge_def
proof (induction n arbitrary: m)
  case (Cons kv n)
  obtain a v where kv: "kv = (a, v)" by (cases kv)
  then have na: "\<not> mhas n a" and dn: "distinct (map fst n)"
    using Cons.prems by (auto simp: mhas_def map_of_eq_None_iff)
  have "mget (foldl (\<lambda>m (k, v). mput m k v) m (kv # n)) k
      = (if mhas n k then mget n k else mget (mput m a v) k)"
    using Cons.IH [OF dn, of "mput m a v"] by (simp add: kv)
  with na show ?case by (auto simp: kv)
qed simp

lemma mhas_mmerge: "mhas (mmerge m n) k \<longleftrightarrow> mhas m k \<or> mhas n k"
  unfolding mmerge_def by (induction n arbitrary: m) (simp_all split: prod.split, blast)

lemma mput_same: "mget m k = v \<Longrightarrow> mhas m k \<Longrightarrow> mput m k v = m"
proof (induction m)
  case (Cons kv m)
  then show ?case by (cases kv) (auto simp: mput_def split: if_splits)
qed simp

lemma as_simps [simp]:
  "as_str (GStr s) = s" "as_str GNil = []" "as_bool (GBool b) = b" "as_bool GNil = False"
  "as_map (GMap m) = m" "as_map GNil = []" "as_list (GList xs) = xs" "as_list GNil = []"
  "as_float (GFloat r) = r" "as_float GNil = 0"
  by (simp_all add: as_str_def as_bool_def as_map_def as_list_def as_float_def)

lemma trunc_rat_of_int [simp]: "trunc_rat (of_int i) = i"
  by (simp add: trunc_rat_def)

lemma json_norm_idem [simp]: "json_norm (json_norm v) = json_norm v"
  by (induction v) (auto simp: comp_def map_prod_def split: prod.splits)

lemma float_str_of_int [simp]: "float_str (of_int i) = Itoa i"
  by (auto simp: float_str_def Itoa_def Let_def)

lemma sprint_json_norm [simp]: "sprint (json_norm v) = sprint v"
proof (induction v)
  case (GMap m)
  then have "map (\<lambda>(k, v). k @ '':'' @ sprint v) (map (map_prod id json_norm) m)
      = map (\<lambda>(k, v). k @ '':'' @ sprint v) m" by (fastforce simp: comp_def)
  then show ?case by (simp only: sprint.simps json_norm.simps)
next
  case (GMaps ms)
  then have "map (\<lambda>m. ''map['' @ Join (map (\<lambda>(k, v). k @ '':'' @ sprint v) (map (map_prod id json_norm) m)) '' '' @ '']'') ms
      = map (\<lambda>m. ''map['' @ Join (map (\<lambda>(k, v). k @ '':'' @ sprint v) m) '' '' @ '']'') ms"
    by (fastforce simp: comp_def intro!: arg_cong [where f = "\<lambda>l. Join l '' ''"])
  then show ?case by (simp only: sprint.simps json_norm.simps map_map comp_def)
qed (simp_all add: comp_def cong: map_cong)

lemma sprint_mget_norm [simp]: "sprint (mget (map (map_prod id json_norm) m) k) = sprint (mget m k)"
  by (simp add: mget_map_prod mget_no)

lemma mget_mmerge_other: "\<not> mhas n k \<Longrightarrow> mget (mmerge m n) k = mget m k"
  unfolding mmerge_def
proof (induction n arbitrary: m)
  case (Cons kv n)
  then show ?case by (cases kv) auto
qed simp

end
