(* ===== verification/Common_Util.thy ===== *)
theory Common_Util
  imports Go_Values
begin

text \<open>
  \<^verbatim>\<open>util/common\<close>: error construction, random identifiers and the two set operations on
  slices of ids. Randomness is an argument: \<open>rnd\<close> is the stream of numbers the system's
  generator delivers and a position says how much of it is used up.
\<close>

section \<open>Errors\<close>

text \<open>\<open>NewError\<close> formats with \<open>Sprintln\<close>, which ends the message with a newline.\<close>

definition NewError :: "string \<Rightarrow> 'a result" where
  "NewError msg = Inl (msg @ [CHR 0x0A])"

definition NewErrorf :: "string \<Rightarrow> 'a result" where
  "NewErrorf msg = Inl msg"

text \<open>The verb \<open>%q\<close> on text without characters to escape.\<close>

definition quoted :: "string \<Rightarrow> string" where
  "quoted s = CHR 0x22 # s @ [CHR 0x22]"

lemma errors_Inl [simp]: "NewError m = Inr x \<longleftrightarrow> False" "NewErrorf m = Inr x \<longleftrightarrow> False"
  "Inr x = NewError m \<longleftrightarrow> False" "Inr x = NewErrorf m \<longleftrightarrow> False"
  by (simp_all add: NewError_def NewErrorf_def)

lemma errors_isl [simp]: "isl (NewError m)" "isl (NewErrorf m)"
  by (simp_all add: NewError_def NewErrorf_def)

section \<open>Random text\<close>

definition allSeq :: "string" where
  "allSeq = ''ABCDEFGHIJKLMNOPQRSTUVWXYZabcdefghijklmnopqrstuvwxyz0123456789''"

definition Random :: "(nat \<Rightarrow> nat) \<Rightarrow> nat \<Rightarrow> int \<Rightarrow> string" where
  "Random rnd pos n = map (\<lambda>i. allSeq ! (rnd (pos + i) mod length allSeq)) [0..<nat n]"

definition RandomInt :: "(nat \<Rightarrow> nat) \<Rightarrow> nat \<Rightarrow> int \<Rightarrow> int" where
  "RandomInt rnd pos n = (if n \<le> 0 then 0 else int (rnd pos) mod n)"

lemma length_allSeq [simp]: "length allSeq = 62"
  by (simp add: allSeq_def)

lemma length_Random [simp]: "length (Random rnd pos n) = nat n"
  by (simp add: Random_def)

lemma set_Random: "set (Random rnd pos n) \<subseteq> set allSeq"
proof
  fix c
  assume "c \<in> set (Random rnd pos n)"
  then obtain i where "c = allSeq ! (rnd (pos + i) mod length allSeq)"
    by (auto simp: Random_def)
  moreover have "rnd (pos + i) mod length allSeq < length allSeq" by simp
  ultimately show "c \<in> set allSeq" by (metis nth_mem)
qed

lemma Random_not_in: "c \<notin> set allSeq \<Longrightarrow> c \<notin> set (Random rnd pos n)"
  using set_Random by blast

section \<open>Slices as sets\<close>

text \<open>
  \<open>UnionUintArray\<close> collects the keys of a map, in whatever order Go's iteration takes; the
  list here has them in the order of first occurrence and the facts about it speak of its
  set only.
\<close>

definition UnionUintArray :: "nat list \<Rightarrow> nat list \<Rightarrow> nat list" where
  "UnionUintArray a b =
     foldl (\<lambda>res v. if v \<in> set res then res else res @ [v])
       (foldl (\<lambda>res v. if v \<in> set res then res else res @ [v]) [] a) b"

definition DiffUintArray :: "nat list \<Rightarrow> nat list \<Rightarrow> nat list" where
  "DiffUintArray a b =
     filter (\<lambda>v. v \<notin> set a) b @ filter (\<lambda>v. v \<notin> set b) a"

lemma insert_all_set:
  "set (foldl (\<lambda>res v. if v \<in> set res then res else res @ [v]) acc xs) = set acc \<union> set xs"
  by (induction xs arbitrary: acc) auto

lemma insert_all_distinct:
  "distinct acc \<Longrightarrow> distinct (foldl (\<lambda>res v. if v \<in> set res then res else res @ [v]) acc xs)"
  by (induction xs arbitrary: acc) auto

lemma set_UnionUintArray [simp]: "set (UnionUintArray a b) = set a \<union> set b"
  by (simp add: UnionUintArray_def insert_all_set)

lemma distinct_UnionUintArray [simp]: "distinct (UnionUintArray a b)"
  by (simp add: UnionUintArray_def insert_all_distinct)

lemma set_DiffUintArray [simp]: "set (DiffUintArray a b) = (set a - set b) \<union> (set b - set a)"
  by (auto simp: DiffUintArray_def)

lemma DiffUintArray_Nil_iff: "DiffUintArray a b = [] \<longleftrightarrow> set a = set b"
  by (auto simp: DiffUintArray_def filter_empty_conv)

end
