(* ===== verification/Db_Model.thy ===== *)
theory Db_Model
  imports Go_Values
begin

text \<open>
  The rows of the database (\<^verbatim>\<open>database/model\<close>) and the conversions between a row and the
  JSON object the panel and the cores exchange: \<^verbatim>\<open>Inbound\<close>, \<^verbatim>\<open>Outbound\<close>, \<^verbatim>\<open>Endpoint\<close> and
  \<^verbatim>\<open>Service\<close> keep a few fixed columns and the remaining fields of the object in \<open>Options\<close>.
  A type assertion without the comma-ok form panics; the panic is the error value.
\<close>

section \<open>Rows\<close>

record tls_row =
  tls_Id :: nat
  tls_Name :: string
  tls_Server :: raw
  tls_Client :: raw

record inbound =
  in_Id :: nat
  in_Type :: string
  in_Tag :: string
  in_CoreType :: string
  in_TlsId :: nat
  in_Tls :: "tls_row option"
  in_Addrs :: raw
  in_OutJson :: raw
  in_Options :: raw

record outbound =
  out_Id :: nat
  out_Type :: string
  out_Tag :: string
  out_Options :: raw

record endpoint =
  ep_Id :: nat
  ep_Type :: string
  ep_Tag :: string
  ep_Options :: raw
  ep_Ext :: raw

record service_row =
  sv_Id :: nat
  sv_Type :: string
  sv_Tag :: string
  sv_TlsId :: nat
  sv_Tls :: "tls_row option"
  sv_Options :: raw

text \<open>The columns of \<^verbatim>\<open>Client\<close>; \<open>links\<close> and \<open>config\<close> are decoded where they are used.\<close>

record client =
  cl_Id :: nat
  cl_Enable :: bool
  cl_Name :: string
  cl_Config :: raw
  cl_Inbounds :: raw
  cl_Links :: raw
  cl_Volume :: int
  cl_Expiry :: int
  cl_Down :: int
  cl_Up :: int
  cl_Desc :: string
  cl_Group :: string
  cl_Remark :: string
  cl_CreatedAt :: int
  cl_OnlineAt :: int
  cl_DelayStart :: bool
  cl_AutoReset :: bool
  cl_ResetDays :: int
  cl_NextReset :: int
  cl_TotalUp :: int
  cl_TotalDown :: int

record stat_row =
  st_DateTime :: int
  st_Resource :: string
  st_Tag :: string
  st_Direction :: bool
  st_Traffic :: int

record change =
  ch_DateTime :: int
  ch_Actor :: string
  ch_Key :: string
  ch_Action :: string
  ch_Obj :: raw

section \<open>Inbounds\<close>

abbreviation "CoreTypeSingBox \<equiv> ''sing-box''"
abbreviation "CoreTypeXray \<equiv> ''xray''"

definition RuntimeCore :: "inbound \<Rightarrow> string" where
  "RuntimeCore i = (if in_CoreType i = [] then CoreTypeSingBox else in_CoreType i)"

definition json_err :: "string" where
  "json_err = ''invalid JSON''"

text \<open>\<open>if val, exists := raw[k].(float64); exists { field = uint(val) }\<close>\<close>

definition set_uint :: "nat \<Rightarrow> gval \<Rightarrow> nat" where
  "set_uint old v = (case v of GFloat r \<Rightarrow> nat (trunc_rat r) | _ \<Rightarrow> old)"

definition Inbound_UnmarshalJSON :: "inbound \<Rightarrow> raw \<Rightarrow> inbound result" where
  "Inbound_UnmarshalJSON i data =
     (case decode_map data of
        None \<Rightarrow> Inl json_err
      | Some raw0 \<Rightarrow>
          let id = set_uint (in_Id i) (mget raw0 ''id'');
              raw1 = mdel raw0 ''id'';
              type = as_str (mget raw1 ''type'');
              raw2 = mdel raw1 ''type'';
              tag = as_str (mget raw2 ''tag'');
              raw3 = mdel raw2 ''tag'';
              core0 = as_str (mget raw3 ''core_type'');
              core = (if core0 = [] then CoreTypeSingBox else core0);
              raw4 = mdel raw3 ''core_type'';
              tlsId = set_uint (in_TlsId i) (mget raw4 ''tls_id'');
              raw5 = mdel (mdel (mdel raw4 ''tls_id'') ''tls'') ''users'';
              addrs = mustJSON (mget raw5 ''addrs'');
              raw6 = mdel raw5 ''addrs'';
              outJson = mustJSON (mget raw6 ''out_json'');
              raw7 = mdel raw6 ''out_json''
          in Inr (i\<lparr>in_Id := id, in_Type := type, in_Tag := tag, in_CoreType := core,
                    in_TlsId := tlsId, in_Addrs := addrs, in_OutJson := outJson,
                    in_Options := mustJSON (GMap raw7)\<rparr>))"

text \<open>The value of \<^verbatim>\<open>tls\<close> in the sing-box object; a TUIC inbound always announces an ALPN.\<close>

definition tuic_has_alpn :: "gval \<Rightarrow> bool" where
  "tuic_has_alpn v = (case v of
     GList xs \<Rightarrow> xs \<noteq> [] | GStrs xs \<Rightarrow> xs \<noteq> [] | GStr s \<Rightarrow> s \<noteq> [] | _ \<Rightarrow> False)"

definition marshal_raw :: "raw \<Rightarrow> gval result" where
  "marshal_raw r = (case r of RNil \<Rightarrow> Inr GNil | RBad \<Rightarrow> Inl json_err | RVal v \<Rightarrow> Inr v)"

definition inbound_tls_value :: "string \<Rightarrow> tls_row \<Rightarrow> gval result" where
  "inbound_tls_value type t =
     (case decode_map (tls_Server t) of
        Some tls \<Rightarrow>
          if type = ''tuic'' then
            if tls = [] \<and> decode (tls_Server t) = Some GNil then Inl ''panic: assignment to entry in nil map''
            else Inr (GMap (if tuic_has_alpn (mget tls ''alpn'') then tls
                            else mput tls ''alpn'' (GStrs [''h3''])))
          else marshal_raw (tls_Server t)
      | None \<Rightarrow> marshal_raw (tls_Server t))"

definition rest_fields :: "raw \<Rightarrow> gmap \<Rightarrow> gmap result" where
  "rest_fields opts combined =
     (if opts = RNil then Inr combined
      else case decode_map opts of
        None \<Rightarrow> Inl json_err
      | Some rest \<Rightarrow> Inr (mmerge combined rest))"

definition Inbound_MarshalJSON :: "inbound \<Rightarrow> raw result" where
  "Inbound_MarshalJSON i =
     (let base = [(''type'', GStr (in_Type i)), (''tag'', GStr (in_Tag i))] in
      case (case in_Tls i of
              None \<Rightarrow> Inr base
            | Some t \<Rightarrow> (case inbound_tls_value (in_Type i) t of
                 Inl e \<Rightarrow> Inl e | Inr v \<Rightarrow> Inr (mput base ''tls'' v))) of
        Inl e \<Rightarrow> Inl e
      | Inr combined \<Rightarrow>
          (case rest_fields (in_Options i) combined of
             Inl e \<Rightarrow> Inl e | Inr m \<Rightarrow> Inr (mustJSON (GMap m))))"

text \<open>\<open>MarshalFull\<close>: the row with its columns, as the panel sees it. The two raw columns are
  values of the map; a nil or undecodable one is \<^const>\<open>GNil\<close> here.\<close>

definition raw_val :: "raw \<Rightarrow> gval" where
  "raw_val r = (case r of RVal v \<Rightarrow> v | _ \<Rightarrow> GNil)"

definition MarshalFull :: "inbound \<Rightarrow> gmap result" where
  "MarshalFull i =
     rest_fields (in_Options i)
       [(''id'', GInt (int (in_Id i))), (''type'', GStr (in_Type i)), (''tag'', GStr (in_Tag i)),
        (''core_type'', GStr (RuntimeCore i)), (''tls_id'', GInt (int (in_TlsId i))),
        (''addrs'', raw_val (in_Addrs i)), (''out_json'', raw_val (in_OutJson i))]"

section \<open>Outbounds, endpoints and services\<close>

definition must_str :: "gval \<Rightarrow> string result" where
  "must_str v = (case v of GStr s \<Rightarrow> Inr s | _ \<Rightarrow> Inl ''panic: interface conversion'')"

definition Outbound_UnmarshalJSON :: "outbound \<Rightarrow> raw \<Rightarrow> outbound result" where
  "Outbound_UnmarshalJSON ob data =
     (case decode_map data of
        None \<Rightarrow> Inl json_err
      | Some raw0 \<Rightarrow>
          let id = set_uint (out_Id ob) (mget raw0 ''id'');
              raw1 = mdel raw0 ''id'';
              type = as_str (mget raw1 ''type'');
              raw2 = mdel raw1 ''type''
          in case must_str (mget raw2 ''tag'') of
               Inl e \<Rightarrow> Inl e
             | Inr tag \<Rightarrow> Inr (ob\<lparr>out_Id := id, out_Type := type, out_Tag := tag,
                                out_Options := mustJSON (GMap (mdel raw2 ''tag''))\<rparr>))"

definition Outbound_MarshalJSON :: "outbound \<Rightarrow> raw result" where
  "Outbound_MarshalJSON ob =
     (case rest_fields (out_Options ob)
             [(''type'', GStr (out_Type ob)), (''tag'', GStr (out_Tag ob))] of
        Inl e \<Rightarrow> Inl e | Inr m \<Rightarrow> Inr (mustJSON (GMap m)))"

definition Endpoint_UnmarshalJSON :: "endpoint \<Rightarrow> raw \<Rightarrow> endpoint result" where
  "Endpoint_UnmarshalJSON ep data =
     (case decode_map data of
        None \<Rightarrow> Inl json_err
      | Some raw0 \<Rightarrow>
          let id = set_uint (ep_Id ep) (mget raw0 ''id'');
              raw1 = mdel raw0 ''id'';
              type = as_str (mget raw1 ''type'');
              raw2 = mdel raw1 ''type''
          in case must_str (mget raw2 ''tag'') of
               Inl e \<Rightarrow> Inl e
             | Inr tag \<Rightarrow>
                 let raw3 = mdel raw2 ''tag'';
                     ext = mustJSON (mget raw3 ''ext'')
                 in Inr (ep\<lparr>ep_Id := id, ep_Type := type, ep_Tag := tag, ep_Ext := ext,
                           ep_Options := mustJSON (GMap (mdel raw3 ''ext''))\<rparr>))"

definition Endpoint_MarshalJSON :: "endpoint \<Rightarrow> raw result" where
  "Endpoint_MarshalJSON ep =
     (case rest_fields (ep_Options ep)
             [(''type'', GStr (if ep_Type ep = ''warp'' then ''wireguard'' else ep_Type ep)),
              (''tag'', GStr (ep_Tag ep))] of
        Inl e \<Rightarrow> Inl e | Inr m \<Rightarrow> Inr (mustJSON (GMap m)))"

definition Service_UnmarshalJSON :: "service_row \<Rightarrow> raw \<Rightarrow> service_row result" where
  "Service_UnmarshalJSON i data =
     (case decode_map data of
        None \<Rightarrow> Inl json_err
      | Some raw0 \<Rightarrow>
          let id = set_uint (sv_Id i) (mget raw0 ''id'');
              raw1 = mdel raw0 ''id'';
              type = as_str (mget raw1 ''type'');
              raw2 = mdel raw1 ''type'';
              tag = as_str (mget raw2 ''tag'');
              raw3 = mdel raw2 ''tag'';
              tlsId = set_uint (sv_TlsId i) (mget raw3 ''tls_id'');
              raw4 = mdel (mdel raw3 ''tls_id'') ''tls''
          in Inr (i\<lparr>sv_Id := id, sv_Type := type, sv_Tag := tag, sv_TlsId := tlsId,
                    sv_Options := mustJSON (GMap raw4)\<rparr>))"

definition Service_MarshalJSON :: "service_row \<Rightarrow> raw result" where
  "Service_MarshalJSON i =
     (let base = [(''type'', GStr (sv_Type i)), (''tag'', GStr (sv_Tag i))] in
      case (case sv_Tls i of
              None \<Rightarrow> Inr base
            | Some t \<Rightarrow> (case marshal_raw (tls_Server t) of
                 Inl e \<Rightarrow> Inl e | Inr v \<Rightarrow> Inr (mput base ''tls'' v))) of
        Inl e \<Rightarrow> Inl e
      | Inr combined \<Rightarrow>
          (case rest_fields (sv_Options i) combined of
             Inl e \<Rightarrow> Inl e | Inr m \<Rightarrow> Inr (mustJSON (GMap m))))"

definition Service_MarshalFull :: "service_row \<Rightarrow> gmap result" where
  "Service_MarshalFull i =
     rest_fields (sv_Options i)
       [(''id'', GInt (int (sv_Id i))), (''type'', GStr (sv_Type i)), (''tag'', GStr (sv_Tag i)),
        (''tls_id'', GInt (int (sv_TlsId i)))]"

end
