(* ===== verification/Netip.thy ===== *)
theory Netip
  imports Go_Strings
begin

text \<open>
  The part of Go's \<^verbatim>\<open>net/netip\<close> and \<^verbatim>\<open>net\<close> packages the panel uses: IP addresses and prefixes,
  their text form, and \<open>net.SplitHostPort\<close> / \<open>net.JoinHostPort\<close>. An address is a machine
  word; the sixteen bytes of \<open>As16\<close> are the big-endian view of a 128-bit word.
\<close>

unbundle bit_operations_syntax

section \<open>Addresses\<close>

datatype addr = AddrZero | V4 "32 word" | V6 "128 word" string

definition Is4 :: "addr \<Rightarrow> bool" where
  "Is4 a = (case a of V4 _ \<Rightarrow> True | _ \<Rightarrow> False)"

definition Is6 :: "addr \<Rightarrow> bool" where
  "Is6 a = (case a of V6 _ _ \<Rightarrow> True | _ \<Rightarrow> False)"

definition Is4In6 :: "addr \<Rightarrow> bool" where
  "Is4In6 a = (case a of V6 w _ \<Rightarrow> drop_bit 32 w = 0xFFFF | _ \<Rightarrow> False)"

definition addr_IsValid :: "addr \<Rightarrow> bool" where
  "addr_IsValid a \<longleftrightarrow> a \<noteq> AddrZero"

definition Unmap :: "addr \<Rightarrow> addr" where
  "Unmap a = (case a of V6 w z \<Rightarrow> if Is4In6 a then V4 (ucast w) else a | _ \<Rightarrow> a)"

definition As16 :: "addr \<Rightarrow> 128 word" where
  "As16 a = (case a of AddrZero \<Rightarrow> 0 | V4 w \<Rightarrow> ucast w OR push_bit 32 0xFFFF | V6 w _ \<Rightarrow> w)"

definition AddrFrom16 :: "128 word \<Rightarrow> addr" where
  "AddrFrom16 w = V6 w []"

definition addr_IsLoopback :: "addr \<Rightarrow> bool" where
  "addr_IsLoopback a = (case Unmap a of
     V4 w \<Rightarrow> drop_bit 24 w = 127 | V6 w _ \<Rightarrow> w = 1 | AddrZero \<Rightarrow> False)"

definition addr_IsMulticast :: "addr \<Rightarrow> bool" where
  "addr_IsMulticast a = (case Unmap a of
     V4 w \<Rightarrow> drop_bit 28 w = 0xE | V6 w _ \<Rightarrow> drop_bit 120 w = 0xFF | AddrZero \<Rightarrow> False)"

definition addr_IsLinkLocalUnicast :: "addr \<Rightarrow> bool" where
  "addr_IsLinkLocalUnicast a = (case Unmap a of
     V4 w \<Rightarrow> drop_bit 16 w = 0xA9FE | V6 w _ \<Rightarrow> drop_bit 118 w = 0x3FA | AddrZero \<Rightarrow> False)"

definition addr_IsGlobalUnicast :: "addr \<Rightarrow> bool" where
  "addr_IsGlobalUnicast a \<longleftrightarrow>
     a \<noteq> AddrZero \<and>
     (let u = Unmap a in
       u \<noteq> V4 0 \<and> u \<noteq> V4 0xFFFFFFFF \<and> u \<noteq> V6 0 [] \<and>
       \<not> addr_IsLoopback u \<and> \<not> addr_IsMulticast u \<and> \<not> addr_IsLinkLocalUnicast u)"

definition addr_IsPrivate :: "addr \<Rightarrow> bool" where
  "addr_IsPrivate a = (case Unmap a of
     V4 w \<Rightarrow> drop_bit 24 w = 10 \<or> drop_bit 20 w = 0xAC1 \<or> drop_bit 16 w = 0xC0A8
   | V6 w _ \<Rightarrow> drop_bit 121 w = 0x7E
   | AddrZero \<Rightarrow> False)"

section \<open>Parsing\<close>

definition parse_octet :: "string \<Rightarrow> int option" where
  "parse_octet s =
     (if s = [] \<or> \<not> list_all is_digit s \<or> (length s > 1 \<and> hd s = CHR ''0'') \<or> digits_val s > 255
      then None else Some (digits_val s))"

definition parse_v4 :: "string \<Rightarrow> 32 word option" where
  "parse_v4 s = (case map parse_octet (Split s (CHR ''.'')) of
     [Some a, Some b, Some c, Some d] \<Rightarrow> Some (of_int (((a * 256 + b) * 256 + c) * 256 + d))
   | _ \<Rightarrow> None)"

definition hex_val :: "char \<Rightarrow> int option" where
  "hex_val c = (let n = of_char c :: int in
     if 48 \<le> n \<and> n \<le> 57 then Some (n - 48)
     else if 97 \<le> n \<and> n \<le> 102 then Some (n - 87)
     else if 65 \<le> n \<and> n \<le> 70 then Some (n - 55) else None)"

definition is_hex :: "char \<Rightarrow> bool" where
  "is_hex c \<longleftrightarrow> hex_val c \<noteq> None"

definition hex_num :: "string \<Rightarrow> int" where
  "hex_num s = foldl (\<lambda>a c. 16 * a + (case hex_val c of Some v \<Rightarrow> v | None \<Rightarrow> 0)) 0 s"

text \<open>
  The loop of \<open>parseIPv6\<close>: at most eight groups; \<open>el\<close> is the position of \<^verbatim>\<open>::\<close>. The first
  argument counts the groups still allowed, so the loop ends.
\<close>

fun v6_loop :: "nat \<Rightarrow> string \<Rightarrow> int list \<Rightarrow> nat option \<Rightarrow> (int list \<times> nat option \<times> string) option" where
  "v6_loop 0 s gs el = Some (gs, el, s)"
| "v6_loop (Suc n) s gs el =
     (let h = takeWhile is_hex s; r = dropWhile is_hex s in
      if h = [] \<or> length h > 4 then None
      else case r of
        [] \<Rightarrow> Some (gs @ [hex_num h], el, [])
      | c # r' \<Rightarrow>
          if c = CHR ''.'' then
            (if el = None \<and> length gs \<noteq> 6 \<or> length gs > 6 then None
             else map_option (\<lambda>w. (gs @ [uint w div 65536, uint w mod 65536], el, [])) (parse_v4 s))
          else if c \<noteq> CHR '':'' \<or> r' = [] then None
          else if hd r' = CHR '':'' then
            (if el \<noteq> None then None
             else if tl r' = [] then Some (gs @ [hex_num h], Some (Suc (length gs)), [])
             else v6_loop n (tl r') (gs @ [hex_num h]) (Some (Suc (length gs))))
          else v6_loop n r' (gs @ [hex_num h]) el)"

definition v6_groups :: "int list \<Rightarrow> 128 word" where
  "v6_groups gs = foldl (\<lambda>a g. a * 65536 + of_int g) 0 gs"

definition v6_finish :: "int list \<times> nat option \<times> string \<Rightarrow> 128 word option" where
  "v6_finish r = (case r of (gs, el, rest) \<Rightarrow>
     if rest \<noteq> [] then None
     else if length gs < 8 then
       (case el of None \<Rightarrow> None
        | Some e \<Rightarrow> Some (v6_groups (take e gs @ replicate (8 - length gs) 0 @ drop e gs)))
     else if el \<noteq> None then None else Some (v6_groups gs))"

definition parse_v6 :: "string \<Rightarrow> addr option" where
  "parse_v6 s0 =
     (let (s, zone) = (case Cut s0 ''%'' of None \<Rightarrow> (s0, None) | Some (a, z) \<Rightarrow> (a, Some z)) in
      if zone = Some [] then None
      else
        let z = (case zone of None \<Rightarrow> [] | Some z \<Rightarrow> z);
            lead = HasPrefix s ''::'';
            s' = (if lead then drop 2 s else s)
        in if lead \<and> s' = [] then Some (V6 0 z)
           else case Option.bind (v6_loop 8 s' [] (if lead then Some 0 else None)) v6_finish of
                  None \<Rightarrow> None | Some w \<Rightarrow> Some (V6 w z))"

text \<open>\<open>netip.ParseAddr\<close>: the first of \<^verbatim>\<open>.\<close>, \<^verbatim>\<open>:\<close> and \<^verbatim>\<open>%\<close> decides the family.\<close>

definition ParseAddr :: "string \<Rightarrow> addr option" where
  "ParseAddr s =
     (case dropWhile (\<lambda>c. c \<notin> set ''.:%'') s of
        [] \<Rightarrow> None
      | c # _ \<Rightarrow> if c = CHR ''.'' then map_option V4 (parse_v4 s)
                else if c = CHR '':'' then parse_v6 s else None)"

section \<open>Printing\<close>

definition v4_str :: "32 word \<Rightarrow> string" where
  "v4_str w = Join (map (\<lambda>k. nat_str (uint (drop_bit k w AND 0xFF))) [24, 16, 8, 0]) ''.''"

function hex_str :: "int \<Rightarrow> string" where
  "hex_str n = (if n < 16 then [''0123456789abcdef'' ! nat n]
     else hex_str (n div 16) @ [''0123456789abcdef'' ! nat (n mod 16)])"
  by pat_completeness auto
termination
  by (relation "measure nat") auto

declare hex_str.simps [simp del]

definition v6_group_list :: "128 word \<Rightarrow> int list" where
  "v6_group_list w = map (\<lambda>i. uint (drop_bit (112 - 16 * i) w AND 0xFFFF)) [0..<8]"

text \<open>The first longest run of at least two zero groups, as \<open>(start, length)\<close>.\<close>

definition zero_run :: "int list \<Rightarrow> nat \<times> nat" where
  "zero_run gs = foldl (\<lambda>(s, l) i.
     let l' = length (takeWhile (\<lambda>g. g = 0) (drop i gs)) in
     if l' \<ge> 2 \<and> l' > l then (i, l') else (s, l)) (0, 0) [0..<length gs]"

definition v6_str :: "128 word \<Rightarrow> string" where
  "v6_str w =
     (let gs = v6_group_list w; (s, l) = zero_run gs; hexes = (\<lambda>xs. Join (map hex_str xs) '':'') in
      if l = 0 then hexes gs
      else hexes (take s gs) @ ''::'' @ hexes (drop (s + l) gs))"

definition addr_String :: "addr \<Rightarrow> string" where
  "addr_String a = (case a of
     AddrZero \<Rightarrow> ''invalid IP''
   | V4 w \<Rightarrow> v4_str w
   | V6 w z \<Rightarrow> (if Is4In6 a then ''::ffff:'' @ v4_str (ucast w) else v6_str w)
              @ (if z = [] then [] else ''%'' @ z))"

section \<open>Prefixes\<close>

text \<open>\<open>PrefixFrom\<close> drops the zone; a prefix is valid when its length fits the family.\<close>

definition addr_BitLen :: "addr \<Rightarrow> nat" where
  "addr_BitLen a = (case a of AddrZero \<Rightarrow> 0 | V4 _ \<Rightarrow> 32 | V6 _ _ \<Rightarrow> 128)"

definition WithoutZone :: "addr \<Rightarrow> addr" where
  "WithoutZone a = (case a of V6 w _ \<Rightarrow> V6 w [] | _ \<Rightarrow> a)"

definition ParsePrefix :: "string \<Rightarrow> (addr \<times> int) option" where
  "ParsePrefix s =
     (case cut_last (CHR ''/'') s of
        None \<Rightarrow> None
      | Some (a, b) \<Rightarrow>
          (case ParseAddr a of
             None \<Rightarrow> None
           | Some ip \<Rightarrow>
               if WithoutZone ip \<noteq> ip then None
               else if length b > 1 \<and> \<not> (hd b \<noteq> CHR ''0'' \<and> is_digit (hd b)) then None
               else (case Atoi b of
                  None \<Rightarrow> None
                | Some n \<Rightarrow> if n < 0 \<or> n > int (addr_BitLen ip) then None else Some (ip, n))))"

definition prefix_valid :: "addr \<Rightarrow> int \<Rightarrow> bool" where
  "prefix_valid ip bits \<longleftrightarrow> ip \<noteq> AddrZero \<and> 0 \<le> bits \<and> bits \<le> int (addr_BitLen ip)"

text \<open>\<open>netip.PrefixFrom(ip, bits).Masked().Addr()\<close> and \<open>netip.PrefixFrom(net, bits).Contains(ip)\<close>.\<close>

definition prefix_Masked :: "addr \<Rightarrow> int \<Rightarrow> addr" where
  "prefix_Masked ip bits =
     (if \<not> prefix_valid ip bits then AddrZero
      else case ip of
        V4 w \<Rightarrow> V4 (w AND NOT (mask (32 - nat bits)))
      | V6 w _ \<Rightarrow> V6 (w AND NOT (mask (128 - nat bits))) []
      | AddrZero \<Rightarrow> AddrZero)"

definition prefix_Contains :: "addr \<Rightarrow> int \<Rightarrow> addr \<Rightarrow> bool" where
  "prefix_Contains net bits ip \<longleftrightarrow>
     prefix_valid net bits \<and> WithoutZone ip = ip \<and>
     (case (net, ip) of
        (V4 n, V4 w) \<Rightarrow> drop_bit (32 - nat bits) (n XOR w) = 0
      | (V6 n _, V6 w _) \<Rightarrow> drop_bit (128 - nat bits) (n XOR w) = 0
      | _ \<Rightarrow> False)"

section \<open>Host and port\<close>

definition SplitHostPort :: "string \<Rightarrow> (string \<times> string) option" where
  "SplitHostPort hp =
     (case cut_last (CHR '':'') hp of
        None \<Rightarrow> None
      | Some (pre, port) \<Rightarrow>
          if HasPrefix hp ''['' then
            (case Cut hp '']'' of
               None \<Rightarrow> None
             | Some (host', after) \<Rightarrow>
                 if after \<noteq> '':'' @ port then None
                 else if CHR ''['' \<in> set (tl host' @ after) \<or> CHR '']'' \<in> set after then None
                 else Some (tl host', port))
          else if CHR '':'' \<in> set pre then None
          else if CHR ''['' \<in> set hp \<or> CHR '']'' \<in> set hp then None
          else Some (pre, port))"

definition JoinHostPort :: "string \<Rightarrow> string \<Rightarrow> string" where
  "JoinHostPort host port =
     (if CHR '':'' \<in> set host then ''['' @ host @ '']:'' @ port else host @ '':'' @ port)"

text \<open>What \<open>JoinHostPort\<close> builds, \<open>SplitHostPort\<close> takes apart.\<close>

lemma Cut_append_first:
  "c \<notin> set a \<Longrightarrow> Cut (a @ c # b) [c] = Some (a, b)"
  by (induction a) (auto simp: HasPrefix_def)

lemma SplitHostPort_JoinHostPort:
  assumes "CHR ''['' \<notin> set host" "CHR '']'' \<notin> set host"
    and "CHR '':'' \<notin> set port" "CHR ''['' \<notin> set port" "CHR '']'' \<notin> set port"
  shows "SplitHostPort (JoinHostPort host port) = Some (host, port)"
proof (cases "CHR '':'' \<in> set host")
  case True
  have "cut_last (CHR '':'') (''['' @ host @ '']:'' @ port) = Some (''['' @ host @ '']'', port)"
    using cut_last_append [of "CHR '':''" port "''['' @ host @ '']''"] assms by simp
  moreover have "Cut (''['' @ host @ '']:'' @ port) '']'' = Some (''['' @ host, '':'' @ port)"
    using Cut_append_first [of "CHR '']''" "''['' @ host" "'':'' @ port"] assms by simp
  ultimately show ?thesis
    using True assms by (simp add: SplitHostPort_def JoinHostPort_def HasPrefix_def)
next
  case False
  have "cut_last (CHR '':'') (host @ '':'' @ port) = Some (host, port)"
    using cut_last_append [of "CHR '':''" port host] assms by simp
  moreover have "\<not> HasPrefix (host @ '':'' @ port) ''[''"
    using assms(1) by (cases host) (auto simp: HasPrefix_def)
  ultimately show ?thesis
    using False assms by (simp add: SplitHostPort_def JoinHostPort_def)
qed

end
