(* ===== verification/Relay_Model.thy ===== *)
theory Relay_Model
  imports Common_Util Db_Model Netip
begin

text \<open>
  The data of the relay workflow (\<^verbatim>\<open>service/relay.go\<close>, \<^verbatim>\<open>database/model/relay_pools.go\<close>): modes,
  protocol tables, pools, items, refresh links and requests, and the small pure functions on
  them: normalisation of the request fields, the endpoint text of an item, option maps.
\<close>

section \<open>Constants\<close>

abbreviation "relayModeIPv6 \<equiv> ''ipv6''"
abbreviation "relayModeUpstream \<equiv> ''upstream''"
abbreviation "relayModePaired \<equiv> ''paired''"
abbreviation "relayModeDualStack \<equiv> ''dualstack''"
abbreviation "relaySourceAutoAddIPv6 \<equiv> ''help660vip/auto-add-ipv6''"
abbreviation "relayDomainStrategyIPv4Only \<equiv> ''ipv4_only''"
abbreviation "relayDomainStrategyIPv6Only \<equiv> ''ipv6_only''"
abbreviation "relayDomainStrategyPreferIPv6 \<equiv> ''prefer_ipv6''"
abbreviation "relayPairedDNSResolverTag \<equiv> ''relay-paired-local-dns''"
abbreviation "relayAddressReady \<equiv> ''ready''"
abbreviation "relayAddressTentative \<equiv> ''tentative''"
abbreviation "relayAddressDADFailed \<equiv> ''dadfailed''"
abbreviation "relayAddressMissing \<equiv> ''missing''"
abbreviation "relayDualStackIPv6Timeout \<equiv> ''3s''"
abbreviation "relayIPv6EgressErrorCode \<equiv> ''relay_ipv6_egress_unreachable''"

definition relayIPv6DisplayLimit :: int where "relayIPv6DisplayLimit = 128"
definition relayRotationMinMinutes :: int where "relayRotationMinMinutes = 5"
definition relayRotationMaxMinutes :: int where "relayRotationMaxMinutes = 7 * 24 * 60"
definition relayRotationDefaultMinutes :: int where "relayRotationDefaultMinutes = 60"
definition maxRelayItems :: int where "maxRelayItems = 500"

definition relayAppleIDDomains :: "string list" where
  "relayAppleIDDomains = [''appleid.apple.com'', ''idmsa.apple.com'', ''gsa.apple.com'']"

definition relayVintedCaptchaDomains :: "string list" where
  "relayVintedCaptchaDomains =
     [''geo.captcha-delivery.com'', ''captcha-delivery.com'', ''js.datadome.co'', ''api-js.datadome.co'']"

definition relayModeUsesUpstream :: "string \<Rightarrow> bool" where
  "relayModeUsesUpstream mode \<longleftrightarrow>
     mode = relayModeUpstream \<or> mode = relayModePaired \<or> mode = relayModeDualStack"

definition relayModeUsesIPv6 :: "string \<Rightarrow> bool" where
  "relayModeUsesIPv6 mode \<longleftrightarrow>
     mode = relayModeIPv6 \<or> mode = relayModePaired \<or> mode = relayModeDualStack"

definition relayModePairsUpstream :: "string \<Rightarrow> bool" where
  "relayModePairsUpstream mode \<longleftrightarrow> mode = relayModePaired \<or> mode = relayModeDualStack"

definition relayProtocols :: "string list" where
  "relayProtocols =
     [''socks'', ''http'', ''mixed'', ''shadowsocks'', ''vless'', ''vmess'', ''trojan'',
      ''hysteria2'', ''tuic'', ''naive'', ''anytls'']"

definition relayTLSProtocols :: "string list" where
  "relayTLSProtocols = [''trojan'', ''hysteria2'', ''tuic'', ''naive'', ''anytls'']"

definition relayTLSSupportedProtocols :: "string list" where
  "relayTLSSupportedProtocols =
     [''vless'', ''vmess'', ''trojan'', ''hysteria2'', ''tuic'', ''naive'', ''anytls'']"

definition relayShadowsocksMethods :: "string list" where
  "relayShadowsocksMethods =
     [''aes-128-gcm'', ''aes-192-gcm'', ''aes-256-gcm'', ''chacha20-ietf-poly1305'',
      ''xchacha20-ietf-poly1305'', ''2022-blake3-aes-128-gcm'', ''2022-blake3-aes-256-gcm'',
      ''2022-blake3-chacha20-poly1305'']"

section \<open>Records\<close>

record relay_ipv6 =
  r6_Interface :: string
  r6_Address :: string
  r6_Prefix :: int

record relay_upstream =
  ru_Server :: string
  ru_Port :: int
  ru_Username :: string
  ru_Password :: string

record relay_request =
  rq_Name :: string
  rq_Source :: string
  rq_Mode :: string
  rq_PortStart :: int
  rq_Count :: int
  rq_UsernamePrefix :: string
  rq_PasswordLength :: int
  rq_PublicHost :: string
  rq_Interface :: string
  rq_BaseIPv6 :: string
  rq_Prefix :: int
  rq_AddSystemAddresses :: bool
  rq_IPv6Addresses :: "string list"
  rq_Upstreams :: "relay_upstream list"
  rq_UpstreamText :: string
  rq_Protocol :: string
  rq_CoreType :: string
  rq_TlsID :: nat
  rq_Transport :: string
  rq_DomainStrategy :: string
  rq_ShadowsocksMethod :: string
  rq_AppleIDIPv4Only :: bool

record relay_item =
  ri_InboundID :: nat
  ri_InboundTag :: string
  ri_OutboundTag :: string
  ri_IPv6OutboundTag :: string
  ri_IPv4OutboundTag :: string
  ri_AppleIDIPv4Only :: bool
  ri_ClientID :: nat
  ri_ListenPort :: int
  ri_Username :: string
  ri_Password :: string
  ri_InboundPassword :: string
  ri_Protocol :: string
  ri_UUID :: string
  ri_Method :: string
  ri_Export :: string
  ri_IPv6 :: string
  ri_Interface :: string
  ri_Prefix :: int
  ri_AddedByUs :: bool
  ri_RefreshToken :: string
  ri_UpstreamServer :: string
  ri_UpstreamPort :: int
  ri_UpstreamUsername :: string
  ri_UpstreamPassword :: string

definition empty_item :: relay_item where
  "empty_item = \<lparr>ri_InboundID = 0, ri_InboundTag = [], ri_OutboundTag = [], ri_IPv6OutboundTag = [],
     ri_IPv4OutboundTag = [], ri_AppleIDIPv4Only = False, ri_ClientID = 0, ri_ListenPort = 0,
     ri_Username = [], ri_Password = [], ri_InboundPassword = [], ri_Protocol = [], ri_UUID = [],
     ri_Method = [], ri_Export = [], ri_IPv6 = [], ri_Interface = [], ri_Prefix = 0,
     ri_AddedByUs = False, ri_RefreshToken = [], ri_UpstreamServer = [], ri_UpstreamPort = 0,
     ri_UpstreamUsername = [], ri_UpstreamPassword = []\<rparr>"

text \<open>The \<open>items\<close> column of a pool is the decoded list, \<^const>\<open>None\<close> when it is no such JSON.\<close>

record relay_pool =
  rp_Id :: nat
  rp_Name :: string
  rp_Source :: string
  rp_Mode :: string
  rp_Protocol :: string
  rp_CoreType :: string
  rp_TlsID :: nat
  rp_Transport :: string
  rp_DomainStrategy :: string
  rp_ListenHost :: string
  rp_PortStart :: int
  rp_Count :: int
  rp_Items :: "relay_item list option"
  rp_CreatedAt :: int
  rp_RotationEnabled :: bool
  rp_RotationIntervalMinutes :: int
  rp_LastRotatedAt :: int
  rp_NextRotateAt :: int

record relay_link =
  rl_Id :: nat
  rl_PoolID :: nat
  rl_InboundTag :: string
  rl_Token :: string
  rl_CreatedAt :: int
  rl_LastRotatedAt :: int

record relay_capabilities =
  rc_OS :: string
  rc_CanAddSystemIPv6 :: bool
  rc_UnavailableReason :: string

section \<open>Request normalisation\<close>

definition normalizeRelayDomainStrategy :: "string \<Rightarrow> string \<Rightarrow> string result" where
  "normalizeRelayDomainStrategy mode value =
     (if mode = relayModePaired \<or> mode = relayModeDualStack then
        (let v = ToLower (TrimSpace value) in
         if v = [] \<or> v = relayDomainStrategyPreferIPv6 then Inr relayDomainStrategyPreferIPv6
         else NewError ''paired and dualstack relay modes require prefer_ipv6 domain strategy'')
      else if mode \<noteq> relayModeIPv6 then Inr []
      else
        (let v = ToLower (TrimSpace value) in
         if v = [] then Inr relayDomainStrategyIPv6Only
         else if v = relayDomainStrategyIPv6Only \<or> v = relayDomainStrategyPreferIPv6 then Inr v
         else NewErrorf (''unsupported IPv6 address strategy '' @ quoted v)))"

definition relayDirectOutboundOptions :: "relay_request \<Rightarrow> relay_item \<Rightarrow> gmap" where
  "relayDirectOutboundOptions req item =
     (let s0 = rq_DomainStrategy req;
          s1 = (if rq_Mode req = relayModeDualStack \<or> rq_AppleIDIPv4Only req
                then relayDomainStrategyIPv6Only else s0);
          s2 = (if s1 = [] then relayDomainStrategyIPv6Only else s1)
      in [(''inet6_bind_address'', GStr (ri_IPv6 item)), (''domain_strategy'', GStr s2)])"

definition applyRelaySourcePreset :: "relay_request \<Rightarrow> relay_request result" where
  "applyRelaySourcePreset req0 =
     (let req = req0\<lparr>rq_Source := TrimSpace (rq_Source req0)\<rparr> in
      if rq_Source req = [] then Inr req
      else if rq_Source req = relaySourceAutoAddIPv6 then
        Inr (req\<lparr>rq_Mode := relayModeIPv6, rq_Protocol := ''socks'', rq_CoreType := CoreTypeSingBox,
                rq_AddSystemAddresses := True, rq_TlsID := 0, rq_Transport := []\<rparr>)
      else NewErrorf (''unsupported relay source '' @ quoted (rq_Source req)))"

definition normalizeRelayRotationInterval :: "bool \<Rightarrow> int \<Rightarrow> int result" where
  "normalizeRelayRotationInterval enabled interval0 =
     (let interval = (if interval0 = 0 then relayRotationDefaultMinutes else interval0);
          outside = (interval < relayRotationMinMinutes \<or> interval > relayRotationMaxMinutes)
      in if enabled \<and> outside then
           NewErrorf (''rotation interval must be between '' @ Itoa relayRotationMinMinutes @ '' and ''
             @ Itoa relayRotationMaxMinutes @ '' minutes'')
         else Inr (if outside then relayRotationDefaultMinutes else interval))"

definition buildRelayCapabilities :: "string \<Rightarrow> bool \<Rightarrow> bool \<Rightarrow> relay_capabilities" where
  "buildRelayCapabilities goos hasRoot hasIPCommand =
     (let c = \<lparr>rc_OS = goos, rc_CanAddSystemIPv6 = False, rc_UnavailableReason = []\<rparr> in
      if goos \<noteq> ''linux'' then c\<lparr>rc_UnavailableReason := ''unsupported_os''\<rparr>
      else if \<not> hasRoot then c\<lparr>rc_UnavailableReason := ''root_required''\<rparr>
      else if \<not> hasIPCommand then c\<lparr>rc_UnavailableReason := ''iproute2_required''\<rparr>
      else c\<lparr>rc_CanAddSystemIPv6 := True\<rparr>)"

section \<open>Hosts and endpoint text\<close>

definition host_label_ok :: "string \<Rightarrow> bool" where
  "host_label_ok label \<longleftrightarrow>
     \<not> (label = [] \<or> length label > 63 \<or> HasPrefix label ''-'' \<or> HasSuffix label ''-'') \<and>
     list_all (\<lambda>ch. let n = of_char ch :: int in
        (97 \<le> n \<and> n \<le> 122) \<or> (65 \<le> n \<and> n \<le> 90) \<or> (48 \<le> n \<and> n \<le> 57) \<or> ch = CHR ''-'') label"

text \<open>The characters \<^verbatim>\<open>" \t\r\n"\<close>.\<close>

definition blank_chars :: "string" where
  "blank_chars = [CHR '' '', CHR 0x09, CHR 0x0D, CHR 0x0A]"

definition normalizeRelayPublicHost :: "string \<Rightarrow> string result" where
  "normalizeRelayPublicHost value0 =
     (let v = TrimSpace value0 in
      if v = [] then NewError ''public host is required''
      else if (HasPrefix v ''['' \<or> HasSuffix v '']'') \<and> \<not> (HasPrefix v ''['' \<and> HasSuffix v '']'') then
        NewError ''public host has invalid IPv6 brackets''
      else
        (let value = (if HasPrefix v ''['' \<or> HasSuffix v '']''
                      then TrimSuffix (TrimPrefix v ''['') '']'' else v) in
         case ParseAddr value of
           Some ip \<Rightarrow> Inr (addr_String ip)
         | None \<Rightarrow>
             if ContainsAny value '':/@?#'' \<or> ContainsAny value blank_chars \<or> length value > 253 then
               NewError ''public host must be a hostname or IP address without a port''
             else if list_ex (\<lambda>l. \<not> host_label_ok l) (Split (TrimSuffix value ''.'') (CHR ''.'')) then
               NewError ''public host is invalid''
             else Inr (TrimSuffix value ''.'')))"

definition formatRelayHost :: "string \<Rightarrow> string" where
  "formatRelayHost host0 =
     (let host = TrimSpace host0 in
      if Contains host '':'' \<and> \<not> HasPrefix host ''['' then ''['' @ host @ '']'' else host)"

definition relayInboundListenAddress :: "string \<Rightarrow> string \<Rightarrow> string" where
  "relayInboundListenAddress mode publicHost =
     (if relayModeUsesIPv6 mode then
        (case ParseAddr (Trim publicHost ''[]'') of
           Some a \<Rightarrow> if Is6 a then ''::'' else ''0.0.0.0''
         | None \<Rightarrow> ''0.0.0.0'')
      else ''::'')"

definition relaySOCKSExport :: "string \<Rightarrow> int \<Rightarrow> string \<Rightarrow> string \<Rightarrow> string" where
  "relaySOCKSExport publicHost port username password =
     Trim publicHost ''[]'' @ '':'' @ Itoa port @ '':'' @ username @ '':'' @ password"

definition relayItemRefreshURL :: "string \<Rightarrow> string \<Rightarrow> string" where
  "relayItemRefreshURL baseURL0 token0 =
     (let baseURL = TrimRight (TrimSpace baseURL0) ''/''; token = TrimSpace token0 in
      if baseURL = [] \<or> token = [] then [] else baseURL @ ''/refresh/'' @ token)"

definition relayBitBrowserProxyInfo :: "relay_pool \<Rightarrow> relay_item \<Rightarrow> string result" where
  "relayBitBrowserProxyInfo pool item =
     (let p0 = ri_Protocol item;
          p1 = (if p0 = [] then rp_Protocol pool else p0);
          protocol = (if p1 = [] then ''socks'' else p1)
      in if protocol \<noteq> ''socks'' \<and> protocol \<noteq> ''mixed'' then
           NewErrorf (''BitBrowser export only supports SOCKS5 or Mixed, got '' @ quoted protocol)
         else
           (let proxyInfo = relaySOCKSExport (rp_ListenHost pool) (ri_ListenPort item)
                              (ri_Username item) (ri_Password item)
            in case ParseAddr (Trim (rp_ListenHost pool) ''[]'') of
                 Some a \<Rightarrow> if Is6 a then Inr (''ipv6:'' @ proxyInfo) else Inr proxyInfo
               | None \<Rightarrow> Inr proxyInfo))"

section \<open>Options of the generated inbounds\<close>

definition relayTransport :: "string \<Rightarrow> gmap" where
  "relayTransport value =
     (if value = ''ws'' then [(''type'', GStr ''ws''), (''path'', GStr ''/'')]
      else if value = ''grpc'' then [(''type'', GStr ''grpc''), (''service_name'', GStr ''relay'')]
      else if value = ''httpupgrade'' then [(''type'', GStr ''httpupgrade''), (''path'', GStr ''/'')]
      else if value = ''quic'' then [(''type'', GStr ''quic'')]
      else [(''type'', GStr ''http''), (''path'', GStr ''/'')])"

definition relayInboundOptions :: "gmap \<Rightarrow> string \<Rightarrow> int \<Rightarrow> gmap" where
  "relayInboundOptions protocolOptions listen port =
     mmerge [(''listen'', GStr listen), (''listen_port'', GInt port)] protocolOptions"

text \<open>Decoding \<^verbatim>\<open>struct{ListenPort int}\<close>: an absent or mistyped field leaves zero.\<close>

definition relayListenPort :: "inbound \<Rightarrow> int" where
  "relayListenPort i =
     (case decode_map (in_Options i) of
        None \<Rightarrow> 0
      | Some m \<Rightarrow> (case mget m ''listen_port'' of
           GFloat r \<Rightarrow> if of_int \<lfloor>r\<rfloor> = r then \<lfloor>r\<rfloor> else 0
         | _ \<Rightarrow> 0))"

definition relayItemIPv6OutboundTag :: "string \<Rightarrow> relay_item \<Rightarrow> string" where
  "relayItemIPv6OutboundTag mode item =
     (if mode = relayModeDualStack then ri_IPv6OutboundTag item else ri_OutboundTag item)"

end
