(* ===== verification/Relay_Routes.thy ===== *)
theory Relay_Routes
  imports Relay_Model
begin

text \<open>
  The route rules a relay pool owns in the sing-box configuration (\<open>updateRelayRouteRules\<close> and
  its helpers in \<^verbatim>\<open>service/relay.go\<close>). The configuration is the decoded JSON object; adding a
  pool puts its rules in front, removing it filters them out again, and the shared local DNS
  server of the paired modes is added or dropped with the last rule that needs it.
\<close>

section \<open>Reading a rule\<close>

definition relay_rule_inbounds :: "gmap \<Rightarrow> string list" where
  "relay_rule_inbounds entry = (case mget entry ''inbound'' of
     GList xs \<Rightarrow> map sprint xs | GStrs ss \<Rightarrow> ss | GStr s \<Rightarrow> [s] | _ \<Rightarrow> [])"

definition relayRuleTargetInbounds :: "gmap \<Rightarrow> (string \<rightharpoonup> string) \<Rightarrow> string list" where
  "relayRuleTargetInbounds entry targets = filter (\<lambda>v. targets v \<noteq> None) (relay_rule_inbounds entry)"

definition relayRuleIPVersion :: "gmap \<Rightarrow> int" where
  "relayRuleIPVersion entry = (case mget entry ''ip_version'' of
     GFloat r \<Rightarrow> trunc_rat r
   | GInt i \<Rightarrow> i
   | v \<Rightarrow> (case Atoi (sprint v) of Some i \<Rightarrow> i | None \<Rightarrow> 0))"

section \<open>The tags of the items\<close>

definition item_active :: "relay_item \<Rightarrow> bool" where
  "item_active it \<longleftrightarrow> ri_InboundTag it \<noteq> [] \<and> ri_OutboundTag it \<noteq> []"

definition relay_targets :: "relay_item list \<Rightarrow> (string \<rightharpoonup> string)" where
  "relay_targets items =
     foldl (\<lambda>m it. if item_active it then m(ri_InboundTag it \<mapsto> ri_OutboundTag it) else m) Map.empty items"

definition relay_ipv6_targets :: "relay_item list \<Rightarrow> (string \<rightharpoonup> string)" where
  "relay_ipv6_targets items =
     foldl (\<lambda>m it. if item_active it \<and> ri_IPv6OutboundTag it \<noteq> []
        then m(ri_InboundTag it \<mapsto> ri_IPv6OutboundTag it) else m) Map.empty items"

definition relay_ipv4_targets :: "relay_item list \<Rightarrow> (string \<rightharpoonup> string)" where
  "relay_ipv4_targets items =
     foldl (\<lambda>m it. if item_active it \<and> ri_IPv4OutboundTag it \<noteq> []
        then m(ri_InboundTag it \<mapsto> ri_IPv4OutboundTag it) else m) Map.empty items"

text \<open>Reading a Go \<^verbatim>\<open>map[string]string\<close>: a missing key is the empty string.\<close>

definition sget :: "(string \<rightharpoonup> string) \<Rightarrow> string \<Rightarrow> string" where
  "sget m k = (case m k of None \<Rightarrow> [] | Some v \<Rightarrow> v)"

section \<open>Which rules belong to the pool\<close>

definition relay_rule_dropped :: "relay_item list \<Rightarrow> gval \<Rightarrow> bool" where
  "relay_rule_dropped items raw =
     (let targets = relay_targets items; ipv6Targets = relay_ipv6_targets items;
          ipv4Targets = relay_ipv4_targets items in
      case raw of
        GMap entry \<Rightarrow>
          (let matched = relayRuleTargetInbounds entry targets;
               outbound = sprint (mget entry ''outbound'');
               generated = list_ex (\<lambda>inb.
                  sget targets inb = outbound
                  \<or> (sget ipv6Targets inb \<noteq> [] \<and> sget ipv6Targets inb = outbound)
                  \<or> (sget ipv4Targets inb \<noteq> [] \<and> sget ipv4Targets inb = outbound)
                  \<or> (sget ipv4Targets inb \<noteq> [] \<and> sprint (mget entry ''action'') = ''resolve''
                      \<and> sprint (mget entry ''server'') = relayPairedDNSResolverTag)) matched;
               ipv4Reject = (sprint (mget entry ''action'') = ''reject'' \<and> relayRuleIPVersion entry = 4)
           in matched \<noteq> [] \<and> (generated \<or> ipv4Reject))
      | _ \<Rightarrow> False)"

section \<open>The rules of an item\<close>

definition rule_inbound :: "relay_item \<Rightarrow> string \<times> gval" where
  "rule_inbound it = (''inbound'', GStrs [ri_InboundTag it])"

definition relay_apple_rules :: "relay_item \<Rightarrow> gval list" where
  "relay_apple_rules it =
     [GMap [rule_inbound it, (''domain_suffix'', GStrs relayAppleIDDomains),
        (''action'', GStr ''route''), (''outbound'', GStr (ri_IPv4OutboundTag it))],
      GMap [rule_inbound it, (''domain_suffix'', GStrs relayVintedCaptchaDomains),
        (''action'', GStr ''route''), (''outbound'', GStr (ri_IPv4OutboundTag it))]]"

definition relay_resolve_rule :: "string \<Rightarrow> relay_item \<Rightarrow> gval" where
  "relay_resolve_rule strategy it =
     GMap [rule_inbound it, (''action'', GStr ''resolve''), (''strategy'', GStr strategy),
       (''server'', GStr relayPairedDNSResolverTag)]"

definition relay_route_rule :: "(string \<times> gval) list \<Rightarrow> string \<Rightarrow> relay_item \<Rightarrow> gval" where
  "relay_route_rule extra outbound it =
     GMap (rule_inbound it # extra @ [(''action'', GStr ''route''), (''outbound'', GStr outbound)])"

definition relay_item_rules :: "bool \<Rightarrow> relay_item \<Rightarrow> gval list" where
  "relay_item_rules ipv6Only it =
     (let v4 = ri_IPv4OutboundTag it; v6 = ri_IPv6OutboundTag it; ob = ri_OutboundTag it in
      (if ri_AppleIDIPv4Only it \<and> v4 \<noteq> [] \<and> (v6 \<noteq> [] \<or> ob \<noteq> []) then relay_apple_rules it else []) @
      (if ri_AppleIDIPv4Only it \<and> v4 \<noteq> [] then
         [relay_resolve_rule relayDomainStrategyIPv6Only it,
          GMap [rule_inbound it, (''ip_version'', GInt 4), (''ip_cidr'', GStrs [''0.0.0.0/0'']),
                (''action'', GStr ''reject'')],
          relay_route_rule [] (if v6 = [] then ob else v6) it]
       else if v6 \<noteq> [] \<and> v4 \<noteq> [] then
         [relay_resolve_rule relayDomainStrategyPreferIPv6 it, relay_route_rule [] ob it]
       else if v4 \<noteq> [] then
         [relay_resolve_rule relayDomainStrategyPreferIPv6 it,
          relay_route_rule [(''ip_cidr'', GStrs [''::/0''])] ob it,
          relay_route_rule [(''ip_cidr'', GStrs [''0.0.0.0/0''])] v4 it]
       else
         (if ipv6Only then
            [GMap [rule_inbound it, (''ip_version'', GInt 4), (''action'', GStr ''reject'')]]
          else []) @
         [relay_route_rule [] ob it]))"

definition relay_new_rules :: "relay_item list \<Rightarrow> bool \<Rightarrow> gval list" where
  "relay_new_rules items ipv6Only =
     concat (map (\<lambda>it. if relay_targets items (ri_InboundTag it) = None then []
                       else relay_item_rules ipv6Only it) items)"

section \<open>The DNS server of the paired modes\<close>

definition rule_needs_resolver :: "gval \<Rightarrow> bool" where
  "rule_needs_resolver raw = (case raw of
     GMap entry \<Rightarrow> sprint (mget entry ''action'') = ''resolve''
                  \<and> sprint (mget entry ''server'') = relayPairedDNSResolverTag
   | _ \<Rightarrow> False)"

definition relayPairedDNSResolverRequired :: "gval list \<Rightarrow> bool" where
  "relayPairedDNSResolverRequired rules = list_ex rule_needs_resolver rules"

fun dns_filter :: "bool \<Rightarrow> gval list \<Rightarrow> (gval list \<times> bool) result" where
  "dns_filter required [] = Inr ([], False)"
| "dns_filter required (raw # rest) =
     (case raw of
        GMap server \<Rightarrow>
          if sprint (mget server ''tag'') \<noteq> relayPairedDNSResolverTag then
            map_sum id (\<lambda>(f, found). (raw # f, found)) (dns_filter required rest)
          else if sprint (mget server ''type'') \<noteq> ''local'' then
            NewErrorf (''DNS server tag '' @ quoted relayPairedDNSResolverTag @ '' is reserved by paired relays'')
          else map_sum id (\<lambda>(f, found). (if required then raw # f else f, True)) (dns_filter required rest)
      | _ \<Rightarrow> map_sum id (\<lambda>(f, found). (raw # f, found)) (dns_filter required rest))"

definition relay_dns_server :: "gval" where
  "relay_dns_server = GMap [(''type'', GStr ''local''), (''tag'', GStr relayPairedDNSResolverTag)]"

definition updateRelayPairedDNSResolver :: "gmap \<Rightarrow> bool \<Rightarrow> gmap result" where
  "updateRelayPairedDNSResolver config required =
     (let dns = as_map (mget config ''dns'') in
      case dns_filter required (as_list (mget dns ''servers'')) of
        Inl e \<Rightarrow> Inl e
      | Inr (filtered, found) \<Rightarrow>
          Inr (mput config ''dns'' (GMap (mput dns ''servers''
             (GList (if required \<and> \<not> found then filtered @ [relay_dns_server] else filtered))))))"

section \<open>The update\<close>

definition updateRelayRouteRules :: "relay_item list \<Rightarrow> bool \<Rightarrow> bool \<Rightarrow> gmap \<Rightarrow> gmap result" where
  "updateRelayRouteRules items ipv6Only remove config =
     (let route = as_map (mget config ''route'');
          rules = as_list (mget route ''rules'');
          filtered = filter (\<lambda>raw. \<not> relay_rule_dropped items raw) rules;
          rules' = (if remove then filtered else relay_new_rules items ipv6Only @ filtered)
      in updateRelayPairedDNSResolver
           (mput config ''route'' (GMap (mput route ''rules'' (GList rules'))))
           (relayPairedDNSResolverRequired rules'))"

text \<open>What the configuration says after an update.\<close>

definition config_rules :: "gmap \<Rightarrow> gval list" where
  "config_rules config = as_list (mget (as_map (mget config ''route'')) ''rules'')"

definition config_dns_servers :: "gmap \<Rightarrow> gval list" where
  "config_dns_servers config = as_list (mget (as_map (mget config ''dns'')) ''servers'')"

text \<open>The configuration is stored as JSON text and decoded again by the next operation.\<close>

definition stored :: "gmap \<Rightarrow> gmap" where
  "stored config = map (map_prod id json_norm) config"

section \<open>Facts about the tag maps\<close>

lemma foldl_update_map_of:
  "foldl (\<lambda>m x. if P x then m(k x \<mapsto> v x) else m) m0 xs = m0 ++ map_of (rev (map (\<lambda>x. (k x, v x)) (filter P xs)))"
  by (induction xs arbitrary: m0) (auto simp: map_add_def split: option.splits)

lemma foldl_update_distinct:
  assumes "distinct (map k xs)" "x \<in> set xs"
  shows "foldl (\<lambda>m x. if P x then m(k x \<mapsto> v x) else m) Map.empty xs (k x) = (if P x then Some (v x) else None)"
proof -
  let ?l = "map (\<lambda>x. (k x, v x)) (filter P xs)"
  have d: "distinct (map fst (rev ?l))"
    using assms(1) by (simp add: comp_def rev_map [symmetric] distinct_map_filter)
  show ?thesis
  proof (cases "P x")
    case True
    then have "(k x, v x) \<in> set (rev ?l)" using assms(2) by auto
    with d True show ?thesis by (simp add: foldl_update_map_of map_of_is_SomeI)
  next
    case False
    have "k x \<notin> fst ` set (rev ?l)"
      using assms False by (auto simp: distinct_map inj_on_def)
    with False show ?thesis by (simp add: foldl_update_map_of map_of_eq_None_iff)
  qed
qed

lemma foldl_update_dom:
  "foldl (\<lambda>m x. if P x then m(k x \<mapsto> v x) else m) Map.empty xs t = Some w \<Longrightarrow> \<exists>x\<in>set xs. P x \<and> k x = t"
  by (auto simp: foldl_update_map_of dest!: map_of_SomeD)

lemma targets_of_item:
  assumes "distinct (map ri_InboundTag items)" "it \<in> set items"
  shows "relay_targets items (ri_InboundTag it) = (if item_active it then Some (ri_OutboundTag it) else None)"
    and "relay_ipv6_targets items (ri_InboundTag it) =
      (if item_active it \<and> ri_IPv6OutboundTag it \<noteq> [] then Some (ri_IPv6OutboundTag it) else None)"
    and "relay_ipv4_targets items (ri_InboundTag it) =
      (if item_active it \<and> ri_IPv4OutboundTag it \<noteq> [] then Some (ri_IPv4OutboundTag it) else None)"
  using foldl_update_distinct [OF assms, of item_active ri_OutboundTag]
    foldl_update_distinct [OF assms, of "\<lambda>it. item_active it \<and> ri_IPv6OutboundTag it \<noteq> []" ri_IPv6OutboundTag]
    foldl_update_distinct [OF assms, of "\<lambda>it. item_active it \<and> ri_IPv4OutboundTag it \<noteq> []" ri_IPv4OutboundTag]
  by (simp_all add: relay_targets_def relay_ipv6_targets_def relay_ipv4_targets_def)

lemma targets_dom: "relay_targets items t \<noteq> None \<Longrightarrow> t \<in> ri_InboundTag ` set items"
  using foldl_update_dom [of item_active ri_InboundTag ri_OutboundTag items t]
  by (auto simp: relay_targets_def)

section \<open>Every generated rule is recognised again\<close>

lemmas rule_shapes = relay_item_rules_def relay_apple_rules_def relay_resolve_rule_def
  relay_route_rule_def rule_inbound_def

lemma generated_dropped:
  assumes d: "distinct (map ri_InboundTag items)" and it: "it \<in> set items" and act: "item_active it"
    and r: "r \<in> set (relay_item_rules ipv6Only it)"
  shows "relay_rule_dropped items (json_norm r)"
proof -
  note t = targets_of_item [OF d it]
  have "ri_OutboundTag it \<noteq> []" using act by (simp add: item_active_def)
  with r act show ?thesis
    by (auto simp: rule_shapes relay_rule_dropped_def relayRuleTargetInbounds_def
        relay_rule_inbounds_def relayRuleIPVersion_def sget_def t Let_def trunc_rat_def split: if_splits)
qed

lemma new_rules_dropped:
  assumes "distinct (map ri_InboundTag items)" "r \<in> set (relay_new_rules items ipv6Only)"
  shows "relay_rule_dropped items (json_norm r)"
proof -
  from assms(2) obtain it where it: "it \<in> set items" "relay_targets items (ri_InboundTag it) \<noteq> None"
    "r \<in> set (relay_item_rules ipv6Only it)"
    by (auto simp: relay_new_rules_def split: if_splits)
  then have "item_active it" using targets_of_item(1) [OF assms(1) it(1)] by (auto split: if_splits)
  with it generated_dropped [OF assms(1)] show ?thesis by blast
qed

text \<open>A rule that names none of the pool's inbounds is left alone.\<close>

definition rule_foreign :: "relay_item list \<Rightarrow> gval \<Rightarrow> bool" where
  "rule_foreign items raw = (case raw of
     GMap entry \<Rightarrow> list_all (\<lambda>t. t \<notin> ri_InboundTag ` set items) (relay_rule_inbounds entry)
   | _ \<Rightarrow> True)"

lemma foreign_kept: "rule_foreign items raw \<Longrightarrow> \<not> relay_rule_dropped items raw"
proof (cases raw)
  case (GMap entry)
  assume "rule_foreign items raw"
  then have "\<forall>t\<in>set (relay_rule_inbounds entry). relay_targets items t = None"
    using targets_dom [of items] GMap by (fastforce simp: rule_foreign_def list_all_iff)
  then have "relayRuleTargetInbounds entry (relay_targets items) = []"
    by (simp add: relayRuleTargetInbounds_def filter_empty_conv)
  with GMap show ?thesis by (simp add: relay_rule_dropped_def)
qed (simp_all add: relay_rule_dropped_def)

section \<open>The DNS filter\<close>

definition is_resolver :: "gval \<Rightarrow> bool" where
  "is_resolver raw = (case raw of
     GMap server \<Rightarrow> sprint (mget server ''tag'') = relayPairedDNSResolverTag | _ \<Rightarrow> False)"

definition resolver_local :: "gval \<Rightarrow> bool" where
  "resolver_local raw = (case raw of
     GMap server \<Rightarrow> sprint (mget server ''type'') = ''local'' | _ \<Rightarrow> True)"

lemma dns_filter_Cons:
  "dns_filter required (raw # rest) =
     (if is_resolver raw \<and> \<not> resolver_local raw then
        NewErrorf (''DNS server tag '' @ quoted relayPairedDNSResolverTag @ '' is reserved by paired relays'')
      else map_sum id (\<lambda>(f, found). (if is_resolver raw \<and> \<not> required then f else raw # f,
                                     found \<or> is_resolver raw)) (dns_filter required rest))"
  by (cases raw) (auto simp: is_resolver_def resolver_local_def intro!: sum.map_cong)

lemma dns_filter_Inr_iff:
  "dns_filter required xs = Inr r \<longleftrightarrow>
     (\<forall>x\<in>set xs. is_resolver x \<longrightarrow> resolver_local x) \<and>
     r = (if required then xs else filter (\<lambda>x. \<not> is_resolver x) xs, list_ex is_resolver xs)"
proof (induction xs arbitrary: r)
  case (Cons raw rest)
  show ?case
  proof (cases "dns_filter required rest")
    case (Inl e)
    then have "\<not> (\<forall>x\<in>set rest. is_resolver x \<longrightarrow> resolver_local x)"
      using Cons.IH by (metis Inl_Inr_False)
    with Inl show ?thesis by (auto simp: dns_filter_Cons simp del: dns_filter.simps(2))
  next
    case (Inr r')
    then have "(\<forall>x\<in>set rest. is_resolver x \<longrightarrow> resolver_local x) \<and>
      r' = (if required then rest else filter (\<lambda>x. \<not> is_resolver x) rest, list_ex is_resolver rest)"
      using Cons.IH by blast
    with Inr show ?thesis by (auto simp: dns_filter_Cons simp del: dns_filter.simps(2))
  qed
qed auto

lemma updateRelayPairedDNSResolver_Inr:
  assumes "updateRelayPairedDNSResolver config required = Inr c"
  shows "mget c ''route'' = mget config ''route''"
    and "\<exists>dns. mget c ''dns'' = GMap dns \<and> mhas c ''dns'' \<and> mhas dns ''servers'' \<and> mget dns ''servers'' = GList
      (let xs = config_dns_servers config;
           kept = (if required then xs else filter (\<lambda>x. \<not> is_resolver x) xs)
       in if required \<and> \<not> list_ex is_resolver xs then kept @ [relay_dns_server] else kept)"
    and "mhas c k \<longleftrightarrow> k = ''dns'' \<or> mhas config k"
proof -
  from assms obtain f found where f: "dns_filter required (config_dns_servers config) = Inr (f, found)"
    by (auto simp: updateRelayPairedDNSResolver_def config_dns_servers_def Let_def split: sum.splits)
  note ff = this [unfolded dns_filter_Inr_iff Pair_inject prod.inject]
  have c: "c = mput config ''dns'' (GMap (mput (as_map (mget config ''dns'')) ''servers''
             (GList (if required \<and> \<not> found then f @ [relay_dns_server] else f))))"
    using assms f by (simp add: updateRelayPairedDNSResolver_def config_dns_servers_def Let_def)
  show "mget c ''route'' = mget config ''route''" by (simp add: c)
  show "\<exists>dns. mget c ''dns'' = GMap dns \<and> mhas c ''dns'' \<and> mhas dns ''servers'' \<and> mget dns ''servers'' = GList
      (let xs = config_dns_servers config;
           kept = (if required then xs else filter (\<lambda>x. \<not> is_resolver x) xs)
       in if required \<and> \<not> list_ex is_resolver xs then kept @ [relay_dns_server] else kept)"
    using ff by (auto simp: c Let_def)
  show "mhas c k \<longleftrightarrow> k = ''dns'' \<or> mhas config k" by (simp add: c)
qed

section \<open>What an update leaves in the configuration\<close>

lemma stored_servers:
  "mget c ''dns'' = GMap dns \<Longrightarrow> mhas c ''dns'' \<Longrightarrow> mhas dns ''servers'' \<Longrightarrow> mget dns ''servers'' = GList xs
    \<Longrightarrow> config_dns_servers (stored c) = map json_norm xs"
  by (simp add: config_dns_servers_def stored_def mget_map_prod)

lemma updateRelayRouteRules_Inr:
  assumes "updateRelayRouteRules items ipv6Only remove config = Inr c"
  defines "rules \<equiv> filter (\<lambda>raw. \<not> relay_rule_dropped items raw) (config_rules config)"
  defines "rules' \<equiv> if remove then rules else relay_new_rules items ipv6Only @ rules"
  shows "config_rules c = rules'"
    and "config_rules (stored c) = map json_norm rules'"
    and "config_dns_servers (stored c) = map json_norm
      (let xs = config_dns_servers config; required = relayPairedDNSResolverRequired rules' in
       if required then (if list_ex is_resolver xs then xs else xs @ [relay_dns_server])
       else filter (\<lambda>x. \<not> is_resolver x) xs)"
    and "config_dns_servers c =
      (let xs = config_dns_servers config; required = relayPairedDNSResolverRequired rules' in
       if required then (if list_ex is_resolver xs then xs else xs @ [relay_dns_server])
       else filter (\<lambda>x. \<not> is_resolver x) xs)"
proof -
  let ?config = "mput config ''route'' (GMap (mput (as_map (mget config ''route'')) ''rules'' (GList rules')))"
  have u: "updateRelayPairedDNSResolver ?config (relayPairedDNSResolverRequired rules') = Inr c"
    using assms by (simp add: updateRelayRouteRules_def Let_def config_rules_def split: if_splits)
  note facts = updateRelayPairedDNSResolver_Inr [OF u]
  have route: "mget c ''route'' = GMap (mput (as_map (mget config ''route'')) ''rules'' (GList rules'))"
    and has: "mhas c ''route''" by (simp_all add: facts(1,3))
  show "config_rules c = rules'" by (simp add: config_rules_def route)
  show "config_rules (stored c) = map json_norm rules'"
    by (simp add: config_rules_def stored_def mget_map_prod has route)
  have "config_dns_servers ?config = config_dns_servers config" by (simp add: config_dns_servers_def)
  moreover from facts(2) obtain dns where dns: "mget c ''dns'' = GMap dns" "mhas c ''dns''" "mhas dns ''servers''"
    and srv: "mget dns ''servers'' = GList
      (let xs = config_dns_servers ?config;
           kept = (if relayPairedDNSResolverRequired rules' then xs else filter (\<lambda>x. \<not> is_resolver x) xs)
       in if relayPairedDNSResolverRequired rules' \<and> \<not> list_ex is_resolver xs
          then kept @ [relay_dns_server] else kept)" by blast
  ultimately show "config_dns_servers c =
      (let xs = config_dns_servers config; required = relayPairedDNSResolverRequired rules' in
       if required then (if list_ex is_resolver xs then xs else xs @ [relay_dns_server])
       else filter (\<lambda>x. \<not> is_resolver x) xs)"
    and "config_dns_servers (stored c) = map json_norm
      (let xs = config_dns_servers config; required = relayPairedDNSResolverRequired rules' in
       if required then (if list_ex is_resolver xs then xs else xs @ [relay_dns_server])
       else filter (\<lambda>x. \<not> is_resolver x) xs)"
    using stored_servers [OF dns srv] by (auto simp: Let_def config_dns_servers_def [of c] dns srv)
qed

section \<open>Decoding keeps what the decisions look at\<close>

lemma is_resolver_norm [simp]: "is_resolver (json_norm x) = is_resolver x"
  by (cases x) (simp_all add: is_resolver_def)

lemma resolver_local_norm [simp]: "resolver_local (json_norm x) = resolver_local x"
  by (cases x) (simp_all add: resolver_local_def)

lemma rule_needs_resolver_norm [simp]: "rule_needs_resolver (json_norm x) = rule_needs_resolver x"
  by (cases x) (simp_all add: rule_needs_resolver_def)

lemma resolver_required_norm [simp]:
  "relayPairedDNSResolverRequired (map json_norm rules) = relayPairedDNSResolverRequired rules"
  by (simp add: relayPairedDNSResolverRequired_def list_ex_iff)

section \<open>The update as a pair of inverse operations\<close>

lemma updateRelayRouteRules_succeeds_iff:
  "(\<exists>c. updateRelayRouteRules items ipv6Only remove config = Inr c)
     \<longleftrightarrow> (\<forall>x\<in>set (config_dns_servers config). is_resolver x \<longrightarrow> resolver_local x)"
proof -
  have iff: "(\<exists>c. updateRelayPairedDNSResolver conf req = Inr c)
      \<longleftrightarrow> (\<forall>x\<in>set (config_dns_servers conf). is_resolver x \<longrightarrow> resolver_local x)" for conf req
  proof -
    have "(\<exists>c. updateRelayPairedDNSResolver conf req = Inr c)
        \<longleftrightarrow> (\<exists>r. dns_filter req (config_dns_servers conf) = Inr r)"
      by (auto simp: updateRelayPairedDNSResolver_def config_dns_servers_def Let_def split: sum.splits)
    then show ?thesis by (simp add: dns_filter_Inr_iff)
  qed
  show ?thesis
    by (simp add: updateRelayRouteRules_def Let_def iff config_dns_servers_def)
qed

lemma no_new_dropped:
  assumes "distinct (map ri_InboundTag items)"
  shows "filter (\<lambda>raw. \<not> relay_rule_dropped items raw) (map json_norm (relay_new_rules items ipv6Only)) = []"
  using new_rules_dropped [OF assms] by (auto simp: filter_empty_conv)

lemma stored_resolvers_local:
  assumes "updateRelayRouteRules items ipv6Only remove config = Inr c"
  shows "\<forall>x\<in>set (config_dns_servers (stored c)). is_resolver x \<longrightarrow> resolver_local x"
proof -
  have "\<forall>x\<in>set (config_dns_servers config). is_resolver x \<longrightarrow> resolver_local x"
    using assms updateRelayRouteRules_succeeds_iff by blast
  moreover have "resolver_local relay_dns_server" by (simp add: relay_dns_server_def resolver_local_def)
  ultimately show ?thesis
    by (auto simp: updateRelayRouteRules_Inr(3) [OF assms] Let_def split: if_splits)
qed

lemma foreign_filter:
  "list_all (rule_foreign items) rules \<Longrightarrow> filter (\<lambda>raw. \<not> relay_rule_dropped items raw) rules = rules"
  by (auto simp: list_all_iff foreign_kept intro!: filter_True)

lemma created_rules_deleted:
  assumes tags: "distinct (map ri_InboundTag items)"
    and create: "updateRelayRouteRules items ipv6Only False config = Inr created"
    and foreign: "list_all (rule_foreign items) (config_rules config)"
    and decoded: "map json_norm (config_rules config) = config_rules config"
  shows "filter (\<lambda>raw. \<not> relay_rule_dropped items raw) (config_rules (stored created)) = config_rules config"
    "updateRelayRouteRules items ipv6Only' True (stored created) = Inr deleted \<Longrightarrow> config_rules deleted = config_rules config"
proof -
  have "config_rules (stored created)
      = map json_norm (relay_new_rules items ipv6Only) @ config_rules config"
    using foreign by (simp add: updateRelayRouteRules_Inr(2) [OF create] foreign_filter decoded)
  then show left: "filter (\<lambda>raw. \<not> relay_rule_dropped items raw) (config_rules (stored created)) = config_rules config"
    by (simp add: no_new_dropped [OF tags] foreign_filter [OF foreign] del: filter_map)
  show "config_rules deleted = config_rules config" if del: "updateRelayRouteRules items ipv6Only' True (stored created) = Inr deleted"
    by (simp add: updateRelayRouteRules_Inr(1) [OF del] left)
qed

text \<open>
  C16. Creating a pool and deleting it again leaves the configuration's routing as it was: when
  the other rules do not name the pool's inbounds, the removal that follows the stored result
  of the creation succeeds and gives back exactly the original rules, in their order; and when
  no other pool uses the paired DNS resolver, and no server of its reserved tag was there unused, the DNS servers
  are the original ones too.
\<close>

theorem relay_rules_create_delete:
  assumes tags: "distinct (map ri_InboundTag items)"
    and create: "updateRelayRouteRules items ipv6Only False config = Inr created"
    and foreign: "list_all (rule_foreign items) (config_rules config)"
    and decoded: "map json_norm (config_rules config) = config_rules config"
      "map json_norm (config_dns_servers config) = config_dns_servers config"
  shows "\<exists>deleted. updateRelayRouteRules items ipv6Only' True (stored created) = Inr deleted
    \<and> config_rules deleted = config_rules config
    \<and> (relayPairedDNSResolverRequired (config_rules config) \<or> list_ex is_resolver (config_dns_servers config)
       \<or> config_dns_servers deleted = config_dns_servers config)"
proof -
  obtain deleted where del: "updateRelayRouteRules items ipv6Only' True (stored created) = Inr deleted"
    using stored_resolvers_local [OF create] updateRelayRouteRules_succeeds_iff by blast
  note left = created_rules_deleted(1) [OF tags create foreign decoded(1)]
  have rules: "config_rules deleted = config_rules config"
    by (rule created_rules_deleted(2) [OF tags create foreign decoded(1) del])
  have "config_dns_servers deleted = config_dns_servers config"
    if "\<not> relayPairedDNSResolverRequired (config_rules config)"
      and no: "\<not> list_ex is_resolver (config_dns_servers config)"
  proof -
    have "filter (\<lambda>x. \<not> is_resolver x) (config_dns_servers config) = config_dns_servers config"
      using no by (auto simp: list_ex_iff intro!: filter_True)
    moreover have "is_resolver relay_dns_server" by (simp add: is_resolver_def relay_dns_server_def)
    ultimately have "filter (\<lambda>x. \<not> is_resolver x) (config_dns_servers (stored created)) = config_dns_servers config"
      by (auto simp: updateRelayRouteRules_Inr(3) [OF create] Let_def no decoded split: if_splits)
    then show ?thesis using that(1) by (simp add: updateRelayRouteRules_Inr(4) [OF del] left Let_def)
  qed
  with del rules show ?thesis by blast
qed

text \<open>
  Applying the creation update of a pool twice is the same as applying it once: the second
  run, on the stored result of the first, succeeds, replaces the pool's rules by themselves and
  leaves every other rule and the DNS servers unchanged.
\<close>

theorem relay_rules_idempotent:
  assumes tags: "distinct (map ri_InboundTag items)"
    and first: "updateRelayRouteRules items ipv6Only False config = Inr once"
    and decoded: "map json_norm (config_rules config) = config_rules config"
  shows "\<exists>twice. updateRelayRouteRules items ipv6Only False (stored once) = Inr twice
    \<and> config_rules (stored twice) = config_rules (stored once)
    \<and> config_dns_servers (stored twice) = config_dns_servers (stored once)"
proof -
  obtain twice where snd: "updateRelayRouteRules items ipv6Only False (stored once) = Inr twice"
    using stored_resolvers_local [OF first] updateRelayRouteRules_succeeds_iff by blast
  let ?kept = "filter (\<lambda>raw. \<not> relay_rule_dropped items raw) (config_rules config)"
  let ?new = "relay_new_rules items ipv6Only"
  have kept: "map json_norm ?kept = ?kept"
    using decoded map_eq_conv [of json_norm "config_rules config" id] by (intro map_idI) auto
  have once_rules: "config_rules (stored once) = map json_norm ?new @ ?kept"
    by (simp add: updateRelayRouteRules_Inr(2) [OF first] kept)
  then have left: "filter (\<lambda>raw. \<not> relay_rule_dropped items raw) (config_rules (stored once)) = ?kept"
    by (simp only: filter_append no_new_dropped [OF tags] append_Nil filter_filter conj_absorb)
  have rules: "config_rules (stored twice) = config_rules (stored once)"
    unfolding updateRelayRouteRules_Inr(2) [OF snd] left by (simp add: once_rules kept)
  have res: "is_resolver relay_dns_server" by (simp add: is_resolver_def relay_dns_server_def)
  have "config_dns_servers (stored twice) = config_dns_servers (stored once)"
    unfolding updateRelayRouteRules_Inr(3) [OF snd] left updateRelayRouteRules_Inr(3) [OF first]
    by (auto simp: Let_def res list_ex_iff filter_map comp_def)
  with snd rules show ?thesis by blast
qed

section \<open>A concrete configuration\<close>

definition example_items :: "relay_item list" where
  "example_items =
     [empty_item \<lparr> ri_InboundTag := ''relay-a-1'', ri_OutboundTag := ''relay-a-1-out'' \<rparr>,
      empty_item \<lparr> ri_InboundTag := ''relay-a-2'', ri_OutboundTag := ''relay-a-2-out'',
        ri_IPv4OutboundTag := ''relay-a-2-v4'' \<rparr>]"

definition example_config :: "gmap" where
  "example_config =
     [(''route'', GMap [(''rules'', GList [GMap [(''inbound'', GList [GStr ''mixed-in'']),
         (''action'', GStr ''route''), (''outbound'', GStr ''direct'')]])]),
      (''dns'', GMap [(''servers'', GList [GMap [(''type'', GStr ''udp''), (''tag'', GStr ''up'')]])])]"

lemma example_creates: "\<exists>c. updateRelayRouteRules example_items True False example_config = Inr c"
  unfolding updateRelayRouteRules_succeeds_iff by (simp add: example_config_def config_dns_servers_def is_resolver_def)

lemma example_facts:
  "distinct (map ri_InboundTag example_items)"
  "list_all (rule_foreign example_items) (config_rules example_config)"
  "map json_norm (config_rules example_config) = config_rules example_config"
  "map json_norm (config_dns_servers example_config) = config_dns_servers example_config"
  "\<not> relayPairedDNSResolverRequired (config_rules example_config)"
  "\<not> list_ex is_resolver (config_dns_servers example_config)"
  by code_simp+

theorem relay_rules_create_delete_witness:
  "\<exists>created deleted. updateRelayRouteRules example_items True False example_config = Inr created
    \<and> updateRelayRouteRules example_items True True (stored created) = Inr deleted
    \<and> config_rules deleted = config_rules example_config
    \<and> config_dns_servers deleted = config_dns_servers example_config"
proof -
  obtain created where c: "updateRelayRouteRules example_items True False example_config = Inr created"
    using example_creates by blast
  show ?thesis
    using relay_rules_create_delete [OF example_facts(1) c example_facts(2-4), of True] c example_facts(5,6) by blast
qed

theorem relay_rules_idempotent_witness:
  "\<exists>once twice. updateRelayRouteRules example_items True False example_config = Inr once
    \<and> updateRelayRouteRules example_items True False (stored once) = Inr twice
    \<and> config_rules (stored twice) = config_rules (stored once)"
proof -
  obtain once where c: "updateRelayRouteRules example_items True False example_config = Inr once"
    using example_creates by blast
  show ?thesis
    using relay_rules_idempotent [OF example_facts(1) c example_facts(3)] c by blast
qed

end
