(* ===== verification/Relay_Ports.thy ===== *)
theory Relay_Ports
  imports Relay_Model
begin

text \<open>
  Port allocation for a pool (\<^verbatim>\<open>relayUsedPorts\<close>, \<^verbatim>\<open>nextRelayPortRange\<close> in \<^verbatim>\<open>service/relay.go\<close>). The set of
  used ports is the Go map \<^verbatim>\<open>map[int]bool\<close>, here the set of its true keys.
\<close>

section \<open>Ports in use\<close>

definition relayUsedPorts :: "inbound list \<Rightarrow> int set" where
  "relayUsedPorts inbounds =
     foldl (\<lambda>used i. if relayListenPort i > 0 then insert (relayListenPort i) used else used) {} inbounds"

lemma relayUsedPorts_eq: "relayUsedPorts is = {p. p > 0 \<and> (\<exists>i\<in>set is. relayListenPort i = p)}"
proof -
  have "foldl (\<lambda>used i. if relayListenPort i > 0 then insert (relayListenPort i) used else used) acc is
      = acc \<union> {p. p > 0 \<and> (\<exists>i\<in>set is. relayListenPort i = p)}" for acc
    by (induction "is" arbitrary: acc) auto
  then show ?thesis by (simp add: relayUsedPorts_def)
qed

section \<open>The first free range\<close>

text \<open>The inner loop: the first used port of the range, 0 when there is none.\<close>

definition port_conflict :: "int set \<Rightarrow> int \<Rightarrow> int \<Rightarrow> int" where
  "port_conflict used start count =
     (case find (\<lambda>p. p \<in> used) [start..start + count - 1] of None \<Rightarrow> 0 | Some p \<Rightarrow> p)"

function port_search :: "int set \<Rightarrow> int \<Rightarrow> int \<Rightarrow> int \<Rightarrow> int option" where
  "port_search used count lastStart start =
     (if start \<le> lastStart then
        (let conflict = port_conflict used start count in
         if conflict = 0 then Some start else port_search used count lastStart (conflict + 1))
      else None)"
  by pat_completeness auto
termination
proof (relation "measure (\<lambda>(used, count, lastStart, start). nat (lastStart + 1 - start))", goal_cases)
  case (2 used count lastStart start conflict)
  then have "start \<le> conflict"
    by (auto simp: port_conflict_def dest!: find_Some_mem split: option.splits)
  with 2(1) show ?case by simp
qed simp

declare port_search.simps [simp del]

definition nextRelayPortRange :: "int set \<Rightarrow> int \<Rightarrow> int \<Rightarrow> int result" where
  "nextRelayPortRange used preferredStart count =
     (if preferredStart < 1 \<or> preferredStart > 65535 \<or> count < 1 \<or> count > 65535 - preferredStart + 1
      then NewError ''relay port range is invalid''
      else case port_search used count (65535 - count + 1) preferredStart of
        Some start \<Rightarrow> Inr start
      | None \<Rightarrow> NewErrorf (''no continuous relay port range of '' @ Itoa count
                  @ '' ports is available from '' @ Itoa preferredStart))"

section \<open>What a search finds\<close>

definition range_free :: "int set \<Rightarrow> int \<Rightarrow> int \<Rightarrow> bool" where
  "range_free used start count \<longleftrightarrow> (\<forall>p. start \<le> p \<and> p < start + count \<longrightarrow> p \<notin> used)"

lemma port_conflict_zero:
  assumes "0 < start"
  shows "port_conflict used start count = 0 \<longleftrightarrow> range_free used start count"
proof (cases "find (\<lambda>p. p \<in> used) [start..start + count - 1]")
  case None
  then have "\<forall>x\<in>set [start..start + count - 1]. x \<notin> used" by (simp add: find_None_iff)
  with None show ?thesis by (simp add: port_conflict_def range_free_def)
next
  case (Some p)
  then have "p \<in> used" "start \<le> p" "p < start + count" by (auto dest!: find_Some_mem)
  with Some assms show ?thesis by (auto simp: port_conflict_def range_free_def)
qed

lemma port_conflict_bounds:
  assumes "port_conflict used start count \<noteq> 0"
  shows "start \<le> port_conflict used start count" "port_conflict used start count < start + count"
    "port_conflict used start count \<in> used"
  using assms by (auto simp: port_conflict_def dest!: find_Some_mem split: option.splits)

text \<open>A start no later than a conflict has that conflict in its range.\<close>

lemma range_blocked:
  assumes "port_conflict used start count \<noteq> 0" "start \<le> q" "q \<le> port_conflict used start count"
  shows "\<not> range_free used q count"
  using port_conflict_bounds [OF assms(1)] assms(2,3) by (auto simp: range_free_def)

lemma port_search_Some:
  "0 < start \<Longrightarrow> port_search used count lastStart start = Some p \<Longrightarrow>
     start \<le> p \<and> p \<le> lastStart \<and> range_free used p count \<and>
     (\<forall>q. start \<le> q \<and> q < p \<longrightarrow> \<not> range_free used q count)"
proof (induction used count lastStart start rule: port_search.induct)
  case (1 used count lastStart start)
  let ?c = "port_conflict used start count"
  from 1(3) have le: "start \<le> lastStart" by (subst (asm) port_search.simps) (auto split: if_splits)
  show ?case
  proof (cases "?c = 0")
    case True
    with 1(2,3) le show ?thesis
      by (subst (asm) port_search.simps) (auto simp: port_conflict_zero)
  next
    case False
    note b = port_conflict_bounds [OF False]
    have "port_search used count lastStart (?c + 1) = Some p"
      using 1(3) le False by (subst (asm) port_search.simps) simp
    from 1(1) [OF le refl False _ this] 1(2) b(1)
    have IH: "?c + 1 \<le> p" "p \<le> lastStart" "range_free used p count"
      "\<forall>q. ?c + 1 \<le> q \<and> q < p \<longrightarrow> \<not> range_free used q count" by auto
    have "\<not> range_free used q count" if "start \<le> q" "q < p" for q
      using range_blocked [OF False that(1)] IH(4) that by (cases "q \<le> ?c") auto
    with IH b(1) show ?thesis by auto
  qed
qed

lemma port_search_None:
  "0 < start \<Longrightarrow> port_search used count lastStart start = None \<Longrightarrow>
     \<forall>q. start \<le> q \<and> q \<le> lastStart \<longrightarrow> \<not> range_free used q count"
proof (induction used count lastStart start rule: port_search.induct)
  case (1 used count lastStart start)
  let ?c = "port_conflict used start count"
  show ?case
  proof (cases "start \<le> lastStart")
    case True
    have nz: "?c \<noteq> 0"
      using 1(3) True by (subst (asm) port_search.simps) (auto split: if_splits)
    note b = port_conflict_bounds [OF nz]
    have "port_search used count lastStart (?c + 1) = None"
      using 1(3) True nz by (subst (asm) port_search.simps) simp
    from 1(1) [OF True refl nz _ this] 1(2) b(1)
    have IH: "\<forall>q. ?c + 1 \<le> q \<and> q \<le> lastStart \<longrightarrow> \<not> range_free used q count" by auto
    have "\<not> range_free used q count" if "start \<le> q" "q \<le> lastStart" for q
      using range_blocked [OF nz that(1)] IH that by (cases "q \<le> ?c") auto
    then show ?thesis by auto
  qed auto
qed

lemma nextRelayPortRange_Inr:
  assumes "nextRelayPortRange used s c = Inr p"
  shows "1 \<le> s" "1 \<le> c" "s \<le> p" "p + c - 1 \<le> 65535" "range_free used p c"
    "\<forall>q. s \<le> q \<and> q < p \<longrightarrow> \<not> range_free used q c"
  using assms port_search_Some [of s used c "65535 - c + 1" p]
  by (auto simp: nextRelayPortRange_def split: if_splits option.splits)

text \<open>
  C18: a successful search returns the least start at or after the preferred one whose whole
  range is unused and stays within the valid ports; it fails exactly when the request is
  out of range or no such start exists.
\<close>

theorem nextRelayPortRange_spec:
  "(case nextRelayPortRange used s c of
      Inr p \<Rightarrow> 1 \<le> s \<and> 1 \<le> c \<and> s \<le> p \<and> p + c - 1 \<le> 65535 \<and> range_free used p c \<and>
               (\<forall>q. \<not> (s \<le> q \<and> q < p \<and> range_free used q c))
    | Inl _ \<Rightarrow> \<not> (\<exists>q. 1 \<le> s \<and> 1 \<le> c \<and> s \<le> q \<and> q + c - 1 \<le> 65535 \<and> range_free used q c))"
proof (cases "nextRelayPortRange used s c")
  case (Inr p)
  then show ?thesis using nextRelayPortRange_Inr [OF Inr] by auto
next
  case (Inl e)
  show ?thesis
  proof (cases "s < 1 \<or> s > 65535 \<or> c < 1 \<or> c > 65535 - s + 1")
    case True
    with Inl show ?thesis by auto
  next
    case False
    then have "port_search used c (65535 - c + 1) s = None"
      using Inl by (auto simp: nextRelayPortRange_def split: option.splits)
    from port_search_None [OF _ this] False have "\<forall>q. s \<le> q \<and> q \<le> 65535 - c + 1 \<longrightarrow> \<not> range_free used q c"
      by auto
    with Inl show ?thesis by auto
  qed
qed

end
