(* ===== verification/Go_Url.thy ===== *)
theory Go_Url
  imports Netip
begin

text \<open>
  The part of Go's \<^verbatim>\<open>net/url\<close> the panel uses: \<open>url.Parse\<close> (scheme, user information, host and
  port, path, query and fragment), \<open>url.QueryEscape\<close> / \<open>PathEscape\<close> and the escaping of user
  names, and \<open>url.ParseQuery\<close>. A host in brackets has to be an IPv6 address and only one
  colon may precede the port of a host without brackets (Go 1.26).
\<close>

section \<open>Escaping\<close>

datatype escape_mode = EncPath | EncPathSegment | EncHost | EncZone | EncUser | EncQuery | EncFragment

definition is_alnum :: "char \<Rightarrow> bool" where
  "is_alnum c \<longleftrightarrow> (let n = of_char c :: int in
     (48 \<le> n \<and> n \<le> 57) \<or> (65 \<le> n \<and> n \<le> 90) \<or> (97 \<le> n \<and> n \<le> 122))"

definition is_unreserved :: "char \<Rightarrow> bool" where
  "is_unreserved c \<longleftrightarrow> is_alnum c \<or> c \<in> set ''-_.~''"

definition host_chars :: "string" where
  "host_chars = CHR 0x22 # CHR 0x27 # ''!$&()*+,;=:[]<>''"

text \<open>\<open>shouldEscape\<close>.\<close>

definition shouldEscape :: "char \<Rightarrow> escape_mode \<Rightarrow> bool" where
  "shouldEscape c mode =
     (if is_unreserved c then False
      else if (mode = EncHost \<or> mode = EncZone) \<and> c \<in> set host_chars then False
      else if c \<in> set ''$&+,/:;=?@'' then
        (case mode of
           EncPath \<Rightarrow> c = CHR ''?''
         | EncPathSegment \<Rightarrow> c \<in> set ''/;,?''
         | EncUser \<Rightarrow> c \<in> set ''@/?:''
         | EncQuery \<Rightarrow> True
         | EncFragment \<Rightarrow> False
         | _ \<Rightarrow> True)
      else \<not> (mode = EncFragment \<and> c \<in> set ''!()*''))"

definition upper_hex :: "int \<Rightarrow> char" where
  "upper_hex n = ''0123456789ABCDEF'' ! nat n"

definition escape_char :: "escape_mode \<Rightarrow> char \<Rightarrow> string" where
  "escape_char mode c =
     (if \<not> shouldEscape c mode then [c]
      else if c = CHR '' '' \<and> mode = EncQuery then ''+''
      else let n = of_char c :: int in [CHR ''%'', upper_hex (n div 16), upper_hex (n mod 16)])"

definition url_escape :: "escape_mode \<Rightarrow> string \<Rightarrow> string" where
  "url_escape mode s = concat (map (escape_char mode) s)"

definition QueryEscape :: "string \<Rightarrow> string" where
  "QueryEscape s = url_escape EncQuery s"

definition PathEscape :: "string \<Rightarrow> string" where
  "PathEscape s = url_escape EncPathSegment s"

text \<open>\<open>unescape\<close>: \<^const>\<open>None\<close> is its error.\<close>

definition hex2 :: "char \<Rightarrow> char \<Rightarrow> int option" where
  "hex2 a b = (case (hex_val a, hex_val b) of (Some x, Some y) \<Rightarrow> Some (16 * x + y) | _ \<Rightarrow> None)"

definition escape_allowed :: "escape_mode \<Rightarrow> int \<Rightarrow> bool" where
  "escape_allowed mode v =
     (if mode = EncHost then v = 37 \<or> 128 \<le> v
      else if mode = EncZone then v = 37 \<or> v = 32 \<or> \<not> shouldEscape (char_of v) EncHost
      else True)"

fun url_unescape :: "escape_mode \<Rightarrow> string \<Rightarrow> string option" where
  "url_unescape mode [] = Some []"
| "url_unescape mode (c # s) =
     (if c = CHR ''%'' then
        (case s of
           a # b # r \<Rightarrow>
             (case hex2 a b of
                None \<Rightarrow> None
              | Some v \<Rightarrow> if escape_allowed mode v then map_option (Cons (char_of v)) (url_unescape mode r) else None)
         | _ \<Rightarrow> None)
      else if c = CHR ''+'' \<and> mode = EncQuery then map_option (Cons (CHR '' '')) (url_unescape mode s)
      else if (mode = EncHost \<or> mode = EncZone) \<and> (of_char c :: int) < 128 \<and> shouldEscape c mode then None
      else map_option (Cons c) (url_unescape mode s))"

section \<open>Parsing\<close>

record url =
  u_Scheme :: string
  u_User :: "(string \<times> string option) option"
  u_Host :: string
  u_Path :: string
  u_RawPath :: string
  u_Opaque :: string
  u_RawQuery :: string
  u_Fragment :: string

text \<open>\<open>getScheme\<close>: \<^const>\<open>None\<close> is the missing-scheme error, an empty scheme is none.\<close>

definition is_scheme_char :: "char \<Rightarrow> bool" where
  "is_scheme_char c \<longleftrightarrow> is_alnum c \<or> c \<in> set ''+-.''"

definition is_letter :: "char \<Rightarrow> bool" where
  "is_letter c \<longleftrightarrow> is_alnum c \<and> \<not> is_digit c"

definition getScheme :: "string \<Rightarrow> (string \<times> string) option" where
  "getScheme raw =
     (case dropWhile is_scheme_char raw of
        [] \<Rightarrow> Some ([], raw)
      | c # rest \<Rightarrow>
          if raw = c # rest then (if c = CHR '':'' then None else Some ([], raw))
          else if \<not> is_letter (hd raw) then Some ([], raw)
          else if c = CHR '':'' then Some (takeWhile is_scheme_char raw, rest)
          else Some ([], raw))"

definition validOptionalPort :: "string \<Rightarrow> bool" where
  "validOptionalPort port = (case port of [] \<Rightarrow> True | c # r \<Rightarrow> c = CHR '':'' \<and> list_all is_digit r)"

definition validUserinfo :: "string \<Rightarrow> bool" where
  "validUserinfo s = list_all (\<lambda>c. is_alnum c \<or> c \<in> set (CHR 0x27 # ''-._:~!$&()*+,;=%@'')) s"

definition url_parseHost :: "string \<Rightarrow> string option" where
  "url_parseHost host =
     (case cut_last (CHR ''['') host of
        Some (pre, after) \<Rightarrow>
          if pre \<noteq> [] then None
          else (case cut_last (CHR '']'') after of
             None \<Rightarrow> None
           | Some (hostname, colonPort) \<Rightarrow>
               if \<not> validOptionalPort colonPort then None
               else
                 let un = (case Cut hostname ''%25'' of
                       None \<Rightarrow> url_unescape EncHost hostname
                     | Some (h, z) \<Rightarrow>
                         (case (url_unescape EncHost h, url_unescape EncZone (''%25'' @ z)) of
                            (Some h', Some z') \<Rightarrow> Some (h' @ z') | _ \<Rightarrow> None))
                 in case un of
                      None \<Rightarrow> None
                    | Some u \<Rightarrow> (case ParseAddr u of
                        None \<Rightarrow> None
                      | Some a \<Rightarrow> if Is4 a then None else Some (''['' @ u @ '']'' @ colonPort)))
      | None \<Rightarrow>
          (case Cut host '':'' of
             None \<Rightarrow> url_unescape EncHost host
           | Some (_, port) \<Rightarrow> if list_all is_digit port then url_unescape EncHost host else None))"

definition url_parseUser :: "string \<Rightarrow> (string \<times> string option) option" where
  "url_parseUser info =
     (if \<not> validUserinfo info then None
      else case Cut info '':'' of
        None \<Rightarrow> map_option (\<lambda>u. (u, None)) (url_unescape EncUser info)
      | Some (u, p) \<Rightarrow>
          (case (url_unescape EncUser u, url_unescape EncUser p) of
             (Some u', Some p') \<Rightarrow> Some (u', Some p') | _ \<Rightarrow> None))"

definition url_parseAuthority :: "string \<Rightarrow> ((string \<times> string option) option \<times> string) option" where
  "url_parseAuthority authority =
     (case cut_last (CHR ''@'') authority of
        None \<Rightarrow> map_option (\<lambda>h. (None, h)) (url_parseHost authority)
      | Some (info, hostpart) \<Rightarrow>
          (case (url_parseHost hostpart, url_parseUser info) of
             (Some h, Some u) \<Rightarrow> Some (Some u, h) | _ \<Rightarrow> None))"

definition cut_or :: "string \<Rightarrow> string \<Rightarrow> string \<times> string" where
  "cut_or s sep = (case Cut s sep of None \<Rightarrow> (s, []) | Some p \<Rightarrow> p)"

text \<open>\<open>setPath\<close>: the raw text is kept when it is not the default escaping.\<close>

definition set_path :: "string \<Rightarrow> string \<Rightarrow> url \<Rightarrow> url" where
  "set_path raw p u = u\<lparr>u_Path := p, u_RawPath := (if url_escape EncPath p = raw then [] else raw)\<rparr>"

text \<open>The authority reaches to the next slash, which stays with the path.\<close>

definition url_parse_rest :: "string \<Rightarrow> string \<Rightarrow> string \<Rightarrow> url option" where
  "url_parse_rest scheme rest query =
     (let u = \<lparr>u_Scheme = scheme, u_User = None, u_Host = [], u_Path = [], u_RawPath = [],
               u_Opaque = [], u_RawQuery = query, u_Fragment = []\<rparr> in
      if \<not> HasPrefix rest ''/'' \<and> scheme \<noteq> [] then Some (u\<lparr>u_Opaque := rest\<rparr>)
      else if \<not> HasPrefix rest ''/'' \<and> CHR '':'' \<in> set (takeWhile (\<lambda>c. c \<noteq> CHR ''/'') rest) then None
      else if HasPrefix rest ''//'' \<and> (scheme \<noteq> [] \<or> \<not> HasPrefix rest ''///'') then
        (let authority = takeWhile (\<lambda>c. c \<noteq> CHR ''/'') (drop 2 rest);
             path = dropWhile (\<lambda>c. c \<noteq> CHR ''/'') (drop 2 rest)
         in case (url_parseAuthority authority, url_unescape EncPath path) of
              (Some (user, host), Some p) \<Rightarrow> Some (set_path path p (u\<lparr>u_User := user, u_Host := host\<rparr>))
            | _ \<Rightarrow> None)
      else map_option (\<lambda>p. set_path rest p u) (url_unescape EncPath rest))"

definition is_ctl :: "char \<Rightarrow> bool" where
  "is_ctl c \<longleftrightarrow> (let n = of_char c :: int in n < 32 \<or> n = 127)"

definition url_Parse :: "string \<Rightarrow> url option" where
  "url_Parse raw =
     (let (u, frag) = cut_or raw ''#'' in
      if list_ex is_ctl u then None
      else case getScheme u of
        None \<Rightarrow> None
      | Some (scheme, rest0) \<Rightarrow>
          let (rest, query) = cut_or rest0 ''?''
          in case (url_parse_rest (ToLower scheme) rest query, url_unescape EncFragment frag) of
               (Some r, Some f) \<Rightarrow> Some (r\<lparr>u_Fragment := f\<rparr>)
             | _ \<Rightarrow> None)"

text \<open>\<open>u.Hostname()\<close> and \<open>u.Port()\<close>.\<close>

definition url_splitHostPort :: "string \<Rightarrow> string \<times> string" where
  "url_splitHostPort hp =
     (let (host, port) = (case cut_last (CHR '':'') hp of
            Some (h, p) \<Rightarrow> if list_all is_digit p then (h, p) else (hp, [])
          | None \<Rightarrow> (hp, []))
      in (if HasPrefix host ''['' \<and> HasSuffix host '']'' then TrimSuffix (TrimPrefix host ''['') '']'' else host, port))"

definition url_Hostname :: "url \<Rightarrow> string" where
  "url_Hostname u = fst (url_splitHostPort (u_Host u))"

definition url_Port :: "url \<Rightarrow> string" where
  "url_Port u = snd (url_splitHostPort (u_Host u))"

definition url_Username :: "url \<Rightarrow> string" where
  "url_Username u = (case u_User u of None \<Rightarrow> [] | Some (n, _) \<Rightarrow> n)"

definition url_Password :: "url \<Rightarrow> string" where
  "url_Password u = (case u_User u of Some (_, Some p) \<Rightarrow> p | _ \<Rightarrow> [])"

text \<open>\<open>u.String()\<close> of a URL that has a host or is opaque, as those the panel builds.\<close>

definition validEncoded :: "string \<Rightarrow> escape_mode \<Rightarrow> bool" where
  "validEncoded s mode =
     list_all (\<lambda>c. c \<in> set (CHR 0x27 # ''!$&()*+,;=:@[]%'') \<or> \<not> shouldEscape c mode) s"

definition url_EscapedPath :: "url \<Rightarrow> string" where
  "url_EscapedPath u =
     (if u_RawPath u \<noteq> [] \<and> validEncoded (u_RawPath u) EncPath \<and> url_unescape EncPath (u_RawPath u) = Some (u_Path u)
      then u_RawPath u
      else if u_Path u = ''*'' then ''*'' else url_escape EncPath (u_Path u))"

definition userinfo_String :: "string \<times> string option \<Rightarrow> string" where
  "userinfo_String ui = (case ui of
     (n, None) \<Rightarrow> url_escape EncUser n | (n, Some p) \<Rightarrow> url_escape EncUser n @ '':'' @ url_escape EncUser p)"

definition url_String :: "url \<Rightarrow> string" where
  "url_String u =
     (let authority = (if u_Host u \<noteq> [] \<or> u_User u \<noteq> None then ''//'' @ (case u_User u of None \<Rightarrow> [] | Some ui \<Rightarrow> userinfo_String ui @ ''@'') @ url_escape EncHost (u_Host u)
            else []);
          path = url_EscapedPath u
      in (if u_Scheme u = [] then [] else u_Scheme u @ '':'')
         @ (if u_Opaque u \<noteq> [] then u_Opaque u
            else authority @ (if path \<noteq> [] \<and> hd path \<noteq> CHR ''/'' \<and> u_Host u \<noteq> [] then ''/'' else []) @ path)
         @ (if u_RawQuery u = [] then [] else ''?'' @ u_RawQuery u)
         @ (if u_Fragment u = [] then [] else ''#'' @ url_escape EncFragment (u_Fragment u)))"

section \<open>Query strings\<close>

text \<open>\<open>url.ParseQuery\<close> (used through \<open>u.Query()\<close>, which drops the pairs that fail to decode).\<close>

definition query_pair :: "string \<Rightarrow> (string \<times> string) list" where
  "query_pair kv =
     (if kv = [] \<or> CHR '';'' \<in> set kv then []
      else let (k, v) = cut_or kv ''='' in
        case (url_unescape EncQuery k, url_unescape EncQuery v) of
          (Some k', Some v') \<Rightarrow> [(k', v')] | _ \<Rightarrow> [])"

definition url_Query :: "url \<Rightarrow> (string \<times> string) list" where
  "url_Query u = concat (map query_pair (Split (u_RawQuery u) (CHR ''&'')))"

text \<open>\<open>q.Get(k)\<close>: the first value of the key, or the empty string.\<close>

definition query_Get :: "(string \<times> string) list \<Rightarrow> string \<Rightarrow> string" where
  "query_Get q k = (case map_of q k of None \<Rightarrow> [] | Some v \<Rightarrow> v)"

section \<open>Unescaping undoes escaping\<close>

lemma of_char_range: "0 \<le> (of_char c :: int) \<and> (of_char c :: int) < 256"
proof -
  have "of_char c = int (of_char c :: nat)" by (simp add: of_nat_of_char)
  moreover have "(of_char c :: nat) < 256" by (rule nat_of_char_less_256)
  ultimately show ?thesis by presburger
qed

lemma hex_digit_cases:
  "0 \<le> n \<Longrightarrow> n < 16 \<Longrightarrow> n \<in> {0, 1, 2, 3, 4, 5, 6, 7, 8, 9, 10, 11, 12, 13, 14, 15 :: int}"
  by (simp only: insert_iff empty_iff) presburger

lemma hex_val_upper_hex: "0 \<le> n \<Longrightarrow> n < 16 \<Longrightarrow> hex_val (upper_hex n) = Some n"
proof -
  assume "0 \<le> n" "n < 16"
  then have "n \<in> {0, 1, 2, 3, 4, 5, 6, 7, 8, 9, 10, 11, 12, 13, 14, 15}" by (rule hex_digit_cases)
  then show ?thesis by (auto simp: upper_hex_def hex_val_def)
qed

lemma hex2_upper: "hex2 (upper_hex ((of_char c :: int) div 16)) (upper_hex (of_char c mod 16)) = Some (of_char c)"
proof -
  have "(of_char c :: int) div 16 < 16" "0 \<le> (of_char c :: int) div 16"
    using of_char_range [of c] by auto
  then show ?thesis by (simp add: hex2_def hex_val_upper_hex)
qed

lemma url_unescape_escape:
  assumes "mode \<notin> {EncHost, EncZone}"
  shows "url_unescape mode (url_escape mode s @ t) = map_option ((@) s) (url_unescape mode t)"
proof (induction s)
  case Nil
  show ?case by (simp add: url_escape_def option.map_ident)
next
  case (Cons c s)
  have pct: "shouldEscape (CHR ''%'') mode" "mode = EncQuery \<Longrightarrow> shouldEscape (CHR ''+'') mode"
    by (simp_all add: shouldEscape_def is_unreserved_def is_alnum_def host_chars_def)
  have "url_escape mode (c # s) @ t = escape_char mode c @ (url_escape mode s @ t)"
    by (simp add: url_escape_def)
  moreover have "url_unescape mode (escape_char mode c @ r) = map_option (Cons c) (url_unescape mode r)" for r
    using assms pct by (cases "shouldEscape c mode")
      (auto simp: escape_char_def Let_def hex2_upper escape_allowed_def)
  ultimately show ?case using Cons.IH by (simp add: option.map_comp comp_def)
qed

lemma url_unescape_escape_id:
  "mode \<notin> {EncHost, EncZone} \<Longrightarrow> url_unescape mode (url_escape mode s) = Some s"
  using url_unescape_escape [of mode s "[]"] by simp

lemma is_alnum_upper_hex: "0 \<le> n \<Longrightarrow> n < 16 \<Longrightarrow> is_alnum (upper_hex n)"
proof -
  assume "0 \<le> n" "n < 16"
  then have "n \<in> {0, 1, 2, 3, 4, 5, 6, 7, 8, 9, 10, 11, 12, 13, 14, 15}" by (rule hex_digit_cases)
  then show ?thesis by (auto simp: upper_hex_def is_alnum_def)
qed

lemma escape_chars:
  assumes "c \<in> set (url_escape mode s)"
  shows "is_alnum c \<or> c = CHR ''%'' \<or> (c = CHR ''+'' \<and> mode = EncQuery) \<or> (c \<in> set s \<and> \<not> shouldEscape c mode)"
proof -
  from assms obtain x where x: "x \<in> set s" "c \<in> set (escape_char mode x)"
    by (auto simp: url_escape_def)
  have "0 \<le> (of_char x :: int) div 16 \<and> (of_char x :: int) div 16 < 16" using of_char_range [of x] by auto
  with x is_alnum_upper_hex show ?thesis by (auto simp: escape_char_def Let_def split: if_splits)
qed

end
