(* ===== verification/Go_Json.thy ===== *)
theory Go_Json
  imports Go_Values Netip "HOL-Library.Char_ord" "HOL-Library.List_Lexorder"
begin

text \<open>
  \<open>json.Unmarshal\<close> into \<^verbatim>\<open>interface{}\<close>: the JSON grammar on byte strings, with the decoded
  dynamic value. Numbers become the rational they denote; a repeated key keeps the last value.
  The first argument of the value parser bounds the nesting and the number of elements; the
  length of the text is always enough, since every step consumes a byte.
\<close>

definition json_ws :: "char \<Rightarrow> bool" where
  "json_ws c \<longleftrightarrow> c \<in> {CHR '' '', CHR 0x09, CHR 0x0A, CHR 0x0D}"

definition skip_ws :: "string \<Rightarrow> string" where
  "skip_ws s = dropWhile json_ws s"

section \<open>Strings\<close>

text \<open>The UTF-8 bytes of a code point.\<close>

definition utf8 :: "int \<Rightarrow> string" where
  "utf8 n =
     (if n < 128 then [char_of n]
      else if n < 2048 then [char_of (192 + n div 64), char_of (128 + n mod 64)]
      else if n < 65536 then
        [char_of (224 + n div 4096), char_of (128 + n div 64 mod 64), char_of (128 + n mod 64)]
      else
        [char_of (240 + n div 262144), char_of (128 + n div 4096 mod 64),
         char_of (128 + n div 64 mod 64), char_of (128 + n mod 64)])"

definition hex4 :: "string \<Rightarrow> (int \<times> string) option" where
  "hex4 s = (if length s < 4 \<or> \<not> list_all is_hex (take 4 s) then None
             else Some (hex_num (take 4 s), drop 4 s))"

definition simple_escape :: "char \<Rightarrow> char option" where
  "simple_escape c =
     (if c = CHR 0x22 \<or> c = CHR 0x5C \<or> c = CHR ''/'' then Some c
      else if c = CHR ''b'' then Some (CHR 0x08)
      else if c = CHR ''f'' then Some (CHR 0x0C)
      else if c = CHR ''n'' then Some (CHR 0x0A)
      else if c = CHR ''r'' then Some (CHR 0x0D)
      else if c = CHR ''t'' then Some (CHR 0x09)
      else None)"

text \<open>A \<^verbatim>\<open>\u\<close> escape, with its low surrogate when it is the high one of a pair; a lone surrogate is U+FFFD.\<close>

definition unicode_escape :: "string \<Rightarrow> (string \<times> string) option" where
  "unicode_escape s =
     (case hex4 s of
        None \<Rightarrow> None
      | Some (u, r) \<Rightarrow>
          if 0xD800 \<le> u \<and> u < 0xDC00 then
            (case (if HasPrefix r [CHR 0x5C, CHR ''u''] then hex4 (drop 2 r) else None) of
               Some (l, r') \<Rightarrow>
                 if 0xDC00 \<le> l \<and> l < 0xE000 then Some (utf8 (0x10000 + (u - 0xD800) * 1024 + (l - 0xDC00)), r')
                 else Some (utf8 0xFFFD, r)
             | None \<Rightarrow> Some (utf8 0xFFFD, r))
          else if 0xDC00 \<le> u \<and> u < 0xE000 then Some (utf8 0xFFFD, r)
          else Some (utf8 u, r))"

text \<open>The rest of a string after its opening quote.\<close>

fun json_string :: "nat \<Rightarrow> string \<Rightarrow> (string \<times> string) option" where
  "json_string 0 s = None"
| "json_string (Suc n) [] = None"
| "json_string (Suc n) (c # s) =
     (if c = CHR 0x22 then Some ([], s)
      else if (of_char c :: int) < 32 then None
      else if c = CHR 0x5C then
        (case s of
           [] \<Rightarrow> None
         | e # r \<Rightarrow>
             if e = CHR ''u'' then
               (case unicode_escape r of None \<Rightarrow> None
                | Some (t, r') \<Rightarrow> map_option (apfst ((@) t)) (json_string n r'))
             else (case simple_escape e of None \<Rightarrow> None
                | Some t \<Rightarrow> map_option (apfst (Cons t)) (json_string n r)))
      else map_option (apfst (Cons c)) (json_string n s))"

section \<open>Numbers\<close>

definition json_int :: "string \<Rightarrow> (string \<times> string) option" where
  "json_int s =
     (let d = takeWhile is_digit s; r = dropWhile is_digit s in
      if d = [] then None
      else if hd d = CHR ''0'' then Some (''0'', drop 1 s)
      else Some (d, r))"

definition json_frac :: "string \<Rightarrow> (string \<times> string) option" where
  "json_frac s =
     (if HasPrefix s ''.'' then
        (let d = takeWhile is_digit (tl s) in
         if d = [] then None else Some (d, dropWhile is_digit (tl s)))
      else Some ([], s))"

definition json_exp :: "string \<Rightarrow> (int \<times> string) option" where
  "json_exp s =
     (if s \<noteq> [] \<and> hd s \<in> set ''eE'' then
        (let t = tl s;
             neg = HasPrefix t ''-'';
             u = (if neg \<or> HasPrefix t ''+'' then tl t else t);
             d = takeWhile is_digit u
         in if d = [] then None
            else Some (if neg then - digits_val d else digits_val d, dropWhile is_digit u))
      else Some (0, s))"

definition rat_scale :: "rat \<Rightarrow> int \<Rightarrow> rat" where
  "rat_scale r e = (if 0 \<le> e then r * 10 ^ nat e else r / 10 ^ nat (- e))"

definition json_number :: "string \<Rightarrow> (rat \<times> string) option" where
  "json_number s =
     (let neg = HasPrefix s ''-''; s1 = (if neg then tl s else s) in
      case json_int s1 of
        None \<Rightarrow> None
      | Some (i, s2) \<Rightarrow> (case json_frac s2 of
          None \<Rightarrow> None
        | Some (f, s3) \<Rightarrow> (case json_exp s3 of
            None \<Rightarrow> None
          | Some (e, s4) \<Rightarrow>
              let v = rat_scale (of_int (digits_val (i @ f))) (e - int (length f))
              in Some (if neg then - v else v, s4))))"

section \<open>Values\<close>

fun json_value :: "nat \<Rightarrow> string \<Rightarrow> (gval \<times> string) option"
  and json_elems :: "nat \<Rightarrow> string \<Rightarrow> (gval list \<times> string) option"
  and json_members :: "nat \<Rightarrow> string \<Rightarrow> gmap \<Rightarrow> (gmap \<times> string) option"
where
  "json_value 0 s = None"
| "json_value (Suc n) s =
     (let t = skip_ws s in
      case t of
        [] \<Rightarrow> None
      | c # r \<Rightarrow>
          if c = CHR ''{'' then
            (if HasPrefix (skip_ws r) ''}'' then Some (GMap [], tl (skip_ws r))
             else map_option (apfst GMap) (json_members n r []))
          else if c = CHR ''['' then
            (if HasPrefix (skip_ws r) '']'' then Some (GList [], tl (skip_ws r))
             else map_option (apfst GList) (json_elems n r))
          else if c = CHR 0x22 then map_option (apfst GStr) (json_string (Suc (length r)) r)
          else if HasPrefix t ''true'' then Some (GBool True, drop 4 t)
          else if HasPrefix t ''false'' then Some (GBool False, drop 5 t)
          else if HasPrefix t ''null'' then Some (GNil, drop 4 t)
          else map_option (apfst GFloat) (json_number t))"
| "json_elems 0 s = None"
| "json_elems (Suc n) s =
     (case json_value n s of
        None \<Rightarrow> None
      | Some (v, r) \<Rightarrow>
          (case skip_ws r of
             [] \<Rightarrow> None
           | c # r' \<Rightarrow>
               if c = CHR '']'' then Some ([v], r')
               else if c = CHR '','' then map_option (apfst (Cons v)) (json_elems n r')
               else None))"
| "json_members 0 s m = None"
| "json_members (Suc n) s m =
     (case skip_ws s of
        [] \<Rightarrow> None
      | q # r \<Rightarrow>
          if q \<noteq> CHR 0x22 then None
          else case json_string (Suc (length r)) r of
            None \<Rightarrow> None
          | Some (k, r1) \<Rightarrow>
              if \<not> HasPrefix (skip_ws r1) '':'' then None
              else case json_value n (tl (skip_ws r1)) of
                None \<Rightarrow> None
              | Some (v, r2) \<Rightarrow>
                  (case skip_ws r2 of
                     [] \<Rightarrow> None
                   | c # r3 \<Rightarrow>
                       if c = CHR ''}'' then Some (mput m k v, r3)
                       else if c = CHR '','' then json_members n r3 (mput m k v)
                       else None))"

definition json_Unmarshal :: "string \<Rightarrow> gval option" where
  "json_Unmarshal s =
     (case json_value (2 * length s + 2) s of
        Some (v, r) \<Rightarrow> if skip_ws r = [] then Some v else None
      | None \<Rightarrow> None)"

section \<open>Printing\<close>

text \<open>
  \<open>json.Marshal\<close>: keys in byte order, no spaces, the characters of HTML escaped. Texts are valid
  UTF-8 without the two Unicode line separators, which Go would escape as well.
\<close>

definition lower_hex :: "int \<Rightarrow> char" where
  "lower_hex n = ''0123456789abcdef'' ! nat n"

definition json_char :: "char \<Rightarrow> string" where
  "json_char c =
     (let n = of_char c :: int; bs = CHR 0x5C in
      if c = CHR 0x22 \<or> c = bs then [bs, c]
      else if c = CHR 0x08 then [bs, CHR ''b'']
      else if c = CHR 0x0C then [bs, CHR ''f'']
      else if c = CHR 0x0A then [bs, CHR ''n'']
      else if c = CHR 0x0D then [bs, CHR ''r'']
      else if c = CHR 0x09 then [bs, CHR ''t'']
      else if n < 32 \<or> c \<in> {CHR ''<'', CHR ''>'', CHR ''&''} then
        bs # ''u00'' @ [lower_hex (n div 16), lower_hex (n mod 16)]
      else [c])"

definition json_quote :: "string \<Rightarrow> string" where
  "json_quote s = CHR 0x22 # concat (map json_char s) @ [CHR 0x22]"

definition json_object :: "(string \<times> string) list \<Rightarrow> string" where
  "json_object kvs = ''{'' @ Join (map (\<lambda>(k, t). json_quote k @ '':'' @ t) (sort_key fst kvs)) '','' @ ''}''"

definition json_array :: "string list \<Rightarrow> string" where
  "json_array ts = ''['' @ Join ts '','' @ '']''"

fun json_Marshal :: "gval \<Rightarrow> string" where
  "json_Marshal GNil = ''null''"
| "json_Marshal (GBool b) = (if b then ''true'' else ''false'')"
| "json_Marshal (GFloat r) = float_str r"
| "json_Marshal (GInt i) = Itoa i"
| "json_Marshal (GStr s) = json_quote s"
| "json_Marshal (GList xs) = json_array (map json_Marshal xs)"
| "json_Marshal (GStrs ss) = json_array (map json_quote ss)"
| "json_Marshal (GMap m) = json_object (map (\<lambda>(k, v). (k, json_Marshal v)) m)"
| "json_Marshal (GMaps ms) = json_array (map (\<lambda>m. json_object (map (\<lambda>(k, v). (k, json_Marshal v)) m)) ms)"

end
