(* ===== verification/Relay_Upstreams.thy ===== *)
theory Relay_Upstreams
  imports Relay_Model Go_Url Go_Json
begin

text \<open>
  The parser of upstream proxy lists (\<open>parseRelayUpstreams\<close> and its helpers in
  \<^verbatim>\<open>service/relay.go\<close>): one proxy per line in the formats providers use, or a JSON document.
  The printers of the same file, \<open>relaySOCKSURI\<close> and \<open>relaySOCKSExport\<close>, are its inverses.
\<close>

section \<open>Validation\<close>

definition validateUpstream :: "relay_upstream \<Rightarrow> unit result" where
  "validateUpstream u =
     (let server = TrimSpace (Trim (ru_Server u) ''[]'') in
      if server = [] \<or> ru_Port u < 1 \<or> ru_Port u > 65535 then NewError ''SOCKS5 server or port is invalid''
      else if ContainsAny server ''/?#@'' \<or> ContainsAny server blank_chars then NewError ''SOCKS5 server is invalid''
      else if ParseAddr server = None \<and> (length server > 253 \<or> Contains server '':'') then
        NewError ''SOCKS5 server is invalid''
      else Inr ())"

definition validated :: "relay_upstream \<Rightarrow> relay_upstream result" where
  "validated u = (case validateUpstream u of Inl e \<Rightarrow> Inl e | Inr _ \<Rightarrow> Inr u)"

definition upstream :: "string \<Rightarrow> int \<Rightarrow> string \<Rightarrow> string \<Rightarrow> relay_upstream" where
  "upstream server port user pass =
     \<lparr>ru_Server = server, ru_Port = port, ru_Username = user, ru_Password = pass\<rparr>"

section \<open>One line\<close>

definition isSupportedRelayProxyScheme :: "string \<Rightarrow> bool" where
  "isSupportedRelayProxyScheme scheme \<longleftrightarrow> ToLower (TrimSpace scheme) \<in> {''socks'', ''socks5'', ''socks5h''}"

definition parseRelayEndpointWithCredentials :: "string \<Rightarrow> string \<Rightarrow> relay_upstream option" where
  "parseRelayEndpointWithCredentials endpoint credentials =
     (case SplitHostPort (TrimSpace endpoint) of
        None \<Rightarrow> None
      | Some (host, portText) \<Rightarrow>
          (case Atoi portText of
             None \<Rightarrow> None
           | Some port \<Rightarrow>
               (case Cut credentials '':'' of
                  None \<Rightarrow> None
                | Some (user, pass) \<Rightarrow>
                    if user = [] then None else Some (upstream (Trim host ''[]'') port user pass))))"

definition splitRelayFields :: "string \<Rightarrow> string list" where
  "splitRelayFields line = FieldsFunc (\<lambda>r. r \<in> set [CHR '','', CHR ''|'', CHR '';'', CHR 0x09, CHR '' '']) line"

definition relayFieldsToUpstream :: "string list \<Rightarrow> relay_upstream option" where
  "relayFieldsToUpstream flds = (case flds of
     [a, b, c, d] \<Rightarrow>
       (case Atoi b of
          Some port \<Rightarrow> Some (upstream (Trim a ''[]'') port c d)
        | None \<Rightarrow> (case Atoi d of
            Some port \<Rightarrow> Some (upstream (Trim c ''[]'') port a b)
          | None \<Rightarrow> None))
   | _ \<Rightarrow> None)"

definition parse_url_line :: "string \<Rightarrow> relay_upstream result" where
  "parse_url_line line =
     (case url_Parse line of
        None \<Rightarrow> NewError ''invalid proxy URL''
      | Some u \<Rightarrow>
          if url_Hostname u = [] \<or> url_Port u = [] then NewError ''invalid proxy URL''
          else if \<not> isSupportedRelayProxyScheme (u_Scheme u) then
            NewErrorf (''unsupported proxy scheme '' @ quoted (u_Scheme u) @ ''; use SOCKS5'')
          else (case Atoi (url_Port u) of
            None \<Rightarrow> NewError ''invalid SOCKS5 port''
          | Some port \<Rightarrow> validated (upstream (url_Hostname u) port (url_Username u) (url_Password u))))"

text \<open>The colon-separated forms, after the authenticated ones and the field lists.\<close>

definition parse_colon_line :: "string \<Rightarrow> relay_upstream result" where
  "parse_colon_line line =
     (case SplitHostPort line of
        Some (server, portText) \<Rightarrow>
          (case Atoi portText of
             None \<Rightarrow> NewError ''invalid SOCKS5 port''
           | Some port \<Rightarrow> validated (upstream (Trim server ''[]'') port [] []))
      | None \<Rightarrow>
          (let parts = Split line (CHR '':''); n = length parts;
               four = (if n = 4 then relayFieldsToUpstream parts else None)
           in case four of
                Some u \<Rightarrow> validated u
              | None \<Rightarrow>
                  if n < 4 then
                    NewError ''expected host:port, host:port:user:pass, user:pass@host:port, or a SOCKS5 URL''
                  else (case Atoi (parts ! (n - 3)) of
                    None \<Rightarrow> NewError ''invalid SOCKS5 port''
                  | Some port \<Rightarrow>
                      validated (upstream (Trim (Join (take (n - 3) parts) '':'') ''[]'') port
                        (parts ! (n - 2)) (parts ! (n - 1))))))"

definition quote_chars :: "string" where
  "quote_chars = [CHR 0x22, CHR 0x27]"

definition parseRelayUpstreamLine :: "string \<Rightarrow> relay_upstream result" where
  "parseRelayUpstreamLine line0 =
     (let line = TrimSpace (Trim line0 quote_chars) in
      if line = [] then NewError ''empty SOCKS5 entry''
      else if Contains line ''://'' then parse_url_line line
      else
        let authd = (case cut_last (CHR ''@'') line of
              None \<Rightarrow> None
            | Some (left, right) \<Rightarrow>
                if left = [] then None
                else (case parseRelayEndpointWithCredentials right left of
                  Some u \<Rightarrow> Some u
                | None \<Rightarrow> parseRelayEndpointWithCredentials left right))
        in case authd of
             Some u \<Rightarrow> validated u
           | None \<Rightarrow> (case relayFieldsToUpstream (splitRelayFields line) of
               Some u \<Rightarrow> validated u
             | None \<Rightarrow> parse_colon_line line))"

section \<open>JSON documents\<close>

definition relayJSONFields :: "gmap \<Rightarrow> gmap" where
  "relayJSONFields item = foldl (\<lambda>flds (k, v). mput flds (ToLower (TrimSpace k)) v) [] item"

fun relayJSONString :: "gmap \<Rightarrow> string list \<Rightarrow> string option" where
  "relayJSONString item [] = None"
| "relayJSONString item (key # keys) =
     (case mget item key of
        GStr text \<Rightarrow> if TrimSpace text \<noteq> [] then Some (TrimSpace text) else relayJSONString item keys
      | _ \<Rightarrow> relayJSONString item keys)"

fun relayJSONPort :: "gmap \<Rightarrow> string list \<Rightarrow> int option" where
  "relayJSONPort item [] = None"
| "relayJSONPort item (key # keys) =
     (case mget item key of
        GFloat r \<Rightarrow> if r = of_int (trunc_rat r) then Some (trunc_rat r) else None
      | GStr s \<Rightarrow> Atoi (TrimSpace s)
      | _ \<Rightarrow> relayJSONPort item keys)"

fun json_child :: "gmap \<Rightarrow> string list \<Rightarrow> gval option" where
  "json_child flds [] = None"
| "json_child flds (key # keys) = (if mhas flds key then Some (mget flds key) else json_child flds keys)"

lemma set_mput: "set (mput m k v) \<subseteq> insert (k, v) (set m)"
  unfolding mput_def by (induction m) auto

lemma relayJSONFields_values:
  "(k, v) \<in> set (relayJSONFields item) \<Longrightarrow> v \<in> snd ` set item"
proof -
  have "snd ` set (foldl (\<lambda>flds (k, v). mput flds (g k) v) acc item) \<subseteq> snd ` set acc \<union> snd ` set item"
    for g :: "string \<Rightarrow> string" and acc :: gmap
  proof (induction item arbitrary: acc)
    case (Cons kv item)
    obtain k v where kv: "kv = (k, v)" by (cases kv)
    have "snd ` set (mput acc (g k) v) \<subseteq> insert v (snd ` set acc)"
      using set_mput [of acc "g k" v] by (metis image_insert image_mono snd_conv)
    with Cons.IH [of "mput acc (g k) v"] show ?case unfolding kv by auto
  qed simp
  from this [of "\<lambda>k. ToLower (TrimSpace k)" "[]"]
  show "(k, v) \<in> set (relayJSONFields item) \<Longrightarrow> v \<in> snd ` set item"
    unfolding relayJSONFields_def by (force simp del: foldl_Nil foldl_Cons)
qed

lemma json_child_value: "json_child flds keys = Some v \<Longrightarrow> v \<in> snd ` set flds"
proof (induction keys)
  case (Cons key keys)
  then show ?case
    by (auto simp: mhas_def mget_def split: if_splits dest!: map_of_SomeD intro: rev_image_eqI)
qed simp

lemma json_child_size [termination_simp]:
  assumes "json_child (relayJSONFields item) keys = Some v"
  shows "size v < size (GMap item)"
proof -
  obtain k where "(k, v) \<in> set (relayJSONFields item)" using json_child_value [OF assms] by auto
  then obtain k' where "(k', v) \<in> set item" using relayJSONFields_values by fastforce
  then have "size v < Suc (size_list (size_prod (\<lambda>_. 0) size) item)"
    by (induction item) auto
  then show ?thesis by simp
qed

function (sequential) upstream_walk :: "gval \<Rightarrow> relay_upstream list result"
  and upstream_walks :: "gval list \<Rightarrow> relay_upstream list result"
where
  "upstream_walk (GStr s) = map_sum id (\<lambda>u. [u]) (parseRelayUpstreamLine s)"
| "upstream_walk (GList xs) = upstream_walks xs"
| "upstream_walk (GMap item) =
     (let flds = relayJSONFields item in
      case relayJSONString flds [''host'', ''server'', ''ip'', ''address''] of
        Some host \<Rightarrow>
          (case relayJSONPort flds [''port'', ''server_port''] of
             None \<Rightarrow> NewErrorf (''JSON proxy '' @ quoted host @ '' has no valid port'')
           | Some port \<Rightarrow>
               let text = (\<lambda>keys. case relayJSONString flds keys of None \<Rightarrow> [] | Some t \<Rightarrow> t) in
               Inr [upstream host port (text [''username'', ''user'', ''login'']) (text [''password'', ''pass'', ''pwd''])])
      | None \<Rightarrow>
          (case json_child (relayJSONFields item) [''data'', ''proxies'', ''proxy'', ''list'', ''result'', ''items''] of
             None \<Rightarrow> Inr []
           | Some child \<Rightarrow> upstream_walk child))"
| "upstream_walk _ = Inr []"
| "upstream_walks [] = Inr []"
| "upstream_walks (x # xs) =
     (case upstream_walk x of
        Inl e \<Rightarrow> Inl e
      | Inr us \<Rightarrow> map_sum id ((@) us) (upstream_walks xs))"
  by pat_completeness auto
termination
  by (relation "measure (case_sum size (size_list size))") (auto dest: json_child_size simp del: json_child.simps relayJSONString.simps)

fun validate_all :: "int \<Rightarrow> relay_upstream list \<Rightarrow> unit result" where
  "validate_all n [] = Inr ()"
| "validate_all n (u # us) =
     (case validateUpstream u of
        Inl e \<Rightarrow> Inl (''JSON proxy '' @ Itoa n @ '': '' @ e)
      | Inr _ \<Rightarrow> validate_all (n + 1) us)"

definition parseRelayUpstreamJSON :: "gval \<Rightarrow> relay_upstream list result" where
  "parseRelayUpstreamJSON raw =
     (case upstream_walk raw of
        Inl e \<Rightarrow> Inl (''invalid proxy JSON: '' @ e)
      | Inr us \<Rightarrow>
          if us = [] then NewError ''proxy JSON contains no supported entries''
          else (case validate_all 1 us of Inl e \<Rightarrow> Inl e | Inr _ \<Rightarrow> Inr us))"

section \<open>The whole text\<close>

definition crlf :: string where "crlf = [CHR 0x0D, CHR 0x0A]"
definition newline :: string where "newline = [CHR 0x0A]"
definition byte_order_mark :: string where "byte_order_mark = [CHR 0xEF, CHR 0xBB, CHR 0xBF]"

fun parse_lines :: "int \<Rightarrow> string list \<Rightarrow> relay_upstream list result" where
  "parse_lines n [] = Inr []"
| "parse_lines n (raw # rest) =
     (let line = TrimSpace raw in
      if line = [] \<or> HasPrefix line ''#'' then parse_lines (n + 1) rest
      else (case parseRelayUpstreamLine line of
        Inl e \<Rightarrow> Inl (''line '' @ Itoa n @ '': '' @ e)
      | Inr u \<Rightarrow> map_sum id (Cons u) (parse_lines (n + 1) rest)))"

definition parse_text_lines :: "string \<Rightarrow> relay_upstream list result" where
  "parse_text_lines text =
     (case parse_lines 1 (Split (ReplaceAll text crlf newline) (CHR 0x0A)) of
        Inl e \<Rightarrow> Inl e
      | Inr us \<Rightarrow> if us = [] then NewError ''no valid SOCKS5 entries found'' else Inr us)"

definition parseRelayUpstreams :: "string \<Rightarrow> relay_upstream list result" where
  "parseRelayUpstreams text0 =
     (let text = TrimSpace (TrimPrefix text0 byte_order_mark) in
      if text = [] then NewError ''no valid SOCKS5 entries found''
      else case (if HasPrefix text ''{'' \<or> HasPrefix text ''['' then json_Unmarshal text else None) of
        Some raw \<Rightarrow> parseRelayUpstreamJSON raw
      | None \<Rightarrow> parse_text_lines text)"

section \<open>The printer\<close>

text \<open>\<open>(&url.URL{Scheme, User, Host}).String()\<close>.\<close>

definition relaySOCKSURI :: "string \<Rightarrow> int \<Rightarrow> string \<Rightarrow> string \<Rightarrow> string" where
  "relaySOCKSURI host port username password =
     ''socks5://'' @ url_escape EncUser username @ '':'' @ url_escape EncUser password @ ''@''
       @ url_escape EncHost (JoinHostPort (Trim host ''[]'') (Itoa port))"

section \<open>Every accepted upstream is usable\<close>

lemma validated_Inr: "validated u = Inr v \<longleftrightarrow> v = u \<and> validateUpstream u = Inr ()"
  by (auto simp: validated_def split: sum.splits)

lemma validateUpstream_Inr_iff:
  "validateUpstream u = Inr () \<longleftrightarrow>
     (let server = TrimSpace (Trim (ru_Server u) ''[]'') in
      server \<noteq> [] \<and> 1 \<le> ru_Port u \<and> ru_Port u \<le> 65535
      \<and> \<not> ContainsAny server ''/?#@'' \<and> \<not> ContainsAny server blank_chars
      \<and> (ParseAddr server \<noteq> None \<or> (length server \<le> 253 \<and> \<not> Contains server '':'')))"
  by (auto simp: validateUpstream_def Let_def)

lemma parseRelayUpstreamLine_valid:
  "parseRelayUpstreamLine line = Inr u \<Longrightarrow> validateUpstream u = Inr ()"
  by (auto simp: parseRelayUpstreamLine_def parse_url_line_def parse_colon_line_def Let_def validated_Inr
      split: if_splits option.splits)

lemma validate_all_Inr: "validate_all n us = Inr () \<Longrightarrow> \<forall>u\<in>set us. validateUpstream u = Inr ()"
  by (induction us arbitrary: n) (auto split: sum.splits)

lemma parse_lines_valid: "parse_lines n ls = Inr us \<Longrightarrow> \<forall>u\<in>set us. validateUpstream u = Inr ()"
proof (induction ls arbitrary: n us)
  case (Cons l ls)
  show ?case
  proof (cases "TrimSpace l = [] \<or> HasPrefix (TrimSpace l) ''#''")
    case True
    then have "parse_lines (n + 1) ls = Inr us" using Cons.prems by (simp add: Let_def)
    then show ?thesis by (rule Cons.IH)
  next
    case False
    then obtain u us' where u: "parseRelayUpstreamLine (TrimSpace l) = Inr u"
      and us': "parse_lines (n + 1) ls = Inr us'" "us = u # us'"
      using Cons.prems by (auto simp: Let_def map_sum_def split: sum.splits)
    then show ?thesis using parseRelayUpstreamLine_valid [OF u] Cons.IH [OF us'(1)] by simp
  qed
qed simp

text \<open>
  A text the parser accepts, whichever of its formats it is in, gives at least one
  upstream, and every upstream has a server that is not blank and holds no path, query,
  user or blank characters, an IP address or a name without a colon, and a TCP port.
\<close>

theorem parseRelayUpstreams_sound:
  assumes "parseRelayUpstreams text = Inr us"
  shows "us \<noteq> [] \<and> list_all (\<lambda>u. validateUpstream u = Inr () \<and> 1 \<le> ru_Port u \<and> ru_Port u \<le> 65535
    \<and> TrimSpace (Trim (ru_Server u) ''[]'') \<noteq> []) us"
proof -
  have "us \<noteq> [] \<and> (\<forall>u\<in>set us. validateUpstream u = Inr ())"
    using assms
    by (auto simp: parseRelayUpstreams_def parseRelayUpstreamJSON_def parse_text_lines_def Let_def
        dest: validate_all_Inr parse_lines_valid split: if_splits option.splits sum.splits)
  then show ?thesis by (auto simp: list_all_iff validateUpstream_Inr_iff Let_def)
qed

theorem parseRelayUpstreams_sound_witness:
  "\<exists>us. parseRelayUpstreams (''socks5://u:p@[2001:db8::7]:1080'' @ newline @ ''b.example:2080:me:pw'') = Inr us \<and> us \<noteq> []"
proof -
  let ?us = "[upstream ''2001:db8::7'' 1080 ''u'' ''p'', upstream ''b.example'' 2080 ''me'' ''pw'']"
  have parsed: "parseRelayUpstreams (''socks5://u:p@[2001:db8::7]:1080'' @ newline @ ''b.example:2080:me:pw'') = Inr ?us"
    by code_simp
  from parseRelayUpstreams_sound [OF this] show ?thesis using parsed by blast
qed

end
