(* ===== verification/Relay_Exports.thy ===== *)
theory Relay_Exports
  imports Relay_Upstreams
begin

text \<open>
  Round trips between the endpoint texts the panel prints for its relay items
  (\<open>relaySOCKSExport\<close>, \<open>relaySOCKSURI\<close>) and the upstream parser of another panel that imports
  them: whatever is exported is read back as the same server, port and credentials.
\<close>

section \<open>Hosts\<close>

definition name_char :: "char \<Rightarrow> bool" where
  "name_char c \<longleftrightarrow> is_alnum c \<or> c = CHR ''-'' \<or> c = CHR ''.''"

definition literal_char :: "char \<Rightarrow> bool" where
  "literal_char c \<longleftrightarrow> is_hex c \<or> c = CHR '':'' \<or> c = CHR ''.''"

definition host_name :: "string \<Rightarrow> bool" where
  "host_name h \<longleftrightarrow> h \<noteq> [] \<and> length h \<le> 253 \<and> list_all name_char h"

definition host_literal6 :: "string \<Rightarrow> bool" where
  "host_literal6 h \<longleftrightarrow> list_all literal_char h \<and> CHR '':'' \<in> set h
     \<and> (case ParseAddr h of Some a \<Rightarrow> Is6 a | None \<Rightarrow> False)"

definition export_host :: "string \<Rightarrow> bool" where
  "export_host h \<longleftrightarrow> host_name h \<or> host_literal6 h"

lemma is_hex_alnum: "is_hex c \<Longrightarrow> is_alnum c"
  by (auto simp: is_hex_def hex_val_def is_alnum_def Let_def split: if_splits)

definition host_char :: "char \<Rightarrow> bool" where
  "host_char c \<longleftrightarrow> is_alnum c \<or> c \<in> {CHR ''-'', CHR ''.'', CHR '':''}"

lemma export_host_chars: "export_host h \<Longrightarrow> list_all host_char h"
  by (auto simp: export_host_def host_name_def host_literal6_def list_all_iff name_char_def
      literal_char_def host_char_def dest: is_hex_alnum)

lemma export_host_ne: "export_host h \<Longrightarrow> h \<noteq> []"
  by (auto simp: export_host_def host_name_def host_literal6_def)

lemma host_char_not:
  "host_char c \<Longrightarrow> c \<notin> set (''[]/?#@%,|; '' @ quote_chars @ blank_chars) \<and> \<not> is_space c \<and> \<not> is_ctl c"
  by (auto simp: host_char_def is_alnum_def Let_def quote_chars_def blank_chars_def is_space_def is_ctl_def)

lemma host_chars_not:
  "list_all host_char h \<Longrightarrow> c \<in> set h \<Longrightarrow>
     c \<notin> set (''[]/?#@%,|; '' @ quote_chars @ blank_chars) \<and> \<not> is_space c \<and> \<not> is_ctl c"
  using host_char_not by (simp add: list_all_iff)

lemma digit_host_char: "is_digit c \<Longrightarrow> host_char c"
  by (auto simp: is_digit_def host_char_def is_alnum_def Let_def)

lemma Itoa_host_chars: "0 \<le> i \<Longrightarrow> list_all host_char (Itoa i)"
  using Itoa_digits [of i] digit_host_char by (auto simp: list_all_iff)

lemma Trim_clean: "\<forall>c\<in>set s. c \<notin> set cutset \<Longrightarrow> Trim s cutset = s"
  unfolding Trim_def by (rule trim_by_none) (simp add: list_all_iff)

lemma TrimSpace_clean: "\<forall>c\<in>set s. \<not> is_space c \<Longrightarrow> TrimSpace s = s"
  unfolding TrimSpace_def by (rule trim_by_none) (simp add: list_all_iff)

lemma trim_host:
  assumes "list_all host_char h"
  shows "Trim h ''[]'' = h \<and> TrimSpace h = h"
  using host_chars_not [OF assms] by (auto intro!: Trim_clean TrimSpace_clean)

lemma export_host_valid:
  assumes "export_host h" "1 \<le> port" "port \<le> 65535"
  shows "validateUpstream (upstream h port user pass) = Inr ()"
proof -
  have c: "list_all host_char h" by (rule export_host_chars [OF assms(1)])
  have no: "\<not> ContainsAny h ''/?#@''" "\<not> ContainsAny h blank_chars"
    using host_chars_not [OF c] by (auto simp: ContainsAny_def list_ex_iff)
  have "ParseAddr h \<noteq> None \<or> (length h \<le> 253 \<and> \<not> Contains h '':'')"
    using assms(1) by (auto simp: export_host_def host_name_def host_literal6_def list_all_iff name_char_def
        is_alnum_def Contains_single split: option.splits)
  with no assms export_host_ne [OF assms(1)] trim_host [OF c] show ?thesis
    by (simp add: validateUpstream_Inr_iff Let_def upstream_def)
qed

section \<open>The colon form\<close>

text \<open>Credentials of the colon form: none of the characters the line formats give a meaning.\<close>

definition cred_char :: "char \<Rightarrow> bool" where
  "cred_char c \<longleftrightarrow> c \<notin> set ('':@/,|;'' @ quote_chars) \<and> c \<notin> {CHR 0x0A} \<and> \<not> is_space c"

definition line_char :: "char \<Rightarrow> bool" where
  "line_char c \<longleftrightarrow> c \<notin> set (''@/,|;'' @ quote_chars) \<and> \<not> is_space c"

lemma line_chars:
  assumes "list_all host_char h" "list_all cred_char user" "list_all cred_char pass" "0 \<le> port"
  shows "list_all line_char (h @ '':'' @ Itoa port @ '':'' @ user @ '':'' @ pass)"
proof -
  have "line_char c" if "host_char c" for c using host_char_not [OF that] by (auto simp: line_char_def)
  moreover have "line_char c" if "cred_char c" for c using that by (auto simp: line_char_def cred_char_def)
  moreover have "line_char (CHR '':'')" by (simp add: line_char_def is_space_def quote_chars_def)
  ultimately show ?thesis using assms Itoa_host_chars [OF assms(4)] by (auto simp: list_all_iff)
qed

lemma Cut_none_of: "c \<notin> set s \<Longrightarrow> c \<in> set sep \<Longrightarrow> Cut s sep = None"
proof (induction s)
  case (Cons x s)
  have "\<not> HasPrefix (x # s) sep"
    using Cons.prems in_set_takeD [of c "length sep" "x # s"] by (auto simp: HasPrefix_def)
  with Cons show ?case by simp
qed (auto simp: HasPrefix_def)

lemma line_char_plain:
  assumes "list_all line_char line"
  shows "TrimSpace (Trim line quote_chars) = line" "\<not> Contains line ''://''"
    "cut_last (CHR ''@'') line = None" "splitRelayFields line = (if line = [] then [] else [line])"
proof -
  have t: "Trim line quote_chars = line" "TrimSpace line = line"
    using assms by (auto simp: list_all_iff line_char_def intro!: Trim_clean TrimSpace_clean)
  then show "TrimSpace (Trim line quote_chars) = line" by simp
  have "CHR ''/'' \<notin> set line" using assms by (auto simp: list_all_iff line_char_def)
  then have "Cut line ''://'' = None"
    by (rule Cut_none_of) simp
  then show "\<not> Contains line ''://''" by (simp add: Contains_def)
  show "cut_last (CHR ''@'') line = None" using assms by (auto simp: list_all_iff line_char_def)
  have "list_all (\<lambda>c. \<not> c \<in> set [CHR '','', CHR ''|'', CHR '';'', CHR 0x09, CHR '' '']) line"
    using assms by (auto simp: list_all_iff line_char_def is_space_def)
  then show "splitRelayFields line = (if line = [] then [] else [line])"
    unfolding splitRelayFields_def by (rule FieldsFunc_none)
qed

lemma plain_line_colon:
  assumes "list_all line_char line" "line \<noteq> []"
  shows "parseRelayUpstreamLine line = parse_colon_line line"
  using line_char_plain [OF assms(1)] assms(2)
  by (simp add: parseRelayUpstreamLine_def relayFieldsToUpstream_def Let_def del: cut_last_None)

lemma cred_no_colon: "list_all cred_char s \<Longrightarrow> CHR '':'' \<notin> set s"
  by (auto simp: list_all_iff cred_char_def)

lemma Split_export:
  assumes "list_all cred_char user" "list_all cred_char pass" "0 \<le> port"
  shows "Split (h @ '':'' @ Itoa port @ '':'' @ user @ '':'' @ pass) (CHR '':'')
    = Split h (CHR '':'') @ [Itoa port, user, pass]"
proof -
  let ?c = "CHR '':''"
  have ws: "h = Join (Split h ?c) [?c]" by (simp add: Join_Split)
  have join: "Join (vs @ [a, b, c]) [?c] = Join vs [?c] @ ?c # a @ ?c # b @ ?c # c" if "vs \<noteq> []" for vs a b c
    using that by (induction vs "[?c]" rule: Join.induct) auto
  have no: "\<forall>w\<in>set (Split h ?c @ [Itoa port, user, pass]). ?c \<notin> set w"
  proof -
    have "?c \<notin> set w" if "w \<in> set (Split h ?c)" for w
      using split_when_no_sep [of w "\<lambda>x. x = ?c" h] that by (auto simp: Split_def list_all_iff)
    moreover have "?c \<notin> set (Itoa port)"
      by (rule Itoa_not_in) (simp_all add: assms(3) is_digit_def)
    ultimately show ?thesis using cred_no_colon [OF assms(1)] cred_no_colon [OF assms(2)] by auto
  qed
  have "Split (Join (Split h ?c @ [Itoa port, user, pass]) [?c]) ?c = Split h ?c @ [Itoa port, user, pass]"
    by (rule Split_Join [OF _ no]) simp
  moreover have "Split h ?c \<noteq> []" by (simp add: Split_def)
  ultimately show ?thesis by (simp add: join Join_Split)
qed

lemma export_line_parsed:
  assumes h: "export_host h" and p: "1 \<le> port" "port \<le> 65535"
    and creds: "list_all cred_char user" "list_all cred_char pass"
  shows "parseRelayUpstreamLine (relaySOCKSExport h port user pass) = Inr (upstream h port user pass)"
proof -
  have c: "list_all host_char h" by (rule export_host_chars [OF h])
  have "0 \<le> port" using p by simp
  define line where "line = h @ '':'' @ Itoa port @ '':'' @ user @ '':'' @ pass"
  have line: "relaySOCKSExport h port user pass = line"
    by (simp add: relaySOCKSExport_def line_def trim_host [OF c])
  have lc: "list_all line_char line" "line \<noteq> []"
    using line_chars [OF c creds \<open>0 \<le> port\<close>] by (simp_all add: line_def)
  have "SplitHostPort line = None"
  proof -
    have "cut_last (CHR '':'') line = Some (h @ '':'' @ Itoa port @ '':'' @ user, pass)"
      using cut_last_append [OF cred_no_colon [OF creds(2)], of "h @ '':'' @ Itoa port @ '':'' @ user"]
      by (simp add: line_def)
    moreover have "\<not> HasPrefix line ''[''"
      using host_chars_not [OF c] export_host_ne [OF h]
      by (cases h) (auto simp: HasPrefix_def line_def)
    ultimately show ?thesis by (simp add: SplitHostPort_def)
  qed
  moreover have parts: "Split line (CHR '':'') = Split h (CHR '':'') @ [Itoa port, user, pass]"
    unfolding line_def by (rule Split_export [OF creds \<open>0 \<le> port\<close>])
  moreover have at: "Atoi (Itoa port) = Some port" using p by (intro Atoi_Itoa) auto
  moreover have ok: "validated (upstream h port user pass) = Inr (upstream h port user pass)"
    by (simp add: validated_def export_host_valid [OF h p])
  ultimately have "parse_colon_line line = Inr (upstream h port user pass)"
  proof (cases "CHR '':'' \<in> set h")
    case False
    then have "Split h (CHR '':'') = [h]" by (rule Split_none)
    with parts at ok \<open>SplitHostPort line = None\<close> show ?thesis
      by (simp add: parse_colon_line_def relayFieldsToUpstream_def Let_def trim_host [OF c])
  next
    case True
    then have "length (Split h (CHR '':'')) \<noteq> 1"
      using Join_Split [of h "CHR '':''"] split_when_no_sep [of _ "\<lambda>x. x = CHR '':''" h]
      by (auto simp: Split_def length_Suc_conv list_all_iff)
    moreover have ne: "Split h (CHR '':'') \<noteq> []" by (simp add: Split_def)
    ultimately have n: "2 \<le> length (Split h (CHR '':''))"
      by (cases "Split h (CHR '':'')") (auto simp: Suc_le_eq)
    then obtain a b r where "Split h (CHR '':'') = a # b # r"
      by (cases "Split h (CHR '':'')" rule: remdups_adj.cases) auto
    then have "relayFieldsToUpstream (Split h (CHR '':'') @ [Itoa port, user, pass]) = None
        \<or> length (Split h (CHR '':'') @ [Itoa port, user, pass]) \<noteq> 4" by simp
    with parts at ok n ne \<open>SplitHostPort line = None\<close> show ?thesis
      by (simp add: parse_colon_line_def Let_def trim_host [OF c] nth_append Join_Split)
  qed
  then show ?thesis using plain_line_colon [OF lc] by (simp add: line)
qed

section \<open>A whole exported list\<close>

definition export_entry :: "relay_upstream \<Rightarrow> bool" where
  "export_entry u \<longleftrightarrow> export_host (ru_Server u) \<and> 1 \<le> ru_Port u \<and> ru_Port u \<le> 65535
     \<and> list_all cred_char (ru_Username u) \<and> list_all cred_char (ru_Password u)"

definition export_line :: "relay_upstream \<Rightarrow> string" where
  "export_line u = relaySOCKSExport (ru_Server u) (ru_Port u) (ru_Username u) (ru_Password u)"

lemma export_line_facts:
  assumes "export_entry u"
  shows "list_all line_char (export_line u)" "export_line u \<noteq> []" "host_char (hd (export_line u))"
    "parseRelayUpstreamLine (export_line u) = Inr u"
proof -
  have c: "list_all host_char (ru_Server u)" and ne: "ru_Server u \<noteq> []"
    using assms export_host_chars export_host_ne by (auto simp: export_entry_def)
  have line: "export_line u = ru_Server u @ '':'' @ Itoa (ru_Port u) @ '':'' @ ru_Username u @ '':'' @ ru_Password u"
    by (simp add: export_line_def relaySOCKSExport_def trim_host [OF c])
  show "list_all line_char (export_line u)"
    unfolding line using assms by (intro line_chars c) (auto simp: export_entry_def)
  show "export_line u \<noteq> []" by (simp add: line)
  show "host_char (hd (export_line u))" using c ne by (cases "ru_Server u") (auto simp: line)
  show "parseRelayUpstreamLine (export_line u) = Inr u"
    using assms export_line_parsed [of "ru_Server u" "ru_Port u" "ru_Username u" "ru_Password u"]
    by (simp add: export_line_def export_entry_def upstream_def)
qed

lemma export_lines_parsed:
  assumes "list_all export_entry us"
  shows "parse_lines n (map export_line us) = Inr us"
  using assms
proof (induction us arbitrary: n)
  case (Cons u us)
  then have u: "export_entry u" by simp
  have "TrimSpace (export_line u) = export_line u"
    using export_line_facts(1) [OF u] by (intro TrimSpace_clean) (auto simp: list_all_iff line_char_def)
  moreover have "\<not> HasPrefix (export_line u) ''#''"
    using export_line_facts(2,3) [OF u] host_char_not [of "CHR ''#''"]
    by (cases "export_line u") (auto simp: HasPrefix_def)
  ultimately show ?case
    using Cons export_line_facts [OF u] by (simp add: Let_def)
qed simp

lemma ReplaceAll_none: "hd old \<notin> set s \<Longrightarrow> old \<noteq> [] \<Longrightarrow> ReplaceAll s old new = s"
proof (induction s)
  case (Cons c s)
  have "\<not> HasPrefix (c # s) old"
    using Cons.prems by (cases old) (auto simp: HasPrefix_def)
  with Cons show ?case by (subst ReplaceAll.simps) simp
qed (subst ReplaceAll.simps, simp)

lemma set_Join: "set (Join ws sep) \<subseteq> \<Union> (set ` set ws) \<union> set sep"
  by (induction ws sep rule: Join.induct) auto

lemma Join_first: "w \<noteq> [] \<Longrightarrow> \<exists>r. Join (w # ws) sep = w @ r"
  by (cases ws) auto

lemma Join_last: "ws \<noteq> [] \<Longrightarrow> last ws \<noteq> [] \<Longrightarrow> Join ws sep \<noteq> [] \<and> last (Join ws sep) = last (last ws)"
  by (induction ws sep rule: Join.induct) auto

lemma trim_by_ends: "s \<noteq> [] \<Longrightarrow> \<not> p (hd s) \<Longrightarrow> \<not> p (last s) \<Longrightarrow> trim_by p s = s"
proof -
  assume "s \<noteq> []" "\<not> p (hd s)" "\<not> p (last s)"
  then have "dropWhile p s = s" "dropWhile p (rev s) = rev s"
    by (auto intro!: dropWhile_hd simp: hd_rev)
  then show "trim_by p s = s" by (simp add: trim_by_def)
qed

text \<open>
  C21. The list a panel exports (one \<^verbatim>\<open>host:port:user:password\<close> line per item, host name or
  IPv6 literal) is read back by the upstream parser as exactly the exported entries, in order.
\<close>

theorem relay_export_roundtrip:
  assumes "us \<noteq> []" and ok: "list_all export_entry us"
  shows "parseRelayUpstreams (Join (map export_line us) newline) = Inr us"
proof -
  let ?ls = "map export_line us"
  define doc where "doc = Join ?ls newline"
  have lc: "\<forall>l\<in>set ?ls. list_all line_char l \<and> l \<noteq> []"
    using ok export_line_facts(1,2) by (auto simp: list_all_iff)
  then have chars: "\<forall>c\<in>set doc. line_char c \<or> c = CHR 0x0A"
    using set_Join [of ?ls newline] by (fastforce simp: doc_def newline_def list_all_iff)
  obtain u us' where us: "us = u # us'" using assms(1) by (cases us) auto
  have u: "export_entry u" using ok us by simp
  obtain r where r: "doc = export_line u @ r"
    using Join_first [OF export_line_facts(2) [OF u]] us by (auto simp: doc_def)
  have first: "host_char (hd doc)" "doc \<noteq> []" using export_line_facts(2,3) [OF u] by (simp_all add: r)
  have "last ?ls \<in> set ?ls" using us by (intro last_in_set) simp
  then have final: "line_char (last doc)"
    using lc Join_last [of ?ls newline] us by (metis list.simps(3) list.map(2) list_all_iff last_in_set doc_def)
  have trim: "TrimSpace doc = doc"
    unfolding TrimSpace_def using first final host_char_not [OF first(1)]
    by (intro trim_by_ends) (auto simp: line_char_def)
  have head: "\<not> HasPrefix doc ''{''" "\<not> HasPrefix doc ''[''" "TrimPrefix doc byte_order_mark = doc"
    using first by (cases doc; auto simp: HasPrefix_def TrimPrefix_def byte_order_mark_def host_char_def is_alnum_def Let_def)+
  have "CHR 0x0D \<notin> set doc" using chars by (auto simp: line_char_def is_space_def)
  then have "ReplaceAll doc crlf newline = doc" by (intro ReplaceAll_none) (simp_all add: crlf_def)
  moreover have "Split doc (CHR 0x0A) = ?ls"
  proof -
    have "CHR 0x0A \<notin> set l" if "l \<in> set ?ls" for l
      using lc that by (auto simp: list_all_iff line_char_def is_space_def)
    then show ?thesis using Split_Join [of ?ls "CHR 0x0A"] us by (simp add: doc_def newline_def)
  qed
  ultimately have "parse_text_lines doc = Inr us"
    using export_lines_parsed [OF ok, of 1] assms(1) by (simp add: parse_text_lines_def)
  then show ?thesis
    using first head trim by (simp add: parseRelayUpstreams_def Let_def doc_def [symmetric])
qed

theorem relay_export_roundtrip_witness:
  "parseRelayUpstreams (Join (map export_line
     [upstream ''proxy.example.com'' 1080 ''relay-1-Ab3d'' ''s3cret'', upstream ''2001:db8::7'' 40001 ''u'' ''p'']) newline)
   = Inr [upstream ''proxy.example.com'' 1080 ''relay-1-Ab3d'' ''s3cret'', upstream ''2001:db8::7'' 40001 ''u'' ''p'']"
  by (rule relay_export_roundtrip) (simp, code_simp)

section \<open>The URI form\<close>

lemma user_escape_char:
  assumes "c \<in> set (url_escape EncUser s)"
  shows "is_alnum c \<or> c \<in> set ''%-_.~$&+,;=''"
  using escape_chars [OF assms] by (auto simp: shouldEscape_def is_unreserved_def split: if_splits)

text \<open>An encoded credential: its characters, and what it stands for.\<close>

definition encoded_cred :: "string \<Rightarrow> string \<Rightarrow> bool" where
  "encoded_cred e s \<longleftrightarrow> list_all (\<lambda>c. is_alnum c \<or> c \<in> set ''%-_.~$&+,;='') e \<and> url_unescape EncUser e = Some s"

lemma user_escape_encoded: "encoded_cred (url_escape EncUser s) s"
  using user_escape_char [of _ s] url_unescape_escape_id [of EncUser s] by (auto simp: encoded_cred_def list_all_iff)

lemma encoded_cred_not:
  assumes "encoded_cred e s" "c \<in> set e"
  shows "c \<notin> set (''#?/@: '' @ quote_chars) \<and> \<not> is_space c \<and> \<not> is_ctl c"
proof -
  have "is_alnum c \<or> c \<in> set ''%-_.~$&+,;=''" using assms by (simp add: encoded_cred_def list_all_iff)
  then show ?thesis by (auto simp: is_alnum_def Let_def quote_chars_def is_space_def is_ctl_def)
qed

lemma encoded_cred_valid:
  assumes "encoded_cred eu user" "encoded_cred ep pass"
  shows "validUserinfo (eu @ '':'' @ ep)"
  using assms by (fastforce simp: validUserinfo_def list_all_iff encoded_cred_def)

lemma host_escape:
  assumes "list_all host_char h" "0 \<le> port"
  shows "url_escape EncHost (JoinHostPort h (Itoa port)) = JoinHostPort h (Itoa port)"
proof -
  have esc: "url_escape EncHost s = s" if "\<forall>c\<in>set s. \<not> shouldEscape c EncHost" for s
    using that by (induction s) (auto simp: url_escape_def escape_char_def)
  have ok: "\<not> shouldEscape c EncHost" if "host_char c" for c
    using that by (auto simp: shouldEscape_def host_char_def is_unreserved_def host_chars_def)
  have brackets: "\<not> shouldEscape (CHR ''['') EncHost" "\<not> shouldEscape (CHR '']'') EncHost"
      "\<not> shouldEscape (CHR '':'') EncHost"
    by (simp_all add: shouldEscape_def host_chars_def)
  have "\<forall>c\<in>set (JoinHostPort h (Itoa port)). \<not> shouldEscape c EncHost"
    using assms(1) Itoa_host_chars [OF assms(2)] ok brackets by (auto simp: JoinHostPort_def list_all_iff)
  then show ?thesis by (rule esc)
qed

lemma host_unescape: "list_all host_char s \<Longrightarrow> url_unescape EncHost s = Some s"
proof (induction s)
  case (Cons c s)
  have "\<not> shouldEscape c EncHost" "c \<noteq> CHR ''%''"
    using Cons.prems by (auto simp: shouldEscape_def host_char_def is_unreserved_def host_chars_def is_alnum_def)
  with Cons show ?case by simp
qed simp

lemma JoinHostPort_chars:
  assumes "list_all host_char h" "0 \<le> port" "c \<in> set (JoinHostPort h (Itoa port))"
  shows "host_char c \<or> c = CHR ''['' \<or> c = CHR '']''"
  using assms Itoa_host_chars [OF assms(2)]
  by (auto simp: JoinHostPort_def list_all_iff host_char_def split: if_splits)

text \<open>Parsing the host part of a printed endpoint, and taking it apart again.\<close>

lemma url_host_endpoint:
  assumes h: "export_host h" and p: "0 \<le> port"
  shows "url_parseHost (JoinHostPort h (Itoa port)) = Some (JoinHostPort h (Itoa port))"
    and "url_splitHostPort (JoinHostPort h (Itoa port)) = (h, Itoa port)"
proof -
  have c: "list_all host_char h" by (rule export_host_chars [OF h])
  have pd: "list_all is_digit (Itoa port)" by (rule Itoa_digits [OF p])
  have pc: "CHR '':'' \<notin> set (Itoa port)" "CHR '']'' \<notin> set (Itoa port)" "CHR ''['' \<notin> set (Itoa port)"
    by (rule Itoa_not_in [OF p], simp add: is_digit_def)+
  have hb: "CHR ''['' \<notin> set h" "CHR '']'' \<notin> set h" "CHR ''%'' \<notin> set h"
    using host_chars_not [OF c] by auto
  have "url_parseHost (JoinHostPort h (Itoa port)) = Some (JoinHostPort h (Itoa port))
      \<and> url_splitHostPort (JoinHostPort h (Itoa port)) = (h, Itoa port)"
  proof (cases "CHR '':'' \<in> set h")
    case True
    then obtain a where a: "ParseAddr h = Some a" "Is6 a"
      using h by (auto simp: export_host_def host_name_def host_literal6_def list_all_iff name_char_def is_alnum_def
          split: option.splits)
    have j: "JoinHostPort h (Itoa port) = CHR ''['' # h @ '']:'' @ Itoa port"
      using True by (simp add: JoinHostPort_def)
    have "cut_last (CHR ''['') (CHR ''['' # h @ '']:'' @ Itoa port) = Some ([], h @ '']:'' @ Itoa port)"
      using cut_last_append [of "CHR ''[''" "h @ '']:'' @ Itoa port" "[]"] hb pc by simp
    moreover have "cut_last (CHR '']'') (h @ '']:'' @ Itoa port) = Some (h, '':'' @ Itoa port)"
      using cut_last_append [of "CHR '']''" "'':'' @ Itoa port" h] pc by simp
    moreover have "Cut h ''%25'' = None" using hb(3) by (intro Cut_none_of) auto
    moreover have "cut_last (CHR '':'') (CHR ''['' # h @ '']:'' @ Itoa port) = Some (CHR ''['' # h @ '']'', Itoa port)"
      using cut_last_append [of "CHR '':''" "Itoa port" "CHR ''['' # h @ '']''"] pc by simp
    moreover have "\<not> Is4 a" using a(2) by (auto simp: Is6_def Is4_def split: addr.splits)
    ultimately show ?thesis
      using a host_unescape [OF c] pd
      by (simp add: j url_parseHost_def url_splitHostPort_def validOptionalPort_def
          HasPrefix_def HasSuffix_def TrimPrefix_def TrimSuffix_def)
  next
    case False
    have j: "JoinHostPort h (Itoa port) = h @ '':'' @ Itoa port" using False by (simp add: JoinHostPort_def)
    have "cut_last (CHR ''['') (h @ '':'' @ Itoa port) = None" using hb pc by simp
    moreover have "Cut (h @ '':'' @ Itoa port) '':'' = Some (h, Itoa port)"
      using Cut_append_first [OF False, of "Itoa port"] by simp
    moreover have "list_all host_char (h @ '':'' @ Itoa port)"
      using c Itoa_host_chars [OF p] by (simp add: host_char_def)
    then have "url_unescape EncHost (h @ '':'' @ Itoa port) = Some (h @ '':'' @ Itoa port)" by (rule host_unescape)
    moreover have "cut_last (CHR '':'') (h @ '':'' @ Itoa port) = Some (h, Itoa port)"
      using cut_last_append [of "CHR '':''" "Itoa port" h] pc by simp
    moreover have "\<not> HasPrefix h ''[''" using hb by (cases h) (auto simp: HasPrefix_def)
    ultimately show ?thesis
      using pd by (simp add: j url_parseHost_def url_splitHostPort_def del: cut_last_None)
  qed
  then show "url_parseHost (JoinHostPort h (Itoa port)) = Some (JoinHostPort h (Itoa port))"
    and "url_splitHostPort (JoinHostPort h (Itoa port)) = (h, Itoa port)" by simp_all
qed

lemma trim_quotes_clean:
  "list_all (\<lambda>c. c \<notin> set quote_chars \<and> \<not> is_space c) s \<Longrightarrow> TrimSpace (Trim s quote_chars) = s"
  by (simp add: list_all_iff Trim_clean TrimSpace_clean)

lemma uri_parts:
  assumes h: "export_host h" and p: "0 \<le> port" and eu: "encoded_cred eu user" and ep: "encoded_cred ep pass"
  defines "ui \<equiv> eu @ '':'' @ ep"
  defines "hp \<equiv> JoinHostPort h (Itoa port)"
  shows "url_Parse (''socks5://'' @ ui @ ''@'' @ hp) = Some
    \<lparr>u_Scheme = ''socks5'', u_User = Some (user, Some pass), u_Host = hp, u_Path = [], u_RawPath = [], u_Opaque = [],
     u_RawQuery = [], u_Fragment = []\<rparr>"
proof -
  have c: "list_all host_char h" by (rule export_host_chars [OF h])
  have ui: "c \<notin> set ''#?/@'' \<and> \<not> is_ctl c" if "c \<in> set ui" for c
  proof -
    have "c \<in> set eu \<or> c = CHR '':'' \<or> c \<in> set ep" using that by (auto simp: ui_def)
    then show ?thesis using encoded_cred_not [OF eu, of c] encoded_cred_not [OF ep, of c] by (auto simp: is_ctl_def)
  qed
  have hp: "c \<notin> set ''#?/@'' \<and> \<not> is_ctl c" if "c \<in> set hp" for c
    using JoinHostPort_chars [OF c p, of c] that host_char_not [of c] by (auto simp: hp_def is_ctl_def)
  let ?rest = "ui @ ''@'' @ hp"
  have no: "CHR ''#'' \<notin> set ?rest" "CHR ''?'' \<notin> set ?rest" "CHR ''/'' \<notin> set ?rest" "\<forall>c\<in>set ?rest. \<not> is_ctl c"
    using ui hp by (auto simp: is_ctl_def)
  have cut: "cut_or (''socks5://'' @ ?rest) ''#'' = (''socks5://'' @ ?rest, [])"
      "cut_or (''//'' @ ?rest) ''?'' = (''//'' @ ?rest, [])"
  proof -
    have ns: "CHR ''#'' \<notin> set (''socks5://'' @ ?rest)" "CHR ''?'' \<notin> set (''//'' @ ?rest)"
      using no(1,2) by simp_all
    have "Cut (''socks5://'' @ ?rest) ''#'' = None" by (rule Cut_none_of [OF ns(1)]) simp
    moreover have "Cut (''//'' @ ?rest) ''?'' = None" by (rule Cut_none_of [OF ns(2)]) simp
    ultimately show "cut_or (''socks5://'' @ ?rest) ''#'' = (''socks5://'' @ ?rest, [])"
      "cut_or (''//'' @ ?rest) ''?'' = (''//'' @ ?rest, [])"
      by (simp_all only: cut_or_def option.case)
  qed
  have scheme: "getScheme (''socks5://'' @ ?rest) = Some (''socks5'', ''//'' @ ?rest)"
    by (simp add: getScheme_def is_scheme_char_def is_letter_def is_alnum_def is_digit_def)
  have "\<forall>c\<in>set ?rest. c \<noteq> CHR ''/''" using no(3) by blast
  then have tk: "takeWhile (\<lambda>c. c \<noteq> CHR ''/'') ?rest = ?rest" "dropWhile (\<lambda>c. c \<noteq> CHR ''/'') ?rest = []"
    by (simp_all only: takeWhile_eq_all_conv dropWhile_eq_Nil_conv)
  have "cut_last (CHR ''@'') ?rest = Some (ui, hp)"
    using cut_last_append [of "CHR ''@''" hp ui] hp by auto
  moreover have "url_parseUser ui = Some (user, Some pass)"
  proof -
    have "CHR '':'' \<notin> set eu" using encoded_cred_not [OF eu] by fastforce
    then have "Cut ui '':'' = Some (eu, ep)" using Cut_append_first [of "CHR '':''" eu ep] by (simp add: ui_def)
    then show ?thesis
      using encoded_cred_valid [OF eu ep] eu ep by (simp add: url_parseUser_def encoded_cred_def ui_def)
  qed
  ultimately have auth: "url_parseAuthority ?rest = Some (Some (user, Some pass), hp)"
    using url_host_endpoint(1) [OF h p] by (simp add: url_parseAuthority_def hp_def)
  have lower: "ToLower ''socks5'' = ''socks5''" by (simp add: ToLower_def lower_char_def)
  have drop: "drop 2 (''//'' @ ?rest) = ?rest" by simp
  have slashes: "HasPrefix (''//'' @ ?rest) ''/''" "HasPrefix (''//'' @ ?rest) ''//''"
    by (simp_all add: HasPrefix_def)
  have rest: "url_parse_rest ''socks5'' (''//'' @ ?rest) [] = Some
    \<lparr>u_Scheme = ''socks5'', u_User = Some (user, Some pass), u_Host = hp, u_Path = [], u_RawPath = [], u_Opaque = [],
     u_RawQuery = [], u_Fragment = []\<rparr>"
    unfolding url_parse_rest_def drop tk auth Let_def using slashes by (simp add: set_path_def url_escape_def)
  have "\<not> list_ex is_ctl (''socks5://'' @ ?rest)"
    using no(4) by (auto simp: list_ex_iff) (simp_all add: is_ctl_def)
  then show ?thesis
    unfolding url_Parse_def cut Let_def prod.case scheme option.case lower
    by (simp only: cut prod.case rest) simp
qed

lemma uri_line_parsed:
  assumes h: "export_host h" and p: "1 \<le> port" "port \<le> 65535"
    and eu: "encoded_cred eu user" and ep: "encoded_cred ep pass"
  shows "parseRelayUpstreamLine (''socks5://'' @ (eu @ '':'' @ ep) @ ''@'' @ JoinHostPort h (Itoa port))
    = Inr (upstream h port user pass)"
proof -
  have c: "list_all host_char h" by (rule export_host_chars [OF h])
  have p0: "0 \<le> port" using p by simp
  let ?hp = "JoinHostPort h (Itoa port)"
  let ?line = "''socks5://'' @ (eu @ '':'' @ ep) @ ''@'' @ ?hp"
  define P where "P = (\<lambda>c. c \<notin> set quote_chars \<and> \<not> is_space c)"
  have lit: "list_all P ''socks5://''" "list_all P '':''" "list_all P ''@''"
    by (simp_all add: P_def quote_chars_def is_space_def)
  have esc: "list_all P eu" "list_all P ep"
    using encoded_cred_not [OF eu] encoded_cred_not [OF ep] by (auto simp: list_all_iff P_def)
  have "list_all P ?hp"
    using JoinHostPort_chars [OF c p0] host_char_not
    by (fastforce simp: list_all_iff P_def quote_chars_def is_space_def)
  with lit esc have "list_all P ?line" by (simp only: list_all_append)
  then have trim: "TrimSpace (Trim ?line quote_chars) = ?line"
    unfolding P_def by (rule trim_quotes_clean)
  have has: "Contains ?line ''://''" by (simp add: Contains_def HasPrefix_def)
  have "parse_url_line ?line = Inr (upstream h port user pass)"
  proof -
    have "isSupportedRelayProxyScheme ''socks5''"
      by (simp add: isSupportedRelayProxyScheme_def TrimSpace_def trim_by_def is_space_def ToLower_def lower_char_def)
    moreover have "Atoi (Itoa port) = Some port" using p by (intro Atoi_Itoa) auto
    ultimately show ?thesis
      using uri_parts [OF h p0 eu ep] url_host_endpoint(2) [OF h p0] export_host_ne [OF h]
        export_host_valid [OF h p, of user pass]
      by (simp add: parse_url_line_def url_Hostname_def url_Port_def url_Username_def url_Password_def validated_def)
  qed
  with trim has show ?thesis
    by (simp only: parseRelayUpstreamLine_def Let_def) simp
qed

text \<open>
  The SOCKS5 URI of an endpoint is parsed back to its host, port, user name and password for
  every user name and password, whatever bytes they hold: the escaping hides every separator.
\<close>

theorem relay_uri_roundtrip:
  assumes h: "export_host h" and p: "1 \<le> port" "port \<le> 65535"
  shows "parseRelayUpstreamLine (relaySOCKSURI h port user pass) = Inr (upstream h port user pass)"
proof -
  have c: "list_all host_char h" by (rule export_host_chars [OF h])
  have "relaySOCKSURI h port user pass = ''socks5://'' @ (url_escape EncUser user @ '':'' @ url_escape EncUser pass)
      @ ''@'' @ JoinHostPort h (Itoa port)"
    using trim_host [OF c] host_escape [OF c, of port] p by (simp add: relaySOCKSURI_def)
  then show ?thesis using uri_line_parsed [OF h p user_escape_encoded user_escape_encoded] by simp
qed

theorem relay_uri_roundtrip_witness:
  "parseRelayUpstreamLine (relaySOCKSURI ''2001:db8::7'' 40001 ''us@er'' ''p:/ #%w'')
     = Inr (upstream ''2001:db8::7'' 40001 ''us@er'' ''p:/ #%w'')"
  by (rule relay_uri_roundtrip) code_simp+

end
