(* ===== verification/Relay_Addresses.thy ===== *)
theory Relay_Addresses
  imports Relay_Upstreams
begin

text \<open>
  The IPv6 addresses of a pool (\<^verbatim>\<open>service/relay.go\<close>): choosing the base prefix, drawing random
  addresses inside it, rotating the addresses of existing items, and reading the state of an
  address from the output of \<^verbatim>\<open>ip addr show\<close>. The operating system is an argument: the list of
  interfaces \<open>net.Interfaces\<close> reports, and the random bytes \<open>rnd\<close> delivers from position \<open>pos\<close> on.
\<close>

section \<open>Detected addresses\<close>

record net_interface =
  ni_Name :: string
  ni_Loopback :: bool
  ni_Addrs :: "string list option"

definition relay_ipv6_of :: "string \<Rightarrow> string \<Rightarrow> relay_ipv6 list" where
  "relay_ipv6_of iface raw = (case ParsePrefix raw of
     None \<Rightarrow> []
   | Some (a, bits) \<Rightarrow>
       if \<not> Is6 a \<or> \<not> addr_IsGlobalUnicast a \<or> addr_IsPrivate a then []
       else [\<lparr>r6_Interface = iface, r6_Address = addr_String a, r6_Prefix = bits\<rparr>])"

definition discoverRelayIPv6 :: "net_interface list result \<Rightarrow> relay_ipv6 list result" where
  "discoverRelayIPv6 interfaces = (case interfaces of
     Inl e \<Rightarrow> Inl e
   | Inr ifs \<Rightarrow> Inr (concat (map (\<lambda>i.
       if ni_Loopback i \<or> HasPrefix (ni_Name i) ''tun'' \<or> ni_Name i = ''docker0'' then []
       else case ni_Addrs i of None \<Rightarrow> [] | Some raws \<Rightarrow> concat (map (relay_ipv6_of (ni_Name i)) raws)) ifs)))"

definition findRelayInterface :: "net_interface list result \<Rightarrow> addr \<Rightarrow> int \<Rightarrow> string" where
  "findRelayInterface interfaces ip plen =
     (let detected = (case discoverRelayIPv6 interfaces of Inl _ \<Rightarrow> [] | Inr d \<Rightarrow> d);
          network = WithoutZone ip
      in case find (\<lambda>item. r6_Prefix item = plen \<and>
             prefix_Contains network plen (case ParseAddr (r6_Address item) of None \<Rightarrow> AddrZero | Some a \<Rightarrow> a)) detected of
           None \<Rightarrow> []
         | Some item \<Rightarrow> r6_Interface item)"

definition ipv6_key :: "relay_ipv6 \<Rightarrow> string" where
  "ipv6_key item = r6_Interface item @ CHR 0x00 # r6_Address item"

text \<open>One address per interface first, then the others, up to the limit.\<close>

definition summary_first :: "int \<Rightarrow> relay_ipv6 list \<Rightarrow> relay_ipv6 list \<times> string set \<times> string set" where
  "summary_first limit available =
     foldl (\<lambda>(result, seen, selected) item.
        if r6_Interface item \<in> seen \<or> int (length result) \<ge> limit then (result, seen, selected)
        else (result @ [item], insert (r6_Interface item) seen, insert (ipv6_key item) selected))
       ([], {}, {}) available"

definition summary_rest :: "int \<Rightarrow> relay_ipv6 list \<Rightarrow> relay_ipv6 list \<times> string set \<Rightarrow> relay_ipv6 list \<times> string set" where
  "summary_rest limit available start =
     foldl (\<lambda>(result, selected) item.
        if int (length result) \<ge> limit \<or> ipv6_key item \<in> selected then (result, selected)
        else (result @ [item], insert (ipv6_key item) selected)) start available"

definition summarizeRelayIPv6 :: "relay_ipv6 list \<Rightarrow> string set \<Rightarrow> int \<Rightarrow> relay_ipv6 list \<times> int" where
  "summarizeRelayIPv6 all0 excluded limit0 =
     (let limit = (if limit0 < 1 then relayIPv6DisplayLimit else limit0);
          available = filter (\<lambda>item. r6_Address item \<notin> excluded) all0
      in if int (length available) \<le> limit then (available, int (length available))
         else case summary_first limit available of (result, _, selected) \<Rightarrow>
           (fst (summary_rest limit available (result, selected)), int (length available)))"

section \<open>The base of a pool\<close>

definition parseRelayAddress :: "string \<Rightarrow> int \<Rightarrow> (addr \<times> int) result" where
  "parseRelayAddress raw0 fallbackPrefix =
     (let raw = TrimSpace raw0 in
      if raw = [] then NewError ''empty IPv6 address''
      else case ParsePrefix raw of
        Some p \<Rightarrow> Inr p
      | None \<Rightarrow> (case ParseAddr raw of
          None \<Rightarrow> Inl (''ParseAddr('' @ quoted raw @ '')'')
        | Some ip \<Rightarrow>
            if fallbackPrefix = 0 then NewError ''IPv6 prefix is required'' else Inr (ip, fallbackPrefix)))"

definition resolveRelayBase :: "net_interface list result \<Rightarrow> relay_request \<Rightarrow> (addr \<times> int \<times> string) result" where
  "resolveRelayBase interfaces req =
     (if TrimSpace (rq_BaseIPv6 req) \<noteq> [] then
        (case parseRelayAddress (rq_BaseIPv6 req) (rq_Prefix req) of
           Inl e \<Rightarrow> Inl e
         | Inr (ip, p) \<Rightarrow>
             let plen = (if rq_Prefix req > 0 then rq_Prefix req else p); hostBits = 128 - plen in
             if plen < 1 \<or> plen > 128 \<or> \<not> addr_IsGlobalUnicast ip \<or> addr_IsPrivate ip then
               NewError ''base IPv6 must be a public global-unicast address''
             else if hostBits = 0 \<or> (hostBits < 63 \<and> rq_Count req > 2 ^ nat hostBits - 1) then
               NewError ''IPv6 prefix does not contain enough addresses for this pool''
             else
               let iface = (if rq_Interface req = [] then findRelayInterface interfaces ip plen else rq_Interface req) in
               if iface = [] then NewError ''IPv6 interface was not found'' else Inr (ip, plen, iface))
      else (case discoverRelayIPv6 interfaces of
        Inl e \<Rightarrow> Inl e
      | Inr detected \<Rightarrow>
          (case find (\<lambda>c. rq_Interface req = [] \<or> rq_Interface req = r6_Interface c) detected of
             None \<Rightarrow> NewError ''no public IPv6 address was detected''
           | Some c \<Rightarrow> Inr (case ParseAddr (r6_Address c) of None \<Rightarrow> AddrZero | Some a \<Rightarrow> a,
                            r6_Prefix c, r6_Interface c))))"

section \<open>Random addresses\<close>

text \<open>The loop over the host bits: bit \<open>b\<close> of the sixteen bytes is bit \<open>127 - b\<close> of the word.\<close>

definition randomRelayIPv6 :: "128 word \<Rightarrow> addr \<Rightarrow> int \<Rightarrow> addr" where
  "randomRelayIPv6 random base plen =
     AddrFrom16 (foldl (\<lambda>masked b. if bit random (127 - b) then set_bit (127 - b) masked else unset_bit (127 - b) masked)
       (As16 base) [nat plen..<128])"

lemma random_bits:
  "bit (foldl (\<lambda>m b. if bit r (127 - b) then set_bit (127 - b) m else unset_bit (127 - b) m) w [p..<128]) n
     = (if n < 128 - p then bit (r :: 128 word) n else bit (w :: 128 word) n)"
proof -
  have "bit (foldl (\<lambda>m b. if bit r (127 - b) then set_bit (127 - b) m else unset_bit (127 - b) m) w bs) n
     = (if \<exists>b\<in>set bs. n = 127 - b then bit r n else bit w n)"
    if "\<forall>b\<in>set bs. b < 128" for bs
    using that
  proof (induction bs arbitrary: w)
    case (Cons b bs)
    let ?w = "if bit r (127 - b) then set_bit (127 - b) w else unset_bit (127 - b) w"
    have "bit ?w n = (if n = 127 - b then bit r n else bit w n)"
      by (auto simp: bit_simps)
    with Cons show ?case by auto
  qed simp
  from this [of "[p..<128]"]
  have "bit (foldl (\<lambda>m b. if bit r (127 - b) then set_bit (127 - b) m else unset_bit (127 - b) m) w [p..<128]) n
     = (if \<exists>b\<in>set [p..<128]. n = 127 - b then bit r n else bit w n)" by simp
  moreover have "(\<exists>b\<in>set [p..<128]. n = 127 - b) \<longleftrightarrow> n < 128 - p"
    by (auto simp: intro!: bexI [of _ "127 - n"])
  ultimately show ?thesis by simp
qed

definition host_mask :: "int \<Rightarrow> 128 word" where
  "host_mask plen = mask (128 - nat plen)"

lemma random_masked [code]:
  "randomRelayIPv6 random base plen =
     V6 ((As16 base AND NOT (host_mask plen)) OR (random AND host_mask plen)) []"
proof -
  have "foldl (\<lambda>masked b. if bit random (127 - b) then set_bit (127 - b) masked else unset_bit (127 - b) masked)
      (As16 base) [nat plen..<128] = (As16 base AND NOT (host_mask plen)) OR (random AND host_mask plen)"
    by (rule bit_word_eqI) (auto simp: random_bits host_mask_def bit_simps)
  then show ?thesis by (simp add: randomRelayIPv6_def AddrFrom16_def)
qed

text \<open>
  C22. The bit loop that draws a random address is the usual masking (the network bits of the
  base, the host bits of the random bytes), and its result lies in the prefix of the base.
\<close>

theorem randomRelayIPv6_in_prefix:
  assumes "1 \<le> plen" "plen \<le> 128"
  shows "randomRelayIPv6 random (V6 w []) plen = V6 ((w AND NOT (host_mask plen)) OR (random AND host_mask plen)) []
    \<and> prefix_Contains (V6 w []) plen (randomRelayIPv6 random (V6 w []) plen)"
proof
  show r: "randomRelayIPv6 random (V6 w []) plen = V6 ((w AND NOT (host_mask plen)) OR (random AND host_mask plen)) []"
    by (simp add: random_masked As16_def)
  define x where "x = w XOR ((w AND NOT (host_mask plen)) OR (random AND host_mask plen))"
  have "\<not> bit x (128 - nat plen + n)" for n
    unfolding x_def by (auto simp: host_mask_def bit_simps dest: bit_imp_le_length)
  then have "drop_bit (128 - nat plen) x = 0"
    by (intro bit_word_eqI) (simp add: bit_drop_bit_eq)
  then have "drop_bit (128 - nat plen) (w XOR ((w AND NOT (host_mask plen)) OR (random AND host_mask plen))) = 0"
    by (simp only: x_def)
  then show "prefix_Contains (V6 w []) plen (randomRelayIPv6 random (V6 w []) plen)"
    using assms by (simp add: r prefix_Contains_def prefix_valid_def addr_BitLen_def WithoutZone_def)
qed

theorem randomRelayIPv6_in_prefix_witness:
  "randomRelayIPv6 0x99 (V6 0x20010db8000100000000000000000005 []) 64 = V6 0x20010db8000100000000000000000099 []
   \<and> prefix_Contains (V6 0x20010db8000100000000000000000005 []) 64
        (randomRelayIPv6 0x99 (V6 0x20010db8000100000000000000000005 []) 64)"
proof -
  have eq: "((0x20010db8000100000000000000000005 AND NOT (host_mask 64)) OR (0x99 AND host_mask 64))
      = (0x20010db8000100000000000000000099 :: 128 word)" by code_simp
  have "1 \<le> (64 :: int)" "(64 :: int) \<le> 128" by simp_all
  from randomRelayIPv6_in_prefix [OF this, of "0x99" "0x20010db8000100000000000000000005", unfolded eq]
  show ?thesis .
qed

lemma randomRelayIPv6_network:
  assumes "ip = randomRelayIPv6 random base plen"
  shows "As16 ip AND NOT (host_mask plen) = As16 base AND NOT (host_mask plen)"
    and "Is6 ip" and "WithoutZone ip = ip"
proof -
  have "randomRelayIPv6 random base plen = AddrFrom16 (foldl (\<lambda>masked b. if bit random (127 - b)
      then set_bit (127 - b) masked else unset_bit (127 - b) masked) (As16 base) [nat plen..<128])"
    by (simp add: randomRelayIPv6_def)
  then show "As16 ip AND NOT (host_mask plen) = As16 base AND NOT (host_mask plen)"
    unfolding assms
    by (auto simp: AddrFrom16_def As16_def random_bits host_mask_def bit_simps intro!: bit_word_eqI)
  show "Is6 ip" "WithoutZone ip = ip"
    by (simp_all add: assms randomRelayIPv6_def AddrFrom16_def Is6_def WithoutZone_def)
qed

section \<open>New addresses for existing items\<close>

text \<open>At most 4096 draws for one item; the result carries the position of the next unused random bytes.\<close>

definition rotation_rejects :: "addr \<Rightarrow> addr \<Rightarrow> string set \<Rightarrow> addr \<Rightarrow> bool" where
  "rotation_rejects old base occupied c \<longleftrightarrow>
     c = old \<or> c = base \<or> addr_String c \<in> occupied \<or> \<not> addr_IsGlobalUnicast c"

function rotate_search :: "(nat \<Rightarrow> 128 word) \<Rightarrow> addr \<Rightarrow> addr \<Rightarrow> int \<Rightarrow> string set \<Rightarrow> int \<Rightarrow> nat \<Rightarrow> (addr \<times> nat) option" where
  "rotate_search rnd old base plen occupied attempt pos =
     (if attempt < 4096 then
        (let candidate = randomRelayIPv6 (rnd pos) base plen in
         if rotation_rejects old base occupied candidate
         then rotate_search rnd old base plen occupied (attempt + 1) (Suc pos)
         else Some (candidate, Suc pos))
      else None)"
  by pat_completeness auto
termination
  by (relation "measure (\<lambda>(_, _, _, _, _, attempt, _). nat (4096 - attempt))") auto

declare rotate_search.simps [simp del]

definition rotatable_address :: "relay_item \<Rightarrow> addr option" where
  "rotatable_address item = (case ParseAddr (ri_IPv6 item) of
     Some a \<Rightarrow> if \<not> Is6 a \<or> Is4In6 a then None else Some a | None \<Rightarrow> None)"

fun rotate_items :: "(nat \<Rightarrow> 128 word) \<Rightarrow> nat \<Rightarrow> int \<Rightarrow> relay_item list \<Rightarrow> string set \<Rightarrow> relay_item list result" where
  "rotate_items rnd pos n [] occupied = Inr []"
| "rotate_items rnd pos n (item # items) occupied =
     (case rotatable_address item of
        None \<Rightarrow> NewErrorf (''relay item '' @ Itoa n @ '' has invalid IPv6 address'')
      | Some old \<Rightarrow>
          if ri_Interface item = [] \<or> ri_Prefix item < 1 \<or> ri_Prefix item \<ge> 128 then
            NewErrorf (''relay item '' @ Itoa n @ '' has an IPv6 prefix that cannot rotate'')
          else
            (let base = prefix_Masked (WithoutZone old) (ri_Prefix item) in
             case rotate_search rnd old base (ri_Prefix item) occupied 0 pos of
               None \<Rightarrow> NewErrorf (''unable to allocate a new IPv6 address for relay item '' @ Itoa n)
             | Some (replacement, pos') \<Rightarrow>
                 let ip = addr_String replacement in
                 map_sum id (Cons (item\<lparr>ri_IPv6 := ip, ri_AddedByUs := True\<rparr>))
                   (rotate_items rnd pos' (n + 1) items (insert ip occupied))))"

definition prepareRelayRotatedItems ::
    "(nat \<Rightarrow> 128 word) \<Rightarrow> nat \<Rightarrow> relay_item list \<Rightarrow> string set \<Rightarrow> relay_item list result" where
  "prepareRelayRotatedItems rnd pos items occupied = rotate_items rnd pos 1 items occupied"

lemma rotate_search_Some:
  "rotate_search rnd old base plen occupied attempt pos = Some (c, pos') \<Longrightarrow>
     \<not> rotation_rejects old base occupied c \<and> (\<exists>r. c = randomRelayIPv6 r base plen)"
proof (induction rnd old base plen occupied attempt pos rule: rotate_search.induct)
  case (1 rnd old base plen occupied attempt pos)
  then show ?case
    by (subst (asm) (2) rotate_search.simps) (auto simp: Let_def split: if_splits)
qed

lemma rotate_search_accept:
  "attempt < 4096 \<Longrightarrow> \<not> rotation_rejects old base occupied (randomRelayIPv6 (rnd pos) base plen) \<Longrightarrow>
     rotate_search rnd old base plen occupied attempt pos = Some (randomRelayIPv6 (rnd pos) base plen, Suc pos)"
  by (subst rotate_search.simps) (simp add: Let_def)

lemma rotate_search_skip:
  "attempt < 4096 \<Longrightarrow> rotation_rejects old base occupied (randomRelayIPv6 (rnd pos) base plen) \<Longrightarrow>
     rotate_search rnd old base plen occupied attempt pos
       = rotate_search rnd old base plen occupied (attempt + 1) (Suc pos)"
  by (subst rotate_search.simps) (simp add: Let_def)

text \<open>What a rotation does to one item.\<close>

definition rotated_item :: "relay_item \<Rightarrow> relay_item \<Rightarrow> bool" where
  "rotated_item old new \<longleftrightarrow>
     (\<exists>a b. ParseAddr (ri_IPv6 old) = Some a \<and> new = old\<lparr>ri_IPv6 := addr_String b, ri_AddedByUs := True\<rparr>
        \<and> b \<noteq> a \<and> Is6 b \<and> addr_IsGlobalUnicast b
        \<and> As16 b AND NOT (host_mask (ri_Prefix old)) = As16 a AND NOT (host_mask (ri_Prefix old)))"

lemma masked_network:
  assumes "Is6 a" "1 \<le> plen" "plen < 128"
  shows "As16 (prefix_Masked (WithoutZone a) plen) = As16 a AND NOT (host_mask plen)"
  using assms by (cases a)
    (auto simp: prefix_Masked_def prefix_valid_def WithoutZone_def addr_BitLen_def As16_def Is6_def host_mask_def)

lemma rotate_items_Inr:
  "rotate_items rnd pos n items occupied = Inr new \<Longrightarrow>
     list_all2 rotated_item items new \<and> distinct (map ri_IPv6 new) \<and> set (map ri_IPv6 new) \<inter> occupied = {}"
proof (induction items arbitrary: pos n occupied new)
  case (Cons item items)
  let ?p = "ri_Prefix item"
  obtain a where a: "ParseAddr (ri_IPv6 item) = Some a" "Is6 a" "rotatable_address item = Some a"
    using Cons.prems by (auto simp: rotatable_address_def split: option.splits if_splits)
  have pl: "1 \<le> ?p" "?p < 128" using Cons.prems a by (auto split: if_splits)
  let ?base = "prefix_Masked (WithoutZone a) ?p"
  obtain b pos' where b: "rotate_search rnd a ?base ?p occupied 0 pos = Some (b, pos')"
    using Cons.prems a by (auto simp: Let_def split: if_splits option.splits)
  obtain rest where rest: "rotate_items rnd pos' (n + 1) items (insert (addr_String b) occupied) = Inr rest"
    and new: "new = item\<lparr>ri_IPv6 := addr_String b, ri_AddedByUs := True\<rparr> # rest"
    using Cons.prems a b pl by (auto simp: Let_def map_sum_def split: if_splits sum.splits)
  from rotate_search_Some [OF b] obtain r where r: "b = randomRelayIPv6 r ?base ?p"
    and acc: "b \<noteq> a" "addr_String b \<notin> occupied" "addr_IsGlobalUnicast b"
    by (auto simp: rotation_rejects_def)
  have "As16 b AND NOT (host_mask ?p) = As16 a AND NOT (host_mask ?p)"
    using randomRelayIPv6_network(1) [OF r] masked_network [OF a(2) pl]
    by (simp add: word_bw_assocs)
  with a acc randomRelayIPv6_network(2) [OF r]
  have "rotated_item item (item\<lparr>ri_IPv6 := addr_String b, ri_AddedByUs := True\<rparr>)"
    unfolding rotated_item_def by blast
  with Cons.IH [OF rest] acc(2) show ?case by (auto simp: new)
qed simp

text \<open>
  A rotation gives every item of the pool a new public address inside the item's own prefix:
  different from its old one, not in use anywhere (\<open>occupied\<close>), different from the other new
  ones; ports, credentials, tags and all other fields stay as they were.
\<close>

theorem prepareRelayRotatedItems_fresh:
  assumes "prepareRelayRotatedItems rnd pos items occupied = Inr new"
  shows "list_all2 rotated_item items new \<and> distinct (map ri_IPv6 new) \<and> set (map ri_IPv6 new) \<inter> occupied = {}"
  using rotate_items_Inr assms unfolding prepareRelayRotatedItems_def by blast

section \<open>The state of an address\<close>

fun flag_state :: "bool \<Rightarrow> string list \<Rightarrow> string" where
  "flag_state tentative [] = (if tentative then relayAddressTentative else relayAddressReady)"
| "flag_state tentative (flag # flags) =
     (if flag = relayAddressDADFailed then relayAddressDADFailed
      else flag_state (tentative \<or> flag = relayAddressTentative) flags)"

fun line_state :: "addr \<Rightarrow> string list \<Rightarrow> string option" where
  "line_state want [] = None"
| "line_state want (field # rest) =
     (if field \<noteq> ''inet6'' \<or> rest = [] then line_state want rest
      else case ParsePrefix (hd rest) of
        None \<Rightarrow> line_state want rest
      | Some (a, _) \<Rightarrow> if a \<noteq> want then line_state want rest else Some (flag_state False (tl rest)))"

fun lines_state :: "addr \<Rightarrow> string list \<Rightarrow> string" where
  "lines_state want [] = relayAddressMissing"
| "lines_state want (line # rest) =
     (case line_state want (Fields line) of Some s \<Rightarrow> s | None \<Rightarrow> lines_state want rest)"

definition relayIPv6AddressState :: "string \<Rightarrow> string \<Rightarrow> string" where
  "relayIPv6AddressState output address =
     (case ParseAddr address of
        None \<Rightarrow> relayAddressMissing
      | Some want \<Rightarrow> lines_state want (Split output (CHR 0x0A)))"

lemma flag_state_cases:
  "flag_state t flags = (if relayAddressDADFailed \<in> set flags then relayAddressDADFailed
     else if t \<or> relayAddressTentative \<in> set flags then relayAddressTentative else relayAddressReady)"
  by (induction flags arbitrary: t) auto

end
