(* ===== verification/Go_Base64.thy ===== *)
theory Go_Base64
  imports Go_Strings
begin

text \<open>
  \<^verbatim>\<open>encoding/base64\<close>: the padded encodings (standard and URL alphabet), their strict decoder,
  and the panel's helpers of \<^verbatim>\<open>util/base64.go\<close>. Bytes are handled through their numbers.
\<close>

section \<open>Alphabets\<close>

definition b64_std :: string where
  "b64_std = ''ABCDEFGHIJKLMNOPQRSTUVWXYZabcdefghijklmnopqrstuvwxyz0123456789+/''"

definition b64_url :: string where
  "b64_url = ''ABCDEFGHIJKLMNOPQRSTUVWXYZabcdefghijklmnopqrstuvwxyz0123456789-_''"

definition b64_digit :: "string \<Rightarrow> int \<Rightarrow> char" where
  "b64_digit alphabet n = alphabet ! nat n"

fun index_of :: "char \<Rightarrow> string \<Rightarrow> int \<Rightarrow> int option" where
  "index_of c [] n = None"
| "index_of c (x # xs) n = (if c = x then Some n else index_of c xs (n + 1))"

definition b64_val :: "string \<Rightarrow> char \<Rightarrow> int option" where
  "b64_val alphabet c = index_of c alphabet 0"

section \<open>Encoding\<close>

definition byte :: "char \<Rightarrow> int" where
  "byte c = of_char c"

fun b64_encode :: "string \<Rightarrow> string \<Rightarrow> string" where
  "b64_encode al [] = []"
| "b64_encode al [a] =
     [b64_digit al (byte a div 4), b64_digit al (byte a mod 4 * 16), CHR ''='', CHR ''='']"
| "b64_encode al [a, b] =
     [b64_digit al (byte a div 4), b64_digit al (byte a mod 4 * 16 + byte b div 16),
      b64_digit al (byte b mod 16 * 4), CHR ''='']"
| "b64_encode al (a # b # c # r) =
     [b64_digit al (byte a div 4), b64_digit al (byte a mod 4 * 16 + byte b div 16),
      b64_digit al (byte b mod 16 * 4 + byte c div 64), b64_digit al (byte c mod 64)] @ b64_encode al r"

text \<open>
  Decoding skips line breaks; four digits give three bytes, padding ends the text. The unused
  bits before the padding are ignored, as the non-strict decoder does.
\<close>

fun b64_quads :: "string \<Rightarrow> string \<Rightarrow> string option" where
  "b64_quads al [] = Some []"
| "b64_quads al (a # b # c # d # r) =
     (case (b64_val al a, b64_val al b) of
        (Some x, Some y) \<Rightarrow>
          (if c = CHR ''='' then (if d = CHR ''='' \<and> r = [] then Some [char_of (x * 4 + y div 16)] else None)
           else case b64_val al c of
             None \<Rightarrow> None
           | Some z \<Rightarrow>
               if d = CHR ''='' then
                 (if r = [] then Some [char_of (x * 4 + y div 16), char_of (y mod 16 * 16 + z div 4)] else None)
               else case b64_val al d of
                 None \<Rightarrow> None
               | Some w \<Rightarrow> map_option ((@) [char_of (x * 4 + y div 16), char_of (y mod 16 * 16 + z div 4),
                    char_of (z mod 4 * 64 + w)]) (b64_quads al r))
      | _ \<Rightarrow> None)"
| "b64_quads al _ = None"

definition b64_decode :: "string \<Rightarrow> string \<Rightarrow> string option" where
  "b64_decode al s = b64_quads al (filter (\<lambda>c. c \<noteq> CHR 0x0A \<and> c \<noteq> CHR 0x0D) s)"

text \<open>The encodings without padding: a last group of two or three digits, and no padding character.\<close>

fun b64_raw_quads :: "string \<Rightarrow> string \<Rightarrow> string option" where
  "b64_raw_quads al [] = Some []"
| "b64_raw_quads al [a] = None"
| "b64_raw_quads al [a, b] =
     (case (b64_val al a, b64_val al b) of (Some x, Some y) \<Rightarrow> Some [char_of (x * 4 + y div 16)] | _ \<Rightarrow> None)"
| "b64_raw_quads al [a, b, c] =
     (case (b64_val al a, b64_val al b, b64_val al c) of
        (Some x, Some y, Some z) \<Rightarrow> Some [char_of (x * 4 + y div 16), char_of (y mod 16 * 16 + z div 4)] | _ \<Rightarrow> None)"
| "b64_raw_quads al (a # b # c # d # r) =
     (case (b64_val al a, b64_val al b, b64_val al c, b64_val al d) of
        (Some x, Some y, Some z, Some w) \<Rightarrow>
          map_option ((@) [char_of (x * 4 + y div 16), char_of (y mod 16 * 16 + z div 4), char_of (z mod 4 * 64 + w)])
            (b64_raw_quads al r)
      | _ \<Rightarrow> None)"

definition b64_raw_decode :: "string \<Rightarrow> string \<Rightarrow> string option" where
  "b64_raw_decode al s = b64_raw_quads al (filter (\<lambda>c. c \<noteq> CHR 0x0A \<and> c \<noteq> CHR 0x0D) s)"

section \<open>The round trip\<close>

lemma byte_range: "0 \<le> byte c" "byte c < 256" "char_of (byte c) = c"
proof -
  have "byte c = int (of_char c :: nat)" by (simp add: byte_def of_nat_of_char)
  moreover have "(of_char c :: nat) < 256" by (rule nat_of_char_less_256)
  ultimately show "0 \<le> byte c" "byte c < 256" by presburger+
  show "char_of (byte c) = c" by (simp add: byte_def)
qed

lemma b64_alphabet:
  assumes "al = b64_std \<or> al = b64_url"
  shows "distinct al" "length al = 64" "CHR ''='' \<notin> set al" "CHR 0x0A \<notin> set al" "CHR 0x0D \<notin> set al"
  using assms by (auto simp: b64_std_def b64_url_def)

lemma b64_digit_mem:
  "al = b64_std \<or> al = b64_url \<Longrightarrow> 0 \<le> n \<Longrightarrow> n < 64 \<Longrightarrow> b64_digit al n \<in> set al"
  using b64_alphabet(2) [of al] by (simp add: b64_digit_def)

lemma b64_val_digit:
  assumes "al = b64_std \<or> al = b64_url" "0 \<le> n" "n < 64"
  shows "b64_val al (b64_digit al n) = Some n" "b64_digit al n \<noteq> CHR ''=''"
proof -
  have idx: "index_of (xs ! k) xs m = Some (m + int k)" if "distinct xs" "k < length xs" for xs k m
    using that by (induction xs arbitrary: k m) (auto simp: nth_Cons split: nat.splits)
  show "b64_val al (b64_digit al n) = Some n"
    using assms idx [of al "nat n" 0] b64_alphabet [OF assms(1)] by (simp add: b64_val_def b64_digit_def)
  show "b64_digit al n \<noteq> CHR ''=''"
    using b64_digit_mem [OF assms] b64_alphabet(3) [OF assms(1)] by auto
qed

text \<open>The six-bit groups of three bytes, and the bytes from the groups.\<close>

lemma byte_bounds:
  assumes "0 \<le> a" "a < (256 :: int)"
  shows "0 \<le> a div 4" "a div 4 < 64" "0 \<le> a div 16" "a div 16 < 16" "0 \<le> a div 64" "a div 64 < 4"
  using assms by auto

lemma mod_bounds:
  fixes a :: int
  shows "0 \<le> a mod 64" "a mod 64 < 64" "0 \<le> a mod 4 * 16" "a mod 4 * 16 < 64"
    "0 \<le> a mod 16 * 4" "a mod 16 * 4 < 64"
  using pos_mod_bound [of 4 a] pos_mod_bound [of 16 a] by auto

lemma pair_bounds:
  assumes "0 \<le> b" "b < (256 :: int)"
  shows "0 \<le> a mod 4 * 16 + b div 16" "a mod 4 * 16 + b div 16 < 64"
    "0 \<le> a mod 16 * 4 + b div 64" "a mod 16 * 4 + b div 64 < 64"
proof -
  have "0 \<le> a mod 4" "a mod 4 < 4" "0 \<le> a mod 16" "a mod 16 < 16" by simp_all
  with byte_bounds [OF assms] show "0 \<le> a mod 4 * 16 + b div 16" "a mod 4 * 16 + b div 16 < 64"
    "0 \<le> a mod 16 * 4 + b div 64" "a mod 16 * 4 + b div 64 < 64" by linarith+
qed

lemma group_parts:
  assumes "0 \<le> b" "b < (256 :: int)"
  shows "(a mod 4 * 16 + b div 16) div 16 = a mod 4" "(a mod 4 * 16 + b div 16) mod 16 = b div 16"
    "(a mod 16 * 4 + b div 64) div 4 = a mod 16" "(a mod 16 * 4 + b div 64) mod 4 = b div 64"
  using byte_bounds [OF assms] by simp_all

lemma group_join:
  fixes a :: int
  shows "a div 4 * 4 + a mod 4 = a" "a div 16 * 16 + a mod 16 = a" "a div 64 * 64 + a mod 64 = a"
    "a mod 4 * 16 div 16 = a mod 4" "a mod 16 * 4 div 4 = a mod 16"
  by simp_all

lemmas groups = byte_bounds mod_bounds pair_bounds group_parts group_join

lemma b64_encode_chars:
  assumes "al = b64_std \<or> al = b64_url"
  shows "set (b64_encode al s) \<subseteq> insert (CHR ''='') (set al)"
  using assms
proof (induction al s rule: b64_encode.induct)
  case (4 al a b c r)
  then show ?case
    using byte_range by (auto simp: groups intro: b64_digit_mem)
qed (use byte_range in \<open>auto simp: groups intro!: b64_digit_mem\<close>)

lemma b64_quads_encode:
  assumes "al = b64_std \<or> al = b64_url"
  shows "b64_quads al (b64_encode al s) = Some s"
  using assms
proof (induction al s rule: b64_encode.induct)
  case (2 al a)
  then show ?case by (simp add: b64_val_digit byte_range groups)
next
  case (3 al a b)
  then show ?case by (simp add: b64_val_digit byte_range groups)
next
  case (4 al a b c r)
  then show ?case by (simp add: b64_val_digit byte_range groups)
qed simp

lemma b64_decode_encode:
  assumes "al = b64_std \<or> al = b64_url"
  shows "b64_decode al (b64_encode al s) = Some s"
proof -
  have "filter (\<lambda>c. c \<noteq> CHR 0x0A \<and> c \<noteq> CHR 0x0D) (b64_encode al s) = b64_encode al s"
    using b64_encode_chars [OF assms, of s] b64_alphabet(4,5) [OF assms] by (intro filter_True) auto
  then show ?thesis by (simp add: b64_decode_def b64_quads_encode [OF assms])
qed

section \<open>The helpers\<close>

definition StrOrBase64Encoded :: "string \<Rightarrow> string" where
  "StrOrBase64Encoded str = (case b64_decode b64_std str of Some d \<Rightarrow> d | None \<Rightarrow> str)"

definition B64StrToByte :: "string \<Rightarrow> string option" where
  "B64StrToByte str = b64_decode b64_std str"

definition ByteToB64Str :: "string \<Rightarrow> string" where
  "ByteToB64Str b = b64_encode b64_std b"

end
