(* ===== verification/Relay_Items.thy ===== *)
theory Relay_Items
  imports Relay_Addresses Go_Base64
begin

text \<open>
  The items of a new pool (\<open>prepareRelayItems\<close>, \<open>relayProtocolConfig\<close> in \<^verbatim>\<open>service/relay.go\<close>):
  listen ports, user names, passwords, upstreams and drawn IPv6 addresses. Two loops of the
  code only end when the random generator delivers an unused value; they are partial functions
  with \<^const>\<open>None\<close> for a run that never returns.
\<close>

section \<open>User names\<close>

definition username_candidate :: "(nat \<Rightarrow> nat) \<Rightarrow> string \<Rightarrow> int \<Rightarrow> nat \<Rightarrow> string" where
  "username_candidate rnd pre index pos = pre @ ''-'' @ Itoa (index + 1) @ ''-'' @ Random rnd pos 4"

partial_function (option) uniqueRelayUsername ::
    "(nat \<Rightarrow> nat) \<Rightarrow> string \<Rightarrow> int \<Rightarrow> string set \<Rightarrow> nat \<Rightarrow> (string \<times> nat) option" where
  "uniqueRelayUsername rnd pre index used pos =
     (let candidate = username_candidate rnd pre index pos in
      if candidate \<notin> used then Some (candidate, pos + 4)
      else uniqueRelayUsername rnd pre index used (pos + 4))"

declare uniqueRelayUsername.simps [code]

text \<open>The index is part of the name and used names have smaller ones, so the first draw is free.\<close>

lemma uniqueRelayUsername_first:
  "username_candidate rnd pre index pos \<notin> used \<Longrightarrow>
     uniqueRelayUsername rnd pre index used pos = Some (username_candidate rnd pre index pos, pos + 4)"
  by (subst uniqueRelayUsername.simps) (simp add: Let_def)

section \<open>Drawing the addresses\<close>

partial_function (option) draw_addresses ::
    "(nat \<Rightarrow> 128 word) \<Rightarrow> addr \<Rightarrow> int \<Rightarrow> int \<Rightarrow> string set \<Rightarrow> nat \<Rightarrow> addr list \<Rightarrow> (addr list \<times> nat) option" where
  "draw_addresses rnd base plen count used pos addresses =
     (if int (length addresses) < count then
        (let ip = randomRelayIPv6 (rnd pos) base plen in
         if addr_String ip \<in> used \<or> ip = base \<or> \<not> addr_IsGlobalUnicast ip
         then draw_addresses rnd base plen count used (Suc pos) addresses
         else draw_addresses rnd base plen count (insert (addr_String ip) used) (Suc pos) (addresses @ [ip]))
      else Some (addresses, pos))"

declare draw_addresses.simps [code]

text \<open>The addresses the request names.\<close>

fun requested_addresses ::
    "addr \<Rightarrow> int \<Rightarrow> string list \<Rightarrow> string set \<Rightarrow> addr list \<Rightarrow> (addr list \<times> string set) result" where
  "requested_addresses base plen [] used addresses = Inr (addresses, used)"
| "requested_addresses base plen (raw # raws) used addresses =
     (case parseRelayAddress raw plen of
        Inl e \<Rightarrow> Inl (''invalid IPv6 address '' @ quoted raw @ '': '' @ e)
      | Inr (ip, p) \<Rightarrow>
          if p \<noteq> plen \<or> \<not> addr_IsGlobalUnicast ip \<or> addr_IsPrivate ip
             \<or> \<not> prefix_Contains (WithoutZone ip) plen base then
            Inl (''IPv6 address '' @ quoted raw @ '' is outside the selected public prefix'')
          else if addr_String ip \<in> used then Inl (''duplicate IPv6 address '' @ quoted raw)
          else requested_addresses base plen raws (insert (addr_String ip) used) (addresses @ [ip]))"

section \<open>The items\<close>

definition set_upstream :: "relay_upstream \<Rightarrow> relay_item \<Rightarrow> relay_item" where
  "set_upstream u it = it\<lparr>ri_UpstreamServer := ru_Server u, ri_UpstreamPort := ru_Port u,
     ri_UpstreamUsername := ru_Username u, ri_UpstreamPassword := ru_Password u\<rparr>"

text \<open>Port, user name and password of item \<open>i\<close>; the result carries the names and random position.\<close>

definition fresh_item :: "(nat \<Rightarrow> nat) \<Rightarrow> relay_request \<Rightarrow> int \<Rightarrow> string set \<Rightarrow> nat \<Rightarrow> (relay_item \<times> string set \<times> nat) option" where
  "fresh_item rnd req i used pos =
     map_option (\<lambda>(name, pos').
         (empty_item\<lparr>ri_ListenPort := rq_PortStart req + i, ri_Username := name,
            ri_Password := Random rnd pos' (rq_PasswordLength req)\<rparr>,
          insert name used, pos' + nat (rq_PasswordLength req)))
       (uniqueRelayUsername rnd (rq_UsernamePrefix req) i used pos)"

definition index_panic :: "'a result" where
  "index_panic = Inl ''panic: index out of range''"

fun upstream_items ::
    "(nat \<Rightarrow> nat) \<Rightarrow> relay_request \<Rightarrow> int \<Rightarrow> relay_upstream list \<Rightarrow> string set \<Rightarrow> nat \<Rightarrow> relay_item list result option" where
  "upstream_items rnd req i [] used pos = Some (Inr [])"
| "upstream_items rnd req i (u # us) used pos =
     (case validateUpstream u of
        Inl e \<Rightarrow> Some (Inl (''upstream line '' @ Itoa (i + 1) @ '': '' @ e))
      | Inr _ \<Rightarrow>
          (case fresh_item rnd req i used pos of
             None \<Rightarrow> None
           | Some (it, used', pos') \<Rightarrow>
               if i \<ge> rq_Count req then Some index_panic
               else map_option (map_sum id (Cons (set_upstream u it)))
                      (upstream_items rnd req (i + 1) us used' pos')))"

fun address_items ::
    "(nat \<Rightarrow> nat) \<Rightarrow> relay_request \<Rightarrow> string \<Rightarrow> int \<Rightarrow> int \<Rightarrow> addr list \<Rightarrow> string set \<Rightarrow> nat \<Rightarrow> relay_item list result option" where
  "address_items rnd req iface plen i [] used pos = Some (Inr [])"
| "address_items rnd req iface plen i (ip # ips) used pos =
     (case fresh_item rnd req i used pos of
        None \<Rightarrow> None
      | Some (it0, used', pos') \<Rightarrow>
          let it = it0\<lparr>ri_IPv6 := addr_String ip, ri_Interface := iface, ri_Prefix := plen\<rparr> in
          if relayModePairsUpstream (rq_Mode req) then
            (if i \<ge> int (length (rq_Upstreams req)) then Some index_panic
             else let u = rq_Upstreams req ! nat i in
               case validateUpstream u of
                 Inl e \<Rightarrow> Some (Inl (''upstream line '' @ Itoa (i + 1) @ '': '' @ e))
               | Inr _ \<Rightarrow> map_option (map_sum id (Cons (set_upstream u it)))
                            (address_items rnd req iface plen (i + 1) ips used' pos'))
          else map_option (map_sum id (Cons it)) (address_items rnd req iface plen (i + 1) ips used' pos'))"

text \<open>\<open>rnd\<close> and \<open>pos\<close> serve the names and passwords, \<open>rnd6\<close> and \<open>pos6\<close> the addresses.\<close>

definition prepareRelayItems ::
    "net_interface list result \<Rightarrow> (nat \<Rightarrow> nat) \<Rightarrow> nat \<Rightarrow> (nat \<Rightarrow> 128 word) \<Rightarrow> nat \<Rightarrow> relay_request
      \<Rightarrow> relay_item list result option" where
  "prepareRelayItems interfaces rnd pos rnd6 pos6 req =
     (if rq_Mode req = relayModeUpstream then
        map_option (map_sum id (\<lambda>its. its @ replicate (nat (rq_Count req) - length its) empty_item))
          (upstream_items rnd req 0 (rq_Upstreams req) {} pos)
      else (case resolveRelayBase interfaces req of
        Inl e \<Rightarrow> Some (Inl e)
      | Inr (base, plen, iface) \<Rightarrow>
          if int (length (rq_IPv6Addresses req)) > rq_Count req then
            Some (NewErrorf (''IPv6 address list cannot contain more than '' @ Itoa (rq_Count req) @ '' entries''))
          else (case requested_addresses base plen (rq_IPv6Addresses req) {} [] of
            Inl e \<Rightarrow> Some (Inl e)
          | Inr (addresses, used) \<Rightarrow>
              Option.bind (draw_addresses rnd6 base plen (rq_Count req) used pos6 addresses)
                (\<lambda>(ips, _). address_items rnd req iface plen 0 ips {} pos))))"

section \<open>Protocol options\<close>

definition relayShadowsocksKey :: "(nat \<Rightarrow> nat) \<Rightarrow> nat \<Rightarrow> string \<Rightarrow> string" where
  "relayShadowsocksKey bytes pos method =
     ByteToB64Str (map (\<lambda>i. char_of (bytes (pos + i) mod 256))
       [0..<if method = ''2022-blake3-aes-128-gcm'' then 16 else 32])"

definition anytls_padding :: "string list" where
  "anytls_padding = [''stop=8'', ''0=30-30'', ''1=100-400'',
     ''2=400-500,c,500-1000,c,500-1000,c,500-1000,c,500-1000'', ''3=9-9,500-1000'', ''4=500-1000'',
     ''5=500-1000'', ''6=500-1000'', ''7=500-1000'']"

definition user_pass :: "string \<Rightarrow> string \<Rightarrow> string \<Rightarrow> gval" where
  "user_pass key user pass = GMap [(key, GStr user), (''password'', GStr pass)]"

text \<open>\<open>uuid\<close> is the identifier the generator returns; \<open>bytes\<close> feeds the two Shadowsocks keys.\<close>

definition relayProtocolConfig ::
    "string \<Rightarrow> (nat \<Rightarrow> nat) \<Rightarrow> nat \<Rightarrow> relay_request \<Rightarrow> relay_item \<Rightarrow> (gmap \<times> gmap \<times> relay_item) result" where
  "relayProtocolConfig uuid bytes pos req item =
     (let proto = rq_Protocol req; user = ri_Username item; pass = ri_Password item;
          method = rq_ShadowsocksMethod req;
          transport = [(''transport'', GMap (relayTransport (rq_Transport req)))];
          uitem = item\<lparr>ri_UUID := uuid\<rparr>;
          named = (\<lambda>extra. GMap ((''name'', GStr user) # extra))
      in
      if proto = ''socks'' \<or> proto = ''http'' then
        Inr ([], [(proto, user_pass ''username'' user pass)], item)
      else if proto = ''mixed'' then
        Inr ([], [(''mixed'', user_pass ''username'' user pass), (''socks'', user_pass ''username'' user pass),
                  (''http'', user_pass ''username'' user pass)], item)
      else if proto = ''shadowsocks'' then
        (let key = (if method = ''2022-blake3-aes-128-gcm'' then ''shadowsocks16'' else ''shadowsocks'') in
         if HasPrefix method ''2022'' then
           (let k1 = relayShadowsocksKey bytes pos method;
                k2 = relayShadowsocksKey bytes (pos + 32) method
            in Inr ([(''method'', GStr method), (''password'', GStr k2)], [(key, user_pass ''name'' user k1)],
                    item\<lparr>ri_Password := k1, ri_InboundPassword := k2\<rparr>))
         else Inr ([(''method'', GStr method), (''password'', GStr pass)], [(key, user_pass ''name'' user pass)], item))
      else if proto = ''vless'' then
        Inr (transport, [(''vless'', named [(''uuid'', GStr uuid), (''flow'', GStr [])])], uitem)
      else if proto = ''vmess'' then
        Inr (transport, [(''vmess'', named [(''uuid'', GStr uuid), (''alterId'', GInt 0)])], uitem)
      else if proto = ''trojan'' then
        Inr (transport, [(''trojan'', user_pass ''name'' user pass)], item)
      else if proto = ''hysteria2'' then Inr ([], [(''hysteria2'', user_pass ''name'' user pass)], item)
      else if proto = ''tuic'' then
        Inr ([(''congestion_control'', GStr ''cubic'')],
             [(''tuic'', named [(''uuid'', GStr uuid), (''password'', GStr pass)])], uitem)
      else if proto = ''naive'' then Inr ([], [(''naive'', user_pass ''username'' user pass)], item)
      else if proto = ''anytls'' then
        Inr ([(''padding_scheme'', GStrs anytls_padding)], [(''anytls'', user_pass ''name'' user pass)], item)
      else NewErrorf (''relay protocol '' @ quoted proto @ '' is not supported''))"

section \<open>The items are distinct\<close>

lemma uniqueRelayUsername_new:
  "uniqueRelayUsername rnd pre index used pos = Some r \<Longrightarrow> fst r \<notin> used"
  by (erule uniqueRelayUsername.raw_induct [rotated, where P = "\<lambda>_ _ _ used _ r. fst r \<notin> used"])
    (auto simp: Let_def split: if_splits)

lemma fresh_item_Some:
  assumes "fresh_item rnd req i used pos = Some (it, used', pos')"
  shows "ri_ListenPort it = rq_PortStart req + i" "ri_Username it \<notin> used" "used' = insert (ri_Username it) used"
  using assms uniqueRelayUsername_new by (fastforce simp: fresh_item_def)+

text \<open>Consecutive ports and new, pairwise different user names.\<close>

definition numbered :: "relay_request \<Rightarrow> int \<Rightarrow> string set \<Rightarrow> relay_item list \<Rightarrow> bool" where
  "numbered req i used its \<longleftrightarrow>
     map ri_ListenPort its = map (\<lambda>k. rq_PortStart req + i + int k) [0..<length its]
     \<and> distinct (map ri_Username its) \<and> set (map ri_Username its) \<inter> used = {}"

lemma numbered_Nil [simp]: "numbered req i used []"
  by (simp add: numbered_def)

lemma numbered_Cons:
  assumes "fresh_item rnd req i used pos = Some (it0, used', pos')" "numbered req (i + 1) used' its"
    and "ri_ListenPort it = ri_ListenPort it0" "ri_Username it = ri_Username it0"
  shows "numbered req i used (it # its)"
proof -
  note f = fresh_item_Some [OF assms(1)]
  have "map (\<lambda>k. rq_PortStart req + i + int k) [0..<Suc (length its)]
      = (rq_PortStart req + i) # map (\<lambda>k. rq_PortStart req + (i + 1) + int k) [0..<length its]"
    by (simp add: upt_conv_Cons map_Suc_upt [symmetric] comp_def algebra_simps del: upt_Suc map_Suc_upt)
  then show ?thesis using assms(2-4) f by (auto simp: numbered_def)
qed

lemma upstream_items_numbered:
  "upstream_items rnd req i us used pos = Some (Inr its) \<Longrightarrow> numbered req i used its \<and> length its = length us"
proof (induction us arbitrary: i used pos its)
  case (Cons u us)
  obtain it used' pos' its' where f: "fresh_item rnd req i used pos = Some (it, used', pos')"
    and r: "upstream_items rnd req (i + 1) us used' pos' = Some (Inr its')" and its: "its = set_upstream u it # its'"
    using Cons.prems
    by (auto simp: index_panic_def results split: sum.splits option.splits if_splits)
  from Cons.IH [OF r] numbered_Cons [OF f] show ?case by (simp add: its set_upstream_def)
qed simp

lemma address_items_numbered:
  "address_items rnd req iface plen i ips used pos = Some (Inr its) \<Longrightarrow>
     numbered req i used its \<and> map ri_IPv6 its = map addr_String ips"
proof (induction ips arbitrary: i used pos its)
  case (Cons ip ips)
  obtain it0 used' pos' where f: "fresh_item rnd req i used pos = Some (it0, used', pos')"
    using Cons.prems by (auto split: option.splits)
  obtain it its' where r: "address_items rnd req iface plen (i + 1) ips used' pos' = Some (Inr its')"
    and its: "its = it # its'"
    and it: "ri_ListenPort it = ri_ListenPort it0" "ri_Username it = ri_Username it0" "ri_IPv6 it = addr_String ip"
    using Cons.prems f
    by (auto simp: index_panic_def results Let_def set_upstream_def split: sum.splits option.splits if_splits)
  from Cons.IH [OF r] numbered_Cons [OF f _ it(1,2)] show ?case by (simp add: its it)
qed simp

definition address_inv :: "string set \<Rightarrow> addr list \<Rightarrow> bool" where
  "address_inv used addresses \<longleftrightarrow> used = addr_String ` set addresses \<and> distinct (map addr_String addresses)"

lemma address_inv_step:
  "address_inv used addresses \<Longrightarrow> addr_String ip \<notin> used \<Longrightarrow> address_inv (insert (addr_String ip) used) (addresses @ [ip])"
  by (auto simp: address_inv_def)

lemma requested_addresses_inv:
  "requested_addresses base plen raws used addresses = Inr (addresses', used') \<Longrightarrow> address_inv used addresses
    \<Longrightarrow> address_inv used' addresses' \<and> length addresses' = length addresses + length raws"
  by (induction base plen raws used addresses rule: requested_addresses.induct)
    (auto split: sum.splits if_splits simp: address_inv_step)

lemma draw_addresses_inv:
  "draw_addresses rnd base plen count used pos addresses = Some r \<Longrightarrow>
     address_inv used addresses \<longrightarrow> distinct (map addr_String (fst r))"
  by (erule draw_addresses.raw_induct [rotated, where P = "\<lambda>_ _ _ _ used _ addresses r.
      address_inv used addresses \<longrightarrow> distinct (map addr_String (fst r))"])
    (auto simp: Let_def address_inv_def split: if_splits)

lemma draw_addresses_length:
  "draw_addresses rnd base plen count used pos addresses = Some r \<Longrightarrow>
     int (length addresses) \<le> count \<longrightarrow> int (length (fst r)) = count"
  by (erule draw_addresses.raw_induct [rotated, where P = "\<lambda>_ _ _ count _ _ addresses r.
      int (length addresses) \<le> count \<longrightarrow> int (length (fst r)) = count"])
    (auto simp: Let_def split: if_splits)

text \<open>
  C17. The items of a pool are as many as the request says, listen on consecutive ports from the
  start port on, and have different user names; a pool that uses IPv6 gives every item its own
  address. (The code checks the number of upstreams before.)
\<close>

theorem prepareRelayItems_distinct:
  assumes "prepareRelayItems interfaces rnd pos rnd6 pos6 req = Some (Inr items)"
    and "0 \<le> rq_Count req"
    and "rq_Mode req = relayModeUpstream \<longrightarrow> int (length (rq_Upstreams req)) = rq_Count req"
  shows "int (length items) = rq_Count req
    \<and> map ri_ListenPort items = map (\<lambda>k. rq_PortStart req + int k) [0..<length items]
    \<and> distinct (map ri_Username items)
    \<and> (rq_Mode req = relayModeUpstream \<or> distinct (map ri_IPv6 items))"
proof (cases "rq_Mode req = relayModeUpstream")
  case True
  with assms(1) obtain its where "upstream_items rnd req 0 (rq_Upstreams req) {} pos = Some (Inr its)"
    and items: "items = its @ replicate (nat (rq_Count req) - length its) empty_item"
    by (auto simp: prepareRelayItems_def results split: sum.splits)
  from upstream_items_numbered [OF this(1)] True assms(3) items show ?thesis
    by (auto simp: numbered_def)
next
  case False
  obtain base plen iface addresses used ips where
    rq: "requested_addresses base plen (rq_IPv6Addresses req) {} [] = Inr (addresses, used)"
    and few: "int (length (rq_IPv6Addresses req)) \<le> rq_Count req"
    and d: "\<exists>q. draw_addresses rnd6 base plen (rq_Count req) used pos6 addresses = Some (ips, q)"
    and ai: "address_items rnd req iface plen 0 ips {} pos = Some (Inr items)"
    using assms(1) False
    by (auto simp: prepareRelayItems_def bind_eq_Some_conv split: sum.splits if_splits prod.splits)
  from requested_addresses_inv [OF rq] have inv: "address_inv used addresses"
      and len: "length addresses = length (rq_IPv6Addresses req)"
    by (simp_all add: address_inv_def)
  from d obtain q where q: "draw_addresses rnd6 base plen (rq_Count req) used pos6 addresses = Some (ips, q)" by blast
  have "int (length ips) = rq_Count req" "distinct (map addr_String ips)"
    using draw_addresses_length [OF q] draw_addresses_inv [OF q] inv few by (auto simp: len)
  with address_items_numbered [OF ai] False show ?thesis
    by (auto simp: numbered_def dest: map_eq_imp_length_eq)
qed

section \<open>When the drawing ends\<close>

definition draw_rejects :: "addr \<Rightarrow> string set \<Rightarrow> addr \<Rightarrow> bool" where
  "draw_rejects base used ip \<longleftrightarrow> addr_String ip \<in> used \<or> ip = base \<or> \<not> addr_IsGlobalUnicast ip"

lemma draw_addresses_stuck:
  assumes "\<And>q. draw_rejects base used (randomRelayIPv6 (rnd q) base plen)" "int (length addresses) < count"
  shows "draw_addresses rnd base plen count used pos addresses = None"
proof (rule ccontr)
  assume "draw_addresses rnd base plen count used pos addresses \<noteq> None"
  then obtain r where "draw_addresses rnd base plen count used pos addresses = Some r" by blast
  then have "(\<forall>q. draw_rejects base used (randomRelayIPv6 (rnd q) base plen)) \<longrightarrow> \<not> int (length addresses) < count"
    by (rule draw_addresses.raw_induct [rotated, where P = "\<lambda>rnd base plen count used _ addresses _.
        (\<forall>q. draw_rejects base used (randomRelayIPv6 (rnd q) base plen)) \<longrightarrow> \<not> int (length addresses) < count"])
      (simp add: Let_def draw_rejects_def [symmetric] split: if_splits; blast)
  with assms show False by blast
qed

lemma draw_addresses_step:
  assumes "int (length addresses) < count" "draw_rejects base used (randomRelayIPv6 (rnd pos) base plen)"
  shows "draw_addresses rnd base plen count used pos addresses
    = draw_addresses rnd base plen count used (Suc pos) addresses"
  using assms by (subst draw_addresses.simps) (simp add: Let_def draw_rejects_def)

lemma draw_addresses_accept:
  assumes "int (length addresses) < count" "\<not> draw_rejects base used (randomRelayIPv6 (rnd pos) base plen)"
  shows "draw_addresses rnd base plen count used pos addresses
    = draw_addresses rnd base plen count (insert (addr_String (randomRelayIPv6 (rnd pos) base plen)) used) (Suc pos)
        (addresses @ [randomRelayIPv6 (rnd pos) base plen])"
  using assms by (subst draw_addresses.simps) (simp add: Let_def draw_rejects_def)

lemma draw_addresses_done:
  "\<not> int (length addresses) < count \<Longrightarrow> draw_addresses rnd base plen count used pos addresses = Some (addresses, pos)"
  by (subst draw_addresses.simps) simp

text \<open>
  C23. Drawing the addresses of a pool ends, with as many as wanted, whenever the random bytes
  keep delivering an address outside every set of taken ones that is smaller than the set the
  pool will have taken in the end.
\<close>

theorem draw_addresses_terminates:
  assumes fair: "\<And>U q. finite U \<Longrightarrow> int (card U) < int (card used) + count - int (length addresses) \<Longrightarrow>
      \<exists>k. \<not> draw_rejects base U (randomRelayIPv6 (rnd (q + k)) base plen)"
    and fin: "finite used" and len: "int (length addresses) \<le> count"
  shows "\<exists>ips q. draw_addresses rnd base plen count used pos addresses = Some (ips, q) \<and> int (length ips) = count"
proof -
  define N where "N = int (card used) + count - int (length addresses)"
  have "\<exists>ips q. draw_addresses rnd base plen count taken pos ips0 = Some (ips, q) \<and> int (length ips) = count"
    if "n = nat (count - int (length ips0))" "finite taken" "int (length ips0) \<le> count"
      "int (card taken) + count - int (length ips0) \<le> N" for n taken ips0 pos
    using that
  proof (induction n arbitrary: taken pos ips0)
    case 0
    then show ?case by (subst draw_addresses.simps) simp
  next
    case (Suc n)
    then have less: "int (length ips0) < count" by simp
    have skip: "\<exists>q. \<not> draw_rejects base taken (randomRelayIPv6 (rnd q) base plen)
        \<and> draw_addresses rnd base plen count taken pos ips0 = draw_addresses rnd base plen count taken q ips0"
      if "\<not> draw_rejects base taken (randomRelayIPv6 (rnd (pos + k)) base plen)" for k pos
      using that
    proof (induction k arbitrary: pos)
      case (Suc k)
      then show ?case
        using Suc.IH [of "Suc pos"] draw_addresses_step [OF less, of base taken rnd pos plen]
        by (cases "draw_rejects base taken (randomRelayIPv6 (rnd pos) base plen)") auto
    qed auto
    have "int (card taken) < N" using Suc.prems(4) less by simp
    then obtain q where q: "\<not> draw_rejects base taken (randomRelayIPv6 (rnd q) base plen)"
      "draw_addresses rnd base plen count taken pos ips0 = draw_addresses rnd base plen count taken q ips0"
      using fair [OF Suc.prems(2), folded N_def] skip by blast
    let ?ip = "randomRelayIPv6 (rnd q) base plen"
    have "card (insert (addr_String ?ip) taken) \<le> Suc (card taken)" by (rule card_insert_le_m1) auto
    then have "n = nat (count - int (length (ips0 @ [?ip])))" "finite (insert (addr_String ?ip) taken)"
      "int (length (ips0 @ [?ip])) \<le> count"
      "int (card (insert (addr_String ?ip) taken)) + count - int (length (ips0 @ [?ip])) \<le> N"
      using Suc.prems less by auto
    from Suc.IH [OF this, of "Suc q"] show ?case
      unfolding q(2) draw_addresses_accept [where rnd = rnd and pos = q and base = base, OF less q(1)] .
  qed
  then show ?thesis using fin len unfolding N_def by blast
qed

text \<open>
  C24. A host whose provider assigns a single address (prefix length 128, as DHCPv6 does) and a
  request that leaves the base to detection: the size of the prefix is only checked for a base
  the request names, every draw gives the base itself, and the preparation never returns.
\<close>

theorem prepareRelayItems_single_address_hangs:
  assumes mode: "rq_Mode req \<noteq> relayModeUpstream"
    and detection: "TrimSpace (rq_BaseIPv6 req) = []" "discoverRelayIPv6 interfaces = Inr (found # others)"
    and single: "r6_Prefix found = 128" "ParseAddr (r6_Address found) = Some (V6 w [])"
    and "rq_Interface req = [] \<or> rq_Interface req = r6_Interface found"
    and "rq_IPv6Addresses req = []" "1 \<le> rq_Count req"
  shows "prepareRelayItems interfaces rnd pos rnd6 pos6 req = None"
proof -
  have base: "resolveRelayBase interfaces req = Inr (V6 w [], 128, r6_Interface found)"
    using assms by (auto simp: resolveRelayBase_def)
  have "draw_rejects (V6 w []) {} (randomRelayIPv6 (rnd6 q) (V6 w []) 128)" for q
    by (simp add: draw_rejects_def randomRelayIPv6_def As16_def AddrFrom16_def)
  then have "draw_addresses rnd6 (V6 w []) 128 (rq_Count req) {} pos6 [] = None"
    using assms by (intro draw_addresses_stuck) auto
  then show ?thesis using mode assms by (simp add: prepareRelayItems_def base)
qed

text \<open>
  The base of a pool is not required to be IPv6: a public IPv4 base passes every check of
  \<open>resolveRelayBase\<close>, and the addresses drawn for it lie in \<^verbatim>\<open>::/24\<close>.
\<close>

theorem resolveRelayBase_accepts_IPv4:
  "resolveRelayBase interfaces (req\<lparr>rq_BaseIPv6 := ''8.8.8.8/24'', rq_Prefix := 0, rq_Interface := ''eth0'', rq_Count := 5\<rparr>)
     = Inr (V4 0x08080808, 24, ''eth0'')
   \<and> As16 (randomRelayIPv6 random (V4 0x08080808) 24) AND NOT (host_mask 24) = 0"
proof
  have "parseRelayAddress ''8.8.8.8/24'' 0 = Inr (V4 0x08080808, 24)" by code_simp
  moreover have "TrimSpace ''8.8.8.8/24'' \<noteq> []" by code_simp
  moreover have "addr_IsGlobalUnicast (V4 0x08080808) \<and> \<not> addr_IsPrivate (V4 0x08080808)" by code_simp
  ultimately show "resolveRelayBase interfaces (req\<lparr>rq_BaseIPv6 := ''8.8.8.8/24'', rq_Prefix := 0,
      rq_Interface := ''eth0'', rq_Count := 5\<rparr>) = Inr (V4 0x08080808, 24, ''eth0'')"
    by (simp add: resolveRelayBase_def Let_def)
  have "As16 (V4 0x08080808) AND NOT (host_mask 24) = 0" by code_simp
  then show "As16 (randomRelayIPv6 random (V4 0x08080808) 24) AND NOT (host_mask 24) = 0"
    by (simp only: randomRelayIPv6_network(1) [OF refl])
qed

section \<open>Concrete runs\<close>

definition example_request :: relay_request where
  "example_request = \<lparr>rq_Name = ''pool'', rq_Source = [], rq_Mode = relayModeIPv6, rq_PortStart = 30000,
     rq_Count = 2, rq_UsernamePrefix = ''relay'', rq_PasswordLength = 8, rq_PublicHost = ''example.com'',
     rq_Interface = [], rq_BaseIPv6 = [], rq_Prefix = 0, rq_AddSystemAddresses = True, rq_IPv6Addresses = [],
     rq_Upstreams = [], rq_UpstreamText = [], rq_Protocol = ''socks'', rq_CoreType = [], rq_TlsID = 0,
     rq_Transport = [], rq_DomainStrategy = [], rq_ShadowsocksMethod = [], rq_AppleIDIPv4Only = False\<rparr>"

lemma example_request_fields:
  "rq_Mode example_request = relayModeIPv6" "rq_Count example_request = 2" "rq_IPv6Addresses example_request = []"
  "rq_PasswordLength example_request = 8" "rq_Upstreams example_request = []" "rq_BaseIPv6 example_request = []" "rq_Interface example_request = []"
  by (simp_all add: example_request_def)

definition example_interfaces :: "string \<Rightarrow> net_interface list result" where
  "example_interfaces cidr =
     Inr [\<lparr>ni_Name = ''lo'', ni_Loopback = True, ni_Addrs = Some [''::1/128'']\<rparr>,
          \<lparr>ni_Name = ''eth0'', ni_Loopback = False, ni_Addrs = Some [cidr]\<rparr>]"

definition example_random :: "nat \<Rightarrow> 128 word" where
  "example_random n = (if n = 0 then 0x99 else if n = 1 then 0x77 else 5)"

theorem prepareRelayItems_distinct_witness:
  "\<exists>items. prepareRelayItems (example_interfaces ''2001:db8:1::5/64'') id 0 example_random 0 example_request = Some (Inr items)
     \<and> int (length items) = 2 \<and> distinct (map ri_Username items) \<and> distinct (map ri_IPv6 items)"
proof -
  have base: "resolveRelayBase (example_interfaces ''2001:db8:1::5/64'') example_request
      = Inr (V6 0x20010db8000100000000000000000005 [], 64, ''eth0'')" by code_simp
  have r: "\<not> draw_rejects (V6 0x20010db8000100000000000000000005 []) {}
       (randomRelayIPv6 (example_random 0) (V6 0x20010db8000100000000000000000005 []) 64)"
    "\<not> draw_rejects (V6 0x20010db8000100000000000000000005 [])
       {addr_String (randomRelayIPv6 (example_random 0) (V6 0x20010db8000100000000000000000005 []) 64)}
       (randomRelayIPv6 (example_random 1) (V6 0x20010db8000100000000000000000005 []) 64)"
    unfolding random_masked by code_simp+
  let ?a = "randomRelayIPv6 (example_random 0) (V6 0x20010db8000100000000000000000005 []) 64"
  let ?b = "randomRelayIPv6 (example_random 1) (V6 0x20010db8000100000000000000000005 []) 64"
  have "draw_addresses example_random (V6 0x20010db8000100000000000000000005 []) 64 2 {} 0 [] = Some ([?a, ?b], 2)"
    using draw_addresses_accept [of "[]" 2 "V6 0x20010db8000100000000000000000005 []" "{}" example_random 0 64]
      draw_addresses_accept [of "[?a]" 2 "V6 0x20010db8000100000000000000000005 []" "{addr_String ?a}" example_random 1 64] r
    by (simp add: draw_addresses_done numeral_2_eq_2)
  moreover have "\<exists>its. address_items id example_request ''eth0'' 64 0 [?a, ?b] {} 0 = Some (Inr its)"
  proof -
    have "fresh_item id example_request i used p \<noteq> None"
      if "username_candidate id (rq_UsernamePrefix example_request) i p \<notin> used" for i used p
      using uniqueRelayUsername_first [OF that] by (simp add: fresh_item_def)
    moreover have "username_candidate id (rq_UsernamePrefix example_request) 1 12
        \<notin> {username_candidate id (rq_UsernamePrefix example_request) 0 0}" by code_simp
    ultimately show ?thesis
      by (auto simp: fresh_item_def uniqueRelayUsername_first Let_def relayModePairsUpstream_def example_request_fields)
  qed
  ultimately obtain items where i: "prepareRelayItems (example_interfaces ''2001:db8:1::5/64'') id 0 example_random 0
      example_request = Some (Inr items)"
    by (auto simp: prepareRelayItems_def base example_request_fields)
  then show ?thesis
    using prepareRelayItems_distinct [OF i] by (simp add: example_request_fields)
qed

theorem draw_addresses_terminates_witness:
  "\<exists>ips q. draw_addresses (\<lambda>_. 5) (V6 0x20010db8000100000000000000000001 []) 64 1 {} 0 [] = Some (ips, q)
     \<and> int (length ips) = 1"
proof -
  have "\<not> draw_rejects (V6 0x20010db8000100000000000000000001 []) {}
      (randomRelayIPv6 5 (V6 0x20010db8000100000000000000000001 []) 64)"
    unfolding random_masked by code_simp
  then show ?thesis
    by (intro draw_addresses_terminates) auto
qed

theorem prepareRelayItems_single_address_hangs_witness:
  "prepareRelayItems (example_interfaces ''2001:db8:1::5/128'') id 0 example_random 0 example_request = None"
proof -
  have d: "discoverRelayIPv6 (example_interfaces ''2001:db8:1::5/128'')
      = Inr [\<lparr>r6_Interface = ''eth0'', r6_Address = ''2001:db8:1::5'', r6_Prefix = 128\<rparr>]" by code_simp
  have a: "ParseAddr ''2001:db8:1::5'' = Some (V6 0x20010db8000100000000000000000005 [])" by code_simp
  have b: "TrimSpace [] = []" by code_simp
  show ?thesis
    by (rule prepareRelayItems_single_address_hangs [OF _ _ d]) (simp_all add: example_request_fields a b)
qed

definition example_rotated :: relay_item where
  "example_rotated = empty_item\<lparr>ri_IPv6 := ''2001:db8:1::5'', ri_Interface := ''eth0'', ri_Prefix := 64,
     ri_ListenPort := 30000\<rparr>"

text \<open>The first draw is in use elsewhere, the second one is free.\<close>

theorem prepareRelayRotatedItems_fresh_witness:
  "\<exists>new. prepareRelayRotatedItems example_random 0 [example_rotated] {''2001:db8:1::99''} = Inr new
     \<and> list_all2 rotated_item [example_rotated] new \<and> set (map ri_IPv6 new) \<inter> {''2001:db8:1::99''} = {}"
proof -
  let ?old = "V6 0x20010db8000100000000000000000005 []" and ?base = "V6 0x20010db8000100000000000000000000 []"
  have a: "rotatable_address example_rotated = Some ?old" by code_simp
  have m: "prefix_Masked (WithoutZone ?old) 64 = ?base" by code_simp
  have f: "ri_Interface example_rotated = ''eth0''" "ri_Prefix example_rotated = 64"
    by (simp_all add: example_rotated_def)
  have "rotation_rejects ?old ?base {''2001:db8:1::99''} (randomRelayIPv6 (example_random 0) ?base 64)"
    "\<not> rotation_rejects ?old ?base {''2001:db8:1::99''} (randomRelayIPv6 (example_random (Suc 0)) ?base 64)"
    by code_simp+
  then have "rotate_search example_random ?old ?base 64 {''2001:db8:1::99''} 0 0
      = Some (randomRelayIPv6 (example_random (Suc 0)) ?base 64, Suc (Suc 0))"
    by (simp add: rotate_search_skip rotate_search_accept)
  then obtain new where n: "prepareRelayRotatedItems example_random 0 [example_rotated] {''2001:db8:1::99''} = Inr new"
    by (simp add: prepareRelayRotatedItems_def a m f Let_def)
  from prepareRelayRotatedItems_fresh [OF n] n show ?thesis by blast
qed

end
