(* ===== verification/Relay_Egress.thy ===== *)
theory Relay_Egress
  imports Relay_Addresses
begin

text \<open>
  \<open>validateRelayIPv6Egress\<close> (\<^verbatim>\<open>service/relay.go\<close>): up to eight workers take the addresses of the items from
  a closed channel and probe them; the first failure is recorded and cancels the others. The
  workers interleave freely, so the run is a step relation on the channel, the workers and the
  recorded failure. \<open>probe\<close> is the argument of the Go function: the error of probing an address,
  if any. Once the context is cancelled a probe may also end with the context's error.
\<close>

definition relayIPv6ProbeWorkers :: nat where "relayIPv6ProbeWorkers = 8"

section \<open>The addresses to probe\<close>

fun egress_addresses :: "relay_item list \<Rightarrow> addr list \<Rightarrow> addr list result" where
  "egress_addresses [] acc = Inr acc"
| "egress_addresses (it # its) acc =
     (if ri_IPv6 it = [] then egress_addresses its acc
      else case ParseAddr (ri_IPv6 it) of
        None \<Rightarrow> NewErrorf (''invalid relay IPv6 address '' @ quoted (ri_IPv6 it))
      | Some a \<Rightarrow>
          if \<not> Is6 a then NewErrorf (''invalid relay IPv6 address '' @ quoted (ri_IPv6 it))
          else egress_addresses its (if a \<in> set acc then acc else acc @ [a]))"

section \<open>The workers\<close>

datatype worker = Idle | Probing addr | Done

record egress =
  eg_jobs :: "addr list"
  eg_workers :: "worker list"
  eg_failed :: "(addr \<times> string) option"

definition egress_start :: "addr list \<Rightarrow> egress" where
  "egress_start addresses = \<lparr>eg_jobs = addresses,
     eg_workers = replicate (min relayIPv6ProbeWorkers (length addresses)) Idle, eg_failed = None\<rparr>"

definition cancelled :: "egress \<Rightarrow> bool" where
  "cancelled s \<longleftrightarrow> eg_failed s \<noteq> None"

text \<open>\<open>firstFailure.Do\<close>: only the first failure is kept.\<close>

definition record_failure :: "addr \<Rightarrow> string \<Rightarrow> egress \<Rightarrow> egress" where
  "record_failure a e s = (if eg_failed s = None then s\<lparr>eg_failed := Some (a, e)\<rparr> else s)"

inductive egress_step :: "(addr \<Rightarrow> string option) \<Rightarrow> string \<Rightarrow> egress \<Rightarrow> egress \<Rightarrow> bool"
  for probe :: "addr \<Rightarrow> string option" and ctx_error :: string
where
  take_job: "i < length (eg_workers s) \<Longrightarrow> eg_workers s ! i = Idle \<Longrightarrow> eg_jobs s = a # js \<Longrightarrow>
     egress_step probe ctx_error s (s\<lparr>eg_jobs := js, eg_workers := (eg_workers s)[i := Probing a]\<rparr>)"
| channel_closed: "i < length (eg_workers s) \<Longrightarrow> eg_workers s ! i = Idle \<Longrightarrow> eg_jobs s = [] \<Longrightarrow>
     egress_step probe ctx_error s (s\<lparr>eg_workers := (eg_workers s)[i := Done]\<rparr>)"
| context_done: "i < length (eg_workers s) \<Longrightarrow> eg_workers s ! i = Idle \<Longrightarrow> cancelled s \<Longrightarrow>
     egress_step probe ctx_error s (s\<lparr>eg_workers := (eg_workers s)[i := Done]\<rparr>)"
| probe_ok: "i < length (eg_workers s) \<Longrightarrow> eg_workers s ! i = Probing a \<Longrightarrow> probe a = None \<Longrightarrow>
     egress_step probe ctx_error s (s\<lparr>eg_workers := (eg_workers s)[i := Idle]\<rparr>)"
| probe_failed: "i < length (eg_workers s) \<Longrightarrow> eg_workers s ! i = Probing a \<Longrightarrow>
     probe a = Some e \<or> (cancelled s \<and> e = ctx_error) \<Longrightarrow>
     egress_step probe ctx_error s (record_failure a e (s\<lparr>eg_workers := (eg_workers s)[i := Done]\<rparr>))"

inductive_cases egress_stepE: "egress_step probe ctx_error s s'"

definition egress_finished :: "egress \<Rightarrow> bool" where
  "egress_finished s \<longleftrightarrow> set (eg_workers s) \<subseteq> {Done}"

text \<open>The result of a run from its final state.\<close>

definition egress_result :: "egress \<Rightarrow> unit result" where
  "egress_result s = (case eg_failed s of
     None \<Rightarrow> Inr ()
   | Some (a, e) \<Rightarrow> NewErrorf (relayIPv6EgressErrorCode @ ''|'' @ addr_String a
       @ ''|IPv6 address is configured locally but cannot reach the IPv6 Internet; the VPS provider may only ''
       @ ''permit its assigned IPv6. Request a routed or authorized prefix. No relay was created: '' @ e))"

section \<open>The invariant\<close>

definition in_flight :: "egress \<Rightarrow> addr set" where
  "in_flight s = {a. Probing a \<in> set (eg_workers s)}"

definition egress_inv :: "(addr \<Rightarrow> string option) \<Rightarrow> addr list \<Rightarrow> egress \<Rightarrow> bool" where
  "egress_inv probe addresses s \<longleftrightarrow>
     length (eg_workers s) = min relayIPv6ProbeWorkers (length addresses)
     \<and> set (eg_jobs s) \<union> in_flight s \<subseteq> set addresses
     \<and> (case eg_failed s of
          None \<Rightarrow> (\<forall>a\<in>set addresses. a \<in> set (eg_jobs s) \<or> a \<in> in_flight s \<or> probe a = None)
                  \<and> (Done \<in> set (eg_workers s) \<longrightarrow> eg_jobs s = [])
        | Some (a, e) \<Rightarrow> a \<in> set addresses \<and> probe a = Some e)"

lemma in_flight_update:
  assumes "i < length (eg_workers s)"
  shows "in_flight (s\<lparr>eg_workers := (eg_workers s)[i := w]\<rparr>) \<subseteq> in_flight s \<union> {a. w = Probing a}"
    and "a \<in> in_flight s \<Longrightarrow> eg_workers s ! i \<noteq> Probing a \<Longrightarrow> a \<in> in_flight (s\<lparr>eg_workers := (eg_workers s)[i := w]\<rparr>)"
    and "w = Probing a \<Longrightarrow> a \<in> in_flight (s\<lparr>eg_workers := (eg_workers s)[i := w]\<rparr>)"
proof -
  show "in_flight (s\<lparr>eg_workers := (eg_workers s)[i := w]\<rparr>) \<subseteq> in_flight s \<union> {a. w = Probing a}"
    using set_update_subset_insert [of "eg_workers s" i w] by (auto simp: in_flight_def)
  show "a \<in> in_flight (s\<lparr>eg_workers := (eg_workers s)[i := w]\<rparr>)"
    if "a \<in> in_flight s" "eg_workers s ! i \<noteq> Probing a"
  proof -
    from that(1) obtain j where "j < length (eg_workers s)" "eg_workers s ! j = Probing a"
      by (auto simp: in_flight_def in_set_conv_nth)
    with that(2) have "(eg_workers s)[i := w] ! j = Probing a" "j < length ((eg_workers s)[i := w])"
      by (cases "i = j"; simp)+
    then show ?thesis by (auto simp: in_flight_def in_set_conv_nth)
  qed
  show "w = Probing a \<Longrightarrow> a \<in> in_flight (s\<lparr>eg_workers := (eg_workers s)[i := w]\<rparr>)"
    using assms by (auto simp: in_flight_def set_update_memI)
qed

lemma egress_inv_start: "egress_inv probe addresses (egress_start addresses)"
  by (auto simp: egress_inv_def egress_start_def in_flight_def)

lemma in_flight_jobs [simp]: "in_flight (s\<lparr>eg_jobs := js\<rparr>) = in_flight s" "in_flight (s\<lparr>eg_failed := f\<rparr>) = in_flight s"
  by (simp_all add: in_flight_def)

lemma in_flight_swap: "in_flight (s\<lparr>eg_jobs := js, eg_workers := ws\<rparr>) = in_flight (s\<lparr>eg_workers := ws\<rparr>)"
  by (simp add: in_flight_def)

lemma probing_in_flight: "i < length (eg_workers s) \<Longrightarrow> eg_workers s ! i = Probing a \<Longrightarrow> a \<in> in_flight s"
  by (auto simp: in_flight_def in_set_conv_nth)

lemma egress_inv_shrink:
  assumes "egress_inv probe addresses s" "length (eg_workers t) = length (eg_workers s)"
    and "eg_jobs t = eg_jobs s" "eg_failed t = eg_failed s"
    and "Done \<in> set (eg_workers t) \<longrightarrow> Done \<in> set (eg_workers s)" "in_flight t \<subseteq> in_flight s"
    and "\<forall>b\<in>in_flight s. b \<in> in_flight t \<or> probe b = None"
  shows "egress_inv probe addresses t"
proof -
  have "set (eg_jobs s) \<union> in_flight s \<subseteq> set addresses" using assms(1) unfolding egress_inv_def by blast
  then have sub: "set (eg_jobs t) \<union> in_flight t \<subseteq> set addresses"
    using assms(6) unfolding assms(3) by (meson Un_mono order_refl order_trans)
  have len: "length (eg_workers t) = min relayIPv6ProbeWorkers (length addresses)"
    using assms(1,2) unfolding egress_inv_def by presburger
  show ?thesis
  proof (cases "eg_failed s")
    case None
    then have a: "\<forall>a\<in>set addresses. a \<in> set (eg_jobs s) \<or> a \<in> in_flight s \<or> probe a = None"
      and d: "Done \<in> set (eg_workers s) \<longrightarrow> eg_jobs s = []"
      using assms(1) by (simp_all add: egress_inv_def)
    have "\<forall>a\<in>set addresses. a \<in> set (eg_jobs t) \<or> a \<in> in_flight t \<or> probe a = None"
      using a assms(7) unfolding assms(3) by meson
    moreover have "Done \<in> set (eg_workers t) \<longrightarrow> eg_jobs t = []" using d assms(5) unfolding assms(3) by meson
    ultimately show ?thesis using sub len by (simp add: egress_inv_def assms(4) None)
  next
    case (Some f)
    with assms(1) have "case f of (a, e) \<Rightarrow> a \<in> set addresses \<and> probe a = Some e"
      by (simp add: egress_inv_def)
    then show ?thesis using sub len by (simp add: egress_inv_def assms(4) Some)
  qed
qed

lemma egress_inv_step:
  "egress_step probe ctx_error s s' \<Longrightarrow> egress_inv probe addresses s \<Longrightarrow> egress_inv probe addresses s'"
proof (induction rule: egress_step.induct)
  case (take_job i s a js)
  note f = in_flight_update [OF take_job(1), where w = "Probing a"]
  have "Done \<in> set ((eg_workers s)[i := Probing a]) \<Longrightarrow> Done \<in> set (eg_workers s)"
    using set_update_subset_insert [of "eg_workers s" i "Probing a"] by auto
  with f take_job show ?case
    unfolding egress_inv_def by (auto simp: in_flight_swap split: option.splits)
next
  case (channel_closed i s)
  with in_flight_update [OF channel_closed(1), where w = Done] show ?case
    unfolding egress_inv_def by (auto split: option.splits)
next
  case (context_done i s)
  with in_flight_update [OF context_done(1), where w = Done] show ?case
    unfolding egress_inv_def cancelled_def by (auto split: option.splits)
next
  case (probe_ok i s a)
  have "Done \<in> set ((eg_workers s)[i := Idle]) \<Longrightarrow> Done \<in> set (eg_workers s)"
    using set_update_subset_insert [of "eg_workers s" i Idle] by auto
  then have "Done \<in> set ((eg_workers s)[i := Idle]) \<longrightarrow> Done \<in> set (eg_workers s)" by blast
  moreover have "in_flight (s\<lparr>eg_workers := (eg_workers s)[i := Idle]\<rparr>) \<subseteq> in_flight s"
    using in_flight_update(1) [OF probe_ok(1), where w = Idle] by simp
  moreover have "\<forall>b\<in>in_flight s. b \<in> in_flight (s\<lparr>eg_workers := (eg_workers s)[i := Idle]\<rparr>) \<or> probe b = None"
  proof
    fix b
    assume "b \<in> in_flight s"
    then show "b \<in> in_flight (s\<lparr>eg_workers := (eg_workers s)[i := Idle]\<rparr>) \<or> probe b = None"
      using in_flight_update(2) [OF probe_ok(1), of b Idle] probe_ok(2,3) by (cases "b = a") simp_all
  qed
  ultimately show ?case
    using egress_inv_shrink [OF probe_ok.prems, of "s\<lparr>eg_workers := (eg_workers s)[i := Idle]\<rparr>"] by simp
next
  case (probe_failed i s a e)
  have "a \<in> in_flight s" using probing_in_flight probe_failed by blast
  with in_flight_update [OF probe_failed(1), where w = Done] probe_failed show ?case
    unfolding egress_inv_def record_failure_def cancelled_def by (auto split: option.splits)
qed

lemma egress_inv_reachable:
  "(egress_step probe ctx_error)\<^sup>*\<^sup>* (egress_start addresses) s \<Longrightarrow> egress_inv probe addresses s"
  by (induction rule: rtranclp_induct) (auto intro: egress_inv_start egress_inv_step)

text \<open>
  C19. However the eight workers interleave, a run that ends reports success exactly when every
  address was reachable, and otherwise names an address of the pool with the error its own probe
  gave, never the error of the cancellation.
\<close>

theorem egress_run_correct:
  assumes "(egress_step probe ctx_error)\<^sup>*\<^sup>* (egress_start addresses) s" "egress_finished s" "addresses \<noteq> []"
  shows "(egress_result s = Inr () \<longleftrightarrow> (\<forall>a\<in>set addresses. probe a = None))
    \<and> (\<forall>a e. eg_failed s = Some (a, e) \<longrightarrow> a \<in> set addresses \<and> probe a = Some e)"
proof -
  note inv = egress_inv_reachable [OF assms(1)]
  have "length (eg_workers s) = min 8 (length addresses)" "0 < length addresses"
    using inv assms(3) by (simp_all add: egress_inv_def relayIPv6ProbeWorkers_def)
  then have "0 < length (eg_workers s)" by linarith
  then have "eg_workers s \<noteq> []" by simp
  then have d: "Done \<in> set (eg_workers s)" using assms(2) by (cases "eg_workers s") (auto simp: egress_finished_def)
  have fl: "in_flight s = {}" using assms(2) by (auto simp: in_flight_def egress_finished_def)
  show ?thesis
    using inv d fl by (auto simp: egress_inv_def egress_result_def split: option.splits)
qed

section \<open>The workers stop\<close>

definition worker_cost :: "worker \<Rightarrow> nat" where
  "worker_cost w = (case w of Idle \<Rightarrow> 1 | Probing _ \<Rightarrow> 2 | Done \<Rightarrow> 0)"

definition egress_cost :: "egress \<Rightarrow> nat" where
  "egress_cost s = 2 * length (eg_jobs s) + sum_list (map worker_cost (eg_workers s))"

lemma cost_update:
  "i < length ws \<Longrightarrow> sum_list (map worker_cost (ws[i := w])) + worker_cost (ws ! i)
     = sum_list (map worker_cost ws) + worker_cost w"
  by (induction ws arbitrary: i) (auto simp: nth_Cons split: nat.splits)

lemma egress_cost_step: "egress_step probe ctx_error s s' \<Longrightarrow> egress_cost s' < egress_cost s"
proof (induction rule: egress_step.induct)
  case (take_job i s a js)
  then show ?case using cost_update [of i "eg_workers s" "Probing a"] by (simp add: egress_cost_def worker_cost_def)
next
  case (channel_closed i s)
  then show ?case using cost_update [of i "eg_workers s" Done] by (simp add: egress_cost_def worker_cost_def)
next
  case (context_done i s)
  then show ?case using cost_update [of i "eg_workers s" Done] by (simp add: egress_cost_def worker_cost_def)
next
  case (probe_ok i s a)
  then show ?case using cost_update [of i "eg_workers s" Idle] by (simp add: egress_cost_def worker_cost_def)
next
  case (probe_failed i s a e)
  then show ?case using cost_update [of i "eg_workers s" Done]
    by (simp add: egress_cost_def worker_cost_def record_failure_def)
qed

lemma egress_progress:
  assumes "\<not> egress_finished s"
  shows "\<exists>s'. egress_step probe ctx_error s s'"
proof -
  from assms obtain i where i: "i < length (eg_workers s)" "eg_workers s ! i \<noteq> Done"
    by (fastforce simp: egress_finished_def in_set_conv_nth)
  show ?thesis
  proof (cases "eg_workers s ! i")
    case Idle
    then show ?thesis using i by (cases "eg_jobs s") (auto intro: egress_step.intros)
  next
    case (Probing a)
    then show ?thesis using i by (cases "probe a") (auto intro: egress_step.intros)
  qed (use i in simp)
qed

text \<open>
  C20. The check always comes to an end: no interleaving of the workers goes on for ever, and a
  state in which no worker can move is one in which all have returned.
\<close>

theorem egress_terminates:
  "wfP (\<lambda>s' s. egress_step probe ctx_error s s')
   \<and> (\<forall>s. (\<forall>s'. \<not> egress_step probe ctx_error s s') \<longrightarrow> egress_finished s)"
proof
  have "{(s', s). egress_step probe ctx_error s s'} \<subseteq> measure egress_cost"
    by (auto dest: egress_cost_step)
  then show "wfP (\<lambda>s' s. egress_step probe ctx_error s s')"
    unfolding wfp_def by (rule wf_subset [OF wf_measure])
  show "\<forall>s. (\<forall>s'. \<not> egress_step probe ctx_error s s') \<longrightarrow> egress_finished s"
    using egress_progress by blast
qed

section \<open>Concrete runs\<close>

definition example_probe :: "addr \<Rightarrow> string option" where
  "example_probe a = (if a = V6 7 [] then Some ''unreachable'' else None)"

theorem egress_run_correct_witness:
  "\<exists>s. (egress_step example_probe ''canceled'')\<^sup>*\<^sup>* (egress_start [V6 7 []]) s
     \<and> egress_result s \<noteq> Inr () \<and> eg_failed s = Some (V6 7 [], ''unreachable'')"
proof -
  let ?s1 = "\<lparr>eg_jobs = [], eg_workers = [Probing (V6 7 [])], eg_failed = None\<rparr>"
  let ?s2 = "\<lparr>eg_jobs = [], eg_workers = [Done], eg_failed = Some (V6 7 [], ''unreachable'')\<rparr>"
  have s0: "egress_start [V6 7 []] = \<lparr>eg_jobs = [V6 7 []], eg_workers = [Idle], eg_failed = None\<rparr>"
    by (simp add: egress_start_def relayIPv6ProbeWorkers_def)
  have "egress_step example_probe ''canceled'' (egress_start [V6 7 []]) ?s1"
    using egress_step.take_job [of 0 "egress_start [V6 7 []]" "V6 7 []" "[]" example_probe "''canceled''"] by (simp add: s0)
  moreover have "egress_step example_probe ''canceled'' ?s1 ?s2"
    using egress_step.probe_failed [of 0 ?s1 "V6 7 []" example_probe "''unreachable''" "''canceled''"]
    by (simp add: example_probe_def record_failure_def)
  ultimately have run: "(egress_step example_probe ''canceled'')\<^sup>*\<^sup>* (egress_start [V6 7 []]) ?s2" by auto
  have "egress_finished ?s2" by (simp add: egress_finished_def)
  from egress_run_correct [OF run this] run show ?thesis by (auto simp: example_probe_def)
qed

theorem egress_terminates_witness:
  "egress_finished \<lparr>eg_jobs = [], eg_workers = [Done, Done], eg_failed = None\<rparr>"
proof -
  have "\<not> egress_step example_probe ''canceled'' \<lparr>eg_jobs = [], eg_workers = [Done, Done], eg_failed = None\<rparr> s'" for s'
    by (auto elim!: egress_stepE simp: nth_Cons cancelled_def split: nat.splits)
  with egress_terminates [of example_probe "''canceled''"] show ?thesis by blast
qed

end
