(* ===== verification/Relay_Summary.thy ===== *)
theory Relay_Summary
  imports Relay_Addresses
begin

text \<open>
  What the panel shows of the detected addresses (\<open>summarizeRelayIPv6\<close>): a bounded selection
  in which every interface is represented before any of them is shown twice.
\<close>

definition summary_limit :: "int \<Rightarrow> int" where
  "summary_limit limit = (if limit < 1 then relayIPv6DisplayLimit else limit)"

text \<open>The state of the first loop: a selection with different interfaces, as large as the limit allows.\<close>

definition first_inv :: "int \<Rightarrow> relay_ipv6 list \<Rightarrow> relay_ipv6 list \<times> string set \<times> string set \<Rightarrow> bool" where
  "first_inv limit seenItems st = (case st of (result, seen, selected) \<Rightarrow>
     seen = r6_Interface ` set result \<and> selected = ipv6_key ` set result \<and> distinct (map r6_Interface result)
     \<and> set result \<subseteq> set seenItems \<and> int (length result) \<le> limit
     \<and> (int (length result) = limit \<or> r6_Interface ` set seenItems = seen))"

lemma summary_first_inv: "0 \<le> limit \<Longrightarrow> first_inv limit available (summary_first limit available)"
proof (induction available rule: rev_induct)
  case Nil
  then show ?case by (simp add: first_inv_def summary_first_def)
next
  case (snoc item items)
  obtain result seen selected where st: "summary_first limit items = (result, seen, selected)"
    by (cases "summary_first limit items") auto
  have inv: "first_inv limit items (result, seen, selected)" using snoc st by simp
  have step: "summary_first limit (items @ [item]) =
      (if r6_Interface item \<in> seen \<or> int (length result) \<ge> limit then (result, seen, selected)
       else (result @ [item], insert (r6_Interface item) seen, insert (ipv6_key item) selected))"
    using st by (simp add: summary_first_def)
  show ?case using inv unfolding step by (auto simp: first_inv_def)
qed

definition rest_inv :: "int \<Rightarrow> relay_ipv6 list \<Rightarrow> relay_ipv6 list \<Rightarrow> relay_ipv6 list \<times> string set \<Rightarrow> bool" where
  "rest_inv limit result0 seenItems st = (case st of (result, selected) \<Rightarrow>
     selected = ipv6_key ` set result \<and> (\<exists>extra. result = result0 @ extra) \<and> distinct (map ipv6_key result)
     \<and> set result \<subseteq> set result0 \<union> set seenItems \<and> int (length result) \<le> limit
     \<and> (int (length result) = limit \<or> ipv6_key ` set seenItems \<subseteq> selected))"

lemma summary_rest_inv:
  assumes "int (length result0) \<le> limit" "distinct (map ipv6_key result0)"
  shows "rest_inv limit result0 items (summary_rest limit items (result0, ipv6_key ` set result0))"
proof (induction items rule: rev_induct)
  case Nil
  then show ?case using assms by (simp add: rest_inv_def summary_rest_def)
next
  case (snoc item items)
  obtain result selected where st: "summary_rest limit items (result0, ipv6_key ` set result0) = (result, selected)"
    by (cases "summary_rest limit items (result0, ipv6_key ` set result0)") auto
  have inv: "rest_inv limit result0 items (result, selected)" using snoc st by simp
  have step: "summary_rest limit (items @ [item]) (result0, ipv6_key ` set result0) =
      (if int (length result) \<ge> limit \<or> ipv6_key item \<in> selected then (result, selected)
       else (result @ [item], insert (ipv6_key item) selected))"
    using st by (simp add: summary_rest_def)
  show ?case using inv unfolding step by (auto simp: rest_inv_def)
qed

lemma key_interface: "distinct (map r6_Interface xs) \<Longrightarrow> inj_on ipv6_key A \<Longrightarrow> set xs \<subseteq> A \<Longrightarrow> distinct (map ipv6_key xs)"
  by (auto simp: distinct_map inj_on_subset)

text \<open>
  The selection shown holds only addresses that are not excluded, all of them when they
  fit; otherwise it has exactly as many as the limit, no address twice, and it covers every
  interface unless there are more interfaces than places. The total counts all of them.
\<close>

theorem summarizeRelayIPv6_selection:
  assumes avail: "available = filter (\<lambda>item. r6_Address item \<notin> excluded) addresses"
    and keys: "distinct (map ipv6_key available)"
    and res: "summarizeRelayIPv6 addresses excluded limit = (shown, count)"
  shows "count = int (length available) \<and> set shown \<subseteq> set available \<and> distinct (map ipv6_key shown)
    \<and> int (length shown) = min (summary_limit limit) count
    \<and> (int (card (r6_Interface ` set available)) \<le> summary_limit limit
        \<longrightarrow> r6_Interface ` set shown = r6_Interface ` set available)"
proof (cases "int (length available) \<le> summary_limit limit")
  case True
  then show ?thesis using res keys
    by (auto simp: summarizeRelayIPv6_def summary_limit_def Let_def avail split: if_splits)
next
  case False
  let ?l = "summary_limit limit"
  have l: "0 < ?l" by (simp add: summary_limit_def relayIPv6DisplayLimit_def)
  obtain result seen selected where st: "summary_first ?l available = (result, seen, selected)"
    by (cases "summary_first ?l available") auto
  have fi: "first_inv ?l available (result, seen, selected)" using summary_first_inv [of ?l available] l st by simp
  then have sel: "selected = ipv6_key ` set result" and sub: "set result \<subseteq> set available"
    and len: "int (length result) \<le> ?l" and dist: "distinct (map r6_Interface result)"
    and full: "int (length result) = ?l \<or> r6_Interface ` set available = r6_Interface ` set result"
    by (auto simp: first_inv_def)
  have inj: "inj_on ipv6_key (set available)" using keys by (simp add: distinct_map)
  obtain final sel' where fin: "summary_rest ?l available (result, ipv6_key ` set result) = (final, sel')"
    by (cases "summary_rest ?l available (result, ipv6_key ` set result)") auto
  have ri: "rest_inv ?l result available (final, sel')"
    using summary_rest_inv [OF len key_interface [OF dist inj sub], of available] fin by simp
  have shown: "shown = final" and count: "count = int (length available)"
    using res False st fin sel by (auto simp: summarizeRelayIPv6_def summary_limit_def Let_def avail split: if_splits)
  have fsub: "set final \<subseteq> set available" and fd: "distinct (map ipv6_key final)" and flen: "int (length final) \<le> ?l"
    and ex: "\<exists>extra. final = result @ extra"
    and ffull: "int (length final) = ?l \<or> ipv6_key ` set available \<subseteq> ipv6_key ` set final"
    using ri sub by (auto simp: rest_inv_def)
  have "int (length final) = ?l"
  proof (rule ccontr)
    assume "int (length final) \<noteq> ?l"
    then have "ipv6_key ` set available \<subseteq> ipv6_key ` set final" using ffull by blast
    then have "card (set (map ipv6_key available)) \<le> card (set (map ipv6_key final))"
      by (intro card_mono) auto
    then have "length available \<le> length final"
      using distinct_card [OF keys] distinct_card [OF fd] by simp
    with False flen show False by simp
  qed
  moreover have "r6_Interface ` set final = r6_Interface ` set available"
    if c: "int (card (r6_Interface ` set available)) \<le> ?l"
  proof -
    have "r6_Interface ` set result = r6_Interface ` set available"
    proof (cases "int (length result) = ?l")
      case True
      have "card (r6_Interface ` set result) = length result"
        using distinct_card [OF dist] by simp
      with True c have "card (r6_Interface ` set available) \<le> card (r6_Interface ` set result)" by simp
      then show ?thesis using sub by (intro card_seteq) auto
    qed (use full in blast)
    moreover have "set result \<subseteq> set final" using ex by auto
    ultimately show ?thesis using fsub by blast
  qed
  ultimately show ?thesis using fsub fd False by (simp add: shown count)
qed

definition example_addresses :: "relay_ipv6 list" where
  "example_addresses =
     [\<lparr>r6_Interface = ''eth0'', r6_Address = ''2001:db8::1'', r6_Prefix = 64\<rparr>,
      \<lparr>r6_Interface = ''eth0'', r6_Address = ''2001:db8::2'', r6_Prefix = 64\<rparr>,
      \<lparr>r6_Interface = ''eth0'', r6_Address = ''2001:db8::3'', r6_Prefix = 64\<rparr>,
      \<lparr>r6_Interface = ''eth1'', r6_Address = ''2001:db8:1::1'', r6_Prefix = 64\<rparr>]"

theorem summarizeRelayIPv6_selection_witness:
  "r6_Interface ` set (fst (summarizeRelayIPv6 example_addresses {''2001:db8::2''} 2)) = {''eth0'', ''eth1''}
   \<and> snd (summarizeRelayIPv6 example_addresses {''2001:db8::2''} 2) = 3"
proof -
  let ?avail = "filter (\<lambda>item. r6_Address item \<notin> {''2001:db8::2''}) example_addresses"
  have k: "distinct (map ipv6_key ?avail)" by (simp add: example_addresses_def ipv6_key_def)
  have i: "r6_Interface ` set ?avail = {''eth0'', ''eth1''}" "length ?avail = 3"
    by (auto simp: example_addresses_def)
  have l: "summary_limit 2 = 2" by (simp add: summary_limit_def)
  show ?thesis
    using summarizeRelayIPv6_selection [OF refl k prod.collapse [symmetric]] i l by simp
qed

end
