(* ===== verification/Tls_Pin.thy ===== *)
theory Tls_Pin
  imports Go_Base64 Netip
begin

text \<open>
  Certificate pins (\<^verbatim>\<open>util/tls_pin.go\<close>): a SHA-256 digest is written as base64 in sing-box
  configurations and as hexadecimal in share links, and users paste it in any of the base64
  alphabets or in hexadecimal with colons and capitals.
\<close>

definition sha256DigestLength :: nat where "sha256DigestLength = 32"

section \<open>Hexadecimal\<close>

definition hex_digit :: "int \<Rightarrow> char" where
  "hex_digit n = ''0123456789abcdef'' ! nat n"

definition hex_EncodeToString :: "string \<Rightarrow> string" where
  "hex_EncodeToString bs = concat (map (\<lambda>c. [hex_digit (byte c div 16), hex_digit (byte c mod 16)]) bs)"

fun hex_DecodeString :: "string \<Rightarrow> string option" where
  "hex_DecodeString [] = Some []"
| "hex_DecodeString [a] = None"
| "hex_DecodeString (a # b # r) =
     (case (hex_val a, hex_val b) of
        (Some x, Some y) \<Rightarrow> map_option (Cons (char_of (16 * x + y))) (hex_DecodeString r) | _ \<Rightarrow> None)"

section \<open>Pins\<close>

definition b64_decoders :: "(string \<Rightarrow> string option) list" where
  "b64_decoders = [b64_decode b64_std, b64_raw_decode b64_std, b64_decode b64_url, b64_raw_decode b64_url]"

definition digest_of :: "string option \<Rightarrow> bool" where
  "digest_of d = (case d of Some bs \<Rightarrow> length bs = sha256DigestLength | None \<Rightarrow> False)"

definition decodePinnedPeerCertSha256Base64 :: "string \<Rightarrow> string option" where
  "decodePinnedPeerCertSha256Base64 v =
     (case find digest_of (map (\<lambda>f. f v) b64_decoders) of Some d \<Rightarrow> d | None \<Rightarrow> None)"

definition decodePinnedPeerCertSha256Hex :: "string \<Rightarrow> (string \<times> string) option" where
  "decodePinnedPeerCertSha256Hex v =
     (let normalized = ToLower (ReplaceAll (TrimSpace v) '':'' []) in
      case hex_DecodeString normalized of
        Some d \<Rightarrow> if length d = sha256DigestLength then Some (d, normalized) else None
      | None \<Rightarrow> None)"

definition pinnedPeerCertSha256ForLink :: "string \<Rightarrow> string" where
  "pinnedPeerCertSha256ForLink v0 =
     (let v = TrimSpace v0 in
      if v = [] then []
      else case decodePinnedPeerCertSha256Base64 v of
        Some d \<Rightarrow> hex_EncodeToString d
      | None \<Rightarrow> (case decodePinnedPeerCertSha256Hex v of Some (_, normalized) \<Rightarrow> normalized | None \<Rightarrow> v))"

definition pinnedPeerCertSha256ForConfig :: "string \<Rightarrow> string" where
  "pinnedPeerCertSha256ForConfig v0 =
     (let v = TrimSpace v0 in
      if v = [] then []
      else case decodePinnedPeerCertSha256Base64 v of
        Some d \<Rightarrow> ByteToB64Str d
      | None \<Rightarrow> (case decodePinnedPeerCertSha256Hex v of Some (d, _) \<Rightarrow> ByteToB64Str d | None \<Rightarrow> v))"

section \<open>Round trips\<close>

lemma hex_digit_facts:
  assumes "0 \<le> n" "n < 16"
  shows "hex_val (hex_digit n) = Some n" "lower_char (hex_digit n) = hex_digit n" "hex_digit n \<noteq> CHR '':''"
    "\<not> is_space (hex_digit n)" "hex_digit n \<in> set b64_std" "hex_digit n \<in> set b64_url"
proof -
  have "n \<in> {0, 1, 2, 3, 4, 5, 6, 7, 8, 9, 10, 11, 12, 13, 14, 15}"
    using assms by (simp only: insert_iff empty_iff) presburger
  then show "hex_val (hex_digit n) = Some n" "lower_char (hex_digit n) = hex_digit n" "hex_digit n \<noteq> CHR '':''"
    "\<not> is_space (hex_digit n)" "hex_digit n \<in> set b64_std" "hex_digit n \<in> set b64_url"
    by (auto simp: hex_digit_def hex_val_def lower_char_def is_space_def b64_std_def b64_url_def)
qed

lemma byte_nibbles: "0 \<le> byte c div 16" "byte c div 16 < 16" "0 \<le> byte c mod 16" "byte c mod 16 < 16"
  using byte_range [of c] by simp_all

lemma hex_decode_encode: "hex_DecodeString (hex_EncodeToString bs) = Some bs"
  by (induction bs) (simp_all add: hex_EncodeToString_def hex_digit_facts byte_nibbles byte_range)

lemma length_hex_EncodeToString [simp]: "length (hex_EncodeToString bs) = 2 * length bs"
  by (induction bs) (simp_all add: hex_EncodeToString_def)

lemma hex_encoded_chars:
  assumes "c \<in> set (hex_EncodeToString bs)"
  shows "lower_char c = c \<and> c \<noteq> CHR '':'' \<and> \<not> is_space c \<and> c \<in> set b64_std \<and> c \<in> set b64_url"
  using assms by (auto simp: hex_EncodeToString_def hex_digit_facts byte_nibbles)

text \<open>Four base64 digits give three bytes, so sixty-four of them are never a digest.\<close>

lemma b64_val_mem: "c \<in> set al \<Longrightarrow> b64_val al c \<noteq> None"
proof -
  have "c \<in> set xs \<Longrightarrow> index_of c xs n \<noteq> None" for xs n
    by (induction xs arbitrary: n) auto
  then show "c \<in> set al \<Longrightarrow> b64_val al c \<noteq> None" by (simp add: b64_val_def)
qed

lemma b64_quads_length: "b64_quads al s = Some d \<Longrightarrow> CHR ''='' \<notin> set s \<Longrightarrow> 4 * length d = 3 * length s"
  by (induction al s arbitrary: d rule: b64_quads.induct)
    (auto split: option.splits if_splits)

lemma b64_raw_quads_length: "b64_raw_quads al s = Some d \<Longrightarrow> length d = 3 * (length s div 4) + (length s mod 4 - 1)"
proof (induction al s arbitrary: d rule: b64_raw_quads.induct)
  case (5 al a b c e r)
  then obtain d' where d': "b64_raw_quads al r = Some d'" "length d = 3 + length d'"
    by (auto split: option.splits)
  have "length (a # b # c # e # r) = length r + 4" by simp
  then have "length (a # b # c # e # r) div 4 = length r div 4 + 1" "length (a # b # c # e # r) mod 4 = length r mod 4"
    by presburger+
  with 5 d' show ?case by (simp split: option.splits)
qed (auto split: option.splits)

lemma no_equals: "CHR ''='' \<notin> set b64_std" "CHR ''='' \<notin> set b64_url"
  by (simp_all add: b64_std_def b64_url_def)

lemma hex_no_breaks: "filter (\<lambda>c. c \<noteq> CHR 0x0A \<and> c \<noteq> CHR 0x0D) (hex_EncodeToString bs) = hex_EncodeToString bs"
  using hex_encoded_chars [of _ bs] by (intro filter_True) (auto simp: is_space_def)

lemma hex_not_base64:
  assumes "length bs = sha256DigestLength"
  shows "decodePinnedPeerCertSha256Base64 (hex_EncodeToString bs) = None"
proof -
  let ?h = "hex_EncodeToString bs"
  have len: "length ?h = 64" using assms by (simp add: sha256DigestLength_def)
  have eq: "CHR ''='' \<notin> set ?h" using hex_encoded_chars [of "CHR ''=''" bs] no_equals by auto
  have a: "\<not> digest_of (b64_decode al ?h)" for al
    using b64_quads_length [OF _ eq, of al] len
    by (auto simp: digest_of_def b64_decode_def hex_no_breaks sha256DigestLength_def split: option.splits)
  have b: "\<not> digest_of (b64_raw_decode al ?h)" for al
    using b64_raw_quads_length [of al ?h] len
    by (auto simp: digest_of_def b64_raw_decode_def hex_no_breaks sha256DigestLength_def split: option.splits)
  show ?thesis by (simp add: decodePinnedPeerCertSha256Base64_def b64_decoders_def a b)
qed

lemma TrimSpace_none: "\<forall>c\<in>set s. \<not> is_space c \<Longrightarrow> TrimSpace s = s"
  unfolding TrimSpace_def by (rule trim_by_none) (simp add: list_all_iff)

lemma hex_trim: "TrimSpace (hex_EncodeToString bs) = hex_EncodeToString bs"
  using hex_encoded_chars by (intro TrimSpace_none) blast

lemma base64_trim: "TrimSpace (ByteToB64Str bs) = ByteToB64Str bs"
proof (rule TrimSpace_none)
  have "\<not> is_space c" if "c \<in> insert (CHR ''='') (set b64_std)" for c
    using that by (auto simp: b64_std_def is_space_def)
  then show "\<forall>c\<in>set (ByteToB64Str bs). \<not> is_space c"
    using b64_encode_chars [of b64_std bs] by (auto simp: ByteToB64Str_def)
qed

lemma base64_digest:
  assumes "length bs = sha256DigestLength"
  shows "decodePinnedPeerCertSha256Base64 (ByteToB64Str bs) = Some bs"
  using assms by (simp add: decodePinnedPeerCertSha256Base64_def b64_decoders_def ByteToB64Str_def
      b64_decode_encode digest_of_def)

lemma ReplaceAll_colon: "CHR '':'' \<notin> set s \<Longrightarrow> ReplaceAll s '':'' [] = s"
proof (induction s)
  case (Cons c s)
  then show ?case by (subst ReplaceAll.simps) (auto simp: HasPrefix_def)
qed (subst ReplaceAll.simps, simp)

lemma hex_digest:
  assumes "length bs = sha256DigestLength"
  shows "decodePinnedPeerCertSha256Hex (hex_EncodeToString bs) = Some (bs, hex_EncodeToString bs)"
proof -
  have "ReplaceAll (hex_EncodeToString bs) '':'' [] = hex_EncodeToString bs"
    using hex_encoded_chars [of "CHR '':''" bs] by (intro ReplaceAll_colon) blast
  moreover have "ToLower (hex_EncodeToString bs) = hex_EncodeToString bs"
    using hex_encoded_chars [of _ bs] by (auto simp: ToLower_def intro!: map_idI)
  ultimately show ?thesis
    using assms by (simp add: decodePinnedPeerCertSha256Hex_def hex_trim hex_decode_encode Let_def)
qed

text \<open>
  The two written forms of a certificate pin are converted into each other without loss:
  a digest in base64 or in hexadecimal gives the hexadecimal text in a link and the base64 text
  in a configuration, whichever of the two it came in.
\<close>

theorem pinned_roundtrip:
  assumes "length d = sha256DigestLength"
  shows "pinnedPeerCertSha256ForLink (ByteToB64Str d) = hex_EncodeToString d
    \<and> pinnedPeerCertSha256ForLink (hex_EncodeToString d) = hex_EncodeToString d
    \<and> pinnedPeerCertSha256ForConfig (hex_EncodeToString d) = ByteToB64Str d
    \<and> pinnedPeerCertSha256ForConfig (ByteToB64Str d) = ByteToB64Str d"
proof -
  have ne: "hex_EncodeToString d \<noteq> []" "ByteToB64Str d \<noteq> []"
  proof -
    have "length (hex_EncodeToString d) \<noteq> 0"
      using assms by (simp only: length_hex_EncodeToString sha256DigestLength_def)
    then show "hex_EncodeToString d \<noteq> []" by (simp only: length_0_conv not_False_eq_True)
    have "b64_decode b64_std (ByteToB64Str d) = Some d" by (simp add: ByteToB64Str_def b64_decode_encode)
    then show "ByteToB64Str d \<noteq> []"
      using assms by (auto simp: b64_decode_def sha256DigestLength_def)
  qed
  show ?thesis
    by (simp add: pinnedPeerCertSha256ForLink_def pinnedPeerCertSha256ForConfig_def Let_def hex_trim base64_trim ne
        hex_not_base64 [OF assms] base64_digest [OF assms] hex_digest [OF assms])
qed

theorem pinned_roundtrip_witness:
  "pinnedPeerCertSha256ForConfig (hex_EncodeToString (replicate 32 (CHR ''k''))) = ByteToB64Str (replicate 32 (CHR ''k''))"
  using pinned_roundtrip [of "replicate 32 (CHR ''k'')"] by (simp add: sha256DigestLength_def)

end
