(* ===== verification/Gen_Link.thy ===== *)
theory Gen_Link
  imports Db_Model Common_Util Go_Url Go_Json Tls_Pin
begin

text \<open>
  Share links (\<^verbatim>\<open>util/genLink.go\<close>): from an inbound, its TLS row and a client's configuration
  to the URIs a client application imports. A failed type assertion without the comma-ok form
  is the panic value. The certificate pin of a TLS configuration needs the file system and
  X.509 parsing, which are arguments of \<open>prepareTls\<close>.
\<close>

type_synonym link_param = "string \<times> string"

definition panic_conv :: "'a result" where
  "panic_conv = Inl ''panic: interface conversion''"

definition panic_nil :: "'a result" where
  "panic_nil = Inl ''panic: invalid memory address or nil pointer dereference''"

definition must_string :: "gval \<Rightarrow> string result" where
  "must_string v = (case v of GStr s \<Rightarrow> Inr s | _ \<Rightarrow> panic_conv)"

definition must_bool :: "gval \<Rightarrow> bool result" where
  "must_bool v = (case v of GBool b \<Rightarrow> Inr b | _ \<Rightarrow> panic_conv)"

text \<open>\<open>if s, ok := v.(string); ok { append(...) }\<close>\<close>

definition opt_param :: "string \<Rightarrow> gval \<Rightarrow> link_param list" where
  "opt_param key v = (case v of GStr s \<Rightarrow> [(key, s)] | _ \<Rightarrow> [])"

definition ne_param :: "string \<Rightarrow> gval \<Rightarrow> link_param list" where
  "ne_param key v = (case v of GStr s \<Rightarrow> if s = [] then [] else [(key, s)] | _ \<Rightarrow> [])"

section \<open>Parameters\<close>

definition removeLinkParam :: "link_param list \<Rightarrow> string \<Rightarrow> link_param list" where
  "removeLinkParam params key = filter (\<lambda>p. fst p \<noteq> key) params"

definition joinRemark :: "string \<Rightarrow> string \<Rightarrow> string" where
  "joinRemark clientRemark inboundRemark =
     (if clientRemark \<noteq> [] then clientRemark @ ''-'' @ inboundRemark else inboundRemark)"

definition hasLinkParam :: "link_param list \<Rightarrow> string \<Rightarrow> bool" where
  "hasLinkParam params key \<longleftrightarrow> list_ex (\<lambda>p. fst p = key) params"

definition ensurePinnedTLSClientCompatibility :: "link_param list \<Rightarrow> link_param list" where
  "ensurePinnedTLSClientCompatibility params =
     (if hasLinkParam params ''pcs'' \<and> \<not> hasLinkParam params ''insecure'' then params @ [(''insecure'', ''1'')] else params)"

definition encodeLinkParams :: "link_param list \<Rightarrow> string" where
  "encodeLinkParams params = Join (map (\<lambda>(k, v).
     if k = ''mport'' \<or> k = ''alpn'' then k @ ''='' @ v else k @ ''='' @ QueryEscape v) params) ''&''"

definition escapeLinkUserInfo :: "string \<Rightarrow> string" where
  "escapeLinkUserInfo v = ReplaceAll (QueryEscape v) ''+'' ''%20''"

text \<open>\<open>fmt.Sprintf("%.0f", f)\<close>: rounding half to even.\<close>

definition round_even :: "rat \<Rightarrow> int" where
  "round_even r = (let i = \<lfloor>r\<rfloor>; f = r - of_int i in
     if f < 1 / 2 then i else if f > 1 / 2 then i + 1 else if i mod 2 = 0 then i else i + 1)"

definition fmt_f0 :: "rat \<Rightarrow> string" where
  "fmt_f0 r = (if r < 0 then ''-'' @ Itoa (round_even (- r)) else Itoa (round_even r))"

definition addr_port :: "gmap \<Rightarrow> string" where
  "addr_port addr = fmt_f0 (as_float (mget addr ''server_port''))"

definition linkHostPort :: "gmap \<Rightarrow> string result" where
  "linkHostPort addr = bindr (must_string (mget addr ''server''))
     (\<lambda>s. Inr (JoinHostPort (Trim s ''[]'') (addr_port addr)))"

definition addRawParams :: "string \<Rightarrow> link_param list \<Rightarrow> string \<Rightarrow> string" where
  "addRawParams uri params remark =
     uri @ (if encodeLinkParams params = [] then [] else ''?'' @ encodeLinkParams params)
         @ (if remark = [] then [] else ''#'' @ PathEscape remark)"

definition addParams :: "string \<Rightarrow> link_param list \<Rightarrow> string \<Rightarrow> string result" where
  "addParams uri params remark = (case url_Parse uri of
     None \<Rightarrow> panic_nil
   | Some u \<Rightarrow> Inr (url_String (u\<lparr>u_RawQuery := encodeLinkParams params, u_Fragment := remark\<rparr>)))"

section \<open>TLS\<close>

definition getPinnedPeerCertSha256 :: "gmap \<Rightarrow> string" where
  "getPinnedPeerCertSha256 tls = (case mget tls ''pinned_peer_certificate_sha256'' of
     GList vs \<Rightarrow> (case find (\<lambda>v. as_str v \<noteq> []) vs of Some v \<Rightarrow> as_str v | None \<Rightarrow> [])
   | GStrs ss \<Rightarrow> (case find (\<lambda>s. s \<noteq> []) ss of Some s \<Rightarrow> s | None \<Rightarrow> [])
   | GStr s \<Rightarrow> s
   | _ \<Rightarrow> [])"

definition tls_plain_params :: "gmap \<Rightarrow> string \<Rightarrow> link_param list" where
  "tls_plain_params tls insecureKey =
     [(''security'', ''tls'')]
     @ (if as_bool (mget tls ''insecure'') then [(insecureKey, ''1'')] else [])
     @ (if as_bool (mget tls ''disable_sni'') then [(''disable_sni'', ''1'')] else [])"

definition tls_security_params :: "gmap \<Rightarrow> string \<Rightarrow> link_param list result" where
  "tls_security_params tls insecureKey = (case mget tls ''reality'' of
     GMap reality \<Rightarrow> bindr (must_bool (mget reality ''enabled'')) (\<lambda>enabled.
       if enabled then Inr ([(''security'', ''reality'')] @ opt_param ''pbk'' (mget reality ''public_key'')
                              @ opt_param ''sid'' (mget reality ''short_id''))
       else Inr (tls_plain_params tls insecureKey))
   | _ \<Rightarrow> Inr (tls_plain_params tls insecureKey))"

definition alpn_params :: "gmap \<Rightarrow> link_param list result" where
  "alpn_params tls = (case mget tls ''alpn'' of
     GList vs \<Rightarrow> bindr (mapr must_string vs) (\<lambda>ss. Inr [(''alpn'', Join ss '','')])
   | _ \<Rightarrow> Inr [])"

definition getTlsParams :: "link_param list \<Rightarrow> gmap \<Rightarrow> string \<Rightarrow> link_param list result" where
  "getTlsParams params tls insecureKey =
     bindr (tls_security_params tls insecureKey) (\<lambda>sec.
     bindr (alpn_params tls) (\<lambda>alpn.
       let pcs = getPinnedPeerCertSha256 tls in
       Inr (params @ sec
         @ (case mget tls ''utls'' of GMap utls \<Rightarrow> opt_param ''fp'' (mget utls ''fingerprint'') | _ \<Rightarrow> [])
         @ opt_param ''sni'' (mget tls ''server_name'') @ alpn
         @ (if pcs = [] then [] else [(''pcs'', pinnedPeerCertSha256ForLink pcs)]))))"

definition xrayPinSHA256ForLink :: "string \<Rightarrow> string" where
  "xrayPinSHA256ForLink v =
     (case decodePinnedPeerCertSha256Hex (pinnedPeerCertSha256ForLink v) of Some (_, n) \<Rightarrow> n | None \<Rightarrow> [])"

definition getXrayTlsParams :: "link_param list \<Rightarrow> gmap \<Rightarrow> string \<Rightarrow> link_param list result" where
  "getXrayTlsParams params tls insecureKey =
     bindr (getTlsParams params tls insecureKey) (\<lambda>ps.
       if hasLinkParam ps ''pcs'' then Inr ps
       else Inr (ps @ (case mget tls ''pinSHA256'' of
              GStr pin \<Rightarrow> if xrayPinSHA256ForLink pin = [] then [] else [(''pcs'', xrayPinSHA256ForLink pin)]
            | _ \<Rightarrow> [])))"

section \<open>Transports\<close>

definition getTransportParams :: "gval \<Rightarrow> link_param list result" where
  "getTransportParams t =
     (let tr = as_map t;
          ty = (case mget tr ''type'' of GStr s \<Rightarrow> s | _ \<Rightarrow> ''tcp'');
          base = (if ty = ''http'' then [(''type'', ''tcp''), (''headerType'', ''http'')] else [(''type'', ty)])
      in if ty = ''tcp'' then Inr base
         else if ty = ''http'' then
           bindr (case mget tr ''host'' of
                    GList vs \<Rightarrow> bindr (mapr must_string vs) (\<lambda>hs. Inr [(''host'', Join hs '','')])
                  | _ \<Rightarrow> Inr [])
             (\<lambda>host. Inr (base @ host @ opt_param ''path'' (mget tr ''path'')))
         else if ty = ''ws'' then
           Inr (base @ opt_param ''path'' (mget tr ''path'')
             @ (case mget tr ''headers'' of GMap h \<Rightarrow> opt_param ''host'' (mget h ''Host'') | _ \<Rightarrow> []))
         else if ty = ''grpc'' then Inr (base @ opt_param ''serviceName'' (mget tr ''service_name''))
         else if ty = ''httpupgrade'' then
           Inr (base @ opt_param ''host'' (mget tr ''host'') @ opt_param ''path'' (mget tr ''path''))
         else Inr base)"

definition getXrayTransportParams :: "gval \<Rightarrow> link_param list" where
  "getXrayTransportParams t =
     (let tr = as_map t;
          ty = (case mget tr ''type'' of GStr s \<Rightarrow> if s = [] then ''xhttp'' else s | _ \<Rightarrow> ''xhttp'');
          hp = ne_param ''host'' (mget tr ''host'') @ ne_param ''path'' (mget tr ''path'')
      in if ty = ''xhttp'' then (''type'', ty) # hp @ ne_param ''mode'' (mget tr ''mode'')
         else if ty = ''ws'' \<or> ty = ''httpupgrade'' then (''type'', ty) # hp
         else if ty = ''grpc'' then (''type'', ty) # opt_param ''serviceName'' (mget tr ''service_name'')
         else if ty = ''kcp'' \<or> ty = ''mkcp'' then [(''type'', ''kcp'')]
         else [(''type'', ty)])"

definition isTcpTransport :: "link_param list \<Rightarrow> bool" where
  "isTcpTransport params = (case map_of params ''type'' of
     Some v \<Rightarrow> v = ''tcp'' \<or> v = ''raw'' | None \<Rightarrow> True)"

section \<open>One link per address\<close>

text \<open>The \<^verbatim>\<open>tls\<close> entry of an address when it is a map.\<close>

definition addr_tls :: "gmap \<Rightarrow> gmap option" where
  "addr_tls addr = (case mget addr ''tls'' of GMap m \<Rightarrow> Some m | _ \<Rightarrow> None)"

definition addr_remark :: "gmap \<Rightarrow> string result" where
  "addr_remark addr = must_string (mget addr ''remark'')"

definition user_at :: "gmap \<Rightarrow> gmap \<Rightarrow> string result" where
  "user_at userConfig addr = bindr (linkHostPort addr) (\<lambda>hp.
     Inr (escapeLinkUserInfo (as_str (mget userConfig ''username'')) @ '':''
          @ escapeLinkUserInfo (as_str (mget userConfig ''password'')) @ ''@'' @ hp))"

definition socksLink :: "gmap \<Rightarrow> gmap list \<Rightarrow> string list result" where
  "socksLink userConfig addrs = mapr (\<lambda>addr. bindr (user_at userConfig addr) (\<lambda>u. Inr (''socks5://'' @ u))) addrs"

text \<open>The protocol text lives outside the loop: once an address has TLS it stays \<^verbatim>\<open>https\<close>.\<close>

fun http_links :: "string \<Rightarrow> gmap \<Rightarrow> gmap list \<Rightarrow> string list result" where
  "http_links protocol userConfig [] = Inr []"
| "http_links protocol userConfig (addr # addrs) =
     (let protocol' = (if mget addr ''tls'' \<noteq> GNil then ''https'' else protocol) in
      bindr (user_at userConfig addr) (\<lambda>u.
        map_sum id (Cons (protocol' @ ''://'' @ u)) (http_links protocol' userConfig addrs)))"

definition httpLink :: "gmap \<Rightarrow> gmap list \<Rightarrow> string list result" where
  "httpLink userConfig addrs = http_links ''http'' userConfig addrs"

type_synonym user_config = "(string \<times> gmap) list"

definition uget :: "user_config \<Rightarrow> string \<Rightarrow> gmap" where
  "uget uc k = (case map_of uc k of Some m \<Rightarrow> m | None \<Rightarrow> [])"

definition shadowsocksLink :: "user_config \<Rightarrow> gmap \<Rightarrow> gmap list \<Rightarrow> string list result" where
  "shadowsocksLink uc inb addrs =
     (let method = as_str (mget inb ''method'');
          inbPass = (if HasPrefix method ''2022'' then [as_str (mget inb ''password'')] else []);
          pass = as_str (mget (uget uc (if method = ''2022-blake3-aes-128-gcm'' then ''shadowsocks16'' else ''shadowsocks'')) ''password'');
          uriBase = ''ss://'' @ ByteToB64Str (method @ '':'' @ Join (inbPass @ [pass]) '':'')
      in mapr (\<lambda>addr. bindr (must_string (mget addr ''server'')) (\<lambda>server.
           bindr (addr_remark addr) (\<lambda>remark.
             Inr (uriBase @ ''@'' @ server @ '':'' @ addr_port addr @ ''#'' @ remark)))) addrs)"

definition tfo_param :: "string \<Rightarrow> gmap \<Rightarrow> link_param" where
  "tfo_param key inb = (key, if as_bool (mget inb ''tcp_fast_open'') then ''1'' else ''0'')"

definition opt_tls :: "gmap \<Rightarrow> (gmap \<Rightarrow> link_param list result) \<Rightarrow> link_param list result" where
  "opt_tls addr f = (case addr_tls addr of Some tls \<Rightarrow> f tls | None \<Rightarrow> Inr [])"

definition naive_params :: "gmap \<Rightarrow> link_param list result" where
  "naive_params tls = bindr (getTlsParams [] tls []) (\<lambda>ps.
     Inr (ps @ (case find (\<lambda>p. fst p = ''sni'') ps of Some p \<Rightarrow> [(''peer'', snd p)] | None \<Rightarrow> [])))"

definition naiveLink :: "gmap \<Rightarrow> gmap \<Rightarrow> gmap list \<Rightarrow> string list result" where
  "naiveLink userConfig inb addrs =
     mapr (\<lambda>addr. bindr (opt_tls addr naive_params) (\<lambda>ps.
       bindr (user_at userConfig addr) (\<lambda>u. bindr (addr_remark addr) (\<lambda>remark.
         Inr (addRawParams (''naive+https://'' @ u) (ps @ [tfo_param ''tfo'' inb]) remark))))) addrs"

definition mbps_param :: "string \<Rightarrow> gval \<Rightarrow> link_param list" where
  "mbps_param key v = (case v of GFloat r \<Rightarrow> [(key, fmt_f0 r)] | _ \<Rightarrow> [])"

definition mport_params :: "gmap \<Rightarrow> link_param list result" where
  "mport_params outJson = (case mget outJson ''server_ports'' of
     GList vs \<Rightarrow> bindr (mapr must_string vs) (\<lambda>ss. Inr [(''mport'', Join ss '','')])
   | _ \<Rightarrow> Inr [])"

text \<open>The address loops of the Hysteria links end with an empty list when \<^verbatim>\<open>out_json\<close> is no map.\<close>

definition hysteria_addr :: "gmap \<Rightarrow> gmap \<Rightarrow> gmap \<Rightarrow> gmap \<Rightarrow> string result" where
  "hysteria_addr userConfig inb outJson addr =
     bindr (opt_tls addr (\<lambda>tls. getTlsParams [] tls ''insecure'')) (\<lambda>tls.
     bindr (mport_params outJson) (\<lambda>mport.
     bindr (must_string (mget addr ''server'')) (\<lambda>server.
     bindr (addr_remark addr) (\<lambda>remark.
       addParams (''hysteria://'' @ server @ '':'' @ addr_port addr)
         (mbps_param ''downmbps'' (mget inb ''up_mbps'') @ mbps_param ''upmbps'' (mget inb ''down_mbps'')
          @ opt_param ''auth'' (mget userConfig ''auth_str'') @ tls @ opt_param ''obfs'' (mget inb ''obfs'')
          @ [tfo_param ''fastopen'' inb] @ mport) remark))))"

definition hysteria2_tls :: "gmap \<Rightarrow> link_param list result" where
  "hysteria2_tls tls = bindr (getTlsParams [] tls ''insecure'') (\<lambda>ps.
     let pin = pinnedPeerCertSha256ForLink (getPinnedPeerCertSha256 tls) in
     Inr (removeLinkParam ps ''pcs'' @ (if pin \<noteq> [] then [(''pinSHA256'', pin)] else ne_param ''pinSHA256'' (mget tls ''pinSHA256''))))"

definition hysteria2_addr :: "gmap \<Rightarrow> gmap \<Rightarrow> gmap \<Rightarrow> gmap \<Rightarrow> string result" where
  "hysteria2_addr userConfig inb outJson addr =
     bindr (case addr_tls addr of
              None \<Rightarrow> Inr (mbps_param ''downmbps'' (mget inb ''up_mbps'') @ mbps_param ''upmbps'' (mget inb ''down_mbps''))
            | Some tls \<Rightarrow> bindr (hysteria2_tls tls) (\<lambda>ps.
                Inr (mbps_param ''downmbps'' (mget inb ''up_mbps'') @ mbps_param ''upmbps'' (mget inb ''down_mbps'') @ ps)))
       (\<lambda>base. bindr (mport_params outJson) (\<lambda>mport.
     bindr (linkHostPort addr) (\<lambda>hp.
     bindr (addr_remark addr) (\<lambda>remark.
       Inr (addRawParams (''hysteria2://'' @ escapeLinkUserInfo (as_str (mget userConfig ''password'')) @ ''@'' @ hp)
         (base
          @ (case mget inb ''obfs'' of
               GMap obfs \<Rightarrow> opt_param ''obfs'' (mget obfs ''type'') @ opt_param ''obfs-password'' (mget obfs ''password'')
             | _ \<Rightarrow> [])
          @ [tfo_param ''fastopen'' inb] @ mport) remark)))))"

text \<open>
  \<open>outRaw\<close> is the raw column the map's \<^verbatim>\<open>out_json\<close> entry holds, or the failed assertion; it is
  looked at after the TLS parameters \<open>pre\<close> of the first address.
\<close>

definition with_out_json ::
    "(gmap \<Rightarrow> link_param list result) \<Rightarrow> raw result \<Rightarrow> (gmap \<Rightarrow> gmap \<Rightarrow> string result) \<Rightarrow> gmap list \<Rightarrow> string list result" where
  "with_out_json pre outRaw f addrs = (case addrs of
     [] \<Rightarrow> Inr []
   | first # _ \<Rightarrow> bindr (opt_tls first pre) (\<lambda>_. bindr outRaw (\<lambda>r.
       case decode_map r of None \<Rightarrow> Inr [] | Some oj \<Rightarrow> mapr (f oj) addrs)))"

definition hysteriaLink :: "gmap \<Rightarrow> gmap \<Rightarrow> raw result \<Rightarrow> gmap list \<Rightarrow> string list result" where
  "hysteriaLink userConfig inb outRaw addrs =
     with_out_json (\<lambda>tls. getTlsParams [] tls ''insecure'') outRaw (hysteria_addr userConfig inb) addrs"

definition hysteria2Link :: "gmap \<Rightarrow> gmap \<Rightarrow> raw result \<Rightarrow> gmap list \<Rightarrow> string list result" where
  "hysteria2Link userConfig inb outRaw addrs =
     with_out_json hysteria2_tls outRaw (hysteria2_addr userConfig inb) addrs"

definition pass_link :: "string \<Rightarrow> string \<Rightarrow> gmap \<Rightarrow> link_param list \<Rightarrow> string result" where
  "pass_link scheme user addr ps =
     bindr (linkHostPort addr) (\<lambda>hp. bindr (addr_remark addr) (\<lambda>remark.
       Inr (addRawParams (scheme @ ''://'' @ user @ ''@'' @ hp) ps remark)))"

definition anytlsLink :: "gmap \<Rightarrow> gmap list \<Rightarrow> string list result" where
  "anytlsLink userConfig addrs = mapr (\<lambda>addr.
     bindr (opt_tls addr (\<lambda>tls. map_sum id ensurePinnedTLSClientCompatibility (getTlsParams [] tls ''insecure''))) (\<lambda>ps.
       pass_link ''anytls'' (escapeLinkUserInfo (as_str (mget userConfig ''password''))) addr ps)) addrs"

definition tuic_tls :: "gmap \<Rightarrow> link_param list result" where
  "tuic_tls tls = bindr (getTlsParams [] tls ''insecure'') (\<lambda>ps0.
     let ps = ensurePinnedTLSClientCompatibility ps0 in
     Inr (if hasLinkParam ps ''alpn'' then ps else ps @ [(''alpn'', ''h3'')]))"

definition tuicLink :: "gmap \<Rightarrow> gmap \<Rightarrow> gmap list \<Rightarrow> string list result" where
  "tuicLink userConfig inb addrs = mapr (\<lambda>addr.
     bindr (opt_tls addr tuic_tls) (\<lambda>ps.
       pass_link ''tuic'' (escapeLinkUserInfo (as_str (mget userConfig ''uuid'')) @ '':''
           @ escapeLinkUserInfo (as_str (mget userConfig ''password'')))
         addr (ps @ opt_param ''congestion_control'' (mget inb ''congestion_control'')))) addrs"

text \<open>\<open>tls, ok := addr["tls"].(map...); ok && tls["enabled"].(bool)\<close>\<close>

definition enabled_tls :: "gmap \<Rightarrow> (gmap \<Rightarrow> link_param list result) \<Rightarrow> link_param list result" where
  "enabled_tls addr f = (case addr_tls addr of
     None \<Rightarrow> Inr []
   | Some tls \<Rightarrow> bindr (must_bool (mget tls ''enabled'')) (\<lambda>e. if e then f tls else Inr []))"

definition xray_tls :: "gmap \<Rightarrow> (gmap \<Rightarrow> link_param list result) \<Rightarrow> link_param list result" where
  "xray_tls addr f = (case addr_tls addr of
     None \<Rightarrow> Inr [] | Some tls \<Rightarrow> if as_bool (mget tls ''enabled'') then f tls else Inr [])"

definition id_link :: "string \<Rightarrow> string \<Rightarrow> gmap \<Rightarrow> link_param list \<Rightarrow> string result" where
  "id_link scheme uuid addr ps =
     bindr (must_string (mget addr ''server'')) (\<lambda>server. bindr (addr_remark addr) (\<lambda>remark.
       addParams (scheme @ ''://'' @ uuid @ ''@'' @ server @ '':'' @ addr_port addr) ps remark))"

definition vlessLink :: "gmap \<Rightarrow> gmap \<Rightarrow> gmap list \<Rightarrow> string list result" where
  "vlessLink userConfig inb addrs =
     bindr (getTransportParams (mget inb ''transport'')) (\<lambda>base. mapr (\<lambda>addr.
       bindr (enabled_tls addr (\<lambda>tls. bindr (getTlsParams [] tls ''allowInsecure'') (\<lambda>ps.
                Inr (ps @ opt_param ''flow'' (mget userConfig ''flow'')))))
         (\<lambda>ps. id_link ''vless'' (as_str (mget userConfig ''uuid'')) addr (base @ ps))) addrs)"

definition xrayVlessLink :: "gmap \<Rightarrow> gmap \<Rightarrow> gmap list \<Rightarrow> string list result" where
  "xrayVlessLink userConfig inb addrs =
     (let base = getXrayTransportParams (mget inb ''transport'') in mapr (\<lambda>addr.
       bindr (xray_tls addr (\<lambda>tls. bindr (getXrayTlsParams base tls ''allowInsecure'') (\<lambda>ps.
                Inr (drop (length base) ps
                  @ (if isTcpTransport ps then opt_param ''flow'' (mget userConfig ''flow'') else [])))))
         (\<lambda>ps. id_link ''vless'' (as_str (mget userConfig ''uuid'')) addr (base @ ps))) addrs)"

definition trojanLink :: "gmap \<Rightarrow> gmap \<Rightarrow> gmap list \<Rightarrow> string list result" where
  "trojanLink userConfig inb addrs =
     bindr (getTransportParams (mget inb ''transport'')) (\<lambda>base. mapr (\<lambda>addr.
       bindr (enabled_tls addr (\<lambda>tls. getTlsParams [] tls ''allowInsecure''))
         (\<lambda>ps. pass_link ''trojan'' (escapeLinkUserInfo (as_str (mget userConfig ''password''))) addr (base @ ps))) addrs)"

definition xrayTrojanLink :: "gmap \<Rightarrow> gmap \<Rightarrow> gmap list \<Rightarrow> string list result" where
  "xrayTrojanLink userConfig inb addrs =
     (let base = getXrayTransportParams (mget inb ''transport'') in mapr (\<lambda>addr.
       bindr (xray_tls addr (\<lambda>tls. map_sum id (drop (length base)) (getXrayTlsParams base tls ''allowInsecure'')))
         (\<lambda>ps. pass_link ''trojan'' (escapeLinkUserInfo (as_str (mget userConfig ''password''))) addr (base @ ps))) addrs)"

section \<open>VMess\<close>

text \<open>The switch over the TLS parameters; \<open>pin\<close> says whether \<^verbatim>\<open>pinSHA256\<close> is written as well.\<close>

definition vmess_tls_param :: "bool \<Rightarrow> gmap \<Rightarrow> link_param \<Rightarrow> gmap" where
  "vmess_tls_param pin obj p =
     (let (k, v) = p in
      if k = ''allowInsecure'' then mput obj ''allowInsecure'' (GInt 1)
      else if k = ''sni'' \<or> k = ''fp'' \<or> k = ''alpn'' then mput obj k (GStr v)
      else if k = ''pcs'' then mput (if pin then mput obj ''pinSHA256'' (GStr v) else obj) ''pcs'' (GStr v)
      else obj)"

definition populateVmessTlsParams :: "gmap \<Rightarrow> gval \<Rightarrow> gmap result" where
  "populateVmessTlsParams obj tlsConfig = (case tlsConfig of
     GMap tls \<Rightarrow> bindr (must_bool (mget tls ''enabled'')) (\<lambda>e.
       if e then bindr (getTlsParams [] tls ''allowInsecure'') (\<lambda>ps.
              Inr (foldl (vmess_tls_param False) (mput obj ''tls'' (GStr ''tls'')) ps))
       else Inr (mput obj ''tls'' (GStr ''none'')))
   | _ \<Rightarrow> Inr (mput obj ''tls'' (GStr ''none'')))"

definition populateXrayVmessTlsParams :: "gmap \<Rightarrow> gval \<Rightarrow> gmap result" where
  "populateXrayVmessTlsParams obj tlsConfig = (case tlsConfig of
     GMap tls \<Rightarrow> bindr (must_bool (mget tls ''enabled'')) (\<lambda>e.
       if e then bindr (getXrayTlsParams [] tls ''allowInsecure'') (\<lambda>ps.
              Inr (foldl (vmess_tls_param True) (mput obj ''tls'' (GStr ''tls'')) ps))
       else Inr (mput obj ''tls'' (GStr ''none'')))
   | _ \<Rightarrow> Inr (mput obj ''tls'' (GStr ''none'')))"

text \<open>A parameter that occurs more than once keeps its last value.\<close>

definition last_param :: "link_param list \<Rightarrow> string \<Rightarrow> string" where
  "last_param ps key = (case map_of (rev ps) key of Some v \<Rightarrow> v | None \<Rightarrow> [])"

definition put_ne :: "string \<Rightarrow> string \<Rightarrow> gmap \<Rightarrow> gmap" where
  "put_ne key v obj = (if v = [] then obj else mput obj key (GStr v))"

definition vmess_obj :: "gmap \<Rightarrow> gmap \<Rightarrow> gmap" where
  "vmess_obj base addr =
     mput (mput (mput base ''add'' (GStr (as_str (mget addr ''server''))))
       ''port'' (GStr (addr_port addr))) ''ps'' (GStr (as_str (mget addr ''remark'')))"

definition vmess_uri :: "gmap \<Rightarrow> string" where
  "vmess_uri obj = ''vmess://'' @ ByteToB64Str (json_Marshal (GMap obj))"

definition vmessLink :: "gmap \<Rightarrow> gmap \<Rightarrow> gmap list \<Rightarrow> string list result" where
  "vmessLink userConfig inb addrs =
     bindr (getTransportParams (mget inb ''transport'')) (\<lambda>tp.
       let base = [(''v'', GStr ''2''), (''id'', GStr (as_str (mget userConfig ''uuid''))), (''aid'', GInt 0),
                   (''net'', GStr (last_param tp ''type''))]
       in mapr (\<lambda>addr. bindr (populateVmessTlsParams
              (put_ne ''path'' (last_param tp ''path'') (put_ne ''host'' (last_param tp ''host'')
                (put_ne ''type'' (last_param tp ''headerType'') (vmess_obj base addr)))) (mget addr ''tls''))
            (\<lambda>obj. Inr (vmess_uri obj))) addrs)"

definition xrayVmessLink :: "gmap \<Rightarrow> gmap \<Rightarrow> gmap list \<Rightarrow> string list result" where
  "xrayVmessLink userConfig inb addrs =
     (let tp = getXrayTransportParams (mget inb ''transport'');
          net0 = last_param tp ''type'';
          net = (if net0 = [] \<or> net0 = ''raw'' then ''tcp'' else net0);
          base = put_ne ''mode'' (last_param tp ''mode'') (put_ne ''path'' (last_param tp ''serviceName'')
            (put_ne ''path'' (last_param tp ''path'') (put_ne ''host'' (last_param tp ''host'')
              [(''v'', GStr ''2''), (''id'', GStr (as_str (mget userConfig ''uuid''))), (''aid'', GInt 0),
               (''net'', GStr net)])))
      in mapr (\<lambda>addr. bindr (populateXrayVmessTlsParams (vmess_obj base addr) (mget addr ''tls''))
            (\<lambda>obj. Inr (vmess_uri obj))) addrs)"

section \<open>The generator\<close>

text \<open>
  The operating system side of a TLS row: reading the certificate file, the fingerprint of a
  PEM text (\<open>CertSha256Hex\<close>: empty when it holds no certificate), and the random choice of a
  short id.
\<close>

record link_env =
  le_ReadFile :: "string \<Rightarrow> string option"
  le_CertSha256Hex :: "string \<Rightarrow> string"
  le_Choose :: "nat \<Rightarrow> nat"

definition CertPEMFromTLS :: "link_env \<Rightarrow> gmap \<Rightarrow> string" where
  "CertPEMFromTLS env tlsConfig =
     (let from_file = (case mget tlsConfig ''certificate_path'' of
            GStr path \<Rightarrow> if path = [] then [] else (case le_ReadFile env path of Some d \<Rightarrow> d | None \<Rightarrow> [])
          | _ \<Rightarrow> [])
      in case mget tlsConfig ''certificate'' of
           GStr s \<Rightarrow> if s \<noteq> [] then s else from_file
         | GList ls \<Rightarrow>
             (let strs = map as_str (filter (\<lambda>v. case v of GStr _ \<Rightarrow> True | _ \<Rightarrow> False) ls) in
              if strs \<noteq> [] then Join strs [CHR 0x0A] else from_file)
         | _ \<Rightarrow> from_file)"

text \<open>The server's Reality block in the client's: enabled and a random short id.\<close>

definition client_reality :: "link_env \<Rightarrow> gmap \<Rightarrow> gval \<Rightarrow> gmap result" where
  "client_reality env oTls v = (case (v, mget oTls ''reality'') of
     (GMap reality, GMap c0) \<Rightarrow>
       (let c1 = mput c0 ''enabled'' (mget reality ''enabled'');
            c2 = (case mget reality ''short_id'' of
              GList ids \<Rightarrow> if ids = [] then c1
                          else mput c1 ''short_id'' (ids ! (le_Choose env (length ids) mod length ids))
            | _ \<Rightarrow> c1)
        in Inr (mput oTls ''reality'' (GMap c2)))
   | _ \<Rightarrow> panic_conv)"

fun merge_server_tls :: "link_env \<Rightarrow> gmap \<Rightarrow> gmap \<Rightarrow> gmap result" where
  "merge_server_tls env oTls [] = Inr oTls"
| "merge_server_tls env oTls ((k, v) # rest) =
     (if k = ''enabled'' \<or> k = ''server_name'' \<or> k = ''alpn'' then merge_server_tls env (mput oTls k v) rest
      else if k = ''reality'' then bindr (client_reality env oTls v) (\<lambda>o'. merge_server_tls env o' rest)
      else merge_server_tls env oTls rest)"

definition prepareTls :: "link_env \<Rightarrow> tls_row \<Rightarrow> gmap result" where
  "prepareTls env t = (case (decode_map (tls_Client t), decode_map (tls_Server t)) of
     (Some oTls, Some iTls) \<Rightarrow>
       (let pin = le_CertSha256Hex env (CertPEMFromTLS env iTls);
            o1 = (if mget oTls ''certificate_public_key_sha256'' \<noteq> GNil \<and> pin \<noteq> []
                  then mput oTls ''pinSHA256'' (GStr pin) else oTls)
        in if decode (tls_Client t) = Some GNil \<and> list_ex (\<lambda>(k, _). k \<in> {''enabled'', ''server_name'', ''alpn'', ''reality''}) iTls
           then Inl ''panic: assignment to entry in nil map'' else merge_server_tls env o1 iTls)
   | _ \<Rightarrow> Inr [])"

definition decode_user_config :: "raw \<Rightarrow> user_config option" where
  "decode_user_config r = (case decode_map r of
     None \<Rightarrow> None
   | Some m \<Rightarrow>
       if list_all (\<lambda>(_, v). case v of GMap _ \<Rightarrow> True | GNil \<Rightarrow> True | _ \<Rightarrow> False) m
       then Some (map (\<lambda>(k, v). (k, as_map v)) (filter (\<lambda>(_, v). v \<noteq> GNil) m)) else None)"

fun firstUserConfig :: "user_config \<Rightarrow> string list \<Rightarrow> gmap" where
  "firstUserConfig uc [] = []"
| "firstUserConfig uc (k # ks) = (case map_of uc k of Some m \<Rightarrow> m | None \<Rightarrow> firstUserConfig uc ks)"

text \<open>The addresses with their remark and TLS: the inbound's own when it lists none.\<close>

definition link_addr :: "nat \<Rightarrow> gmap \<Rightarrow> string \<Rightarrow> string \<Rightarrow> gmap \<Rightarrow> gmap" where
  "link_addr tlsId tls clientRemark tag addr =
     (let a1 = mput addr ''remark'' (GStr (joinRemark clientRemark (tag @ as_str (mget addr ''remark'')))) in
      if tlsId > 0 then
        mput a1 ''tls'' (GMap (case mget addr ''tls'' of GMap own \<Rightarrow> mmerge tls own | _ \<Rightarrow> tls))
      else a1)"

definition link_addrs :: "inbound \<Rightarrow> gmap \<Rightarrow> gmap \<Rightarrow> string \<Rightarrow> string \<Rightarrow> gmap list \<Rightarrow> gmap list" where
  "link_addrs i inb tls hostname clientRemark addrs =
     (if addrs = [] then
        [[(''server'', GStr hostname), (''server_port'', mget inb ''listen_port''),
          (''remark'', GStr (joinRemark clientRemark (in_Tag i)))]
         @ (if in_TlsId i > 0 then [(''tls'', GMap tls)] else [])]
      else map (link_addr (in_TlsId i) tls clientRemark (in_Tag i)) addrs)"

definition xray_links :: "string \<Rightarrow> user_config \<Rightarrow> gmap \<Rightarrow> raw result \<Rightarrow> gmap list \<Rightarrow> string list result" where
  "xray_links ty uc inb outRaw addrs =
     (let socks = firstUserConfig uc [''socks'', ''mixed'']; http = firstUserConfig uc [''http'', ''mixed''] in
      if ty = ''socks'' then socksLink socks addrs
      else if ty = ''http'' then httpLink http addrs
      else if ty = ''mixed'' then
        bindr (socksLink socks addrs) (\<lambda>s. map_sum id ((@) s) (httpLink http addrs))
      else if ty = ''shadowsocks'' then shadowsocksLink uc inb addrs
      else if ty = ''vless'' then xrayVlessLink (uget uc ''vless'') inb addrs
      else if ty = ''vmess'' then xrayVmessLink (uget uc ''vmess'') inb addrs
      else if ty = ''trojan'' then xrayTrojanLink (uget uc ''trojan'') inb addrs
      else if ty = ''hysteria2'' then hysteria2Link (uget uc ''hysteria2'') inb outRaw addrs
      else Inr [])"

definition singbox_links :: "string \<Rightarrow> user_config \<Rightarrow> gmap \<Rightarrow> raw result \<Rightarrow> gmap list \<Rightarrow> string list result" where
  "singbox_links ty uc inb outRaw addrs =
     (if ty = ''socks'' then socksLink (uget uc ''socks'') addrs
      else if ty = ''http'' then httpLink (uget uc ''http'') addrs
      else if ty = ''mixed'' then
        bindr (socksLink (uget uc ''socks'') addrs) (\<lambda>s. map_sum id ((@) s) (httpLink (uget uc ''http'') addrs))
      else if ty = ''shadowsocks'' then shadowsocksLink uc inb addrs
      else if ty = ''naive'' then naiveLink (uget uc ''naive'') inb addrs
      else if ty = ''hysteria'' then hysteriaLink (uget uc ''hysteria'') inb outRaw addrs
      else if ty = ''hysteria2'' then hysteria2Link (uget uc ''hysteria2'') inb outRaw addrs
      else if ty = ''tuic'' then tuicLink (uget uc ''tuic'') inb addrs
      else if ty = ''vless'' then vlessLink (uget uc ''vless'') inb addrs
      else if ty = ''anytls'' then anytlsLink (uget uc ''anytls'') addrs
      else if ty = ''trojan'' then trojanLink (uget uc ''trojan'') inb addrs
      else if ty = ''vmess'' then vmessLink (uget uc ''vmess'') inb addrs
      else Inr [])"

definition has_nil_map :: "raw \<Rightarrow> bool" where
  "has_nil_map r = (case r of RVal (GList xs) \<Rightarrow> GNil \<in> set xs | _ \<Rightarrow> False)"

definition LinkGenerator :: "link_env \<Rightarrow> raw \<Rightarrow> inbound \<Rightarrow> string \<Rightarrow> string \<Rightarrow> string list result" where
  "LinkGenerator env clientConfig i hostname clientRemark =
     (case MarshalFull i of
        Inl _ \<Rightarrow> Inr []
      | Inr inb \<Rightarrow>
          bindr (if in_TlsId i > 0 then (case in_Tls i of None \<Rightarrow> panic_nil | Some t \<Rightarrow> prepareTls env t) else Inr [])
            (\<lambda>tls. case (decode_user_config clientConfig, decode_maps (in_Addrs i)) of
               (Some uc, Some addrs0) \<Rightarrow>
                 if has_nil_map (in_Addrs i) then Inl ''panic: assignment to entry in nil map''
                 else
                   let addrs = link_addrs i inb tls hostname clientRemark addrs0;
                       outRaw = (case in_Options i of
                           RVal (GMap m) \<Rightarrow> if mhas m ''out_json'' then panic_conv else Inr (in_OutJson i)
                         | _ \<Rightarrow> Inr (in_OutJson i))
                   in (if RuntimeCore i = CoreTypeXray then xray_links else singbox_links) (in_Type i) uc inb outRaw addrs
             | _ \<Rightarrow> Inr []))"

end
