(* ===== verification/Link_Roundtrip.thy ===== *)
theory Link_Roundtrip
  imports Gen_Link Relay_Exports
begin

text \<open>
  The SOCKS share links of the panel (\<open>socksLink\<close>) read by the upstream parser of another one.
\<close>

lemma ReplaceAll_char: "ReplaceAll s [c] new = concat (map (\<lambda>x. if x = c then new else [x]) s)"
proof (induction s)
  case (Cons x s)
  show ?case by (subst ReplaceAll.simps) (auto simp: HasPrefix_def Cons.IH)
qed (subst ReplaceAll.simps, simp)

text \<open>The escaping of one byte: as in a query, but a space is \<^verbatim>\<open>%20\<close>.\<close>

definition link_escape_char :: "char \<Rightarrow> string" where
  "link_escape_char c = (if c = CHR '' '' then ''%20'' else escape_char EncQuery c)"

lemma upper_hex_plus: "0 \<le> n \<Longrightarrow> n < 16 \<Longrightarrow> upper_hex n \<noteq> CHR ''+''"
  using hex_val_upper_hex [of n] by (auto simp: hex_val_def)

lemma escapeLinkUserInfo_chars: "escapeLinkUserInfo s = concat (map link_escape_char s)"
proof -
  let ?f = "\<lambda>x. if x = CHR ''+'' then ''%20'' else [x]"
  have "concat (map ?f (escape_char EncQuery c)) = link_escape_char c" for c
  proof -
    have "0 \<le> (of_char c :: int) div 16 \<and> (of_char c :: int) div 16 < 16" using of_char_range [of c] by auto
    moreover have "\<not> shouldEscape c EncQuery \<Longrightarrow> c \<noteq> CHR ''+''" "shouldEscape (CHR '' '') EncQuery"
      by (auto simp: shouldEscape_def is_unreserved_def is_alnum_def)
    ultimately show ?thesis
      using upper_hex_plus [of "(of_char c :: int) div 16"] upper_hex_plus [of "(of_char c :: int) mod 16"]
      by (auto simp: link_escape_char_def escape_char_def Let_def)
  qed
  then have "concat (map ?f (concat (map (escape_char EncQuery) s))) = concat (map link_escape_char s)"
    by (induction s) auto
  then show ?thesis
    by (simp add: escapeLinkUserInfo_def QueryEscape_def url_escape_def ReplaceAll_char)
qed

lemma escapeLinkUserInfo_encoded: "encoded_cred (escapeLinkUserInfo s) s"
proof -
  have step: "url_unescape EncUser (link_escape_char c @ r) = map_option (Cons c) (url_unescape EncUser r)" for c r
  proof (cases "shouldEscape c EncQuery \<and> c \<noteq> CHR '' ''")
    case True
    then show ?thesis
      by (simp add: link_escape_char_def escape_char_def Let_def hex2_upper escape_allowed_def)
  next
    case False
    moreover have "shouldEscape (CHR ''%'') EncQuery" "shouldEscape (CHR ''+'') EncQuery"
      by (simp_all add: shouldEscape_def is_unreserved_def is_alnum_def)
    moreover have "char_of (32 :: int) = CHR '' ''" by code_simp
    ultimately show ?thesis
      by (auto simp: link_escape_char_def escape_char_def hex2_def hex_val_def escape_allowed_def)
  qed
  have "url_unescape EncUser (concat (map link_escape_char s)) = Some s"
    by (induction s) (simp_all add: step)
  moreover have "is_alnum c \<or> c \<in> set ''%-_.~$&+,;=''" if "c \<in> set (link_escape_char x)" for c x
  proof -
    have un: "is_alnum x \<or> x \<in> set ''-_.~''" if "\<not> shouldEscape x EncQuery"
      using that by (simp add: shouldEscape_def is_unreserved_def split: if_splits)
    have d: "is_alnum (CHR ''2'')" "is_alnum (CHR ''0'')" by (simp_all add: is_alnum_def)
    have "0 \<le> (of_char x :: int) div 16 \<and> (of_char x :: int) div 16 < 16" using of_char_range [of x] by auto
    then have h: "is_alnum (upper_hex ((of_char x :: int) div 16))" "is_alnum (upper_hex ((of_char x :: int) mod 16))"
      by (simp_all add: is_alnum_upper_hex)
    consider "x = CHR '' ''" | "x \<noteq> CHR '' ''" "shouldEscape x EncQuery" | "x \<noteq> CHR '' ''" "\<not> shouldEscape x EncQuery" by blast
    then show ?thesis
    proof cases
      case 1
      then have "c \<in> set ''%20''" using that by (simp add: link_escape_char_def)
      then show ?thesis using d by auto
    next
      case 2
      then have "c = CHR ''%'' \<or> c = upper_hex (of_char x div 16) \<or> c = upper_hex (of_char x mod 16)"
        using that by (simp add: link_escape_char_def escape_char_def Let_def)
      then show ?thesis using h by auto
    next
      case 3
      then have "c = x" using that by (simp add: link_escape_char_def escape_char_def)
      then show ?thesis using un 3(2) by auto
    qed
  qed
  ultimately show ?thesis
    unfolding escapeLinkUserInfo_chars by (auto simp: encoded_cred_def list_all_iff)
qed

definition socks_addr :: "string \<Rightarrow> int \<Rightarrow> gmap" where
  "socks_addr h port = [(''server'', GStr h), (''server_port'', GFloat (of_int port))]"

definition socks_user :: "string \<Rightarrow> string \<Rightarrow> gmap" where
  "socks_user user pass = [(''username'', GStr user), (''password'', GStr pass)]"

lemma addr_port_of_int: "0 \<le> port \<Longrightarrow> mget addr ''server_port'' = GFloat (of_int port) \<Longrightarrow> addr_port addr = Itoa port"
  by (simp add: addr_port_def fmt_f0_def round_even_def)

text \<open>
  The share links of a SOCKS inbound, one per address, are accepted by the upstream parser
  and give back each address with the client's own user name and password, whatever bytes the
  credentials hold.
\<close>

theorem socks_links_import:
  assumes "list_all (\<lambda>(h, port). export_host h \<and> 1 \<le> port \<and> port \<le> 65535) eps"
  shows "\<exists>links. socksLink (socks_user user pass) (map (\<lambda>(h, port). socks_addr h port) eps) = Inr links
    \<and> map parseRelayUpstreamLine links = map (\<lambda>(h, port). Inr (upstream h port user pass)) eps"
  using assms
proof (induction eps)
  case Nil
  show ?case by (simp add: socksLink_def)
next
  case (Cons ep eps)
  obtain h port where ep: "ep = (h, port)" by (cases ep)
  with Cons obtain links where l: "mapr (\<lambda>addr. bindr (user_at (socks_user user pass) addr) (\<lambda>u. Inr (''socks5://'' @ u)))
      (map (\<lambda>(h, port). socks_addr h port) eps) = Inr links"
    "map parseRelayUpstreamLine links = map (\<lambda>(h, port). Inr (upstream h port user pass)) eps"
    by (auto simp: socksLink_def)
  have h: "export_host h" and p: "1 \<le> port" "port \<le> 65535" using Cons.prems by (simp_all add: ep)
  have t: "Trim h ''[]'' = h" using trim_host [OF export_host_chars [OF h]] by simp
  have port: "addr_port (socks_addr h port) = Itoa port"
    by (rule addr_port_of_int) (use p in \<open>simp_all add: socks_addr_def\<close>)
  have "user_at (socks_user user pass) (socks_addr h port)
      = Inr (escapeLinkUserInfo user @ '':'' @ escapeLinkUserInfo pass @ ''@'' @ JoinHostPort h (Itoa port))"
    using port t by (simp add: user_at_def linkHostPort_def socks_user_def socks_addr_def must_string_def)
  moreover have "parseRelayUpstreamLine (''socks5://'' @ escapeLinkUserInfo user @ '':'' @ escapeLinkUserInfo pass
      @ ''@'' @ JoinHostPort h (Itoa port)) = Inr (upstream h port user pass)"
    using uri_line_parsed [OF h p escapeLinkUserInfo_encoded escapeLinkUserInfo_encoded, of user pass] by simp
  ultimately show ?case using l by (simp add: socksLink_def ep)
qed

theorem socks_links_import_witness:
  "\<exists>links. socksLink (socks_user ''us er'' ''p+w/:@'') [socks_addr ''a.example'' 1080, socks_addr ''2001:db8::7'' 40001] = Inr links
    \<and> map parseRelayUpstreamLine links =
        [Inr (upstream ''a.example'' 1080 ''us er'' ''p+w/:@''), Inr (upstream ''2001:db8::7'' 40001 ''us er'' ''p+w/:@'')]"
proof -
  have "list_all (\<lambda>(h, port). export_host h \<and> 1 \<le> port \<and> port \<le> 65535) [(''a.example'', 1080 :: int), (''2001:db8::7'', 40001)]"
    by code_simp
  from socks_links_import [OF this, of "''us er''" "''p+w/:@''"] show ?thesis by simp
qed

text \<open>
  The protocol of an HTTP link leaks from one address to the next: an address without TLS
  that follows one with TLS is written as \<^verbatim>\<open>https\<close>, although alone it is written as \<^verbatim>\<open>http\<close>.
\<close>

theorem httpLink_protocol_leaks:
  assumes "mget a ''tls'' \<noteq> GNil" "mget b ''tls'' = GNil"
    and "user_at cfg a = Inr ua" "user_at cfg b = Inr ub"
  shows "httpLink cfg [a, b] = Inr [''https://'' @ ua, ''https://'' @ ub] \<and> httpLink cfg [b] = Inr [''http://'' @ ub]"
  using assms by (simp add: httpLink_def Let_def)

theorem httpLink_protocol_leaks_witness:
  "httpLink (socks_user ''u'' ''p'') [(''tls'', GMap []) # socks_addr ''a'' 443, socks_addr ''b'' 80]
     = Inr [''https://u:p@a:443'', ''https://u:p@b:80'']"
proof -
  have "user_at (socks_user ''u'' ''p'') ((''tls'', GMap []) # socks_addr ''a'' 443) = Inr ''u:p@a:443''"
    "user_at (socks_user ''u'' ''p'') (socks_addr ''b'' 80) = Inr ''u:p@b:80''"
    by code_simp+
  moreover have "mget ((''tls'', GMap []) # socks_addr ''a'' 443) ''tls'' \<noteq> GNil" "mget (socks_addr ''b'' 80) ''tls'' = GNil"
    by (simp_all add: socks_addr_def)
  ultimately show ?thesis
    using httpLink_protocol_leaks [of "(''tls'', GMap []) # socks_addr ''a'' 443" "socks_addr ''b'' 80"] by simp
qed

end
