(* ===== verification/Link_Import.thy ===== *)
theory Link_Import
  imports Link_Roundtrip
begin

text \<open>
  Share links read back (\<^verbatim>\<open>util/linkToJson.go\<close>, \<^verbatim>\<open>util/subToJson.go\<close>): from the URI of another
  panel to the outbound of a sing-box configuration. The request for the text of a
  subscription is an argument; the error of a JSON or base64 text is reported as such, the
  library's own wording is not represented.
\<close>

section \<open>Numbers\<close>

text \<open>
  \<open>n, _ := strconv.Atoi(s)\<close>: zero when the text is no number, the nearest 64-bit integer when it
  is out of range.
\<close>

definition Atoi_val :: "string \<Rightarrow> int" where
  "Atoi_val s =
     (let (neg, ds) = (case s of
          [] \<Rightarrow> (False, [])
        | c # r \<Rightarrow> if c = CHR ''-'' then (True, r) else if c = CHR ''+'' then (False, r) else (False, s))
      in case parse_uint ds of
           None \<Rightarrow> 0
         | Some n \<Rightarrow> if neg then max (- (2 ^ 63)) (- n) else min (2 ^ 63 - 1) n)"

text \<open>The host and the port of a link: both are empty when \<open>net.SplitHostPort\<close> fails.\<close>

definition link_host :: "url \<Rightarrow> string" where
  "link_host u = (case SplitHostPort (u_Host u) of Some (h, _) \<Rightarrow> h | None \<Rightarrow> [])"

definition link_port_text :: "url \<Rightarrow> string" where
  "link_port_text u = (case SplitHostPort (u_Host u) of Some (_, p) \<Rightarrow> p | None \<Rightarrow> [])"

definition link_port :: "url \<Rightarrow> int \<Rightarrow> int" where
  "link_port u fallback = (if link_port_text u = [] then fallback else Atoi_val (link_port_text u))"

definition link_tag :: "url \<Rightarrow> int \<Rightarrow> string" where
  "link_tag u i = (if i > 0 then Itoa i @ ''.'' @ u_Fragment u else u_Fragment u)"

definition is_on :: "string \<Rightarrow> bool" where
  "is_on v \<longleftrightarrow> v = ''1'' \<or> v = ''true''"

section \<open>Transport and TLS\<close>

definition split_hosts :: "string \<Rightarrow> gmap" where
  "split_hosts h = (if h = [] then [] else [(''host'', GStrs (Split h (CHR '','')))])"

definition header_host :: "string \<Rightarrow> gmap" where
  "header_host h = (if h = [] then [] else [(''headers'', GMap [(''Host'', GStr h)])])"

definition import_transport :: "string \<Rightarrow> (string \<times> string) list \<Rightarrow> gmap" where
  "import_transport tp_type q =
     (let host = query_Get q ''host''; path = query_Get q ''path''; t = ToLower tp_type in
      if t = ''tcp'' \<or> t = [] then
        (if query_Get q ''headerType'' = ''http''
         then (''type'', GStr ''http'') # split_hosts host @ [(''path'', GStr path)] else [])
      else if t = ''http'' \<or> t = ''h2'' then (''type'', GStr ''http'') # split_hosts host @ [(''path'', GStr path)]
      else if t = ''ws'' then [(''type'', GStr ''ws''), (''path'', GStr path)] @ header_host host
      else if t = ''quic'' then [(''type'', GStr ''quic'')]
      else if t = ''grpc'' then [(''type'', GStr ''grpc''), (''service_name'', GStr (query_Get q ''serviceName''))]
      else if t = ''httpupgrade'' then
        [(''type'', GStr ''httpupgrade''), (''path'', GStr path), (''host'', GStr host)]
      else [])"

definition import_utls :: "string \<Rightarrow> gmap" where
  "import_utls fp = (if fp = [] then []
     else [(''utls'', GMap [(''enabled'', GBool True), (''fingerprint'', GStr fp)])])"

definition import_security :: "string \<Rightarrow> (string \<times> string) list \<Rightarrow> gmap" where
  "import_security security q =
     (if security = ''tls'' then [(''enabled'', GBool True)]
      else if security = ''reality'' then
        [(''enabled'', GBool True),
         (''reality'', GMap [(''enabled'', GBool True), (''public_key'', GStr (query_Get q ''pbk'')),
            (''short_id'', GStr (query_Get q ''sid''))])]
      else [])"

definition split_alpn :: "string \<Rightarrow> gmap" where
  "split_alpn a = (if a = [] then [] else [(''alpn'', GStrs (Split a (CHR '','')))])"

definition link_pin :: "(string \<times> string) list \<Rightarrow> string" where
  "link_pin q = (if query_Get q ''pcs'' = [] then query_Get q ''pinSHA256'' else query_Get q ''pcs'')"

definition import_tls :: "string \<Rightarrow> (string \<times> string) list \<Rightarrow> gmap" where
  "import_tls security q =
     import_security security q
     @ (if query_Get q ''sni'' = [] then [] else [(''server_name'', GStr (query_Get q ''sni''))])
     @ split_alpn (query_Get q ''alpn'')
     @ (if is_on (query_Get q ''insecure'') \<or> is_on (query_Get q ''allowInsecure'') then [(''insecure'', GBool True)] else [])
     @ import_utls (query_Get q ''fp'')
     @ (if query_Get q ''ech'' = [] then []
        else [(''ech'', GMap [(''enabled'', GBool True), (''config'', GStrs [query_Get q ''ech''])])])
     @ (if is_on (query_Get q ''disable_sni'') then [(''disable_sni'', GBool True)] else [])
     @ (let pin = pinnedPeerCertSha256ForConfig (link_pin q) in
        if pin = [] then [] else [(''pinned_peer_certificate_sha256'', GStrs [pin])])"

section \<open>The protocols\<close>

type_synonym imported = "(gmap \<times> string) result"

definition link_base :: "string \<Rightarrow> url \<Rightarrow> int \<Rightarrow> int \<Rightarrow> gmap" where
  "link_base ty u i fallback =
     [(''type'', GStr ty), (''tag'', GStr (link_tag u i)), (''server'', GStr (link_host u)),
      (''server_port'', GInt (link_port u fallback))]"

definition secure_port :: "string \<Rightarrow> int" where
  "secure_port security = (if security = ''tls'' \<or> security = ''reality'' then 443 else 80)"

definition default_tls :: "(string \<times> string) list \<Rightarrow> string" where
  "default_tls q = (if query_Get q ''security'' = [] then ''tls'' else query_Get q ''security'')"

definition import_vless :: "url \<Rightarrow> int \<Rightarrow> imported" where
  "import_vless u i =
     (let q = url_Query u; security = query_Get q ''security'' in
      Inr (link_base ''vless'' u i (secure_port security)
        @ [(''uuid'', GStr (url_Username u)), (''flow'', GStr (query_Get q ''flow'')),
           (''tls'', GMap (import_tls security q)), (''transport'', GMap (import_transport (query_Get q ''type'') q))],
        link_tag u i))"

definition import_trojan :: "url \<Rightarrow> int \<Rightarrow> imported" where
  "import_trojan u i =
     (let q = url_Query u; security = query_Get q ''security'' in
      Inr (link_base ''trojan'' u i (secure_port security)
        @ [(''password'', GStr (url_Username u)),
           (''tls'', GMap (import_tls security q)), (''transport'', GMap (import_transport (query_Get q ''type'') q))],
        link_tag u i))"

definition positive_entry :: "string \<Rightarrow> string \<Rightarrow> gmap" where
  "positive_entry key v = (if Atoi_val v > 0 then [(key, GInt (Atoi_val v))] else [])"

definition import_hy :: "url \<Rightarrow> int \<Rightarrow> imported" where
  "import_hy u i =
     (let q = url_Query u in
      Inr (link_base ''hysteria'' u i 443
        @ [(''obfs'', GStr (query_Get q ''obfsParam'')), (''auth_str'', GStr (query_Get q ''auth'')),
           (''tls'', GMap (import_tls (default_tls q) q))]
        @ positive_entry ''down_mbps'' (query_Get q ''downmbps'') @ positive_entry ''up_mbps'' (query_Get q ''upmbps'')
        @ positive_entry ''recv_window_conn'' (query_Get q ''recv_window_conn'')
        @ positive_entry ''recv_window'' (query_Get q ''recv_window''),
        link_tag u i))"

definition import_hy2 :: "url \<Rightarrow> int \<Rightarrow> imported" where
  "import_hy2 u i =
     (let q = url_Query u; mport = ReplaceAll (query_Get q ''mport'') ''-'' '':'' in
      Inr (link_base ''hysteria2'' u i 443
        @ [(''password'', GStr (url_Username u)), (''tls'', GMap (import_tls (default_tls q) q))]
        @ positive_entry ''down_mbps'' (query_Get q ''downmbps'') @ positive_entry ''up_mbps'' (query_Get q ''upmbps'')
        @ (if query_Get q ''obfs'' = ''salamander''
           then [(''obfs'', GMap [(''type'', GStr ''salamander''), (''password'', GStr (query_Get q ''obfs-password''))])]
           else [])
        @ (if mport = [] then [] else [(''server_ports'', GStrs (Split mport (CHR '','')))])
        @ (if is_on (query_Get q ''fastopen'') then [(''fastopen'', GBool True)] else []),
        link_tag u i))"

definition import_anytls :: "url \<Rightarrow> int \<Rightarrow> imported" where
  "import_anytls u i =
     (let q = url_Query u in
      Inr (link_base ''anytls'' u i 443
        @ [(''password'', GStr (url_Username u)), (''tls'', GMap (import_tls (default_tls q) q))],
        link_tag u i))"

definition import_tuic :: "url \<Rightarrow> int \<Rightarrow> imported" where
  "import_tuic u i =
     (let q = url_Query u in
      Inr (link_base ''tuic'' u i 443
        @ [(''uuid'', GStr (url_Username u)), (''password'', GStr (url_Password u)),
           (''congestion_control'', GStr (query_Get q ''congestion_control'')),
           (''udp_relay_mode'', GStr (query_Get q ''udp_relay_mode'')), (''tls'', GMap (import_tls (default_tls q) q))],
        link_tag u i))"

text \<open>Shadowsocks: the user information in the clear, or in base64 without a password of its own.\<close>

definition ss_credentials :: "url \<Rightarrow> (string \<times> string) option" where
  "ss_credentials u = (case u_User u of
     Some (m, Some p) \<Rightarrow> Some (m, p)
   | _ \<Rightarrow> (case Split (StrOrBase64Encoded (url_Username u)) (CHR '':'') of
       m # p # ps \<Rightarrow> Some (m, Join (p # ps) '':'') | _ \<Rightarrow> None))"

definition ss_v2ray :: "(string \<times> string) list \<Rightarrow> gmap" where
  "ss_v2ray q = (if query_Get q ''type'' = [] then []
     else [(''plugin'', GStr ''v2ray-plugin''),
           (''plugin_opts'', GStr (Join ((if query_Get q ''security'' = ''tls'' then [''tls''] else [])
              @ (if query_Get q ''type'' = ''quic'' then [''mode=quic''] else [])
              @ (if query_Get q ''host'' = [] then [] else [''host='' @ query_Get q ''host''])) '';''))])"

definition ss_plugin :: "(string \<times> string) list \<Rightarrow> gmap \<Rightarrow> gmap" where
  "ss_plugin q m = (if query_Get q ''plugin'' = [] then m
     else case Split (query_Get q ''plugin'') (CHR '';'') of
       [] \<Rightarrow> m
     | p # ps \<Rightarrow> mput (mput m ''plugin'' (GStr p)) ''plugin_opts'' (GStr (Join ps '';'')))"

definition import_ss :: "url \<Rightarrow> int \<Rightarrow> imported" where
  "import_ss u i =
     (let q = url_Query u in
      case ss_credentials u of
        None \<Rightarrow> Inl (''Unsupported shadowsocks'' @ newline)
      | Some (m, p) \<Rightarrow>
          Inr (ss_plugin q (link_base ''shadowsocks'' u i 443 @ [(''method'', GStr m), (''password'', GStr p)] @ ss_v2ray q),
               link_tag u i))"

record naive_parts =
  np_host :: string
  np_port :: int
  np_user :: string
  np_pass :: string

definition naive_endpoint :: "string \<Rightarrow> string \<times> int" where
  "naive_endpoint hp = (case SplitHostPort hp of
     Some (h, p) \<Rightarrow> (h, if p = [] then 443 else Atoi_val p) | None \<Rightarrow> ([], 443))"

definition naive_link_parts :: "url \<Rightarrow> naive_parts result" where
  "naive_link_parts u =
     (if u_Scheme u = ''http2'' then
        (case Cut (StrOrBase64Encoded (url_Hostname u)) ''@'' of
           None \<Rightarrow> Inl (''Invalid naive link (http2)'' @ newline)
         | Some (info, hp) \<Rightarrow>
             let (user, pass) = cut_or info '':''; (h, p) = naive_endpoint hp
             in Inr \<lparr>np_host = h, np_port = p, np_user = user, np_pass = pass\<rparr>)
      else if u_Scheme u = ''naive+https'' \<or> u_Scheme u = ''naive+quic'' then
        (let (h, p) = naive_endpoint (u_Host u)
         in Inr \<lparr>np_host = h, np_port = p, np_user = url_Username u, np_pass = url_Password u\<rparr>)
      else Inl (''Unsupported naive scheme'' @ newline))"

definition naive_tls :: "(string \<times> string) list \<Rightarrow> gmap" where
  "naive_tls q =
     (let peer = (if query_Get q ''sni'' = [] then query_Get q ''peer'' else query_Get q ''sni'') in
      [(''enabled'', GBool True)] @ (if peer = [] then [] else [(''server_name'', GStr peer)])
      @ (if is_on (query_Get q ''insecure'') then [(''insecure'', GBool True)] else [])
      @ split_alpn (query_Get q ''alpn'')
      @ (if query_Get q ''pcs'' = [] then [] else [(''pinned_peer_certificate_sha256'', GStrs [query_Get q ''pcs''])]))"

definition parseNaiveLink :: "url \<Rightarrow> int \<Rightarrow> imported" where
  "parseNaiveLink u i = bindr (naive_link_parts u) (\<lambda>p.
     let tag = (if link_tag u i = [] then ''naive-'' @ Itoa i else link_tag u i) in
     Inr ([(''type'', GStr ''naive''), (''tag'', GStr tag), (''server'', GStr (np_host p)),
           (''server_port'', GInt (np_port p)), (''username'', GStr (np_user p)), (''password'', GStr (np_pass p)),
           (''tls'', GMap (naive_tls (url_Query u)))]
          @ (if u_Scheme u = ''naive+quic'' then [(''quic'', GBool True)] else []), tag))"

section \<open>VMess\<close>

text \<open>The host part of a VMess link is the base64 text of a JSON object.\<close>

definition json_to_map :: "string \<Rightarrow> gmap option" where
  "json_to_map s = (case json_Unmarshal s of Some v \<Rightarrow> decode_map (RVal v) | None \<Rightarrow> None)"

definition vmess_transport :: "gmap \<Rightarrow> gmap result" where
  "vmess_transport d =
     (let net = as_str (mget d ''net''); host = as_str (mget d ''host''); path = as_str (mget d ''path'');
          t = ToLower net; ty = as_str (mget d ''type'') in
      if t = ''tcp'' \<or> t = [] then
        Inr (if ty = ''http'' then (''type'', GStr ty) # split_hosts host @ [(''path'', GStr path)] else [])
      else if t = ''http'' \<or> t = ''h2'' then Inr ((''type'', GStr ''http'') # split_hosts host @ [(''path'', GStr path)])
      else if t = ''ws'' then
        Inr ([(''type'', GStr net), (''path'', GStr path), (''early_data_header_name'', GStr ''Sec-WebSocket-Protocol'')]
             @ header_host host)
      else if t = ''quic'' then Inr [(''type'', GStr net)]
      else if t = ''grpc'' then Inr [(''type'', GStr net), (''service_name'', GStr path)]
      else if t = ''httpupgrade'' then Inr [(''type'', GStr net), (''path'', GStr path), (''host'', GStr host)]
      else Inl (''Invalid vmess'' @ newline))"

definition vmess_tls :: "gmap \<Rightarrow> gmap" where
  "vmess_tls d =
     (if as_str (mget d ''tls'') \<noteq> ''tls'' then []
      else [(''enabled'', GBool True)]
        @ (if as_str (mget d ''sni'') = [] then [] else [(''server_name'', GStr (as_str (mget d ''sni'')))])
        @ split_alpn (as_str (mget d ''alpn''))
        @ (if mhas d ''allowInsecure'' then [(''insecure'', GBool True)] else [])
        @ import_utls (as_str (mget d ''fp'')))"

definition import_vmess :: "string \<Rightarrow> int \<Rightarrow> imported" where
  "import_vmess data i =
     (case B64StrToByte data of
        None \<Rightarrow> Inl ''illegal base64 data''
      | Some bytes \<Rightarrow> (case json_to_map bytes of
          None \<Rightarrow> Inl ''invalid JSON''
        | Some d \<Rightarrow> bindr (vmess_transport d) (\<lambda>transport.
            let name = as_str (mget d ''ps''); tag = (if i > 0 then Itoa i @ ''.'' @ name else name) in
            Inr ([(''type'', GStr ''vmess''), (''tag'', GStr tag), (''server'', mget d ''add''),
                  (''server_port'', mget d ''port''), (''uuid'', mget d ''id''), (''security'', GStr ''auto''),
                  (''alter_id'', GInt (trunc_rat (as_float (mget d ''aid'')))),
                  (''tls'', GMap (vmess_tls d)), (''transport'', GMap transport)], tag))))"

section \<open>The dispatcher and subscriptions\<close>

definition GetOutbound :: "string \<Rightarrow> int \<Rightarrow> imported" where
  "GetOutbound uri i =
     (case url_Parse uri of
        None \<Rightarrow> Inl (''Unsupported link format'' @ newline)
      | Some u \<Rightarrow>
          let s = u_Scheme u in
          if s = ''vmess'' then import_vmess (u_Host u) i
          else if s = ''vless'' then import_vless u i
          else if s = ''trojan'' then import_trojan u i
          else if s = ''hy'' \<or> s = ''hysteria'' then import_hy u i
          else if s = ''hy2'' \<or> s = ''hysteria2'' then import_hy2 u i
          else if s = ''anytls'' then import_anytls u i
          else if s = ''tuic'' then import_tuic u i
          else if s = ''ss'' \<or> s = ''shadowsocks'' then import_ss u i
          else if s = ''naive+https'' \<or> s = ''naive+quic'' \<or> s = ''http2'' then parseNaiveLink u i
          else Inl (''Unsupported link format'' @ newline))"

text \<open>
  \<open>GetExternalLink\<close>: \<^const>\<open>None\<close> of the request is any network error. An \<^verbatim>\<open>outbounds\<close> entry that is
  no list ends with no error and no outbounds.
\<close>

definition GetExternalLink :: "(string \<Rightarrow> string option) \<Rightarrow> string \<Rightarrow> string" where
  "GetExternalLink http_get uri = (case http_get uri of None \<Rightarrow> [] | Some body \<Rightarrow> StrOrBase64Encoded body)"

definition group_types :: "string list" where
  "group_types = [''urltest'', ''direct'', ''selector'', ''block'']"

definition listed_outbounds :: "gval list \<Rightarrow> gmap list" where
  "listed_outbounds outs = map as_map (filter (\<lambda>o1. case o1 of
     GMap m \<Rightarrow> m \<noteq> [] \<and> as_str (mget m ''type'') \<notin> set group_types | _ \<Rightarrow> False) outs)"

definition imported_lines :: "string \<Rightarrow> gmap list" where
  "imported_lines data = concat (map (\<lambda>line. case GetOutbound line 0 of Inr (m, _) \<Rightarrow> [m] | Inl _ \<Rightarrow> []) (Split data (CHR 0x0A)))"

definition none_found :: "gmap list \<Rightarrow> gmap list result" where
  "none_found ms = (if ms = [] then Inl (''no result'' @ newline) else Inr ms)"

definition GetExternalSub :: "(string \<Rightarrow> string option) \<Rightarrow> string \<Rightarrow> gmap list result" where
  "GetExternalSub http_get uri =
     (if uri = [] then Inl (''no url'' @ newline)
      else let data = GetExternalLink http_get uri in
        if data = [] then Inl (''no result'' @ newline)
        else if HasPrefix data ''{'' \<and> HasSuffix data ''}'' then
          (case json_to_map data of
             None \<Rightarrow> Inl ''invalid JSON''
           | Some m \<Rightarrow> (case mget m ''outbounds'' of
               GList outs \<Rightarrow> none_found (listed_outbounds outs) | _ \<Rightarrow> Inr []))
        else none_found (imported_lines data))"

end
