(* ===== verification/Share_Roundtrip.thy ===== *)
theory Share_Roundtrip
  imports Link_Import
begin

text \<open>
  The share links of Trojan, AnyTLS, TUIC and VLESS inbounds read by the importer of another
  panel: the outbound that comes out names the address, the credentials, the TLS settings and
  the transport the link was generated from.
\<close>

section \<open>Parsing a generated link\<close>

definition plain_scheme :: "string \<Rightarrow> bool" where
  "plain_scheme s \<longleftrightarrow> s \<noteq> [] \<and> list_all is_scheme_char s \<and> is_letter (s ! 0) \<and> ToLower s = s"

definition plain_text :: "string \<Rightarrow> bool" where
  "plain_text s \<longleftrightarrow> list_all (\<lambda>c. c \<notin> set ''#?/@'' \<and> \<not> is_ctl c) s"

definition plain_query :: "string \<Rightarrow> bool" where
  "plain_query q \<longleftrightarrow> list_all (\<lambda>c. c \<noteq> CHR ''#'' \<and> \<not> is_ctl c) q"

definition query_part :: "string \<Rightarrow> string" where
  "query_part q = (if q = [] then [] else ''?'' @ q)"

definition fragment_part :: "string \<Rightarrow> string" where
  "fragment_part f = (if f = [] then [] else ''#'' @ f)"

lemma plain_scheme_not:
  assumes "plain_scheme s" "c \<in> set s"
  shows "c \<notin> set ''#?/:@'' \<and> \<not> is_ctl c"
proof -
  have "is_scheme_char c" using assms by (simp add: plain_scheme_def list_all_iff)
  then show ?thesis by (auto simp: is_scheme_char_def is_alnum_def is_ctl_def Let_def)
qed

lemma getScheme_plain:
  assumes "plain_scheme s"
  shows "getScheme (s @ '':'' @ r) = Some (s, r)"
proof -
  have all: "\<forall>c\<in>set s. is_scheme_char c" using assms by (simp add: plain_scheme_def list_all_iff)
  have no: "\<not> is_scheme_char (CHR '':'')" by (simp add: is_scheme_char_def is_alnum_def)
  have "dropWhile is_scheme_char (s @ '':'' @ r) = '':'' @ r" "takeWhile is_scheme_char (s @ '':'' @ r) = s"
    using all no by (simp_all add: dropWhile_append3 takeWhile_append2)
  moreover have "s @ '':'' @ r \<noteq> '':'' @ r" "is_letter (hd (s @ '':'' @ r))"
    using assms by (simp_all add: plain_scheme_def hd_append hd_conv_nth)
  ultimately show ?thesis by (simp add: getScheme_def)
qed

lemma cut_or_first: "c \<notin> set a \<Longrightarrow> cut_or (a @ c # b) [c] = (a, b)"
  by (simp add: cut_or_def Cut_append_first)

lemma cut_or_none: "c \<notin> set a \<Longrightarrow> cut_or a [c] = (a, [])"
  by (simp add: cut_or_def Cut_None_notin)

lemma cut_or_fragment: "CHR ''#'' \<notin> set a \<Longrightarrow> cut_or (a @ fragment_part f) ''#'' = (a, f)"
  using cut_or_first [of "CHR ''#''" a f] cut_or_none [of "CHR ''#''" a] by (simp add: fragment_part_def)

lemma cut_or_query: "CHR ''?'' \<notin> set a \<Longrightarrow> cut_or (a @ query_part q) ''?'' = (a, q)"
  using cut_or_first [of "CHR ''?''" a q] cut_or_none [of "CHR ''?''" a] by (simp add: query_part_def)

lemma hostport_plain:
  assumes "export_host h" "0 \<le> port"
  shows "plain_text (JoinHostPort h (Itoa port))"
proof -
  have c: "list_all host_char h" by (rule export_host_chars [OF assms(1)])
  have "c \<notin> set ''#?/@'' \<and> \<not> is_ctl c" if "c \<in> set (JoinHostPort h (Itoa port))" for c
    using JoinHostPort_chars [OF c assms(2) that] host_char_not [of c] by (auto simp: is_ctl_def)
  then show ?thesis by (simp add: plain_text_def list_all_iff)
qed

lemma link_authority:
  assumes h: "export_host h" and p: "0 \<le> port" and ui: "plain_text ui" "url_parseUser ui = Some user"
  defines "hp \<equiv> JoinHostPort h (Itoa port)"
  shows "url_parse_rest scheme (''//'' @ ui @ ''@'' @ hp) q = Some
    \<lparr>u_Scheme = scheme, u_User = Some user, u_Host = hp, u_Path = [], u_RawPath = [], u_Opaque = [],
     u_RawQuery = q, u_Fragment = []\<rparr>"
proof -
  let ?rest = "ui @ ''@'' @ hp"
  have hp: "plain_text hp" unfolding hp_def by (rule hostport_plain [OF h p])
  then have at: "CHR ''@'' \<notin> set hp" by (auto simp: plain_text_def list_all_iff)
  have "\<forall>c\<in>set ?rest. c \<noteq> CHR ''/''" using ui(1) hp by (auto simp: plain_text_def list_all_iff)
  then have tk: "takeWhile (\<lambda>c. c \<noteq> CHR ''/'') ?rest = ?rest" "dropWhile (\<lambda>c. c \<noteq> CHR ''/'') ?rest = []"
    by (simp_all only: takeWhile_eq_all_conv dropWhile_eq_Nil_conv)
  have "cut_last (CHR ''@'') ?rest = Some (ui, hp)"
    using cut_last_append [OF at, of ui] by simp
  then have auth: "url_parseAuthority ?rest = Some (Some user, hp)"
    using url_host_endpoint(1) [OF h p] ui(2) by (simp add: url_parseAuthority_def hp_def)
  have drop: "drop 2 (''//'' @ ?rest) = ?rest" by simp
  have "HasPrefix (''//'' @ ?rest) ''/''" "HasPrefix (''//'' @ ?rest) ''//''"
    "scheme \<noteq> [] \<or> \<not> HasPrefix (''//'' @ ?rest) ''///''"
    using hp ui(1) by (cases ui; auto simp: HasPrefix_def plain_text_def)+
  then show ?thesis
    unfolding url_parse_rest_def drop tk auth Let_def by (simp add: set_path_def url_escape_def)
qed

lemma link_parsed:
  assumes s: "plain_scheme scheme" and h: "export_host h" and p: "0 \<le> port"
    and ui: "plain_text ui" "url_parseUser ui = Some user"
    and q: "plain_query q" and f: "url_unescape EncFragment f = Some frag"
  defines "hp \<equiv> JoinHostPort h (Itoa port)"
  shows "url_Parse (scheme @ ''://'' @ ui @ ''@'' @ hp @ query_part q @ fragment_part f) = Some
    \<lparr>u_Scheme = scheme, u_User = Some user, u_Host = hp, u_Path = [], u_RawPath = [], u_Opaque = [],
     u_RawQuery = q, u_Fragment = frag\<rparr>"
proof -
  let ?base = "''//'' @ ui @ ''@'' @ hp"
  have hp: "plain_text hp" unfolding hp_def by (rule hostport_plain [OF h p])
  have sc: "CHR ''#'' \<notin> set scheme" "list_all (\<lambda>c. \<not> is_ctl c) scheme"
    using plain_scheme_not [OF s] by (auto simp: list_all_iff)
  have ctl: "\<not> is_ctl c" if "c \<in> set '':/@?''" for c using that by (auto simp: is_ctl_def)
  have a: "CHR ''#'' \<notin> set ((scheme @ '':'' @ ?base) @ query_part q)"
    using sc ui(1) hp q by (auto simp: plain_text_def plain_query_def query_part_def list_all_iff)
  have b: "CHR ''?'' \<notin> set ?base" using ui(1) hp by (auto simp: plain_text_def list_all_iff)
  have "list_all (\<lambda>c. \<not> is_ctl c) ui" "list_all (\<lambda>c. \<not> is_ctl c) hp" "list_all (\<lambda>c. \<not> is_ctl c) q"
    using ui(1) hp q by (simp_all add: plain_text_def plain_query_def list_all_iff)
  then have "list_all (\<lambda>c. \<not> is_ctl c) ((scheme @ '':'' @ ?base) @ query_part q)"
    using sc(2) ctl by (simp add: query_part_def)
  then have c: "\<not> list_ex is_ctl ((scheme @ '':'' @ ?base) @ query_part q)"
    by (auto simp: list_all_iff list_ex_iff)
  have scheme: "getScheme ((scheme @ '':'' @ ?base) @ query_part q) = Some (scheme, ?base @ query_part q)"
    using getScheme_plain [OF s, of "?base @ query_part q"] by simp
  have lower: "ToLower scheme = scheme" using s by (simp add: plain_scheme_def)
  have eq: "scheme @ ''://'' @ ui @ ''@'' @ hp @ query_part q @ fragment_part f
      = ((scheme @ '':'' @ ?base) @ query_part q) @ fragment_part f" by simp
  show ?thesis
    unfolding eq url_Parse_def cut_or_fragment [OF a] Let_def prod.case scheme option.case cut_or_query [OF b] lower
    using c f link_authority [OF h p ui, of scheme q] by (simp add: hp_def)
qed

section \<open>Parameters\<close>

definition safe_char :: "char \<Rightarrow> bool" where
  "safe_char c \<longleftrightarrow> is_alnum c \<or> c \<in> set ''-_./,:''"

definition safe_param :: "link_param \<Rightarrow> bool" where
  "safe_param p \<longleftrightarrow> fst p \<noteq> [] \<and> list_all safe_char (fst p)
     \<and> (fst p = ''mport'' \<or> fst p = ''alpn'' \<longrightarrow> list_all safe_char (snd p))"

lemma safe_char_not: "safe_char c \<Longrightarrow> c \<notin> set ''&=;%+#?@'' \<and> \<not> is_ctl c"
  by (auto simp: safe_char_def is_alnum_def is_ctl_def Let_def)

lemma safe_unescape: "list_all safe_char s \<Longrightarrow> url_unescape EncQuery s = Some s"
proof (induction s)
  case (Cons c s)
  then show ?case using safe_char_not [of c] by simp
qed simp

lemma QueryEscape_chars:
  assumes "c \<in> set (QueryEscape s)"
  shows "c \<notin> set ''&=;#?@'' \<and> \<not> is_ctl c"
proof -
  have "\<not> shouldEscape c EncQuery \<Longrightarrow> is_unreserved c"
    by (simp add: shouldEscape_def split: if_splits)
  then have "is_alnum c \<or> c \<in> set ''%+-_.~''"
    using escape_chars [of c EncQuery s] assms by (auto simp: QueryEscape_def is_unreserved_def)
  then show ?thesis
  proof
    assume "is_alnum c"
    then show ?thesis by (auto simp: is_alnum_def is_ctl_def Let_def)
  next
    assume "c \<in> set ''%+-_.~''"
    then show ?thesis by (auto simp: is_ctl_def)
  qed
qed

definition param_text :: "link_param \<Rightarrow> string" where
  "param_text p = fst p @ ''='' @ (if fst p = ''mport'' \<or> fst p = ''alpn'' then snd p else QueryEscape (snd p))"

lemma encodeLinkParams_texts: "encodeLinkParams ps = Join (map param_text ps) ''&''"
proof -
  have "(\<lambda>(k, v). if k = ''mport'' \<or> k = ''alpn'' then k @ ''='' @ v else k @ ''='' @ QueryEscape v) = param_text"
    by (auto simp: param_text_def)
  then show ?thesis by (simp add: encodeLinkParams_def)
qed

lemma param_text_parsed:
  assumes "safe_param p"
  shows "query_pair (param_text p) = [p]" "\<forall>c\<in>set (param_text p). c \<notin> set ''&#;'' \<and> \<not> is_ctl c"
proof -
  obtain k v where p: "p = (k, v)" by (cases p)
  define e where "e = (if k = ''mport'' \<or> k = ''alpn'' then v else QueryEscape v)"
  have pt: "param_text p = k @ ''='' @ e" by (simp add: param_text_def p e_def)
  have k: "k \<noteq> []" "list_all safe_char k" and v: "k = ''mport'' \<or> k = ''alpn'' \<Longrightarrow> list_all safe_char v"
    using assms by (simp_all add: safe_param_def p)
  have kc: "\<forall>c\<in>set k. c \<notin> set ''&=;%+#?@'' \<and> \<not> is_ctl c"
    using k(2) safe_char_not by (auto simp: list_all_iff)
  have ec: "\<forall>c\<in>set e. c \<notin> set ''&=;#?@'' \<and> \<not> is_ctl c"
    using v safe_char_not QueryEscape_chars by (auto simp: list_all_iff e_def)
  have dec: "url_unescape EncQuery e = Some v"
    using v safe_unescape url_unescape_escape_id [of EncQuery v] by (auto simp: QueryEscape_def e_def)
  have "\<not> is_ctl (CHR ''='')" by (simp add: is_ctl_def)
  then show chars: "\<forall>c\<in>set (param_text p). c \<notin> set ''&#;'' \<and> \<not> is_ctl c"
    using kc ec by (auto simp: pt)
  have "cut_or (k @ ''='' @ e) ''='' = (k, e)"
    using cut_or_first [of "CHR ''=''" k e] kc by auto
  moreover have "CHR '';'' \<notin> set (k @ ''='' @ e)" using chars by (auto simp: pt)
  ultimately show "query_pair (param_text p) = [p]"
    unfolding pt query_pair_def by (simp add: k(1) p dec safe_unescape [OF k(2)])
qed

lemma encoded_query:
  assumes "list_all safe_param ps"
  shows "concat (map query_pair (Split (encodeLinkParams ps) (CHR ''&''))) = ps"
    and "plain_query (encodeLinkParams ps)"
proof -
  have each: "\<forall>p\<in>set ps. query_pair (param_text p) = [p] \<and> (\<forall>c\<in>set (param_text p). c \<notin> set ''&#;'' \<and> \<not> is_ctl c)"
    using assms param_text_parsed unfolding list_all_iff by blast
  show "concat (map query_pair (Split (encodeLinkParams ps) (CHR ''&''))) = ps"
  proof (cases "ps = []")
    case True
    then show ?thesis by (simp add: encodeLinkParams_def Split_def query_pair_def)
  next
    case False
    have "Split (encodeLinkParams ps) (CHR ''&'') = map param_text ps"
      unfolding encodeLinkParams_texts using each False by (intro Split_Join) auto
    moreover have "concat (map query_pair (map param_text ps)) = ps"
      using each by (induction ps) auto
    ultimately show ?thesis by simp
  qed
  show "plain_query (encodeLinkParams ps)"
    unfolding encodeLinkParams_texts plain_query_def
    using each set_Join [of "map param_text ps" "''&''"] by (fastforce simp: list_all_iff is_ctl_def)
qed

lemma encodeLinkParams_empty: "list_all safe_param ps \<Longrightarrow> encodeLinkParams ps = [] \<longleftrightarrow> ps = []"
  using encoded_query(1) [of ps] by (cases ps) (auto simp: encodeLinkParams_def Split_def query_pair_def)


section \<open>What a link is generated from\<close>

record client_tls =
  ct_reality :: "(string \<times> string) option"
  ct_sni :: string
  ct_alpn :: "string list"
  ct_insecure :: bool
  ct_fp :: string

datatype link_transport =
    TcpTransport
  | HttpTransport "string list" string
  | WsTransport string string
  | GrpcTransport string
  | UpgradeTransport string string

text \<open>The TLS and transport objects of an outbound, as they are stored (decoded JSON).\<close>

definition str_entry :: "string \<Rightarrow> string \<Rightarrow> gmap" where
  "str_entry k v = (if v = [] then [] else [(k, GStr v)])"

definition list_entry :: "string \<Rightarrow> string list \<Rightarrow> gmap" where
  "list_entry k vs = (if vs = [] then [] else [(k, GList (map GStr vs))])"

definition tls_entries :: "client_tls \<Rightarrow> gmap" where
  "tls_entries t =
     [(''enabled'', GBool True)]
     @ (case ct_reality t of None \<Rightarrow> [] | Some (pbk, sid) \<Rightarrow>
          [(''reality'', GMap [(''enabled'', GBool True), (''public_key'', GStr pbk), (''short_id'', GStr sid)])])
     @ str_entry ''server_name'' (ct_sni t) @ list_entry ''alpn'' (ct_alpn t)
     @ (if ct_insecure t then [(''insecure'', GBool True)] else [])
     @ import_utls (ct_fp t)"

fun transport_entries :: "link_transport \<Rightarrow> gmap" where
  "transport_entries TcpTransport = []"
| "transport_entries (HttpTransport hosts path) =
     [(''type'', GStr ''http'')] @ list_entry ''host'' hosts @ [(''path'', GStr path)]"
| "transport_entries (WsTransport path host) = [(''type'', GStr ''ws''), (''path'', GStr path)] @ header_host host"
| "transport_entries (GrpcTransport service) = [(''type'', GStr ''grpc''), (''service_name'', GStr service)]"
| "transport_entries (UpgradeTransport path host) =
     [(''type'', GStr ''httpupgrade''), (''path'', GStr path), (''host'', GStr host)]"

definition list_item :: "string \<Rightarrow> bool" where
  "list_item s \<longleftrightarrow> s \<noteq> [] \<and> CHR '','' \<notin> set s"

definition tls_ok :: "client_tls \<Rightarrow> bool" where
  "tls_ok t \<longleftrightarrow> list_all (\<lambda>a. list_item a \<and> list_all safe_char a) (ct_alpn t)
     \<and> (ct_reality t \<noteq> None \<longrightarrow> \<not> ct_insecure t)"

fun transport_ok :: "link_transport \<Rightarrow> bool" where
  "transport_ok (HttpTransport hosts path) = list_all list_item hosts"
| "transport_ok _ = True"

text \<open>The parameters the generator writes for them.\<close>

definition str_param :: "string \<Rightarrow> string \<Rightarrow> link_param list" where
  "str_param k v = (if v = [] then [] else [(k, v)])"

definition list_param :: "string \<Rightarrow> string list \<Rightarrow> link_param list" where
  "list_param k vs = (if vs = [] then [] else [(k, Join vs '','')])"

definition tls_link_params :: "string \<Rightarrow> client_tls \<Rightarrow> link_param list" where
  "tls_link_params key t =
     (case ct_reality t of
        None \<Rightarrow> [(''security'', ''tls'')] @ (if ct_insecure t then [(key, ''1'')] else [])
      | Some (pbk, sid) \<Rightarrow> [(''security'', ''reality''), (''pbk'', pbk), (''sid'', sid)])
     @ str_param ''fp'' (ct_fp t) @ str_param ''sni'' (ct_sni t) @ list_param ''alpn'' (ct_alpn t)"

fun transport_params :: "link_transport \<Rightarrow> link_param list" where
  "transport_params TcpTransport = [(''type'', ''tcp'')]"
| "transport_params (HttpTransport hosts path) =
     [(''type'', ''tcp''), (''headerType'', ''http'')] @ list_param ''host'' hosts @ [(''path'', path)]"
| "transport_params (WsTransport path host) = [(''type'', ''ws''), (''path'', path)] @ str_param ''host'' host"
| "transport_params (GrpcTransport service) = [(''type'', ''grpc''), (''serviceName'', service)]"
| "transport_params (UpgradeTransport path host) = [(''type'', ''httpupgrade''), (''host'', host), (''path'', path)]"

named_theorems entries \<open>the entries and parameters by cases\<close>

lemmas [entries] = str_entry_def list_entry_def str_param_def list_param_def import_utls_def header_host_def
  opt_param_def bindr_def panic_conv_def

declare mhas_append [simp]

lemma mapr_strings: "mapr must_string (map GStr ss) = Inr ss"
  by (induction ss) (simp_all add: must_string_def)

lemma getTlsParams_entries:
  "getTlsParams [] (tls_entries t) key = Inr (tls_link_params key t)"
proof -
  have e: "mget (tls_entries t) ''reality'' = (case ct_reality t of None \<Rightarrow> GNil | Some (pbk, sid) \<Rightarrow>
        GMap [(''enabled'', GBool True), (''public_key'', GStr pbk), (''short_id'', GStr sid)])"
    "mget (tls_entries t) ''alpn'' = (if ct_alpn t = [] then GNil else GList (map GStr (ct_alpn t)))"
    "mget (tls_entries t) ''insecure'' = (if ct_insecure t then GBool True else GNil)"
    "mget (tls_entries t) ''disable_sni'' = GNil"
    "mget (tls_entries t) ''pinned_peer_certificate_sha256'' = GNil"
    "mget (tls_entries t) ''server_name'' = (if ct_sni t = [] then GNil else GStr (ct_sni t))"
    "mget (tls_entries t) ''utls'' = (if ct_fp t = [] then GNil
       else GMap [(''enabled'', GBool True), (''fingerprint'', GStr (ct_fp t))])"
    by (simp_all add: tls_entries_def entries mget_append split: option.splits prod.splits)
  have "tls_security_params (tls_entries t) key = Inr (case ct_reality t of
        None \<Rightarrow> [(''security'', ''tls'')] @ (if ct_insecure t then [(key, ''1'')] else [])
      | Some (pbk, sid) \<Rightarrow> [(''security'', ''reality''), (''pbk'', pbk), (''sid'', sid)])"
    by (simp add: tls_security_params_def tls_plain_params_def e must_bool_def opt_param_def split: option.split prod.split)
  moreover have "alpn_params (tls_entries t) = Inr (list_param ''alpn'' (ct_alpn t))"
    by (simp add: alpn_params_def e mapr_strings list_param_def)
  ultimately show ?thesis
    by (simp add: getTlsParams_def getPinnedPeerCertSha256_def e tls_link_params_def str_param_def opt_param_def)
qed

lemma getTransportParams_entries:
  "getTransportParams (GMap (transport_entries tr)) = Inr (transport_params tr)"
  by (cases tr) (simp_all add: getTransportParams_def entries Let_def mapr_strings)

section \<open>What is read back\<close>

lemma query_Get_append: "query_Get (a @ b) k = (case map_of a k of Some v \<Rightarrow> v | None \<Rightarrow> query_Get b k)"
  by (simp add: query_Get_def map_add_def split: option.splits)

lemma query_Get_simps [simp]:
  "query_Get [] k = []" "query_Get ((k', v) # q) k = (if k' = k then v else query_Get q k)"
  by (simp_all add: query_Get_def)

lemma split_join_items:
  assumes "list_all list_item vs" "vs \<noteq> []"
  shows "Join vs '','' \<noteq> []" "Split (Join vs '','') (CHR '','') = vs"
proof -
  have "\<exists>r. Join vs '','' = hd vs @ r" using Join_first [of "hd vs" "tl vs" "'',''"] assms by (cases vs) (auto simp: list_item_def)
  then show "Join vs '','' \<noteq> []" using assms by (cases vs) (auto simp: list_item_def)
  show "Split (Join vs '','') (CHR '','') = vs"
    using assms by (intro Split_Join) (auto simp: list_item_def list_all_iff)
qed

definition no_keys :: "string list \<Rightarrow> link_param list \<Rightarrow> bool" where
  "no_keys ks ps \<longleftrightarrow> (\<forall>k\<in>set ks. map_of ps k = None)"

definition tls_keys :: "string list" where
  "tls_keys = [''security'', ''sni'', ''alpn'', ''insecure'', ''allowInsecure'', ''fp'', ''ech'', ''disable_sni'',
     ''pcs'', ''pinSHA256'', ''pbk'', ''sid'']"

lemma no_pin: "pinnedPeerCertSha256ForConfig [] = []"
  by code_simp

lemma is_on_nil: "\<not> is_on []"
  by (simp add: is_on_def)

lemma tls_param_values:
  "key \<noteq> ''sni'' \<Longrightarrow> query_Get (tls_link_params key t) ''sni'' = ct_sni t"
  "key \<noteq> ''fp'' \<Longrightarrow> query_Get (tls_link_params key t) ''fp'' = ct_fp t"
  "key \<noteq> ''alpn'' \<Longrightarrow> query_Get (tls_link_params key t) ''alpn'' = (if ct_alpn t = [] then [] else Join (ct_alpn t) '','')"
  "query_Get (tls_link_params key t) ''security'' = (if ct_reality t = None then ''tls'' else ''reality'')"
  "key \<noteq> ''pbk'' \<Longrightarrow> query_Get (tls_link_params key t) ''pbk'' = (case ct_reality t of Some (p, s) \<Rightarrow> p | None \<Rightarrow> [])"
  "key \<noteq> ''sid'' \<Longrightarrow> query_Get (tls_link_params key t) ''sid'' = (case ct_reality t of Some (p, s) \<Rightarrow> s | None \<Rightarrow> [])"
  by (cases "ct_reality t"; cases "ct_insecure t"; simp add: tls_link_params_def entries query_Get_append
      split: prod.split)+

lemma tls_param_others:
  assumes "k \<notin> set [''security'', ''sni'', ''alpn'', ''fp'', ''pbk'', ''sid'']"
  shows "query_Get (tls_link_params key t) k = (if k = key \<and> ct_insecure t \<and> ct_reality t = None then ''1'' else [])"
proof -
  have k: "k \<noteq> ''security''" "k \<noteq> ''sni''" "k \<noteq> ''alpn''" "k \<noteq> ''fp''" "k \<noteq> ''pbk''" "k \<noteq> ''sid''"
    using assms by auto
  show ?thesis
  proof (cases "ct_reality t")
    case None
    then show ?thesis
      by (cases "ct_insecure t") (simp_all add: k k [symmetric] tls_link_params_def entries query_Get_append)
  next
    case (Some r)
    obtain p s where "r = (p, s)" by (cases r)
    with Some show ?thesis by (simp add: k k [symmetric] tls_link_params_def entries query_Get_append)
  qed
qed

lemma import_tls_params:
  assumes t: "tls_ok t" and key: "key = ''insecure'' \<or> key = ''allowInsecure''"
    and no: "no_keys tls_keys pre" "no_keys tls_keys post"
  defines "q \<equiv> pre @ tls_link_params key t @ post"
  shows "query_Get q ''security'' = (if ct_reality t = None then ''tls'' else ''reality'')"
    and "map (map_prod id json_norm) (import_tls (query_Get q ''security'') q) = tls_entries t"
proof -
  have pre: "map_of pre k = None" "map_of post k = None" "query_Get post k = []" if "k \<in> set tls_keys" for k
    using that no by (simp_all add: no_keys_def query_Get_def)
  have get: "query_Get q k = query_Get (tls_link_params key t @ post) k" if "k \<in> set tls_keys" for k
    using pre(1) [OF that] by (simp add: q_def query_Get_append)
  have post: "query_Get (tls_link_params key t @ post) k = query_Get (tls_link_params key t) k" if "k \<in> set tls_keys" for k
    using pre(3) [OF that]
    by (cases "map_of (tls_link_params key t) k") (simp_all add: query_Get_append query_Get_def [of "tls_link_params key t"])
  note q = get post
  have vals: "query_Get q ''security'' = (if ct_reality t = None then ''tls'' else ''reality'')"
    "query_Get q ''sni'' = ct_sni t" "query_Get q ''fp'' = ct_fp t"
    "query_Get q ''alpn'' = (if ct_alpn t = [] then [] else Join (ct_alpn t) '','')"
    "is_on (query_Get q ''insecure'') \<or> is_on (query_Get q ''allowInsecure'') \<longleftrightarrow> ct_insecure t"
    "query_Get q ''ech'' = []" "query_Get q ''disable_sni'' = []" "query_Get q ''pcs'' = []" "query_Get q ''pinSHA256'' = []"
    "query_Get q ''pbk'' = (case ct_reality t of Some (p, s) \<Rightarrow> p | None \<Rightarrow> [])"
    "query_Get q ''sid'' = (case ct_reality t of Some (p, s) \<Rightarrow> s | None \<Rightarrow> [])"
  proof -
    have ne: "key \<noteq> ''sni''" "key \<noteq> ''fp''" "key \<noteq> ''alpn''" "key \<noteq> ''pbk''" "key \<noteq> ''sid''" using key by auto
    note v = tls_param_values(1) [OF ne(1)] tls_param_values(2) [OF ne(2)] tls_param_values(3) [OF ne(3)]
      tls_param_values(4) tls_param_values(5) [OF ne(4)] tls_param_values(6) [OF ne(5)] tls_param_others
    note qk = q [unfolded tls_keys_def]
    show "query_Get q ''security'' = (if ct_reality t = None then ''tls'' else ''reality'')"
      "query_Get q ''sni'' = ct_sni t" "query_Get q ''fp'' = ct_fp t"
      "query_Get q ''alpn'' = (if ct_alpn t = [] then [] else Join (ct_alpn t) '','')"
      "query_Get q ''pbk'' = (case ct_reality t of Some (p, s) \<Rightarrow> p | None \<Rightarrow> [])"
      "query_Get q ''sid'' = (case ct_reality t of Some (p, s) \<Rightarrow> s | None \<Rightarrow> [])"
      by (simp_all add: qk v)
    show "query_Get q ''ech'' = []" "query_Get q ''disable_sni'' = []" "query_Get q ''pcs'' = []"
      "query_Get q ''pinSHA256'' = []"
      using key by (auto simp: qk v)
    show "is_on (query_Get q ''insecure'') \<or> is_on (query_Get q ''allowInsecure'') \<longleftrightarrow> ct_insecure t"
    proof -
      have "query_Get q ''insecure'' = (if ''insecure'' = key \<and> ct_insecure t \<and> ct_reality t = None then ''1'' else [])"
        "query_Get q ''allowInsecure'' = (if ''allowInsecure'' = key \<and> ct_insecure t \<and> ct_reality t = None then ''1'' else [])"
        by (simp_all add: qk v)
      moreover have "ct_insecure t \<Longrightarrow> ct_reality t = None" using t by (cases "ct_reality t") (simp_all add: tls_ok_def)
      ultimately show ?thesis using key by (cases "ct_insecure t") (auto simp: is_on_def)
    qed
  qed
  then show "query_Get q ''security'' = (if ct_reality t = None then ''tls'' else ''reality'')" by simp
  have "list_all list_item (ct_alpn t)" using t by (auto simp: tls_ok_def list_all_iff)
  then have alpn: "map (map_prod id json_norm) (split_alpn (query_Get q ''alpn'')) = list_entry ''alpn'' (ct_alpn t)"
    using split_join_items [of "ct_alpn t"] by (simp add: vals split_alpn_def list_entry_def)
  have sec: "map (map_prod id json_norm) (import_security (query_Get q ''security'') q)
    = [(''enabled'', GBool True)] @ (case ct_reality t of None \<Rightarrow> [] | Some (pbk, sid) \<Rightarrow>
          [(''reality'', GMap [(''enabled'', GBool True), (''public_key'', GStr pbk), (''short_id'', GStr sid)])])"
    by (simp add: import_security_def vals split: option.split prod.split)
  show "map (map_prod id json_norm) (import_tls (query_Get q ''security'') q) = tls_entries t"
    unfolding import_tls_def map_append sec alpn tls_entries_def
    by (simp add: vals str_entry_def import_utls_def link_pin_def no_pin is_on_nil)
qed

definition transport_keys :: "string list" where
  "transport_keys = [''type'', ''headerType'', ''host'', ''path'', ''serviceName'']"

lemma import_transport_params:
  assumes tr: "transport_ok tr" and no: "no_keys transport_keys post"
  defines "q \<equiv> transport_params tr @ post"
  shows "map (map_prod id json_norm) (import_transport (query_Get q ''type'') q) = transport_entries tr"
proof -
  have post: "query_Get post k = []" if "k \<in> set transport_keys" for k
    using that no by (simp add: no_keys_def query_Get_def)
  note p = post [unfolded transport_keys_def]
  have lower: "ToLower ''tcp'' = ''tcp''" "ToLower ''ws'' = ''ws''" "ToLower ''grpc'' = ''grpc''"
    "ToLower ''httpupgrade'' = ''httpupgrade''"
    by (simp_all add: ToLower_def lower_char_def)
  show ?thesis
  proof (cases tr)
    case (HttpTransport hosts path)
    with tr show ?thesis
      using split_join_items [of hosts]
      by (auto simp: import_transport_def q_def p lower entries split_hosts_def query_Get_append)
  qed (simp_all add: import_transport_def q_def p lower entries query_Get_append)
qed

section \<open>The protocols\<close>

lemma unescape_fragment: "url_unescape EncFragment s = url_unescape EncPathSegment s"
  by (induction "EncPathSegment" s rule: url_unescape.induct)
    (auto simp: escape_allowed_def split: option.splits list.splits)

lemma url_escape_nil: "url_escape mode s = [] \<longleftrightarrow> s = []"
  by (cases s) (auto simp: url_escape_def escape_char_def Let_def)

lemma Atoi_val_Itoa: "0 \<le> i \<Longrightarrow> i < 2 ^ 63 \<Longrightarrow> Atoi_val (Itoa i) = i"
proof -
  assume i: "0 \<le> i" "i < 2 ^ 63"
  then have itoa: "Itoa i = nat_str i" by (simp add: Itoa_def)
  obtain c r where c: "nat_str i = c # r" by (cases "nat_str i") auto
  have "is_digit c" using nat_str_digits [OF i(1)] by (simp add: c)
  then have "c \<noteq> CHR ''-''" "c \<noteq> CHR ''+''" by auto
  moreover have "parse_uint (c # r) = Some i" using parse_uint_nat_str [OF i(1)] by (simp add: c)
  ultimately show "Atoi_val (Itoa i) = i" using i(2) by (simp add: itoa c Atoi_val_def)
qed

definition parsed_link :: "string \<Rightarrow> string \<times> string option \<Rightarrow> string \<Rightarrow> int \<Rightarrow> link_param list \<Rightarrow> string \<Rightarrow> url" where
  "parsed_link scheme user h port ps remark =
     \<lparr>u_Scheme = scheme, u_User = Some user, u_Host = JoinHostPort h (Itoa port), u_Path = [], u_RawPath = [],
      u_Opaque = [], u_RawQuery = encodeLinkParams ps, u_Fragment = remark\<rparr>"

definition good_endpoint :: "string \<Rightarrow> int \<Rightarrow> bool" where
  "good_endpoint h port \<longleftrightarrow> export_host h \<and> 1 \<le> port \<and> port \<le> 65535"

lemma parsed_link_fields:
  assumes "good_endpoint h port" "list_all safe_param ps"
  shows "link_host (parsed_link scheme user h port ps remark) = h"
    "link_port (parsed_link scheme user h port ps remark) d = port"
    "link_tag (parsed_link scheme user h port ps remark) 0 = remark"
    "url_Query (parsed_link scheme user h port ps remark) = ps"
proof -
  have h: "export_host h" and p: "0 \<le> port" "port < 2 ^ 63" using assms(1) by (simp_all add: good_endpoint_def)
  have "list_all host_char h" by (rule export_host_chars [OF h])
  then have "CHR ''['' \<notin> set h" "CHR '']'' \<notin> set h" using host_chars_not by auto
  moreover have "CHR '':'' \<notin> set (Itoa port)" "CHR '']'' \<notin> set (Itoa port)" "CHR ''['' \<notin> set (Itoa port)"
    by (rule Itoa_not_in [OF p(1)], simp add: is_digit_def)+
  ultimately have "SplitHostPort (JoinHostPort h (Itoa port)) = Some (h, Itoa port)"
    by (intro SplitHostPort_JoinHostPort)
  then show "link_host (parsed_link scheme user h port ps remark) = h"
    "link_port (parsed_link scheme user h port ps remark) d = port"
    by (simp_all add: link_host_def link_port_def link_port_text_def parsed_link_def Atoi_val_Itoa [OF p])
  show "link_tag (parsed_link scheme user h port ps remark) 0 = remark"
    by (simp add: link_tag_def parsed_link_def)
  show "url_Query (parsed_link scheme user h port ps remark) = ps"
    using encoded_query(1) [OF assms(2)] by (simp add: url_Query_def parsed_link_def)
qed

lemma raw_link_parsed:
  assumes s: "plain_scheme scheme" and g: "good_endpoint h port"
    and ui: "plain_text ui" "url_parseUser ui = Some user" and ps: "list_all safe_param ps"
  shows "url_Parse (addRawParams (scheme @ ''://'' @ ui @ ''@'' @ JoinHostPort h (Itoa port)) ps remark)
    = Some (parsed_link scheme user h port ps remark)"
proof -
  have "url_unescape EncFragment (PathEscape remark) = Some remark"
    using url_unescape_escape_id [of EncPathSegment remark] by (simp add: unescape_fragment PathEscape_def)
  moreover have "addRawParams (scheme @ ''://'' @ ui @ ''@'' @ JoinHostPort h (Itoa port)) ps remark
      = scheme @ ''://'' @ ui @ ''@'' @ JoinHostPort h (Itoa port) @ query_part (encodeLinkParams ps) @ fragment_part (PathEscape remark)"
    by (simp add: addRawParams_def query_part_def fragment_part_def PathEscape_def url_escape_nil)
  ultimately show ?thesis
    using link_parsed [OF s _ _ ui encoded_query(2) [OF ps], of h port "PathEscape remark" remark] g
    by (simp add: good_endpoint_def parsed_link_def)
qed

text \<open>The user information of the links: one encoded credential, or two.\<close>

lemma credential_plain: "encoded_cred e s \<Longrightarrow> plain_text e"
  using encoded_cred_not [of e s] by (auto simp: plain_text_def list_all_iff)

lemma one_credential:
  assumes "encoded_cred e s"
  shows "url_parseUser e = Some (s, None)"
proof -
  have "CHR '':'' \<notin> set e" using encoded_cred_not [OF assms] by fastforce
  then have "Cut e '':'' = None" by (simp add: Cut_None_notin)
  moreover have "validUserinfo e" using assms by (fastforce simp: validUserinfo_def list_all_iff encoded_cred_def)
  ultimately show ?thesis using assms by (simp add: url_parseUser_def encoded_cred_def)
qed

lemma two_credentials:
  assumes "encoded_cred e s" "encoded_cred f t"
  shows "url_parseUser (e @ '':'' @ f) = Some (s, Some t)" "plain_text (e @ '':'' @ f)"
proof -
  have "CHR '':'' \<notin> set e" using encoded_cred_not [OF assms(1)] by fastforce
  then have "Cut (e @ '':'' @ f) '':'' = Some (e, f)" using Cut_append_first [of "CHR '':''" e f] by simp
  then show "url_parseUser (e @ '':'' @ f) = Some (s, Some t)"
    using encoded_cred_valid [OF assms] assms by (simp add: url_parseUser_def encoded_cred_def)
  have "\<not> is_ctl (CHR '':'')" by (simp add: is_ctl_def)
  then show "plain_text (e @ '':'' @ f)"
    using credential_plain [OF assms(1)] credential_plain [OF assms(2)] by (simp add: plain_text_def)
qed

text \<open>An address of an inbound, and the parameters of its TLS and transport.\<close>

definition share_address :: "gmap \<Rightarrow> string \<Rightarrow> int \<Rightarrow> string \<Rightarrow> client_tls option \<Rightarrow> bool" where
  "share_address addr h port remark t \<longleftrightarrow>
     mget addr ''server'' = GStr h \<and> mget addr ''server_port'' = GFloat (of_int port) \<and> mget addr ''remark'' = GStr remark
     \<and> mget addr ''tls'' = (case t of None \<Rightarrow> GNil | Some c \<Rightarrow> GMap (tls_entries c))"

definition good_tls :: "client_tls option \<Rightarrow> bool" where
  "good_tls t \<longleftrightarrow> (case t of None \<Rightarrow> True | Some c \<Rightarrow> tls_ok c)"

definition opt_tls_params :: "string \<Rightarrow> client_tls option \<Rightarrow> link_param list" where
  "opt_tls_params key t = (case t of None \<Rightarrow> [] | Some c \<Rightarrow> tls_link_params key c)"

definition opt_tls_entries :: "client_tls option \<Rightarrow> gmap" where
  "opt_tls_entries t = (case t of None \<Rightarrow> [] | Some c \<Rightarrow> tls_entries c)"

definition norm_map :: "gmap \<Rightarrow> gmap" where
  "norm_map m = map (map_prod id json_norm) m"

definition escaped_keys :: "string list" where
  "escaped_keys = [''type'', ''headerType'', ''host'', ''path'', ''serviceName'', ''security'',
     ''sni'', ''insecure'', ''allowInsecure'', ''fp'', ''pbk'', ''sid'', ''flow'', ''congestion_control'']"

lemma safe_keys: "list_all (\<lambda>p. fst p \<in> set escaped_keys) ps \<Longrightarrow> list_all safe_param ps"
proof -
  have "list_all (\<lambda>k. k \<noteq> [] \<and> list_all safe_char k \<and> k \<noteq> ''mport'' \<and> k \<noteq> ''alpn'') escaped_keys"
    by code_simp
  then show "list_all (\<lambda>p. fst p \<in> set escaped_keys) ps \<Longrightarrow> list_all safe_param ps"
    unfolding list_all_iff safe_param_def by blast
qed

lemma transport_params_safe: "list_all safe_param (transport_params tr)"
  by (rule safe_keys) (cases tr, simp_all add: entries escaped_keys_def)

lemma tls_params_safe:
  assumes "tls_ok t" "key = ''insecure'' \<or> key = ''allowInsecure''"
  shows "list_all safe_param (tls_link_params key t)"
proof -
  have "list_all safe_param (list_param ''alpn'' (ct_alpn t))"
  proof -
    have "\<forall>a\<in>set (ct_alpn t). list_all safe_char a" using assms(1) by (auto simp: tls_ok_def list_all_iff)
    then have "list_all safe_char (Join (ct_alpn t) '','')"
      using set_Join [of "ct_alpn t" "'',''"] by (fastforce simp: list_all_iff safe_char_def)
    then show ?thesis by (simp add: list_param_def safe_param_def safe_char_def is_alnum_def)
  qed
  moreover have "list_all safe_param (tls_link_params key (t\<lparr>ct_alpn := []\<rparr>))"
    by (rule safe_keys) (use assms(2) in \<open>auto simp: escaped_keys_def tls_link_params_def str_param_def list_param_def split: option.split\<close>)
  moreover have "tls_link_params key t = tls_link_params key (t\<lparr>ct_alpn := []\<rparr>) @ list_param ''alpn'' (ct_alpn t)"
    by (simp add: tls_link_params_def list_param_def split: option.split)
  ultimately show ?thesis by simp
qed

lemma opt_tls_params_safe:
  "good_tls t \<Longrightarrow> key = ''insecure'' \<or> key = ''allowInsecure'' \<Longrightarrow> list_all safe_param (opt_tls_params key t)"
  using tls_params_safe by (cases t) (simp_all add: good_tls_def opt_tls_params_def)

lemma no_keys_append: "no_keys ks (a @ b) \<longleftrightarrow> no_keys ks a \<and> no_keys ks b"
  by (auto simp: no_keys_def map_add_def split: option.splits)

lemma no_keys_fst: "set (map fst ps) \<inter> set ks = {} \<Longrightarrow> no_keys ks ps"
  by (auto simp: no_keys_def map_of_eq_None_iff)

lemma transport_no_tls: "no_keys tls_keys (transport_params tr)"
  by (rule no_keys_fst) (cases tr, auto simp: tls_keys_def entries)

lemma tls_no_transport: "key = ''insecure'' \<or> key = ''allowInsecure'' \<Longrightarrow> no_keys transport_keys (opt_tls_params key t)"
  by (rule no_keys_fst) (cases t, auto simp: transport_keys_def opt_tls_params_def tls_link_params_def str_param_def
      list_param_def split: option.splits)

lemma import_tls_none: "no_keys tls_keys q \<Longrightarrow> import_tls (query_Get q ''security'') q = []"
  by (simp add: import_tls_def no_keys_def tls_keys_def query_Get_def import_security_def split_alpn_def is_on_nil
      import_utls_def link_pin_def no_pin)

lemma import_opt_tls:
  assumes "good_tls t" "key = ''insecure'' \<or> key = ''allowInsecure''" "no_keys tls_keys pre" "no_keys tls_keys post"
  defines "q \<equiv> pre @ opt_tls_params key t @ post"
  shows "norm_map (import_tls (query_Get q ''security'') q) = opt_tls_entries t"
proof (cases t)
  case None
  then show ?thesis
    using assms import_tls_none [of q] by (simp add: opt_tls_params_def no_keys_append norm_map_def opt_tls_entries_def)
next
  case (Some c)
  then show ?thesis
    using assms import_tls_params(2) [of c key pre post] by (simp add: opt_tls_params_def good_tls_def norm_map_def opt_tls_entries_def)
qed

lemma enabled_entries: "mget (tls_entries t) ''enabled'' = GBool True"
  by (simp add: tls_entries_def)

lemma opt_tls_address:
  assumes "share_address addr h port remark t"
  shows "enabled_tls addr (\<lambda>tls. getTlsParams [] tls key) = Inr (opt_tls_params key t)"
    "opt_tls addr (\<lambda>tls. getTlsParams [] tls key) = Inr (opt_tls_params key t)"
  using assms by (auto simp: share_address_def enabled_tls_def opt_tls_def addr_tls_def enabled_entries must_bool_def
      getTlsParams_entries opt_tls_params_def split: option.splits)

lemma address_hostport:
  assumes "share_address addr h port remark t" "good_endpoint h port"
  shows "linkHostPort addr = Inr (JoinHostPort h (Itoa port))" "addr_remark addr = Inr remark"
proof -
  have "Trim h ''[]'' = h" using trim_host [OF export_host_chars] assms(2) by (simp add: good_endpoint_def)
  moreover have "addr_port addr = Itoa port"
    by (rule addr_port_of_int) (use assms in \<open>simp_all add: share_address_def good_endpoint_def\<close>)
  ultimately show "linkHostPort addr = Inr (JoinHostPort h (Itoa port))"
    using assms(1) by (simp add: linkHostPort_def share_address_def must_string_def)
  show "addr_remark addr = Inr remark" using assms(1) by (simp add: addr_remark_def share_address_def must_string_def)
qed

lemma pass_link_address:
  assumes "share_address addr h port remark t" "good_endpoint h port"
  shows "pass_link scheme user addr ps
    = Inr (addRawParams (scheme @ ''://'' @ user @ ''@'' @ JoinHostPort h (Itoa port)) ps remark)"
  using address_hostport [OF assms] by (simp add: pass_link_def)

lemma trojan_link_imports:
  assumes addr: "share_address addr h port remark t" and g: "good_endpoint h port" and t: "good_tls t" and tr: "transport_ok tr"
    and inb: "mget inb ''transport'' = GMap (transport_entries tr)" and cfg: "mget cfg ''password'' = GStr pass"
  shows "\<exists>l ob. trojanLink cfg inb [addr] = Inr [l] \<and> GetOutbound l 0 = Inr (ob, remark) \<and>
    norm_map ob = [(''type'', GStr ''trojan''), (''tag'', GStr remark), (''server'', GStr h),
      (''server_port'', GFloat (of_int port)), (''password'', GStr pass),
      (''tls'', GMap (opt_tls_entries t)), (''transport'', GMap (transport_entries tr))]"
proof -
  let ?ps = "transport_params tr @ opt_tls_params ''allowInsecure'' t"
  let ?e = "escapeLinkUserInfo pass"
  let ?l = "addRawParams (''trojan'' @ ''://'' @ ?e @ ''@'' @ JoinHostPort h (Itoa port)) ?ps remark"
  have link: "trojanLink cfg inb [addr] = Inr [?l]"
    using pass_link_address [OF addr g] by (simp add: trojanLink_def inb cfg getTransportParams_entries opt_tls_address [OF addr])
  have safe: "list_all safe_param ?ps" using transport_params_safe opt_tls_params_safe [OF t] by simp
  have sch: "plain_scheme ''trojan''" by code_simp
  have parsed: "url_Parse ?l = Some (parsed_link ''trojan'' (pass, None) h port ?ps remark)"
    using raw_link_parsed [OF sch g credential_plain [OF escapeLinkUserInfo_encoded]
        one_credential [OF escapeLinkUserInfo_encoded] safe] by simp
  define u where "u = parsed_link ''trojan'' (pass, None) h port ?ps remark"
  have u: "u_Scheme u = ''trojan''" "url_Username u = pass" by (simp_all add: u_def parsed_link_def url_Username_def)
  note f = parsed_link_fields [OF g safe, of "''trojan''" "(pass, None)" remark, folded u_def]
  have "norm_map (import_tls (query_Get ?ps ''security'') ?ps) = opt_tls_entries t"
    using import_opt_tls [OF t _ transport_no_tls, of "''allowInsecure''" "[]" tr] by (simp add: no_keys_def)
  moreover have "norm_map (import_transport (query_Get ?ps ''type'') ?ps) = transport_entries tr"
    using import_transport_params [OF tr tls_no_transport] by (simp add: norm_map_def)
  moreover have "GetOutbound ?l 0 = import_trojan u 0"
    using parsed by (simp add: GetOutbound_def u_def [symmetric] u)
  ultimately show ?thesis
    using link by (simp add: import_trojan_def Let_def link_base_def f u norm_map_def)
qed

lemma tls_param_keys:
  "fst ` set (tls_link_params key t) \<subseteq> set [key, ''security'', ''pbk'', ''sid'', ''fp'', ''sni'', ''alpn'']"
  by (auto simp: tls_link_params_def str_param_def list_param_def split: option.splits if_splits)

lemma anytls_link_imports:
  assumes addr: "share_address addr h port remark (Some c)" and g: "good_endpoint h port" and c: "tls_ok c"
    and cfg: "mget cfg ''password'' = GStr pass"
  shows "\<exists>l ob. anytlsLink cfg [addr] = Inr [l] \<and> GetOutbound l 0 = Inr (ob, remark) \<and>
    norm_map ob = [(''type'', GStr ''anytls''), (''tag'', GStr remark), (''server'', GStr h),
      (''server_port'', GFloat (of_int port)), (''password'', GStr pass), (''tls'', GMap (tls_entries c))]"
proof -
  let ?ps = "tls_link_params ''insecure'' c"
  let ?e = "escapeLinkUserInfo pass"
  let ?l = "addRawParams (''anytls'' @ ''://'' @ ?e @ ''@'' @ JoinHostPort h (Itoa port)) ?ps remark"
  have pin: "\<not> hasLinkParam ?ps ''pcs''"
    by (auto simp: hasLinkParam_def tls_link_params_def str_param_def list_param_def list_ex_iff split: option.splits if_splits)
  have "mget addr ''tls'' = GMap (tls_entries c)" using addr by (simp add: share_address_def)
  then have link: "anytlsLink cfg [addr] = Inr [?l]"
    using pass_link_address [OF addr g] pin
    by (simp add: anytlsLink_def cfg opt_tls_def addr_tls_def getTlsParams_entries ensurePinnedTLSClientCompatibility_def)
  have safe: "list_all safe_param ?ps" using tls_params_safe [OF c] by simp
  have sch: "plain_scheme ''anytls''" by code_simp
  have parsed: "url_Parse ?l = Some (parsed_link ''anytls'' (pass, None) h port ?ps remark)"
    using raw_link_parsed [OF sch g credential_plain [OF escapeLinkUserInfo_encoded]
        one_credential [OF escapeLinkUserInfo_encoded] safe] by simp
  define u where "u = parsed_link ''anytls'' (pass, None) h port ?ps remark"
  have u: "u_Scheme u = ''anytls''" "url_Username u = pass" by (simp_all add: u_def parsed_link_def url_Username_def)
  note f = parsed_link_fields [OF g safe, of "''anytls''" "(pass, None)" remark, folded u_def]
  note imp = import_tls_params [OF c, of "''insecure''" "[]" "[]", simplified]
  have "query_Get ?ps ''security'' \<noteq> []" using imp(1) by (auto simp: no_keys_def)
  moreover have "norm_map (import_tls (query_Get ?ps ''security'') ?ps) = tls_entries c"
    using imp(2) by (simp add: no_keys_def norm_map_def)
  moreover have "GetOutbound ?l 0 = import_anytls u 0"
    using parsed by (simp add: GetOutbound_def u_def [symmetric] u)
  ultimately show ?thesis
    using link by (simp add: import_anytls_def Let_def link_base_def f u norm_map_def default_tls_def)
qed

text \<open>TUIC adds the ALPN \<^verbatim>\<open>h3\<close> when the inbound names none.\<close>

definition tuic_client :: "client_tls \<Rightarrow> client_tls" where
  "tuic_client c = (if ct_alpn c = [] then c\<lparr>ct_alpn := [''h3'']\<rparr> else c)"

lemma tuic_tls_entries: "tuic_tls (tls_entries c) = Inr (tls_link_params ''insecure'' (tuic_client c))"
proof -
  let ?ps = "tls_link_params ''insecure'' c"
  have pin: "\<not> hasLinkParam ?ps ''pcs''"
    by (auto simp: hasLinkParam_def tls_link_params_def str_param_def list_param_def list_ex_iff split: option.splits if_splits)
  have alpn: "hasLinkParam ?ps ''alpn'' \<longleftrightarrow> ct_alpn c \<noteq> []"
    by (auto simp: hasLinkParam_def tls_link_params_def str_param_def list_param_def list_ex_iff split: option.splits if_splits)
  have "ct_alpn c = [] \<Longrightarrow> ?ps @ [(''alpn'', ''h3'')] = tls_link_params ''insecure'' (tuic_client c)"
    by (simp add: tls_link_params_def tuic_client_def list_param_def split: option.split)
  then show ?thesis
    by (simp add: tuic_tls_def getTlsParams_entries ensurePinnedTLSClientCompatibility_def pin alpn Let_def) (simp add: tuic_client_def)
qed

lemma tuic_client_ok: "tls_ok c \<Longrightarrow> tls_ok (tuic_client c)"
proof -
  have "list_item ''h3'' \<and> list_all safe_char ''h3''" by code_simp
  then show "tls_ok c \<Longrightarrow> tls_ok (tuic_client c)" by (simp add: tls_ok_def tuic_client_def)
qed

lemma tuic_link_imports:
  assumes addr: "share_address addr h port remark (Some c)" and g: "good_endpoint h port" and c: "tls_ok c"
    and cfg: "mget cfg ''uuid'' = GStr uuid" "mget cfg ''password'' = GStr pass"
    and inb: "mget inb ''congestion_control'' = GStr cc"
  shows "\<exists>l ob. tuicLink cfg inb [addr] = Inr [l] \<and> GetOutbound l 0 = Inr (ob, remark) \<and>
    norm_map ob = [(''type'', GStr ''tuic''), (''tag'', GStr remark), (''server'', GStr h),
      (''server_port'', GFloat (of_int port)), (''uuid'', GStr uuid), (''password'', GStr pass),
      (''congestion_control'', GStr cc), (''udp_relay_mode'', GStr []), (''tls'', GMap (tls_entries (tuic_client c)))]"
proof -
  let ?t = "tls_link_params ''insecure'' (tuic_client c)"
  let ?ps = "?t @ [(''congestion_control'', cc)]"
  let ?e = "escapeLinkUserInfo uuid" and ?f = "escapeLinkUserInfo pass"
  let ?l = "addRawParams (''tuic'' @ ''://'' @ (?e @ '':'' @ ?f) @ ''@'' @ JoinHostPort h (Itoa port)) ?ps remark"
  have ok: "tls_ok (tuic_client c)" by (rule tuic_client_ok [OF c])
  have "mget addr ''tls'' = GMap (tls_entries c)" using addr by (simp add: share_address_def)
  then have link: "tuicLink cfg inb [addr] = Inr [?l]"
    using pass_link_address [OF addr g, of "''tuic''" "?e @ '':'' @ ?f" ?ps]
    by (simp add: tuicLink_def cfg inb opt_tls_def addr_tls_def tuic_tls_entries opt_param_def)
  have "safe_param (''congestion_control'', cc)"
    using safe_keys [of "[(''congestion_control'', cc)]"] by (simp add: escaped_keys_def)
  then have safe: "list_all safe_param ?ps" using tls_params_safe [OF ok] by simp
  have sch: "plain_scheme ''tuic''" by code_simp
  note cred = two_credentials [OF escapeLinkUserInfo_encoded escapeLinkUserInfo_encoded]
  have parsed: "url_Parse ?l = Some (parsed_link ''tuic'' (uuid, Some pass) h port ?ps remark)"
    by (rule raw_link_parsed [OF sch g cred(2) cred(1) safe])
  define u where "u = parsed_link ''tuic'' (uuid, Some pass) h port ?ps remark"
  have u: "u_Scheme u = ''tuic''" "url_Username u = uuid" "url_Password u = pass"
    by (simp_all add: u_def parsed_link_def url_Username_def url_Password_def)
  note f = parsed_link_fields [OF g safe, of "''tuic''" "(uuid, Some pass)" remark, folded u_def]
  have no: "no_keys tls_keys [(''congestion_control'', cc)]" by (simp add: no_keys_def tls_keys_def)
  note imp = import_tls_params [OF ok _ _ no, of "''insecure''" "[]", simplified]
  have sec: "query_Get ?ps ''security'' \<noteq> []" using imp(1) by (auto simp: no_keys_def)
  have tls: "norm_map (import_tls (query_Get ?ps ''security'') ?ps) = tls_entries (tuic_client c)"
    using imp(2) by (simp add: no_keys_def norm_map_def)
  have none: "map_of ?t ''congestion_control'' = None" "map_of ?t ''udp_relay_mode'' = None"
    using tls_param_keys [of "''insecure''" "tuic_client c"] by (auto simp: map_of_eq_None_iff)
  then have q: "query_Get ?ps ''congestion_control'' = cc" "query_Get ?ps ''udp_relay_mode'' = []"
    by (simp_all only: query_Get_append none option.case query_Get_simps) simp_all
  have "GetOutbound ?l 0 = import_tuic u 0"
    using parsed by (simp add: GetOutbound_def u_def [symmetric] u)
  with sec tls q link show ?thesis
    by (simp add: import_tuic_def Let_def link_base_def f u norm_map_def default_tls_def)
qed

text \<open>
  VLESS writes the server as it is and prints the link through \<open>url.URL\<close>: the server has to be a
  host name or an IPv4 address, the id plain.
\<close>

definition plain_id :: "string \<Rightarrow> bool" where
  "plain_id s \<longleftrightarrow> list_all (\<lambda>c. is_alnum c \<or> c = CHR ''-'') s"

lemma plain_id_facts:
  assumes "plain_id s"
  shows "encoded_cred s s" "url_escape EncUser s = s"
proof -
  have c: "\<not> shouldEscape c mode" "c \<noteq> CHR ''%''" "c \<noteq> CHR ''+''" if "c \<in> set s" for c mode
  proof -
    have a: "is_alnum c \<or> c = CHR ''-''" using that assms by (simp add: plain_id_def list_all_iff)
    then have "is_unreserved c" by (auto simp: is_unreserved_def)
    then show "\<not> shouldEscape c mode" by (simp add: shouldEscape_def)
    show "c \<noteq> CHR ''%''" "c \<noteq> CHR ''+''" using a by (auto simp: is_alnum_def)
  qed
  have "url_unescape EncUser s = Some s"
    using c(2) by (induction s) auto
  then show "encoded_cred s s" using assms by (auto simp: encoded_cred_def plain_id_def list_all_iff)
  show "url_escape EncUser s = s"
    using c(1) by (induction s) (auto simp: url_escape_def escape_char_def)
qed

definition flow_params :: "client_tls option \<Rightarrow> string \<Rightarrow> link_param list" where
  "flow_params t flow = (case t of None \<Rightarrow> [] | Some _ \<Rightarrow> [(''flow'', flow)])"

lemma vless_params:
  assumes "share_address addr h port remark t" "mget cfg ''flow'' = GStr flow"
  shows "enabled_tls addr (\<lambda>tls. bindr (getTlsParams [] tls ''allowInsecure'') (\<lambda>ps.
      Inr (ps @ opt_param ''flow'' (mget cfg ''flow'')))) = Inr (opt_tls_params ''allowInsecure'' t @ flow_params t flow)"
  using assms by (auto simp: share_address_def enabled_tls_def addr_tls_def enabled_entries must_bool_def
      getTlsParams_entries opt_tls_params_def flow_params_def opt_param_def split: option.splits)

lemma printed_link:
  assumes s: "plain_scheme scheme" and g: "good_endpoint h port" and name: "CHR '':'' \<notin> set h"
    and uuid: "plain_id uuid" and ps: "list_all safe_param ps" and addr: "share_address addr h port remark t"
  shows "\<exists>l. id_link scheme uuid addr ps = Inr l \<and> url_Parse l = Some (parsed_link scheme (uuid, None) h port ps remark)"
proof -
  let ?hp = "JoinHostPort h (Itoa port)"
  have h: "export_host h" and p: "0 \<le> port" using g by (simp_all add: good_endpoint_def)
  note cred = plain_id_facts [OF uuid]
  have ui: "plain_text uuid" "url_parseUser uuid = Some (uuid, None)"
    using credential_plain [OF cred(1)] one_credential [OF cred(1)] by simp_all
  have q: "plain_query []" "url_unescape EncFragment [] = Some []" by (simp_all add: plain_query_def)
  have hp: "?hp = h @ '':'' @ Itoa port" using name by (simp add: JoinHostPort_def)
  have port: "addr_port addr = Itoa port"
    by (rule addr_port_of_int) (use addr g in \<open>simp_all add: share_address_def good_endpoint_def\<close>)
  have server: "must_string (mget addr ''server'') = Inr h" "addr_remark addr = Inr remark"
    using addr by (simp_all add: share_address_def must_string_def addr_remark_def)
  let ?u = "\<lparr>u_Scheme = scheme, u_User = Some (uuid, None), u_Host = ?hp, u_Path = [], u_RawPath = [], u_Opaque = [],
     u_RawQuery = encodeLinkParams ps, u_Fragment = remark\<rparr>"
  have "url_Parse (scheme @ ''://'' @ uuid @ ''@'' @ ?hp) = Some (?u\<lparr>u_RawQuery := [], u_Fragment := []\<rparr>)"
    using link_parsed [OF s h p ui q] by (simp add: query_part_def fragment_part_def)
  then have link: "id_link scheme uuid addr ps = Inr (url_String ?u)"
    by (simp add: id_link_def server addParams_def port hp)
  have "scheme \<noteq> []" using s by (simp add: plain_scheme_def)
  moreover have "?hp \<noteq> []" by (simp add: hp)
  ultimately have "url_String ?u = scheme @ ''://'' @ uuid @ ''@'' @ ?hp @ query_part (encodeLinkParams ps)
      @ fragment_part (url_escape EncFragment remark)"
    using host_escape [OF export_host_chars [OF h] p] cred(2)
    by (simp add: url_String_def url_EscapedPath_def userinfo_String_def query_part_def fragment_part_def url_escape_nil)
  moreover have "url_unescape EncFragment (url_escape EncFragment remark) = Some remark"
    by (simp add: url_unescape_escape_id)
  ultimately show ?thesis
    using link link_parsed [OF s h p ui encoded_query(2) [OF ps]] by (auto simp: parsed_link_def)
qed

lemma vless_link_imports:
  assumes addr: "share_address addr h port remark t" and g: "good_endpoint h port" and t: "good_tls t" and tr: "transport_ok tr"
    and name: "CHR '':'' \<notin> set h" and uuid: "plain_id uuid"
    and inb: "mget inb ''transport'' = GMap (transport_entries tr)"
    and cfg: "mget cfg ''uuid'' = GStr uuid" "mget cfg ''flow'' = GStr flow"
  shows "\<exists>l ob. vlessLink cfg inb [addr] = Inr [l] \<and> GetOutbound l 0 = Inr (ob, remark) \<and>
    norm_map ob = [(''type'', GStr ''vless''), (''tag'', GStr remark), (''server'', GStr h),
      (''server_port'', GFloat (of_int port)), (''uuid'', GStr uuid), (''flow'', GStr (if t = None then [] else flow)),
      (''tls'', GMap (opt_tls_entries t)), (''transport'', GMap (transport_entries tr))]"
proof -
  let ?ps = "transport_params tr @ opt_tls_params ''allowInsecure'' t @ flow_params t flow"
  have "list_all safe_param (flow_params t flow)"
    by (rule safe_keys) (cases t, simp_all add: flow_params_def escaped_keys_def)
  then have safe: "list_all safe_param ?ps" using transport_params_safe opt_tls_params_safe [OF t] by simp
  have sch: "plain_scheme ''vless''" by code_simp
  obtain l where l: "id_link ''vless'' uuid addr ?ps = Inr l"
    "url_Parse l = Some (parsed_link ''vless'' (uuid, None) h port ?ps remark)"
    using printed_link [OF sch g name uuid safe addr] by blast
  have link: "vlessLink cfg inb [addr] = Inr [l]"
    using l(1) vless_params [OF addr cfg(2)] by (simp add: vlessLink_def inb cfg(1) getTransportParams_entries)
  define u where "u = parsed_link ''vless'' (uuid, None) h port ?ps remark"
  have u: "u_Scheme u = ''vless''" "url_Username u = uuid" by (simp_all add: u_def parsed_link_def url_Username_def)
  note f = parsed_link_fields [OF g safe, of "''vless''" "(uuid, None)" remark, folded u_def]
  have no: "no_keys tls_keys (flow_params t flow)" "no_keys transport_keys (flow_params t flow)"
    by (cases t; simp add: flow_params_def no_keys_def tls_keys_def transport_keys_def)+
  have tls: "norm_map (import_tls (query_Get ?ps ''security'') ?ps) = opt_tls_entries t"
    using import_opt_tls [OF t _ transport_no_tls no(1), of "''allowInsecure''" tr] by simp
  have transport: "norm_map (import_transport (query_Get ?ps ''type'') ?ps) = transport_entries tr"
    using import_transport_params [OF tr, of "opt_tls_params ''allowInsecure'' t @ flow_params t flow"]
      tls_no_transport [of "''allowInsecure''" t] no(2) by (simp add: norm_map_def no_keys_append)
  have "map_of (transport_params tr) ''flow'' = None"
    by (cases tr) (simp_all add: entries)
  moreover have "map_of (opt_tls_params ''allowInsecure'' t) ''flow'' = None"
    using tls_param_keys [of "''allowInsecure''"] by (cases t) (auto simp: opt_tls_params_def map_of_eq_None_iff)
  ultimately have flow: "query_Get ?ps ''flow'' = (if t = None then [] else flow)"
    by (cases t) (simp_all add: query_Get_append query_Get_def [of "transport_params tr"] flow_params_def opt_tls_params_def)
  have "GetOutbound l 0 = import_vless u 0"
    using l(2) by (simp add: GetOutbound_def u_def [symmetric] u)
  with link tls transport flow show ?thesis
    by (simp add: import_vless_def Let_def link_base_def f u norm_map_def)
qed

text \<open>
  C25. A share link generated for an address of a Trojan, VLESS, AnyTLS or TUIC inbound is read
  back by the importer as an outbound with the same host, port, credentials, TLS settings,
  transport and remark, whatever bytes the password, the paths and the remark hold (VLESS: a
  host without colons and a plain id; TUIC: the ALPN \<^verbatim>\<open>h3\<close> when none is set).
\<close>

theorem share_links_import:
  assumes "share_address addr h port remark (Some c)" "good_endpoint h port" "tls_ok c" "transport_ok tr"
    and "mget inb ''transport'' = GMap (transport_entries tr)" "mget inb ''congestion_control'' = GStr cc"
    and "mget cfg ''password'' = GStr pass" "mget cfg ''uuid'' = GStr uuid" "mget cfg ''flow'' = GStr flow"
  defines "server \<equiv> [(''tag'', GStr remark), (''server'', GStr h), (''server_port'', GFloat (of_int port))]"
  shows "(\<exists>l ob. trojanLink cfg inb [addr] = Inr [l] \<and> GetOutbound l 0 = Inr (ob, remark) \<and>
      norm_map ob = [(''type'', GStr ''trojan'')] @ server @ [(''password'', GStr pass),
        (''tls'', GMap (tls_entries c)), (''transport'', GMap (transport_entries tr))])
      \<and> (\<exists>l ob. anytlsLink cfg [addr] = Inr [l] \<and> GetOutbound l 0 = Inr (ob, remark) \<and>
      norm_map ob = [(''type'', GStr ''anytls'')] @ server @ [(''password'', GStr pass), (''tls'', GMap (tls_entries c))])
      \<and> (\<exists>l ob. tuicLink cfg inb [addr] = Inr [l] \<and> GetOutbound l 0 = Inr (ob, remark) \<and>
      norm_map ob = [(''type'', GStr ''tuic'')] @ server @ [(''uuid'', GStr uuid), (''password'', GStr pass),
        (''congestion_control'', GStr cc), (''udp_relay_mode'', GStr []), (''tls'', GMap (tls_entries (tuic_client c)))])
      \<and> (CHR '':'' \<notin> set h \<and> plain_id uuid \<longrightarrow> (\<exists>l ob. vlessLink cfg inb [addr] = Inr [l] \<and> GetOutbound l 0 = Inr (ob, remark) \<and>
      norm_map ob = [(''type'', GStr ''vless'')] @ server @ [(''uuid'', GStr uuid), (''flow'', GStr flow),
        (''tls'', GMap (tls_entries c)), (''transport'', GMap (transport_entries tr))]))"
  using trojan_link_imports [OF assms(1,2) _ assms(4,5,7)] anytls_link_imports [OF assms(1,2,3,7)]
    tuic_link_imports [OF assms(1,2,3,8,7,6)] vless_link_imports [OF assms(1,2) _ assms(4) _ _ assms(5,8,9)] assms(3)
  by (simp_all add: good_tls_def opt_tls_entries_def server_def)

definition example_tls :: client_tls where
  "example_tls = \<lparr>ct_reality = None, ct_sni = ''www.example.com'', ct_alpn = [''h2'', ''http/1.1''], ct_insecure = True,
     ct_fp = ''chrome''\<rparr>"

definition example_address :: gmap where
  "example_address = [(''server'', GStr ''edge.example.com''), (''server_port'', GFloat 8443), (''remark'', GStr ''a #1/b?''),
     (''tls'', GMap (tls_entries example_tls))]"

theorem share_links_import_witness:
  "\<exists>l ob. vlessLink [(''password'', GStr ''p @:/?#&''), (''uuid'', GStr ''0f-1''), (''flow'', GStr [])]
      [(''transport'', GMap (transport_entries (WsTransport ''/a?b&c'' ''cdn.example.com''))), (''congestion_control'', GStr ''bbr'')]
      [example_address] = Inr [l]
    \<and> GetOutbound l 0 = Inr (ob, ''a #1/b?'')
    \<and> norm_map ob = [(''type'', GStr ''vless''), (''tag'', GStr ''a #1/b?''), (''server'', GStr ''edge.example.com''),
        (''server_port'', GFloat 8443), (''uuid'', GStr ''0f-1''), (''flow'', GStr []), (''tls'', GMap (tls_entries example_tls)),
        (''transport'', GMap (transport_entries (WsTransport ''/a?b&c'' ''cdn.example.com'')))]"
proof -
  let ?tr = "WsTransport ''/a?b&c'' ''cdn.example.com''"
  let ?cfg = "[(''password'', GStr ''p @:/?#&''), (''uuid'', GStr ''0f-1''), (''flow'', GStr [])]"
  let ?inb = "[(''transport'', GMap (transport_entries ?tr)), (''congestion_control'', GStr ''bbr'')]"
  have "share_address example_address ''edge.example.com'' 8443 ''a #1/b?'' (Some example_tls)"
    by (simp add: share_address_def example_address_def)
  moreover have "good_endpoint ''edge.example.com'' 8443" by code_simp
  moreover have "tls_ok example_tls" by code_simp
  moreover have "plain_id ''0f-1''" by code_simp
  ultimately show ?thesis
    using share_links_import [of example_address "''edge.example.com''" 8443 "''a #1/b?''" example_tls ?tr ?inb "''bbr''" ?cfg
        "''p @:/?#&''" "''0f-1''" "[]"] by simp
qed

section \<open>Links that are not read back\<close>

text \<open>A link without an explicit port loses its host: \<open>net.SplitHostPort\<close> refuses the text.\<close>

lemma no_port_no_host: "CHR '':'' \<notin> set (u_Host u) \<Longrightarrow> link_host u = [] \<and> link_port u d = d"
proof -
  assume "CHR '':'' \<notin> set (u_Host u)"
  then have "cut_last (CHR '':'') (u_Host u) = None" by simp
  then have "SplitHostPort (u_Host u) = None" by (simp add: SplitHostPort_def del: cut_last_None)
  then show ?thesis by (simp add: link_host_def link_port_def link_port_text_def)
qed

lemma trojan_without_port:
  "\<exists>ob. GetOutbound ''trojan://secret@edge.example.com?security=tls'' 0 = Inr (ob, [])
    \<and> mget ob ''server'' = GStr [] \<and> mget ob ''server_port'' = GInt 443"
proof -
  have "url_Parse ''trojan://secret@edge.example.com?security=tls'' = Some
    \<lparr>u_Scheme = ''trojan'', u_User = Some (''secret'', None), u_Host = ''edge.example.com'', u_Path = [], u_RawPath = [],
     u_Opaque = [], u_RawQuery = ''security=tls'', u_Fragment = []\<rparr>" by code_simp
  moreover have "query_pair ''security=tls'' = [(''security'', ''tls'')]" by code_simp
  ultimately show ?thesis
    by (simp add: GetOutbound_def import_trojan_def link_base_def no_port_no_host link_tag_def url_Query_def Split_def secure_port_def Let_def)
qed

text \<open>
  The authority of a link ends at the first slash, and the base64 text of a VMess link may hold
  one: a remark with a question mark at the end of a group of three bytes.
\<close>

lemma vmess_link_cut_short: "GetOutbound (vmess_uri [(''ps'', GStr ''a?'')]) 0 = Inl ''illegal base64 data''"
  by code_simp

end
