(* ===== verification/Panel_Db.thy ===== *)
theory Panel_Db
  imports Relay_Model
begin

text \<open>
  The database as the services see it: one table per kind of row. A table keeps its rows in
  the order of the primary key and the highest key ever given out (\<^verbatim>\<open>autoIncrement\<close>). The four
  operations on it are the ones the services call: reading by a condition (a filter),
  \<^verbatim>\<open>Save\<close>/\<^verbatim>\<open>Create\<close> (insert a row without key under a fresh one, otherwise replace the row of the
  key or insert it), \<^verbatim>\<open>Update\<close> and \<^verbatim>\<open>Delete\<close> by a condition. A tag is a unique column: saving a
  row whose tag another row has is an error. The laws the services rely on are stated once,
  in the locales \<open>keyed_table\<close> and \<open>tagged_table\<close>, and hold for every table by interpretation.

  A transaction is a function from a database to a result with the new database; the caller
  keeps the old one when the result is an error, which is the roll-back.
\<close>

section \<open>Tables\<close>

record 'r table =
  tb_Rows :: "'r list"
  tb_Seq :: nat

definition empty_table :: "'r table" where
  "empty_table = \<lparr>tb_Rows = [], tb_Seq = 0\<rparr>"

definition find_row :: "('r \<Rightarrow> nat) \<Rightarrow> nat \<Rightarrow> 'r table \<Rightarrow> 'r option" where
  "find_row key k t = find (\<lambda>r. key r = k) (tb_Rows t)"

definition put_row :: "('r \<Rightarrow> nat) \<Rightarrow> 'r \<Rightarrow> 'r list \<Rightarrow> 'r list" where
  "put_row key r rows =
     (if key r \<in> key ` set rows then map (\<lambda>old. if key old = key r then r else old) rows
      else insort_key key r rows)"

definition keyed :: "('r \<Rightarrow> nat) \<Rightarrow> (nat \<Rightarrow> 'r \<Rightarrow> 'r) \<Rightarrow> 'r table \<Rightarrow> 'r \<Rightarrow> 'r" where
  "keyed key with_key t r = (if key r = 0 then with_key (Suc (tb_Seq t)) r else r)"

definition save_row :: "('r \<Rightarrow> nat) \<Rightarrow> (nat \<Rightarrow> 'r \<Rightarrow> 'r) \<Rightarrow> 'r \<Rightarrow> 'r table \<Rightarrow> 'r table" where
  "save_row key with_key r t =
     (let r' = keyed key with_key t r
      in \<lparr>tb_Rows = put_row key r' (tb_Rows t), tb_Seq = max (tb_Seq t) (key r')\<rparr>)"

definition tag_taken :: "('r \<Rightarrow> nat) \<Rightarrow> ('r \<Rightarrow> string) \<Rightarrow> 'r \<Rightarrow> 'r table \<Rightarrow> bool" where
  "tag_taken key tag r t \<longleftrightarrow> list_ex (\<lambda>old. tag old = tag r \<and> key old \<noteq> key r) (tb_Rows t)"

definition save_tagged ::
  "('r \<Rightarrow> nat) \<Rightarrow> (nat \<Rightarrow> 'r \<Rightarrow> 'r) \<Rightarrow> ('r \<Rightarrow> string) \<Rightarrow> 'r \<Rightarrow> 'r table \<Rightarrow> ('r \<times> 'r table) result" where
  "save_tagged key with_key tag r t =
     (let r' = keyed key with_key t r in
      if tag_taken key tag r' t then Inl ''UNIQUE constraint failed''
      else Inr (r', save_row key with_key r t))"

definition update_rows :: "('r \<Rightarrow> bool) \<Rightarrow> ('r \<Rightarrow> 'r) \<Rightarrow> 'r table \<Rightarrow> 'r table" where
  "update_rows P f t = t\<lparr>tb_Rows := map (\<lambda>r. if P r then f r else r) (tb_Rows t)\<rparr>"

definition delete_rows :: "('r \<Rightarrow> bool) \<Rightarrow> 'r table \<Rightarrow> 'r table" where
  "delete_rows P t = t\<lparr>tb_Rows := filter (\<lambda>r. \<not> P r) (tb_Rows t)\<rparr>"

definition table_ok :: "('r \<Rightarrow> nat) \<Rightarrow> 'r table \<Rightarrow> bool" where
  "table_ok key t \<longleftrightarrow> sorted_wrt (<) (map key (tb_Rows t)) \<and> list_all (\<lambda>r. 0 < key r \<and> key r \<le> tb_Seq t) (tb_Rows t)"

definition tags_ok :: "('r \<Rightarrow> string) \<Rightarrow> 'r table \<Rightarrow> bool" where
  "tags_ok tag t \<longleftrightarrow> distinct (map tag (tb_Rows t))"

section \<open>The laws of a table\<close>

locale keyed_table =
  fixes key :: "'r \<Rightarrow> nat" and with_key :: "nat \<Rightarrow> 'r \<Rightarrow> 'r"
  assumes key_with [simp]: "key (with_key k r) = k"
begin

lemma ok_rows:
  "table_ok key t \<Longrightarrow> sorted_wrt (<) (map key (tb_Rows t))"
  "table_ok key t \<Longrightarrow> distinct (map key (tb_Rows t))"
  "table_ok key t \<Longrightarrow> r \<in> set (tb_Rows t) \<Longrightarrow> 0 < key r \<and> key r \<le> tb_Seq t"
  by (auto simp: table_ok_def list_all_iff strict_sorted_iff)

lemma keyed_pos: "0 < key (keyed key with_key t r)"
  by (simp add: keyed_def)

lemma fresh_key: "table_ok key t \<Longrightarrow> key r = 0 \<Longrightarrow> key (keyed key with_key t r) \<notin> key ` set (tb_Rows t)"
  using ok_rows(3) by (fastforce simp: keyed_def)

lemma find_unique:
  "distinct (map key rows) \<Longrightarrow> find (\<lambda>r. key r = k) rows = Some r \<longleftrightarrow> r \<in> set rows \<and> key r = k"
  by (induction rows) auto

lemma find_Some: "table_ok key t \<Longrightarrow> find_row key k t = Some r \<longleftrightarrow> r \<in> set (tb_Rows t) \<and> key r = k"
  by (simp add: find_row_def find_unique ok_rows(2))

lemma find_None: "find_row key k t = None \<longleftrightarrow> k \<notin> key ` set (tb_Rows t)"
  by (auto simp: find_row_def find_None_iff)

lemma find_zero: "table_ok key t \<Longrightarrow> find_row key 0 t = None"
  using ok_rows(3) by (fastforce simp: find_None)

lemma set_put: "set (put_row key r rows) = insert r {old \<in> set rows. key old \<noteq> key r}"
proof (cases "key r \<in> key ` set rows")
  case False
  then have "\<And>x. x \<in> set rows \<Longrightarrow> key x \<noteq> key r" by (metis imageI)
  with False show ?thesis by (auto simp: put_row_def set_insort_key)
qed (auto simp: put_row_def)

lemma keys_put:
  assumes "sorted_wrt (<) (map key rows)"
  shows "sorted_wrt (<) (map key (put_row key r rows))"
proof (cases "key r \<in> key ` set rows")
  case True
  have "map key (map (\<lambda>old. if key old = key r then r else old) rows) = map key rows" by simp
  with True assms show ?thesis by (simp only: put_row_def if_True)
next
  case False
  have "sorted (map key rows)" "distinct (map key rows)" using assms by (simp_all add: strict_sorted_iff)
  moreover from this False have "distinct (map key (insort_key key r rows))"
    by (auto simp: distinct_map distinct_insort set_insort_key)
  ultimately show ?thesis using False by (simp add: put_row_def strict_sorted_iff sorted_insort_key)
qed

lemma save_rows:
  "set (tb_Rows (save_row key with_key r t))
     = insert (keyed key with_key t r) {old \<in> set (tb_Rows t). key old \<noteq> key (keyed key with_key t r)}"
  by (simp add: save_row_def Let_def set_put)

lemma save_ok:
  assumes "table_ok key t"
  shows "table_ok key (save_row key with_key r t)"
proof -
  have "sorted_wrt (<) (map key (tb_Rows (save_row key with_key r t)))"
    using keys_put [OF ok_rows(1) [OF assms]] by (simp add: save_row_def Let_def)
  moreover have "0 < key x \<and> key x \<le> tb_Seq (save_row key with_key r t)"
    if "x \<in> set (tb_Rows (save_row key with_key r t))" for x
  proof -
    have "x = keyed key with_key t r \<or> x \<in> set (tb_Rows t)" using that by (auto simp: save_rows)
    then show ?thesis
      using keyed_pos [of t r] ok_rows(3) [OF assms, of x] by (auto simp: save_row_def Let_def)
  qed
  ultimately show ?thesis by (simp add: table_ok_def list_all_iff)
qed

lemma find_saved:
  assumes "table_ok key t"
  shows "find_row key k (save_row key with_key r t)
    = (if k = key (keyed key with_key t r) then Some (keyed key with_key t r) else find_row key k t)"
proof (cases "find_row key k (save_row key with_key r t)")
  case None
  then have none: "k \<notin> key ` set (tb_Rows (save_row key with_key r t))" by (simp add: find_None)
  then have "k \<noteq> key (keyed key with_key t r)" by (auto simp: save_rows)
  moreover from none this have "find_row key k t = None" by (auto simp: find_None save_rows)
  ultimately show ?thesis using None by simp
next
  case (Some x)
  then have "x \<in> set (tb_Rows (save_row key with_key r t))" "key x = k"
    by (simp_all add: find_Some [OF save_ok [OF assms]])
  then consider "x = keyed key with_key t r" | "x \<in> set (tb_Rows t)" "k \<noteq> key (keyed key with_key t r)"
    by (auto simp: save_rows)
  then show ?thesis
  proof cases
    case 1
    then show ?thesis using Some \<open>key x = k\<close> by simp
  next
    case 2
    then have "find_row key k t = Some x" using \<open>key x = k\<close> by (simp add: find_Some [OF assms])
    then show ?thesis using 2 Some by simp
  qed
qed

lemma update_ok: "table_ok key t \<Longrightarrow> (\<And>r. key (f r) = key r) \<Longrightarrow> table_ok key (update_rows P f t)"
proof -
  assume "table_ok key t" and f: "\<And>r. key (f r) = key r"
  moreover have "map key (map (\<lambda>r. if P r then f r else r) rows) = map key rows" for rows
    using f by simp
  ultimately show ?thesis by (auto simp: table_ok_def update_rows_def list_all_iff simp del: map_map)
qed

lemma delete_ok: "table_ok key t \<Longrightarrow> table_ok key (delete_rows P t)"
  by (auto simp: table_ok_def delete_rows_def list_all_iff sorted_wrt_map sorted_wrt_filter)

lemma find_deleted:
  assumes "table_ok key t"
  shows "find_row key k (delete_rows P t) = (case find_row key k t of None \<Rightarrow> None | Some r \<Rightarrow> if P r then None else Some r)"
proof (cases "find_row key k (delete_rows P t)")
  case None
  then show ?thesis using find_Some [OF assms, of k] by (auto simp: find_None delete_rows_def split: option.splits)
next
  case (Some r)
  then have "r \<in> set (tb_Rows t)" "key r = k" "\<not> P r"
    using find_Some [OF delete_ok [OF assms]] by (auto simp: delete_rows_def)
  then show ?thesis using Some find_Some [OF assms, of k r] by simp
qed

text \<open>A row without a key is appended under the next one; deleting it by its key leaves no trace.\<close>

lemma insert_rows:
  assumes "table_ok key t" "key r = 0"
  shows "tb_Rows (save_row key with_key r t) = tb_Rows t @ [keyed key with_key t r]"
proof -
  let ?r = "keyed key with_key t r"
  have new: "key ?r \<notin> key ` set (tb_Rows t)" by (rule fresh_key [OF assms])
  have top: "\<forall>x\<in>set (tb_Rows t). key x \<le> key ?r"
    using ok_rows(3) [OF assms(1)] assms(2) by (fastforce simp: keyed_def)
  have "insort_key key ?r rows = rows @ [?r]" if "\<forall>x\<in>set rows. key x \<le> key ?r" "key ?r \<notin> key ` set rows" for rows
    using that by (induction rows) auto
  then show ?thesis using new top by (simp add: save_row_def put_row_def Let_def)
qed

lemma insert_seq: "key r = 0 \<Longrightarrow> tb_Seq (save_row key with_key r t) = Suc (tb_Seq t)"
  by (simp add: save_row_def keyed_def Let_def)

lemma insert_delete_rows:
  assumes "table_ok key t" "key r = 0"
  shows "tb_Rows (delete_rows (\<lambda>x. key x = key (keyed key with_key t r)) (save_row key with_key r t)) = tb_Rows t"
proof -
  have new: "key (keyed key with_key t r) \<notin> key ` set (tb_Rows t)" by (rule fresh_key [OF assms])
  have "filter (\<lambda>x. key x \<noteq> key (keyed key with_key t r)) (tb_Rows t) = tb_Rows t" using new by (intro filter_True) (metis imageI)
  then show ?thesis using insert_rows [OF assms] by (simp add: delete_rows_def)
qed

text \<open>Saving changed copies of rows of the table replaces them where they are.\<close>

lemma save_existing:
  assumes "table_ok key t" "key x \<in> key ` set (tb_Rows t)"
  shows "save_row key with_key x t = t\<lparr>tb_Rows := map (\<lambda>old. if key old = key x then x else old) (tb_Rows t)\<rparr>"
proof -
  obtain r where r: "r \<in> set (tb_Rows t)" "key r = key x" using assms(2) by force
  then have "0 < key x" "key x \<le> tb_Seq t" using ok_rows(3) [OF assms(1) r(1)] by simp_all
  then show ?thesis using assms(2) by (simp add: save_row_def keyed_def put_row_def Let_def)
qed

lemma save_all_existing:
  assumes "table_ok key t" "distinct (map key xs)" "key ` set xs \<subseteq> key ` set (tb_Rows t)"
  shows "foldl (\<lambda>t r. save_row key with_key r t) t xs
    = t\<lparr>tb_Rows := map (\<lambda>old. case find (\<lambda>x. key x = key old) xs of None \<Rightarrow> old | Some x \<Rightarrow> x) (tb_Rows t)\<rparr>"
  using assms
proof (induction xs arbitrary: t)
  case (Cons x xs)
  let ?t = "save_row key with_key x t"
  have t: "?t = t\<lparr>tb_Rows := map (\<lambda>old. if key old = key x then x else old) (tb_Rows t)\<rparr>"
    using Cons.prems by (intro save_existing) auto
  have "map key (tb_Rows ?t) = map key (tb_Rows t)" by (simp add: t)
  then have keys: "key ` set (tb_Rows ?t) = key ` set (tb_Rows t)" by (metis list.set_map)
  have none: "find (\<lambda>y. key y = key x) xs = None"
    using Cons.prems(2) by (simp add: find_None_iff) (metis imageI)
  have "foldl (\<lambda>t r. save_row key with_key r t) ?t xs
      = ?t\<lparr>tb_Rows := map (\<lambda>old. case find (\<lambda>x. key x = key old) xs of None \<Rightarrow> old | Some x \<Rightarrow> x) (tb_Rows ?t)\<rparr>"
    using Cons.prems keys by (intro Cons.IH save_ok) auto
  moreover have "(case find (\<lambda>y. key y = key (if key old = key x then x else old)) xs of
        None \<Rightarrow> if key old = key x then x else old | Some y \<Rightarrow> y)
      = (case find (\<lambda>y. key y = key old) (x # xs) of None \<Rightarrow> old | Some y \<Rightarrow> y)" for old
    using none by auto
  ultimately show ?case by (simp add: t)
qed simp

lemma save_changed:
  assumes "table_ok key t" "distinct (map key xs)" "set xs \<subseteq> set (tb_Rows t)" "\<And>r. key (f r) = key r"
  shows "foldl (\<lambda>t r. save_row key with_key r t) t (map f xs) = update_rows (\<lambda>r. r \<in> set xs) f t"
proof -
  have "map key (map f xs) = map key xs" using assms(4) by simp
  then have "foldl (\<lambda>t r. save_row key with_key r t) t (map f xs)
      = t\<lparr>tb_Rows := map (\<lambda>old. case find (\<lambda>x. key x = key old) (map f xs) of None \<Rightarrow> old | Some x \<Rightarrow> x) (tb_Rows t)\<rparr>"
    using assms by (intro save_all_existing) (auto simp del: map_map)
  moreover have "(case find (\<lambda>x. key x = key old) (map f xs) of None \<Rightarrow> old | Some x \<Rightarrow> x)
      = (if old \<in> set xs then f old else old)" if old: "old \<in> set (tb_Rows t)" for old
  proof -
    have "find (\<lambda>x. key x = key old) (map f xs) = map_option f (find (\<lambda>x. key x = key old) xs)"
      by (induction xs) (simp_all add: assms(4))
    moreover have "find (\<lambda>x. key x = key old) xs = (if old \<in> set xs then Some old else None)"
    proof (cases "old \<in> set xs")
      case True
      then show ?thesis using find_unique [OF assms(2), of "key old" old] by simp
    next
      case False
      have "key x \<noteq> key old" if "x \<in> set xs" for x
        using that assms(3) old False ok_rows(2) [OF assms(1)] by (auto simp: distinct_map dest: inj_onD)
      then show ?thesis using False by (auto simp: find_None_iff)
    qed
    ultimately show ?thesis by simp
  qed
  ultimately show ?thesis by (simp add: update_rows_def cong: map_cong)
qed

end

locale tagged_table = keyed_table key with_key
  for key :: "'r \<Rightarrow> nat" and with_key :: "nat \<Rightarrow> 'r \<Rightarrow> 'r" +
  fixes tag :: "'r \<Rightarrow> string"
  assumes tag_with [simp]: "tag (with_key k r) = tag r"
begin

lemma tag_keyed [simp]: "tag (keyed key with_key t r) = tag r"
  by (simp add: keyed_def)

lemma save_tagged_Inr:
  "save_tagged key with_key tag r t = Inr (r', t') \<longleftrightarrow>
     r' = keyed key with_key t r \<and> t' = save_row key with_key r t \<and> \<not> tag_taken key tag r' t"
  by (auto simp: save_tagged_def Let_def)

lemma distinct_tags: "tags_ok tag t \<Longrightarrow> x \<in> set (tb_Rows t) \<Longrightarrow> y \<in> set (tb_Rows t) \<Longrightarrow> tag x = tag y \<Longrightarrow> x = y"
  by (auto simp: tags_ok_def distinct_map dest: inj_onD)

lemma tags_unique:
  assumes "distinct (map key rows)" "\<And>x y. x \<in> set rows \<Longrightarrow> y \<in> set rows \<Longrightarrow> tag x = tag y \<Longrightarrow> key x = key y"
  shows "distinct (map tag rows)"
proof -
  have "inj_on key (set rows)" "distinct rows" using assms(1) by (simp_all add: distinct_map)
  moreover from this assms(2) have "inj_on tag (set rows)" by (meson inj_on_def)
  ultimately show ?thesis by (simp add: distinct_map)
qed

lemma save_tags_ok:
  assumes ok: "table_ok key t" "tags_ok tag t" and res: "save_tagged key with_key tag r t = Inr (r', t')"
  shows "tags_ok tag t'"
  unfolding tags_ok_def
proof (rule tags_unique)
  have t': "t' = save_row key with_key r t" "r' = keyed key with_key t r" and free: "\<not> tag_taken key tag r' t"
    using res by (auto simp: save_tagged_Inr)
  show "distinct (map key (tb_Rows t'))" using ok_rows(2) [OF save_ok [OF ok(1)]] t' by simp
  have clash: "key x = key r'" if "x \<in> set (tb_Rows t)" "tag x = tag r'" for x
    using free that by (auto simp: tag_taken_def list_ex_iff)
  fix x y
  assume xy: "x \<in> set (tb_Rows t')" "y \<in> set (tb_Rows t')" "tag x = tag y"
  then have "x = r' \<or> x \<in> set (tb_Rows t)" "y = r' \<or> y \<in> set (tb_Rows t)" by (auto simp: t' save_rows)
  then consider "x = r'" "y = r'" | "x = r'" "y \<in> set (tb_Rows t)" | "x \<in> set (tb_Rows t)" "y = r'"
    | "x \<in> set (tb_Rows t)" "y \<in> set (tb_Rows t)" by blast
  then show "key x = key y"
  proof cases
    case 2
    then show ?thesis using clash [of y] xy(3) by simp
  next
    case 3
    then show ?thesis using clash [of x] xy(3) by simp
  next
    case 4
    then show ?thesis using distinct_tags [OF ok(2) _ _ xy(3)] by simp
  qed simp
qed

lemma update_tags_ok: "tags_ok tag t \<Longrightarrow> (\<And>r. tag (f r) = tag r) \<Longrightarrow> tags_ok tag (update_rows P f t)"
proof -
  assume "tags_ok tag t" and f: "\<And>r. tag (f r) = tag r"
  moreover have "map tag (map (\<lambda>r. if P r then f r else r) rows) = map tag rows" for rows
    using f by simp
  ultimately show ?thesis by (simp add: tags_ok_def update_rows_def del: map_map)
qed

lemma delete_tags_ok: "tags_ok tag t \<Longrightarrow> tags_ok tag (delete_rows P t)"
  by (simp add: tags_ok_def delete_rows_def distinct_map_filter)

end

section \<open>The tables of the panel\<close>

abbreviation "with_tls_Id k \<equiv> tls_Id_update (\<lambda>_. k)"
abbreviation "with_in_Id k \<equiv> in_Id_update (\<lambda>_. k)"
abbreviation "with_out_Id k \<equiv> out_Id_update (\<lambda>_. k)"
abbreviation "with_ep_Id k \<equiv> ep_Id_update (\<lambda>_. k)"
abbreviation "with_sv_Id k \<equiv> sv_Id_update (\<lambda>_. k)"
abbreviation "with_cl_Id k \<equiv> cl_Id_update (\<lambda>_. k)"
abbreviation "with_rp_Id k \<equiv> rp_Id_update (\<lambda>_. k)"
abbreviation "with_rl_Id k \<equiv> rl_Id_update (\<lambda>_. k)"

interpretation tlss: keyed_table tls_Id "\<lambda>k. with_tls_Id k"
  by unfold_locales simp

interpretation inbounds: tagged_table in_Id "\<lambda>k. with_in_Id k" in_Tag
  by unfold_locales simp_all

interpretation outbounds: tagged_table out_Id "\<lambda>k. with_out_Id k" out_Tag
  by unfold_locales simp_all

interpretation endpoints: tagged_table ep_Id "\<lambda>k. with_ep_Id k" ep_Tag
  by unfold_locales simp_all

interpretation services: tagged_table sv_Id "\<lambda>k. with_sv_Id k" sv_Tag
  by unfold_locales simp_all

interpretation clients: keyed_table cl_Id "\<lambda>k. with_cl_Id k"
  by unfold_locales simp

interpretation pools: keyed_table rp_Id "\<lambda>k. with_rp_Id k"
  by unfold_locales simp

interpretation links: tagged_table rl_Id "\<lambda>k. with_rl_Id k" rl_Token
  by unfold_locales simp_all

text \<open>
  The settings are text by key; the value of the key \<^verbatim>\<open>config\<close> is a JSON document and is kept
  decoded. The rows of \<^verbatim>\<open>changes\<close> are only ever appended, so the key of a row is its position.
\<close>

record panel_db =
  db_Settings :: "(string \<times> string) list"
  db_Config :: "raw option"
  db_Tls :: "tls_row table"
  db_Inbounds :: "inbound table"
  db_Outbounds :: "outbound table"
  db_Endpoints :: "endpoint table"
  db_Services :: "service_row table"
  db_Clients :: "client table"
  db_Stats :: "stat_row list"
  db_Changes :: "change list"
  db_Pools :: "relay_pool table"
  db_Links :: "relay_link table"

definition empty_db :: panel_db where
  "empty_db = \<lparr>db_Settings = [], db_Config = None, db_Tls = empty_table, db_Inbounds = empty_table,
     db_Outbounds = empty_table, db_Endpoints = empty_table, db_Services = empty_table,
     db_Clients = empty_table, db_Stats = [], db_Changes = [], db_Pools = empty_table, db_Links = empty_table\<rparr>"

definition db_ok :: "panel_db \<Rightarrow> bool" where
  "db_ok db \<longleftrightarrow> table_ok tls_Id (db_Tls db) \<and> table_ok in_Id (db_Inbounds db) \<and> tags_ok in_Tag (db_Inbounds db)
     \<and> table_ok out_Id (db_Outbounds db) \<and> tags_ok out_Tag (db_Outbounds db)
     \<and> table_ok ep_Id (db_Endpoints db) \<and> tags_ok ep_Tag (db_Endpoints db)
     \<and> table_ok sv_Id (db_Services db) \<and> tags_ok sv_Tag (db_Services db)
     \<and> table_ok cl_Id (db_Clients db) \<and> table_ok rp_Id (db_Pools db)
     \<and> table_ok rl_Id (db_Links db) \<and> tags_ok rl_Token (db_Links db)"

text \<open>A row holds the number of its TLS configuration; \<^verbatim>\<open>Preload("Tls")\<close> looks the row up.\<close>

definition preload_inbound :: "panel_db \<Rightarrow> inbound \<Rightarrow> inbound" where
  "preload_inbound db i = i\<lparr>in_Tls := find_row tls_Id (in_TlsId i) (db_Tls db)\<rparr>"

definition preload_service :: "panel_db \<Rightarrow> service_row \<Rightarrow> service_row" where
  "preload_service db s = s\<lparr>sv_Tls := find_row tls_Id (sv_TlsId s) (db_Tls db)\<rparr>"

definition add_change :: "change \<Rightarrow> panel_db \<Rightarrow> panel_db" where
  "add_change c db = db\<lparr>db_Changes := db_Changes db @ [c]\<rparr>"

lemma preload_simps [simp]:
  "in_Id (preload_inbound db i) = in_Id i" "in_Tag (preload_inbound db i) = in_Tag i"
  "in_Type (preload_inbound db i) = in_Type i" "in_TlsId (preload_inbound db i) = in_TlsId i"
  "in_CoreType (preload_inbound db i) = in_CoreType i" "in_OutJson (preload_inbound db i) = in_OutJson i"
  "in_Options (preload_inbound db i) = in_Options i" "in_Addrs (preload_inbound db i) = in_Addrs i"
  "RuntimeCore (preload_inbound db i) = RuntimeCore i" "sv_Tag (preload_service db s) = sv_Tag s"
  "sv_Id (preload_service db s) = sv_Id s"
  by (simp_all add: preload_inbound_def preload_service_def RuntimeCore_def)

lemma db_ok_empty: "db_ok empty_db"
  by (simp add: db_ok_def empty_db_def empty_table_def table_ok_def tags_ok_def)

text \<open>The facts that carry \<^const>\<open>db_ok\<close> through the operations.\<close>

lemmas tables_ok =
  tlss.save_ok tlss.delete_ok clients.save_ok clients.update_ok clients.delete_ok
  inbounds.save_ok inbounds.update_ok inbounds.delete_ok inbounds.save_tags_ok inbounds.update_tags_ok inbounds.delete_tags_ok
  outbounds.save_ok outbounds.update_ok outbounds.delete_ok outbounds.save_tags_ok outbounds.update_tags_ok outbounds.delete_tags_ok
  endpoints.save_ok endpoints.delete_ok endpoints.save_tags_ok endpoints.delete_tags_ok
  services.save_ok services.delete_ok services.save_tags_ok services.delete_tags_ok
  pools.save_ok pools.update_ok pools.delete_ok
  links.save_ok links.update_ok links.delete_ok links.save_tags_ok links.update_tags_ok links.delete_tags_ok

end
