(* ===== verification/Traffic_Stats.thy ===== *)
theory Traffic_Stats
  imports Panel_Db
begin

text \<open>
  Traffic accounting (\<^verbatim>\<open>core/tracker_stats.go\<close>, \<^verbatim>\<open>service/stats.go\<close>). The running core counts the bytes
  of every connection in counters shared by all connections of an inbound, an outbound or a
  user; a job collects them every ten seconds, adds them to the clients and to a table of
  statistics. A counter is a heap cell: a connection keeps the addresses of its counters, also
  after the tracker was reset. Counts are integers; a 64-bit counter does not overflow between
  two runs of the job.
\<close>

section \<open>The tracker\<close>

type_synonym caddr = nat

text \<open>A counter: the cell of the bytes read from the connections and the cell of those written.\<close>

type_synonym counter = "caddr \<times> caddr"

record stats_tracker =
  tk_Cells :: "caddr \<Rightarrow> int"
  tk_Next :: caddr
  tk_Inbounds :: "(string \<times> counter) list"
  tk_Outbounds :: "(string \<times> counter) list"
  tk_Users :: "(string \<times> counter) list"

definition NewStatsTracker :: stats_tracker where
  "NewStatsTracker = \<lparr>tk_Cells = (\<lambda>_. 0), tk_Next = 0, tk_Inbounds = [], tk_Outbounds = [], tk_Users = []\<rparr>"

definition tracker_Reset :: "stats_tracker \<Rightarrow> stats_tracker" where
  "tracker_Reset t = t\<lparr>tk_Inbounds := [], tk_Outbounds := [], tk_Users := []\<rparr>"

text \<open>\<open>loadOrCreateCounter\<close> on one of the three maps; a new counter takes two fresh cells.\<close>

definition loadOrCreateCounter ::
  "(string \<times> counter) list \<Rightarrow> string \<Rightarrow> (caddr \<Rightarrow> int) \<Rightarrow> caddr \<Rightarrow> counter \<times> (string \<times> counter) list \<times> (caddr \<Rightarrow> int) \<times> caddr" where
  "loadOrCreateCounter obj name cells next =
     (case map_of obj name of
        Some c \<Rightarrow> (c, obj, cells, next)
      | None \<Rightarrow> ((next, Suc next), obj @ [(name, (next, Suc next))], cells(next := 0, Suc next := 0), Suc (Suc next)))"

definition with_inbound :: "string \<Rightarrow> stats_tracker \<Rightarrow> counter list \<times> stats_tracker" where
  "with_inbound name t =
     (if name = [] then ([], t)
      else let (c, obj, cells, next) = loadOrCreateCounter (tk_Inbounds t) name (tk_Cells t) (tk_Next t)
           in ([c], t\<lparr>tk_Inbounds := obj, tk_Cells := cells, tk_Next := next\<rparr>))"

definition with_outbound :: "string \<Rightarrow> stats_tracker \<Rightarrow> counter list \<times> stats_tracker" where
  "with_outbound name t =
     (if name = [] then ([], t)
      else let (c, obj, cells, next) = loadOrCreateCounter (tk_Outbounds t) name (tk_Cells t) (tk_Next t)
           in ([c], t\<lparr>tk_Outbounds := obj, tk_Cells := cells, tk_Next := next\<rparr>))"

definition with_user :: "string \<Rightarrow> stats_tracker \<Rightarrow> counter list \<times> stats_tracker" where
  "with_user name t =
     (if name = [] then ([], t)
      else let (c, obj, cells, next) = loadOrCreateCounter (tk_Users t) name (tk_Cells t) (tk_Next t)
           in ([c], t\<lparr>tk_Users := obj, tk_Cells := cells, tk_Next := next\<rparr>))"

definition getReadCounters :: "string \<Rightarrow> string \<Rightarrow> string \<Rightarrow> stats_tracker \<Rightarrow> (caddr list \<times> caddr list) \<times> stats_tracker" where
  "getReadCounters inbound outbound user t =
     (let (a, t1) = with_inbound inbound t; (b, t2) = with_outbound outbound t1; (c, t3) = with_user user t2;
          cs = a @ b @ c
      in ((map fst cs, map snd cs), t3))"

text \<open>The connection the tracker returns is the library's counting wrapper: it adds the bytes of a read or a write to each of its counters.\<close>

definition count_bytes :: "caddr list \<Rightarrow> int \<Rightarrow> stats_tracker \<Rightarrow> stats_tracker" where
  "count_bytes addrs n t = t\<lparr>tk_Cells := foldl (\<lambda>cells a. cells(a := cells a + n)) (tk_Cells t) addrs\<rparr>"

text \<open>Reading the counters of one map and setting them to zero; a counter with no bytes gives no rows.\<close>

definition counter_rows :: "string \<Rightarrow> int \<Rightarrow> string \<Rightarrow> int \<Rightarrow> int \<Rightarrow> stat_row list" where
  "counter_rows resource dt tag down up =
     (if down > 0 \<or> up > 0 then
        [\<lparr>st_DateTime = dt, st_Resource = resource, st_Tag = tag, st_Direction = False, st_Traffic = down\<rparr>,
         \<lparr>st_DateTime = dt, st_Resource = resource, st_Tag = tag, st_Direction = True, st_Traffic = up\<rparr>]
      else [])"

fun swap_counters :: "string \<Rightarrow> int \<Rightarrow> (string \<times> counter) list \<Rightarrow> (caddr \<Rightarrow> int) \<Rightarrow> stat_row list \<times> (caddr \<Rightarrow> int)" where
  "swap_counters resource dt [] cells = ([], cells)"
| "swap_counters resource dt ((tag, (r, w)) # cs) cells =
     (let (rows, cells') = swap_counters resource dt cs (cells(w := 0, r := 0))
      in (counter_rows resource dt tag (cells w) (cells r) @ rows, cells'))"

definition tracker_GetStats :: "int \<Rightarrow> stats_tracker \<Rightarrow> stat_row list \<times> stats_tracker" where
  "tracker_GetStats dt t =
     (let (a, c1) = swap_counters ''inbound'' dt (tk_Inbounds t) (tk_Cells t);
          (b, c2) = swap_counters ''outbound'' dt (tk_Outbounds t) c1;
          (c, c3) = swap_counters ''user'' dt (tk_Users t) c2
      in (a @ b @ c, t\<lparr>tk_Cells := c3\<rparr>))"

section \<open>Saving the statistics\<close>

record onlines =
  on_Inbound :: "string list"
  on_User :: "string list"
  on_Outbound :: "string list"

definition no_onlines :: onlines where
  "no_onlines = \<lparr>on_Inbound = [], on_User = [], on_Outbound = []\<rparr>"

definition add_new :: "string \<Rightarrow> string list \<Rightarrow> string list" where
  "add_new x xs = (if x \<in> set xs then xs else xs @ [x])"

definition note_online :: "onlines \<Rightarrow> stat_row \<Rightarrow> onlines" where
  "note_online on s =
     (if st_Resource s = ''inbound'' then on\<lparr>on_Inbound := add_new (st_Tag s) (on_Inbound on)\<rparr>
      else if st_Resource s = ''outbound'' then on\<lparr>on_Outbound := add_new (st_Tag s) (on_Outbound on)\<rparr>
      else if st_Resource s = ''user'' then on\<lparr>on_User := add_new (st_Tag s) (on_User on)\<rparr>
      else on)"

text \<open>The traffic of each user: the bytes up and down of its rows.\<close>

definition add_traffic :: "(string \<times> int \<times> int) list \<Rightarrow> stat_row \<Rightarrow> (string \<times> int \<times> int) list" where
  "add_traffic ut s =
     (if st_Resource s \<noteq> ''user'' then ut
      else let (up, down) = (case map_of ut (st_Tag s) of Some p \<Rightarrow> p | None \<Rightarrow> (0, 0))
           in AList.update (st_Tag s)
                (if st_Direction s then (up + st_Traffic s, down) else (up, down + st_Traffic s)) ut)"

definition client_traffic :: "int \<Rightarrow> int \<times> int \<Rightarrow> client \<Rightarrow> client" where
  "client_traffic now t c =
     c\<lparr>cl_OnlineAt := now, cl_Up := (if fst t > 0 then cl_Up c + fst t else cl_Up c),
       cl_Down := (if snd t > 0 then cl_Down c + snd t else cl_Down c)\<rparr>"

definition update_client :: "int \<Rightarrow> panel_db \<Rightarrow> string \<times> int \<times> int \<Rightarrow> panel_db" where
  "update_client now db u =
     db\<lparr>db_Clients := update_rows (\<lambda>c. cl_Name c = fst u) (client_traffic now (snd u)) (db_Clients db)\<rparr>"

definition same_bucket :: "stat_row \<Rightarrow> stat_row \<Rightarrow> bool" where
  "same_bucket a b \<longleftrightarrow> st_Resource a = st_Resource b \<and> st_Tag a = st_Tag b \<and> st_DateTime a = st_DateTime b
     \<and> st_Direction a = st_Direction b"

text \<open>\<^verbatim>\<open>ON CONFLICT ... DO UPDATE SET traffic = stats.traffic + excluded.traffic\<close>\<close>

definition upsert_stat :: "stat_row list \<Rightarrow> stat_row \<Rightarrow> stat_row list" where
  "upsert_stat rows s =
     (if list_ex (same_bucket s) rows
      then map (\<lambda>r. if same_bucket s r then r\<lparr>st_Traffic := st_Traffic r + st_Traffic s\<rparr> else r) rows
      else rows @ [s])"

text \<open>What the database and its driver answer: the error of an update, of the insertion, of the commit.\<close>

record stats_env =
  se_Update :: "string \<Rightarrow> string option"
  se_Create :: "string option"
  se_Commit :: "string option"

fun update_users :: "stats_env \<Rightarrow> int \<Rightarrow> (string \<times> int \<times> int) list \<Rightarrow> panel_db \<Rightarrow> panel_db result" where
  "update_users env now [] db = Inr db"
| "update_users env now (u # us) db =
     (case se_Update env (fst u) of Some e \<Rightarrow> Inl e | None \<Rightarrow> update_users env now us (update_client now db u))"

definition to_bucket :: "int \<Rightarrow> int \<Rightarrow> int" where
  "to_bucket now seconds = (let b = (if seconds < 1 then 1 else seconds) in now - now mod b)"

definition stats_transaction :: "stats_env \<Rightarrow> bool \<Rightarrow> int \<Rightarrow> int \<Rightarrow> stat_row list \<Rightarrow> panel_db \<Rightarrow> panel_db result" where
  "stats_transaction env enableTraffic seconds now stats db =
     bindr (update_users env now (foldl add_traffic [] stats) db) (\<lambda>db1.
       if \<not> enableTraffic then Inr db1
       else case se_Create env of
         Some e \<Rightarrow> Inl e
       | None \<Rightarrow> Inr (db1\<lparr>db_Stats := foldl upsert_stat (db_Stats db1)
           (map (\<lambda>s. s\<lparr>st_DateTime := to_bucket now seconds\<rparr>) stats)\<rparr>))"

text \<open>
  \<open>SaveStats\<close> of a running core. The deferred function commits or rolls back; the error of the
  commit is not looked at.
\<close>

record stats_state =
  ss_Tracker :: stats_tracker
  ss_Db :: panel_db
  ss_Onlines :: onlines

definition SaveStats :: "stats_env \<Rightarrow> bool \<Rightarrow> int \<Rightarrow> int \<Rightarrow> stats_state \<Rightarrow> unit result \<times> stats_state" where
  "SaveStats env enableTraffic seconds now s =
     (let (stats, t) = tracker_GetStats now (ss_Tracker s);
          s1 = s\<lparr>ss_Tracker := t, ss_Onlines := foldl note_online no_onlines stats\<rparr>
      in if stats = [] then (Inr (), s1)
         else case stats_transaction env enableTraffic seconds now stats (ss_Db s) of
           Inl e \<Rightarrow> (Inl e, s1)
         | Inr db \<Rightarrow> (Inr (), if se_Commit env = None then s1\<lparr>ss_Db := db\<rparr> else s1))"

section \<open>Reading the statistics\<close>

definition stats_window :: "int \<Rightarrow> int \<Rightarrow> int \<Rightarrow> int \<Rightarrow> int \<times> int" where
  "stats_window limit start until now =
     (if start > 0 \<and> until > start then (start, until) else (now - limit * 3600, now))"

definition stats_selected :: "string \<Rightarrow> string \<Rightarrow> int \<Rightarrow> int \<Rightarrow> stat_row \<Rightarrow> bool" where
  "stats_selected resource tag startTime endTime s \<longleftrightarrow>
     st_Resource s \<in> set (if resource = ''endpoint'' then [''inbound'', ''outbound''] else [resource])
     \<and> st_Tag s = tag \<and> st_DateTime s > startTime \<and> st_DateTime s \<le> endTime"

definition bucket_count :: "int \<Rightarrow> int \<Rightarrow> int \<Rightarrow> int" where
  "bucket_count seconds startTime endTime =
     (let b = (if seconds < 1 then 1 else seconds); most = (endTime - startTime) div b in
      if (if most < 360 then most else 360) < 1 then 1 else if most < 360 then most else 360)"

definition bucket_span :: "int \<Rightarrow> int \<Rightarrow> int \<Rightarrow> int" where
  "bucket_span startTime endTime n = (let d = (endTime - startTime) div n in if d = 0 then 1 else d)"

definition bucket_of :: "int \<Rightarrow> int \<Rightarrow> int \<Rightarrow> int \<Rightarrow> int" where
  "bucket_of startTime width n dt =
     (let b = (dt - startTime) div width in if b < 0 then 0 else if b \<ge> n then n - 1 else b)"

text \<open>The map from buckets to the bytes up and down.\<close>

definition add_to_bucket :: "int \<Rightarrow> int \<Rightarrow> int \<Rightarrow> (int \<times> int \<times> int) list \<Rightarrow> stat_row \<Rightarrow> (int \<times> int \<times> int) list" where
  "add_to_bucket startTime width n m r =
     (let b = bucket_of startTime width n (st_DateTime r);
          (up, down) = (case map_of m b of Some p \<Rightarrow> p | None \<Rightarrow> (0, 0))
      in AList.update b (if st_Direction r then (up + st_Traffic r, down) else (up, down + st_Traffic r)) m)"

definition downsampleStats :: "stat_row list \<Rightarrow> int \<Rightarrow> int \<Rightarrow> int \<Rightarrow> (int \<times> int \<times> int) list \<times> int" where
  "downsampleStats stats startTime endTime n =
     (let width = bucket_span startTime endTime n
      in (foldl (add_to_bucket startTime width n) [] stats, width))"

definition StatsService_GetStats ::
  "panel_db \<Rightarrow> int \<Rightarrow> string \<Rightarrow> string \<Rightarrow> int \<Rightarrow> int \<Rightarrow> int \<Rightarrow> int \<Rightarrow> (int \<times> int \<times> int) list \<times> int \<times> int \<times> int" where
  "StatsService_GetStats db seconds resource tag limit start until now =
     (let (startTime, endTime) = stats_window limit start until now;
          rows = filter (stats_selected resource tag startTime endTime) (db_Stats db);
          n = bucket_count seconds startTime endTime;
          (m, width) = downsampleStats (sort_key st_DateTime rows) startTime endTime n
      in (m, startTime, width, n))"

definition DelOldStats :: "int \<Rightarrow> panel_db \<Rightarrow> panel_db" where
  "DelOldStats oldTime db = db\<lparr>db_Stats := filter (\<lambda>s. \<not> st_DateTime s < oldTime) (db_Stats db)\<rparr>"

end
