(* ===== verification/Clients.thy ===== *)
theory Clients
  imports Panel_Db Gen_Link
begin

text \<open>
  The clients of the panel (\<^verbatim>\<open>service/client.go\<close>): saving them in the five ways the panel offers,
  keeping their share links in step with the inbounds, and the two jobs that reset and deplete
  their traffic. Every operation is a function of the transaction's database and returns the ids
  of the inbounds whose users may have changed.

  \<open>ce_SameBytes\<close> compares two stored JSON texts: equal bytes hold equal values, while equal
  values may be written differently.
\<close>

record client_env =
  ce_Link :: link_env
  ce_Now :: int
  ce_SameBytes :: "raw \<Rightarrow> raw \<Rightarrow> bool"

section \<open>A client as JSON\<close>

text \<open>\<open>json.Unmarshal\<close> into the fields of a struct: absent and \<^verbatim>\<open>null\<close> leave the zero value.\<close>

definition field_str :: "gmap \<Rightarrow> string \<Rightarrow> string result" where
  "field_str m k = (case mget m k of GStr s \<Rightarrow> Inr s | GNil \<Rightarrow> Inr [] | _ \<Rightarrow> Inl json_err)"

definition field_bool :: "gmap \<Rightarrow> string \<Rightarrow> bool result" where
  "field_bool m k = (case mget m k of GBool b \<Rightarrow> Inr b | GNil \<Rightarrow> Inr False | _ \<Rightarrow> Inl json_err)"

definition field_int :: "gmap \<Rightarrow> string \<Rightarrow> int result" where
  "field_int m k = (case mget m k of
     GFloat r \<Rightarrow> if of_int \<lfloor>r\<rfloor> = r \<and> - (2 ^ 63) \<le> \<lfloor>r\<rfloor> \<and> \<lfloor>r\<rfloor> < 2 ^ 63 then Inr \<lfloor>r\<rfloor> else Inl json_err
   | GNil \<Rightarrow> Inr 0 | _ \<Rightarrow> Inl json_err)"

definition field_uint :: "gmap \<Rightarrow> string \<Rightarrow> nat result" where
  "field_uint m k = (case mget m k of
     GFloat r \<Rightarrow> if of_int \<lfloor>r\<rfloor> = r \<and> 0 \<le> r \<and> \<lfloor>r\<rfloor> < 2 ^ 64 then Inr (nat \<lfloor>r\<rfloor>) else Inl json_err
   | GNil \<Rightarrow> Inr 0 | _ \<Rightarrow> Inl json_err)"

definition field_raw :: "gmap \<Rightarrow> string \<Rightarrow> raw" where
  "field_raw m k = (if mhas m k then RVal (mget m k) else RNil)"

definition client_of_map :: "gmap \<Rightarrow> client result" where
  "client_of_map m =
     bindr (field_uint m ''id'') (\<lambda>id. bindr (field_bool m ''enable'') (\<lambda>enable.
     bindr (field_str m ''name'') (\<lambda>name. bindr (field_int m ''volume'') (\<lambda>volume.
     bindr (field_int m ''expiry'') (\<lambda>expiry. bindr (field_int m ''down'') (\<lambda>down.
     bindr (field_int m ''up'') (\<lambda>up. bindr (field_str m ''desc'') (\<lambda>desc.
     bindr (field_str m ''group'') (\<lambda>group. bindr (field_str m ''remark'') (\<lambda>remark.
     bindr (field_int m ''createdAt'') (\<lambda>createdAt. bindr (field_int m ''onlineAt'') (\<lambda>onlineAt.
     bindr (field_bool m ''delayStart'') (\<lambda>delayStart. bindr (field_bool m ''autoReset'') (\<lambda>autoReset.
     bindr (field_int m ''resetDays'') (\<lambda>resetDays. bindr (field_int m ''nextReset'') (\<lambda>nextReset.
     bindr (field_int m ''totalUp'') (\<lambda>totalUp. bindr (field_int m ''totalDown'') (\<lambda>totalDown.
     Inr \<lparr>cl_Id = id, cl_Enable = enable, cl_Name = name, cl_Config = field_raw m ''config'',
       cl_Inbounds = field_raw m ''inbounds'', cl_Links = field_raw m ''links'', cl_Volume = volume,
       cl_Expiry = expiry, cl_Down = down, cl_Up = up, cl_Desc = desc, cl_Group = group, cl_Remark = remark,
       cl_CreatedAt = createdAt, cl_OnlineAt = onlineAt, cl_DelayStart = delayStart, cl_AutoReset = autoReset,
       cl_ResetDays = resetDays, cl_NextReset = nextReset, cl_TotalUp = totalUp, cl_TotalDown = totalDown\<rparr>))))))))))))))))))"

definition Client_of_JSON :: "raw \<Rightarrow> client result" where
  "Client_of_JSON data = (case decode_map data of None \<Rightarrow> Inl json_err | Some m \<Rightarrow> client_of_map m)"

text \<open>\<^verbatim>\<open>[]*model.Client\<close>: a \<^verbatim>\<open>null\<close> element is a nil pointer, which every use dereferences.\<close>

definition Clients_of_JSON :: "raw \<Rightarrow> client list result" where
  "Clients_of_JSON data = (case data of
     RVal (GList xs) \<Rightarrow> mapr (\<lambda>x. case x of GMap m \<Rightarrow> client_of_map m | GNil \<Rightarrow> panic_nil | _ \<Rightarrow> Inl json_err) xs
   | RVal GNil \<Rightarrow> Inr []
   | _ \<Rightarrow> Inl json_err)"

definition ids_of :: "raw \<Rightarrow> nat list result" where
  "ids_of r = (case decode_uints r of None \<Rightarrow> Inl json_err | Some ns \<Rightarrow> Inr ns)"

text \<open>
  \<open>json.Unmarshal(r, &ids)\<close> whose error is not looked at: the elements that do not fit are zero,
  a document that is no array leaves the slice empty.
\<close>

definition lenient_ids :: "raw \<Rightarrow> nat list" where
  "lenient_ids r = (case r of
     RVal (GList xs) \<Rightarrow> map (\<lambda>x. case all_uints [x] of Some [n] \<Rightarrow> n | _ \<Rightarrow> 0) xs
   | _ \<Rightarrow> [])"

text \<open>
  A share link of a client is a \<^verbatim>\<open>map[string]string\<close>, here the object of strings or, for the nil
  map, \<^const>\<open>GNil\<close>.
\<close>

definition link_get :: "gval \<Rightarrow> string \<Rightarrow> string" where
  "link_get link k = as_str (mget (as_map link) k)"

definition string_fields :: "gval \<Rightarrow> gval" where
  "string_fields x = (case x of GMap m \<Rightarrow> GMap (map (map_prod id (\<lambda>v. GStr (as_str v))) m) | _ \<Rightarrow> GNil)"

definition string_object :: "gval \<Rightarrow> bool" where
  "string_object x = (case x of
     GMap m \<Rightarrow> list_all (\<lambda>(_, v). case v of GStr _ \<Rightarrow> True | GNil \<Rightarrow> True | _ \<Rightarrow> False) m
   | GNil \<Rightarrow> True | _ \<Rightarrow> False)"

definition links_of :: "raw \<Rightarrow> gval list result" where
  "links_of r = (case r of
     RVal (GList xs) \<Rightarrow> if list_all string_object xs then Inr (map string_fields xs) else Inl json_err
   | RVal GNil \<Rightarrow> Inr []
   | _ \<Rightarrow> Inl json_err)"

definition lenient_links :: "raw \<Rightarrow> gval list" where
  "lenient_links r = (case r of RVal (GList xs) \<Rightarrow> map string_fields xs | _ \<Rightarrow> [])"

text \<open>A nil slice is written as \<^verbatim>\<open>null\<close>, an empty one that was made as \<^verbatim>\<open>[]\<close>.\<close>

definition nil_links_raw :: "gval list \<Rightarrow> raw" where
  "nil_links_raw ls = RVal (if ls = [] then GNil else GList ls)"

definition nil_ids_raw :: "nat list \<Rightarrow> raw" where
  "nil_ids_raw ns = (if ns = [] then RVal GNil else uints_raw ns)"

definition local_link :: "string \<Rightarrow> string \<Rightarrow> gval" where
  "local_link tag uri = GMap [(''remark'', GStr tag), (''type'', GStr ''local''), (''uri'', GStr uri)]"

section \<open>Rows\<close>

definition save_client :: "client \<Rightarrow> panel_db \<Rightarrow> panel_db" where
  "save_client c db = db\<lparr>db_Clients := save_row cl_Id (\<lambda>k. with_cl_Id k) c (db_Clients db)\<rparr>"

text \<open>\<open>tx.Save\<close> of a slice: an empty one is an error of the database layer.\<close>

definition save_clients :: "client list \<Rightarrow> panel_db \<Rightarrow> panel_db result" where
  "save_clients cs db = (if cs = [] then Inl ''empty slice found'' else Inr (foldl (\<lambda>db c. save_client c db) db cs))"

definition find_client :: "panel_db \<Rightarrow> nat \<Rightarrow> client result" where
  "find_client db i = (case find_row cl_Id i (db_Clients db) of None \<Rightarrow> Inl ''record not found'' | Some c \<Rightarrow> Inr c)"

definition delete_clients :: "nat set \<Rightarrow> panel_db \<Rightarrow> panel_db" where
  "delete_clients ids db = db\<lparr>db_Clients := delete_rows (\<lambda>c. cl_Id c \<in> ids) (db_Clients db)\<rparr>"

text \<open>The values \<^verbatim>\<open>json_each\<close> of SQLite delivers, and the clients that list an inbound.\<close>

definition json_each :: "raw \<Rightarrow> gval list" where
  "json_each r = (case r of RVal (GList xs) \<Rightarrow> xs | RVal (GMap m) \<Rightarrow> map snd m | RVal v \<Rightarrow> [v] | _ \<Rightarrow> [])"

definition lists_inbound :: "nat \<Rightarrow> client \<Rightarrow> bool" where
  "lists_inbound i c \<longleftrightarrow> GFloat (of_nat i) \<in> set (json_each (cl_Inbounds c))"

definition clients_of_inbound :: "panel_db \<Rightarrow> nat \<Rightarrow> client list result" where
  "clients_of_inbound db i =
     (if list_ex (\<lambda>c. cl_Inbounds c = RBad) (tb_Rows (db_Clients db)) then Inl ''malformed JSON''
      else Inr (filter (lists_inbound i) (tb_Rows (db_Clients db))))"

section \<open>The identity in a client's configuration\<close>

definition raw_short :: "raw \<Rightarrow> bool" where
  "raw_short r = (case r of RNil \<Rightarrow> True | RVal (GFloat x) \<Rightarrow> of_int \<lfloor>x\<rfloor> = x \<and> 0 \<le> x \<and> x < 10 | _ \<Rightarrow> False)"

definition identity_config :: "string \<Rightarrow> gval \<Rightarrow> gval" where
  "identity_config name v = (case v of
     GMap cfg \<Rightarrow> GMap (if mhas cfg ''name'' then mput cfg ''name'' (GStr name)
                  else if mhas cfg ''username'' then mput cfg ''username'' (GStr name) else cfg)
   | _ \<Rightarrow> v)"

definition setConfigIdentity :: "client \<Rightarrow> client result" where
  "setConfigIdentity c =
     (if cl_Name c = [] \<or> raw_short (cl_Config c) then Inr c
      else case cl_Config c of
        RVal GNil \<Rightarrow> Inr c
      | RVal (GMap m) \<Rightarrow>
          if list_all (\<lambda>(_, v). case v of GMap _ \<Rightarrow> True | GNil \<Rightarrow> True | _ \<Rightarrow> False) m
          then Inr (c\<lparr>cl_Config := RVal (GMap (map (map_prod id (identity_config (cl_Name c))) m))\<rparr>)
          else Inl json_err
      | _ \<Rightarrow> Inl json_err)"

section \<open>Which inbounds a change concerns\<close>

definition findInboundsChanges ::
  "client_env \<Rightarrow> panel_db \<Rightarrow> client \<Rightarrow> bool \<Rightarrow> (nat list \<times> client) result" where
  "findInboundsChanges env db c0 fillOmitted =
     bindr (find_client db (cl_Id c0)) (\<lambda>old.
       let c = (if fillOmitted then c0\<lparr>cl_Links := cl_Links old, cl_Config := cl_Config old\<rparr> else c0) in
       bindr (ids_of (cl_Inbounds old)) (\<lambda>oldIds. bindr (ids_of (cl_Inbounds c)) (\<lambda>newIds.
         if \<not> ce_SameBytes env (cl_Config old) (cl_Config c) \<or> cl_Name old \<noteq> cl_Name c \<or> cl_Enable old \<noteq> cl_Enable c
         then Inr (UnionUintArray oldIds newIds, c)
         else Inr (DiffUintArray oldIds newIds, c))))"

definition preserveTimestamps :: "panel_db \<Rightarrow> client \<Rightarrow> client" where
  "preserveTimestamps db c = (case find_row cl_Id (cl_Id c) (db_Clients db) of
     None \<Rightarrow> c | Some old \<Rightarrow> c\<lparr>cl_CreatedAt := cl_CreatedAt old, cl_OnlineAt := cl_OnlineAt old\<rparr>)"

section \<open>Links\<close>

definition InboundTypeWithLink :: "string list" where
  "InboundTypeWithLink = [''socks'', ''http'', ''mixed'', ''shadowsocks'', ''naive'', ''hysteria'', ''hysteria2'',
     ''anytls'', ''tuic'', ''vless'', ''trojan'', ''vmess'']"

definition generated_links :: "client_env \<Rightarrow> client \<Rightarrow> inbound \<Rightarrow> string \<Rightarrow> gval list result" where
  "generated_links env c i hostname =
     map_sum id (map (local_link (in_Tag i))) (LinkGenerator (ce_Link env) (cl_Config c) i hostname (cl_Remark c))"

definition link_inbound :: "panel_db \<Rightarrow> nat \<Rightarrow> inbound option" where
  "link_inbound db i = (case find_row in_Id i (db_Inbounds db) of
     Some inb \<Rightarrow> if in_Type inb \<in> set InboundTypeWithLink then Some (preload_inbound db inb) else None
   | None \<Rightarrow> None)"

definition client_links :: "client_env \<Rightarrow> panel_db \<Rightarrow> string \<Rightarrow> client \<Rightarrow> nat list \<Rightarrow> gval list result" where
  "client_links env db hostname c ids =
     map_sum id concat (mapr (\<lambda>i. case link_inbound db i of
       None \<Rightarrow> Inr [] | Some inb \<Rightarrow> generated_links env c inb hostname) ids)"

definition fixed_links :: "client_env \<Rightarrow> panel_db \<Rightarrow> string \<Rightarrow> client \<times> nat list \<Rightarrow> client result" where
  "fixed_links env db hostname p =
     (let (c, ids) = p in
      bindr (links_of (cl_Links c)) (\<lambda>old. bindr (client_links env db hostname c ids) (\<lambda>new.
        Inr (c\<lparr>cl_Links := RVal (GList (new @ filter (\<lambda>l. link_get l ''type'' \<noteq> ''local'') old))\<rparr>))))"

definition updateLinksWithFixedInbounds ::
  "client_env \<Rightarrow> panel_db \<Rightarrow> client list \<Rightarrow> string \<Rightarrow> client list result" where
  "updateLinksWithFixedInbounds env db cs hostname =
     bindr (mapr (\<lambda>c. ids_of (cl_Inbounds c)) cs) (\<lambda>ids. mapr (fixed_links env db hostname) (zip cs ids))"

section \<open>Saving clients\<close>

definition save_new :: "client_env \<Rightarrow> panel_db \<Rightarrow> raw \<Rightarrow> string \<Rightarrow> (nat list \<times> panel_db) result" where
  "save_new env db data hostname =
     bindr (Client_of_JSON data) (\<lambda>c0. bindr (setConfigIdentity c0) (\<lambda>c1.
     bindr (updateLinksWithFixedInbounds env db [c1] hostname) (\<lambda>cs.
       let c = (hd cs)\<lparr>cl_CreatedAt := ce_Now env\<rparr> in
       bindr (ids_of (cl_Inbounds c)) (\<lambda>ids. Inr (ids, save_client c db)))))"

definition save_edit :: "client_env \<Rightarrow> panel_db \<Rightarrow> raw \<Rightarrow> string \<Rightarrow> (nat list \<times> panel_db) result" where
  "save_edit env db data hostname =
     bindr (Client_of_JSON data) (\<lambda>c0. bindr (setConfigIdentity c0) (\<lambda>c1.
     bindr (updateLinksWithFixedInbounds env db [c1] hostname) (\<lambda>cs.
     bindr (findInboundsChanges env db (hd cs) False) (\<lambda>(ids, c).
       Inr (ids, save_client (preserveTimestamps db c) db)))))"

fun addbulk_clients :: "client_env \<Rightarrow> client list \<Rightarrow> nat list \<Rightarrow> (nat list \<times> client list) result" where
  "addbulk_clients env [] ids = Inr (ids, [])"
| "addbulk_clients env (c # cs) ids =
     bindr (setConfigIdentity c) (\<lambda>c1. bindr (ids_of (cl_Inbounds c1)) (\<lambda>own.
       map_sum id (map_prod id (Cons (c1\<lparr>cl_CreatedAt := ce_Now env\<rparr>)))
         (addbulk_clients env cs (UnionUintArray ids own))))"

definition save_addbulk :: "client_env \<Rightarrow> panel_db \<Rightarrow> raw \<Rightarrow> string \<Rightarrow> (nat list \<times> panel_db) result" where
  "save_addbulk env db data hostname =
     bindr (Clients_of_JSON data) (\<lambda>cs0. bindr (addbulk_clients env cs0 []) (\<lambda>(ids, cs1).
     bindr (updateLinksWithFixedInbounds env db cs1 hostname) (\<lambda>cs.
     bindr (save_clients cs db) (\<lambda>db'. Inr (ids, db')))))"

fun editbulk_clients :: "client_env \<Rightarrow> panel_db \<Rightarrow> client list \<Rightarrow> nat list \<Rightarrow> (nat list \<times> client list) result" where
  "editbulk_clients env db [] ids = Inr (ids, [])"
| "editbulk_clients env db (c # cs) ids =
     bindr (findInboundsChanges env db c True) (\<lambda>(changed, c1). bindr (setConfigIdentity c1) (\<lambda>c2.
       map_sum id (map_prod id (Cons (preserveTimestamps db c2)))
         (editbulk_clients env db cs (if changed \<noteq> [] then UnionUintArray ids changed else ids))))"

definition save_editbulk :: "client_env \<Rightarrow> panel_db \<Rightarrow> raw \<Rightarrow> string \<Rightarrow> (nat list \<times> panel_db) result" where
  "save_editbulk env db data hostname =
     bindr (Clients_of_JSON data) (\<lambda>cs0. bindr (editbulk_clients env db cs0 []) (\<lambda>(ids, cs1).
     bindr (if ids \<noteq> [] then updateLinksWithFixedInbounds env db cs1 hostname else Inr cs1) (\<lambda>cs.
     bindr (save_clients cs db) (\<lambda>db'. Inr (ids, db')))))"

fun delbulk_inbounds :: "panel_db \<Rightarrow> nat list \<Rightarrow> nat list \<Rightarrow> nat list result" where
  "delbulk_inbounds db [] acc = Inr acc"
| "delbulk_inbounds db (i # ids) acc =
     bindr (find_client db i) (\<lambda>c. bindr (ids_of (cl_Inbounds c)) (\<lambda>own.
       delbulk_inbounds db ids (UnionUintArray acc own)))"

definition save_delbulk :: "panel_db \<Rightarrow> raw \<Rightarrow> (nat list \<times> panel_db) result" where
  "save_delbulk db data =
     bindr (ids_of data) (\<lambda>ids. bindr (delbulk_inbounds db ids []) (\<lambda>inbs.
       Inr (inbs, delete_clients (set ids) db)))"

text \<open>\<open>json.Unmarshal\<close> into a \<^verbatim>\<open>uint\<close>.\<close>

definition id_of_raw :: "raw \<Rightarrow> nat result" where
  "id_of_raw r = (case r of RVal v \<Rightarrow> (case all_uints [v] of Some [n] \<Rightarrow> Inr n | _ \<Rightarrow> Inl json_err) | _ \<Rightarrow> Inl json_err)"

definition save_del :: "panel_db \<Rightarrow> raw \<Rightarrow> (nat list \<times> panel_db) result" where
  "save_del db data =
     bindr (id_of_raw data) (\<lambda>i. bindr (find_client db i) (\<lambda>c. bindr (ids_of (cl_Inbounds c)) (\<lambda>ids.
       Inr (ids, delete_clients {i} db))))"

definition Clients_Save ::
  "client_env \<Rightarrow> panel_db \<Rightarrow> string \<Rightarrow> raw \<Rightarrow> string \<Rightarrow> (nat list \<times> panel_db) result" where
  "Clients_Save env db act data hostname =
     (if act = ''new'' then save_new env db data hostname
      else if act = ''edit'' then save_edit env db data hostname
      else if act = ''addbulk'' then save_addbulk env db data hostname
      else if act = ''editbulk'' then save_editbulk env db data hostname
      else if act = ''delbulk'' then save_delbulk db data
      else if act = ''del'' then save_del db data
      else NewErrorf (''unknown action: '' @ act))"

section \<open>When an inbound comes, goes or changes\<close>

definition empty_inbound :: inbound where
  "empty_inbound = \<lparr>in_Id = 0, in_Type = [], in_Tag = [], in_CoreType = [], in_TlsId = 0, in_Tls = None,
     in_Addrs = RNil, in_OutJson = RNil, in_Options = RNil\<rparr>"

definition text_id :: "string \<Rightarrow> nat option" where
  "text_id s = (case Atoi (TrimSpace s) of Some n \<Rightarrow> if 0 \<le> n then Some (nat n) else None | None \<Rightarrow> None)"

definition inbound_added :: "client_env \<Rightarrow> inbound \<Rightarrow> nat \<Rightarrow> string \<Rightarrow> client \<Rightarrow> panel_db \<Rightarrow> panel_db result" where
  "inbound_added env inb inboundId hostname c db =
     bindr (generated_links env c inb hostname) (\<lambda>new.
       Inr (save_client (c\<lparr>
         cl_Inbounds := uints_raw (lenient_ids (cl_Inbounds c) @ [inboundId]),
         cl_Links := nil_links_raw (new @ filter (\<lambda>l. link_get l ''remark'' \<noteq> in_Tag inb) (lenient_links (cl_Links c)))\<rparr>) db))"

definition UpdateClientsOnInboundAdd ::
  "client_env \<Rightarrow> panel_db \<Rightarrow> string \<Rightarrow> nat \<Rightarrow> string \<Rightarrow> panel_db result" where
  "UpdateClientsOnInboundAdd env db initIds inboundId hostname =
     (let ids = map text_id (Split initIds (CHR '',''));
          inb = (case find_row in_Id inboundId (db_Inbounds db) of None \<Rightarrow> empty_inbound | Some i \<Rightarrow> preload_inbound db i)
      in eachr (inbound_added env inb inboundId hostname)
           (filter (\<lambda>c. Some (cl_Id c) \<in> set ids) (tb_Rows (db_Clients db))) db)"

definition inbound_deleted :: "nat \<Rightarrow> string \<Rightarrow> client \<Rightarrow> client" where
  "inbound_deleted i tag c = c\<lparr>
     cl_Inbounds := nil_ids_raw (filter (\<lambda>k. k \<noteq> i) (lenient_ids (cl_Inbounds c))),
     cl_Links := nil_links_raw (filter (\<lambda>l. link_get l ''remark'' \<noteq> tag) (lenient_links (cl_Links c)))\<rparr>"

definition UpdateClientsOnInboundDelete :: "panel_db \<Rightarrow> nat \<Rightarrow> string \<Rightarrow> panel_db result" where
  "UpdateClientsOnInboundDelete db i tag =
     bindr (clients_of_inbound db i) (\<lambda>cs.
       Inr (foldl (\<lambda>db c. save_client (inbound_deleted i tag c) db) db cs))"

definition inbound_changed :: "client_env \<Rightarrow> inbound \<Rightarrow> string \<Rightarrow> string \<Rightarrow> client \<Rightarrow> panel_db \<Rightarrow> panel_db result" where
  "inbound_changed env inb hostname oldTag c db =
     bindr (generated_links env c inb hostname) (\<lambda>new.
       Inr (save_client (c\<lparr>cl_Links := nil_links_raw (new @ filter (\<lambda>l. link_get l ''type'' \<noteq> ''local''
           \<or> (link_get l ''remark'' \<noteq> in_Tag inb \<and> link_get l ''remark'' \<noteq> oldTag)) (lenient_links (cl_Links c)))\<rparr>) db))"

definition UpdateLinksByInboundChange ::
  "client_env \<Rightarrow> panel_db \<Rightarrow> inbound list \<Rightarrow> string \<Rightarrow> string \<Rightarrow> panel_db result" where
  "UpdateLinksByInboundChange env db inbs hostname oldTag =
     eachr (\<lambda>inb db. bindr (clients_of_inbound db (in_Id inb)) (\<lambda>cs.
       eachr (inbound_changed env inb hostname oldTag) cs db)) inbs db"

section \<open>The traffic jobs\<close>

text \<open>\<open>json.RawMessage("\"" + client.Name + "\"")\<close>: the name is not escaped.\<close>

definition quoted_raw :: "string \<Rightarrow> raw" where
  "quoted_raw s = (case json_Unmarshal (quoted s) of Some v \<Rightarrow> RVal v | None \<Rightarrow> RBad)"

definition reset_change :: "int \<Rightarrow> client \<Rightarrow> change" where
  "reset_change dt c = \<lparr>ch_DateTime = dt, ch_Actor = ''ResetJob'', ch_Key = ''clients'', ch_Action = ''reset'',
     ch_Obj = quoted_raw (cl_Name c)\<rparr>"

definition delayed :: "client \<Rightarrow> bool" where
  "delayed c \<longleftrightarrow> cl_Enable c \<and> cl_DelayStart c \<and> cl_Up c + cl_Down c > 0"

definition period_over :: "int \<Rightarrow> client \<Rightarrow> bool" where
  "period_over dt c \<longleftrightarrow> \<not> cl_DelayStart c \<and> cl_AutoReset c \<and> cl_NextReset c < dt"

definition start_expiry :: "int \<Rightarrow> client \<Rightarrow> client" where
  "start_expiry dt c = c\<lparr>cl_Expiry := dt + cl_ResetDays c * 86400, cl_DelayStart := False\<rparr>"

definition start_period :: "int \<Rightarrow> client \<Rightarrow> client" where
  "start_period dt c = c\<lparr>cl_NextReset := dt + cl_ResetDays c * 86400, cl_DelayStart := False\<rparr>"

definition next_period :: "int \<Rightarrow> client \<Rightarrow> client" where
  "next_period dt c = c\<lparr>cl_NextReset := dt + cl_ResetDays c * 86400,
     cl_TotalUp := cl_TotalUp c + cl_Up c, cl_TotalDown := cl_TotalDown c + cl_Down c,
     cl_Up := 0, cl_Down := 0, cl_Enable := True\<rparr>"

text \<open>The result's flag says that \<^verbatim>\<open>LastUpdate\<close> was stored.\<close>

definition ResetClients :: "panel_db \<Rightarrow> int \<Rightarrow> nat list \<times> panel_db \<times> bool" where
  "ResetClients db dt =
     (let rows = tb_Rows (db_Clients db);
          once = filter (\<lambda>c. delayed c \<and> \<not> cl_AutoReset c) rows;
          periodic = filter (\<lambda>c. delayed c \<and> cl_AutoReset c) rows;
          over = filter (period_over dt) rows;
          allClients = map (start_expiry dt) once @ map (start_period dt) periodic @ map (next_period dt) over;
          changes = map (reset_change dt) (once @ periodic);
          inboundIds = foldl (\<lambda>ids c. if cl_Enable c then ids else UnionUintArray ids (lenient_ids (cl_Inbounds c))) [] over;
          saved = foldl (\<lambda>db c. save_client c db) db allClients
      in (inboundIds, foldl (\<lambda>db ch. add_change ch db) saved changes, changes \<noteq> []))"

definition depleted :: "int \<Rightarrow> client \<Rightarrow> bool" where
  "depleted dt c \<longleftrightarrow> cl_Enable c \<and> ((cl_Volume c > 0 \<and> cl_Up c + cl_Down c > cl_Volume c) \<or> (cl_Expiry c > 0 \<and> cl_Expiry c < dt))"

definition deplete_change :: "int \<Rightarrow> client \<Rightarrow> change" where
  "deplete_change dt c = \<lparr>ch_DateTime = dt, ch_Actor = ''DepleteJob'', ch_Key = ''clients'', ch_Action = ''disable'',
     ch_Obj = quoted_raw (cl_Name c)\<rparr>"

definition DepleteClients :: "panel_db \<Rightarrow> int \<Rightarrow> nat list \<times> panel_db \<times> bool" where
  "DepleteClients db0 dt =
     (let (reset_ids, db, touched) = ResetClients db0 dt;
          cs = filter (depleted dt) (tb_Rows (db_Clients db));
          ids = foldl (\<lambda>ids c. UnionUintArray ids (lenient_ids (cl_Inbounds c))) reset_ids cs
      in if cs = [] then (ids, db, touched)
         else (ids, foldl (\<lambda>db ch. add_change ch db)
           (db\<lparr>db_Clients := update_rows (depleted dt) (\<lambda>c. c\<lparr>cl_Enable := False\<rparr>) (db_Clients db)\<rparr>)
           (map (deplete_change dt) cs), True))"

definition reset_traffic :: "client \<Rightarrow> client" where
  "reset_traffic c = c\<lparr>cl_TotalUp := cl_TotalUp c + cl_Up c, cl_TotalDown := cl_TotalDown c + cl_Down c,
     cl_Up := 0, cl_Down := 0, cl_Enable := True\<rparr>"

definition ResetAllClientsTraffic :: "panel_db \<Rightarrow> int \<Rightarrow> panel_db \<times> bool" where
  "ResetAllClientsTraffic db dt =
     (let P = (\<lambda>c. cl_Up c + cl_Down c > 0 \<or> \<not> cl_Enable c);
          db' = db\<lparr>db_Clients := update_rows P reset_traffic (db_Clients db)\<rparr>
      in if list_ex P (tb_Rows (db_Clients db))
         then (add_change \<lparr>ch_DateTime = dt, ch_Actor = ''ResetTrafficJob'', ch_Key = ''clients'', ch_Action = ''reset'',
                 ch_Obj = quoted_raw ''all''\<rparr> db', True)
         else (db', False))"

end
