(* ===== verification/Client_Jobs.thy ===== *)
theory Client_Jobs
  imports Clients
begin

text \<open>
  What the client jobs do, seen per client: the reset and depletion of the whole table is the
  same as applying one function to every row, traffic is moved but never lost, and every inbound
  whose users change is reported.
\<close>

section \<open>One client's step\<close>

definition reset_step :: "int \<Rightarrow> client \<Rightarrow> client" where
  "reset_step dt c =
     (if delayed c then (if cl_AutoReset c then start_period dt c else start_expiry dt c)
      else if period_over dt c then next_period dt c else c)"

definition deplete_step :: "int \<Rightarrow> client \<Rightarrow> client" where
  "deplete_step dt c = (if depleted dt c then c\<lparr>cl_Enable := False\<rparr> else c)"

definition traffic :: "client \<Rightarrow> int" where
  "traffic c = cl_TotalUp c + cl_TotalDown c + cl_Up c + cl_Down c"

lemma cases_disjoint: "delayed c \<Longrightarrow> \<not> period_over dt c"
  by (simp add: delayed_def period_over_def)

lemma step_keys [simp]: "cl_Id (start_expiry dt c) = cl_Id c" "cl_Id (start_period dt c) = cl_Id c"
  "cl_Id (next_period dt c) = cl_Id c" "cl_Id (reset_step dt c) = cl_Id c" "cl_Id (reset_traffic c) = cl_Id c"
  by (simp_all add: start_expiry_def start_period_def next_period_def reset_step_def reset_traffic_def)

lemma reset_step_traffic: "traffic (reset_step dt c) = traffic c"
  by (simp add: reset_step_def start_expiry_def start_period_def next_period_def traffic_def)

lemma foldl_save_clients:
  "db_Clients (foldl (\<lambda>db c. save_client c db) db cs) = foldl (\<lambda>t c. save_row cl_Id (\<lambda>k. with_cl_Id k) c t) (db_Clients db) cs"
  "db_Inbounds (foldl (\<lambda>db c. save_client c db) db cs) = db_Inbounds db"
  "db_Changes (foldl (\<lambda>db c. save_client c db) db cs) = db_Changes db"
  by (induction cs arbitrary: db) (simp_all add: save_client_def)

lemma foldl_add_change [simp]:
  "db_Clients (foldl (\<lambda>db ch. add_change ch db) db chs) = db_Clients db"
  "db_Inbounds (foldl (\<lambda>db ch. add_change ch db) db chs) = db_Inbounds db"
  "db_Changes (foldl (\<lambda>db ch. add_change ch db) db chs) = db_Changes db @ chs"
  by (induction chs arbitrary: db) (simp_all add: add_change_def)

lemma ResetClients_table:
  assumes ok: "table_ok cl_Id (db_Clients db)"
  shows "db_Clients (fst (snd (ResetClients db dt))) = update_rows (\<lambda>_. True) (reset_step dt) (db_Clients db)"
proof -
  let ?rows = "tb_Rows (db_Clients db)"
  let ?sel = "filter (\<lambda>c. delayed c \<and> \<not> cl_AutoReset c) ?rows @ filter (\<lambda>c. delayed c \<and> cl_AutoReset c) ?rows
    @ filter (period_over dt) ?rows"
  have d: "distinct (map cl_Id ?rows)" by (rule clients.ok_rows(2) [OF ok])
  have "distinct (map cl_Id ?sel)"
    using d cases_disjoint by (fastforce simp: distinct_map inj_on_def)
  then have all: "foldl (\<lambda>t c. save_row cl_Id (\<lambda>k. with_cl_Id k) c t) (db_Clients db) (map (reset_step dt) ?sel)
      = update_rows (\<lambda>c. c \<in> set ?sel) (reset_step dt) (db_Clients db)"
    by (intro clients.save_changed [OF ok]) auto
  have sel: "map (reset_step dt) ?sel = map (start_expiry dt) (filter (\<lambda>c. delayed c \<and> \<not> cl_AutoReset c) ?rows)
      @ map (start_period dt) (filter (\<lambda>c. delayed c \<and> cl_AutoReset c) ?rows) @ map (next_period dt) (filter (period_over dt) ?rows)"
    using cases_disjoint by (auto simp: reset_step_def)
  have saved: "db_Clients (fst (snd (ResetClients db dt))) = update_rows (\<lambda>c. c \<in> set ?sel) (reset_step dt) (db_Clients db)"
    by (simp only: ResetClients_def Let_def fst_conv snd_conv foldl_add_change foldl_save_clients all [unfolded sel])
  have "map (\<lambda>c. if c \<in> set ?sel then reset_step dt c else c) ?rows = map (reset_step dt) ?rows"
    by (rule map_cong [OF refl]) (auto simp: reset_step_def)
  then show ?thesis unfolding saved by (simp add: update_rows_def)
qed

lemma DepleteClients_table:
  assumes ok: "table_ok cl_Id (db_Clients db)" and run: "DepleteClients db dt = (ids, db', touched)"
  shows "db_Clients db' = update_rows (\<lambda>_. True) (\<lambda>c. deplete_step dt (reset_step dt c)) (db_Clients db)"
proof -
  obtain reset_ids db1 t1 where r: "ResetClients db dt = (reset_ids, db1, t1)" by (cases "ResetClients db dt") auto
  have rows1: "db_Clients db1 = update_rows (\<lambda>_. True) (reset_step dt) (db_Clients db)"
    using ResetClients_table [OF ok, of dt] r by simp
  have "db_Clients db' = update_rows (\<lambda>_. True) (deplete_step dt) (db_Clients db1)"
  proof (cases "filter (depleted dt) (tb_Rows (db_Clients db1)) = []")
    case True
    then have "map (deplete_step dt) (tb_Rows (db_Clients db1)) = tb_Rows (db_Clients db1)"
      by (intro map_idI) (auto simp: deplete_step_def filter_empty_conv)
    then show ?thesis using run True by (simp add: DepleteClients_def r Let_def update_rows_def)
  next
    case False
    then have "db_Clients db' = update_rows (depleted dt) (\<lambda>c. c\<lparr>cl_Enable := False\<rparr>) (db_Clients db1)"
      using run by (auto simp: DepleteClients_def r Let_def)
    then show ?thesis by (simp add: update_rows_def deplete_step_def)
  qed
  then show ?thesis by (simp add: rows1 update_rows_def)
qed

lemma reset_enable:
  assumes "cl_Enable (reset_step dt c) \<noteq> cl_Enable c"
  shows "period_over dt c" "\<not> cl_Enable c"
  using assms by (auto simp: reset_step_def start_expiry_def start_period_def next_period_def split: if_splits)

lemma union_fold:
  "set (foldl (\<lambda>ids c. if P c then UnionUintArray ids (f c) else ids) acc cs) = set acc \<union> (\<Union>c\<in>{c \<in> set cs. P c}. set (f c))"
  by (induction cs arbitrary: acc) auto

lemma ResetClients_reports:
  assumes "c \<in> set (tb_Rows (db_Clients db))" "cl_Enable (reset_step dt c) \<noteq> cl_Enable c"
  shows "set (lenient_ids (cl_Inbounds c)) \<subseteq> set (fst (ResetClients db dt))"
proof -
  have "fst (ResetClients db dt) = foldl (\<lambda>ids c. if \<not> cl_Enable c then UnionUintArray ids (lenient_ids (cl_Inbounds c)) else ids)
      [] (filter (period_over dt) (tb_Rows (db_Clients db)))"
    by (simp add: ResetClients_def Let_def) (meson)
  then show ?thesis using assms reset_enable [OF assms(2)] by (auto simp: union_fold)
qed

text \<open>
  C29. The reset and depletion job as one function of a client: every row is first given its new
  period or expiry and then disabled when it is over its volume or its date. After the job no
  enabled client is over its limits, and no traffic was lost on the way.
\<close>

theorem DepleteClients_rows:
  assumes ok: "table_ok cl_Id (db_Clients db)" and run: "DepleteClients db dt = (ids, db', touched)"
  shows "tb_Rows (db_Clients db') = map (\<lambda>c. deplete_step dt (reset_step dt c)) (tb_Rows (db_Clients db))
    \<and> list_all (\<lambda>c. \<not> depleted dt c) (tb_Rows (db_Clients db'))
    \<and> map traffic (tb_Rows (db_Clients db')) = map traffic (tb_Rows (db_Clients db))"
proof -
  have rows: "tb_Rows (db_Clients db') = map (\<lambda>c. deplete_step dt (reset_step dt c)) (tb_Rows (db_Clients db))"
    by (simp add: DepleteClients_table [OF ok run] update_rows_def)
  have "\<not> depleted dt (deplete_step dt c)" "traffic (deplete_step dt c) = traffic c" for c
    by (simp_all add: deplete_step_def depleted_def traffic_def)
  with rows show ?thesis by (simp add: list_all_iff reset_step_traffic)
qed

text \<open>
  Every inbound of a client that the job switched on or off is among the ids the job
  reports, so that the caller reloads its users.
\<close>

theorem DepleteClients_reports:
  assumes ok: "table_ok cl_Id (db_Clients db)" and run: "DepleteClients db dt = (ids, db', touched)"
    and c: "c \<in> set (tb_Rows (db_Clients db))" and changed: "cl_Enable (deplete_step dt (reset_step dt c)) \<noteq> cl_Enable c"
  shows "set (lenient_ids (cl_Inbounds c)) \<subseteq> set ids"
proof -
  obtain reset_ids db1 t1 where r: "ResetClients db dt = (reset_ids, db1, t1)" by (cases "ResetClients db dt") auto
  have rows1: "tb_Rows (db_Clients db1) = map (reset_step dt) (tb_Rows (db_Clients db))"
    using ResetClients_table [OF ok, of dt] r by (simp add: update_rows_def)
  have ids: "set ids = set reset_ids \<union> (\<Union>c\<in>{c \<in> set (tb_Rows (db_Clients db1)). depleted dt c}. set (lenient_ids (cl_Inbounds c)))"
    using run union_fold [of "\<lambda>_. True" _ reset_ids "filter (depleted dt) (tb_Rows (db_Clients db1))"]
    by (auto simp: DepleteClients_def r Let_def split: if_splits)
  have same: "cl_Inbounds (reset_step dt c) = cl_Inbounds c"
    by (simp add: reset_step_def start_expiry_def start_period_def next_period_def)
  consider "depleted dt (reset_step dt c)" | "cl_Enable (reset_step dt c) \<noteq> cl_Enable c"
    using changed by (auto simp: deplete_step_def split: if_splits)
  then show ?thesis
  proof cases
    case 1
    then have "reset_step dt c \<in> {c \<in> set (tb_Rows (db_Clients db1)). depleted dt c}" using c rows1 by simp
    then show ?thesis using ids same by fastforce
  next
    case 2
    then show ?thesis using ResetClients_reports [OF c, of dt] ids r by auto
  qed
qed

text \<open>
  The global reset gives every client its traffic as part of the totals, starts all of them
  again, and leaves those that were unused and enabled as they were.
\<close>

theorem ResetAllClientsTraffic_rows:
  "list_all2 (\<lambda>c c'. traffic c' = traffic c \<and> cl_Enable c' \<and> cl_Up c' + cl_Down c' \<le> 0
        \<and> (c' = c \<or> c' = reset_traffic c))
     (tb_Rows (db_Clients db)) (tb_Rows (db_Clients (fst (ResetAllClientsTraffic db dt))))"
  by (auto simp: ResetAllClientsTraffic_def Let_def add_change_def update_rows_def list_all2_map2
      reset_traffic_def traffic_def intro!: list.rel_refl_strong)

section \<open>Concrete runs\<close>

definition example_client :: client where
  "example_client = \<lparr>cl_Id = 1, cl_Enable = True, cl_Name = ''ann'', cl_Config = RVal (GMap []),
     cl_Inbounds = uints_raw [4, 7], cl_Links = RVal (GList []), cl_Volume = 100, cl_Expiry = 0,
     cl_Down = 80, cl_Up = 30, cl_Desc = [], cl_Group = [], cl_Remark = [], cl_CreatedAt = 0, cl_OnlineAt = 0,
     cl_DelayStart = False, cl_AutoReset = False, cl_ResetDays = 30, cl_NextReset = 0, cl_TotalUp = 5, cl_TotalDown = 6\<rparr>"

definition example_clients :: panel_db where
  "example_clients = empty_db\<lparr>db_Clients := \<lparr>tb_Rows = [example_client,
     example_client\<lparr>cl_Id := 2, cl_Name := ''bob'', cl_Enable := False, cl_AutoReset := True, cl_NextReset := 50,
       cl_Inbounds := uints_raw [9]\<rparr>], tb_Seq = 2\<rparr>\<rparr>"

lemma example_clients_ok: "table_ok cl_Id (db_Clients example_clients)"
  by code_simp

theorem DepleteClients_rows_witness:
  "map cl_Enable (tb_Rows (db_Clients (fst (snd (DepleteClients example_clients 1000))))) = [False, True]
   \<and> list_all (\<lambda>c. \<not> depleted 1000 c) (tb_Rows (db_Clients (fst (snd (DepleteClients example_clients 1000)))))"
proof -
  obtain ids db' t where run: "DepleteClients example_clients 1000 = (ids, db', t)"
    by (cases "DepleteClients example_clients 1000") auto
  have "map (\<lambda>c. cl_Enable (deplete_step 1000 (reset_step 1000 c))) (tb_Rows (db_Clients example_clients)) = [False, True]"
    by code_simp
  moreover note f = DepleteClients_rows [OF example_clients_ok run]
  ultimately have "map cl_Enable (tb_Rows (db_Clients db')) = [False, True]" by (simp add: comp_def)
  then show ?thesis unfolding run fst_conv snd_conv using f by blast
qed

theorem DepleteClients_reports_witness:
  "{4, 7} \<subseteq> set (fst (DepleteClients example_clients 1000))"
proof -
  obtain ids db' t where run: "DepleteClients example_clients 1000 = (ids, db', t)"
    by (cases "DepleteClients example_clients 1000") auto
  have "example_client \<in> set (tb_Rows (db_Clients example_clients))"
    by (simp add: example_clients_def)
  moreover have "cl_Enable (deplete_step 1000 (reset_step 1000 example_client)) \<noteq> cl_Enable example_client" by code_simp
  moreover have "lenient_ids (cl_Inbounds example_client) = [4, 7]" by code_simp
  ultimately show ?thesis using DepleteClients_reports [OF example_clients_ok run, of example_client] by (simp add: run)
qed

end
