(* ===== verification/Traffic_Accounts.thy ===== *)
theory Traffic_Accounts
  imports Traffic_Stats Client_Jobs
begin

text \<open>
  No byte is lost or counted twice: the connections, the collecting job, the client jobs and
  restarts of the core as steps of one machine. The state carries two auxiliary fields, the bytes
  ever counted for a user and those given up by a failed save or a restart; what the clients were
  charged and what still is in the counters makes up the rest.

  A step of the job reads the counters and runs its transaction at once: between the two only
  counters grow and clients change, which the other half does not look at.
\<close>

section \<open>The machine\<close>

record conn =
  cn_User :: string
  cn_Reads :: "caddr list"
  cn_Writes :: "caddr list"

record traffic_run = stats_state +
  tr_Conns :: "conn list"
  tr_Counted :: "string \<Rightarrow> bool \<Rightarrow> int"
  tr_Lost :: "string \<Rightarrow> bool \<Rightarrow> int"

definition traffic_start :: "panel_db \<Rightarrow> traffic_run" where
  "traffic_start db = \<lparr>ss_Tracker = NewStatsTracker, ss_Db = db, ss_Onlines = no_onlines, tr_Conns = [],
     tr_Counted = (\<lambda>_ _. 0), tr_Lost = (\<lambda>_ _. 0)\<rparr>"

text \<open>The bytes of a user that wait in its counter; uploads are what the panel reads.\<close>

definition pending :: "stats_tracker \<Rightarrow> string \<Rightarrow> bool \<Rightarrow> int" where
  "pending t user up = (case map_of (tk_Users t) user of
     None \<Rightarrow> 0 | Some (r, w) \<Rightarrow> tk_Cells t (if up then r else w))"

definition add_bytes :: "(string \<Rightarrow> bool \<Rightarrow> int) \<Rightarrow> string \<Rightarrow> bool \<Rightarrow> int \<Rightarrow> string \<Rightarrow> bool \<Rightarrow> int" where
  "add_bytes f user up n = (if user = [] then f else f(user := (f user)(up := f user up + n)))"

definition give_up :: "traffic_run \<Rightarrow> string \<Rightarrow> bool \<Rightarrow> int" where
  "give_up s user up = tr_Lost s user up + pending (ss_Tracker s) user up"

definition saved_ok :: "stats_env \<Rightarrow> unit result \<Rightarrow> bool" where
  "saved_ok env r \<longleftrightarrow> r = Inr () \<and> se_Commit env = None"

inductive traffic_step :: "traffic_run \<Rightarrow> traffic_run \<Rightarrow> bool" where
  connect: "getReadCounters inb outb user (ss_Tracker s) = ((rs, ws), t) \<Longrightarrow>
    traffic_step s (s\<lparr>ss_Tracker := t, tr_Conns := \<lparr>cn_User = user, cn_Reads = rs, cn_Writes = ws\<rparr> # tr_Conns s\<rparr>)"
| read_bytes: "c \<in> set (tr_Conns s) \<Longrightarrow> 0 \<le> n \<Longrightarrow>
    traffic_step s (s\<lparr>ss_Tracker := count_bytes (cn_Reads c) n (ss_Tracker s),
      tr_Counted := add_bytes (tr_Counted s) (cn_User c) True n\<rparr>)"
| write_bytes: "c \<in> set (tr_Conns s) \<Longrightarrow> 0 \<le> n \<Longrightarrow>
    traffic_step s (s\<lparr>ss_Tracker := count_bytes (cn_Writes c) n (ss_Tracker s),
      tr_Counted := add_bytes (tr_Counted s) (cn_User c) False n\<rparr>)"
| disconnect: "traffic_step s (s\<lparr>tr_Conns := removeAll c (tr_Conns s)\<rparr>)"
| save: "SaveStats env enableTraffic seconds now (stats_state.truncate s) = (r, s') \<Longrightarrow>
    traffic_step s (s\<lparr>ss_Tracker := ss_Tracker s', ss_Db := ss_Db s', ss_Onlines := ss_Onlines s',
      tr_Lost := (if saved_ok env r then tr_Lost s else give_up s)\<rparr>)"
| deplete: "traffic_step s (s\<lparr>ss_Db := fst (snd (DepleteClients (ss_Db s) dt))\<rparr>)"
| reset_all: "traffic_step s (s\<lparr>ss_Db := fst (ResetAllClientsTraffic (ss_Db s) dt)\<rparr>)"
| prune: "traffic_step s (s\<lparr>ss_Db := DelOldStats oldTime (ss_Db s)\<rparr>)"
| restart: "traffic_step s (s\<lparr>ss_Tracker := NewStatsTracker, tr_Conns := [], tr_Lost := give_up s\<rparr>)"

section \<open>Well-formed trackers\<close>

definition counter_cells :: "(string \<times> counter) list \<Rightarrow> caddr list" where
  "counter_cells obj = concat (map (\<lambda>e. [fst (snd e), snd (snd e)]) obj)"

definition user_cells :: "stats_tracker \<Rightarrow> caddr list" where
  "user_cells t = counter_cells (tk_Users t)"

definition other_cells :: "stats_tracker \<Rightarrow> caddr list" where
  "other_cells t = counter_cells (tk_Inbounds t) @ counter_cells (tk_Outbounds t)"

definition tracker_ok :: "stats_tracker \<Rightarrow> bool" where
  "tracker_ok t \<longleftrightarrow> distinct (user_cells t) \<and> set (user_cells t) \<inter> set (other_cells t) = {}
     \<and> (\<forall>a\<in>set (user_cells t @ other_cells t). a < tk_Next t) \<and> (\<forall>a. 0 \<le> tk_Cells t a)
     \<and> distinct (map fst (tk_Users t)) \<and> [] \<notin> fst ` set (tk_Users t)"

text \<open>The counters of a connection: those of its inbound and outbound, then the one of its user.\<close>

definition conn_ok :: "stats_tracker \<Rightarrow> conn \<Rightarrow> bool" where
  "conn_ok t c \<longleftrightarrow> (\<exists>rs ws. (set rs \<union> set ws) \<inter> set (user_cells t) = {} \<and> (\<forall>a\<in>set rs \<union> set ws. a < tk_Next t) \<and>
     (if cn_User c = [] then cn_Reads c = rs \<and> cn_Writes c = ws
      else \<exists>r w. map_of (tk_Users t) (cn_User c) = Some (r, w) \<and> cn_Reads c = rs @ [r] \<and> cn_Writes c = ws @ [w]))"

lemma cells_simps [simp]:
  "counter_cells [] = []" "counter_cells ((n, (r, w)) # obj) = r # w # counter_cells obj"
  "counter_cells (a @ b) = counter_cells a @ counter_cells b"
  by (simp_all add: counter_cells_def)

lemma map_of_cells: "map_of obj n = Some (r, w) \<Longrightarrow> r \<in> set (counter_cells obj) \<and> w \<in> set (counter_cells obj)"
  using map_of_SomeD [of obj n "(r, w)"] by (force simp: counter_cells_def)

lemma load_cases:
  assumes "loadOrCreateCounter obj name cells next = ((r, w), obj', cells', next')"
  obtains (found) "map_of obj name = Some (r, w)" "obj' = obj" "cells' = cells" "next' = next"
  | (fresh) "map_of obj name = None" "(r, w) = (next, Suc next)" "obj' = obj @ [(name, (r, w))]"
      "cells' = cells(r := 0, w := 0)" "next' = Suc (Suc next)"
  using assms by (cases "map_of obj name") (auto simp: loadOrCreateCounter_def)

text \<open>How a tracker grows: fresh cells, the users as before or with one more.\<close>

definition grows :: "stats_tracker \<Rightarrow> stats_tracker \<Rightarrow> bool" where
  "grows t t' \<longleftrightarrow> tracker_ok t' \<and> tk_Next t \<le> tk_Next t'
     \<and> (\<forall>u r w. map_of (tk_Users t) u = Some (r, w) \<longrightarrow> map_of (tk_Users t') u = Some (r, w))
     \<and> (\<forall>a\<in>set (user_cells t'). a < tk_Next t \<longrightarrow> a \<in> set (user_cells t))
     \<and> (\<forall>u d. pending t' u d = pending t u d)"

lemma grows_refl: "tracker_ok t \<Longrightarrow> grows t t"
  by (simp add: grows_def)

lemma grows_trans: "grows a b \<Longrightarrow> grows b c \<Longrightarrow> grows a c"
  unfolding grows_def by (metis order_less_le_trans order_trans)

lemma conn_grows:
  assumes c: "conn_ok t c" and g: "grows t t'"
  shows "conn_ok t' c"
proof -
  obtain rs ws where rw: "(set rs \<union> set ws) \<inter> set (user_cells t) = {}" "\<forall>a\<in>set rs \<union> set ws. a < tk_Next t"
    "if cn_User c = [] then cn_Reads c = rs \<and> cn_Writes c = ws
     else \<exists>r w. map_of (tk_Users t) (cn_User c) = Some (r, w) \<and> cn_Reads c = rs @ [r] \<and> cn_Writes c = ws @ [w]"
    using c unfolding conn_ok_def by blast
  have "(set rs \<union> set ws) \<inter> set (user_cells t') = {}" using rw(1,2) g unfolding grows_def by blast
  moreover have "\<forall>a\<in>set rs \<union> set ws. a < tk_Next t'" using rw(2) g unfolding grows_def by (meson order_less_le_trans)
  moreover have "if cn_User c = [] then cn_Reads c = rs \<and> cn_Writes c = ws
     else \<exists>r w. map_of (tk_Users t') (cn_User c) = Some (r, w) \<and> cn_Reads c = rs @ [r] \<and> cn_Writes c = ws @ [w]"
    using rw(3) g unfolding grows_def by (auto split: if_splits)
  ultimately show ?thesis unfolding conn_ok_def by blast
qed

lemma not_yet_used:
  assumes "tracker_ok t" "tk_Next t \<le> a"
  shows "a \<notin> set (user_cells t)" "a \<notin> set (other_cells t)"
  using assms unfolding tracker_ok_def by (metis UnI1 UnI2 leD set_append)+

lemma pending_fresh:
  assumes ok: "tracker_ok t" and u: "map_of (tk_Users t') u = map_of (tk_Users t) u"
    and cells: "tk_Cells t' = (tk_Cells t)(tk_Next t := 0, Suc (tk_Next t) := 0)"
  shows "pending t' u d = pending t u d"
proof (cases "map_of (tk_Users t) u")
  case (Some p)
  obtain r w where p: "p = (r, w)" by (cases p)
  have "r \<in> set (user_cells t)" "w \<in> set (user_cells t)"
    using map_of_cells [of "tk_Users t" u r w] Some p by (simp_all add: user_cells_def)
  then have "r \<noteq> tk_Next t" "r \<noteq> Suc (tk_Next t)" "w \<noteq> tk_Next t" "w \<noteq> Suc (tk_Next t)"
    using not_yet_used(1) [OF ok, of "tk_Next t"] not_yet_used(1) [OF ok, of "Suc (tk_Next t)"] by auto
  then show ?thesis using Some p by (simp add: pending_def u cells)
qed (simp add: pending_def u)

lemma other_fresh:
  assumes ok: "tracker_ok t" and u: "tk_Users t' = tk_Users t" and nx: "tk_Next t' = Suc (Suc (tk_Next t))"
    and cells: "tk_Cells t' = (tk_Cells t)(tk_Next t := 0, Suc (tk_Next t) := 0)"
    and others: "set (other_cells t') = insert (tk_Next t) (insert (Suc (tk_Next t)) (set (other_cells t)))"
  shows "grows t t'"
proof -
  have uc: "user_cells t' = user_cells t" by (simp add: user_cells_def u)
  have lt: "a < Suc (Suc (tk_Next t))" if "a \<in> set (user_cells t) \<or> a \<in> set (other_cells t)" for a
  proof -
    have "a < tk_Next t" using ok that by (auto simp: tracker_ok_def)
    then show ?thesis by simp
  qed
  have "tracker_ok t'"
    unfolding tracker_ok_def uc u nx cells
  proof (intro conjI)
    show "set (user_cells t) \<inter> set (other_cells t') = {}"
      using ok not_yet_used(1) [OF ok, of "tk_Next t"] not_yet_used(1) [OF ok, of "Suc (tk_Next t)"]
      by (auto simp: others tracker_ok_def)
    show "\<forall>a\<in>set (user_cells t @ other_cells t'). a < Suc (Suc (tk_Next t))"
      using lt by (auto simp: others)
  qed (use ok in \<open>simp_all add: tracker_ok_def\<close>)
  then show ?thesis
    using pending_fresh [OF ok _ cells] by (simp add: grows_def nx uc u)
qed

lemma other_counter:
  assumes "tracker_ok t" "(n, (r, w)) \<in> set (tk_Inbounds t) \<or> (n, (r, w)) \<in> set (tk_Outbounds t)"
  shows "{r, w} \<inter> set (user_cells t) = {} \<and> r < tk_Next t \<and> w < tk_Next t"
proof -
  have "r \<in> set (other_cells t) \<and> w \<in> set (other_cells t)"
    using assms(2) by (force simp: other_cells_def counter_cells_def)
  then show ?thesis using assms(1) by (auto simp: tracker_ok_def)
qed

lemma with_inbound_grows:
  assumes ok: "tracker_ok t" and s: "with_inbound name t = (cs, t')"
  shows "grows t t' \<and> (\<forall>c\<in>set cs. {fst c, snd c} \<inter> set (user_cells t') = {} \<and> fst c < tk_Next t' \<and> snd c < tk_Next t')"
proof (cases "name = []")
  case True
  then show ?thesis using s grows_refl [OF ok] by (auto simp: with_inbound_def)
next
  case False
  then obtain r w obj cells nx where l: "loadOrCreateCounter (tk_Inbounds t) name (tk_Cells t) (tk_Next t) = ((r, w), obj, cells, nx)"
      "cs = [(r, w)]" "t' = t\<lparr>tk_Inbounds := obj, tk_Cells := cells, tk_Next := nx\<rparr>"
    using s by (auto simp: with_inbound_def split: prod.splits)
  have "grows t t' \<and> (name, (r, w)) \<in> set (tk_Inbounds t')"
    using l(1)
  proof (cases rule: load_cases)
    case found
    then show ?thesis using grows_refl [OF ok] map_of_SomeD [OF found(1)] by (simp add: l)
  next
    case fresh
    then have "grows t t'" by (intro other_fresh [OF ok]) (auto simp: l other_cells_def)
    then show ?thesis using fresh by (simp add: l)
  qed
  then show ?thesis using other_counter [of t' name r w] by (simp add: l(2) grows_def)
qed

lemma with_outbound_grows:
  assumes ok: "tracker_ok t" and s: "with_outbound name t = (cs, t')"
  shows "grows t t' \<and> (\<forall>c\<in>set cs. {fst c, snd c} \<inter> set (user_cells t') = {} \<and> fst c < tk_Next t' \<and> snd c < tk_Next t')"
proof (cases "name = []")
  case True
  then show ?thesis using s grows_refl [OF ok] by (auto simp: with_outbound_def)
next
  case False
  then obtain r w obj cells nx where l: "loadOrCreateCounter (tk_Outbounds t) name (tk_Cells t) (tk_Next t) = ((r, w), obj, cells, nx)"
      "cs = [(r, w)]" "t' = t\<lparr>tk_Outbounds := obj, tk_Cells := cells, tk_Next := nx\<rparr>"
    using s by (auto simp: with_outbound_def split: prod.splits)
  have "grows t t' \<and> (name, (r, w)) \<in> set (tk_Outbounds t')"
    using l(1)
  proof (cases rule: load_cases)
    case found
    then show ?thesis using grows_refl [OF ok] map_of_SomeD [OF found(1)] by (simp add: l)
  next
    case fresh
    then have "grows t t'" by (intro other_fresh [OF ok]) (auto simp: l other_cells_def)
    then show ?thesis using fresh by (simp add: l)
  qed
  then show ?thesis using other_counter [of t' name r w] by (simp add: l(2) grows_def)
qed

lemma with_user_grows:
  assumes ok: "tracker_ok t" and s: "with_user name t = (cs, t')"
  shows "grows t t' \<and> (if name = [] then cs = [] else \<exists>r w. cs = [(r, w)] \<and> map_of (tk_Users t') name = Some (r, w))"
proof (cases "name = []")
  case True
  then show ?thesis using s grows_refl [OF ok] by (auto simp: with_user_def)
next
  case False
  then obtain r w obj cells nx where l: "loadOrCreateCounter (tk_Users t) name (tk_Cells t) (tk_Next t) = ((r, w), obj, cells, nx)"
      "cs = [(r, w)]" "t' = t\<lparr>tk_Users := obj, tk_Cells := cells, tk_Next := nx\<rparr>"
    using s by (auto simp: with_user_def split: prod.splits)
  from l(1) show ?thesis
  proof (cases rule: load_cases)
    case found
    then show ?thesis using False by (simp add: l grows_refl [OF ok])
  next
    case fresh
    have old: "map_of (tk_Users t') u = (if u = name then Some (r, w) else map_of (tk_Users t) u)" for u
      using fresh by (auto simp: l map_add_def split: option.split)
    have uc: "user_cells t' = user_cells t @ [r, w]" "other_cells t' = other_cells t"
      using fresh by (simp_all add: l user_cells_def other_cells_def)
    have p: "pending t' u d = pending t u d" for u d
    proof (cases "u = name")
      case True
      then show ?thesis using fresh by (auto simp: pending_def old) (simp_all add: l)
    next
      case False
      then show ?thesis using fresh by (intro pending_fresh [OF ok]) (simp_all add: old, simp add: l)
    qed
    have lt: "a < Suc (Suc (tk_Next t))" if "a \<in> set (user_cells t) \<or> a \<in> set (other_cells t)" for a
    proof -
      have "a < tk_Next t" using ok that by (auto simp: tracker_ok_def)
      then show ?thesis by simp
    qed
    have new: "r = tk_Next t" "w = Suc (tk_Next t)" "tk_Next t' = Suc (Suc (tk_Next t))" using fresh by (simp_all add: l)
    note unused = not_yet_used [OF ok, of "tk_Next t"] not_yet_used [OF ok, of "Suc (tk_Next t)"]
    have "tracker_ok t'"
      unfolding tracker_ok_def uc
    proof (intro conjI)
      show "distinct (user_cells t @ [r, w])" using ok unused by (simp add: new tracker_ok_def)
      show "set (user_cells t @ [r, w]) \<inter> set (other_cells t) = {}" using ok unused by (auto simp: new tracker_ok_def)
      show "\<forall>a\<in>set ((user_cells t @ [r, w]) @ other_cells t). a < tk_Next t'" using lt by (auto simp: new)
      show "\<forall>a. 0 \<le> tk_Cells t' a" using ok fresh by (simp add: l tracker_ok_def)
      show "distinct (map fst (tk_Users t'))" "[] \<notin> fst ` set (tk_Users t')"
        using ok fresh False by (auto simp: l tracker_ok_def map_of_eq_None_iff)
    qed
    moreover have "map_of (tk_Users t) name = None" by (rule fresh(1))
    ultimately show ?thesis
      using p False unfolding grows_def uc old by (auto simp: new l(2))
  qed
qed

section \<open>Connections and counting\<close>

lemma conn_okI:
  "(set rs \<union> set ws) \<inter> set (user_cells t) = {} \<Longrightarrow> \<forall>a\<in>set rs \<union> set ws. a < tk_Next t \<Longrightarrow>
   (if cn_User c = [] then cn_Reads c = rs \<and> cn_Writes c = ws
    else \<exists>r w. map_of (tk_Users t) (cn_User c) = Some (r, w) \<and> cn_Reads c = rs @ [r] \<and> cn_Writes c = ws @ [w])
   \<Longrightarrow> conn_ok t c"
  unfolding conn_ok_def by blast

lemma other_conn:
  assumes "\<forall>c\<in>set cs. {fst c, snd c} \<inter> set (user_cells t) = {} \<and> fst c < tk_Next t \<and> snd c < tk_Next t"
  shows "conn_ok t \<lparr>cn_User = [], cn_Reads = map fst cs, cn_Writes = map snd cs\<rparr>"
  using assms unfolding conn_ok_def by (intro exI [of _ "map fst cs"] exI [of _ "map snd cs"]) auto

lemma connect_grows:
  assumes ok: "tracker_ok t" and s: "getReadCounters inb outb user t = ((rs, ws), t')"
  shows "grows t t'" "conn_ok t' \<lparr>cn_User = user, cn_Reads = rs, cn_Writes = ws\<rparr>"
proof -
  obtain a t1 where a: "with_inbound inb t = (a, t1)" by (cases "with_inbound inb t")
  obtain b t2 where b: "with_outbound outb t1 = (b, t2)" by (cases "with_outbound outb t1")
  obtain c t3 where c: "with_user user t2 = (c, t3)" by (cases "with_user user t2")
  have eq: "rs = map fst (a @ b) @ map fst c" "ws = map snd (a @ b) @ map snd c" "t' = t3"
    using s by (auto simp: getReadCounters_def a b c)
  note ga = with_inbound_grows [OF ok a]
  then have ok1: "tracker_ok t1" by (simp add: grows_def)
  note gb = with_outbound_grows [OF ok1 b]
  then have ok2: "tracker_ok t2" by (simp add: grows_def)
  note gc = with_user_grows [OF ok2 c]
  have g13: "grows t1 t3" "grows t2 t3" using gb gc grows_trans by blast+
  then show "grows t t'" using ga grows_trans eq(3) by blast
  have ca: "conn_ok t3 \<lparr>cn_User = [], cn_Reads = map fst a, cn_Writes = map snd a\<rparr>"
    using conn_grows [OF other_conn g13(1)] ga by blast
  have cb: "conn_ok t3 \<lparr>cn_User = [], cn_Reads = map fst b, cn_Writes = map snd b\<rparr>"
    using conn_grows [OF other_conn g13(2)] gb by blast
  show "conn_ok t' \<lparr>cn_User = user, cn_Reads = rs, cn_Writes = ws\<rparr>"
    unfolding eq(3)
  proof (rule conn_okI)
    show "(set (map fst (a @ b)) \<union> set (map snd (a @ b))) \<inter> set (user_cells t3) = {}"
      using ca cb unfolding conn_ok_def by auto
    show "\<forall>x\<in>set (map fst (a @ b)) \<union> set (map snd (a @ b)). x < tk_Next t3"
      using ca cb unfolding conn_ok_def by auto
    show "if cn_User \<lparr>cn_User = user, cn_Reads = rs, cn_Writes = ws\<rparr> = []
      then cn_Reads \<lparr>cn_User = user, cn_Reads = rs, cn_Writes = ws\<rparr> = map fst (a @ b)
        \<and> cn_Writes \<lparr>cn_User = user, cn_Reads = rs, cn_Writes = ws\<rparr> = map snd (a @ b)
      else \<exists>r w. map_of (tk_Users t3) (cn_User \<lparr>cn_User = user, cn_Reads = rs, cn_Writes = ws\<rparr>) = Some (r, w)
        \<and> cn_Reads \<lparr>cn_User = user, cn_Reads = rs, cn_Writes = ws\<rparr> = map fst (a @ b) @ [r]
        \<and> cn_Writes \<lparr>cn_User = user, cn_Reads = rs, cn_Writes = ws\<rparr> = map snd (a @ b) @ [w]"
      using gc by (auto simp: eq)
  qed
qed

lemma count_cells:
  "foldl (\<lambda>cells a. cells(a := cells a + n)) cells addrs x = cells x + int (count_list addrs x) * (n :: int)"
  by (induction addrs arbitrary: cells) (auto simp: algebra_simps)

lemma distinct_cells:
  assumes "distinct (counter_cells obj)" "(n, (r, w)) \<in> set obj" "(n', (r', w')) \<in> set obj"
  shows "r \<noteq> w'" "r = r' \<longleftrightarrow> n = n' \<and> w = w' \<and> r = r'" "w = w' \<longleftrightarrow> n = n' \<and> w = w' \<and> r = r'"
proof -
  have mem: "(n, (r, w)) \<in> set obj \<Longrightarrow> r \<in> set (counter_cells obj) \<and> w \<in> set (counter_cells obj)" for n r w obj
    by (force simp: counter_cells_def)
  have "r \<noteq> w' \<and> (r = r' \<longrightarrow> n = n' \<and> w = w') \<and> (w = w' \<longrightarrow> n = n' \<and> r = r')"
    using assms
  proof (induction obj)
    case (Cons e obj)
    obtain m p q where e: "e = (m, (p, q))" by (cases e) auto
    then have d: "p \<noteq> q" "p \<notin> set (counter_cells obj)" "q \<notin> set (counter_cells obj)" "distinct (counter_cells obj)"
      using Cons.prems(1) by auto
    show ?case
      using Cons.prems(2,3) Cons.IH [OF d(4)] d mem [of n r w obj] mem [of n' r' w' obj] by (auto simp: e)
  qed simp
  then show "r \<noteq> w'" "r = r' \<longleftrightarrow> n = n' \<and> w = w' \<and> r = r'" "w = w' \<longleftrightarrow> n = n' \<and> w = w' \<and> r = r'" by auto
qed

text \<open>Reading or writing \<open>n\<close> bytes adds them to the user of the connection and to nobody else.\<close>

lemma count_pending:
  assumes ok: "tracker_ok t" and c: "conn_ok t c"
  shows "pending (count_bytes (cn_Reads c) n t) u d = pending t u d + (if u = cn_User c \<and> u \<noteq> [] \<and> d then n else 0)"
    and "pending (count_bytes (cn_Writes c) n t) u d = pending t u d + (if u = cn_User c \<and> u \<noteq> [] \<and> \<not> d then n else 0)"
proof -
  obtain rs ws where rw: "(set rs \<union> set ws) \<inter> set (user_cells t) = {}"
    "if cn_User c = [] then cn_Reads c = rs \<and> cn_Writes c = ws
     else \<exists>r w. map_of (tk_Users t) (cn_User c) = Some (r, w) \<and> cn_Reads c = rs @ [r] \<and> cn_Writes c = ws @ [w]"
    using c unfolding conn_ok_def by blast
  have users: "tk_Users (count_bytes as n t) = tk_Users t" for as by (simp add: count_bytes_def)
  have "pending (count_bytes (cn_Reads c) n t) u d = pending t u d + (if u = cn_User c \<and> u \<noteq> [] \<and> d then n else 0)
    \<and> pending (count_bytes (cn_Writes c) n t) u d = pending t u d + (if u = cn_User c \<and> u \<noteq> [] \<and> \<not> d then n else 0)"
  proof (cases "map_of (tk_Users t) u")
    case None
    then have "u \<noteq> cn_User c \<or> u = []" using rw(2) by (auto split: if_splits)
    then show ?thesis using None by (auto simp: pending_def users)
  next
    case (Some p)
    obtain r w where p: "p = (r, w)" by (cases p)
    have ne: "u \<noteq> []" using ok map_of_SomeD [OF Some] unfolding tracker_ok_def by (metis fst_conv image_eqI)
    have "r \<in> set (user_cells t)" "w \<in> set (user_cells t)"
      using map_of_cells [of "tk_Users t" u r w] Some p by (simp_all add: user_cells_def)
    then have out: "count_list rs r = 0" "count_list rs w = 0" "count_list ws r = 0" "count_list ws w = 0"
      using rw(1) by (auto simp: count_list_0_iff)
    have cells: "pending (count_bytes as n t) u d = pending t u d + int (count_list as (if d then r else w)) * n" for as
      using Some p by (simp add: pending_def users) (simp add: count_bytes_def count_cells)
    show ?thesis
    proof (cases "cn_User c = []")
      case True
      then show ?thesis using rw(2) out ne by (simp add: cells)
    next
      case False
      then obtain r' w' where u: "map_of (tk_Users t) (cn_User c) = Some (r', w')" "cn_Reads c = rs @ [r']" "cn_Writes c = ws @ [w']"
        using rw(2) by auto
      have "distinct (counter_cells (tk_Users t))" using ok by (simp add: tracker_ok_def user_cells_def)
      note d = distinct_cells [OF this, of u r w "cn_User c" r' w'] distinct_cells [OF this, of "cn_User c" r' w' u r w]
      have m: "(u, (r, w)) \<in> set (tk_Users t)" "(cn_User c, (r', w')) \<in> set (tk_Users t)"
        using Some p u(1) by (auto dest: map_of_SomeD)
      have "r = r' \<longleftrightarrow> u = cn_User c" "w = w' \<longleftrightarrow> u = cn_User c" "r \<noteq> w'" "w \<noteq> r'"
        using d(1-3) [OF m] d(4) [OF m(2,1)] Some p u(1) by auto
      then show ?thesis using out ne by (auto simp: cells u)
    qed
  qed
  then show "pending (count_bytes (cn_Reads c) n t) u d = pending t u d + (if u = cn_User c \<and> u \<noteq> [] \<and> d then n else 0)"
    and "pending (count_bytes (cn_Writes c) n t) u d = pending t u d + (if u = cn_User c \<and> u \<noteq> [] \<and> \<not> d then n else 0)" by simp_all
qed

lemma tracker_frame:
  assumes "tracker_ok t" "tk_Users t' = tk_Users t" "tk_Inbounds t' = tk_Inbounds t" "tk_Outbounds t' = tk_Outbounds t"
    "tk_Next t' = tk_Next t" "\<forall>a. 0 \<le> tk_Cells t' a"
  shows "tracker_ok t'" "conn_ok t c \<Longrightarrow> conn_ok t' c"
proof -
  have cells: "user_cells t' = user_cells t" "other_cells t' = other_cells t"
    by (simp_all add: user_cells_def other_cells_def assms)
  show "tracker_ok t'" using assms(1,6) unfolding tracker_ok_def cells assms(2,5) by blast
  show "conn_ok t c \<Longrightarrow> conn_ok t' c" unfolding conn_ok_def cells assms(2,5) .
qed

lemma count_ok:
  assumes "tracker_ok t" "0 \<le> n"
  shows "tracker_ok (count_bytes as n t)" "conn_ok t c \<Longrightarrow> conn_ok (count_bytes as n t) c"
proof -
  have "\<forall>a. 0 \<le> tk_Cells (count_bytes as n t) a" using assms by (simp add: count_bytes_def count_cells tracker_ok_def)
  then show "tracker_ok (count_bytes as n t)" "conn_ok t c \<Longrightarrow> conn_ok (count_bytes as n t) c"
    using tracker_frame [OF assms(1), of "count_bytes as n t"] by (simp_all add: count_bytes_def)
qed

end
