(* ===== verification/Traffic_Invariant.thy ===== *)
theory Traffic_Invariant
  imports Traffic_Accounts
begin

text \<open>
  What the collecting job reads out of the counters is what it adds to the clients, and the
  balance of every client over all runs of the machine.
\<close>

section \<open>Collecting\<close>

definition user_bytes :: "stat_row list \<Rightarrow> string \<Rightarrow> bool \<Rightarrow> int" where
  "user_bytes rows u d = sum_list (map st_Traffic
     (filter (\<lambda>s. st_Resource s = ''user'' \<and> st_Tag s = u \<and> st_Direction s = d) rows))"

lemma user_bytes_append [simp]: "user_bytes (a @ b) u d = user_bytes a u d + user_bytes b u d"
  by (simp add: user_bytes_def)

lemma user_bytes_counter:
  assumes "0 \<le> down" "0 \<le> up"
  shows "user_bytes (counter_rows res dt tag down up) u d = (if res = ''user'' \<and> tag = u then if d then up else down else 0)"
  using assms by (auto simp: user_bytes_def counter_rows_def)

lemma swap_cells:
  "swap_counters res dt obj cells = (rows, cells') \<Longrightarrow> cells' a = (if a \<in> set (counter_cells obj) then 0 else cells a)"
proof (induction obj arbitrary: cells rows cells')
  case (Cons e obj)
  obtain n r w where e: "e = (n, (r, w))" by (cases e) auto
  obtain rows1 cells1 where s: "swap_counters res dt obj (cells(w := 0, r := 0)) = (rows1, cells1)"
    by (cases "swap_counters res dt obj (cells(w := 0, r := 0))")
  have "cells' = cells1" using Cons.prems by (simp add: e s)
  then show ?case using Cons.IH [OF s] by (auto simp: e)
qed simp

lemma swap_bytes:
  assumes "swap_counters res dt obj cells = (rows, cells')" "distinct (counter_cells obj)" "distinct (map fst obj)" "\<forall>a. 0 \<le> cells a"
  shows "user_bytes rows u d
    = (if res = ''user'' then (case map_of obj u of None \<Rightarrow> 0 | Some (r, w) \<Rightarrow> cells (if d then r else w)) else 0)"
  using assms
proof (induction obj arbitrary: cells rows cells')
  case (Cons e obj)
  obtain n r w where e: "e = (n, (r, w))" by (cases e) auto
  let ?c = "cells(w := 0, r := 0)"
  obtain rows1 cells1 where s: "swap_counters res dt obj ?c = (rows1, cells1)" by (cases "swap_counters res dt obj ?c")
  have rows: "rows = counter_rows res dt n (cells w) (cells r) @ rows1" using Cons.prems(1) by (simp add: e s)
  have d: "distinct (counter_cells obj)" "distinct (map fst obj)" "\<forall>a. 0 \<le> ?c a" using Cons.prems(2-4) by (simp_all add: e)
  have rest: "(case map_of obj u of None \<Rightarrow> 0 | Some (r, w) \<Rightarrow> ?c (if d then r else w))
      = (case map_of obj u of None \<Rightarrow> 0 | Some (r, w) \<Rightarrow> cells (if d then r else w))"
  proof (cases "map_of obj u")
    case (Some p)
    obtain x y where p: "p = (x, y)" by (cases p)
    have "x \<in> set (counter_cells obj)" "y \<in> set (counter_cells obj)" using map_of_cells [of obj u x y] Some p by simp_all
    then have "x \<noteq> r" "x \<noteq> w" "y \<noteq> r" "y \<noteq> w" using Cons.prems(2) by (auto simp: e)
    then show ?thesis using Some p by simp
  qed simp
  have none: "u = n \<Longrightarrow> map_of obj u = None" using Cons.prems(3) by (auto simp: e map_of_eq_None_iff)
  have "user_bytes (counter_rows res dt n (cells w) (cells r)) u d
      = (if res = ''user'' \<and> n = u then if d then cells r else cells w else 0)"
    using Cons.prems(4) by (simp add: user_bytes_counter)
  then show ?case
    using Cons.IH [OF s d] none unfolding rows rest by (auto simp: e)
qed (simp add: user_bytes_def)

lemma swap_none:
  assumes "swap_counters res dt obj cells = (rows, cells')" "res \<noteq> ''user''"
  shows "user_bytes rows u d = 0"
  using assms
proof (induction obj arbitrary: cells rows cells')
  case (Cons e obj)
  obtain n r w where e: "e = (n, (r, w))" by (cases e) auto
  let ?c = "cells(w := 0, r := 0)"
  obtain rows1 cells1 where s: "swap_counters res dt obj ?c = (rows1, cells1)" by (cases "swap_counters res dt obj ?c")
  have "rows = counter_rows res dt n (cells w) (cells r) @ rows1" using Cons.prems(1) by (simp add: e s)
  moreover have "user_bytes (counter_rows res dt n (cells w) (cells r)) u d = 0"
    using Cons.prems(2) by (simp add: user_bytes_def counter_rows_def)
  ultimately show ?case using Cons.IH [OF s Cons.prems(2)] by simp
qed (simp add: user_bytes_def)

lemma collect:
  assumes ok: "tracker_ok t" and g: "tracker_GetStats dt t = (stats, t')"
  shows "user_bytes stats u d = pending t u d" "pending t' u d = 0" "tracker_ok t'" "conn_ok t c \<Longrightarrow> conn_ok t' c"
proof -
  obtain a c1 where a: "swap_counters ''inbound'' dt (tk_Inbounds t) (tk_Cells t) = (a, c1)"
    by (cases "swap_counters ''inbound'' dt (tk_Inbounds t) (tk_Cells t)")
  obtain b c2 where b: "swap_counters ''outbound'' dt (tk_Outbounds t) c1 = (b, c2)"
    by (cases "swap_counters ''outbound'' dt (tk_Outbounds t) c1")
  obtain e c3 where e: "swap_counters ''user'' dt (tk_Users t) c2 = (e, c3)"
    by (cases "swap_counters ''user'' dt (tk_Users t) c2")
  have eq: "stats = a @ b @ e" "t' = t\<lparr>tk_Cells := c3\<rparr>" using g by (simp_all add: tracker_GetStats_def a b e)
  have c2: "c2 x = (if x \<in> set (other_cells t) then 0 else tk_Cells t x)" for x
    using swap_cells [OF a, of x] swap_cells [OF b, of x] by (simp add: other_cells_def)
  have c3: "c3 x = (if x \<in> set (user_cells t) then 0 else c2 x)" for x
    using swap_cells [OF e, of x] by (simp add: user_cells_def)
  have uo: "set (user_cells t) \<inter> set (other_cells t) = {}" and nonneg: "\<forall>x. 0 \<le> tk_Cells t x"
    and d: "distinct (counter_cells (tk_Users t))" "distinct (map fst (tk_Users t))"
    using ok by (simp_all add: tracker_ok_def user_cells_def)
  have nn2: "\<forall>x. 0 \<le> c2 x" and nn3: "\<forall>x. 0 \<le> c3 x" using nonneg by (simp_all add: c2 c3)
  have keep: "c2 x = tk_Cells t x" if "x \<in> set (user_cells t)" for x using that uo by (auto simp: c2)
  have "user_bytes e u d = pending t u d"
  proof (cases "map_of (tk_Users t) u")
    case (Some p)
    obtain r w where p: "p = (r, w)" by (cases p)
    have "r \<in> set (user_cells t)" "w \<in> set (user_cells t)"
      using map_of_cells [of "tk_Users t" u r w] Some p by (simp_all add: user_cells_def)
    then show ?thesis using swap_bytes [OF e d nn2, of u d] Some p keep by (simp add: pending_def)
  qed (use swap_bytes [OF e d nn2, of u d] in \<open>simp add: pending_def\<close>)
  then show "user_bytes stats u d = pending t u d" using swap_none [OF a] swap_none [OF b] by (simp add: eq)
  show "pending t' u d = 0"
    using map_of_cells [of "tk_Users t" u] by (auto simp: pending_def eq c3 user_cells_def split: option.splits)
  show "tracker_ok t'" "conn_ok t c \<Longrightarrow> conn_ok t' c"
    using tracker_frame [OF ok, of t'] nn3 by (simp_all add: eq)
qed

section \<open>Charging the clients\<close>

definition charge :: "(string \<times> int \<times> int) list \<Rightarrow> string \<Rightarrow> int \<times> int" where
  "charge ut u = (case map_of ut u of Some p \<Rightarrow> p | None \<Rightarrow> (0, 0))"

lemma charge_add:
  "charge (add_traffic ut s) u
    = (fst (charge ut u) + user_bytes [s] u True, snd (charge ut u) + user_bytes [s] u False)"
  by (auto simp: add_traffic_def charge_def user_bytes_def update_conv' split: option.splits)

lemma charge_all:
  "charge (foldl add_traffic ut stats) u
    = (fst (charge ut u) + user_bytes stats u True, snd (charge ut u) + user_bytes stats u False)"
proof (induction stats arbitrary: ut)
  case (Cons s stats)
  have "user_bytes (s # stats) u d = user_bytes [s] u d + user_bytes stats u d" for d
    using user_bytes_append [of "[s]" stats u d] by simp
  then show ?case using Cons.IH [of "add_traffic ut s"] by (simp add: charge_add)
qed (simp add: user_bytes_def)

lemma charge_distinct: "distinct (map fst ut) \<Longrightarrow> distinct (map fst (foldl add_traffic ut stats))"
proof (induction stats arbitrary: ut)
  case (Cons s stats)
  have "distinct (map fst (add_traffic ut s))"
    using Cons.prems by (auto simp: add_traffic_def distinct_update split: prod.splits option.splits)
  then show ?case using Cons.IH [of "add_traffic ut s"] by simp
qed simp

definition charged :: "int \<Rightarrow> (string \<times> int \<times> int) list \<Rightarrow> client \<Rightarrow> client" where
  "charged now us c = (case map_of us (cl_Name c) of None \<Rightarrow> c | Some p \<Rightarrow> client_traffic now p c)"

lemma client_traffic_name [simp]: "cl_Name (client_traffic now p c) = cl_Name c" "cl_Id (client_traffic now p c) = cl_Id c"
  by (simp_all add: client_traffic_def)

lemma update_users_rows:
  assumes "update_users env now us db = Inr db'" "distinct (map fst us)"
  shows "db_Clients db' = update_rows (\<lambda>_. True) (charged now us) (db_Clients db)"
  using assms
proof (induction us arbitrary: db)
  case Nil
  then show ?case by (simp add: update_rows_def charged_def)
next
  case (Cons u us)
  obtain n p where u: "u = (n, p)" by (cases u)
  have r: "update_users env now us (update_client now db u) = Inr db'" and d: "distinct (map fst us)" "n \<notin> fst ` set us"
    using Cons.prems by (simp_all add: u split: option.splits)
  have none: "map_of us n = None" using d(2) by (simp add: map_of_eq_None_iff)
  have "charged now us (if cl_Name c = n then client_traffic now p c else c) = charged now (u # us) c" for c
    using none by (simp add: charged_def u split: option.splits)
  then show ?case
    using Cons.IH [OF r d(1)] by (simp add: update_client_def update_rows_def u comp_def)
qed

lemma stats_transaction_rows:
  assumes "stats_transaction env en sec now stats db = Inr db'"
  shows "db_Clients db' = update_rows (\<lambda>_. True) (charged now (foldl add_traffic [] stats)) (db_Clients db)"
proof -
  obtain db1 where "update_users env now (foldl add_traffic [] stats) db = Inr db1" "db_Clients db' = db_Clients db1"
    using assms by (auto simp: stats_transaction_def bindr_Inr_iff split: if_splits option.splits)
  then show ?thesis using update_users_rows charge_distinct [of "[]" stats] by simp
qed

text \<open>The bytes a client was charged in one direction since it was created.\<close>

definition bytes_of :: "client \<Rightarrow> bool \<Rightarrow> int" where
  "bytes_of c d = (if d then cl_Up c + cl_TotalUp c else cl_Down c + cl_TotalDown c)"

lemma charged_total:
  assumes "0 \<le> fst (charge us (cl_Name c))" "0 \<le> snd (charge us (cl_Name c))"
  shows "bytes_of (charged now us c) d = bytes_of c d + (if d then fst (charge us (cl_Name c)) else snd (charge us (cl_Name c)))"
  using assms by (auto simp: bytes_of_def charged_def charge_def client_traffic_def split: option.splits)

lemma charged_keys [simp]: "cl_Name (charged now us c) = cl_Name c" "cl_Id (charged now us c) = cl_Id c"
  by (simp_all add: charged_def split: option.splits)

section \<open>The balance\<close>

definition balanced :: "client \<Rightarrow> traffic_run \<Rightarrow> client \<Rightarrow> bool" where
  "balanced c0 s c \<longleftrightarrow> cl_Id c = cl_Id c0 \<and> cl_Name c = cl_Name c0 \<and>
     (\<forall>d. bytes_of c d + pending (ss_Tracker s) (cl_Name c) d + tr_Lost s (cl_Name c) d
        = bytes_of c0 d + tr_Counted s (cl_Name c) d)"

definition accounted :: "panel_db \<Rightarrow> traffic_run \<Rightarrow> bool" where
  "accounted db0 s \<longleftrightarrow> table_ok cl_Id (db_Clients (ss_Db s))
     \<and> list_all2 (\<lambda>c0 c. balanced c0 s c) (tb_Rows (db_Clients db0)) (tb_Rows (db_Clients (ss_Db s)))"

definition run_ok :: "panel_db \<Rightarrow> traffic_run \<Rightarrow> bool" where
  "run_ok db0 s \<longleftrightarrow> tracker_ok (ss_Tracker s) \<and> (\<forall>c\<in>set (tr_Conns s). conn_ok (ss_Tracker s) c) \<and> accounted db0 s"

text \<open>The two ways a step keeps the balance: the clients stay and the counters move, or every client changes.\<close>

lemma accounted_same_rows:
  assumes "accounted db0 s" "db_Clients (ss_Db s') = db_Clients (ss_Db s)"
    and "\<And>u d. pending (ss_Tracker s') u d + tr_Lost s' u d - tr_Counted s' u d
      = pending (ss_Tracker s) u d + tr_Lost s u d - tr_Counted s u d"
  shows "accounted db0 s'"
proof -
  have "balanced c0 s' c" if "balanced c0 s c" for c0 c
    unfolding balanced_def
  proof (intro conjI allI)
    show "cl_Id c = cl_Id c0" "cl_Name c = cl_Name c0" using that by (simp_all add: balanced_def)
    fix d
    have "bytes_of c d + pending (ss_Tracker s) (cl_Name c) d + tr_Lost s (cl_Name c) d
        = bytes_of c0 d + tr_Counted s (cl_Name c) d" using that unfolding balanced_def by blast
    then show "bytes_of c d + pending (ss_Tracker s') (cl_Name c) d + tr_Lost s' (cl_Name c) d
        = bytes_of c0 d + tr_Counted s' (cl_Name c) d" using assms(3) [of "cl_Name c" d] by linarith
  qed
  then show ?thesis using assms(1,2) by (auto simp: accounted_def elim: list_all2_mono)
qed

lemma accounted_new_rows:
  assumes acc: "accounted db0 s" and rows: "db_Clients (ss_Db s') = update_rows (\<lambda>_. True) f (db_Clients (ss_Db s))"
    and keys: "\<And>c. cl_Id (f c) = cl_Id c \<and> cl_Name (f c) = cl_Name c"
    and bal: "\<And>c d. bytes_of (f c) d + pending (ss_Tracker s') (cl_Name c) d + tr_Lost s' (cl_Name c) d - tr_Counted s' (cl_Name c) d
      = bytes_of c d + pending (ss_Tracker s) (cl_Name c) d + tr_Lost s (cl_Name c) d - tr_Counted s (cl_Name c) d"
  shows "accounted db0 s'"
proof -
  have "balanced c0 s' (f c)" if "balanced c0 s c" for c0 c
    unfolding balanced_def
  proof (intro conjI allI)
    show "cl_Id (f c) = cl_Id c0" "cl_Name (f c) = cl_Name c0" using that keys by (simp_all add: balanced_def)
    fix d
    have "bytes_of c d + pending (ss_Tracker s) (cl_Name c) d + tr_Lost s (cl_Name c) d
        = bytes_of c0 d + tr_Counted s (cl_Name c) d" using that unfolding balanced_def by blast
    then show "bytes_of (f c) d + pending (ss_Tracker s') (cl_Name (f c)) d + tr_Lost s' (cl_Name (f c)) d
        = bytes_of c0 d + tr_Counted s' (cl_Name (f c)) d" using bal [of c d] keys [of c] by simp
  qed
  then have "list_all2 (\<lambda>c0 c. balanced c0 s' (f c)) (tb_Rows (db_Clients db0)) (tb_Rows (db_Clients (ss_Db s)))"
    using acc by (auto simp: accounted_def elim: list_all2_mono)
  moreover have "table_ok cl_Id (update_rows (\<lambda>_. True) f (db_Clients (ss_Db s)))"
    using acc keys by (intro clients.update_ok) (simp_all add: accounted_def)
  ultimately show ?thesis by (simp add: accounted_def rows update_rows_def list_all2_map2)
qed

lemma save_keeps:
  assumes ok: "run_ok db0 s" and run: "SaveStats env en sec now (stats_state.truncate s) = (r, s')"
  shows "run_ok db0 (s\<lparr>ss_Tracker := ss_Tracker s', ss_Db := ss_Db s', ss_Onlines := ss_Onlines s',
      tr_Lost := (if saved_ok env r then tr_Lost s else give_up s)\<rparr>)" (is "run_ok db0 ?s'")
proof -
  obtain stats t where g: "tracker_GetStats now (ss_Tracker s) = (stats, t)" by (cases "tracker_GetStats now (ss_Tracker s)")
  have tok: "tracker_ok (ss_Tracker s)" and acc: "accounted db0 s" using ok by (simp_all add: run_ok_def)
  note c = collect [OF tok g]
  have trunc: "ss_Tracker (stats_state.truncate s) = ss_Tracker s" "ss_Db (stats_state.truncate s) = ss_Db s"
    by (simp_all add: stats_state.truncate_def)
  have t: "ss_Tracker s' = t"
    using run by (auto simp: SaveStats_def g trunc Let_def split: if_splits sum.splits)
  have "accounted db0 ?s'"
  proof (cases "stats = [] \<or> (\<exists>e. stats_transaction env en sec now stats (ss_Db s) = Inl e) \<or> se_Commit env \<noteq> None")
    case True
    then have same: "ss_Db s' = ss_Db s"
      using run by (auto simp: SaveStats_def g trunc Let_def split: if_splits sum.splits)
    have lost: "pending (ss_Tracker ?s') u d + tr_Lost ?s' u d = pending (ss_Tracker s) u d + tr_Lost s u d" for u d
    proof (cases "saved_ok env r")
      case True
      then have "stats = []"
        using \<open>stats = [] \<or> _\<close> run by (auto simp: SaveStats_def g trunc Let_def saved_ok_def split: if_splits sum.splits)
      then have "pending (ss_Tracker s) u d = 0" using c(1) [of u d] by (simp add: user_bytes_def)
      then show ?thesis using True by (simp add: t c(2))
    next
      case False
      then show ?thesis by (simp add: t c(2) give_up_def)
    qed
    show ?thesis by (rule accounted_same_rows [OF acc]) (use same lost in auto)
  next
    case False
    then obtain db where db: "stats_transaction env en sec now stats (ss_Db s) = Inr db" "se_Commit env = None" "stats \<noteq> []"
      by (cases "stats_transaction env en sec now stats (ss_Db s)") auto
    then have r: "r = Inr ()" "ss_Db s' = db" using run by (auto simp: SaveStats_def g trunc Let_def)
    then have ok: "saved_ok env r" using db(2) by (simp add: saved_ok_def)
    let ?us = "foldl add_traffic [] stats"
    have ch: "charge ?us u = (pending (ss_Tracker s) u True, pending (ss_Tracker s) u False)" for u
      using charge_all [of "[]" stats u] c(1) by (simp add: charge_def)
    have nn: "0 \<le> pending (ss_Tracker s) u d" for u d
      using tok by (auto simp: pending_def tracker_ok_def split: option.splits)
    have tot: "bytes_of (charged now ?us x) d = bytes_of x d + pending (ss_Tracker s) (cl_Name x) d" for x d
      using charged_total [of ?us x now d] nn by (simp add: ch)
    show ?thesis
      by (rule accounted_new_rows [OF acc, where f = "charged now ?us"])
        (use r ok stats_transaction_rows [OF db(1)] tot in \<open>auto simp: t c(2)\<close>)
  qed
  then show ?thesis using ok c(3,4) by (simp add: run_ok_def t)
qed

lemma job_keeps:
  assumes ok: "run_ok db0 s" and rows: "db_Clients db = update_rows P f (db_Clients (ss_Db s))"
    and keys: "\<And>c. cl_Id (f c) = cl_Id c \<and> cl_Name (f c) = cl_Name c" and tot: "\<And>c d. bytes_of (f c) d = bytes_of c d"
  shows "run_ok db0 (s\<lparr>ss_Db := db\<rparr>)"
proof -
  have "update_rows P f = update_rows (\<lambda>_. True) (\<lambda>c. if P c then f c else c)" by (simp add: update_rows_def fun_eq_iff)
  moreover have "accounted db0 s" using ok by (simp add: run_ok_def)
  ultimately have "accounted db0 (s\<lparr>ss_Db := db\<rparr>)"
    using rows keys tot by (rule_tac accounted_new_rows [where s = s and f = "\<lambda>c. if P c then f c else c"]) simp_all
  then show ?thesis using ok by (simp add: run_ok_def)
qed

lemma count_keeps:
  assumes ok: "run_ok db0 s" and c: "c \<in> set (tr_Conns s)" and n: "0 \<le> n"
  shows "run_ok db0 (s\<lparr>ss_Tracker := count_bytes (if up then cn_Reads c else cn_Writes c) n (ss_Tracker s),
    tr_Counted := add_bytes (tr_Counted s) (cn_User c) up n\<rparr>)"
proof -
  have tok: "tracker_ok (ss_Tracker s)" and cok: "conn_ok (ss_Tracker s) c" using ok c by (simp_all add: run_ok_def)
  have "accounted db0 (s\<lparr>ss_Tracker := count_bytes (if up then cn_Reads c else cn_Writes c) n (ss_Tracker s),
    tr_Counted := add_bytes (tr_Counted s) (cn_User c) up n\<rparr>)"
  proof (rule accounted_same_rows [of db0 s], goal_cases)
    case (3 u d)
    show ?case using count_pending [OF tok cok, of n u d] by (cases up; cases d) (simp_all add: add_bytes_def)
  qed (use ok in \<open>simp_all add: run_ok_def\<close>)
  then show ?thesis using ok count_ok [OF tok n] by (simp add: run_ok_def)
qed

lemma tracker_ok_new: "tracker_ok NewStatsTracker" "pending NewStatsTracker u d = 0"
  by (simp_all add: tracker_ok_def NewStatsTracker_def user_cells_def other_cells_def pending_def)

lemma step_keeps:
  assumes "traffic_step s s'" "run_ok db0 s"
  shows "run_ok db0 s'"
  using assms
proof (cases rule: traffic_step.cases)
  case (connect inb outb user rs ws t)
  have tok: "tracker_ok (ss_Tracker s)" using assms(2) by (simp add: run_ok_def)
  note g = connect_grows [OF tok connect(2)]
  have "accounted db0 s'"
    unfolding connect(1) by (rule accounted_same_rows [of db0 s]) (use assms(2) g(1) in \<open>auto simp: run_ok_def grows_def\<close>)
  moreover have "tracker_ok t" using g(1) by (simp add: grows_def)
  ultimately show ?thesis using assms(2) conn_grows [OF _ g(1)] g(2) by (auto simp: run_ok_def connect(1))
next
  case (read_bytes c n)
  then show ?thesis using count_keeps [OF assms(2), of c n True] by simp
next
  case (write_bytes c n)
  then show ?thesis using count_keeps [OF assms(2), of c n False] by simp
next
  case (disconnect c)
  have "accounted db0 s'"
    unfolding disconnect by (rule accounted_same_rows [of db0 s]) (use assms(2) in \<open>auto simp: run_ok_def\<close>)
  then show ?thesis using assms(2) by (auto simp: run_ok_def disconnect)
next
  case (save env en sec now r s1)
  then show ?thesis using save_keeps [OF assms(2)] by blast
next
  case (deplete dt)
  have ok: "table_ok cl_Id (db_Clients (ss_Db s))" using assms(2) by (simp add: run_ok_def accounted_def)
  obtain ids db t where r: "DepleteClients (ss_Db s) dt = (ids, db, t)" by (cases "DepleteClients (ss_Db s) dt") auto
  show ?thesis
    unfolding deplete r fst_conv snd_conv
    by (rule job_keeps [OF assms(2) DepleteClients_table [OF ok r]])
      (auto simp: deplete_step_def reset_step_def start_expiry_def start_period_def next_period_def bytes_of_def)
next
  case (reset_all dt)
  have "db_Clients (fst (ResetAllClientsTraffic (ss_Db s) dt))
      = update_rows (\<lambda>c. cl_Up c + cl_Down c > 0 \<or> \<not> cl_Enable c) reset_traffic (db_Clients (ss_Db s))"
    by (simp add: ResetAllClientsTraffic_def Let_def add_change_def)
  then show ?thesis
    unfolding reset_all by (rule job_keeps [OF assms(2)]) (auto simp: reset_traffic_def bytes_of_def)
next
  case (prune oldTime)
  have "db_Clients (DelOldStats oldTime (ss_Db s)) = update_rows (\<lambda>_. False) (\<lambda>c. c) (db_Clients (ss_Db s))"
    by (simp add: DelOldStats_def update_rows_def)
  then show ?thesis unfolding prune by (rule job_keeps [OF assms(2)]) simp_all
next
  case restart
  have "accounted db0 s'"
    unfolding restart by (rule accounted_same_rows [of db0 s]) (use assms(2) in \<open>auto simp: run_ok_def tracker_ok_new give_up_def\<close>)
  then show ?thesis using tracker_ok_new by (simp add: run_ok_def restart)
qed

lemma start_ok: "table_ok cl_Id (db_Clients db) \<Longrightarrow> run_ok db (traffic_start db)"
  by (simp add: run_ok_def traffic_start_def tracker_ok_new accounted_def balanced_def list_all2_same list.rel_refl)

text \<open>
  C5. The accounts of the clients balance after any sequence of connections, reads and writes,
  collecting runs (failed ones included), client jobs and restarts: in each direction a client
  has been charged exactly the bytes counted for its name, less those still in the counter and
  those a failed run or a restart gave up; the counters hold no negative amount.
\<close>

theorem traffic_accounted:
  assumes "table_ok cl_Id (db_Clients db)" "traffic_step\<^sup>*\<^sup>* (traffic_start db) s"
  shows "list_all2 (\<lambda>c0 c. cl_Id c = cl_Id c0 \<and> cl_Name c = cl_Name c0 \<and>
      (\<forall>d. bytes_of c d = bytes_of c0 d + tr_Counted s (cl_Name c) d - pending (ss_Tracker s) (cl_Name c) d
        - tr_Lost s (cl_Name c) d \<and> 0 \<le> pending (ss_Tracker s) (cl_Name c) d))
    (tb_Rows (db_Clients db)) (tb_Rows (db_Clients (ss_Db s)))"
proof -
  have ok: "run_ok db s"
    using assms(2) by (induction rule: rtranclp_induct) (auto intro: step_keeps start_ok [OF assms(1)])
  then have "0 \<le> pending (ss_Tracker s) u d" for u d
    by (auto simp: run_ok_def pending_def tracker_ok_def split: option.splits)
  then have "cl_Id c = cl_Id c0 \<and> cl_Name c = cl_Name c0 \<and>
      (\<forall>d. bytes_of c d = bytes_of c0 d + tr_Counted s (cl_Name c) d - pending (ss_Tracker s) (cl_Name c) d
        - tr_Lost s (cl_Name c) d \<and> 0 \<le> pending (ss_Tracker s) (cl_Name c) d)" if b: "balanced c0 s c" for c0 c
  proof (intro conjI allI)
    show "cl_Id c = cl_Id c0" "cl_Name c = cl_Name c0" using b by (simp_all add: balanced_def)
    fix d
    have "bytes_of c d + pending (ss_Tracker s) (cl_Name c) d + tr_Lost s (cl_Name c) d
        = bytes_of c0 d + tr_Counted s (cl_Name c) d" using b unfolding balanced_def by blast
    then show "bytes_of c d = bytes_of c0 d + tr_Counted s (cl_Name c) d - pending (ss_Tracker s) (cl_Name c) d
        - tr_Lost s (cl_Name c) d" by linarith
  qed
  moreover have "list_all2 (\<lambda>c0 c. balanced c0 s c) (tb_Rows (db_Clients db)) (tb_Rows (db_Clients (ss_Db s)))"
    using ok by (simp add: run_ok_def accounted_def)
  ultimately show ?thesis by (rule list_all2_mono [rotated])
qed

definition example_user :: client where
  "example_user = \<lparr>cl_Id = 1, cl_Enable = True, cl_Name = ''alice'', cl_Config = RNil, cl_Inbounds = RNil, cl_Links = RNil,
     cl_Volume = 0, cl_Expiry = 0, cl_Down = 7, cl_Up = 3, cl_Desc = [], cl_Group = [], cl_Remark = [], cl_CreatedAt = 0,
     cl_OnlineAt = 0, cl_DelayStart = False, cl_AutoReset = False, cl_ResetDays = 0, cl_NextReset = 0, cl_TotalUp = 0,
     cl_TotalDown = 0\<rparr>"

definition example_traffic_db :: panel_db where
  "example_traffic_db = empty_db\<lparr>db_Clients := \<lparr>tb_Rows = [example_user], tb_Seq = 1\<rparr>\<rparr>"

text \<open>A connection of the user reads 500 bytes, and the job collects them.\<close>

theorem traffic_accounted_witness:
  "\<exists>s. traffic_step\<^sup>*\<^sup>* (traffic_start example_traffic_db) s \<and> tr_Counted s ''alice'' True = 500
    \<and> pending (ss_Tracker s) ''alice'' True = 0 \<and> tr_Lost s ''alice'' True = 0
    \<and> map (\<lambda>c. bytes_of c True) (tb_Rows (db_Clients (ss_Db s))) = [503]"
proof -
  let ?env = "\<lparr>se_Update = (\<lambda>_. None), se_Create = None, se_Commit = None\<rparr>"
  let ?s0 = "traffic_start example_traffic_db"
  obtain rs ws t where c: "getReadCounters ''in'' [] ''alice'' (ss_Tracker ?s0) = ((rs, ws), t)"
    by (metis surj_pair)
  define s1 where "s1 = ?s0\<lparr>ss_Tracker := t, tr_Conns := \<lparr>cn_User = ''alice'', cn_Reads = rs, cn_Writes = ws\<rparr> # tr_Conns ?s0\<rparr>"
  have 1: "traffic_step ?s0 s1" unfolding s1_def by (rule traffic_step.connect [OF c])
  define s2 where "s2 = s1\<lparr>ss_Tracker := count_bytes rs 500 (ss_Tracker s1), tr_Counted := add_bytes (tr_Counted s1) ''alice'' True 500\<rparr>"
  have 2: "traffic_step s1 s2"
    using traffic_step.read_bytes [of "\<lparr>cn_User = ''alice'', cn_Reads = rs, cn_Writes = ws\<rparr>" s1 500] by (simp add: s1_def s2_def)
  obtain r s3 where s: "SaveStats ?env True 60 1000 (stats_state.truncate s2) = (r, s3)" by (metis surj_pair)
  define s4 where "s4 = s2\<lparr>ss_Tracker := ss_Tracker s3, ss_Db := ss_Db s3, ss_Onlines := ss_Onlines s3,
      tr_Lost := (if saved_ok ?env r then tr_Lost s2 else give_up s2)\<rparr>"
  have 3: "traffic_step s2 s4" unfolding s4_def by (rule traffic_step.save [OF s])
  have run: "traffic_step\<^sup>*\<^sup>* ?s0 s4" using 1 2 3 by (meson rtranclp.rtrancl_into_rtrancl rtranclp.rtrancl_refl)
  have t: "rs = [0, 2]" "ws = [1, 3]" "tk_Users t = [(''alice'', (2, 3))]" "tk_Inbounds t = [(''in'', (0, 1))]" "tk_Outbounds t = []"
    "tk_Cells t = (\<lambda>_. 0)"
    using c by (auto simp: traffic_start_def NewStatsTracker_def getReadCounters_def with_inbound_def with_outbound_def
        with_user_def loadOrCreateCounter_def fun_eq_iff)
  have cells: "tk_Users (ss_Tracker s2) = [(''alice'', (2, 3))]" "tk_Inbounds (ss_Tracker s2) = [(''in'', (0, 1))]"
    "tk_Outbounds (ss_Tracker s2) = []" "tk_Cells (ss_Tracker s2) = ((\<lambda>_. 0)(0 := 500, 2 := 500))"
    by (simp_all add: s2_def s1_def count_bytes_def t)
  have "r = Inr ()" "pending (ss_Tracker s3) ''alice'' True = 0"
    using s by (auto simp: SaveStats_def stats_state.truncate_def tracker_GetStats_def cells counter_rows_def pending_def
        stats_transaction_def add_traffic_def)
  then have q: "tr_Lost s4 ''alice'' True = 0" "pending (ss_Tracker s4) ''alice'' True = 0" "tr_Counted s4 ''alice'' True = 500"
    by (simp_all add: s4_def saved_ok_def s2_def s1_def traffic_start_def add_bytes_def)
  have "table_ok cl_Id (db_Clients example_traffic_db)"
    by (simp add: example_traffic_db_def example_user_def table_ok_def)
  from traffic_accounted [OF this run] obtain z where z: "tb_Rows (db_Clients (ss_Db s4)) = [z]" "cl_Name z = cl_Name example_user"
    "bytes_of z True = bytes_of example_user True + tr_Counted s4 (cl_Name z) True - pending (ss_Tracker s4) (cl_Name z) True
      - tr_Lost s4 (cl_Name z) True"
    by (auto simp: example_traffic_db_def list_all2_Cons1)
  have "cl_Name z = ''alice''" "bytes_of example_user True = 3" using z(2) by (simp_all add: example_user_def bytes_of_def)
  then have "bytes_of z True = 503" using z(3) q by simp
  then have "map (\<lambda>c. bytes_of c True) (tb_Rows (db_Clients (ss_Db s4))) = [503]" by (simp add: z(1))
  then show ?thesis using run q by (intro exI [of _ s4] conjI)
qed

section \<open>Failed runs and reading back\<close>

text \<open>A run whose transaction fails has already emptied the counters: nobody is charged the bytes.\<close>

lemma failed_save_gives_up:
  assumes "tracker_ok (ss_Tracker s)" "tracker_GetStats now (ss_Tracker s) = (stats, t)" "stats \<noteq> []"
    and "stats_transaction env en sec now stats (ss_Db s) = Inl e"
  shows "\<exists>s'. SaveStats env en sec now s = (Inl e, s') \<and> ss_Db s' = ss_Db s \<and> pending (ss_Tracker s') u d = 0"
  using assms collect(2) [OF assms(1,2)] by (simp add: SaveStats_def)

lemma sum_update:
  fixes f :: "int \<times> int \<Rightarrow> int"
  assumes "distinct (map fst m)"
  shows "(\<Sum>e\<leftarrow>AList.update b p m. f (snd e))
    = (\<Sum>e\<leftarrow>m. f (snd e)) + f p - (case map_of m b of Some q \<Rightarrow> f q | None \<Rightarrow> 0)"
  using assms by (induction m) (auto simp: map_of_eq_None_iff split: option.splits)

lemma update_subset: "set (AList.update k v m) \<subseteq> insert (k, v) (set m)"
  by (induction m) auto

lemma bucket_range: "0 < n \<Longrightarrow> 0 \<le> bucket_of a w n dt \<and> bucket_of a w n dt < n"
  by (simp add: bucket_of_def Let_def)

text \<open>
  The series shown for a resource accounts for every row: whatever the window and the
  number of buckets, the bytes up and down of the buckets sum up to those of the rows, and every
  bucket is one of the \<open>n\<close> of the series.
\<close>

theorem downsample_keeps_traffic:
  assumes "0 < n"
  shows "(\<Sum>b\<leftarrow>fst (downsampleStats stats a e n). fst (snd b)) = sum_list (map st_Traffic (filter st_Direction stats))
    \<and> (\<Sum>b\<leftarrow>fst (downsampleStats stats a e n). snd (snd b)) = sum_list (map st_Traffic (filter (\<lambda>s. \<not> st_Direction s) stats))
    \<and> distinct (map fst (fst (downsampleStats stats a e n)))
    \<and> (\<forall>b\<in>set (fst (downsampleStats stats a e n)). 0 \<le> fst b \<and> fst b < n)"
proof -
  define w where "w = bucket_span a e n"
  define step where "step = add_to_bucket a w n"
  have step: "distinct (map fst m) \<Longrightarrow> (\<forall>b\<in>set m. 0 \<le> fst b \<and> fst b < n) \<Longrightarrow>
      (\<Sum>b\<leftarrow>step m r. fst (snd b)) = (\<Sum>b\<leftarrow>m. fst (snd b)) + (if st_Direction r then st_Traffic r else 0)
      \<and> (\<Sum>b\<leftarrow>step m r. snd (snd b)) = (\<Sum>b\<leftarrow>m. snd (snd b)) + (if st_Direction r then 0 else st_Traffic r)
      \<and> distinct (map fst (step m r)) \<and> (\<forall>b\<in>set (step m r). 0 \<le> fst b \<and> fst b < n)" for m r
  proof -
    assume d: "distinct (map fst m)" and m: "\<forall>b\<in>set m. 0 \<le> fst b \<and> fst b < n"
    define b where "b = bucket_of a w n (st_DateTime r)"
    have b: "0 \<le> b" "b < n" using bucket_range [OF assms, of a w "st_DateTime r"] by (simp_all add: b_def)
    obtain up down where o: "(case map_of m b of Some p \<Rightarrow> p | None \<Rightarrow> (0, 0)) = (up, down)" by (metis surj_pair)
    define p where "p = (if st_Direction r then (up + st_Traffic r, down) else (up, down + st_Traffic r))"
    have s: "step m r = AList.update b p m" by (simp add: step_def add_to_bucket_def Let_def o flip: b_def p_def)
    have "(case map_of m b of Some q \<Rightarrow> fst q | None \<Rightarrow> 0) = up" "(case map_of m b of Some q \<Rightarrow> snd q | None \<Rightarrow> 0) = down"
      using o by (auto split: option.splits)
    then have "(\<Sum>b\<leftarrow>step m r. fst (snd b)) = (\<Sum>b\<leftarrow>m. fst (snd b)) + (if st_Direction r then st_Traffic r else 0)"
      "(\<Sum>b\<leftarrow>step m r. snd (snd b)) = (\<Sum>b\<leftarrow>m. snd (snd b)) + (if st_Direction r then 0 else st_Traffic r)"
      using sum_update [OF d, of fst b p] sum_update [OF d, of snd b p] by (simp_all add: s p_def)
    moreover have "distinct (map fst (step m r))" unfolding s by (rule distinct_update [OF d])
    moreover have "\<forall>b\<in>set (step m r). 0 \<le> fst b \<and> fst b < n" using update_subset [of b p m] m b unfolding s by auto
    ultimately show ?thesis by blast
  qed
  have "distinct (map fst m) \<Longrightarrow> (\<forall>b\<in>set m. 0 \<le> fst b \<and> fst b < n) \<Longrightarrow>
      (\<Sum>b\<leftarrow>foldl step m stats. fst (snd b)) = (\<Sum>b\<leftarrow>m. fst (snd b)) + sum_list (map st_Traffic (filter st_Direction stats))
      \<and> (\<Sum>b\<leftarrow>foldl step m stats. snd (snd b)) = (\<Sum>b\<leftarrow>m. snd (snd b)) + sum_list (map st_Traffic (filter (\<lambda>s. \<not> st_Direction s) stats))
      \<and> distinct (map fst (foldl step m stats)) \<and> (\<forall>b\<in>set (foldl step m stats). 0 \<le> fst b \<and> fst b < n)" for m
  proof (induction stats arbitrary: m)
    case (Cons r stats)
    show ?case using step [OF Cons.prems, of r] Cons.IH [of "step m r"] by simp
  qed simp
  from this [of "[]"] show ?thesis by (simp add: downsampleStats_def Let_def w_def step_def)
qed

text \<open>Two rows of one bucket and one of the next.\<close>

theorem downsample_keeps_traffic_witness:
  "let rows = [\<lparr>st_DateTime = 0, st_Resource = ''user'', st_Tag = ''a'', st_Direction = True, st_Traffic = 5\<rparr>,
       \<lparr>st_DateTime = 4, st_Resource = ''user'', st_Tag = ''a'', st_Direction = True, st_Traffic = 6\<rparr>,
       \<lparr>st_DateTime = 9, st_Resource = ''user'', st_Tag = ''a'', st_Direction = False, st_Traffic = 2\<rparr>]
   in fst (downsampleStats rows 0 10 2) = [(0, 11, 0), (1, 0, 2)]
    \<and> (\<Sum>b\<leftarrow>fst (downsampleStats rows 0 10 2). fst (snd b)) = 11"
  unfolding Let_def
proof (rule conjI)
  let ?rows = "[\<lparr>st_DateTime = 0, st_Resource = ''user'', st_Tag = ''a'', st_Direction = True, st_Traffic = 5\<rparr>,
       \<lparr>st_DateTime = 4, st_Resource = ''user'', st_Tag = ''a'', st_Direction = True, st_Traffic = 6\<rparr>,
       \<lparr>st_DateTime = 9, st_Resource = ''user'', st_Tag = ''a'', st_Direction = False, st_Traffic = 2\<rparr>]"
  show "fst (downsampleStats ?rows 0 10 2) = [(0, 11, 0), (1, 0, 2)]" by code_simp
  show "(\<Sum>b\<leftarrow>fst (downsampleStats ?rows 0 10 2). fst (snd b)) = 11"
    using downsample_keeps_traffic [of 2 ?rows 0 10] by simp
qed

end
