(* ===== verification/Agent_Hub.thy ===== *)
theory Agent_Hub
  imports Common_Util "HOL-Library.AList"
begin

text \<open>
  The hub of the managed servers (\<^verbatim>\<open>service/agent_hub.go\<close>): live sessions by node, calls that wait for
  an answer of the agent, latency probes and the history of commands. Sessions and channels are
  heap cells; every step of \<open>thread_step\<close> is one section under a lock or one operation on a
  channel, so that goroutines interleave as they do in the program. A channel of a call has
  capacity one; its fields \<open>ch_Id\<close>, \<open>ch_Kind\<close> and \<open>ch_Session\<close> only record what it was made for.
  Clock readings are in milliseconds. The interactive
  terminals are left out.
\<close>

section \<open>Messages\<close>

record command_result =
  cr_ID :: string
  cr_Type :: string
  cr_OK :: bool
  cr_Output :: string
  cr_Error :: string
  cr_Code :: int
  cr_Elapsed :: int

record rpc_response =
  rr_ID :: string
  rr_OK :: bool
  rr_Payload :: raw
  rr_Error :: string
  rr_Code :: int

text \<open>The two maps of pending calls have the same handling; a call is of one kind.\<close>

datatype call_kind = Command_Call | Rpc_Call

datatype answer = CommandResult command_result | RPCResponse rpc_response

fun answer_id :: "answer \<Rightarrow> string" where
  "answer_id (CommandResult r) = cr_ID r"
| "answer_id (RPCResponse r) = rr_ID r"

fun answer_kind :: "answer \<Rightarrow> call_kind" where
  "answer_kind (CommandResult r) = Command_Call"
| "answer_kind (RPCResponse r) = Rpc_Call"

section \<open>Commands and methods\<close>

definition validAgentRPCMethod :: "string \<Rightarrow> bool" where
  "validAgentRPCMethod m \<longleftrightarrow> m \<in> {''capabilities.get'', ''inbounds.list'', ''inbounds.editor'', ''inbounds.save'',
     ''inbounds.quick_add'', ''relay.get'', ''relay.create'', ''relay.delete'', ''relay.rotate'', ''relay.rotation_set'',
     ''relay.bitbrowser_export''}"

text \<open>In nanoseconds.\<close>

definition agentRPCTimeout :: "string \<Rightarrow> int" where
  "agentRPCTimeout m =
     (if m \<in> {''inbounds.quick_add'', ''relay.create'', ''relay.delete'', ''relay.rotate''} then 600000000000 else 45000000000)"

definition agentRPCMutatesConfig :: "string \<Rightarrow> bool" where
  "agentRPCMutatesConfig m \<longleftrightarrow> m \<in> {''inbounds.save'', ''inbounds.quick_add'', ''relay.create'', ''relay.delete'',
     ''relay.rotate'', ''relay.rotation_set''}"

text \<open>The arguments come from a JSON body, so that a number is a \<^verbatim>\<open>float64\<close>; nil is \<open>None\<close>.\<close>

definition interval_arg :: "gmap option \<Rightarrow> int" where
  "interval_arg args =
     (case args of None \<Rightarrow> 0
      | Some m \<Rightarrow> (case mget m ''seconds'' of GFloat r \<Rightarrow> trunc_rat r | GInt i \<Rightarrow> i | _ \<Rightarrow> 0))"

definition validateAgentCommand :: "string \<Rightarrow> gmap option \<Rightarrow> unit result" where
  "validateAgentCommand cmdType args =
     (if cmdType \<in> {''report_now'', ''restart_agent'', ''restart_xray'', ''restart_singbox'', ''ping''} then Inr ()
      else if cmdType = ''set_interval'' then
        (if interval_arg args < 5 \<or> interval_arg args > 300
         then NewError ''interval seconds must be between 5 and 300'' else Inr ())
      else if cmdType = ''exec'' then
        (case args of None \<Rightarrow> NewError ''exec requires args.command''
         | Some m \<Rightarrow>
             (let cmd = as_str (mget m ''command'')
              in if cmd = [] \<or> length cmd > 4000 then NewError ''exec command must be 1-4000 characters'' else Inr ()))
      else NewErrorf (''unsupported agent command: '' @ cmdType))"

section \<open>Sessions, channels and records\<close>

record agent_session =
  sn_NodeID :: nat
  sn_Pending :: "(string \<times> nat) list"
  sn_RpcPending :: "(string \<times> nat) list"
  sn_Pings :: "(string \<times> int) list"
  sn_Cancelled :: bool

record result_chan =
  ch_Buffer :: "answer option"
  ch_Closed :: bool
  ch_Id :: string
  ch_Kind :: call_kind
  ch_Session :: nat

record command_log =
  lg_ID :: string
  lg_Type :: string
  lg_Args :: "gmap option"
  lg_OK :: bool
  lg_Output :: string
  lg_Error :: string
  lg_Code :: int
  lg_Elapsed :: int
  lg_CreatedAt :: int
  lg_Actor :: string

record latency_sample =
  ls_Time :: int
  ls_MS :: int
  ls_OK :: bool

record agent_hub =
  hb_Sessions :: "(nat \<times> nat) list"
  hb_Heap :: "agent_session list"
  hb_Chans :: "result_chan list"
  hb_Live :: "nat list"
  hb_Logs :: "nat \<Rightarrow> command_log list"
  hb_Latencies :: "nat \<Rightarrow> latency_sample list"

definition empty_hub :: agent_hub where
  "empty_hub = \<lparr>hb_Sessions = [], hb_Heap = [], hb_Chans = [], hb_Live = [], hb_Logs = (\<lambda>_. []), hb_Latencies = (\<lambda>_. [])\<rparr>"

definition put_session :: "nat \<Rightarrow> (agent_session \<Rightarrow> agent_session) \<Rightarrow> agent_hub \<Rightarrow> agent_hub" where
  "put_session sid f h = h\<lparr>hb_Heap := (hb_Heap h)[sid := f (hb_Heap h ! sid)]\<rparr>"

definition pending_of :: "call_kind \<Rightarrow> agent_session \<Rightarrow> (string \<times> nat) list" where
  "pending_of k s = (case k of Command_Call \<Rightarrow> sn_Pending s | Rpc_Call \<Rightarrow> sn_RpcPending s)"

definition set_pending :: "call_kind \<Rightarrow> (string \<times> nat) list \<Rightarrow> agent_session \<Rightarrow> agent_session" where
  "set_pending k ps s = (case k of Command_Call \<Rightarrow> s\<lparr>sn_Pending := ps\<rparr> | Rpc_Call \<Rightarrow> s\<lparr>sn_RpcPending := ps\<rparr>)"

text \<open>\<open>append\<close> followed by the cut to the newest entries\<close>

definition keep_last :: "nat \<Rightarrow> 'a list \<Rightarrow> 'a list" where
  "keep_last n xs = drop (length xs - n) xs"

definition appendAgentCommandLog :: "nat \<Rightarrow> command_log \<Rightarrow> agent_hub \<Rightarrow> agent_hub" where
  "appendAgentCommandLog node e h =
     (let e1 = (if length (lg_Output e) > 16384
                then e\<lparr>lg_Output := take 16384 (lg_Output e) @ CHR 0x0A # ''...[truncated]''\<rparr> else e)
      in h\<lparr>hb_Logs := (hb_Logs h)(node := keep_last 50 (hb_Logs h node @ [e1]))\<rparr>)"

definition appendAgentLatency :: "nat \<Rightarrow> int \<Rightarrow> int \<Rightarrow> bool \<Rightarrow> agent_hub \<Rightarrow> agent_hub" where
  "appendAgentLatency node now ms ok h =
     h\<lparr>hb_Latencies := (hb_Latencies h)(node :=
         keep_last 120 (hb_Latencies h node @ [\<lparr>ls_Time = now, ls_MS = ms, ls_OK = ok\<rparr>]))\<rparr>"

text \<open>The latency shown for a node; the rounding of \<^verbatim>\<open>float64\<close> is not represented.\<close>

record latency_view =
  lv_LastMS :: "int option"
  lv_AverageMS :: rat
  lv_P95MS :: int
  lv_LossPct :: rat
  lv_Samples :: nat
  lv_UpdatedAt :: int

definition percentile_index :: "nat \<Rightarrow> nat" where
  "percentile_index n = (95 * n + 99) div 100 - 1"

definition getAgentLatency :: "latency_sample list \<Rightarrow> latency_view" where
  "getAgentLatency samples =
     (let values = map ls_MS (filter ls_OK samples); n = length samples; m = length values
      in \<lparr>lv_LastMS = (if values = [] then None else Some (last values)),
          lv_AverageMS = (if values = [] then 0 else of_int (sum_list values) / of_nat m),
          lv_P95MS = (if values = [] then 0 else sort values ! percentile_index m),
          lv_LossPct = (if n = 0 then 0 else of_nat (n - m) * 100 / of_nat n),
          lv_Samples = n,
          lv_UpdatedAt = (if n = 0 then 0 else ls_Time (last samples))\<rparr>)"

section \<open>Channels\<close>

text \<open>\<open>select { case ch <- a: default: }\<close> and \<open>close(ch)\<close>\<close>

definition update_chan :: "nat \<Rightarrow> (result_chan \<Rightarrow> result_chan) \<Rightarrow> agent_hub \<Rightarrow> agent_hub" where
  "update_chan c f h = h\<lparr>hb_Chans := (hb_Chans h)[c := f (hb_Chans h ! c)]\<rparr>"

definition offer :: "answer \<Rightarrow> nat \<Rightarrow> agent_hub \<Rightarrow> agent_hub result" where
  "offer a c h =
     (if ch_Closed (hb_Chans h ! c) then Inl ''panic: send on closed channel''
      else if ch_Buffer (hb_Chans h ! c) = None then Inr (update_chan c (\<lambda>x. x\<lparr>ch_Buffer := Some a\<rparr>) h)
      else Inr h)"

definition close_chan :: "nat \<Rightarrow> agent_hub \<Rightarrow> agent_hub result" where
  "close_chan c h =
     (if ch_Closed (hb_Chans h ! c) then Inl ''panic: close of closed channel''
      else Inr (update_chan c (\<lambda>x. x\<lparr>ch_Closed := True\<rparr>) h))"

fun fail_chans :: "(string \<Rightarrow> answer) \<Rightarrow> (string \<times> nat) list \<Rightarrow> agent_hub \<Rightarrow> agent_hub result" where
  "fail_chans f [] h = Inr h"
| "fail_chans f ((key, c) # ps) h = bindr (offer (f key) c h) (\<lambda>h1. bindr (close_chan c h1) (fail_chans f ps))"

definition command_failure :: "string \<Rightarrow> string \<Rightarrow> answer" where
  "command_failure msg key = CommandResult
     \<lparr>cr_ID = key, cr_Type = [], cr_OK = False, cr_Output = [], cr_Error = msg, cr_Code = 0, cr_Elapsed = 0\<rparr>"

definition rpc_failure :: "string \<Rightarrow> string \<Rightarrow> answer" where
  "rpc_failure msg key = RPCResponse \<lparr>rr_ID = key, rr_OK = False, rr_Payload = RNil, rr_Error = msg, rr_Code = 503\<rparr>"

definition failPending :: "string \<Rightarrow> nat \<Rightarrow> agent_hub \<Rightarrow> agent_hub result" where
  "failPending msg sid h =
     bindr (fail_chans (command_failure msg) (sn_Pending (hb_Heap h ! sid)) h)
       (\<lambda>h1. Inr (put_session sid (\<lambda>s. s\<lparr>sn_Pending := []\<rparr>) h1))"

definition failRPCPending :: "string \<Rightarrow> nat \<Rightarrow> agent_hub \<Rightarrow> agent_hub result" where
  "failRPCPending msg sid h =
     bindr (fail_chans (rpc_failure msg) (sn_RpcPending (hb_Heap h ! sid)) h)
       (\<lambda>h1. Inr (put_session sid (\<lambda>s. s\<lparr>sn_RpcPending := []\<rparr>) h1))"

definition failPings :: "int \<Rightarrow> nat \<Rightarrow> agent_hub \<Rightarrow> agent_hub" where
  "failPings now sid h =
     (let s = hb_Heap h ! sid
      in (appendAgentLatency (sn_NodeID s) (now div 1000) 0 False ^^ length (sn_Pings s)) (put_session sid (\<lambda>s. s\<lparr>sn_Pings := []\<rparr>) h))"

section \<open>Sessions\<close>

definition SetWSConnected :: "nat \<Rightarrow> bool \<Rightarrow> agent_hub \<Rightarrow> agent_hub" where
  "SetWSConnected node on h =
     h\<lparr>hb_Live := (if on then (if node \<in> set (hb_Live h) then hb_Live h else node # hb_Live h)
                   else removeAll node (hb_Live h))\<rparr>"

text \<open>A session that is there already is cancelled, which ends its connection, and replaced.\<close>

definition RegisterSession :: "nat \<Rightarrow> agent_hub \<Rightarrow> nat \<times> agent_hub" where
  "RegisterSession node h =
     (let h1 = (case map_of (hb_Sessions h) node of
                  Some old \<Rightarrow> put_session old (\<lambda>s. s\<lparr>sn_Cancelled := True\<rparr>) h | None \<Rightarrow> h);
          sid = length (hb_Heap h1);
          s = \<lparr>sn_NodeID = node, sn_Pending = [], sn_RpcPending = [], sn_Pings = [], sn_Cancelled = False\<rparr>
      in (sid, h1\<lparr>hb_Heap := hb_Heap h1 @ [s], hb_Sessions := AList.update node sid (hb_Sessions h1)\<rparr>))"

text \<open>The sections of the function that ends a session, in their order.\<close>

definition unregister_section :: "int \<Rightarrow> nat \<Rightarrow> nat \<Rightarrow> agent_hub \<Rightarrow> agent_hub result" where
  "unregister_section now stage sid h =
     (let node = sn_NodeID (hb_Heap h ! sid)
      in if stage = 0 then
           Inr (if map_of (hb_Sessions h) node = Some sid then h\<lparr>hb_Sessions := AList.delete node (hb_Sessions h)\<rparr> else h)
         else if stage = 1 then failPending ''agent disconnected'' sid h
         else if stage = 2 then failRPCPending ''agent disconnected'' sid h
         else if stage = 3 then Inr (failPings now sid h)
         else Inr (put_session sid (\<lambda>s. s\<lparr>sn_Cancelled := True\<rparr>) (SetWSConnected node False h)))"

definition IsWSConnected :: "nat \<Rightarrow> agent_hub \<Rightarrow> bool" where
  "IsWSConnected node h \<longleftrightarrow> map_of (hb_Sessions h) node \<noteq> None"

text \<open>\<open>HandleCommandResult\<close> looks for the call in every session, whatever node the result came from.\<close>

definition find_session :: "string \<Rightarrow> agent_hub \<Rightarrow> nat option" where
  "find_session key h =
     map_option snd (List.find (\<lambda>(_, sid). map_of (sn_Pending (hb_Heap h ! sid)) key \<noteq> None) (hb_Sessions h))"

text \<open>\<open>HandleRPCResponse\<close> takes the session of the node the response came from.\<close>

definition rpc_target :: "nat \<Rightarrow> string \<Rightarrow> agent_hub \<Rightarrow> nat option" where
  "rpc_target node key h = (if key = [] then None else map_of (hb_Sessions h) node)"

section \<open>Goroutines\<close>

record agent_call =
  ac_Kind :: call_kind
  ac_Node :: nat
  ac_Type :: string
  ac_Args :: "gmap option"
  ac_Actor :: string
  ac_Started :: int

text \<open>
  Where a goroutine stands. \<open>Enter\<close> to \<open>Expired\<close> are the calls: looking up the session, posting the
  channel, writing, undoing after a failed write (\<open>Undo\<close>, \<open>Undo_Close\<close>), waiting. \<open>Got\<close> to
  \<open>Conclude\<close> handle an answer of an agent; \<open>Mark\<close>, \<open>Serving\<close> and \<open>Leave\<close> are a connection.
\<close>

datatype agent_thread =
    Enter agent_call
  | Post agent_call nat
  | Send agent_call nat string nat
  | Undo agent_call nat string nat string
  | Undo_Close nat string
  | Wait agent_call nat string nat
  | Expired agent_call nat string nat
  | Got nat answer
  | Take nat answer
  | Answer nat answer
  | Conclude nat
  | Mark nat
  | Serving nat
  | Leave nat nat
  | Returned "answer result"
  | Ended

datatype agent_event =
    Proceed int
  | Choose int string
  | Write_Fails string
  | Times_Out

text \<open>What a call does with the answer it received, and when the timer fires.\<close>

fun finish_call :: "int \<Rightarrow> agent_call \<Rightarrow> string \<Rightarrow> answer \<Rightarrow> agent_hub \<Rightarrow> answer result \<times> agent_hub" where
  "finish_call now c key (CommandResult r) h =
     (let r1 = r\<lparr>cr_ID := key, cr_Type := ac_Type c,
              cr_Elapsed := (if ac_Type c = ''ping'' then now - ac_Started c else cr_Elapsed r)\<rparr>
      in (Inr (CommandResult r1),
          appendAgentCommandLog (ac_Node c)
            \<lparr>lg_ID = key, lg_Type = ac_Type c, lg_Args = ac_Args c, lg_OK = cr_OK r1, lg_Output = cr_Output r1,
              lg_Error = cr_Error r1, lg_Code = cr_Code r1, lg_Elapsed = cr_Elapsed r1, lg_CreatedAt = now div 1000, lg_Actor = ac_Actor c\<rparr> h))"
| "finish_call now c key (RPCResponse r) h =
     (let r1 = r\<lparr>rr_ID := key\<rparr>;
          h1 = (if agentRPCMutatesConfig (ac_Type c) \<or> \<not> rr_OK r1 then
                  appendAgentCommandLog (ac_Node c)
                    \<lparr>lg_ID = key, lg_Type = ''rpc/'' @ ac_Type c, lg_Args = None, lg_OK = rr_OK r1, lg_Output = [],
                      lg_Error = rr_Error r1, lg_Code = 0, lg_Elapsed = 0, lg_CreatedAt = now div 1000, lg_Actor = ac_Actor c\<rparr> h
                else h)
      in (if rr_OK r1 then Inr (RPCResponse r1)
          else NewError (if rr_Error r1 = [] then ''managed-node RPC failed'' else rr_Error r1), h1))"

definition time_out :: "int \<Rightarrow> agent_call \<Rightarrow> string \<Rightarrow> agent_hub \<Rightarrow> answer result \<times> agent_hub" where
  "time_out now c key h =
     (let msg = (case ac_Kind c of Command_Call \<Rightarrow> ''command timed out'' | Rpc_Call \<Rightarrow> ''managed-node RPC timed out'')
      in (NewError (case ac_Kind c of Command_Call \<Rightarrow> ''agent command timed out'' | Rpc_Call \<Rightarrow> ''managed-node RPC timed out''),
          appendAgentCommandLog (ac_Node c)
            \<lparr>lg_ID = key, lg_Type = (case ac_Kind c of Command_Call \<Rightarrow> ac_Type c | Rpc_Call \<Rightarrow> ''rpc/'' @ ac_Type c),
              lg_Args = (case ac_Kind c of Command_Call \<Rightarrow> ac_Args c | Rpc_Call \<Rightarrow> None), lg_OK = False, lg_Output = [],
              lg_Error = msg, lg_Code = 0, lg_Elapsed = 0, lg_CreatedAt = now div 1000, lg_Actor = ac_Actor c\<rparr> h))"

definition offline_error :: "call_kind \<Rightarrow> answer result" where
  "offline_error k =
     (case k of Command_Call \<Rightarrow> NewError ''agent is not connected via WebSocket; remote control requires an online WS session''
      | Rpc_Call \<Rightarrow> NewError ''managed server is offline or not connected via WebSocket'')"

definition write_error :: "call_kind \<Rightarrow> string \<Rightarrow> answer result" where
  "write_error k e =
     (case k of Command_Call \<Rightarrow> NewErrorf (''failed to send command: '' @ e)
      | Rpc_Call \<Rightarrow> NewErrorf (''failed to send managed-node RPC: '' @ e))"

text \<open>\<open>delete(session.pending, id)\<close> under its lock\<close>

definition drop_pending :: "call_kind \<Rightarrow> nat \<Rightarrow> string \<Rightarrow> agent_hub \<Rightarrow> agent_hub" where
  "drop_pending k sid key h = put_session sid (\<lambda>s. set_pending k (AList.delete key (pending_of k s)) s) h"

text \<open>The new channel goes into the map of pending calls before the message is written.\<close>

definition post_call :: "call_kind \<Rightarrow> nat \<Rightarrow> string \<Rightarrow> agent_hub \<Rightarrow> agent_hub" where
  "post_call k sid key h =
     put_session sid (\<lambda>s. set_pending k (AList.update key (length (hb_Chans h)) (pending_of k s)) s)
       (h\<lparr>hb_Chans := hb_Chans h @ [\<lparr>ch_Buffer = None, ch_Closed = False, ch_Id = key, ch_Kind = k, ch_Session = sid\<rparr>]\<rparr>)"

definition no_answer :: "call_kind \<Rightarrow> answer" where
  "no_answer k = (case k of
       Command_Call \<Rightarrow> CommandResult \<lparr>cr_ID = [], cr_Type = [], cr_OK = False, cr_Output = [], cr_Error = [], cr_Code = 0, cr_Elapsed = 0\<rparr>
     | Rpc_Call \<Rightarrow> RPCResponse \<lparr>rr_ID = [], rr_OK = False, rr_Payload = RNil, rr_Error = [], rr_Code = 0\<rparr>)"

text \<open>
  One step of a goroutine: \<open>None\<close> when it cannot take the event, \<open>Inl\<close> when it panics. Receiving
  from a closed channel that was emptied gives the zero value.
\<close>

fun proceed :: "int \<Rightarrow> agent_thread \<Rightarrow> agent_hub \<Rightarrow> (agent_thread \<times> agent_hub) result option" where
  "proceed now (Enter c) h =
     Some (Inr (case map_of (hb_Sessions h) (ac_Node c) of
        None \<Rightarrow> Returned (offline_error (ac_Kind c)) | Some sid \<Rightarrow> Post c sid, h))"
| "proceed now (Send c sid key ch) h = Some (Inr (Wait c sid key ch, h))"
| "proceed now (Post c sid) h = None"
| "proceed now (Undo c sid key ch e) h =
     Some (Inr (Undo_Close ch (projl (write_error (ac_Kind c) e)), drop_pending (ac_Kind c) sid key h))"
| "proceed now (Undo_Close ch e) h = Some (bindr (close_chan ch h) (\<lambda>h1. Inr (Returned (Inl e), h1)))"
| "proceed now (Wait c sid key ch) h =
     (case ch_Buffer (hb_Chans h ! ch) of
        Some a \<Rightarrow> (let (r, h1) = finish_call now c key a (update_chan ch (\<lambda>x. x\<lparr>ch_Buffer := None\<rparr>) h) in Some (Inr (Returned r, h1)))
      | None \<Rightarrow> (if ch_Closed (hb_Chans h ! ch)
                 then let (r, h1) = finish_call now c key (no_answer (ac_Kind c)) h in Some (Inr (Returned r, h1)) else None))"
| "proceed now (Expired c sid key ch) h =
     (let (r, h1) = time_out now c key (drop_pending (ac_Kind c) sid key h) in Some (Inr (Returned r, h1)))"
| "proceed now (Got node (CommandResult r)) h =
     Some (Inr (case find_session (cr_ID r) h of
        None \<Rightarrow> Ended | Some sid \<Rightarrow> Take sid (CommandResult r), h))"
| "proceed now (Got node (RPCResponse r)) h =
     Some (Inr (case rpc_target node (rr_ID r) h of None \<Rightarrow> Ended | Some sid \<Rightarrow> Take sid (RPCResponse r), h))"
| "proceed now (Take sid a) h =
     Some (Inr (case map_of (pending_of (answer_kind a) (hb_Heap h ! sid)) (answer_id a) of
        None \<Rightarrow> (Ended, h)
      | Some ch \<Rightarrow> (Answer ch a, drop_pending (answer_kind a) sid (answer_id a) h)))"
| "proceed now (Answer ch a) h = Some (bindr (offer a ch h) (\<lambda>h1. Inr (Conclude ch, h1)))"
| "proceed now (Conclude ch) h = Some (bindr (close_chan ch h) (\<lambda>h1. Inr (Ended, h1)))"
| "proceed now (Mark sid) h = Some (Inr (Serving sid, SetWSConnected (sn_NodeID (hb_Heap h ! sid)) True h))"
| "proceed now (Serving sid) h = Some (Inr (Leave sid 0, h))"
| "proceed now (Leave sid stage) h =
     (if stage > 4 then None
      else Some (bindr (unregister_section now stage sid h) (\<lambda>h1. Inr (Leave sid (Suc stage), h1))))"
| "proceed now (Returned r) h = None"
| "proceed now Ended h = None"

definition thread_step :: "agent_event \<Rightarrow> agent_thread \<Rightarrow> agent_hub \<Rightarrow> (agent_thread \<times> agent_hub) result option" where
  "thread_step ev t h =
     (case ev of
        Proceed now \<Rightarrow> proceed now t h
      | Choose now key \<Rightarrow>
          (case t of Post c sid \<Rightarrow>
             Some (Inr (Send (c\<lparr>ac_Started := now\<rparr>) sid key (length (hb_Chans h)), post_call (ac_Kind c) sid key h))
           | _ \<Rightarrow> None)
      | Write_Fails e \<Rightarrow> (case t of Send c sid key ch \<Rightarrow> Some (Inr (Undo c sid key ch e, h)) | _ \<Rightarrow> None)
      | Times_Out \<Rightarrow> (case t of Wait c sid key ch \<Rightarrow> Some (Inr (Expired c sid key ch, h)) | _ \<Rightarrow> None))"

section \<open>Latency probes\<close>

definition HandlePong :: "int \<Rightarrow> nat \<Rightarrow> string \<Rightarrow> agent_hub \<Rightarrow> agent_hub" where
  "HandlePong now node key h =
     (if key = [] then h
      else case map_of (hb_Sessions h) node of None \<Rightarrow> h
      | Some sid \<Rightarrow>
          (case map_of (sn_Pings (hb_Heap h ! sid)) key of None \<Rightarrow> h
           | Some started \<Rightarrow>
               appendAgentLatency node (now div 1000) (max 0 (now - started)) True
                 (put_session sid (\<lambda>s. s\<lparr>sn_Pings := AList.delete key (sn_Pings s)\<rparr>) h)))"

text \<open>
  The probe in milliseconds: pings without an answer for five seconds are counted as lost; a new
  ping is noted unless one is under way.
\<close>

definition probe :: "int \<Rightarrow> string \<Rightarrow> nat \<Rightarrow> agent_hub \<Rightarrow> agent_hub" where
  "probe now key sid h =
     (let s = hb_Heap h ! sid;
          lost = filter (\<lambda>(_, started). now - started \<ge> 5000) (sn_Pings s);
          left = filter (\<lambda>(_, started). \<not> now - started \<ge> 5000) (sn_Pings s);
          h1 = (appendAgentLatency (sn_NodeID s) (now div 1000) 0 False ^^ length lost) h
      in put_session sid (\<lambda>s. s\<lparr>sn_Pings := (if left \<noteq> [] then left else [(key, now)])\<rparr>) h1)"

definition probe_write_failed :: "int \<Rightarrow> string \<Rightarrow> nat \<Rightarrow> agent_hub \<Rightarrow> agent_hub" where
  "probe_write_failed now key sid h =
     appendAgentLatency (sn_NodeID (hb_Heap h ! sid)) (now div 1000) 0 False
       (put_session sid (\<lambda>s. s\<lparr>sn_Pings := AList.delete key (sn_Pings s)\<rparr>) h)"

section \<open>The system\<close>

text \<open>
  The goroutines over the hub. \<open>hs_Received\<close> records the answers that came in with the node they
  came from, \<open>hs_Failed\<close> the channels of the calls whose write failed. A new call has passed
  its checks; an answer comes from the connection of a session.
\<close>

record hub_sys =
  hs_Hub :: agent_hub
  hs_Threads :: "agent_thread list"
  hs_Received :: "(nat \<times> answer) list"
  hs_Failed :: "nat list"

definition call_checked :: "agent_call \<Rightarrow> bool" where
  "call_checked c \<longleftrightarrow> (case ac_Kind c of
       Command_Call \<Rightarrow> validateAgentCommand (ac_Type c) (ac_Args c) = Inr ()
     | Rpc_Call \<Rightarrow> validAgentRPCMethod (ac_Type c))"

definition failed_write :: "agent_event \<Rightarrow> agent_thread \<Rightarrow> nat list" where
  "failed_write ev t = (case ev of Write_Fails e \<Rightarrow> (case t of Send c sid key ch \<Rightarrow> [ch] | _ \<Rightarrow> []) | _ \<Rightarrow> [])"

inductive hub_step :: "hub_sys \<Rightarrow> hub_sys result \<Rightarrow> bool" where
  advance: "i < length (hs_Threads s) \<Longrightarrow> thread_step ev (hs_Threads s ! i) (hs_Hub s) = Some (Inr (t, h)) \<Longrightarrow>
    hub_step s (Inr (s\<lparr>hs_Hub := h, hs_Threads := (hs_Threads s)[i := t],
      hs_Failed := failed_write ev (hs_Threads s ! i) @ hs_Failed s\<rparr>))"
| crash: "i < length (hs_Threads s) \<Longrightarrow> thread_step ev (hs_Threads s ! i) (hs_Hub s) = Some (Inl e) \<Longrightarrow> hub_step s (Inl e)"
| connect: "RegisterSession node (hs_Hub s) = (sid, h) \<Longrightarrow>
    hub_step s (Inr (s\<lparr>hs_Hub := h, hs_Threads := hs_Threads s @ [Mark sid]\<rparr>))"
| call: "call_checked c \<Longrightarrow> hub_step s (Inr (s\<lparr>hs_Threads := hs_Threads s @ [Enter c]\<rparr>))"
| message: "Serving sid \<in> set (hs_Threads s) \<Longrightarrow> node = sn_NodeID (hb_Heap (hs_Hub s) ! sid) \<Longrightarrow>
    hub_step s (Inr (s\<lparr>hs_Received := (node, a) # hs_Received s, hs_Threads := hs_Threads s @ [Got node a]\<rparr>))"
| pong: "hub_step s (Inr (s\<lparr>hs_Hub := HandlePong now node key (hs_Hub s)\<rparr>))"
| ping: "Serving sid \<in> set (hs_Threads s) \<Longrightarrow> hub_step s (Inr (s\<lparr>hs_Hub := probe now key sid (hs_Hub s)\<rparr>))"
| ping_failed: "Serving sid \<in> set (hs_Threads s) \<Longrightarrow>
    hub_step s (Inr (s\<lparr>hs_Hub := probe_write_failed now key sid (hs_Hub s)\<rparr>))"

definition hub_start :: hub_sys where
  "hub_start = \<lparr>hs_Hub = empty_hub, hs_Threads = [], hs_Received = [], hs_Failed = []\<rparr>"

inductive hub_reachable :: "hub_sys \<Rightarrow> bool" where
  start: "hub_reachable hub_start"
| step: "hub_reachable s \<Longrightarrow> hub_step s (Inr s') \<Longrightarrow> hub_reachable s'"

section \<open>Batches\<close>

record batch_result =
  br_NodeID :: nat
  br_Name :: string
  br_OK :: bool
  br_Error :: string
  br_Result :: "command_result option"

definition batch_ids :: "nat list \<Rightarrow> nat list" where
  "batch_ids ids = take 100 ids"

definition batch_item :: "(nat \<times> string) list \<Rightarrow> nat \<Rightarrow> command_result result \<Rightarrow> batch_result" where
  "batch_item names node r =
     (case r of
        Inl e \<Rightarrow> \<lparr>br_NodeID = node, br_Name = (case map_of names node of Some n \<Rightarrow> n | None \<Rightarrow> []), br_OK = False,
                  br_Error = e, br_Result = None\<rparr>
      | Inr res \<Rightarrow> \<lparr>br_NodeID = node, br_Name = (case map_of names node of Some n \<Rightarrow> n | None \<Rightarrow> []), br_OK = cr_OK res,
                    br_Error = (if \<not> cr_OK res \<and> cr_Error res \<noteq> [] then cr_Error res else []), br_Result = Some res\<rparr>)"

end
