(* ===== verification/Agent_Calls.thy ===== *)
theory Agent_Calls
  imports Agent_Hub
begin

text \<open>
  What the interleavings of \<open>Agent_Hub\<close> can do. The invariant says who may still send on or close
  the channel of a call: the map of pending calls it is posted in, or the one goroutine that took
  it out. It breaks only for a call whose write failed, whose undoing closes the channel whoever
  has it; the consequences are at the end.
\<close>

section \<open>The invariant\<close>

text \<open>The session of a channel and what a channel was made for never change.\<close>

definition extends :: "agent_hub \<Rightarrow> agent_hub \<Rightarrow> bool" where
  "extends h h' \<longleftrightarrow> length (hb_Heap h) \<le> length (hb_Heap h') \<and> length (hb_Chans h) \<le> length (hb_Chans h')
     \<and> (\<forall>sid<length (hb_Heap h). sn_NodeID (hb_Heap h' ! sid) = sn_NodeID (hb_Heap h ! sid))
     \<and> (\<forall>ch<length (hb_Chans h). ch_Id (hb_Chans h' ! ch) = ch_Id (hb_Chans h ! ch)
          \<and> ch_Kind (hb_Chans h' ! ch) = ch_Kind (hb_Chans h ! ch) \<and> ch_Session (hb_Chans h' ! ch) = ch_Session (hb_Chans h ! ch))"

lemma extends_refl [simp]: "extends h h"
  by (simp add: extends_def)

lemma extends_trans: "extends a b \<Longrightarrow> extends b c \<Longrightarrow> extends a c"
  by (auto simp: extends_def)

definition posted :: "agent_hub \<Rightarrow> nat \<Rightarrow> bool" where
  "posted h ch \<longleftrightarrow> (\<exists>sid<length (hb_Heap h). \<exists>k key. (key, ch) \<in> set (pending_of k (hb_Heap h ! sid)))"

abbreviation closed_in :: "agent_hub \<Rightarrow> nat \<Rightarrow> bool" where
  "closed_in h ch \<equiv> ch_Closed (hb_Chans h ! ch)"

text \<open>The answers a channel may carry: that of the agent or of the end of the session.\<close>

definition fitting :: "(nat \<times> answer) list \<Rightarrow> agent_hub \<Rightarrow> nat \<Rightarrow> answer \<Rightarrow> bool" where
  "fitting rcv h ch a \<longleftrightarrow> answer_id a = ch_Id (hb_Chans h ! ch) \<and> answer_kind a = ch_Kind (hb_Chans h ! ch)
     \<and> (a = command_failure ''agent disconnected'' (answer_id a) \<or> a = rpc_failure ''agent disconnected'' (answer_id a)
        \<or> (\<exists>node. (node, a) \<in> set rcv
             \<and> (answer_kind a = Rpc_Call \<longrightarrow> node = sn_NodeID (hb_Heap h ! ch_Session (hb_Chans h ! ch)))))"

text \<open>The channel of a waiting call.\<close>

definition call_chan :: "agent_hub \<Rightarrow> agent_call \<Rightarrow> nat \<Rightarrow> string \<Rightarrow> nat \<Rightarrow> bool" where
  "call_chan h c sid key ch \<longleftrightarrow> sid < length (hb_Heap h) \<and> sn_NodeID (hb_Heap h ! sid) = ac_Node c \<and> ch < length (hb_Chans h)
     \<and> ch_Id (hb_Chans h ! ch) = key \<and> ch_Kind (hb_Chans h ! ch) = ac_Kind c \<and> ch_Session (hb_Chans h ! ch) = sid"

fun thread_ok :: "(nat \<times> answer) list \<Rightarrow> nat list \<Rightarrow> agent_hub \<Rightarrow> agent_thread \<Rightarrow> bool" where
  "thread_ok rcv failed h (Post c sid) \<longleftrightarrow> sid < length (hb_Heap h) \<and> sn_NodeID (hb_Heap h ! sid) = ac_Node c"
| "thread_ok rcv failed h (Send c sid key ch) \<longleftrightarrow> call_chan h c sid key ch"
| "thread_ok rcv failed h (Undo c sid key ch e) \<longleftrightarrow> call_chan h c sid key ch \<and> ch \<in> set failed"
| "thread_ok rcv failed h (Undo_Close ch e) \<longleftrightarrow> ch < length (hb_Chans h) \<and> ch \<in> set failed"
| "thread_ok rcv failed h (Wait c sid key ch) \<longleftrightarrow> call_chan h c sid key ch"
| "thread_ok rcv failed h (Expired c sid key ch) \<longleftrightarrow> call_chan h c sid key ch"
| "thread_ok rcv failed h (Got node a) \<longleftrightarrow> (node, a) \<in> set rcv"
| "thread_ok rcv failed h (Take sid a) \<longleftrightarrow> sid < length (hb_Heap h)
     \<and> (\<exists>node. (node, a) \<in> set rcv \<and> (answer_kind a = Rpc_Call \<longrightarrow> node = sn_NodeID (hb_Heap h ! sid)))"
| "thread_ok rcv failed h (Answer ch a) \<longleftrightarrow> ch < length (hb_Chans h) \<and> fitting rcv h ch a"
| "thread_ok rcv failed h (Conclude ch) \<longleftrightarrow> ch < length (hb_Chans h)"
| "thread_ok rcv failed h (Mark sid) \<longleftrightarrow> sid < length (hb_Heap h)"
| "thread_ok rcv failed h (Serving sid) \<longleftrightarrow> sid < length (hb_Heap h)"
| "thread_ok rcv failed h (Leave sid stage) \<longleftrightarrow> sid < length (hb_Heap h)"
| "thread_ok rcv failed h t \<longleftrightarrow> True"

definition hub_ok :: "(nat \<times> answer) list \<Rightarrow> agent_hub \<Rightarrow> bool" where
  "hub_ok rcv h \<longleftrightarrow>
     (\<forall>(node, sid) \<in> set (hb_Sessions h). sid < length (hb_Heap h) \<and> sn_NodeID (hb_Heap h ! sid) = node)
     \<and> (\<forall>sid<length (hb_Heap h). \<forall>k. distinct (map fst (pending_of k (hb_Heap h ! sid)))
          \<and> (\<forall>(key, ch) \<in> set (pending_of k (hb_Heap h ! sid)). ch < length (hb_Chans h) \<and> ch_Id (hb_Chans h ! ch) = key
               \<and> ch_Kind (hb_Chans h ! ch) = k \<and> ch_Session (hb_Chans h ! ch) = sid \<and> \<not> closed_in h ch))
     \<and> (\<forall>ch<length (hb_Chans h). ch_Session (hb_Chans h ! ch) < length (hb_Heap h)
          \<and> (\<forall>a. ch_Buffer (hb_Chans h ! ch) = Some a \<longrightarrow> fitting rcv h ch a))"

text \<open>The channel a goroutine is about to send on or close; without the undoing, it owns it.\<close>

fun acts_on :: "agent_thread \<Rightarrow> nat option" where
  "acts_on (Undo_Close ch e) = Some ch"
| "acts_on (Answer ch a) = Some ch"
| "acts_on (Conclude ch) = Some ch"
| "acts_on _ = None"

fun owns :: "agent_thread \<Rightarrow> nat option" where
  "owns (Answer ch a) = Some ch"
| "owns (Conclude ch) = Some ch"
| "owns _ = None"

lemma owns_acts: "owns t = Some ch \<Longrightarrow> acts_on t = Some ch"
  by (cases t) auto

lemma acts_bound: "thread_ok rcv failed h t \<Longrightarrow> acts_on t = Some ch \<Longrightarrow> ch < length (hb_Chans h)"
  by (cases t) auto

definition sys_ok :: "hub_sys \<Rightarrow> bool" where
  "sys_ok s \<longleftrightarrow> hub_ok (hs_Received s) (hs_Hub s)
     \<and> (\<forall>t\<in>set (hs_Threads s). thread_ok (hs_Received s) (hs_Failed s) (hs_Hub s) t
          \<and> (\<forall>ch. acts_on t = Some ch \<longrightarrow> \<not> posted (hs_Hub s) ch))
     \<and> (\<forall>i<length (hs_Threads s). \<forall>ch. owns (hs_Threads s ! i) = Some ch \<longrightarrow> ch \<notin> set (hs_Failed s) \<longrightarrow>
          \<not> closed_in (hs_Hub s) ch \<and> (\<forall>j<length (hs_Threads s). j \<noteq> i \<longrightarrow> owns (hs_Threads s ! j) \<noteq> Some ch))"

section \<open>Growing hubs\<close>

lemma call_chan_extends: "extends h h' \<Longrightarrow> call_chan h c sid key ch \<Longrightarrow> call_chan h' c sid key ch"
  by (auto simp: extends_def call_chan_def)

lemma fitting_extends:
  assumes "extends h h'" "ch < length (hb_Chans h)" "ch_Session (hb_Chans h ! ch) < length (hb_Heap h)" "set rcv \<subseteq> set rcv'"
  shows "fitting rcv h ch a \<Longrightarrow> fitting rcv' h' ch a"
  using assms by (auto simp: extends_def fitting_def)

lemma thread_ok_extends:
  assumes "hub_ok rcv h" "extends h h'" "set rcv \<subseteq> set rcv'" "set failed \<subseteq> set failed'"
  shows "thread_ok rcv failed h t \<Longrightarrow> thread_ok rcv' failed' h' t"
proof (cases t)
  case (Answer ch a)
  assume "thread_ok rcv failed h t"
  then show ?thesis
    using assms fitting_extends [OF assms(2) _ _ assms(3), of ch a] by (auto simp: Answer hub_ok_def extends_def)
qed (use assms in \<open>auto simp: extends_def call_chan_def\<close>)

text \<open>One goroutine moves on, the hub grows, and no channel of another owner is closed.\<close>

lemma sys_ok_advance:
  assumes s: "sys_ok s" and i: "i < length (hs_Threads s)"
    and ext: "extends (hs_Hub s) h'" and ok: "hub_ok (hs_Received s) h'"
    and f: "set (hs_Failed s) \<subseteq> set f'" and t: "thread_ok (hs_Received s) f' h' t'"
    and po: "\<And>ch. ch < length (hb_Chans (hs_Hub s)) \<Longrightarrow> posted h' ch \<Longrightarrow> posted (hs_Hub s) ch"
    and a: "\<And>ch. acts_on t' = Some ch \<Longrightarrow> \<not> posted h' ch"
    and o: "\<And>ch. owns t' = Some ch \<Longrightarrow> ch \<notin> set f' \<Longrightarrow> \<not> closed_in h' ch
      \<and> (\<forall>j<length (hs_Threads s). j \<noteq> i \<longrightarrow> owns (hs_Threads s ! j) \<noteq> Some ch)"
    and c: "\<And>ch j. closed_in h' ch \<Longrightarrow> \<not> closed_in (hs_Hub s) ch \<Longrightarrow> ch < length (hb_Chans (hs_Hub s)) \<Longrightarrow> ch \<notin> set f' \<Longrightarrow>
      j < length (hs_Threads s) \<Longrightarrow> j \<noteq> i \<Longrightarrow> owns (hs_Threads s ! j) \<noteq> Some ch"
  shows "sys_ok (s\<lparr>hs_Hub := h', hs_Threads := (hs_Threads s)[i := t'], hs_Failed := f'\<rparr>)"
proof -
  let ?ths = "(hs_Threads s)[i := t']"
  have h: "hub_ok (hs_Received s) (hs_Hub s)"
    and th: "\<And>t. t \<in> set (hs_Threads s) \<Longrightarrow> thread_ok (hs_Received s) (hs_Failed s) (hs_Hub s) t"
    and ac: "\<And>t ch. t \<in> set (hs_Threads s) \<Longrightarrow> acts_on t = Some ch \<Longrightarrow> \<not> posted (hs_Hub s) ch"
    and ow: "\<And>j ch. j < length (hs_Threads s) \<Longrightarrow> owns (hs_Threads s ! j) = Some ch \<Longrightarrow> ch \<notin> set (hs_Failed s) \<Longrightarrow>
      \<not> closed_in (hs_Hub s) ch \<and> (\<forall>k<length (hs_Threads s). k \<noteq> j \<longrightarrow> owns (hs_Threads s ! k) \<noteq> Some ch)"
    using s by (auto simp: sys_ok_def)
  have "thread_ok (hs_Received s) f' h' x \<and> (\<forall>ch. acts_on x = Some ch \<longrightarrow> \<not> posted h' ch)" if "x \<in> set ?ths" for x
  proof -
    have "x = t' \<or> x \<in> set (hs_Threads s)" using that set_update_subset_insert [of "hs_Threads s" i t'] by blast
    then show ?thesis
    proof
      assume "x = t'"
      then show ?thesis using t a by blast
    next
      assume 2: "x \<in> set (hs_Threads s)"
      show ?thesis
        using thread_ok_extends [OF h ext subset_refl f th [OF 2]] ac [OF 2] po acts_bound [OF th [OF 2]] by blast
    qed
  qed
  moreover have "\<not> closed_in h' ch \<and> (\<forall>k<length ?ths. k \<noteq> j \<longrightarrow> owns (?ths ! k) \<noteq> Some ch)"
    if j: "j < length ?ths" and oj: "owns (?ths ! j) = Some ch" and nf: "ch \<notin> set f'" for j ch
  proof (cases "j = i")
    case True
    then show ?thesis using o [OF _ nf] oj i by auto
  next
    case False
    then have oj': "owns (hs_Threads s ! j) = Some ch" using oj by simp
    have j': "j < length (hs_Threads s)" using j by simp
    have old: "\<not> closed_in (hs_Hub s) ch" "\<forall>k<length (hs_Threads s). k \<noteq> j \<longrightarrow> owns (hs_Threads s ! k) \<noteq> Some ch"
      using ow [OF j' oj'] nf f by blast+
    have b: "ch < length (hb_Chans (hs_Hub s))"
      using acts_bound [OF th owns_acts [OF oj']] j' by simp
    have "\<not> closed_in h' ch" using c [OF _ old(1) b nf j' False] oj' by blast
    moreover have "owns t' \<noteq> Some ch" using o [OF _ nf] oj' j' False by blast
    ultimately show ?thesis using old(2) i by (auto simp: nth_list_update)
  qed
  ultimately show ?thesis unfolding sys_ok_def by (auto simp: ok)
qed

section \<open>Operations that close nothing\<close>

text \<open>The parts the invariant speaks of are left alone.\<close>

definition same_core :: "agent_hub \<Rightarrow> agent_hub \<Rightarrow> bool" where
  "same_core h h' \<longleftrightarrow> hb_Sessions h' = hb_Sessions h \<and> hb_Heap h' = hb_Heap h \<and> hb_Chans h' = hb_Chans h"

definition harmless :: "(nat \<times> answer) list \<Rightarrow> agent_hub \<Rightarrow> agent_hub \<Rightarrow> bool" where
  "harmless rcv h h' \<longleftrightarrow> extends h h' \<and> hub_ok rcv h'
     \<and> (\<forall>ch<length (hb_Chans h). (posted h' ch \<longrightarrow> posted h ch) \<and> (closed_in h' ch \<longrightarrow> closed_in h ch))"

lemma harmless_refl: "hub_ok rcv h \<Longrightarrow> harmless rcv h h"
  by (simp add: harmless_def)

lemma harmless_trans: "harmless rcv a b \<Longrightarrow> harmless rcv b c \<Longrightarrow> harmless rcv a c"
  unfolding harmless_def by (meson extends_def extends_trans less_le_trans)

lemma harmless_core: "same_core h h' \<Longrightarrow> hub_ok rcv h \<Longrightarrow> harmless rcv h h'"
proof -
  assume c: "same_core h h'" and ok: "hub_ok rcv h"
  have "posted h' = posted h" "fitting rcv h' = fitting rcv h"
    using c by (simp_all add: same_core_def posted_def fitting_def fun_eq_iff)
  then show ?thesis using c ok by (simp add: same_core_def harmless_def extends_def hub_ok_def)
qed

lemma harmless_core_after: "harmless rcv h h' \<Longrightarrow> same_core h' h'' \<Longrightarrow> harmless rcv h h''"
  using harmless_core harmless_trans by (meson harmless_def)

lemma same_core_refl [simp]: "same_core h h"
  by (simp add: same_core_def)

lemma same_core_log: "same_core h (appendAgentCommandLog node e h)"
  by (simp add: same_core_def appendAgentCommandLog_def Let_def)

lemma same_core_latencies: "same_core h ((appendAgentLatency node now ms b ^^ n) h)"
  by (induction n) (auto simp: same_core_def appendAgentLatency_def)

lemma same_core_latency: "same_core h (appendAgentLatency node now ms b h)"
  by (simp add: same_core_def appendAgentLatency_def)

lemma same_core_live: "same_core h (SetWSConnected node b h)"
  by (simp add: same_core_def SetWSConnected_def)

lemma same_core_finish: "finish_call now c key a h = (r, h') \<Longrightarrow> same_core h h'"
  using same_core_log by (cases a) (auto simp: Let_def split: if_splits)

lemma same_core_time_out: "time_out now c key h = (r, h') \<Longrightarrow> same_core h h'"
  using same_core_log by (auto simp: time_out_def Let_def)

lemma pending_set [simp]:
  "pending_of k (set_pending k' ps s) = (if k = k' then ps else pending_of k s)"
  "sn_NodeID (set_pending k' ps s) = sn_NodeID s"
  by (cases k; cases k'; simp add: pending_of_def set_pending_def)+

lemma pending_other [simp]:
  "pending_of k (s\<lparr>sn_Pings := ps\<rparr>) = pending_of k s" "pending_of k (s\<lparr>sn_Cancelled := b\<rparr>) = pending_of k s"
  by (cases k; simp add: pending_of_def)+

text \<open>A session loses pending calls or keeps them.\<close>

lemma put_session_harmless:
  assumes ok: "hub_ok rcv h" and n: "sn_NodeID (f (hb_Heap h ! sid)) = sn_NodeID (hb_Heap h ! sid)"
    and sub: "\<And>k. set (pending_of k (f (hb_Heap h ! sid))) \<subseteq> set (pending_of k (hb_Heap h ! sid))"
    and d: "\<And>k. sid < length (hb_Heap h) \<Longrightarrow> distinct (map fst (pending_of k (f (hb_Heap h ! sid))))"
  shows "harmless rcv h (put_session sid f h)"
proof -
  let ?h = "put_session sid f h"
  have ch: "hb_Chans ?h = hb_Chans h" and se: "hb_Sessions ?h = hb_Sessions h"
    and len: "length (hb_Heap ?h) = length (hb_Heap h)"
    and at: "\<And>i. i < length (hb_Heap h) \<Longrightarrow> hb_Heap ?h ! i = (if i = sid then f (hb_Heap h ! sid) else hb_Heap h ! i)"
    by (simp_all add: put_session_def)
  have node: "\<And>i. i < length (hb_Heap h) \<Longrightarrow> sn_NodeID (hb_Heap ?h ! i) = sn_NodeID (hb_Heap h ! i)"
    using at n by simp
  have sub': "\<And>i k. i < length (hb_Heap h) \<Longrightarrow> set (pending_of k (hb_Heap ?h ! i)) \<subseteq> set (pending_of k (hb_Heap h ! i))"
    using at sub by simp
  have d': "\<And>i k. i < length (hb_Heap h) \<Longrightarrow> distinct (map fst (pending_of k (hb_Heap ?h ! i)))"
    using at d ok by (simp add: hub_ok_def)
  have ext: "extends h ?h" by (simp add: extends_def ch len node)
  have po: "posted ?h c \<Longrightarrow> posted h c" for c
    using sub' unfolding posted_def len by blast
  have "hub_ok rcv ?h"
    unfolding hub_ok_def se ch len
  proof (intro conjI)
    show "\<forall>(node, i)\<in>set (hb_Sessions h). i < length (hb_Heap h) \<and> sn_NodeID (hb_Heap ?h ! i) = node"
      using ok node by (auto simp: hub_ok_def)
    show "\<forall>i<length (hb_Heap h). \<forall>k. distinct (map fst (pending_of k (hb_Heap ?h ! i)))
        \<and> (\<forall>(key, c)\<in>set (pending_of k (hb_Heap ?h ! i)). c < length (hb_Chans h) \<and> ch_Id (hb_Chans h ! c) = key
             \<and> ch_Kind (hb_Chans h ! c) = k \<and> ch_Session (hb_Chans h ! c) = i \<and> \<not> ch_Closed (hb_Chans h ! c))"
    proof (intro allI impI conjI)
      fix i k
      assume i: "i < length (hb_Heap h)"
      show "distinct (map fst (pending_of k (hb_Heap ?h ! i)))" by (rule d' [OF i])
      have "\<forall>(key, c)\<in>set (pending_of k (hb_Heap h ! i)). c < length (hb_Chans h) \<and> ch_Id (hb_Chans h ! c) = key
          \<and> ch_Kind (hb_Chans h ! c) = k \<and> ch_Session (hb_Chans h ! c) = i \<and> \<not> ch_Closed (hb_Chans h ! c)"
        using ok i by (simp add: hub_ok_def)
      then show "\<forall>(key, c)\<in>set (pending_of k (hb_Heap ?h ! i)). c < length (hb_Chans h) \<and> ch_Id (hb_Chans h ! c) = key
          \<and> ch_Kind (hb_Chans h ! c) = k \<and> ch_Session (hb_Chans h ! c) = i \<and> \<not> ch_Closed (hb_Chans h ! c)"
        using sub' [OF i] by blast
    qed
    show "\<forall>c<length (hb_Chans h). ch_Session (hb_Chans h ! c) < length (hb_Heap h)
        \<and> (\<forall>a. ch_Buffer (hb_Chans h ! c) = Some a \<longrightarrow> fitting rcv ?h c a)"
      using ok fitting_extends [OF ext] unfolding hub_ok_def by blast
  qed
  then show ?thesis using ext po by (simp add: harmless_def ch)
qed

lemma drop_pending_harmless: "hub_ok rcv h \<Longrightarrow> harmless rcv h (drop_pending k sid key h)"
  unfolding drop_pending_def
  by (rule put_session_harmless) (auto simp: hub_ok_def AList.delete_eq distinct_map_filter split: if_splits)

text \<open>The channel of the entry is then nowhere posted.\<close>

lemma dropped_not_posted:
  assumes ok: "hub_ok rcv h" and "sid < length (hb_Heap h)" "ch_Id (hb_Chans h ! ch) = key" "ch_Kind (hb_Chans h ! ch) = k"
    "ch_Session (hb_Chans h ! ch) = sid"
  shows "\<not> posted (drop_pending k sid key h) ch"
proof
  assume "posted (drop_pending k sid key h) ch"
  then obtain i k' key' where i: "i < length (hb_Heap h)"
    and e: "(key', ch) \<in> set (pending_of k' (hb_Heap (drop_pending k sid key h) ! i))"
    by (auto simp: posted_def drop_pending_def put_session_def)
  have hk: "hub_ok rcv (drop_pending k sid key h)" "hb_Chans (drop_pending k sid key h) = hb_Chans h"
    "length (hb_Heap (drop_pending k sid key h)) = length (hb_Heap h)"
    using drop_pending_harmless [OF ok] by (simp_all add: harmless_def drop_pending_def put_session_def)
  have "key' = key" "k' = k" "i = sid"
    using hk(1) e i assms(3-5) unfolding hub_ok_def hk(2,3) by fastforce+
  then show False using e i by (auto simp: drop_pending_def put_session_def AList.delete_eq)
qed

section \<open>Operations on channels\<close>

lemma buffer_harmless:
  assumes ok: "hub_ok rcv h" and ch: "ch < length (hb_Chans h)" and b: "\<And>a. b = Some a \<Longrightarrow> fitting rcv h ch a"
  shows "harmless rcv h (update_chan ch (\<lambda>x. x\<lparr>ch_Buffer := b\<rparr>) h)"
proof -
  let ?h = "update_chan ch (\<lambda>x. x\<lparr>ch_Buffer := b\<rparr>) h"
  have at: "\<And>c. c < length (hb_Chans h) \<Longrightarrow> hb_Chans ?h ! c = (if c = ch then (hb_Chans h ! ch)\<lparr>ch_Buffer := b\<rparr> else hb_Chans h ! c)"
    by (simp add: update_chan_def)
  have [simp]: "hb_Heap ?h = hb_Heap h" "hb_Sessions ?h = hb_Sessions h" "length (hb_Chans ?h) = length (hb_Chans h)"
    by (simp_all add: update_chan_def)
  have ext: "extends h ?h" by (simp add: extends_def at)
  have same: "\<And>c. c < length (hb_Chans h) \<Longrightarrow> ch_Id (hb_Chans ?h ! c) = ch_Id (hb_Chans h ! c)
      \<and> ch_Kind (hb_Chans ?h ! c) = ch_Kind (hb_Chans h ! c) \<and> ch_Session (hb_Chans ?h ! c) = ch_Session (hb_Chans h ! c)
      \<and> closed_in ?h c = closed_in h c"
    by (simp add: at)
  have "fitting rcv ?h c a" if "c < length (hb_Chans h)" "ch_Buffer (hb_Chans ?h ! c) = Some a" for c a
  proof -
    have "fitting rcv h c a" using that ok b by (auto simp: at hub_ok_def split: if_splits)
    then show ?thesis using fitting_extends [OF ext that(1) _ subset_refl] ok that(1) by (auto simp: hub_ok_def)
  qed
  then have "hub_ok rcv ?h"
    using ok same unfolding hub_ok_def by (auto simp: case_prod_unfold)
  then show ?thesis using ext same by (simp add: harmless_def posted_def)
qed

lemma close_chan_ok:
  assumes ok: "hub_ok rcv h" and ch: "ch < length (hb_Chans h)" and n: "\<not> posted h ch" and c: "close_chan ch h = Inr h'"
  shows "extends h h'" "hub_ok rcv h'" "posted h' = posted h"
    "\<And>c. c < length (hb_Chans h) \<Longrightarrow> closed_in h' c \<Longrightarrow> c = ch \<or> closed_in h c"
proof -
  have h': "h' = update_chan ch (\<lambda>x. x\<lparr>ch_Closed := True\<rparr>) h" using c by (simp add: close_chan_def split: if_splits)
  have at: "\<And>c. c < length (hb_Chans h) \<Longrightarrow> hb_Chans h' ! c = (if c = ch then (hb_Chans h ! ch)\<lparr>ch_Closed := True\<rparr> else hb_Chans h ! c)"
    by (simp add: h' update_chan_def)
  have [simp]: "hb_Heap h' = hb_Heap h" "hb_Sessions h' = hb_Sessions h" "length (hb_Chans h') = length (hb_Chans h)"
    by (simp_all add: h' update_chan_def)
  show ext: "extends h h'" by (simp add: extends_def at)
  show "posted h' = posted h" by (simp add: posted_def fun_eq_iff)
  show "\<And>c. c < length (hb_Chans h) \<Longrightarrow> closed_in h' c \<Longrightarrow> c = ch \<or> closed_in h c" by (auto simp: at split: if_splits)
  have same: "\<And>c. c < length (hb_Chans h) \<Longrightarrow> ch_Id (hb_Chans h' ! c) = ch_Id (hb_Chans h ! c)
      \<and> ch_Kind (hb_Chans h' ! c) = ch_Kind (hb_Chans h ! c) \<and> ch_Session (hb_Chans h' ! c) = ch_Session (hb_Chans h ! c)
      \<and> ch_Buffer (hb_Chans h' ! c) = ch_Buffer (hb_Chans h ! c) \<and> (c \<noteq> ch \<longrightarrow> closed_in h' c = closed_in h c)"
    by (simp add: at)
  have open_pending: "c \<noteq> ch" if "sid < length (hb_Heap h)" "(key, c) \<in> set (pending_of k (hb_Heap h ! sid))" for sid k key c
    using n that unfolding posted_def by blast
  have fits: "fitting rcv h' c a" if "c < length (hb_Chans h)" "fitting rcv h c a" for c a
    using fitting_extends [OF ext that(1) _ subset_refl that(2)] ok that(1) by (auto simp: hub_ok_def)
  show "hub_ok rcv h'"
    unfolding hub_ok_def
  proof (intro conjI)
    show "\<forall>(node, sid)\<in>set (hb_Sessions h'). sid < length (hb_Heap h') \<and> sn_NodeID (hb_Heap h' ! sid) = node"
      using ok by (simp add: hub_ok_def)
    show "\<forall>c<length (hb_Chans h'). ch_Session (hb_Chans h' ! c) < length (hb_Heap h')
        \<and> (\<forall>a. ch_Buffer (hb_Chans h' ! c) = Some a \<longrightarrow> fitting rcv h' c a)"
      using ok same fits by (simp add: hub_ok_def)
    have "\<forall>(key, c)\<in>set (pending_of k (hb_Heap h ! sid)). c < length (hb_Chans h) \<and> ch_Id (hb_Chans h' ! c) = key
        \<and> ch_Kind (hb_Chans h' ! c) = k \<and> ch_Session (hb_Chans h' ! c) = sid \<and> \<not> closed_in h' c"
      if "sid < length (hb_Heap h)" for sid k
    proof clarify
      fix key c
      assume e: "(key, c) \<in> set (pending_of k (hb_Heap h ! sid))"
      have "\<forall>(key, c)\<in>set (pending_of k (hb_Heap h ! sid)). c < length (hb_Chans h) \<and> ch_Id (hb_Chans h ! c) = key
          \<and> ch_Kind (hb_Chans h ! c) = k \<and> ch_Session (hb_Chans h ! c) = sid \<and> \<not> closed_in h c"
        using ok that by (simp add: hub_ok_def)
      then have "c < length (hb_Chans h) \<and> ch_Id (hb_Chans h ! c) = key \<and> ch_Kind (hb_Chans h ! c) = k
          \<and> ch_Session (hb_Chans h ! c) = sid \<and> \<not> closed_in h c" using e by auto
      then show "c < length (hb_Chans h) \<and> ch_Id (hb_Chans h' ! c) = key
          \<and> ch_Kind (hb_Chans h' ! c) = k \<and> ch_Session (hb_Chans h' ! c) = sid \<and> \<not> closed_in h' c"
        using same [of c] open_pending [OF that e] by simp
    qed
    then show "\<forall>sid<length (hb_Heap h'). \<forall>k. distinct (map fst (pending_of k (hb_Heap h' ! sid)))
        \<and> (\<forall>(key, c)\<in>set (pending_of k (hb_Heap h' ! sid)). c < length (hb_Chans h') \<and> ch_Id (hb_Chans h' ! c) = key
             \<and> ch_Kind (hb_Chans h' ! c) = k \<and> ch_Session (hb_Chans h' ! c) = sid \<and> \<not> closed_in h' c)"
      using ok by (simp add: hub_ok_def)
  qed
qed

text \<open>Failing all pending calls of a session\<close>

lemma fail_chans_Inr:
  assumes "distinct (map snd ps)" "\<forall>(key, c)\<in>set ps. c < length (hb_Chans h) \<and> \<not> closed_in h c"
  shows "\<exists>cs. fail_chans f ps h = Inr (h\<lparr>hb_Chans := cs\<rparr>) \<and> length cs = length (hb_Chans h)
    \<and> (\<forall>c<length cs. ch_Id (cs ! c) = ch_Id (hb_Chans h ! c) \<and> ch_Kind (cs ! c) = ch_Kind (hb_Chans h ! c)
         \<and> ch_Session (cs ! c) = ch_Session (hb_Chans h ! c) \<and> (ch_Closed (cs ! c) \<longleftrightarrow> closed_in h c \<or> c \<in> snd ` set ps)
         \<and> (ch_Buffer (cs ! c) = ch_Buffer (hb_Chans h ! c) \<or> (\<exists>key. (key, c) \<in> set ps \<and> ch_Buffer (cs ! c) = Some (f key))))"
  using assms
proof (induction ps arbitrary: h)
  case Nil
  then show ?case by (auto intro!: exI [of _ "hb_Chans h"])
next
  case (Cons p ps)
  obtain key c where p: "p = (key, c)" by (cases p)
  have c: "c < length (hb_Chans h)" "\<not> closed_in h c" using Cons.prems(2) by (auto simp: p)
  define x where "x = (hb_Chans h ! c)\<lparr>ch_Buffer := (if ch_Buffer (hb_Chans h ! c) = None then Some (f key) else ch_Buffer (hb_Chans h ! c)),
    ch_Closed := True\<rparr>"
  define h1 where "h1 = h\<lparr>hb_Chans := (hb_Chans h)[c := x]\<rparr>"
  have "bindr (offer (f key) c h) (close_chan c) = Inr h1"
    using c by (auto simp: offer_def close_chan_def update_chan_def h1_def x_def)
  then have step: "fail_chans f (p # ps) h = fail_chans f ps h1"
    by (cases "offer (f key) c h") (auto simp: p)
  have d: "distinct (map snd ps)" "c \<notin> snd ` set ps" using Cons.prems(1) by (simp_all add: p)
  have "\<forall>e\<in>set ps. snd e < length (hb_Chans h) \<and> \<not> closed_in h (snd e) \<and> snd e \<noteq> c"
    using Cons.prems(2) d(2) by (auto simp: p image_iff)
  then have "\<forall>(key, c)\<in>set ps. c < length (hb_Chans h1) \<and> \<not> closed_in h1 c"
    by (auto simp: h1_def)
  with d(1) obtain cs where cs: "fail_chans f ps h1 = Inr (h1\<lparr>hb_Chans := cs\<rparr>)" "length cs = length (hb_Chans h1)"
    "\<forall>c<length cs. ch_Id (cs ! c) = ch_Id (hb_Chans h1 ! c) \<and> ch_Kind (cs ! c) = ch_Kind (hb_Chans h1 ! c)
         \<and> ch_Session (cs ! c) = ch_Session (hb_Chans h1 ! c) \<and> (ch_Closed (cs ! c) \<longleftrightarrow> closed_in h1 c \<or> c \<in> snd ` set ps)
         \<and> (ch_Buffer (cs ! c) = ch_Buffer (hb_Chans h1 ! c) \<or> (\<exists>key. (key, c) \<in> set ps \<and> ch_Buffer (cs ! c) = Some (f key)))"
    using Cons.IH [of h1] by blast
  have "\<forall>c'<length cs. ch_Id (cs ! c') = ch_Id (hb_Chans h ! c') \<and> ch_Kind (cs ! c') = ch_Kind (hb_Chans h ! c')
         \<and> ch_Session (cs ! c') = ch_Session (hb_Chans h ! c') \<and> (ch_Closed (cs ! c') \<longleftrightarrow> closed_in h c' \<or> c' \<in> snd ` set (p # ps))
         \<and> (ch_Buffer (cs ! c') = ch_Buffer (hb_Chans h ! c')
            \<or> (\<exists>key. (key, c') \<in> set (p # ps) \<and> ch_Buffer (cs ! c') = Some (f key)))"
  proof (intro allI impI)
    fix c'
    assume c': "c' < length cs"
    have "hb_Chans h1 ! c' = (if c' = c then x else hb_Chans h ! c')" using c' cs(2) by (simp add: h1_def nth_list_update)
    then show "ch_Id (cs ! c') = ch_Id (hb_Chans h ! c') \<and> ch_Kind (cs ! c') = ch_Kind (hb_Chans h ! c')
         \<and> ch_Session (cs ! c') = ch_Session (hb_Chans h ! c') \<and> (ch_Closed (cs ! c') \<longleftrightarrow> closed_in h c' \<or> c' \<in> snd ` set (p # ps))
         \<and> (ch_Buffer (cs ! c') = ch_Buffer (hb_Chans h ! c')
            \<or> (\<exists>key. (key, c') \<in> set (p # ps) \<and> ch_Buffer (cs ! c') = Some (f key)))"
      using cs(3) [rule_format, OF c'] by (cases "c' = c"; cases "ch_Buffer (hb_Chans h ! c)") (auto simp: x_def p)
  qed
  then show ?case using cs(1,2) by (intro exI [of _ cs]) (simp add: step h1_def)
qed

lemma fail_pending_ok:
  assumes ok: "hub_ok rcv h" and sid: "sid < length (hb_Heap h)"
    and f: "\<And>key. answer_id (f key) = key \<and> answer_kind (f key) = k
      \<and> (f key = command_failure ''agent disconnected'' key \<or> f key = rpc_failure ''agent disconnected'' key)"
  shows "\<exists>h'. bindr (fail_chans f (pending_of k (hb_Heap h ! sid)) h) (\<lambda>h1. Inr (put_session sid (set_pending k []) h1)) = Inr h'
    \<and> extends h h' \<and> hub_ok rcv h' \<and> (\<forall>ch. posted h' ch \<longrightarrow> posted h ch)
    \<and> (\<forall>ch<length (hb_Chans h). closed_in h' ch \<longrightarrow> closed_in h ch \<or> posted h ch)"
proof -
  let ?ps = "pending_of k (hb_Heap h ! sid)"
  have pend: "\<forall>(key, c)\<in>set (pending_of k' (hb_Heap h ! i)). c < length (hb_Chans h) \<and> ch_Id (hb_Chans h ! c) = key
      \<and> ch_Kind (hb_Chans h ! c) = k' \<and> ch_Session (hb_Chans h ! c) = i \<and> \<not> closed_in h c"
    and dist: "distinct (map fst (pending_of k' (hb_Heap h ! i)))" if "i < length (hb_Heap h)" for k' i
    using ok that by (simp_all add: hub_ok_def)
  have "\<forall>e\<in>set ?ps. fst e = ch_Id (hb_Chans h ! snd e)" using pend [OF sid, of k] by auto
  then have "inj_on snd (set ?ps)" by (metis inj_onI prod_eqI)
  then have "distinct (map snd ?ps)" using dist [OF sid, of k] by (simp add: distinct_map)
  moreover have "\<forall>(key, c)\<in>set ?ps. c < length (hb_Chans h) \<and> \<not> closed_in h c" using pend [OF sid, of k] by auto
  ultimately obtain cs where cs: "fail_chans f ?ps h = Inr (h\<lparr>hb_Chans := cs\<rparr>)" "length cs = length (hb_Chans h)"
    "\<forall>c<length cs. ch_Id (cs ! c) = ch_Id (hb_Chans h ! c) \<and> ch_Kind (cs ! c) = ch_Kind (hb_Chans h ! c)
         \<and> ch_Session (cs ! c) = ch_Session (hb_Chans h ! c) \<and> (ch_Closed (cs ! c) \<longleftrightarrow> closed_in h c \<or> c \<in> snd ` set ?ps)
         \<and> (ch_Buffer (cs ! c) = ch_Buffer (hb_Chans h ! c) \<or> (\<exists>key. (key, c) \<in> set ?ps \<and> ch_Buffer (cs ! c) = Some (f key)))"
    using fail_chans_Inr by blast
  define h' where "h' = put_session sid (set_pending k []) (h\<lparr>hb_Chans := cs\<rparr>)"
  have [simp]: "hb_Chans h' = cs" "hb_Sessions h' = hb_Sessions h" "length (hb_Heap h') = length (hb_Heap h)"
    by (simp_all add: h'_def put_session_def)
  have at: "\<And>i k'. i < length (hb_Heap h) \<Longrightarrow> pending_of k' (hb_Heap h' ! i) = (if i = sid \<and> k' = k then [] else pending_of k' (hb_Heap h ! i))"
    and node: "\<And>i. i < length (hb_Heap h) \<Longrightarrow> sn_NodeID (hb_Heap h' ! i) = sn_NodeID (hb_Heap h ! i)"
    by (simp_all add: h'_def put_session_def nth_list_update sid)
  have ext: "extends h h'" using cs(2,3) node by (simp add: extends_def)
  have po: "posted h' c \<Longrightarrow> posted h c" for c
  proof -
    have "set (pending_of k' (hb_Heap h' ! i)) \<subseteq> set (pending_of k' (hb_Heap h ! i))" if "i < length (hb_Heap h)" for i k'
      by (simp add: at [OF that])
    then show "posted h' c \<Longrightarrow> posted h c" unfolding posted_def by auto blast
  qed
  have "closed_in h' c \<longrightarrow> closed_in h c \<or> posted h c" if "c < length (hb_Chans h)" for c
    using cs(2,3) that sid unfolding posted_def by force
  moreover have "hub_ok rcv h'"
    unfolding hub_ok_def
  proof (intro conjI)
    show "\<forall>(node, i)\<in>set (hb_Sessions h'). i < length (hb_Heap h') \<and> sn_NodeID (hb_Heap h' ! i) = node"
      using ok node by (auto simp: hub_ok_def)
    show "\<forall>c<length (hb_Chans h'). ch_Session (hb_Chans h' ! c) < length (hb_Heap h')
        \<and> (\<forall>a. ch_Buffer (hb_Chans h' ! c) = Some a \<longrightarrow> fitting rcv h' c a)"
    proof (intro allI impI conjI)
      fix c
      assume "c < length (hb_Chans h')"
      then have c: "c < length cs" by simp
      show s: "ch_Session (hb_Chans h' ! c) < length (hb_Heap h')" using ok c cs(2,3) by (simp add: hub_ok_def)
      fix a
      assume a: "ch_Buffer (hb_Chans h' ! c) = Some a"
      from cs(3) c consider "ch_Buffer (cs ! c) = ch_Buffer (hb_Chans h ! c)"
        | key where "(key, c) \<in> set ?ps" "ch_Buffer (cs ! c) = Some (f key)" by blast
      then show "fitting rcv h' c a"
      proof cases
        case 1
        then have "fitting rcv h c a" using ok a c cs(2) by (simp add: hub_ok_def)
        then show ?thesis using fitting_extends [OF ext _ _ subset_refl] ok c cs(2) by (auto simp: hub_ok_def)
      next
        case 2
        then have "a = f key" using a by simp
        moreover have "ch_Id (hb_Chans h ! c) = key" "ch_Kind (hb_Chans h ! c) = k" using pend [OF sid, of k] 2(1) by auto
        moreover have "ch_Id (cs ! c) = ch_Id (hb_Chans h ! c)" "ch_Kind (cs ! c) = ch_Kind (hb_Chans h ! c)" using cs(3) c by blast+
        ultimately show ?thesis using f [of key] unfolding fitting_def by auto
      qed
    qed
    show "\<forall>i<length (hb_Heap h'). \<forall>k'. distinct (map fst (pending_of k' (hb_Heap h' ! i)))
        \<and> (\<forall>(key, c)\<in>set (pending_of k' (hb_Heap h' ! i)). c < length (hb_Chans h') \<and> ch_Id (hb_Chans h' ! c) = key
             \<and> ch_Kind (hb_Chans h' ! c) = k' \<and> ch_Session (hb_Chans h' ! c) = i \<and> \<not> closed_in h' c)"
    proof (intro allI impI conjI)
      fix i k'
      assume "i < length (hb_Heap h')"
      then have i: "i < length (hb_Heap h)" by simp
      show "distinct (map fst (pending_of k' (hb_Heap h' ! i)))" using dist [OF i] by (simp add: at [OF i])
      show "\<forall>(key, c)\<in>set (pending_of k' (hb_Heap h' ! i)). c < length (hb_Chans h') \<and> ch_Id (hb_Chans h' ! c) = key
             \<and> ch_Kind (hb_Chans h' ! c) = k' \<and> ch_Session (hb_Chans h' ! c) = i \<and> \<not> closed_in h' c"
      proof clarify
        fix key c
        assume e: "(key, c) \<in> set (pending_of k' (hb_Heap h' ! i))"
        then have other: "\<not> (i = sid \<and> k' = k)" and "(key, c) \<in> set (pending_of k' (hb_Heap h ! i))"
          by (auto simp: at [OF i] split: if_splits)
        then have c: "c < length (hb_Chans h) \<and> ch_Id (hb_Chans h ! c) = key \<and> ch_Kind (hb_Chans h ! c) = k'
            \<and> ch_Session (hb_Chans h ! c) = i \<and> \<not> closed_in h c" using pend [OF i, of k'] by auto
        have "c \<notin> snd ` set ?ps" using pend [OF sid, of k] c other by auto
        then show "c < length (hb_Chans h') \<and> ch_Id (hb_Chans h' ! c) = key
             \<and> ch_Kind (hb_Chans h' ! c) = k' \<and> ch_Session (hb_Chans h' ! c) = i \<and> \<not> closed_in h' c"
          using c cs(2,3) by simp
      qed
    qed
  qed
  moreover have "bindr (fail_chans f ?ps h) (\<lambda>h1. Inr (put_session sid (set_pending k []) h1)) = Inr h'"
    by (simp add: cs(1) h'_def)
  ultimately show ?thesis using ext po by blast
qed

lemma fail_sections:
  assumes "hub_ok rcv h" "sid < length (hb_Heap h)" "stage = 1 \<or> stage = 2"
  shows "\<exists>h'. unregister_section now stage sid h = Inr h' \<and> extends h h' \<and> hub_ok rcv h'
    \<and> (\<forall>ch. posted h' ch \<longrightarrow> posted h ch) \<and> (\<forall>ch<length (hb_Chans h). closed_in h' ch \<longrightarrow> closed_in h ch \<or> posted h ch)"
proof -
  have "set_pending Command_Call [] = (\<lambda>s. s\<lparr>sn_Pending := []\<rparr>)" "set_pending Rpc_Call [] = (\<lambda>s. s\<lparr>sn_RpcPending := []\<rparr>)"
    "\<And>s. pending_of Command_Call s = sn_Pending s" "\<And>s. pending_of Rpc_Call s = sn_RpcPending s"
    by (simp_all add: set_pending_def pending_of_def fun_eq_iff)
  with fail_pending_ok [OF assms(1,2), of "command_failure ''agent disconnected''" Command_Call]
    fail_pending_ok [OF assms(1,2), of "rpc_failure ''agent disconnected''" Rpc_Call] assms(3)
  show ?thesis
    by (auto simp: unregister_section_def failPending_def failRPCPending_def command_failure_def rpc_failure_def)
qed

lemma failPings_harmless:
  assumes "hub_ok rcv h"
  shows "harmless rcv h (failPings now sid h)"
proof -
  have "harmless rcv h (put_session sid (\<lambda>s. s\<lparr>sn_Pings := []\<rparr>) h)"
    by (rule put_session_harmless [OF assms]) (use assms in \<open>auto simp: hub_ok_def\<close>)
  then show ?thesis
    unfolding failPings_def Let_def by (rule harmless_core_after [OF _ same_core_latencies])
qed

text \<open>The sections that close nothing\<close>

lemma other_sections:
  assumes ok: "hub_ok rcv h" and "sid < length (hb_Heap h)" "stage \<noteq> 1" "stage \<noteq> 2"
  shows "\<exists>h'. unregister_section now stage sid h = Inr h' \<and> harmless rcv h h'"
proof -
  let ?node = "sn_NodeID (hb_Heap h ! sid)"
  have "hub_ok rcv (h\<lparr>hb_Sessions := AList.delete ?node (hb_Sessions h)\<rparr>)"
  proof -
    have "posted (h\<lparr>hb_Sessions := AList.delete ?node (hb_Sessions h)\<rparr>) = posted h"
      "fitting rcv (h\<lparr>hb_Sessions := AList.delete ?node (hb_Sessions h)\<rparr>) = fitting rcv h"
      by (simp_all add: posted_def fitting_def fun_eq_iff)
    then show ?thesis using ok by (auto simp: hub_ok_def AList.delete_eq)
  qed
  then have "harmless rcv h (h\<lparr>hb_Sessions := AList.delete ?node (hb_Sessions h)\<rparr>)"
    by (simp add: harmless_def extends_def posted_def)
  moreover have "harmless rcv h (put_session sid (\<lambda>s. s\<lparr>sn_Cancelled := True\<rparr>) (SetWSConnected ?node False h))"
  proof (rule harmless_trans)
    show 1: "harmless rcv h (SetWSConnected ?node False h)" by (rule harmless_core [OF same_core_live ok])
    show "harmless rcv (SetWSConnected ?node False h) (put_session sid (\<lambda>s. s\<lparr>sn_Cancelled := True\<rparr>) (SetWSConnected ?node False h))"
      by (rule put_session_harmless) (use 1 in \<open>auto simp: harmless_def hub_ok_def\<close>)
  qed
  ultimately show ?thesis
    using assms(3,4) failPings_harmless [OF ok] harmless_refl [OF ok] by (simp add: unregister_section_def Let_def)
qed

text \<open>A new channel is posted.\<close>

lemma post_call_harmless:
  assumes ok: "hub_ok rcv h" and sid: "sid < length (hb_Heap h)"
  shows "harmless rcv h (post_call k sid key h)"
    "hb_Chans (post_call k sid key h) ! length (hb_Chans h)
      = \<lparr>ch_Buffer = None, ch_Closed = False, ch_Id = key, ch_Kind = k, ch_Session = sid\<rparr>"
    "length (hb_Chans (post_call k sid key h)) = Suc (length (hb_Chans h))"
proof -
  let ?n = "length (hb_Chans h)"
  define h' where "h' = post_call k sid key h"
  have [simp]: "hb_Chans h' = hb_Chans h @ [\<lparr>ch_Buffer = None, ch_Closed = False, ch_Id = key, ch_Kind = k, ch_Session = sid\<rparr>]"
    "hb_Sessions h' = hb_Sessions h" "length (hb_Heap h') = length (hb_Heap h)"
    by (simp_all add: h'_def post_call_def put_session_def)
  have at: "\<And>i k'. i < length (hb_Heap h) \<Longrightarrow> pending_of k' (hb_Heap h' ! i)
      = (if i = sid \<and> k' = k then AList.update key ?n (pending_of k (hb_Heap h ! sid)) else pending_of k' (hb_Heap h ! i))"
    and node: "\<And>i. i < length (hb_Heap h) \<Longrightarrow> sn_NodeID (hb_Heap h' ! i) = sn_NodeID (hb_Heap h ! i)"
    by (simp_all add: h'_def post_call_def put_session_def nth_list_update sid)
  have ext: "extends h h'" by (simp add: extends_def node nth_append)
  have upd: "set (AList.update key ?n ps) \<subseteq> insert (key, ?n) (set ps)" for ps
    by (induction ps) auto
  have po: "posted h c" if "posted h' c" "c < ?n" for c
    using that upd [of "pending_of k (hb_Heap h ! sid)"] unfolding posted_def by (fastforce simp: at split: if_splits)
  have "hub_ok rcv h'"
    unfolding hub_ok_def
  proof (intro conjI)
    show "\<forall>(node, i)\<in>set (hb_Sessions h'). i < length (hb_Heap h') \<and> sn_NodeID (hb_Heap h' ! i) = node"
      using ok node by (auto simp: hub_ok_def)
    show "\<forall>c<length (hb_Chans h'). ch_Session (hb_Chans h' ! c) < length (hb_Heap h')
        \<and> (\<forall>a. ch_Buffer (hb_Chans h' ! c) = Some a \<longrightarrow> fitting rcv h' c a)"
    proof (intro allI impI)
      fix c
      assume "c < length (hb_Chans h')"
      then consider "c = ?n" | "c < ?n" by fastforce
      then show "ch_Session (hb_Chans h' ! c) < length (hb_Heap h')
        \<and> (\<forall>a. ch_Buffer (hb_Chans h' ! c) = Some a \<longrightarrow> fitting rcv h' c a)"
      proof cases
        case 1
        then show ?thesis using sid by simp
      next
        case 2
        then show ?thesis using ok fitting_extends [OF ext 2 _ subset_refl] by (simp add: hub_ok_def nth_append)
      qed
    qed
    show "\<forall>i<length (hb_Heap h'). \<forall>k'. distinct (map fst (pending_of k' (hb_Heap h' ! i)))
        \<and> (\<forall>(key, c)\<in>set (pending_of k' (hb_Heap h' ! i)). c < length (hb_Chans h') \<and> ch_Id (hb_Chans h' ! c) = key
             \<and> ch_Kind (hb_Chans h' ! c) = k' \<and> ch_Session (hb_Chans h' ! c) = i \<and> \<not> closed_in h' c)"
    proof (intro allI impI conjI)
      fix i k'
      assume "i < length (hb_Heap h')"
      then have i: "i < length (hb_Heap h)" by simp
      have d: "distinct (map fst (pending_of k' (hb_Heap h ! i)))"
        and old: "\<forall>(key, c)\<in>set (pending_of k' (hb_Heap h ! i)). c < length (hb_Chans h) \<and> ch_Id (hb_Chans h ! c) = key
             \<and> ch_Kind (hb_Chans h ! c) = k' \<and> ch_Session (hb_Chans h ! c) = i \<and> \<not> closed_in h c"
        using ok i by (simp_all add: hub_ok_def)
      show "distinct (map fst (pending_of k' (hb_Heap h' ! i)))"
        using d by (auto simp: at [OF i] AList.distinct_update)
      show "\<forall>(key, c)\<in>set (pending_of k' (hb_Heap h' ! i)). c < length (hb_Chans h') \<and> ch_Id (hb_Chans h' ! c) = key
             \<and> ch_Kind (hb_Chans h' ! c) = k' \<and> ch_Session (hb_Chans h' ! c) = i \<and> \<not> closed_in h' c"
      proof clarify
        fix key' c
        assume e: "(key', c) \<in> set (pending_of k' (hb_Heap h' ! i))"
        then consider "i = sid" "k' = k" "key' = key" "c = ?n" | "(key', c) \<in> set (pending_of k' (hb_Heap h ! i))"
          using upd [of "pending_of k (hb_Heap h ! sid)"] by (auto simp: at [OF i] split: if_splits)
        then show "c < length (hb_Chans h') \<and> ch_Id (hb_Chans h' ! c) = key'
             \<and> ch_Kind (hb_Chans h' ! c) = k' \<and> ch_Session (hb_Chans h' ! c) = i \<and> \<not> closed_in h' c"
        proof cases
          case 1
          then show ?thesis by simp
        next
          case 2
          then have "c < length (hb_Chans h) \<and> ch_Id (hb_Chans h ! c) = key' \<and> ch_Kind (hb_Chans h ! c) = k'
             \<and> ch_Session (hb_Chans h ! c) = i \<and> \<not> closed_in h c" using old by auto
          then show ?thesis by (simp add: nth_append)
        qed
      qed
    qed
  qed
  then show "harmless rcv h (post_call k sid key h)" using ext po by (simp add: harmless_def nth_append flip: h'_def)
  show "hb_Chans (post_call k sid key h) ! ?n
      = \<lparr>ch_Buffer = None, ch_Closed = False, ch_Id = key, ch_Kind = k, ch_Session = sid\<rparr>"
    "length (hb_Chans (post_call k sid key h)) = Suc ?n" by (simp_all flip: h'_def)
qed

section \<open>Steps\<close>

lemma sys_ok_quiet:
  assumes s: "sys_ok s" and i: "i < length (hs_Threads s)" and h: "harmless (hs_Received s) (hs_Hub s) h'"
    and f: "set (hs_Failed s) \<subseteq> set f'" and t: "thread_ok (hs_Received s) f' h' t'" and a: "acts_on t' = None"
  shows "sys_ok (s\<lparr>hs_Hub := h', hs_Threads := (hs_Threads s)[i := t'], hs_Failed := f'\<rparr>)"
proof -
  have "owns t' = None" using a owns_acts [of t'] by (cases "owns t'") auto
  then show ?thesis using h a by (intro sys_ok_advance [OF s i _ _ f t]) (auto simp: harmless_def)
qed

lemma sys_okD:
  assumes "sys_ok s" "i < length (hs_Threads s)"
  shows "hub_ok (hs_Received s) (hs_Hub s)" "thread_ok (hs_Received s) (hs_Failed s) (hs_Hub s) (hs_Threads s ! i)"
    "\<And>ch. acts_on (hs_Threads s ! i) = Some ch \<Longrightarrow> \<not> posted (hs_Hub s) ch"
    "\<And>ch. owns (hs_Threads s ! i) = Some ch \<Longrightarrow> ch \<notin> set (hs_Failed s) \<Longrightarrow> \<not> closed_in (hs_Hub s) ch
      \<and> (\<forall>j<length (hs_Threads s). j \<noteq> i \<longrightarrow> owns (hs_Threads s ! j) \<noteq> Some ch)"
  using assms by (auto simp: sys_ok_def)

lemma call_chan_harmless: "harmless rcv h h' \<Longrightarrow> call_chan h c sid key ch \<Longrightarrow> call_chan h' c sid key ch"
  using call_chan_extends by (auto simp: harmless_def)

text \<open>Undoing and taking: the entry is dropped, and its channel is in the hands of the goroutine.\<close>

lemma drop_step:
  assumes s: "sys_ok s" and i: "i < length (hs_Threads s)" and sid: "sid < length (hb_Heap (hs_Hub s))"
    and ch: "ch < length (hb_Chans (hs_Hub s))" "ch_Id (hb_Chans (hs_Hub s) ! ch) = key" "ch_Kind (hb_Chans (hs_Hub s) ! ch) = k"
      "ch_Session (hb_Chans (hs_Hub s) ! ch) = sid"
    and t: "thread_ok (hs_Received s) (hs_Failed s) (drop_pending k sid key (hs_Hub s)) t'" "acts_on t' = Some ch"
    and o: "owns t' = Some ch \<Longrightarrow> posted (hs_Hub s) ch \<and> \<not> closed_in (hs_Hub s) ch"
  shows "sys_ok (s\<lparr>hs_Hub := drop_pending k sid key (hs_Hub s), hs_Threads := (hs_Threads s)[i := t']\<rparr>)"
proof -
  let ?h = "drop_pending k sid key (hs_Hub s)"
  have harm: "harmless (hs_Received s) (hs_Hub s) ?h" by (rule drop_pending_harmless [OF sys_okD(1) [OF s i]])
  have same: "closed_in ?h c = closed_in (hs_Hub s) c" for c by (simp add: drop_pending_def put_session_def)
  have free: "\<not> posted ?h ch" by (rule dropped_not_posted [OF sys_okD(1) [OF s i] sid ch(2-4)])
  have "sys_ok (s\<lparr>hs_Hub := ?h, hs_Threads := (hs_Threads s)[i := t'], hs_Failed := hs_Failed s\<rparr>)"
  proof (rule sys_ok_advance [OF s i _ _ subset_refl t(1)])
    show "extends (hs_Hub s) ?h" "hub_ok (hs_Received s) ?h" using harm by (simp_all add: harmless_def)
    show "posted (hs_Hub s) c" if "c < length (hb_Chans (hs_Hub s))" "posted ?h c" for c
      using harm that by (simp add: harmless_def)
    show "\<not> posted ?h c" if "acts_on t' = Some c" for c using that t(2) free by simp
    show "\<not> closed_in ?h c \<and> (\<forall>j<length (hs_Threads s). j \<noteq> i \<longrightarrow> owns (hs_Threads s ! j) \<noteq> Some c)"
      if "owns t' = Some c" "c \<notin> set (hs_Failed s)" for c
    proof -
      have "c = ch" using owns_acts [OF that(1)] t(2) by simp
      then have "posted (hs_Hub s) c" "\<not> closed_in (hs_Hub s) c" using o that(1) by auto
      moreover have "owns (hs_Threads s ! j) \<noteq> Some c" if "j < length (hs_Threads s)" for j
        using sys_okD(3) [OF s that] owns_acts calculation(1) by blast
      ultimately show ?thesis by (simp add: same)
    qed
  qed (simp add: same)
  then show ?thesis by simp
qed

text \<open>Closing a channel that is no longer posted: only its owner or an undoing gets there.\<close>

lemma close_step:
  assumes s: "sys_ok s" and i: "i < length (hs_Threads s)" and a: "acts_on (hs_Threads s ! i) = Some ch"
    and o: "owns (hs_Threads s ! i) = Some ch \<or> ch \<in> set (hs_Failed s)"
    and c: "close_chan ch (hs_Hub s) = Inr h'" and t: "thread_ok (hs_Received s) (hs_Failed s) h' t'" "acts_on t' = None"
  shows "sys_ok (s\<lparr>hs_Hub := h', hs_Threads := (hs_Threads s)[i := t']\<rparr>)"
proof -
  note ok = sys_okD [OF s i]
  note cl = close_chan_ok [OF ok(1) acts_bound [OF ok(2) a] ok(3) [OF a] c]
  have own: "owns t' = None" using t(2) owns_acts [of t'] by (cases "owns t'") auto
  have "sys_ok (s\<lparr>hs_Hub := h', hs_Threads := (hs_Threads s)[i := t'], hs_Failed := hs_Failed s\<rparr>)"
  proof (rule sys_ok_advance [OF s i cl(1,2) subset_refl t(1)])
    show "owns (hs_Threads s ! j) \<noteq> Some c"
      if "closed_in h' c" "\<not> closed_in (hs_Hub s) c" "c < length (hb_Chans (hs_Hub s))" "c \<notin> set (hs_Failed s)"
        "j < length (hs_Threads s)" "j \<noteq> i" for c j
      using cl(4) [OF that(3,1)] that o ok(4) by blast
  qed (use cl(3) t(2) own in simp_all)
  then show ?thesis by simp
qed

text \<open>The outcome of one step of a goroutine: the invariant, or a panic over a channel it may not own.\<close>

definition outcome_ok :: "hub_sys \<Rightarrow> nat \<Rightarrow> agent_event \<Rightarrow> (agent_thread \<times> agent_hub) result \<Rightarrow> bool" where
  "outcome_ok s i ev r \<longleftrightarrow> (case r of
       Inl e \<Rightarrow> \<exists>ch\<in>set (hs_Failed s). acts_on (hs_Threads s ! i) = Some ch \<and> closed_in (hs_Hub s) ch
     | Inr (t, h) \<Rightarrow> sys_ok (s\<lparr>hs_Hub := h, hs_Threads := (hs_Threads s)[i := t],
         hs_Failed := failed_write ev (hs_Threads s ! i) @ hs_Failed s\<rparr>))"

lemma proceed_ok:
  assumes s: "sys_ok s" and i: "i < length (hs_Threads s)" and r: "proceed now (hs_Threads s ! i) (hs_Hub s) = Some r"
  shows "outcome_ok s i (Proceed now) r"
proof -
  note ok = sys_okD [OF s i]
  have quiet: "outcome_ok s i (Proceed now) (Inr (t', h'))"
    if "harmless (hs_Received s) (hs_Hub s) h'" "thread_ok (hs_Received s) (hs_Failed s) h' t'" "acts_on t' = None" for t' h'
    using sys_ok_quiet [OF s i that(1) subset_refl that(2,3)] by (simp add: outcome_ok_def failed_write_def)
  note same = harmless_refl [OF ok(1)]
  have route: "sid < length (hb_Heap (hs_Hub s)) \<and> sn_NodeID (hb_Heap (hs_Hub s) ! sid) = node"
    if "map_of (hb_Sessions (hs_Hub s)) node = Some sid" for node sid
    using ok(1) map_of_SomeD [OF that] by (auto simp: hub_ok_def)
  show ?thesis
  proof (cases "hs_Threads s ! i")
    case (Enter c)
    show ?thesis
    proof (cases "map_of (hb_Sessions (hs_Hub s)) (ac_Node c)")
      case None
      then show ?thesis using r quiet [OF same, of "Returned (offline_error (ac_Kind c))"] by (simp add: Enter)
    next
      case (Some sid)
      then show ?thesis using r quiet [OF same, of "Post c sid"] route [OF Some] by (simp add: Enter)
    qed
  next
    case (Send c sid key ch)
    then show ?thesis using r quiet [OF same, of "Wait c sid key ch"] ok(2) by simp
  next
    case (Undo c sid key ch e)
    let ?t = "Undo_Close ch (projl (write_error (ac_Kind c) e))"
    have c: "call_chan (hs_Hub s) c sid key ch" "ch \<in> set (hs_Failed s)" using ok(2) by (simp_all add: Undo)
    have "sys_ok (s\<lparr>hs_Hub := drop_pending (ac_Kind c) sid key (hs_Hub s), hs_Threads := (hs_Threads s)[i := ?t]\<rparr>)"
      by (rule drop_step [OF s i]) (use c in \<open>auto simp: call_chan_def drop_pending_def put_session_def\<close>)
    then show ?thesis using r by (auto simp: Undo outcome_ok_def failed_write_def)
  next
    case (Undo_Close ch e)
    show ?thesis
    proof (cases "close_chan ch (hs_Hub s)")
      case (Inl m)
      then show ?thesis using r ok(2) by (auto simp: Undo_Close outcome_ok_def close_chan_def split: if_splits)
    next
      case (Inr h')
      have "sys_ok (s\<lparr>hs_Hub := h', hs_Threads := (hs_Threads s)[i := Returned (Inl e)]\<rparr>)"
        by (rule close_step [OF s i _ _ Inr]) (use ok(2) in \<open>auto simp: Undo_Close\<close>)
      then show ?thesis using r by (auto simp: Undo_Close Inr outcome_ok_def failed_write_def)
    qed
  next
    case (Wait c sid key ch)
    have cc: "call_chan (hs_Hub s) c sid key ch" using ok(2) by (simp add: Wait)
    show ?thesis
    proof (cases "ch_Buffer (hb_Chans (hs_Hub s) ! ch)")
      case None
      obtain r' h' where f: "finish_call now c key (no_answer (ac_Kind c)) (hs_Hub s) = (r', h')" by (metis surj_pair)
      have "harmless (hs_Received s) (hs_Hub s) h'" by (rule harmless_core [OF same_core_finish [OF f] ok(1)])
      then show ?thesis using r quiet [of h' "Returned r'"] by (simp add: Wait None f split: if_splits)
    next
      case (Some a)
      let ?h = "update_chan ch (\<lambda>x. x\<lparr>ch_Buffer := None\<rparr>) (hs_Hub s)"
      obtain r' h' where f: "finish_call now c key a ?h = (r', h')" by (metis surj_pair)
      have "harmless (hs_Received s) (hs_Hub s) ?h" using buffer_harmless [OF ok(1), of ch None] cc by (simp add: call_chan_def)
      then have "harmless (hs_Received s) (hs_Hub s) h'" by (rule harmless_core_after [OF _ same_core_finish [OF f]])
      then show ?thesis using r quiet [of h' "Returned r'"] by (simp add: Wait Some f)
    qed
  next
    case (Expired c sid key ch)
    let ?h = "drop_pending (ac_Kind c) sid key (hs_Hub s)"
    obtain r' h' where f: "time_out now c key ?h = (r', h')" by (metis surj_pair)
    have "harmless (hs_Received s) (hs_Hub s) h'"
      by (rule harmless_core_after [OF drop_pending_harmless [OF ok(1)] same_core_time_out [OF f]])
    then show ?thesis using r quiet [of h' "Returned r'"] by (simp add: Expired f)
  next
    case (Got node a)
    then show ?thesis
    proof (cases a)
      case (CommandResult x)
      have "sid < length (hb_Heap (hs_Hub s))" if fs: "find_session (cr_ID x) (hs_Hub s) = Some sid" for sid
      proof -
        obtain e where "e \<in> set (hb_Sessions (hs_Hub s))" "snd e = sid"
          using fs find_Some_mem by (fastforce simp: find_session_def)
        then show ?thesis using ok(1) by (auto simp: hub_ok_def)
      qed
      then show ?thesis
        using r ok(2) quiet [OF same, of Ended] quiet [OF same, of "Take sid a" for sid]
        by (auto simp: Got CommandResult split: option.splits)
    next
      case (RPCResponse x)
      then show ?thesis
        using r ok(2) route quiet [OF same, of Ended] quiet [OF same, of "Take sid a" for sid]
        by (auto simp: Got rpc_target_def split: option.splits if_splits)
    qed
  next
    case (Take sid a)
    let ?k = "answer_kind a" and ?h = "hs_Hub s"
    have sid: "sid < length (hb_Heap ?h)" and src: "\<exists>node. (node, a) \<in> set (hs_Received s)
        \<and> (answer_kind a = Rpc_Call \<longrightarrow> node = sn_NodeID (hb_Heap ?h ! sid))" using ok(2) by (simp_all add: Take)
    show ?thesis
    proof (cases "map_of (pending_of ?k (hb_Heap ?h ! sid)) (answer_id a)")
      case None
      then show ?thesis using r quiet [OF same, of Ended] by (simp add: Take)
    next
      case (Some ch)
      have e: "(answer_id a, ch) \<in> set (pending_of ?k (hb_Heap ?h ! sid))" by (rule map_of_SomeD [OF Some])
      have p: "\<forall>(key, c)\<in>set (pending_of ?k (hb_Heap ?h ! sid)). c < length (hb_Chans ?h) \<and> ch_Id (hb_Chans ?h ! c) = key
          \<and> ch_Kind (hb_Chans ?h ! c) = ?k \<and> ch_Session (hb_Chans ?h ! c) = sid \<and> \<not> closed_in ?h c"
        using ok(1) sid by (simp add: hub_ok_def)
      have ch: "ch < length (hb_Chans ?h)" "ch_Id (hb_Chans ?h ! ch) = answer_id a" "ch_Kind (hb_Chans ?h ! ch) = ?k"
        "ch_Session (hb_Chans ?h ! ch) = sid" "\<not> closed_in ?h ch" using p e by auto
      have po: "posted ?h ch" using sid e unfolding posted_def by blast
      have f0: "fitting (hs_Received s) ?h ch a" using src ch unfolding fitting_def by auto
      have "extends ?h (drop_pending ?k sid (answer_id a) ?h)"
        using drop_pending_harmless [OF ok(1)] by (simp add: harmless_def)
      from fitting_extends [OF this ch(1) _ subset_refl f0] sid ch(4)
      have fit: "fitting (hs_Received s) (drop_pending ?k sid (answer_id a) ?h) ch a" by simp
      have "sys_ok (s\<lparr>hs_Hub := drop_pending ?k sid (answer_id a) ?h, hs_Threads := (hs_Threads s)[i := Answer ch a]\<rparr>)"
        by (rule drop_step [OF s i sid ch(1-4)]) (use ch po fit in \<open>auto simp: drop_pending_def put_session_def\<close>)
      then show ?thesis using r by (auto simp: Take Some outcome_ok_def failed_write_def)
    qed
  next
    case (Answer ch a)
    have ch: "ch < length (hb_Chans (hs_Hub s))" "fitting (hs_Received s) (hs_Hub s) ch a" using ok(2) by (simp_all add: Answer)
    have closed: "closed_in (hs_Hub s) ch \<Longrightarrow> ch \<in> set (hs_Failed s)" using ok(4) [of ch] by (auto simp: Answer)
    show ?thesis
    proof (cases "offer a ch (hs_Hub s)")
      case (Inl m)
      then show ?thesis using r closed by (auto simp: Answer outcome_ok_def offer_def split: if_splits)
    next
      case (Inr h')
      have h: "harmless (hs_Received s) (hs_Hub s) h'"
        using Inr buffer_harmless [OF ok(1) ch(1), of "Some a"] ch(2) same by (auto simp: offer_def split: if_splits)
      have po: "\<not> posted h' ch" using h ok(3) [of ch] ch(1) by (auto simp: harmless_def Answer)
      have cl: "\<not> closed_in h' ch" using Inr h ch(1) by (auto simp: offer_def harmless_def split: if_splits)
      have len: "ch < length (hb_Chans h')" using h ch(1) by (auto simp: harmless_def extends_def)
      have "sys_ok (s\<lparr>hs_Hub := h', hs_Threads := (hs_Threads s)[i := Conclude ch], hs_Failed := hs_Failed s\<rparr>)"
      proof (rule sys_ok_advance [OF s i _ _ subset_refl])
        show "\<not> closed_in h' c \<and> (\<forall>j<length (hs_Threads s). j \<noteq> i \<longrightarrow> owns (hs_Threads s ! j) \<noteq> Some c)"
          if "owns (Conclude ch) = Some c" "c \<notin> set (hs_Failed s)" for c
          using that cl ok(4) [of c] by (simp add: Answer)
      qed (use h po len in \<open>auto simp: harmless_def\<close>)
      then show ?thesis using r by (auto simp: Answer Inr outcome_ok_def failed_write_def)
    qed
  next
    case (Conclude ch)
    have closed: "closed_in (hs_Hub s) ch \<Longrightarrow> ch \<in> set (hs_Failed s)" using ok(4) [of ch] by (auto simp: Conclude)
    show ?thesis
    proof (cases "close_chan ch (hs_Hub s)")
      case (Inl m)
      then show ?thesis using r closed by (auto simp: Conclude outcome_ok_def close_chan_def split: if_splits)
    next
      case (Inr h')
      have "sys_ok (s\<lparr>hs_Hub := h', hs_Threads := (hs_Threads s)[i := Ended]\<rparr>)"
        by (rule close_step [OF s i _ _ Inr]) (auto simp: Conclude)
      then show ?thesis using r by (auto simp: Conclude Inr outcome_ok_def failed_write_def)
    qed
  next
    case (Mark sid)
    have "harmless (hs_Received s) (hs_Hub s) (SetWSConnected (sn_NodeID (hb_Heap (hs_Hub s) ! sid)) True (hs_Hub s))"
      by (rule harmless_core [OF same_core_live ok(1)])
    then show ?thesis using r quiet ok(2) by (auto simp: Mark SetWSConnected_def)
  next
    case (Serving sid)
    then show ?thesis using r quiet [OF same, of "Leave sid 0"] ok(2) by simp
  next
    case (Leave sid stage)
    have sid: "sid < length (hb_Heap (hs_Hub s))" using ok(2) by (simp add: Leave)
    show ?thesis
    proof (cases "stage = 1 \<or> stage = 2")
      case True
      then obtain h' where h: "unregister_section now stage sid (hs_Hub s) = Inr h'" "extends (hs_Hub s) h'"
        "hub_ok (hs_Received s) h'" "\<forall>ch. posted h' ch \<longrightarrow> posted (hs_Hub s) ch"
        "\<forall>ch<length (hb_Chans (hs_Hub s)). closed_in h' ch \<longrightarrow> closed_in (hs_Hub s) ch \<or> posted (hs_Hub s) ch"
        using fail_sections [OF ok(1) sid] by blast
      have "sys_ok (s\<lparr>hs_Hub := h', hs_Threads := (hs_Threads s)[i := Leave sid (Suc stage)], hs_Failed := hs_Failed s\<rparr>)"
      proof (rule sys_ok_advance [OF s i h(2,3) subset_refl])
        show "owns (hs_Threads s ! j) \<noteq> Some c"
          if "closed_in h' c" "\<not> closed_in (hs_Hub s) c" "c < length (hb_Chans (hs_Hub s))" "c \<notin> set (hs_Failed s)"
            "j < length (hs_Threads s)" "j \<noteq> i" for c j
          using h(5) that sys_okD(3) [OF s that(5)] owns_acts by blast
      qed (use h(2,4) sid in \<open>auto simp: extends_def\<close>)
      then show ?thesis using r True h(1) by (auto simp: Leave outcome_ok_def failed_write_def)
    next
      case False
      then obtain h' where h: "unregister_section now stage sid (hs_Hub s) = Inr h'" "harmless (hs_Received s) (hs_Hub s) h'"
        using other_sections [OF ok(1) sid] by blast
      then show ?thesis
        using r quiet [OF h(2), of "Leave sid (Suc stage)"] sid by (auto simp: Leave harmless_def extends_def split: if_splits)
    qed
  qed (use r in auto)
qed

lemma thread_step_ok:
  assumes s: "sys_ok s" and i: "i < length (hs_Threads s)" and r: "thread_step ev (hs_Threads s ! i) (hs_Hub s) = Some r"
  shows "outcome_ok s i ev r"
proof -
  note ok = sys_okD [OF s i]
  note same = harmless_refl [OF ok(1)]
  show ?thesis
  proof (cases ev)
    case (Proceed now)
    then show ?thesis using proceed_ok [OF s i] r by (simp add: thread_step_def)
  next
    case (Choose now key)
    then obtain c sid where t: "hs_Threads s ! i = Post c sid" using r by (auto simp: thread_step_def split: agent_thread.splits)
    have sid: "sid < length (hb_Heap (hs_Hub s))" "sn_NodeID (hb_Heap (hs_Hub s) ! sid) = ac_Node c" using ok(2) by (simp_all add: t)
    let ?h = "post_call (ac_Kind c) sid key (hs_Hub s)" and ?t = "Send (c\<lparr>ac_Started := now\<rparr>) sid key (length (hb_Chans (hs_Hub s)))"
    note p = post_call_harmless [OF ok(1) sid(1), of "ac_Kind c" key]
    have "extends (hs_Hub s) ?h" using p(1) by (simp add: harmless_def)
    then have "thread_ok (hs_Received s) (hs_Failed s) ?h ?t"
      using sid p(2,3) by (auto simp: call_chan_def extends_def)
    then have "sys_ok (s\<lparr>hs_Hub := ?h, hs_Threads := (hs_Threads s)[i := ?t], hs_Failed := hs_Failed s\<rparr>)"
      by (rule sys_ok_quiet [OF s i p(1) subset_refl]) simp
    then show ?thesis using r by (auto simp: Choose t thread_step_def outcome_ok_def failed_write_def)
  next
    case (Write_Fails e)
    then obtain c sid key ch where t: "hs_Threads s ! i = Send c sid key ch"
      using r by (auto simp: thread_step_def split: agent_thread.splits)
    have "sys_ok (s\<lparr>hs_Hub := hs_Hub s, hs_Threads := (hs_Threads s)[i := Undo c sid key ch e], hs_Failed := ch # hs_Failed s\<rparr>)"
      by (rule sys_ok_quiet [OF s i same]) (use ok(2) in \<open>auto simp: t\<close>)
    then show ?thesis using r by (auto simp: Write_Fails t thread_step_def outcome_ok_def failed_write_def)
  next
    case Times_Out
    then obtain c sid key ch where t: "hs_Threads s ! i = Wait c sid key ch"
      using r by (auto simp: thread_step_def split: agent_thread.splits)
    have "sys_ok (s\<lparr>hs_Hub := hs_Hub s, hs_Threads := (hs_Threads s)[i := Expired c sid key ch], hs_Failed := hs_Failed s\<rparr>)"
      by (rule sys_ok_quiet [OF s i same]) (use ok(2) in \<open>auto simp: t\<close>)
    then show ?thesis using r by (auto simp: Times_Out t thread_step_def outcome_ok_def failed_write_def)
  qed
qed

section \<open>All steps\<close>

lemma sys_ok_hub:
  assumes s: "sys_ok s" and h: "harmless (hs_Received s) (hs_Hub s) h'"
  shows "sys_ok (s\<lparr>hs_Hub := h'\<rparr>)"
proof -
  have ok: "hub_ok (hs_Received s) (hs_Hub s)" using s by (simp add: sys_ok_def)
  have b: "ch < length (hb_Chans (hs_Hub s))" if "t \<in> set (hs_Threads s)" "acts_on t = Some ch" for t ch
    using s that acts_bound by (auto simp: sys_ok_def)
  have "thread_ok (hs_Received s) (hs_Failed s) h' t" if "t \<in> set (hs_Threads s)" for t
    using thread_ok_extends [OF ok _ subset_refl subset_refl] s h that by (auto simp: sys_ok_def harmless_def)
  moreover have "\<not> posted h' ch" if "t \<in> set (hs_Threads s)" "acts_on t = Some ch" for t ch
    using s h b [OF that] that by (auto simp: sys_ok_def harmless_def)
  moreover have "\<not> closed_in h' ch"
    if "i < length (hs_Threads s)" "owns (hs_Threads s ! i) = Some ch" "ch \<notin> set (hs_Failed s)" for i ch
    using s h that b [OF nth_mem [OF that(1)] owns_acts [OF that(2)]] by (auto simp: sys_ok_def harmless_def)
  ultimately show ?thesis using s h by (auto simp: sys_ok_def harmless_def)
qed

lemma sys_ok_spawn:
  assumes s: "sys_ok s" and t: "thread_ok (hs_Received s) (hs_Failed s) (hs_Hub s) t" "acts_on t = None"
  shows "sys_ok (s\<lparr>hs_Threads := hs_Threads s @ [t]\<rparr>)"
proof -
  have "owns t = None" using t(2) owns_acts [of t] by (cases "owns t") auto
  then show ?thesis using s t by (auto simp: sys_ok_def nth_append less_Suc_eq)
qed

lemma sys_ok_receive:
  assumes "sys_ok s"
  shows "sys_ok (s\<lparr>hs_Received := e # hs_Received s\<rparr>)"
proof -
  have ok: "hub_ok (hs_Received s) (hs_Hub s)" using assms by (simp add: sys_ok_def)
  have "hub_ok (e # hs_Received s) (hs_Hub s)"
    using ok fitting_extends [OF extends_refl _ _ set_subset_Cons [of "hs_Received s" e]] by (simp add: hub_ok_def)
  moreover have "thread_ok (e # hs_Received s) (hs_Failed s) (hs_Hub s) t" if "t \<in> set (hs_Threads s)" for t
    using thread_ok_extends [OF ok extends_refl set_subset_Cons [of "hs_Received s" e] subset_refl] assms that by (simp add: sys_ok_def)
  ultimately show ?thesis using assms by (simp add: sys_ok_def)
qed

lemma register_ok:
  assumes ok: "hub_ok rcv h" and r: "RegisterSession node h = (sid, h')"
  shows "harmless rcv h h'" "sid < length (hb_Heap h')"
proof -
  define h1 where "h1 = (case map_of (hb_Sessions h) node of
      Some old \<Rightarrow> put_session old (\<lambda>s. s\<lparr>sn_Cancelled := True\<rparr>) h | None \<Rightarrow> h)"
  have h1: "harmless rcv h h1"
    unfolding h1_def using ok by (auto split: option.splits intro!: put_session_harmless harmless_refl simp: hub_ok_def)
  let ?s = "\<lparr>sn_NodeID = node, sn_Pending = [], sn_RpcPending = [], sn_Pings = [], sn_Cancelled = False\<rparr>"
  have h': "h' = h1\<lparr>hb_Heap := hb_Heap h1 @ [?s], hb_Sessions := AList.update node (length (hb_Heap h1)) (hb_Sessions h1)\<rparr>"
    and sid: "sid = length (hb_Heap h1)" using r unfolding RegisterSession_def Let_def h1_def [symmetric] by auto
  have ok1: "hub_ok rcv h1" using h1 by (simp add: harmless_def)
  have ext: "extends h1 h'" by (simp add: extends_def h' nth_append)
  have pend: "pending_of k ?s = []" for k by (cases k) (simp_all add: pending_of_def)
  have "posted h1 ch" if po: "posted h' ch" for ch
  proof -
    obtain i k key where i: "i < Suc (length (hb_Heap h1))" "(key, ch) \<in> set (pending_of k ((hb_Heap h1 @ [?s]) ! i))"
      using po by (auto simp: posted_def h')
    then have "i < length (hb_Heap h1)" using pend by (cases "i = length (hb_Heap h1)") (auto simp: nth_append)
    then show ?thesis using i(2) unfolding posted_def by (auto simp: nth_append)
  qed
  moreover have "hub_ok rcv h'"
    unfolding hub_ok_def
  proof (intro conjI)
    have "set (AList.update node n xs) \<subseteq> insert (node, n) (set xs)" for n xs by (induction xs) auto
    then have "set (hb_Sessions h') \<subseteq> insert (node, length (hb_Heap h1)) (set (hb_Sessions h1))" by (simp add: h')
    moreover have "\<forall>e\<in>set (hb_Sessions h1). snd e < length (hb_Heap h1) \<and> sn_NodeID (hb_Heap h1 ! snd e) = fst e"
      using ok1 by (auto simp: hub_ok_def)
    then have "\<forall>e\<in>insert (node, length (hb_Heap h1)) (set (hb_Sessions h1)). snd e < length (hb_Heap h') \<and> sn_NodeID (hb_Heap h' ! snd e) = fst e"
      by (auto simp: h' nth_append)
    ultimately have "\<forall>e\<in>set (hb_Sessions h'). snd e < length (hb_Heap h') \<and> sn_NodeID (hb_Heap h' ! snd e) = fst e"
      by blast
    then show "\<forall>(node, sid)\<in>set (hb_Sessions h'). sid < length (hb_Heap h') \<and> sn_NodeID (hb_Heap h' ! sid) = node"
      by auto
    show "\<forall>c<length (hb_Chans h'). ch_Session (hb_Chans h' ! c) < length (hb_Heap h')
        \<and> (\<forall>a. ch_Buffer (hb_Chans h' ! c) = Some a \<longrightarrow> fitting rcv h' c a)"
      using ok1 fitting_extends [OF ext _ _ subset_refl, of _ rcv] by (auto simp: hub_ok_def h')
    show "\<forall>i<length (hb_Heap h'). \<forall>k. distinct (map fst (pending_of k (hb_Heap h' ! i)))
        \<and> (\<forall>(key, c)\<in>set (pending_of k (hb_Heap h' ! i)). c < length (hb_Chans h') \<and> ch_Id (hb_Chans h' ! c) = key
             \<and> ch_Kind (hb_Chans h' ! c) = k \<and> ch_Session (hb_Chans h' ! c) = i \<and> \<not> closed_in h' c)"
      using ok1 pend by (auto simp: hub_ok_def h' nth_append less_Suc_eq)
  qed
  ultimately have "harmless rcv h1 h'" using ext by (simp add: harmless_def h')
  then show "harmless rcv h h'" by (rule harmless_trans [OF h1])
  show "sid < length (hb_Heap h')" by (simp add: sid h')
qed

lemma probes_harmless:
  assumes ok: "hub_ok rcv h"
  shows "harmless rcv h (HandlePong now node key h)" "harmless rcv h (probe now key sid h)"
    "harmless rcv h (probe_write_failed now key sid h)"
proof -
  have put: "harmless rcv h (put_session sid (\<lambda>s. s\<lparr>sn_Pings := f s\<rparr>) h)" if "hub_ok rcv h" for sid f h
    by (rule put_session_harmless [OF that]) (use that in \<open>auto simp: hub_ok_def\<close>)
  show "harmless rcv h (HandlePong now node key h)"
    unfolding HandlePong_def using harmless_core_after [OF put [OF ok] same_core_latency] harmless_refl [OF ok]
    by (auto split: option.splits)
  show "harmless rcv h (probe now key sid h)"
    unfolding probe_def Let_def
  proof (rule harmless_trans [OF harmless_core [OF same_core_latencies ok]])
    fix node n
    let ?h = "(appendAgentLatency node (now div 1000) 0 False ^^ n) h"
    have "hub_ok rcv ?h" using harmless_core [OF same_core_latencies ok] by (simp add: harmless_def)
    then show "harmless rcv ?h (put_session sid (\<lambda>s. s\<lparr>sn_Pings := b\<rparr>) ?h)" for b by (rule put)
  qed
  show "harmless rcv h (probe_write_failed now key sid h)"
    unfolding probe_write_failed_def by (rule harmless_core_after [OF put [OF ok] same_core_latency])
qed

lemma hub_step_ok:
  assumes "hub_step s (Inr s')" "sys_ok s"
  shows "sys_ok s'"
  using assms(1)
proof (cases rule: hub_step.cases)
  case (advance i ev t h)
  then show ?thesis using thread_step_ok [OF assms(2) advance(2,3)] by (simp add: outcome_ok_def)
next
  case (connect node sid h)
  have ok: "hub_ok (hs_Received s) (hs_Hub s)" using assms(2) by (simp add: sys_ok_def)
  note r = register_ok [OF ok connect(2)]
  have "sys_ok (s\<lparr>hs_Hub := h\<rparr>)" by (rule sys_ok_hub [OF assms(2) r(1)])
  then show ?thesis using sys_ok_spawn [of "s\<lparr>hs_Hub := h\<rparr>" "Mark sid"] r(2) by (simp add: connect)
next
  case (call c)
  then show ?thesis using sys_ok_spawn [OF assms(2), of "Enter c"] by simp
next
  case (message sid node a)
  then show ?thesis
    using sys_ok_spawn [OF sys_ok_receive [OF assms(2), of "(node, a)"], of "Got node a"] by simp
next
  case (pong now node key)
  then show ?thesis using sys_ok_hub [OF assms(2) probes_harmless(1)] assms(2) by (simp add: sys_ok_def)
next
  case (ping sid now key)
  then show ?thesis using sys_ok_hub [OF assms(2) probes_harmless(2)] assms(2) by (simp add: sys_ok_def)
next
  case (ping_failed sid now key)
  then show ?thesis using sys_ok_hub [OF assms(2) probes_harmless(3)] assms(2) by (simp add: sys_ok_def)
qed

lemma reachable_ok: "hub_reachable s \<Longrightarrow> sys_ok s"
proof (induction rule: hub_reachable.induct)
  case start
  show ?case by (simp add: sys_ok_def hub_ok_def hub_start_def empty_hub_def)
next
  case (step s s')
  then show ?case using hub_step_ok by blast
qed

end
