(* ===== verification/Agent_Safety.thy ===== *)
theory Agent_Safety
  imports Agent_Calls "HOL-Library.Multiset"
begin

text \<open>
  What the invariant of \<open>Agent_Calls\<close> gives: where the panel can panic and that it does, whose answer a
  call receives, and the percentile shown for the latency of a node.
\<close>

section \<open>Runs\<close>

datatype hub_input = Run nat agent_event | Connect nat | Call agent_call | Message nat answer

fun hub_exec :: "hub_sys \<Rightarrow> hub_input list \<Rightarrow> hub_sys result option" where
  "hub_exec s [] = Some (Inr s)"
| "hub_exec s (Run i ev # es) =
     (if i < length (hs_Threads s) then
        (case thread_step ev (hs_Threads s ! i) (hs_Hub s) of
           None \<Rightarrow> None
         | Some (Inl e) \<Rightarrow> Some (Inl e)
         | Some (Inr (t, h)) \<Rightarrow> hub_exec (s\<lparr>hs_Hub := h, hs_Threads := (hs_Threads s)[i := t],
             hs_Failed := failed_write ev (hs_Threads s ! i) @ hs_Failed s\<rparr>) es)
      else None)"
| "hub_exec s (Connect node # es) =
     (let (sid, h) = RegisterSession node (hs_Hub s)
      in hub_exec (s\<lparr>hs_Hub := h, hs_Threads := hs_Threads s @ [Mark sid]\<rparr>) es)"
| "hub_exec s (Call c # es) =
     (if call_checked c then hub_exec (s\<lparr>hs_Threads := hs_Threads s @ [Enter c]\<rparr>) es else None)"
| "hub_exec s (Message i a # es) =
     (if i < length (hs_Threads s) then
        (case hs_Threads s ! i of
           Serving sid \<Rightarrow>
             (let node = sn_NodeID (hb_Heap (hs_Hub s) ! sid)
              in hub_exec (s\<lparr>hs_Received := (node, a) # hs_Received s, hs_Threads := hs_Threads s @ [Got node a]\<rparr>) es)
         | _ \<Rightarrow> None)
      else None)"

lemma hub_exec_reachable:
  assumes "hub_reachable s"
  shows "hub_exec s es = Some (Inr s') \<Longrightarrow> hub_reachable s'"
    "hub_exec s es = Some (Inl e) \<Longrightarrow> \<exists>s'. hub_reachable s' \<and> hub_step s' (Inl e)"
  using assms
proof (induction s es rule: hub_exec.induct)
  case (2 s i ev es)
  {
    case 1
    then show ?case using "2.IH" hub_reachable.step [OF \<open>hub_reachable s\<close> hub_step.advance]
      by (auto split: if_splits option.splits sum.splits)
  next
    case 2
    then show ?case using "2.IH" hub_reachable.step [OF \<open>hub_reachable s\<close> hub_step.advance] hub_step.crash
      by (fastforce split: if_splits option.splits sum.splits)
  }
next
  case (3 s node es)
  {
    case 1
    then show ?case using "3.IH" hub_reachable.step [OF \<open>hub_reachable s\<close> hub_step.connect] by (auto split: prod.splits)
  next
    case 2
    then show ?case using "3.IH" hub_reachable.step [OF \<open>hub_reachable s\<close> hub_step.connect] by (auto split: prod.splits)
  }
next
  case (4 s c es)
  {
    case 1
    then show ?case using "4.IH" hub_reachable.step [OF \<open>hub_reachable s\<close> hub_step.call] by (auto split: if_splits)
  next
    case 2
    then show ?case using "4.IH" hub_reachable.step [OF \<open>hub_reachable s\<close> hub_step.call] by (auto split: if_splits)
  }
next
  case (5 s i a es)
  have m: "Serving sid \<in> set (hs_Threads s)" if "i < length (hs_Threads s)" "hs_Threads s ! i = Serving sid" for sid
    using that nth_mem by metis
  {
    case 1
    then show ?case using "5.IH" hub_reachable.step [OF \<open>hub_reachable s\<close> hub_step.message [OF m]]
      by (auto simp: Let_def split: if_splits agent_thread.splits)
  next
    case 2
    then show ?case using "5.IH" hub_reachable.step [OF \<open>hub_reachable s\<close> hub_step.message [OF m]]
      by (auto simp: Let_def split: if_splits agent_thread.splits)
  }
qed (auto intro: hub_reachable.start)

definition ping_call :: agent_call where
  "ping_call = \<lparr>ac_Kind = Command_Call, ac_Node = 1, ac_Type = ''ping'', ac_Args = None, ac_Actor = ''admin'', ac_Started = 0\<rparr>"

text \<open>
  The agent of node 1 disconnects while a command is being written to it: the end of the session
  answers and closes the channel of the call, then the write fails, and the call closes it again.
\<close>

definition disconnect_run :: "hub_input list" where
  "disconnect_run =
     [Connect 1, Run 0 (Proceed 0), Call ping_call, Run 1 (Proceed 0), Run 1 (Choose 0 ''c1''),
      Run 0 (Proceed 0), Run 0 (Proceed 0), Run 0 (Proceed 0), Run 1 (Write_Fails ''closed''), Run 1 (Proceed 0), Run 1 (Proceed 0)]"

lemma disconnect_run_panics:
  "\<exists>s. hub_reachable s \<and> hub_step s (Inl ''panic: close of closed channel'')"
proof -
  have "case hub_exec hub_start disconnect_run of Some (Inl e) \<Rightarrow> e = ''panic: close of closed channel'' | _ \<Rightarrow> False"
    by code_simp
  then have "hub_exec hub_start disconnect_run = Some (Inl ''panic: close of closed channel'')"
    by (auto split: option.splits sum.splits)
  then show ?thesis by (rule hub_exec_reachable(2) [OF hub_reachable.start])
qed

section \<open>Panics\<close>

text \<open>
  C12. A send on a closed channel or a second close, which ends the panel, comes only from a call
  whose write failed: in every reachable state a goroutine that can panic is about to use the
  closed channel of such a call. While all writes succeed, no order of connections, answers,
  time-outs and disconnections makes the hub panic.
\<close>

theorem panic_needs_failed_write:
  assumes "hub_reachable s" "hub_step s (Inl e)"
  shows "\<exists>t\<in>set (hs_Threads s). \<exists>ch\<in>set (hs_Failed s). acts_on t = Some ch \<and> ch_Closed (hb_Chans (hs_Hub s) ! ch)"
proof -
  from assms(2) obtain i ev where i: "i < length (hs_Threads s)" "thread_step ev (hs_Threads s ! i) (hs_Hub s) = Some (Inl e)"
    by (auto elim: hub_step.cases)
  then show ?thesis using thread_step_ok [OF reachable_ok [OF assms(1)] i] nth_mem [OF i(1)] by (auto simp: outcome_ok_def)
qed

text \<open>The run above reaches such a state.\<close>

theorem panic_needs_failed_write_witness:
  "\<exists>s e. hub_reachable s \<and> hub_step s (Inl e) \<and> (\<exists>t\<in>set (hs_Threads s). \<exists>ch\<in>set (hs_Failed s). acts_on t = Some ch)"
  using disconnect_run_panics panic_needs_failed_write by blast

text \<open>The end of a session closes every channel posted in it, and no channel is ever opened again.\<close>

lemma chan_length [simp]: "length (hb_Chans (update_chan c f h)) = length (hb_Chans h)"
  by (simp add: update_chan_def)

lemma update_chan_closed:
  assumes "\<And>c. ch_Closed (f c) \<longleftrightarrow> ch_Closed c \<or> b"
  shows "closed_in (update_chan c f h) x \<longleftrightarrow> closed_in h x \<or> b \<and> x = c \<and> c < length (hb_Chans h)"
proof (cases "c < length (hb_Chans h)")
  case False
  then have "hb_Chans (update_chan c f h) = hb_Chans h" by (simp add: update_chan_def list_update_beyond)
  then show ?thesis using False by simp
next
  case True
  then show ?thesis using assms by (cases "x = c") (auto simp: update_chan_def)
qed

lemma offer_closed:
  assumes "offer a c h = Inr h'"
  shows "closed_in h' x \<longleftrightarrow> closed_in h x" "length (hb_Chans h') = length (hb_Chans h)" "hb_Heap h' = hb_Heap h"
proof -
  have h': "h' = h \<or> h' = update_chan c (\<lambda>x. x\<lparr>ch_Buffer := Some a\<rparr>) h" using assms by (auto simp: offer_def split: if_splits)
  then show "closed_in h' x \<longleftrightarrow> closed_in h x" using update_chan_closed [of "\<lambda>x. x\<lparr>ch_Buffer := Some a\<rparr>" False c h x] by auto
  show "length (hb_Chans h') = length (hb_Chans h)" "hb_Heap h' = hb_Heap h" using h' by (auto simp: update_chan_def)
qed

lemma close_chan_closed:
  assumes "close_chan c h = Inr h'"
  shows "closed_in h' x \<longleftrightarrow> closed_in h x \<or> x = c \<and> c < length (hb_Chans h)" "length (hb_Chans h') = length (hb_Chans h)" "hb_Heap h' = hb_Heap h"
proof -
  have h': "h' = update_chan c (\<lambda>x. x\<lparr>ch_Closed := True\<rparr>) h" using assms by (simp add: close_chan_def split: if_splits)
  show "closed_in h' x \<longleftrightarrow> closed_in h x \<or> x = c \<and> c < length (hb_Chans h)"
    unfolding h' using update_chan_closed [of "\<lambda>x. x\<lparr>ch_Closed := True\<rparr>" True c h x] by simp
  show "length (hb_Chans h') = length (hb_Chans h)" "hb_Heap h' = hb_Heap h" by (simp_all add: h' update_chan_def)
qed

lemma fail_chans_closed:
  assumes "fail_chans f ps h = Inr h'" "closed_in h x \<or> x \<in> snd ` set ps \<and> x < length (hb_Chans h)"
  shows "closed_in h' x"
  using assms
proof (induction f ps h rule: fail_chans.induct)
  case (2 f key c ps h)
  obtain h1 h2 where h: "offer (f key) c h = Inr h1" "close_chan c h1 = Inr h2" "fail_chans f ps h2 = Inr h'"
    using 2(2) by (auto simp: bindr_Inr_iff)
  have "closed_in h2 x \<or> x \<in> snd ` set ps \<and> x < length (hb_Chans h2)"
    using 2(3) offer_closed(1,2) [OF h(1)] close_chan_closed(1,2) [OF h(2)] by auto
  then show ?case using 2(1) [OF h(3)] by blast
qed simp

lemma fail_chans_heap: "fail_chans f ps h = Inr h' \<Longrightarrow> hb_Heap h' = hb_Heap h"
  by (induction f ps h rule: fail_chans.induct) (auto simp: bindr_Inr_iff dest!: offer_closed(3) close_chan_closed(3))

text \<open>The section that answers the calls of a kind, and where the channel of a call is before and after it.\<close>

definition kind_section :: "call_kind \<Rightarrow> nat" where
  "kind_section k = (case k of Command_Call \<Rightarrow> 1 | Rpc_Call \<Rightarrow> 2)"

definition due_or_closed :: "call_kind \<Rightarrow> string \<Rightarrow> nat \<Rightarrow> nat \<Rightarrow> nat \<Rightarrow> agent_hub \<Rightarrow> bool" where
  "due_or_closed k key ch sid stage h \<longleftrightarrow> closed_in h ch
     \<or> stage \<le> kind_section k \<and> (key, ch) \<in> set (pending_of k (hb_Heap h ! sid))"

lemma section_closes:
  assumes "unregister_section now stage sid h = Inr h'" "due_or_closed k key ch sid stage h" "ch < length (hb_Chans h)"
    "sid < length (hb_Heap h)"
  shows "due_or_closed k key ch sid (Suc stage) h'"
proof -
  consider "stage = 0" | "stage = 1" | "stage = 2" | "stage > 2" by linarith
  then show ?thesis
  proof cases
    case 1
    then show ?thesis using assms(1,2) by (auto simp: unregister_section_def Let_def due_or_closed_def kind_section_def split: if_splits call_kind.splits)
  next
    case 2
    then obtain h1 where h1: "fail_chans (command_failure ''agent disconnected'') (sn_Pending (hb_Heap h ! sid)) h = Inr h1"
      and h': "h' = put_session sid (\<lambda>s. s\<lparr>sn_Pending := []\<rparr>) h1"
      using assms(1) by (auto simp: unregister_section_def failPending_def bindr_Inr_iff)
    note c = fail_chans_closed [OF h1, of ch] and e = fail_chans_heap [OF h1]
    show ?thesis using assms(2-4) c e
      by (cases k) (force simp: 2 h' due_or_closed_def kind_section_def put_session_def pending_of_def)+
  next
    case 3
    then obtain h1 where h1: "fail_chans (rpc_failure ''agent disconnected'') (sn_RpcPending (hb_Heap h ! sid)) h = Inr h1"
      and h': "h' = put_session sid (\<lambda>s. s\<lparr>sn_RpcPending := []\<rparr>) h1"
      using assms(1) by (auto simp: unregister_section_def failRPCPending_def bindr_Inr_iff)
    note c = fail_chans_closed [OF h1, of ch]
    show ?thesis using assms(2,3) c
      by (cases k) (force simp: 3 h' due_or_closed_def kind_section_def put_session_def pending_of_def)+
  next
    case 4
    have "hb_Chans ((appendAgentLatency n t 0 False ^^ m) h0) = hb_Chans h0" for n t m h0
      using same_core_latencies by (auto simp: same_core_def)
    then have "hb_Chans h' = hb_Chans h"
      using assms(1) 4 by (auto simp: unregister_section_def failPings_def put_session_def SetWSConnected_def Let_def split: if_splits)
    then show ?thesis using assms(2) 4 by (auto simp: due_or_closed_def kind_section_def split: call_kind.splits)
  qed
qed

text \<open>The goroutine of a connection that has ended, through some of the sections of the end of its session.\<close>

definition go_on :: "nat \<Rightarrow> int list \<Rightarrow> hub_input list" where
  "go_on j ts = map (\<lambda>t. Run j (Proceed t)) ts"

lemma leaving_run:
  assumes "hub_reachable s" "j < length (hs_Threads s)" "hs_Threads s ! j = Leave sid stage" "stage + length ts \<le> 5"
    "due_or_closed k key ch sid stage (hs_Hub s)" "ch < length (hb_Chans (hs_Hub s))"
  shows "\<exists>h. hub_exec s (go_on j ts @ es) = hub_exec (s\<lparr>hs_Hub := h, hs_Threads := (hs_Threads s)[j := Leave sid (stage + length ts)]\<rparr>) es
    \<and> hub_reachable (s\<lparr>hs_Hub := h, hs_Threads := (hs_Threads s)[j := Leave sid (stage + length ts)]\<rparr>)
    \<and> due_or_closed k key ch sid (stage + length ts) h"
  using assms
proof (induction ts arbitrary: s stage)
  case Nil
  have "s\<lparr>hs_Hub := hs_Hub s, hs_Threads := (hs_Threads s)[j := Leave sid stage]\<rparr> = s" using Nil(3) by (metis hub_sys.surjective hub_sys.update_convs(1,2) list_update_id)
  then show ?case using Nil by (intro exI [of _ "hs_Hub s"]) (simp add: go_on_def)
next
  case (Cons t ts)
  note ok = sys_okD [OF reachable_ok [OF Cons.prems(1)] Cons.prems(2)]
  have sid: "sid < length (hb_Heap (hs_Hub s))" using ok(2) Cons.prems(3) by simp
  obtain h where h: "unregister_section t stage sid (hs_Hub s) = Inr h"
    using fail_sections [OF ok(1) sid] other_sections [OF ok(1) sid] by blast
  have ex: "extends (hs_Hub s) h"
    using h fail_sections [OF ok(1) sid, of stage t] other_sections [OF ok(1) sid, of stage t] by (cases "stage = 1 \<or> stage = 2") (auto simp: harmless_def)
  let ?s = "s\<lparr>hs_Hub := h, hs_Threads := (hs_Threads s)[j := Leave sid (Suc stage)]\<rparr>"
  have st: "thread_step (Proceed t) (hs_Threads s ! j) (hs_Hub s) = Some (Inr (Leave sid (Suc stage), h))"
    using Cons.prems(3,4) h by (simp add: thread_step_def)
  have f: "failed_write (Proceed t) x = []" for x by (simp add: failed_write_def)
  have r: "hub_reachable ?s"
    using hub_reachable.step [OF Cons.prems(1) hub_step.advance [OF Cons.prems(2) st]] by (simp add: f)
  have run: "hub_exec s (go_on j (t # ts) @ es) = hub_exec ?s (go_on j ts @ es)"
    using Cons.prems(2) st by (simp add: go_on_def f)
  have "due_or_closed k key ch sid (Suc stage) h" by (rule section_closes [OF h Cons.prems(5,6) sid])
  then show ?case using Cons.IH [OF r, of "Suc stage"] Cons.prems(2,4,6) ex by (auto simp: run extends_def)
qed

text \<open>
  C13. Take any reachable state in which a call, a command or an RPC, is being written to the agent
  and has no answer yet. If the connection of that session ends now and gets through the sections
  that answer its pending calls, and the write then fails, the hub panics on the second close of
  the channel of the call: the undoing of a failed write closes it whoever has closed it.
\<close>

theorem disconnect_during_write_panics:
  assumes "hub_reachable s" "i < length (hs_Threads s)" "hs_Threads s ! i = Send c sid key ch"
    and "map_of (pending_of (ac_Kind c) (hb_Heap (hs_Hub s) ! sid)) key = Some ch"
    and "j < length (hs_Threads s)" "hs_Threads s ! j = Serving sid" "4 \<le> length ts" "length ts \<le> 6"
  shows "hub_exec s (go_on j ts @ [Run i (Write_Fails e), Run i (Proceed t1), Run i (Proceed t2)])
    = Some (Inl ''panic: close of closed channel'')"
proof -
  let ?es = "[Run i (Write_Fails e), Run i (Proceed t1), Run i (Proceed t2)]"
  obtain t ts' where ts: "ts = t # ts'" "3 \<le> length ts'" "length ts' \<le> 5" using assms(7,8) by (cases ts) auto
  have ch: "ch < length (hb_Chans (hs_Hub s))"
    using sys_okD(2) [OF reachable_ok [OF assms(1)] assms(2)] by (simp add: assms(3) call_chan_def)
  let ?s = "s\<lparr>hs_Threads := (hs_Threads s)[j := Leave sid 0]\<rparr>"
  have st: "thread_step (Proceed t) (hs_Threads s ! j) (hs_Hub s) = Some (Inr (Leave sid 0, hs_Hub s))"
    by (simp add: thread_step_def assms(6))
  have "hub_reachable ?s"
    using hub_reachable.step [OF assms(1) hub_step.advance [OF assms(5) st]] by (simp add: failed_write_def)
  moreover have "hub_exec s (go_on j ts @ ?es) = hub_exec ?s (go_on j ts' @ ?es)"
    using assms(5) st by (simp add: ts(1) go_on_def failed_write_def)
  moreover have "due_or_closed (ac_Kind c) key ch sid 0 (hs_Hub s)" using assms(4) by (auto simp: due_or_closed_def dest: map_of_SomeD)
  ultimately obtain h where run: "hub_exec s (go_on j ts @ ?es)
      = hub_exec (s\<lparr>hs_Hub := h, hs_Threads := (hs_Threads s)[j := Leave sid (length ts')]\<rparr>) ?es"
    and closed: "due_or_closed (ac_Kind c) key ch sid (length ts') h"
    using leaving_run [of ?s j sid 0 ts' "ac_Kind c" key ch ?es] ts(3) assms(5) ch by auto
  have "i \<noteq> j" using assms(3,6) by auto
  moreover have "closed_in h ch" using closed ts(2) by (auto simp: due_or_closed_def kind_section_def split: call_kind.splits)
  ultimately show ?thesis
    using assms(2,3) by (simp add: run thread_step_def close_chan_def drop_pending_def put_session_def)
qed

theorem disconnect_during_write_panics_witness:
  "\<exists>s ch c. hub_reachable s \<and> hs_Threads s ! 0 = Serving 0 \<and> hs_Threads s ! 1 = Send c 0 ''c1'' ch \<and> ac_Kind c = Command_Call
    \<and> hub_exec s (go_on 0 [1, 2, 3, 4] @ [Run 1 (Write_Fails ''broken pipe''), Run 1 (Proceed 5), Run 1 (Proceed 6)])
      = Some (Inl ''panic: close of closed channel'')"
proof -
  have "case hub_exec hub_start (take 5 disconnect_run) of
      Some (Inr s) \<Rightarrow> length (hs_Threads s) = 2
        \<and> (case hs_Threads s ! 0 of Serving sid \<Rightarrow> sid = 0 | _ \<Rightarrow> False)
        \<and> (case hs_Threads s ! 1 of Send c sid key ch \<Rightarrow> sid = 0 \<and> key = ''c1'' \<and> ac_Kind c = Command_Call
            \<and> map_of (pending_of (ac_Kind c) (hb_Heap (hs_Hub s) ! 0)) ''c1'' = Some ch
          | _ \<Rightarrow> False)
    | _ \<Rightarrow> False"
    by code_simp
  then obtain s c ch where s: "hub_exec hub_start (take 5 disconnect_run) = Some (Inr s)" "length (hs_Threads s) = 2"
    "hs_Threads s ! 0 = Serving 0" "hs_Threads s ! 1 = Send c 0 ''c1'' ch" "ac_Kind c = Command_Call"
    "map_of (pending_of (ac_Kind c) (hb_Heap (hs_Hub s) ! 0)) ''c1'' = Some ch"
    by (auto split: option.splits sum.splits agent_thread.splits)
  have r: "hub_reachable s" by (rule hub_exec_reachable(1) [OF hub_reachable.start s(1)])
  from disconnect_during_write_panics [OF r, of 1 c 0 "''c1''" ch 0 "[1, 2, 3, 4]" "''broken pipe''" 5 6] r s(2-6)
  show ?thesis by auto
qed

section \<open>Answers\<close>

text \<open>
  C14. An answer that waits in the channel of a call has the identifier and the kind of the call, and
  is the failure the end of the session writes or an answer some agent sent; a call of a managed
  node (RPC) is only answered from the node it was sent to. For a command the node is not
  compared.
\<close>

theorem calls_get_their_answers:
  assumes "hub_reachable s" "Wait c sid key ch \<in> set (hs_Threads s)" "ch_Buffer (hb_Chans (hs_Hub s) ! ch) = Some a"
  shows "answer_id a = key \<and> answer_kind a = ac_Kind c
    \<and> (a = command_failure ''agent disconnected'' key \<or> a = rpc_failure ''agent disconnected'' key
       \<or> (\<exists>node. (node, a) \<in> set (hs_Received s) \<and> (ac_Kind c = Rpc_Call \<longrightarrow> node = ac_Node c)))"
proof -
  have ok: "sys_ok s" by (rule reachable_ok [OF assms(1)])
  then have cc: "call_chan (hs_Hub s) c sid key ch" using assms(2) by (force simp: sys_ok_def)
  then have "fitting (hs_Received s) (hs_Hub s) ch a"
    using ok assms(3) by (simp add: sys_ok_def hub_ok_def call_chan_def)
  then show ?thesis using cc unfolding fitting_def call_chan_def by auto
qed

text \<open>The agent of node 2 answers a command sent to node 1.\<close>

definition foreign_run :: "hub_input list" where
  "foreign_run =
     [Connect 1, Run 0 (Proceed 0), Connect 2, Run 1 (Proceed 0), Call ping_call, Run 2 (Proceed 0), Run 2 (Choose 0 ''c1''),
      Run 2 (Proceed 0),
      Message 1 (CommandResult \<lparr>cr_ID = ''c1'', cr_Type = [], cr_OK = True, cr_Output = [], cr_Error = [], cr_Code = 0, cr_Elapsed = 0\<rparr>),
      Run 3 (Proceed 0), Run 3 (Proceed 0), Run 3 (Proceed 0)]"

theorem calls_get_their_answers_witness:
  "\<exists>s c sid ch a. hub_reachable s \<and> Wait c sid ''c1'' ch \<in> set (hs_Threads s) \<and> ch_Buffer (hb_Chans (hs_Hub s) ! ch) = Some a
    \<and> ac_Node c = 1 \<and> map fst (hs_Received s) = [2] \<and> answer_id a = ''c1''"
proof -
  have "case hub_exec hub_start foreign_run of
      Some (Inr s) \<Rightarrow> 2 < length (hs_Threads s) \<and> map fst (hs_Received s) = [2] \<and>
        (case hs_Threads s ! 2 of
           Wait c sid key ch \<Rightarrow> key = ''c1'' \<and> ac_Node c = 1 \<and> ch_Buffer (hb_Chans (hs_Hub s) ! ch) \<noteq> None
         | _ \<Rightarrow> False)
    | _ \<Rightarrow> False"
    by code_simp
  then obtain s c sid ch a where s: "hub_exec hub_start foreign_run = Some (Inr s)" "map fst (hs_Received s) = [2]"
    "2 < length (hs_Threads s)" "hs_Threads s ! 2 = Wait c sid ''c1'' ch" "ac_Node c = 1"
    "ch_Buffer (hb_Chans (hs_Hub s) ! ch) = Some a"
    by (auto split: option.splits sum.splits agent_thread.splits)
  have r: "hub_reachable s" by (rule hub_exec_reachable(1) [OF hub_reachable.start s(1)])
  have w: "Wait c sid ''c1'' ch \<in> set (hs_Threads s)" using nth_mem [OF s(3)] s(4) by simp
  from calls_get_their_answers [OF r w s(6)] have "answer_id a = ''c1''" by simp
  with r w s(2,5,6) have "hub_reachable s \<and> Wait c sid ''c1'' ch \<in> set (hs_Threads s) \<and> ch_Buffer (hb_Chans (hs_Hub s) ! ch) = Some a
    \<and> ac_Node c = 1 \<and> map fst (hs_Received s) = [2] \<and> answer_id a = ''c1''" by (intro conjI)
  then show ?thesis by - (rule exI [of _ s], rule exI [of _ c], rule exI [of _ sid], rule exI [of _ ch], rule exI [of _ a], assumption)
qed

section \<open>Latency\<close>

lemma sorted_count:
  assumes "sorted xs" "i < length xs"
  shows "Suc i \<le> length (filter (\<lambda>v. v \<le> xs ! i) xs)" "length (filter (\<lambda>v. v < xs ! i) xs) \<le> i"
proof -
  have le: "v \<le> xs ! i" if v: "v \<in> set (take (Suc i) xs)" for v
  proof -
    obtain j where "j < Suc i" "v = xs ! j" using v assms(2) by (auto simp: in_set_conv_nth)
    then show ?thesis using sorted_nth_mono [OF assms(1), of j i] assms(2) by simp
  qed
  have ge: "\<not> v < xs ! i" if v: "v \<in> set (drop i xs)" for v
  proof -
    obtain j where j: "j < length xs - i" "v = xs ! (i + j)" using v assms(2) by (auto simp: in_set_conv_nth)
    then have "i + j < length xs" by linarith
    then show ?thesis using sorted_nth_mono [OF assms(1), of i "i + j"] j(2) by (simp add: not_less)
  qed
  have "length (filter (\<lambda>v. v \<le> xs ! i) xs)
      = length (filter (\<lambda>v. v \<le> xs ! i) (take (Suc i) xs)) + length (filter (\<lambda>v. v \<le> xs ! i) (drop (Suc i) xs))"
    by (metis append_take_drop_id filter_append length_append)
  moreover have "filter (\<lambda>v. v \<le> xs ! i) (take (Suc i) xs) = take (Suc i) xs" using le by (simp add: filter_id_conv)
  ultimately show "Suc i \<le> length (filter (\<lambda>v. v \<le> xs ! i) xs)" using assms(2) by simp
  have "length (filter (\<lambda>v. v < xs ! i) xs)
      = length (filter (\<lambda>v. v < xs ! i) (take i xs)) + length (filter (\<lambda>v. v < xs ! i) (drop i xs))"
    by (metis append_take_drop_id filter_append length_append)
  moreover have "filter (\<lambda>v. v < xs ! i) (drop i xs) = []" using ge by (simp add: filter_empty_conv)
  moreover have "length (filter (\<lambda>v. v < xs ! i) (take i xs)) \<le> i"
    using length_filter_le [of _ "take i xs"] by (metis length_take min.cobounded2 order.trans)
  ultimately show "length (filter (\<lambda>v. v < xs ! i) xs) \<le> i" by simp
qed

lemma percentile_index_bounds:
  assumes "0 < n"
  shows "percentile_index n < n" "95 * n \<le> 100 * Suc (percentile_index n)" "100 * percentile_index n < 95 * n"
proof -
  define q where "q = (95 * n + 99) div 100"
  have "(95 * n + 99) div 100 * 100 + (95 * n + 99) mod 100 = 95 * n + 99" "(95 * n + 99) mod 100 < 100" by simp_all
  then have "q * 100 \<le> 95 * n + 99" "95 * n < q * 100 + 1" unfolding q_def by linarith+
  moreover have "percentile_index n = q - 1" "1 \<le> q" using assms calculation(2) by (simp_all add: percentile_index_def q_def)
  ultimately show "percentile_index n < n" "95 * n \<le> 100 * Suc (percentile_index n)" "100 * percentile_index n < 95 * n"
    using assms by simp_all
qed

text \<open>
  The 95th percentile shown for a node is the least measured value such that at least 95 of
  a hundred measured values are not above it; it is never read outside the list.
\<close>

theorem latency_percentile:
  fixes samples :: "latency_sample list"
  assumes "filter ls_OK samples \<noteq> []"
  shows "lv_P95MS (getAgentLatency samples) \<in> set (map ls_MS (filter ls_OK samples))
    \<and> 95 * length (filter ls_OK samples) \<le> 100 * length (filter (\<lambda>v. v \<le> lv_P95MS (getAgentLatency samples)) (map ls_MS (filter ls_OK samples)))
    \<and> 100 * length (filter (\<lambda>v. v < lv_P95MS (getAgentLatency samples)) (map ls_MS (filter ls_OK samples))) < 95 * length (filter ls_OK samples)"
proof -
  define vs where "vs = map ls_MS (filter ls_OK samples)"
  have n: "0 < length vs" "length (filter ls_OK samples) = length vs" using assms by (simp_all add: vs_def)
  define i where "i = percentile_index (length vs)"
  have p: "lv_P95MS (getAgentLatency samples) = sort vs ! i"
    using assms by (simp add: getAgentLatency_def Let_def i_def flip: vs_def) (simp add: vs_def)
  have i: "i < length vs" "95 * length vs \<le> 100 * Suc i" "100 * i < 95 * length vs"
    unfolding i_def by (rule percentile_index_bounds [OF n(1)])+
  have count: "length (filter P vs) = length (filter P (sort vs))" for P
    by (metis mset_filter mset_sort size_mset)
  have "sort vs ! i \<in> set vs" using i(1) by (metis length_sort nth_mem set_sort)
  moreover have "Suc i \<le> length (filter (\<lambda>v. v \<le> sort vs ! i) vs)" "length (filter (\<lambda>v. v < sort vs ! i) vs) \<le> i"
    unfolding count using sorted_count [OF sorted_sort, of i vs] i(1) by simp_all
  ultimately show ?thesis unfolding p n(2) vs_def [symmetric] using i(2,3) by auto
qed

theorem latency_percentile_witness:
  "let samples = map (\<lambda>v. \<lparr>ls_Time = v, ls_MS = 10 * v, ls_OK = v \<noteq> 3\<rparr>) [1..21]
   in lv_P95MS (getAgentLatency samples) = 200
    \<and> 95 * 20 \<le> 100 * length (filter (\<lambda>v. v \<le> 200) (map ls_MS (filter ls_OK samples)))"
proof -
  let ?s = "map (\<lambda>v. \<lparr>ls_Time = v, ls_MS = 10 * v, ls_OK = v \<noteq> 3\<rparr>) [1..21]"
  have "filter ls_OK ?s \<noteq> []" "lv_P95MS (getAgentLatency ?s) = 200" "length (filter ls_OK ?s) = 20" by code_simp+
  with latency_percentile [of ?s] show ?thesis unfolding Let_def by auto
qed

end
