(* ===== verification/State_Result.thy ===== *)
theory State_Result
  imports Go_Values
begin

text \<open>
  Operations that change a state and may fail. An error does not undo the changes made before it,
  so the state is returned beside the result: \<open>bind_svc\<close> is \<^verbatim>\<open>if err != nil { return err }\<close> between two
  steps, \<open>each_svc\<close> a loop that stops at the first error.
\<close>

definition bind_svc ::
  "('s \<Rightarrow> 'a result \<times> 's) \<Rightarrow> ('a \<Rightarrow> 's \<Rightarrow> 'b result \<times> 's) \<Rightarrow> 's \<Rightarrow> 'b result \<times> 's" where
  "bind_svc m f s = (case m s of (Inl e, s') \<Rightarrow> (Inl e, s') | (Inr x, s') \<Rightarrow> f x s')"

definition lift_svc :: "'a result \<Rightarrow> 's \<Rightarrow> 'a result \<times> 's" where
  "lift_svc r s = (r, s)"

fun each_svc :: "('a \<Rightarrow> 's \<Rightarrow> unit result \<times> 's) \<Rightarrow> 'a list \<Rightarrow> 's \<Rightarrow> unit result \<times> 's" where
  "each_svc f [] = lift_svc (Inr ())"
| "each_svc f (x # xs) = bind_svc (f x) (\<lambda>_. each_svc f xs)"

text \<open>A loop that collects its results.\<close>

fun mapr_svc :: "('a \<Rightarrow> 's \<Rightarrow> 'b result \<times> 's) \<Rightarrow> 'a list \<Rightarrow> 's \<Rightarrow> 'b list result \<times> 's" where
  "mapr_svc f [] = lift_svc (Inr [])"
| "mapr_svc f (x # xs) = bind_svc (f x) (\<lambda>y. bind_svc (mapr_svc f xs) (\<lambda>ys. lift_svc (Inr (y # ys))))"

lemma bind_svc_Inr:
  "bind_svc m f s = (Inr y, s') \<longleftrightarrow> (\<exists>x s1. m s = (Inr x, s1) \<and> f x s1 = (Inr y, s'))"
  by (auto simp: bind_svc_def split: prod.splits sum.splits)

lemma lift_svc_Inr: "lift_svc r s = (Inr y, s') \<longleftrightarrow> r = Inr y \<and> s' = s"
  by (auto simp: lift_svc_def)

end
