(* ===== verification/Settings_Service.thy ===== *)
theory Settings_Service
  imports Panel_Db State_Result Go_Json
begin

text \<open>
  The settings of the panel (\<^verbatim>\<open>service/setting.go\<close>). A setting that has no row takes its default;
  the table keeps at most one row per key. The random secret, the version and the default of the
  agent key are given by \<open>setting_env\<close>, as is the check that a file exists. The value of the key
  \<^verbatim>\<open>config\<close> is a JSON document and lives in its own field of the database.
\<close>

record setting_env =
  st_Secret :: string
  st_Version :: string
  st_AgentKey :: string
  st_FileExists :: "string \<Rightarrow> bool"

definition defaultValueMap :: "setting_env \<Rightarrow> (string \<times> string) list" where
  "defaultValueMap env =
     [(''webListen'', []), (''webDomain'', []), (''webPort'', ''2095''), (''secret'', st_Secret env),
      (''webCertFile'', []), (''webKeyFile'', []), (''webPath'', ''/app/''), (''webURI'', []),
      (''sessionMaxAge'', ''0''), (''trafficAge'', ''30''), (''statsBucketSeconds'', ''60''),
      (''timeLocation'', ''Asia/Shanghai''), (''subListen'', []), (''subPort'', ''2096''),
      (''subPath'', ''/sub/''), (''subDomain'', []), (''subCertFile'', []), (''subKeyFile'', []),
      (''subUpdates'', ''12''), (''subEncode'', ''true''), (''subShowInfo'', ''false''), (''subURI'', []),
      (''subJsonExt'', []), (''subClashExt'', []), (''subClashNoDefGrp'', ''false''), (''subClashSprtAll'', ''false''),
      (''globalReset'', []), (''globalResetLast'', ''0''), (''congestionAlgo'', []), (''qdisc'', []),
      (''version'', st_Version env), (st_AgentKey env, [])]"

definition defaultConfig :: gmap where
  "defaultConfig =
     [(''log'', GMap [(''level'', GStr ''info'')]),
      (''dns'', GMap [(''servers'', GList []), (''rules'', GList [])]),
      (''route'', GMap [(''rules'', GList [GMap [(''action'', GStr ''sniff'')],
          GMap [(''protocol'', GList [GStr ''dns'']), (''action'', GStr ''hijack-dns'')]])]),
      (''experimental'', GMap [])]"

section \<open>Single settings\<close>

definition getSetting :: "panel_db \<Rightarrow> string \<Rightarrow> string option" where
  "getSetting db k = map_of (db_Settings db) k"

definition getString :: "setting_env \<Rightarrow> panel_db \<Rightarrow> string \<Rightarrow> string result" where
  "getString env db k = (case getSetting db k of
     Some v \<Rightarrow> Inr v
   | None \<Rightarrow> (case map_of (defaultValueMap env) k of
       Some v \<Rightarrow> Inr v
     | None \<Rightarrow> NewErrorf (''key <'' @ k @ ''> not in defaultValueMap'')))"

definition saveSetting :: "string \<Rightarrow> string \<Rightarrow> panel_db \<Rightarrow> panel_db" where
  "saveSetting k v db = db\<lparr>db_Settings := AList.update k v (db_Settings db)\<rparr>"

text \<open>\<open>strconv.ParseBool\<close>, \<open>Atoi\<close> and \<open>ParseInt\<close>; the reason at the end of their messages is left out.\<close>

definition parse_error :: "string \<Rightarrow> string \<Rightarrow> 'a result" where
  "parse_error f s = Inl (''strconv.'' @ f @ '': parsing '' @ quoted s)"

definition ParseBool :: "string \<Rightarrow> bool result" where
  "ParseBool s =
     (if s \<in> {''1'', ''t'', ''T'', ''TRUE'', ''true'', ''True''} then Inr True
      else if s \<in> {''0'', ''f'', ''F'', ''FALSE'', ''false'', ''False''} then Inr False
      else parse_error ''ParseBool'' s)"

definition getBool :: "setting_env \<Rightarrow> panel_db \<Rightarrow> string \<Rightarrow> bool result" where
  "getBool env db k = bindr (getString env db k) ParseBool"

definition parse_int :: "string \<Rightarrow> string \<Rightarrow> int result" where
  "parse_int f s = (case Atoi s of Some i \<Rightarrow> Inr i | None \<Rightarrow> parse_error f s)"

definition getInt :: "setting_env \<Rightarrow> panel_db \<Rightarrow> string \<Rightarrow> int result" where
  "getInt env db k = bindr (getString env db k) (parse_int ''Atoi'')"

definition setInt :: "string \<Rightarrow> int \<Rightarrow> panel_db \<Rightarrow> panel_db" where
  "setInt k v = saveSetting k (Itoa v)"

text \<open>A path starts and ends with a slash.\<close>

definition slashed :: "string \<Rightarrow> string" where
  "slashed p = (let q = (if HasPrefix p ''/'' then p else ''/'' @ p) in if HasSuffix q ''/'' then q else q @ ''/'')"

definition GetWebPath :: "setting_env \<Rightarrow> panel_db \<Rightarrow> string result" where
  "GetWebPath env db = map_sum id slashed (getString env db ''webPath'')"

definition SetWebPath :: "string \<Rightarrow> panel_db \<Rightarrow> panel_db" where
  "SetWebPath p = saveSetting ''webPath'' (slashed p)"

definition GetSubPath :: "setting_env \<Rightarrow> panel_db \<Rightarrow> string result" where
  "GetSubPath env db = map_sum id slashed (getString env db ''subPath'')"

definition SetSubPath :: "string \<Rightarrow> panel_db \<Rightarrow> panel_db" where
  "SetSubPath p = saveSetting ''subPath'' (slashed p)"

definition SetWebListen :: "string \<Rightarrow> panel_db \<Rightarrow> panel_db" where
  "SetWebListen s = saveSetting ''webListen'' (TrimSpace s)"

definition SetWebDomain :: "string \<Rightarrow> panel_db \<Rightarrow> panel_db" where
  "SetWebDomain s = saveSetting ''webDomain'' (TrimSpace s)"

definition SetWebURI :: "string \<Rightarrow> panel_db \<Rightarrow> panel_db" where
  "SetWebURI s = saveSetting ''webURI'' (TrimSpace s)"

text \<open>The default secret is stored the first time it is used, so that it survives a restart.\<close>

definition GetSecret :: "setting_env \<Rightarrow> panel_db \<Rightarrow> string result \<times> panel_db" where
  "GetSecret env db =
     (let secret = getString env db ''secret'' in
      (secret, if secret = Inr (st_Secret env) then saveSetting ''secret'' (st_Secret env) db else db))"

definition GetStatsBucketSeconds :: "setting_env \<Rightarrow> panel_db \<Rightarrow> int result" where
  "GetStatsBucketSeconds env db = map_sum id (\<lambda>v. if v < 1 then 60 else v) (getInt env db ''statsBucketSeconds'')"

definition GetGlobalResetLast :: "setting_env \<Rightarrow> panel_db \<Rightarrow> int result" where
  "GetGlobalResetLast env db = bindr (getString env db ''globalResetLast'') (parse_int ''ParseInt'')"

section \<open>All settings\<close>

definition hidden_settings :: "setting_env \<Rightarrow> string set" where
  "hidden_settings env = {''secret'', ''version'', ''globalResetLast'', st_AgentKey env}"

text \<open>Missing rows are created; the default configuration too, when there is none.\<close>

definition add_missing :: "string \<times> string \<Rightarrow> panel_db \<Rightarrow> panel_db" where
  "add_missing kv db = (if getSetting db (fst kv) = None then saveSetting (fst kv) (snd kv) db else db)"

definition GetAllSetting :: "setting_env \<Rightarrow> panel_db \<Rightarrow> (string \<times> string) list \<times> panel_db" where
  "GetAllSetting env db =
     (let db1 = fold add_missing (defaultValueMap env) db;
          db2 = (if db_Config db1 = None then db1\<lparr>db_Config := Some (RVal (GMap defaultConfig))\<rparr> else db1)
      in (filter (\<lambda>(k, _). k \<notin> hidden_settings env) (db_Settings db2), db2))"

definition ResetSettings :: "panel_db \<Rightarrow> panel_db" where
  "ResetSettings db = db\<lparr>db_Settings := [], db_Config := None\<rparr>"

definition GetFinalSubURI :: "setting_env \<Rightarrow> panel_db \<Rightarrow> string \<Rightarrow> string \<times> panel_db" where
  "GetFinalSubURI env db host =
     (let (settings, db') = GetAllSetting env db;
          get = (\<lambda>k. case map_of settings k of Some v \<Rightarrow> v | None \<Rightarrow> []);
          protocol = (if get ''subKeyFile'' \<noteq> [] \<and> get ''subCertFile'' \<noteq> [] then ''https'' else ''http'');
          host' = (if get ''subDomain'' \<noteq> [] then get ''subDomain'' else host);
          port = '':'' @ get ''subPort'';
          port' = (if port = ''80'' \<and> protocol = ''http'' \<or> port = ''443'' \<and> protocol = ''https'' then [] else port)
      in (if get ''subURI'' \<noteq> [] then get ''subURI'' else protocol @ ''://'' @ host' @ port' @ get ''subPath'', db'))"

section \<open>Saving\<close>

text \<open>\<open>Update\<close> of a single column changes the rows that exist and creates none.\<close>

definition update_setting :: "string \<Rightarrow> string \<Rightarrow> panel_db \<Rightarrow> panel_db" where
  "update_setting k v db = db\<lparr>db_Settings := map (\<lambda>(k', v'). (k', if k' = k then v else v')) (db_Settings db)\<rparr>"

definition SaveConfig :: "raw \<Rightarrow> panel_db \<Rightarrow> panel_db result" where
  "SaveConfig config db = (case config of
     RBad \<Rightarrow> Inl json_err
   | RNil \<Rightarrow> Inr (db\<lparr>db_Config := map_option (\<lambda>_. RVal GNil) (db_Config db)\<rparr>)
   | RVal v \<Rightarrow> Inr (db\<lparr>db_Config := map_option (\<lambda>_. RVal v) (db_Config db)\<rparr>))"

definition file_settings :: "string set" where
  "file_settings = {''webCertFile'', ''webKeyFile'', ''subCertFile'', ''subKeyFile''}"

definition path_settings :: "string set" where
  "path_settings = {''webPath'', ''subPath''}"

definition normal_setting :: "string \<Rightarrow> string \<Rightarrow> string" where
  "normal_setting k v = (if k \<in> path_settings then slashed v else v)"

text \<open>
  The key \<^verbatim>\<open>config\<close> can be written here as well, as text: what the text decodes to is stored.
\<close>

definition save_one_setting :: "setting_env \<Rightarrow> string \<times> string \<Rightarrow> panel_db \<Rightarrow> panel_db result" where
  "save_one_setting env kv db =
     (let (k, v) = kv in
      if v \<noteq> [] \<and> k \<in> file_settings \<and> \<not> st_FileExists env v then NewError ('' ->  '' @ v @ ''  is not exists'')
      else if k = ''config'' then
        Inr (db\<lparr>db_Config := map_option (\<lambda>_. case json_Unmarshal v of Some w \<Rightarrow> RVal w | None \<Rightarrow> RBad) (db_Config db)\<rparr>)
      else
        let db1 = (if k = ''trafficAge'' \<and> v = ''0'' then db\<lparr>db_Stats := []\<rparr> else db)
        in Inr (update_setting k (normal_setting k v) db1))"

text \<open>\<open>map[string]string\<close> of a decoded object; \<^verbatim>\<open>null\<close> leaves a value empty.\<close>

fun all_strings :: "gmap \<Rightarrow> (string \<times> string) list option" where
  "all_strings [] = Some []"
| "all_strings ((k, GStr s) # m) = map_option (Cons (k, s)) (all_strings m)"
| "all_strings ((k, GNil) # m) = map_option (Cons (k, [])) (all_strings m)"
| "all_strings (_ # m) = None"

definition Settings_Save :: "setting_env \<Rightarrow> panel_db \<Rightarrow> raw \<Rightarrow> panel_db result" where
  "Settings_Save env db data = (case Option.bind (decode_map data) all_strings of
     None \<Rightarrow> Inl json_err
   | Some settings \<Rightarrow> eachr (save_one_setting env) settings db)"

section \<open>Facts\<close>

definition settings_ok :: "panel_db \<Rightarrow> bool" where
  "settings_ok db \<longleftrightarrow> distinct (map fst (db_Settings db))"

lemma getSetting_save [simp]: "getSetting (saveSetting k v db) k' = (if k' = k then Some v else getSetting db k')"
  by (simp add: getSetting_def saveSetting_def update_conv')

lemma getSetting_update: "getSetting (update_setting k v db) k' = (if k' = k then map_option (\<lambda>_. v) (getSetting db k) else getSetting db k')"
proof -
  have "map_of (map (\<lambda>(k', v'). (k', if k' = k then v else v')) xs) k' = (if k' = k then map_option (\<lambda>_. v) (map_of xs k) else map_of xs k')" for xs
    by (induction xs) auto
  then show ?thesis by (simp add: getSetting_def update_setting_def)
qed

lemma slashed_ends: "HasPrefix (slashed p) ''/'' \<and> HasSuffix (slashed p) ''/''"
  by (cases p) (auto simp: slashed_def Let_def HasPrefix_def HasSuffix_def)

lemma slashed_idem [simp]: "slashed (slashed p) = slashed p"
  using slashed_ends [of p] by (simp add: slashed_def [of "slashed p"])

lemma add_missing_all:
  "getSetting (fold add_missing kvs db) k = (case getSetting db k of Some v \<Rightarrow> Some v | None \<Rightarrow> map_of kvs k)"
  by (induction kvs arbitrary: db) (auto simp: add_missing_def split: option.split)

lemma fold_add_missing_config [simp]: "db_Config (fold add_missing kvs db) = db_Config db"
  by (induction kvs arbitrary: db) (auto simp: add_missing_def saveSetting_def)

lemma save_one_setting_get:
  assumes "save_one_setting env (k, v) db = Inr db'"
  shows "getSetting db' k' = (if k' = k \<and> k \<noteq> ''config'' then map_option (\<lambda>_. normal_setting k v) (getSetting db k) else getSetting db k')"
proof -
  have "getSetting (db\<lparr>db_Stats := x\<rparr>) j = getSetting db j" "getSetting (db\<lparr>db_Config := y\<rparr>) j = getSetting db j" for x y j
    by (simp_all add: getSetting_def)
  then show ?thesis using assms by (auto simp: save_one_setting_def Let_def getSetting_update NewError_def split: if_splits)
qed

lemma save_settings_get:
  assumes "eachr (save_one_setting env) kvs db = Inr db'" "distinct (map fst kvs)"
  shows "getSetting db' k = (case if k = ''config'' then None else map_of kvs k of
     None \<Rightarrow> getSetting db k | Some v \<Rightarrow> map_option (\<lambda>_. normal_setting k v) (getSetting db k))"
  using assms
proof (induction kvs arbitrary: db)
  case (Cons kv kvs)
  obtain a v where kv: "kv = (a, v)" by (cases kv)
  obtain db1 where one: "save_one_setting env (a, v) db = Inr db1" and rest: "eachr (save_one_setting env) kvs db1 = Inr db'"
    using Cons.prems(1) by (auto simp: kv bindr_Inr_iff)
  have "map_of kvs a = None" using Cons.prems(2) by (simp add: kv map_of_eq_None_iff)
  then show ?case
    using Cons.IH [OF rest] Cons.prems(2) by (auto simp: kv save_one_setting_get [OF one] split: option.split)
qed simp

section \<open>Properties\<close>

text \<open>
  C33. Once the panel has listed its settings, saving is reading back: every setting named in the
  request, apart from the configuration document, has its new value (paths with a slash at both
  ends), and every other setting keeps the value it had.
\<close>

theorem settings_saved_and_read:
  assumes listed: "GetAllSetting env db = (shown, db1)"
    and data: "Option.bind (decode_map data) all_strings = Some kvs" "distinct (map fst kvs)"
    and save: "Settings_Save env db1 data = Inr db2"
    and k: "k \<in> fst ` set (defaultValueMap env)" "k \<noteq> ''config''"
  shows "getString env db2 k = (case map_of kvs k of Some v \<Rightarrow> Inr (normal_setting k v) | None \<Rightarrow> getString env db k)"
proof -
  have each: "eachr (save_one_setting env) kvs db1 = Inr db2" using save data(1) by (simp add: Settings_Save_def)
  obtain d where d: "map_of (defaultValueMap env) k = Some d" using k(1) by (cases "map_of (defaultValueMap env) k") (auto simp: map_of_eq_None_iff)
  have "getSetting (x\<lparr>db_Config := y\<rparr>) k = getSetting x k" for x y by (simp add: getSetting_def)
  then have db1: "getSetting db1 k = (case getSetting db k of Some v \<Rightarrow> Some v | None \<Rightarrow> Some d)"
    using listed d by (auto simp: GetAllSetting_def Let_def add_missing_all split: if_splits option.split)
  show ?thesis
    using save_settings_get [OF each data(2), of k] k(2) db1 d by (auto simp: getString_def split: option.splits)
qed

text \<open>
  Right after a reset the table of settings is empty, and until something recreates the rows a
  successful save of settings or of the configuration stores nothing: every setting still reads
  as its default and there is still no configuration document.
\<close>

theorem save_after_reset_is_lost:
  assumes "Settings_Save env (ResetSettings db) data = Inr db1" "SaveConfig config (ResetSettings db) = Inr db2"
  shows "getString env db1 k = getString env (ResetSettings db) k \<and> db_Config db1 = None \<and> db_Config db2 = None"
proof -
  have one: "db_Settings x' = [] \<and> db_Config x' = None"
    if "save_one_setting env kv x = Inr x'" "db_Settings x = [] \<and> db_Config x = None" for kv x x'
    using that by (auto simp: save_one_setting_def update_setting_def Let_def NewError_def split: prod.splits if_splits)
  obtain kvs where "eachr (save_one_setting env) kvs (ResetSettings db) = Inr db1"
    using assms(1) by (auto simp: Settings_Save_def split: option.splits)
  then have "db_Settings db1 = [] \<and> db_Config db1 = None"
    by (rule eachr_invariant [where P = "\<lambda>x. db_Settings x = [] \<and> db_Config x = None"]) (simp add: ResetSettings_def, rule one)
  then show ?thesis using assms(2)
    by (auto simp: getString_def getSetting_def ResetSettings_def SaveConfig_def split: raw.splits)
qed

text \<open>
  The address of the subscriptions always carries the port, also when it is the default port
  of the protocol, because the text compared with it starts with a colon.
\<close>

theorem GetFinalSubURI_keeps_port:
  assumes "getString env db ''subURI'' = Inr []" "getString env db ''subPort'' = Inr port" "getString env db ''subPath'' = Inr path"
    and "st_AgentKey env \<notin> {''subURI'', ''subPort'', ''subPath''}"
  shows "\<exists>protocol\<in>{''http'', ''https''}. \<exists>h. fst (GetFinalSubURI env db host) = protocol @ ''://'' @ h @ '':'' @ port @ path"
proof -
  obtain shown db1 where g: "GetAllSetting env db = (shown, db1)" by (cases "GetAllSetting env db") auto
  have get: "map_of shown k = Some v"
    if "getString env db k = Inr v" "k \<in> {''subURI'', ''subPort'', ''subPath''}" for k v
  proof -
    have hide: "map_of (filter (\<lambda>(k, _). k \<notin> H) xs) k = (if k \<in> H then None else map_of xs k)" for xs :: "(string \<times> string) list" and H
      by (induction xs) auto
    have cfg: "db_Settings (x\<lparr>db_Config := y\<rparr>) = db_Settings x" for x y by simp
    have "k \<notin> hidden_settings env" using that(2) assms(4) by (auto simp: hidden_settings_def)
    then have "map_of shown k = getSetting (fold add_missing (defaultValueMap env) db) k"
      using g by (auto simp: GetAllSetting_def Let_def hide getSetting_def split: if_splits)
    then show ?thesis using that(1) by (auto simp: add_missing_all getString_def split: option.splits)
  qed
  show ?thesis
    using get [OF assms(1)] get [OF assms(2)] get [OF assms(3)] by (auto simp: GetFinalSubURI_def g Let_def)
qed

section \<open>Concrete runs\<close>

definition example_settings :: setting_env where
  "example_settings = \<lparr>st_Secret = ''s3cret'', st_Version = ''1.0'', st_AgentKey = ''agentEnrollment'', st_FileExists = (\<lambda>_. True)\<rparr>"

theorem settings_saved_and_read_witness:
  "\<exists>db2. Settings_Save example_settings (snd (GetAllSetting example_settings empty_db))
      (RVal (GMap [(''webPath'', GStr ''panel''), (''subPort'', GStr ''80'')])) = Inr db2
    \<and> getString example_settings db2 ''webPath'' = Inr ''/panel/''"
proof -
  let ?data = "RVal (GMap [(''webPath'', GStr ''panel''), (''subPort'', GStr ''80'')])"
  let ?save = "Settings_Save example_settings (snd (GetAllSetting example_settings empty_db)) ?data"
  have "\<not> isl ?save" by code_simp
  then obtain db2 where save: "?save = Inr db2" by (cases ?save) auto
  obtain shown db1 where g: "GetAllSetting example_settings empty_db = (shown, db1)" by (cases "GetAllSetting example_settings empty_db") auto
  have data: "Option.bind (decode_map ?data) all_strings = Some [(''webPath'', ''panel''), (''subPort'', ''80'')]" by code_simp
  have "''webPath'' \<in> fst ` set (defaultValueMap example_settings)" "slashed ''panel'' = ''/panel/''" by code_simp+
  then have "getString example_settings db2 ''webPath'' = Inr ''/panel/''"
    using settings_saved_and_read [OF g data, of db2 "''webPath''"] save g by (simp add: normal_setting_def path_settings_def)
  with save show ?thesis by blast
qed

theorem save_after_reset_is_lost_witness:
  "\<exists>db1. Settings_Save example_settings (ResetSettings empty_db) (RVal (GMap [(''subPort'', GStr ''80'')])) = Inr db1
    \<and> getString example_settings db1 ''subPort'' = Inr ''2096''"
proof -
  let ?save = "Settings_Save example_settings (ResetSettings empty_db) (RVal (GMap [(''subPort'', GStr ''80'')]))"
  have "\<not> isl ?save" "SaveConfig RNil (ResetSettings empty_db) = Inr (ResetSettings empty_db\<lparr>db_Config := None\<rparr>)" by code_simp+
  then obtain db1 where save: "?save = Inr db1" and cfg: "SaveConfig RNil (ResetSettings empty_db) = Inr (ResetSettings empty_db\<lparr>db_Config := None\<rparr>)"
    by (cases ?save) auto
  have "getString example_settings (ResetSettings empty_db) ''subPort'' = Inr ''2096''" by code_simp
  with save_after_reset_is_lost [OF save cfg, of "''subPort''"] save show ?thesis by auto
qed

definition port_80 :: panel_db where
  "port_80 = empty_db\<lparr>db_Settings := [(''subPort'', ''80'')]\<rparr>"

theorem GetFinalSubURI_keeps_port_witness:
  "\<exists>h. fst (GetFinalSubURI example_settings port_80 ''example.com'') = ''http://'' @ h @ '':80/sub/''
     \<or> fst (GetFinalSubURI example_settings port_80 ''example.com'') = ''https://'' @ h @ '':80/sub/''"
proof -
  have "getString example_settings port_80 ''subURI'' = Inr []" "getString example_settings port_80 ''subPort'' = Inr ''80''"
    "getString example_settings port_80 ''subPath'' = Inr ''/sub/''"
    "st_AgentKey example_settings \<notin> {''subURI'', ''subPort'', ''subPath''}" by code_simp+
  from GetFinalSubURI_keeps_port [OF this, of "''example.com''"] show ?thesis by auto
qed

end
