(* ===== verification/Agent_Nodes.thy ===== *)
theory Agent_Nodes
  imports Agent_Hub Settings_Service Go_Base64
begin

text \<open>
  The managed servers of the panel (\<^verbatim>\<open>service/agent.go\<close>): their rows with hashed tokens and pairing
  codes, enrollment, heartbeats and what is shown of them. The digest (SHA-256 in hexadecimal)
  is the argument \<open>h\<close>; the bytes the random source delivers are arguments too, an error of it
  \<open>Inl\<close>. Clock readings are in seconds where the code takes \<open>Unix()\<close>. The report is kept as the
  record it is decoded to, not as its JSON text. The caches of the host's requirements are left
  out, they are only shown.
\<close>

section \<open>Rows\<close>

text \<open>The fields of a report the panel reads.\<close>

record agent_report =
  rp_Hostname :: string
  rp_OS :: string
  rp_Arch :: string
  rp_AgentVersion :: string
  rp_CPUPercent :: rat
  rp_Memory :: "nat \<times> nat"
  rp_Swap :: "nat \<times> nat"
  rp_Disk :: "nat \<times> nat"
  rp_NetRate :: "nat \<times> nat"
  rp_ProcessCount :: int
  rp_ControlAvailable :: bool
  rp_ConnMode :: string

definition no_report :: agent_report where
  "no_report = \<lparr>rp_Hostname = [], rp_OS = [], rp_Arch = [], rp_AgentVersion = [], rp_CPUPercent = 0, rp_Memory = (0, 0),
     rp_Swap = (0, 0), rp_Disk = (0, 0), rp_NetRate = (0, 0), rp_ProcessCount = 0, rp_ControlAvailable = False, rp_ConnMode = []\<rparr>"

record agent_node =
  an_Id :: nat
  an_Name :: string
  an_TokenHash :: string
  an_PairCodeHash :: string
  an_PairExpiresAt :: int
  an_CreatedAt :: int
  an_LastSeen :: int
  an_RemoteIP :: string
  an_PublicHost :: string
  an_Version :: string
  an_Report :: agent_report

record metric_sample =
  ms_Time :: int
  ms_CPUPercent :: rat
  ms_MemPercent :: rat
  ms_SwapPercent :: rat
  ms_DiskPercent :: rat
  ms_ProcessCount :: int
  ms_NetSent :: nat
  ms_NetRecv :: nat

record agent_panel =
  ap_Nodes :: "agent_node table"
  ap_History :: "nat \<Rightarrow> metric_sample list"
  ap_Hub :: agent_hub

definition node_with_id :: "nat \<Rightarrow> agent_node \<Rightarrow> agent_node" where
  "node_with_id k n = n\<lparr>an_Id := k\<rparr>"

interpretation agent_nodes: tagged_table an_Id node_with_id an_TokenHash
  by unfold_locales (simp_all add: node_with_id_def)

section \<open>Names, hosts and tokens\<close>

text \<open>Runes of valid UTF-8: every byte that does not continue one; the control characters of Latin-1.\<close>

definition rune_count :: "string \<Rightarrow> nat" where
  "rune_count s = length (filter (\<lambda>c. \<not> (128 \<le> byte c \<and> byte c < 192)) s)"

fun has_control :: "string \<Rightarrow> bool" where
  "has_control [] = False"
| "has_control [c] = (byte c < 32 \<or> byte c = 127)"
| "has_control (c # d # s) = (byte c < 32 \<or> byte c = 127 \<or> (byte c = 194 \<and> 128 \<le> byte d \<and> byte d < 160) \<or> has_control (d # s))"

definition normalizeAgentName :: "string \<Rightarrow> string result" where
  "normalizeAgentName v =
     (let value = TrimSpace v in
      if value = [] \<or> rune_count value > 80 then NewError ''agent name must contain 1-80 characters''
      else if has_control value then NewError ''agent name contains control characters''
      else Inr value)"

definition normalizeAgentPublicHost :: "string \<Rightarrow> string result" where
  "normalizeAgentPublicHost v =
     (let value = TrimSpace v in
      if value = [] then Inr []
      else if length value > 255 \<or> ContainsAny value ('' /?#@'' @ [CHR 0x09, CHR 0x0D, CHR 0x0A]) then
        NewError ''public host must be a hostname or IP address without scheme, path, or port''
      else let bare = (if HasPrefix value ''['' \<and> HasSuffix value '']'' then TrimSuffix (TrimPrefix value ''['') '']'' else value)
           in if Contains bare '':'' \<and> (ParseAddr bare = None \<or> Contains bare ''%'') then NewError ''public host must not include a port''
              else if has_control bare then NewError ''public host contains control characters''
              else Inr bare)"

text \<open>\<open>base64.RawURLEncoding\<close> of the random bytes, and the digest that is stored.\<close>

definition newAgentToken :: "(string \<Rightarrow> string) \<Rightarrow> string result \<Rightarrow> (string \<times> string) result" where
  "newAgentToken h random =
     (case random of
        Inl e \<Rightarrow> Inl (''generate agent token: '' @ e)
      | Inr raw \<Rightarrow> (let token = takeWhile (\<lambda>c. c \<noteq> CHR ''='') (b64_encode b64_url raw) in Inr (token, h token)))"

definition validAgentCredential :: "string \<Rightarrow> bool" where
  "validAgentCredential v \<longleftrightarrow> 32 \<le> length v \<and> length v \<le> 128
     \<and> list_all (\<lambda>c. (CHR ''a'' \<le> c \<and> c \<le> CHR ''z'') \<or> (CHR ''A'' \<le> c \<and> c \<le> CHR ''Z'') \<or> (CHR ''0'' \<le> c \<and> c \<le> CHR ''9'')
          \<or> c = CHR ''_'' \<or> c = CHR ''-'') v"

section \<open>What is shown\<close>

record agent_view =
  vw_Node :: agent_node
  vw_Online :: bool
  vw_ConnMode :: string
  vw_WSConnected :: bool
  vw_Controllable :: bool
  vw_Managed :: bool
  vw_Latency :: latency_view
  vw_History :: "metric_sample list"
  vw_Commands :: "command_log list"

text \<open>The reading \<open>now\<close> is in milliseconds here, the window 45 seconds.\<close>

definition agentNodeView :: "agent_panel \<Rightarrow> agent_node \<Rightarrow> int \<Rightarrow> bool \<Rightarrow> agent_view" where
  "agentNodeView p n now withHistory =
     (let live = IsWSConnected (an_Id n) (ap_Hub p)
      in \<lparr>vw_Node = n, vw_Online = (an_LastSeen n > 0 \<and> now - an_LastSeen n * 1000 \<le> 45000),
          vw_ConnMode = rp_ConnMode (an_Report n), vw_WSConnected = live, vw_Controllable = live,
          vw_Managed = (live \<and> rp_ControlAvailable (an_Report n)),
          vw_Latency = getAgentLatency (hb_Latencies (ap_Hub p) (an_Id n)),
          vw_History = (if withHistory then ap_History p (an_Id n) else []), vw_Commands = []\<rparr>)"

definition AgentService_List :: "agent_panel \<Rightarrow> int \<Rightarrow> agent_view list" where
  "AgentService_List p now =
     map (\<lambda>n. agentNodeView p n now False) (sort_key (\<lambda>n. map byte (an_Name n)) (tb_Rows (ap_Nodes p)))"

definition AgentService_Get :: "agent_panel \<Rightarrow> int \<Rightarrow> nat \<Rightarrow> agent_view result" where
  "AgentService_Get p now k =
     (case find_row an_Id k (ap_Nodes p) of
        None \<Rightarrow> Inl ''record not found''
      | Some n \<Rightarrow> Inr ((agentNodeView p n now True)\<lparr>vw_Commands := hb_Logs (ap_Hub p) k\<rparr>))"

section \<open>Enrollment\<close>

record enrollment =
  en_Node :: agent_node
  en_Token :: string
  en_PairCode :: string
  en_PairExpiresAt :: int

definition meetsClusterRequirements :: "int \<Rightarrow> int \<Rightarrow> bool" where
  "meetsClusterRequirements cpu mem \<longleftrightarrow> cpu \<ge> 2 \<and> mem \<ge> 2147483648"

definition requirement_error :: "int \<Rightarrow> int \<Rightarrow> 'a result" where
  "requirement_error cpu mem =
     NewErrorf (''server monitoring requires at least 2 CPU cores and 2 GiB memory; current host: '' @ Itoa cpu @ '' CPU cores / ''
       @ float_str (of_int mem / 1073741824) @ '' GiB'')"

text \<open>Creating a node; the second random value is only drawn for a pairing code.\<close>

definition create_node ::
  "(string \<Rightarrow> string) \<Rightarrow> int \<Rightarrow> int \<times> int \<Rightarrow> string result \<Rightarrow> string result \<Rightarrow> string \<Rightarrow> bool \<Rightarrow> agent_panel \<Rightarrow> (enrollment \<times> agent_panel) result" where
  "create_node h now capacity random1 random2 name0 includePairing p =
     bindr (normalizeAgentName name0) (\<lambda>name.
       if \<not> meetsClusterRequirements (fst capacity) (snd capacity) then requirement_error (fst capacity) (snd capacity)
       else bindr (newAgentToken h random1) (\<lambda>(token, hash).
         bindr (if includePairing then newAgentToken h random2 else Inr ([], [])) (\<lambda>(pairCode, pairHash).
           let expires = (if includePairing then now + 900 else 0);
               n = \<lparr>an_Id = 0, an_Name = name, an_TokenHash = hash, an_PairCodeHash = pairHash, an_PairExpiresAt = expires,
                    an_CreatedAt = now, an_LastSeen = 0, an_RemoteIP = [], an_PublicHost = [], an_Version = [], an_Report = no_report\<rparr>
           in bindr (save_tagged an_Id node_with_id an_TokenHash n (ap_Nodes p)) (\<lambda>(n1, t).
                Inr (\<lparr>en_Node = n1, en_Token = token, en_PairCode = pairCode, en_PairExpiresAt = expires\<rparr>, p\<lparr>ap_Nodes := t\<rparr>)))))"

text \<open>An update of one row; the token digest is a unique column.\<close>

definition update_node :: "agent_node \<Rightarrow> agent_panel \<Rightarrow> agent_panel result" where
  "update_node n p =
     (if tag_taken an_Id an_TokenHash n (ap_Nodes p) then Inl ''UNIQUE constraint failed''
      else Inr (p\<lparr>ap_Nodes := update_rows (\<lambda>x. an_Id x = an_Id n) (\<lambda>_. n) (ap_Nodes p)\<rparr>))"

definition Rotate ::
  "(string \<Rightarrow> string) \<Rightarrow> int \<Rightarrow> string result \<Rightarrow> string result \<Rightarrow> nat \<Rightarrow> agent_panel \<Rightarrow> (enrollment \<times> agent_panel) result" where
  "Rotate h now random1 random2 k p =
     (case find_row an_Id k (ap_Nodes p) of
        None \<Rightarrow> Inl ''record not found''
      | Some n \<Rightarrow>
          bindr (newAgentToken h random1) (\<lambda>(token, hash).
            bindr (newAgentToken h random2) (\<lambda>(pairCode, pairHash).
              let n1 = n\<lparr>an_TokenHash := hash, an_PairCodeHash := pairHash, an_PairExpiresAt := now + 900, an_LastSeen := 0\<rparr>
              in bindr (update_node n1 p) (\<lambda>p1.
                   Inr (\<lparr>en_Node = n1, en_Token = token, en_PairCode = pairCode, en_PairExpiresAt = now + 900\<rparr>, p1)))))"

definition pairing_error :: "'a result" where
  "pairing_error = NewError ''invalid or expired agent pairing code''"

definition ConsumePairingCode ::
  "(string \<Rightarrow> string) \<Rightarrow> int \<Rightarrow> string result \<Rightarrow> string \<Rightarrow> agent_panel \<Rightarrow> (enrollment \<times> agent_panel) result" where
  "ConsumePairingCode h now random code0 p =
     (let code = TrimSpace code0 in
      if code = [] then NewError ''missing agent pairing code''
      else if length code < 32 \<or> length code > 128 then pairing_error
      else bindr (newAgentToken h random) (\<lambda>(token, hash).
        case find (\<lambda>n. an_PairCodeHash n = h code \<and> an_PairExpiresAt n \<ge> now) (tb_Rows (ap_Nodes p)) of
          None \<Rightarrow> pairing_error
        | Some n \<Rightarrow>
            let n1 = n\<lparr>an_TokenHash := hash, an_PairCodeHash := [], an_PairExpiresAt := 0, an_LastSeen := 0\<rparr>
            in bindr (update_node n1 p) (\<lambda>p1.
                 Inr (\<lparr>en_Node = n1, en_Token = token, en_PairCode = [], en_PairExpiresAt = 0\<rparr>, p1))))"

definition AgentService_Update :: "nat \<Rightarrow> string \<Rightarrow> string \<Rightarrow> agent_panel \<Rightarrow> (agent_node \<times> agent_panel) result" where
  "AgentService_Update k name0 host0 p =
     bindr (normalizeAgentName name0) (\<lambda>name.
       bindr (normalizeAgentPublicHost host0) (\<lambda>host.
         case find_row an_Id k (ap_Nodes p) of
           None \<Rightarrow> Inl ''record not found''
         | Some n \<Rightarrow> (let n1 = n\<lparr>an_Name := name, an_PublicHost := host\<rparr> in bindr (update_node n1 p) (\<lambda>p1. Inr (n1, p1)))))"

text \<open>The session of a deleted node stays.\<close>

definition AgentService_Delete :: "nat \<Rightarrow> agent_panel \<Rightarrow> agent_panel result" where
  "AgentService_Delete k p =
     (if find_row an_Id k (ap_Nodes p) = None then NewError ''agent node not found''
      else Inr (p\<lparr>ap_Nodes := delete_rows (\<lambda>n. an_Id n = k) (ap_Nodes p), ap_History := (ap_History p)(k := []),
             ap_Hub := (ap_Hub p)\<lparr>hb_Live := removeAll k (hb_Live (ap_Hub p)), hb_Logs := (hb_Logs (ap_Hub p))(k := []),
               hb_Latencies := (hb_Latencies (ap_Hub p))(k := [])\<rparr>\<rparr>))"

section \<open>Heartbeats\<close>

definition usage_percent :: "nat \<times> nat \<Rightarrow> rat" where
  "usage_percent u = (if snd u > 0 then of_nat (fst u) * 100 / of_nat (snd u) else 0)"

definition appendAgentHistory :: "int \<Rightarrow> nat \<Rightarrow> agent_report \<Rightarrow> agent_panel \<Rightarrow> agent_panel" where
  "appendAgentHistory now k r p =
     p\<lparr>ap_History := (ap_History p)(k := keep_last 120 (ap_History p k @
         [\<lparr>ms_Time = now, ms_CPUPercent = rp_CPUPercent r, ms_MemPercent = usage_percent (rp_Memory r),
           ms_SwapPercent = usage_percent (rp_Swap r), ms_DiskPercent = usage_percent (rp_Disk r),
           ms_ProcessCount = rp_ProcessCount r, ms_NetSent = fst (rp_NetRate r), ms_NetRecv = snd (rp_NetRate r)\<rparr>]))\<rparr>"

definition find_token :: "(string \<Rightarrow> string) \<Rightarrow> string \<Rightarrow> agent_panel \<Rightarrow> agent_node option" where
  "find_token h token p = find (\<lambda>n. an_TokenHash n = h token) (tb_Rows (ap_Nodes p))"

definition AuthenticateToken :: "(string \<Rightarrow> string) \<Rightarrow> string \<Rightarrow> agent_panel \<Rightarrow> nat result" where
  "AuthenticateToken h token0 p =
     (let token = TrimSpace token0 in
      if token = [] then NewError ''missing agent token''
      else case find_token h token p of None \<Rightarrow> NewError ''invalid agent token'' | Some n \<Rightarrow> Inr (an_Id n))"

definition applyReport ::
  "(string \<Rightarrow> string) \<Rightarrow> int \<Rightarrow> string \<Rightarrow> string \<Rightarrow> agent_report \<Rightarrow> agent_panel \<Rightarrow> (nat \<times> agent_panel) result" where
  "applyReport h now token0 remoteIP r p =
     (let token = TrimSpace token0 in
      if token = [] then NewError ''missing agent token''
      else if length (rp_Hostname r) > 255 \<or> length (rp_AgentVersion r) > 64 \<or> length (rp_OS r) > 32 \<or> length (rp_Arch r) > 32
      then NewError ''invalid agent report''
      else if rp_ConnMode r \<noteq> [] \<and> rp_ConnMode r \<noteq> ''http'' \<and> rp_ConnMode r \<noteq> ''ws'' then NewError ''invalid agent conn_mode''
      else case find_token h token p of
        None \<Rightarrow> NewError ''invalid agent token''
      | Some n \<Rightarrow>
          bindr (update_node (n\<lparr>an_LastSeen := now, an_RemoteIP := TrimSpace remoteIP, an_Version := rp_AgentVersion r, an_Report := r\<rparr>) p)
            (\<lambda>p1. Inr (an_Id n, appendAgentHistory now (an_Id n) r p1)))"

text \<open>The server time and the interval of fifteen seconds.\<close>

definition Heartbeat ::
  "(string \<Rightarrow> string) \<Rightarrow> int \<Rightarrow> string \<Rightarrow> string \<Rightarrow> agent_report \<Rightarrow> agent_panel \<Rightarrow> ((int \<times> int) \<times> agent_panel) result" where
  "Heartbeat h now token remoteIP r p = bindr (applyReport h now token remoteIP r p) (\<lambda>(_, p1). Inr ((now, 15), p1))"

section \<open>The enrollment key\<close>

definition RotateAgentEnrollmentKey :: "(string \<Rightarrow> string) \<Rightarrow> string result \<Rightarrow> panel_db \<Rightarrow> (string \<times> panel_db) result" where
  "RotateAgentEnrollmentKey h random db =
     bindr (newAgentToken h random) (\<lambda>(token, hash). Inr (token, saveSetting ''agentEnrollmentKeyHash'' hash db))"

definition ValidateAgentEnrollmentKey :: "(string \<Rightarrow> string) \<Rightarrow> setting_env \<Rightarrow> string \<Rightarrow> panel_db \<Rightarrow> unit result" where
  "ValidateAgentEnrollmentKey h env token0 db =
     (let token = TrimSpace token0; refused = NewError ''invalid controller enrollment key'' in
      if \<not> validAgentCredential token then refused
      else case getString env db ''agentEnrollmentKeyHash'' of
        Inl e \<Rightarrow> refused
      | Inr expected \<Rightarrow> if length expected \<noteq> 64 \<or> h token \<noteq> expected then refused else Inr ())"

end
