(* ===== verification/Agent_Pairing.thy ===== *)
theory Agent_Pairing
  imports Agent_Nodes
begin

text \<open>
  Pairing codes and tokens over the life of the panel. The operations on the managed servers are a
  step relation that remembers every digest ever issued; a new random value has a digest that
  was not issued before. A code buys one token, once.
\<close>

definition token_of :: "string \<Rightarrow> string" where
  "token_of raw = takeWhile (\<lambda>c. c \<noteq> CHR ''='') (b64_encode b64_url raw)"

lemma newAgentToken_Inr [simp]: "newAgentToken h (Inr raw) = Inr (token_of raw, h (token_of raw))"
  by (simp add: newAgentToken_def token_of_def Let_def)

lemma token_of_chars:
  assumes "raw \<noteq> []"
  shows "token_of raw \<noteq> []" "TrimSpace (token_of raw) = token_of raw"
proof -
  have sub: "set (token_of raw) \<subseteq> set b64_url"
    using b64_encode_chars [of b64_url raw] set_takeWhileD unfolding token_of_def by fastforce
  have "list_all (\<lambda>c. \<not> is_space c) b64_url" by code_simp
  then have "list_all (\<lambda>c. \<not> is_space c) (token_of raw)" using sub by (auto simp: list_all_iff)
  then show "TrimSpace (token_of raw) = token_of raw"
    by (simp add: TrimSpace_def trim_by_none list_all_iff)
  obtain c x y zs where r: "b64_encode b64_url raw = b64_digit b64_url (byte c div 4) # zs"
    using assms by (cases "(b64_url, raw)" rule: b64_encode.cases) auto
  have "byte c div 4 < 64" "0 \<le> byte c div 4" using byte_bounds by (auto simp: byte_range)
  then have "b64_digit b64_url (byte c div 4) \<in> set b64_url" by (intro b64_digit_mem) simp_all
  moreover have "CHR ''='' \<notin> set b64_url" by (intro b64_alphabet) simp
  ultimately have "b64_digit b64_url (byte c div 4) \<noteq> CHR ''=''" by metis
  then show "token_of raw \<noteq> []" by (simp add: token_of_def r)
qed

inductive agent_op :: "(string \<Rightarrow> string) \<Rightarrow> agent_panel \<times> string set \<Rightarrow> agent_panel \<times> string set \<Rightarrow> bool" for h where
  created: "create_node h now cap (Inr r1) (Inr r2) name pairing p = Inr (e, p') \<Longrightarrow> h (token_of r1) \<notin> used \<Longrightarrow>
    h (token_of r2) \<notin> used \<Longrightarrow> h (token_of r1) \<noteq> h (token_of r2) \<Longrightarrow>
    agent_op h (p, used) (p', {h (token_of r1), h (token_of r2)} \<union> used)"
| rotated: "Rotate h now (Inr r1) (Inr r2) k p = Inr (e, p') \<Longrightarrow> h (token_of r1) \<notin> used \<Longrightarrow>
    h (token_of r2) \<notin> used \<Longrightarrow> h (token_of r1) \<noteq> h (token_of r2) \<Longrightarrow>
    agent_op h (p, used) (p', {h (token_of r1), h (token_of r2)} \<union> used)"
| paired: "ConsumePairingCode h now (Inr r1) code p = Inr (e, p') \<Longrightarrow> h (token_of r1) \<notin> used \<Longrightarrow>
    agent_op h (p, used) (p', insert (h (token_of r1)) used)"
| updated: "AgentService_Update k name host p = Inr (n, p') \<Longrightarrow> agent_op h (p, used) (p', used)"
| deleted: "AgentService_Delete k p = Inr p' \<Longrightarrow> agent_op h (p, used) (p', used)"
| reported: "applyReport h now token ip r p = Inr (k, p') \<Longrightarrow> agent_op h (p, used) (p', used)"

definition no_nodes :: "agent_panel" where
  "no_nodes = \<lparr>ap_Nodes = empty_table, ap_History = (\<lambda>_. []), ap_Hub = empty_hub\<rparr>"

section \<open>The rows after an operation\<close>

abbreviation nodes_of :: "agent_panel \<Rightarrow> agent_node set" where
  "nodes_of p \<equiv> set (tb_Rows (ap_Nodes p))"

text \<open>Every digest in the table was issued, and a pairing code belongs to one node.\<close>

definition issued_ok :: "agent_panel \<times> string set \<Rightarrow> bool" where
  "issued_ok s \<longleftrightarrow> (\<forall>n\<in>nodes_of (fst s). an_TokenHash n \<in> snd s \<and> (an_PairCodeHash n = [] \<or> an_PairCodeHash n \<in> snd s))
     \<and> (\<forall>n\<in>nodes_of (fst s). \<forall>m\<in>nodes_of (fst s). an_PairCodeHash n = an_PairCodeHash m \<longrightarrow>
          an_PairCodeHash n = [] \<or> an_Id n = an_Id m)"

definition spent :: "string \<Rightarrow> agent_panel \<times> string set \<Rightarrow> bool" where
  "spent q s \<longleftrightarrow> q \<in> snd s \<and> (\<forall>n\<in>nodes_of (fst s). an_PairCodeHash n \<noteq> q)"

text \<open>
  The shape of every operation: one row \<open>n\<close> is new or replaces the one of its key, with digests
  that are kept or new.
\<close>

definition one_row :: "agent_panel \<times> string set \<Rightarrow> agent_panel \<times> string set \<Rightarrow> agent_node \<Rightarrow> bool" where
  "one_row s s' n \<longleftrightarrow> snd s \<subseteq> snd s' \<and> nodes_of (fst s') \<subseteq> insert n {x \<in> nodes_of (fst s). an_Id x \<noteq> an_Id n}
     \<and> an_TokenHash n \<in> snd s'
     \<and> (an_PairCodeHash n = [] \<or> (an_PairCodeHash n \<in> snd s' - snd s)
        \<or> (\<exists>m\<in>nodes_of (fst s). an_Id m = an_Id n \<and> an_PairCodeHash m = an_PairCodeHash n))"

lemma one_row_issued:
  assumes "issued_ok s" "one_row s s' n"
  shows "issued_ok s'"
proof -
  have new: "nodes_of (fst s') \<subseteq> insert n {x \<in> nodes_of (fst s). an_Id x \<noteq> an_Id n}" and u: "snd s \<subseteq> snd s'"
    and t: "an_TokenHash n \<in> snd s'"
    and p: "an_PairCodeHash n = [] \<or> (an_PairCodeHash n \<in> snd s' - snd s)
        \<or> (\<exists>m\<in>nodes_of (fst s). an_Id m = an_Id n \<and> an_PairCodeHash m = an_PairCodeHash n)"
    using assms(2) by (simp_all add: one_row_def)
  have old: "an_TokenHash x \<in> snd s" "an_PairCodeHash x = [] \<or> an_PairCodeHash x \<in> snd s" if "x \<in> nodes_of (fst s)" for x
    using assms(1) that by (simp_all add: issued_ok_def)
  have one: "an_Id x = an_Id y" if "x \<in> nodes_of (fst s)" "y \<in> nodes_of (fst s)" "an_PairCodeHash x = an_PairCodeHash y"
    "an_PairCodeHash x \<noteq> []" for x y
    using assms(1) that unfolding issued_ok_def by blast
  have pn: "an_PairCodeHash n = [] \<or> an_PairCodeHash n \<in> snd s'" using p old(2) u by fastforce
  have alone: "an_PairCodeHash n \<noteq> an_PairCodeHash x"
    if x: "x \<in> nodes_of (fst s)" "an_Id x \<noteq> an_Id n" "an_PairCodeHash n \<noteq> []" for x
  proof
    assume e: "an_PairCodeHash n = an_PairCodeHash x"
    then have "an_PairCodeHash n \<in> snd s" using old(2) [OF x(1)] x(3) by simp
    then obtain m where m: "m \<in> nodes_of (fst s)" "an_Id m = an_Id n" "an_PairCodeHash m = an_PairCodeHash n"
      using p x(3) by auto
    then show False using one [OF m(1) x(1)] e x(2,3) by simp
  qed
  show ?thesis
    unfolding issued_ok_def
  proof (intro conjI ballI impI)
    fix x
    assume "x \<in> nodes_of (fst s')"
    then have "x = n \<or> x \<in> nodes_of (fst s)" using new by blast
    then show "an_TokenHash x \<in> snd s'" "an_PairCodeHash x = [] \<or> an_PairCodeHash x \<in> snd s'"
      using t pn old u by blast+
  next
    fix x y
    assume "x \<in> nodes_of (fst s')" "y \<in> nodes_of (fst s')" and e: "an_PairCodeHash x = an_PairCodeHash y"
    then have "x = n \<or> x \<in> nodes_of (fst s) \<and> an_Id x \<noteq> an_Id n" "y = n \<or> y \<in> nodes_of (fst s) \<and> an_Id y \<noteq> an_Id n"
      using new by blast+
    then show "an_PairCodeHash x = [] \<or> an_Id x = an_Id y" using alone one e by metis
  qed
qed

lemma one_row_spent:
  assumes "one_row s s' n" "spent q s" "q \<noteq> []"
  shows "spent q s'"
  using assms unfolding one_row_def spent_def by blast

lemma node_updated:
  assumes "update_node n p = Inr p'"
  shows "nodes_of p' \<subseteq> insert n {x \<in> nodes_of p. an_Id x \<noteq> an_Id n}"
    "m \<in> nodes_of p \<Longrightarrow> an_Id m = an_Id n \<Longrightarrow> n \<in> nodes_of p'"
  using assms by (auto simp: update_node_def update_rows_def split: if_splits)

lemma find_row_mem: "find_row an_Id k t = Some n \<Longrightarrow> n \<in> set (tb_Rows t)"
  unfolding find_row_def by (drule find_Some_mem) simp

lemma agent_op_row:
  assumes "agent_op h s s'" "issued_ok s"
  shows "(\<exists>n. one_row s s' n) \<or> (nodes_of (fst s') \<subseteq> nodes_of (fst s) \<and> snd s' = snd s)"
  using assms(1)
proof cases
  case (created now cap r1 r2 name pairing p e p' used)
  define n0 where "n0 nm = \<lparr>an_Id = 0, an_Name = nm, an_TokenHash = h (token_of r1),
    an_PairCodeHash = (if pairing then h (token_of r2) else []), an_PairExpiresAt = (if pairing then now + 900 else 0),
    an_CreatedAt = now, an_LastSeen = 0, an_RemoteIP = [], an_PublicHost = [], an_Version = [], an_Report = no_report\<rparr>" for nm
  obtain nm n1 t where sv: "save_tagged an_Id node_with_id an_TokenHash (n0 nm) (ap_Nodes p) = Inr (n1, t)"
    and p': "p' = p\<lparr>ap_Nodes := t\<rparr>"
    using created(3) by (cases pairing) (auto simp: create_node_def requirement_error_def bindr_Inr_iff Let_def n0_def split: if_splits)
  have n0: "an_TokenHash (n0 nm) = h (token_of r1)" "an_PairCodeHash (n0 nm) = (if pairing then h (token_of r2) else [])"
    by (simp_all add: n0_def)
  have "n1 = keyed an_Id node_with_id (ap_Nodes p) (n0 nm)" "t = save_row an_Id node_with_id (n0 nm) (ap_Nodes p)"
    using sv by (auto simp: agent_nodes.save_tagged_Inr)
  then have "nodes_of p' \<subseteq> insert n1 {x \<in> nodes_of p. an_Id x \<noteq> an_Id n1}" "an_TokenHash n1 = h (token_of r1)"
    "an_PairCodeHash n1 = (if pairing then h (token_of r2) else [])"
    using n0 by (auto simp: p' agent_nodes.save_rows keyed_def node_with_id_def)
  then have "one_row s s' n1" using created by (auto simp: one_row_def)
  then show ?thesis by blast
next
  case (rotated now r1 r2 k p e p' used)
  obtain n where n: "find_row an_Id k (ap_Nodes p) = Some n"
    "update_node (n\<lparr>an_TokenHash := h (token_of r1), an_PairCodeHash := h (token_of r2), an_PairExpiresAt := now + 900, an_LastSeen := 0\<rparr>) p = Inr p'"
    using rotated(3) by (auto simp: Rotate_def bindr_Inr_iff Let_def split: option.splits)
  then have "one_row s s' (n\<lparr>an_TokenHash := h (token_of r1), an_PairCodeHash := h (token_of r2), an_PairExpiresAt := now + 900, an_LastSeen := 0\<rparr>)"
    using node_updated(1) [OF n(2)] rotated by (simp add: one_row_def) blast
  then show ?thesis by blast
next
  case (paired now r1 code p e p' used)
  obtain n where n: "update_node (n\<lparr>an_TokenHash := h (token_of r1), an_PairCodeHash := [], an_PairExpiresAt := 0, an_LastSeen := 0\<rparr>) p = Inr p'"
    using paired(3) by (auto simp: ConsumePairingCode_def pairing_error_def bindr_Inr_iff Let_def split: option.splits if_splits)
  then have "one_row s s' (n\<lparr>an_TokenHash := h (token_of r1), an_PairCodeHash := [], an_PairExpiresAt := 0, an_LastSeen := 0\<rparr>)"
    using node_updated(1) [OF n] paired by (simp add: one_row_def) blast
  then show ?thesis by blast
next
  case (updated k name host p n p' used)
  obtain m nm ho where n: "find_row an_Id k (ap_Nodes p) = Some m" "n = m\<lparr>an_Name := nm, an_PublicHost := ho\<rparr>" "update_node n p = Inr p'"
    using updated(3) by (auto simp: AgentService_Update_def bindr_Inr_iff Let_def split: option.splits)
  then have "one_row s s' n"
    using node_updated(1) [OF n(3)] find_row_mem [OF n(1)] assms(2) updated by (auto simp: one_row_def issued_ok_def)
  then show ?thesis by blast
next
  case (deleted k p p' used)
  then show ?thesis by (auto simp: AgentService_Delete_def delete_rows_def split: if_splits)
next
  case (reported now token ip r p k p' used)
  obtain m p1 where n: "find_token h (TrimSpace token) p = Some m"
    "update_node (m\<lparr>an_LastSeen := now, an_RemoteIP := TrimSpace ip, an_Version := rp_AgentVersion r, an_Report := r\<rparr>) p = Inr p1"
    "ap_Nodes p' = ap_Nodes p1"
    using reported(3) by (auto simp: applyReport_def appendAgentHistory_def bindr_Inr_iff Let_def split: option.splits if_splits)
  have "m \<in> nodes_of p" using n(1) find_Some_mem by (fastforce simp: find_token_def)
  then have "one_row s s' (m\<lparr>an_LastSeen := now, an_RemoteIP := TrimSpace ip, an_Version := rp_AgentVersion r, an_Report := r\<rparr>)"
    using node_updated(1) [OF n(2)] n(3) assms(2) reported by (auto simp: one_row_def issued_ok_def)
  then show ?thesis by blast
qed

lemma agent_op_issued: "agent_op h s s' \<Longrightarrow> issued_ok s \<Longrightarrow> issued_ok s'"
proof -
  assume a: "agent_op h s s'" "issued_ok s"
  from agent_op_row [OF a] show ?thesis
  proof
    assume "\<exists>n. one_row s s' n"
    then show ?thesis using one_row_issued [OF a(2)] by blast
  next
    assume s: "nodes_of (fst s') \<subseteq> nodes_of (fst s) \<and> snd s' = snd s"
    have "an_TokenHash n \<in> snd s \<and> (an_PairCodeHash n = [] \<or> an_PairCodeHash n \<in> snd s)" if "n \<in> nodes_of (fst s')" for n
      using a(2) s that unfolding issued_ok_def by blast
    moreover have "an_PairCodeHash n = [] \<or> an_Id n = an_Id m"
      if "n \<in> nodes_of (fst s')" "m \<in> nodes_of (fst s')" "an_PairCodeHash n = an_PairCodeHash m" for n m
      using a(2) s that unfolding issued_ok_def by blast
    ultimately show ?thesis using s by (simp add: issued_ok_def)
  qed
qed

lemma agent_op_spent: "agent_op h s s' \<Longrightarrow> issued_ok s \<Longrightarrow> spent q s \<Longrightarrow> q \<noteq> [] \<Longrightarrow> spent q s'"
  using agent_op_row [of h s s'] one_row_spent [of s s' _ q] unfolding spent_def by blast

lemma agent_run:
  assumes "(agent_op h)\<^sup>*\<^sup>* s s'" "issued_ok s"
  shows "issued_ok s'" "spent q s \<Longrightarrow> q \<noteq> [] \<Longrightarrow> spent q s'"
proof -
  have "issued_ok s' \<and> (spent q s \<longrightarrow> q \<noteq> [] \<longrightarrow> spent q s')"
    using assms(1) by (induction rule: rtranclp_induct) (use assms(2) agent_op_issued agent_op_spent in blast)+
  then show "issued_ok s'" "spent q s \<Longrightarrow> q \<noteq> [] \<Longrightarrow> spent q s'" by blast+
qed

lemma start_issued: "issued_ok (no_nodes, {})"
  by (simp add: issued_ok_def no_nodes_def empty_table_def)

text \<open>A successful exchange\<close>

lemma exchange:
  assumes ok: "issued_ok (p, used)" and x: "ConsumePairingCode h now (Inr raw) code p = Inr (e, p')"
    and fresh: "h (token_of raw) \<notin> used" and hash: "\<And>s. h s \<noteq> []" and raw: "raw \<noteq> []"
  shows "spent (h (TrimSpace code)) (p', insert (h (token_of raw)) used)"
    "AuthenticateToken h (en_Token e) p' = Inr (an_Id (en_Node e))"
    "AuthenticateToken h t p = Inr (an_Id (en_Node e)) \<Longrightarrow> AuthenticateToken h t p' \<noteq> Inr (an_Id (en_Node e))"
proof -
  let ?q = "h (TrimSpace code)" and ?new = "h (token_of raw)"
  obtain n where n: "find (\<lambda>n. an_PairCodeHash n = ?q \<and> an_PairExpiresAt n \<ge> now) (tb_Rows (ap_Nodes p)) = Some n"
    and e: "en_Node e = n\<lparr>an_TokenHash := ?new, an_PairCodeHash := [], an_PairExpiresAt := 0, an_LastSeen := 0\<rparr>" "en_Token e = token_of raw"
    and u: "update_node (en_Node e) p = Inr p'"
    using x by (auto simp: ConsumePairingCode_def pairing_error_def bindr_Inr_iff Let_def split: option.splits if_splits)
  note rows = node_updated [OF u]
  have m: "n \<in> nodes_of p" "an_PairCodeHash n = ?q" using find_Some_mem [OF n] by auto
  have "an_PairCodeHash n = [] \<or> an_PairCodeHash n \<in> used" using ok m(1) by (simp add: issued_ok_def)
  then have q: "?q \<in> used" "?q \<noteq> []" using m(2) hash [of "TrimSpace code"] by simp_all
  have "an_PairCodeHash y \<noteq> ?q" if "y \<in> nodes_of p'" for y
  proof -
    have "y = en_Node e \<or> y \<in> nodes_of p \<and> an_Id y \<noteq> an_Id n" using rows(1) that e by auto
    then show ?thesis
    proof
      assume "y = en_Node e"
      then show ?thesis using e q(2) by simp
    next
      assume "y \<in> nodes_of p \<and> an_Id y \<noteq> an_Id n"
      then show ?thesis using ok m q(2) unfolding issued_ok_def by (metis fst_conv)
    qed
  qed
  then show "spent ?q (p', insert ?new used)" using q(1) by (simp add: spent_def)
  have there: "en_Node e \<in> nodes_of p'" by (rule rows(2) [OF m(1)]) (simp add: e)
  have id: "an_Id y = an_Id (en_Node e)" if "y \<in> nodes_of p'" "an_TokenHash y = ?new" for y
  proof -
    have "an_TokenHash y \<in> used" if "y \<in> nodes_of p" for y using ok that by (simp add: issued_ok_def)
    then have "y \<notin> nodes_of p" using that(2) fresh by metis
    then show ?thesis using rows(1) that(1) by blast
  qed
  have "\<exists>y. find_token h (token_of raw) p' = Some y \<and> an_Id y = an_Id (en_Node e)"
  proof (cases "find_token h (token_of raw) p'")
    case None
    then have "an_TokenHash (en_Node e) \<noteq> ?new" using there by (simp add: find_token_def find_None_iff)
    then show ?thesis using e by simp
  next
    case (Some y)
    then show ?thesis using id find_Some_mem by (fastforce simp: find_token_def)
  qed
  then show "AuthenticateToken h (en_Token e) p' = Inr (an_Id (en_Node e))"
    using token_of_chars [OF raw] by (auto simp: AuthenticateToken_def Let_def e)
  assume a: "AuthenticateToken h t p = Inr (an_Id (en_Node e))"
  then obtain y where y: "find_token h (TrimSpace t) p = Some y" "TrimSpace t \<noteq> []"
    by (auto simp: AuthenticateToken_def Let_def split: if_splits option.splits)
  then have "h (TrimSpace t) \<in> used" using find_Some_mem ok by (fastforce simp: find_token_def issued_ok_def)
  then have old: "h (TrimSpace t) \<noteq> ?new" using fresh by metis
  show "AuthenticateToken h t p' \<noteq> Inr (an_Id (en_Node e))"
  proof
    assume "AuthenticateToken h t p' = Inr (an_Id (en_Node e))"
    then obtain z where z: "find_token h (TrimSpace t) p' = Some z" "an_Id z = an_Id (en_Node e)"
      by (auto simp: AuthenticateToken_def Let_def split: if_splits option.splits)
    then have "z \<in> nodes_of p'" "an_TokenHash z = h (TrimSpace t)" using find_Some_mem by (fastforce simp: find_token_def)+
    then have "z = en_Node e" using rows(1) z(2) by auto
    then show False using \<open>an_TokenHash z = h (TrimSpace t)\<close> old e by simp
  qed
qed

section \<open>Single use\<close>

text \<open>
  C15. A pairing code buys one token, once: after an exchange the new token is the one that
  authenticates as the node, no token that did so before does any longer, and whatever
  operations follow, the code is never accepted again.
\<close>

theorem pairing_code_single_use:
  assumes "\<And>s. h s \<noteq> []" "(agent_op h)\<^sup>*\<^sup>* (no_nodes, {}) (p, used)"
    and "ConsumePairingCode h now (Inr raw) code p = Inr (e, p1)" "h (token_of raw) \<notin> used" "raw \<noteq> []"
    and "(agent_op h)\<^sup>*\<^sup>* (p1, insert (h (token_of raw)) used) (p2, used2)"
  shows "AuthenticateToken h (en_Token e) p1 = Inr (an_Id (en_Node e))
    \<and> (\<forall>t. AuthenticateToken h t p = Inr (an_Id (en_Node e)) \<longrightarrow> AuthenticateToken h t p1 \<noteq> Inr (an_Id (en_Node e)))
    \<and> ConsumePairingCode h now2 (Inr raw2) code p2 = pairing_error"
proof -
  have ok: "issued_ok (p, used)" by (rule agent_run(1) [OF assms(2) start_issued])
  note x = exchange [OF ok assms(3,4) assms(1) assms(5)]
  have "agent_op h (p, used) (p1, insert (h (token_of raw)) used)" by (rule agent_op.paired [OF assms(3,4)])
  then have "issued_ok (p1, insert (h (token_of raw)) used)" using agent_op_issued ok by blast
  then have "spent (h (TrimSpace code)) (p2, used2)" using agent_run(2) [OF assms(6)] x(1) assms(1) by blast
  then have "find (\<lambda>n. an_PairCodeHash n = h (TrimSpace code) \<and> an_PairExpiresAt n \<ge> now2) (tb_Rows (ap_Nodes p2)) = None"
    by (auto simp: spent_def find_None_iff)
  moreover have "TrimSpace code \<noteq> []" "\<not> (length (TrimSpace code) < 32 \<or> length (TrimSpace code) > 128)"
    using assms(3) by (auto simp: ConsumePairingCode_def pairing_error_def Let_def split: if_splits)
  ultimately have "ConsumePairingCode h now2 (Inr raw2) code p2 = pairing_error"
    by (simp add: ConsumePairingCode_def Let_def)
  then show ?thesis using x(2,3) by blast
qed

text \<open>The whole text as digest: a node is created, and its code is exchanged.\<close>

theorem pairing_code_single_use_witness:
  "\<exists>p e p1. ConsumePairingCode (\<lambda>s. CHR ''h'' # s) 100 (Inr (replicate 32 (CHR ''c''))) (token_of (replicate 32 (CHR ''b''))) p = Inr (e, p1)
    \<and> AuthenticateToken (\<lambda>s. CHR ''h'' # s) (en_Token e) p1 = Inr 1
    \<and> ConsumePairingCode (\<lambda>s. CHR ''h'' # s) 101 (Inr (replicate 32 (CHR ''d''))) (token_of (replicate 32 (CHR ''b''))) p1 = pairing_error"
proof -
  let ?h = "\<lambda>s. CHR ''h'' # s" and ?a = "replicate 32 (CHR ''a'')" and ?b = "replicate 32 (CHR ''b'')" and ?c = "replicate 32 (CHR ''c'')"
  have "case create_node ?h 90 (2, 4294967296) (Inr ?a) (Inr ?b) ''edge'' True no_nodes of
      Inl x \<Rightarrow> False
    | Inr (e0, p) \<Rightarrow> (case ConsumePairingCode ?h 100 (Inr ?c) (token_of ?b) p of Inl x \<Rightarrow> False | Inr (e, p1) \<Rightarrow> an_Id (en_Node e) = 1)"
    by code_simp
  then obtain e0 p where c: "create_node ?h 90 (2, 4294967296) (Inr ?a) (Inr ?b) ''edge'' True no_nodes = Inr (e0, p)"
    and x0: "case ConsumePairingCode ?h 100 (Inr ?c) (token_of ?b) p of Inl x \<Rightarrow> False | Inr (e, p1) \<Rightarrow> an_Id (en_Node e) = 1"
    by (cases "create_node ?h 90 (2, 4294967296) (Inr ?a) (Inr ?b) ''edge'' True no_nodes") auto
  from x0 obtain e p1 where x: "ConsumePairingCode ?h 100 (Inr ?c) (token_of ?b) p = Inr (e, p1)" and k: "an_Id (en_Node e) = 1"
    by (cases "ConsumePairingCode ?h 100 (Inr ?c) (token_of ?b) p") auto
  have d: "token_of ?a \<noteq> token_of ?b" "token_of ?c \<noteq> token_of ?a" "token_of ?c \<noteq> token_of ?b" by code_simp+
  have "agent_op ?h (no_nodes, {}) (p, {?h (token_of ?a), ?h (token_of ?b)} \<union> {})"
    by (rule agent_op.created [OF c]) (use d in simp_all)
  then have r: "(agent_op ?h)\<^sup>*\<^sup>* (no_nodes, {}) (p, {?h (token_of ?a), ?h (token_of ?b)} \<union> {})" by (rule r_into_rtranclp)
  from pairing_code_single_use [OF _ r x _ _ rtranclp.rtrancl_refl, of 101 "replicate 32 (CHR ''d'')"] d k
  have "AuthenticateToken ?h (en_Token e) p1 = Inr 1" "ConsumePairingCode ?h 101 (Inr (replicate 32 (CHR ''d''))) (token_of ?b) p1 = pairing_error"
    by simp_all
  then show ?thesis using x by blast
qed

text \<open>Neither deleting a node nor giving it a new token ends its session.\<close>

lemma session_outlives_token:
  "AgentService_Delete k p = Inr p' \<Longrightarrow> hb_Sessions (ap_Hub p') = hb_Sessions (ap_Hub p)"
  "Rotate h now random1 random2 k p = Inr (e, p') \<Longrightarrow> ap_Hub p' = ap_Hub p"
  by (auto simp: AgentService_Delete_def Rotate_def update_node_def bindr_Inr_iff Let_def split: if_splits option.splits)

end
