(* ===== verification/Sub_Links.thy ===== *)
theory Sub_Links
  imports Link_Import Gen_Link Settings_Service
begin

text \<open>
  The subscription a client fetches as a list of links (\<^verbatim>\<open>sub/linkService.go\<close>,
  \<^verbatim>\<open>sub/subService.go\<close>, \<^verbatim>\<open>util/subInfo.go\<close>). Requests for other subscriptions are the argument
  \<open>http_get\<close>. The keys of a stored link are matched exactly.
\<close>

section \<open>Indented JSON\<close>

text \<open>\<open>json.MarshalIndent\<close> with two spaces for each level.\<close>

definition line_start :: "nat \<Rightarrow> string" where
  "line_start n = CHR 0x0A # replicate (2 * n) (CHR '' '')"

definition json_block :: "nat \<Rightarrow> string \<Rightarrow> string list \<Rightarrow> string \<Rightarrow> string" where
  "json_block n left ts right =
     (if ts = [] then left @ right
      else left @ line_start (Suc n) @ Join ts ('','' @ line_start (Suc n)) @ line_start n @ right)"

definition json_entries :: "(string \<times> string) list \<Rightarrow> string list" where
  "json_entries kvs = map (\<lambda>(k, t). json_quote k @ '': '' @ t) (sort_key fst kvs)"

fun json_Indent :: "nat \<Rightarrow> gval \<Rightarrow> string" where
  "json_Indent n (GList xs) = json_block n ''['' (map (json_Indent (Suc n)) xs) '']''"
| "json_Indent n (GStrs ss) = json_block n ''['' (map json_quote ss) '']''"
| "json_Indent n (GMap m) = json_block n ''{'' (json_entries (map (\<lambda>(k, v). (k, json_Indent (Suc n) v)) m)) ''}''"
| "json_Indent n (GMaps ms) = json_block n ''[''
     (map (\<lambda>m. json_block (Suc n) ''{'' (json_entries (map (\<lambda>(k, v). (k, json_Indent (Suc (Suc n)) v)) m)) ''}'') ms) '']''"
| "json_Indent n v = json_Marshal v"

definition json_MarshalIndent :: "gval \<Rightarrow> string" where
  "json_MarshalIndent v = json_Indent 0 v"

section \<open>Stored links\<close>

record sub_link =
  lk_Type :: string
  lk_Remark :: string
  lk_Uri :: string

definition string_field :: "gmap \<Rightarrow> string \<Rightarrow> string option" where
  "string_field m k = (case mget m k of GNil \<Rightarrow> Some [] | GStr s \<Rightarrow> Some s | _ \<Rightarrow> None)"

definition to_link :: "gmap \<Rightarrow> sub_link option" where
  "to_link m =
     (case (string_field m ''type'', string_field m ''remark'', string_field m ''uri'') of
        (Some t, Some r, Some u) \<Rightarrow> Some \<lparr>lk_Type = t, lk_Remark = r, lk_Uri = u\<rparr>
      | _ \<Rightarrow> None)"

definition decode_links :: "raw \<Rightarrow> sub_link list option" where
  "decode_links r = (case decode_maps r of
     None \<Rightarrow> None
   | Some ms \<Rightarrow> if list_all (\<lambda>m. to_link m \<noteq> None) ms then Some (map (\<lambda>m. the (to_link m)) ms) else None)"

text \<open>
  What a client application shows behind the name of a link. In a VMess link the name is the
  entry \<^verbatim>\<open>ps\<close>, which must be a string.
\<close>

definition vmess_with_info :: "string \<Rightarrow> string \<Rightarrow> string \<Rightarrow> string result" where
  "vmess_with_info uri data clientInfo =
     (case B64StrToByte data of
        None \<Rightarrow> Inr uri
      | Some config \<Rightarrow> (case json_to_map config of
          None \<Rightarrow> Inr uri
        | Some m \<Rightarrow> bindr (must_string (mget m ''ps'')) (\<lambda>ps.
            Inr (''vmess://'' @ ByteToB64Str (json_MarshalIndent (GMap (mput m ''ps'' (GStr (ps @ clientInfo)))))))))"

definition addClientInfo :: "string \<Rightarrow> string \<Rightarrow> string result" where
  "addClientInfo uri clientInfo =
     (if clientInfo = [] then Inr uri
      else case Cut uri ''://'' of
        None \<Rightarrow> Inr uri
      | Some (protocol, rest) \<Rightarrow>
          if protocol = ''vmess'' then vmess_with_info uri (case Cut rest ''://'' of None \<Rightarrow> rest | Some (a, _) \<Rightarrow> a) clientInfo
          else Inr (uri @ clientInfo))"

definition link_lines :: "(string \<Rightarrow> string option) \<Rightarrow> string \<Rightarrow> string \<Rightarrow> sub_link \<Rightarrow> string list result" where
  "link_lines http_get types clientInfo l =
     (if lk_Type l = ''external'' then Inr [lk_Uri l]
      else if lk_Type l = ''sub'' then Inr (Split (GetExternalLink http_get (lk_Uri l)) (CHR 0x0A))
      else if lk_Type l = ''local'' \<and> types = ''all'' then bindr (addClientInfo (lk_Uri l) clientInfo) (\<lambda>u. Inr [u])
      else Inr [])"

definition GetLinks :: "(string \<Rightarrow> string option) \<Rightarrow> raw \<Rightarrow> string \<Rightarrow> string \<Rightarrow> string list result" where
  "GetLinks http_get linkJson types clientInfo =
     (case decode_links linkJson of
        None \<Rightarrow> Inr []
      | Some links \<Rightarrow> bindr (mapr (link_lines http_get types clientInfo) links) (\<lambda>ls. Inr (concat ls)))"

section \<open>External outbounds\<close>

definition external_outbounds :: "(string \<Rightarrow> string option) \<Rightarrow> sub_link \<Rightarrow> (gmap \<times> string) list" where
  "external_outbounds http_get l =
     (if lk_Type l = ''external'' then
        (case GetOutbound (lk_Uri l) 0 of Inr (m, tag) \<Rightarrow> if tag = [] then [] else [(m, tag)] | Inl _ \<Rightarrow> [])
      else if lk_Type l = ''sub'' then
        (case GetExternalSub http_get (lk_Uri l) of
           Inl _ \<Rightarrow> []
         | Inr ms \<Rightarrow> map (\<lambda>m. (m, as_str (mget m ''tag''))) (filter (\<lambda>m. as_str (mget m ''tag'') \<noteq> []) ms))
      else [])"

text \<open>
  A tag that was seen before gets a number; the count is kept under the original tag, and the
  new tag is not compared with the others.
\<close>

fun number_tags :: "(string \<times> int) list \<Rightarrow> (gmap \<times> string) list \<Rightarrow> (gmap \<times> string) list" where
  "number_tags seen [] = []"
| "number_tags seen ((m, tag) # rest) =
     (case map_of seen tag of
        Some n \<Rightarrow> (let newTag = tag @ ''-'' @ Itoa n
                   in (mput m ''tag'' (GStr newTag), newTag) # number_tags (AList.update tag (n + 1) seen) rest)
      | None \<Rightarrow> (m, tag) # number_tags (AList.update tag 1 seen) rest)"

definition GetExternalOutbounds :: "(string \<Rightarrow> string option) \<Rightarrow> raw \<Rightarrow> (gmap \<times> string) list" where
  "GetExternalOutbounds http_get linkJson =
     (case decode_links linkJson of
        None \<Rightarrow> []
      | Some links \<Rightarrow> number_tags [] (concat (map (external_outbounds http_get) links)))"

section \<open>The client and its information\<close>

definition getClientBySubId :: "panel_db \<Rightarrow> string \<Rightarrow> client result" where
  "getClientBySubId db subId =
     (case find (\<lambda>c. cl_Enable c \<and> cl_Name c = subId) (tb_Rows (db_Clients db)) of
        None \<Rightarrow> Inl ''record not found'' | Some c \<Rightarrow> Inr c)"

text \<open>\<open>fmt.Sprintf("%.2f", f)\<close>\<close>

definition fmt_f2 :: "rat \<Rightarrow> string" where
  "fmt_f2 r =
     (let n = round_even (abs r * 100); text = Itoa (n div 100) @ ''.'' @ Itoa (n mod 100 div 10) @ Itoa (n mod 10)
      in if r < 0 then ''-'' @ text else text)"

definition formatTraffic :: "int \<Rightarrow> string" where
  "formatTraffic b =
     (if b < 1024 then fmt_f2 (of_int b) @ ''B''
      else if b < 1024 ^ 2 then fmt_f2 (of_int b / 1024) @ ''KB''
      else if b < 1024 ^ 3 then fmt_f2 (of_int b / 1024 ^ 2) @ ''MB''
      else if b < 1024 ^ 4 then fmt_f2 (of_int b / 1024 ^ 3) @ ''GB''
      else if b < 1024 ^ 5 then fmt_f2 (of_int b / 1024 ^ 4) @ ''TB''
      else fmt_f2 (of_int b / 1024 ^ 5) @ ''EB'')"

text \<open>Integer division truncates towards zero.\<close>

definition quot :: "int \<Rightarrow> int \<Rightarrow> int" where
  "quot a b = (if a < 0 then - (- a div b) else a div b)"

definition getClientInfo :: "int \<Rightarrow> client \<Rightarrow> string" where
  "getClientInfo now c =
     (let vol = cl_Volume c - (cl_Up c + cl_Down c);
          parts = (if vol > 0 then [formatTraffic vol] else [])
            @ (if cl_Expiry c > 0 then [Itoa (quot (cl_Expiry c - now) 86400) @ '' Days ''] else [])
      in '' '' @ Join parts '' '')"

definition GetHeaders :: "client \<Rightarrow> int \<Rightarrow> string list" where
  "GetHeaders c updateInterval =
     [''upload='' @ Itoa (cl_Up c) @ ''; download='' @ Itoa (cl_Down c) @ ''; total='' @ Itoa (cl_Volume c)
        @ ''; expire='' @ Itoa (cl_Expiry c), Itoa updateInterval, cl_Name c]"

text \<open>A setting that cannot be read counts as false, or zero.\<close>

definition setting_on :: "setting_env \<Rightarrow> panel_db \<Rightarrow> string \<Rightarrow> bool" where
  "setting_on env db k = (case getBool env db k of Inr b \<Rightarrow> b | Inl _ \<Rightarrow> False)"

definition sub_updates :: "setting_env \<Rightarrow> panel_db \<Rightarrow> int" where
  "sub_updates env db = (case getInt env db ''subUpdates'' of Inr n \<Rightarrow> n | Inl _ \<Rightarrow> 0)"

definition GetSubs :: "(string \<Rightarrow> string option) \<Rightarrow> setting_env \<Rightarrow> int \<Rightarrow> panel_db \<Rightarrow> string \<Rightarrow> (string \<times> string list) result" where
  "GetSubs http_get env now db subId =
     bindr (getClientBySubId db subId) (\<lambda>c.
       let clientInfo = (if setting_on env db ''subShowInfo'' then getClientInfo now c else [])
       in bindr (GetLinks http_get (cl_Links c) ''all'' clientInfo) (\<lambda>links.
            let text = Join links [CHR 0x0A]
            in Inr (if setting_on env db ''subEncode'' then b64_encode b64_std text else text,
                    GetHeaders c (sub_updates env db))))"

end
