(* ===== verification/Sub_Json.thy ===== *)
theory Sub_Json
  imports Sub_Links Panel_Db
begin

text \<open>
  The subscription as a sing-box configuration (\<^verbatim>\<open>sub/jsonService.go\<close>). The result is the document
  as a value; its text and the order of its keys are not represented. The copy of an outbound made
  for an address shares the nested \<^verbatim>\<open>tls\<close> map with the original and with the other copies:
  that map is a cell of the loop's state, the copies hold a reference to it, and they are read
  when the document is written.
\<close>

section \<open>Outbounds of the inbounds\<close>

definition getData :: "panel_db \<Rightarrow> string \<Rightarrow> (client \<times> inbound list) result" where
  "getData db subId =
     bindr (getClientBySubId db subId) (\<lambda>c.
       case decode_uints (cl_Inbounds c) of
         None \<Rightarrow> Inl ''json: cannot unmarshal''
       | Some ids \<Rightarrow> Inr (c, map (preload_inbound db) (filter (\<lambda>i. in_Id i \<in> set ids) (tb_Rows (db_Inbounds db)))))"

text \<open>An assertion on a nested map without the comma-ok form\<close>

definition must_map :: "gval \<Rightarrow> gmap result" where
  "must_map v = (case v of GMap m \<Rightarrow> Inr m | _ \<Rightarrow> panic_conv)"

definition ss_password :: "gmap \<Rightarrow> gmap \<Rightarrow> string result" where
  "ss_password configs inbOptions =
     (let meth = as_str (mget inbOptions ''method'');
          prefix = (if HasPrefix meth ''2022'' then [as_str (mget inbOptions ''password'')] else [])
      in bindr (must_map (mget configs (if meth = ''2022-blake3-aes-128-gcm'' then ''shadowsocks16'' else ''shadowsocks'')))
           (\<lambda>m. Inr (Join (prefix @ [as_str (mget m ''password'')]) '':'')))"

definition with_credentials :: "gmap \<Rightarrow> inbound \<Rightarrow> gmap \<Rightarrow> gmap result" where
  "with_credentials configs i outbound =
     (let protocol = as_str (mget outbound ''type'') in
      if protocol = ''shadowsocks'' then
        (case decode_map (in_Options i) of
           None \<Rightarrow> Inl ''json: cannot unmarshal''
         | Some inbOptions \<Rightarrow> bindr (ss_password configs inbOptions) (\<lambda>p. Inr (mput outbound ''password'' (GStr p))))
      else
        Inr (mmerge outbound (filter (\<lambda>(k, v). \<not> (k = ''name'' \<or> k = ''alterId'' \<or> (k = ''flow'' \<and> in_TlsId i = 0)))
               (as_map (mget configs protocol)))))"

text \<open>\<open>pushMixed\<close>: one outbound for each of the two protocols\<close>

definition mixed_outbounds :: "gmap \<Rightarrow> (gmap \<times> string) list" where
  "mixed_outbounds out =
     (let socksTag = sprint (mget out ''tag'') @ ''-socks''; httpTag = sprint (mget out ''tag'') @ ''-http''
      in [(mput (mput out ''type'' (GStr ''socks'')) ''tag'' (GStr socksTag), socksTag),
          (mput (mput out ''type'' (GStr ''http'')) ''tag'' (GStr httpTag), httpTag)])"

definition pushed :: "string \<Rightarrow> gmap \<Rightarrow> string \<Rightarrow> (gmap \<times> string) list" where
  "pushed protocol out tag = (if protocol = ''mixed'' then mixed_outbounds out else [(out, tag)])"

text \<open>The \<^verbatim>\<open>tls\<close> entry of a copy: the entry of the outbound, the shared map, or a map of its own.\<close>

datatype tls_ref = Same_Entry | Shared_Map | Own_Map gmap

record address_copy =
  ac_Out :: gmap
  ac_TlsRef :: tls_ref
  ac_NewTag :: string

text \<open>
  One round for each address: \<open>shared\<close> is the map the \<^verbatim>\<open>tls\<close> entry of the outbound points to,
  \<open>None\<close> when it is no map. An override is merged into the map the copy points to.
\<close>

definition copy_outbound :: "gmap \<Rightarrow> string \<Rightarrow> nat \<Rightarrow> gmap \<Rightarrow> gmap option \<Rightarrow> address_copy \<times> gmap option" where
  "copy_outbound outbound tag index addr shared =
     (let newTag = Itoa (int index + 1) @ ''.'' @ tag @ as_str (mget addr ''remark'');
          o1 = mput outbound ''server'' (GStr (as_str (mget addr ''server'')));
          o2 = mput o1 ''server_port'' (GInt (trunc_rat (as_float (mget addr ''server_port''))));
          copy = (\<lambda>ref. \<lparr>ac_Out = mput o2 ''tag'' (GStr newTag), ac_TlsRef = ref, ac_NewTag = newTag\<rparr>)
      in case mget addr ''tls'' of
           GMap addrTls \<Rightarrow>
             (case shared of
                Some m \<Rightarrow> (copy Shared_Map, Some (mmerge m addrTls))
              | None \<Rightarrow> (copy (Own_Map (mmerge [] addrTls)), None))
         | _ \<Rightarrow> (copy (if shared = None then Same_Entry else Shared_Map), shared))"

fun copy_outbounds :: "gmap \<Rightarrow> string \<Rightarrow> nat \<Rightarrow> gmap list \<Rightarrow> gmap option \<Rightarrow> address_copy list \<times> gmap option" where
  "copy_outbounds outbound tag index [] shared = ([], shared)"
| "copy_outbounds outbound tag index (addr # addrs) shared =
     (let (c, shared1) = copy_outbound outbound tag index addr shared;
          (cs, shared2) = copy_outbounds outbound tag (Suc index) addrs shared1
      in (c # cs, shared2))"

text \<open>Reading a copy once the loop is over\<close>

definition read_copy :: "gmap option \<Rightarrow> address_copy \<Rightarrow> gmap" where
  "read_copy shared c =
     (case ac_TlsRef c of
        Same_Entry \<Rightarrow> ac_Out c
      | Own_Map m \<Rightarrow> mput (ac_Out c) ''tls'' (GMap m)
      | Shared_Map \<Rightarrow> mput (ac_Out c) ''tls'' (GMap (the shared)))"

definition tls_cell :: "gmap \<Rightarrow> gmap option" where
  "tls_cell outbound = (case mget outbound ''tls'' of GMap m \<Rightarrow> Some m | _ \<Rightarrow> None)"

definition address_outbounds :: "gmap \<Rightarrow> string \<Rightarrow> gmap list \<Rightarrow> (gmap \<times> string) list" where
  "address_outbounds outbound tag addrs =
     (let (cs, shared) = copy_outbounds outbound tag 0 addrs (tls_cell outbound)
      in map (\<lambda>c. (read_copy shared c, ac_NewTag c)) cs)"

text \<open>Fewer than five bytes, the text as \<open>FillOutJson\<close> and the decoding of an inbound write it\<close>

definition small_raw :: "raw \<Rightarrow> bool" where
  "small_raw r \<longleftrightarrow> (case r of RNil \<Rightarrow> True | RBad \<Rightarrow> False | RVal v \<Rightarrow> length (json_MarshalIndent v) < 5)"

definition inbound_outbounds :: "gmap \<Rightarrow> inbound \<Rightarrow> (gmap \<times> string) list result" where
  "inbound_outbounds configs i =
     (if RuntimeCore i = CoreTypeXray \<or> small_raw (in_OutJson i) then Inr []
      else case decode_map (in_OutJson i) of
        None \<Rightarrow> Inl ''json: cannot unmarshal''
      | Some outJson \<Rightarrow>
          let protocol = as_str (mget outJson ''type'') in
          bindr (with_credentials configs i outJson) (\<lambda>outbound.
            case decode_maps (in_Addrs i) of
              None \<Rightarrow> Inl ''json: cannot unmarshal''
            | Some addrs \<Rightarrow>
                let tag = as_str (mget outbound ''tag'') in
                if addrs = [] then
                  Inr (pushed protocol (if protocol = ''mixed'' then mput outbound ''tag'' (GStr tag) else outbound) tag)
                else Inr (concat (map (\<lambda>(out, newTag). pushed protocol out newTag) (address_outbounds outbound tag addrs)))))"

definition getOutbounds :: "raw \<Rightarrow> inbound list \<Rightarrow> (gmap \<times> string) list result" where
  "getOutbounds clientConfig inbounds =
     (case decode_map clientConfig of
        None \<Rightarrow> Inl ''json: cannot unmarshal''
      | Some configs \<Rightarrow> bindr (mapr (inbound_outbounds configs) inbounds) (\<lambda>os. Inr (concat os)))"

section \<open>The document\<close>

definition linked_outbounds :: "string list \<Rightarrow> (gmap \<times> string) list" where
  "linked_outbounds links =
     (let enable = (if length links > 1 then 1 else 0)
      in concat (map (\<lambda>(index, link).
           case GetOutbound link ((int index + 1) * enable) of
             Inr (m, tag) \<Rightarrow> if tag = [] then [] else [(m, tag)]
           | Inl _ \<Rightarrow> []) (zip [0..<length links] links)))"

definition addDefaultOutbounds :: "gmap list \<Rightarrow> string list \<Rightarrow> gmap list" where
  "addDefaultOutbounds outbounds tags =
     [[(''outbounds'', GStrs ([''auto'', ''direct''] @ tags)), (''tag'', GStr ''proxy''), (''type'', GStr ''selector'')],
      [(''tag'', GStr ''auto''), (''type'', GStr ''urltest''), (''outbounds'', GStrs tags),
       (''url'', GStr ''http://www.gstatic.com/generate_204''), (''interval'', GStr ''10m''), (''tolerance'', GInt 50)],
      [(''type'', GStr ''direct''), (''tag'', GStr ''direct'')]] @ outbounds"

definition defaultJson :: gmap where
  "defaultJson =
     [(''inbounds'', GList
         [GMap [(''type'', GStr ''tun''), (''address'', GList [GStr ''172.19.0.1/30'', GStr ''fdfe:dcba:9876::1/126'']),
            (''mtu'', GFloat 9000), (''auto_route'', GBool True), (''strict_route'', GBool False),
            (''endpoint_independent_nat'', GBool False), (''stack'', GStr ''system''),
            (''platform'', GMap [(''http_proxy'', GMap [(''enabled'', GBool True), (''server'', GStr ''127.0.0.1''),
               (''server_port'', GFloat 2080)])])],
          GMap [(''type'', GStr ''mixed''), (''listen'', GStr ''127.0.0.1''), (''listen_port'', GFloat 2080), (''users'', GList [])]])]"

definition rules_start :: "gval list" where
  "rules_start =
     [GMap [(''action'', GStr ''sniff'')],
      GMap [(''clash_mode'', GStr ''Direct''), (''action'', GStr ''route''), (''outbound'', GStr ''direct'')]]"

definition rules_end :: "gval list" where
  "rules_end = [GMap [(''clash_mode'', GStr ''Global''), (''action'', GStr ''route''), (''outbound'', GStr ''proxy'')]]"

definition base_route :: gmap where
  "base_route = [(''auto_detect_interface'', GBool True), (''final'', GStr ''proxy''), (''rules'', GList rules_start)]"

definition copy_key :: "gmap \<Rightarrow> gmap \<Rightarrow> string \<Rightarrow> gmap" where
  "copy_key src doc k = (if mhas src k then mput doc k (mget src k) else doc)"

definition sub_route :: "gmap \<Rightarrow> gmap" where
  "sub_route others =
     (let r1 = copy_key others base_route ''rule_set'';
          r2 = (case mget others ''rules'' of GList rs \<Rightarrow> mput r1 ''rules'' (GList (rules_start @ rs @ rules_end)) | _ \<Rightarrow> r1)
      in case mget others ''default_domain_resolver'' of GStr d \<Rightarrow> mput r2 ''default_domain_resolver'' (GStr d) | _ \<Rightarrow> r2)"

text \<open>The error of \<open>addOthers\<close> is not looked at; it leaves the document without a route.\<close>

definition addOthers :: "string result \<Rightarrow> gmap \<Rightarrow> gmap" where
  "addOthers othersStr doc =
     (case othersStr of
        Inl _ \<Rightarrow> doc
      | Inr s \<Rightarrow>
          if s = [] then mput doc ''route'' (GMap base_route)
          else case json_to_map s of
            None \<Rightarrow> doc
          | Some others \<Rightarrow>
              mput (foldl (copy_key others) doc [''log'', ''dns'', ''inbounds'', ''experimental'']) ''route'' (GMap (sub_route others)))"

definition GetJson :: "(string \<Rightarrow> string option) \<Rightarrow> setting_env \<Rightarrow> panel_db \<Rightarrow> string \<Rightarrow> (gmap \<times> string list) result" where
  "GetJson http_get env db subId =
     bindr (getData db subId) (\<lambda>(c, inDatas).
       bindr (getOutbounds (cl_Config c) inDatas) (\<lambda>own.
         bindr (GetLinks http_get (cl_Links c) ''external'' []) (\<lambda>links.
           let every = own @ linked_outbounds links;
               doc = mput defaultJson ''outbounds'' (GMaps (addDefaultOutbounds (map fst every) (map snd every)))
           in Inr (addOthers (getString env db ''subJsonExt'') doc, GetHeaders c (sub_updates env db)))))"

end
