(* ===== verification/Sub_Clash.thy ===== *)
theory Sub_Clash
  imports Sub_Json
begin

text \<open>
  The subscription as a Clash configuration (\<^verbatim>\<open>sub/clashService.go\<close>). The YAML library is outside:
  the base configuration is given as the value its text decodes to, the result as the value
  that is written. A number from JSON is a \<^verbatim>\<open>float64\<close> and a list from JSON an \<^verbatim>\<open>[]interface{}\<close>;
  the importer of share links makes \<^verbatim>\<open>int\<close>s and \<^verbatim>\<open>[]string\<close>s, which the assertions here refuse.
\<close>

section \<open>Parts of a proxy\<close>

definition copied :: "gmap \<Rightarrow> string \<Rightarrow> gmap \<Rightarrow> string \<Rightarrow> gmap" where
  "copied p k m k' = mput p k (mget m k')"

definition copy_float :: "gmap \<Rightarrow> string \<Rightarrow> gmap \<Rightarrow> string \<Rightarrow> gmap" where
  "copy_float p k m k' = (case mget m k' of GFloat r \<Rightarrow> mput p k (GFloat r) | _ \<Rightarrow> p)"

definition copy_str :: "gmap \<Rightarrow> string \<Rightarrow> gmap \<Rightarrow> string \<Rightarrow> gmap" where
  "copy_str p k m k' = (case mget m k' of GStr s \<Rightarrow> mput p k (GStr s) | _ \<Rightarrow> p)"

definition copy_bool :: "gmap \<Rightarrow> string \<Rightarrow> gmap \<Rightarrow> string \<Rightarrow> gmap" where
  "copy_bool p k m k' = (case mget m k' of GBool b \<Rightarrow> mput p k (GBool b) | _ \<Rightarrow> p)"

definition clash_server :: "string \<Rightarrow> string" where
  "clash_server s =
     (if s \<noteq> [] \<and> Contains s '':'' \<and> \<not> Contains s ''.'' \<and> \<not> (HasPrefix s ''['' \<and> HasSuffix s '']'')
      then [CHR 0x27] @ ''['' @ s @ '']'' @ [CHR 0x27] else s)"

definition clash_base :: "string \<Rightarrow> gmap \<Rightarrow> gmap" where
  "clash_base t ob =
     [(''name'', mget ob ''tag''), (''type'', GStr t), (''server'', GStr (clash_server (as_str (mget ob ''server'')))),
      (''port'', mget ob ''server_port'')]"

definition clash_uuid :: "string \<Rightarrow> gmap \<Rightarrow> gmap \<Rightarrow> gmap" where
  "clash_uuid t ob p =
     (let p1 = copied p ''uuid'' ob ''uuid'' in
      if t = ''vmess'' then
        mput (mput p1 ''alterId'' (GInt (case mget ob ''alter_id'' of GFloat r \<Rightarrow> trunc_rat r | _ \<Rightarrow> 0))) ''cipher'' (GStr ''auto'')
      else if t = ''vless'' then copy_str p1 ''flow'' ob ''flow''
      else copy_str (copied p1 ''password'' ob ''password'') ''congestion-controller'' ob ''congestion_control'')"

definition clash_ports :: "gmap \<Rightarrow> gmap \<Rightarrow> gmap" where
  "clash_ports ob p =
     (case mget ob ''server_ports'' of
        GList ls \<Rightarrow> mput p ''ports'' (GStr (Join (map (\<lambda>l. ReplaceAll (as_str l) '':'' ''-'') ls) '',''))
      | _ \<Rightarrow> p)"

definition clash_hysteria :: "string \<Rightarrow> gmap \<Rightarrow> gmap \<Rightarrow> gmap" where
  "clash_hysteria t ob p =
     (let p1 = copy_float (copy_float p ''up'' ob ''up_mbps'') ''down'' ob ''down_mbps'';
          p2 = (if t = ''hysteria'' then copy_str (copied p1 ''auth-str'' ob ''auth_str'') ''obfs'' ob ''obfs''
                else let q = copied p1 ''password'' ob ''password'' in
                  case mget ob ''obfs'' of
                    GMap obfs \<Rightarrow> copied (copied q ''obfs'' obfs ''type'') ''obfs-password'' obfs ''password''
                  | _ \<Rightarrow> q)
      in clash_ports ob p2)"

definition clash_anytls :: "gmap \<Rightarrow> gmap \<Rightarrow> gmap" where
  "clash_anytls ob p =
     (let p1 = copied p ''password'' ob ''password'' in
      case mget ob ''tls'' of
        GMap tls \<Rightarrow> copied (copied p1 ''sni'' tls ''server_name'') ''skip-cert-verify'' tls ''insecure''
      | _ \<Rightarrow> p1)"

definition clash_ss :: "gmap \<Rightarrow> gmap \<Rightarrow> gmap" where
  "clash_ss ob p =
     (let p1 = copied (copied (mput p ''type'' (GStr ''ss'')) ''cipher'' ob ''method'') ''password'' ob ''password'';
          p2 = (case mget ob ''network'' of GStr n \<Rightarrow> if n \<noteq> ''tcp'' then mput p1 ''udp'' (GBool True) else p1 | _ \<Rightarrow> p1)
      in if mget ob ''udp_over_tcp'' = GBool True then mput p2 ''udp-over-tcp'' (GBool True) else p2)"

text \<open>The credentials by protocol; \<open>None\<close> for a protocol Clash does not know.\<close>

definition clash_protocol :: "string \<Rightarrow> gmap \<Rightarrow> gmap option" where
  "clash_protocol t ob =
     (let p = clash_base t ob in
      if t \<in> {''vmess'', ''vless'', ''tuic''} then Some (clash_uuid t ob p)
      else if t = ''trojan'' then Some (copied p ''password'' ob ''password'')
      else if t \<in> {''socks'', ''http''} then
        Some (copied (copied (if t = ''socks'' then mput p ''type'' (GStr ''socks5'') else p) ''username'' ob ''username'')
          ''password'' ob ''password'')
      else if t \<in> {''hysteria'', ''hysteria2''} then Some (clash_hysteria t ob p)
      else if t = ''anytls'' then Some (clash_anytls ob p)
      else if t = ''shadowsocks'' then Some (clash_ss ob p)
      else None)"

section \<open>TLS\<close>

definition clash_is_tls :: "gmap \<Rightarrow> bool" where
  "clash_is_tls ob = (case mget ob ''tls'' of GMap tls \<Rightarrow> mget tls ''enabled'' \<noteq> GBool False | _ \<Rightarrow> False)"

text \<open>\<open>reality["enabled"].(bool)\<close> and \<open>ech["enabled"].(bool)\<close> panic when the entry is missing.\<close>

definition clash_reality :: "gmap \<Rightarrow> gmap \<Rightarrow> gmap result" where
  "clash_reality tls p =
     (case mget tls ''reality'' of
        GMap reality \<Rightarrow> bindr (must_bool (mget reality ''enabled'')) (\<lambda>b. Inr
          (if b then mput p ''reality-opts''
               (GMap (copy_str (copy_str [] ''public-key'' reality ''public_key'') ''short-id'' reality ''short_id''))
           else p))
      | _ \<Rightarrow> Inr p)"

definition clash_utls :: "gmap \<Rightarrow> gmap \<Rightarrow> gmap" where
  "clash_utls tls p =
     (case mget tls ''utls'' of
        GMap utls \<Rightarrow> if mget utls ''enabled'' = GBool True then copy_str p ''client-fingerprint'' utls ''fingerprint'' else p
      | _ \<Rightarrow> p)"

text \<open>The lines of the PEM text without the first and the last.\<close>

definition inner_lines :: "gval list \<Rightarrow> gval list" where
  "inner_lines ls = butlast (drop 1 ls)"

definition clash_ech :: "gmap \<Rightarrow> gmap \<Rightarrow> gmap result" where
  "clash_ech tls p =
     (case mget tls ''ech'' of
        GMap ech \<Rightarrow> bindr (must_bool (mget ech ''enabled'')) (\<lambda>b.
          if b then bindr (mapr must_string (inner_lines (as_list (mget ech ''config'')))) (\<lambda>ls.
            Inr (mput p ''ech-opts'' (GMap [(''enable'', GBool True), (''config'', GStr (concat ls))])))
          else Inr p)
      | _ \<Rightarrow> Inr p)"

definition clash_alpn :: "string \<Rightarrow> gmap \<Rightarrow> gmap \<Rightarrow> gmap" where
  "clash_alpn t tls p =
     (if t \<in> {''hysteria'', ''hysteria2'', ''tuic''} then mput p ''alpn'' (GStrs [''h3''])
      else case mget tls ''alpn'' of GList ls \<Rightarrow> mput p ''alpn'' (GList ls) | _ \<Rightarrow> p)"

definition clash_tls :: "link_env \<Rightarrow> string \<Rightarrow> gmap \<Rightarrow> gmap \<Rightarrow> gmap result" where
  "clash_tls env t ob p =
     (if \<not> clash_is_tls ob then Inr p
      else let tls = as_map (mget ob ''tls'') in
        bindr (clash_reality tls (clash_alpn t tls (copied p ''tls'' tls ''enabled''))) (\<lambda>p1.
          let p2 = clash_utls tls p1;
              p3 = copy_str p2 (if t = ''vless'' \<or> t = ''vmess'' then ''servername'' else ''sni'') tls ''server_name'';
              p4 = (if mget tls ''insecure'' = GBool True then mput p3 ''skip-cert-verify'' (GBool True) else p3);
              fp = le_CertSha256Hex env (CertPEMFromTLS env tls);
              p5 = (if fp \<noteq> [] then mput p4 ''fingerprint'' (GStr fp) else p4)
          in clash_ech tls p5))"

section \<open>Transport and multiplex\<close>

definition first_of :: "gval list \<Rightarrow> gval result" where
  "first_of ls = (case ls of [] \<Rightarrow> Inl ''panic: index out of range'' | x # _ \<Rightarrow> Inr x)"

definition clash_http :: "bool \<Rightarrow> gmap \<Rightarrow> gmap \<Rightarrow> gmap result" where
  "clash_http isTls transport p =
     bindr (case mget transport ''path'' of
              GList ls \<Rightarrow> map_sum id (\<lambda>x. [(''path'', x)]) (first_of ls)
            | GStr s \<Rightarrow> Inr [(''path'', GStr s)]
            | _ \<Rightarrow> Inr []) (\<lambda>o1.
       bindr (case mget transport ''host'' of GList ls \<Rightarrow> map_sum id (\<lambda>x. o1 @ [(''host'', x)]) (first_of ls) | _ \<Rightarrow> Inr o1) (\<lambda>o2. Inr
         (if isTls then mput (mput p ''network'' (GStr ''h2'')) ''h2-opts'' (GMap o2)
          else mput (mput p ''network'' (GStr ''http'')) ''http-opts''
            (GMap [(''path'', GList [mget o2 ''path'']), (''host'', mget o2 ''host'')]))))"

definition ws_headers :: "bool \<Rightarrow> gmap \<Rightarrow> gmap \<Rightarrow> gmap" where
  "ws_headers isTls tls transport =
     (let given = concat (map (\<lambda>(k, v). case v of GList [] \<Rightarrow> [] | GList (x # _) \<Rightarrow> [(k, x)] | _ \<Rightarrow> [(k, v)])
            (as_map (mget transport ''headers'')));
          host = as_str (mget transport ''host''); sni = as_str (mget tls ''server_name'')
      in if mhas given ''Host'' then given
         else if host \<noteq> [] then given @ [(''Host'', GStr host)]
         else if isTls \<and> sni \<noteq> [] then given @ [(''Host'', GStr sni)]
         else given)"

definition clash_ws :: "bool \<Rightarrow> gmap \<Rightarrow> string \<Rightarrow> gmap \<Rightarrow> gmap \<Rightarrow> gmap" where
  "clash_ws isTls tls tt transport p =
     (let o1 = copy_str [] ''path'' transport ''path'';
          headers = ws_headers isTls tls transport;
          o2 = (if headers \<noteq> [] then mput o1 ''headers'' (GMap headers) else o1);
          o3 = copy_str o2 ''early-data-header-name'' transport ''early_data_header_name'';
          o4 = (if tt = ''httpupgrade'' then mput o3 ''v2ray-http-upgrade'' (GBool True) else o3)
      in mput (mput p ''network'' (GStr ''ws'')) ''ws-opts'' (GMap o4))"

definition clash_transport :: "gmap \<Rightarrow> gmap \<Rightarrow> gmap result" where
  "clash_transport ob p =
     (case mget ob ''transport'' of
        GMap transport \<Rightarrow>
          (let tt = as_str (mget transport ''type''); isTls = clash_is_tls ob; tls = as_map (mget ob ''tls'') in
           if tt = ''http'' then clash_http isTls transport p
           else if tt = ''ws'' \<or> tt = ''httpupgrade'' then Inr (clash_ws isTls tls tt transport p)
           else if tt = ''grpc'' then
             Inr (mput (mput p ''network'' (GStr ''grpc'')) ''grpc-opts'' (GMap (copy_str [] ''grpc-service-name'' transport ''service_name'')))
           else Inr p)
      | _ \<Rightarrow> Inr p)"

definition clash_mux :: "gmap \<Rightarrow> gmap \<Rightarrow> gmap" where
  "clash_mux ob p =
     (case mget ob ''multiplex'' of
        GMap mux \<Rightarrow>
          if mget mux ''enabled'' = GBool True then
            let s1 = copy_str [(''enabled'', GBool True)] ''protocol'' mux ''protocol'';
                s2 = copy_float (copy_float (copy_float s1 ''max-connections'' mux ''max_connections'')
                       ''min-streams'' mux ''min_streams'') ''max-streams'' mux ''max_streams'';
                s3 = copy_bool s2 ''padding'' mux ''padding'';
                s4 = (case mget mux ''brutal'' of
                        GMap brutal \<Rightarrow>
                          if mget brutal ''enabled'' = GBool True then
                            mput s3 ''brutal-opts'' (GMap (copy_float (copy_float [(''enabled'', GBool True)] ''up'' brutal ''up_mbps'')
                              ''down'' brutal ''down_mbps''))
                          else s3
                      | _ \<Rightarrow> s3)
            in mput p ''smux'' (GMap s4)
          else p
      | _ \<Rightarrow> p)"

text \<open>One outbound: \<open>None\<close> when it is left out, else the proxy and its name.\<close>

definition clash_proxy :: "link_env \<Rightarrow> gmap \<Rightarrow> (gmap \<times> string) option result" where
  "clash_proxy env ob =
     (let t = as_str (mget ob ''type'') in
      if t \<in> {''selector'', ''urltest'', ''direct''} then Inr None
      else case clash_protocol t ob of
        None \<Rightarrow> Inr None
      | Some p \<Rightarrow>
          bindr (clash_tls env t ob p) (\<lambda>p1.
            bindr (clash_transport ob p1) (\<lambda>p2.
              bindr (must_string (mget ob ''tag'')) (\<lambda>tag. Inr (Some (clash_mux ob p2, tag))))))"

section \<open>Groups\<close>

definition hasGroupNamed :: "gval list \<Rightarrow> string \<Rightarrow> bool" where
  "hasGroupNamed pg name = list_ex (\<lambda>g. case g of GMap m \<Rightarrow> mget m ''name'' = GStr name | _ \<Rightarrow> False) pg"

definition proxy_group :: "string list \<Rightarrow> gmap" where
  "proxy_group names = [(''name'', GStr ''Proxy''), (''type'', GStr ''select''), (''proxies'', GStrs names)]"

definition auto_group :: "string list \<Rightarrow> gmap" where
  "auto_group names =
     [(''name'', GStr ''Auto''), (''type'', GStr ''url-test''), (''proxies'', GStrs names),
      (''url'', GStr ''http://www.gstatic.com/generate_204''), (''interval'', GInt 300), (''tolerance'', GInt 50)]"

definition default_groups :: "gval list \<Rightarrow> string list \<Rightarrow> gmap list" where
  "default_groups pg tags =
     (if hasGroupNamed pg ''Auto'' then [proxy_group tags] else [proxy_group (''Auto'' # tags), auto_group tags])"

text \<open>
  The word \<^verbatim>\<open>all\<close> in a group stands for every proxy. It is only looked for when the groups are
  the list built here, and in lists that came from the base configuration.
\<close>

definition support_all :: "string list \<Rightarrow> gmap \<Rightarrow> gmap" where
  "support_all tags g =
     (case mget g ''proxies'' of
        GList ps \<Rightarrow> mput g ''proxies'' (GList (concat (map (\<lambda>p. case p of
            GStr n \<Rightarrow> if ToLower n = ''all'' then map GStr tags else [p] | _ \<Rightarrow> [p]) ps)))
      | _ \<Rightarrow> g)"

definition merged_groups :: "bool \<Rightarrow> bool \<Rightarrow> gval \<Rightarrow> string list \<Rightarrow> gval" where
  "merged_groups noDefGrp sprtAll groups tags =
     (if noDefGrp then groups
      else let pg = as_list groups;
               gs = default_groups pg tags @ concat (map (\<lambda>g. case g of GMap m \<Rightarrow> [m] | _ \<Rightarrow> []) pg)
           in GMaps (if sprtAll then map (support_all tags) gs else gs))"

definition ConvertToClashMeta :: "link_env \<Rightarrow> bool \<Rightarrow> bool \<Rightarrow> gmap list \<Rightarrow> gmap \<Rightarrow> gmap result" where
  "ConvertToClashMeta env noDefGrp sprtAll outbounds base =
     bindr (mapr (clash_proxy env) outbounds) (\<lambda>rs.
       let made = concat (map (\<lambda>r. case r of None \<Rightarrow> [] | Some x \<Rightarrow> [x]) rs); proxies = map fst made; tags = map snd made;
           o1 = mput base ''proxies'' (GList ((case mget base ''proxies'' of GList p \<Rightarrow> p | _ \<Rightarrow> []) @ map GMap proxies));
           groups = merged_groups noDefGrp sprtAll (mget base ''proxy-groups'') tags
       in Inr (if noDefGrp \<and> \<not> mhas base ''proxy-groups'' then o1 else mput o1 ''proxy-groups'' groups))"

text \<open>
  The base configuration is the text of a setting, or the built-in one, decoded by \<open>yaml\<close>. A text
  that gives no map leaves a nil map, and the first assignment to it panics.
\<close>

definition clash_document :: "link_env \<Rightarrow> bool \<Rightarrow> bool \<Rightarrow> gmap list \<Rightarrow> gmap option \<Rightarrow> gmap result" where
  "clash_document env noDefGrp sprtAll outbounds base =
     (case base of
        Some b \<Rightarrow> ConvertToClashMeta env noDefGrp sprtAll outbounds b
      | None \<Rightarrow> bindr (mapr (clash_proxy env) outbounds) (\<lambda>_. Inl ''panic: assignment to entry in nil map''))"

definition GetClash ::
  "(string \<Rightarrow> string option) \<Rightarrow> link_env \<Rightarrow> setting_env \<Rightarrow> (string \<Rightarrow> gmap option) \<Rightarrow> gmap \<Rightarrow> panel_db \<Rightarrow> string \<Rightarrow> (gmap \<times> string list) result" where
  "GetClash http_get lenv env yaml basicClashConfig db subId =
     bindr (getData db subId) (\<lambda>(c, inDatas).
       bindr (getOutbounds (cl_Config c) inDatas) (\<lambda>own.
         let ext = GetExternalOutbounds http_get (cl_Links c);
             base = (case getString env db ''subClashExt'' of
                       Inr s \<Rightarrow> if s = [] then Some basicClashConfig else yaml s | Inl _ \<Rightarrow> Some basicClashConfig)
         in bindr (clash_document lenv (setting_on env db ''subClashNoDefGrp'') (setting_on env db ''subClashSprtAll'')
                     (map fst (own @ ext)) base) (\<lambda>doc. Inr (doc, GetHeaders c (sub_updates env db)))))"

end
