(* ===== verification/Sub_Documents.thy ===== *)
theory Sub_Documents
  imports Sub_Clash Client_Jobs
begin

text \<open>
  What holds of the documents a client fetches: the groups name outbounds of the document, an override of
  one address reaches all addresses of an inbound, and what of an imported link is lost on the
  way to a Clash configuration.
\<close>

section \<open>Tags\<close>

text \<open>An outbound that is listed under its tag.\<close>

definition listed :: "gmap \<times> string \<Rightarrow> bool" where
  "listed p \<longleftrightarrow> mget (fst p) ''tag'' = GStr (snd p)"

lemma link_base_tag [simp]: "mget (link_base ty u i n @ m) ''tag'' = GStr (link_tag u i)" "mget (link_base ty u i n @ m) ''type'' = GStr ty"
  by (simp_all add: link_base_def)

lemma ss_plugin_tag [simp]: "mget (ss_plugin q m) ''tag'' = mget m ''tag''" "mget (ss_plugin q m) ''type'' = mget m ''type''"
  by (simp_all add: ss_plugin_def split: list.splits)

lemma imported_listed: "GetOutbound link i = Inr p \<Longrightarrow> listed p"
  unfolding GetOutbound_def
  by (auto simp: Let_def listed_def import_vmess_def import_vless_def import_trojan_def import_hy_def import_hy2_def import_anytls_def
      import_tuic_def import_ss_def parseNaiveLink_def bindr_Inr_iff split: option.splits if_splits)

lemma mixed_listed: "\<forall>p\<in>set (mixed_outbounds out). listed p"
  by (simp add: mixed_outbounds_def listed_def Let_def)

lemma pushed_listed: "mget out ''tag'' = GStr tag \<Longrightarrow> \<forall>p\<in>set (pushed protocol out tag). listed p"
  using mixed_listed by (simp add: pushed_def listed_def)

lemma copy_outbound_tag: "copy_outbound outbound tag i addr shared = (c, shared') \<Longrightarrow> mget (ac_Out c) ''tag'' = GStr (ac_NewTag c)"
  by (auto simp: copy_outbound_def Let_def split: gval.splits option.splits)

lemma copy_outbounds_tags:
  "copy_outbounds outbound tag i addrs shared = (cs, shared') \<Longrightarrow> \<forall>c\<in>set cs. mget (ac_Out c) ''tag'' = GStr (ac_NewTag c)"
  by (induction outbound tag i addrs shared arbitrary: cs shared' rule: copy_outbounds.induct)
    (auto split: prod.splits dest: copy_outbound_tag)

lemma address_outbounds_listed: "\<forall>p\<in>set (address_outbounds outbound tag addrs). listed p"
proof -
  obtain cs shared where c: "copy_outbounds outbound tag 0 addrs (tls_cell outbound) = (cs, shared)" by (metis surj_pair)
  have "mget (read_copy shared c) ''tag'' = mget (ac_Out c) ''tag''" for c
    by (simp add: read_copy_def split: tls_ref.splits)
  then show ?thesis using copy_outbounds_tags [OF c] by (auto simp: address_outbounds_def c listed_def)
qed

lemma mhas_filter: "\<not> mhas m k \<Longrightarrow> \<not> mhas (filter P m) k"
  by (auto simp: mhas_def map_of_eq_None_iff image_iff)

lemma with_credentials_tag:
  assumes "with_credentials configs i out = Inr out'" "\<And>p. \<not> mhas (as_map (mget configs p)) ''tag''"
  shows "mget out' ''tag'' = mget out ''tag''"
  using assms mhas_filter [OF assms(2)]
  by (auto simp: with_credentials_def Let_def bindr_Inr_iff mget_mmerge_other split: if_splits option.splits)

text \<open>
  What the rows must satisfy: the description of an inbound has a tag, which \<open>FillOutJson\<close> writes,
  and the configuration of a client sets no tag.
\<close>

definition tagged_rows :: "panel_db \<Rightarrow> bool" where
  "tagged_rows db \<longleftrightarrow>
     list_all (\<lambda>i. case decode_map (in_OutJson i) of None \<Rightarrow> True | Some m \<Rightarrow> (\<exists>s. mget m ''tag'' = GStr s)) (tb_Rows (db_Inbounds db))
     \<and> list_all (\<lambda>c. case decode_map (cl_Config c) of None \<Rightarrow> True | Some m \<Rightarrow> (\<forall>p. \<not> mhas (as_map (mget m p)) ''tag'')) (tb_Rows (db_Clients db))"

lemma inbound_outbounds_listed:
  assumes "inbound_outbounds configs i = Inr ps" "\<And>p. \<not> mhas (as_map (mget configs p)) ''tag''"
    and "\<And>m. decode_map (in_OutJson i) = Some m \<Longrightarrow> \<exists>s. mget m ''tag'' = GStr s"
  shows "\<forall>p\<in>set ps. listed p"
proof (cases "RuntimeCore i = CoreTypeXray \<or> small_raw (in_OutJson i)")
  case True
  then show ?thesis using assms(1) by (simp add: inbound_outbounds_def)
next
  case False
  then obtain m out addrs where m: "decode_map (in_OutJson i) = Some m" "with_credentials configs i m = Inr out"
    "decode_maps (in_Addrs i) = Some addrs"
    and ps: "ps = (if addrs = [] then pushed (as_str (mget m ''type''))
        (if as_str (mget m ''type'') = ''mixed'' then mput out ''tag'' (GStr (as_str (mget out ''tag''))) else out) (as_str (mget out ''tag''))
      else concat (map (\<lambda>(o1, newTag). pushed (as_str (mget m ''type'')) o1 newTag) (address_outbounds out (as_str (mget out ''tag'')) addrs)))"
    using assms(1) by (auto simp: inbound_outbounds_def Let_def bindr_Inr_iff split: option.splits if_splits)
  have "mget out ''tag'' = mget m ''tag''" by (rule with_credentials_tag [OF m(2) assms(2)])
  then obtain s where s: "mget out ''tag'' = GStr s" using assms(3) [OF m(1)] by auto
  show ?thesis
  proof (cases "addrs = []")
    case True
    have "as_str (mget out ''tag'') = s" by (simp add: s as_str_def)
    then show ?thesis
      using True pushed_listed [of "mput out ''tag'' (GStr s)" s] pushed_listed [of out s] s by (simp add: ps)
  next
    case False
    have "\<forall>p\<in>set (pushed protocol o1 t1). listed p" if "(o1, t1) \<in> set (address_outbounds out (as_str (mget out ''tag'')) addrs)" for protocol o1 t1
      using address_outbounds_listed that by (intro pushed_listed) (force simp: listed_def)
    then show ?thesis using False by (auto simp: ps)
  qed
qed

lemma getOutbounds_listed:
  assumes "getOutbounds config ins = Inr ps" "\<And>m p. decode_map config = Some m \<Longrightarrow> \<not> mhas (as_map (mget m p)) ''tag''"
    and "\<And>i m. i \<in> set ins \<Longrightarrow> decode_map (in_OutJson i) = Some m \<Longrightarrow> \<exists>s. mget m ''tag'' = GStr s"
  shows "\<forall>p\<in>set ps. listed p"
proof -
  obtain configs pss where c: "decode_map config = Some configs" and pss: "mapr (inbound_outbounds configs) ins = Inr pss" "ps = concat pss"
    using assms(1) by (auto simp: getOutbounds_def bindr_Inr_iff split: option.splits)
  have "\<exists>i\<in>set ins. inbound_outbounds configs i = Inr qs" if qs: "qs \<in> set pss" for qs
  proof -
    obtain j where "j < length pss" "qs = pss ! j" using qs by (auto simp: in_set_conv_nth)
    then show ?thesis using pss(1) nth_mem by (fastforce simp: mapr_Inr_iff list_all2_conv_all_nth)
  qed
  then show ?thesis using inbound_outbounds_listed assms(2) [OF c] assms(3) unfolding pss(2) by (metis UN_E set_concat)
qed

lemma linked_listed: "\<forall>p\<in>set (linked_outbounds links). listed p"
  using imported_listed by (fastforce simp: linked_outbounds_def Let_def split: sum.splits if_splits prod.splits)

lemma external_listed: "\<forall>p\<in>set (external_outbounds http_get l). listed p"
proof -
  have "as_str (mget m ''tag'') \<noteq> [] \<Longrightarrow> mget m ''tag'' = GStr (as_str (mget m ''tag''))" for m
    by (cases "mget m ''tag''") (simp_all add: as_str_def)
  then have row: "listed p" if "p \<in> set (map (\<lambda>m. (m, as_str (mget m ''tag''))) (filter (\<lambda>m. as_str (mget m ''tag'') \<noteq> []) ms))" for ms p
    using that by (auto simp: listed_def)
  show ?thesis
  proof
    fix p assume p: "p \<in> set (external_outbounds http_get l)"
    consider (ext) "lk_Type l = ''external''" | (sub) "lk_Type l \<noteq> ''external''" "lk_Type l = ''sub''"
      using p by (cases "lk_Type l = ''external''"; cases "lk_Type l = ''sub''") (simp_all add: external_outbounds_def)
    then show "listed p"
    proof cases
      case ext
      then have "GetOutbound (lk_Uri l) 0 = Inr p"
        using p by (cases "GetOutbound (lk_Uri l) 0") (auto simp: external_outbounds_def split: if_splits)
      then show ?thesis by (rule imported_listed)
    next
      case sub
      then obtain ms where "p \<in> set (map (\<lambda>m. (m, as_str (mget m ''tag''))) (filter (\<lambda>m. as_str (mget m ''tag'') \<noteq> []) ms))"
        using p by (cases "GetExternalSub http_get (lk_Uri l)") (simp_all add: external_outbounds_def)
      then show ?thesis by (rule row)
    qed
  qed
qed

lemma number_tags_listed: "\<forall>p\<in>set ps. listed p \<Longrightarrow> \<forall>p\<in>set (number_tags seen ps). listed p"
  by (induction seen ps rule: number_tags.induct) (auto simp: listed_def Let_def split: option.splits)

text \<open>
  Numbering does not make tags unique: the number of a repeated tag gives a tag another outbound
  has.
\<close>

lemma numbered_twice: "map snd (number_tags [] [(m, ''a''), (m, ''a''), (m, ''a-1'')]) = [''a'', ''a-1'', ''a-1'']"
proof -
  have "Itoa 1 = ''1''" by code_simp
  then show ?thesis by (simp add: Let_def)
qed

lemma added_outbounds: "mget (addOthers others doc) ''outbounds'' = mget doc ''outbounds''"
  by (auto simp: addOthers_def copy_key_def split: sum.splits option.splits)

section \<open>The sing-box document\<close>

text \<open>
  C26. Every name in the groups of a sing-box subscription (the selector \<^verbatim>\<open>proxy\<close> and the test group
  \<^verbatim>\<open>auto\<close>) is the tag of an outbound of the same document, whatever mixture of inbounds,
  addresses and external links it is made from.
\<close>

theorem json_groups_resolve:
  assumes "GetJson http_get env db subId = Inr (doc, headers)" "tagged_rows db"
  shows "\<exists>os tags. mget doc ''outbounds'' = GMaps (addDefaultOutbounds os tags)
    \<and> (\<forall>n\<in>set ([''auto'', ''direct''] @ tags). \<exists>ob\<in>set (addDefaultOutbounds os tags). mget ob ''tag'' = GStr n)"
proof -
  obtain c ins own links where d: "getData db subId = Inr (c, ins)" and own: "getOutbounds (cl_Config c) ins = Inr own"
    and links: "GetLinks http_get (cl_Links c) ''external'' [] = Inr links"
    and doc: "doc = addOthers (getString env db ''subJsonExt'') (mput defaultJson ''outbounds''
        (GMaps (addDefaultOutbounds (map fst (own @ linked_outbounds links)) (map snd (own @ linked_outbounds links)))))"
    using assms(1) by (auto simp: GetJson_def Let_def bindr_Inr_iff)
  have c: "c \<in> set (tb_Rows (db_Clients db))"
    using d find_Some_mem by (fastforce simp: getData_def getClientBySubId_def bindr_Inr_iff split: option.splits)
  have rows: "\<exists>i0\<in>set (tb_Rows (db_Inbounds db)). in_OutJson i = in_OutJson i0" if "i \<in> set ins" for i
  proof -
    obtain ids where "ins = map (preload_inbound db) (filter (\<lambda>i. in_Id i \<in> set ids) (tb_Rows (db_Inbounds db)))"
      using d by (auto simp: getData_def bindr_Inr_iff split: option.splits)
    then show ?thesis using that by (force simp: preload_inbound_def)
  qed
  have "\<forall>p\<in>set own. listed p"
  proof (rule getOutbounds_listed [OF own])
    show "\<not> mhas (as_map (mget m p)) ''tag''" if "decode_map (cl_Config c) = Some m" for m p
      using assms(2) c that by (auto simp: tagged_rows_def list_all_iff dest!: bspec [of _ _ c])
    show "\<exists>s. mget m ''tag'' = GStr s" if i: "i \<in> set ins" "decode_map (in_OutJson i) = Some m" for i m
    proof -
      obtain i0 where "i0 \<in> set (tb_Rows (db_Inbounds db))" "in_OutJson i = in_OutJson i0" using rows [OF i(1)] by blast
      then show ?thesis using assms(2) i(2) unfolding tagged_rows_def list_all_iff by fastforce
    qed
  qed
  then have "\<forall>p\<in>set (own @ linked_outbounds links). listed p" using linked_listed by auto
  then have every: "\<forall>p\<in>set (own @ linked_outbounds links). mget (fst p) ''tag'' = GStr (snd p)" by (simp only: listed_def)
  have tags: "\<exists>ob\<in>set (map fst (own @ linked_outbounds links)). mget ob ''tag'' = GStr t"
    if t: "t \<in> set (map snd (own @ linked_outbounds links))" for t
  proof -
    obtain p where p: "p \<in> set (own @ linked_outbounds links)" "t = snd p" using t unfolding set_map by blast
    have "mget (fst p) ''tag'' = GStr t" using every p by blast
    moreover have "fst p \<in> set (map fst (own @ linked_outbounds links))" unfolding set_map using p(1) by (rule imageI)
    ultimately show ?thesis by blast
  qed
  let ?os = "map fst (own @ linked_outbounds links)" and ?tags = "map snd (own @ linked_outbounds links)"
  have def: "\<exists>ob\<in>set (addDefaultOutbounds ?os ?tags). mget ob ''tag'' = GStr n" if "n \<in> {''auto'', ''direct''}" for n
    using that unfolding addDefaultOutbounds_def by fastforce
  have "\<exists>ob\<in>set (addDefaultOutbounds ?os ?tags). mget ob ''tag'' = GStr n" if "n \<in> set ([''auto'', ''direct''] @ ?tags)" for n
  proof (cases "n \<in> {''auto'', ''direct''}")
    case True
    then show ?thesis by (rule def)
  next
    case False
    then have "n \<in> set ?tags" using that by auto
    from tags [OF this] show ?thesis by (auto simp: addDefaultOutbounds_def)
  qed
  moreover have "mget doc ''outbounds'' = GMaps (addDefaultOutbounds ?os ?tags)" unfolding doc added_outbounds by simp
  ultimately show ?thesis by blast
qed

text \<open>A client with one inbound and one external link.\<close>

definition sub_db :: panel_db where
  "sub_db = empty_db\<lparr>
     db_Clients := \<lparr>tb_Rows = [example_client\<lparr>cl_Inbounds := uints_raw [1],
        cl_Config := RVal (GMap [(''anytls'', GMap [(''name'', GStr ''ann''), (''password'', GStr ''pw'')])]),
        cl_Links := RVal (GList [GMap [(''type'', GStr ''external''), (''uri'', GStr ''anytls://x@h:1#far'')]])\<rparr>], tb_Seq = 1\<rparr>,
     db_Inbounds := \<lparr>tb_Rows = [empty_inbound\<lparr>in_Id := 1, in_Type := ''anytls'', in_Tag := ''near'',
        in_Addrs := RVal (GList []),
        in_OutJson := RVal (GMap [(''type'', GStr ''anytls''), (''tag'', GStr ''near''), (''server'', GStr ''h''), (''server_port'', GFloat 2)])\<rparr>], tb_Seq = 1\<rparr>\<rparr>"

theorem json_groups_resolve_witness:
  "\<exists>doc headers os tags. GetJson (\<lambda>_. None) example_settings sub_db ''ann'' = Inr (doc, headers)
    \<and> mget doc ''outbounds'' = GMaps (addDefaultOutbounds os tags)
    \<and> (\<forall>n\<in>set ([''auto'', ''direct''] @ tags). \<exists>ob\<in>set (addDefaultOutbounds os tags). mget ob ''tag'' = GStr n)"
proof -
  have "case GetJson (\<lambda>_. None) example_settings sub_db ''ann'' of Inr (doc, headers) \<Rightarrow> True | Inl _ \<Rightarrow> False" by code_simp
  then obtain doc headers where r: "GetJson (\<lambda>_. None) example_settings sub_db ''ann'' = Inr (doc, headers)"
    by (auto split: sum.splits)
  have "tagged_rows sub_db"
    by (auto simp: tagged_rows_def sub_db_def example_client_def empty_inbound_def decode_map_def as_map_def split: gval.split)
  from json_groups_resolve [OF r this] show ?thesis using r by blast
qed

section \<open>The Clash document\<close>

text \<open>No step after the first writes the name of a proxy.\<close>

lemma copy_keeps [simp]:
  "k \<noteq> j \<Longrightarrow> mget (copied p k m k') j = mget p j" "k \<noteq> j \<Longrightarrow> mget (copy_float p k m k') j = mget p j"
  "k \<noteq> j \<Longrightarrow> mget (copy_str p k m k') j = mget p j" "k \<noteq> j \<Longrightarrow> mget (copy_bool p k m k') j = mget p j"
  by (simp_all add: copied_def copy_float_def copy_str_def copy_bool_def split: gval.split)

lemma clash_hysteria_name: "mget (clash_hysteria t ob p) ''name'' = mget p ''name''"
  by (simp add: clash_hysteria_def clash_ports_def Let_def split: gval.split)

lemma clash_uuid_name: "mget (clash_uuid t ob p) ''name'' = mget p ''name''"
  by (simp add: clash_uuid_def Let_def)

lemma clash_anytls_name: "mget (clash_anytls ob p) ''name'' = mget p ''name''"
  by (simp add: clash_anytls_def Let_def split: gval.split)

lemma clash_ss_name: "mget (clash_ss ob p) ''name'' = mget p ''name''"
  by (simp add: clash_ss_def Let_def split: gval.split)

lemma if_Some_cases: "(if c then Some a else x) = Some p \<Longrightarrow> P a \<Longrightarrow> (x = Some p \<Longrightarrow> P p) \<Longrightarrow> P p"
  by (auto split: if_splits)

lemma clash_base_name [simp]: "mget (clash_base t ob) ''name'' = mget ob ''tag''"
  by (simp add: clash_base_def)

lemma clash_protocol_name: "clash_protocol t ob = Some p \<Longrightarrow> mget p ''name'' = mget ob ''tag''"
  unfolding clash_protocol_def Let_def
  by (elim if_Some_cases) (simp_all add: clash_hysteria_name clash_uuid_name clash_anytls_name clash_ss_name)

text \<open>The keys the steps after the protocol do not write.\<close>

definition kept :: "string \<Rightarrow> bool" where
  "kept k \<longleftrightarrow> k \<in> {''name'', ''ports'', ''up'', ''down''}"

lemma kept_keys [simp]: "kept ''name''" "kept ''ports''" "kept ''up''" "kept ''down''"
  by (simp_all add: kept_def)

lemma kept_other [simp]:
  assumes "kept k"
  shows "k \<noteq> ''tls''" "k \<noteq> ''alpn''" "k \<noteq> ''reality-opts''" "k \<noteq> ''client-fingerprint''" "k \<noteq> ''servername''" "k \<noteq> ''sni''"
    "k \<noteq> ''skip-cert-verify''" "k \<noteq> ''fingerprint''" "k \<noteq> ''ech-opts''" "k \<noteq> ''network''" "k \<noteq> ''h2-opts''" "k \<noteq> ''http-opts''"
    "k \<noteq> ''ws-opts''" "k \<noteq> ''grpc-opts''" "k \<noteq> ''smux''"
  using assms by (auto simp: kept_def)

lemmas kept_other_sym [simp] = kept_other [THEN not_sym]

lemma clash_alpn_keeps: "kept k \<Longrightarrow> mget (clash_alpn t tls p) k = mget p k"
  by (simp add: clash_alpn_def split: gval.split)

lemma clash_utls_keeps: "kept k \<Longrightarrow> mget (clash_utls tls p) k = mget p k"
  by (simp add: clash_utls_def split: gval.split)

lemma clash_reality_keeps: "kept k \<Longrightarrow> clash_reality tls p = Inr q \<Longrightarrow> mget q k = mget p k"
  by (auto simp: clash_reality_def bindr_Inr_iff split: gval.splits)

lemma clash_ech_keeps: "kept k \<Longrightarrow> clash_ech tls p = Inr q \<Longrightarrow> mget q k = mget p k"
  by (auto simp: clash_ech_def bindr_Inr_iff split: gval.splits if_splits)

lemma clash_tls_keeps:
  assumes "kept k" "clash_tls env t ob p = Inr q"
  shows "mget q k = mget p k"
proof (cases "clash_is_tls ob")
  case False
  then show ?thesis using assms(2) by (simp add: clash_tls_def)
next
  case True
  let ?tls = "as_map (mget ob ''tls'')"
  obtain p1 p5 where r: "clash_reality ?tls (clash_alpn t ?tls (copied p ''tls'' ?tls ''enabled'')) = Inr p1" "clash_ech ?tls p5 = Inr q"
    and p5: "mget p5 k = mget (clash_utls ?tls p1) k"
    using assms(2) True assms(1) by (fastforce simp: clash_tls_def Let_def bindr_Inr_iff)
  show ?thesis
    using clash_reality_keeps [OF assms(1) r(1)] clash_ech_keeps [OF assms(1) r(2)] assms(1) by (simp add: p5 clash_utls_keeps clash_alpn_keeps)
qed

lemma clash_http_keeps: "kept k \<Longrightarrow> clash_http isTls transport p = Inr q \<Longrightarrow> mget q k = mget p k"
  by (clarsimp simp: clash_http_def bindr_Inr_iff)

lemma clash_ws_keeps: "kept k \<Longrightarrow> mget (clash_ws isTls tls tt transport p) k = mget p k"
  by (simp add: clash_ws_def Let_def)

lemma if_Inr_cases: "(if c then x else y) = Inr q \<Longrightarrow> (x = Inr q \<Longrightarrow> P) \<Longrightarrow> (y = Inr q \<Longrightarrow> P) \<Longrightarrow> P"
  by (auto split: if_splits)

lemma clash_transport_keeps:
  assumes "kept k" "clash_transport ob p = Inr q"
  shows "mget q k = mget p k"
proof (cases "\<exists>m. mget ob ''transport'' = GMap m")
  case True
  then obtain m where "mget ob ''transport'' = GMap m" ..
  with assms(2) \<open>kept k\<close> show ?thesis
    unfolding clash_transport_def Let_def
    by (simp only: gval.simps) (elim if_Inr_cases; auto simp: clash_ws_keeps dest: clash_http_keeps)
next
  case False
  then show ?thesis using assms(2) by (cases "mget ob ''transport''") (simp_all add: clash_transport_def)
qed

lemma clash_mux_keeps: "kept k \<Longrightarrow> mget (clash_mux ob p) k = mget p k"
  by (simp add: clash_mux_def Let_def split: gval.split)

lemma clash_proxy_steps:
  assumes "clash_proxy env ob = Inr (Some (p, n))"
  obtains p0 where "clash_protocol (as_str (mget ob ''type'')) ob = Some p0" "mget ob ''tag'' = GStr n" "\<And>k. kept k \<Longrightarrow> mget p k = mget p0 k"
proof -
  obtain p0 p1 p2 where p: "clash_protocol (as_str (mget ob ''type'')) ob = Some p0" "clash_tls env (as_str (mget ob ''type'')) ob p0 = Inr p1"
    "clash_transport ob p1 = Inr p2" "must_string (mget ob ''tag'') = Inr n" "p = clash_mux ob p2"
    using assms by (auto simp: clash_proxy_def Let_def bindr_Inr_iff split: if_splits option.splits)
  have "mget p k = mget p0 k" if "kept k" for k
    using clash_tls_keeps [OF that p(2)] clash_transport_keeps [OF that p(3)] clash_mux_keeps [OF that] by (simp add: p(5))
  moreover have "mget ob ''tag'' = GStr n" using p(4) by (simp add: must_string_def panic_conv_def split: gval.splits)
  ultimately show ?thesis using that p(1) by blast
qed

lemma clash_proxy_name:
  assumes "clash_proxy env ob = Inr (Some (p, n))"
  shows "mget p ''name'' = GStr n"
  using clash_proxy_steps [OF assms] clash_protocol_name by (metis kept_keys(1))

text \<open>
  C27. Every name in the two groups that are added to a Clash subscription is the name of a proxy of
  the document, or is \<^verbatim>\<open>Auto\<close>, which is the second of the groups or one of the base configuration.
\<close>

theorem clash_groups_resolve:
  assumes "ConvertToClashMeta env False sprtAll outbounds base = Inr doc"
  shows "\<exists>tags ps. mget doc ''proxies'' = GList ps
    \<and> mget doc ''proxy-groups'' = merged_groups False sprtAll (mget base ''proxy-groups'') tags
    \<and> (\<forall>n\<in>set tags. \<exists>p. GMap p \<in> set ps \<and> mget p ''name'' = GStr n)"
proof -
  let ?made = "\<lambda>rs. concat (map (\<lambda>r. case r of None \<Rightarrow> [] | Some x \<Rightarrow> [x]) rs)"
  obtain rs where rs: "mapr (clash_proxy env) outbounds = Inr rs"
    and doc: "doc = mput (mput base ''proxies'' (GList ((case mget base ''proxies'' of GList p \<Rightarrow> p | _ \<Rightarrow> []) @ map GMap (map fst (?made rs)))))
      ''proxy-groups'' (merged_groups False sprtAll (mget base ''proxy-groups'') (map snd (?made rs)))"
    using assms by (auto simp: ConvertToClashMeta_def Let_def bindr_Inr_iff)
  have "mget (fst x) ''name'' = GStr (snd x)" if x: "x \<in> set (?made rs)" for x
  proof -
    have "Some x \<in> set rs" using x by (auto split: option.splits)
    then obtain j where "j < length rs" "rs ! j = Some x" by (auto simp: in_set_conv_nth)
    then have "clash_proxy env (outbounds ! j) = Inr (Some (fst x, snd x))"
      using rs by (auto simp: mapr_Inr_iff list_all2_conv_all_nth)
    then show ?thesis by (rule clash_proxy_name)
  qed
  then have "\<forall>n\<in>set (map snd (?made rs)). \<exists>p. GMap p \<in> set (map GMap (map fst (?made rs))) \<and> mget p ''name'' = GStr n"
    unfolding set_map by blast
  then have "\<forall>n\<in>set (map snd (?made rs)). \<exists>p. GMap p \<in> set (given @ map GMap (map fst (?made rs))) \<and> mget p ''name'' = GStr n" for given
    unfolding set_append by blast
  moreover have "mget doc ''proxies'' = GList ((case mget base ''proxies'' of GList p \<Rightarrow> p | _ \<Rightarrow> []) @ map GMap (map fst (?made rs)))"
    "mget doc ''proxy-groups'' = merged_groups False sprtAll (mget base ''proxy-groups'') (map snd (?made rs))"
    by (simp_all add: doc)
  ultimately show ?thesis by blast
qed

definition no_files :: link_env where
  "no_files = \<lparr>le_ReadFile = \<lambda>_. None, le_CertSha256Hex = \<lambda>_. [], le_Choose = \<lambda>_. 0\<rparr>"

theorem clash_groups_resolve_witness:
  "\<exists>doc tags ps. ConvertToClashMeta no_files False True
      [[(''type'', GStr ''direct''), (''tag'', GStr ''direct'')],
       [(''type'', GStr ''trojan''), (''tag'', GStr ''near''), (''server'', GStr ''h''), (''server_port'', GFloat 2)]] [] = Inr doc
    \<and> mget doc ''proxies'' = GList ps \<and> mget doc ''proxy-groups'' = merged_groups False True GNil tags
    \<and> (\<forall>n\<in>set tags. \<exists>p. GMap p \<in> set ps \<and> mget p ''name'' = GStr n)"
proof -
  let ?run = "ConvertToClashMeta no_files False True
      [[(''type'', GStr ''direct''), (''tag'', GStr ''direct'')],
       [(''type'', GStr ''trojan''), (''tag'', GStr ''near''), (''server'', GStr ''h''), (''server_port'', GFloat 2)]] []"
  have "case ?run of Inr _ \<Rightarrow> True | Inl _ \<Rightarrow> False" by code_simp
  then obtain doc where r: "?run = Inr doc" by (auto split: sum.splits)
  from clash_groups_resolve [OF r] r show ?thesis by (auto simp: mget_def)
qed

section \<open>Imported links in a Clash document\<close>

lemma positive_entry_simps [simp]:
  "mget (positive_entry k s) j = (if j = k \<and> 0 < Atoi_val s then GInt (Atoi_val s) else GNil)"
  "mhas (positive_entry k s) j \<longleftrightarrow> j = k \<and> 0 < Atoi_val s"
  by (auto simp: positive_entry_def mget_def mhas_def)

text \<open>The importer makes no \<^verbatim>\<open>float64\<close> and no \<^verbatim>\<open>[]interface{}\<close> of the limits and the ports.\<close>

definition go_typed :: "gmap \<Rightarrow> bool" where
  "go_typed m \<longleftrightarrow> (\<forall>k\<in>{''up_mbps'', ''down_mbps'', ''server_ports''}. mget m k = GNil \<or> (\<exists>n. mget m k = GInt n) \<or> (\<exists>l. mget m k = GStrs l))"

lemma import_hy_typed: "import_hy u i = Inr (m, tag) \<Longrightarrow> go_typed m"
  by (auto simp: import_hy_def Let_def go_typed_def link_base_def mget_append mhas_append split: if_splits)

lemma import_hy2_typed: "import_hy2 u i = Inr (m, tag) \<Longrightarrow> go_typed m"
  by (auto simp: import_hy2_def Let_def go_typed_def link_base_def mget_append mhas_append split: if_splits)

lemma clash_hysteria_typed:
  assumes "go_typed m" "t \<in> {''hysteria'', ''hysteria2''}" "clash_protocol t m = Some p"
  shows "mget p ''up'' = GNil \<and> mget p ''down'' = GNil \<and> mget p ''ports'' = GNil"
proof -
  have "p = clash_hysteria t m (clash_base t m)" using assms(2,3) by (auto simp: clash_protocol_def Let_def)
  moreover have "copy_float q ''up'' m ''up_mbps'' = q" "copy_float q ''down'' m ''down_mbps'' = q" "clash_ports m q = q" for q
    using assms(1) by (auto simp: go_typed_def copy_float_def clash_ports_def)
  moreover have "mget (clash_base s m) ''up'' = GNil \<and> mget (clash_base s m) ''down'' = GNil \<and> mget (clash_base s m) ''ports'' = GNil" for s
    by (simp add: clash_base_def mget_def)
  ultimately show ?thesis by (simp add: clash_hysteria_def Let_def split: gval.split)
qed

lemma imported_hysteria:
  assumes "GetOutbound link i = Inr (m, tag)" "mget m ''type'' = GStr t" "t \<in> {''hysteria'', ''hysteria2''}"
  shows "go_typed m"
proof -
  have "\<exists>u. import_hy u i = Inr (m, tag) \<or> import_hy2 u i = Inr (m, tag)"
    using assms unfolding GetOutbound_def
    by (auto simp: Let_def import_vmess_def import_vless_def import_trojan_def import_anytls_def
      import_tuic_def import_ss_def parseNaiveLink_def bindr_Inr_iff split: option.splits if_splits)
  then show ?thesis using import_hy_typed import_hy2_typed by blast
qed

text \<open>
  A Hysteria link that is imported into a Clash subscription loses its bandwidth limits and
  its port ranges: the importer stores an \<^verbatim>\<open>int\<close> and a \<^verbatim>\<open>[]string\<close>, the converter only copies a \<^verbatim>\<open>float64\<close> and an \<^verbatim>\<open>[]interface{}\<close>.
\<close>

theorem imported_hysteria_loses:
  assumes "GetOutbound link i = Inr (m, tag)" "mget m ''type'' = GStr t" "t \<in> {''hysteria'', ''hysteria2''}"
    and "clash_proxy env m = Inr (Some (p, n))"
  shows "mget p ''up'' = GNil \<and> mget p ''down'' = GNil \<and> mget p ''ports'' = GNil"
proof -
  obtain p0 where p: "clash_protocol (as_str (mget m ''type'')) m = Some p0" "\<And>k. kept k \<Longrightarrow> mget p k = mget p0 k"
    using clash_proxy_steps [OF assms(4)] by metis
  have "clash_protocol t m = Some p0" using p(1) by (simp add: assms(2) as_str_def)
  from clash_hysteria_typed [OF imported_hysteria [OF assms(1-3)] assms(3) this] show ?thesis by (simp add: p(2))
qed

text \<open>A link with a limit: it is in the outbound, and not in the proxy.\<close>

theorem imported_hysteria_loses_witness:
  "\<exists>m tag p. GetOutbound ''hysteria2://pw@h:1?upmbps=50&mport=1000-2000#far'' 0 = Inr (m, tag)
    \<and> mget m ''up_mbps'' = GInt 50 \<and> mget p ''name'' = GStr tag
    \<and> mget p ''up'' = GNil \<and> mget p ''down'' = GNil \<and> mget p ''ports'' = GNil"
proof -
  let ?link = "''hysteria2://pw@h:1?upmbps=50&mport=1000-2000#far''"
  have "case GetOutbound ?link 0 of Inr (m, tag) \<Rightarrow> mget m ''type'' = GStr ''hysteria2'' \<and> mget m ''up_mbps'' = GInt 50
      \<and> (case clash_proxy no_files m of Inr (Some (p, n)) \<Rightarrow> mget p ''name'' = GStr tag | _ \<Rightarrow> False) | Inl _ \<Rightarrow> False"
    by code_simp
  then obtain m tag where m: "GetOutbound ?link 0 = Inr (m, tag)" "mget m ''type'' = GStr ''hysteria2''" "mget m ''up_mbps'' = GInt 50"
    and c: "case clash_proxy no_files m of Inr (Some (p, n)) \<Rightarrow> mget p ''name'' = GStr tag | _ \<Rightarrow> False"
    by (cases "GetOutbound ?link 0") auto
  obtain p n where p: "clash_proxy no_files m = Inr (Some (p, n))" "mget p ''name'' = GStr tag"
    using c by (cases "clash_proxy no_files m") (auto split: option.splits)
  from imported_hysteria_loses [OF m(1,2) _ p(1)] m p(2) show ?thesis by auto
qed

section \<open>Overrides\<close>

lemma mmerge_append: "mmerge m (a @ b) = mmerge (mmerge m a) b"
  by (simp add: mmerge_def)

lemma copy_shared:
  assumes "copy_outbound outbound tag i addr (Some m) = (c, shared')"
  shows "shared' = Some (mmerge m (as_map (mget addr ''tls'')))" "ac_TlsRef c = Shared_Map"
  using assms by (auto simp: copy_outbound_def Let_def as_map_def mmerge_def split: gval.splits)

lemma copies_shared:
  "copy_outbounds outbound tag i addrs (Some m) = (cs, shared') \<Longrightarrow>
    shared' = Some (mmerge m (concat (map (\<lambda>a. as_map (mget a ''tls'')) addrs))) \<and> (\<forall>c\<in>set cs. ac_TlsRef c = Shared_Map)"
proof (induction addrs arbitrary: i m cs shared')
  case Nil
  then show ?case by (simp add: mmerge_def)
next
  case (Cons a addrs)
  obtain c s1 where c: "copy_outbound outbound tag i a (Some m) = (c, s1)" by (metis surj_pair)
  note f = copy_shared [OF c]
  obtain cs1 s2 where cs: "copy_outbounds outbound tag (Suc i) addrs s1 = (cs1, s2)" by (metis surj_pair)
  from Cons.IH [OF cs [unfolded f(1)]] f(2) Cons.prems show ?case
    by (auto simp: c cs [unfolded f(1)] f(1) mmerge_append)
qed

text \<open>
  C28. An override of the TLS settings for one address reaches every address of the inbound: the
  copies share the nested map, so that each of them ends with the settings of the outbound and the
  overrides of all addresses, the last one winning.
\<close>

theorem address_override_leaks:
  assumes "mget outbound ''tls'' = GMap tls" "(out, newTag) \<in> set (address_outbounds outbound tag addrs)"
  shows "mget out ''tls'' = GMap (mmerge tls (concat (map (\<lambda>a. as_map (mget a ''tls'')) addrs)))"
proof -
  obtain cs shared where c: "copy_outbounds outbound tag 0 addrs (Some tls) = (cs, shared)" by (metis surj_pair)
  have "tls_cell outbound = Some tls" by (simp add: tls_cell_def assms(1))
  then obtain k where "k \<in> set cs" "out = read_copy shared k" using assms(2) by (auto simp: address_outbounds_def c)
  then show ?thesis using copies_shared [OF c] by (simp add: read_copy_def)
qed

text \<open>The first of two addresses is given the server name of the second.\<close>

theorem address_override_leaks_witness:
  "\<exists>out. (out, ''1.in'') \<in> set (address_outbounds [(''tls'', GMap [(''server_name'', GStr ''one'')])] ''in''
      [[(''server'', GStr ''a'')], [(''server'', GStr ''b''), (''tls'', GMap [(''server_name'', GStr ''two'')])]])
    \<and> mget out ''tls'' = GMap [(''server_name'', GStr ''two'')]"
proof -
  let ?ob = "[(''tls'', GMap [(''server_name'', GStr ''one'')])]"
    and ?addrs = "[[(''server'', GStr ''a'')], [(''server'', GStr ''b''), (''tls'', GMap [(''server_name'', GStr ''two'')])]]"
  have "''1.in'' \<in> set (map snd (address_outbounds ?ob ''in'' ?addrs))" by code_simp
  then obtain out where o: "(out, ''1.in'') \<in> set (address_outbounds ?ob ''in'' ?addrs)" by auto
  have "mget out ''tls'' = GMap (mmerge [(''server_name'', GStr ''one'')] (concat (map (\<lambda>a. as_map (mget a ''tls'')) ?addrs)))"
    by (rule address_override_leaks [OF _ o]) simp
  also have "mmerge [(''server_name'', GStr ''one'')] (concat (map (\<lambda>a. as_map (mget a ''tls'')) ?addrs)) = [(''server_name'', GStr ''two'')]"
    by code_simp
  finally show ?thesis using o by blast
qed

end
