(* ===== verification/Out_Json.thy ===== *)
theory Out_Json
  imports Gen_Link
begin

text \<open>
  The client side of an inbound (\<^verbatim>\<open>util/outJson.go\<close>): the outbound object a client application
  would use, kept in the column \<^verbatim>\<open>out_json\<close>. Fields the panel knows are set from the inbound and
  its TLS row; other fields an administrator added stay.
\<close>

section \<open>TLS\<close>

definition copy_fields :: "string list \<Rightarrow> gmap \<Rightarrow> gmap \<Rightarrow> gmap" where
  "copy_fields ks src dst = foldl (\<lambda>m k. if mhas src k then mput m k (mget src k) else m) dst ks"

definition tls_copied :: "string list" where
  "tls_copied = [''enabled'', ''server_name'', ''alpn'', ''min_version'', ''max_version'', ''certificate'', ''cipher_suites'']"

text \<open>\<open>v, ok := m[k].(map[string]interface{}); ok && v["enabled"].(bool)\<close>\<close>

definition enabled_block :: "gmap \<Rightarrow> string \<Rightarrow> gmap option result" where
  "enabled_block m k = (case mget m k of
     GMap b \<Rightarrow> bindr (must_bool (mget b ''enabled'')) (\<lambda>on. Inr (if on then Some b else None))
   | _ \<Rightarrow> Inr None)"

definition add_reality :: "link_env \<Rightarrow> gmap \<Rightarrow> gmap \<Rightarrow> gmap result" where
  "add_reality env srv cfg = bindr (enabled_block srv ''reality'') (\<lambda>b. case b of
     None \<Rightarrow> Inr cfg
   | Some reality \<Rightarrow> (case mget cfg ''reality'' of
       GMap rc \<Rightarrow>
         (let rc1 = mput rc ''enabled'' (GBool True);
              rc2 = (case mget reality ''short_id'' of
                GList ids \<Rightarrow> if ids = [] then rc1
                  else mput rc1 ''short_id'' (ids ! (le_Choose env (length ids) mod length ids))
              | _ \<Rightarrow> rc1)
          in Inr (mput cfg ''reality'' (GMap rc2)))
     | _ \<Rightarrow> panic_conv))"

definition add_ech :: "gmap \<Rightarrow> gmap \<Rightarrow> gmap result" where
  "add_ech srv cfg = bindr (enabled_block srv ''ech'') (\<lambda>b. case b of
     None \<Rightarrow> Inr cfg
   | Some ech \<Rightarrow> (case mget cfg ''ech'' of
       GMap ec \<Rightarrow> Inr (mput cfg ''ech'' (GMap (mput (mput (mput ec ''enabled'' (GBool True))
         ''pq_signature_schemes_enabled'' (mget ech ''pq_signature_schemes_enabled''))
         ''dynamic_record_sizing_disabled'' (mget ech ''dynamic_record_sizing_disabled''))))
     | _ \<Rightarrow> panic_conv))"

definition addTls :: "link_env \<Rightarrow> gmap \<Rightarrow> tls_row option \<Rightarrow> gmap result" where
  "addTls env out t = (case t of
     None \<Rightarrow> panic_nil
   | Some t \<Rightarrow> (case (decode_map (tls_Server t), decode_map (tls_Client t)) of
       (Some srv, Some cfg) \<Rightarrow>
         if decode (tls_Client t) = Some GNil \<and> list_ex (mhas srv) tls_copied
         then Inl ''panic: assignment to entry in nil map''
         else bindr (add_reality env srv (copy_fields tls_copied srv cfg)) (\<lambda>c1. bindr (add_ech srv c1) (\<lambda>c2.
           Inr (mput out ''tls'' (if decode (tls_Client t) = Some GNil then GNil else GMap c2))))
     | _ \<Rightarrow> Inr out))"

section \<open>Protocols\<close>

definition naiveOut :: "gmap \<Rightarrow> gmap \<Rightarrow> gmap" where
  "naiveOut out inb = (case mget inb ''quic_congestion_control'' of
     GStr q \<Rightarrow> mput (mput out ''quic'' (GBool True)) ''quic_congestion_control''
       (GStr (if q = ''bbr_standard'' then ''bbr'' else if q = ''bbr2_variant'' then ''bbr2'' else q))
   | _ \<Rightarrow> out)"

definition shadowsocksOut :: "gmap \<Rightarrow> gmap \<Rightarrow> gmap" where
  "shadowsocksOut out inb = (case mget inb ''method'' of GStr m \<Rightarrow> mput out ''method'' (GStr m) | _ \<Rightarrow> out)"

definition shadowTlsOut :: "gmap \<Rightarrow> gmap \<Rightarrow> gmap" where
  "shadowTlsOut out inb =
     (let out1 = (case mget inb ''version'' of
            GFloat v \<Rightarrow> if trunc_rat v = 3 then mput out ''version'' (GInt 3) else []
          | _ \<Rightarrow> [])
      in mput out1 ''tls'' (GMap [(''enabled'', GBool True)]))"

definition drop_fields :: "string list \<Rightarrow> gmap \<Rightarrow> gmap" where
  "drop_fields ks m = foldl mdel m ks"

definition rename_field :: "gmap \<Rightarrow> string \<times> string \<Rightarrow> gmap \<Rightarrow> gmap" where
  "rename_field inb p out = (if mhas inb (fst p) then mput out (snd p) (mget inb (fst p)) else out)"

definition hysteriaOut :: "gmap \<Rightarrow> gmap \<Rightarrow> gmap" where
  "hysteriaOut out inb =
     fold (rename_field inb) [(''down_mbps'', ''up_mbps''), (''up_mbps'', ''down_mbps''), (''obfs'', ''obfs''),
         (''recv_window_conn'', ''recv_window_conn''), (''disable_mtu_discovery'', ''disable_mtu_discovery'')]
       (drop_fields [''down_mbps'', ''up_mbps'', ''obfs'', ''recv_window_conn'', ''disable_mtu_discovery''] out)"

definition hysteria2Out :: "gmap \<Rightarrow> gmap \<Rightarrow> gmap" where
  "hysteria2Out out inb =
     fold (rename_field inb) [(''down_mbps'', ''up_mbps''), (''up_mbps'', ''down_mbps''), (''obfs'', ''obfs'')]
       (drop_fields [''down_mbps'', ''up_mbps'', ''obfs''] out)"

definition tuicOut :: "gmap \<Rightarrow> gmap \<Rightarrow> gmap" where
  "tuicOut out inb =
     (let o1 = drop_fields [''zero_rtt_handshake'', ''heartbeat''] out;
          o2 = mput o1 ''congestion_control'' (case mget inb ''congestion_control'' of GStr c \<Rightarrow> GStr c | _ \<Rightarrow> GStr ''cubic'');
          o3 = (case mget inb ''zero_rtt_handshake'' of GBool b \<Rightarrow> mput o2 ''zero_rtt_handshake'' (GBool b) | _ \<Rightarrow> o2)
      in rename_field inb (''heartbeat'', ''heartbeat'') o3)"

definition transport_out :: "gmap \<Rightarrow> gmap \<Rightarrow> gmap" where
  "transport_out out inb = rename_field inb (''transport'', ''transport'') (mdel out ''transport'')"

definition vlessOut :: "gmap \<Rightarrow> gmap \<Rightarrow> gmap" where "vlessOut out inb = transport_out out inb"
definition trojanOut :: "gmap \<Rightarrow> gmap \<Rightarrow> gmap" where "trojanOut out inb = transport_out out inb"

definition vmessOut :: "gmap \<Rightarrow> gmap \<Rightarrow> gmap" where
  "vmessOut out inb = transport_out (mput out ''alter_id'' (GInt 0)) inb"

definition protocol_out :: "string \<Rightarrow> gmap \<Rightarrow> gmap \<Rightarrow> gmap" where
  "protocol_out ty out inb =
     (if ty \<in> {''http'', ''socks'', ''mixed'', ''anytls''} then out
      else if ty = ''naive'' then naiveOut out inb
      else if ty = ''shadowsocks'' then shadowsocksOut out inb
      else if ty = ''shadowtls'' then shadowTlsOut out inb
      else if ty = ''hysteria'' then hysteriaOut out inb
      else if ty = ''hysteria2'' then hysteria2Out out inb
      else if ty = ''tuic'' then tuicOut out inb
      else if ty = ''vless'' then vlessOut out inb
      else if ty = ''trojan'' then trojanOut out inb
      else if ty = ''vmess'' then vmessOut out inb
      else [])"

definition no_out_json :: "string \<Rightarrow> bool" where
  "no_out_json ty \<longleftrightarrow> ty \<in> {''direct'', ''tun'', ''redirect'', ''tproxy'', ''dokodemo-door''}"

definition out_base :: "inbound \<Rightarrow> string \<Rightarrow> gmap \<Rightarrow> gmap \<Rightarrow> gmap" where
  "out_base i hostname inb out =
     mput (mput (mput (mput out ''type'' (GStr (in_Type i))) ''tag'' (GStr (in_Tag i))) ''server'' (GStr hostname))
       ''server_port'' (mget inb ''listen_port'')"

definition FillOutJson :: "link_env \<Rightarrow> inbound \<Rightarrow> string \<Rightarrow> inbound result" where
  "FillOutJson env i hostname =
     (if no_out_json (in_Type i) then Inr i
      else case decode_map (in_OutJson i) of
        None \<Rightarrow> Inl json_err
      | Some out0 \<Rightarrow>
          bindr (if in_TlsId i > 0 then addTls env out0 (in_Tls i) else Inr (mdel out0 ''tls'')) (\<lambda>out1.
          bindr (MarshalFull i) (\<lambda>inb.
            Inr (i\<lparr>in_OutJson := mustJSON (GMap (protocol_out (in_Type i) (out_base i hostname inb out1) inb))\<rparr>))))"

section \<open>What the object says\<close>

named_theorems out_keys \<open>fields a step of the construction leaves alone\<close>

lemma mget_drop [out_keys]: "k \<notin> set ks \<Longrightarrow> mget (drop_fields ks m) k = mget m k"
  unfolding drop_fields_def by (induction ks arbitrary: m) auto

lemma mhas_drop [out_keys]: "k \<notin> set ks \<Longrightarrow> mhas (drop_fields ks m) k = mhas m k"
  unfolding drop_fields_def by (induction ks arbitrary: m) auto

lemma mget_rename [out_keys]: "k \<noteq> snd p \<Longrightarrow> mget (rename_field inb p out) k = mget out k"
  by (simp add: rename_field_def)

lemma mhas_rename [out_keys]: "k \<noteq> snd p \<Longrightarrow> mhas (rename_field inb p out) k = mhas out k"
  by (simp add: rename_field_def)

definition described :: "string list" where
  "described = [''type'', ''tag'', ''server'', ''server_port'']"

definition describes_type :: "string \<Rightarrow> bool" where
  "describes_type ty \<longleftrightarrow> ty \<in> {''http'', ''socks'', ''mixed'', ''anytls'', ''naive'', ''shadowsocks'', ''hysteria'',
     ''hysteria2'', ''tuic'', ''vless'', ''trojan'', ''vmess''}"

lemma described_keys:
  "k \<in> set described \<Longrightarrow> k \<notin> {''quic'', ''quic_congestion_control'', ''method'', ''down_mbps'', ''up_mbps'', ''obfs'',
     ''recv_window_conn'', ''disable_mtu_discovery'', ''zero_rtt_handshake'', ''heartbeat'', ''congestion_control'',
     ''transport'', ''alter_id''}"
  by (auto simp: described_def)

lemma naiveOut_keeps [out_keys]:
  assumes "k \<in> set described"
  shows "mget (naiveOut out inb) k = mget out k" "mhas (naiveOut out inb) k = mhas out k"
  using described_keys [OF assms] unfolding naiveOut_def Let_def
  by (simp_all add: out_keys split: gval.split)

lemma shadowsocksOut_keeps [out_keys]:
  assumes "k \<in> set described"
  shows "mget (shadowsocksOut out inb) k = mget out k" "mhas (shadowsocksOut out inb) k = mhas out k"
  using described_keys [OF assms] unfolding shadowsocksOut_def Let_def
  by (simp_all add: out_keys split: gval.split)

lemma hysteriaOut_keeps [out_keys]:
  assumes "k \<in> set described"
  shows "mget (hysteriaOut out inb) k = mget out k" "mhas (hysteriaOut out inb) k = mhas out k"
  using described_keys [OF assms] unfolding hysteriaOut_def Let_def
  by (simp_all add: out_keys split: gval.split)

lemma hysteria2Out_keeps [out_keys]:
  assumes "k \<in> set described"
  shows "mget (hysteria2Out out inb) k = mget out k" "mhas (hysteria2Out out inb) k = mhas out k"
  using described_keys [OF assms] unfolding hysteria2Out_def Let_def
  by (simp_all add: out_keys split: gval.split)

lemma tuicOut_keeps [out_keys]:
  assumes "k \<in> set described"
  shows "mget (tuicOut out inb) k = mget out k" "mhas (tuicOut out inb) k = mhas out k"
  using described_keys [OF assms] unfolding tuicOut_def Let_def
  by (simp_all add: out_keys split: gval.split)

lemma vlessOut_keeps [out_keys]:
  assumes "k \<in> set described"
  shows "mget (vlessOut out inb) k = mget out k" "mhas (vlessOut out inb) k = mhas out k"
  using described_keys [OF assms] unfolding vlessOut_def transport_out_def Let_def
  by (simp_all add: out_keys split: gval.split)

lemma trojanOut_keeps [out_keys]:
  assumes "k \<in> set described"
  shows "mget (trojanOut out inb) k = mget out k" "mhas (trojanOut out inb) k = mhas out k"
  using described_keys [OF assms] unfolding trojanOut_def transport_out_def Let_def
  by (simp_all add: out_keys split: gval.split)

lemma vmessOut_keeps [out_keys]:
  assumes "k \<in> set described"
  shows "mget (vmessOut out inb) k = mget out k" "mhas (vmessOut out inb) k = mhas out k"
  using described_keys [OF assms] unfolding vmessOut_def transport_out_def Let_def
  by (simp_all add: out_keys split: gval.split)

lemma protocol_out_keeps:
  assumes ty: "describes_type ty" and k: "k \<in> set described"
  shows "mget (protocol_out ty out inb) k = mget out k" "mhas (protocol_out ty out inb) k = mhas out k"
proof -
  have "protocol_out ty out inb \<in> {out, naiveOut out inb, shadowsocksOut out inb, hysteriaOut out inb,
      hysteria2Out out inb, tuicOut out inb, vlessOut out inb, trojanOut out inb, vmessOut out inb}"
    using ty unfolding describes_type_def by (elim insertE emptyE) (simp_all add: protocol_out_def)
  then show "mget (protocol_out ty out inb) k = mget out k" "mhas (protocol_out ty out inb) k = mhas out k"
    by (auto simp: out_keys k)
qed

text \<open>
  The outbound object of a shareable inbound always names the inbound's protocol and tag, the
  host it was asked for and the inbound's port, whatever the object held before, and
  nothing else of the inbound changes.
\<close>

theorem FillOutJson_describes:
  assumes "FillOutJson env i hostname = Inr i'" "describes_type (in_Type i)"
  shows "\<exists>m inb. decode_map (in_OutJson i') = Some m \<and> MarshalFull i = Inr inb
    \<and> mget m ''type'' = GStr (in_Type i) \<and> mget m ''tag'' = GStr (in_Tag i) \<and> mget m ''server'' = GStr hostname
    \<and> mget m ''server_port'' = json_norm (mget inb ''listen_port'')
    \<and> i'\<lparr>in_OutJson := in_OutJson i\<rparr> = i"
proof -
  have "\<not> no_out_json (in_Type i)" using assms(2) by (auto simp: describes_type_def no_out_json_def)
  then obtain out1 inb where inb: "MarshalFull i = Inr inb"
    and i': "i' = i\<lparr>in_OutJson := mustJSON (GMap (protocol_out (in_Type i) (out_base i hostname inb out1) inb))\<rparr>"
    using assms(1) by (auto simp: FillOutJson_def bindr_Inr_iff split: option.splits)
  let ?m = "protocol_out (in_Type i) (out_base i hostname inb out1) inb"
  have "mget ?m k = mget (out_base i hostname inb out1) k" "mhas ?m k" if "k \<in> set described" for k
    using protocol_out_keeps [OF assms(2) that] that by (auto simp: described_def out_base_def)
  then show ?thesis by (auto simp: i' inb mget_map_prod described_def out_base_def)
qed

definition example_inbound :: inbound where
  "example_inbound = \<lparr>in_Id = 4, in_Type = ''hysteria2'', in_Tag = ''hy'', in_CoreType = ''sing-box'', in_TlsId = 0,
     in_Tls = None, in_Addrs = RVal (GList []), in_OutJson = RVal (GMap [(''up_mbps'', GFloat 5)]),
     in_Options = RVal (GMap [(''listen_port'', GFloat 443), (''up_mbps'', GFloat 100)])\<rparr>"

theorem FillOutJson_describes_witness:
  "\<exists>i' m. FillOutJson \<lparr>le_ReadFile = \<lambda>_. None, le_CertSha256Hex = \<lambda>_. [], le_Choose = \<lambda>_. 0\<rparr> example_inbound ''vpn.example'' = Inr i'
     \<and> decode_map (in_OutJson i') = Some m \<and> mget m ''server'' = GStr ''vpn.example''"
proof -
  let ?env = "\<lparr>le_ReadFile = \<lambda>_. None, le_CertSha256Hex = \<lambda>_. [], le_Choose = \<lambda>_. 0\<rparr>"
  have ty: "describes_type (in_Type example_inbound)" by code_simp
  have "\<not> isl (FillOutJson ?env example_inbound ''vpn.example'')" by code_simp
  then obtain i' where i': "FillOutJson ?env example_inbound ''vpn.example'' = Inr i'"
    by (cases "FillOutJson ?env example_inbound ''vpn.example''") auto
  from FillOutJson_describes [OF i' ty] show ?thesis using i' by blast
qed

end
