(* ===== verification/Core_State.thy ===== *)
theory Core_State
  imports Panel_Db State_Result
begin

text \<open>
  The running sing-box core as the services drive it (\<^verbatim>\<open>core/main.go\<close>, \<^verbatim>\<open>core/endpoint.go\<close>): four
  managers with the configuration of every inbound, outbound, endpoint and service by its tag.
  What the library accepts is not under the repository's control: \<open>cv_Create\<close>, \<open>cv_Close\<close>,
  \<open>cv_Start\<close> and \<open>cv_Stop\<close> give its error for a request, or \<^const>\<open>None\<close>. Creating an item under
  a tag that exists replaces it; removing an unknown tag is \<^verbatim>\<open>os.ErrInvalid\<close>.

  A service changes the core while its transaction is still open, and an error does not undo
  these changes, so an operation carries the core through errors: it is a function from the
  core to a result and the core it leaves.
\<close>

datatype core_kind = Inbounds | Outbounds | Endpoints | Services

instantiation core_kind :: linorder
begin

definition kind_number :: "core_kind \<Rightarrow> nat" where
  "kind_number k = (case k of Inbounds \<Rightarrow> 0 | Outbounds \<Rightarrow> 1 | Endpoints \<Rightarrow> 2 | Services \<Rightarrow> 3)"

definition less_eq_core_kind :: "core_kind \<Rightarrow> core_kind \<Rightarrow> bool" where
  "less_eq_core_kind a b \<longleftrightarrow> kind_number a \<le> kind_number b"

definition less_core_kind :: "core_kind \<Rightarrow> core_kind \<Rightarrow> bool" where
  "less_core_kind a b \<longleftrightarrow> kind_number a < kind_number b"

instance
  by standard (auto simp: less_eq_core_kind_def less_core_kind_def kind_number_def split: core_kind.splits)

end

record core_env =
  cv_Create :: "core_kind \<Rightarrow> gmap \<Rightarrow> string option"
  cv_Close :: "core_kind \<Rightarrow> string \<Rightarrow> string option"
  cv_Start :: "gmap \<Rightarrow> string option"
  cv_Stop :: "string option"

record core_state =
  co_Running :: bool
  co_Items :: "core_kind \<Rightarrow> string \<rightharpoonup> gmap"

definition stopped_core :: core_state where
  "stopped_core = \<lparr>co_Running = False, co_Items = (\<lambda>_. Map.empty)\<rparr>"

section \<open>Operations that carry the core\<close>

type_synonym 'a svc = "core_state \<Rightarrow> 'a result \<times> core_state"

definition if_running :: "'a svc \<Rightarrow> 'a svc \<Rightarrow> 'a svc" where
  "if_running m n core = (if co_Running core then m core else n core)"

lemma if_running_Inr:
  "if_running m n core = (Inr y, core') \<longleftrightarrow>
     (if co_Running core then m core = (Inr y, core') else n core = (Inr y, core'))"
  by (simp add: if_running_def)

lemmas svc_Inr = bind_svc_Inr lift_svc_Inr if_running_Inr

section \<open>The core's operations\<close>

definition tag_of :: "gmap \<Rightarrow> string" where
  "tag_of cfg = as_str (mget cfg ''tag'')"

definition set_item :: "core_kind \<Rightarrow> string \<Rightarrow> gmap option \<Rightarrow> core_state \<Rightarrow> core_state" where
  "set_item k tag v core = core\<lparr>co_Items := (co_Items core)(k := (co_Items core k)(tag := v))\<rparr>"

definition not_running :: "unit result" where
  "not_running = NewError ''sing-box is not running''"

definition as_config :: "raw \<Rightarrow> gmap result" where
  "as_config r = (case r of RVal (GMap m) \<Rightarrow> Inr m | _ \<Rightarrow> Inl json_err)"

definition add_item :: "core_env \<Rightarrow> core_kind \<Rightarrow> raw \<Rightarrow> unit svc" where
  "add_item cv k config core =
     (if \<not> co_Running core then (not_running, core)
      else case as_config config of
        Inl e \<Rightarrow> (Inl e, core)
      | Inr cfg \<Rightarrow> (case cv_Create cv k cfg of
          Some e \<Rightarrow> (Inl e, core)
        | None \<Rightarrow> (Inr (), set_item k (tag_of cfg) (Some cfg) core)))"

definition ErrInvalid :: string where
  "ErrInvalid = ''invalid argument''"

definition remove_item :: "core_env \<Rightarrow> core_kind \<Rightarrow> string \<Rightarrow> unit svc" where
  "remove_item cv k tag core =
     (if \<not> co_Running core then (not_running, core)
      else case co_Items core k tag of
        None \<Rightarrow> (Inl ErrInvalid, core)
      | Some _ \<Rightarrow> (case cv_Close cv k tag of
          Some e \<Rightarrow> (Inl e, set_item k tag None core)
        | None \<Rightarrow> (Inr (), set_item k tag None core)))"

definition AddInbound :: "core_env \<Rightarrow> raw \<Rightarrow> unit svc" where "AddInbound cv = add_item cv Inbounds"
definition AddOutbound :: "core_env \<Rightarrow> raw \<Rightarrow> unit svc" where "AddOutbound cv = add_item cv Outbounds"
definition AddEndpoint :: "core_env \<Rightarrow> raw \<Rightarrow> unit svc" where "AddEndpoint cv = add_item cv Endpoints"
definition AddService :: "core_env \<Rightarrow> raw \<Rightarrow> unit svc" where "AddService cv = add_item cv Services"
definition RemoveInbound :: "core_env \<Rightarrow> string \<Rightarrow> unit svc" where "RemoveInbound cv = remove_item cv Inbounds"
definition RemoveOutbound :: "core_env \<Rightarrow> string \<Rightarrow> unit svc" where "RemoveOutbound cv = remove_item cv Outbounds"
definition RemoveEndpoint :: "core_env \<Rightarrow> string \<Rightarrow> unit svc" where "RemoveEndpoint cv = remove_item cv Endpoints"
definition RemoveService :: "core_env \<Rightarrow> string \<Rightarrow> unit svc" where "RemoveService cv = remove_item cv Services"

text \<open>\<open>if err != nil && err != os.ErrInvalid { return err }\<close>\<close>

definition ignore_invalid :: "unit svc \<Rightarrow> unit svc" where
  "ignore_invalid m core = (case m core of
     (Inl e, core') \<Rightarrow> if e = ErrInvalid then (Inr (), core') else (Inl e, core')
   | (Inr _, core') \<Rightarrow> (Inr (), core'))"

text \<open>The items a whole configuration lists under one of its four keys.\<close>

definition kind_key :: "core_kind \<Rightarrow> string" where
  "kind_key k = (case k of Inbounds \<Rightarrow> ''inbounds'' | Outbounds \<Rightarrow> ''outbounds'' | Endpoints \<Rightarrow> ''endpoints'' | Services \<Rightarrow> ''services'')"

definition listed_items :: "gmap \<Rightarrow> core_kind \<Rightarrow> string \<rightharpoonup> gmap" where
  "listed_items config k = map_of (map (\<lambda>v. (tag_of (as_map v), as_map v)) (as_list (mget config (kind_key k))))"

definition core_Start :: "core_env \<Rightarrow> raw \<Rightarrow> unit svc" where
  "core_Start cv config core = (case as_config config of
     Inl e \<Rightarrow> (Inl e, core)
   | Inr cfg \<Rightarrow> (case cv_Start cv cfg of
       Some e \<Rightarrow> (Inl e, core\<lparr>co_Items := (\<lambda>_. Map.empty)\<rparr>)
     | None \<Rightarrow> (Inr (), \<lparr>co_Running = True, co_Items = listed_items cfg\<rparr>)))"

definition core_Stop :: "core_env \<Rightarrow> unit svc" where
  "core_Stop cv core =
     (if co_Running core then (case cv_Stop cv of Some e \<Rightarrow> (Inl e, stopped_core) | None \<Rightarrow> (Inr (), stopped_core))
      else (Inr (), stopped_core))"

section \<open>What they do to the managers\<close>

lemma set_item_simps [simp]:
  "co_Running (set_item k tag v core) = co_Running core"
  "co_Items (set_item k tag v core) k' tag' = (if k' = k \<and> tag' = tag then v else co_Items core k' tag')"
  by (simp_all add: set_item_def)

lemma add_item_Inr:
  "add_item cv k config core = (Inr u, core') \<longleftrightarrow>
     co_Running core \<and> (\<exists>cfg. config = RVal (GMap cfg) \<and> cv_Create cv k cfg = None \<and> core' = set_item k (tag_of cfg) (Some cfg) core)"
  by (auto simp: add_item_def not_running_def as_config_def split: option.splits raw.splits gval.splits)

lemma drop_item_Inr:
  assumes "ignore_invalid (remove_item cv k tag) core = (Inr u, core')"
  shows "co_Running core" "core' = set_item k tag None core"
proof -
  have "NewError ''sing-box is not running'' \<noteq> (Inl ErrInvalid :: unit result)"
    by (simp add: NewError_def ErrInvalid_def)
  then show r: "co_Running core"
    using assms by (auto simp: ignore_invalid_def remove_item_def not_running_def NewError_def ErrInvalid_def split: if_splits)
  have same: "set_item k tag None core = core" if "co_Items core k tag = None"
    using that by (simp add: set_item_def fun_upd_idem)
  show "core' = set_item k tag None core"
    using assms r same by (auto simp: ignore_invalid_def remove_item_def split: option.splits if_splits)
qed

lemmas core_ops = AddInbound_def AddOutbound_def AddEndpoint_def AddService_def
  RemoveInbound_def RemoveOutbound_def RemoveEndpoint_def RemoveService_def

end
