(* ===== verification/Inbounds_Service.thy ===== *)
theory Inbounds_Service
  imports Clients Out_Json Core_State
begin

text \<open>
  The inbounds of the panel (\<^verbatim>\<open>service/inbounds.go\<close>): the configuration of an inbound with its users,
  saving and deleting inbounds with the running core and the clients kept in step, and reloading
  the inbounds whose users changed.
\<close>

record svc_env =
  sv_Client :: client_env
  sv_CoreEnv :: core_env
  sv_RegisterWarp :: "endpoint \<Rightarrow> endpoint result"
  sv_SetWarpLicense :: "string \<Rightarrow> endpoint \<Rightarrow> endpoint result"

text \<open>\<open>json.Unmarshal\<close> into a string: \<^verbatim>\<open>null\<close> leaves it empty.\<close>

definition str_of_raw :: "raw \<Rightarrow> string result" where
  "str_of_raw r = (case decode r of Some (GStr s) \<Rightarrow> Inr s | Some GNil \<Rightarrow> Inr [] | _ \<Rightarrow> Inl json_err)"

section \<open>Checks\<close>

definition xraySupportedInboundTypes :: "string set" where
  "xraySupportedInboundTypes = {''vless'', ''vmess'', ''trojan'', ''shadowsocks'', ''socks'', ''http'', ''mixed'',
     ''hysteria2'', ''dokodemo-door'', ''wireguard''}"

definition validateInboundRuntimeCore :: "inbound \<Rightarrow> unit result" where
  "validateInboundRuntimeCore i =
     (if RuntimeCore i \<noteq> CoreTypeXray then Inr ()
      else if in_Type i = [] then NewError ''xray inbound type is required''
      else if in_Type i \<notin> xraySupportedInboundTypes then
        NewErrorf (''xray inbound type <'' @ in_Type i @ ''> is not supported; supported: vless, vmess, trojan, shadowsocks, socks, http, mixed, hysteria2, dokodemo-door, wireguard'')
      else Inr ())"

section \<open>The users of an inbound\<close>

definition hasUser :: "string \<Rightarrow> bool" where
  "hasUser ty \<longleftrightarrow> ty \<in> {''mixed'', ''socks'', ''http'', ''shadowsocks'', ''vmess'', ''trojan'', ''naive'', ''hysteria'',
     ''shadowtls'', ''tuic'', ''hysteria2'', ''vless'', ''anytls''}"

text \<open>
  \<open>strings.Replace(user, "xtls-rprx-vision", "", -1)\<close> on the text of a JSON value: the flow's
  name is cut out of every string and every key of the value.
\<close>

definition vision_flow :: string where
  "vision_flow = ''xtls-rprx-vision''"

primrec strip_flow :: "gval \<Rightarrow> gval" where
  "strip_flow GNil = GNil"
| "strip_flow (GBool b) = GBool b"
| "strip_flow (GFloat r) = GFloat r"
| "strip_flow (GInt i) = GInt i"
| "strip_flow (GStr s) = GStr (ReplaceAll s vision_flow [])"
| "strip_flow (GList xs) = GList (map strip_flow xs)"
| "strip_flow (GStrs ss) = GStrs (map (\<lambda>s. ReplaceAll s vision_flow []) ss)"
| "strip_flow (GMap m) = GMap (map (map_prod (\<lambda>k. ReplaceAll k vision_flow []) strip_flow) m)"
| "strip_flow (GMaps ms) = GMaps (map (map (map_prod (\<lambda>k. ReplaceAll k vision_flow []) strip_flow)) ms)"

text \<open>
  \<open>json_extract\<close> delivers a JSON object as its text, a JSON string as the bare string and a
  boolean as a number; the text becomes a \<^verbatim>\<open>json.RawMessage\<close>, so a bare string must be JSON itself.
\<close>

definition user_value :: "gval \<Rightarrow> gval result" where
  "user_value v = (case v of
     GStr s \<Rightarrow> (case json_Unmarshal s of Some w \<Rightarrow> Inr w | None \<Rightarrow> Inl json_err)
   | GBool b \<Rightarrow> Inr (GFloat (if b then 1 else 0))
   | _ \<Rightarrow> Inr v)"

definition config_entry :: "string \<Rightarrow> client \<Rightarrow> gval" where
  "config_entry ty c = (case cl_Config c of RVal (GMap m) \<Rightarrow> mget m ty | _ \<Rightarrow> GNil)"

definition user_type :: "string \<Rightarrow> gmap \<Rightarrow> string" where
  "user_type ty inb =
     (if ty = ''shadowsocks'' \<and> mget inb ''method'' = GStr ''2022-blake3-aes-128-gcm'' then ''shadowsocks16'' else ty)"

definition plain_vless :: "string \<Rightarrow> gmap \<Rightarrow> bool" where
  "plain_vless ty inb \<longleftrightarrow> ty = ''vless'' \<and> mget inb ''tls'' = GNil"

definition fetchUsers :: "panel_db \<Rightarrow> string \<Rightarrow> (client \<Rightarrow> bool) \<Rightarrow> gmap \<Rightarrow> gval list result" where
  "fetchUsers db ty cond inb =
     (if ty = ''shadowtls'' \<and> trunc_rat (as_float (mget inb ''version'')) < 3 then Inr []
      else
        let ty' = user_type ty inb; rows = tb_Rows (db_Clients db) in
        if list_ex (\<lambda>c. cl_Enable c \<and> cl_Config c = RBad) rows then Inl ''malformed JSON''
        else mapr user_value (map (if plain_vless ty inb then strip_flow else (\<lambda>v. v))
               (map (config_entry ty') (filter (\<lambda>c. cl_Enable c \<and> config_entry ty' c \<noteq> GNil \<and> cond c) rows))))"

definition users_value :: "gval list \<Rightarrow> gval" where
  "users_value us = (if us = [] then GNil else GList us)"

definition put_users :: "panel_db \<Rightarrow> raw \<Rightarrow> (client \<Rightarrow> bool) \<Rightarrow> string \<Rightarrow> raw result" where
  "put_users db cfg cond ty = (case decode_map cfg of
     None \<Rightarrow> Inl json_err
   | Some inb \<Rightarrow> bindr (fetchUsers db ty cond inb) (\<lambda>us. Inr (mustJSON (GMap (mput inb ''users'' (users_value us))))))"

definition addUsers :: "panel_db \<Rightarrow> raw \<Rightarrow> nat \<Rightarrow> string \<Rightarrow> raw result" where
  "addUsers db cfg i ty = (if hasUser ty then put_users db cfg (lists_inbound i) ty else Inr cfg)"

definition initial_ids :: "string \<Rightarrow> nat list" where
  "initial_ids clientIds =
     (let ids = filter (\<lambda>s. s \<noteq> [] \<and> list_all (\<lambda>c. c \<in> set ''0123456789'') s) (map TrimSpace (Split clientIds (CHR '','')))
      in map (\<lambda>s. case Atoi s of Some n \<Rightarrow> nat n | None \<Rightarrow> 0) ids)"

definition initUsers :: "panel_db \<Rightarrow> raw \<Rightarrow> string \<Rightarrow> string \<Rightarrow> raw result" where
  "initUsers db cfg clientIds ty =
     (if TrimSpace clientIds = [] then Inr cfg
      else let ids = initial_ids (TrimSpace clientIds) in
        if ids = [] \<or> \<not> hasUser ty then Inr cfg else put_users db cfg (\<lambda>c. cl_Id c \<in> set ids) ty)"

section \<open>The configuration of the sing-box inbounds\<close>

definition singbox_row :: "inbound \<Rightarrow> bool" where
  "singbox_row i \<longleftrightarrow> in_CoreType i = CoreTypeSingBox \<or> in_CoreType i = []"

definition inbound_config :: "panel_db \<Rightarrow> inbound \<Rightarrow> raw result" where
  "inbound_config db i =
     bindr (Inbound_MarshalJSON (preload_inbound db i)) (\<lambda>cfg. addUsers db cfg (in_Id i) (in_Type i))"

definition Inbounds_GetAllConfig :: "panel_db \<Rightarrow> raw list result" where
  "Inbounds_GetAllConfig db = mapr (inbound_config db) (filter singbox_row (tb_Rows (db_Inbounds db)))"

text \<open>
  The list the panel shows: the fixed columns, two fields of the options and, for a protocol with
  users, the names of the clients that list the inbound, one per entry of the list.
\<close>

definition users_shown :: "panel_db \<Rightarrow> inbound \<Rightarrow> gmap \<Rightarrow> string list option result" where
  "users_shown db i rest =
     (if hasUser (in_Type i)
         \<and> \<not> (in_Type i = ''shadowtls'' \<and> (case all_uints [mget rest ''version''] of Some [n] \<Rightarrow> n | _ \<Rightarrow> 0) < 3)
         \<and> \<not> (in_Type i = ''shadowsocks'' \<and> as_bool (mget rest ''managed''))
      then if list_ex (\<lambda>c. cl_Inbounds c = RBad) (tb_Rows (db_Clients db)) then Inl ''malformed JSON''
           else Inr (Some (concat (map (\<lambda>c. map (\<lambda>_. cl_Name c)
                  (filter (\<lambda>v. v = GFloat (of_nat (in_Id i))) (json_each (cl_Inbounds c)))) (tb_Rows (db_Clients db)))))
      else Inr None)"

definition inbound_shown :: "panel_db \<Rightarrow> inbound \<Rightarrow> gmap result" where
  "inbound_shown db i =
     bindr (if in_Options i = RNil then Inr None
            else case decode_map (in_Options i) of None \<Rightarrow> Inl json_err | Some m \<Rightarrow> Inr (Some m)) (\<lambda>rest.
     bindr (users_shown db i (case rest of None \<Rightarrow> [] | Some m \<Rightarrow> m)) (\<lambda>users.
       Inr ([(''id'', GInt (int (in_Id i))), (''type'', GStr (in_Type i)), (''tag'', GStr (in_Tag i)),
             (''core_type'', GStr (RuntimeCore i)), (''tls_id'', GInt (int (in_TlsId i)))]
         @ (case rest of None \<Rightarrow> [] | Some m \<Rightarrow> [(''listen'', mget m ''listen''), (''listen_port'', mget m ''listen_port'')])
         @ (case users of None \<Rightarrow> [] | Some ns \<Rightarrow> [(''users'', GStrs ns)]))))"

definition Inbounds_GetAll :: "panel_db \<Rightarrow> gmap list result" where
  "Inbounds_GetAll db = mapr (inbound_shown db) (tb_Rows (db_Inbounds db))"

definition Inbounds_getById :: "panel_db \<Rightarrow> string \<Rightarrow> gmap list result" where
  "Inbounds_getById db ids =
     mapr MarshalFull (filter (\<lambda>i. Some (in_Id i) \<in> set (map text_id (Split ids (CHR '','')))) (tb_Rows (db_Inbounds db)))"

section \<open>Saving\<close>

definition store_inbound :: "inbound \<Rightarrow> panel_db \<Rightarrow> (inbound \<times> panel_db) result" where
  "store_inbound i db =
     bindr (save_tagged in_Id (\<lambda>k. with_in_Id k) in_Tag (i\<lparr>in_Tls := None\<rparr>) (db_Inbounds db)) (\<lambda>(row, t).
       Inr (row\<lparr>in_Tls := in_Tls i\<rparr>, db\<lparr>db_Inbounds := t\<rparr>))"

definition old_inbound :: "panel_db \<Rightarrow> nat \<Rightarrow> inbound" where
  "old_inbound db i = (case find_row in_Id i (db_Inbounds db) of None \<Rightarrow> empty_inbound | Some row \<Rightarrow> row)"

text \<open>The part of \<open>Save\<close> that talks to the running core.\<close>

definition reload_inbound :: "svc_env \<Rightarrow> panel_db \<Rightarrow> string \<Rightarrow> inbound \<Rightarrow> string \<Rightarrow> unit svc" where
  "reload_inbound env db act i initUserIds =
     if_running
       (bind_svc (if act = ''edit'' \<and> RuntimeCore (old_inbound db (in_Id i)) = CoreTypeSingBox
                  then ignore_invalid (RemoveInbound (sv_CoreEnv env) (in_Tag (old_inbound db (in_Id i))))
                  else lift_svc (Inr ())) (\<lambda>_.
        if RuntimeCore i = CoreTypeSingBox then
          bind_svc (lift_svc (bindr (Inbound_MarshalJSON i) (\<lambda>cfg.
              if act = ''edit'' then addUsers db cfg (in_Id i) (in_Type i)
              else initUsers db cfg initUserIds (in_Type i))))
            (AddInbound (sv_CoreEnv env))
        else lift_svc (Inr ())))
       (lift_svc (Inr ()))"

definition save_inbound :: "svc_env \<Rightarrow> panel_db \<Rightarrow> string \<Rightarrow> raw \<Rightarrow> string \<Rightarrow> string \<Rightarrow> panel_db svc" where
  "save_inbound env db act data initUserIds hostname =
     bind_svc (lift_svc (Inbound_UnmarshalJSON empty_inbound data)) (\<lambda>i0.
     bind_svc (lift_svc (validateInboundRuntimeCore i0)) (\<lambda>_.
       let i = (if in_TlsId i0 > 0 then preload_inbound db i0 else i0) in
       bind_svc (reload_inbound env db act i initUserIds) (\<lambda>_.
       bind_svc (lift_svc (FillOutJson (ce_Link (sv_Client env)) i hostname)) (\<lambda>i2.
       bind_svc (lift_svc (store_inbound i2 db)) (\<lambda>(row, db').
         lift_svc (if act = ''new'' then UpdateClientsOnInboundAdd (sv_Client env) db' initUserIds (in_Id row) hostname
           else UpdateLinksByInboundChange (sv_Client env) db' [row] hostname (in_Tag (old_inbound db (in_Id i)))))))))"

definition delete_inbound :: "svc_env \<Rightarrow> panel_db \<Rightarrow> raw \<Rightarrow> panel_db svc" where
  "delete_inbound env db data =
     bind_svc (lift_svc (str_of_raw data)) (\<lambda>tag.
       let old = (case find (\<lambda>i. in_Tag i = tag) (tb_Rows (db_Inbounds db)) of None \<Rightarrow> empty_inbound | Some i \<Rightarrow> i) in
       bind_svc (if_running
           (if RuntimeCore old = CoreTypeSingBox then ignore_invalid (RemoveInbound (sv_CoreEnv env) tag) else lift_svc (Inr ()))
           (lift_svc (Inr ()))) (\<lambda>_.
       bind_svc (lift_svc (UpdateClientsOnInboundDelete db (in_Id old) tag)) (\<lambda>db1.
         lift_svc (Inr (db1\<lparr>db_Inbounds := delete_rows (\<lambda>i. in_Tag i = tag) (db_Inbounds db1)\<rparr>)))))"

definition Inbounds_Save ::
  "svc_env \<Rightarrow> panel_db \<Rightarrow> string \<Rightarrow> raw \<Rightarrow> string \<Rightarrow> string \<Rightarrow> panel_db svc" where
  "Inbounds_Save env db act data initUserIds hostname =
     (if act = ''new'' \<or> act = ''edit'' then save_inbound env db act data initUserIds hostname
      else if act = ''del'' then delete_inbound env db data
      else lift_svc (NewErrorf (''unknown action: '' @ act)))"

definition UpdateOutJsons :: "svc_env \<Rightarrow> panel_db \<Rightarrow> nat list \<Rightarrow> string \<Rightarrow> panel_db result" where
  "UpdateOutJsons env db ids hostname =
     eachr (\<lambda>i db. bindr (FillOutJson (ce_Link (sv_Client env)) i hostname) (\<lambda>i'.
         Inr (db\<lparr>db_Inbounds := update_rows (\<lambda>row. in_Tag row = in_Tag i') (\<lambda>row. row\<lparr>in_OutJson := in_OutJson i'\<rparr>) (db_Inbounds db)\<rparr>)))
       (map (preload_inbound db) (filter (\<lambda>i. in_Id i \<in> set ids) (tb_Rows (db_Inbounds db)))) db"

text \<open>
  An inbound is taken out and put back with its users read again. The connections it has are closed in between in the
  program; the tracker that knows them is not part of the state here.
\<close>

definition restart_inbound :: "svc_env \<Rightarrow> panel_db \<Rightarrow> inbound \<Rightarrow> unit svc" where
  "restart_inbound env db i =
     (if RuntimeCore i \<noteq> CoreTypeSingBox then lift_svc (Inr ())
      else bind_svc (ignore_invalid (RemoveInbound (sv_CoreEnv env) (in_Tag i))) (\<lambda>_.
           bind_svc (lift_svc (inbound_config db i)) (AddInbound (sv_CoreEnv env))))"

definition RestartInbounds :: "svc_env \<Rightarrow> panel_db \<Rightarrow> nat list \<Rightarrow> unit svc" where
  "RestartInbounds env db ids =
     if_running (each_svc (restart_inbound env db) (filter (\<lambda>i. in_Id i \<in> set ids) (tb_Rows (db_Inbounds db))))
       (lift_svc (Inr ()))"

end
