(* ===== verification/Objects_Service.thy ===== *)
theory Objects_Service
  imports Inbounds_Service
begin

text \<open>
  Outbounds, endpoints, services and TLS configurations (\<^verbatim>\<open>service/outbounds.go\<close>, \<^verbatim>\<open>endpoints.go\<close>,
  \<^verbatim>\<open>services.go\<close>, \<^verbatim>\<open>tls.go\<close>): the three kinds of objects are saved and deleted alike, the running
  core first and the table after it. Registering a WARP device and its licence talk to a remote
  service and are the parameters \<open>sv_RegisterWarp\<close> and \<open>sv_SetWarpLicense\<close>.
\<close>

section \<open>What the panel and the core are given\<close>

definition shown_object :: "(string \<times> gval) list \<Rightarrow> raw \<Rightarrow> gmap result" where
  "shown_object base options = rest_fields options base"

definition Outbounds_GetAll :: "panel_db \<Rightarrow> gmap list result" where
  "Outbounds_GetAll db = mapr (\<lambda>o1. shown_object
     [(''id'', GInt (int (out_Id o1))), (''type'', GStr (out_Type o1)), (''tag'', GStr (out_Tag o1))] (out_Options o1))
     (tb_Rows (db_Outbounds db))"

definition Endpoints_GetAll :: "panel_db \<Rightarrow> gmap list result" where
  "Endpoints_GetAll db = mapr (\<lambda>e. shown_object
     [(''id'', GInt (int (ep_Id e))), (''type'', GStr (ep_Type e)), (''tag'', GStr (ep_Tag e)), (''ext'', raw_val (ep_Ext e))] (ep_Options e))
     (tb_Rows (db_Endpoints db))"

definition Services_GetAll :: "panel_db \<Rightarrow> gmap list result" where
  "Services_GetAll db = mapr (\<lambda>s. shown_object
     [(''id'', GInt (int (sv_Id s))), (''type'', GStr (sv_Type s)), (''tag'', GStr (sv_Tag s)), (''tls_id'', GInt (int (sv_TlsId s)))] (sv_Options s))
     (tb_Rows (db_Services db))"

definition Outbounds_GetAllConfig :: "panel_db \<Rightarrow> raw list result" where
  "Outbounds_GetAllConfig db = mapr Outbound_MarshalJSON (tb_Rows (db_Outbounds db))"

definition Endpoints_GetAllConfig :: "panel_db \<Rightarrow> raw list result" where
  "Endpoints_GetAllConfig db = mapr Endpoint_MarshalJSON (tb_Rows (db_Endpoints db))"

definition service_config :: "panel_db \<Rightarrow> service_row \<Rightarrow> raw result" where
  "service_config db s = Service_MarshalJSON (preload_service db s)"

definition Services_GetAllConfig :: "panel_db \<Rightarrow> raw list result" where
  "Services_GetAllConfig db = mapr (service_config db) (tb_Rows (db_Services db))"

section \<open>Replacing an item of the running core\<close>

definition replace_item :: "core_env \<Rightarrow> core_kind \<Rightarrow> string option \<Rightarrow> raw result \<Rightarrow> unit svc" where
  "replace_item cv k oldTag config =
     if_running
       (bind_svc (lift_svc config) (\<lambda>cfg.
        bind_svc (case oldTag of None \<Rightarrow> lift_svc (Inr ()) | Some tag \<Rightarrow> ignore_invalid (remove_item cv k tag)) (\<lambda>_.
          add_item cv k cfg)))
       (lift_svc (Inr ()))"

definition drop_item :: "core_env \<Rightarrow> core_kind \<Rightarrow> string \<Rightarrow> unit svc" where
  "drop_item cv k tag = if_running (ignore_invalid (remove_item cv k tag)) (lift_svc (Inr ()))"

section \<open>Outbounds\<close>

definition validateOutboundLiteFeature :: "outbound \<Rightarrow> unit result" where
  "validateOutboundLiteFeature o1 = Inr ()"

definition empty_outbound :: outbound where
  "empty_outbound = \<lparr>out_Id = 0, out_Type = [], out_Tag = [], out_Options = RNil\<rparr>"

definition old_tag :: "('r \<Rightarrow> nat) \<Rightarrow> ('r \<Rightarrow> string) \<Rightarrow> nat \<Rightarrow> 'r table \<Rightarrow> string" where
  "old_tag key tag k t = (case find_row key k t of None \<Rightarrow> [] | Some r \<Rightarrow> tag r)"

definition store_outbound :: "outbound \<Rightarrow> panel_db \<Rightarrow> panel_db result" where
  "store_outbound o1 db =
     map_sum id (\<lambda>(_, t). db\<lparr>db_Outbounds := t\<rparr>) (save_tagged out_Id (\<lambda>k. with_out_Id k) out_Tag o1 (db_Outbounds db))"

definition Outbounds_Save :: "svc_env \<Rightarrow> panel_db \<Rightarrow> string \<Rightarrow> raw \<Rightarrow> panel_db svc" where
  "Outbounds_Save env db act data =
     (if act = ''new'' \<or> act = ''edit'' then
        bind_svc (lift_svc (Outbound_UnmarshalJSON empty_outbound data)) (\<lambda>o1.
        bind_svc (lift_svc (validateOutboundLiteFeature o1)) (\<lambda>_.
        bind_svc (replace_item (sv_CoreEnv env) Outbounds
            (if act = ''edit'' then Some (old_tag out_Id out_Tag (out_Id o1) (db_Outbounds db)) else None) (Outbound_MarshalJSON o1)) (\<lambda>_.
          lift_svc (store_outbound o1 db))))
      else if act = ''del'' then
        bind_svc (lift_svc (str_of_raw data)) (\<lambda>tag.
        bind_svc (drop_item (sv_CoreEnv env) Outbounds tag) (\<lambda>_.
          lift_svc (Inr (db\<lparr>db_Outbounds := delete_rows (\<lambda>o1. out_Tag o1 = tag) (db_Outbounds db)\<rparr>))))
      else lift_svc (NewErrorf (''unknown action: '' @ act)))"

section \<open>Endpoints\<close>

definition validateEndpointLiteFeature :: "endpoint \<Rightarrow> unit result" where
  "validateEndpointLiteFeature e = Inr ()"

definition empty_endpoint :: endpoint where
  "empty_endpoint = \<lparr>ep_Id = 0, ep_Type = [], ep_Tag = [], ep_Options = RNil, ep_Ext = RNil\<rparr>"

text \<open>\<open>json_extract(ext, '$.license_key')\<close> of the stored row, read into a string.\<close>

definition old_license :: "panel_db \<Rightarrow> nat \<Rightarrow> string" where
  "old_license db k = (case find_row ep_Id k (db_Endpoints db) of
     None \<Rightarrow> []
   | Some e \<Rightarrow> (case ep_Ext e of RVal (GMap m) \<Rightarrow> (case mget m ''license_key'' of GNil \<Rightarrow> [] | v \<Rightarrow> sprint v) | _ \<Rightarrow> []))"

definition warp_endpoint :: "svc_env \<Rightarrow> panel_db \<Rightarrow> string \<Rightarrow> endpoint \<Rightarrow> endpoint result" where
  "warp_endpoint env db act e =
     (if ep_Type e \<noteq> ''warp'' then Inr e
      else if act = ''new'' then sv_RegisterWarp env e
      else sv_SetWarpLicense env (old_license db (ep_Id e)) e)"

definition store_endpoint :: "endpoint \<Rightarrow> panel_db \<Rightarrow> panel_db result" where
  "store_endpoint e db =
     map_sum id (\<lambda>(_, t). db\<lparr>db_Endpoints := t\<rparr>) (save_tagged ep_Id (\<lambda>k. with_ep_Id k) ep_Tag e (db_Endpoints db))"

definition Endpoints_Save :: "svc_env \<Rightarrow> panel_db \<Rightarrow> string \<Rightarrow> raw \<Rightarrow> panel_db svc" where
  "Endpoints_Save env db act data =
     (if act = ''new'' \<or> act = ''edit'' then
        bind_svc (lift_svc (Endpoint_UnmarshalJSON empty_endpoint data)) (\<lambda>e0.
        bind_svc (lift_svc (validateEndpointLiteFeature e0)) (\<lambda>_.
        bind_svc (lift_svc (warp_endpoint env db act e0)) (\<lambda>e.
        bind_svc (replace_item (sv_CoreEnv env) Endpoints
            (if act = ''edit'' then Some (old_tag ep_Id ep_Tag (ep_Id e) (db_Endpoints db)) else None) (Endpoint_MarshalJSON e)) (\<lambda>_.
          lift_svc (store_endpoint e db)))))
      else if act = ''del'' then
        bind_svc (lift_svc (str_of_raw data)) (\<lambda>tag.
        bind_svc (drop_item (sv_CoreEnv env) Endpoints tag) (\<lambda>_.
          lift_svc (Inr (db\<lparr>db_Endpoints := delete_rows (\<lambda>e. ep_Tag e = tag) (db_Endpoints db)\<rparr>))))
      else lift_svc (NewErrorf (''unknown action: '' @ act)))"

section \<open>Services\<close>

definition empty_service :: service_row where
  "empty_service = \<lparr>sv_Id = 0, sv_Type = [], sv_Tag = [], sv_TlsId = 0, sv_Tls = None, sv_Options = RNil\<rparr>"

definition store_service :: "service_row \<Rightarrow> panel_db \<Rightarrow> panel_db result" where
  "store_service s db =
     map_sum id (\<lambda>(_, t). db\<lparr>db_Services := t\<rparr>) (save_tagged sv_Id (\<lambda>k. with_sv_Id k) sv_Tag (s\<lparr>sv_Tls := None\<rparr>) (db_Services db))"

definition Services_Save :: "svc_env \<Rightarrow> panel_db \<Rightarrow> string \<Rightarrow> raw \<Rightarrow> panel_db svc" where
  "Services_Save env db act data =
     (if act = ''new'' \<or> act = ''edit'' then
        bind_svc (lift_svc (Service_UnmarshalJSON empty_service data)) (\<lambda>s0.
        let s = (if sv_TlsId s0 > 0 then preload_service db s0 else s0) in
        bind_svc (replace_item (sv_CoreEnv env) Services
            (if act = ''edit'' then Some (old_tag sv_Id sv_Tag (sv_Id s) (db_Services db)) else None) (Service_MarshalJSON s)) (\<lambda>_.
          lift_svc (store_service s db)))
      else if act = ''del'' then
        bind_svc (lift_svc (str_of_raw data)) (\<lambda>tag.
        bind_svc (drop_item (sv_CoreEnv env) Services tag) (\<lambda>_.
          lift_svc (Inr (db\<lparr>db_Services := delete_rows (\<lambda>s. sv_Tag s = tag) (db_Services db)\<rparr>))))
      else lift_svc (NewErrorf (''unknown action: '' @ act)))"

definition restart_service :: "svc_env \<Rightarrow> panel_db \<Rightarrow> service_row \<Rightarrow> unit svc" where
  "restart_service env db s =
     bind_svc (ignore_invalid (RemoveService (sv_CoreEnv env) (sv_Tag s))) (\<lambda>_.
     bind_svc (lift_svc (service_config db s)) (AddService (sv_CoreEnv env)))"

definition RestartServices :: "svc_env \<Rightarrow> panel_db \<Rightarrow> nat list \<Rightarrow> unit svc" where
  "RestartServices env db ids =
     if_running (each_svc (restart_service env db) (filter (\<lambda>s. sv_Id s \<in> set ids) (tb_Rows (db_Services db))))
       (lift_svc (Inr ()))"

section \<open>TLS configurations\<close>

definition validateTlsLiteFeature :: "tls_row \<Rightarrow> unit result" where
  "validateTlsLiteFeature t = Inr ()"

definition Tls_of_JSON :: "raw \<Rightarrow> tls_row result" where
  "Tls_of_JSON data = (case decode_map data of
     None \<Rightarrow> Inl json_err
   | Some m \<Rightarrow> bindr (field_uint m ''id'') (\<lambda>i. bindr (field_str m ''name'') (\<lambda>name.
       Inr \<lparr>tls_Id = i, tls_Name = name, tls_Server = field_raw m ''server'', tls_Client = field_raw m ''client''\<rparr>)))"

definition store_tls :: "tls_row \<Rightarrow> panel_db \<Rightarrow> tls_row \<times> panel_db" where
  "store_tls t db = (keyed tls_Id (\<lambda>k. with_tls_Id k) (db_Tls db) t,
     db\<lparr>db_Tls := save_row tls_Id (\<lambda>k. with_tls_Id k) t (db_Tls db)\<rparr>)"

definition wrap_error :: "string \<Rightarrow> 'a result \<Rightarrow> 'a result" where
  "wrap_error prefix_text r = (case r of Inl e \<Rightarrow> NewError (prefix_text @ e) | Inr x \<Rightarrow> Inr x)"

definition edited_tls :: "svc_env \<Rightarrow> panel_db \<Rightarrow> nat \<Rightarrow> string \<Rightarrow> panel_db svc" where
  "edited_tls env db tlsId hostname =
     (let inbs = map (preload_inbound db) (filter (\<lambda>i. in_TlsId i = tlsId) (tb_Rows (db_Inbounds db)));
          ids = map in_Id inbs;
          serviceIds = map sv_Id (filter (\<lambda>s. sv_TlsId s = tlsId) (tb_Rows (db_Services db)))
      in bind_svc (if inbs = [] then lift_svc (Inr db)
           else bind_svc (lift_svc (UpdateLinksByInboundChange (sv_Client env) db inbs hostname [])) (\<lambda>db1.
                bind_svc (lift_svc (wrap_error ''unable to update out_json of inbounds:  '' (UpdateOutJsons env db1 ids hostname))) (\<lambda>db2.
                bind_svc (RestartInbounds env db2 ids) (\<lambda>_. lift_svc (Inr db2))))) (\<lambda>db2.
         if serviceIds = [] then lift_svc (Inr db2)
         else bind_svc (RestartServices env db2 serviceIds) (\<lambda>_. lift_svc (Inr db2))))"

definition Tls_Save :: "svc_env \<Rightarrow> panel_db \<Rightarrow> string \<Rightarrow> raw \<Rightarrow> string \<Rightarrow> panel_db svc" where
  "Tls_Save env db action data hostname =
     (if action = ''new'' \<or> action = ''edit'' then
        bind_svc (lift_svc (Tls_of_JSON data)) (\<lambda>t.
        bind_svc (lift_svc (validateTlsLiteFeature t)) (\<lambda>_.
          let (row, db') = store_tls t db in
          if action = ''edit'' then edited_tls env db' (tls_Id row) hostname else lift_svc (Inr db')))
      else if action = ''del'' then
        bind_svc (lift_svc (id_of_raw data)) (\<lambda>i.
          if list_ex (\<lambda>inb. in_TlsId inb = i) (tb_Rows (db_Inbounds db)) \<or> list_ex (\<lambda>s. sv_TlsId s = i) (tb_Rows (db_Services db))
          then lift_svc (NewError ''tls in use'')
          else lift_svc (Inr (db\<lparr>db_Tls := delete_rows (\<lambda>t. tls_Id t = i) (db_Tls db)\<rparr>)))
      else lift_svc (Inr db))"

end
