(* ===== verification/Runtime_Agreement.thy ===== *)
theory Runtime_Agreement
  imports Objects_Service
begin

text \<open>
  The core is never told the whole configuration again when one object changes: the services
  remove and add single items. The contract of such a hot change is that the core ends up with
  what a restart from the new database would give it. The locale \<open>synced_table\<close> proves it for a
  table whose rows have a configuration under their tag; outbounds, endpoints and services are
  instances. \<open>configured\<close> is what a restart gives.
\<close>

section \<open>What a restart gives\<close>

definition config_value :: "raw result \<Rightarrow> gmap option" where
  "config_value c = (case c of Inr (RVal (GMap m)) \<Rightarrow> Some m | _ \<Rightarrow> None)"

definition configured :: "('r \<Rightarrow> string) \<Rightarrow> ('r \<Rightarrow> raw result) \<Rightarrow> 'r list \<Rightarrow> string \<rightharpoonup> gmap" where
  "configured tag config rows k = (case find (\<lambda>r. tag r = k) rows of
     None \<Rightarrow> None
   | Some r \<Rightarrow> config_value (config r))"

lemma config_value_simps [simp]: "config_value (Inr (RVal (GMap m))) = Some m" "config_value (Inl e) = None"
  by (simp_all add: config_value_def)

lemma configured_eq:
  assumes "distinct (map tag rows)" "r \<in> set rows"
  shows "configured tag config rows (tag r) = config_value (config r)"
  using assms by (induction rows) (auto simp: configured_def)

lemma configured_Cons: "configured tag config (r # rows) k = (if tag r = k then config_value (config r) else configured tag config rows k)"
  by (simp add: configured_def)

lemma configured_None: "k \<notin> tag ` set rows \<Longrightarrow> configured tag config rows k = None"
  by (auto simp: configured_def split: option.splits dest!: find_Some_mem)

text \<open>The items of a list that is decoded under its tags are the configured ones.\<close>

lemma listed_configured:
  assumes "mapr config rows = Inr cfgs" "\<And>r cfg. r \<in> set rows \<Longrightarrow> config r = Inr cfg \<Longrightarrow> \<exists>m. cfg = RVal (GMap m) \<and> tag_of m = tag r"
  shows "map_of (map (\<lambda>v. (tag_of (as_map v), as_map v)) (map raw_val cfgs)) = configured tag config rows"
  using assms
proof (induction rows arbitrary: cfgs)
  case Nil
  then show ?case by (simp add: configured_def fun_eq_iff)
next
  case (Cons r rows)
  then obtain cfg cfgs' where cfg: "config r = Inr cfg" "mapr config rows = Inr cfgs'" "cfgs = cfg # cfgs'"
    by (auto simp: bindr_Inr_iff results)
  obtain m where m: "cfg = RVal (GMap m)" "tag_of m = tag r" using Cons.prems(2) [of r cfg] cfg by auto
  have "map_of (map (\<lambda>v. (tag_of (as_map v), as_map v)) (map raw_val cfgs')) = configured tag config rows"
    using Cons.prems(2) by (intro Cons.IH [OF cfg(2)]) simp
  moreover have "configured tag config (r # rows) = (configured tag config rows)(tag r := Some m)"
    using cfg(1) m(1) by (auto simp: configured_def fun_eq_iff)
  moreover have "raw_val cfg = GMap m" by (simp add: m(1) raw_val_def)
  ultimately show ?case by (simp add: cfg(3) m(2))
qed

section \<open>Hot changes of a table\<close>

text \<open>Restarting a row: its item is taken out and put back with the row's configuration.\<close>

definition restart_row :: "core_env \<Rightarrow> core_kind \<Rightarrow> ('r \<Rightarrow> string) \<Rightarrow> ('r \<Rightarrow> raw result) \<Rightarrow> 'r \<Rightarrow> unit svc" where
  "restart_row cv k tag config r =
     bind_svc (ignore_invalid (remove_item cv k (tag r))) (\<lambda>_. bind_svc (lift_svc (config r)) (add_item cv k))"

locale configured_table = tagged_table key with_key tag
  for key :: "'r \<Rightarrow> nat" and with_key :: "nat \<Rightarrow> 'r \<Rightarrow> 'r" and tag :: "'r \<Rightarrow> string" +
  fixes clean :: "'r \<Rightarrow> bool" and config :: "'r \<Rightarrow> raw result"
  assumes config_tag: "clean r \<Longrightarrow> config r = Inr cfg \<Longrightarrow> \<exists>m. cfg = RVal (GMap m) \<and> tag_of m = tag r"
begin

text \<open>Saving a row: the item of its old tag goes, the item of its tag is set.\<close>

lemma saved_items:
  assumes ok: "table_ok key t" "tags_ok tag t"
    and saved: "save_tagged key with_key tag r t = Inr (r', t')"
    and old: "\<And>x. find_row key (key r) t = Some x \<Longrightarrow> oldTag = Some (tag x) \<or> config_value (config x) = None"
      "\<And>o'. oldTag = Some o' \<Longrightarrow> o' \<noteq> [] \<Longrightarrow> find_row key (key r) t \<noteq> None \<and> (\<forall>x. find_row key (key r) t = Some x \<longrightarrow> o' = tag x)"
    and blank: "\<forall>x\<in>set (tb_Rows t). tag x \<noteq> []"
  shows "(case oldTag of None \<Rightarrow> configured tag config (tb_Rows t) | Some o' \<Rightarrow> (configured tag config (tb_Rows t))(o' := None))
      (tag r := config_value (config r')) = configured tag config (tb_Rows t')"
proof
  fix k
  let ?old = "case oldTag of None \<Rightarrow> configured tag config (tb_Rows t)
    | Some o' \<Rightarrow> (configured tag config (tb_Rows t))(o' := None)"
  have r': "r' = keyed key with_key t r" and t': "t' = save_row key with_key r t" and free: "\<not> tag_taken key tag r' t"
    using saved by (auto simp: save_tagged_Inr)
  have rows: "set (tb_Rows t') = insert r' {x \<in> set (tb_Rows t). key x \<noteq> key r'}" by (simp add: t' r' save_rows)
  have tags: "distinct (map tag (tb_Rows t'))" using save_tags_ok [OF ok saved] by (simp add: tags_ok_def)
  have tags0: "distinct (map tag (tb_Rows t))" using ok(2) by (simp add: tags_ok_def)
  show "(?old(tag r := config_value (config r'))) k = configured tag config (tb_Rows t') k"
  proof (cases "k = tag r")
    case True
    then show ?thesis using configured_eq [OF tags, of r' config] by (simp add: rows r')
  next
    case False
    show ?thesis
    proof (cases "\<exists>x\<in>set (tb_Rows t). tag x = k")
      case False
      then have "configured tag config (tb_Rows t) k = None" "configured tag config (tb_Rows t') k = None"
        using \<open>k \<noteq> tag r\<close> by (auto intro!: configured_None simp: rows r')
      then show ?thesis using \<open>k \<noteq> tag r\<close> by (simp split: option.split)
    next
      case True
      then obtain x where x: "x \<in> set (tb_Rows t)" "tag x = k" by blast
      show ?thesis
      proof (cases "key x = key r'")
        case True
        have "key r \<noteq> 0" using fresh_key [OF ok(1), of r] x(1) True unfolding r' by (metis imageI)
        then have "key r' = key r" by (simp add: r' keyed_def)
        then have "oldTag = Some k \<or> config_value (config x) = None"
          using old(1) [of x] find_Some [OF ok(1), of "key r" x] x True by simp
        then have "?old k = None" using configured_eq [OF tags0 x(1), of config] x(2) by (auto split: option.split)
        moreover have "configured tag config (tb_Rows t') k = None"
        proof (rule configured_None)
          show "k \<notin> tag ` set (tb_Rows t')"
            using \<open>k \<noteq> tag r\<close> x True distinct_tags [OF ok(2)] by (auto simp: rows r')
        qed
        ultimately show ?thesis using \<open>k \<noteq> tag r\<close> by simp
      next
        case False
        have "?old k = configured tag config (tb_Rows t) k"
        proof (cases oldTag)
          case (Some o')
          have "o' \<noteq> k"
          proof
            assume "o' = k"
            then have "o' \<noteq> []" using blank x by auto
            then obtain y where y: "find_row key (key r) t = Some y" "o' = tag y" using old(2) [OF Some] by auto
            then have "tag y = k" using \<open>o' = k\<close> by simp
            moreover have "y \<in> set (tb_Rows t)" "key y = key r" using y find_Some [OF ok(1)] by simp_all
            ultimately have "x = y" using distinct_tags [OF ok(2)] x by blast
            moreover have "key r' = key r"
              using ok_rows(3) [OF ok(1) \<open>y \<in> _\<close>] \<open>key y = key r\<close> by (simp add: r' keyed_def)
            ultimately show False using False \<open>key y = key r\<close> by simp
          qed
          then show ?thesis using Some by simp
        qed simp
        also have "\<dots> = configured tag config (tb_Rows t') k"
          using configured_eq [OF tags0 x(1), of config] configured_eq [OF tags, of x config] x False by (simp add: rows)
        finally show ?thesis using \<open>k \<noteq> tag r\<close> by simp
      qed
    qed
  qed
qed

lemma deleted_items:
  assumes "tags_ok tag t"
  shows "(configured tag config (tb_Rows t))(o' := None) = configured tag config (tb_Rows (delete_rows (\<lambda>r. tag r = o') t))"
proof
  fix k
  have "find (\<lambda>r. tag r = k) (filter (\<lambda>r. tag r \<noteq> o') rows) = (if k = o' then None else find (\<lambda>r. tag r = k) rows)" for rows
    by (induction rows) auto
  then show "((configured tag config (tb_Rows t))(o' := None)) k = configured tag config (tb_Rows (delete_rows (\<lambda>r. tag r = o') t)) k"
    by (simp add: configured_def delete_rows_def)
qed

text \<open>Restarting rows of the table.\<close>

lemma restart_row_Inr:
  assumes run: "restart_row cv k tag config r core = (Inr u, core')" and r: "co_Running core" and clean: "clean r"
  shows "co_Running core' \<and> (\<forall>k'. k' \<noteq> k \<longrightarrow> co_Items core' k' = co_Items core k')
    \<and> co_Items core' k = (co_Items core k)(tag r := config_value (config r))"
proof -
  obtain v cfg core1 where drop: "ignore_invalid (remove_item cv k (tag r)) core = (Inr v, core1)"
    and cfg: "config r = Inr cfg" and add: "add_item cv k cfg core1 = (Inr u, core')"
    using run by (auto simp: restart_row_def svc_Inr)
  obtain m where m: "cfg = RVal (GMap m)" "core' = set_item k (tag_of m) (Some m) core1" using add by (auto simp: add_item_Inr)
  have "tag_of m = tag r" using config_tag [OF clean cfg] m(1) by simp
  then show ?thesis using drop_item_Inr(2) [OF drop] r by (auto simp: m cfg fun_eq_iff)
qed

lemma each_restart:
  assumes "each_svc (restart_row cv k tag config) rows core = (Inr u, core')" "co_Running core" "list_all clean rows"
  shows "co_Running core' \<and> (\<forall>k'. k' \<noteq> k \<longrightarrow> co_Items core' k' = co_Items core k')
     \<and> (\<forall>t. t \<notin> tag ` set rows \<longrightarrow> co_Items core' k t = co_Items core k t)
     \<and> (distinct (map tag rows) \<longrightarrow> (\<forall>r\<in>set rows. co_Items core' k (tag r) = config_value (config r)))"
  using assms
proof (induction rows arbitrary: core)
  case (Cons r rows)
  then obtain core1 where one: "restart_row cv k tag config r core = (Inr (), core1)" and rest: "each_svc (restart_row cv k tag config) rows core1 = (Inr u, core')"
    by (auto simp: bind_svc_Inr)
  have cl: "clean r" "list_all clean rows" using Cons.prems(3) by simp_all
  note one' = restart_row_Inr [OF one Cons.prems(2) cl(1)]
  note IH = Cons.IH [OF rest conjunct1 [OF one'] cl(2)]
  have "tag r \<notin> tag ` set rows" if "distinct (map tag (r # rows))" using that by auto
  then show ?case using IH one' by auto
qed (simp add: lift_svc_def)

text \<open>Rows that were not restarted must have kept their configuration; then all items agree.\<close>

lemma restarted_items:
  assumes run: "each_svc (restart_row cv k tag config) (filter P rows) core = (Inr u, core')" "co_Running core" "list_all clean rows"
    and tags: "distinct (map tag rows)"
    and others: "\<And>t. t \<notin> tag ` {r \<in> set rows. P r} \<Longrightarrow> f (co_Items core k t) = f (configured tag config rows t)"
  shows "f (co_Items core' k t) = f (configured tag config rows t)"
proof -
  have cl: "list_all clean (filter P rows)" using run(3) by (auto simp: list_all_iff)
  have d: "distinct (map tag (filter P rows))" using tags by (simp add: distinct_map_filter)
  note eff = each_restart [OF run(1,2) cl]
  show ?thesis
  proof (cases "t \<in> tag ` {r \<in> set rows. P r}")
    case True
    then obtain r where r: "r \<in> set rows" "P r" "t = tag r" by blast
    then have "co_Items core' k t = config_value (config r)" using eff d by auto
    then show ?thesis using configured_eq [OF tags r(1), of config] r(3) by simp
  next
    case False
    then have "co_Items core' k t = co_Items core k t" using eff by auto
    then show ?thesis using others [OF False] by simp
  qed
qed

end

locale synced_table = configured_table key with_key tag clean config
  for key :: "'r \<Rightarrow> nat" and with_key :: "nat \<Rightarrow> 'r \<Rightarrow> 'r" and tag :: "'r \<Rightarrow> string"
    and clean :: "'r \<Rightarrow> bool" and config :: "'r \<Rightarrow> raw result" +
  assumes config_key: "config (with_key k r) = config r" and clean_key: "clean (with_key k r) = clean r"
begin

lemma config_keyed [simp]: "config (keyed key with_key t r) = config r"
  by (simp add: keyed_def config_key)

lemma clean_keyed [simp]: "clean (keyed key with_key t r) = clean r"
  by (simp add: keyed_def clean_key)

end

section \<open>The tables of the core\<close>

text \<open>
  The options of a row never hold the fixed columns (the decoders of \<^verbatim>\<open>database/model\<close> take them
  out), so the configuration of a row carries the row's own tag.
\<close>

definition clean_options :: "raw \<Rightarrow> bool" where
  "clean_options r \<longleftrightarrow> (case decode_map r of None \<Rightarrow> True | Some m \<Rightarrow> \<not> mhas m ''tag'')"

definition clean_outbound :: "outbound \<Rightarrow> bool" where
  "clean_outbound r \<longleftrightarrow> clean_options (out_Options r) \<and> out_Tag r \<noteq> []"

definition clean_endpoint :: "endpoint \<Rightarrow> bool" where
  "clean_endpoint r \<longleftrightarrow> clean_options (ep_Options r) \<and> ep_Tag r \<noteq> []"

definition clean_service :: "service_row \<Rightarrow> bool" where
  "clean_service r \<longleftrightarrow> clean_options (sv_Options r) \<and> sv_Tag r \<noteq> []"

definition clean_inbound :: "inbound \<Rightarrow> bool" where
  "clean_inbound r \<longleftrightarrow> clean_options (in_Options r) \<and> in_Tag r \<noteq> []"

lemma rest_fields_tag:
  assumes "rest_fields opts base = Inr m" "clean_options opts" "mhas base ''tag''"
  shows "mget m ''tag'' = mget base ''tag''" "mhas m ''tag''"
  using assms by (auto simp: rest_fields_def clean_options_def mget_mmerge_other mhas_mmerge split: if_splits option.splits)

lemma tag_of_norm: "mhas m ''tag'' \<Longrightarrow> mget m ''tag'' = GStr s \<Longrightarrow> tag_of (map (map_prod id json_norm) m) = s"
  by (simp add: tag_of_def mget_map_prod)

lemma Outbound_config:
  "clean_outbound r \<Longrightarrow> Outbound_MarshalJSON r = Inr cfg \<Longrightarrow> \<exists>m. cfg = RVal (GMap m) \<and> tag_of m = out_Tag r"
  using rest_fields_tag [of "out_Options r"]
  by (auto simp: Outbound_MarshalJSON_def clean_outbound_def mustJSON_def tag_of_norm split: sum.splits)

lemma Endpoint_config:
  "clean_endpoint r \<Longrightarrow> Endpoint_MarshalJSON r = Inr cfg \<Longrightarrow> \<exists>m. cfg = RVal (GMap m) \<and> tag_of m = ep_Tag r"
  using rest_fields_tag [of "ep_Options r"]
  by (auto simp: Endpoint_MarshalJSON_def clean_endpoint_def mustJSON_def tag_of_norm split: sum.splits)

lemma service_config_tag:
  assumes "clean_service r" "service_config db r = Inr cfg"
  shows "\<exists>m. cfg = RVal (GMap m) \<and> tag_of m = sv_Tag r"
proof -
  obtain base m where m: "rest_fields (sv_Options r) base = Inr m" "cfg = mustJSON (GMap m)"
    and base: "mhas base ''tag''" "mget base ''tag'' = GStr (sv_Tag r)"
    using assms(2) by (auto simp: service_config_def Service_MarshalJSON_def preload_service_def Let_def split: sum.splits option.splits)
  have "mhas m ''tag''" "mget m ''tag'' = GStr (sv_Tag r)"
    using rest_fields_tag [OF m(1) _ base(1)] assms(1) base(2) by (simp_all add: clean_service_def)
  then show ?thesis by (simp add: m(2) mustJSON_def tag_of_norm)
qed

lemma service_config_key: "service_config db (with_sv_Id k r) = service_config db r"
proof -
  have "preload_service db (with_sv_Id k r) = with_sv_Id k (preload_service db r)"
    by (simp add: preload_service_def)
  then show ?thesis by (simp add: service_config_def Service_MarshalJSON_def cong: sum.case_cong)
qed

lemma singbox_row_iff: "RuntimeCore r = CoreTypeSingBox \<longleftrightarrow> singbox_row r"
  by (simp add: RuntimeCore_def singbox_row_def)

lemma Inbound_config:
  assumes "clean_inbound r" "Inbound_MarshalJSON (preload_inbound db r) = Inr cfg"
  shows "\<exists>m. cfg = RVal (GMap m) \<and> tag_of m = in_Tag r"
proof -
  have eq: "in_Tag (preload_inbound db r) = in_Tag r" "in_Options (preload_inbound db r) = in_Options r"
    by (simp_all add: preload_inbound_def)
  obtain base m where m: "rest_fields (in_Options r) base = Inr m" "cfg = mustJSON (GMap m)"
    and base: "mhas base ''tag''" "mget base ''tag'' = GStr (in_Tag r)"
    using assms(2) by (auto simp: Inbound_MarshalJSON_def Let_def eq mget_mput mhas_mput split: sum.splits option.splits)
  have "mhas m ''tag''" "mget m ''tag'' = GStr (in_Tag r)"
    using rest_fields_tag [OF m(1) _ base(1)] assms(1) base(2) by (simp_all add: clean_inbound_def)
  then show ?thesis by (simp add: m(2) mustJSON_def tag_of_norm)
qed

lemma put_users_tag:
  assumes "put_users db (RVal (GMap m)) cond ty = Inr cfg"
  shows "\<exists>m'. cfg = RVal (GMap m') \<and> tag_of m' = tag_of m"
proof -
  obtain us where cfg: "cfg = mustJSON (GMap (mput m ''users'' (users_value us)))"
    using assms by (auto simp: put_users_def bindr_Inr_iff decode_map_def decode_def)
  have "mget (map (map_prod id json_norm) (mput m ''users'' v)) ''tag'' = json_norm (mget m ''tag'')" for v
    using mget_no [of m "''tag''"] by (cases "mhas m ''tag''") (simp_all add: mget_map_prod mget_mput)
  moreover have "as_str (json_norm v) = as_str v" for v
    by (cases v) (simp_all add: as_str_def)
  ultimately show ?thesis by (simp add: cfg mustJSON_def tag_of_def)
qed

lemma inbound_config_tag:
  assumes "clean_inbound r" "inbound_config db r = Inr cfg"
  shows "\<exists>m. cfg = RVal (GMap m) \<and> tag_of m = in_Tag r"
proof -
  obtain c where c: "Inbound_MarshalJSON (preload_inbound db r) = Inr c" "addUsers db c (in_Id r) (in_Type r) = Inr cfg"
    using assms(2) by (auto simp: inbound_config_def bindr_Inr_iff)
  obtain m where "c = RVal (GMap m)" "tag_of m = in_Tag r" using Inbound_config [OF assms(1) c(1)] by blast
  then show ?thesis using c(2) put_users_tag by (fastforce simp: addUsers_def split: if_splits)
qed

text \<open>The core only runs the sing-box rows of the inbounds.\<close>

definition inbound_item :: "panel_db \<Rightarrow> inbound \<Rightarrow> raw result" where
  "inbound_item db r = (if singbox_row r then inbound_config db r else NewError ''not a sing-box inbound'')"

lemma inbound_item_other [simp]: "\<not> singbox_row r \<Longrightarrow> config_value (inbound_item db r) = None"
  by (simp add: inbound_item_def NewError_def)

interpretation inbound_items: configured_table in_Id "\<lambda>k. with_in_Id k" in_Tag clean_inbound "inbound_item db" for db
proof (unfold_locales, goal_cases)
  case (1 r cfg)
  then show ?case using inbound_config_tag [of r db cfg] by (simp add: inbound_item_def NewError_def split: if_splits)
qed

lemma configured_singbox:
  assumes "distinct (map in_Tag rows)"
  shows "configured in_Tag (inbound_config db) (filter singbox_row rows) = configured in_Tag (inbound_item db) rows"
  using assms
proof (induction rows)
  case (Cons r rows)
  then have IH: "configured in_Tag (inbound_config db) (filter singbox_row rows) k = configured in_Tag (inbound_item db) rows k" for k by simp
  have "configured in_Tag (inbound_config db) (filter singbox_row rows) (in_Tag r) = None"
    using Cons.prems by (intro configured_None) auto
  moreover have "config_value (inbound_item db r) = (if singbox_row r then config_value (inbound_config db r) else None)"
    by (simp add: inbound_item_def NewError_def)
  ultimately show ?case using IH by (auto simp: fun_eq_iff configured_Cons)
qed (simp add: configured_def fun_eq_iff)

lemma each_svc_filter: "(\<And>x. \<not> P x \<Longrightarrow> f x = lift_svc (Inr ())) \<Longrightarrow> each_svc f xs = each_svc f (filter P xs)"
  by (induction xs) (auto simp: bind_svc_def lift_svc_def)

lemma each_svc_cong: "(\<And>x. x \<in> set xs \<Longrightarrow> f x = g x) \<Longrightarrow> each_svc f xs = each_svc g xs"
  by (induction xs) simp_all

lemma restart_inbounds:
  "each_svc (restart_inbound env db) rows
     = each_svc (restart_row (sv_CoreEnv env) Inbounds in_Tag (inbound_item db)) (filter singbox_row rows)"
proof -
  have "each_svc (restart_inbound env db) rows = each_svc (restart_inbound env db) (filter singbox_row rows)"
    by (rule each_svc_filter) (simp add: restart_inbound_def singbox_row_iff)
  also have "\<dots> = each_svc (restart_row (sv_CoreEnv env) Inbounds in_Tag (inbound_item db)) (filter singbox_row rows)"
    by (rule each_svc_cong) (simp add: restart_inbound_def restart_row_def singbox_row_iff inbound_item_def core_ops)
  finally show ?thesis .
qed

lemma restart_services: "restart_service env db = restart_row (sv_CoreEnv env) Services sv_Tag (service_config db)"
  by (simp add: fun_eq_iff restart_service_def restart_row_def core_ops)

interpretation synced_outbounds: synced_table out_Id "\<lambda>k. with_out_Id k" out_Tag clean_outbound Outbound_MarshalJSON
proof (unfold_locales, goal_cases)
  case (1 r cfg)
  then show ?case by (rule Outbound_config)
qed (simp_all add: Outbound_MarshalJSON_def clean_outbound_def cong: sum.case_cong)

interpretation synced_endpoints: synced_table ep_Id "\<lambda>k. with_ep_Id k" ep_Tag clean_endpoint Endpoint_MarshalJSON
proof (unfold_locales, goal_cases)
  case (1 r cfg)
  then show ?case by (rule Endpoint_config)
qed (simp_all add: Endpoint_MarshalJSON_def clean_endpoint_def cong: sum.case_cong)

interpretation synced_services: synced_table sv_Id "\<lambda>k. with_sv_Id k" sv_Tag clean_service "service_config db" for db
proof (unfold_locales, goal_cases)
  case (1 r cfg)
  then show ?case by (rule service_config_tag)
qed (simp_all add: service_config_key clean_service_def)

section \<open>Agreement\<close>

text \<open>
  A missing user list and a \<^verbatim>\<open>null\<close> one are the same to the core; \<open>plain\<close> removes the difference.
\<close>

definition plain :: "gmap \<Rightarrow> gmap" where
  "plain m = (if mget m ''users'' = GNil then mdel m ''users'' else m)"

definition view :: "(string \<rightharpoonup> gmap) \<Rightarrow> string \<rightharpoonup> gmap" where
  "view items = (\<lambda>k. map_option plain (items k))"

definition expected :: "panel_db \<Rightarrow> core_kind \<Rightarrow> string \<rightharpoonup> gmap" where
  "expected db k = (case k of
     Inbounds \<Rightarrow> configured in_Tag (inbound_config db) (filter singbox_row (tb_Rows (db_Inbounds db)))
   | Outbounds \<Rightarrow> configured out_Tag Outbound_MarshalJSON (tb_Rows (db_Outbounds db))
   | Endpoints \<Rightarrow> configured ep_Tag Endpoint_MarshalJSON (tb_Rows (db_Endpoints db))
   | Services \<Rightarrow> configured sv_Tag (service_config db) (tb_Rows (db_Services db)))"

definition agrees :: "panel_db \<Rightarrow> core_state \<Rightarrow> bool" where
  "agrees db core \<longleftrightarrow> (co_Running core \<longrightarrow> (\<forall>k. view (co_Items core k) = view (expected db k)))"

definition db_clean :: "panel_db \<Rightarrow> bool" where
  "db_clean db \<longleftrightarrow> list_all clean_inbound (tb_Rows (db_Inbounds db)) \<and> list_all clean_outbound (tb_Rows (db_Outbounds db))
     \<and> list_all clean_endpoint (tb_Rows (db_Endpoints db)) \<and> list_all clean_service (tb_Rows (db_Services db))"

lemma view_upd [simp]: "view (f(x := v)) = (view f)(x := map_option plain v)"
  by (auto simp: view_def)

lemma view_eqI: "f = g \<Longrightarrow> view f = view g"
  by simp

lemma expected_inbounds: "tags_ok in_Tag (db_Inbounds db) \<Longrightarrow>
    expected db Inbounds = configured in_Tag (inbound_item db) (tb_Rows (db_Inbounds db))"
  by (simp add: expected_def configured_singbox tags_ok_def)

section \<open>Replacing and dropping an item\<close>

lemma replace_item_Inr:
  assumes run: "replace_item cv k oldTag cfg core = (Inr u, core')" "co_Running core"
  obtains m where "cfg = Inr (RVal (GMap m))" "co_Running core'"
    "co_Items core' k = (case oldTag of None \<Rightarrow> co_Items core k | Some o' \<Rightarrow> (co_Items core k)(o' := None))(tag_of m := Some m)"
    "\<And>k'. k' \<noteq> k \<Longrightarrow> co_Items core' k' = co_Items core k'"
proof -
  obtain c core1 where cfg: "cfg = Inr c"
    and rem: "(case oldTag of None \<Rightarrow> lift_svc (Inr ()) | Some tag \<Rightarrow> ignore_invalid (remove_item cv k tag)) core = (Inr (), core1)"
    and add: "add_item cv k c core1 = (Inr u, core')"
    using run by (auto simp: replace_item_def svc_Inr)
  obtain m where m: "c = RVal (GMap m)" "core' = set_item k (tag_of m) (Some m) core1"
    using add by (auto simp: add_item_Inr)
  have core1: "core1 = (case oldTag of None \<Rightarrow> core | Some o' \<Rightarrow> set_item k o' None core)"
    using rem by (auto simp: lift_svc_def dest: drop_item_Inr(2) split: option.splits)
  show thesis
    by (rule that [of m]) (use run(2) in \<open>auto simp: cfg m core1 fun_eq_iff split: option.splits\<close>)
qed

lemma drop_item_effect:
  assumes "drop_item cv k tag core = (Inr u, core')" "co_Running core"
  shows "co_Running core'" "co_Items core' k = (co_Items core k)(tag := None)" "\<And>k'. k' \<noteq> k \<Longrightarrow> co_Items core' k' = co_Items core k'"
  using assms drop_item_Inr(2) by (force simp: drop_item_def if_running_def)+

lemma svc_idle: "\<not> co_Running core \<Longrightarrow> replace_item cv k oldTag cfg core = (Inr (), core)"
  "\<not> co_Running core \<Longrightarrow> drop_item cv k tag core = (Inr (), core)"
  by (simp_all add: replace_item_def drop_item_def if_running_def lift_svc_def)

end
