(* ===== verification/Hot_Changes.thy ===== *)
theory Hot_Changes
  imports Runtime_Agreement
begin

text \<open>
  Hot changes of outbounds, endpoints and services leave the running core as a restart from the
  new database would; the steps common to the three are lemmas of \<open>synced_table\<close>.
\<close>

lemma agrees_changed:
  assumes run: "co_Running core \<Longrightarrow> co_Running core' \<and> view (co_Items core' k) = view (expected db' k)
      \<and> (\<forall>k'. k' \<noteq> k \<longrightarrow> co_Items core' k' = co_Items core k')"
    and idle: "\<not> co_Running core \<Longrightarrow> core' = core"
    and others: "\<And>k'. k' \<noteq> k \<Longrightarrow> expected db' k' = expected db k'" and "agrees db core"
  shows "agrees db' core'"
  unfolding agrees_def
proof (intro impI allI)
  fix k'
  assume "co_Running core'"
  then have r: "co_Running core" using idle by metis
  show "view (co_Items core' k') = view (expected db' k')"
    using run [OF r] others [of k'] r assms(4) by (cases "k' = k") (auto simp: agrees_def)
qed

context synced_table begin

lemma hot_save:
  assumes ok: "table_ok key t" "tags_ok tag t" and clean: "clean r" and blank: "\<forall>x\<in>set (tb_Rows t). tag x \<noteq> []"
    and saved: "save_tagged key with_key tag r t = Inr (r', t')"
    and run: "replace_item cv k (if edit then Some (old_tag key tag (key r) t) else None) (config r) core = (Inr u, core')"
    and new: "\<not> edit \<Longrightarrow> find_row key (key r) t = None"
    and agree: "co_Running core" "view (co_Items core k) = view (configured tag config (tb_Rows t))"
  shows "view (co_Items core' k) = view (configured tag config (tb_Rows t'))"
proof -
  let ?old = "if edit then Some (old_tag key tag (key r) t) else None"
  obtain m where cfg: "config r = Inr (RVal (GMap m))"
    and items: "co_Items core' k = (case ?old of None \<Rightarrow> co_Items core k | Some o' \<Rightarrow> (co_Items core k)(o' := None))(tag_of m := Some m)"
    using replace_item_Inr [OF run agree(1)] by metis
  have "tag_of m = tag r" using config_tag [OF clean cfg] by simp
  moreover have "(case ?old of None \<Rightarrow> configured tag config (tb_Rows t) | Some o' \<Rightarrow> (configured tag config (tb_Rows t))(o' := None))
      (tag r := config_value (config r')) = configured tag config (tb_Rows t')"
  proof (rule saved_items [OF ok saved])
    show "?old = Some (tag x) \<or> config_value (config x) = None" if "find_row key (key r) t = Some x" for x
      using new that by (cases edit) (simp_all add: old_tag_def)
    show "find_row key (key r) t \<noteq> None \<and> (\<forall>x. find_row key (key r) t = Some x \<longrightarrow> o' = tag x)" if "?old = Some o'" "o' \<noteq> []" for o'
      using that by (auto simp: old_tag_def split: if_splits option.splits)
  qed (rule blank)
  moreover have "config_value (config r') = Some m" using saved cfg by (auto simp: save_tagged_Inr)
  moreover have "view (case ?old of None \<Rightarrow> co_Items core k | Some o' \<Rightarrow> (co_Items core k)(o' := None))
      = view (case ?old of None \<Rightarrow> configured tag config (tb_Rows t) | Some o' \<Rightarrow> (configured tag config (tb_Rows t))(o' := None))"
    using agree(2) by (simp split: option.split)
  ultimately show ?thesis by (metis items view_upd)
qed

lemma hot_delete:
  assumes "tags_ok tag t" "drop_item cv k o' core = (Inr u, core')" "co_Running core"
    and "view (co_Items core k) = view (configured tag config (tb_Rows t))"
  shows "view (co_Items core' k) = view (configured tag config (tb_Rows (delete_rows (\<lambda>r. tag r = o') t)))"
  using deleted_items [OF assms(1), of o'] drop_item_effect(2) [OF assms(2,3)] assms(4) by (metis view_upd)

lemma hot_save_agrees:
  assumes ok: "table_ok key t" "tags_ok tag t" and clean: "clean r" "list_all clean (tb_Rows t)"
    and blank: "\<And>x. clean x \<Longrightarrow> tag x \<noteq> []"
    and saved: "save_tagged key with_key tag r t = Inr (r', t')"
    and run: "replace_item cv k (if edit then Some (old_tag key tag (key r) t) else None) (config r) core = (Inr u, core')"
    and new: "\<not> edit \<Longrightarrow> find_row key (key r) t = None"
    and exp: "expected db k = configured tag config (tb_Rows t)" "expected db' k = configured tag config (tb_Rows t')"
      "\<And>k'. k' \<noteq> k \<Longrightarrow> expected db' k' = expected db k'"
    and agree: "agrees db core"
  shows "agrees db' core' \<and> list_all clean (tb_Rows t') \<and> table_ok key t' \<and> tags_ok tag t'"
proof -
  have "agrees db' core'"
  proof (rule agrees_changed [where k = k])
    assume r: "co_Running core"
    have "view (co_Items core' k) = view (configured tag config (tb_Rows t'))"
    proof (rule hot_save [OF ok clean(1) _ saved run new r])
      show "\<forall>x\<in>set (tb_Rows t). tag x \<noteq> []" using clean(2) blank by (auto simp: list_all_iff)
      show "view (co_Items core k) = view (configured tag config (tb_Rows t))" using agree r exp(1) by (simp add: agrees_def)
    qed
    then show "co_Running core' \<and> view (co_Items core' k) = view (expected db' k) \<and> (\<forall>k'. k' \<noteq> k \<longrightarrow> co_Items core' k' = co_Items core k')"
      using replace_item_Inr [OF run r] exp(2) by metis
  qed (use run agree exp(3) in \<open>auto simp: svc_idle\<close>)
  moreover have "list_all clean (tb_Rows t')"
    using saved clean by (auto simp: save_tagged_Inr save_rows list_all_iff)
  moreover have "table_ok key t'" using saved save_ok [OF ok(1)] by (auto simp: save_tagged_Inr)
  ultimately show ?thesis using save_tags_ok [OF ok saved] by blast
qed

lemma hot_delete_agrees:
  assumes "table_ok key t" "tags_ok tag t" "list_all clean (tb_Rows t)" and drop: "drop_item cv k o' core = (Inr u, core')"
    and exp: "expected db k = configured tag config (tb_Rows t)"
      "expected db' k = configured tag config (tb_Rows (delete_rows (\<lambda>r. tag r = o') t))"
      "\<And>k'. k' \<noteq> k \<Longrightarrow> expected db' k' = expected db k'"
    and agree: "agrees db core"
  shows "agrees db' core'"
proof (rule agrees_changed [where k = k])
  assume r: "co_Running core"
  then have "view (co_Items core' k) = view (expected db' k)"
    using hot_delete [OF assms(2) drop r] agree exp(1,2) by (simp add: agrees_def)
  then show "co_Running core' \<and> view (co_Items core' k) = view (expected db' k) \<and> (\<forall>k'. k' \<noteq> k \<longrightarrow> co_Items core' k' = co_Items core k')"
    using drop_item_effect [OF drop r] by simp
qed (use drop agree exp(3) in \<open>auto simp: svc_idle\<close>)

end

section \<open>Rows decoded from a request\<close>

text \<open>
  What a request must be for a save to be a hot change: the object has a tag, and a new object
  does not name the number of an existing row (the panel never sends one).
\<close>

definition proper_data :: "nat set \<Rightarrow> string \<Rightarrow> raw \<Rightarrow> bool" where
  "proper_data ids act data \<longleftrightarrow> (case decode_map data of
     None \<Rightarrow> True
   | Some m \<Rightarrow> as_str (mget m ''tag'') \<noteq> [] \<and> (act = ''new'' \<longrightarrow> set_uint 0 (mget m ''id'') \<notin> ids))"

lemma clean_mustJSON: "\<not> mhas m ''tag'' \<Longrightarrow> clean_options (mustJSON (GMap m))"
  by (simp add: clean_options_def mhas_def map_prod_def map_of_map)

lemma Outbound_decoded:
  assumes "Outbound_UnmarshalJSON empty_outbound data = Inr r" "proper_data ids act data"
  shows "clean_outbound r" "act = ''new'' \<Longrightarrow> out_Id r \<notin> ids"
  using assms
  by (auto simp: Outbound_UnmarshalJSON_def empty_outbound_def proper_data_def clean_outbound_def Let_def must_str_def as_str_def
      intro!: clean_mustJSON split: option.splits sum.splits gval.splits)

lemma Endpoint_decoded:
  assumes "Endpoint_UnmarshalJSON empty_endpoint data = Inr r" "proper_data ids act data"
  shows "clean_endpoint r" "act = ''new'' \<Longrightarrow> ep_Id r \<notin> ids"
  using assms
  by (auto simp: Endpoint_UnmarshalJSON_def empty_endpoint_def proper_data_def clean_endpoint_def Let_def must_str_def as_str_def
      intro!: clean_mustJSON split: option.splits sum.splits gval.splits)

lemma Service_decoded:
  assumes "Service_UnmarshalJSON empty_service data = Inr r" "proper_data ids act data"
  shows "clean_service r" "act = ''new'' \<Longrightarrow> sv_Id r \<notin> ids" "sv_Tls r = None"
  using assms
  by (auto simp: Service_UnmarshalJSON_def empty_service_def proper_data_def clean_service_def Let_def
      intro!: clean_mustJSON split: option.splits)

section \<open>The three tables\<close>

definition in_step :: "panel_db \<Rightarrow> core_state \<Rightarrow> bool" where
  "in_step db core \<longleftrightarrow> db_ok db \<and> db_clean db \<and> agrees db core"

lemma expected_simps [simp]:
  "expected (db\<lparr>db_Outbounds := t\<rparr>) k = (if k = Outbounds then configured out_Tag Outbound_MarshalJSON (tb_Rows t) else expected db k)"
  "expected (db\<lparr>db_Endpoints := t2\<rparr>) k = (if k = Endpoints then configured ep_Tag Endpoint_MarshalJSON (tb_Rows t2) else expected db k)"
  "expected (db\<lparr>db_Services := t3\<rparr>) k = (if k = Services then configured sv_Tag (service_config db) (tb_Rows t3) else expected db k)"
proof -
  have i: "inbound_config (db\<lparr>db_Outbounds := t\<rparr>) = inbound_config db" "inbound_config (db\<lparr>db_Endpoints := t2\<rparr>) = inbound_config db"
    "inbound_config (db\<lparr>db_Services := t3\<rparr>) = inbound_config db"
    by (auto simp: fun_eq_iff inbound_config_def preload_inbound_def addUsers_def put_users_def fetchUsers_def
        cong: if_cong option.case_cong)
  have s: "service_config (db\<lparr>db_Outbounds := t\<rparr>) = service_config db" "service_config (db\<lparr>db_Endpoints := t2\<rparr>) = service_config db"
    "service_config (db\<lparr>db_Services := t3\<rparr>) = service_config db"
    by (auto simp: fun_eq_iff service_config_def preload_service_def)
  show "expected (db\<lparr>db_Outbounds := t\<rparr>) k = (if k = Outbounds then configured out_Tag Outbound_MarshalJSON (tb_Rows t) else expected db k)"
    by (cases k) (simp_all add: expected_def i s)
  show "expected (db\<lparr>db_Endpoints := t2\<rparr>) k = (if k = Endpoints then configured ep_Tag Endpoint_MarshalJSON (tb_Rows t2) else expected db k)"
    by (cases k) (simp_all add: expected_def i s)
  show "expected (db\<lparr>db_Services := t3\<rparr>) k = (if k = Services then configured sv_Tag (service_config db) (tb_Rows t3) else expected db k)"
    by (cases k) (simp_all add: expected_def i s)
qed

lemma put_rows_all: "list_all P (tb_Rows t) \<Longrightarrow> P r \<Longrightarrow> set (tb_Rows t') = insert r {x \<in> set (tb_Rows t). Q x} \<Longrightarrow> list_all P (tb_Rows t')"
  by (auto simp: list_all_iff)

lemma delete_rows_all: "list_all P (tb_Rows t) \<Longrightarrow> list_all P (tb_Rows (delete_rows Q t))"
  by (auto simp: list_all_iff delete_rows_def)

lemma service_config_stripped: "service_config db (s\<lparr>sv_Tls := x\<rparr>) = service_config db s"
  by (simp add: service_config_def preload_service_def)

lemma Outbounds_in_step:
  assumes step: "in_step db core" and data: "proper_data (out_Id ` set (tb_Rows (db_Outbounds db))) act data"
    and save: "Outbounds_Save env db act data core = (Inr db', core')"
  shows "in_step db' core'"
proof -
  have ok: "table_ok out_Id (db_Outbounds db)" "tags_ok out_Tag (db_Outbounds db)"
    and cl: "list_all clean_outbound (tb_Rows (db_Outbounds db))" and ag: "agrees db core"
    using step by (simp_all add: in_step_def db_ok_def db_clean_def)
  show ?thesis
  proof (cases "act = ''new'' \<or> act = ''edit''")
    case True
    then obtain r u t r' where r: "Outbound_UnmarshalJSON empty_outbound data = Inr r"
      and rep: "replace_item (sv_CoreEnv env) Outbounds
          (if act = ''edit'' then Some (old_tag out_Id out_Tag (out_Id r) (db_Outbounds db)) else None) (Outbound_MarshalJSON r) core = (Inr u, core')"
      and saved: "save_tagged out_Id (\<lambda>k. with_out_Id k) out_Tag r (db_Outbounds db) = Inr (r', t)"
      and db': "db' = db\<lparr>db_Outbounds := t\<rparr>"
      using save by (fastforce simp: Outbounds_Save_def svc_Inr store_outbound_def results)
    note dec = Outbound_decoded [OF r data]
    have "agrees db' core' \<and> list_all clean_outbound (tb_Rows t) \<and> table_ok out_Id t \<and> tags_ok out_Tag t"
    proof (rule synced_outbounds.hot_save_agrees [OF ok dec(1) cl _ saved rep _ _ _ _ ag])
      show "act \<noteq> ''edit'' \<Longrightarrow> find_row out_Id (out_Id r) (db_Outbounds db) = None"
        using dec(2) True by (simp add: outbounds.find_None)
    qed (simp_all add: clean_outbound_def db' expected_def [of db])
    then show ?thesis using step by (simp add: in_step_def db_ok_def db_clean_def db')
  next
    case False
    then obtain tag u where drop: "drop_item (sv_CoreEnv env) Outbounds tag core = (Inr u, core')"
      and db': "db' = db\<lparr>db_Outbounds := delete_rows (\<lambda>x. out_Tag x = tag) (db_Outbounds db)\<rparr>"
      using save by (auto simp: Outbounds_Save_def svc_Inr split: if_splits)
    have "agrees db' core'"
      by (rule synced_outbounds.hot_delete_agrees [OF ok cl drop _ _ _ ag]) (simp_all add: db' expected_def [of db])
    then show ?thesis
      using step ok delete_rows_all [OF cl] by (simp add: in_step_def db_ok_def db_clean_def db' tables_ok)
  qed
qed

text \<open>Registering a device fills in the options of the endpoint and leaves its identity alone.\<close>

definition warp_keeps :: "svc_env \<Rightarrow> bool" where
  "warp_keeps env \<longleftrightarrow> (\<forall>act db e e'. warp_endpoint env db act e = Inr e' \<longrightarrow>
     ep_Id e' = ep_Id e \<and> ep_Tag e' = ep_Tag e \<and> (clean_options (ep_Options e) \<longrightarrow> clean_options (ep_Options e')))"

lemma Endpoints_in_step:
  assumes step: "in_step db core" and data: "proper_data (ep_Id ` set (tb_Rows (db_Endpoints db))) act data"
    and warp: "warp_keeps env" and save: "Endpoints_Save env db act data core = (Inr db', core')"
  shows "in_step db' core'"
proof -
  have ok: "table_ok ep_Id (db_Endpoints db)" "tags_ok ep_Tag (db_Endpoints db)"
    and cl: "list_all clean_endpoint (tb_Rows (db_Endpoints db))" and ag: "agrees db core"
    using step by (simp_all add: in_step_def db_ok_def db_clean_def)
  show ?thesis
  proof (cases "act = ''new'' \<or> act = ''edit''")
    case True
    then obtain r0 r u t r' where r0: "Endpoint_UnmarshalJSON empty_endpoint data = Inr r0"
      and r: "warp_endpoint env db act r0 = Inr r"
      and rep: "replace_item (sv_CoreEnv env) Endpoints
          (if act = ''edit'' then Some (old_tag ep_Id ep_Tag (ep_Id r) (db_Endpoints db)) else None) (Endpoint_MarshalJSON r) core = (Inr u, core')"
      and saved: "save_tagged ep_Id (\<lambda>k. with_ep_Id k) ep_Tag r (db_Endpoints db) = Inr (r', t)"
      and db': "db' = db\<lparr>db_Endpoints := t\<rparr>"
      using save by (fastforce simp: Endpoints_Save_def svc_Inr store_endpoint_def results)
    note dec = Endpoint_decoded [OF r0 data]
    have r_r0: "ep_Id r = ep_Id r0" "clean_endpoint r"
      using warp r dec(1) unfolding warp_keeps_def clean_endpoint_def by metis+
    have "agrees db' core' \<and> list_all clean_endpoint (tb_Rows t) \<and> table_ok ep_Id t \<and> tags_ok ep_Tag t"
    proof (rule synced_endpoints.hot_save_agrees [OF ok r_r0(2) cl _ saved rep _ _ _ _ ag])
      show "act \<noteq> ''edit'' \<Longrightarrow> find_row ep_Id (ep_Id r) (db_Endpoints db) = None"
        using dec(2) True by (simp add: endpoints.find_None r_r0)
    qed (simp_all add: clean_endpoint_def db' expected_def [of db])
    then show ?thesis using step by (simp add: in_step_def db_ok_def db_clean_def db')
  next
    case False
    then obtain tag u where drop: "drop_item (sv_CoreEnv env) Endpoints tag core = (Inr u, core')"
      and db': "db' = db\<lparr>db_Endpoints := delete_rows (\<lambda>x. ep_Tag x = tag) (db_Endpoints db)\<rparr>"
      using save by (auto simp: Endpoints_Save_def svc_Inr split: if_splits)
    have "agrees db' core'"
      by (rule synced_endpoints.hot_delete_agrees [OF ok cl drop _ _ _ ag]) (simp_all add: db' expected_def [of db])
    then show ?thesis
      using step ok delete_rows_all [OF cl] by (simp add: in_step_def db_ok_def db_clean_def db' tables_ok)
  qed
qed

lemma Services_in_step:
  assumes step: "in_step db core" and data: "proper_data (sv_Id ` set (tb_Rows (db_Services db))) act data"
    and save: "Services_Save env db act data core = (Inr db', core')"
  shows "in_step db' core'"
proof -
  have ok: "table_ok sv_Id (db_Services db)" "tags_ok sv_Tag (db_Services db)"
    and cl: "list_all clean_service (tb_Rows (db_Services db))" and ag: "agrees db core"
    using step by (simp_all add: in_step_def db_ok_def db_clean_def)
  show ?thesis
  proof (cases "act = ''new'' \<or> act = ''edit''")
    case True
    then obtain r0 s u t r' where r0: "Service_UnmarshalJSON empty_service data = Inr r0"
      and s: "s = (if sv_TlsId r0 > 0 then preload_service db r0 else r0)"
      and rep: "replace_item (sv_CoreEnv env) Services
          (if act = ''edit'' then Some (old_tag sv_Id sv_Tag (sv_Id s) (db_Services db)) else None) (Service_MarshalJSON s) core = (Inr u, core')"
      and saved: "save_tagged sv_Id (\<lambda>k. with_sv_Id k) sv_Tag (s\<lparr>sv_Tls := None\<rparr>) (db_Services db) = Inr (r', t)"
      and db': "db' = db\<lparr>db_Services := t\<rparr>"
      using save by (fastforce simp: Services_Save_def svc_Inr store_service_def results Let_def)
    note dec = Service_decoded [OF r0 data]
    let ?s = "s\<lparr>sv_Tls := None\<rparr>"
    have s': "sv_Id ?s = sv_Id r0" "clean_service ?s" using dec(1) by (simp_all add: s clean_service_def preload_service_def)
    have "find_row tls_Id 0 (db_Tls db) = None"
      using step by (simp add: in_step_def db_ok_def tlss.find_zero)
    then have pre: "preload_service db ?s = s" using dec(3) by (auto simp: s preload_service_def)
    have sid: "sv_Id ?s = sv_Id s" by simp
    have rep': "replace_item (sv_CoreEnv env) Services
        (if act = ''edit'' then Some (old_tag sv_Id sv_Tag (sv_Id ?s) (db_Services db)) else None) (service_config db ?s) core = (Inr u, core')"
      using rep by (simp only: service_config_def pre sid)
    have "agrees db' core' \<and> list_all clean_service (tb_Rows t) \<and> table_ok sv_Id t \<and> tags_ok sv_Tag t"
    proof (rule synced_services.hot_save_agrees [OF ok s'(2) cl _ saved rep' _ _ _ _ ag])
      show "act \<noteq> ''edit'' \<Longrightarrow> find_row sv_Id (sv_Id ?s) (db_Services db) = None"
        unfolding s'(1) using dec(2) True by (simp add: services.find_None)
    qed (simp_all add: clean_service_def db' expected_def [of db])
    then show ?thesis using step by (simp add: in_step_def db_ok_def db_clean_def db')
  next
    case False
    then obtain tag u where drop: "drop_item (sv_CoreEnv env) Services tag core = (Inr u, core')"
      and db': "db' = db\<lparr>db_Services := delete_rows (\<lambda>x. sv_Tag x = tag) (db_Services db)\<rparr>"
      using save by (auto simp: Services_Save_def svc_Inr split: if_splits)
    have "agrees db' core'"
      by (rule synced_services.hot_delete_agrees [OF ok cl drop _ _ _ ag]) (simp_all add: db' expected_def [of db])
    then show ?thesis
      using step ok delete_rows_all [OF cl] by (simp add: in_step_def db_ok_def db_clean_def db' tables_ok)
  qed
qed

text \<open>
  C10. Saving or deleting an outbound, an endpoint or a service while the core runs is the same as
  a restart from the new database: the core holds exactly the configured items of every kind, and
  the tables keep their invariants (keys in order, tags unique).
\<close>

theorem hot_changes_agree:
  assumes step: "in_step db core" and warp: "warp_keeps env"
    and save: "Outbounds_Save env db act data core = (Inr db', core') \<and> proper_data (out_Id ` set (tb_Rows (db_Outbounds db))) act data
      \<or> Endpoints_Save env db act data core = (Inr db', core') \<and> proper_data (ep_Id ` set (tb_Rows (db_Endpoints db))) act data
      \<or> Services_Save env db act data core = (Inr db', core') \<and> proper_data (sv_Id ` set (tb_Rows (db_Services db))) act data"
  shows "in_step db' core'"
  using save Outbounds_in_step [OF step] Endpoints_in_step [OF step _ warp] Services_in_step [OF step] by blast

definition example_env :: svc_env where
  "example_env = \<lparr>sv_Client = \<lparr>ce_Link = \<lparr>le_ReadFile = \<lambda>_. None, le_CertSha256Hex = \<lambda>_. [], le_Choose = \<lambda>_. 0\<rparr>,
       ce_Now = 1000, ce_SameBytes = \<lambda>a b. a = b\<rparr>,
     sv_CoreEnv = \<lparr>cv_Create = \<lambda>_ _. None, cv_Close = \<lambda>_ _. None, cv_Start = \<lambda>_. None, cv_Stop = None\<rparr>,
     sv_RegisterWarp = \<lambda>e. Inr e, sv_SetWarpLicense = \<lambda>_ e. Inr e\<rparr>"

definition example_core :: core_state where
  "example_core = \<lparr>co_Running = True, co_Items = (\<lambda>_. Map.empty)\<rparr>"

lemma configured_Nil: "configured tag config [] = Map.empty"
  by (simp add: configured_def fun_eq_iff)

lemma in_step_empty: "in_step empty_db example_core"
proof -
  have "agrees empty_db example_core"
    by (simp add: configured_Nil agrees_def expected_def empty_db_def empty_table_def example_core_def split: core_kind.split)
  then show ?thesis by (simp add: in_step_def db_ok_empty) (simp add: db_clean_def empty_db_def empty_table_def)
qed

lemma example_warp: "warp_keeps example_env"
  by (auto simp: warp_keeps_def warp_endpoint_def example_env_def split: if_splits)

definition example_outbound :: raw where
  "example_outbound = RVal (GMap [(''type'', GStr ''direct''), (''tag'', GStr ''out-1''), (''domain_strategy'', GStr ''ipv4_only'')])"

theorem hot_changes_agree_witness:
  "\<exists>db' core'. Outbounds_Save example_env empty_db ''new'' example_outbound example_core = (Inr db', core')
     \<and> in_step db' core' \<and> map out_Tag (tb_Rows (db_Outbounds db')) = [''out-1'']"
proof -
  let ?run = "Outbounds_Save example_env empty_db ''new'' example_outbound example_core"
  have "\<not> isl (fst ?run) \<and> map out_Tag (tb_Rows (db_Outbounds (projr (fst ?run)))) = [''out-1'']" by code_simp
  then obtain db' core' where run: "?run = (Inr db', core')" and tags: "map out_Tag (tb_Rows (db_Outbounds db')) = [''out-1'']"
    by (cases ?run; cases "fst ?run") auto
  have "proper_data (out_Id ` set (tb_Rows (db_Outbounds empty_db))) ''new'' example_outbound" by code_simp
  then have "in_step db' core'"
    by (rule hot_changes_agree [OF in_step_empty example_warp disjI1 [OF conjI [OF run]]])
  with run tags show ?thesis by (intro exI conjI)
qed

end
