(* ===== verification/Client_Agreement.thy ===== *)
theory Client_Agreement
  imports Hot_Changes
begin

text \<open>
  Saving clients reloads only the inbounds the save reports. That is enough: the users of every
  other inbound are the same before and after, so the core again holds what a restart would give.
\<close>

section \<open>What an inbound sees of the clients\<close>

definition contribution :: "nat \<Rightarrow> client \<Rightarrow> raw option" where
  "contribution i c = (if cl_Enable c \<and> lists_inbound i c then Some (cl_Config c) else None)"

definition contributions :: "nat \<Rightarrow> client table \<Rightarrow> raw list" where
  "contributions i t = List.map_filter (contribution i) (tb_Rows t)"

definition entry_of :: "string \<Rightarrow> raw \<Rightarrow> gval" where
  "entry_of ty r = (case r of RVal (GMap m) \<Rightarrow> mget m ty | _ \<Rightarrow> GNil)"

lemma users_of_contributions:
  "map (config_entry ty) (filter (\<lambda>c. cl_Enable c \<and> config_entry ty c \<noteq> GNil \<and> lists_inbound i c) rows)
     = filter (\<lambda>v. v \<noteq> GNil) (map (entry_of ty) (List.map_filter (contribution i) rows))"
  by (induction rows) (auto simp: contribution_def List.map_filter_simps config_entry_def entry_of_def)

text \<open>
  The clients of a panel: a configuration that is JSON and carries the client's name, and a list
  of inbounds that can be read.
\<close>

definition clean_client :: "client \<Rightarrow> bool" where
  "clean_client c \<longleftrightarrow> cl_Config c \<noteq> RBad \<and> setConfigIdentity c = Inr c \<and> \<not> isl (ids_of (cl_Inbounds c))"

definition clients_clean :: "panel_db \<Rightarrow> bool" where
  "clients_clean db \<longleftrightarrow> list_all clean_client (tb_Rows (db_Clients db))"

lemma fetchUsers_same:
  assumes "clients_clean db" "clients_clean db'" "contributions i (db_Clients db') = contributions i (db_Clients db)"
  shows "fetchUsers db' ty (lists_inbound i) inb = fetchUsers db ty (lists_inbound i) inb"
proof -
  have "\<not> list_ex (\<lambda>c. cl_Enable c \<and> cl_Config c = RBad) (tb_Rows (db_Clients db))"
    "\<not> list_ex (\<lambda>c. cl_Enable c \<and> cl_Config c = RBad) (tb_Rows (db_Clients db'))"
    using assms(1,2) by (auto simp: clients_clean_def clean_client_def list_all_iff list_ex_iff)
  then show ?thesis
    using assms(3) by (simp add: fetchUsers_def users_of_contributions contributions_def Let_def)
qed

lemma inbound_config_same:
  assumes "clients_clean db" "clients_clean db'" "contributions (in_Id r) (db_Clients db') = contributions (in_Id r) (db_Clients db)"
    and "db_Tls db' = db_Tls db"
  shows "inbound_config db' r = inbound_config db r"
proof -
  have "preload_inbound db' r = preload_inbound db r" using assms(4) by (simp add: preload_inbound_def)
  moreover have "put_users db' cfg (lists_inbound (in_Id r)) ty = put_users db cfg (lists_inbound (in_Id r)) ty" for cfg ty
    using fetchUsers_same [OF assms(1-3)] by (simp add: put_users_def split: option.split)
  then have "(\<lambda>cfg. addUsers db' cfg (in_Id r) (in_Type r)) = (\<lambda>cfg. addUsers db cfg (in_Id r) (in_Type r))"
    by (intro ext) (simp only: addUsers_def)
  ultimately show ?thesis by (simp only: inbound_config_def)
qed

section \<open>Which inbounds a client lists\<close>

lemma all_uints_mem: "all_uints xs = Some ns \<Longrightarrow> 0 < i \<Longrightarrow> GFloat (of_nat i) \<in> set xs \<longleftrightarrow> i \<in> set ns"
proof (induction xs arbitrary: ns rule: all_uints.induct)
  case (2 r xs)
  from 2(2) obtain ns' where ns': "0 \<le> r" "of_int \<lfloor>r\<rfloor> = r" "all_uints xs = Some ns'" "ns = nat \<lfloor>r\<rfloor> # ns'"
    by (auto split: if_splits)
  have "r = of_nat (nat \<lfloor>r\<rfloor>)" using ns'(1,2) by (metis of_int_of_nat_eq of_nat_nat zero_le_floor)
  then have "GFloat (of_nat i) = GFloat r \<longleftrightarrow> i = nat \<lfloor>r\<rfloor>" by (metis gval.inject(2) of_nat_eq_iff)
  moreover have "GFloat (of_nat i) \<in> set xs \<longleftrightarrow> i \<in> set ns'" using 2(1) [OF _ ns'(3) 2(3)] ns'(1,2) by blast
  ultimately show ?case unfolding ns'(4) by (simp only: list.set insert_iff)
qed auto

lemma lists_inbound_iff:
  assumes "ids_of (cl_Inbounds c) = Inr ids" "0 < i"
  shows "lists_inbound i c \<longleftrightarrow> i \<in> set ids"
  using assms
  by (auto simp: ids_of_def lists_inbound_def decode_uints_def json_each_def all_uints_mem split: option.splits raw.splits gval.splits)

section \<open>Changes that no other inbound sees\<close>

text \<open>\<open>unseen i c old\<close>: replacing \<open>old\<close> by \<open>c\<close>, or adding \<open>c\<close>, does not change the users of inbound \<open>i\<close>.\<close>

definition unseen :: "nat \<Rightarrow> client \<Rightarrow> client option \<Rightarrow> bool" where
  "unseen i c old \<longleftrightarrow> contribution i c = (case old of None \<Rightarrow> None | Some o' \<Rightarrow> contribution i o')"

lemma contribution_keyed [simp]: "contribution i (keyed cl_Id (\<lambda>k. with_cl_Id k) t c) = contribution i c"
  by (simp add: keyed_def contribution_def lists_inbound_def)

lemma map_filter_insort: "f r = None \<Longrightarrow> List.map_filter f (insort_key key r rows) = List.map_filter f rows"
  by (induction rows) (auto simp: List.map_filter_simps split: option.split)

lemma map_filter_replace:
  assumes "\<And>x. x \<in> set rows \<Longrightarrow> P x \<Longrightarrow> f y = f x"
  shows "List.map_filter f (map (\<lambda>x. if P x then y else x) rows) = List.map_filter f rows"
  using assms
proof (induction rows)
  case (Cons a rows)
  then have "f (if P a then y else a) = f a" by simp
  then show ?case using Cons by (simp add: List.map_filter_simps split: option.split)
qed (simp add: List.map_filter_simps)

lemma contributions_saved:
  assumes ok: "table_ok cl_Id t" and unseen: "unseen i c (if cl_Id c = 0 then None else find_row cl_Id (cl_Id c) t)"
  shows "contributions i (save_row cl_Id (\<lambda>k. with_cl_Id k) c t) = contributions i t"
proof -
  let ?r = "keyed cl_Id (\<lambda>k. with_cl_Id k) t c"
  show ?thesis
  proof (cases "cl_Id ?r \<in> cl_Id ` set (tb_Rows t)")
    case True
    then have nz: "cl_Id c \<noteq> 0" using clients.fresh_key [OF ok, of c] by blast
    then have r: "?r = c" by (simp add: keyed_def)
    have "contribution i ?r = contribution i x" if "x \<in> set (tb_Rows t)" "cl_Id x = cl_Id ?r" for x
      using unseen nz r clients.find_Some [OF ok, of "cl_Id c" x] that by (simp add: unseen_def)
    then show ?thesis
      using True by (simp add: contributions_def save_row_def put_row_def Let_def map_filter_replace)
  next
    case False
    then have "(if cl_Id c = 0 then None else find_row cl_Id (cl_Id c) t) = None"
      by (auto simp: keyed_def clients.find_None)
    then have "contribution i ?r = None" using unseen by (auto simp: unseen_def split: if_splits)
    then show ?thesis
      using False by (simp add: contributions_def save_row_def put_row_def Let_def map_filter_insort)
  qed
qed

lemma contributions_deleted:
  assumes "\<And>c. c \<in> set (tb_Rows t) \<Longrightarrow> P c \<Longrightarrow> contribution i c = None"
  shows "contributions i (delete_rows P t) = contributions i t"
proof -
  have "List.map_filter f (filter (\<lambda>c. \<not> P c) rows) = List.map_filter f rows"
    if "\<And>c. c \<in> set rows \<Longrightarrow> P c \<Longrightarrow> f c = None" for f :: "client \<Rightarrow> raw option" and rows
    using that by (induction rows) (auto simp: List.map_filter_simps split: option.split)
  then show ?thesis using assms by (simp add: contributions_def delete_rows_def)
qed

section \<open>The identity of a client\<close>

lemma identity_fields:
  "setConfigIdentity c = Inr d \<Longrightarrow> \<exists>cfg. d = c\<lparr>cl_Config := cfg\<rparr>"
  by (auto simp: setConfigIdentity_def split: if_splits raw.splits gval.splits intro: exI [of _ "cl_Config c"])

lemma config_update_same: "c\<lparr>cl_Config := x\<rparr> = c \<longleftrightarrow> x = cl_Config c"
  by (cases c) simp

lemma identity_cong:
  assumes "cl_Name c = cl_Name d" "cl_Config c = cl_Config d"
  shows "setConfigIdentity c = Inr c \<longleftrightarrow> setConfigIdentity d = Inr d"
  using assms by (auto simp: setConfigIdentity_def config_update_same split: raw.splits gval.splits)

lemma identity_config_idem [simp]: "identity_config n (identity_config n v) = identity_config n v"
  by (cases v) (auto simp: identity_config_def mput_same)

lemma identity_idem:
  assumes "setConfigIdentity c = Inr d"
  shows "setConfigIdentity d = Inr d"
proof (cases "cl_Name c = [] \<or> raw_short (cl_Config c)")
  case True
  then show ?thesis using assms by (auto simp: setConfigIdentity_def)
next
  case False
  then consider "cl_Config c = RVal GNil" "d = c"
    | m where "cl_Config c = RVal (GMap m)" "list_all (\<lambda>(_, v). case v of GMap _ \<Rightarrow> True | GNil \<Rightarrow> True | _ \<Rightarrow> False) m"
      "d = c\<lparr>cl_Config := RVal (GMap (map (map_prod id (identity_config (cl_Name c))) m))\<rparr>"
    using assms by (auto simp: setConfigIdentity_def split: raw.splits gval.splits if_splits)
  then show ?thesis
  proof cases
    case (2 m)
    let ?f = "map_prod id (identity_config (cl_Name c))"
    have "list_all (\<lambda>(_, v). case v of GMap _ \<Rightarrow> True | GNil \<Rightarrow> True | _ \<Rightarrow> False) (map ?f m)"
      using 2(2) by (auto simp: list_all_iff identity_config_def split: gval.splits)
    moreover have "map ?f (map ?f m) = map ?f m" by (simp add: comp_def map_prod_def split_beta)
    ultimately show ?thesis using False by (simp add: setConfigIdentity_def 2(3) raw_short_def)
  qed (use assms in simp)
qed

lemma decoded_config: "client_of_map m = Inr c \<Longrightarrow> cl_Config c \<noteq> RBad"
  by (auto simp: client_of_map_def bindr_Inr_iff field_raw_def split: if_splits)

lemma identity_not_bad:
  assumes "setConfigIdentity c = Inr d" "cl_Config c \<noteq> RBad"
  shows "cl_Config d \<noteq> RBad"
  using assms by (auto simp: setConfigIdentity_def split: if_splits raw.splits gval.splits)

section \<open>The steps of a save\<close>

definition only_links :: "client \<Rightarrow> client \<Rightarrow> bool" where
  "only_links c d \<longleftrightarrow> d\<lparr>cl_Links := cl_Links c\<rparr> = c"

lemma only_links_fields:
  assumes "only_links c d"
  shows "cl_Id d = cl_Id c" "cl_Name d = cl_Name c" "cl_Config d = cl_Config c" "cl_Enable d = cl_Enable c"
    "cl_Inbounds d = cl_Inbounds c" "contribution i d = contribution i c" "clean_client d = clean_client c"
proof -
  have c: "c = d\<lparr>cl_Links := cl_Links c\<rparr>" using assms by (simp add: only_links_def)
  show f: "cl_Id d = cl_Id c" "cl_Name d = cl_Name c" "cl_Config d = cl_Config c" "cl_Enable d = cl_Enable c"
    "cl_Inbounds d = cl_Inbounds c"
    by (subst c, simp)+
  show "contribution i d = contribution i c" by (simp add: contribution_def lists_inbound_def f)
  show "clean_client d = clean_client c" using identity_cong [OF f(2,3)] by (simp add: clean_client_def f)
qed

lemma links_only:
  assumes "updateLinksWithFixedInbounds env db cs hostname = Inr ds"
  shows "list_all2 only_links cs ds"
proof -
  obtain ids where ids: "mapr (\<lambda>c. ids_of (cl_Inbounds c)) cs = Inr ids"
    and ds: "list_all2 (\<lambda>p d. fixed_links env db hostname p = Inr d) (zip cs ids) ds"
    using assms by (auto simp: updateLinksWithFixedInbounds_def bindr_Inr_iff mapr_Inr_iff)
  have "length ids = length cs" by (rule mapr_Inr_length [OF ids])
  moreover have "list_all2 (\<lambda>p d. only_links (fst p) d) (zip cs ids) ds"
    using ds by (rule list_all2_mono) (auto simp: fixed_links_def only_links_def bindr_Inr_iff split: prod.splits)
  ultimately show ?thesis by (simp add: list_all2_map1 [symmetric])
qed

text \<open>Two clients that differ in nothing an inbound sees.\<close>

lemma findInboundsChanges_unseen:
  assumes ok: "table_ok cl_Id (db_Clients db)" and bytes: "\<And>a b. ce_SameBytes env a b \<Longrightarrow> a = b"
    and run: "findInboundsChanges env db c0 omitted = Inr (ids, c)"
  shows "\<exists>old. find_row cl_Id (cl_Id c0) (db_Clients db) = Some old \<and> cl_Id c = cl_Id c0 \<and> cl_Name c = cl_Name c0
    \<and> cl_Enable c = cl_Enable c0 \<and> cl_Inbounds c = cl_Inbounds c0 \<and> \<not> isl (ids_of (cl_Inbounds c))
    \<and> cl_Config c = (if omitted then cl_Config old else cl_Config c0)
    \<and> (\<forall>i>0. i \<notin> set ids \<longrightarrow> contribution i c = contribution i old
         \<and> (\<not> lists_inbound i c \<and> \<not> lists_inbound i old \<or> cl_Name c = cl_Name old \<and> cl_Enable c = cl_Enable old \<and> lists_inbound i c = lists_inbound i old))"
proof -
  obtain old where old: "find_row cl_Id (cl_Id c0) (db_Clients db) = Some old"
    using run by (auto simp: findInboundsChanges_def find_client_def bindr_Inr_iff split: option.splits)
  define d where "d = (if omitted then c0\<lparr>cl_Links := cl_Links old, cl_Config := cl_Config old\<rparr> else c0)"
  let ?res = "\<lambda>oldIds newIds. (if \<not> ce_SameBytes env (cl_Config old) (cl_Config d) \<or> cl_Name old \<noteq> cl_Name d \<or> cl_Enable old \<noteq> cl_Enable d
       then Inr (UnionUintArray oldIds newIds, d) else Inr (DiffUintArray oldIds newIds, d)) :: (nat list \<times> client) result"
  have "bindr (ids_of (cl_Inbounds old)) (\<lambda>oldIds. bindr (ids_of (cl_Inbounds d)) (?res oldIds)) = Inr (ids, c)"
    using run by (simp only: findInboundsChanges_def find_client_def old option.case bindr_simps Let_def d_def)
  then obtain oldIds newIds where ids1: "ids_of (cl_Inbounds old) = Inr oldIds" and ids2: "ids_of (cl_Inbounds d) = Inr newIds"
    and res: "?res oldIds newIds = Inr (ids, c)"
    unfolding bindr_Inr_iff by blast
  have c: "c = d" using res by (simp split: if_splits)
  note ids2 = ids2 [folded c]
  have ids: "ids = (if \<not> ce_SameBytes env (cl_Config old) (cl_Config c) \<or> cl_Name old \<noteq> cl_Name c \<or> cl_Enable old \<noteq> cl_Enable c
       then UnionUintArray oldIds newIds else DiffUintArray oldIds newIds)"
    using res by (auto simp: c split: if_splits)
  have "contribution i c = contribution i old
      \<and> (\<not> lists_inbound i c \<and> \<not> lists_inbound i old \<or> cl_Name c = cl_Name old \<and> cl_Enable c = cl_Enable old \<and> lists_inbound i c = lists_inbound i old)"
    if i: "0 < i" "i \<notin> set ids" for i
  proof (cases "\<not> ce_SameBytes env (cl_Config old) (cl_Config c) \<or> cl_Name old \<noteq> cl_Name c \<or> cl_Enable old \<noteq> cl_Enable c")
    case True
    then have "\<not> lists_inbound i c" "\<not> lists_inbound i old"
      using i lists_inbound_iff [OF ids1 i(1)] lists_inbound_iff [OF ids2 i(1)] by (simp_all add: ids)
    then show ?thesis by (simp add: contribution_def)
  next
    case False
    then have "lists_inbound i c = lists_inbound i old"
      using i lists_inbound_iff [OF ids1 i(1)] lists_inbound_iff [OF ids2 i(1)] by (auto simp: ids)
    moreover have "cl_Config c = cl_Config old" using False bytes by metis
    ultimately show ?thesis using False by (simp add: contribution_def)
  qed
  then show ?thesis using old ids2 by (auto simp: c d_def)
qed

section \<open>A save is seen only by the inbounds it reports\<close>

definition unseen_save :: "nat list \<Rightarrow> panel_db \<Rightarrow> panel_db \<Rightarrow> bool" where
  "unseen_save ids db db' \<longleftrightarrow> db' = db\<lparr>db_Clients := db_Clients db'\<rparr> \<and> table_ok cl_Id (db_Clients db') \<and> clients_clean db'
     \<and> (\<forall>i>0. i \<notin> set ids \<longrightarrow> contributions i (db_Clients db') = contributions i (db_Clients db))"

text \<open>
  A row that may be saved: clean, new or the successor of a row of the table, and unseen by every
  inbound that is not reported.
\<close>

definition savable :: "nat list \<Rightarrow> client table \<Rightarrow> client \<Rightarrow> bool" where
  "savable ids t c \<longleftrightarrow> clean_client c \<and> (cl_Id c = 0 \<or> find_row cl_Id (cl_Id c) t \<noteq> None)
     \<and> (\<forall>i>0. i \<notin> set ids \<longrightarrow> unseen i c (if cl_Id c = 0 then None else find_row cl_Id (cl_Id c) t))"

lemma saved_clean: "clients_clean db \<Longrightarrow> clean_client c \<Longrightarrow> clients_clean (save_client c db)"
proof -
  have "clean_client (keyed cl_Id (\<lambda>k. with_cl_Id k) t c) = clean_client c" for t
    using identity_cong [of "with_cl_Id (Suc (tb_Seq t)) c" c] by (simp add: keyed_def clean_client_def)
  then show "clients_clean db \<Longrightarrow> clean_client c \<Longrightarrow> clients_clean (save_client c db)"
    by (auto simp: clients_clean_def list_all_iff save_client_def clients.save_rows)
qed

lemma save_one:
  assumes ok: "table_ok cl_Id (db_Clients db)" and clean: "clients_clean db" and c: "savable ids (db_Clients db) c"
  shows "unseen_save ids db (save_client c db)"
  using c clients.save_ok [OF ok, of c] saved_clean [OF clean] contributions_saved [OF ok]
  by (auto simp: unseen_save_def savable_def) (simp_all add: save_client_def)

text \<open>A list of rows, each of them savable in the table before the whole list.\<close>

lemma savable_step:
  assumes ok: "table_ok cl_Id t" and c: "savable ids t c" and d: "savable ids t d"
  shows "savable ids (save_row cl_Id (\<lambda>k. with_cl_Id k) c t) d"
proof (cases "cl_Id d = 0")
  case False
  let ?r = "keyed cl_Id (\<lambda>k. with_cl_Id k) t c"
  obtain x where x: "find_row cl_Id (cl_Id d) t = Some x" using d False by (auto simp: savable_def)
  have find: "find_row cl_Id (cl_Id d) (save_row cl_Id (\<lambda>k. with_cl_Id k) c t) = (if cl_Id d = cl_Id ?r then Some ?r else Some x)"
    using clients.find_saved [OF ok] x by simp
  have "unseen i d (Some ?r)" if eq: "cl_Id d = cl_Id ?r" and i: "0 < i" "i \<notin> set ids" for i
  proof -
    have "cl_Id ?r \<in> cl_Id ` set (tb_Rows t)" using eq x clients.find_Some [OF ok] by (metis imageI)
    then have "cl_Id c \<noteq> 0" using clients.fresh_key [OF ok] by blast
    then have "cl_Id c = cl_Id d" using eq by (simp add: keyed_def)
    then have "contribution i c = contribution i x" using c i x False by (simp add: savable_def unseen_def)
    then show ?thesis using d i x False by (simp add: savable_def unseen_def)
  qed
  then show ?thesis using d False x by (auto simp: savable_def find)
qed (use d in \<open>simp add: savable_def\<close>)

lemma save_many:
  assumes "table_ok cl_Id (db_Clients db)" "clients_clean db"
    and "list_all (savable ids (db_Clients db)) cs"
  shows "unseen_save ids db (foldl (\<lambda>db c. save_client c db) db cs)"
  using assms
proof (induction cs arbitrary: db)
  case Nil
  then show ?case by (simp add: unseen_save_def)
next
  case (Cons c cs)
  let ?db = "save_client c db"
  have one: "unseen_save ids db ?db" using Cons.prems by (intro save_one) simp_all
  have "db_Clients ?db = save_row cl_Id (\<lambda>k. with_cl_Id k) c (db_Clients db)" by (simp add: save_client_def)
  then have "list_all (savable ids (db_Clients ?db)) cs"
    using savable_step [OF Cons.prems(1)] Cons.prems(3) by (simp add: list_all_iff)
  then have "unseen_save ids ?db (foldl (\<lambda>db c. save_client c db) ?db cs)"
    using one by (intro Cons.IH) (simp_all add: unseen_save_def)
  then show ?case using one unfolding unseen_save_def foldl_Cons by (metis panel_db.update_convs(8) panel_db.surjective)
qed

section \<open>The six ways to save\<close>

text \<open>New clients are sent without a number.\<close>

definition proper_clients :: "string \<Rightarrow> raw \<Rightarrow> bool" where
  "proper_clients act data \<longleftrightarrow>
     (act = ''new'' \<longrightarrow> (case Client_of_JSON data of Inl _ \<Rightarrow> True | Inr c \<Rightarrow> cl_Id c = 0))
   \<and> (act = ''addbulk'' \<longrightarrow> (case Clients_of_JSON data of Inl _ \<Rightarrow> True | Inr cs \<Rightarrow> list_all (\<lambda>c. cl_Id c = 0) cs))"

lemma clean_timestamps: "clean_client (c\<lparr>cl_CreatedAt := x\<rparr>) = clean_client c" "clean_client (c\<lparr>cl_CreatedAt := x, cl_OnlineAt := y\<rparr>) = clean_client c"
  using identity_cong [of "c\<lparr>cl_CreatedAt := x\<rparr>" c] identity_cong [of "c\<lparr>cl_CreatedAt := x, cl_OnlineAt := y\<rparr>" c]
  by (simp_all add: clean_client_def)

lemma contribution_fields:
  "cl_Config c = cl_Config d \<Longrightarrow> cl_Inbounds c = cl_Inbounds d \<Longrightarrow> cl_Enable c = cl_Enable d \<Longrightarrow> contribution i c = contribution i d"
  by (simp add: contribution_def lists_inbound_def)

lemma preserve_fields:
  "cl_Id (preserveTimestamps db c) = cl_Id c" "clean_client (preserveTimestamps db c) = clean_client c"
  "contribution i (preserveTimestamps db c) = contribution i c"
  by (auto simp: preserveTimestamps_def clean_timestamps intro!: contribution_fields split: option.split)

lemma unlisted: "ids_of (cl_Inbounds c) = Inr own \<Longrightarrow> 0 < i \<Longrightarrow> i \<notin> set own \<Longrightarrow> contribution i c = None"
  by (simp add: contribution_def lists_inbound_iff)

lemma save_new_effect:
  assumes ok: "table_ok cl_Id (db_Clients db)" and clean: "clients_clean db" and data: "proper_clients ''new'' data"
    and run: "save_new env db data hostname = Inr (ids, db')"
  shows "unseen_save ids db db'"
proof -
  obtain c0 c1 cs where c0: "Client_of_JSON data = Inr c0" and c1: "setConfigIdentity c0 = Inr c1"
    and cs: "updateLinksWithFixedInbounds env db [c1] hostname = Inr cs"
    and ids: "ids_of (cl_Inbounds (hd cs)) = Inr ids" and db': "db' = save_client ((hd cs)\<lparr>cl_CreatedAt := ce_Now env\<rparr>) db"
    using run by (auto simp: save_new_def bindr_Inr_iff Let_def)
  obtain c2 where c2: "cs = [c2]" "only_links c1 c2" using links_only [OF cs] by (auto simp: list_all2_Cons1)
  note f = only_links_fields [OF c2(2)]
  obtain cfg where cfg: "c1 = c0\<lparr>cl_Config := cfg\<rparr>" using identity_fields [OF c1] by blast
  have "cl_Config c0 \<noteq> RBad" using c0 decoded_config by (auto simp: Client_of_JSON_def split: option.splits)
  then have "clean_client c1" using identity_idem [OF c1] identity_not_bad [OF c1] ids c2(1) f(5) by (simp add: clean_client_def)
  moreover have "cl_Id c2 = 0" using data c0 by (simp add: proper_clients_def f(1) cfg)
  moreover have "contribution i c2 = None" if "0 < i" "i \<notin> set ids" for i
    using unlisted [OF _ that] ids c2(1) by simp
  ultimately have "savable ids (db_Clients db) (c2\<lparr>cl_CreatedAt := ce_Now env\<rparr>)"
    using f(7) contribution_fields [of "c2\<lparr>cl_CreatedAt := ce_Now env\<rparr>" c2]
    by (simp add: savable_def clean_timestamps unseen_def)
  then show ?thesis using save_one [OF ok clean] by (simp add: db' c2(1))
qed

lemma save_edit_effect:
  assumes ok: "table_ok cl_Id (db_Clients db)" and clean: "clients_clean db" and bytes: "\<And>a b. ce_SameBytes env a b \<Longrightarrow> a = b"
    and run: "save_edit env db data hostname = Inr (ids, db')"
  shows "unseen_save ids db db'"
proof -
  obtain c0 c1 cs c where c0: "Client_of_JSON data = Inr c0" and c1: "setConfigIdentity c0 = Inr c1"
    and cs: "updateLinksWithFixedInbounds env db [c1] hostname = Inr cs"
    and find: "findInboundsChanges env db (hd cs) False = Inr (ids, c)" and db': "db' = save_client (preserveTimestamps db c) db"
    using run by (auto simp: save_edit_def bindr_Inr_iff)
  obtain c2 where c2: "cs = [c2]" "only_links c1 c2" using links_only [OF cs] by (auto simp: list_all2_Cons1)
  note f = only_links_fields [OF c2(2)]
  obtain old where old: "find_row cl_Id (cl_Id c2) (db_Clients db) = Some old"
    and same: "cl_Id c = cl_Id c2" "cl_Name c = cl_Name c2" "cl_Inbounds c = cl_Inbounds c2" "cl_Config c = cl_Config c2"
      "\<not> isl (ids_of (cl_Inbounds c))"
    and unseen: "\<forall>i>0. i \<notin> set ids \<longrightarrow> contribution i c = contribution i old"
    using findInboundsChanges_unseen [OF ok bytes find] c2(1) by auto
  have "cl_Config c0 \<noteq> RBad" using c0 decoded_config by (auto simp: Client_of_JSON_def split: option.splits)
  then have "setConfigIdentity c = Inr c" "cl_Config c \<noteq> RBad"
    using identity_idem [OF c1] identity_not_bad [OF c1] identity_cong [of c c1] f same by simp_all
  then have "clean_client c" using same(5) by (simp add: clean_client_def)
  moreover have "cl_Id c \<noteq> 0" using old clients.find_zero [OF ok] same(1) by (cases "cl_Id c2 = 0") auto
  ultimately have "savable ids (db_Clients db) (preserveTimestamps db c)"
    using old same(1) unseen by (simp add: savable_def preserve_fields unseen_def)
  then show ?thesis using save_one [OF ok clean] by (simp add: db')
qed

lemma addbulk_facts:
  "addbulk_clients env cs ids = Inr (ids', ds) \<Longrightarrow> list_all (\<lambda>c. cl_Config c \<noteq> RBad) cs \<Longrightarrow>
     set ids \<subseteq> set ids' \<and> list_all (\<lambda>d. clean_client d \<and> (\<exists>c\<in>set cs. cl_Id d = cl_Id c)
       \<and> (\<forall>i>0. i \<notin> set ids' \<longrightarrow> contribution i d = None)) ds"
proof (induction cs arbitrary: ids ds)
  case (Cons c cs)
  obtain c1 own ds' where c1: "setConfigIdentity c = Inr c1" and own: "ids_of (cl_Inbounds c1) = Inr own"
    and rest: "addbulk_clients env cs (UnionUintArray ids own) = Inr (ids', ds')"
    and ds: "ds = c1\<lparr>cl_CreatedAt := ce_Now env\<rparr> # ds'"
    using Cons.prems(1) by (auto simp: bindr_Inr_iff results)
  have IH: "set (UnionUintArray ids own) \<subseteq> set ids' \<and> list_all (\<lambda>d. clean_client d \<and> (\<exists>c\<in>set cs. cl_Id d = cl_Id c)
       \<and> (\<forall>i>0. i \<notin> set ids' \<longrightarrow> contribution i d = None)) ds'"
    using Cons.prems(2) by (intro Cons.IH [OF rest]) simp
  have "clean_client c1"
    using identity_idem [OF c1] identity_not_bad [OF c1] Cons.prems(2) own by (simp add: clean_client_def)
  moreover have "cl_Id c1 = cl_Id c" using identity_fields [OF c1] by auto
  moreover have "contribution i (c1\<lparr>cl_CreatedAt := ce_Now env\<rparr>) = None" if "0 < i" "i \<notin> set ids'" for i
    using unlisted [OF own that(1)] that(2) IH contribution_fields [of "c1\<lparr>cl_CreatedAt := ce_Now env\<rparr>" c1] by auto
  ultimately show ?case using IH by (auto simp: ds list_all_iff clean_timestamps)
qed simp

lemma decoded_list: "Clients_of_JSON data = Inr cs \<Longrightarrow> list_all (\<lambda>c. cl_Config c \<noteq> RBad) cs"
proof -
  have "list_all (\<lambda>c. cl_Config c \<noteq> RBad) cs"
    if "mapr (\<lambda>x. case x of GMap m \<Rightarrow> client_of_map m | GNil \<Rightarrow> panic_nil | _ \<Rightarrow> Inl json_err) xs = Inr cs" for xs
    using that by (induction xs arbitrary: cs)
      (auto simp: bindr_Inr_iff results panic_nil_def dest: decoded_config split: gval.splits)
  then show "Clients_of_JSON data = Inr cs \<Longrightarrow> list_all (\<lambda>c. cl_Config c \<noteq> RBad) cs"
    by (auto simp: Clients_of_JSON_def split: raw.splits gval.splits)
qed

lemma savable_links: "only_links c d \<Longrightarrow> savable ids t c \<Longrightarrow> savable ids t d"
  using only_links_fields [of c d] by (simp add: savable_def unseen_def)

lemma savable_all_links: "list_all2 only_links cs ds \<Longrightarrow> list_all (savable ids t) cs \<Longrightarrow> list_all (savable ids t) ds"
  by (induction rule: list_all2_induct) (auto dest: savable_links)

lemma save_addbulk_effect:
  assumes ok: "table_ok cl_Id (db_Clients db)" and clean: "clients_clean db" and data: "proper_clients ''addbulk'' data"
    and run: "save_addbulk env db data hostname = Inr (ids, db')"
  shows "unseen_save ids db db'"
proof -
  obtain cs0 cs1 cs where cs0: "Clients_of_JSON data = Inr cs0" and add: "addbulk_clients env cs0 [] = Inr (ids, cs1)"
    and cs: "updateLinksWithFixedInbounds env db cs1 hostname = Inr cs" and save: "save_clients cs db = Inr db'"
    using run by (auto simp: save_addbulk_def bindr_Inr_iff)
  have zero: "list_all (\<lambda>c. cl_Id c = 0) cs0" using data cs0 by (simp add: proper_clients_def)
  then have "list_all (savable ids (db_Clients db)) cs1"
    using addbulk_facts [OF add decoded_list [OF cs0]]
    by (fastforce simp: list_all_iff savable_def unseen_def)
  then have "list_all (savable ids (db_Clients db)) cs" by (rule savable_all_links [OF links_only [OF cs]])
  then show ?thesis using save_many [OF ok clean] save by (auto simp: save_clients_def split: if_splits)
qed

lemma editbulk_step:
  assumes ok: "table_ok cl_Id (db_Clients db)" and clean: "clients_clean db" and bytes: "\<And>a b. ce_SameBytes env a b \<Longrightarrow> a = b"
    and find: "findInboundsChanges env db c True = Inr (changed, c1)" and c2: "setConfigIdentity c1 = Inr c2"
    and ids: "set changed \<subseteq> set ids"
  shows "savable ids (db_Clients db) (preserveTimestamps db c2)"
proof -
  obtain old where old: "find_row cl_Id (cl_Id c) (db_Clients db) = Some old"
    and same: "cl_Id c1 = cl_Id c" "cl_Config c1 = cl_Config old" "\<not> isl (ids_of (cl_Inbounds c1))"
    and unseen: "\<And>i. 0 < i \<Longrightarrow> i \<notin> set changed \<Longrightarrow> contribution i c1 = contribution i old
      \<and> (\<not> lists_inbound i c1 \<and> \<not> lists_inbound i old \<or> cl_Name c1 = cl_Name old)"
    using findInboundsChanges_unseen [OF ok bytes find] by auto
  obtain cfg where cfg: "c2 = c1\<lparr>cl_Config := cfg\<rparr>" using identity_fields [OF c2] by blast
  have "old \<in> set (tb_Rows (db_Clients db))" using old clients.find_Some [OF ok] by blast
  then have old_clean: "clean_client old" using clean by (simp add: clients_clean_def list_all_iff)
  then have "clean_client c2"
    using identity_idem [OF c2] identity_not_bad [OF c2] same(2,3) by (simp add: clean_client_def cfg)
  moreover have "cl_Id c2 \<noteq> 0" using old clients.find_zero [OF ok] same(1) by (cases "cl_Id c = 0") (auto simp: cfg)
  moreover have "contribution i c2 = contribution i old" if i: "0 < i" "i \<notin> set ids" for i
  proof (cases "lists_inbound i c1 \<or> lists_inbound i old")
    case True
    then have "cl_Name c1 = cl_Name old" using unseen [of i] i ids by blast
    then have "setConfigIdentity c1 = Inr c1" using identity_cong [of c1 old] same(2) old_clean by (simp add: clean_client_def)
    then show ?thesis using unseen [of i] i ids c2 by auto
  next
    case False
    then show ?thesis by (simp add: contribution_def cfg lists_inbound_def)
  qed
  ultimately show ?thesis using old same(1) by (simp add: savable_def preserve_fields unseen_def cfg)
qed

lemma editbulk_grows: "editbulk_clients env db cs ids = Inr (ids', ds) \<Longrightarrow> set ids \<subseteq> set ids'"
proof (induction cs arbitrary: ids ds)
  case (Cons c cs)
  obtain changed ds' where "editbulk_clients env db cs (if changed \<noteq> [] then UnionUintArray ids changed else ids) = Inr (ids', ds')"
    using Cons.prems by (auto simp: bindr_Inr_iff results)
  from Cons.IH [OF this] show ?case by (auto split: if_splits)
qed simp

lemma editbulk_facts:
  assumes "table_ok cl_Id (db_Clients db)" "clients_clean db" "\<And>a b. ce_SameBytes env a b \<Longrightarrow> a = b"
  shows "editbulk_clients env db cs ids = Inr (ids', ds) \<Longrightarrow> list_all (savable ids' (db_Clients db)) ds"
proof (induction cs arbitrary: ids ds)
  case (Cons c cs)
  obtain changed c1 c2 ds' where find: "findInboundsChanges env db c True = Inr (changed, c1)" and c2: "setConfigIdentity c1 = Inr c2"
    and rest: "editbulk_clients env db cs (if changed \<noteq> [] then UnionUintArray ids changed else ids) = Inr (ids', ds')"
    and ds: "ds = preserveTimestamps db c2 # ds'"
    using Cons.prems by (auto simp: bindr_Inr_iff results)
  have "set changed \<subseteq> set ids'" using editbulk_grows [OF rest] by (auto split: if_splits)
  then show ?case using editbulk_step [OF assms find c2] Cons.IH [OF rest] by (simp add: ds)
qed simp

lemma save_editbulk_effect:
  assumes ok: "table_ok cl_Id (db_Clients db)" and clean: "clients_clean db" and bytes: "\<And>a b. ce_SameBytes env a b \<Longrightarrow> a = b"
    and run: "save_editbulk env db data hostname = Inr (ids, db')"
  shows "unseen_save ids db db'"
proof -
  obtain cs0 cs1 cs where edit: "editbulk_clients env db cs0 [] = Inr (ids, cs1)"
    and cs: "(if ids \<noteq> [] then updateLinksWithFixedInbounds env db cs1 hostname else Inr cs1) = Inr cs"
    and save: "save_clients cs db = Inr db'"
    using run by (auto simp: save_editbulk_def bindr_Inr_iff)
  have "list_all (savable ids (db_Clients db)) cs1" by (rule editbulk_facts [OF ok clean bytes edit])
  then have "list_all (savable ids (db_Clients db)) cs"
    using cs savable_all_links [OF links_only] by (auto split: if_splits)
  then show ?thesis using save_many [OF ok clean] save by (auto simp: save_clients_def split: if_splits)
qed

lemma delete_effect:
  assumes ok: "table_ok cl_Id (db_Clients db)" and clean: "clients_clean db"
    and gone: "\<And>c. c \<in> set (tb_Rows (db_Clients db)) \<Longrightarrow> cl_Id c \<in> D \<Longrightarrow> \<exists>own. ids_of (cl_Inbounds c) = Inr own \<and> set own \<subseteq> set ids"
  shows "unseen_save ids db (delete_clients D db)"
proof -
  have "contribution i c = None" if "c \<in> set (tb_Rows (db_Clients db))" "cl_Id c \<in> D" "0 < i" "i \<notin> set ids" for c i
    using gone [OF that(1,2)] unlisted [OF _ that(3)] that(4) by blast
  then have "contributions i (delete_rows (\<lambda>c. cl_Id c \<in> D) (db_Clients db)) = contributions i (db_Clients db)"
    if "0 < i" "i \<notin> set ids" for i
    using that by (intro contributions_deleted) auto
  then show ?thesis
    using clients.delete_ok [OF ok] clean delete_rows_all by (auto simp: unseen_save_def delete_clients_def clients_clean_def)
qed

lemma delbulk_reports:
  "delbulk_inbounds db ks acc = Inr ids \<Longrightarrow> set acc \<subseteq> set ids
    \<and> (\<forall>k\<in>set ks. \<exists>c own. find_client db k = Inr c \<and> ids_of (cl_Inbounds c) = Inr own \<and> set own \<subseteq> set ids)"
proof (induction ks arbitrary: acc)
  case (Cons k ks)
  then obtain c own where "find_client db k = Inr c" "ids_of (cl_Inbounds c) = Inr own" "delbulk_inbounds db ks (UnionUintArray acc own) = Inr ids"
    by (auto simp: bindr_Inr_iff)
  with Cons.IH [OF this(3)] show ?case by auto
qed simp

lemma found_client:
  "table_ok cl_Id (db_Clients db) \<Longrightarrow> c \<in> set (tb_Rows (db_Clients db)) \<Longrightarrow> find_client db (cl_Id c) = Inr c"
  using clients.find_Some [of "db_Clients db" "cl_Id c" c] by (simp add: find_client_def)

lemma save_del_effect:
  assumes ok: "table_ok cl_Id (db_Clients db)" and clean: "clients_clean db"
    and run: "save_del db data = Inr (ids, db') \<or> save_delbulk db data = Inr (ids, db')"
  shows "unseen_save ids db db'"
  using run
proof
  assume "save_del db data = Inr (ids, db')"
  then obtain k c where k: "find_client db k = Inr c" "ids_of (cl_Inbounds c) = Inr ids" "db' = delete_clients {k} db"
    by (auto simp: save_del_def bindr_Inr_iff)
  have "d = c" if "d \<in> set (tb_Rows (db_Clients db))" "cl_Id d \<in> {k}" for d
    using found_client [OF ok that(1)] that(2) k(1) by simp
  then show ?thesis using delete_effect [OF ok clean, of "{k}" ids] k(2,3) by blast
next
  assume "save_delbulk db data = Inr (ids, db')"
  then obtain ks where "delbulk_inbounds db ks [] = Inr ids" "db' = delete_clients (set ks) db"
    by (auto simp: save_delbulk_def bindr_Inr_iff)
  then show ?thesis using delete_effect [OF ok clean, of "set ks" ids] delbulk_reports [of db ks "[]" ids] found_client [OF ok] by fastforce
qed

lemma Clients_Save_effect:
  assumes ok: "table_ok cl_Id (db_Clients db)" and clean: "clients_clean db" and bytes: "\<And>a b. ce_SameBytes env a b \<Longrightarrow> a = b"
    and data: "proper_clients act data" and run: "Clients_Save env db act data hostname = Inr (ids, db')"
  shows "unseen_save ids db db'"
proof -
  consider "act = ''new''" "save_new env db data hostname = Inr (ids, db')"
    | "save_edit env db data hostname = Inr (ids, db')"
    | "act = ''addbulk''" "save_addbulk env db data hostname = Inr (ids, db')"
    | "save_editbulk env db data hostname = Inr (ids, db')"
    | "save_del db data = Inr (ids, db') \<or> save_delbulk db data = Inr (ids, db')"
    using run by (auto simp: Clients_Save_def split: if_splits)
  then show ?thesis
  proof cases
    case 1
    then show ?thesis using save_new_effect [OF ok clean] data by blast
  next
    case 2
    then show ?thesis using save_edit_effect [OF ok clean] bytes by blast
  next
    case 3
    then show ?thesis using save_addbulk_effect [OF ok clean] data by blast
  next
    case 4
    then show ?thesis using save_editbulk_effect [OF ok clean] bytes by blast
  next
    case 5
    then show ?thesis by (rule save_del_effect [OF ok clean])
  qed
qed

end
