(* ===== verification/Client_Reload.thy ===== *)
theory Client_Reload
  imports Client_Agreement
begin

text \<open>
  The reload after a save of clients: the reported inbounds are taken out of the core and put back
  with their new users. Together with \<^verbatim>\<open>Client_Agreement\<close> this gives the contract of a save of
  clients: the core is again what a restart would give.
\<close>

section \<open>Restarting inbounds and services\<close>

lemma restarted_inbounds:
  assumes run: "RestartInbounds env db ids core = (Inr u, core')" and r: "co_Running core"
    and ok: "tags_ok in_Tag (db_Inbounds db)" and clean: "list_all clean_inbound (tb_Rows (db_Inbounds db))"
    and others: "\<And>t. t \<notin> in_Tag ` {x \<in> set (tb_Rows (db_Inbounds db)). in_Id x \<in> set ids \<and> singbox_row x}
      \<Longrightarrow> view (co_Items core Inbounds) t = view (expected db Inbounds) t"
  shows "view (co_Items core' Inbounds) = view (expected db Inbounds)" "co_Running core'"
    "k \<noteq> Inbounds \<Longrightarrow> co_Items core' k = co_Items core k"
proof -
  let ?rows = "tb_Rows (db_Inbounds db)" and ?P = "\<lambda>i. in_Id i \<in> set ids \<and> singbox_row i"
  have each: "each_svc (restart_row (sv_CoreEnv env) Inbounds in_Tag (inbound_item db)) (filter ?P ?rows) core = (Inr u, core')"
    using run r by (simp add: RestartInbounds_def if_running_def restart_inbounds conj_commute)
  have tags: "distinct (map in_Tag ?rows)" using ok by (simp add: tags_ok_def)
  have "map_option plain (co_Items core' Inbounds t) = map_option plain (configured in_Tag (inbound_item db) ?rows t)" for t
    by (rule inbound_items.restarted_items [OF each r clean tags]) (use others in \<open>simp add: view_def expected_inbounds [OF ok]\<close>)
  then show "view (co_Items core' Inbounds) = view (expected db Inbounds)" by (simp add: view_def expected_inbounds [OF ok])
  have cl: "list_all clean_inbound (filter ?P ?rows)" using clean by (auto simp: list_all_iff)
  show "co_Running core'" "k \<noteq> Inbounds \<Longrightarrow> co_Items core' k = co_Items core k"
    using inbound_items.each_restart [OF each r cl] by blast+
qed

lemma restarted_services:
  assumes run: "RestartServices env db ids core = (Inr u, core')" and r: "co_Running core"
    and ok: "tags_ok sv_Tag (db_Services db)" and clean: "list_all clean_service (tb_Rows (db_Services db))"
    and others: "\<And>t. t \<notin> sv_Tag ` {x \<in> set (tb_Rows (db_Services db)). sv_Id x \<in> set ids}
      \<Longrightarrow> view (co_Items core Services) t = view (expected db Services) t"
  shows "view (co_Items core' Services) = view (expected db Services)" "co_Running core'"
    "k \<noteq> Services \<Longrightarrow> co_Items core' k = co_Items core k"
proof -
  let ?rows = "tb_Rows (db_Services db)" and ?P = "\<lambda>i. sv_Id i \<in> set ids"
  have each: "each_svc (restart_row (sv_CoreEnv env) Services sv_Tag (service_config db)) (filter ?P ?rows) core = (Inr u, core')"
    using run r by (simp add: RestartServices_def if_running_def restart_services)
  have tags: "distinct (map sv_Tag ?rows)" using ok by (simp add: tags_ok_def)
  have exp: "expected db Services = configured sv_Tag (service_config db) ?rows" by (simp add: expected_def)
  have "map_option plain (co_Items core' Services t) = map_option plain (configured sv_Tag (service_config db) ?rows t)" for t
    by (rule synced_services.restarted_items [OF each r clean tags]) (use others in \<open>simp add: view_def exp\<close>)
  then show "view (co_Items core' Services) = view (expected db Services)" by (simp add: view_def exp)
  have cl: "list_all clean_service (filter ?P ?rows)" using clean by (auto simp: list_all_iff)
  show "co_Running core'" "k \<noteq> Services \<Longrightarrow> co_Items core' k = co_Items core k"
    using synced_services.each_restart [OF each r cl] by blast+
qed

section \<open>Saving clients\<close>

lemma expected_clients:
  assumes "db' = db\<lparr>db_Clients := t\<rparr>" "k \<noteq> Inbounds"
  shows "expected db' k = expected db k"
proof -
  have "service_config db' = service_config db" using assms(1) by (auto simp: fun_eq_iff service_config_def preload_service_def)
  then show ?thesis using assms by (cases k) (simp_all add: expected_def)
qed

text \<open>The configurations of rows outside a set of tags did not change.\<close>

lemma configured_same:
  assumes "\<And>r. r \<in> set rows \<Longrightarrow> tag r = t \<Longrightarrow> config_value (c' r) = config_value (c r)"
  shows "configured tag c' rows t = configured tag c rows t"
  using assms by (auto simp: configured_def split: option.split dest!: find_Some_mem)

lemma reload_agrees:
  assumes step: "in_step db core" and clean: "clients_clean db" and save: "unseen_save ids db db'"
    and reload: "RestartInbounds env db' ids core = (Inr u, core')"
  shows "in_step db' core'"
proof -
  let ?t = "db_Inbounds db"
  have db': "db' = db\<lparr>db_Clients := db_Clients db'\<rparr>" using save by (simp add: unseen_save_def)
  have same: "db_Inbounds db' = ?t" "db_Tls db' = db_Tls db" by (subst db', simp)+
  have ok: "table_ok in_Id ?t" "tags_ok in_Tag ?t" and cl: "list_all clean_inbound (tb_Rows ?t)"
    using step by (simp_all add: in_step_def db_ok_def db_clean_def)
  have unchanged: "inbound_config db' r = inbound_config db r" if "r \<in> set (tb_Rows ?t)" "in_Id r \<notin> set ids" for r
  proof -
    have "0 < in_Id r" using inbounds.ok_rows(3) [OF ok(1) that(1)] by simp
    then show ?thesis using inbound_config_same [OF clean, of db' r] save that(2) same(2) by (simp add: unseen_save_def)
  qed
  have agree: "agrees db' core'"
    unfolding agrees_def
  proof (intro impI allI)
    fix k
    assume run': "co_Running core'"
    have r: "co_Running core" using reload run' by (cases "co_Running core") (auto simp: RestartInbounds_def svc_Inr)
    have old: "view (co_Items core k) = view (expected db k)" for k using step r by (simp add: in_step_def agrees_def)
    have ok': "tags_ok in_Tag (db_Inbounds db')" "list_all clean_inbound (tb_Rows (db_Inbounds db'))" using ok cl by (simp_all add: same)
    have others: "view (co_Items core Inbounds) t = view (expected db' Inbounds) t"
      if "t \<notin> in_Tag ` {x \<in> set (tb_Rows (db_Inbounds db')). in_Id x \<in> set ids \<and> singbox_row x}" for t
    proof -
      have "configured in_Tag (inbound_item db') (tb_Rows ?t) t = configured in_Tag (inbound_item db) (tb_Rows ?t) t"
        by (rule configured_same) (use that unchanged in \<open>auto simp: inbound_item_def same image_iff\<close>)
      then show ?thesis using old [of Inbounds] by (simp add: view_def fun_eq_iff expected_inbounds ok ok' same)
    qed
    note eff = restarted_inbounds [OF reload r ok' others]
    show "view (co_Items core' k) = view (expected db' k)"
      using eff(1) eff(3) [of k] old [of k] expected_clients [OF db', of k] by (cases "k = Inbounds") simp_all
  qed
  have "table_ok cl_Id (db_Clients db')" using save by (simp add: unseen_save_def)
  moreover have "db_ok (db\<lparr>db_Clients := t\<rparr>) \<longleftrightarrow> db_ok db \<and> table_ok cl_Id t" if "table_ok cl_Id (db_Clients db)" for t
    using that by (auto simp: db_ok_def)
  moreover have "table_ok cl_Id (db_Clients db)" using step by (simp add: in_step_def db_ok_def)
  ultimately have "db_ok db'" using step db' by (metis in_step_def)
  moreover have "db_clean (db\<lparr>db_Clients := t\<rparr>) = db_clean db" for t by (simp add: db_clean_def)
  then have "db_clean db'" using step db' by (metis in_step_def)
  ultimately show ?thesis using agree by (simp add: in_step_def)
qed

text \<open>
  C11. Saving clients (every action: new, edit, the bulk forms, deletion) and reloading only the
  inbounds the save reports leaves the running core as a restart from the new database would, and
  keeps the tables and the clients well formed. \<open>ce_SameBytes\<close> is \<^verbatim>\<open>bytes.Equal\<close> on stored JSON.
\<close>

theorem Clients_Save_in_step:
  assumes step: "in_step db core" and clean: "clients_clean db"
    and bytes: "\<And>a b. ce_SameBytes (sv_Client env) a b \<Longrightarrow> a = b" and data: "proper_clients act data"
    and save: "Clients_Save (sv_Client env) db act data hostname = Inr (ids, db')"
    and reload: "RestartInbounds env db' ids core = (Inr u, core')"
  shows "in_step db' core' \<and> clients_clean db'"
proof -
  have "table_ok cl_Id (db_Clients db)" using step by (simp add: in_step_def db_ok_def)
  then have eff: "unseen_save ids db db'" using Clients_Save_effect [OF _ clean bytes data save] by blast
  then show ?thesis using reload_agrees [OF step clean eff reload] by (simp add: unseen_save_def)
qed

definition reload_db :: panel_db where
  "reload_db = empty_db\<lparr>db_Inbounds := \<lparr>tb_Rows = [empty_inbound\<lparr>in_Id := 1, in_Type := ''socks'', in_Tag := ''socks-1'',
     in_Options := RVal (GMap [(''listen'', GStr ''::''), (''listen_port'', GFloat 1080)])\<rparr>], tb_Seq = 1\<rparr>\<rparr>"

definition reload_core :: core_state where
  "reload_core = \<lparr>co_Running = True, co_Items = expected reload_db\<rparr>"

definition reload_client :: raw where
  "reload_client = RVal (GMap [(''name'', GStr ''alice''), (''enable'', GBool True), (''inbounds'', GList [GFloat 1]), (''links'', GList []),
     (''config'', GMap [(''socks'', GMap [(''username'', GStr ''alice''), (''password'', GStr ''pw'')])])])"

lemma reload_in_step: "in_step reload_db reload_core"
proof -
  have "db_ok reload_db" "db_clean reload_db" by code_simp+
  then show ?thesis by (simp add: in_step_def agrees_def reload_core_def)
qed

theorem Clients_Save_in_step_witness:
  "\<exists>db' core'. Clients_Save (sv_Client example_env) reload_db ''new'' reload_client ''example.com'' = Inr ([1], db')
     \<and> RestartInbounds example_env db' [1] reload_core = (Inr (), core')
     \<and> in_step db' core' \<and> clients_clean db' \<and> co_Items core' Inbounds \<noteq> co_Items reload_core Inbounds"
proof -
  let ?save = "Clients_Save (sv_Client example_env) reload_db ''new'' reload_client ''example.com''"
  have "\<not> isl ?save \<and> fst (projr ?save) = [1]" by code_simp
  then obtain db' where save: "?save = Inr ([1], db')" by (cases ?save; cases "projr ?save") auto
  let ?reload = "\<lambda>db. RestartInbounds example_env db [1] reload_core"
  have "fst (?reload (snd (projr ?save))) = Inr ()
      \<and> co_Items (snd (?reload (snd (projr ?save)))) Inbounds ''socks-1'' \<noteq> co_Items reload_core Inbounds ''socks-1''" by code_simp
  then have "fst (?reload db') = Inr ()" "co_Items (snd (?reload db')) Inbounds \<noteq> co_Items reload_core Inbounds"
    unfolding save by auto
  then obtain core' where reload: "?reload db' = (Inr (), core')" and new: "co_Items core' Inbounds \<noteq> co_Items reload_core Inbounds"
    by (cases "?reload db'") auto
  have clean: "clients_clean reload_db" "proper_clients ''new'' reload_client" by code_simp+
  have "ce_SameBytes (sv_Client example_env) a b \<Longrightarrow> a = b" for a b by (simp add: example_env_def)
  from Clients_Save_in_step [OF reload_in_step clean(1) this clean(2) save reload] save reload new
  show ?thesis by blast
qed

end
