(* ===== verification/Xray_Config.thy ===== *)
theory Xray_Config
  imports Inbounds_Service State_Result
begin

text \<open>
  The configuration of Xray-core (\<^verbatim>\<open>service/xray_config.go\<close>): every inbound row whose core type is
  \<^verbatim>\<open>xray\<close> becomes an inbound object with its clients, its transport and its security. A
  certificate given inline is written to two files, so the builders carry the file store; where
  the files go and which writes fail is given by \<open>xray_files\<close>.
\<close>

record xray_files =
  xf_CertDir :: string
  xf_Mkdir :: "string option"
  xf_WriteErr :: "string \<Rightarrow> string option"

type_synonym file_store = "string \<rightharpoonup> string"
type_synonym 'a xbuild = "file_store \<Rightarrow> 'a result \<times> file_store"

section \<open>Reading options\<close>

definition toInt :: "gval \<Rightarrow> int" where
  "toInt v = (case v of GInt i \<Rightarrow> i | GFloat r \<Rightarrow> trunc_rat r | _ \<Rightarrow> 0)"

definition toStringSlice :: "gval \<Rightarrow> string list" where
  "toStringSlice v = (case v of
     GStrs ss \<Rightarrow> ss
   | GList xs \<Rightarrow> filter (\<lambda>s. s \<noteq> []) (map as_str xs)
   | GStr s \<Rightarrow> if s = [] then [] else [s]
   | _ \<Rightarrow> [])"

definition stringValue :: "gval \<Rightarrow> string \<Rightarrow> string" where
  "stringValue v fallback = (case v of GStr s \<Rightarrow> if s \<noteq> [] then s else fallback | _ \<Rightarrow> fallback)"

definition intValue :: "gval \<Rightarrow> int \<Rightarrow> int" where
  "intValue v fallback = (if toInt v > 0 then toInt v else fallback)"

definition boolValue :: "gval \<Rightarrow> bool" where
  "boolValue v = as_bool v"

definition boolValueDefault :: "gval \<Rightarrow> bool \<Rightarrow> bool" where
  "boolValueDefault v fallback = (case v of GBool b \<Rightarrow> b | _ \<Rightarrow> fallback)"

text \<open>Optional entries of an object under construction.\<close>

definition opt_str :: "string \<Rightarrow> string \<Rightarrow> gmap" where
  "opt_str k s = (if s \<noteq> [] then [(k, GStr s)] else [])"

definition opt_int :: "string \<Rightarrow> int \<Rightarrow> gmap" where
  "opt_int k i = (if i > 0 then [(k, GInt i)] else [])"

definition opt_strs :: "string \<Rightarrow> string list \<Rightarrow> gmap" where
  "opt_strs k ss = (if ss \<noteq> [] then [(k, GStrs ss)] else [])"

section \<open>Certificate files\<close>

text \<open>\<open>[^A-Za-z0-9._-]+\<close> replaced by a dash: each run of other bytes becomes one dash.\<close>

definition file_char :: "char \<Rightarrow> bool" where
  "file_char c \<longleftrightarrow> is_digit c \<or> c \<in> set ''._-''
     \<or> (let n = of_char c :: nat in 65 \<le> n \<and> n \<le> 90 \<or> 97 \<le> n \<and> n \<le> 122)"

fun dash_runs :: "bool \<Rightarrow> string \<Rightarrow> string" where
  "dash_runs in_run [] = []"
| "dash_runs in_run (c # s) =
     (if file_char c then c # dash_runs False s
      else if in_run then dash_runs True s
      else CHR ''-'' # dash_runs True s)"

definition sanitizeFileName :: "string \<Rightarrow> string" where
  "sanitizeFileName value = Trim (dash_runs False value) ''-''"

definition cert_base :: "tls_row \<Rightarrow> string" where
  "cert_base t = sanitizeFileName (Itoa (int (tls_Id t)) @ ''-'' @ tls_Name t)"

definition write_file :: "xray_files \<Rightarrow> string \<Rightarrow> string \<Rightarrow> unit xbuild" where
  "write_file xf path content files = (case xf_WriteErr xf path of
     Some e \<Rightarrow> (Inl e, files)
   | None \<Rightarrow> (Inr (), files(path \<mapsto> content)))"

definition writeXrayCertificateFiles :: "xray_files \<Rightarrow> tls_row \<Rightarrow> gmap \<Rightarrow> (string \<times> string) xbuild" where
  "writeXrayCertificateFiles xf t server =
     (let certificate = Join (toStringSlice (mget server ''certificate'')) [CHR 0x0A];
          key = Join (toStringSlice (mget server ''key'')) [CHR 0x0A]
      in if certificate = [] \<or> key = [] then lift_svc (Inr ([], []))
         else case xf_Mkdir xf of Some e \<Rightarrow> lift_svc (Inl e) | None \<Rightarrow>
           let certFile = xf_CertDir xf @ ''/'' @ cert_base t @ ''.crt'';
               keyFile = xf_CertDir xf @ ''/'' @ cert_base t @ ''.key''
           in bind_svc (write_file xf certFile (certificate @ [CHR 0x0A])) (\<lambda>_.
              bind_svc (write_file xf keyFile (key @ [CHR 0x0A])) (\<lambda>_. lift_svc (Inr (certFile, keyFile)))))"

section \<open>Security\<close>

definition buildXrayTLSSettings :: "xray_files \<Rightarrow> tls_row \<Rightarrow> gmap \<Rightarrow> gmap xbuild" where
  "buildXrayTLSSettings xf t server =
     (let settings = opt_str ''serverName'' (as_str (mget server ''server_name''))
            @ opt_strs ''alpn'' (toStringSlice (mget server ''alpn''))
            @ opt_str ''minVersion'' (as_str (mget server ''min_version''))
            @ opt_str ''maxVersion'' (as_str (mget server ''max_version''));
          certFile = as_str (mget server ''certificate_path''); keyFile = as_str (mget server ''key_path'')
      in bind_svc (if certFile = [] \<or> keyFile = [] then writeXrayCertificateFiles xf t server
                   else lift_svc (Inr (certFile, keyFile))) (\<lambda>(c, k).
           let cert = opt_str ''certificateFile'' c @ opt_str ''keyFile'' k in
           lift_svc (Inr (settings @ (if cert \<noteq> [] then [(''certificates'', GMaps [cert])] else [])))))"

definition buildXrayRealitySettings :: "gmap \<Rightarrow> gmap \<Rightarrow> gmap" where
  "buildXrayRealitySettings server reality =
     [(''show'', GBool False)]
     @ opt_str ''privateKey'' (as_str (mget reality ''private_key''))
     @ opt_strs ''shortIds'' (toStringSlice (mget reality ''short_id''))
     @ (let serverName = as_str (mget server ''server_name'') in if serverName \<noteq> [] then [(''serverNames'', GStrs [serverName])] else [])
     @ (case mget reality ''handshake'' of
          GMap handshake \<Rightarrow>
            (let host = as_str (mget handshake ''server''); port = toInt (mget handshake ''server_port'') in
             if host \<noteq> [] \<and> port > 0 then [(''dest'', GStr (host @ '':'' @ Itoa port))] else [])
        | _ \<Rightarrow> [])"

definition xrayRealityEnabled :: "tls_row option \<Rightarrow> bool" where
  "xrayRealityEnabled t = (case t of
     None \<Rightarrow> False
   | Some row \<Rightarrow> (case decode_map (tls_Server row) of
       None \<Rightarrow> False
     | Some server \<Rightarrow> as_bool (mget (as_map (mget server ''reality'')) ''enabled'')))"

text \<open>The entries \<open>addXraySecurity\<close> puts into the stream settings.\<close>

definition addXraySecurity :: "xray_files \<Rightarrow> gmap \<Rightarrow> tls_row \<Rightarrow> gmap xbuild" where
  "addXraySecurity xf stream t = (case decode_map (tls_Server t) of
     None \<Rightarrow> lift_svc (Inl json_err)
   | Some server \<Rightarrow>
       if mget server ''enabled'' = GBool False then lift_svc (Inr stream)
       else case mget server ''reality'' of
         GMap reality \<Rightarrow>
           if as_bool (mget reality ''enabled'')
           then lift_svc (Inr (stream @ [(''security'', GStr ''reality''),
                  (''realitySettings'', GMap (buildXrayRealitySettings server reality))]))
           else bind_svc (buildXrayTLSSettings xf t server) (\<lambda>tlsSettings.
                  lift_svc (Inr (stream @ [(''security'', GStr ''tls''), (''tlsSettings'', GMap tlsSettings)])))
       | _ \<Rightarrow> bind_svc (buildXrayTLSSettings xf t server) (\<lambda>tlsSettings.
                  lift_svc (Inr (stream @ [(''security'', GStr ''tls''), (''tlsSettings'', GMap tlsSettings)]))))"

section \<open>Transport\<close>

definition xray_network :: "string \<Rightarrow> string" where
  "xray_network network =
     (if network = ''kcp'' \<or> network = ''mkcp'' then ''kcp''
      else if network = ''tcp'' \<or> network = ''raw'' then ''raw'' else network)"

definition xray_transport :: "gmap \<Rightarrow> string \<Rightarrow> (string \<times> gmap) option" where
  "xray_transport transport network =
     (if network = ''xhttp'' then Some (''xhttpSettings'',
        [(''path'', GStr (stringValue (mget transport ''path'') ''/xhttp'')),
         (''host'', GStr (stringValue (mget transport ''host'') [])),
         (''mode'', GStr (stringValue (mget transport ''mode'') ''auto''))])
      else if network = ''ws'' then Some (''wsSettings'',
        [(''path'', GStr (stringValue (mget transport ''path'') ''/'')),
         (''host'', GStr (stringValue (mget transport ''host'') [])),
         (''heartbeatPeriod'', GInt (toInt (mget transport ''heartbeat_period''))),
         (''acceptProxyProtocol'', GBool (boolValue (mget transport ''accept_proxy_protocol'')))])
      else if network = ''grpc'' then Some (''grpcSettings'',
        [(''serviceName'', GStr (stringValue (mget transport ''service_name'') [])),
         (''authority'', GStr (stringValue (mget transport ''authority'') [])),
         (''multiMode'', GBool (boolValue (mget transport ''multi_mode''))),
         (''idle_timeout'', GInt (toInt (mget transport ''idle_timeout''))),
         (''health_check_timeout'', GInt (toInt (mget transport ''health_check_timeout'')))])
      else if network = ''httpupgrade'' then Some (''httpupgradeSettings'',
        [(''path'', GStr (stringValue (mget transport ''path'') ''/'')),
         (''host'', GStr (stringValue (mget transport ''host'') [])),
         (''acceptProxyProtocol'', GBool (boolValue (mget transport ''accept_proxy_protocol'')))])
      else if network = ''kcp'' \<or> network = ''mkcp'' then Some (''kcpSettings'',
        [(''mtu'', GInt (intValue (mget transport ''mtu'') 1350)),
         (''tti'', GInt (intValue (mget transport ''tti'') 50)),
         (''uplinkCapacity'', GInt (intValue (mget transport ''uplink_capacity'') 5)),
         (''downlinkCapacity'', GInt (intValue (mget transport ''downlink_capacity'') 20)),
         (''cwndMultiplier'', GInt (intValue (mget transport ''cwnd_multiplier'') 2)),
         (''maxSendingWindow'', GInt (intValue (mget transport ''max_sending_window'') 2048))])
      else if network = ''hysteria'' then Some (''hysteriaSettings'',
        [(''version'', GInt 2), (''udpIdleTimeout'', GInt (intValue (mget transport ''udp_idle_timeout'') 60))])
      else if network = ''tcp'' \<or> network = ''raw'' then Some (''rawSettings'',
        [(''acceptProxyProtocol'', GBool (boolValue (mget transport ''accept_proxy_protocol'')))])
      else None)"

definition xray_sockopt :: "gmap \<Rightarrow> string \<Rightarrow> gmap" where
  "xray_sockopt transport network =
     (if network \<in> {''xhttp'', ''ws'', ''grpc'', ''httpupgrade''} then
        let trusted = toStringSlice (mget transport ''trusted_x_forwarded_for'') in
        [(''sockopt'', GMap [(''trustedXForwardedFor'', GStrs (if trusted = [] then [''X-1S-UI-Trusted-XFF''] else trusted))])]
      else [])"

text \<open>\<open>len(inbound.Tls.Server) > 2\<close>: texts of at most two bytes are empty objects, lists or strings and short numbers.\<close>

definition tiny_raw :: "raw \<Rightarrow> bool" where
  "tiny_raw r = (case r of
     RNil \<Rightarrow> True
   | RVal (GMap m) \<Rightarrow> m = [] | RVal (GList xs) \<Rightarrow> xs = [] | RVal (GStr s) \<Rightarrow> s = []
   | RVal (GFloat x) \<Rightarrow> of_int \<lfloor>x\<rfloor> = x \<and> -10 < x \<and> x < 100
   | _ \<Rightarrow> False)"

definition buildXrayStreamSettings :: "xray_files \<Rightarrow> inbound \<Rightarrow> gmap \<Rightarrow> string \<Rightarrow> gmap xbuild" where
  "buildXrayStreamSettings xf inb transport network =
     (case xray_transport transport network of
        None \<Rightarrow> lift_svc (NewErrorf (''xray transport <'' @ network @ ''> is not supported yet''))
      | Some (key, settings) \<Rightarrow>
          let stream = (''network'', GStr (xray_network network)) # xray_sockopt transport network @ [(key, GMap settings)] in
          case in_Tls inb of
            None \<Rightarrow> lift_svc (Inr stream)
          | Some t \<Rightarrow>
              if tiny_raw (tls_Server t) then lift_svc (Inr stream)
              else if xrayRealityEnabled (in_Tls inb) \<and> network \<notin> {''tcp'', ''raw'', ''xhttp'', ''grpc''}
              then lift_svc (NewErrorf (''Xray Reality only supports RAW, XHTTP and gRPC, got <'' @ network @ ''>''))
              else addXraySecurity xf stream t)"

section \<open>Clients\<close>

text \<open>The rows a query delivers: a client's name and its configuration for the protocol.\<close>

definition fetchXrayClientConfigs :: "panel_db \<Rightarrow> nat \<Rightarrow> string \<Rightarrow> (string \<times> gval) list result" where
  "fetchXrayClientConfigs db inboundId protocol =
     (let rows = tb_Rows (db_Clients db) in
      if list_ex (\<lambda>c. cl_Enable c \<and> cl_Config c = RBad) rows
         \<or> list_ex (\<lambda>c. cl_Enable c \<and> config_entry protocol c \<noteq> GNil \<and> cl_Inbounds c = RBad) rows
      then Inl ''malformed JSON''
      else Inr (map (\<lambda>c. (cl_Name c, config_entry protocol c))
        (filter (\<lambda>c. cl_Enable c \<and> config_entry protocol c \<noteq> GNil \<and> lists_inbound inboundId c) rows)))"

text \<open>
  The text \<open>json_extract\<close> delivers, decoded into a map: an object is its own text, a string is
  delivered bare and must be the text of an object itself.
\<close>

definition config_map :: "gval \<Rightarrow> gmap result" where
  "config_map v = (case v of
     GMap m \<Rightarrow> Inr m
   | GStr s \<Rightarrow> (case json_Unmarshal s of Some (GMap m) \<Rightarrow> Inr m | Some GNil \<Rightarrow> Inr [] | _ \<Rightarrow> Inl json_err)
   | _ \<Rightarrow> Inl json_err)"

definition xray_clients :: "panel_db \<Rightarrow> nat \<Rightarrow> string \<Rightarrow> (string \<Rightarrow> gmap \<Rightarrow> gmap option) \<Rightarrow> gmap list result" where
  "xray_clients db inboundId protocol client =
     bindr (fetchXrayClientConfigs db inboundId protocol) (\<lambda>users.
       map_sum id (List.map_filter (\<lambda>x. x)) (mapr (\<lambda>(name, v). map_sum id (client name) (config_map v)) users))"

definition vless_client :: "string \<Rightarrow> string \<Rightarrow> gmap \<Rightarrow> gmap option" where
  "vless_client network name cfg =
     (let uuid = as_str (mget cfg ''uuid'') in
      if uuid = [] then None
      else Some ([(''id'', GStr uuid), (''email'', GStr name)]
        @ (if network = ''tcp'' \<or> network = ''raw'' then opt_str ''flow'' (as_str (mget cfg ''flow'')) else [])))"

definition vmess_client :: "string \<Rightarrow> gmap \<Rightarrow> gmap option" where
  "vmess_client name cfg =
     (let uuid = as_str (mget cfg ''uuid''); security = as_str (mget cfg ''security'') in
      if uuid = [] then None
      else Some ([(''id'', GStr uuid), (''email'', GStr name),
          (''security'', GStr (if security \<noteq> [] then security else ''auto''))]
        @ opt_int ''level'' (toInt (mget cfg ''level''))))"

definition password_client :: "string \<Rightarrow> gmap \<Rightarrow> gmap option" where
  "password_client name cfg =
     (let password = as_str (mget cfg ''password'') in
      if password = [] then None else Some [(''password'', GStr password), (''email'', GStr name)])"

definition shadowsocks_client :: "string \<Rightarrow> string \<Rightarrow> gmap \<Rightarrow> gmap option" where
  "shadowsocks_client method name cfg =
     (let password = as_str (mget cfg ''password'') in
      if password = [] then None
      else Some ([(''password'', GStr password), (''email'', GStr name)]
        @ (if \<not> HasPrefix method ''2022'' then [(''method'', GStr method)] else [])))"

definition account_client :: "string \<Rightarrow> gmap \<Rightarrow> gmap option" where
  "account_client name cfg =
     (let username = as_str (mget cfg ''username''); password = as_str (mget cfg ''password'') in
      if username = [] \<or> password = [] then None
      else Some [(''user'', GStr username), (''pass'', GStr password)])"

definition hysteria2_user :: "string \<Rightarrow> gmap \<Rightarrow> gmap option" where
  "hysteria2_user name cfg =
     (let password = as_str (mget cfg ''password'') in
      if password = [] then None else Some [(''auth'', GStr password), (''email'', GStr name)])"

definition fetchXrayVlessClients :: "panel_db \<Rightarrow> nat \<Rightarrow> string \<Rightarrow> gmap list result" where
  "fetchXrayVlessClients db i network = xray_clients db i ''vless'' (vless_client network)"

definition fetchXrayVMessClients :: "panel_db \<Rightarrow> nat \<Rightarrow> gmap list result" where
  "fetchXrayVMessClients db i = xray_clients db i ''vmess'' vmess_client"

definition fetchXrayPasswordClients :: "panel_db \<Rightarrow> nat \<Rightarrow> string \<Rightarrow> gmap list result" where
  "fetchXrayPasswordClients db i protocol = xray_clients db i protocol password_client"

definition fetchXrayShadowsocksClients :: "panel_db \<Rightarrow> nat \<Rightarrow> string \<Rightarrow> gmap list result" where
  "fetchXrayShadowsocksClients db i method =
     xray_clients db i (if method = ''2022-blake3-aes-128-gcm'' then ''shadowsocks16'' else ''shadowsocks'') (shadowsocks_client method)"

definition fetchXrayAccountClients :: "panel_db \<Rightarrow> nat \<Rightarrow> string \<Rightarrow> gmap list result" where
  "fetchXrayAccountClients db i protocol = xray_clients db i protocol account_client"

definition fetchXrayHysteria2Users :: "panel_db \<Rightarrow> nat \<Rightarrow> gmap list result" where
  "fetchXrayHysteria2Users db i = xray_clients db i ''hysteria2'' hysteria2_user"

text \<open>SOCKS and HTTP inbounds also take the credentials stored for mixed inbounds.\<close>

definition accounts_or_mixed :: "panel_db \<Rightarrow> nat \<Rightarrow> string \<Rightarrow> gmap list result" where
  "accounts_or_mixed db i protocol =
     bindr (fetchXrayAccountClients db i protocol) (\<lambda>accounts.
       if accounts = [] then fetchXrayAccountClients db i ''mixed'' else Inr accounts)"

section \<open>Inbounds\<close>

definition xrayListenAndPort :: "gmap \<Rightarrow> string \<Rightarrow> (string \<times> int) result" where
  "xrayListenAndPort full tag =
     (let listen = as_str (mget full ''listen''); port = toInt (mget full ''listen_port'') in
      if port = 0 then NewErrorf (''xray inbound <'' @ tag @ ''> missing listen_port'')
      else Inr (if listen = [] then ''0.0.0.0'' else listen, port))"

definition transport_network :: "gmap \<Rightarrow> string \<Rightarrow> string" where
  "transport_network transport defaultNetwork =
     (let tp = as_str (mget transport ''type'') in if tp \<noteq> [] then tp else defaultNetwork)"

definition xrayInboundBasics :: "inbound \<Rightarrow> string \<Rightarrow> (gmap \<times> string \<times> int \<times> gmap \<times> string) result" where
  "xrayInboundBasics inb defaultNetwork =
     bindr (MarshalFull inb) (\<lambda>full. bindr (xrayListenAndPort full (in_Tag inb)) (\<lambda>(listen, port).
       let transport = as_map (mget full ''transport'') in
       Inr (full, listen, port, transport, transport_network transport defaultNetwork)))"

definition xray_inbound :: "inbound \<Rightarrow> string \<Rightarrow> int \<Rightarrow> string \<Rightarrow> gmap \<Rightarrow> gmap" where
  "xray_inbound inb listen port protocol settings =
     [(''tag'', GStr (in_Tag inb)), (''listen'', GStr listen), (''port'', GInt port),
      (''protocol'', GStr protocol), (''settings'', GMap settings)]"

definition with_stream :: "gmap \<Rightarrow> gmap \<Rightarrow> gmap" where
  "with_stream config stream = config @ [(''streamSettings'', GMap stream)]"

definition xrayFallbacks :: "gval \<Rightarrow> gmap list" where
  "xrayFallbacks v = (case v of
     GList xs \<Rightarrow> filter (\<lambda>m. m \<noteq> []) (map as_map xs)
   | GMaps ms \<Rightarrow> ms
   | _ \<Rightarrow> [])"

definition buildXrayVlessInbound :: "xray_files \<Rightarrow> panel_db \<Rightarrow> inbound \<Rightarrow> gmap xbuild" where
  "buildXrayVlessInbound xf db inb =
     bind_svc (lift_svc (xrayInboundBasics inb ''xhttp'')) (\<lambda>(full, listen, port, transport, network).
     bind_svc (lift_svc (fetchXrayVlessClients db (in_Id inb) network)) (\<lambda>clients.
     bind_svc (buildXrayStreamSettings xf inb transport network) (\<lambda>stream.
       let fallbacks = xrayFallbacks (mget full ''fallbacks'');
           settings = [(''clients'', GMaps clients), (''decryption'', GStr (stringValue (mget full ''decryption'') ''none''))]
             @ opt_str ''encryption'' (as_str (mget full ''encryption''))
             @ (if fallbacks \<noteq> [] then [(''fallbacks'', GMaps fallbacks)] else [])
       in lift_svc (Inr (with_stream (xray_inbound inb listen port ''vless'' settings) stream)))))"

definition buildXrayVMessInbound :: "xray_files \<Rightarrow> panel_db \<Rightarrow> inbound \<Rightarrow> gmap xbuild" where
  "buildXrayVMessInbound xf db inb =
     bind_svc (lift_svc (xrayInboundBasics inb ''ws'')) (\<lambda>(full, listen, port, transport, network).
     bind_svc (lift_svc (fetchXrayVMessClients db (in_Id inb))) (\<lambda>clients.
     bind_svc (buildXrayStreamSettings xf inb transport network) (\<lambda>stream.
       let settings = [(''clients'', GMaps clients)]
             @ (case mget full ''disableInsecureEncryption'' of GBool b \<Rightarrow> [(''disableInsecureEncryption'', GBool b)] | _ \<Rightarrow> [])
       in lift_svc (Inr (with_stream (xray_inbound inb listen port ''vmess'' settings) stream)))))"

text \<open>A sing-box style single fallback is turned into the list Xray expects.\<close>

definition trojan_fallback :: "gmap \<Rightarrow> gmap" where
  "trojan_fallback full =
     (let fallbacks = xrayFallbacks (mget full ''fallbacks'') in
      if fallbacks \<noteq> [] then [(''fallbacks'', GMaps fallbacks)]
      else case mget full ''fallback'' of
        GMap fallback \<Rightarrow>
          (let dest = stringValue (mget fallback ''server'') []; p = toInt (mget fallback ''server_port'') in
           if dest = [] then []
           else [(''fallbacks'', GMaps [[(''dest'', GStr (if p > 0 then dest @ '':'' @ Itoa p else dest))]])])
      | _ \<Rightarrow> [])"

definition buildXrayTrojanInbound :: "xray_files \<Rightarrow> panel_db \<Rightarrow> inbound \<Rightarrow> gmap xbuild" where
  "buildXrayTrojanInbound xf db inb =
     bind_svc (lift_svc (xrayInboundBasics inb ''ws'')) (\<lambda>(full, listen, port, transport, network).
     bind_svc (lift_svc (fetchXrayPasswordClients db (in_Id inb) ''trojan'')) (\<lambda>clients.
     bind_svc (buildXrayStreamSettings xf inb transport network) (\<lambda>stream.
       lift_svc (Inr (with_stream (xray_inbound inb listen port ''trojan'' ((''clients'', GMaps clients) # trojan_fallback full)) stream)))))"

definition buildXrayShadowsocksInbound :: "panel_db \<Rightarrow> inbound \<Rightarrow> gmap result" where
  "buildXrayShadowsocksInbound db inb =
     bindr (MarshalFull inb) (\<lambda>full. bindr (xrayListenAndPort full (in_Tag inb)) (\<lambda>(listen, port).
       let method = stringValue (mget full ''method'') ''2022-blake3-aes-256-gcm'';
           network = stringValue (mget full ''network'') ''tcp,udp'' in
       bindr (fetchXrayShadowsocksClients db (in_Id inb) method) (\<lambda>clients.
         let own = stringValue (mget full ''password'') [];
             password = (if own = [] \<and> clients \<noteq> [] then as_str (mget (hd clients) ''password'') else own)
         in if password = [] then NewErrorf (''xray shadowsocks inbound <'' @ in_Tag inb @ ''> missing password'')
            else Inr (xray_inbound inb listen port ''shadowsocks''
              [(''method'', GStr method), (''password'', GStr password), (''network'', GStr network), (''clients'', GMaps clients)]))))"

definition attachOptionalXrayStream :: "xray_files \<Rightarrow> gmap \<Rightarrow> inbound \<Rightarrow> gmap \<Rightarrow> gmap xbuild" where
  "attachOptionalXrayStream xf config inb full =
     (case in_Tls inb of
        None \<Rightarrow> lift_svc (Inr config)
      | Some _ \<Rightarrow>
          let transport = as_map (mget full ''transport'') in
          bind_svc (buildXrayStreamSettings xf inb transport (transport_network transport ''tcp'')) (\<lambda>stream.
            lift_svc (Inr (with_stream config stream))))"

definition build_socks :: "xray_files \<Rightarrow> panel_db \<Rightarrow> inbound \<Rightarrow> string \<Rightarrow> gmap xbuild" where
  "build_socks xf db inb protocol =
     bind_svc (lift_svc (MarshalFull inb)) (\<lambda>full.
     bind_svc (lift_svc (xrayListenAndPort full (in_Tag inb))) (\<lambda>(listen, port).
     bind_svc (lift_svc (accounts_or_mixed db (in_Id inb) ''socks'')) (\<lambda>accounts.
       let settings = (''udp'', GBool (boolValueDefault (mget full ''udp'') True))
             # (if accounts \<noteq> [] then [(''auth'', GStr ''password''), (''accounts'', GMaps accounts)] else [(''auth'', GStr ''noauth'')])
       in attachOptionalXrayStream xf (xray_inbound inb listen port protocol settings) inb full)))"

definition buildXraySocksInbound :: "xray_files \<Rightarrow> panel_db \<Rightarrow> inbound \<Rightarrow> gmap xbuild" where
  "buildXraySocksInbound xf db inb = build_socks xf db inb ''socks''"

definition buildXrayMixedInbound :: "xray_files \<Rightarrow> panel_db \<Rightarrow> inbound \<Rightarrow> gmap xbuild" where
  "buildXrayMixedInbound xf db inb =
     bind_svc (buildXraySocksInbound xf db inb) (\<lambda>config. lift_svc (Inr (mput config ''protocol'' (GStr ''mixed''))))"

definition buildXrayHTTPInbound :: "xray_files \<Rightarrow> panel_db \<Rightarrow> inbound \<Rightarrow> gmap xbuild" where
  "buildXrayHTTPInbound xf db inb =
     bind_svc (lift_svc (MarshalFull inb)) (\<lambda>full.
     bind_svc (lift_svc (xrayListenAndPort full (in_Tag inb))) (\<lambda>(listen, port).
     bind_svc (lift_svc (accounts_or_mixed db (in_Id inb) ''http'')) (\<lambda>accounts.
       let settings = (''allowTransparent'', GBool (boolValue (mget full ''allow_transparent'')))
             # (if accounts \<noteq> [] then [(''accounts'', GMaps accounts)] else [])
       in attachOptionalXrayStream xf (xray_inbound inb listen port ''http'' settings) inb full)))"

definition masquerade_text :: "string \<Rightarrow> gmap" where
  "masquerade_text s =
     (if HasPrefix s ''http://'' \<or> HasPrefix s ''https://'' then [(''type'', GStr ''proxy''), (''url'', GStr s)]
      else if HasPrefix s ''file://'' then [(''type'', GStr ''file''), (''dir'', GStr (TrimPrefix s ''file://''))]
      else [(''type'', GStr ''string''), (''content'', GStr s)])"

definition opt_bool :: "string \<Rightarrow> gval \<Rightarrow> gmap" where
  "opt_bool k v = (case v of GBool b \<Rightarrow> [(k, GBool b)] | _ \<Rightarrow> [])"

definition xrayHysteriaMasquerade :: "gval \<Rightarrow> gmap option" where
  "xrayHysteriaMasquerade v = (case v of
     GStr raw \<Rightarrow> if TrimSpace raw = [] then None else Some (masquerade_text (TrimSpace raw))
   | GMap m \<Rightarrow>
       (let result = opt_str ''type'' (as_str (mget m ''type'')) @ opt_str ''dir'' (as_str (mget m ''directory''))
          @ opt_str ''url'' (as_str (mget m ''url'')) @ opt_bool ''rewriteHost'' (mget m ''rewrite_host'')
          @ opt_bool ''insecure'' (mget m ''insecure'') @ opt_str ''content'' (as_str (mget m ''content''))
          @ (case mget m ''headers'' of GMap h \<Rightarrow> [(''headers'', GMap h)] | _ \<Rightarrow> [])
          @ opt_int ''statusCode'' (toInt (mget m ''status_code''))
        in if result = [] then None else Some result)
   | _ \<Rightarrow> None)"

definition hysteria_stream :: "gmap \<Rightarrow> gmap \<Rightarrow> gmap" where
  "hysteria_stream full stream =
     (let h0 = as_map (mget stream ''hysteriaSettings''); idle = toInt (mget full ''udp_idle_timeout'');
          h1 = (if idle > 0 then mput h0 ''udpIdleTimeout'' (GInt idle) else h0);
          h2 = (case xrayHysteriaMasquerade (mget full ''masquerade'') of None \<Rightarrow> h1 | Some mq \<Rightarrow> mput h1 ''masquerade'' (GMap mq))
      in mput stream ''hysteriaSettings'' (GMap h2))"

definition buildXrayHysteria2Inbound :: "xray_files \<Rightarrow> panel_db \<Rightarrow> inbound \<Rightarrow> gmap xbuild" where
  "buildXrayHysteria2Inbound xf db inb =
     bind_svc (lift_svc (xrayInboundBasics inb ''hysteria'')) (\<lambda>(full, listen, port, transport, _).
       if in_Tls inb = None then lift_svc (NewErrorf (''xray hysteria2 inbound <'' @ in_Tag inb @ ''> requires TLS''))
       else
         bind_svc (lift_svc (fetchXrayHysteria2Users db (in_Id inb))) (\<lambda>users.
         bind_svc (buildXrayStreamSettings xf inb transport ''hysteria'') (\<lambda>stream.
           lift_svc (Inr (with_stream (xray_inbound inb listen port ''hysteria''
             [(''version'', GInt 2), (''users'', GMaps users)]) (hysteria_stream full stream))))))"

definition buildXrayDokodemoInbound :: "inbound \<Rightarrow> gmap result" where
  "buildXrayDokodemoInbound inb =
     bindr (MarshalFull inb) (\<lambda>full. bindr (xrayListenAndPort full (in_Tag inb)) (\<lambda>(listen, port).
       let settings = [(''network'', GStr (stringValue (mget full ''network'') ''tcp,udp'')),
             (''followRedirect'', GBool (boolValue (mget full ''follow_redirect'')))]
             @ opt_str ''address'' (as_str (mget full ''address'')) @ opt_int ''port'' (toInt (mget full ''port''));
           sniffing = as_map (mget full ''sniffing'')
       in Inr (xray_inbound inb listen port ''dokodemo-door'' settings
            @ (if sniffing \<noteq> [] then [(''sniffing'', GMap sniffing)] else []))))"

definition peer_names :: "gmap \<Rightarrow> string \<Rightarrow> string \<Rightarrow> string" where
  "peer_names m a b = stringValue (mget m a) (stringValue (mget m b) [])"

definition wireguard_peer :: "gval \<Rightarrow> gmap option" where
  "wireguard_peer item = (case item of
     GMap m \<Rightarrow>
       (let publicKey = peer_names m ''public_key'' ''publicKey'';
            a1 = toStringSlice (mget m ''allowed_ips'');
            a2 = (if a1 = [] then toStringSlice (mget m ''allowedIPs'') else a1);
            allowed = (if a2 = [] then [''0.0.0.0/0'', ''::/0''] else a2);
            k1 = toInt (mget m ''keep_alive''); k2 = toInt (mget m ''keepAlive'')
        in if publicKey = [] then None
           else Some ([(''publicKey'', GStr publicKey), (''allowedIPs'', GStrs allowed)]
             @ opt_str ''endpoint'' (stringValue (mget m ''endpoint'') [])
             @ opt_int ''keepAlive'' (if k1 > 0 then k1 else k2)
             @ opt_str ''preSharedKey'' (peer_names m ''pre_shared_key'' ''preSharedKey'')))
   | _ \<Rightarrow> None)"

definition buildXrayWireGuardInbound :: "inbound \<Rightarrow> gmap result" where
  "buildXrayWireGuardInbound inb =
     bindr (MarshalFull inb) (\<lambda>full. bindr (xrayListenAndPort full (in_Tag inb)) (\<lambda>(listen, port).
       let secretKey = peer_names full ''secret_key'' ''secretKey'';
           peersRaw = as_list (mget full ''peers'');
           peers = List.map_filter wireguard_peer peersRaw in
       if secretKey = [] then NewErrorf (''xray wireguard inbound <'' @ in_Tag inb @ ''> missing secret_key'')
       else if peersRaw = [] then NewErrorf (''xray wireguard inbound <'' @ in_Tag inb @ ''> requires at least one peer'')
       else if peers = [] then NewErrorf (''xray wireguard inbound <'' @ in_Tag inb @ ''> has no valid peers'')
       else Inr (xray_inbound inb listen port ''wireguard''
         ([(''secretKey'', GStr secretKey), (''peers'', GMaps peers)]
          @ opt_int ''mtu'' (toInt (mget full ''mtu'')) @ opt_int ''workers'' (toInt (mget full ''workers''))
          @ opt_str ''domainStrategy'' (peer_names full ''domain_strategy'' ''domainStrategy'')))))"

definition attachXraySniffing :: "gmap \<Rightarrow> inbound \<Rightarrow> gmap" where
  "attachXraySniffing config inb =
     (if mhas config ''sniffing'' then config
      else case MarshalFull inb of
        Inl _ \<Rightarrow> config
      | Inr full \<Rightarrow>
          (let sniffing = as_map (mget full ''sniffing'');
               d1 = toStringSlice (mget sniffing ''destOverride''); d2 = toStringSlice (mget sniffing ''dest_override'');
               r1 = opt_bool ''routeOnly'' (mget sniffing ''routeOnly'')
           in if sniffing = [] then config
              else config @ [(''sniffing'', GMap (
                (''enabled'', GBool (boolValueDefault (mget sniffing ''enabled'') True))
                # opt_strs ''destOverride'' (if d1 \<noteq> [] then d1 else d2)
                @ (if r1 \<noteq> [] then r1 else opt_bool ''routeOnly'' (mget sniffing ''route_only''))))]))"

section \<open>The whole configuration\<close>

definition build_xray_inbound :: "xray_files \<Rightarrow> panel_db \<Rightarrow> inbound \<Rightarrow> gmap xbuild" where
  "build_xray_inbound xf db inb =
     (let ty = in_Type inb in
      if ty = ''vless'' then buildXrayVlessInbound xf db inb
      else if ty = ''vmess'' then buildXrayVMessInbound xf db inb
      else if ty = ''trojan'' then buildXrayTrojanInbound xf db inb
      else if ty = ''shadowsocks'' then lift_svc (buildXrayShadowsocksInbound db inb)
      else if ty = ''socks'' then buildXraySocksInbound xf db inb
      else if ty = ''http'' then buildXrayHTTPInbound xf db inb
      else if ty = ''mixed'' then buildXrayMixedInbound xf db inb
      else if ty = ''hysteria2'' then buildXrayHysteria2Inbound xf db inb
      else if ty = ''dokodemo-door'' then lift_svc (buildXrayDokodemoInbound inb)
      else if ty = ''wireguard'' then lift_svc (buildXrayWireGuardInbound inb)
      else lift_svc (NewErrorf (''xray inbound type <'' @ ty @ ''> is not supported yet'')))"

definition xray_row :: "inbound \<Rightarrow> bool" where
  "xray_row i \<longleftrightarrow> in_CoreType i = CoreTypeXray"

definition GetAllXrayConfig :: "xray_files \<Rightarrow> panel_db \<Rightarrow> gmap list xbuild" where
  "GetAllXrayConfig xf db =
     mapr_svc (\<lambda>i. bind_svc (build_xray_inbound xf db (preload_inbound db i)) (\<lambda>config.
         lift_svc (Inr (attachXraySniffing config (preload_inbound db i)))))
       (filter xray_row (tb_Rows (db_Inbounds db)))"

definition hasXrayInbounds :: "panel_db \<Rightarrow> bool" where
  "hasXrayInbounds db \<longleftrightarrow> filter xray_row (tb_Rows (db_Inbounds db)) \<noteq> []"

definition getXrayConfig :: "xray_files \<Rightarrow> panel_db \<Rightarrow> raw xbuild" where
  "getXrayConfig xf db =
     bind_svc (GetAllXrayConfig xf db) (\<lambda>inbounds.
       lift_svc (Inr (mustJSON (GMap
         [(''log'', GMap [(''loglevel'', GStr ''warning'')]),
          (''inbounds'', GMaps inbounds),
          (''outbounds'', GMaps [[(''protocol'', GStr ''freedom''), (''tag'', GStr ''direct'')],
             [(''protocol'', GStr ''blackhole''), (''tag'', GStr ''block'')]]),
          (''routing'', GMap [(''rules'', GList [])])]))))"

end
