(* ===== verification/Xray_Files.thy ===== *)
theory Xray_Files
  imports Xray_Config
begin

text \<open>
  The certificate files of the TLS configurations: their names keep to one directory, whatever the
  name of the configuration holds, and two configurations never write to the same file.
\<close>

lemma dash_runs_chars: "c \<in> set (dash_runs b s) \<Longrightarrow> file_char c"
  by (induction b s rule: dash_runs.induct) (auto simp: file_char_def split: if_splits)

lemma dash_runs_ok: "list_all file_char a \<Longrightarrow> a \<noteq> [] \<Longrightarrow> dash_runs b (a @ s) = a @ dash_runs False s"
proof (induction a arbitrary: b)
  case (Cons c a)
  then show ?case by (cases "a = []") simp_all
qed simp

lemma digits_file_chars: "list_all file_char (Itoa (int n))"
  using Itoa_digits [of "int n"] by (auto simp: list_all_iff file_char_def)

text \<open>A trim stops at the number of the configuration, which has no dash.\<close>

lemma trim_dashes:
  assumes "CHR ''-'' \<notin> set a" "a \<noteq> []"
  shows "\<exists>w'. Trim (a @ w) ''-'' = a @ w' \<and> set w' \<subseteq> set w \<and> (w = [] \<or> hd w = CHR ''-'' \<longrightarrow> w' = [] \<or> hd w' = CHR ''-'')"
proof -
  let ?p = "\<lambda>c. c \<in> set ''-''"
  have front: "dropWhile ?p (a @ w) = a @ w" using assms by (cases a) auto
  have "\<not> ?p (hd (rev a))" using assms by (metis set_rev hd_in_set rev_is_Nil_conv list.set(1,2) empty_set insert_iff empty_iff)
  then have "dropWhile ?p (rev a) = rev a" by (simp add: dropWhile_hd)
  then have rear: "dropWhile ?p (rev w @ rev a) = dropWhile ?p (rev w) @ rev a" by (simp add: dropWhile_append)
  let ?w = "rev (dropWhile ?p (rev w))"
  have "Trim (a @ w) ''-'' = a @ ?w" using front rear by (simp add: Trim_def trim_by_def)
  moreover have "set ?w \<subseteq> set w" by (auto dest: set_dropWhileD)
  moreover have "?w = [] \<or> hd ?w = hd w"
  proof -
    obtain v where "w = ?w @ v" by (metis rev_append rev_rev_ident takeWhile_dropWhile_id)
    then show ?thesis by (metis hd_append)
  qed
  ultimately show ?thesis by (metis append_Nil2 append_is_Nil_conv dropWhile.simps(1) rev.simps(1))
qed

lemma cert_base_shape:
  obtains w where "cert_base t = Itoa (int (tls_Id t)) @ w" "list_all file_char w" "w = [] \<or> hd w = CHR ''-''"
proof -
  let ?n = "Itoa (int (tls_Id t))" and ?d = "CHR ''-'' # dash_runs False (tls_Name t)"
  have nd: "CHR ''-'' \<notin> set ?n" by (rule Itoa_not_in) simp_all
  have "dash_runs False (?n @ ''-'' @ tls_Name t) = ?n @ ?d"
    using dash_runs_ok [OF digits_file_chars Itoa_ne, where b = False] by (simp add: file_char_def)
  then have "cert_base t = Trim (?n @ ?d) ''-''" by (simp add: cert_base_def sanitizeFileName_def)
  then obtain w where w: "cert_base t = ?n @ w" "set w \<subseteq> set ?d" "w = [] \<or> hd w = CHR ''-''"
    using trim_dashes [OF nd Itoa_ne, of ?d] by auto
  have "file_char c" if "c \<in> set ?d" for c using that by (auto simp: file_char_def dest: dash_runs_chars)
  then have "list_all file_char w" using w(2) by (auto simp: list_all_iff)
  with w that show thesis by blast
qed

lemma cert_base_chars: "list_all file_char (cert_base t)"
  by (rule cert_base_shape [of t]) (simp add: digits_file_chars)

lemma cert_base_number: "takeWhile is_digit (cert_base t) = Itoa (int (tls_Id t))"
proof -
  obtain w where w: "cert_base t = Itoa (int (tls_Id t)) @ w" "w = [] \<or> hd w = CHR ''-''" using cert_base_shape [of t] by metis
  have "takeWhile is_digit (Itoa (int (tls_Id t)) @ w) = Itoa (int (tls_Id t)) @ takeWhile is_digit w"
    by (rule takeWhile_append2) (auto dest: Itoa_chars [rotated])
  moreover have "takeWhile is_digit w = []" using w(2) by (cases w) auto
  ultimately show ?thesis by (simp add: w(1))
qed

lemma append_ends: "length a = length b \<Longrightarrow> x @ a = y @ b \<longleftrightarrow> x = y \<and> a = b"
  by (metis append_eq_append_conv)

text \<open>
  C31. The two files of an inline certificate lie directly in the certificate directory: their name
  starts with the number of the configuration and holds letters, digits, dots, underscores and
  dashes only, so no name a user chooses leads out of it. They hold the certificate and the key,
  every other file stays as it was, and the files of another configuration are different ones.
\<close>

theorem certificate_files_confined:
  assumes run: "writeXrayCertificateFiles xf t server files = (Inr (certFile, keyFile), files')" and written: "certFile \<noteq> []"
  shows "\<exists>base. certFile = xf_CertDir xf @ ''/'' @ base @ ''.crt'' \<and> keyFile = xf_CertDir xf @ ''/'' @ base @ ''.key''
      \<and> list_all file_char base \<and> takeWhile is_digit base = Itoa (int (tls_Id t)) \<and> CHR ''/'' \<notin> set base
      \<and> files' certFile = Some (Join (toStringSlice (mget server ''certificate'')) [CHR 0x0A] @ [CHR 0x0A])
      \<and> files' keyFile = Some (Join (toStringSlice (mget server ''key'')) [CHR 0x0A] @ [CHR 0x0A])
      \<and> (\<forall>path. path \<noteq> certFile \<and> path \<noteq> keyFile \<longrightarrow> files' path = files path)
      \<and> (\<forall>t'. tls_Id t' \<noteq> tls_Id t \<longrightarrow> certFile \<notin> {xf_CertDir xf @ ''/'' @ cert_base t' @ ''.crt'', xf_CertDir xf @ ''/'' @ cert_base t' @ ''.key''}
           \<and> keyFile \<notin> {xf_CertDir xf @ ''/'' @ cert_base t' @ ''.crt'', xf_CertDir xf @ ''/'' @ cert_base t' @ ''.key''})"
proof -
  have paths: "certFile = xf_CertDir xf @ ''/'' @ cert_base t @ ''.crt''" "keyFile = xf_CertDir xf @ ''/'' @ cert_base t @ ''.key''"
    and files: "files' = files(certFile \<mapsto> Join (toStringSlice (mget server ''certificate'')) [CHR 0x0A] @ [CHR 0x0A],
        keyFile \<mapsto> Join (toStringSlice (mget server ''key'')) [CHR 0x0A] @ [CHR 0x0A])"
    using run written
    by (auto simp: writeXrayCertificateFiles_def Let_def lift_svc_def bind_svc_Inr write_file_def split: if_splits option.splits)
  have "\<not> file_char (CHR ''/'')" by (simp add: file_char_def is_digit_def)
  then have slash: "CHR ''/'' \<notin> set (cert_base t)" using cert_base_chars [of t] by (auto simp: list_all_iff)
  have other: "cert_base t' \<noteq> cert_base t" if "tls_Id t' \<noteq> tls_Id t" for t'
    using that cert_base_number Itoa_inj by metis
  have ext: "(p @ ''.crt'' = q @ ''.key'') = False" "(p @ ''.key'' = q @ ''.crt'') = False" for p q :: string
    by (simp_all add: append_ends)
  have "certFile \<noteq> keyFile" by (simp add: paths)
  then show ?thesis
    by (intro exI [of _ "cert_base t"]) (auto simp: paths files cert_base_chars cert_base_number slash other ext append_ends dest: other)
qed

definition example_files :: xray_files where
  "example_files = \<lparr>xf_CertDir = ''bin/xray-certs'', xf_Mkdir = None, xf_WriteErr = (\<lambda>_. None)\<rparr>"

definition example_tls :: tls_row where
  "example_tls = \<lparr>tls_Id = 3, tls_Name = ''../a b'', tls_Server = RVal (GMap [(''certificate'', GList [GStr ''CERT'']), (''key'', GList [GStr ''KEY''])]),
     tls_Client = RNil\<rparr>"

theorem certificate_files_confined_witness:
  "\<exists>base. ''bin/xray-certs/3-..-a-b.crt'' = ''bin/xray-certs'' @ ''/'' @ base @ ''.crt'' \<and> list_all file_char base"
proof -
  let ?run = "writeXrayCertificateFiles example_files example_tls (as_map (raw_val (tls_Server example_tls))) Map.empty"
  have "fst ?run = Inr (''bin/xray-certs/3-..-a-b.crt'', ''bin/xray-certs/3-..-a-b.key'')" by code_simp
  then obtain files' where "?run = (Inr (''bin/xray-certs/3-..-a-b.crt'', ''bin/xray-certs/3-..-a-b.key''), files')"
    by (cases ?run) auto
  from certificate_files_confined [OF this] show ?thesis by (auto simp: example_files_def)
qed

end
