(* ===== verification/Xray_Safety.thy ===== *)
theory Xray_Safety
  imports Xray_Config
begin

text \<open>
  What the Xray configuration grants: one inbound per row with the row's tag and a port, only
  credentials of enabled clients that list the inbound, Reality only on the transports that
  support it, and certificate files that stay in their directory and are never shared.
\<close>

section \<open>Credentials\<close>

definition made_from :: "string \<Rightarrow> gmap \<Rightarrow> gmap \<Rightarrow> bool" where
  "made_from name cfg m \<longleftrightarrow>
     mget m ''email'' = GStr name
       \<and> (\<exists>(k, v)\<in>{(''id'', ''uuid''), (''password'', ''password''), (''auth'', ''password'')}.
            mget m k = mget cfg v \<and> as_str (mget cfg v) \<noteq> [])
   \<or> mget m ''user'' = mget cfg ''username'' \<and> mget m ''pass'' = mget cfg ''password''
       \<and> as_str (mget cfg ''username'') \<noteq> [] \<and> as_str (mget cfg ''password'') \<noteq> []"

text \<open>A credential of an enabled client that lists inbound \<open>i\<close>, for one of its protocols.\<close>

definition granted :: "panel_db \<Rightarrow> nat \<Rightarrow> gmap \<Rightarrow> bool" where
  "granted db i m \<longleftrightarrow> (\<exists>c\<in>set (tb_Rows (db_Clients db)). cl_Enable c \<and> lists_inbound i c
     \<and> (\<exists>protocol cfg. config_map (config_entry protocol c) = Inr cfg \<and> made_from (cl_Name c) cfg m))"

definition object_list :: "gval \<Rightarrow> gmap list" where
  "object_list v = (case v of GMaps ms \<Rightarrow> ms | _ \<Rightarrow> [])"

definition settings_users :: "gmap \<Rightarrow> gmap list" where
  "settings_users settings = object_list (mget settings ''clients'') @ object_list (mget settings ''users'')
     @ object_list (mget settings ''accounts'')"

lemma as_str_value: "as_str v \<noteq> [] \<Longrightarrow> GStr (as_str v) = v"
  by (cases v) (simp_all add: as_str_def)

lemma client_objects:
  "vless_client network name cfg = Some m \<Longrightarrow> made_from name cfg m"
  "vmess_client name cfg = Some m \<Longrightarrow> made_from name cfg m"
  "password_client name cfg = Some m \<Longrightarrow> made_from name cfg m"
  "shadowsocks_client method name cfg = Some m \<Longrightarrow> made_from name cfg m"
  "account_client name cfg = Some m \<Longrightarrow> made_from name cfg m"
  "hysteria2_user name cfg = Some m \<Longrightarrow> made_from name cfg m"
  by (auto simp: made_from_def vless_client_def vmess_client_def password_client_def shadowsocks_client_def
      account_client_def hysteria2_user_def Let_def as_str_value split: if_splits)

lemma mapr_Inr_mem: "mapr f xs = Inr ys \<Longrightarrow> y \<in> set ys \<Longrightarrow> \<exists>x\<in>set xs. f x = Inr y"
  by (induction xs arbitrary: ys) (auto simp: bindr_Inr_iff results)

lemma map_filter_id_mem: "m \<in> set (List.map_filter (\<lambda>x. x) os) \<longleftrightarrow> Some m \<in> set os"
  by (induction os) (auto simp: List.map_filter_simps split: option.split)

lemma xray_clients_granted:
  assumes run: "xray_clients db i protocol client = Inr ms"
    and client: "\<And>name cfg m. client name cfg = Some m \<Longrightarrow> made_from name cfg m"
  shows "list_all (granted db i) ms"
  unfolding list_all_iff
proof
  fix m
  assume m: "m \<in> set ms"
  let ?rows = "filter (\<lambda>c. cl_Enable c \<and> config_entry protocol c \<noteq> GNil \<and> lists_inbound i c) (tb_Rows (db_Clients db))"
  obtain os where os: "mapr (\<lambda>(name, v). map_sum id (client name) (config_map v)) (map (\<lambda>c. (cl_Name c, config_entry protocol c)) ?rows) = Inr os"
    and ms: "ms = List.map_filter (\<lambda>x. x) os"
    using run by (auto simp: xray_clients_def fetchXrayClientConfigs_def bindr_Inr_iff results Let_def split: if_splits)
  have "Some m \<in> set os" using m ms by (simp add: map_filter_id_mem)
  then obtain c where c: "c \<in> set ?rows" "map_sum id (client (cl_Name c)) (config_map (config_entry protocol c)) = Inr (Some m)"
    using mapr_Inr_mem [OF os] by auto
  then obtain cfg where "config_map (config_entry protocol c) = Inr cfg" "client (cl_Name c) cfg = Some m"
    by (auto simp: results)
  moreover have "made_from (cl_Name c) cfg m" using client calculation(2) .
  ultimately show "granted db i m" using c(1) unfolding granted_def by auto
qed

lemmas fetch_defs = fetchXrayVlessClients_def fetchXrayVMessClients_def fetchXrayPasswordClients_def
  fetchXrayShadowsocksClients_def fetchXrayAccountClients_def fetchXrayHysteria2Users_def

lemma fetched_granted:
  "fetchXrayVlessClients db i network = Inr ms \<Longrightarrow> list_all (granted db i) ms"
  "fetchXrayVMessClients db i = Inr ms \<Longrightarrow> list_all (granted db i) ms"
  "fetchXrayPasswordClients db i protocol = Inr ms \<Longrightarrow> list_all (granted db i) ms"
  "fetchXrayShadowsocksClients db i method = Inr ms \<Longrightarrow> list_all (granted db i) ms"
  "fetchXrayAccountClients db i protocol = Inr ms \<Longrightarrow> list_all (granted db i) ms"
  "fetchXrayHysteria2Users db i = Inr ms \<Longrightarrow> list_all (granted db i) ms"
  unfolding fetch_defs by (auto intro: xray_clients_granted client_objects)

lemma accounts_granted: "accounts_or_mixed db i protocol = Inr ms \<Longrightarrow> list_all (granted db i) ms"
  by (auto simp: accounts_or_mixed_def bindr_Inr_iff fetched_granted split: if_splits)

section \<open>Security and transport\<close>

definition stream_ok :: "gmap \<Rightarrow> bool" where
  "stream_ok stream \<longleftrightarrow> (mget stream ''security'' = GStr ''reality'' \<longrightarrow>
     mget stream ''network'' \<in> {GStr ''raw'', GStr ''xhttp'', GStr ''grpc''})"

declare mhas_append [simp]

lemma stream_security_ok:
  assumes "addXraySecurity xf stream t files = (Inr s, files')" "\<not> mhas stream ''security''" "mhas stream ''network''"
    and "xrayRealityEnabled (Some t) \<Longrightarrow> mget stream ''network'' \<in> {GStr ''raw'', GStr ''xhttp'', GStr ''grpc''}"
  shows "stream_ok s"
  using assms
  by (auto simp: addXraySecurity_def stream_ok_def xrayRealityEnabled_def bind_svc_Inr lift_svc_Inr mget_append mget_no as_map_def
      split: option.splits if_splits gval.splits)

lemma xray_transport_keys: "xray_transport transport network = Some (key, settings) \<Longrightarrow> key \<notin> {''security'', ''network''}"
  by (auto simp: xray_transport_def split: if_splits)

lemma stream_ok:
  assumes "buildXrayStreamSettings xf inb transport network files = (Inr s, files')"
  shows "stream_ok s"
proof -
  obtain key settings where k: "xray_transport transport network = Some (key, settings)" and key: "key \<notin> {''security'', ''network''}"
    using assms xray_transport_keys by (fastforce simp: buildXrayStreamSettings_def lift_svc_def split: option.splits)
  let ?s = "(''network'', GStr (xray_network network)) # xray_sockopt transport network @ [(key, GMap settings)]"
  have plain: "\<not> mhas ?s ''security''" "mhas ?s ''network''" "mget ?s ''network'' = GStr (xray_network network)"
    using key by (auto simp: xray_sockopt_def Let_def mget_def)
  show ?thesis
  proof (cases "in_Tls inb")
    case None
    then show ?thesis using assms plain k by (simp add: buildXrayStreamSettings_def lift_svc_def stream_ok_def Let_def mget_no)
  next
    case (Some t)
    show ?thesis
    proof (cases "tiny_raw (tls_Server t)")
      case True
      then show ?thesis using assms plain k Some by (simp add: buildXrayStreamSettings_def lift_svc_def stream_ok_def Let_def mget_no)
    next
      case False
      then have run: "addXraySecurity xf ?s t files = (Inr s, files')"
        and real: "xrayRealityEnabled (Some t) \<Longrightarrow> network \<in> {''tcp'', ''raw'', ''xhttp'', ''grpc''}"
        using assms k Some by (auto simp: buildXrayStreamSettings_def lift_svc_def Let_def split: if_splits)
      show ?thesis
        by (rule stream_security_ok [OF run plain(1,2)]) (use real in \<open>auto simp: plain(3) xray_network_def\<close>)
    qed
  qed
qed

lemma hysteria_stream_ok: "stream_ok s \<Longrightarrow> stream_ok (hysteria_stream full s)"
  by (simp add: stream_ok_def hysteria_stream_def Let_def mget_mput)

section \<open>Every inbound\<close>

definition xray_protocol :: "string \<Rightarrow> string" where
  "xray_protocol ty = (if ty = ''hysteria2'' then ''hysteria'' else ty)"

text \<open>\<open>sound_inbound\<close>: what every generated object has.\<close>

definition sound_inbound :: "panel_db \<Rightarrow> inbound \<Rightarrow> gmap \<Rightarrow> bool" where
  "sound_inbound db i c \<longleftrightarrow> mget c ''tag'' = GStr (in_Tag i) \<and> as_str (mget c ''listen'') \<noteq> []
     \<and> (\<exists>port. mget c ''port'' = GInt port \<and> port \<noteq> 0) \<and> mget c ''protocol'' = GStr (xray_protocol (in_Type i))
     \<and> list_all (granted db (in_Id i)) (settings_users (as_map (mget c ''settings'')))
     \<and> stream_ok (as_map (mget c ''streamSettings''))"

lemma sound_intro:
  assumes "listen \<noteq> []" "port \<noteq> 0" "protocol = xray_protocol (in_Type i)"
    and "list_all (granted db (in_Id i)) (settings_users settings)"
    and "stream_ok (as_map (mget rest ''streamSettings''))"
  shows "sound_inbound db i (xray_inbound i listen port protocol settings @ rest)"
  using assms by (simp add: sound_inbound_def xray_inbound_def as_map_def as_str_def mget_append mget_def mhas_def)

lemma listen_port: "xrayListenAndPort full tag = Inr (listen, port) \<Longrightarrow> listen \<noteq> [] \<and> port \<noteq> 0"
  by (auto simp: xrayListenAndPort_def Let_def split: if_splits)

lemma no_users: "settings_users ((''clients'', GMaps cs) # rest) = cs @ object_list (mget rest ''users'') @ object_list (mget rest ''accounts'')"
  by (simp add: settings_users_def object_list_def mget_def)

lemma opt_keys [simp]: "mhas (opt_str k s) k' \<longleftrightarrow> s \<noteq> [] \<and> k' = k" "mhas (opt_int k i) k' \<longleftrightarrow> i > 0 \<and> k' = k"
  "mhas (opt_strs k ss) k' \<longleftrightarrow> ss \<noteq> [] \<and> k' = k" "mhas (opt_bool k v) k' \<longleftrightarrow> (\<exists>b. v = GBool b) \<and> k' = k"
  by (auto simp: opt_str_def opt_int_def opt_strs_def opt_bool_def split: gval.splits)

lemma settings_users_plain:
  assumes "\<not> mhas settings ''clients''" "\<not> mhas settings ''users''" "\<not> mhas settings ''accounts''"
  shows "settings_users settings = []"
  using assms by (simp add: settings_users_def mget_no object_list_def)

lemma optional_stream:
  assumes "attachOptionalXrayStream xf (xray_inbound i listen port protocol settings) i full files = (Inr c, files')"
  obtains rest where "c = xray_inbound i listen port protocol settings @ rest" "stream_ok (as_map (mget rest ''streamSettings''))"
proof (cases "in_Tls i")
  case None
  then show thesis using assms that [of "[]"] by (simp add: attachOptionalXrayStream_def lift_svc_def mget_no as_map_def stream_ok_def)
next
  case (Some t)
  then obtain s files1 where "buildXrayStreamSettings xf i (as_map (mget full ''transport''))
      (transport_network (as_map (mget full ''transport'')) ''tcp'') files = (Inr s, files1)"
    "c = with_stream (xray_inbound i listen port protocol settings) s"
    using assms by (auto simp: attachOptionalXrayStream_def Let_def bind_svc_Inr lift_svc_Inr)
  then show thesis using that [of "[(''streamSettings'', GMap s)]"] stream_ok by (simp add: with_stream_def mget_def as_map_def)
qed

lemma stream_rest: "stream_ok s \<Longrightarrow> stream_ok (as_map (mget [(''streamSettings'', GMap s)] ''streamSettings''))"
  by (simp add: mget_def as_map_def)

lemma stream_ok_Nil [simp]: "stream_ok []"
  by (simp add: stream_ok_def mget_def)

lemma no_stream: "\<not> mhas rest ''streamSettings'' \<Longrightarrow> stream_ok (as_map (mget rest ''streamSettings''))"
  by (simp add: mget_no as_map_def stream_ok_def)

lemma basics: "xrayInboundBasics i d = Inr (full, listen, port, transport, network) \<Longrightarrow> listen \<noteq> [] \<and> port \<noteq> 0"
  by (auto simp: xrayInboundBasics_def bindr_Inr_iff Let_def dest: listen_port)

lemmas build_defs = bind_svc_Inr lift_svc_Inr Let_def with_stream_def xray_protocol_def

lemma users_here:
  assumes "list_all P ms" "\<not> mhas rest ''clients''" "\<not> mhas rest ''users''" "\<not> mhas rest ''accounts''" "k \<in> {''clients'', ''users'', ''accounts''}"
  shows "list_all P (settings_users ((k, GMaps ms) # rest))" "list_all P (settings_users (rest @ [(k, GMaps ms)]))"
  using assms by (auto simp: settings_users_def object_list_def mget_append mget_no)

lemma vless_sound:
  assumes "buildXrayVlessInbound xf db i files = (Inr c, files')" "in_Type i = ''vless''"
  shows "sound_inbound db i c"
proof -
  obtain full listen port transport network clients stream files1 rest where
    b: "xrayInboundBasics i ''xhttp'' = Inr (full, listen, port, transport, network)"
    and cs: "fetchXrayVlessClients db (in_Id i) network = Inr clients"
    and st: "buildXrayStreamSettings xf i transport network files = (Inr stream, files1)"
    and c: "c = with_stream (xray_inbound i listen port ''vless'' ((''clients'', GMaps clients) # rest)) stream"
    and rest: "\<not> mhas rest ''clients''" "\<not> mhas rest ''users''" "\<not> mhas rest ''accounts''"
    using assms(1) by (fastforce simp: buildXrayVlessInbound_def bind_svc_Inr lift_svc_Inr Let_def)
  show ?thesis
    unfolding c with_stream_def
    by (rule sound_intro) (use basics [OF b] assms(2) fetched_granted(1) [OF cs] stream_ok [OF st] rest in
      \<open>auto simp: xray_protocol_def intro: users_here stream_rest\<close>)
qed

lemma vmess_sound:
  assumes "buildXrayVMessInbound xf db i files = (Inr c, files')" "in_Type i = ''vmess''"
  shows "sound_inbound db i c"
proof -
  let ?rest = "\<lambda>full. case mget full ''disableInsecureEncryption'' of GBool b \<Rightarrow> [(''disableInsecureEncryption'', GBool b)] | _ \<Rightarrow> []"
  obtain full listen port transport network clients stream files1 where
    b: "xrayInboundBasics i ''ws'' = Inr (full, listen, port, transport, network)"
    and cs: "fetchXrayVMessClients db (in_Id i) = Inr clients"
    and st: "buildXrayStreamSettings xf i transport network files = (Inr stream, files1)"
    and c: "c = with_stream (xray_inbound i listen port ''vmess'' ((''clients'', GMaps clients) # ?rest full)) stream"
    using assms(1) by (fastforce simp: buildXrayVMessInbound_def bind_svc_Inr lift_svc_Inr Let_def)
  have rest: "\<not> mhas (?rest full) k" if "k \<noteq> ''disableInsecureEncryption''" for k
    using that by (simp split: gval.split)
  show ?thesis
    unfolding c with_stream_def
    by (rule sound_intro) (use basics [OF b] assms(2) fetched_granted(2) [OF cs] stream_ok [OF st] rest in
      \<open>auto simp: xray_protocol_def intro!: users_here stream_rest\<close>)
qed

lemma trojan_sound:
  assumes "buildXrayTrojanInbound xf db i files = (Inr c, files')" "in_Type i = ''trojan''"
  shows "sound_inbound db i c"
proof -
  obtain full listen port transport network clients stream files1 where
    b: "xrayInboundBasics i ''ws'' = Inr (full, listen, port, transport, network)"
    and cs: "fetchXrayPasswordClients db (in_Id i) ''trojan'' = Inr clients"
    and st: "buildXrayStreamSettings xf i transport network files = (Inr stream, files1)"
    and c: "c = with_stream (xray_inbound i listen port ''trojan'' ((''clients'', GMaps clients) # trojan_fallback full)) stream"
    using assms(1) by (fastforce simp: buildXrayTrojanInbound_def bind_svc_Inr lift_svc_Inr Let_def)
  have rest: "\<not> mhas (trojan_fallback full) k" if "k \<noteq> ''fallbacks''" for k
    using that by (auto simp: trojan_fallback_def Let_def split: gval.splits)
  show ?thesis
    unfolding c with_stream_def
    by (rule sound_intro) (use basics [OF b] assms(2) fetched_granted(3) [OF cs] stream_ok [OF st] rest in
      \<open>auto simp: xray_protocol_def intro!: users_here stream_rest\<close>)
qed

lemma shadowsocks_sound:
  assumes "buildXrayShadowsocksInbound db i = Inr c" "in_Type i = ''shadowsocks''"
  shows "sound_inbound db i c"
proof -
  obtain full listen port meth pw network clients where
    b: "xrayListenAndPort full (in_Tag i) = Inr (listen, port)"
    and cs: "fetchXrayShadowsocksClients db (in_Id i) meth = Inr clients"
    and c: "c = xray_inbound i listen port ''shadowsocks''
      [(''method'', GStr meth), (''password'', GStr pw), (''network'', GStr network), (''clients'', GMaps clients)] @ []"
    using assms(1) by (fastforce simp: buildXrayShadowsocksInbound_def bindr_Inr_iff Let_def split: if_splits)
  show ?thesis
    unfolding c
    by (rule sound_intro) (use listen_port [OF b] assms(2) fetched_granted(4) [OF cs] in
      \<open>auto simp: xray_protocol_def settings_users_def object_list_def mget_def intro: no_stream\<close>)
qed

lemma socks_sound:
  assumes "build_socks xf db i protocol files = (Inr c, files')"
  obtains listen port settings rest where "c = xray_inbound i listen port protocol settings @ rest" "listen \<noteq> []" "port \<noteq> 0"
    "list_all (granted db (in_Id i)) (settings_users settings)" "stream_ok (as_map (mget rest ''streamSettings''))"
proof -
  obtain full listen port accounts files1 settings where
    b: "xrayListenAndPort full (in_Tag i) = Inr (listen, port)"
    and cs: "accounts_or_mixed db (in_Id i) ''socks'' = Inr accounts"
    and settings: "settings = (''udp'', GBool (boolValueDefault (mget full ''udp'') True))
             # (if accounts \<noteq> [] then [(''auth'', GStr ''password''), (''accounts'', GMaps accounts)] else [(''auth'', GStr ''noauth'')])"
    and c: "attachOptionalXrayStream xf (xray_inbound i listen port protocol settings) i full files1 = (Inr c, files')"
    using assms by (fastforce simp: build_socks_def bind_svc_Inr lift_svc_Inr Let_def)
  have "list_all (granted db (in_Id i)) (settings_users settings)"
    using accounts_granted [OF cs] by (auto simp: settings settings_users_def object_list_def mget_def)
  then show thesis using optional_stream [OF c] listen_port [OF b] that by metis
qed

lemma http_sound:
  assumes "buildXrayHTTPInbound xf db i files = (Inr c, files')" "in_Type i = ''http''"
  shows "sound_inbound db i c"
proof -
  obtain full listen port accounts files1 settings where
    b: "xrayListenAndPort full (in_Tag i) = Inr (listen, port)"
    and cs: "accounts_or_mixed db (in_Id i) ''http'' = Inr accounts"
    and settings: "settings = (''allowTransparent'', GBool (boolValue (mget full ''allow_transparent'')))
             # (if accounts \<noteq> [] then [(''accounts'', GMaps accounts)] else [])"
    and c: "attachOptionalXrayStream xf (xray_inbound i listen port ''http'' settings) i full files1 = (Inr c, files')"
    using assms(1) by (fastforce simp: buildXrayHTTPInbound_def bind_svc_Inr lift_svc_Inr Let_def)
  obtain rest where rest: "c = xray_inbound i listen port ''http'' settings @ rest" "stream_ok (as_map (mget rest ''streamSettings''))"
    using optional_stream [OF c] by metis
  have "list_all (granted db (in_Id i)) (settings_users settings)"
    using accounts_granted [OF cs] by (auto simp: settings settings_users_def object_list_def mget_def)
  then show ?thesis
    unfolding rest(1) by (rule sound_intro [rotated 3]) (use listen_port [OF b] assms(2) rest(2) in \<open>auto simp: xray_protocol_def\<close>)
qed

lemma socks_inbound_sound:
  assumes "buildXraySocksInbound xf db i files = (Inr c, files')" "in_Type i = ''socks''"
  shows "sound_inbound db i c"
proof -
  obtain listen port settings rest where "c = xray_inbound i listen port ''socks'' settings @ rest" "listen \<noteq> []" "port \<noteq> 0"
    "list_all (granted db (in_Id i)) (settings_users settings)" "stream_ok (as_map (mget rest ''streamSettings''))"
    using socks_sound [of xf db i "''socks''" files c files'] assms(1) unfolding buildXraySocksInbound_def by metis
  then show ?thesis using assms(2) sound_intro [of listen port "''socks''" i db settings rest] by (simp add: xray_protocol_def)
qed

lemma mixed_sound:
  assumes "buildXrayMixedInbound xf db i files = (Inr c, files')" "in_Type i = ''mixed''"
  shows "sound_inbound db i c"
proof -
  obtain c0 where c0: "build_socks xf db i ''socks'' files = (Inr c0, files')" "c = mput c0 ''protocol'' (GStr ''mixed'')"
    using assms(1) by (auto simp: buildXrayMixedInbound_def buildXraySocksInbound_def bind_svc_Inr lift_svc_Inr)
  obtain listen port settings rest where shape: "c0 = xray_inbound i listen port ''socks'' settings @ rest" "listen \<noteq> []" "port \<noteq> 0"
    "list_all (granted db (in_Id i)) (settings_users settings)" "stream_ok (as_map (mget rest ''streamSettings''))"
    using socks_sound [OF c0(1)] by metis
  have "c = xray_inbound i listen port ''mixed'' settings @ rest"
    by (simp add: c0(2) shape(1) xray_inbound_def mput_def)
  then show ?thesis using shape(2-) assms(2) sound_intro [of listen port "''mixed''" i db settings rest] by (simp add: xray_protocol_def)
qed

lemma hysteria2_sound:
  assumes "buildXrayHysteria2Inbound xf db i files = (Inr c, files')" "in_Type i = ''hysteria2''"
  shows "sound_inbound db i c"
proof -
  obtain full listen port transport network users stream files1 where
    b: "xrayInboundBasics i ''hysteria'' = Inr (full, listen, port, transport, network)"
    and cs: "fetchXrayHysteria2Users db (in_Id i) = Inr users"
    and st: "buildXrayStreamSettings xf i transport ''hysteria'' files = (Inr stream, files1)"
    and c: "c = with_stream (xray_inbound i listen port ''hysteria'' [(''version'', GInt 2), (''users'', GMaps users)]) (hysteria_stream full stream)"
    using assms(1) by (fastforce simp: buildXrayHysteria2Inbound_def bind_svc_Inr lift_svc_Inr split: if_splits)
  show ?thesis
    unfolding c with_stream_def
    by (rule sound_intro) (use basics [OF b] assms(2) fetched_granted(6) [OF cs] hysteria_stream_ok [OF stream_ok [OF st]] in
      \<open>auto simp: xray_protocol_def settings_users_def object_list_def mget_def as_map_def\<close>)
qed

lemma plain_inbounds_sound:
  assumes "buildXrayDokodemoInbound i = Inr c \<and> in_Type i = ''dokodemo-door'' \<or> buildXrayWireGuardInbound i = Inr c \<and> in_Type i = ''wireguard''"
  shows "sound_inbound db i c"
proof -
  obtain full listen port settings rest where b: "xrayListenAndPort full (in_Tag i) = Inr (listen, port)"
    and c: "c = xray_inbound i listen port (in_Type i) settings @ rest" and rest: "\<not> mhas rest ''streamSettings''"
    and users: "\<not> mhas settings ''clients''" "\<not> mhas settings ''users''" "\<not> mhas settings ''accounts''"
    and ty: "in_Type i = ''dokodemo-door'' \<or> in_Type i = ''wireguard''"
    using assms
  proof (elim disjE conjE)
    assume d: "buildXrayDokodemoInbound i = Inr c" "in_Type i = ''dokodemo-door''"
    then obtain full listen port settings rest where "xrayListenAndPort full (in_Tag i) = Inr (listen, port)"
      "c = xray_inbound i listen port (in_Type i) settings @ rest" "\<not> mhas rest ''streamSettings''"
      "\<not> mhas settings ''clients''" "\<not> mhas settings ''users''" "\<not> mhas settings ''accounts''"
      by (fastforce simp: buildXrayDokodemoInbound_def bindr_Inr_iff Let_def)
    then show thesis using that d(2) by blast
  next
    assume w: "buildXrayWireGuardInbound i = Inr c" "in_Type i = ''wireguard''"
    then obtain full listen port settings where "xrayListenAndPort full (in_Tag i) = Inr (listen, port)"
      "c = xray_inbound i listen port (in_Type i) settings"
      "\<not> mhas settings ''clients''" "\<not> mhas settings ''users''" "\<not> mhas settings ''accounts''"
      by (fastforce simp: buildXrayWireGuardInbound_def bindr_Inr_iff Let_def split: if_splits)
    then show thesis using that [of full listen port settings "[]"] w(2) by simp
  qed
  show ?thesis
    unfolding c by (rule sound_intro) (use listen_port [OF b] ty settings_users_plain [OF users] no_stream [OF rest] in \<open>auto simp: xray_protocol_def\<close>)
qed

lemma build_sound:
  assumes "build_xray_inbound xf db i files = (Inr c, files')"
  shows "sound_inbound db i c"
  using assms vless_sound vmess_sound trojan_sound shadowsocks_sound socks_inbound_sound http_sound mixed_sound hysteria2_sound
    plain_inbounds_sound
  by (auto simp: build_xray_inbound_def Let_def lift_svc_Inr split: if_splits)

lemma sniffing_sound: "sound_inbound db i c \<Longrightarrow> sound_inbound db i (attachXraySniffing c i)"
proof -
  assume s: "sound_inbound db i c"
  have "mget (attachXraySniffing c i) k = mget c k" if "k \<noteq> ''sniffing''" for k
    using that by (auto simp: attachXraySniffing_def Let_def mget_append mget_no split: sum.splits)
  then show ?thesis using s by (simp add: sound_inbound_def)
qed

text \<open>
  C30. A generated Xray configuration has one inbound per Xray row, in the order of the rows, with
  the row's tag, its protocol, a listen address and a port other than zero. Every credential in it belongs to an
  enabled client that lists the inbound, and Reality is only used on the RAW, XHTTP and gRPC
  transports.
\<close>

theorem GetAllXrayConfig_sound:
  assumes "GetAllXrayConfig xf db files = (Inr configs, files')"
  shows "list_all2 (sound_inbound db) (filter xray_row (tb_Rows (db_Inbounds db))) configs"
proof -
  have pre: "sound_inbound db (preload_inbound db i) c \<longleftrightarrow> sound_inbound db i c" for i c
    by (simp add: sound_inbound_def preload_inbound_def)
  have "list_all2 (sound_inbound db) rows cs"
    if "mapr_svc (\<lambda>i. bind_svc (build_xray_inbound xf db (preload_inbound db i)) (\<lambda>config.
         lift_svc (Inr (attachXraySniffing config (preload_inbound db i))))) rows fs = (Inr cs, fs')" for rows cs fs fs'
    using that
  proof (induction rows arbitrary: cs fs)
    case (Cons i rows)
    then obtain c cs' fs1 where c: "build_xray_inbound xf db (preload_inbound db i) fs = (Inr c, fs1)"
      and rest: "mapr_svc (\<lambda>i. bind_svc (build_xray_inbound xf db (preload_inbound db i)) (\<lambda>config.
         lift_svc (Inr (attachXraySniffing config (preload_inbound db i))))) rows fs1 = (Inr cs', fs')"
      and cs: "cs = attachXraySniffing c (preload_inbound db i) # cs'"
      by (auto simp: bind_svc_Inr lift_svc_Inr)
    show ?case using sniffing_sound [OF build_sound [OF c]] Cons.IH [OF rest] by (simp add: cs pre)
  qed (simp add: lift_svc_Inr)
  then show ?thesis using assms unfolding GetAllXrayConfig_def by blast
qed

definition xray_example :: panel_db where
  "xray_example = empty_db\<lparr>
     db_Inbounds := \<lparr>tb_Rows = [empty_inbound\<lparr>in_Id := 1, in_Type := ''vless'', in_Tag := ''vless-1'', in_CoreType := ''xray'', in_TlsId := 1,
        in_Options := RVal (GMap [(''listen_port'', GFloat 443), (''transport'', GMap [(''type'', GStr ''grpc'')])])\<rparr>], tb_Seq = 1\<rparr>,
     db_Tls := \<lparr>tb_Rows = [\<lparr>tls_Id = 1, tls_Name = ''r'', tls_Server = RVal (GMap [(''reality'', GMap [(''enabled'', GBool True)])]),
        tls_Client = RNil\<rparr>], tb_Seq = 1\<rparr>,
     db_Clients := \<lparr>tb_Rows = [\<lparr>cl_Id = 1, cl_Enable = True, cl_Name = ''ann'',
        cl_Config = RVal (GMap [(''vless'', GMap [(''uuid'', GStr ''u-1'')])]),
        cl_Inbounds = uints_raw [1], cl_Links = RNil, cl_Volume = 0, cl_Expiry = 0,
        cl_Down = 0, cl_Up = 0, cl_Desc = [], cl_Group = [], cl_Remark = [], cl_CreatedAt = 0, cl_OnlineAt = 0,
        cl_DelayStart = False, cl_AutoReset = False, cl_ResetDays = 0, cl_NextReset = 0, cl_TotalUp = 0, cl_TotalDown = 0\<rparr>], tb_Seq = 1\<rparr>\<rparr>"

theorem GetAllXrayConfig_sound_witness:
  "\<exists>config. list_all2 (sound_inbound xray_example) (filter xray_row (tb_Rows (db_Inbounds xray_example))) [config]
     \<and> mget (as_map (mget config ''streamSettings'')) ''security'' = GStr ''reality''
     \<and> settings_users (as_map (mget config ''settings'')) = [[(''id'', GStr ''u-1''), (''email'', GStr ''ann'')]]"
proof -
  let ?run = "GetAllXrayConfig \<lparr>xf_CertDir = [], xf_Mkdir = None, xf_WriteErr = (\<lambda>_. None)\<rparr> xray_example Map.empty"
  let ?c = "hd (projr (fst ?run))"
  have "fst ?run = Inr [?c] \<and> mget (as_map (mget ?c ''streamSettings'')) ''security'' = GStr ''reality''
      \<and> settings_users (as_map (mget ?c ''settings'')) = [[(''id'', GStr ''u-1''), (''email'', GStr ''ann'')]]" by code_simp
  then obtain config files' where run: "?run = (Inr [config], files')"
    and rest: "mget (as_map (mget config ''streamSettings'')) ''security'' = GStr ''reality''"
      "settings_users (as_map (mget config ''settings'')) = [[(''id'', GStr ''u-1''), (''email'', GStr ''ann'')]]"
    by (cases ?run) auto
  from GetAllXrayConfig_sound [OF run] rest show ?thesis by blast
qed

end
