(* ===== verification/Xray_Runtime.thy ===== *)
theory Xray_Runtime
  imports Go_Values State_Result
begin

text \<open>
  The Xray process (\<^verbatim>\<open>core/xray_runtime.go\<close>). What the operating system and the binary do is given
  by \<open>xray_env\<close>: whether the binary can be run, the files and the process created, whether the
  process exits within the 700 milliseconds \<open>Start\<close> waits, what its test mode reports, what waiting
  for a killed process reports, and whether such a process is still not gone after the two seconds
  \<open>Stop\<close> waits. The state is the command that is noted, by the configuration it was started with,
  whether its process has been killed, and the last error. The command stays noted until the
  goroutine that waits for the process sees its end (\<open>xray_exited\<close>).
\<close>

record xray_env =
  xe_Binary :: "string option"
  xe_Mkdir :: "string option"
  xe_Temp :: "string option"
  xe_Write :: "string option"
  xe_Spawn :: "string option"
  xe_Exits :: "raw \<Rightarrow> string option"
  xe_Test :: "raw \<Rightarrow> string option"
  xe_Version :: "string \<times> string option"
  xe_Killed :: "string option"
  xe_Lingers :: bool

record xray_state =
  xr_Running :: "raw option"
  xr_Killed :: bool
  xr_LastError :: string

type_synonym 'a xray = "xray_state \<Rightarrow> 'a result \<times> xray_state"

definition NewXrayRuntime :: xray_state where
  "NewXrayRuntime = \<lparr>xr_Running = None, xr_Killed = False, xr_LastError = []\<rparr>"

definition xray_IsRunning :: "xray_state \<Rightarrow> bool" where
  "xray_IsRunning r \<longleftrightarrow> xr_Running r \<noteq> None"

text \<open>An error that is remembered.\<close>

definition fail_with :: "string \<Rightarrow> 'a xray" where
  "fail_with e r = (Inl e, r\<lparr>xr_LastError := e\<rparr>)"

definition validateBinary :: "xray_env \<Rightarrow> unit xray" where
  "validateBinary xe r = (case xe_Binary xe of Some e \<Rightarrow> fail_with e r | None \<Rightarrow> (Inr (), r))"

definition xray_Start :: "xray_env \<Rightarrow> raw \<Rightarrow> unit xray" where
  "xray_Start xe config r =
     (if xray_IsRunning r then (Inr (), r)
      else bind_svc (validateBinary xe) (\<lambda>_ r.
        case xe_Mkdir xe of Some e \<Rightarrow> fail_with e r | None \<Rightarrow>
        (case xe_Write xe of Some e \<Rightarrow> fail_with e r | None \<Rightarrow>
        (case xe_Spawn xe of Some e \<Rightarrow> fail_with e r | None \<Rightarrow>
        (case xe_Exits xe config of
           Some e \<Rightarrow> (Inl (''xray exited immediately'' @ (if e = [] then [] else '': '' @ e)), \<lparr>xr_Running = None, xr_Killed = False, xr_LastError = e\<rparr>)
         | None \<Rightarrow> (Inr (), \<lparr>xr_Running = Some config, xr_Killed = False, xr_LastError = []\<rparr>))))) r)"

text \<open>The goroutine of a process that has ended: the error is that of \<^verbatim>\<open>Wait\<close> with the last line of output.\<close>

definition xray_exited :: "string option \<Rightarrow> xray_state \<Rightarrow> xray_state" where
  "xray_exited e r =
     r\<lparr>xr_Running := None, xr_Killed := False, xr_LastError := (case e of Some m \<Rightarrow> m | None \<Rightarrow> xr_LastError r)\<rparr>"

text \<open>
  Cancelling the context of the command kills its process; \<open>Stop\<close> waits for its end, and after two
  seconds kills it again and returns without an error either way.
\<close>

definition xray_kill :: "xray_state \<Rightarrow> xray_state" where
  "xray_kill r = r\<lparr>xr_Killed := True\<rparr>"

definition xray_Stop :: "xray_env \<Rightarrow> unit xray" where
  "xray_Stop xe r =
     (if \<not> xray_IsRunning r then (Inr (), r)
      else let r1 = xray_kill r
           in (Inr (), if xe_Lingers xe then xray_kill r1 else xray_exited (xe_Killed xe) r1))"

definition xray_Restart :: "xray_env \<Rightarrow> raw \<Rightarrow> unit xray" where
  "xray_Restart xe config r = xray_Start xe config (snd (xray_Stop xe r))"

definition xray_Validate :: "xray_env \<Rightarrow> raw \<Rightarrow> unit xray" where
  "xray_Validate xe config =
     bind_svc (validateBinary xe) (\<lambda>_ r.
       case xe_Mkdir xe of Some e \<Rightarrow> (Inl e, r) | None \<Rightarrow>
       (case xe_Temp xe of Some e \<Rightarrow> (Inl e, r) | None \<Rightarrow>
       (case xe_Test xe config of
          Some e \<Rightarrow> fail_with (''xray config validation failed: '' @ e) r
        | None \<Rightarrow> (Inr (), r))))"

definition xray_Version :: "xray_env \<Rightarrow> string xray" where
  "xray_Version xe =
     bind_svc (validateBinary xe) (\<lambda>_ r.
       let (output, err) = xe_Version xe; message = TrimSpace output in
       case err of
         Some e \<Rightarrow> fail_with (if message \<noteq> [] then e @ '': '' @ message else e) r
       | None \<Rightarrow> (Inr (case Cut message [CHR 0x0A] of Some (line, _) \<Rightarrow> TrimSpace line | None \<Rightarrow> message), r))"

section \<open>Facts\<close>

lemma xray_Start_Inr:
  assumes "xray_Start xe config r = (Inr u, r')"
  shows "if xray_IsRunning r then r' = r else r' = \<lparr>xr_Running = Some config, xr_Killed = False, xr_LastError = []\<rparr>"
  using assms by (auto simp: xray_Start_def bind_svc_Inr validateBinary_def fail_with_def split: option.splits if_splits)

lemma xray_Stop_Inr: "xray_Stop xe r = (Inr u, r') \<Longrightarrow> \<not> xe_Lingers xe \<Longrightarrow> xr_Running r' = None"
  by (auto simp: xray_Stop_def xray_IsRunning_def xray_exited_def Let_def split: if_splits)

text \<open>
  What a start needs: a usable binary, its directory and files, and a process that is created and
  outlives the 700 milliseconds.
\<close>

definition can_start :: "xray_env \<Rightarrow> raw \<Rightarrow> bool" where
  "can_start xe config \<longleftrightarrow> xe_Binary xe = None \<and> xe_Mkdir xe = None \<and> xe_Write xe = None \<and> xe_Spawn xe = None \<and> xe_Exits xe config = None"

lemma xray_Start_idle:
  assumes "\<not> xray_IsRunning r"
  shows "can_start xe config \<Longrightarrow> xray_Start xe config r = (Inr (), \<lparr>xr_Running = Some config, xr_Killed = False, xr_LastError = []\<rparr>)"
    and "\<not> can_start xe config \<Longrightarrow> \<exists>e r'. xray_Start xe config r = (Inl e, r') \<and> xr_Running r' = None
      \<and> (e = xr_LastError r' \<or> HasPrefix e ''xray exited immediately'')"
  using assms
  by (auto simp: xray_Start_def bind_svc_def validateBinary_def fail_with_def can_start_def xray_IsRunning_def HasPrefix_def split: option.splits)

text \<open>
  C32. Every outcome of a restart. When no old process is left, the restart succeeds exactly when the
  new process starts and stays, and then runs the new configuration; otherwise it reports the error
  of the start and nothing runs. When the old process, though killed, is still not gone after the two
  seconds, the restart reports success, but no new process is started: what is noted as running
  is the killed process, and when it is gone, nothing runs.
\<close>

theorem xray_Restart_result:
  "case xray_Restart xe config r of (res, r') \<Rightarrow>
     (if xray_IsRunning r \<and> xe_Lingers xe
      then res = Inr () \<and> r' = r\<lparr>xr_Killed := True\<rparr> \<and> \<not> xray_IsRunning (xray_exited e r')
      else case res of
        Inr _ \<Rightarrow> can_start xe config \<and> r' = \<lparr>xr_Running = Some config, xr_Killed = False, xr_LastError = []\<rparr>
      | Inl m \<Rightarrow> \<not> can_start xe config \<and> \<not> xray_IsRunning r' \<and> (m = xr_LastError r' \<or> HasPrefix m ''xray exited immediately''))"
proof (cases "xray_IsRunning r \<and> xe_Lingers xe")
  case True
  then have "xray_Restart xe config r = (Inr (), r\<lparr>xr_Killed := True\<rparr>)"
    by (auto simp: xray_Restart_def xray_Stop_def xray_Start_def xray_kill_def xray_IsRunning_def)
  then show ?thesis using True by (simp add: xray_IsRunning_def xray_exited_def)
next
  case False
  let ?r = "snd (xray_Stop xe r)"
  have idle: "\<not> xray_IsRunning ?r" using False by (auto simp: xray_Stop_def xray_IsRunning_def xray_exited_def Let_def)
  show ?thesis
  proof (cases "can_start xe config")
    case True
    then have "xray_Restart xe config r = (Inr (), \<lparr>xr_Running = Some config, xr_Killed = False, xr_LastError = []\<rparr>)"
      using xray_Start_idle(1) [OF idle] by (simp add: xray_Restart_def)
    then show ?thesis using True unfolding if_not_P [OF False] by simp
  next
    case no: False
    obtain m r' where "xray_Start xe config ?r = (Inl m, r')" "xr_Running r' = None" "m = xr_LastError r' \<or> HasPrefix m ''xray exited immediately''"
      using xray_Start_idle(2) [OF idle no] by blast
    then show ?thesis using no unfolding if_not_P [OF False] by (simp add: xray_Restart_def xray_IsRunning_def)
  qed
qed

definition example_xray :: xray_env where
  "example_xray = \<lparr>xe_Binary = None, xe_Mkdir = None, xe_Temp = None, xe_Write = None, xe_Spawn = None,
     xe_Exits = (\<lambda>_. None), xe_Test = (\<lambda>_. None), xe_Version = ([], None), xe_Killed = Some ''signal: killed'', xe_Lingers = True\<rparr>"

theorem xray_Restart_result_witness:
  "\<exists>r'. xray_Restart example_xray (RVal (GInt 2)) \<lparr>xr_Running = Some (RVal (GInt 1)), xr_Killed = False, xr_LastError = []\<rparr> = (Inr (), r')
     \<and> xr_Running r' = Some (RVal (GInt 1)) \<and> xr_Killed r'"
proof -
  let ?r = "\<lparr>xr_Running = Some (RVal (GInt 1)), xr_Killed = False, xr_LastError = []\<rparr>"
  have "xray_IsRunning ?r \<and> xe_Lingers example_xray" by code_simp
  with xray_Restart_result [where xe = example_xray and config = "RVal (GInt 2)" and r = ?r and e = None] show ?thesis
    by (cases "xray_Restart example_xray (RVal (GInt 2)) ?r") simp
qed

end
