(* ===== verification/Config_Service.thy ===== *)
theory Config_Service
  imports Objects_Service Settings_Service Xray_Config Xray_Runtime
begin

text \<open>
  The configuration service (\<^verbatim>\<open>service/config.go\<close>): the whole sing-box configuration, starting and
  stopping the two cores, and the transaction that saves one object, records the change, and
  either commits and brings the cores up to date or rolls back and restores them.

  The state \<open>panel\<close> is the committed database, the running core, the Xray process, the
  certificate files and the service's variables; times are in milliseconds, one reading of the
  clock (\<open>cf_Now\<close>) per operation. \<^verbatim>\<open>corePtr\<close> and \<^verbatim>\<open>xrayPtr\<close> are set, as after \<open>NewConfigService\<close>.
\<close>

record config_env =
  cf_Svc :: svc_env
  cf_Settings :: setting_env
  cf_XrayEnv :: xray_env
  cf_XrayFiles :: xray_files
  cf_XrayDisabled :: bool
  cf_SkipCore :: bool
  cf_Now :: int
  cf_Begin :: "string option"
  cf_CreateChange :: "string option"
  cf_Commit :: "string option"

record panel =
  pn_Db :: panel_db
  pn_Core :: core_state
  pn_Xray :: xray_state
  pn_Files :: file_store
  pn_Busy :: bool
  pn_LastStartFail :: "int option"
  pn_LastUpdate :: int

type_synonym 'a panel_op = "panel \<Rightarrow> 'a result \<times> panel"

definition on_core :: "'a svc \<Rightarrow> 'a panel_op" where
  "on_core m p = (let (r, core) = m (pn_Core p) in (r, p\<lparr>pn_Core := core\<rparr>))"

definition on_xray :: "'a xray \<Rightarrow> 'a panel_op" where
  "on_xray m p = (let (r, x) = m (pn_Xray p) in (r, p\<lparr>pn_Xray := x\<rparr>))"

definition on_files :: "'a xbuild \<Rightarrow> 'a panel_op" where
  "on_files m p = (let (r, files) = m (pn_Files p) in (r, p\<lparr>pn_Files := files\<rparr>))"

definition running :: "panel \<Rightarrow> bool" where
  "running p \<longleftrightarrow> co_Running (pn_Core p)"

text \<open>The flag \<^verbatim>\<open>startCoreInProgress\<close>: a second operation is refused, the flag is always taken back.\<close>

definition guarded :: "unit panel_op \<Rightarrow> unit panel_op" where
  "guarded m p =
     (if pn_Busy p then (NewError ''core operation already in progress'', p)
      else let (r, p') = m (p\<lparr>pn_Busy := True\<rparr>) in (r, p'\<lparr>pn_Busy := False\<rparr>))"

section \<open>The sing-box configuration\<close>

definition raw_list :: "raw list \<Rightarrow> gval" where
  "raw_list cfgs = (if cfgs = [] then GNil else GList (map raw_val cfgs))"

text \<open>\<^verbatim>\<open>SingBoxConfig\<close>: four of the fields are arrays, the others any JSON.\<close>

definition SingBoxConfig_of :: "raw \<Rightarrow> gmap result" where
  "SingBoxConfig_of r = (case decode_map r of
     None \<Rightarrow> Inl json_err
   | Some m \<Rightarrow>
       if list_all (\<lambda>k. case mget m k of GList _ \<Rightarrow> True | GNil \<Rightarrow> True | _ \<Rightarrow> False)
            [''inbounds'', ''outbounds'', ''services'', ''endpoints'']
       then Inr m else Inl json_err)"

definition stored_config :: "panel_db \<Rightarrow> raw" where
  "stored_config db = (case db_Config db of None \<Rightarrow> RVal (GMap defaultConfig) | Some r \<Rightarrow> r)"

definition GetConfigWithDB :: "raw \<Rightarrow> panel_db \<Rightarrow> raw result" where
  "GetConfigWithDB data db =
     bindr (SingBoxConfig_of (if data = RNil then stored_config db else data)) (\<lambda>m.
     bindr (Inbounds_GetAllConfig db) (\<lambda>inb.
     bindr (Outbounds_GetAllConfig db) (\<lambda>outb.
     bindr (Services_GetAllConfig db) (\<lambda>svc.
     bindr (Endpoints_GetAllConfig db) (\<lambda>ep.
       Inr (RVal (GMap [(''log'', mget m ''log''), (''dns'', mget m ''dns''), (''ntp'', mget m ''ntp''),
         (''inbounds'', raw_list inb), (''outbounds'', raw_list outb), (''services'', raw_list svc),
         (''endpoints'', raw_list ep), (''route'', mget m ''route''), (''experimental'', mget m ''experimental'')])))))))"

definition start_singbox :: "config_env \<Rightarrow> raw \<Rightarrow> unit panel_op" where
  "start_singbox env data p =
     (case GetConfigWithDB data (pn_Db p) of
        Inl e \<Rightarrow> (Inl e, p)
      | Inr cfg \<Rightarrow> on_core (core_Start (sv_CoreEnv (cf_Svc env)) cfg) p)"

section \<open>The Xray core\<close>

definition stop_xray :: "config_env \<Rightarrow> unit panel_op" where
  "stop_xray env = on_xray (xray_Stop (cf_XrayEnv env))"

definition ensureXrayCore :: "config_env \<Rightarrow> bool \<Rightarrow> bool \<Rightarrow> unit panel_op" where
  "ensureXrayCore env restart manual p =
     (if cf_XrayDisabled env then
        bind_svc (if xray_IsRunning (pn_Xray p) then stop_xray env else lift_svc (Inr ())) (\<lambda>_.
          lift_svc (if manual then NewError ''Xray-core is disabled on this low-resource server; use sing-box'' else Inr ())) p
      else if \<not> hasXrayInbounds (pn_Db p) then
        (if xray_IsRunning (pn_Xray p) then stop_xray env p
         else (if manual then NewError ''no Xray-core inbound configured; create an inbound with Core = Xray-core first'' else Inr (), p))
      else bind_svc (on_files (getXrayConfig (cf_XrayFiles env) (pn_Db p))) (\<lambda>cfg p.
        if restart then on_xray (xray_Restart (cf_XrayEnv env) cfg) p
        else if \<not> xray_IsRunning (pn_Xray p) then on_xray (xray_Start (cf_XrayEnv env) cfg) p
        else (Inr (), p)) p)"

definition validateXrayConfig :: "config_env \<Rightarrow> panel_db \<Rightarrow> unit panel_op" where
  "validateXrayConfig env db =
     (if \<not> hasXrayInbounds db then lift_svc (Inr ())
      else if cf_XrayDisabled env then
        lift_svc (NewError ''Xray-core is disabled on this low-resource server; choose sing-box for the inbound'')
      else bind_svc (on_files (getXrayConfig (cf_XrayFiles env) db)) (\<lambda>cfg. on_xray (xray_Validate (cf_XrayEnv env) cfg)))"

definition restartXrayCore :: "config_env \<Rightarrow> bool \<Rightarrow> unit panel_op" where
  "restartXrayCore env manual = guarded (ensureXrayCore env True manual)"

definition RestartXrayCoreIfNeeded :: "config_env \<Rightarrow> unit panel_op" where
  "RestartXrayCoreIfNeeded env = restartXrayCore env False"

definition RestartXrayCore :: "config_env \<Rightarrow> unit panel_op" where
  "RestartXrayCore env = restartXrayCore env True"

definition StartXrayCoreIfNeeded :: "config_env \<Rightarrow> unit panel_op" where
  "StartXrayCoreIfNeeded env = guarded (ensureXrayCore env False False)"

section \<open>Starting and stopping\<close>

definition startCooldown :: int where
  "startCooldown = 15000"

text \<open>\<open>d.Round(time.Second)\<close>, printed.\<close>

definition seconds_text :: "int \<Rightarrow> string" where
  "seconds_text ms = Itoa ((ms + 500) div 1000) @ ''s''"

text \<open>A failed start is remembered for the cooldown.\<close>

definition note_failure :: "config_env \<Rightarrow> unit panel_op \<Rightarrow> unit panel_op" where
  "note_failure env m p = (case m p of
     (Inl e, p') \<Rightarrow> (Inl e, p'\<lparr>pn_LastStartFail := Some (cf_Now env)\<rparr>)
   | (Inr u, p') \<Rightarrow> (Inr u, p'))"

definition start_both :: "config_env \<Rightarrow> unit panel_op" where
  "start_both env p =
     bind_svc (if running p then lift_svc (Inr ()) else (\<lambda>p. case GetConfigWithDB RNil (pn_Db p) of
         Inl e \<Rightarrow> (Inl e, p)
       | Inr cfg \<Rightarrow> note_failure env (on_core (core_Start (sv_CoreEnv (cf_Svc env)) cfg)) p)) (\<lambda>_.
       note_failure env (ensureXrayCore env False False)) p"

definition StartCore :: "config_env \<Rightarrow> unit panel_op" where
  "StartCore env p =
     (if pn_Busy p then (NewError ''core operation already in progress'', p)
      else case pn_LastStartFail p of
        Some t \<Rightarrow>
          if cf_Now env - t < startCooldown
          then (NewErrorf (''core restart cooldown active: '' @ seconds_text (startCooldown - (cf_Now env - t)) @ '' remaining''), p)
          else guarded (start_both env) p
      | None \<Rightarrow> guarded (start_both env) p)"

text \<open>sing-box is stopped whatever stopping Xray gave, and the later error is the one reported.\<close>

definition StopCore :: "config_env \<Rightarrow> unit panel_op" where
  "StopCore env p =
     (let (r1, p1) = stop_xray env p; (r2, p2) = on_core (core_Stop (sv_CoreEnv (cf_Svc env))) p1
      in (case r2 of Inl e \<Rightarrow> Inl e | Inr _ \<Rightarrow> r1, p2))"

lemma StopCore_bind: "StopCore env = bind_svc (stop_xray env) (\<lambda>_. on_core (core_Stop (sv_CoreEnv (cf_Svc env))))"
proof
  fix p :: panel
  obtain p1 where "stop_xray env p = (Inr (), p1)" by (cases "xray_Stop (cf_XrayEnv env) (pn_Xray p)") (auto simp: stop_xray_def on_xray_def xray_Stop_def Let_def split: if_splits)
  then show "StopCore env p = bind_svc (stop_xray env) (\<lambda>_. on_core (core_Stop (sv_CoreEnv (cf_Svc env)))) p"
    by (simp add: StopCore_def bind_svc_def split: prod.split sum.split)
qed

definition RestartCore :: "config_env \<Rightarrow> unit panel_op" where
  "RestartCore env = bind_svc (StopCore env) (\<lambda>_ p. StartCore env (p\<lparr>pn_LastStartFail := None\<rparr>))"

definition stop_if_running :: "config_env \<Rightarrow> unit panel_op" where
  "stop_if_running env p = (if running p then on_core (core_Stop (sv_CoreEnv (cf_Svc env))) p else (Inr (), p))"

definition restartSingBoxCore :: "config_env \<Rightarrow> unit panel_op" where
  "restartSingBoxCore env = guarded (bind_svc (stop_if_running env) (\<lambda>_. start_singbox env RNil))"

definition restartCoreWithConfig :: "config_env \<Rightarrow> raw \<Rightarrow> unit panel_op" where
  "restartCoreWithConfig env config =
     guarded (bind_svc (stop_if_running env) (\<lambda>_. bind_svc (start_singbox env config) (\<lambda>_. ensureXrayCore env False False)))"

section \<open>Which changes concern Xray\<close>

definition not_found :: "'a result" where
  "not_found = Inl ''record not found''"

definition inboundIDsContainXray :: "panel_db \<Rightarrow> nat list \<Rightarrow> bool" where
  "inboundIDsContainXray db ids \<longleftrightarrow> list_ex (\<lambda>i. in_Id i \<in> set ids \<and> xray_row i) (tb_Rows (db_Inbounds db))"

definition inboundChangeAffectsXray :: "panel_db \<Rightarrow> string \<Rightarrow> raw \<Rightarrow> bool result" where
  "inboundChangeAffectsXray db act data =
     (if act = ''new'' \<or> act = ''edit'' then
        bindr (Inbound_UnmarshalJSON empty_inbound data) (\<lambda>i.
          if RuntimeCore i = CoreTypeXray then Inr True
          else if act = ''new'' then Inr False
          else case find_row in_Id (in_Id i) (db_Inbounds db) of
            None \<Rightarrow> not_found | Some old \<Rightarrow> Inr (RuntimeCore old = CoreTypeXray))
      else if act = ''del'' then
        bindr (str_of_raw data) (\<lambda>tag.
          case find (\<lambda>i. in_Tag i = tag) (tb_Rows (db_Inbounds db)) of
            None \<Rightarrow> not_found | Some i \<Rightarrow> Inr (RuntimeCore i = CoreTypeXray))
      else Inr False)"

definition tlsChangeAffectsXray :: "panel_db \<Rightarrow> string \<Rightarrow> raw \<Rightarrow> bool result" where
  "tlsChangeAffectsXray db act data =
     (if act \<noteq> ''new'' \<and> act \<noteq> ''edit'' then Inr False
      else bindr (Tls_of_JSON data) (\<lambda>t.
        Inr (tls_Id t \<noteq> 0 \<and> list_ex (\<lambda>i. in_TlsId i = tls_Id t \<and> xray_row i) (tb_Rows (db_Inbounds db)))))"

section \<open>Saving an object\<close>

record saved =
  sd_Db :: panel_db
  sd_Objs :: "string list"
  sd_Xray :: bool
  sd_Config :: "raw option"

definition saved_as :: "panel_db \<Rightarrow> string list \<Rightarrow> bool \<Rightarrow> saved" where
  "saved_as db objs xray = \<lparr>sd_Db = db, sd_Objs = objs, sd_Xray = xray, sd_Config = None\<rparr>"

definition wrap_svc :: "string \<Rightarrow> unit svc \<Rightarrow> unit svc" where
  "wrap_svc msg m core = (case m core of (Inl e, core') \<Rightarrow> (NewErrorf (msg @ e), core') | (Inr u, core') \<Rightarrow> (Inr u, core'))"

text \<open>The part of \<open>saveLocked\<close> inside the transaction, up to the check of the Xray configuration.\<close>

definition save_object :: "config_env \<Rightarrow> string \<Rightarrow> string \<Rightarrow> raw \<Rightarrow> string \<Rightarrow> string \<Rightarrow> panel_db \<Rightarrow> saved svc" where
  "save_object env obj act data userIds hostname db =
     (let sv = cf_Svc env in
      if obj = ''clients'' then
        bind_svc (lift_svc (Clients_Save (sv_Client sv) db act data hostname)) (\<lambda>(ids, db').
          if ids = [] then lift_svc (Inr (saved_as db' [obj] False))
          else bind_svc (wrap_svc ''failed to update users for inbounds: '' (RestartInbounds sv db' ids)) (\<lambda>_.
            lift_svc (Inr (saved_as db' [obj, ''inbounds''] (inboundIDsContainXray db' ids)))))
      else if obj = ''tls'' then
        bind_svc (Tls_Save sv db act data hostname) (\<lambda>db'.
        bind_svc (lift_svc (tlsChangeAffectsXray db' act data)) (\<lambda>xray.
          lift_svc (Inr (saved_as db' [obj, ''clients'', ''inbounds''] xray))))
      else if obj = ''inbounds'' then
        bind_svc (lift_svc (inboundChangeAffectsXray db act data)) (\<lambda>xray.
        bind_svc (Inbounds_Save sv db act data userIds hostname) (\<lambda>db'.
          lift_svc (Inr (saved_as db' [obj, ''clients''] xray))))
      else if obj = ''outbounds'' then
        bind_svc (Outbounds_Save sv db act data) (\<lambda>db'. lift_svc (Inr (saved_as db' [obj] False)))
      else if obj = ''services'' then
        bind_svc (Services_Save sv db act data) (\<lambda>db'. lift_svc (Inr (saved_as db' [obj] False)))
      else if obj = ''endpoints'' then
        bind_svc (Endpoints_Save sv db act data) (\<lambda>db'. lift_svc (Inr (saved_as db' [obj] False)))
      else if obj = ''config'' then
        lift_svc (bindr (SaveConfig data db) (\<lambda>db'. Inr ((saved_as db' [obj] False)\<lparr>sd_Config := Some data\<rparr>)))
      else if obj = ''settings'' then
        lift_svc (bindr (Settings_Save (cf_Settings env) db data) (\<lambda>db'. Inr (saved_as db' [obj] False)))
      else lift_svc (NewError (''unknown object:  '' @ obj)))"

definition runtimeMayHaveChanged :: "string \<Rightarrow> bool" where
  "runtimeMayHaveChanged obj \<longleftrightarrow> obj \<in> {''clients'', ''tls'', ''inbounds'', ''outbounds'', ''services'', ''endpoints''}"

definition change_row :: "config_env \<Rightarrow> string \<Rightarrow> string \<Rightarrow> raw \<Rightarrow> string \<Rightarrow> change" where
  "change_row env obj act data loginUser = \<lparr>ch_DateTime = cf_Now env div 1000, ch_Actor = loginUser, ch_Key = obj,
     ch_Action = act, ch_Obj = data\<rparr>"

definition opt_error :: "string option \<Rightarrow> unit result" where
  "opt_error e = (case e of Some m \<Rightarrow> Inl m | None \<Rightarrow> Inr ())"

text \<open>The transaction; the database of the state only changes with its commit.\<close>

definition save_transaction ::
  "config_env \<Rightarrow> string \<Rightarrow> string \<Rightarrow> raw \<Rightarrow> string \<Rightarrow> string \<Rightarrow> string \<Rightarrow> saved panel_op" where
  "save_transaction env obj act data userIds loginUser hostname p0 =
     bind_svc (on_core (save_object env obj act data userIds hostname (pn_Db p0))) (\<lambda>s.
     bind_svc (if sd_Xray s then validateXrayConfig env (sd_Db s) else lift_svc (Inr ())) (\<lambda>_.
     bind_svc (lift_svc (opt_error (cf_CreateChange env))) (\<lambda>_.
     bind_svc (lift_svc (opt_error (cf_Commit env))) (\<lambda>_ p.
       (Inr s, p\<lparr>pn_Db := add_change (change_row env obj act data loginUser) (sd_Db s),
                 pn_LastUpdate := cf_Now env\<rparr>))))) p0"

definition restore_core :: "config_env \<Rightarrow> string \<Rightarrow> string \<Rightarrow> string list panel_op" where
  "restore_core env obj e p =
     (if runtimeMayHaveChanged obj \<and> running p then
        (case restartSingBoxCore env p of
           (Inl e', p') \<Rightarrow> (NewErrorf (e @ ''; failed to restore core: '' @ e'), p')
         | (Inr _, p') \<Rightarrow> (Inl e, p'))
      else (Inl e, p))"

definition update_cores :: "config_env \<Rightarrow> saved \<Rightarrow> unit panel_op" where
  "update_cores env s p = (case sd_Config s of
     Some config \<Rightarrow> if cf_SkipCore env \<and> \<not> running p then (Inr (), p) else restartCoreWithConfig env config p
   | None \<Rightarrow>
       if \<not> running p then
         (if cf_SkipCore env then
            (if sd_Xray s \<and> xray_IsRunning (pn_Xray p) then RestartXrayCoreIfNeeded env p else (Inr (), p))
          else StartCore env p)
       else if sd_Xray s then RestartXrayCoreIfNeeded env p else (Inr (), p))"

definition saveLocked ::
  "config_env \<Rightarrow> string \<Rightarrow> string \<Rightarrow> raw \<Rightarrow> string \<Rightarrow> string \<Rightarrow> string \<Rightarrow> string list panel_op" where
  "saveLocked env obj act data userIds loginUser hostname p =
     (case cf_Begin env of Some e \<Rightarrow> (Inl e, p) | None \<Rightarrow>
      (case save_transaction env obj act data userIds loginUser hostname p of
         (Inl e, p1) \<Rightarrow> restore_core env obj e p1
       | (Inr s, p1) \<Rightarrow>
           (case update_cores env s p1 of
              (Inl e, p2) \<Rightarrow> (NewErrorf (''configuration saved, but core update failed: '' @ e), p2)
            | (Inr _, p2) \<Rightarrow> (Inr (sd_Objs s), p2))))"

text \<open>\<^verbatim>\<open>MAX(id)\<close> of the changes: their ids count from one and no change is ever deleted.\<close>

definition CurrentRevision :: "panel \<Rightarrow> nat" where
  "CurrentRevision p = length (db_Changes (pn_Db p))"

definition revision_conflict :: string where
  "revision_conflict = ''configuration changed on the managed server; reload before saving''"

definition SaveWithRevision ::
  "config_env \<Rightarrow> nat \<Rightarrow> string \<Rightarrow> string \<Rightarrow> raw \<Rightarrow> string \<Rightarrow> string \<Rightarrow> string \<Rightarrow> panel \<Rightarrow> (string list result \<times> nat) \<times> panel" where
  "SaveWithRevision env expected obj act data userIds loginUser hostname p =
     (if CurrentRevision p \<noteq> expected then ((Inl revision_conflict, CurrentRevision p), p)
      else case saveLocked env obj act data userIds loginUser hostname p of
        (Inl e, p') \<Rightarrow> ((Inl e, CurrentRevision p), p')
      | (Inr objs, p') \<Rightarrow> ((Inr objs, CurrentRevision p'), p'))"

section \<open>Asking for changes\<close>

definition CheckChanges :: "config_env \<Rightarrow> string \<Rightarrow> bool panel_op" where
  "CheckChanges env lu p =
     (if lu = [] then (Inr True, p)
      else case parse_int ''ParseInt'' lu of
        Inl e \<Rightarrow> (Inl e, p)
      | Inr intLu \<Rightarrow>
          if pn_LastUpdate p = 0 then
            (let changeTime = (if intLu > 1000000000000 then intLu div 1000 else intLu) in
             (Inr (list_ex (\<lambda>c. ch_DateTime c > changeTime) (db_Changes (pn_Db p))), p\<lparr>pn_LastUpdate := cf_Now env\<rparr>))
          else (Inr (pn_LastUpdate p > intLu), p))"

definition GetChanges :: "panel_db \<Rightarrow> string \<Rightarrow> string \<Rightarrow> string \<Rightarrow> change list" where
  "GetChanges db actor chngKey count =
     (let c = (case Atoi count of Some i \<Rightarrow> i | None \<Rightarrow> 0);
          rows = rev (filter (\<lambda>ch. (actor \<noteq> [] \<longrightarrow> ch_Actor ch = actor) \<and> (chngKey \<noteq> [] \<longrightarrow> ch_Key ch = chngKey)) (db_Changes db))
      in if c > 0 then take (nat c) rows else rows)"

end
