(* ===== verification/Config_Start.thy ===== *)
theory Config_Start
  imports Config_Service Client_Reload
begin

text \<open>
  Starting the core: the configuration built from the database, once the core has taken it, gives
  exactly the items the hot changes aim at (\<open>expected\<close>).
\<close>

lemma raw_list_items: "as_list (raw_list cfgs) = map raw_val cfgs"
  by (simp add: raw_list_def as_list_def)

lemma Inbounds_configured:
  assumes "Inbounds_GetAllConfig db = Inr cfgs" "list_all clean_inbound (tb_Rows (db_Inbounds db))"
  shows "map_of (map (\<lambda>v. (tag_of (as_map v), as_map v)) (map raw_val cfgs)) = expected db Inbounds"
  unfolding expected_def core_kind.case
  by (rule listed_configured) (use assms in \<open>auto simp: Inbounds_GetAllConfig_def list_all_iff intro: inbound_config_tag\<close>)

lemma Outbounds_configured:
  assumes "Outbounds_GetAllConfig db = Inr cfgs" "list_all clean_outbound (tb_Rows (db_Outbounds db))"
  shows "map_of (map (\<lambda>v. (tag_of (as_map v), as_map v)) (map raw_val cfgs)) = expected db Outbounds"
  unfolding expected_def core_kind.case
  by (rule listed_configured) (use assms in \<open>auto simp: Outbounds_GetAllConfig_def list_all_iff intro: Outbound_config\<close>)

lemma Endpoints_configured:
  assumes "Endpoints_GetAllConfig db = Inr cfgs" "list_all clean_endpoint (tb_Rows (db_Endpoints db))"
  shows "map_of (map (\<lambda>v. (tag_of (as_map v), as_map v)) (map raw_val cfgs)) = expected db Endpoints"
  unfolding expected_def core_kind.case
  by (rule listed_configured) (use assms in \<open>auto simp: Endpoints_GetAllConfig_def list_all_iff intro: Endpoint_config\<close>)

lemma Services_configured:
  assumes "Services_GetAllConfig db = Inr cfgs" "list_all clean_service (tb_Rows (db_Services db))"
  shows "map_of (map (\<lambda>v. (tag_of (as_map v), as_map v)) (map raw_val cfgs)) = expected db Services"
  unfolding expected_def core_kind.case
  by (rule listed_configured) (use assms in \<open>auto simp: Services_GetAllConfig_def list_all_iff intro: service_config_tag\<close>)

lemma GetConfigWithDB_items:
  assumes "GetConfigWithDB data db = Inr cfg" "db_clean db"
  shows "\<exists>m. cfg = RVal (GMap m) \<and> listed_items m = expected db"
proof -
  obtain m inb outb svc ep where parts: "Inbounds_GetAllConfig db = Inr inb" "Outbounds_GetAllConfig db = Inr outb"
      "Services_GetAllConfig db = Inr svc" "Endpoints_GetAllConfig db = Inr ep"
    and cfg: "cfg = RVal (GMap [(''log'', mget m ''log''), (''dns'', mget m ''dns''), (''ntp'', mget m ''ntp''),
         (''inbounds'', raw_list inb), (''outbounds'', raw_list outb), (''services'', raw_list svc),
         (''endpoints'', raw_list ep), (''route'', mget m ''route''), (''experimental'', mget m ''experimental'')])"
    using assms(1) by (auto simp: GetConfigWithDB_def bindr_Inr_iff)
  have clean: "list_all clean_inbound (tb_Rows (db_Inbounds db))" "list_all clean_outbound (tb_Rows (db_Outbounds db))"
    "list_all clean_endpoint (tb_Rows (db_Endpoints db))" "list_all clean_service (tb_Rows (db_Services db))"
    using assms(2) by (simp_all add: db_clean_def)
  let ?m = "[(''log'', mget m ''log''), (''dns'', mget m ''dns''), (''ntp'', mget m ''ntp''),
         (''inbounds'', raw_list inb), (''outbounds'', raw_list outb), (''services'', raw_list svc),
         (''endpoints'', raw_list ep), (''route'', mget m ''route''), (''experimental'', mget m ''experimental'')]"
  have get: "mget ?m ''inbounds'' = raw_list inb" "mget ?m ''outbounds'' = raw_list outb"
    "mget ?m ''services'' = raw_list svc" "mget ?m ''endpoints'' = raw_list ep"
    by (simp_all add: mget_def)
  have "listed_items ?m k = expected db k" for k
    using Inbounds_configured [OF parts(1) clean(1)] Outbounds_configured [OF parts(2) clean(2)]
      Endpoints_configured [OF parts(4) clean(3)] Services_configured [OF parts(3) clean(4)]
    by (cases k) (simp_all only: listed_items_def kind_key_def core_kind.case get raw_list_items)
  then show ?thesis using cfg by blast
qed

lemma started_items:
  assumes "GetConfigWithDB data db = Inr cfg" "core_Start cv cfg core = (Inr u, core')" "db_clean db"
  shows "co_Running core' \<and> co_Items core' = expected db"
  using GetConfigWithDB_items [OF assms(1,3)] assms(2) by (auto simp: core_Start_def as_config_def split: option.splits)

lemma started_agrees:
  assumes "GetConfigWithDB data db = Inr cfg" "core_Start cv cfg core = (Inr u, core')" "db_clean db"
  shows "agrees db core'"
  using started_items [OF assms] by (simp add: agrees_def)

section \<open>The operations of the service\<close>

text \<open>Every operation that only drives the cores leaves the database alone.\<close>

definition kept :: "panel \<Rightarrow> panel_db \<times> int" where
  "kept p = (pn_Db p, pn_LastUpdate p)"

lemma kept_upd [simp]:
  "kept (p\<lparr>pn_Core := c\<rparr>) = kept p" "kept (p\<lparr>pn_Xray := x\<rparr>) = kept p" "kept (p\<lparr>pn_Files := f\<rparr>) = kept p"
  "kept (p\<lparr>pn_Busy := b\<rparr>) = kept p" "kept (p\<lparr>pn_LastStartFail := t\<rparr>) = kept p"
  by (simp_all add: kept_def)

lemma bind_svc_snd: "snd (bind_svc m f p) = (case fst (m p) of Inl e \<Rightarrow> snd (m p) | Inr x \<Rightarrow> snd (f x (snd (m p))))"
  by (simp add: bind_svc_def split: prod.split sum.split)

lemma kept_on [simp]:
  "kept (snd (on_core m p)) = kept p" "kept (snd (on_xray x p)) = kept p" "kept (snd (on_files f p)) = kept p"
  "kept (snd (lift_svc r p)) = kept p"
  by (simp_all add: on_core_def on_xray_def on_files_def lift_svc_def split: prod.split)

lemma kept_bind: "kept (snd (m p)) = kept p \<Longrightarrow> (\<And>x q. kept (snd (f x q)) = kept q) \<Longrightarrow> kept (snd (bind_svc m f p)) = kept p"
  by (simp add: bind_svc_snd split: sum.split)

lemma kept_guarded: "(\<And>q. kept (snd (m q)) = kept q) \<Longrightarrow> kept (snd (guarded m p)) = kept p"
  by (simp add: guarded_def Let_def split_beta)

lemma kept_note: "kept (snd (m p)) = kept p \<Longrightarrow> kept (snd (note_failure env m p)) = kept p"
  by (auto simp: note_failure_def split: prod.split sum.split)

lemma kept_ensure [simp]: "kept (snd (ensureXrayCore env restart manual p)) = kept p"
  by (simp add: ensureXrayCore_def stop_xray_def kept_bind)

lemma kept_stop [simp]: "kept (snd (stop_if_running env p)) = kept p" "kept (snd (StopCore env p)) = kept p"
  by (simp_all add: stop_if_running_def StopCore_bind stop_xray_def kept_bind)

lemma kept_start [simp]: "kept (snd (start_singbox env data p)) = kept p" "kept (snd (start_both env p)) = kept p"
  by (simp_all add: start_singbox_def start_both_def kept_bind kept_note split: sum.split)

lemma kept_ops [simp]:
  "kept (snd (StartCore env p)) = kept p" "kept (snd (restartSingBoxCore env p)) = kept p"
  "kept (snd (restartCoreWithConfig env config p)) = kept p" "kept (snd (restartXrayCore env manual p)) = kept p"
  "kept (snd (validateXrayConfig env db p)) = kept p" "kept (snd (StartXrayCoreIfNeeded env p)) = kept p"
  by (simp_all add: StartCore_def restartSingBoxCore_def restartCoreWithConfig_def restartXrayCore_def validateXrayConfig_def
      StartXrayCoreIfNeeded_def kept_bind kept_guarded split: option.split)

lemma kept_restart [simp]: "kept (snd (RestartCore env p)) = kept p"
  by (simp add: RestartCore_def kept_bind)

end
