(* ===== verification/Tls_Agreement.thy ===== *)
theory Tls_Agreement
  imports Client_Reload
begin

text \<open>
  Saving a TLS configuration: the links of the clients and the outbound descriptions of its
  inbounds are written again, and the inbounds and services that use it are restarted. Again the
  core ends up with what a restart would give. The first part, on changes no configuration
  shows, is also used for inbounds.
\<close>

section \<open>Saving copies of clients\<close>

lemma each_saved:
  assumes ok: "table_ok cl_Id (db_Clients db)" and cs: "set cs \<subseteq> set (tb_Rows (db_Clients db))" "distinct (map cl_Id cs)"
    and key: "\<And>c l. cl_Id (h c l) = cl_Id c"
    and run: "eachr (\<lambda>c db. bindr (g c) (\<lambda>l. Inr (save_client (h c l) db))) cs db = Inr db'"
  shows "\<exists>l. (\<forall>c\<in>set cs. g c = Inr (l c)) \<and> db' = db\<lparr>db_Clients := update_rows (\<lambda>c. c \<in> set cs) (\<lambda>c. h c (l c)) (db_Clients db)\<rparr>"
proof -
  let ?l = "\<lambda>c. projr (g c)"
  have run': "(\<forall>c\<in>set cs. g c = Inr (?l c)) \<and> db' = db\<lparr>db_Clients := foldl (\<lambda>t c. save_row cl_Id (\<lambda>k. with_cl_Id k) c t) (db_Clients db) (map (\<lambda>c. h c (?l c)) cs)\<rparr>"
    using run
  proof (induction cs arbitrary: db)
    case (Cons c cs)
    then obtain l where l: "g c = Inr l" "eachr (\<lambda>c db. bindr (g c) (\<lambda>l. Inr (save_client (h c l) db))) cs (save_client (h c l) db) = Inr db'"
      by (auto simp: bindr_Inr_iff)
    show ?case using Cons.IH [OF l(2)] l(1) by (simp add: save_client_def)
  qed simp
  then show ?thesis
    using clients.save_changed [OF ok cs(2,1), of "\<lambda>c. h c (?l c)"] key by (intro exI [of _ ?l]) simp
qed

lemma contributions_updated:
  assumes "\<And>c. c \<in> set (tb_Rows t) \<Longrightarrow> P c \<Longrightarrow> contribution i (f c) = contribution i c"
  shows "contributions i (update_rows P f t) = contributions i t"
proof -
  have "List.map_filter g (map (\<lambda>c. if P c then f c else c) rows) = List.map_filter g rows"
    if "\<And>c. c \<in> set rows \<Longrightarrow> P c \<Longrightarrow> g (f c) = g c" for g :: "client \<Rightarrow> raw option" and rows
    using that by (induction rows) (auto simp: List.map_filter_simps split: option.split)
  then show ?thesis using assms by (simp add: contributions_def update_rows_def)
qed

section \<open>Changes no configuration shows\<close>

definition only_out :: "inbound \<Rightarrow> inbound \<Rightarrow> bool" where
  "only_out i j \<longleftrightarrow> j\<lparr>in_OutJson := in_OutJson i\<rparr> = i"

text \<open>Only links of clients and outbound descriptions of inbounds differ.\<close>

definition silent :: "panel_db \<Rightarrow> panel_db \<Rightarrow> bool" where
  "silent db db' \<longleftrightarrow> db' = db\<lparr>db_Clients := db_Clients db', db_Inbounds := db_Inbounds db'\<rparr>
     \<and> list_all2 only_links (tb_Rows (db_Clients db)) (tb_Rows (db_Clients db')) \<and> tb_Seq (db_Clients db') = tb_Seq (db_Clients db)
     \<and> list_all2 only_out (tb_Rows (db_Inbounds db)) (tb_Rows (db_Inbounds db')) \<and> tb_Seq (db_Inbounds db') = tb_Seq (db_Inbounds db)"

lemma only_links_refl [simp]: "only_links c c"
  by (simp add: only_links_def)

lemma only_links_link [simp]: "only_links c (c\<lparr>cl_Links := l\<rparr>)"
  by (simp add: only_links_def)

lemma only_links_trans: "only_links a b \<Longrightarrow> only_links b c \<Longrightarrow> only_links a c"
  unfolding only_links_def by (metis client.surjective client.update_convs(6))

lemma only_out_refl [simp]: "only_out i i"
  by (simp add: only_out_def)

lemma only_out_trans: "only_out a b \<Longrightarrow> only_out b c \<Longrightarrow> only_out a c"
  unfolding only_out_def by (metis inbound.surjective inbound.update_convs(8))

lemma silent_refl [simp]: "silent db db"
  by (simp add: silent_def list.rel_refl)

lemma related_trans: "list_all2 R xs ys \<Longrightarrow> list_all2 R ys zs \<Longrightarrow> (\<And>a b c. R a b \<Longrightarrow> R b c \<Longrightarrow> R a c) \<Longrightarrow> list_all2 R xs zs"
  by (rule list_all2_trans [of R R R])

lemma silent_trans:
  assumes "silent a b" "silent b c"
  shows "silent a c"
proof -
  have "c = a\<lparr>db_Clients := db_Clients c, db_Inbounds := db_Inbounds c\<rparr>"
  proof -
    obtain X Y where b: "b = a\<lparr>db_Clients := X, db_Inbounds := Y\<rparr>" using assms(1) unfolding silent_def by blast
    obtain Z W where c: "c = b\<lparr>db_Clients := Z, db_Inbounds := W\<rparr>" using assms(2) unfolding silent_def by blast
    show ?thesis by (simp add: b c)
  qed
  moreover have "list_all2 only_links (tb_Rows (db_Clients a)) (tb_Rows (db_Clients c))"
    by (rule related_trans [OF _ _ only_links_trans, where ys = "tb_Rows (db_Clients b)"]) (use assms in \<open>simp_all add: silent_def\<close>)
  moreover have "list_all2 only_out (tb_Rows (db_Inbounds a)) (tb_Rows (db_Inbounds c))"
    by (rule related_trans [OF _ _ only_out_trans, where ys = "tb_Rows (db_Inbounds b)"]) (use assms in \<open>simp_all add: silent_def\<close>)
  ultimately show ?thesis using assms by (simp add: silent_def)
qed

lemma only_out_fields:
  assumes "only_out i j"
  shows "in_Id j = in_Id i" "in_Tag j = in_Tag i" "in_Type j = in_Type i" "in_CoreType j = in_CoreType i" "in_TlsId j = in_TlsId i"
    "in_Options j = in_Options i" "in_Tls j = in_Tls i"
proof -
  have i: "i = j\<lparr>in_OutJson := in_OutJson i\<rparr>" using assms by (simp add: only_out_def)
  show "in_Id j = in_Id i" "in_Tag j = in_Tag i" "in_Type j = in_Type i" "in_CoreType j = in_CoreType i" "in_TlsId j = in_TlsId i"
    "in_Options j = in_Options i" "in_Tls j = in_Tls i"
    by (subst i, simp)+
qed

lemma only_out_config: "only_out i j \<Longrightarrow> inbound_config db j = inbound_config db i"
  by (simp add: inbound_config_def Inbound_MarshalJSON_def preload_inbound_def only_out_fields
      cong: option.case_cong sum.case_cong)

lemma list_all2_map_eq: "list_all2 R xs ys \<Longrightarrow> (\<And>x y. R x y \<Longrightarrow> f y = f x) \<Longrightarrow> map f ys = map f xs"
  by (induction rule: list_all2_induct) simp_all

lemma list_all2_filter: "list_all2 R xs ys \<Longrightarrow> (\<And>x y. R x y \<Longrightarrow> P y = P x) \<Longrightarrow> list_all2 R (filter P xs) (filter P ys)"
  by (induction rule: list_all2_induct) auto

lemma configured_related:
  assumes "list_all2 R xs ys" "\<And>x y. R x y \<Longrightarrow> tag y = tag x \<and> c' y = c x"
  shows "configured tag c' ys = configured tag c xs"
  using assms by (induction rule: list_all2_induct) (auto simp: fun_eq_iff configured_Cons, simp add: configured_def)

lemma table_ok_keys: "map key (tb_Rows t') = map key (tb_Rows t) \<Longrightarrow> tb_Seq t' = tb_Seq t \<Longrightarrow> table_ok key t' = table_ok key t"
proof -
  have "table_ok key x \<longleftrightarrow> sorted_wrt (<) (map key (tb_Rows x)) \<and> list_all (\<lambda>k. 0 < k \<and> k \<le> tb_Seq x) (map key (tb_Rows x))" for x
    by (simp add: table_ok_def list.pred_map comp_def)
  then show "map key (tb_Rows t') = map key (tb_Rows t) \<Longrightarrow> tb_Seq t' = tb_Seq t \<Longrightarrow> table_ok key t' = table_ok key t" by metis
qed

lemma list_all_map_eq: "map f ys = map f xs \<Longrightarrow> (\<And>x. P x = Q (f x)) \<Longrightarrow> list_all P ys = list_all P xs"
proof -
  assume e: "map f ys = map f xs" and pq: "\<And>x. P x = Q (f x)"
  have P: "P = (\<lambda>x. Q (f x))" by (rule ext) (rule pq)
  have "list_all P zs = list_all Q (map f zs)" for zs by (simp add: list.pred_map comp_def P)
  then show ?thesis using e by metis
qed

lemma silent_facts:
  assumes s: "silent db db'" and ok: "db_ok db" "db_clean db" "clients_clean db"
  shows "expected db' = expected db" "db_ok db'" "db_clean db'" "clients_clean db'"
    "inbound_config db' i = inbound_config db i" "service_config db' = service_config db"
proof -
  have db': "db' = db\<lparr>db_Clients := db_Clients db', db_Inbounds := db_Inbounds db'\<rparr>" using s by (simp add: silent_def)
  have cl: "list_all2 only_links (tb_Rows (db_Clients db)) (tb_Rows (db_Clients db'))" "tb_Seq (db_Clients db') = tb_Seq (db_Clients db)"
    and inb: "list_all2 only_out (tb_Rows (db_Inbounds db)) (tb_Rows (db_Inbounds db'))" "tb_Seq (db_Inbounds db') = tb_Seq (db_Inbounds db)"
    using s by (simp_all add: silent_def)
  have same: "db_Tls db' = db_Tls db" "db_Outbounds db' = db_Outbounds db" "db_Endpoints db' = db_Endpoints db"
    "db_Services db' = db_Services db" "db_Pools db' = db_Pools db" "db_Links db' = db_Links db" by (subst db', simp)+
  have ids: "map cl_Id (tb_Rows (db_Clients db')) = map cl_Id (tb_Rows (db_Clients db))"
    "map clean_client (tb_Rows (db_Clients db')) = map clean_client (tb_Rows (db_Clients db))"
    "map (contribution i) (tb_Rows (db_Clients db')) = map (contribution i) (tb_Rows (db_Clients db))" for i
    by (rule list_all2_map_eq [OF cl(1)], simp add: only_links_fields)+
  have inbs: "map in_Id (tb_Rows (db_Inbounds db')) = map in_Id (tb_Rows (db_Inbounds db))"
    "map in_Tag (tb_Rows (db_Inbounds db')) = map in_Tag (tb_Rows (db_Inbounds db))"
    "map clean_inbound (tb_Rows (db_Inbounds db')) = map clean_inbound (tb_Rows (db_Inbounds db))"
    by (rule list_all2_map_eq [OF inb(1)], simp add: only_out_fields clean_inbound_def)+
  have tok: "table_ok cl_Id (db_Clients db') = table_ok cl_Id (db_Clients db)" "table_ok in_Id (db_Inbounds db') = table_ok in_Id (db_Inbounds db)"
    "tags_ok in_Tag (db_Inbounds db') = tags_ok in_Tag (db_Inbounds db)"
    using table_ok_keys [OF ids(1) cl(2)] table_ok_keys [OF inbs(1) inb(2)] inbs(2) by (simp_all add: tags_ok_def)
  show "db_ok db'" using ok(1) tok by (simp add: db_ok_def same)
  have "list_all clean_inbound (tb_Rows (db_Inbounds db'))"
    using ok(2) list_all_map_eq [OF inbs(3), of clean_inbound "\<lambda>b. b"] by (simp add: db_clean_def)
  then show "db_clean db'" using ok(2) by (simp add: db_clean_def same)
  have "list_all clean_client (tb_Rows (db_Clients db'))"
    using ok(3) list_all_map_eq [OF ids(2), of clean_client "\<lambda>b. b"] by (simp add: clients_clean_def)
  then show cc: "clients_clean db'" by (simp add: clients_clean_def)
  have "List.map_filter f xs = List.map_filter (\<lambda>x. x) (map f xs)" for f :: "client \<Rightarrow> raw option" and xs
    by (induction xs) (auto simp: List.map_filter_simps split: option.split)
  then have contr: "contributions i (db_Clients db') = contributions i (db_Clients db)" for i
    by (simp add: contributions_def ids(3))
  then show cfg: "inbound_config db' i = inbound_config db i" for i
    using inbound_config_same [OF ok(3) cc] same(1) by simp
  show svc: "service_config db' = service_config db" by (simp add: fun_eq_iff service_config_def preload_service_def same)
  have "configured in_Tag (inbound_config db') (filter singbox_row (tb_Rows (db_Inbounds db')))
      = configured in_Tag (inbound_config db) (filter singbox_row (tb_Rows (db_Inbounds db)))"
  proof (rule configured_related [where R = only_out])
    show "list_all2 only_out (filter singbox_row (tb_Rows (db_Inbounds db))) (filter singbox_row (tb_Rows (db_Inbounds db')))"
      by (rule list_all2_filter [OF inb(1)]) (simp add: singbox_row_def only_out_fields)
  qed (simp add: only_out_fields only_out_config cfg)
  then show "expected db' = expected db" by (auto simp: fun_eq_iff expected_def same svc split: core_kind.split)
qed

text \<open>Writing the links of an inbound again, and its outbound description.\<close>

lemma silent_clients:
  "silent db (db\<lparr>db_Clients := update_rows P f (db_Clients db)\<rparr>)" if "\<And>c. only_links c (f c)"
  using that by (auto simp: silent_def update_rows_def list_all2_map2 intro!: list.rel_refl_strong)

lemma UpdateLinks_silent:
  assumes ok: "db_ok db" "db_clean db" "clients_clean db" and run: "UpdateLinksByInboundChange env db inbs hostname oldTag = Inr db'"
  shows "silent db db'"
proof -
  have "silent db db' \<and> db_ok db' \<and> db_clean db' \<and> clients_clean db'"
    using run unfolding UpdateLinksByInboundChange_def
  proof (rule eachr_invariant [where P = "\<lambda>x. silent db x \<and> db_ok x \<and> db_clean x \<and> clients_clean x"])
    show "silent db db \<and> db_ok db \<and> db_clean db \<and> clients_clean db" using ok by simp
  next
    fix inb x x'
    assume step: "bindr (clients_of_inbound x (in_Id inb)) (\<lambda>cs. eachr (inbound_changed env inb hostname oldTag) cs x) = Inr x'"
      and inv: "silent db x \<and> db_ok x \<and> db_clean x \<and> clients_clean x"
    let ?cs = "filter (lists_inbound (in_Id inb)) (tb_Rows (db_Clients x))"
    have tok: "table_ok cl_Id (db_Clients x)" using inv by (simp add: db_ok_def)
    have d: "distinct (map cl_Id ?cs)" using clients.ok_rows(2) [OF tok] by (rule distinct_map_filter)
    have each: "eachr (\<lambda>c db. bindr (generated_links env c inb hostname) (\<lambda>new. Inr (save_client (c\<lparr>cl_Links := nil_links_raw
        (new @ filter (\<lambda>l. link_get l ''type'' \<noteq> ''local'' \<or> (link_get l ''remark'' \<noteq> in_Tag inb \<and> link_get l ''remark'' \<noteq> oldTag))
          (lenient_links (cl_Links c)))\<rparr>) db))) ?cs x = Inr x'"
      using step unfolding clients_of_inbound_def inbound_changed_def [abs_def] by (auto split: if_splits)
    from each_saved [OF tok _ d _ each] obtain f where "x' = x\<lparr>db_Clients := update_rows (\<lambda>c. c \<in> set ?cs) f (db_Clients x)\<rparr>"
      "\<And>c. only_links c (f c)" by auto
    then have "silent x x'" using silent_clients by blast
    then show "silent db x' \<and> db_ok x' \<and> db_clean x' \<and> clients_clean x'" using silent_facts [OF \<open>silent x x'\<close>] silent_trans inv by blast
  qed
  then show ?thesis by blast
qed

lemma UpdateOutJsons_silent:
  assumes run: "UpdateOutJsons env db ids hostname = Inr db'"
  shows "silent db db'"
  using run unfolding UpdateOutJsons_def
proof (rule eachr_invariant [where P = "silent db"])
  fix i x x'
  assume step: "bindr (FillOutJson (ce_Link (sv_Client env)) i hostname) (\<lambda>i'. Inr (x\<lparr>db_Inbounds :=
      update_rows (\<lambda>row. in_Tag row = in_Tag i') (\<lambda>row. row\<lparr>in_OutJson := in_OutJson i'\<rparr>) (db_Inbounds x)\<rparr>)) = Inr x'" and inv: "silent db x"
  have "silent x x'"
    using step by (auto simp: bindr_Inr_iff silent_def update_rows_def list_all2_map2 only_out_def intro!: list.rel_refl_strong)
  then show "silent db x'" using inv silent_trans by blast
qed simp

section \<open>Saving a TLS configuration\<close>

definition uses_tls :: "nat \<Rightarrow> panel_db \<Rightarrow> bool" where
  "uses_tls k db \<longleftrightarrow> list_ex (\<lambda>i. in_TlsId i = k) (tb_Rows (db_Inbounds db)) \<or> list_ex (\<lambda>s. sv_TlsId s = k) (tb_Rows (db_Services db))"

text \<open>A change of the TLS table is invisible to the rows that do not use the changed configuration.\<close>

lemma tls_config_same:
  assumes "\<And>k. k \<noteq> n \<Longrightarrow> find_row tls_Id k t = find_row tls_Id k (db_Tls db)"
  shows "in_TlsId i \<noteq> n \<Longrightarrow> inbound_config (db\<lparr>db_Tls := t\<rparr>) i = inbound_config db i"
    "sv_TlsId s \<noteq> n \<Longrightarrow> service_config (db\<lparr>db_Tls := t\<rparr>) s = service_config db s"
proof -
  have users: "addUsers (db\<lparr>db_Tls := t\<rparr>) cfg j ty = addUsers db cfg j ty" for cfg j ty
    by (simp add: addUsers_def put_users_def fetchUsers_def cong: if_cong option.case_cong)
  show "in_TlsId i \<noteq> n \<Longrightarrow> inbound_config (db\<lparr>db_Tls := t\<rparr>) i = inbound_config db i"
    using assms by (simp add: inbound_config_def preload_inbound_def users)
  show "sv_TlsId s \<noteq> n \<Longrightarrow> service_config (db\<lparr>db_Tls := t\<rparr>) s = service_config db s"
    using assms by (simp add: service_config_def preload_service_def)
qed

lemma tls_expected_same:
  assumes "\<And>k. k \<noteq> n \<Longrightarrow> find_row tls_Id k t = find_row tls_Id k (db_Tls db)" "k \<noteq> Inbounds" "k \<noteq> Services"
  shows "expected (db\<lparr>db_Tls := t\<rparr>) k = expected db k"
  using assms by (cases k) (simp_all add: expected_def)

lemma tls_unused:
  assumes find: "\<And>k. k \<noteq> n \<Longrightarrow> find_row tls_Id k t = find_row tls_Id k (db_Tls db)" and unused: "\<not> uses_tls n db"
  shows "expected (db\<lparr>db_Tls := t\<rparr>) = expected db"
proof
  fix k
  have i: "in_TlsId i \<noteq> n" if "i \<in> set (tb_Rows (db_Inbounds db))" for i using unused that by (auto simp: uses_tls_def list_ex_iff)
  have s: "sv_TlsId s \<noteq> n" if "s \<in> set (tb_Rows (db_Services db))" for s using unused that by (auto simp: uses_tls_def list_ex_iff)
  have "configured in_Tag (inbound_config (db\<lparr>db_Tls := t\<rparr>)) (filter singbox_row (tb_Rows (db_Inbounds db))) x
      = configured in_Tag (inbound_config db) (filter singbox_row (tb_Rows (db_Inbounds db))) x" for x
    by (rule configured_same) (use i tls_config_same(1) [OF find] in auto)
  moreover have "configured sv_Tag (service_config (db\<lparr>db_Tls := t\<rparr>)) (tb_Rows (db_Services db)) x
      = configured sv_Tag (service_config db) (tb_Rows (db_Services db)) x" for x
    by (rule configured_same) (use s tls_config_same(2) [OF find] in auto)
  ultimately show "expected (db\<lparr>db_Tls := t\<rparr>) k = expected db k"
    by (cases k) (auto simp: expected_def fun_eq_iff)
qed

lemma idle_restart:
  "\<not> co_Running core \<Longrightarrow> RestartInbounds env db ids core = (Inr (), core)"
  "\<not> co_Running core \<Longrightarrow> RestartServices env db sids core = (Inr (), core)"
  by (simp_all add: RestartInbounds_def RestartServices_def if_running_def lift_svc_def)

lemma restart_nobody:
  "filter (\<lambda>i. in_Id i \<in> set ids) (tb_Rows (db_Inbounds db)) = [] \<Longrightarrow> RestartInbounds env db ids core = (Inr (), core)"
  "filter (\<lambda>s. sv_Id s \<in> set sids) (tb_Rows (db_Services db)) = [] \<Longrightarrow> RestartServices env db sids core = (Inr (), core)"
  by (simp_all add: RestartInbounds_def RestartServices_def if_running_def lift_svc_def)

lemma wrap_error_Inr [simp]: "wrap_error msg r = Inr x \<longleftrightarrow> r = Inr x"
  by (simp add: wrap_error_def NewError_def split: sum.split)

lemma edited_tls_effect:
  assumes ok: "db_ok db" "db_clean db" "clients_clean db" and run: "edited_tls env db n hostname core = (Inr db', core')"
  obtains core1 where "silent db db'"
    "RestartInbounds env db' (map in_Id (filter (\<lambda>i. in_TlsId i = n) (tb_Rows (db_Inbounds db)))) core = (Inr (), core1)"
    "RestartServices env db' (map sv_Id (filter (\<lambda>s. sv_TlsId s = n) (tb_Rows (db_Services db)))) core1 = (Inr (), core')"
proof -
  let ?inbs = "map (preload_inbound db) (filter (\<lambda>i. in_TlsId i = n) (tb_Rows (db_Inbounds db)))"
  let ?ids = "map in_Id (filter (\<lambda>i. in_TlsId i = n) (tb_Rows (db_Inbounds db)))"
  let ?sids = "map sv_Id (filter (\<lambda>s. sv_TlsId s = n) (tb_Rows (db_Services db)))"
  have ids: "map in_Id ?inbs = ?ids" by simp
  obtain db2 core1 where first: "silent db db2" "RestartInbounds env db2 ?ids core = (Inr (), core1)"
    and second: "(if ?sids = [] then lift_svc (Inr db2) else bind_svc (RestartServices env db2 ?sids) (\<lambda>_. lift_svc (Inr db2))) core1 = (Inr db', core')"
  proof (cases "?inbs = []")
    case True
    then have none: "?ids = []" by simp
    have "(if ?sids = [] then lift_svc (Inr db) else bind_svc (RestartServices env db ?sids) (\<lambda>_. lift_svc (Inr db))) core = (Inr db', core')"
      using run unfolding edited_tls_def Let_def bind_svc_Inr using True by (auto simp: lift_svc_Inr)
    moreover have "RestartInbounds env db ?ids core = (Inr (), core)" using none by (intro restart_nobody) simp
    ultimately show thesis using that silent_refl by blast
  next
    case False
    then obtain db1 db2 core1 where upd: "UpdateLinksByInboundChange (sv_Client env) db ?inbs hostname [] = Inr db1"
      "UpdateOutJsons env db1 ?ids hostname = Inr db2" "RestartInbounds env db2 ?ids core = (Inr (), core1)"
      "(if ?sids = [] then lift_svc (Inr db2) else bind_svc (RestartServices env db2 ?sids) (\<lambda>_. lift_svc (Inr db2))) core1 = (Inr db', core')"
      using run unfolding edited_tls_def Let_def bind_svc_Inr ids
      by (auto simp: lift_svc_Inr bind_svc_Inr)
    then show thesis using that UpdateLinks_silent [OF ok upd(1)] UpdateOutJsons_silent [OF upd(2)] silent_trans by blast
  qed
  show thesis
  proof (cases "?sids = []")
    case True
    then have "db' = db2" "core' = core1" using second by (simp_all add: lift_svc_Inr)
    moreover have "RestartServices env db2 ?sids core1 = (Inr (), core1)" using True by (intro restart_nobody) simp
    ultimately show thesis using that first by blast
  next
    case False
    then have "db' = db2" "RestartServices env db2 ?sids core1 = (Inr (), core')" using second by (auto simp: bind_svc_Inr lift_svc_Inr)
    then show thesis using that first by blast
  qed
qed

lemma related_image:
  assumes "list_all2 R xs ys" "\<And>x y. R x y \<Longrightarrow> tag y = tag x \<and> P y = P x"
  shows "tag ` {y \<in> set ys. P y} = tag ` {x \<in> set xs. P x}"
  using assms
proof (induction rule: list_all2_induct)
  case (Cons x xs y ys)
  have "{z \<in> set (a # as). P z} = (if P a then insert a {z \<in> set as. P z} else {z \<in> set as. P z})" for a as by auto
  then show ?case using Cons by simp
qed simp

lemma edited_tls_in_step:
  assumes step: "in_step db core" and clean: "clients_clean db" and tok: "table_ok tls_Id t"
    and find: "\<And>k. k \<noteq> n \<Longrightarrow> find_row tls_Id k t = find_row tls_Id k (db_Tls db)"
    and run: "edited_tls env (db\<lparr>db_Tls := t\<rparr>) n hostname core = (Inr db', core')"
  shows "in_step db' core' \<and> clients_clean db'"
proof -
  let ?db1 = "db\<lparr>db_Tls := t\<rparr>"
  let ?ids = "map in_Id (filter (\<lambda>i. in_TlsId i = n) (tb_Rows (db_Inbounds db)))"
  let ?sids = "map sv_Id (filter (\<lambda>s. sv_TlsId s = n) (tb_Rows (db_Services db)))"
  have ok1: "db_ok ?db1" "db_clean ?db1" "clients_clean ?db1"
    using step clean tok by (simp_all add: in_step_def db_ok_def db_clean_def clients_clean_def)
  obtain core1 where sil: "silent ?db1 db'" and ri: "RestartInbounds env db' ?ids core = (Inr (), core1)"
    and rs: "RestartServices env db' ?sids core1 = (Inr (), core')"
    using edited_tls_effect [OF ok1 run] by auto
  note facts = silent_facts [OF sil ok1]
  have tags: "tags_ok in_Tag (db_Inbounds db)" "tags_ok in_Tag (db_Inbounds db')" "tags_ok sv_Tag (db_Services db')"
    using step facts(2) by (simp_all add: in_step_def db_ok_def)
  have cl: "list_all clean_inbound (tb_Rows (db_Inbounds db'))" "list_all clean_service (tb_Rows (db_Services db'))"
    using facts(3) by (simp_all add: db_clean_def)
  have svs: "db_Services db' = db_Services db" using sil unfolding silent_def by (metis panel_db.select_convs(7) panel_db.surjective panel_db.update_convs(3,4,8))
  have inbs: "list_all2 only_out (tb_Rows (db_Inbounds db)) (tb_Rows (db_Inbounds db'))" using sil by (simp add: silent_def)
  have "agrees db' core'"
  proof (cases "co_Running core")
    case False
    then have "core1 = core" using idle_restart(1) [of core env db' ?ids] ri by simp
    then have "core' = core" using idle_restart(2) [of core env db' ?sids] rs False by simp
    then show ?thesis using False by (simp add: agrees_def)
  next
    case True
    have old: "view (co_Items core k) = view (expected db k)" for k using step True by (simp add: in_step_def agrees_def)
    have others_in: "view (co_Items core Inbounds) x = view (expected db' Inbounds) x"
      if "x \<notin> in_Tag ` {i \<in> set (tb_Rows (db_Inbounds db')). in_Id i \<in> set ?ids \<and> singbox_row i}" for x
    proof -
      have "in_Tag ` {i \<in> set (tb_Rows (db_Inbounds db')). in_Id i \<in> set ?ids \<and> singbox_row i}
          = in_Tag ` {i \<in> set (tb_Rows (db_Inbounds db)). in_Id i \<in> set ?ids \<and> singbox_row i}"
        by (rule related_image [OF inbs]) (simp add: only_out_fields singbox_row_def)
      then have x: "x \<notin> in_Tag ` {i \<in> set (tb_Rows (db_Inbounds db)). in_Id i \<in> set ?ids \<and> singbox_row i}" using that by metis
      have "configured in_Tag (inbound_config ?db1) (filter singbox_row (tb_Rows (db_Inbounds db))) x
          = configured in_Tag (inbound_config db) (filter singbox_row (tb_Rows (db_Inbounds db))) x"
      proof (rule configured_same)
        fix r
        assume "r \<in> set (filter singbox_row (tb_Rows (db_Inbounds db)))" "in_Tag r = x"
        then have "in_TlsId r \<noteq> n" using x by (auto simp: image_iff)
        then show "config_value (inbound_config ?db1 r) = config_value (inbound_config db r)" using tls_config_same(1) [OF find] by simp
      qed
      then show ?thesis using old [of Inbounds] by (simp add: facts(1) view_def fun_eq_iff expected_def)
    qed
    note eff = restarted_inbounds [OF ri True tags(2) cl(1) others_in]
    have others_sv: "view (co_Items core1 Services) x = view (expected db' Services) x"
      if "x \<notin> sv_Tag ` {s \<in> set (tb_Rows (db_Services db')). sv_Id s \<in> set ?sids}" for x
    proof -
      have "configured sv_Tag (service_config ?db1) (tb_Rows (db_Services db)) x = configured sv_Tag (service_config db) (tb_Rows (db_Services db)) x"
      proof (rule configured_same)
        fix r
        assume "r \<in> set (tb_Rows (db_Services db))" "sv_Tag r = x"
        then have "sv_TlsId r \<noteq> n" using that by (auto simp: svs image_iff)
        then show "config_value (service_config ?db1 r) = config_value (service_config db r)" using tls_config_same(2) [OF find] by simp
      qed
      then show ?thesis using old [of Services] eff(3) [of Services] by (simp add: facts(1) view_def fun_eq_iff expected_def)
    qed
    note eff2 = restarted_services [OF rs eff(2) tags(3) cl(2) others_sv]
    have "view (co_Items core' k) = view (expected db' k)" for k
    proof -
      consider "k = Inbounds" | "k = Services" | "k \<noteq> Inbounds" "k \<noteq> Services" by blast
      then show ?thesis
      proof cases
        case 3
        then have "co_Items core' k = co_Items core k" using eff(3) [of k] eff2(3) [of k] by simp
        then show ?thesis using old [of k] tls_expected_same [OF find 3] by (simp add: facts(1))
      qed (use eff(1) eff2(1) eff2(3) [of Inbounds] in simp_all)
    qed
    then show ?thesis by (simp add: agrees_def)
  qed
  then show ?thesis using facts by (simp add: in_step_def)
qed

text \<open>A new configuration is sent without a number, and its number is not yet in use.\<close>

definition proper_tls :: "panel_db \<Rightarrow> string \<Rightarrow> raw \<Rightarrow> bool" where
  "proper_tls db act data \<longleftrightarrow> (act = ''new'' \<longrightarrow> (case Tls_of_JSON data of Inl _ \<Rightarrow> True | Inr t \<Rightarrow> tls_Id t = 0)
     \<and> \<not> uses_tls (Suc (tb_Seq (db_Tls db))) db)"

lemma in_step_tls:
  assumes "in_step db core" "table_ok tls_Id t" "expected (db\<lparr>db_Tls := t\<rparr>) = expected db"
  shows "in_step (db\<lparr>db_Tls := t\<rparr>) core"
  using assms by (simp add: in_step_def db_ok_def db_clean_def agrees_def)

lemma Tls_Save_in_step:
  assumes step: "in_step db core" and clean: "clients_clean db" and data: "proper_tls db act data"
    and run: "Tls_Save env db act data hostname core = (Inr db', core')"
  shows "in_step db' core' \<and> clients_clean db'"
proof -
  have tok: "table_ok tls_Id (db_Tls db)" using step by (simp add: in_step_def db_ok_def)
  have clean': "clients_clean (db\<lparr>db_Tls := t\<rparr>)" for t using clean by (simp add: clients_clean_def)
  consider t where "act = ''new'' \<or> act = ''edit''" "Tls_of_JSON data = Inr t"
      "(let (row, db1) = store_tls t db in if act = ''edit'' then edited_tls env db1 (tls_Id row) hostname else lift_svc (Inr db1)) core = (Inr db', core')"
    | i where "\<not> uses_tls i db" "db' = db\<lparr>db_Tls := delete_rows (\<lambda>t. tls_Id t = i) (db_Tls db)\<rparr>" "core' = core"
    | "db' = db" "core' = core"
  proof (cases "act = ''new'' \<or> act = ''edit''")
    case True
    then have "\<exists>t. Tls_of_JSON data = Inr t \<and> (let (row, db1) = store_tls t db in
        if act = ''edit'' then edited_tls env db1 (tls_Id row) hostname else lift_svc (Inr db1)) core = (Inr db', core')"
      using run unfolding Tls_Save_def if_P [OF True] bind_svc_Inr lift_svc_Inr by blast
    then show thesis using that(1) True by blast
  next
    case False
    show thesis
    proof (cases "act = ''del''")
      case True
      then obtain i where "(if uses_tls i db then lift_svc (NewError ''tls in use'')
          else lift_svc (Inr (db\<lparr>db_Tls := delete_rows (\<lambda>t. tls_Id t = i) (db_Tls db)\<rparr>))) core = (Inr db', core')"
        using run unfolding Tls_Save_def if_not_P [OF False] if_P [OF True] bind_svc_Inr lift_svc_Inr uses_tls_def by blast
      then have "\<not> uses_tls i db" "db' = db\<lparr>db_Tls := delete_rows (\<lambda>t. tls_Id t = i) (db_Tls db)\<rparr>" "core' = core"
        by (simp_all add: lift_svc_Inr NewError_def split: if_splits)
      then show thesis by (rule that(2))
    next
      case no: False
      then show thesis using run that(3) unfolding Tls_Save_def if_not_P [OF False] if_not_P [OF no] lift_svc_Inr by simp
    qed
  qed
  then show ?thesis
  proof cases
    case 1
    let ?n = "tls_Id (keyed tls_Id (\<lambda>k. with_tls_Id k) (db_Tls db) t)" and ?t = "save_row tls_Id (\<lambda>k. with_tls_Id k) t (db_Tls db)"
    have find: "k \<noteq> ?n \<Longrightarrow> find_row tls_Id k ?t = find_row tls_Id k (db_Tls db)" for k using tlss.find_saved [OF tok] by simp
    have tok': "table_ok tls_Id ?t" by (rule tlss.save_ok [OF tok])
    show ?thesis
    proof (cases "act = ''edit''")
      case True
      then have "edited_tls env (db\<lparr>db_Tls := ?t\<rparr>) ?n hostname core = (Inr db', core')" using 1(3) by (simp add: store_tls_def)
      then show ?thesis using edited_tls_in_step [OF step clean tok' find] by blast
    next
      case False
      then have "tls_Id t = 0" "\<not> uses_tls (Suc (tb_Seq (db_Tls db))) db" using data 1 by (simp_all add: proper_tls_def)
      then have "\<not> uses_tls ?n db" by (simp add: keyed_def)
      then have "expected (db\<lparr>db_Tls := ?t\<rparr>) = expected db" using tls_unused [OF find] by blast
      moreover have "db' = db\<lparr>db_Tls := ?t\<rparr>" "core' = core" using 1(3) False by (simp_all add: store_tls_def lift_svc_Inr)
      ultimately show ?thesis using in_step_tls [OF step tok'] clean' by blast
    qed
  next
    case 2
    have find: "k \<noteq> i \<Longrightarrow> find_row tls_Id k (delete_rows (\<lambda>t. tls_Id t = i) (db_Tls db)) = find_row tls_Id k (db_Tls db)" for k
      using tlss.find_deleted [OF tok, of k "\<lambda>t. tls_Id t = i"] tlss.find_Some [OF tok, of k "the (find_row tls_Id k (db_Tls db))"]
      by (cases "find_row tls_Id k (db_Tls db)") simp_all
    show ?thesis
      unfolding 2(2,3) using in_step_tls [OF step tlss.delete_ok [OF tok] tls_unused [OF find 2(1)]] clean' by blast
  qed (use step clean in simp)
qed

end
