(* ===== verification/Inbound_Agreement.thy ===== *)
theory Inbound_Agreement
  imports Tls_Agreement
begin

text \<open>
  Saving and deleting an inbound: the running core gets its configuration before the row and the
  clients are written, with users read from the database as it was (an edit) or from the list of
  clients the request names (a new inbound). It still ends up with what a restart from the new
  database would give, in which the clients list the inbound.
\<close>

section \<open>The inbound table and the configurations\<close>

lemma inbound_table [simp]:
  "inbound_config (db\<lparr>db_Inbounds := t\<rparr>) = inbound_config db" "service_config (db\<lparr>db_Inbounds := t\<rparr>) = service_config db"
  "inbound_item (db\<lparr>db_Inbounds := t\<rparr>) = inbound_item db"
proof -
  show i: "inbound_config (db\<lparr>db_Inbounds := t\<rparr>) = inbound_config db"
    by (auto simp: fun_eq_iff inbound_config_def preload_inbound_def addUsers_def put_users_def fetchUsers_def
        cong: if_cong option.case_cong)
  show "service_config (db\<lparr>db_Inbounds := t\<rparr>) = service_config db"
    by (auto simp: fun_eq_iff service_config_def preload_service_def)
  show "inbound_item (db\<lparr>db_Inbounds := t\<rparr>) = inbound_item db" by (simp add: fun_eq_iff inbound_item_def i)
qed

lemma expected_other_table: "k \<noteq> Inbounds \<Longrightarrow> expected (db\<lparr>db_Inbounds := t\<rparr>) k = expected db k"
  by (cases k) (simp_all add: expected_def)

text \<open>No other row has the tag of a saved row, so without the item of its old tag it is free.\<close>

context configured_table begin

lemma saved_tag_free:
  assumes ok: "table_ok key t" "tags_ok tag t"
    and saved: "save_tagged key with_key tag r t = Inr (r', t')"
    and old: "\<And>x. find_row key (key r) t = Some x \<Longrightarrow> oldTag = Some (tag x) \<or> config_value (config x) = None"
  shows "(case oldTag of None \<Rightarrow> configured tag config (tb_Rows t) | Some o' \<Rightarrow> (configured tag config (tb_Rows t))(o' := None)) (tag r) = None"
proof (cases "\<exists>x\<in>set (tb_Rows t). tag x = tag r")
  case True
  then obtain x where x: "x \<in> set (tb_Rows t)" "tag x = tag r" by blast
  have "r' = keyed key with_key t r" "\<not> tag_taken key tag r' t" using saved by (auto simp: save_tagged_Inr)
  then have "key x = key (keyed key with_key t r)" using x by (auto simp: tag_taken_def list_ex_iff)
  moreover from this have "key r \<noteq> 0" using fresh_key [OF ok(1), of r] x(1) by (metis imageI)
  ultimately have "find_row key (key r) t = Some x" using find_Some [OF ok(1)] x by (simp add: keyed_def)
  then have "oldTag = Some (tag x) \<or> config_value (config x) = None" by (rule old)
  moreover have "configured tag config (tb_Rows t) (tag x) = config_value (config x)"
    using configured_eq [OF _ x(1)] ok(2) by (simp add: tags_ok_def)
  ultimately show ?thesis using x(2) by (auto split: option.split)
next
  case False
  then have "configured tag config (tb_Rows t) (tag r) = None" by (intro configured_None) auto
  then show ?thesis by (simp split: option.split)
qed

end

section \<open>The users of an inbound\<close>

lemma users_where:
  "map (config_entry ty) (filter (\<lambda>c. cl_Enable c \<and> config_entry ty c \<noteq> GNil \<and> P c) rows)
     = filter (\<lambda>v. v \<noteq> GNil) (map (entry_of ty) (List.map_filter (\<lambda>c. if cl_Enable c \<and> P c then Some (cl_Config c) else None) rows))"
  by (induction rows) (auto simp: List.map_filter_simps config_entry_def entry_of_def)

lemma put_users_where:
  assumes "clients_clean db" "clients_clean db'"
    and "List.map_filter (\<lambda>c. if cl_Enable c \<and> P' c then Some (cl_Config c) else None) (tb_Rows (db_Clients db'))
       = List.map_filter (\<lambda>c. if cl_Enable c \<and> P c then Some (cl_Config c) else None) (tb_Rows (db_Clients db))"
  shows "put_users db' cfg P' ty = put_users db cfg P ty"
proof -
  have "\<not> list_ex (\<lambda>c. cl_Enable c \<and> cl_Config c = RBad) (tb_Rows (db_Clients db))"
    "\<not> list_ex (\<lambda>c. cl_Enable c \<and> cl_Config c = RBad) (tb_Rows (db_Clients db'))"
    using assms(1,2) by (auto simp: clients_clean_def clean_client_def list_all_iff list_ex_iff)
  then have "fetchUsers db' ty P' inb = fetchUsers db ty P inb" for inb
    using assms(3) by (simp add: fetchUsers_def users_where Let_def)
  then show ?thesis by (simp add: put_users_def split: option.split)
qed

lemma nobody_given:
  assumes "clients_clean db" "List.map_filter (\<lambda>c. if cl_Enable c \<and> P c then Some (cl_Config c) else None) (tb_Rows (db_Clients db)) = []"
  shows "put_users db (RVal (GMap m)) P ty = Inr (mustJSON (GMap (mput m ''users'' GNil)))"
proof -
  have "\<not> list_ex (\<lambda>c. cl_Enable c \<and> cl_Config c = RBad) (tb_Rows (db_Clients db))"
    using assms(1) by (auto simp: clients_clean_def clean_client_def list_all_iff list_ex_iff)
  then have "fetchUsers db ty P m = Inr []"
    using assms(2) by (simp add: fetchUsers_def users_where Let_def)
  then show ?thesis by (simp add: put_users_def decode_map_def users_value_def)
qed

lemma plain_no_users:
  assumes "m = map (map_prod id json_norm) m0" "mget m ''users'' = GNil"
  shows "map_option plain (config_value (Inr (mustJSON (GMap (mput m ''users'' GNil))))) = Some (plain m)"
proof -
  have "mdel (mput m k v) k = mdel m k" for m k and v :: gval
    unfolding mdel_def mput_def by (induction m) auto
  moreover have "mdel (map (map_prod id json_norm) m) k = map (map_prod id json_norm) (mdel m k)" for m k
    unfolding mdel_def by (induction m) auto
  moreover have "map (map_prod id json_norm) (mdel m ''users'') = mdel m ''users''"
    unfolding assms(1) mdel_def by (induction m0) auto
  ultimately show ?thesis using assms(2) by (simp add: mustJSON_def plain_def mget_map_prod)
qed

text \<open>The configuration of an inbound has no users of its own: the decoder takes them out.\<close>

definition no_own_users :: "inbound \<Rightarrow> bool" where
  "no_own_users r \<longleftrightarrow> (case decode_map (in_Options r) of None \<Rightarrow> True | Some m \<Rightarrow> \<not> mhas m ''users'')"

lemma Inbound_marshalled:
  assumes "Inbound_MarshalJSON i = Inr cfg" "no_own_users i"
  shows "\<exists>m0. cfg = RVal (GMap (map (map_prod id json_norm) m0)) \<and> mget (map (map_prod id json_norm) m0) ''users'' = GNil"
proof -
  obtain base m where m: "rest_fields (in_Options i) base = Inr m" "cfg = mustJSON (GMap m)" and base: "mget base ''users'' = GNil"
    using assms(1) by (auto simp: Inbound_MarshalJSON_def Let_def split: sum.splits option.splits)
  have "mget m ''users'' = GNil"
    using m(1) base assms(2) by (auto simp: rest_fields_def no_own_users_def mget_mmerge_other split: if_splits option.splits)
  then have "mget (map (map_prod id json_norm) m) ''users'' = GNil"
    using mget_no [of m "''users''"] by (cases "mhas m ''users''") (simp_all add: mget_map_prod)
  then show ?thesis using m(2) by (auto simp: mustJSON_def)
qed

lemma mhas_map_prod: "mhas (map (map_prod id f) m) k = mhas m k"
  by (simp add: mhas_def map_prod_def map_of_map)

lemma Inbound_decoded:
  assumes "Inbound_UnmarshalJSON empty_inbound data = Inr r"
  shows "in_Tls r = None" "no_own_users r"
    "decode_map data = Some m \<Longrightarrow> in_Tag r = as_str (mget m ''tag'')" "decode_map data = Some m \<Longrightarrow> in_Id r = set_uint 0 (mget m ''id'')"
    "in_Tag r \<noteq> [] \<Longrightarrow> clean_inbound r"
  using assms
  by (auto simp: Inbound_UnmarshalJSON_def empty_inbound_def clean_inbound_def no_own_users_def Let_def mhas_map_prod
      intro!: clean_mustJSON split: option.splits)

section \<open>Clients that gain or lose an inbound\<close>

lemma lenient_ids_of: "ids_of r = Inr ns \<Longrightarrow> lenient_ids r = ns"
proof -
  have "all_uints xs = Some ns \<Longrightarrow> map (\<lambda>x. case all_uints [x] of Some [n] \<Rightarrow> n | _ \<Rightarrow> 0) xs = ns" for xs ns
    by (induction xs arbitrary: ns rule: all_uints.induct) (auto split: if_splits)
  then show "ids_of r = Inr ns \<Longrightarrow> lenient_ids r = ns"
    by (auto simp: ids_of_def lenient_ids_def decode_uints_def split: option.splits raw.splits gval.splits)
qed

text \<open>\<open>relists g f\<close>: \<open>f\<close> changes links and the list of inbounds of a client, the list by \<open>g\<close>.\<close>

definition relists :: "(nat list \<Rightarrow> nat list) \<Rightarrow> (client \<Rightarrow> client) \<Rightarrow> bool" where
  "relists g f \<longleftrightarrow> (\<forall>c. cl_Id (f c) = cl_Id c \<and> cl_Enable (f c) = cl_Enable c \<and> cl_Config (f c) = cl_Config c
     \<and> cl_Name (f c) = cl_Name c \<and> ids_of (cl_Inbounds (f c)) = Inr (g (lenient_ids (cl_Inbounds c))))"

lemma relisted_lists:
  assumes "relists g f" "clean_client c" "0 < i"
  shows "lists_inbound i (f c) \<longleftrightarrow> i \<in> set (g (lenient_ids (cl_Inbounds c)))" "lists_inbound i c \<longleftrightarrow> i \<in> set (lenient_ids (cl_Inbounds c))"
proof -
  obtain ns where "ids_of (cl_Inbounds c) = Inr ns" using assms(2) by (cases "ids_of (cl_Inbounds c)") (auto simp: clean_client_def)
  then show "lists_inbound i (f c) \<longleftrightarrow> i \<in> set (g (lenient_ids (cl_Inbounds c)))" "lists_inbound i c \<longleftrightarrow> i \<in> set (lenient_ids (cl_Inbounds c))"
    using assms lists_inbound_iff [of c ns i] lists_inbound_iff [of "f c" _ i] lenient_ids_of by (auto simp: relists_def)
qed

lemma relisted_clean: "relists g f \<Longrightarrow> clean_client c \<Longrightarrow> clean_client (f c)"
  using identity_cong [of "f c" c] by (auto simp: relists_def clean_client_def)

lemma relisted_db:
  assumes f: "relists g f" and clean: "clients_clean db" and db': "db' = db\<lparr>db_Clients := update_rows P f (db_Clients db)\<rparr>"
  shows "clients_clean db'" "db_ok db \<Longrightarrow> db_ok db'" "db_clean db' = db_clean db"
    "0 < i \<Longrightarrow> (\<And>ns. i \<in> set (g ns) \<longleftrightarrow> i \<in> set ns) \<Longrightarrow> contributions i (db_Clients db') = contributions i (db_Clients db)"
proof -
  show "clients_clean db'" using clean relisted_clean [OF f] by (auto simp: db' clients_clean_def update_rows_def list_all_iff)
  show "db_ok db \<Longrightarrow> db_ok db'" using f by (simp add: db' db_ok_def tables_ok relists_def)
  show "db_clean db' = db_clean db" by (simp add: db' db_clean_def)
  assume i: "0 < i" "\<And>ns. i \<in> set (g ns) \<longleftrightarrow> i \<in> set ns"
  have "contribution i (f c) = contribution i c" if "c \<in> set (tb_Rows (db_Clients db))" for c
    using relisted_lists [OF f _ i(1), of c] i(2) f clean that by (auto simp: contribution_def relists_def clients_clean_def list_all_iff)
  then show "contributions i (db_Clients db') = contributions i (db_Clients db)"
    unfolding db' by (simp add: contributions_updated)
qed

lemma added_relists: "relists (\<lambda>ns. ns @ [n]) (\<lambda>c. c\<lparr>cl_Inbounds := uints_raw (lenient_ids (cl_Inbounds c) @ [n]), cl_Links := l c\<rparr>)"
  by (simp add: relists_def ids_of_def)

lemma deleted_relists: "relists (filter (\<lambda>k. k \<noteq> i)) (inbound_deleted i tag)"
proof -
  have "decode_uints (nil_ids_raw ns) = Some ns" for ns by (cases "ns = []") (simp_all add: nil_ids_raw_def, simp add: decode_uints_def)
  then show ?thesis by (simp add: relists_def inbound_deleted_def ids_of_def)
qed

text \<open>The clients an inbound is given to, as both services read the request.\<close>

definition user_list_ok :: "string \<Rightarrow> bool" where
  "user_list_ok s \<longleftrightarrow> TrimSpace s = s
     \<and> list_all (\<lambda>p. list_all (\<lambda>c. c \<in> set ''0123456789'') (TrimSpace p)) (Split s (CHR '',''))"

lemma user_list:
  assumes "user_list_ok s" "0 < k"
  shows "Some k \<in> set (map text_id (Split s (CHR '',''))) \<longleftrightarrow> k \<in> set (initial_ids s)"
proof -
  let ?n = "\<lambda>s. case Atoi s of Some n \<Rightarrow> nat n | None \<Rightarrow> 0" and ?ps = "Split s (CHR '','')"
  have parsed: "text_id p = Some k \<longleftrightarrow> TrimSpace p \<noteq> [] \<and> ?n (TrimSpace p) = k" for p
  proof -
    have "Atoi [] = None" by code_simp
    then show ?thesis using assms(2) by (cases "TrimSpace p") (auto simp: text_id_def split: option.split)
  qed
  have digits: "list_all (\<lambda>c. c \<in> set ''0123456789'') (TrimSpace p)" if "p \<in> set ?ps" for p
    using assms(1) that unfolding user_list_ok_def list_all_iff by blast
  have "initial_ids s = map ?n (filter (\<lambda>s. s \<noteq> [] \<and> list_all (\<lambda>c. c \<in> set ''0123456789'') s) (map TrimSpace ?ps))"
    unfolding initial_ids_def Let_def ..
  then have "k \<in> set (initial_ids s) \<longleftrightarrow> (\<exists>p\<in>set ?ps. TrimSpace p \<noteq> [] \<and> ?n (TrimSpace p) = k)"
    using digits by (auto simp only: set_map set_filter image_iff mem_Collect_eq)
  moreover have "Some k \<in> set (map text_id ?ps) \<longleftrightarrow> (\<exists>p\<in>set ?ps. text_id p = Some k)"
    unfolding set_map image_iff by (rule bex_cong) auto
  ultimately show ?thesis by (simp only: parsed)
qed

lemma UpdateClientsOnInboundAdd_effect:
  assumes ok: "table_ok cl_Id (db_Clients db)" and run: "UpdateClientsOnInboundAdd env db users n hostname = Inr db'"
  shows "\<exists>l. db' = db\<lparr>db_Clients := update_rows (\<lambda>c. Some (cl_Id c) \<in> set (map text_id (Split users (CHR '',''))))
    (\<lambda>c. c\<lparr>cl_Inbounds := uints_raw (lenient_ids (cl_Inbounds c) @ [n]), cl_Links := l c\<rparr>) (db_Clients db)\<rparr>"
proof -
  let ?P = "\<lambda>c. Some (cl_Id c) \<in> set (map text_id (Split users (CHR '','')))"
  let ?cs = "filter ?P (tb_Rows (db_Clients db))"
  obtain inb where each: "eachr (\<lambda>c db. bindr (generated_links env c inb hostname) (\<lambda>new.
       Inr (save_client (c\<lparr>cl_Inbounds := uints_raw (lenient_ids (cl_Inbounds c) @ [n]),
         cl_Links := nil_links_raw (new @ filter (\<lambda>l. link_get l ''remark'' \<noteq> in_Tag inb) (lenient_links (cl_Links c)))\<rparr>) db))) ?cs db = Inr db'"
    using run unfolding UpdateClientsOnInboundAdd_def Let_def inbound_added_def [abs_def] by blast
  have d: "distinct (map cl_Id ?cs)" using clients.ok_rows(2) [OF ok] by (rule distinct_map_filter)
  from each_saved [OF ok _ d _ each] obtain l where
    "db' = db\<lparr>db_Clients := update_rows (\<lambda>c. c \<in> set ?cs) (\<lambda>c. c\<lparr>cl_Inbounds := uints_raw (lenient_ids (cl_Inbounds c) @ [n]),
      cl_Links := nil_links_raw (l c @ filter (\<lambda>l. link_get l ''remark'' \<noteq> in_Tag inb) (lenient_links (cl_Links c)))\<rparr>) (db_Clients db)\<rparr>"
    by auto
  moreover have "update_rows (\<lambda>c. c \<in> set ?cs) f (db_Clients db) = update_rows ?P f (db_Clients db)" for f :: "client \<Rightarrow> client"
    by (simp add: update_rows_def)
  ultimately have "db' = db\<lparr>db_Clients := update_rows ?P (\<lambda>c. c\<lparr>cl_Inbounds := uints_raw (lenient_ids (cl_Inbounds c) @ [n]),
      cl_Links := nil_links_raw (l c @ filter (\<lambda>l. link_get l ''remark'' \<noteq> in_Tag inb) (lenient_links (cl_Links c)))\<rparr>) (db_Clients db)\<rparr>"
    by (simp only:)
  then show ?thesis
    by (intro exI [of _ "\<lambda>c. nil_links_raw (l c @ filter (\<lambda>l. link_get l ''remark'' \<noteq> in_Tag inb) (lenient_links (cl_Links c)))"])
qed

lemma UpdateClientsOnInboundDelete_effect:
  assumes ok: "table_ok cl_Id (db_Clients db)" and run: "UpdateClientsOnInboundDelete db i tag = Inr db'"
  shows "db' = db\<lparr>db_Clients := update_rows (lists_inbound i) (inbound_deleted i tag) (db_Clients db)\<rparr>"
proof -
  let ?cs = "filter (lists_inbound i) (tb_Rows (db_Clients db))"
  have db': "db' = foldl (\<lambda>db c. save_client (inbound_deleted i tag c) db) db ?cs"
    using run by (auto simp: UpdateClientsOnInboundDelete_def clients_of_inbound_def bindr_Inr_iff split: if_splits)
  have "foldl (\<lambda>db c. save_client (inbound_deleted i tag c) db) db cs
      = db\<lparr>db_Clients := foldl (\<lambda>t c. save_row cl_Id (\<lambda>k. with_cl_Id k) c t) (db_Clients db) (map (inbound_deleted i tag) cs)\<rparr>" for cs
    by (induction cs arbitrary: db) (simp_all add: save_client_def)
  moreover have "foldl (\<lambda>t c. save_row cl_Id (\<lambda>k. with_cl_Id k) c t) (db_Clients db) (map (inbound_deleted i tag) ?cs)
      = update_rows (\<lambda>c. c \<in> set ?cs) (inbound_deleted i tag) (db_Clients db)"
    using clients.ok_rows(2) [OF ok] by (intro clients.save_changed [OF ok]) (auto simp: inbound_deleted_def intro: distinct_map_filter)
  moreover have "update_rows (\<lambda>c. c \<in> set ?cs) f (db_Clients db) = update_rows (lists_inbound i) f (db_Clients db)" for f :: "client \<Rightarrow> client"
    by (simp add: update_rows_def)
  ultimately show ?thesis using db' by simp
qed

section \<open>What the core and the table get\<close>

definition reload_tag :: "panel_db \<Rightarrow> string \<Rightarrow> nat \<Rightarrow> string option" where
  "reload_tag db act k = (if act = ''edit'' \<and> singbox_row (old_inbound db k) then Some (in_Tag (old_inbound db k)) else None)"

abbreviation without :: "string option \<Rightarrow> (string \<rightharpoonup> gmap) \<Rightarrow> string \<rightharpoonup> gmap" where
  "without oldTag f \<equiv> (case oldTag of None \<Rightarrow> f | Some o' \<Rightarrow> f(o' := None))"

lemma reloaded_items:
  assumes run: "reload_inbound env db act i users core = (Inr u, core')" and r: "co_Running core"
  shows "co_Running core' \<and> (\<forall>k. k \<noteq> Inbounds \<longrightarrow> co_Items core' k = co_Items core k)"
    and "\<not> singbox_row i \<Longrightarrow> co_Items core' Inbounds = without (reload_tag db act (in_Id i)) (co_Items core Inbounds)"
    and "singbox_row i \<Longrightarrow> \<exists>cfg m. Inbound_MarshalJSON i = Inr cfg
      \<and> (if act = ''edit'' then addUsers db cfg (in_Id i) (in_Type i) else initUsers db cfg users (in_Type i)) = Inr (RVal (GMap m))
      \<and> co_Items core' Inbounds = (without (reload_tag db act (in_Id i)) (co_Items core Inbounds))(tag_of m := Some m)"
proof -
  let ?old = "reload_tag db act (in_Id i)"
  obtain u1 core1 where rem: "(if act = ''edit'' \<and> RuntimeCore (old_inbound db (in_Id i)) = CoreTypeSingBox
        then ignore_invalid (remove_item (sv_CoreEnv env) Inbounds (in_Tag (old_inbound db (in_Id i)))) else lift_svc (Inr ())) core = (Inr u1, core1)"
    and add: "(if RuntimeCore i = CoreTypeSingBox then
          bind_svc (lift_svc (bindr (Inbound_MarshalJSON i) (\<lambda>cfg.
              if act = ''edit'' then addUsers db cfg (in_Id i) (in_Type i) else initUsers db cfg users (in_Type i))))
            (add_item (sv_CoreEnv env) Inbounds)
        else lift_svc (Inr ())) core1 = (Inr u, core')"
    using run r unfolding reload_inbound_def if_running_Inr bind_svc_Inr core_ops by auto
  have core1: "co_Running core1" "co_Items core1 Inbounds = without ?old (co_Items core Inbounds)"
    "k \<noteq> Inbounds \<Longrightarrow> co_Items core1 k = co_Items core k" for k
    using rem r drop_item_Inr(2) [of "sv_CoreEnv env" Inbounds "in_Tag (old_inbound db (in_Id i))" core u1 core1]
    by (auto simp: reload_tag_def singbox_row_iff lift_svc_Inr fun_eq_iff split: if_splits)
  show "co_Running core' \<and> (\<forall>k. k \<noteq> Inbounds \<longrightarrow> co_Items core' k = co_Items core k)"
    using add core1(1,3) by (auto simp: svc_Inr add_item_Inr fun_eq_iff split: if_splits)
  show "\<not> singbox_row i \<Longrightarrow> co_Items core' Inbounds = without ?old (co_Items core Inbounds)"
    using add core1(2) by (simp add: singbox_row_iff lift_svc_Inr)
  assume "singbox_row i"
  then obtain cfg m where "Inbound_MarshalJSON i = Inr cfg"
      "(if act = ''edit'' then addUsers db cfg (in_Id i) (in_Type i) else initUsers db cfg users (in_Type i)) = Inr (RVal (GMap m))"
      "core' = set_item Inbounds (tag_of m) (Some m) core1"
    using add by (auto simp: singbox_row_iff svc_Inr bindr_Inr_iff add_item_Inr)
  then show "\<exists>cfg m. Inbound_MarshalJSON i = Inr cfg
      \<and> (if act = ''edit'' then addUsers db cfg (in_Id i) (in_Type i) else initUsers db cfg users (in_Type i)) = Inr (RVal (GMap m))
      \<and> co_Items core' Inbounds = (without ?old (co_Items core Inbounds))(tag_of m := Some m)"
    using core1(2) by (intro exI conjI) (auto simp: fun_eq_iff)
qed

lemma saved_inbound_view:
  assumes ok: "table_ok in_Id (db_Inbounds db)" "tags_ok in_Tag (db_Inbounds db)" and clean: "list_all clean_inbound (tb_Rows (db_Inbounds db))"
    and saved: "save_tagged in_Id (\<lambda>k. with_in_Id k) in_Tag r (db_Inbounds db) = Inr (row, db_Inbounds db')"
    and new: "act \<noteq> ''edit'' \<Longrightarrow> in_Id r = 0"
    and same: "\<And>x. x \<in> set (tb_Rows (db_Inbounds db)) \<Longrightarrow> inbound_config db' x = inbound_config db x"
    and agree: "view items = view (expected db Inbounds)"
    and other: "\<not> singbox_row r \<Longrightarrow> items' = without (reload_tag db act (in_Id r)) items"
    and here: "singbox_row r \<Longrightarrow> \<exists>m. items' = (without (reload_tag db act (in_Id r)) items)(in_Tag r := Some m)
      \<and> map_option plain (config_value (inbound_config db' row)) = Some (plain m)"
  shows "view items' = view (expected db' Inbounds)"
proof -
  let ?rows = "tb_Rows (db_Inbounds db)" and ?old = "reload_tag db act (in_Id r)"
  let ?conf = "configured in_Tag (inbound_item db') ?rows"
  have old: "?old = Some (in_Tag x) \<or> config_value (inbound_item db' x) = None" if "find_row in_Id (in_Id r) (db_Inbounds db) = Some x" for x
    using that new inbounds.find_zero [OF ok(1)] by (cases "act = ''edit''") (auto simp: reload_tag_def old_inbound_def)
  have "(view (without ?old ?conf))(in_Tag r := None) = view (without ?old ?conf)"
    using inbound_items.saved_tag_free [OF ok saved old] by (intro fun_upd_idem) (simp add: view_def)
  moreover have "(view (without ?old ?conf))(in_Tag r := map_option plain (config_value (inbound_item db' row))) = view (expected db' Inbounds)"
  proof -
    have "(without ?old ?conf)(in_Tag r := config_value (inbound_item db' row)) = configured in_Tag (inbound_item db') (tb_Rows (db_Inbounds db'))"
    proof (rule inbound_items.saved_items [OF ok saved old])
      show "find_row in_Id (in_Id r) (db_Inbounds db) \<noteq> None \<and> (\<forall>x. find_row in_Id (in_Id r) (db_Inbounds db) = Some x \<longrightarrow> o' = in_Tag x)"
        if "?old = Some o'" "o' \<noteq> []" for o'
        using that by (auto simp: reload_tag_def old_inbound_def empty_inbound_def split: if_splits option.splits)
      show "\<forall>x\<in>set ?rows. in_Tag x \<noteq> []" using clean by (auto simp: clean_inbound_def list_all_iff)
    qed
    moreover have "tags_ok in_Tag (db_Inbounds db')" by (rule inbounds.save_tags_ok [OF ok saved])
    ultimately show ?thesis by (simp add: expected_inbounds flip: view_upd)
  qed
  moreover have "view (without ?old items) = view (without ?old ?conf)"
  proof -
    have "?conf = configured in_Tag (inbound_item db) ?rows" by (rule ext, rule configured_same) (simp add: inbound_item_def same)
    then have "view items = view ?conf" using agree by (simp add: expected_inbounds [OF ok(2)])
    then show ?thesis by (simp split: option.split)
  qed
  moreover have "singbox_row row = singbox_row r"
    using saved by (auto simp: inbounds.save_tagged_Inr keyed_def singbox_row_def)
  ultimately show ?thesis
    using other here by (cases "singbox_row r") (auto simp: inbound_item_def NewError_def)
qed

section \<open>Saving an inbound\<close>

text \<open>
  A request to save an inbound: it has a tag; a new one has no number, its number to come is not
  listed by a client, and its list of clients is the panel's own (numbers joined by commas).
\<close>

definition proper_inbound :: "panel_db \<Rightarrow> string \<Rightarrow> raw \<Rightarrow> string \<Rightarrow> bool" where
  "proper_inbound db act data users \<longleftrightarrow> (case decode_map data of
     None \<Rightarrow> True
   | Some m \<Rightarrow> as_str (mget m ''tag'') \<noteq> [] \<and> (act = ''edit'' \<longrightarrow> set_uint 0 (mget m ''id'') \<noteq> 0)
       \<and> (act = ''new'' \<longrightarrow> set_uint 0 (mget m ''id'') = 0 \<and> user_list_ok users
            \<and> list_all (\<lambda>c. \<not> lists_inbound (Suc (tb_Seq (db_Inbounds db))) c) (tb_Rows (db_Clients db))))"

lemma new_inbound_users:
  assumes ok: "table_ok cl_Id (db_Clients db)" and clean: "clients_clean db" and f: "relists (\<lambda>ns. ns @ [n]) f" and users: "user_list_ok users"
    and db': "db_Clients db' = update_rows (\<lambda>c. Some (cl_Id c) \<in> set (map text_id (Split users (CHR '','')))) f (db_Clients db)" "clients_clean db'"
    and n: "0 < n" "list_all (\<lambda>c. \<not> lists_inbound n c) (tb_Rows (db_Clients db))"
    and cfg: "cfg = RVal (GMap m0)" "m0 = map (map_prod id json_norm) m1" "mget m0 ''users'' = GNil"
    and run: "initUsers db cfg users ty = Inr (RVal (GMap m))"
  shows "map_option plain (config_value (addUsers db' cfg n ty)) = Some (plain m)"
proof -
  let ?ids = "initial_ids users"
  let ?sel = "\<lambda>P c. if cl_Enable c \<and> P c then Some (cl_Config c) else None"
  have one: "?sel (lists_inbound n) (if Some (cl_Id c) \<in> set (map text_id (Split users (CHR '',''))) then f c else c) = ?sel (\<lambda>c. cl_Id c \<in> set ?ids) c"
    if c: "c \<in> set (tb_Rows (db_Clients db))" for c
  proof -
    have "0 < cl_Id c" using clients.ok_rows(3) [OF ok c] by simp
    then have iff: "Some (cl_Id c) \<in> set (map text_id (Split users (CHR '',''))) \<longleftrightarrow> cl_Id c \<in> set ?ids" by (rule user_list [OF users])
    have cc: "clean_client c" using clean c by (auto simp: clients_clean_def list_all_iff)
    have "lists_inbound n (f c)" "\<not> lists_inbound n c" using relisted_lists(1) [OF f cc n(1)] n(2) c by (auto simp: list_all_iff)
    then show ?thesis unfolding iff using f by (simp add: relists_def)
  qed
  have pointwise: "List.map_filter g (map h rows) = List.map_filter g' rows" if "\<And>c. c \<in> set rows \<Longrightarrow> g (h c) = g' c"
    for g g' :: "client \<Rightarrow> raw option" and h rows
    using that by (induction rows) (auto simp: List.map_filter_simps split: option.split)
  have sel: "List.map_filter (?sel (lists_inbound n)) (tb_Rows (db_Clients db')) = List.map_filter (?sel (\<lambda>c. cl_Id c \<in> set ?ids)) (tb_Rows (db_Clients db))"
  proof -
    have "tb_Rows (db_Clients db') = map (\<lambda>c. if Some (cl_Id c) \<in> set (map text_id (Split users (CHR '',''))) then f c else c) (tb_Rows (db_Clients db))"
      unfolding db'(1) update_rows_def by simp
    then show ?thesis by (simp only:) (rule pointwise, rule one)
  qed
  have trim: "TrimSpace users = users" using users by (simp add: user_list_ok_def)
  have empty: "initial_ids [] = []" by code_simp
  show ?thesis
  proof (cases "hasUser ty \<and> ?ids \<noteq> []")
    case True
    then have "put_users db cfg (\<lambda>c. cl_Id c \<in> set ?ids) ty = Inr (RVal (GMap m))" using run empty by (auto simp: initUsers_def trim Let_def split: if_splits)
    then show ?thesis using True put_users_where [OF clean db'(2) sel] by (simp add: addUsers_def)
  next
    case False
    then have m: "m = m0" using run by (auto simp: initUsers_def trim Let_def cfg(1) split: if_splits)
    show ?thesis
    proof (cases "hasUser ty")
      case True
      then have "?ids = []" using False by simp
      then have "List.map_filter (?sel (lists_inbound n)) (tb_Rows (db_Clients db')) = []" using sel by (simp add: List.map_filter_def)
      then show ?thesis using True nobody_given [OF db'(2)] plain_no_users [OF cfg(2,3)] by (simp add: addUsers_def cfg(1) m)
    qed (simp add: addUsers_def cfg(1) m)
  qed
qed

lemma FillOutJson_only_out: "FillOutJson env i hostname = Inr j \<Longrightarrow> only_out i j"
  by (auto simp: FillOutJson_def bindr_Inr_iff only_out_def split: if_splits option.splits)

text \<open>The rows that are stored, and the configuration the core was given.\<close>

lemma save_inbound_parts:
  assumes step: "in_step db core" and act: "act = ''new'' \<or> act = ''edit''" and data: "proper_inbound db act data users"
    and run: "save_inbound env db act data users hostname core = (Inr db', core')"
  obtains i r row t db1 u where "reload_inbound env db act i users core = (Inr u, core')"
    "save_tagged in_Id (\<lambda>k. with_in_Id k) in_Tag r (db_Inbounds db) = Inr (row, t)" "db1 = db\<lparr>db_Inbounds := t\<rparr>"
    "clean_inbound r" "no_own_users i" "act = ''new'' \<Longrightarrow> in_Id r = 0" "act = ''edit'' \<Longrightarrow> in_Id r \<noteq> 0"
    "in_Id i = in_Id r" "in_Type i = in_Type r" "in_Tag i = in_Tag r" "singbox_row i = singbox_row r"
    "Inbound_MarshalJSON i = Inbound_MarshalJSON (preload_inbound db r)"
    "act = ''new'' \<Longrightarrow> UpdateClientsOnInboundAdd (sv_Client env) db1 users (in_Id row) hostname = Inr db'"
    "act = ''edit'' \<Longrightarrow> \<exists>rows tag. UpdateLinksByInboundChange (sv_Client env) db1 rows hostname tag = Inr db'"
proof -
  obtain i0 i u i2 row' db1 where i0: "Inbound_UnmarshalJSON empty_inbound data = Inr i0" and i: "i = (if in_TlsId i0 > 0 then preload_inbound db i0 else i0)"
    and reload: "reload_inbound env db act i users core = (Inr u, core')" and fill: "FillOutJson (ce_Link (sv_Client env)) i hostname = Inr i2"
    and store: "store_inbound i2 db = Inr (row', db1)"
    and final: "(if act = ''new'' then UpdateClientsOnInboundAdd (sv_Client env) db1 users (in_Id row') hostname
           else UpdateLinksByInboundChange (sv_Client env) db1 [row'] hostname (in_Tag (old_inbound db (in_Id i)))) = Inr db'"
    using run unfolding save_inbound_def bind_svc_Inr lift_svc_Inr Let_def by (auto simp: svc_Inr split: prod.splits)
  let ?r = "i2\<lparr>in_Tls := None\<rparr>"
  obtain row t where saved: "save_tagged in_Id (\<lambda>k. with_in_Id k) in_Tag ?r (db_Inbounds db) = Inr (row, t)" and db1: "db1 = db\<lparr>db_Inbounds := t\<rparr>"
    and row': "row' = row\<lparr>in_Tls := in_Tls i2\<rparr>"
    using store by (auto simp: store_inbound_def bindr_Inr_iff)
  note out = only_out_fields [OF FillOutJson_only_out [OF fill]]
  obtain m where m: "decode_map data = Some m" using i0 by (auto simp: Inbound_UnmarshalJSON_def split: option.splits)
  note dec = Inbound_decoded [OF i0] and asked = data [unfolded proper_inbound_def m option.case]
  have f: "in_Id i = in_Id i0" "in_Tag i = in_Tag i0" "in_Options i = in_Options i0" "in_TlsId i = in_TlsId i0" "in_Type i = in_Type i0"
    by (simp_all add: i preload_inbound_def)
  have tls: "in_Tls i = find_row tls_Id (in_TlsId i0) (db_Tls db)"
    using step tlss.find_zero [of "db_Tls db"] dec(1) by (simp add: i preload_inbound_def in_step_def db_ok_def)
  show thesis
  proof (rule that [OF reload saved db1])
    show "clean_inbound ?r" using dec(3) [OF m] dec(5) asked by (simp add: clean_inbound_def out f)
    show "no_own_users i" using dec(2) by (simp add: no_own_users_def f)
    show "act = ''new'' \<Longrightarrow> in_Id ?r = 0" "act = ''edit'' \<Longrightarrow> in_Id ?r \<noteq> 0" using asked dec(4) [OF m] by (simp_all add: out f)
    show "Inbound_MarshalJSON i = Inbound_MarshalJSON (preload_inbound db ?r)"
      by (simp add: Inbound_MarshalJSON_def preload_inbound_def out f tls cong: option.case_cong sum.case_cong)
    show "act = ''new'' \<Longrightarrow> UpdateClientsOnInboundAdd (sv_Client env) db1 users (in_Id row) hostname = Inr db'" using final by (simp add: row')
    show "act = ''edit'' \<Longrightarrow> \<exists>rows tag. UpdateLinksByInboundChange (sv_Client env) db1 rows hostname tag = Inr db'" using final act by auto
  qed (simp_all add: out singbox_row_def)
qed

lemma table_in_step:
  assumes step: "in_step db core" and saved: "save_tagged in_Id (\<lambda>k. with_in_Id k) in_Tag r (db_Inbounds db) = Inr (row, t)" and r: "clean_inbound r"
  shows "db_ok (db\<lparr>db_Inbounds := t\<rparr>)" "db_clean (db\<lparr>db_Inbounds := t\<rparr>)"
proof -
  have ok: "table_ok in_Id (db_Inbounds db)" "tags_ok in_Tag (db_Inbounds db)" using step by (simp_all add: in_step_def db_ok_def)
  have "table_ok in_Id t" "tags_ok in_Tag t" using saved inbounds.save_ok [OF ok(1)] inbounds.save_tags_ok [OF ok saved] by (auto simp: inbounds.save_tagged_Inr)
  then show "db_ok (db\<lparr>db_Inbounds := t\<rparr>)" using step by (simp add: in_step_def db_ok_def)
  have "clean_inbound row" using saved r by (auto simp: inbounds.save_tagged_Inr keyed_def clean_inbound_def)
  then have "list_all clean_inbound (tb_Rows t)"
    using saved step by (auto simp: inbounds.save_tagged_Inr inbounds.save_rows list_all_iff in_step_def db_clean_def)
  then show "db_clean (db\<lparr>db_Inbounds := t\<rparr>)" using step by (simp add: in_step_def db_clean_def)
qed

lemma agrees_inbounds:
  assumes agree: "agrees db core" and idle: "\<not> co_Running core \<Longrightarrow> core' = core"
    and run: "co_Running core \<Longrightarrow> co_Running core' \<and> (\<forall>k. k \<noteq> Inbounds \<longrightarrow> co_Items core' k = co_Items core k)"
    and view: "co_Running core \<Longrightarrow> view (co_Items core Inbounds) = view (expected db Inbounds) \<Longrightarrow> view (co_Items core' Inbounds) = view (expected db' Inbounds)"
    and others: "\<And>k. k \<noteq> Inbounds \<Longrightarrow> expected db' k = expected db k"
  shows "agrees db' core'"
proof (rule agrees_changed [where k = Inbounds, OF _ idle others agree])
  assume r: "co_Running core"
  then have "view (co_Items core Inbounds) = view (expected db Inbounds)" using agree by (simp add: agrees_def)
  then show "co_Running core' \<and> view (co_Items core' Inbounds) = view (expected db' Inbounds) \<and> (\<forall>k'. k' \<noteq> Inbounds \<longrightarrow> co_Items core' k' = co_Items core k')"
    by (intro conjI view [OF r] conjunct1 [OF run [OF r]] conjunct2 [OF run [OF r]])
qed

lemma save_inbound_in_step:
  assumes step: "in_step db core" and cc: "clients_clean db" and act: "act = ''new'' \<or> act = ''edit''" and data: "proper_inbound db act data users"
    and run: "save_inbound env db act data users hostname core = (Inr db', core')"
  shows "in_step db' core' \<and> clients_clean db'"
proof -
  have ok: "table_ok in_Id (db_Inbounds db)" "tags_ok in_Tag (db_Inbounds db)" "table_ok cl_Id (db_Clients db)"
    and clean: "list_all clean_inbound (tb_Rows (db_Inbounds db))" and agree: "agrees db core"
    using step by (simp_all add: in_step_def db_ok_def db_clean_def)
  obtain i r row t db1 u where
    reload: "reload_inbound env db act i users core = (Inr u, core')"
    and saved: "save_tagged in_Id (\<lambda>k. with_in_Id k) in_Tag r (db_Inbounds db) = Inr (row, t)" and db1: "db1 = db\<lparr>db_Inbounds := t\<rparr>"
    and r: "clean_inbound r" "no_own_users i" "act = ''new'' \<Longrightarrow> in_Id r = 0" "act = ''edit'' \<Longrightarrow> in_Id r \<noteq> 0"
    and ir: "in_Id i = in_Id r" "in_Type i = in_Type r" "in_Tag i = in_Tag r" "singbox_row i = singbox_row r"
    and marshal: "Inbound_MarshalJSON i = Inbound_MarshalJSON (preload_inbound db r)"
    and added: "act = ''new'' \<Longrightarrow> UpdateClientsOnInboundAdd (sv_Client env) db1 users (in_Id row) hostname = Inr db'"
    and edited: "act = ''edit'' \<Longrightarrow> \<exists>rows tag. UpdateLinksByInboundChange (sv_Client env) db1 rows hostname tag = Inr db'"
    by (rule save_inbound_parts [OF step act data run]) (rule that; blast)
  note fine = table_in_step [OF step saved r(1)]
  have cc1: "clients_clean db1" using cc by (simp add: db1 clients_clean_def)
  have row: "row = keyed in_Id (\<lambda>k. with_in_Id k) (db_Inbounds db) r" and t: "t = save_row in_Id (\<lambda>k. with_in_Id k) r (db_Inbounds db)"
    using saved by (auto simp: inbounds.save_tagged_Inr)
  have idle: "\<not> co_Running core \<Longrightarrow> core' = core" using reload by (simp add: reload_inbound_def if_running_def lift_svc_Inr)
  have final: "agrees db2 core'"
    if t': "db_Inbounds db2 = t" and same: "\<And>x. x \<in> set (tb_Rows (db_Inbounds db)) \<Longrightarrow> inbound_config db2 x = inbound_config db x"
      and others: "\<And>k. k \<noteq> Inbounds \<Longrightarrow> expected db2 k = expected db k"
      and here: "\<And>cfg m. Inbound_MarshalJSON i = Inr cfg \<Longrightarrow>
        (if act = ''edit'' then addUsers db cfg (in_Id i) (in_Type i) else initUsers db cfg users (in_Type i)) = Inr (RVal (GMap m)) \<Longrightarrow>
        tag_of m = in_Tag r \<and> map_option plain (config_value (inbound_config db2 row)) = Some (plain m)" for db2
  proof (rule agrees_inbounds [OF agree idle _ _ others])
    assume running: "co_Running core"
    note eff = reloaded_items [OF reload running, unfolded ir(4) ir(1)]
    show "co_Running core' \<and> (\<forall>k. k \<noteq> Inbounds \<longrightarrow> co_Items core' k = co_Items core k)" using eff(1) by blast
    assume old: "view (co_Items core Inbounds) = view (expected db Inbounds)"
    show "view (co_Items core' Inbounds) = view (expected db2 Inbounds)"
    proof (rule saved_inbound_view [OF ok(1,2) clean saved [folded t'] _ same old eff(2)])
      show "act \<noteq> ''edit'' \<Longrightarrow> in_Id r = 0" using act r(3) by blast
      show "\<exists>m. co_Items core' Inbounds = (without (reload_tag db act (in_Id r)) (co_Items core Inbounds))(in_Tag r := Some m)
          \<and> map_option plain (config_value (inbound_config db2 row)) = Some (plain m)" if "singbox_row r"
        using eff(3) [OF that] here unfolding ir(1) by metis
    qed
  qed
  show ?thesis
  proof (cases "act = ''edit''")
    case True
    have row_r: "row = r" using r(4) True by (simp add: row keyed_def)
    have "agrees db1 core'"
    proof (rule final)
      fix cfg m
      assume "Inbound_MarshalJSON i = Inr cfg"
        "(if act = ''edit'' then addUsers db cfg (in_Id i) (in_Type i) else initUsers db cfg users (in_Type i)) = Inr (RVal (GMap m))"
      then have c: "inbound_config db r = Inr (RVal (GMap m))" using True by (simp add: inbound_config_def marshal ir)
      then show "tag_of m = in_Tag r \<and> map_option plain (config_value (inbound_config db1 row)) = Some (plain m)"
        using inbound_config_tag [OF r(1) c] by (simp add: db1 row_r)
    qed (simp_all add: db1 expected_other_table)
    moreover obtain rows tag where "UpdateLinksByInboundChange (sv_Client env) db1 rows hostname tag = Inr db'" using edited True by blast
    then have "silent db1 db'" by (rule UpdateLinks_silent [OF fine [folded db1] cc1])
    note silent_facts [OF this fine [folded db1] cc1]
    ultimately show ?thesis by (simp add: in_step_def agrees_def)
  next
    case False
    then have new: "act = ''new''" using act by blast
    let ?n = "Suc (tb_Seq (db_Inbounds db))"
    have row_n: "row = with_in_Id ?n r" using r(3) new by (simp add: row keyed_def)
    have m: "user_list_ok users" "list_all (\<lambda>c. \<not> lists_inbound ?n c) (tb_Rows (db_Clients db))"
      using data new run by (auto simp: proper_inbound_def save_inbound_def svc_Inr Inbound_UnmarshalJSON_def split: option.splits)
    have ok1: "table_ok cl_Id (db_Clients db1)" using ok(3) by (simp add: db1)
    have run': "UpdateClientsOnInboundAdd (sv_Client env) db1 users ?n hostname = Inr db'" using added new row_n by simp
    from UpdateClientsOnInboundAdd_effect [OF ok1 run'] obtain l where
      db': "db' = db1\<lparr>db_Clients := update_rows (\<lambda>c. Some (cl_Id c) \<in> set (map text_id (Split users (CHR '',''))))
        (\<lambda>c. c\<lparr>cl_Inbounds := uints_raw (lenient_ids (cl_Inbounds c) @ [?n]), cl_Links := l c\<rparr>) (db_Clients db1)\<rparr>" by blast
    note rel = relisted_db [OF added_relists cc1 db']
    have "agrees db' core'"
    proof (rule final)
      show "db_Inbounds db' = t" by (simp add: db' db1)
      show "inbound_config db' x = inbound_config db x" if x: "x \<in> set (tb_Rows (db_Inbounds db))" for x
      proof -
        have i: "0 < in_Id x" "in_Id x \<noteq> ?n" using inbounds.ok_rows(3) [OF ok(1) x] by simp_all
        have "contributions (in_Id x) (db_Clients db') = contributions (in_Id x) (db_Clients db1)" using rel(4) [OF i(1)] i(2) by simp
        then have "inbound_config db' x = inbound_config db1 x" by (intro inbound_config_same [OF cc1 rel(1)]) (simp_all add: db')
        then show ?thesis by (simp add: db1)
      qed
      show "expected db' k = expected db k" if "k \<noteq> Inbounds" for k
        using expected_clients [OF db' that] expected_other_table [OF that] by (simp add: db1)
      fix cfg m
      assume cfg: "Inbound_MarshalJSON i = Inr cfg"
        and users: "(if act = ''edit'' then addUsers db cfg (in_Id i) (in_Type i) else initUsers db cfg users (in_Type i)) = Inr (RVal (GMap m))"
      then have users: "initUsers db cfg users (in_Type r) = Inr (RVal (GMap m))" by (simp add: new ir)
      obtain m0 where m0: "cfg = RVal (GMap (map (map_prod id json_norm) m0))" "mget (map (map_prod id json_norm) m0) ''users'' = GNil"
        using Inbound_marshalled [OF cfg r(2)] by blast
      have "tag_of (map (map_prod id json_norm) m0) = in_Tag r" using Inbound_config [OF r(1)] cfg m0(1) by (auto simp: marshal)
      then have "tag_of m = in_Tag r"
        using users put_users_tag [of db _ _ "in_Type r" "RVal (GMap m)"] unfolding m0(1) by (fastforce simp: initUsers_def Let_def split: if_splits)
      moreover have "map_option plain (config_value (addUsers db' cfg ?n (in_Type r))) = Some (plain m)"
        by (rule new_inbound_users [OF ok(3) cc added_relists m(1) _ rel(1) _ m(2) m0(1) refl m0(2) users]) (simp_all add: db' db1)
      moreover have "inbound_config db' row = addUsers db' cfg ?n (in_Type r)"
        using cfg by (simp add: inbound_config_def row_n marshal) (simp add: Inbound_MarshalJSON_def preload_inbound_def db' db1 cong: option.case_cong sum.case_cong)
      ultimately show "tag_of m = in_Tag r \<and> map_option plain (config_value (inbound_config db' row)) = Some (plain m)" by simp
    qed
    then show ?thesis using rel(1,2,3) fine by (simp add: in_step_def db1)
  qed
qed

lemma delete_inbound_in_step:
  assumes step: "in_step db core" and cc: "clients_clean db"
    and run: "delete_inbound env db data core = (Inr db', core')"
  shows "in_step db' core' \<and> clients_clean db'"
proof -
  have ok: "table_ok in_Id (db_Inbounds db)" "tags_ok in_Tag (db_Inbounds db)" "table_ok cl_Id (db_Clients db)"
    and clean: "list_all clean_inbound (tb_Rows (db_Inbounds db))" and agree: "agrees db core"
    using step by (simp_all add: in_step_def db_ok_def db_clean_def)
  obtain tag where "str_of_raw data = Inr tag" using run by (auto simp: delete_inbound_def svc_Inr)
  let ?old = "case find (\<lambda>i. in_Tag i = tag) (tb_Rows (db_Inbounds db)) of None \<Rightarrow> empty_inbound | Some i \<Rightarrow> i"
  obtain u db1 where drop: "if_running (if RuntimeCore ?old = CoreTypeSingBox then ignore_invalid (remove_item (sv_CoreEnv env) Inbounds tag) else lift_svc (Inr ()))
           (lift_svc (Inr ())) core = (Inr u, core')"
    and db1: "UpdateClientsOnInboundDelete db (in_Id ?old) tag = Inr db1"
    and db': "db' = db1\<lparr>db_Inbounds := delete_rows (\<lambda>i. in_Tag i = tag) (db_Inbounds db1)\<rparr>"
    using run \<open>str_of_raw data = Inr tag\<close> unfolding delete_inbound_def Let_def core_ops bind_svc_Inr lift_svc_Inr by auto
  have db1_eq: "db1 = db\<lparr>db_Clients := update_rows (lists_inbound (in_Id ?old)) (inbound_deleted (in_Id ?old) tag) (db_Clients db)\<rparr>"
    by (rule UpdateClientsOnInboundDelete_effect [OF ok(3) db1])
  note rel = relisted_db [OF deleted_relists cc db1_eq]
  have t': "db_Inbounds db' = delete_rows (\<lambda>i. in_Tag i = tag) (db_Inbounds db)" by (simp add: db' db1_eq)
  have exp': "expected db' Inbounds = configured in_Tag (inbound_item db1) (tb_Rows (delete_rows (\<lambda>i. in_Tag i = tag) (db_Inbounds db)))"
    using inbounds.delete_tags_ok [OF ok(2)] by (simp add: expected_inbounds t') (simp add: db')
  have "agrees db' core'"
  proof (rule agrees_inbounds [OF agree])
    show "\<not> co_Running core \<Longrightarrow> core' = core" using drop by (simp add: if_running_def lift_svc_Inr)
    show "expected db' k = expected db k" if "k \<noteq> Inbounds" for k
      using expected_other_table [OF that] expected_clients [OF db1_eq that] by (simp add: db')
  next
    assume r: "co_Running core"
    have items: "co_Items core' Inbounds = (if RuntimeCore ?old = CoreTypeSingBox then (co_Items core Inbounds)(tag := None) else co_Items core Inbounds)
        \<and> co_Running core' \<and> (\<forall>k. k \<noteq> Inbounds \<longrightarrow> co_Items core' k = co_Items core k)"
      using drop r drop_item_Inr(2) by (fastforce simp: if_running_def lift_svc_Inr split: if_splits)
    then show "co_Running core' \<and> (\<forall>k. k \<noteq> Inbounds \<longrightarrow> co_Items core' k = co_Items core k)" by blast
    assume old: "view (co_Items core Inbounds) = view (expected db Inbounds)"
    have absent: "expected db Inbounds tag = None" if "RuntimeCore ?old \<noteq> CoreTypeSingBox"
    proof (cases "find (\<lambda>i. in_Tag i = tag) (tb_Rows (db_Inbounds db))")
      case None
      then show ?thesis by (simp add: expected_inbounds [OF ok(2)] configured_def)
    next
      case (Some x)
      then show ?thesis using that by (simp add: expected_inbounds [OF ok(2)] configured_def singbox_row_iff)
    qed
    have "view (co_Items core' Inbounds) = (view (expected db Inbounds))(tag := None)"
    proof (cases "RuntimeCore ?old = CoreTypeSingBox")
      case False
      then have "(view (expected db Inbounds))(tag := None) = view (expected db Inbounds)"
        using absent by (intro fun_upd_idem) (simp add: view_def)
      then show ?thesis using items old False by simp
    qed (use items old in simp)
    also have "\<dots> = view ((configured in_Tag (inbound_item db) (tb_Rows (db_Inbounds db)))(tag := None))"
      by (simp add: expected_inbounds [OF ok(2)])
    also have "\<dots> = view (configured in_Tag (inbound_item db) (tb_Rows (delete_rows (\<lambda>i. in_Tag i = tag) (db_Inbounds db))))"
      by (simp only: inbound_items.deleted_items [OF ok(2)])
    also have "configured in_Tag (inbound_item db) (tb_Rows (delete_rows (\<lambda>i. in_Tag i = tag) (db_Inbounds db))) = expected db' Inbounds"
      unfolding exp'
    proof (rule ext, rule configured_same)
      fix x
      assume "x \<in> set (tb_Rows (delete_rows (\<lambda>i. in_Tag i = tag) (db_Inbounds db)))"
      then have x: "x \<in> set (tb_Rows (db_Inbounds db))" "in_Tag x \<noteq> tag" by (auto simp: delete_rows_def)
      have pos: "0 < in_Id x" using inbounds.ok_rows(3) [OF ok(1) x(1)] by simp
      have "in_Id x \<noteq> in_Id ?old"
      proof (cases "find (\<lambda>i. in_Tag i = tag) (tb_Rows (db_Inbounds db))")
        case (Some y)
        then have "y \<in> set (tb_Rows (db_Inbounds db))" "in_Tag y = tag" by (auto dest: find_Some_mem)
        then show ?thesis using Some x inbounds.ok_rows(2) [OF ok(1)] by (auto simp: distinct_map dest: inj_onD)
      qed (use pos in \<open>simp add: empty_inbound_def\<close>)
      then have "contributions (in_Id x) (db_Clients db1) = contributions (in_Id x) (db_Clients db)" using rel(4) [OF pos] by simp
      then have "inbound_config db1 x = inbound_config db x" by (intro inbound_config_same [OF cc rel(1)]) (simp_all add: db1_eq)
      then show "config_value (inbound_item db x) = config_value (inbound_item db1 x)" by (simp add: inbound_item_def)
    qed
    finally show "view (co_Items core' Inbounds) = view (expected db' Inbounds)" .
  qed
  moreover have "db_ok db'" "db_clean db'" "clients_clean db'"
    using step rel(1-3) delete_rows_all [OF clean, of "\<lambda>i. in_Tag i = tag"] by (simp_all add: db' db_ok_def db_clean_def clients_clean_def in_step_def tables_ok db1_eq)
  ultimately show ?thesis by (simp add: in_step_def)
qed

lemma Inbounds_Save_in_step:
  assumes step: "in_step db core" and cc: "clients_clean db" and data: "proper_inbound db act data users"
    and run: "Inbounds_Save env db act data users hostname core = (Inr db', core')"
  shows "in_step db' core' \<and> clients_clean db'"
  using run save_inbound_in_step [OF step cc _ data] delete_inbound_in_step [OF step cc]
  by (auto simp: Inbounds_Save_def lift_svc_Inr NewErrorf_def split: if_splits)

end
