(* ===== verification/Config_Save.thy ===== *)
theory Config_Save
  imports Config_Start Inbound_Agreement
begin

text \<open>
  The contract of a save: whatever its result, the running core agrees with the committed
  database afterwards. A failed save commits nothing and restarts the core from the old database;
  a successful one has kept the core in step, object by object. The cores are driven through
  \<open>settles\<close>, a total-correctness triple for the operations of the panel.
\<close>

section \<open>Operations that end in agreement\<close>

definition in_line :: "panel \<Rightarrow> bool" where
  "in_line p \<longleftrightarrow> agrees (pn_Db p) (pn_Core p)"

definition same_data :: "panel \<Rightarrow> panel \<Rightarrow> bool" where
  "same_data p p' \<longleftrightarrow> pn_Db p' = pn_Db p \<and> pn_LastUpdate p' = pn_LastUpdate p \<and> pn_Busy p' = pn_Busy p"

text \<open>From a state with \<open>P\<close>, whatever the result: the data is untouched and the core in line.\<close>

definition settles :: "(panel \<Rightarrow> bool) \<Rightarrow> 'a panel_op \<Rightarrow> bool" where
  "settles P m \<longleftrightarrow> (\<forall>p. db_clean (pn_Db p) \<longrightarrow> P p \<longrightarrow> same_data p (snd (m p)) \<and> in_line (snd (m p)))"

named_theorems settling \<open>rules for settles\<close>

lemma same_data_trans: "same_data a b \<Longrightarrow> same_data b c \<Longrightarrow> same_data a c"
  by (simp add: same_data_def)

lemma settlesD: "settles P m \<Longrightarrow> db_clean (pn_Db p) \<Longrightarrow> P p \<Longrightarrow> same_data p (snd (m p)) \<and> in_line (snd (m p))"
  by (simp add: settles_def)

lemma settles_lift [settling]: "settles in_line (lift_svc r)"
  by (simp add: settles_def lift_svc_def same_data_def)

lemma settles_pair [settling]: "settles in_line (\<lambda>p. (r, p))"
  by (simp add: settles_def same_data_def)

lemma settles_on [settling]: "settles in_line (on_xray x)" "settles in_line (on_files f)"
  by (auto simp: settles_def on_xray_def on_files_def same_data_def in_line_def split: prod.split)

lemma settles_bind [settling]:
  assumes "settles P m" "\<And>x. settles in_line (f x)"
  shows "settles P (bind_svc m f)"
  unfolding settles_def
proof (intro allI impI)
  fix p :: panel
  assume "db_clean (pn_Db p)" "P p"
  then have m: "same_data p (snd (m p))" "in_line (snd (m p))" using settlesD [OF assms(1)] by blast+
  have clean: "db_clean (pn_Db (snd (m p)))" using m(1) \<open>db_clean (pn_Db p)\<close> by (simp add: same_data_def)
  show "same_data p (snd (bind_svc m f p)) \<and> in_line (snd (bind_svc m f p))"
    using m settlesD [OF assms(2) clean m(2)] same_data_trans [OF m(1)] by (auto simp: bind_svc_snd split: sum.split)
qed

lemma settles_if [settling]: "settles P m \<Longrightarrow> settles P n \<Longrightarrow> settles P (\<lambda>p. if b p then m p else n p)"
  by (simp add: settles_def)

lemma settles_note [settling]: "settles P m \<Longrightarrow> settles P (note_failure env m)"
  by (auto simp: settles_def note_failure_def same_data_def in_line_def split: prod.split sum.split)

lemma settles_weaken: "settles P m \<Longrightarrow> (\<And>p. Q p \<Longrightarrow> P p) \<Longrightarrow> settles Q m"
  by (simp add: settles_def)

text \<open>The flag only ever comes and goes; a refused operation leaves the state as it is.\<close>

lemma settles_guarded:
  assumes "settles P m" "\<And>p. Q p \<Longrightarrow> \<not> pn_Busy p \<Longrightarrow> P (p\<lparr>pn_Busy := True\<rparr>)" "\<And>p. Q p \<Longrightarrow> pn_Busy p \<Longrightarrow> in_line p"
  shows "settles Q (guarded m)"
  unfolding settles_def
proof (intro allI impI)
  fix p :: panel
  assume p: "db_clean (pn_Db p)" "Q p"
  show "same_data p (snd (guarded m p)) \<and> in_line (snd (guarded m p))"
  proof (cases "pn_Busy p")
    case False
    then show ?thesis
      using settlesD [OF assms(1), of "p\<lparr>pn_Busy := True\<rparr>"] assms(2) p
      by (auto simp: guarded_def same_data_def in_line_def split: prod.split)
  qed (use assms(3) p in \<open>simp add: guarded_def same_data_def\<close>)
qed

lemma in_line_busy [simp]: "in_line (p\<lparr>pn_Busy := b\<rparr>) = in_line p" "in_line (p\<lparr>pn_LastStartFail := t\<rparr>) = in_line p"
  by (simp_all add: in_line_def)

lemma settles_guarded_line [settling]: "settles in_line m \<Longrightarrow> settles in_line (guarded m)"
  by (erule settles_guarded) simp_all

lemma settles_ensure [settling]: "settles in_line (ensureXrayCore env restart manual)"
proof -
  have off: "settles in_line (bind_svc (if b then stop_xray env else lift_svc (Inr ())) (\<lambda>_. lift_svc r))" for b and r :: "unit result"
    unfolding stop_xray_def by (cases b) (simp_all only: if_True if_False, (intro settling)+)
  have on: "settles in_line (bind_svc (on_files (getXrayConfig (cf_XrayFiles env) db)) (\<lambda>cfg p.
        if restart then on_xray (xray_Restart (cf_XrayEnv env) cfg) p
        else if \<not> xray_IsRunning (pn_Xray p) then on_xray (xray_Start (cf_XrayEnv env) cfg) p
        else (Inr (), p)))" for db
    by (intro settling settles_pair)
  have stop: "settles in_line (stop_xray env)" unfolding stop_xray_def by (intro settling)
  show ?thesis
    unfolding settles_def ensureXrayCore_def
    using settlesD [OF off] settlesD [OF on] settlesD [OF stop] by (auto simp: same_data_def)
qed

lemma settles_start_singbox: "settles (\<lambda>p. \<not> running p) (start_singbox env data)"
  unfolding settles_def
proof (intro allI impI)
  fix p :: panel
  assume clean: "db_clean (pn_Db p)" and idle: "\<not> running p"
  show "same_data p (snd (start_singbox env data p)) \<and> in_line (snd (start_singbox env data p))"
  proof (cases "GetConfigWithDB data (pn_Db p)")
    case (Inl e)
    then show ?thesis using idle by (simp add: start_singbox_def same_data_def in_line_def running_def agrees_def)
  next
    case (Inr cfg)
    obtain r core' where st: "core_Start (sv_CoreEnv (cf_Svc env)) cfg (pn_Core p) = (r, core')" by fastforce
    have "agrees (pn_Db p) core'"
    proof (cases r)
      case (Inl e)
      then have "\<not> co_Running core'" using st idle by (auto simp: core_Start_def running_def as_config_def split: sum.splits option.splits raw.splits gval.splits)
      then show ?thesis by (simp add: agrees_def)
    qed (use started_agrees [OF Inr _ clean] st in blast)
    then show ?thesis using Inr st by (simp add: start_singbox_def on_core_def same_data_def in_line_def)
  qed
qed

lemma core_stopped: "\<not> co_Running (snd (core_Stop cv core))"
  by (simp add: core_Stop_def stopped_core_def split: option.split)

lemma stop_if_running_stops:
  fixes p :: panel
  shows "\<not> running (snd (stop_if_running env p)) \<and> same_data p (snd (stop_if_running env p))"
  using core_stopped [of "sv_CoreEnv (cf_Svc env)" "pn_Core p"]
  by (auto simp: stop_if_running_def on_core_def running_def same_data_def split: prod.split)

lemma settles_replace: "settles (\<lambda>_. True) (bind_svc (stop_if_running env) (\<lambda>_. start_singbox env data))"
  unfolding settles_def
proof (intro allI impI)
  fix p :: panel
  assume clean: "db_clean (pn_Db p)"
  let ?q = "snd (stop_if_running env p)"
  have q: "\<not> running ?q" "same_data p ?q" using stop_if_running_stops by blast+
  have "db_clean (pn_Db ?q)" using clean q(2) by (simp add: same_data_def)
  from settlesD [OF settles_start_singbox this q(1)] q
  show "same_data p (snd (bind_svc (stop_if_running env) (\<lambda>_. start_singbox env data) p))
      \<and> in_line (snd (bind_svc (stop_if_running env) (\<lambda>_. start_singbox env data) p))"
    by (auto simp: bind_svc_snd in_line_def running_def agrees_def intro: same_data_trans split: sum.split)
qed

text \<open>A restart needs no agreement to begin with; this is what restores the core.\<close>

lemma settles_restart: "settles (\<lambda>p. \<not> pn_Busy p) (restartSingBoxCore env)"
  unfolding restartSingBoxCore_def by (rule settles_guarded [OF settles_replace]) simp_all

lemma settles_restart_with: "settles in_line (restartCoreWithConfig env config)"
proof -
  have assoc: "bind_svc (stop_if_running env) (\<lambda>_. bind_svc (start_singbox env config) (\<lambda>_. ensureXrayCore env False False))
      = bind_svc (bind_svc (stop_if_running env) (\<lambda>_. start_singbox env config)) (\<lambda>_. ensureXrayCore env False False)"
    by (auto simp: bind_svc_def fun_eq_iff split: prod.split sum.split)
  show ?thesis
    unfolding restartCoreWithConfig_def assoc
    by (rule settles_guarded [OF settles_bind [OF settles_replace settles_ensure]]) simp_all
qed

lemma settles_start [settling]: "settles in_line (StartCore env)"
proof -
  have "settles in_line (start_both env)"
    unfolding settles_def
  proof (intro allI impI)
    fix p :: panel
    assume p: "db_clean (pn_Db p)" "in_line p"
    show "same_data p (snd (start_both env p)) \<and> in_line (snd (start_both env p))"
    proof (cases "running p")
      case True
      have "settles in_line (bind_svc (lift_svc (Inr ())) (\<lambda>_. note_failure env (ensureXrayCore env False False)))" by (intro settling)
      from settlesD [OF this p] show ?thesis using True by (simp add: start_both_def)
    next
      case False
      let ?m = "\<lambda>p. case GetConfigWithDB RNil (pn_Db p) of Inl e \<Rightarrow> (Inl e, p)
          | Inr cfg \<Rightarrow> note_failure env (on_core (core_Start (sv_CoreEnv (cf_Svc env)) cfg)) p"
      have "settles (\<lambda>p. \<not> running p) ?m"
        using settles_start_singbox [of env RNil] unfolding settles_def start_singbox_def
        by (auto simp: note_failure_def same_data_def in_line_def split: sum.splits prod.splits)
      then have "settles (\<lambda>p. \<not> running p) (bind_svc ?m (\<lambda>_. note_failure env (ensureXrayCore env False False)))"
        by (intro settling) 
      from settlesD [OF this p(1) False] show ?thesis using False by (simp add: start_both_def)
    qed
  qed
  then have g: "settles in_line (guarded (start_both env))" by (rule settling)
  show ?thesis
    unfolding settles_def StartCore_def
    using settlesD [OF g] by (auto simp: same_data_def split: option.split)
qed

section \<open>What a save leaves alone\<close>

text \<open>\<open>gives P m\<close>: if \<open>m\<close> succeeds its result has \<open>P\<close>, whatever the state does.\<close>

definition gives :: "('a \<Rightarrow> bool) \<Rightarrow> ('s \<Rightarrow> 'a result \<times> 's) \<Rightarrow> bool" where
  "gives P m \<longleftrightarrow> (\<forall>s x s'. m s = (Inr x, s') \<longrightarrow> P x)"

named_theorems giving \<open>rules for gives\<close>

lemma gives_bind [giving]: "(\<And>x. gives P (f x)) \<Longrightarrow> gives P (bind_svc m f)"
  by (auto simp: gives_def bind_svc_Inr)

lemma gives_lift: "(\<And>x. r = Inr x \<Longrightarrow> P x) \<Longrightarrow> gives P (lift_svc r)"
  by (simp add: gives_def lift_svc_Inr)

lemma gives_if [giving]: "gives P m \<Longrightarrow> gives P n \<Longrightarrow> gives P (if b then m else n)"
  by simp

lemma givesD: "gives P m \<Longrightarrow> m s = (Inr x, s') \<Longrightarrow> P x"
  unfolding gives_def by blast

definition keeps_rest :: "panel_db \<Rightarrow> panel_db \<Rightarrow> bool" where
  "keeps_rest db db' \<longleftrightarrow> db_Clients db' = db_Clients db \<and> db_Changes db' = db_Changes db"

lemma objects_keep_rest:
  "gives (keeps_rest db) (Outbounds_Save env db act data)" "gives (keeps_rest db) (Services_Save env db act data)"
  "gives (keeps_rest db) (Endpoints_Save env db act data)"
proof -
  show "gives (keeps_rest db) (Outbounds_Save env db act data)"
    unfolding Outbounds_Save_def Let_def
    by (intro giving gives_lift) (auto simp: keeps_rest_def store_outbound_def results NewErrorf_def)
  show "gives (keeps_rest db) (Services_Save env db act data)"
    unfolding Services_Save_def Let_def
    by (intro giving gives_lift) (auto simp: keeps_rest_def store_service_def results NewErrorf_def)
  show "gives (keeps_rest db) (Endpoints_Save env db act data)"
    unfolding Endpoints_Save_def Let_def
    by (intro giving gives_lift) (auto simp: keeps_rest_def store_endpoint_def results NewErrorf_def)
qed

section \<open>The objects\<close>

text \<open>What a request must be for the object's service to keep the core in step.\<close>

definition proper_save :: "panel_db \<Rightarrow> string \<Rightarrow> string \<Rightarrow> raw \<Rightarrow> string \<Rightarrow> bool" where
  "proper_save db obj act data users \<longleftrightarrow>
     (obj = ''clients'' \<longrightarrow> proper_clients act data) \<and> (obj = ''tls'' \<longrightarrow> proper_tls db act data)
   \<and> (obj = ''inbounds'' \<longrightarrow> proper_inbound db act data users)
   \<and> (obj = ''outbounds'' \<longrightarrow> proper_data (out_Id ` set (tb_Rows (db_Outbounds db))) act data)
   \<and> (obj = ''services'' \<longrightarrow> proper_data (sv_Id ` set (tb_Rows (db_Services db))) act data)
   \<and> (obj = ''endpoints'' \<longrightarrow> proper_data (ep_Id ` set (tb_Rows (db_Endpoints db))) act data)"

definition fine :: "panel_db \<Rightarrow> core_state \<Rightarrow> bool" where
  "fine db core \<longleftrightarrow> in_step db core \<and> clients_clean db"

text \<open>Settings, the stored configuration, traffic samples and changes do not show in the core.\<close>

definition side_change :: "panel_db \<Rightarrow> panel_db \<Rightarrow> bool" where
  "side_change db db' \<longleftrightarrow> (\<exists>s c st ch. db' = db\<lparr>db_Settings := s, db_Config := c, db_Stats := st, db_Changes := ch\<rparr>)"

lemma side_config:
  "inbound_config (db\<lparr>db_Settings := s, db_Config := c, db_Stats := st, db_Changes := ch\<rparr>) = inbound_config db"
  "service_config (db\<lparr>db_Settings := s, db_Config := c, db_Stats := st, db_Changes := ch\<rparr>) = service_config db"
  by (auto simp: fun_eq_iff inbound_config_def service_config_def preload_inbound_def preload_service_def addUsers_def put_users_def fetchUsers_def
      cong: if_cong option.case_cong)

lemma side_fine:
  assumes "side_change db db'" "fine db core"
  shows "fine db' core"
proof -
  obtain s c st ch where db': "db' = db\<lparr>db_Settings := s, db_Config := c, db_Stats := st, db_Changes := ch\<rparr>" using assms(1) by (auto simp: side_change_def)
  have "expected db' = expected db" unfolding db' by (auto simp: fun_eq_iff expected_def side_config split: core_kind.split)
  moreover have "db_ok db' = db_ok db" "db_clean db' = db_clean db" "clients_clean db' = clients_clean db"
    by (simp_all add: db' db_ok_def db_clean_def clients_clean_def)
  ultimately show ?thesis using assms(2) by (simp add: fine_def in_step_def agrees_def)
qed

lemma side_change_refl [simp]: "side_change db db"
  by (auto simp: side_change_def intro!: exI [of _ "db_Settings db"] exI [of _ "db_Config db"] exI [of _ "db_Stats db"] exI [of _ "db_Changes db"])

lemma side_change_trans: "side_change a b \<Longrightarrow> side_change b c \<Longrightarrow> side_change a c"
  by (clarsimp simp: side_change_def) (intro exI, rule refl)

lemma side_upd [simp]:
  "side_change db (db\<lparr>db_Settings := s\<rparr>)" "side_change db (db\<lparr>db_Config := c\<rparr>)" "side_change db (db\<lparr>db_Stats := st\<rparr>)" "side_change db (db\<lparr>db_Changes := ch\<rparr>)"
  unfolding side_change_def
  by (rule exI [of _ s] exI [of _ "db_Settings db"], rule exI [of _ c] exI [of _ "db_Config db"],
      rule exI [of _ st] exI [of _ "db_Stats db"], rule exI [of _ ch] exI [of _ "db_Changes db"], simp)+

lemma side_add_change: "side_change db (add_change c db)"
  by (simp add: add_change_def)

lemma SaveConfig_side: "SaveConfig config db = Inr db' \<Longrightarrow> side_change db db'"
  by (auto simp: SaveConfig_def split: raw.splits)

lemma Settings_Save_side:
  assumes "Settings_Save env db data = Inr db'"
  shows "side_change db db'"
proof -
  obtain settings where "eachr (save_one_setting env) settings db = Inr db'"
    using assms by (auto simp: Settings_Save_def split: option.splits)
  then show ?thesis
  proof (rule eachr_invariant)
    fix kv s s'
    assume "save_one_setting env kv s = Inr s'" and inv: "side_change db s"
    then have "side_change s s'"
      using side_change_trans [OF side_upd(3) side_upd(1)]
      by (auto simp: save_one_setting_def update_setting_def Let_def NewError_def split: if_splits prod.splits)
    then show "side_change db s'" using inv side_change_trans by blast
  qed simp
qed

text \<open>The assumptions on the environment: \<^verbatim>\<open>bytes.Equal\<close>, and the WARP service, change no identity.\<close>

definition env_ok :: "svc_env \<Rightarrow> bool" where
  "env_ok sv \<longleftrightarrow> (\<forall>a b. ce_SameBytes (sv_Client sv) a b \<longrightarrow> a = b) \<and> warp_keeps sv"

lemma RestartInbounds_none: "RestartInbounds sv db [] core = (Inr (), core)"
  by (simp add: RestartInbounds_def if_running_def lift_svc_def)

lemma wrap_svc_Inr: "wrap_svc msg m core = (Inr u, core') \<longleftrightarrow> m core = (Inr u, core')"
  by (auto simp: wrap_svc_def NewErrorf_def split: prod.split sum.split)

lemma save_object_fine:
  assumes fine: "fine db core" and env: "env_ok (cf_Svc env)" and data: "proper_save db obj act data users"
    and run: "save_object env obj act data users hostname db core = (Inr s, core')"
  shows "fine (sd_Db s) core'"
proof -
  let ?sv = "cf_Svc env"
  have step: "in_step db core" "clients_clean db" using fine by (simp_all add: fine_def)
  have bytes: "ce_SameBytes (sv_Client ?sv) a b \<Longrightarrow> a = b" for a b using env by (simp add: env_ok_def)
  have warp: "warp_keeps ?sv" using env by (simp add: env_ok_def)
  note run' = run [unfolded save_object_def Let_def]
  consider (clients) "obj = ''clients''" | (tls) "obj = ''tls''" | (inbounds) "obj = ''inbounds''" | (outbounds) "obj = ''outbounds''"
    | (services) "obj = ''services''" | (endpoints) "obj = ''endpoints''" | (config) "obj = ''config''" | (settings) "obj = ''settings''"
    | (other) "obj \<noteq> ''clients''" "obj \<noteq> ''tls''" "obj \<noteq> ''inbounds''" "obj \<noteq> ''outbounds''" "obj \<noteq> ''services''" "obj \<noteq> ''endpoints''"
        "obj \<noteq> ''config''" "obj \<noteq> ''settings''"
    by argo
  then show ?thesis
  proof cases
    case clients
    obtain ids db' where save: "Clients_Save (sv_Client ?sv) db act data hostname = Inr (ids, db')"
      and rest: "(if ids = [] then lift_svc (Inr (saved_as db' [obj] False))
          else bind_svc (wrap_svc ''failed to update users for inbounds: '' (RestartInbounds ?sv db' ids)) (\<lambda>_.
            lift_svc (Inr (saved_as db' [obj, ''inbounds''] (inboundIDsContainXray db' ids))))) core = (Inr s, core')"
    proof -
      obtain x where x: "Clients_Save (sv_Client ?sv) db act data hostname = Inr x"
        and rest: "(case x of (ids, db') \<Rightarrow> if ids = [] then lift_svc (Inr (saved_as db' [obj] False))
          else bind_svc (wrap_svc ''failed to update users for inbounds: '' (RestartInbounds ?sv db' ids)) (\<lambda>_.
            lift_svc (Inr (saved_as db' [obj, ''inbounds''] (inboundIDsContainXray db' ids))))) core = (Inr s, core')"
        using run' unfolding if_P [OF clients] bind_svc_Inr lift_svc_Inr by blast
      show thesis by (cases x) (use x rest that in simp)
    qed
    have pc: "proper_clients act data" using data clients by (simp add: proper_save_def)
    have "RestartInbounds ?sv db' ids core = (Inr (), core') \<and> sd_Db s = db'"
      using rest by (cases "ids = []") (auto simp: svc_Inr wrap_svc_Inr RestartInbounds_none saved_as_def)
    then have r: "RestartInbounds ?sv db' ids core = (Inr (), core')" "sd_Db s = db'" by blast+
    have "table_ok cl_Id (db_Clients db)" using step(1) by (simp add: in_step_def db_ok_def)
    then have eff: "unseen_save ids db db'" using Clients_Save_effect [OF _ step(2) bytes pc save] by blast
    have "in_step db' core'" by (rule reload_agrees [OF step eff r(1)])
    moreover have "clients_clean db'" using eff unfolding unseen_save_def by blast
    ultimately show ?thesis by (simp add: fine_def r(2))
  next
    case tls
    obtain db' where "Tls_Save ?sv db act data hostname core = (Inr db', core')" "sd_Db s = db'"
      using run' tls by (auto simp: svc_Inr saved_as_def)
    moreover have "proper_tls db act data" using data tls by (simp add: proper_save_def)
    ultimately show ?thesis using Tls_Save_in_step [OF step] by (simp add: fine_def)
  next
    case inbounds
    obtain db' where "Inbounds_Save ?sv db act data users hostname core = (Inr db', core')" "sd_Db s = db'"
      using run' inbounds by (auto simp: svc_Inr saved_as_def)
    moreover have "proper_inbound db act data users" using data inbounds by (simp add: proper_save_def)
    ultimately show ?thesis using Inbounds_Save_in_step [OF step] by (simp add: fine_def)
  next
    case outbounds
    obtain db' where o': "Outbounds_Save ?sv db act data core = (Inr db', core')" "sd_Db s = db'"
      using run' outbounds by (auto simp: svc_Inr saved_as_def)
    moreover have "proper_data (out_Id ` set (tb_Rows (db_Outbounds db))) act data" using data outbounds by (simp add: proper_save_def)
    moreover have "db_Clients db' = db_Clients db" using givesD [OF objects_keep_rest(1) o'(1)] by (simp add: keeps_rest_def)
    ultimately show ?thesis using Outbounds_in_step [OF step(1)] step(2) by (simp add: fine_def clients_clean_def)
  next
    case services
    obtain db' where o': "Services_Save ?sv db act data core = (Inr db', core')" "sd_Db s = db'"
      using run' services by (auto simp: svc_Inr saved_as_def)
    moreover have "proper_data (sv_Id ` set (tb_Rows (db_Services db))) act data" using data services by (simp add: proper_save_def)
    moreover have "db_Clients db' = db_Clients db" using givesD [OF objects_keep_rest(2) o'(1)] by (simp add: keeps_rest_def)
    ultimately show ?thesis using Services_in_step [OF step(1)] step(2) by (simp add: fine_def clients_clean_def)
  next
    case endpoints
    obtain db' where o': "Endpoints_Save ?sv db act data core = (Inr db', core')" "sd_Db s = db'"
      using run' endpoints by (auto simp: svc_Inr saved_as_def)
    moreover have "proper_data (ep_Id ` set (tb_Rows (db_Endpoints db))) act data" using data endpoints by (simp add: proper_save_def)
    moreover have "db_Clients db' = db_Clients db" using givesD [OF objects_keep_rest(3) o'(1)] by (simp add: keeps_rest_def)
    ultimately show ?thesis using Endpoints_in_step [OF step(1) _ warp] step(2) by (simp add: fine_def clients_clean_def)
  next
    case config
    then have "SaveConfig data db = Inr (sd_Db s) \<and> core' = core" using run' by (auto simp: lift_svc_Inr bindr_Inr_iff saved_as_def)
    then show ?thesis using side_fine [OF SaveConfig_side fine] by blast
  next
    case settings
    then have "Settings_Save (cf_Settings env) db data = Inr (sd_Db s) \<and> core' = core" using run' by (auto simp: lift_svc_Inr bindr_Inr_iff saved_as_def)
    then show ?thesis using side_fine [OF Settings_Save_side fine] by blast
  next
    case other
    then show ?thesis using run' by (simp add: lift_svc_Inr NewError_def)
  qed
qed

section \<open>The changes are the transaction's own\<close>

lemma save_clients_changes: "save_clients cs db = Inr db' \<Longrightarrow> db_Changes db' = db_Changes db"
proof -
  have "db_Changes (foldl (\<lambda>db c. save_client c db) db cs) = db_Changes db"
    by (induction cs arbitrary: db) (simp_all add: save_client_def)
  then show "save_clients cs db = Inr db' \<Longrightarrow> db_Changes db' = db_Changes db" by (auto simp: save_clients_def split: if_splits)
qed

lemma Clients_Save_changes:
  assumes "Clients_Save env db act data hostname = Inr (ids, db')"
  shows "db_Changes db' = db_Changes db"
proof -
  have "save_new env db data hostname = Inr (ids, db') \<Longrightarrow> ?thesis" "save_edit env db data hostname = Inr (ids, db') \<Longrightarrow> ?thesis"
    by (auto simp: save_new_def save_edit_def bindr_Inr_iff Let_def save_client_def split: prod.splits)
  moreover have "save_addbulk env db data hostname = Inr (ids, db') \<Longrightarrow> ?thesis" "save_editbulk env db data hostname = Inr (ids, db') \<Longrightarrow> ?thesis"
    by (auto simp: save_addbulk_def save_editbulk_def bindr_Inr_iff save_clients_changes split: prod.splits)
  moreover have "save_delbulk db data = Inr (ids, db') \<Longrightarrow> ?thesis" "save_del db data = Inr (ids, db') \<Longrightarrow> ?thesis"
    by (auto simp: save_delbulk_def save_del_def bindr_Inr_iff delete_clients_def)
  ultimately show ?thesis using assms by (auto simp: Clients_Save_def NewErrorf_def split: if_splits)
qed

lemma each_client_changes:
  assumes "eachr f cs db = Inr db'" "\<And>c db db'. f c db = Inr db' \<Longrightarrow> db_Changes db' = db_Changes db"
  shows "db_Changes db' = db_Changes db"
  by (rule eachr_invariant [OF assms(1), where P = "\<lambda>x. db_Changes x = db_Changes db"]) (use assms(2) in auto)

lemma links_changes:
  "UpdateLinksByInboundChange env db inbs hostname oldTag = Inr db' \<Longrightarrow> db_Changes db' = db_Changes db"
  "UpdateClientsOnInboundAdd env db users i hostname = Inr db' \<Longrightarrow> db_Changes db' = db_Changes db"
  "UpdateClientsOnInboundDelete db i tag = Inr db' \<Longrightarrow> db_Changes db' = db_Changes db"
  "UpdateOutJsons sv db ids hostname = Inr db' \<Longrightarrow> db_Changes db' = db_Changes db"
proof -
  have added: "inbound_added env inb i hostname c db = Inr db' \<Longrightarrow> db_Changes db' = db_Changes db"
    and changed: "inbound_changed env inb hostname oldTag c db = Inr db' \<Longrightarrow> db_Changes db' = db_Changes db" for inb c db db'
    by (auto simp: inbound_added_def inbound_changed_def bindr_Inr_iff save_client_def)
  show "UpdateLinksByInboundChange env db inbs hostname oldTag = Inr db' \<Longrightarrow> db_Changes db' = db_Changes db"
    unfolding UpdateLinksByInboundChange_def
    by (erule each_client_changes) (auto simp: bindr_Inr_iff dest: each_client_changes [OF _ changed])
  show "UpdateClientsOnInboundAdd env db users i hostname = Inr db' \<Longrightarrow> db_Changes db' = db_Changes db"
    unfolding UpdateClientsOnInboundAdd_def Let_def by (erule each_client_changes) (rule added)
  show "UpdateClientsOnInboundDelete db i tag = Inr db' \<Longrightarrow> db_Changes db' = db_Changes db"
  proof -
    have "db_Changes (foldl (\<lambda>db c. save_client (inbound_deleted i tag c) db) db cs) = db_Changes db" for cs db
      by (induction cs arbitrary: db) (simp_all add: save_client_def)
    then show "UpdateClientsOnInboundDelete db i tag = Inr db' \<Longrightarrow> db_Changes db' = db_Changes db"
      by (auto simp: UpdateClientsOnInboundDelete_def bindr_Inr_iff)
  qed
  show "UpdateOutJsons sv db ids hostname = Inr db' \<Longrightarrow> db_Changes db' = db_Changes db"
    unfolding UpdateOutJsons_def by (erule each_client_changes) (auto simp: bindr_Inr_iff)
qed

lemma gives_chain: "gives P m \<Longrightarrow> (\<And>x. P x \<Longrightarrow> gives Q (f x)) \<Longrightarrow> gives Q (bind_svc m f)"
  by (fastforce simp: gives_def bind_svc_Inr)

lemma Inbounds_Save_changes: "gives (\<lambda>db'. db_Changes db' = db_Changes db) (Inbounds_Save env db act data users hostname)"
proof -
  have "gives (\<lambda>(row, db'). db_Changes db' = db_Changes db) (lift_svc (store_inbound i db))" for i
    by (rule gives_lift) (auto simp: store_inbound_def bindr_Inr_iff)
  note store = gives_chain [OF this]
  have "gives (\<lambda>db'. db_Changes db' = db_Changes db) (lift_svc (UpdateClientsOnInboundDelete db i tag))" for i tag
    by (rule gives_lift) (rule links_changes)
  note deleted = gives_chain [OF this]
  show ?thesis
    unfolding Inbounds_Save_def save_inbound_def delete_inbound_def Let_def
    by (intro giving store gives_lift deleted)
      (auto simp: NewErrorf_def gives_def lift_svc_Inr dest!: links_changes split: prod.splits if_splits)
qed

lemma Tls_Save_changes: "gives (\<lambda>db'. db_Changes db' = db_Changes db) (Tls_Save env db act data hostname)"
proof -
  have edited: "gives (\<lambda>db'. db_Changes db' = db_Changes db1) (edited_tls env db1 k hostname)" for db1 k
  proof -
    let ?inbs = "map (preload_inbound db1) (filter (\<lambda>i. in_TlsId i = k) (tb_Rows (db_Inbounds db1)))"
    have "gives (\<lambda>db'. db_Changes db' = db_Changes db1) (if ?inbs = [] then lift_svc (Inr db1)
           else bind_svc (lift_svc (UpdateLinksByInboundChange (sv_Client env) db1 ?inbs hostname [])) (\<lambda>db1.
                bind_svc (lift_svc (wrap_error ''unable to update out_json of inbounds:  '' (UpdateOutJsons env db1 (map in_Id ?inbs) hostname))) (\<lambda>db2.
                bind_svc (RestartInbounds env db2 (map in_Id ?inbs)) (\<lambda>_. lift_svc (Inr db2)))))"
    proof (intro gives_if gives_lift)
      show "gives (\<lambda>db'. db_Changes db' = db_Changes db1) (bind_svc (lift_svc (UpdateLinksByInboundChange (sv_Client env) db1 ?inbs hostname [])) (\<lambda>db1.
                bind_svc (lift_svc (wrap_error ''unable to update out_json of inbounds:  '' (UpdateOutJsons env db1 (map in_Id ?inbs) hostname))) (\<lambda>db2.
                bind_svc (RestartInbounds env db2 (map in_Id ?inbs)) (\<lambda>_. lift_svc (Inr db2)))))"
        by (auto simp: gives_def svc_Inr wrap_error_Inr dest!: links_changes)
    qed simp
    then show ?thesis
      unfolding edited_tls_def Let_def by (rule gives_chain) (auto simp: gives_def svc_Inr split: if_splits)
  qed
  have "gives (\<lambda>db'. db_Changes db' = db_Changes db) (edited_tls env (db\<lparr>db_Tls := t\<rparr>) k hostname)" for t k
    using edited [of "db\<lparr>db_Tls := t\<rparr>" k] by simp
  then show ?thesis
    unfolding Tls_Save_def Let_def store_tls_def prod.case
    by (intro giving gives_lift) (auto simp: NewError_def)
qed

lemma save_object_changes: "gives (\<lambda>s. db_Changes (sd_Db s) = db_Changes db) (save_object env obj act data users hostname db)"
proof -
  have clients: "gives (\<lambda>(ids, db'). db_Changes db' = db_Changes db) (lift_svc (Clients_Save sv db act data hostname))" for sv
    by (rule gives_lift) (auto dest: Clients_Save_changes)
  have rest: "gives (\<lambda>db'. db_Changes db' = db_Changes db) (Outbounds_Save sv db act data)"
    "gives (\<lambda>db'. db_Changes db' = db_Changes db) (Services_Save sv db act data)"
    "gives (\<lambda>db'. db_Changes db' = db_Changes db) (Endpoints_Save sv db act data)" for sv
    using objects_keep_rest [of db sv act data] by (simp_all add: gives_def keeps_rest_def)
  have "db_Changes db' = db_Changes db" if "side_change db db'" "Settings_Save e db data = Inr db'" for e db'
    using that(2) unfolding Settings_Save_def
    by (auto split: option.splits prod.splits if_splits elim!: each_client_changes
        simp: save_one_setting_def update_setting_def Let_def NewError_def)
  then have settings: "db_Changes db' = db_Changes db" if "Settings_Save e db data = Inr db'" for e db' using that Settings_Save_side by blast
  show ?thesis
    unfolding save_object_def Let_def
    by (intro gives_if gives_chain [OF clients] gives_chain [OF rest(1)] gives_chain [OF rest(2)] gives_chain [OF rest(3)]
        gives_chain [OF Tls_Save_changes] gives_bind [where f = "\<lambda>_. bind_svc (Inbounds_Save _ _ _ _ _ _) _"] gives_chain [OF Inbounds_Save_changes] gives_lift)
      (auto simp: gives_def svc_Inr saved_as_def bindr_Inr_iff SaveConfig_def NewError_def settings split: if_splits raw.splits
        dest: givesD [OF Inbounds_Save_changes])
qed

section \<open>The save\<close>

lemma validate_same:
  "same_data p (snd (validateXrayConfig env db p)) \<and> pn_Core (snd (validateXrayConfig env db p)) = pn_Core p"
  by (auto simp: validateXrayConfig_def bind_svc_def lift_svc_def on_files_def on_xray_def same_data_def split: prod.splits sum.splits)

lemma transaction_Inr:
  assumes "save_transaction env obj act data users login hostname p = (Inr s, p1)"
  shows "\<exists>core'. save_object env obj act data users hostname (pn_Db p) (pn_Core p) = (Inr s, core') \<and> pn_Core p1 = core'
    \<and> pn_Db p1 = add_change (change_row env obj act data login) (sd_Db s) \<and> pn_LastUpdate p1 = cf_Now env \<and> pn_Busy p1 = pn_Busy p
    \<and> (sd_Xray s \<longrightarrow> (\<exists>q. fst (validateXrayConfig env (sd_Db s) q) = Inr ()))"
proof -
  obtain p2 p3 where obj: "on_core (save_object env obj act data users hostname (pn_Db p)) p = (Inr s, p2)"
    and val: "(if sd_Xray s then validateXrayConfig env (sd_Db s) else lift_svc (Inr ())) p2 = (Inr (), p3)"
    and p1: "p1 = p3\<lparr>pn_Db := add_change (change_row env obj act data login) (sd_Db s), pn_LastUpdate := cf_Now env\<rparr>"
    using assms unfolding save_transaction_def bind_svc_Inr lift_svc_Inr by auto
  obtain core' where core': "save_object env obj act data users hostname (pn_Db p) (pn_Core p) = (Inr s, core')" "p2 = p\<lparr>pn_Core := core'\<rparr>"
    using obj by (auto simp: on_core_def split: prod.splits)
  have p3: "same_data p2 p3 \<and> pn_Core p3 = pn_Core p2"
    using val validate_same [of p2 env "sd_Db s"] by (auto simp: lift_svc_Inr same_data_def split: if_splits)
  have "sd_Xray s \<longrightarrow> (\<exists>q. fst (validateXrayConfig env (sd_Db s) q) = Inr ())"
  proof
    assume "sd_Xray s"
    then have "fst (validateXrayConfig env (sd_Db s) p2) = Inr ()" using val by simp
    then show "\<exists>q. fst (validateXrayConfig env (sd_Db s) q) = Inr ()" by blast
  qed
  then show ?thesis using core' p3 p1 by (simp add: same_data_def)
qed

lemma tail_Inl:
  assumes "bind_svc (if b then validateXrayConfig env db else lift_svc (Inr ())) (\<lambda>_. bind_svc (lift_svc r1) (\<lambda>_. bind_svc (lift_svc r2) (\<lambda>_ p. (Inr s, g p)))) q = (Inl e, p1)"
  shows "same_data q p1 \<and> pn_Core p1 = pn_Core q"
  using assms validate_same [of q env db]
  by (cases b; cases r1; cases r2) (auto simp: bind_svc_def lift_svc_def same_data_def split: prod.splits sum.splits)

lemma transaction_Inl:
  assumes "save_transaction env obj act data users login hostname p = (Inl e, p1)"
  shows "same_data p p1 \<and> (\<not> runtimeMayHaveChanged obj \<longrightarrow> pn_Core p1 = pn_Core p)"
proof -
  let ?q = "snd (on_core (save_object env obj act data users hostname (pn_Db p)) p)"
  have q: "same_data p ?q" by (simp add: on_core_def same_data_def split: prod.split)
  have core: "pn_Core ?q = pn_Core p" if "\<not> runtimeMayHaveChanged obj"
    using that by (auto simp: on_core_def save_object_def runtimeMayHaveChanged_def lift_svc_def)
  have "same_data ?q p1 \<and> pn_Core p1 = pn_Core ?q"
  proof (cases "fst (on_core (save_object env obj act data users hostname (pn_Db p)) p)")
    case (Inl e')
    then show ?thesis using assms by (simp add: save_transaction_def bind_svc_def same_data_def split: prod.splits)
  next
    case (Inr s)
    then have "bind_svc (if sd_Xray s then validateXrayConfig env (sd_Db s) else lift_svc (Inr ())) (\<lambda>_.
       bind_svc (lift_svc (opt_error (cf_CreateChange env))) (\<lambda>_. bind_svc (lift_svc (opt_error (cf_Commit env))) (\<lambda>_ p.
         (Inr s, p\<lparr>pn_Db := add_change (change_row env obj act data login) (sd_Db s), pn_LastUpdate := cf_Now env\<rparr>)))) ?q = (Inl e, p1)"
      using assms by (cases "on_core (save_object env obj act data users hostname (pn_Db p)) p")
        (simp add: save_transaction_def bind_svc_def [of "on_core m" for m] split del: if_split)
    then show ?thesis by (rule tail_Inl)
  qed
  then show ?thesis using same_data_trans [OF q] core by auto
qed

lemma settles_update: "settles in_line (update_cores env s)"
proof -
  have "settles in_line (RestartXrayCoreIfNeeded env)"
    unfolding RestartXrayCoreIfNeeded_def restartXrayCore_def by (intro settling)
  then show ?thesis
    unfolding settles_def update_cores_def
    using settlesD [OF settles_start] settlesD [OF settles_restart_with] settlesD [of in_line "RestartXrayCoreIfNeeded env"]
    by (auto simp: same_data_def split: option.split)
qed

lemma kept_update: "kept (snd (update_cores env s p)) = kept p"
  by (simp add: update_cores_def RestartXrayCoreIfNeeded_def split: option.split)

lemma fine_line: "fine db core \<longleftrightarrow> db_ok db \<and> db_clean db \<and> clients_clean db \<and> agrees db core"
  by (auto simp: fine_def in_step_def)

lemma saveLocked_fine:
  assumes fine: "fine (pn_Db p) (pn_Core p)" "\<not> pn_Busy p" and env: "env_ok (cf_Svc env)"
    and data: "proper_save (pn_Db p) obj act data users"
    and run: "saveLocked env obj act data users login hostname p = (r, p')"
  shows "fine (pn_Db p') (pn_Core p') \<and> \<not> pn_Busy p'"
proof (cases "cf_Begin env")
  case None
  obtain res p1 where tx: "save_transaction env obj act data users login hostname p = (res, p1)" by fastforce
  show ?thesis
  proof (cases res)
    case (Inl e)
    note left = transaction_Inl [OF tx [unfolded Inl]]
    have p': "(r, p') = restore_core env obj e p1" using run None tx Inl by (simp add: saveLocked_def)
    have clean: "db_clean (pn_Db p1)" "\<not> pn_Busy p1" using left fine by (simp_all add: same_data_def fine_line)
    have "same_data p1 p' \<and> in_line p'"
    proof (cases "runtimeMayHaveChanged obj \<and> running p1")
      case True
      then show ?thesis
        using p' settlesD [OF settles_restart clean, of env] by (auto simp: restore_core_def split: prod.splits sum.splits)
    next
      case False
      then have "p' = p1" using p' unfolding restore_core_def if_not_P [OF False] by simp
      moreover have "in_line p1"
        using False left fine(1) by (auto simp: in_line_def agrees_def running_def same_data_def fine_line)
      ultimately show ?thesis by (simp add: same_data_def)
    qed
    then show ?thesis using left fine by (auto simp: same_data_def in_line_def fine_line)
  next
    case (Inr s)
    note com = transaction_Inr [OF tx [unfolded Inr]]
    obtain core' where obj: "save_object env obj act data users hostname (pn_Db p) (pn_Core p) = (Inr s, core')" and core': "pn_Core p1 = core'" using com by blast
    have db1: "pn_Db p1 = add_change (change_row env obj act data login) (sd_Db s)" "pn_Busy p1 = pn_Busy p" using com by blast+
    have fine1: "fine (pn_Db p1) (pn_Core p1)"
      using side_fine [OF side_add_change save_object_fine [OF fine(1) env data obj]] by (simp add: db1 core')
    have p': "p' = snd (update_cores env s p1)"
      using run None tx Inr by (auto simp: saveLocked_def split: prod.splits sum.splits)
    have "db_clean (pn_Db p1)" "in_line p1" using fine1 by (simp_all add: fine_line in_line_def)
    from settlesD [OF settles_update this, of env s] show ?thesis
      using fine1 fine(2) db1 by (auto simp: p' same_data_def in_line_def fine_line)
  qed
qed (use run fine in \<open>simp add: saveLocked_def\<close>)


text \<open>
  C3. A save commits everything or nothing. Either it fails and the database is untouched, or the
  saved object and exactly one change, with its author, are committed together; an error after
  the commit says that the configuration was saved. A change of the Xray inbounds is committed
  only when the Xray binary has accepted the new configuration.
\<close>

theorem saveLocked_atomic:
  assumes run: "saveLocked env obj act data users login hostname p = (r, p')"
  shows "isl r \<and> pn_Db p' = pn_Db p \<and> pn_LastUpdate p' = pn_LastUpdate p
    \<or> (\<exists>s core'. save_object env obj act data users hostname (pn_Db p) (pn_Core p) = (Inr s, core')
        \<and> pn_Db p' = (sd_Db s)\<lparr>db_Changes := db_Changes (pn_Db p) @ [change_row env obj act data login]\<rparr>
        \<and> pn_LastUpdate p' = cf_Now env
        \<and> (sd_Xray s \<longrightarrow> (\<exists>q. fst (validateXrayConfig env (sd_Db s) q) = Inr ()))
        \<and> (case r of Inr objs \<Rightarrow> objs = sd_Objs s
           | Inl e \<Rightarrow> \<exists>e'. Inl e = (NewErrorf (''configuration saved, but core update failed: '' @ e') :: string list result)))"
proof (cases "cf_Begin env")
  case None
  obtain res p1 where tx: "save_transaction env obj act data users login hostname p = (res, p1)" by fastforce
  show ?thesis
  proof (cases res)
    case (Inl e)
    then have "(r, p') = restore_core env obj e p1" using run None tx by (simp add: saveLocked_def)
    moreover have "kept p1 = kept p" using transaction_Inl [OF tx [unfolded Inl]] by (simp add: same_data_def kept_def)
    moreover have "kept (snd (restore_core env obj e p1)) = kept p1" "isl (fst (restore_core env obj e p1))"
      by (auto simp: restore_core_def NewErrorf_def split: prod.split sum.split dest: arg_cong [where f = "\<lambda>x. kept (snd x)"])
    ultimately show ?thesis by (metis fst_conv kept_def prod.inject snd_conv)
  next
    case (Inr s)
    note com = transaction_Inr [OF tx [unfolded Inr]]
    obtain core' where obj: "save_object env obj act data users hostname (pn_Db p) (pn_Core p) = (Inr s, core')" using com by blast
    have changes: "db_Changes (sd_Db s) = db_Changes (pn_Db p)" using givesD [OF save_object_changes obj] .
    obtain u p2 where upd: "update_cores env s p1 = (u, p2)" by fastforce
    have "kept p2 = kept p1" using upd kept_update [of env s p1] by simp
    then have "pn_Db p2 = pn_Db p1 \<and> pn_LastUpdate p2 = pn_LastUpdate p1" by (simp add: kept_def)
    moreover have "p' = p2 \<and> (case r of Inr objs \<Rightarrow> objs = sd_Objs s
           | Inl e \<Rightarrow> \<exists>e'. Inl e = (NewErrorf (''configuration saved, but core update failed: '' @ e') :: string list result))"
      using run None tx Inr upd by (auto simp: saveLocked_def NewErrorf_def split: sum.splits)
    ultimately show ?thesis using com obj changes by (auto simp: add_change_def)
  qed
qed (use run in \<open>auto simp: saveLocked_def\<close>)

section \<open>Revisions\<close>

record save_request =
  sr_Env :: config_env
  sr_Obj :: string
  sr_Act :: string
  sr_Data :: raw
  sr_Users :: string
  sr_Login :: string
  sr_Host :: string

definition save_revision :: "nat \<Rightarrow> save_request \<Rightarrow> panel \<Rightarrow> (string list result \<times> nat) \<times> panel" where
  "save_revision n q = SaveWithRevision (sr_Env q) n (sr_Obj q) (sr_Act q) (sr_Data q) (sr_Users q) (sr_Login q) (sr_Host q)"

text \<open>Requests that were all prepared against revision \<open>n\<close>, in the order \<^verbatim>\<open>configSaveMu\<close> lets them in.\<close>

fun save_all :: "nat \<Rightarrow> save_request list \<Rightarrow> panel \<Rightarrow> (string list result \<times> nat) list \<times> panel" where
  "save_all n [] p = ([], p)"
| "save_all n (q # qs) p = (let (r, p1) = save_revision n q p; (rs, p2) = save_all n qs p1 in (r # rs, p2))"

lemma save_revision_cases:
  assumes "save_revision n q p = (r, p')"
  shows "(\<exists>e. r = (Inl e, CurrentRevision p)) \<or> (\<exists>objs. r = (Inr objs, Suc n) \<and> CurrentRevision p = n \<and> CurrentRevision p' = Suc n)"
proof (cases "CurrentRevision p = n")
  case True
  obtain res p1 where run: "saveLocked (sr_Env q) (sr_Obj q) (sr_Act q) (sr_Data q) (sr_Users q) (sr_Login q) (sr_Host q) p = (res, p1)" by fastforce
  have "CurrentRevision p1 = Suc n" if ok: "res = Inr objs" for objs
  proof -
    obtain res0 p0 where tx: "save_transaction (sr_Env q) (sr_Obj q) (sr_Act q) (sr_Data q) (sr_Users q) (sr_Login q) (sr_Host q) p = (res0, p0)" by fastforce
    have "cf_Begin (sr_Env q) = None" using run ok by (auto simp: saveLocked_def split: option.splits)
    then obtain s u p2 where s: "res0 = Inr s" and upd: "update_cores (sr_Env q) s p0 = (u, p1)"
      using run tx ok by (cases res0) (auto simp: saveLocked_def restore_core_def NewErrorf_def split: prod.splits sum.splits if_splits)
    note com = transaction_Inr [OF tx [unfolded s]]
    have "kept p1 = kept p0" using upd kept_update [of "sr_Env q" s p0] by simp
    then have "db_Changes (pn_Db p1) = db_Changes (sd_Db s) @ [change_row (sr_Env q) (sr_Obj q) (sr_Act q) (sr_Data q) (sr_Login q)]"
      using com by (auto simp: kept_def add_change_def)
    moreover have "db_Changes (sd_Db s) = db_Changes (pn_Db p)" using com givesD [OF save_object_changes] by blast
    ultimately show ?thesis using True by (simp add: CurrentRevision_def)
  qed
  then show ?thesis using assms True run by (auto simp: save_revision_def SaveWithRevision_def split: sum.splits)
qed (use assms in \<open>auto simp: save_revision_def SaveWithRevision_def\<close>)

lemma later_conflict:
  assumes "CurrentRevision p = Suc n"
  shows "save_all n qs p = (replicate (length qs) (Inl revision_conflict, Suc n), p)"
  using assms by (induction qs) (simp_all add: save_revision_def SaveWithRevision_def)

text \<open>
  C4. Optimistic concurrency: of any number of requests prepared against the same revision at most
  one succeeds; it raises the revision by one, and every request after it is told of the conflict,
  with the new revision, and changes nothing.
\<close>

theorem one_save_per_revision:
  assumes "save_all n qs p = (rs, p')"
  shows "list_all (\<lambda>r. isl (fst r)) rs
    \<or> (\<exists>failed objs k. rs = failed @ (Inr objs, Suc n) # replicate k (Inl revision_conflict, Suc n)
        \<and> list_all (\<lambda>r. isl (fst r)) failed \<and> CurrentRevision p' = Suc n)"
  using assms
proof (induction qs arbitrary: p rs)
  case (Cons q qs)
  obtain r p1 rs1 where r: "save_revision n q p = (r, p1)" "save_all n qs p1 = (rs1, p')" "rs = r # rs1"
    using Cons.prems by (auto simp: Let_def split: prod.splits)
  from save_revision_cases [OF r(1)] show ?case
  proof (elim disjE exE conjE)
    fix e
    assume e: "r = (Inl e, CurrentRevision p)"
    from Cons.IH [OF r(2)] show ?thesis
    proof (elim disjE exE conjE)
      fix failed objs k
      assume "rs1 = failed @ (Inr objs, Suc n) # replicate k (Inl revision_conflict, Suc n)" "list_all (\<lambda>r. isl (fst r)) failed" "CurrentRevision p' = Suc n"
      then show ?thesis unfolding r(3) e by (intro disjI2 exI [of _ "(Inl e, CurrentRevision p) # failed"] exI [of _ objs] exI [of _ k]) simp
    qed (simp add: r(3) e)
  next
    fix objs
    assume "r = (Inr objs, Suc n)" "CurrentRevision p1 = Suc n"
    then show ?thesis
      using r(2,3) later_conflict [of p1 n qs]
      by (intro disjI2 exI [of _ "[]"] exI [of _ objs] exI [of _ "length qs"]) simp
  qed
qed simp

section \<open>An example\<close>

definition example_config :: config_env where
  "example_config = \<lparr>cf_Svc = example_env, cf_Settings = example_settings, cf_XrayEnv = example_xray,
     cf_XrayFiles = \<lparr>xf_CertDir = ''certs'', xf_Mkdir = None, xf_WriteErr = (\<lambda>_. None)\<rparr>,
     cf_XrayDisabled = False, cf_SkipCore = False, cf_Now = 5000, cf_Begin = None, cf_CreateChange = None, cf_Commit = None\<rparr>"

definition example_panel :: panel where
  "example_panel = \<lparr>pn_Db = reload_db, pn_Core = reload_core, pn_Xray = NewXrayRuntime, pn_Files = Map.empty, pn_Busy = False,
     pn_LastStartFail = None, pn_LastUpdate = 0\<rparr>"

definition example_request :: save_request where
  "example_request = \<lparr>sr_Env = example_config, sr_Obj = ''clients'', sr_Act = ''new'', sr_Data = reload_client, sr_Users = [],
     sr_Login = ''admin'', sr_Host = ''example.com''\<rparr>"

lemma example_fine: "fine (pn_Db example_panel) (pn_Core example_panel)" "\<not> pn_Busy example_panel" "env_ok (cf_Svc example_config)"
  "proper_save (pn_Db example_panel) ''clients'' ''new'' reload_client []"
proof -
  have "clients_clean reload_db" by code_simp
  then show "fine (pn_Db example_panel) (pn_Core example_panel)" using reload_in_step by (simp add: fine_def example_panel_def)
  show "\<not> pn_Busy example_panel" by (simp add: example_panel_def)
  have "ce_SameBytes (sv_Client example_env) a b \<longrightarrow> a = b" for a b by (simp add: example_env_def)
  then show "env_ok (cf_Svc example_config)" using example_warp by (simp add: env_ok_def example_config_def)
  show "proper_save (pn_Db example_panel) ''clients'' ''new'' reload_client []" by code_simp
qed

lemma example_save: "fst (saveLocked example_config ''clients'' ''new'' reload_client [] ''admin'' ''example.com'' example_panel) = Inr [''clients'', ''inbounds'']"
  by code_simp


theorem saveLocked_atomic_witness:
  "\<exists>p'. saveLocked example_config ''clients'' ''new'' reload_client [] ''admin'' ''example.com'' example_panel = (Inr [''clients'', ''inbounds''], p')
     \<and> pn_LastUpdate p' = 5000"
proof -
  obtain p' where run: "saveLocked example_config ''clients'' ''new'' reload_client [] ''admin'' ''example.com'' example_panel = (Inr [''clients'', ''inbounds''], p')"
    using example_save by (metis prod.collapse)
  have "cf_Now example_config = 5000" by (simp add: example_config_def)
  with saveLocked_atomic [OF run] run show ?thesis by auto
qed

theorem one_save_per_revision_witness:
  "\<exists>objs p'. save_all 0 [example_request, example_request] example_panel = ([(Inr objs, 1), (Inl revision_conflict, 1)], p')"
proof -
  obtain rs p' where run: "save_all 0 [example_request, example_request] example_panel = (rs, p')" by fastforce
  have "map (\<lambda>r. isl (fst r)) (fst (save_all 0 [example_request, example_request] example_panel)) = [False, True]" by code_simp
  then have shape: "map (\<lambda>r. isl (fst r)) rs = [False, True]" unfolding run by simp
  from one_save_per_revision [OF run] show ?thesis
  proof (elim disjE exE conjE)
    fix failed objs k
    assume rs: "rs = failed @ (Inr objs, Suc 0) # replicate k (Inl revision_conflict, Suc 0)" and bad: "list_all (\<lambda>r. isl (fst r)) failed"
    have "failed = []" using shape bad by (cases failed) (auto simp: rs)
    moreover from this have "k = 1" using arg_cong [OF shape, of length] by (simp add: rs)
    ultimately show ?thesis using run rs by simp
  qed (use shape in \<open>auto simp: list_all_iff Cons_eq_map_conv map_eq_Cons_conv\<close>)
qed

end
