(* ===== verification/Config_Xray.thy ===== *)
theory Config_Xray
  imports Config_Save
begin

text \<open>
  A save that finds sing-box stopped starts it again, and only starts Xray when it is not running:
  a running Xray process keeps the configuration it has, also when the save was about one of its
  inbounds and reports success.
\<close>

text \<open>An operation that leaves a stopped core alone.\<close>

definition idle :: "'a svc \<Rightarrow> bool" where
  "idle m \<longleftrightarrow> (\<forall>core. \<not> co_Running core \<longrightarrow> snd (m core) = core)"

named_theorems idling \<open>rules for idle\<close>

lemma idle_lift [idling]: "idle (lift_svc r)"
  by (simp add: idle_def lift_svc_def)

lemma idle_bind [idling]: "idle m \<Longrightarrow> (\<And>x. idle (f x)) \<Longrightarrow> idle (bind_svc m f)"
  by (simp add: idle_def bind_svc_snd split: sum.split)

lemma idle_if [idling]: "idle m \<Longrightarrow> idle n \<Longrightarrow> idle (if b then m else n)"
  by simp

lemma idle_running [idling]: "idle n \<Longrightarrow> idle (if_running m n)"
  by (simp add: idle_def if_running_def)

lemma idle_prod [idling]: "(\<And>a b. idle (f a b)) \<Longrightarrow> idle (case x of (a, b) \<Rightarrow> f a b)"
  by (cases x) simp

lemma idle_items [idling]: "idle (replace_item cv k oldTag cfg)" "idle (drop_item cv k tag)"
  unfolding replace_item_def drop_item_def by (intro idling)+

lemma idle_wrap [idling]: "idle m \<Longrightarrow> idle (wrap_svc msg m)"
  by (auto simp: idle_def wrap_svc_def split: prod.split sum.split)

lemma idle_restarts [idling]: "idle (RestartInbounds env db ids)" "idle (RestartServices env db ids)"
  unfolding RestartInbounds_def RestartServices_def by (intro idling)+

lemma idle_saves [idling]:
  "idle (Outbounds_Save sv db act data)" "idle (Services_Save sv db act data)" "idle (Endpoints_Save sv db act data)"
  "idle (Inbounds_Save sv db act data users hostname)" "idle (Tls_Save sv db act data hostname)"
  unfolding Outbounds_Save_def Services_Save_def Endpoints_Save_def Inbounds_Save_def save_inbound_def delete_inbound_def reload_inbound_def
    Tls_Save_def edited_tls_def Let_def
  by (intro idling)+

lemma idle_object: "idle (save_object env obj act data users hostname db)"
  unfolding save_object_def Let_def by (intro idling)

text \<open>The configuration of a running Xray process, and whether it has been killed.\<close>

definition xray_config :: "panel \<Rightarrow> (raw \<times> bool) option" where
  "xray_config p = map_option (\<lambda>c. (c, xr_Killed (pn_Xray p))) (xr_Running (pn_Xray p))"

lemma validate_keeps_xray: "xray_config (snd (validateXrayConfig env db p)) = xray_config p"
  by (auto simp: validateXrayConfig_def bind_svc_def lift_svc_def on_files_def on_xray_def xray_config_def xray_Validate_def validateBinary_def
      fail_with_def split: prod.splits sum.splits option.splits)

lemma ensure_keeps_xray:
  assumes "xray_config p \<noteq> None" "\<not> cf_XrayDisabled env" "hasXrayInbounds (pn_Db p)"
  shows "xray_config (snd (ensureXrayCore env False manual p)) = xray_config p"
  using assms
  by (auto simp: ensureXrayCore_def bind_svc_def on_files_def xray_config_def xray_IsRunning_def split: prod.splits sum.splits)

definition xray_stays :: "config_env \<Rightarrow> 'a panel_op \<Rightarrow> bool" where
  "xray_stays env m \<longleftrightarrow> (\<forall>p. xray_config p \<noteq> None \<longrightarrow> hasXrayInbounds (pn_Db p) \<longrightarrow>
     xray_config (snd (m p)) = xray_config p \<and> pn_Db (snd (m p)) = pn_Db p)"

named_theorems staying \<open>rules for xray_stays\<close>

lemma kept_db: "kept p' = kept p \<Longrightarrow> pn_Db p' = pn_Db p"
  by (simp add: kept_def)

lemma stays_lift [staying]: "xray_stays env (lift_svc r)"
  by (simp add: xray_stays_def lift_svc_def)

lemma stays_core [staying]: "xray_stays env (on_core m)"
  by (auto simp: xray_stays_def on_core_def xray_config_def split: prod.split)

lemma stays_bind [staying]: "xray_stays env m \<Longrightarrow> (\<And>x. xray_stays env (f x)) \<Longrightarrow> xray_stays env (bind_svc m f)"
  by (simp add: xray_stays_def bind_svc_snd split: sum.split)

lemma stays_note [staying]: "xray_stays env m \<Longrightarrow> xray_stays env (note_failure env m)"
  by (auto simp: xray_stays_def note_failure_def xray_config_def split: prod.split sum.split)

lemma stays_ensure: "\<not> cf_XrayDisabled env \<Longrightarrow> xray_stays env (ensureXrayCore env False manual)"
  using ensure_keeps_xray kept_ensure [THEN kept_db] by (simp add: xray_stays_def)

lemma stays_guarded [staying]:
  assumes "xray_stays env m"
  shows "xray_stays env (guarded m)"
  unfolding xray_stays_def
proof (intro allI impI)
  fix p :: panel
  assume p: "xray_config p \<noteq> None" "hasXrayInbounds (pn_Db p)"
  have "xray_config (p\<lparr>pn_Busy := b\<rparr>) = xray_config p" for p :: panel and b by (simp add: xray_config_def)
  then show "xray_config (snd (guarded m p)) = xray_config p \<and> pn_Db (snd (guarded m p)) = pn_Db p"
    using assms [unfolded xray_stays_def, rule_format, of "p\<lparr>pn_Busy := True\<rparr>"] p by (simp add: guarded_def Let_def split_beta)
qed

lemma stays_start: "\<not> cf_XrayDisabled env \<Longrightarrow> xray_stays env (StartCore env)"
proof -
  assume on: "\<not> cf_XrayDisabled env"
  have start: "xray_stays env (start_both env)"
    unfolding xray_stays_def
  proof (intro allI impI)
    fix p :: panel
    assume p: "xray_config p \<noteq> None" "hasXrayInbounds (pn_Db p)"
    have "xray_stays env (bind_svc (if b then lift_svc (Inr ()) else (\<lambda>p. case c of Inl e \<Rightarrow> (Inl e, p)
        | Inr cfg \<Rightarrow> note_failure env (on_core (core_Start (sv_CoreEnv (cf_Svc env)) cfg)) p))
        (\<lambda>_. note_failure env (ensureXrayCore env False False)))" for b c
    proof (rule staying)
      show "xray_stays env (if b then lift_svc (Inr ()) else (\<lambda>p. case c of Inl e \<Rightarrow> (Inl e, p)
        | Inr cfg \<Rightarrow> note_failure env (on_core (core_Start (sv_CoreEnv (cf_Svc env)) cfg)) p))"
        using stays_note [OF stays_core] stays_lift by (cases b; cases c) (simp_all add: xray_stays_def)
      show "xray_stays env (note_failure env (ensureXrayCore env False False))" for x :: unit by (intro staying stays_ensure on)
    qed
    from this [of "running p" "GetConfigWithDB RNil (pn_Db p)", unfolded xray_stays_def, rule_format, OF p]
    show "xray_config (snd (start_both env p)) = xray_config p \<and> pn_Db (snd (start_both env p)) = pn_Db p"
      by (simp add: start_both_def bind_svc_snd split: if_splits)
  qed
  from stays_guarded [OF this] show ?thesis
    by (auto simp: xray_stays_def StartCore_def split: option.split)
qed

lemma stays_restart_with: "\<not> cf_XrayDisabled env \<Longrightarrow> xray_stays env (restartCoreWithConfig env config)"
proof -
  assume on: "\<not> cf_XrayDisabled env"
  have "xray_stays env (stop_if_running env)" "xray_stays env (start_singbox env config)"
    by (auto simp: xray_stays_def stop_if_running_def start_singbox_def on_core_def xray_config_def split: prod.split sum.split)
  then show ?thesis unfolding restartCoreWithConfig_def by (intro staying stays_ensure on)
qed

text \<open>
  C34. With sing-box stopped and Xray running, a successful save of any object, an Xray inbound
  included, leaves the Xray process on its old configuration, when the panel is not in safe mode
  (\<^verbatim>\<open>SUI_SKIP_CORE\<close>), Xray is not disabled and an Xray inbound is left after the save. (In safe mode
  the save restarts Xray, see \<open>safe_mode_restarts_xray\<close>; without an Xray inbound Xray is stopped.)
\<close>

theorem xray_keeps_old_configuration:
  assumes run: "saveLocked env obj act data users login hostname p = (Inr objs, p')" and stopped: "\<not> running p"
    and xray: "xr_Running (pn_Xray p) = Some old" and env: "\<not> cf_SkipCore env" "\<not> cf_XrayDisabled env"
    and has: "hasXrayInbounds (pn_Db p')"
  shows "xr_Running (pn_Xray p') = Some old \<and> xr_Killed (pn_Xray p') = xr_Killed (pn_Xray p)"
proof -
  have "cf_Begin env = None" using run by (auto simp: saveLocked_def split: option.splits)
  then obtain s u p1 where tx: "save_transaction env obj act data users login hostname p = (Inr s, p1)" and upd: "update_cores env s p1 = (u, p')"
    using run by (auto simp: saveLocked_def restore_core_def NewErrorf_def split: prod.splits sum.splits if_splits)
  have "pn_Core p1 = pn_Core p"
    using transaction_Inr [OF tx] idle_object [of env obj act data users hostname "pn_Db p"] stopped by (auto simp: idle_def running_def)
  then have stopped1: "\<not> running p1" using stopped by (simp add: running_def)
  obtain p2 p3 where obj: "on_core (save_object env obj act data users hostname (pn_Db p)) p = (Inr s, p2)"
    and val: "(if sd_Xray s then validateXrayConfig env (sd_Db s) else lift_svc (Inr ())) p2 = (Inr (), p3)"
    and p1: "p1 = p3\<lparr>pn_Db := add_change (change_row env obj act data login) (sd_Db s), pn_LastUpdate := cf_Now env\<rparr>"
    using tx unfolding save_transaction_def bind_svc_Inr lift_svc_Inr by auto
  have "xray_config p2 = xray_config p" using obj by (auto simp: on_core_def xray_config_def split: prod.splits)
  moreover have "xray_config p3 = xray_config p2" using val validate_keeps_xray [of env "sd_Db s" p2] by (auto simp: lift_svc_Inr split: if_splits)
  ultimately have x1: "xray_config p1 = Some (old, xr_Killed (pn_Xray p))" using xray by (simp add: p1 xray_config_def)
  have db: "pn_Db p' = pn_Db p1" using kept_update [of env s p1] upd by (simp add: kept_def)
  then have p1ok: "xray_config p1 \<noteq> None" "hasXrayInbounds (pn_Db p1)" using x1 has by simp_all
  have "p' = snd ((case sd_Config s of Some config \<Rightarrow> restartCoreWithConfig env config | None \<Rightarrow> StartCore env) p1)"
    using upd stopped1 env by (auto simp: update_cores_def split: option.splits)
  moreover have "xray_stays env (case sd_Config s of Some config \<Rightarrow> restartCoreWithConfig env config | None \<Rightarrow> StartCore env)"
    using stays_restart_with stays_start env(2) by (simp split: option.split)
  ultimately have "xray_config p' = xray_config p1" using p1ok by (simp add: xray_stays_def)
  then have "xray_config p' = Some (old, xr_Killed (pn_Xray p))" using x1 by simp
  then show ?thesis by (auto simp: xray_config_def)
qed

definition stopped_panel :: panel where
  "stopped_panel = example_panel\<lparr>pn_Core := stopped_core, pn_Xray := \<lparr>xr_Running = Some (RVal GNil), xr_Killed = False, xr_LastError = []\<rparr>\<rparr>"

definition xray_request :: raw where
  "xray_request = RVal (GMap [(''type'', GStr ''socks''), (''tag'', GStr ''xray-1''), (''core_type'', GStr ''xray''),
     (''listen'', GStr ''::''), (''listen_port'', GFloat 1081)])"

theorem xray_keeps_old_configuration_witness:
  "\<exists>objs p'. saveLocked example_config ''inbounds'' ''new'' xray_request [] ''admin'' ''example.com'' stopped_panel = (Inr objs, p')
     \<and> xr_Running (pn_Xray p') = Some (RVal GNil)
     \<and> \<not> isl (fst (getXrayConfig (cf_XrayFiles example_config) (pn_Db p') (pn_Files p')))
     \<and> fst (getXrayConfig (cf_XrayFiles example_config) (pn_Db p') (pn_Files p')) \<noteq> Inr (RVal GNil)"
proof -
  let ?run = "saveLocked example_config ''inbounds'' ''new'' xray_request [] ''admin'' ''example.com'' stopped_panel"
  have "\<not> isl (fst ?run) \<and> hasXrayInbounds (pn_Db (snd ?run))
      \<and> \<not> isl (fst (getXrayConfig (cf_XrayFiles example_config) (pn_Db (snd ?run)) (pn_Files (snd ?run))))
      \<and> fst (getXrayConfig (cf_XrayFiles example_config) (pn_Db (snd ?run)) (pn_Files (snd ?run))) \<noteq> Inr (RVal GNil)" by code_simp
  then obtain objs p' where run: "?run = (Inr objs, p')" and has: "hasXrayInbounds (pn_Db p')"
    and new: "\<not> isl (fst (getXrayConfig (cf_XrayFiles example_config) (pn_Db p') (pn_Files p')))"
      "fst (getXrayConfig (cf_XrayFiles example_config) (pn_Db p') (pn_Files p')) \<noteq> Inr (RVal GNil)"
    by (cases ?run; cases "fst ?run") auto
  have "\<not> running stopped_panel" "xr_Running (pn_Xray stopped_panel) = Some (RVal GNil)" "\<not> cf_SkipCore example_config" "\<not> cf_XrayDisabled example_config"
    by (simp_all add: running_def stopped_panel_def stopped_core_def example_config_def)
  from xray_keeps_old_configuration [OF run this has] run new show ?thesis by blast
qed

text \<open>The same save in safe mode: Xray runs the configuration of the committed database.\<close>

definition safe_mode :: config_env where
  "safe_mode = example_config\<lparr>cf_SkipCore := True, cf_XrayEnv := example_xray\<lparr>xe_Lingers := False\<rparr>\<rparr>"

lemma safe_mode_restarts_xray:
  "case saveLocked safe_mode ''inbounds'' ''new'' xray_request [] ''admin'' ''example.com'' stopped_panel of (r, p') \<Rightarrow>
     \<not> isl r \<and> \<not> running p' \<and> map_option Inr (xr_Running (pn_Xray p')) = Some (fst (getXrayConfig (cf_XrayFiles safe_mode) (pn_Db p') (pn_Files p')))
     \<and> xr_Running (pn_Xray p') \<noteq> Some (RVal GNil)"
  by code_simp

end
