(* ===== verification/Relay_System.thy ===== *)
theory Relay_System
  imports Relay_Routes Relay_Ports Relay_Items Relay_Egress Config_Service
begin

text \<open>
  What the relay operations of \<^verbatim>\<open>service/relay.go\<close> share: the machine they run on, the system
  addresses they add and remove, and the database helpers.

  \<open>relay_env\<close> is the machine and the randomness: the interfaces as they are found, what \<^verbatim>\<open>ip\<close>
  reports, the first probe that fails (the schedule of the probe workers decides which, see
  \<^verbatim>\<open>Relay_Egress\<close>), and one stream per use of the random generator. The names of the rows an item
  creates are drawn from \<open>re_Tags\<close>, 26 characters per item. \<open>rs_Log\<close> are the commands \<^verbatim>\<open>ip\<close> has carried out.
\<close>

record relay_env =
  re_Config :: config_env
  re_Linux :: bool
  re_Root :: bool
  re_Interfaces :: "net_interface list result"
  re_IpAdd :: "string \<Rightarrow> string \<Rightarrow> int \<Rightarrow> string option"
  re_IpDel :: "string \<Rightarrow> string \<Rightarrow> int \<Rightarrow> string option"
  re_Polls :: "nat \<Rightarrow> string \<Rightarrow> string result"
  re_Rounds :: nat
  re_Probe :: "addr list \<Rightarrow> (addr \<times> string) option"
  re_Names :: "nat \<Rightarrow> nat"
  re_Tags :: "nat \<Rightarrow> nat"
  re_Tokens :: "nat \<Rightarrow> nat"
  re_Bytes :: "nat \<Rightarrow> nat"
  re_Addresses :: "nat \<Rightarrow> 128 word"
  re_Uuid :: "nat \<Rightarrow> string"

datatype ip_command = AddAddress string string int | DeleteAddress string string int

record relay_state =
  rs_Panel :: panel
  rs_Log :: "ip_command list"

type_synonym 'a relay_op = "relay_state \<Rightarrow> 'a result \<times> relay_state"

definition on_panel :: "'a panel_op \<Rightarrow> 'a relay_op" where
  "on_panel m s = (let (r, p) = m (rs_Panel s) in (r, s\<lparr>rs_Panel := p\<rparr>))"

definition log_commands :: "ip_command list \<Rightarrow> relay_state \<Rightarrow> relay_state" where
  "log_commands cs s = s\<lparr>rs_Log := rs_Log s @ cs\<rparr>"

definition relay_now :: "relay_env \<Rightarrow> int" where
  "relay_now env = cf_Now (re_Config env) div 1000"

section \<open>System addresses\<close>

definition addRelayAddress :: "relay_env \<Rightarrow> string \<Rightarrow> string \<Rightarrow> int \<Rightarrow> unit result" where
  "addRelayAddress env iface ip plen =
     (if \<not> re_Linux env then NewError ''adding IPv6 addresses is supported on Linux only''
      else if \<not> re_Root env then NewError ''root permission is required to add IPv6 addresses''
      else if iface = [] \<or> plen < 1 \<or> plen > 128 then NewError ''invalid IPv6 interface or prefix''
      else case re_IpAdd env iface ip plen of Some e \<Rightarrow> Inl e | None \<Rightarrow> Inr ())"

text \<open>The result says whether the command ran; its error is only logged.\<close>

definition deleteRelayAddress :: "relay_env \<Rightarrow> string \<Rightarrow> string \<Rightarrow> int \<Rightarrow> bool result" where
  "deleteRelayAddress env iface ip plen =
     (if \<not> re_Linux env \<or> iface = [] \<or> ip = [] then Inr False
      else if \<not> re_Root env then NewError ''root permission is required to remove IPv6 addresses''
      else case re_IpDel env iface ip plen of Some e \<Rightarrow> Inl e | None \<Rightarrow> Inr True)"

definition add_command :: "relay_item \<Rightarrow> ip_command" where
  "add_command it = AddAddress (ri_Interface it) (ri_IPv6 it) (ri_Prefix it)"

definition delete_command :: "relay_item \<Rightarrow> ip_command" where
  "delete_command it = DeleteAddress (ri_Interface it) (ri_IPv6 it) (ri_Prefix it)"

text \<open>Deleting the addresses of items; an error leaves the address and goes on.\<close>

definition delete_addresses :: "relay_env \<Rightarrow> relay_item list \<Rightarrow> relay_state \<Rightarrow> relay_state" where
  "delete_addresses env its = log_commands (map delete_command
     (filter (\<lambda>it. deleteRelayAddress env (ri_Interface it) (ri_IPv6 it) (ri_Prefix it) = Inr True) its))"

text \<open>The deferred clean-up of an operation: when it fails, the addresses it had added go again.\<close>

definition cleaning_up :: "relay_env \<Rightarrow> relay_item list \<Rightarrow> 'a relay_op \<Rightarrow> 'a relay_op" where
  "cleaning_up env added m s = (case m s of
     (Inl e, s') \<Rightarrow> (Inl e, delete_addresses env (filter ri_AddedByUs added) s')
   | (Inr x, s') \<Rightarrow> (Inr x, s'))"

section \<open>Waiting for the addresses\<close>

type_synonym pending = "(string \<times> string list) list"

definition add_pending :: "string \<Rightarrow> string \<Rightarrow> pending \<Rightarrow> pending" where
  "add_pending iface ip p = (case map_of p iface of
     None \<Rightarrow> p @ [(iface, [ip])]
   | Some ips \<Rightarrow> AList.update iface (if ip \<in> set ips then ips else ips @ [ip]) p)"

fun pending_addresses :: "relay_item list \<Rightarrow> pending \<Rightarrow> pending result" where
  "pending_addresses [] p = Inr p"
| "pending_addresses (it # its) p =
     (if ri_IPv6 it = [] then pending_addresses its p
      else if ri_Interface it = [] then NewError ''IPv6 interface is required''
      else case ParseAddr (ri_IPv6 it) of
        None \<Rightarrow> Inl ''unable to parse IP''
      | Some _ \<Rightarrow> pending_addresses its (add_pending (ri_Interface it) (ri_IPv6 it) p))"

fun still_pending :: "string \<Rightarrow> string list \<Rightarrow> string list result" where
  "still_pending out [] = Inr []"
| "still_pending out (ip # ips) =
     (let state = relayIPv6AddressState out ip in
      if state = relayAddressDADFailed then NewErrorf (''IPv6 duplicate-address detection failed for '' @ ip)
      else bindr (still_pending out ips) (\<lambda>rest. Inr (if state = relayAddressReady then rest else ip # rest)))"

fun wait_round :: "(string \<Rightarrow> string result) \<Rightarrow> pending \<Rightarrow> pending result" where
  "wait_round poll [] = Inr []"
| "wait_round poll ((iface, ips) # p) =
     (case poll iface of
        Inl e \<Rightarrow> Inl (''check IPv6 address readiness failed: '' @ e)
      | Inr out \<Rightarrow> bindr (still_pending out ips) (\<lambda>ips'. bindr (wait_round poll p) (\<lambda>p'.
          Inr (if ips' = [] then p' else (iface, ips') # p'))))"

text \<open>Go visits the interfaces in any order; which of several errors is reported depends on it.\<close>

text \<open>\<open>k\<close> rounds are left before the deadline of ten seconds.\<close>

fun wait_loop :: "(nat \<Rightarrow> string \<Rightarrow> string result) \<Rightarrow> nat \<Rightarrow> nat \<Rightarrow> pending \<Rightarrow> unit result" where
  "wait_loop polls n k p = bindr (wait_round (polls n) p) (\<lambda>p'. case p' of
     [] \<Rightarrow> Inr ()
   | (_, ips) # _ \<Rightarrow> (case k of
       0 \<Rightarrow> NewErrorf (''IPv6 address '' @ (case ips of ip # _ \<Rightarrow> ip | [] \<Rightarrow> []) @ '' did not become ready before timeout'')
     | Suc k' \<Rightarrow> wait_loop polls (Suc n) k' p'))"

definition waitRelayAddressesReady :: "relay_env \<Rightarrow> relay_item list \<Rightarrow> unit result" where
  "waitRelayAddressesReady env its =
     (if \<not> re_Linux env then Inr ()
      else bindr (pending_addresses its []) (\<lambda>p. if p = [] then Inr () else wait_loop (re_Polls env) 0 (re_Rounds env) p))"

section \<open>The egress check\<close>

definition validateRelayIPv6Egress :: "relay_env \<Rightarrow> relay_item list \<Rightarrow> unit result" where
  "validateRelayIPv6Egress env its = bindr (egress_addresses its []) (\<lambda>addresses.
     if addresses = [] then Inr ()
     else egress_result \<lparr>eg_jobs = [], eg_workers = [], eg_failed = re_Probe env addresses\<rparr>)"

section \<open>The stored configuration\<close>

text \<open>\<^verbatim>\<open>null\<close> decodes to the nil map, whose assignment panics.\<close>

definition update_stored_rules :: "relay_item list \<Rightarrow> bool \<Rightarrow> bool \<Rightarrow> panel_db \<Rightarrow> panel_db result" where
  "update_stored_rules its ipv6Only remove db = (case db_Config db of
     None \<Rightarrow> not_found
   | Some (RVal GNil) \<Rightarrow> Inl ''panic: assignment to entry in nil map''
   | Some r \<Rightarrow> (case decode_map r of
       None \<Rightarrow> Inl json_err
     | Some config \<Rightarrow> bindr (updateRelayRouteRules its ipv6Only remove config) (\<lambda>c.
         Inr (db\<lparr>db_Config := Some (mustJSON (GMap c))\<rparr>))))"

section \<open>Refresh links\<close>

definition find_link :: "nat \<Rightarrow> string \<Rightarrow> panel_db \<Rightarrow> relay_link option" where
  "find_link pool tag db = find (\<lambda>l. rl_PoolID l = pool \<and> rl_InboundTag l = tag) (tb_Rows (db_Links db))"

definition linked_item :: "relay_item \<Rightarrow> bool" where
  "linked_item it \<longleftrightarrow> ri_IPv6 it \<noteq> [] \<and> ri_InboundTag it \<noteq> []"

definition create_link :: "relay_env \<Rightarrow> nat \<Rightarrow> string \<Rightarrow> panel_db \<Rightarrow> panel_db result" where
  "create_link env pool tag db =
     bindr (save_tagged rl_Id (\<lambda>k. with_rl_Id k) rl_Token
         \<lparr>rl_Id = 0, rl_PoolID = pool, rl_InboundTag = tag, rl_Token = Random (re_Tokens env) (48 * tb_Seq (db_Links db)) 48,
          rl_CreatedAt = relay_now env, rl_LastRotatedAt = 0\<rparr> (db_Links db)) (\<lambda>(_, t). Inr (db\<lparr>db_Links := t\<rparr>))"

definition ensure_link :: "relay_env \<Rightarrow> nat \<Rightarrow> relay_item \<Rightarrow> panel_db \<Rightarrow> panel_db result" where
  "ensure_link env pool it db =
     (if linked_item it \<and> find_link pool (ri_InboundTag it) db = None then create_link env pool (ri_InboundTag it) db else Inr db)"

definition ensureRelayRefreshLinksTx :: "relay_env \<Rightarrow> nat \<Rightarrow> relay_item list \<Rightarrow> panel_db \<Rightarrow> panel_db result" where
  "ensureRelayRefreshLinksTx env pool its = eachr (ensure_link env pool) its"

definition items_error :: "relay_pool \<Rightarrow> 'a result" where
  "items_error pool = Inl (''relay pool '' @ quoted (rp_Name pool) @ '': invalid items: '' @ json_err)"

definition ensure_pool_links :: "relay_env \<Rightarrow> relay_pool \<Rightarrow> panel_db \<Rightarrow> panel_db result" where
  "ensure_pool_links env pool db =
     (if \<not> relayModeUsesIPv6 (rp_Mode pool) then Inr db
      else case rp_Items pool of None \<Rightarrow> items_error pool | Some its \<Rightarrow> ensureRelayRefreshLinksTx env (rp_Id pool) its db)"

text \<open>
  For many pools the links are read once, into a set of keys, and each new key is added to it.
  The transaction is committed when every pool went through.
\<close>

definition link_key :: "nat \<Rightarrow> string \<Rightarrow> string" where
  "link_key pool tag = nat_str pool @ '':'' @ tag"

fun ensure_items :: "relay_env \<Rightarrow> nat \<Rightarrow> relay_item list \<Rightarrow> string set \<Rightarrow> panel_db \<Rightarrow> (string set \<times> panel_db) result" where
  "ensure_items env pool [] existing db = Inr (existing, db)"
| "ensure_items env pool (it # its) existing db =
     (if \<not> linked_item it \<or> link_key pool (ri_InboundTag it) \<in> existing then ensure_items env pool its existing db
      else bindr (create_link env pool (ri_InboundTag it) db) (\<lambda>db'.
        ensure_items env pool its (insert (link_key pool (ri_InboundTag it)) existing) db'))"

fun ensure_pools :: "relay_env \<Rightarrow> relay_pool list \<Rightarrow> string set \<Rightarrow> panel_db \<Rightarrow> panel_db result" where
  "ensure_pools env [] existing db = Inr db"
| "ensure_pools env (pool # pools) existing db =
     (if \<not> relayModeUsesIPv6 (rp_Mode pool) then ensure_pools env pools existing db
      else case rp_Items pool of None \<Rightarrow> items_error pool | Some its \<Rightarrow>
        bindr (ensure_items env (rp_Id pool) its existing db) (\<lambda>(existing', db'). ensure_pools env pools existing' db'))"

definition existing_links :: "relay_pool list \<Rightarrow> panel_db \<Rightarrow> string set" where
  "existing_links pools db = set (map (\<lambda>l. link_key (rl_PoolID l) (rl_InboundTag l))
     (filter (\<lambda>l. rl_PoolID l \<in> set (map rp_Id pools)) (tb_Rows (db_Links db))))"

definition ensureRelayRefreshLinks :: "relay_env \<Rightarrow> relay_pool list \<Rightarrow> unit panel_op" where
  "ensureRelayRefreshLinks env pools p = (case ensure_pools env pools (existing_links pools (pn_Db p)) (pn_Db p) of
     Inl e \<Rightarrow> (Inl e, p)
   | Inr db \<Rightarrow> (Inr (), p\<lparr>pn_Db := db\<rparr>))"

definition populate_item :: "panel_db \<Rightarrow> nat \<Rightarrow> relay_item \<Rightarrow> relay_item" where
  "populate_item db pool it = (case find_link pool (ri_InboundTag it) db of
     None \<Rightarrow> it
   | Some l \<Rightarrow> if rl_Token l = [] then it else it\<lparr>ri_RefreshToken := rl_Token l\<rparr>)"

definition populateRelayRefreshTokens :: "panel_db \<Rightarrow> relay_pool list \<Rightarrow> relay_pool list result" where
  "populateRelayRefreshTokens db pools =
     mapr (\<lambda>pool. case rp_Items pool of
        None \<Rightarrow> items_error pool
      | Some its \<Rightarrow> Inr (pool\<lparr>rp_Items := Some (map (populate_item db (rp_Id pool)) its)\<rparr>)) pools"

definition GetRelayPools :: "panel_db \<Rightarrow> relay_pool list" where
  "GetRelayPools db = rev (tb_Rows (db_Pools db))"

section \<open>The core\<close>

definition restoreSingBoxConfig :: "relay_env \<Rightarrow> raw \<Rightarrow> unit panel_op" where
  "restoreSingBoxConfig env config =
     bind_svc (stop_if_running (re_Config env)) (\<lambda>_. on_core (core_Start (sv_CoreEnv (cf_Svc (re_Config env))) config))"

text \<open>
  The core part of a relay operation: with a running core, the old configuration is remembered,
  and the core is started with that of the open transaction. An error after the old configuration
  was read is answered by restoring it, when the transaction is rolled back.
\<close>

definition replace_core :: "relay_env \<Rightarrow> string \<Rightarrow> panel_db \<Rightarrow> (raw option \<times> unit result) panel_op" where
  "replace_core env msg db p =
     (if \<not> running p then (Inr (None, Inr ()), p)
      else case GetConfigWithDB RNil (pn_Db p) of
        Inl e \<Rightarrow> (Inr (None, Inl e), p)
      | Inr oldConfig \<Rightarrow> (case GetConfigWithDB RNil db of
          Inl e \<Rightarrow> (Inr (Some oldConfig, Inl e), p)
        | Inr newConfig \<Rightarrow>
            let cv = sv_CoreEnv (cf_Svc (re_Config env)) in
            (case on_core (core_Stop cv) p of
               (Inl e, p1) \<Rightarrow> (Inr (Some oldConfig, Inl e), p1)
             | (Inr _, p1) \<Rightarrow> (case on_core (core_Start cv newConfig) p1 of
                 (Inl e, p2) \<Rightarrow> (Inr (Some oldConfig, NewErrorf (msg @ e)), p2)
               | (Inr _, p2) \<Rightarrow> (Inr (Some oldConfig, Inr ()), p2)))))"

text \<open>
  A relay transaction: the rows, the core, the change, the commit. Only the commit changes the
  database of the panel.
\<close>

definition relay_change :: "relay_env \<Rightarrow> string \<Rightarrow> string \<Rightarrow> raw \<Rightarrow> change" where
  "relay_change env actor action obj = \<lparr>ch_DateTime = relay_now env, ch_Actor = actor, ch_Key = ''relay'', ch_Action = action, ch_Obj = obj\<rparr>"

definition restore_old :: "relay_env \<Rightarrow> raw option \<Rightarrow> panel \<Rightarrow> panel" where
  "restore_old env old p = (case old of None \<Rightarrow> p | Some config \<Rightarrow> snd (restoreSingBoxConfig env config p))"

definition relay_transaction ::
  "relay_env \<Rightarrow> string \<Rightarrow> (panel_db \<Rightarrow> ('a \<times> panel_db) result) \<Rightarrow> ('a \<Rightarrow> change) \<Rightarrow> 'a panel_op" where
  "relay_transaction env msg body ch p =
     (case cf_Begin (re_Config env) of Some e \<Rightarrow> (Inl e, p) | None \<Rightarrow>
      (case body (pn_Db p) of
         Inl e \<Rightarrow> (Inl e, p)
       | Inr (x, db) \<Rightarrow>
           bind_svc (replace_core env msg db) (\<lambda>(old, r) p.
             case bindr r (\<lambda>_. bindr (opt_error (cf_CreateChange (re_Config env))) (\<lambda>_. opt_error (cf_Commit (re_Config env)))) of
               Inl e \<Rightarrow> (Inl e, restore_old env old p)
             | Inr _ \<Rightarrow> (Inr x, p\<lparr>pn_Db := add_change (ch x) db, pn_LastUpdate := cf_Now (re_Config env)\<rparr>)) p))"

end
