(* ===== verification/Relay_Create.thy ===== *)
theory Relay_Create
  imports Relay_System
begin

text \<open>
  Creating and deleting a relay pool (\<open>CreateRelay\<close>, \<open>DeleteRelay\<close> of \<^verbatim>\<open>service/relay.go\<close>): the request
  is checked and completed, the items prepared, the system addresses added and checked, and one
  transaction writes the inbounds, outbounds, clients, the pool, its refresh links and the routing
  rules, and starts the core with them.
\<close>

section \<open>The request\<close>

text \<open>\<open>if cond { return nil, err }\<close>\<close>

definition check_when :: "bool \<Rightarrow> unit result \<Rightarrow> unit result" where
  "check_when b err = (if b then err else Inr ())"

definition request_upstreams :: "relay_request \<Rightarrow> relay_request result" where
  "request_upstreams req =
     (if \<not> relayModeUsesUpstream (rq_Mode req) then Inr req
      else bindr (if rq_Upstreams req = [] then parseRelayUpstreams (rq_UpstreamText req) else Inr (rq_Upstreams req)) (\<lambda>us.
        Inr (req\<lparr>rq_Upstreams := map (\<lambda>u. u\<lparr>ru_Server := Trim (ru_Server u) ''[]''\<rparr>) us, rq_Count := int (length us)\<rparr>)))"

text \<open>Protocol, core, TLS, transport and method.\<close>

definition request_protocol :: "relay_request \<Rightarrow> relay_request result" where
  "request_protocol req0 =
     (let p = ToLower (TrimSpace (rq_Protocol req0)); proto = (if p = [] then ''socks'' else p);
          c = TrimSpace (rq_CoreType req0); core = (if c = [] then CoreTypeSingBox else c);
          transport = (if proto \<in> {''vless'', ''vmess'', ''trojan''} then (if rq_Transport req0 = [] then ''http'' else rq_Transport req0) else []);
          method = (if rq_ShadowsocksMethod req0 = [] then ''2022-blake3-aes-256-gcm'' else rq_ShadowsocksMethod req0)
      in bindr (check_when (proto \<notin> set relayProtocols) (NewErrorf (''relay protocol '' @ quoted proto @ '' is not supported''))) (\<lambda>_.
         bindr (check_when (core \<noteq> CoreTypeSingBox)
           (NewError ''relay batches currently require sing-box; Xray inbound batches use a separate routing model'')) (\<lambda>_.
         bindr (check_when (proto \<in> set relayTLSProtocols \<and> rq_TlsID req0 = 0)
           (NewErrorf (''relay protocol '' @ proto @ '' requires an existing TLS configuration''))) (\<lambda>_.
         bindr (check_when (rq_TlsID req0 > 0 \<and> proto \<notin> set relayTLSSupportedProtocols)
           (NewErrorf (''relay protocol '' @ proto @ '' does not support TLS''))) (\<lambda>_.
         bindr (check_when (proto = ''shadowsocks'' \<and> method \<notin> set relayShadowsocksMethods) (NewError ''unsupported Shadowsocks method'')) (\<lambda>_.
           Inr (req0\<lparr>rq_Protocol := proto, rq_CoreType := core, rq_Transport := transport, rq_ShadowsocksMethod := method\<rparr>)))))))"

definition request_limits :: "relay_env \<Rightarrow> relay_request \<Rightarrow> relay_request result" where
  "request_limits env req =
     bindr (check_when (rq_Count req > maxRelayItems) (NewErrorf (''relay count cannot exceed '' @ Itoa maxRelayItems))) (\<lambda>_.
     bindr (check_when (rq_PortStart req < 1 \<or> rq_PortStart req > 65535 \<or> rq_Count req > 65535 - rq_PortStart req + 1)
       (NewError ''relay port range is invalid'')) (\<lambda>_.
       Inr (req\<lparr>rq_PasswordLength := (if rq_PasswordLength req < 8 \<or> rq_PasswordLength req > 64 then 12 else rq_PasswordLength req),
                rq_UsernamePrefix := (if TrimSpace (rq_UsernamePrefix req) = [] then ''relay'' else rq_UsernamePrefix req),
                rq_Name := (if TrimSpace (rq_Name req) = [] then ''relay-'' @ Random (re_Names env) 0 5 else rq_Name req)\<rparr>)))"

definition request_host :: "relay_request \<Rightarrow> string \<Rightarrow> string result" where
  "request_host req publicHost =
     (let a = TrimSpace (rq_PublicHost req); b = TrimSpace publicHost
      in normalizeRelayPublicHost (if a \<noteq> [] then a else if b \<noteq> [] then b else ''127.0.0.1''))"

definition normalizeRelayRequest :: "relay_env \<Rightarrow> relay_request \<Rightarrow> string \<Rightarrow> relay_request result" where
  "normalizeRelayRequest env req0 publicHost =
     bindr (applyRelaySourcePreset req0) (\<lambda>req1.
       let req2 = req1\<lparr>rq_Mode := ToLower (TrimSpace (rq_Mode req1))\<rparr> in
     bindr (check_when (rq_Mode req2 \<notin> {relayModeIPv6, relayModeUpstream, relayModePaired, relayModeDualStack})
       (NewError ''relay mode must be ipv6, upstream, paired, or dualstack'')) (\<lambda>_.
     bindr (check_when (rq_Mode req2 = relayModeIPv6 \<and> rq_Count req2 \<le> 0) (NewError ''relay count must be greater than zero'')) (\<lambda>_.
     bindr (request_upstreams req2) (\<lambda>req3.
     bindr (normalizeRelayDomainStrategy (rq_Mode req3) (rq_DomainStrategy req3)) (\<lambda>strategy.
     bindr (request_protocol (req3\<lparr>rq_DomainStrategy := strategy\<rparr>)) (\<lambda>req4.
     bindr (request_limits env req4) (\<lambda>req5.
     bindr (request_host req5 publicHost) (\<lambda>host. Inr (req5\<lparr>rq_PublicHost := host\<rparr>)))))))))"

text \<open>Every prepared item of a paired pool must carry its upstream.\<close>

definition check_pairs :: "relay_request \<Rightarrow> relay_item list \<Rightarrow> unit result" where
  "check_pairs req its =
     (if \<not> relayModePairsUpstream (rq_Mode req) then Inr ()
      else if length its \<noteq> length (rq_Upstreams req) then
        NewErrorf (''relay pairing requires exactly one upstream for each IPv6 item (got '' @ Itoa (int (length its)) @ '' items, ''
          @ Itoa (int (length (rq_Upstreams req))) @ '' upstreams)'')
      else case find (\<lambda>(i, it). ri_UpstreamServer it = [] \<or> ri_UpstreamPort it < 1) (enumerate 0 its) of
        Some (i, _) \<Rightarrow> NewErrorf (''relay pairing item '' @ Itoa (int i + 1) @ '' has no upstream SOCKS5 endpoint'')
      | None \<Rightarrow> Inr ())"

section \<open>Adding the addresses\<close>

text \<open>The items, each marked when its address was added, and those items, also when the loop fails.\<close>

fun add_addresses :: "relay_env \<Rightarrow> bool \<Rightarrow> string set \<Rightarrow> relay_item list \<Rightarrow> relay_item list result \<times> relay_item list" where
  "add_addresses env allowed existing [] = (Inr [], [])"
| "add_addresses env allowed existing (it # its) =
     (if ri_IPv6 it = [] \<or> ri_IPv6 it \<in> existing then
        (let (r, added) = add_addresses env allowed existing its in (map_sum id (Cons it) r, added))
      else if \<not> allowed then
        (NewErrorf (''IPv6 '' @ ri_IPv6 it @ '' is not currently assigned; enable system address creation''), [])
      else case addRelayAddress env (ri_Interface it) (ri_IPv6 it) (ri_Prefix it) of
        Inl e \<Rightarrow> (Inl e, [])
      | Inr _ \<Rightarrow>
          let it' = it\<lparr>ri_AddedByUs := True\<rparr>;
              (r, added) = add_addresses env allowed (insert (ri_IPv6 it) existing) its
          in (map_sum id (Cons it') r, it' # added))"

definition existing_addresses :: "relay_env \<Rightarrow> relay_request \<Rightarrow> string set result" where
  "existing_addresses env req =
     (if relayModeUsesIPv6 (rq_Mode req) then bindr (discoverRelayIPv6 (re_Interfaces env)) (\<lambda>ds. Inr (set (map r6_Address ds)))
      else Inr {})"

section \<open>The rows of an item\<close>

definition link_addrs :: "string \<Rightarrow> int \<Rightarrow> raw" where
  "link_addrs server port = mustJSON (GList [GMap [(''server'', GStr server), (''server_port'', GInt port)]])"

definition relayClientLinks :: "relay_env \<Rightarrow> relay_request \<Rightarrow> inbound \<Rightarrow> gmap \<Rightarrow> string \<Rightarrow> gval list result" where
  "relayClientLinks env req i clientConfig publicHost =
     (let host = (if rq_Protocol req \<noteq> ''vmess'' then formatRelayHost publicHost else publicHost)
      in bindr (LinkGenerator (ce_Link (sv_Client (cf_Svc (re_Config env)))) (mustJSON (GMap clientConfig))
             (i\<lparr>in_Addrs := link_addrs host (relayListenPort i)\<rparr>) publicHost []) (\<lambda>uris.
           Inr (map (local_link (in_Tag i)) uris)))"

definition relayClientLink :: "relay_env \<Rightarrow> relay_request \<Rightarrow> inbound \<Rightarrow> gmap \<Rightarrow> string \<Rightarrow> string result" where
  "relayClientLink env req i clientConfig publicHost =
     bindr (relayClientLinks env req i clientConfig publicHost) (\<lambda>links. Inr (case links of [] \<Rightarrow> [] | l # _ \<Rightarrow> link_get l ''uri''))"

definition upstream_options :: "relay_item \<Rightarrow> gmap" where
  "upstream_options it = [(''server'', GStr (ri_UpstreamServer it)), (''server_port'', GInt (ri_UpstreamPort it)),
     (''version'', GStr ''5''), (''username'', GStr (ri_UpstreamUsername it)), (''password'', GStr (ri_UpstreamPassword it))]"

definition new_outbound :: "string \<Rightarrow> string \<Rightarrow> gmap \<Rightarrow> outbound" where
  "new_outbound ty tag opts = \<lparr>out_Id = 0, out_Type = ty, out_Tag = tag, out_Options = mustJSON (GMap opts)\<rparr>"

definition new_client :: "relay_env \<Rightarrow> string \<Rightarrow> gmap \<Rightarrow> nat \<Rightarrow> gval list \<Rightarrow> client" where
  "new_client env name cfg inboundId links = \<lparr>cl_Id = 0, cl_Enable = True, cl_Name = name, cl_Config = mustJSON (GMap cfg),
     cl_Inbounds = uints_raw [inboundId], cl_Links = RVal (GList links), cl_Volume = 0, cl_Expiry = 0, cl_Down = 0, cl_Up = 0,
     cl_Desc = [], cl_Group = [], cl_Remark = [], cl_CreatedAt = relay_now env, cl_OnlineAt = 0, cl_DelayStart = False,
     cl_AutoReset = False, cl_ResetDays = 0, cl_NextReset = 0, cl_TotalUp = 0, cl_TotalDown = 0\<rparr>"

definition tag_random :: "relay_env \<Rightarrow> nat \<Rightarrow> nat \<Rightarrow> nat \<Rightarrow> string" where
  "tag_random env i offset n = Random (re_Tags env) (26 * i + offset) (int n)"

definition relay_inbound :: "relay_env \<Rightarrow> relay_request \<Rightarrow> tls_row option \<Rightarrow> nat \<Rightarrow> int \<Rightarrow> gmap \<Rightarrow> inbound" where
  "relay_inbound env req tls i port opts =
     (let host = rq_PublicHost req;
          listen = (if relayModeUsesIPv6 (rq_Mode req) then relayInboundListenAddress (rq_Mode req) host else ''::'')
      in \<lparr>in_Id = 0, in_Type = rq_Protocol req, in_Tag = ''relay-'' @ tag_random env i 0 5 @ ''-'' @ Itoa port,
          in_CoreType = rq_CoreType req, in_TlsId = rq_TlsID req, in_Tls = tls, in_Addrs = link_addrs host port,
          in_OutJson = RVal (GMap []), in_Options = mustJSON (GMap (relayInboundOptions opts listen port))\<rparr>)"

text \<open>The outbounds of an item and the item with their tags.\<close>

definition relay_outbounds :: "relay_env \<Rightarrow> relay_request \<Rightarrow> nat \<Rightarrow> relay_item \<Rightarrow> outbound list \<times> relay_item" where
  "relay_outbounds env req i it =
     (let tag = ''relay-out-'' @ tag_random env i 5 7;
          tag4 = ''relay-ipv4-'' @ tag_random env i 12 7;
          dual = ''relay-dual-'' @ tag_random env i 19 7;
          out = (if rq_Mode req = relayModeUpstream then new_outbound ''socks'' tag (upstream_options it)
                 else new_outbound ''direct'' tag (relayDirectOutboundOptions req it));
          it1 = it\<lparr>ri_OutboundTag := tag\<rparr>
      in if \<not> relayModePairsUpstream (rq_Mode req) then ([out], it1)
         else
           let it2 = it1\<lparr>ri_AppleIDIPv4Only := rq_AppleIDIPv4Only req, ri_IPv4OutboundTag := tag4\<rparr>;
               out4 = new_outbound ''socks'' tag4 (upstream_options it2 @ [(''domain_strategy'', GStr relayDomainStrategyIPv4Only)])
           in if rq_Mode req \<noteq> relayModeDualStack then ([out, out4], it2)
              else ([out, out4, new_outbound ''relay-fallback'' dual [(''ipv6_outbound'', GStr tag), (''ipv4_outbound'', GStr tag4),
                      (''ipv6_timeout'', GStr relayDualStackIPv6Timeout)]],
                    it2\<lparr>ri_IPv6OutboundTag := tag, ri_OutboundTag := dual\<rparr>))"

definition item_uuid :: "gmap \<Rightarrow> string \<Rightarrow> string \<Rightarrow> string" where
  "item_uuid cfg proto uuid = (case mget cfg proto of GMap m \<Rightarrow> as_str (mget m ''uuid'') | _ \<Rightarrow> uuid)"

definition create_item :: "relay_env \<Rightarrow> relay_request \<Rightarrow> tls_row option \<Rightarrow> nat \<Rightarrow> relay_item \<Rightarrow> panel_db \<Rightarrow> (relay_item \<times> panel_db) result" where
  "create_item env req tls i it0 db0 =
     bindr (relayProtocolConfig (re_Uuid env i) (re_Bytes env) (64 * i) req it0) (\<lambda>(opts, cfg, it1).
     bindr (store_inbound (relay_inbound env req tls i (ri_ListenPort it1) opts) db0) (\<lambda>(inb, db1).
       let it2 = it1\<lparr>ri_InboundID := in_Id inb, ri_InboundTag := in_Tag inb\<rparr>; (outs, it3) = relay_outbounds env req i it2 in
     bindr (eachr store_outbound outs db1) (\<lambda>db2.
     bindr (relayClientLinks env req inb cfg (rq_PublicHost req)) (\<lambda>links.
       let c = new_client env (ri_Username it3) cfg (in_Id inb) links; db3 = save_client c db2;
           it4 = it3\<lparr>ri_ClientID := cl_Id (keyed cl_Id (\<lambda>k. with_cl_Id k) (db_Clients db2) c), ri_Protocol := rq_Protocol req,
             ri_Method := rq_ShadowsocksMethod req, ri_UUID := item_uuid cfg (rq_Protocol req) (ri_UUID it3)\<rparr> in
     bindr (if rq_Protocol req \<in> {''socks'', ''mixed''}
            then Inr (relaySOCKSExport (rq_PublicHost req) (ri_ListenPort it4) (ri_Username it4) (ri_Password it4))
            else relayClientLink env req inb cfg (rq_PublicHost req)) (\<lambda>export.
       Inr (it4\<lparr>ri_Export := export\<rparr>, db3))))))"

fun create_items :: "relay_env \<Rightarrow> relay_request \<Rightarrow> tls_row option \<Rightarrow> nat \<Rightarrow> relay_item list \<Rightarrow> panel_db \<Rightarrow> (relay_item list \<times> panel_db) result" where
  "create_items env req tls i [] db = Inr ([], db)"
| "create_items env req tls i (it # its) db =
     bindr (create_item env req tls i it db) (\<lambda>(it', db1).
     bindr (create_items env req tls (Suc i) its db1) (\<lambda>(its', db2). Inr (it' # its', db2)))"

section \<open>The transaction\<close>

fun number_ports :: "int \<Rightarrow> relay_item list \<Rightarrow> relay_item list" where
  "number_ports port [] = []"
| "number_ports port (it # its) = it\<lparr>ri_ListenPort := port\<rparr> # number_ports (port + 1) its"

definition new_pool :: "relay_env \<Rightarrow> relay_request \<Rightarrow> relay_item list \<Rightarrow> relay_pool" where
  "new_pool env req its = \<lparr>rp_Id = 0, rp_Name = rq_Name req, rp_Source = rq_Source req, rp_Mode = rq_Mode req, rp_Protocol = rq_Protocol req,
     rp_CoreType = rq_CoreType req, rp_TlsID = rq_TlsID req, rp_Transport = rq_Transport req, rp_DomainStrategy = rq_DomainStrategy req,
     rp_ListenHost = rq_PublicHost req, rp_PortStart = rq_PortStart req, rp_Count = rq_Count req, rp_Items = Some its,
     rp_CreatedAt = relay_now env, rp_RotationEnabled = False, rp_RotationIntervalMinutes = 0, rp_LastRotatedAt = 0, rp_NextRotateAt = 0\<rparr>"

definition request_tls :: "relay_request \<Rightarrow> panel_db \<Rightarrow> tls_row option result" where
  "request_tls req db =
     (if rq_TlsID req = 0 then Inr None
      else case find_row tls_Id (rq_TlsID req) (db_Tls db) of
        None \<Rightarrow> NewErrorf (''TLS configuration '' @ nat_str (rq_TlsID req) @ '' was not found'')
      | Some t \<Rightarrow> Inr (Some t))"

definition create_rows :: "relay_env \<Rightarrow> relay_request \<Rightarrow> relay_item list \<Rightarrow> panel_db \<Rightarrow> ((relay_pool \<times> relay_request) \<times> panel_db) result" where
  "create_rows env req0 its0 db0 =
     bindr (nextRelayPortRange (relayUsedPorts (tb_Rows (db_Inbounds db0))) (rq_PortStart req0) (rq_Count req0)) (\<lambda>portStart.
       let req = req0\<lparr>rq_PortStart := portStart\<rparr> in
     bindr (request_tls req db0) (\<lambda>tls.
     bindr (create_items env req tls 0 (number_ports portStart its0) db0) (\<lambda>(its, db1).
       let pool = keyed rp_Id (\<lambda>k. with_rp_Id k) (db_Pools db1) (new_pool env req its);
           db2 = db1\<lparr>db_Pools := save_row rp_Id (\<lambda>k. with_rp_Id k) (new_pool env req its) (db_Pools db1)\<rparr> in
     bindr (ensureRelayRefreshLinksTx env (rp_Id pool) its db2) (\<lambda>db3.
     bindr (update_stored_rules its (rq_DomainStrategy req = relayDomainStrategyIPv6Only) False db3) (\<lambda>db4.
       Inr ((pool, req), db4))))))"

text \<open>The JSON of the request in the change; what it says of the request is the parameter.\<close>

definition start_after :: "relay_env \<Rightarrow> string \<Rightarrow> unit panel_op" where
  "start_after env msg p =
     (if running p then (Inr (), p)
      else case StartCore (re_Config env) p of (Inl e, p') \<Rightarrow> (NewErrorf (msg @ e), p') | (Inr _, p') \<Rightarrow> (Inr (), p'))"

definition populated :: "panel_db \<Rightarrow> relay_pool \<Rightarrow> relay_pool" where
  "populated db pool = (case populateRelayRefreshTokens db [pool] of Inr [p] \<Rightarrow> p | _ \<Rightarrow> pool)"

definition create_commit :: "relay_env \<Rightarrow> (relay_request \<Rightarrow> raw) \<Rightarrow> string \<Rightarrow> relay_request \<Rightarrow> relay_item list \<Rightarrow> relay_pool relay_op" where
  "create_commit env req_json actor req its =
     bind_svc (lift_svc (waitRelayAddressesReady env its)) (\<lambda>_.
     bind_svc (lift_svc (if relayModeUsesIPv6 (rq_Mode req) \<and> re_Linux env then validateRelayIPv6Egress env its else Inr ())) (\<lambda>_.
     bind_svc (on_panel (relay_transaction env ''relay configuration rejected by sing-box: '' (create_rows env req its)
         (\<lambda>(pool, req'). relay_change env actor ''create'' (req_json req')))) (\<lambda>(pool, _). lift_svc (Inr pool))))"

text \<open>
  From the added addresses on. An error after the commit (the core could not be started) does not
  take the addresses back.
\<close>

definition create_added :: "relay_env \<Rightarrow> (relay_request \<Rightarrow> raw) \<Rightarrow> string \<Rightarrow> relay_request \<Rightarrow> relay_item list result \<Rightarrow> relay_item list \<Rightarrow> relay_pool relay_op" where
  "create_added env req_json actor req r added s =
     bind_svc (cleaning_up env added (bind_svc (lift_svc r) (create_commit env req_json actor req))) (\<lambda>pool.
       bind_svc (on_panel (start_after env ''relay saved, but core update failed: '')) (\<lambda>_ s.
         (Inr (populated (pn_Db (rs_Panel s)) pool), s))) (log_commands (map add_command added) s)"

text \<open>\<^const>\<open>None\<close>: the preparation of the items never returns.\<close>

definition CreateRelay :: "relay_env \<Rightarrow> (relay_request \<Rightarrow> raw) \<Rightarrow> relay_request \<Rightarrow> string \<Rightarrow> string \<Rightarrow> relay_state \<Rightarrow> (relay_pool result \<times> relay_state) option" where
  "CreateRelay env req_json req0 actor publicHost s =
     (case normalizeRelayRequest env req0 publicHost of Inl e \<Rightarrow> Some (Inl e, s) | Inr req \<Rightarrow>
      (case prepareRelayItems (re_Interfaces env) (re_Names env) 5 (re_Addresses env) 0 req of None \<Rightarrow> None | Some r \<Rightarrow>
        Some (case bindr r (\<lambda>its. bindr (check_pairs req its) (\<lambda>_. bindr (existing_addresses env req) (\<lambda>ex. Inr (its, ex)))) of
          Inl e \<Rightarrow> (Inl e, s)
        | Inr (its, existing) \<Rightarrow>
            (let (r', added) = add_addresses env (rq_AddSystemAddresses req) existing its
             in create_added env req_json actor req r' added s))))"

section \<open>Deleting a pool\<close>

definition item_outbound_tags :: "relay_item \<Rightarrow> string list" where
  "item_outbound_tags it = ri_OutboundTag it # filter (\<lambda>t. t \<noteq> []) [ri_IPv6OutboundTag it, ri_IPv4OutboundTag it]"

definition delete_pool_rows :: "relay_pool \<Rightarrow> relay_item list \<Rightarrow> panel_db \<Rightarrow> (unit \<times> panel_db) result" where
  "delete_pool_rows pool its db0 =
     bindr (update_stored_rules its False True db0) (\<lambda>db1.
       Inr ((), db1\<lparr>
         db_Clients := delete_rows (\<lambda>c. cl_Id c \<in> set (filter (\<lambda>k. k > 0) (map ri_ClientID its))) (db_Clients db1),
         db_Inbounds := delete_rows (\<lambda>i. in_Tag i \<in> set (map ri_InboundTag its)) (db_Inbounds db1),
         db_Outbounds := delete_rows (\<lambda>out. out_Tag out \<in> set (concat (map item_outbound_tags its))) (db_Outbounds db1),
         db_Links := delete_rows (\<lambda>l. rl_PoolID l = rp_Id pool) (db_Links db1),
         db_Pools := delete_rows (\<lambda>p. rp_Id p = rp_Id pool) (db_Pools db1)\<rparr>))"

definition DeleteRelay :: "relay_env \<Rightarrow> nat \<Rightarrow> string \<Rightarrow> unit relay_op" where
  "DeleteRelay env k actor s =
     (case find_row rp_Id k (db_Pools (pn_Db (rs_Panel s))) of
        None \<Rightarrow> (not_found, s)
      | Some pool \<Rightarrow> (case rp_Items pool of
          None \<Rightarrow> (Inl json_err, s)
        | Some its \<Rightarrow>
            bind_svc (on_panel (relay_transaction env ''remaining configuration rejected by sing-box: '' (delete_pool_rows pool its)
                (\<lambda>_. relay_change env actor ''delete'' (mustJSON (GInt (int k)))))) (\<lambda>_ s.
              (Inr (), delete_addresses env (filter ri_AddedByUs its) s)) s))"

end
