(* ===== verification/Relay_Rotate.thy ===== *)
theory Relay_Rotate
  imports Relay_Create
begin

text \<open>
  Rotating the IPv6 addresses of a pool (\<open>SetRelayRotation\<close>, \<open>RotateRelay\<close>, \<open>RotateRelayItemByToken\<close>,
  \<open>RotateDueRelays\<close> of \<^verbatim>\<open>service/relay.go\<close>): new addresses in the prefixes of the old ones are added
  to the system and checked, one transaction binds the outbounds of the items to them and starts
  the core with that, and then the old addresses are removed.
\<close>

section \<open>The rotation schedule\<close>

definition rotation_change :: "relay_env \<Rightarrow> string \<Rightarrow> relay_pool \<Rightarrow> bool \<Rightarrow> int \<Rightarrow> change" where
  "rotation_change env actor pool enabled interval = relay_change env actor ''rotation'' (mustJSON (GMap
     [(''pool_id'', GInt (int (rp_Id pool))), (''enabled'', GBool enabled), (''interval_minutes'', GInt interval)]))"

definition schedule_pool :: "relay_env \<Rightarrow> bool \<Rightarrow> int \<Rightarrow> relay_pool \<Rightarrow> relay_pool" where
  "schedule_pool env enabled interval pool = pool\<lparr>rp_RotationEnabled := enabled, rp_RotationIntervalMinutes := interval,
     rp_NextRotateAt := (if enabled then relay_now env + 60 * interval else 0)\<rparr>"

definition SetRelayRotation :: "relay_env \<Rightarrow> nat \<Rightarrow> bool \<Rightarrow> int \<Rightarrow> string \<Rightarrow> relay_pool panel_op" where
  "SetRelayRotation env k enabled interval0 actor p =
     (case find_row rp_Id k (db_Pools (pn_Db p)) of None \<Rightarrow> (not_found, p) | Some pool \<Rightarrow>
      (if \<not> relayModeUsesIPv6 (rp_Mode pool) then (NewError ''IPv4 upstream-only relay pools cannot rotate IPv6 addresses'', p)
       else if enabled then (NewError ''scheduled pool rotation is disabled; use the per-item manual refresh links'', p)
       else case normalizeRelayRotationInterval enabled interval0 of Inl e \<Rightarrow> (Inl e, p) | Inr interval \<Rightarrow>
         (case bindr (opt_error (cf_Begin (re_Config env))) (\<lambda>_. bindr (opt_error (cf_CreateChange (re_Config env))) (\<lambda>_.
             opt_error (cf_Commit (re_Config env)))) of
           Inl e \<Rightarrow> (Inl e, p)
         | Inr _ \<Rightarrow>
             let db = pn_Db p; set_pool = schedule_pool env enabled interval in
             (Inr (set_pool pool),
              p\<lparr>pn_Db := add_change (rotation_change env actor pool enabled interval)
                   (db\<lparr>db_Pools := update_rows (\<lambda>r. rp_Id r = rp_Id pool) set_pool (db_Pools db)\<rparr>),
                pn_LastUpdate := cf_Now (re_Config env)\<rparr>))))"

section \<open>The items\<close>

text \<open>All positions for the empty tag, else the first item of the tag.\<close>

definition selected_indexes :: "string \<Rightarrow> relay_item list \<Rightarrow> nat list result" where
  "selected_indexes tag its =
     (if tag = [] then Inr [0..<length its]
      else case find (\<lambda>(_, it). ri_InboundTag it = tag) (enumerate 0 its) of
        None \<Rightarrow> NewError ''relay refresh link item no longer exists''
      | Some (i, _) \<Rightarrow> Inr [i])"

definition put_items :: "(nat \<times> relay_item) list \<Rightarrow> relay_item list \<Rightarrow> relay_item list" where
  "put_items new its = foldl (\<lambda>its (i, it). its[i := it]) its new"

definition rotation_items :: "relay_env \<Rightarrow> relay_item list \<Rightarrow> nat list \<Rightarrow> relay_item list result" where
  "rotation_items env its selected = bindr (discoverRelayIPv6 (re_Interfaces env)) (\<lambda>ds.
     prepareRelayRotatedItems (re_Addresses env) 0 (map ((!) its) selected) (set (map r6_Address ds)))"

text \<open>The addresses that were added, also when the loop fails.\<close>

fun add_all :: "relay_env \<Rightarrow> relay_item list \<Rightarrow> unit result \<times> relay_item list" where
  "add_all env [] = (Inr (), [])"
| "add_all env (it # its) = (case addRelayAddress env (ri_Interface it) (ri_IPv6 it) (ri_Prefix it) of
     Inl e \<Rightarrow> (Inl e, [])
   | Inr _ \<Rightarrow> map_prod id (Cons it) (add_all env its))"

section \<open>The rows\<close>

definition rotated_options :: "relay_item \<Rightarrow> gmap \<Rightarrow> gmap" where
  "rotated_options it opts =
     (let bound = mput opts ''inet6_bind_address'' (GStr (ri_IPv6 it))
      in if ri_AppleIDIPv4Only it then mput bound ''domain_strategy'' (GStr relayDomainStrategyIPv6Only) else bound)"

definition outbound_options :: "outbound \<Rightarrow> gmap result" where
  "outbound_options out = (if out_Options out = RNil then Inr []
     else case decode_map (out_Options out) of None \<Rightarrow> Inl json_err | Some m \<Rightarrow> Inr m)"

definition set_outbound_options :: "outbound \<Rightarrow> gmap \<Rightarrow> panel_db \<Rightarrow> panel_db" where
  "set_outbound_options out opts db = db\<lparr>db_Outbounds :=
     update_rows (\<lambda>r. out_Id r = out_Id out) (\<lambda>r. r\<lparr>out_Options := mustJSON (GMap opts)\<rparr>) (db_Outbounds db)\<rparr>"

definition find_outbound :: "string \<Rightarrow> panel_db \<Rightarrow> outbound option" where
  "find_outbound tag db = find (\<lambda>out. out_Tag out = tag) (tb_Rows (db_Outbounds db))"

definition rotate_outbound :: "string \<Rightarrow> nat \<times> relay_item \<Rightarrow> panel_db \<Rightarrow> panel_db result" where
  "rotate_outbound mode = (\<lambda>(i, it) db.
     let tag = relayItemIPv6OutboundTag mode it in
     if tag = [] then NewErrorf (''relay item '' @ Itoa (int i + 1) @ '' has no IPv6 outbound'')
     else case find_outbound tag db of
       None \<Rightarrow> not_found
     | Some out \<Rightarrow>
         (if out_Type out \<noteq> ''direct'' then NewErrorf (''relay IPv6 outbound '' @ quoted tag @ '' is not direct'')
          else bindr (outbound_options out) (\<lambda>opts. Inr (set_outbound_options out (rotated_options it opts) db))))"

definition updateRelayRotatedOutbounds :: "string \<Rightarrow> relay_item list \<Rightarrow> panel_db \<Rightarrow> panel_db result" where
  "updateRelayRotatedOutbounds mode its = eachr (rotate_outbound mode) (enumerate 0 its)"

definition mark_rotated :: "relay_env \<Rightarrow> relay_pool \<Rightarrow> relay_item list \<Rightarrow> panel_db \<Rightarrow> panel_db" where
  "mark_rotated env pool its db = foldl (\<lambda>db it. db\<lparr>db_Links := update_rows
     (\<lambda>l. rl_PoolID l = rp_Id pool \<and> rl_InboundTag l = ri_InboundTag it) (\<lambda>l. l\<lparr>rl_LastRotatedAt := relay_now env\<rparr>) (db_Links db)\<rparr>) db its"

text \<open>The pool as the rotation leaves it.\<close>

definition rotated_pool :: "relay_env \<Rightarrow> string \<Rightarrow> relay_item list \<Rightarrow> relay_pool \<Rightarrow> relay_pool result" where
  "rotated_pool env tag its pool =
     bindr (if rp_RotationEnabled pool \<and> tag = []
            then bindr (normalizeRelayRotationInterval True (rp_RotationIntervalMinutes pool)) (\<lambda>n. Inr (n, relay_now env + 60 * n))
            else Inr (rp_RotationIntervalMinutes pool, 0)) (\<lambda>(interval, due).
       Inr (pool\<lparr>rp_Items := Some its, rp_LastRotatedAt := relay_now env, rp_NextRotateAt := due,
         rp_RotationIntervalMinutes := interval\<rparr>))"

definition store_rotated :: "relay_pool \<Rightarrow> panel_db \<Rightarrow> panel_db" where
  "store_rotated pool db = db\<lparr>db_Pools := update_rows (\<lambda>r. rp_Id r = rp_Id pool)
     (\<lambda>r. r\<lparr>rp_Items := rp_Items pool, rp_LastRotatedAt := rp_LastRotatedAt pool, rp_NextRotateAt := rp_NextRotateAt pool,
            rp_RotationIntervalMinutes := rp_RotationIntervalMinutes pool\<rparr>) (db_Pools db)\<rparr>"

definition rotate_rows :: "relay_env \<Rightarrow> string \<Rightarrow> relay_pool \<Rightarrow> relay_item list \<Rightarrow> relay_item list \<Rightarrow> panel_db \<Rightarrow> (relay_pool \<times> panel_db) result" where
  "rotate_rows env tag pool rotated its db0 =
     bindr (updateRelayRotatedOutbounds (rp_Mode pool) rotated db0) (\<lambda>db1.
     bindr (rotated_pool env tag its pool) (\<lambda>pool'.
       Inr (pool', store_rotated pool' (mark_rotated env pool rotated db1))))"

section \<open>The rotation\<close>

record rotation_result =
  rr_PoolID :: nat
  rr_Rotated :: nat
  rr_IPv6 :: "string list"
  rr_ItemIndex :: nat
  rr_RefreshToken :: string
  rr_LastRotatedAt :: int
  rr_NextRotateAt :: int

definition rotate_change :: "relay_env \<Rightarrow> string \<Rightarrow> string \<Rightarrow> relay_pool \<Rightarrow> nat \<Rightarrow> change" where
  "rotate_change env actor tag pool n = relay_change env actor ''rotate'' (mustJSON (GMap
     ([(''pool_id'', GInt (int (rp_Id pool))), (''rotated'', GInt (int n))] @ (if tag = [] then [] else [(''inbound_tag'', GStr tag)]))))"

text \<open>The flag of a running core operation is held for the transaction.\<close>

definition rotation_guard :: "'a panel_op \<Rightarrow> 'a panel_op" where
  "rotation_guard m p =
     (if pn_Busy p then (NewError ''core operation already in progress; retry IPv6 rotation shortly'', p)
      else let (r, p') = m (p\<lparr>pn_Busy := True\<rparr>) in (r, p'\<lparr>pn_Busy := False\<rparr>))"

definition rotate_checked :: "relay_env \<Rightarrow> string \<Rightarrow> string \<Rightarrow> relay_pool \<Rightarrow> relay_item list \<Rightarrow> relay_item list \<Rightarrow> relay_pool relay_op" where
  "rotate_checked env tag actor pool rotated its =
     bind_svc (lift_svc (waitRelayAddressesReady env rotated)) (\<lambda>_.
     bind_svc (lift_svc (validateRelayIPv6Egress env rotated)) (\<lambda>_.
       on_panel (rotation_guard (relay_transaction env ''rotated relay configuration rejected by sing-box: ''
         (rotate_rows env tag pool rotated its) (\<lambda>_. rotate_change env actor tag pool (length rotated))))))"

definition rotation_of :: "nat list \<Rightarrow> relay_item list \<Rightarrow> relay_pool \<Rightarrow> rotation_result" where
  "rotation_of selected rotated pool = \<lparr>rr_PoolID = rp_Id pool, rr_Rotated = length rotated, rr_IPv6 = map ri_IPv6 rotated,
     rr_ItemIndex = (case selected of [i] \<Rightarrow> i + 1 | _ \<Rightarrow> 0), rr_RefreshToken = [],
     rr_LastRotatedAt = rp_LastRotatedAt pool, rr_NextRotateAt = rp_NextRotateAt pool\<rparr>"

definition rotate_selected :: "relay_env \<Rightarrow> string \<Rightarrow> string \<Rightarrow> relay_pool \<Rightarrow> relay_item list \<Rightarrow> nat list \<Rightarrow> relay_item list \<Rightarrow> rotation_result relay_op" where
  "rotate_selected env tag actor pool its selected rotated s =
     (let (r, added) = add_all env rotated
      in bind_svc (cleaning_up env added (bind_svc (lift_svc r) (\<lambda>_.
           rotate_checked env tag actor pool rotated (put_items (zip selected rotated) its)))) (\<lambda>pool' s.
         (Inr (rotation_of selected rotated pool'), delete_addresses env (filter ri_AddedByUs (map ((!) its) selected)) s))
       (log_commands (map add_command added) s))"

definition rotateRelayItemsLocked :: "relay_env \<Rightarrow> nat \<Rightarrow> string \<Rightarrow> string \<Rightarrow> rotation_result relay_op" where
  "rotateRelayItemsLocked env k tag actor s =
     (if \<not> re_Linux env then (NewError ''IPv6 rotation is supported on Linux only'', s)
      else if \<not> re_Root env then (NewError ''root permission is required to rotate IPv6 addresses'', s)
      else case find_row rp_Id k (db_Pools (pn_Db (rs_Panel s))) of None \<Rightarrow> (not_found, s) | Some pool \<Rightarrow>
       (if \<not> relayModeUsesIPv6 (rp_Mode pool) then (NewError ''IPv4 upstream-only relay pools cannot rotate IPv6 addresses'', s)
        else case rp_Items pool of
          None \<Rightarrow> (NewError (''invalid relay pool items:  '' @ json_err), s)
        | Some [] \<Rightarrow> (NewError ''relay pool has no IPv6 items'', s)
        | Some its \<Rightarrow> (case bindr (discoverRelayIPv6 (re_Interfaces env)) (\<lambda>_. selected_indexes tag its) of
            Inl e \<Rightarrow> (Inl e, s)
          | Inr selected \<Rightarrow> (case rotation_items env its selected of
              Inl e \<Rightarrow> (Inl e, s)
            | Inr rotated \<Rightarrow> rotate_selected env tag actor pool its selected rotated s))))"

definition RotateRelay :: "relay_env \<Rightarrow> nat \<Rightarrow> string \<Rightarrow> rotation_result relay_op" where
  "RotateRelay env k actor = rotateRelayItemsLocked env k [] actor"

definition RotateRelayItemByToken :: "relay_env \<Rightarrow> string \<Rightarrow> string \<Rightarrow> rotation_result relay_op" where
  "RotateRelayItemByToken env token0 actor s =
     (let token = TrimSpace token0 in
      if token = [] \<or> length token > 64 then (NewError ''invalid relay refresh token'', s)
      else case find (\<lambda>l. rl_Token l = token) (tb_Rows (db_Links (pn_Db (rs_Panel s)))) of
        None \<Rightarrow> (NewError ''relay refresh link not found'', s)
      | Some l \<Rightarrow> bind_svc (rotateRelayItemsLocked env (rl_PoolID l) (rl_InboundTag l) actor)
          (\<lambda>r. lift_svc (Inr (r\<lparr>rr_RefreshToken := token\<rparr>))) s)"

section \<open>The scheduler\<close>

definition due_pools :: "int \<Rightarrow> panel_db \<Rightarrow> relay_pool list" where
  "due_pools now db = take 20 (sort_key rp_NextRotateAt
     (filter (\<lambda>pool. rp_RotationEnabled pool \<and> rp_NextRotateAt pool > 0 \<and> rp_NextRotateAt pool \<le> now) (tb_Rows (db_Pools db))))"

definition retry_later :: "int \<Rightarrow> nat \<Rightarrow> panel \<Rightarrow> panel" where
  "retry_later now k p = p\<lparr>pn_Db := (pn_Db p)\<lparr>db_Pools :=
     update_rows (\<lambda>r. rp_Id r = k) (\<lambda>r. r\<lparr>rp_NextRotateAt := now + 300\<rparr>) (db_Pools (pn_Db p))\<rparr>\<rparr>"

text \<open>The machine the \<open>n\<close>-th rotation finds is \<open>envs n\<close>.\<close>

fun rotate_due :: "(nat \<Rightarrow> relay_env) \<Rightarrow> nat \<Rightarrow> int \<Rightarrow> nat list \<Rightarrow> relay_state \<Rightarrow> relay_state" where
  "rotate_due envs n now [] s = s"
| "rotate_due envs n now (k # ks) s = (case RotateRelay (envs n) k ''scheduler'' s of
     (Inl _, s') \<Rightarrow> rotate_due envs (Suc n) now ks (s'\<lparr>rs_Panel := retry_later now k (rs_Panel s')\<rparr>)
   | (Inr _, s') \<Rightarrow> rotate_due envs (Suc n) now ks s')"

definition RotateDueRelays :: "(nat \<Rightarrow> relay_env) \<Rightarrow> int \<Rightarrow> relay_state \<Rightarrow> relay_state" where
  "RotateDueRelays envs now s = rotate_due envs 0 now (map rp_Id (due_pools now (pn_Db (rs_Panel s)))) s"

end
