(* ===== verification/Relay_Restore.thy ===== *)
theory Relay_Restore
  imports Relay_Rotate
begin

text \<open>
  What happens to the pools when the panel starts and from time to time after (\<open>RestoreRelayIPv6\<close>,
  \<open>EnsureRelayIPv6Addresses\<close> of \<^verbatim>\<open>service/relay.go\<close>): the addresses the pools own are put back on their
  interfaces, and the rows of pools older versions made are repaired. Warnings are only logged.
\<close>

section \<open>Putting addresses back\<close>

definition owned_items :: "bool \<Rightarrow> relay_item list \<Rightarrow> relay_item list" where
  "owned_items named its = filter (\<lambda>it. ri_AddedByUs it \<and> ri_IPv6 it \<noteq> [] \<and> (named \<longrightarrow> ri_Interface it \<noteq> [])) its"

text \<open>The items that have their address, and the commands that ran; an error leaves the item out.\<close>

fun put_back :: "relay_env \<Rightarrow> string set \<Rightarrow> relay_item list \<Rightarrow> relay_item list \<times> ip_command list" where
  "put_back env existing [] = ([], [])"
| "put_back env existing (it # its) =
     (if ri_IPv6 it \<in> existing then map_prod (Cons it) id (put_back env existing its)
      else case addRelayAddress env (ri_Interface it) (ri_IPv6 it) (ri_Prefix it) of
        Inl _ \<Rightarrow> put_back env existing its
      | Inr _ \<Rightarrow> map_prod (Cons it) (Cons (add_command it)) (put_back env (insert (ri_IPv6 it) existing) its))"

text \<open>The commands of the pools before one whose items are no JSON have run when the error is returned.\<close>

fun put_back_pools :: "relay_env \<Rightarrow> bool \<Rightarrow> string set \<Rightarrow> relay_pool list \<Rightarrow> unit result \<times> ip_command list" where
  "put_back_pools env named existing [] = (Inr (), [])"
| "put_back_pools env named existing (pool # pools) = (case rp_Items pool of
     None \<Rightarrow> (items_error pool, [])
   | Some its \<Rightarrow>
       let (restored, cs) = put_back env existing (owned_items named its);
           (r, cs') = put_back_pools env named (existing \<union> set (map ri_IPv6 restored)) pools
       in (r, cs @ cs'))"

definition restore_addresses :: "relay_env \<Rightarrow> bool \<Rightarrow> relay_pool list \<Rightarrow> unit relay_op" where
  "restore_addresses env named pools s = (case discoverRelayIPv6 (re_Interfaces env) of
     Inl e \<Rightarrow> (Inl e, s)
   | Inr ds \<Rightarrow> (let (r, cs) = put_back_pools env named (set (map r6_Address ds)) pools in (r, log_commands cs s)))"

definition EnsureRelayIPv6Addresses :: "relay_env \<Rightarrow> unit relay_op" where
  "EnsureRelayIPv6Addresses env s =
     (if \<not> re_Linux env then (Inr (), s) else restore_addresses env True (GetRelayPools (pn_Db (rs_Panel s))) s)"

section \<open>Repairing the outbounds\<close>

definition update_pool :: "nat \<Rightarrow> (relay_pool \<Rightarrow> relay_pool) \<Rightarrow> panel_db \<Rightarrow> panel_db" where
  "update_pool k f db = db\<lparr>db_Pools := update_rows (\<lambda>r. rp_Id r = k) f (db_Pools db)\<rparr>"

definition bound_options :: "relay_item \<Rightarrow> string \<Rightarrow> gmap \<Rightarrow> gmap" where
  "bound_options it strategy opts =
     mput (mput opts ''inet6_bind_address'' (GStr (ri_IPv6 it))) ''domain_strategy'' (GStr strategy)"

definition options_bound :: "relay_item \<Rightarrow> string \<Rightarrow> gmap \<Rightarrow> bool" where
  "options_bound it strategy opts \<longleftrightarrow>
     mget opts ''inet6_bind_address'' = GStr (ri_IPv6 it) \<and> mget opts ''domain_strategy'' = GStr strategy"

text \<open>The direct outbound of an item; a missing or other outbound is left alone.\<close>

definition repair_direct :: "bool \<Rightarrow> string \<Rightarrow> relay_item \<Rightarrow> panel_db \<Rightarrow> panel_db result" where
  "repair_direct skip_bound strategy it db =
     (if ri_IPv6 it = [] \<or> ri_OutboundTag it = [] then Inr db
      else case find_outbound (ri_OutboundTag it) db of
        None \<Rightarrow> Inr db
      | Some out \<Rightarrow>
          (if out_Type out \<noteq> ''direct'' then Inr db
           else bindr (outbound_options out) (\<lambda>opts.
             Inr (if skip_bound \<and> options_bound it strategy opts then db
                  else set_outbound_options out (bound_options it strategy opts) db))))"

text \<open>
  The IPv4 outbound of the item at position \<open>i\<close> of a paired pool, rebuilt from the upstream kept in the item.
  A tag that an item before it uses is replaced by that of a new outbound. \<open>rnd\<close> are the characters of new tags.
\<close>

definition ipv4_options :: "relay_item \<Rightarrow> raw" where
  "ipv4_options it = mustJSON (GMap (upstream_options it @ [(''domain_strategy'', GStr relayDomainStrategyIPv4Only)]))"

definition repair_paired :: "relay_env \<Rightarrow> relay_pool \<Rightarrow> nat \<Rightarrow> string set \<Rightarrow> relay_item \<Rightarrow> panel_db \<Rightarrow> (relay_item \<times> string set \<times> panel_db) result" where
  "repair_paired env pool i used it db =
     (if ri_IPv4OutboundTag it = [] \<or> ri_UpstreamServer it = [] \<or> ri_UpstreamPort it < 1 then Inr (it, used, db)
      else case find_outbound (ri_IPv4OutboundTag it) db of
        None \<Rightarrow> Inr (it, used, db)
      | Some out \<Rightarrow>
          (if out_Type out \<noteq> ''socks'' then
             NewErrorf (''relay pool '' @ quoted (rp_Name pool) @ '' item '' @ Itoa (int i + 1) @ '' IPv4 outbound ''
               @ quoted (ri_IPv4OutboundTag it) @ '' is '' @ out_Type out @ '', expected socks'')
           else if ri_IPv4OutboundTag it \<in> used then
             let tag = ''relay-ipv4-'' @ Random (re_Tags env) (7 * tb_Seq (db_Outbounds db)) 7 in
             bindr (save_tagged out_Id (\<lambda>k. with_out_Id k) out_Tag
                 \<lparr>out_Id = 0, out_Type = ''socks'', out_Tag = tag, out_Options = ipv4_options it\<rparr> (db_Outbounds db)) (\<lambda>(_, t).
               Inr (it\<lparr>ri_IPv4OutboundTag := tag\<rparr>, insert tag used, db\<lparr>db_Outbounds := t\<rparr>))
           else Inr (it, insert (ri_IPv4OutboundTag it) used,
             if out_Options out = ipv4_options it then db
             else db\<lparr>db_Outbounds := update_rows (\<lambda>r. out_Id r = out_Id out) (\<lambda>r. r\<lparr>out_Options := ipv4_options it\<rparr>) (db_Outbounds db)\<rparr>)))"

fun repair_pairs :: "relay_env \<Rightarrow> relay_pool \<Rightarrow> nat \<Rightarrow> string set \<Rightarrow> relay_item list \<Rightarrow> panel_db \<Rightarrow> (relay_item list \<times> panel_db) result" where
  "repair_pairs env pool i used [] db = Inr ([], db)"
| "repair_pairs env pool i used (it # its) db =
     bindr (repair_paired env pool i used it db) (\<lambda>(it', used', db1).
     bindr (repair_pairs env pool (Suc i) used' its db1) (\<lambda>(its', db2). Inr (it' # its', db2)))"

definition repair_paired_pool :: "relay_env \<Rightarrow> relay_pool \<Rightarrow> panel_db \<Rightarrow> (relay_item list \<times> panel_db) result" where
  "repair_paired_pool env pool db = (case rp_Items pool of
     None \<Rightarrow> items_error pool
   | Some its \<Rightarrow> bindr (repair_pairs env pool 0 {} its db) (\<lambda>(its', db1).
       let db2 = (if its' = its then db1 else update_pool (rp_Id pool) (\<lambda>r. r\<lparr>rp_Items := Some its'\<rparr>) db1) in
       bindr (eachr (repair_direct False relayDomainStrategyIPv6Only) (filter ri_AppleIDIPv4Only its') db2) (\<lambda>db3.
         Inr (its', db3))))"

section \<open>Repairing the connection host\<close>

text \<open>
  The inbound of an item: its listen address and its public address. The options of the row are
  written only when \<open>listen\<close> changes; \<open>null\<close> decodes to the nil map, whose assignment panics.
\<close>

definition repair_inbound :: "relay_pool \<Rightarrow> string \<Rightarrow> relay_item \<Rightarrow> panel_db \<Rightarrow> (inbound option \<times> panel_db) result" where
  "repair_inbound pool host it db =
     (if ri_InboundID it = 0 then Inr (None, db)
      else case find_row in_Id (ri_InboundID it) (db_Inbounds db) of
        None \<Rightarrow> Inr (None, db)
      | Some row \<Rightarrow> (case decode_map (in_Options row) of
          None \<Rightarrow> Inl (''relay pool '' @ quoted (rp_Name pool) @ '' inbound '' @ nat_str (ri_InboundID it) @ '' has invalid options: '' @ json_err)
        | Some opts \<Rightarrow>
            let listen = relayInboundListenAddress relayModeIPv6 host;
                set_listen = (sprint (mget opts ''listen'') \<noteq> listen);
                addrs = link_addrs host (ri_ListenPort it);
                options' = (if set_listen then mustJSON (GMap (mput opts ''listen'' (GStr listen))) else in_Options row)
            in if set_listen \<and> in_Options row = RVal GNil then Inl ''panic: assignment to entry in nil map''
               else Inr (Some ((preload_inbound db row)\<lparr>in_Options := options', in_Addrs := addrs\<rparr>),
                 db\<lparr>db_Inbounds := update_rows (\<lambda>r. in_Id r = in_Id row) (\<lambda>r. r\<lparr>in_Options := options', in_Addrs := addrs\<rparr>) (db_Inbounds db)\<rparr>)))"

definition protocol_request :: "string \<Rightarrow> relay_request" where
  "protocol_request protocol = \<lparr>rq_Name = [], rq_Source = [], rq_Mode = relayModeIPv6, rq_PortStart = 0, rq_Count = 0, rq_UsernamePrefix = [],
     rq_PasswordLength = 0, rq_PublicHost = [], rq_Interface = [], rq_BaseIPv6 = [], rq_Prefix = 0, rq_AddSystemAddresses = False,
     rq_IPv6Addresses = [], rq_Upstreams = [], rq_UpstreamText = [], rq_Protocol = protocol, rq_CoreType = [], rq_TlsID = 0,
     rq_Transport = [], rq_DomainStrategy = [], rq_ShadowsocksMethod = [], rq_AppleIDIPv4Only = False\<rparr>"

definition repair_client :: "relay_env \<Rightarrow> relay_pool \<Rightarrow> string \<Rightarrow> string \<Rightarrow> relay_item \<Rightarrow> inbound option \<Rightarrow> panel_db \<Rightarrow> (gval list \<times> panel_db) result" where
  "repair_client env pool host protocol it inb db = (case inb of None \<Rightarrow> Inr ([], db) | Some i \<Rightarrow>
     (if ri_ClientID it = 0 then Inr ([], db)
      else case find_row cl_Id (ri_ClientID it) (db_Clients db) of
        None \<Rightarrow> Inr ([], db)
      | Some c \<Rightarrow> (case decode_map (cl_Config c) of
          None \<Rightarrow> Inl (''relay pool '' @ quoted (rp_Name pool) @ '' client '' @ nat_str (ri_ClientID it) @ '' has invalid config: '' @ json_err)
        | Some cfg \<Rightarrow> bindr (relayClientLinks env (protocol_request protocol) i cfg host) (\<lambda>links.
            Inr (links, if cl_Links c = RVal (GList links) then db
              else db\<lparr>db_Clients := update_rows (\<lambda>r. cl_Id r = cl_Id c) (\<lambda>r. r\<lparr>cl_Links := RVal (GList links)\<rparr>) (db_Clients db)\<rparr>)))))"

definition item_protocol :: "relay_pool \<Rightarrow> relay_item \<Rightarrow> string" where
  "item_protocol pool it = (if ri_Protocol it \<noteq> [] then ri_Protocol it else if rp_Protocol pool \<noteq> [] then rp_Protocol pool else ''socks'')"

definition repair_item :: "relay_env \<Rightarrow> relay_pool \<Rightarrow> string \<Rightarrow> relay_item \<Rightarrow> panel_db \<Rightarrow> (relay_item \<times> panel_db) result" where
  "repair_item env pool host it db =
     bindr (repair_inbound pool host it db) (\<lambda>(inb, db1).
     bindr (repair_client env pool host (item_protocol pool it) it inb db1) (\<lambda>(links, db2).
       Inr (it\<lparr>ri_Export :=
         (if item_protocol pool it \<in> {''socks'', ''mixed''} then relaySOCKSExport host (ri_ListenPort it) (ri_Username it) (ri_Password it)
          else case links of [] \<Rightarrow> ri_Export it | l # _ \<Rightarrow> link_get l ''uri'')\<rparr>, db2)))"

fun repair_items :: "relay_env \<Rightarrow> relay_pool \<Rightarrow> string \<Rightarrow> relay_item list \<Rightarrow> panel_db \<Rightarrow> (relay_item list \<times> panel_db) result" where
  "repair_items env pool host [] db = Inr ([], db)"
| "repair_items env pool host (it # its) db =
     bindr (repair_item env pool host it db) (\<lambda>(it', db1).
     bindr (repair_items env pool host its db1) (\<lambda>(its', db2). Inr (it' # its', db2)))"

definition repairRelayIPv6ConnectionHost :: "relay_env \<Rightarrow> relay_pool \<Rightarrow> relay_item list \<Rightarrow> panel_db \<Rightarrow> panel_db result" where
  "repairRelayIPv6ConnectionHost env pool its db =
     (if TrimSpace (rp_ListenHost pool) = [] then Inr db
      else case normalizeRelayPublicHost (rp_ListenHost pool) of
        Inl _ \<Rightarrow> Inr db
      | Inr host \<Rightarrow> bindr (repair_items env pool host its db) (\<lambda>(its', db1).
          Inr (if its' = its then db1 else update_pool (rp_Id pool) (\<lambda>r. r\<lparr>rp_Items := Some its'\<rparr>) db1)))"

section \<open>The repair of all pools\<close>

definition repair_ipv6_pool :: "relay_env \<Rightarrow> relay_pool \<Rightarrow> panel_db \<Rightarrow> ((string \<times> relay_item list) \<times> panel_db) result" where
  "repair_ipv6_pool env pool db =
     (case normalizeRelayDomainStrategy relayModeIPv6 (rp_DomainStrategy pool) of
        Inl e \<Rightarrow> Inl (''relay pool '' @ quoted (rp_Name pool) @ '': '' @ e)
      | Inr strategy \<Rightarrow>
          let db1 = (if rp_DomainStrategy pool = strategy then db else update_pool (rp_Id pool) (\<lambda>r. r\<lparr>rp_DomainStrategy := strategy\<rparr>) db)
          in (case rp_Items pool of
            None \<Rightarrow> items_error pool
          | Some its \<Rightarrow> bindr (eachr (repair_direct True strategy) its db1) (\<lambda>db2.
              bindr (repairRelayIPv6ConnectionHost env pool its db2) (\<lambda>db3. Inr ((strategy, its), db3)))))"

fun repair_each :: "(relay_pool \<Rightarrow> panel_db \<Rightarrow> ('a \<times> panel_db) result) \<Rightarrow> relay_pool list \<Rightarrow> panel_db \<Rightarrow> ('a list \<times> panel_db) result" where
  "repair_each f [] db = Inr ([], db)"
| "repair_each f (pool # pools) db =
     bindr (f pool db) (\<lambda>(x, db1). bindr (repair_each f pools db1) (\<lambda>(xs, db2). Inr (x # xs, db2)))"

definition repair_rules :: "relay_item list \<Rightarrow> bool \<Rightarrow> panel_db \<Rightarrow> panel_db result" where
  "repair_rules its ipv6Only db = (if its = [] then Inr db else update_stored_rules its ipv6Only False db)"

definition repairRelayIPv6OutboundStrategies :: "relay_env \<Rightarrow> panel_db \<Rightarrow> panel_db result" where
  "repairRelayIPv6OutboundStrategies env db =
     bindr (repair_each (repair_ipv6_pool env) (filter (\<lambda>r. rp_Mode r = relayModeIPv6) (tb_Rows (db_Pools db))) db) (\<lambda>(xs, db1).
     bindr (repair_each (repair_paired_pool env) (filter (\<lambda>r. rp_Mode r \<in> {relayModePaired, relayModeDualStack}) (tb_Rows (db_Pools db))) db1) (\<lambda>(ys, db2).
       let ipv6Only = concat (map snd (filter (\<lambda>(st, _). st = relayDomainStrategyIPv6Only) xs));
           dual = concat (map snd (filter (\<lambda>(st, _). st \<noteq> relayDomainStrategyIPv6Only) xs)) @ concat ys in
       bindr (repair_rules dual False db2) (repair_rules ipv6Only True)))"

section \<open>At the start of the panel\<close>

definition switch_off_rotation :: "panel_db \<Rightarrow> panel_db" where
  "switch_off_rotation db = db\<lparr>db_Pools := update_rows (\<lambda>r. rp_RotationEnabled r \<or> rp_NextRotateAt r \<noteq> 0)
     (\<lambda>r. r\<lparr>rp_RotationEnabled := False, rp_NextRotateAt := 0\<rparr>) (db_Pools db)\<rparr>"

definition commit_result :: "panel_db result \<Rightarrow> unit panel_op" where
  "commit_result r p = (case r of Inl e \<Rightarrow> (Inl e, p) | Inr db \<Rightarrow> (Inr (), p\<lparr>pn_Db := db\<rparr>))"

definition RestoreRelayIPv6 :: "relay_env \<Rightarrow> unit relay_op" where
  "RestoreRelayIPv6 env s0 =
     (let s = s0\<lparr>rs_Panel := (rs_Panel s0)\<lparr>pn_Db := switch_off_rotation (pn_Db (rs_Panel s0))\<rparr>\<rparr>;
          pools = GetRelayPools (pn_Db (rs_Panel s))
      in bind_svc (on_panel (ensureRelayRefreshLinks env pools)) (\<lambda>_ s.
           if \<not> re_Linux env then (Inr (), s)
           else bind_svc (on_panel (\<lambda>p. commit_result (repairRelayIPv6OutboundStrategies env (pn_Db p)) p)) (\<lambda>_.
             restore_addresses env False pools) s) s)"

section \<open>What the panel shows\<close>

record relay_data =
  rd_Pools :: "relay_pool list"
  rd_IPv6 :: "relay_ipv6 list"
  rd_IPv6Total :: int
  rd_IPv6Truncated :: bool

definition managed_addresses :: "relay_pool list \<Rightarrow> string set" where
  "managed_addresses pools = set (filter (\<lambda>a. a \<noteq> []) (map ri_IPv6 (concat (map (\<lambda>p. case rp_Items p of Some its \<Rightarrow> its | None \<Rightarrow> []) pools))))"

definition GetRelayData :: "relay_env \<Rightarrow> relay_data panel_op" where
  "GetRelayData env p =
     (let pools0 = GetRelayPools (pn_Db p) in
      bind_svc (ensureRelayRefreshLinks env pools0) (\<lambda>_ p.
        (bindr (populateRelayRefreshTokens (pn_Db p) pools0) (\<lambda>pools.
         bindr (discoverRelayIPv6 (re_Interfaces env)) (\<lambda>ds.
           let (ipv6, n) = summarizeRelayIPv6 ds (managed_addresses pools) relayIPv6DisplayLimit in
           Inr \<lparr>rd_Pools = pools, rd_IPv6 = ipv6, rd_IPv6Total = n, rd_IPv6Truncated = (n > int (length ipv6))\<rparr>)), p)) p)"

section \<open>The rows of the browser import sheet\<close>

text \<open>The text is counted in characters; this is \<open>sanitizeBitBrowserCell\<close> on ASCII names.\<close>

definition sanitizeBitBrowserCell :: "string \<Rightarrow> string" where
  "sanitizeBitBrowserCell value = take 60 (TrimSpace (map (\<lambda>c. if c \<in> {CHR 0x0D, CHR 0x0A, CHR 0x09} then CHR 0x20 else c) value))"

definition three_digits :: "nat \<Rightarrow> string" where
  "three_digits n = (let s = nat_str n in replicate (3 - length s) (CHR ''0'') @ s)"

definition bitbrowser_row :: "relay_pool \<Rightarrow> string \<Rightarrow> nat \<times> relay_item \<Rightarrow> string list result" where
  "bitbrowser_row pool baseURL = (\<lambda>(i, it).
     let n = sanitizeBitBrowserCell (rp_Name pool); poolName = (if n = [] then ''1S-UI Relay'' else n);
         url = relayItemRefreshURL baseURL (ri_RefreshToken it)
     in case relayBitBrowserProxyInfo pool it of
          Inl e \<Rightarrow> NewErrorf (''relay item '' @ Itoa (int i + 1) @ '': '' @ e)
        | Inr proxyInfo \<Rightarrow> Inr [poolName @ ''-'' @ three_digits (i + 1), [], [], [], ''socks5'', proxyInfo, [], [], [],
            if url = [] then ''1S-UI '' @ poolName else url, [], []])"

definition buildRelayBitBrowserWorkbook :: "relay_pool \<Rightarrow> string \<Rightarrow> string list list result" where
  "buildRelayBitBrowserWorkbook pool baseURL = (case rp_Items pool of
     None \<Rightarrow> NewError (''invalid relay pool items:  '' @ json_err)
   | Some [] \<Rightarrow> NewError ''relay pool has no items''
   | Some its \<Rightarrow> mapr (bitbrowser_row pool baseURL) (enumerate 0 its))"

definition GetRelayBitBrowserExport :: "relay_env \<Rightarrow> nat \<Rightarrow> string \<Rightarrow> string list list panel_op" where
  "GetRelayBitBrowserExport env k baseURL p = (case find_row rp_Id k (db_Pools (pn_Db p)) of
     None \<Rightarrow> (not_found, p)
   | Some pool \<Rightarrow> bind_svc (ensureRelayRefreshLinks env [pool]) (\<lambda>_ p.
       (bindr (populateRelayRefreshTokens (pn_Db p) [pool]) (\<lambda>pools. case pools of
          [pool'] \<Rightarrow> buildRelayBitBrowserWorkbook pool' baseURL | _ \<Rightarrow> not_found), p)) p)"

end
