(* ===== verification/Relay_Links.thy ===== *)
theory Relay_Links
  imports Relay_System Config_Save
begin

text \<open>
  The refresh links of the pools: the loop over all pools, which reads the links once and keeps a
  set of the keys it has seen (\<open>ensureRelayRefreshLinks\<close>), does what the transaction of one pool
  does for each (\<open>ensureRelayRefreshLinksTx\<close>), which asks the database for every item.
\<close>

text \<open>The key of a link determines the pool and the tag: a number holds no colon.\<close>

lemma until_colon: "list_all is_digit s \<Longrightarrow> takeWhile ((\<noteq>) (CHR '':'')) (s @ CHR '':'' # t) = s"
  by (induction s) (auto simp: is_digit_def)

lemma link_key_inj [simp]: "link_key a s = link_key b t \<longleftrightarrow> a = b \<and> s = t"
proof
  assume eq: "link_key a s = link_key b t"
  have prefix: "takeWhile ((\<noteq>) (CHR '':'')) (link_key k u) = nat_str (int k)" for k u
    using until_colon [OF nat_str_digits] by (simp add: link_key_def)
  from eq have "nat_str (int a) = nat_str (int b)" by (metis prefix)
  then have "a = b" by (metis digits_val_nat_str of_nat_0_le_iff of_nat_eq_iff)
  with eq show "a = b \<and> s = t" by (simp add: link_key_def)
qed simp

text \<open>What the set of keys means, for the pools still to come.\<close>

definition keys_of_links :: "nat set \<Rightarrow> string set \<Rightarrow> panel_db \<Rightarrow> bool" where
  "keys_of_links pools existing db \<longleftrightarrow>
     (\<forall>k\<in>pools. \<forall>tag. link_key k tag \<in> existing \<longleftrightarrow> find_link k tag db \<noteq> None)"

lemma find_link_None: "find_link k tag db = None \<longleftrightarrow> (\<forall>l\<in>set (tb_Rows (db_Links db)). \<not> (rl_PoolID l = k \<and> rl_InboundTag l = tag))"
  by (auto simp: find_link_def find_None_iff)

lemma existing_links_keys: "keys_of_links (rp_Id ` set pools) (existing_links pools db) db"
proof -
  have "link_key k tag \<in> existing_links pools db \<longleftrightarrow> find_link k tag db \<noteq> None" if "k \<in> rp_Id ` set pools" for k tag
    using that by (auto simp: existing_links_def find_link_None intro!: rev_image_eqI)
  then show ?thesis by (auto simp: keys_of_links_def)
qed

lemma create_link_Inr:
  assumes "create_link env k tag db = Inr db'" "table_ok rl_Id (db_Links db)"
  shows "\<exists>l. db' = db\<lparr>db_Links := db_Links db'\<rparr> \<and> tb_Rows (db_Links db') = tb_Rows (db_Links db) @ [l]
    \<and> rl_PoolID l = k \<and> rl_InboundTag l = tag \<and> table_ok rl_Id (db_Links db')"
proof -
  let ?l = "\<lparr>rl_Id = 0, rl_PoolID = k, rl_InboundTag = tag, rl_Token = Random (re_Tokens env) (48 * tb_Seq (db_Links db)) 48,
    rl_CreatedAt = relay_now env, rl_LastRotatedAt = 0\<rparr>"
  let ?t = "save_row rl_Id (\<lambda>k. with_rl_Id k) ?l (db_Links db)"
  have db': "db' = db\<lparr>db_Links := ?t\<rparr>"
    using assms(1) by (auto simp: create_link_def bindr_Inr_iff links.save_tagged_Inr)
  have "tb_Rows ?t = tb_Rows (db_Links db) @ [keyed rl_Id (\<lambda>k. with_rl_Id k) (db_Links db) ?l]"
    using assms(2) by (intro links.insert_rows) simp_all
  moreover have "table_ok rl_Id ?t" by (rule links.save_ok [OF assms(2)])
  ultimately show ?thesis by (intro exI [of _ "keyed rl_Id (\<lambda>k. with_rl_Id k) (db_Links db) ?l"]) (simp add: db' keyed_def)
qed

lemma keys_create:
  assumes "create_link env k tag db = Inr db'" "table_ok rl_Id (db_Links db)" "keys_of_links pools existing db"
  shows "keys_of_links pools (insert (link_key k tag) existing) db'"
proof -
  obtain l where l: "tb_Rows (db_Links db') = tb_Rows (db_Links db) @ [l]" "rl_PoolID l = k" "rl_InboundTag l = tag"
    using create_link_Inr [OF assms(1,2)] by blast
  then have "find_link j u db' = None \<longleftrightarrow> find_link j u db = None \<and> \<not> (j = k \<and> u = tag)" for j u
    by (auto simp: find_link_None)
  then show ?thesis using assms(3) by (auto simp: keys_of_links_def)
qed

text \<open>The items of one pool: the same result, and the set follows the table.\<close>

lemma ensure_Tx_simps [simp]:
  "ensureRelayRefreshLinksTx env pool [] db = Inr db"
  "ensureRelayRefreshLinksTx env pool (it # its) db = bindr (ensure_link env pool it db) (ensureRelayRefreshLinksTx env pool its)"
  by (simp_all add: ensureRelayRefreshLinksTx_def)

lemma ensure_items_reference:
  assumes "table_ok rl_Id (db_Links db)" "keys_of_links pools existing db" "pool \<in> pools"
  shows "(case ensure_items env pool its existing db of
      Inl e \<Rightarrow> ensureRelayRefreshLinksTx env pool its db = Inl e
    | Inr (existing', db') \<Rightarrow> ensureRelayRefreshLinksTx env pool its db = Inr db'
        \<and> keys_of_links pools existing' db' \<and> table_ok rl_Id (db_Links db'))"
  using assms
proof (induction its arbitrary: existing db)
  case Nil
  then show ?case by simp
next
  case (Cons it its)
  let ?tag = "ri_InboundTag it"
  have seen: "link_key pool ?tag \<in> existing \<longleftrightarrow> find_link pool ?tag db \<noteq> None"
    using Cons.prems by (simp add: keys_of_links_def)
  have skip: "ensure_link env pool it db = Inr db" if "\<not> linked_item it \<or> link_key pool ?tag \<in> existing"
    using that seen by (auto simp: ensure_link_def)
  show ?case
  proof (cases "\<not> linked_item it \<or> link_key pool ?tag \<in> existing")
    case True
    show ?thesis
      unfolding ensure_items.simps if_P [OF True] ensure_Tx_simps skip [OF True] bindr_simps by (rule Cons.IH [OF Cons.prems])
  next
    case False
    then have same: "ensure_link env pool it db = create_link env pool ?tag db" using seen by (simp add: ensure_link_def)
    show ?thesis
    proof (cases "create_link env pool ?tag db")
      case (Inl e)
      then show ?thesis using False same by simp
    next
      case (Inr db1)
      have "table_ok rl_Id (db_Links db1)" using create_link_Inr [OF Inr Cons.prems(1)] by blast
      show ?thesis
        unfolding ensure_items.simps if_not_P [OF False] ensure_Tx_simps same Inr bindr_simps
        by (rule Cons.IH [OF \<open>table_ok rl_Id (db_Links db1)\<close> keys_create [OF Inr Cons.prems(1,2)] Cons.prems(3)])
    qed
  qed
qed

lemma ensure_pools_reference:
  assumes "table_ok rl_Id (db_Links db)" "keys_of_links ids existing db" "rp_Id ` set pools \<subseteq> ids"
  shows "ensure_pools env pools existing db = eachr (ensure_pool_links env) pools db"
  using assms
proof (induction pools arbitrary: existing db)
  case (Cons pool pools)
  show ?case
  proof (cases "\<not> relayModeUsesIPv6 (rp_Mode pool) \<or> rp_Items pool = None")
    case True
    then show ?thesis using Cons.IH [OF Cons.prems(1,2)] Cons.prems(3)
      by (auto simp: ensure_pool_links_def items_error_def)
  next
    case False
    then obtain its where its: "relayModeUsesIPv6 (rp_Mode pool)" "rp_Items pool = Some its" by auto
    have "rp_Id pool \<in> ids" using Cons.prems(3) by simp
    note step = ensure_items_reference [OF Cons.prems(1,2) this, of env its]
    show ?thesis
    proof (cases "ensure_items env (rp_Id pool) its existing db")
      case (Inl e)
      then show ?thesis using step its by (simp add: ensure_pool_links_def)
    next
      case (Inr r)
      obtain existing' db' where r: "r = (existing', db')" by fastforce
      show ?thesis using step its Cons.IH [of db' existing'] Cons.prems(3) by (simp add: Inr r ensure_pool_links_def)
    qed
  qed
qed simp

text \<open>
  C9. Reading all links once and keeping their keys in a set gives what asking the database for
  every item of every pool gives: the same new links in the same order, or the same error.
\<close>

theorem ensureRelayRefreshLinks_reference:
  assumes "table_ok rl_Id (db_Links (pn_Db p))"
  shows "ensureRelayRefreshLinks env pools p = (case eachr (ensure_pool_links env) pools (pn_Db p) of
      Inl e \<Rightarrow> (Inl e, p) | Inr db \<Rightarrow> (Inr (), p\<lparr>pn_Db := db\<rparr>))"
  unfolding ensureRelayRefreshLinks_def ensure_pools_reference [OF assms existing_links_keys order_refl] ..

section \<open>An example\<close>

text \<open>A machine with one interface and sixteen addresses; \<^verbatim>\<open>ip\<close> accepts every command.\<close>

definition example_machine :: relay_env where
  "example_machine = \<lparr>re_Config = example_config, re_Linux = True, re_Root = True,
     re_Interfaces = Inr [\<lparr>ni_Name = ''eth0'', ni_Loopback = False, ni_Addrs = Some [''2001:db8::1/64'']\<rparr>],
     re_IpAdd = (\<lambda>_ _ _. None), re_IpDel = (\<lambda>_ _ _. None), re_Polls = (\<lambda>_ _. Inr ''inet6 2001:db8::2/64 scope global''),
     re_Rounds = 2, re_Probe = (\<lambda>_. None), re_Names = (\<lambda>n. n), re_Tags = (\<lambda>n. n), re_Tokens = (\<lambda>n. n), re_Bytes = (\<lambda>n. n),
     re_Addresses = (\<lambda>n. of_nat n + 2), re_Uuid = (\<lambda>n. ''b831381d-6324-4d53-ad4f-8cda48b30811'')\<rparr>"

definition example_item :: relay_item where
  "example_item = empty_item\<lparr>ri_InboundID := 1, ri_InboundTag := ''socks-1'', ri_OutboundTag := ''relay-out-1'', ri_ListenPort := 1080,
     ri_Username := ''relay1'', ri_Password := ''secret'', ri_IPv6 := ''2001:db8::1'', ri_Interface := ''eth0'', ri_Prefix := 64\<rparr>"

definition example_pool :: relay_pool where
  "example_pool = \<lparr>rp_Id = 1, rp_Name = ''pool'', rp_Source = [], rp_Mode = ''ipv6'', rp_Protocol = ''socks'', rp_CoreType = ''sing-box'',
     rp_TlsID = 0, rp_Transport = [], rp_DomainStrategy = ''ipv6_only'', rp_ListenHost = ''203.0.113.5'', rp_PortStart = 1080, rp_Count = 1,
     rp_Items = Some [example_item], rp_CreatedAt = 0, rp_RotationEnabled = False, rp_RotationIntervalMinutes = 0, rp_LastRotatedAt = 0,
     rp_NextRotateAt = 0\<rparr>"

theorem ensureRelayRefreshLinks_reference_witness:
  "map rl_InboundTag (tb_Rows (db_Links (pn_Db (snd (ensureRelayRefreshLinks example_machine [example_pool, example_pool] example_panel))))) = [''socks-1'']"
proof -
  have "table_ok rl_Id (db_Links (pn_Db example_panel))" by code_simp
  then show ?thesis unfolding ensureRelayRefreshLinks_reference [OF \<open>table_ok rl_Id (db_Links (pn_Db example_panel))\<close>] by code_simp
qed

end
