(* ===== verification/Relay_Agreement.thy ===== *)
theory Relay_Agreement
  imports Relay_Restore Relay_Links
begin

text \<open>
  What a relay transaction leaves: a failed one has committed nothing and the core runs the old
  configuration again, or nothing; a successful one has committed its rows with one change, and the
  core runs what a start from the new database gives. The operations then only have to keep the
  tables well formed.
\<close>

section \<open>Operations on the core alone\<close>

definition only_core :: "panel \<Rightarrow> panel \<Rightarrow> bool" where
  "only_core p p' \<longleftrightarrow> (\<exists>core. p' = p\<lparr>pn_Core := core\<rparr>)"

lemma only_core_refl [simp]: "only_core p p" "only_core p (p\<lparr>pn_Core := c\<rparr>)"
  by (auto simp: only_core_def intro: exI [of _ "pn_Core p"])

lemma only_core_trans [trans]: "only_core a b \<Longrightarrow> only_core b c \<Longrightarrow> only_core a c"
  by (auto simp: only_core_def)

lemma only_core_data: "only_core p p' \<Longrightarrow> same_data p p' \<and> pn_LastStartFail p' = pn_LastStartFail p \<and> pn_Xray p' = pn_Xray p"
  by (auto simp: only_core_def same_data_def)

lemma only_core_on: "on_core m p = (r, p') \<Longrightarrow> only_core p p' \<and> m (pn_Core p) = (r, pn_Core p')"
  by (auto simp: on_core_def split: prod.splits)

lemma only_core_snd: "only_core p (snd (on_core m p))"
  by (simp add: on_core_def split: prod.split)

lemma restore_is_replace:
  assumes "GetConfigWithDB RNil (pn_Db p) = Inr config"
  shows "restoreSingBoxConfig env config p = bind_svc (stop_if_running (re_Config env)) (\<lambda>_. start_singbox (re_Config env) RNil) p"
proof -
  have "start_singbox (re_Config env) RNil q = on_core (core_Start (sv_CoreEnv (cf_Svc (re_Config env))) config) q"
    if "q = snd (stop_if_running (re_Config env) p)" for q
  proof -
    have "pn_Db q = pn_Db p" using stop_if_running_stops [of "re_Config env" p] that by (simp add: same_data_def)
    then show ?thesis using assms by (simp add: start_singbox_def)
  qed
  then show ?thesis by (auto simp: restoreSingBoxConfig_def bind_svc_def split: prod.split sum.split)
qed

lemma restored:
  assumes "GetConfigWithDB RNil (pn_Db p) = Inr config"
  shows "only_core p (restore_old env (Some config) p)"
    and "db_clean (pn_Db p) \<Longrightarrow> agrees (pn_Db p) (pn_Core (restore_old env (Some config) p))"
proof -
  have "only_core p (snd (stop_if_running (re_Config env) p))"
    by (simp add: stop_if_running_def only_core_snd)
  then show only: "only_core p (restore_old env (Some config) p)"
    by (auto simp: restore_old_def restoreSingBoxConfig_def bind_svc_snd split: sum.split intro: only_core_trans only_core_snd)
  assume "db_clean (pn_Db p)"
  from settlesD [OF settles_replace this] have "in_line (restore_old env (Some config) p)"
    using restore_is_replace [OF assms, of env] by (simp add: restore_old_def)
  then show "agrees (pn_Db p) (pn_Core (restore_old env (Some config) p))"
    using only_core_data [OF only] by (simp add: in_line_def same_data_def)
qed

section \<open>The transaction\<close>

lemma replaced:
  assumes "replace_core env msg db p = (r, p')"
  shows "\<exists>old res. r = Inr (old, res) \<and> only_core p p'
    \<and> (case old of None \<Rightarrow> p' = p | Some config \<Rightarrow> GetConfigWithDB RNil (pn_Db p) = Inr config)
    \<and> (res = Inr () \<longrightarrow> db_clean db \<longrightarrow> agrees db (pn_Core p'))"
proof (cases "running p")
  case False
  then show ?thesis using assms by (auto simp: replace_core_def agrees_def running_def)
next
  case True
  let ?cv = "sv_CoreEnv (cf_Svc (re_Config env))"
  show ?thesis
  proof (cases "GetConfigWithDB RNil (pn_Db p)")
    case (Inl e)
    then show ?thesis using assms True by (auto simp: replace_core_def)
  next
    case (Inr config)
    show ?thesis
    proof (cases "GetConfigWithDB RNil db")
      case new: (Inl e)
      then show ?thesis using assms True Inr by (auto simp: replace_core_def)
    next
      case new: (Inr newConfig)
      obtain r1 p1 where stop: "on_core (core_Stop ?cv) p = (r1, p1)" by fastforce
      obtain r2 p2 where start: "on_core (core_Start ?cv newConfig) p1 = (r2, p2)" by fastforce
      have only: "only_core p p1" "only_core p p2"
        using only_core_on [OF stop] only_core_on [OF start] by (blast intro: only_core_trans)+
      have "agrees db (pn_Core p2)" if "r2 = Inr u" "db_clean db" for u
        using only_core_on [OF start] started_agrees [OF new _ that(2)] that(1) by blast
      then show ?thesis using assms True Inr new stop start only
        by (cases r1; cases r2) (auto simp: replace_core_def Let_def NewErrorf_def)
    qed
  qed
qed

definition committed :: "relay_env \<Rightarrow> change \<Rightarrow> panel_db \<Rightarrow> panel \<Rightarrow> panel \<Rightarrow> bool" where
  "committed env ch db p p' \<longleftrightarrow>
     (\<exists>core. p' = p\<lparr>pn_Core := core, pn_Db := add_change ch db, pn_LastUpdate := cf_Now (re_Config env)\<rparr>
       \<and> (db_clean db \<longrightarrow> agrees db core))"

text \<open>A failure leaves the core as it was, or restored.\<close>

definition rolled_back :: "panel \<Rightarrow> panel \<Rightarrow> bool" where
  "rolled_back p p' \<longleftrightarrow> only_core p p' \<and> (pn_Core p' = pn_Core p \<or> (db_clean (pn_Db p) \<longrightarrow> agrees (pn_Db p) (pn_Core p')))"

lemma relay_transaction_outcome:
  assumes run: "relay_transaction env msg body ch p = (r, p')"
  shows "case r of Inl e \<Rightarrow> rolled_back p p'
    | Inr x \<Rightarrow> (\<exists>db. body (pn_Db p) = Inr (x, db) \<and> committed env (ch x) db p p')"
proof (cases "cf_Begin (re_Config env) \<noteq> None \<or> isl (body (pn_Db p))")
  case True
  then show ?thesis using run
    by (auto simp: relay_transaction_def rolled_back_def isl_def split: option.splits)
next
  case False
  then obtain x db where body: "body (pn_Db p) = Inr (x, db)" by (cases "body (pn_Db p)") auto
  obtain r1 p1 where core: "replace_core env msg db p = (r1, p1)" by fastforce
  from replaced [OF core] obtain old res where r1: "r1 = Inr (old, res)" and only: "only_core p p1"
    and old: "case old of None \<Rightarrow> p1 = p | Some config \<Rightarrow> GetConfigWithDB RNil (pn_Db p) = Inr config"
    and res: "res = Inr () \<Longrightarrow> db_clean db \<Longrightarrow> agrees db (pn_Core p1)" by blast
  let ?rest = "bindr res (\<lambda>_. bindr (opt_error (cf_CreateChange (re_Config env))) (\<lambda>_. opt_error (cf_Commit (re_Config env))))"
  have same: "pn_Db p1 = pn_Db p" using only_core_data [OF only] by (simp add: same_data_def)
  have run': "(r, p') = (case ?rest of Inl e \<Rightarrow> (Inl e, restore_old env old p1)
      | Inr _ \<Rightarrow> (Inr x, p1\<lparr>pn_Db := add_change (ch x) db, pn_LastUpdate := cf_Now (re_Config env)\<rparr>))"
    using run False body core r1 by (auto simp: relay_transaction_def bind_svc_def split: option.splits)
  show ?thesis
  proof (cases ?rest)
    case (Inl e)
    then have p': "r = Inl e" "p' = restore_old env old p1" using run' by simp_all
    show ?thesis
    proof (cases old)
      case None
      then show ?thesis using p' old by (simp add: restore_old_def rolled_back_def)
    next
      case (Some config)
      then have cfg: "GetConfigWithDB RNil (pn_Db p1) = Inr config" using old same by simp
      show ?thesis using p' restored [OF cfg, of env] only_core_trans [OF only] same Some by (auto simp: rolled_back_def)
    qed
  next
    case (Inr u)
    then have "res = Inr ()" by (auto simp: bindr_Inr_iff)
    moreover obtain core where "p1 = p\<lparr>pn_Core := core\<rparr>" using only by (auto simp: only_core_def)
    ultimately show ?thesis using Inr run' body res by (auto simp: committed_def)
  qed
qed

text \<open>So the panel stays fine when the body keeps the tables well formed.\<close>

definition sound_db :: "panel_db \<Rightarrow> bool" where
  "sound_db db \<longleftrightarrow> db_ok db \<and> db_clean db \<and> clients_clean db"

definition keeps_sound :: "(panel_db \<Rightarrow> ('a \<times> panel_db) result) \<Rightarrow> bool" where
  "keeps_sound body \<longleftrightarrow> (\<forall>db x db'. sound_db db \<longrightarrow> body db = Inr (x, db') \<longrightarrow> sound_db db')"

lemma fine_sound: "fine db core \<longleftrightarrow> sound_db db \<and> agrees db core"
  by (simp add: fine_line sound_db_def)

lemma rolled_back_fine: "rolled_back p p' \<Longrightarrow> fine (pn_Db p) (pn_Core p) \<Longrightarrow> fine (pn_Db p') (pn_Core p')"
  using only_core_data [of p p'] by (auto simp: rolled_back_def fine_sound sound_db_def same_data_def)

lemma committed_fine:
  assumes "committed env ch db p p'" "sound_db db"
  shows "fine (pn_Db p') (pn_Core p')"
  using assms side_fine [OF side_add_change, of db _ ch] by (auto simp: committed_def fine_sound sound_db_def)

lemma relay_transaction_fine:
  assumes "relay_transaction env msg body ch p = (r, p')" "fine (pn_Db p) (pn_Core p)" "keeps_sound body"
  shows "fine (pn_Db p') (pn_Core p')"
proof (cases r)
  case (Inl e)
  then show ?thesis using relay_transaction_outcome [OF assms(1)] assms(2) by (simp add: rolled_back_fine)
next
  case (Inr x)
  then obtain db where db: "body (pn_Db p) = Inr (x, db)" "committed env (ch x) db p p'"
    using relay_transaction_outcome [OF assms(1)] by auto
  have "sound_db db" using assms(2,3) db(1) unfolding keeps_sound_def fine_sound by blast
  then show ?thesis by (rule committed_fine [OF db(2)])
qed

end
