(* ===== verification/Relay_Sound.thy ===== *)
theory Relay_Sound
  imports Relay_Agreement
begin

text \<open>
  The rows the relay operations write are well formed: keys and tags stay unique, options carry no
  tag of their own, and the configuration of a new client already names the client.
\<close>

section \<open>Well-formed tables\<close>

definition sound_table :: "('r \<Rightarrow> nat) \<Rightarrow> ('r \<Rightarrow> string) \<Rightarrow> ('r \<Rightarrow> bool) \<Rightarrow> 'r table \<Rightarrow> bool" where
  "sound_table key tag good t \<longleftrightarrow> table_ok key t \<and> tags_ok tag t \<and> list_all good (tb_Rows t)"

abbreviation sound_inbounds :: "inbound table \<Rightarrow> bool" where
  "sound_inbounds \<equiv> sound_table in_Id in_Tag clean_inbound"

abbreviation sound_outbounds :: "outbound table \<Rightarrow> bool" where
  "sound_outbounds \<equiv> sound_table out_Id out_Tag clean_outbound"

abbreviation sound_links :: "relay_link table \<Rightarrow> bool" where
  "sound_links \<equiv> sound_table rl_Id rl_Token (\<lambda>_. True)"

definition sound_clients :: "client table \<Rightarrow> bool" where
  "sound_clients t \<longleftrightarrow> table_ok cl_Id t \<and> list_all clean_client (tb_Rows t)"

lemma sound_tables:
  assumes "sound_db db"
  shows "sound_inbounds (db_Inbounds db)" "sound_outbounds (db_Outbounds db)" "sound_links (db_Links db)"
    "sound_clients (db_Clients db)" "table_ok rp_Id (db_Pools db)"
  using assms by (simp_all add: sound_db_def db_ok_def db_clean_def clients_clean_def sound_table_def sound_clients_def list_all_iff)

lemma sound_update:
  assumes "sound_db db"
  shows "sound_inbounds t1 \<Longrightarrow> sound_db (db\<lparr>db_Inbounds := t1\<rparr>)" "sound_outbounds t2 \<Longrightarrow> sound_db (db\<lparr>db_Outbounds := t2\<rparr>)"
    "sound_links t3 \<Longrightarrow> sound_db (db\<lparr>db_Links := t3\<rparr>)" "sound_clients t4 \<Longrightarrow> sound_db (db\<lparr>db_Clients := t4\<rparr>)"
    "table_ok rp_Id t5 \<Longrightarrow> sound_db (db\<lparr>db_Pools := t5\<rparr>)" "sound_db (db\<lparr>db_Config := c\<rparr>)"
  using assms by (simp_all add: sound_db_def db_ok_def db_clean_def clients_clean_def sound_table_def sound_clients_def)

context keyed_table
begin

lemma good_saved: "list_all P (tb_Rows t) \<Longrightarrow> P (keyed key with_key t r) \<Longrightarrow> list_all P (tb_Rows (save_row key with_key r t))"
  by (auto simp: save_rows list_all_iff)

lemma good_deleted: "list_all P (tb_Rows t) \<Longrightarrow> list_all P (tb_Rows (delete_rows Q t))"
  by (auto simp: delete_rows_def list_all_iff)

lemma good_updated: "list_all P (tb_Rows t) \<Longrightarrow> (\<And>r. P r \<Longrightarrow> P (f r)) \<Longrightarrow> list_all P (tb_Rows (update_rows Q f t))"
  by (auto simp: update_rows_def list_all_iff)

end

context tagged_table
begin

lemma sound_saved:
  assumes "sound_table key tag good t" "save_tagged key with_key tag r t = Inr (r', t')" "good (keyed key with_key t r)"
  shows "sound_table key tag good t'"
proof -
  have t': "t' = save_row key with_key r t" using assms(2) by (simp add: save_tagged_Inr)
  have "tags_ok tag t'" using assms(1,2) by (auto simp: sound_table_def intro: save_tags_ok)
  then show ?thesis using assms(1,3) by (simp add: sound_table_def t' save_ok good_saved)
qed

lemma sound_deleted: "sound_table key tag good t \<Longrightarrow> sound_table key tag good (delete_rows P t)"
  by (simp add: sound_table_def delete_ok delete_tags_ok good_deleted)

lemma sound_updated:
  "sound_table key tag good t \<Longrightarrow> (\<And>r. key (f r) = key r) \<Longrightarrow> (\<And>r. tag (f r) = tag r) \<Longrightarrow> (\<And>r. good r \<Longrightarrow> good (f r))
    \<Longrightarrow> sound_table key tag good (update_rows P f t)"
  by (simp add: sound_table_def update_ok update_tags_ok good_updated)

end

lemma eachr_sound:
  "eachr f xs db = Inr db' \<Longrightarrow> sound_db db \<Longrightarrow> (\<And>x db db'. x \<in> set xs \<Longrightarrow> f x db = Inr db' \<Longrightarrow> sound_db db \<Longrightarrow> sound_db db') \<Longrightarrow> sound_db db'"
  by (rule eachr_invariant [where P = sound_db])

section \<open>Links and rules\<close>

lemma create_link_sound:
  assumes "create_link env k tag db = Inr db'" "sound_db db"
  shows "sound_db db'"
proof -
  obtain r t where "save_tagged rl_Id (\<lambda>k. with_rl_Id k) rl_Token
      \<lparr>rl_Id = 0, rl_PoolID = k, rl_InboundTag = tag, rl_Token = Random (re_Tokens env) (48 * tb_Seq (db_Links db)) 48,
       rl_CreatedAt = relay_now env, rl_LastRotatedAt = 0\<rparr> (db_Links db) = Inr (r, t)" and db': "db' = db\<lparr>db_Links := t\<rparr>"
    using assms(1) by (auto simp: create_link_def bindr_Inr_iff)
  from links.sound_saved [OF sound_tables(3) [OF assms(2)] this(1)] show ?thesis
    unfolding db' by (intro sound_update [OF assms(2)]) simp
qed

lemma ensure_link_sound: "ensure_link env k it db = Inr db' \<Longrightarrow> sound_db db \<Longrightarrow> sound_db db'"
  by (auto simp: ensure_link_def create_link_sound split: if_splits)

lemma ensureTx_sound: "ensureRelayRefreshLinksTx env k its db = Inr db' \<Longrightarrow> sound_db db \<Longrightarrow> sound_db db'"
  unfolding ensureRelayRefreshLinksTx_def by (erule eachr_sound) (auto intro: ensure_link_sound)

lemma update_stored_rules_db: "update_stored_rules its a b db = Inr db' \<Longrightarrow> \<exists>c. db' = db\<lparr>db_Config := c\<rparr>"
  by (auto simp: update_stored_rules_def not_found_def bindr_Inr_iff split: option.splits raw.splits gval.splits)

lemma update_stored_rules_sound: "update_stored_rules its a b db = Inr db' \<Longrightarrow> sound_db db \<Longrightarrow> sound_db db'"
  using update_stored_rules_db sound_update(6) by blast

section \<open>Deleting\<close>

lemma delete_pool_rows_sound: "keeps_sound (delete_pool_rows pool its)"
  unfolding keeps_sound_def
proof (intro allI impI)
  fix db x db'
  assume db: "sound_db db" "delete_pool_rows pool its db = Inr (x, db')"
  then obtain db1 where "update_stored_rules its False True db = Inr db1"
    and db': "db' = db1\<lparr>db_Clients := delete_rows (\<lambda>c. cl_Id c \<in> set (filter (\<lambda>k. k > 0) (map ri_ClientID its))) (db_Clients db1),
       db_Inbounds := delete_rows (\<lambda>i. in_Tag i \<in> set (map ri_InboundTag its)) (db_Inbounds db1),
       db_Outbounds := delete_rows (\<lambda>out. out_Tag out \<in> set (concat (map item_outbound_tags its))) (db_Outbounds db1),
       db_Links := delete_rows (\<lambda>l. rl_PoolID l = rp_Id pool) (db_Links db1),
       db_Pools := delete_rows (\<lambda>p. rp_Id p = rp_Id pool) (db_Pools db1)\<rparr>"
    by (auto simp: delete_pool_rows_def bindr_Inr_iff)
  then have db1: "sound_db db1" using update_stored_rules_sound db(1) by blast
  note t = sound_tables [OF db1]
  show "sound_db db'"
    unfolding db'
    by (intro sound_update db1 inbounds.sound_deleted outbounds.sound_deleted links.sound_deleted pools.delete_ok t)
      (use t in \<open>simp add: sound_clients_def clients.delete_ok clients.good_deleted\<close>)
qed

section \<open>Rotating\<close>

lemma clean_put: "clean_options (mustJSON (GMap m)) \<longleftrightarrow> \<not> mhas m ''tag''"
  by (simp add: clean_options_def mhas_map_prod)

lemma rotated_clean: "\<not> mhas opts ''tag'' \<Longrightarrow> \<not> mhas (rotated_options it opts) ''tag''"
  by (simp add: rotated_options_def Let_def)

lemma rotate_outbound_sound:
  assumes "rotate_outbound mode x db = Inr db'" "sound_db db"
  shows "sound_db db'"
proof -
  obtain i it where x: "x = (i, it)" by fastforce
  obtain out opts where out: "find_outbound (relayItemIPv6OutboundTag mode it) db = Some out" "outbound_options out = Inr opts"
    and db': "db' = set_outbound_options out (rotated_options it opts) db"
    using assms(1) by (auto simp: rotate_outbound_def x Let_def bindr_Inr_iff not_found_def split: if_splits option.splits)
  have "out \<in> set (tb_Rows (db_Outbounds db))" using out(1) find_Some_mem by (fastforce simp: find_outbound_def)
  then have "clean_outbound out" using sound_tables(2) [OF assms(2)] by (simp add: sound_table_def list_all_iff)
  then have "\<not> mhas opts ''tag''" using out(2)
    by (auto simp: clean_outbound_def clean_options_def outbound_options_def split: if_splits option.splits)
  then have "clean_options (mustJSON (GMap (rotated_options it opts)))" by (simp add: clean_put rotated_clean)
  then show ?thesis
    unfolding db' set_outbound_options_def
    by (intro sound_update(2) outbounds.sound_updated assms(2) sound_tables(2) [OF assms(2)]) (auto simp: clean_outbound_def)
qed

lemma mark_rotated_sound: "sound_db db \<Longrightarrow> sound_db (mark_rotated env pool its db)"
proof (induction its arbitrary: db)
  case (Cons it its)
  have "sound_db (db\<lparr>db_Links := update_rows (\<lambda>l. rl_PoolID l = rp_Id pool \<and> rl_InboundTag l = ri_InboundTag it)
      (\<lambda>l. l\<lparr>rl_LastRotatedAt := relay_now env\<rparr>) (db_Links db)\<rparr>)"
    by (intro sound_update(3) links.sound_updated Cons.prems sound_tables(3) [OF Cons.prems]) simp_all
  from Cons.IH [OF this] show ?case by (simp add: mark_rotated_def)
qed (simp add: mark_rotated_def)

lemma rotate_rows_sound: "keeps_sound (rotate_rows env tag pool rotated its)"
  unfolding keeps_sound_def
proof (intro allI impI)
  fix db x db'
  assume db: "sound_db db" "rotate_rows env tag pool rotated its db = Inr (x, db')"
  then obtain db1 pool' where rows: "updateRelayRotatedOutbounds (rp_Mode pool) rotated db = Inr db1"
    and db': "db' = store_rotated pool' (mark_rotated env pool rotated db1)"
    by (auto simp: rotate_rows_def bindr_Inr_iff)
  have "sound_db db1"
    using rows db(1) unfolding updateRelayRotatedOutbounds_def by (rule eachr_sound) (rule rotate_outbound_sound)
  then have m: "sound_db (mark_rotated env pool rotated db1)" by (rule mark_rotated_sound)
  show "sound_db db'"
    unfolding db' store_rotated_def by (intro sound_update(5) m pools.update_ok sound_tables(5) [OF m]) simp
qed

section \<open>Creating\<close>

text \<open>The configuration of a new client: one entry per protocol, naming the user.\<close>

definition names_user :: "string \<Rightarrow> gval \<Rightarrow> bool" where
  "names_user user v \<longleftrightarrow> (\<exists>field rest. v = GMap ((field, GStr user) # rest) \<and> field \<in> {''name'', ''username''}
     \<and> \<not> mhas rest ''name'' \<and> \<not> mhas rest ''username'')"

lemma names_user_pass: "names_user user (user_pass ''username'' user pass)" "names_user user (user_pass ''name'' user pass)"
  by (simp_all add: names_user_def user_pass_def)

lemma names_user_named: "\<not> mhas rest ''name'' \<Longrightarrow> \<not> mhas rest ''username'' \<Longrightarrow> names_user user (GMap ((''name'', GStr user) # rest))"
  by (simp add: names_user_def)

text \<open>The generator may write credentials into the item, nothing else.\<close>

definition only_credentials :: "relay_item \<Rightarrow> relay_item \<Rightarrow> bool" where
  "only_credentials item item' \<longleftrightarrow> (\<exists>p ip u. item' = item\<lparr>ri_Password := p, ri_InboundPassword := ip, ri_UUID := u\<rparr>)"

lemma only_credentials_intros:
  "only_credentials item item" "only_credentials item (item\<lparr>ri_UUID := u\<rparr>)"
  "only_credentials item (item\<lparr>ri_Password := p, ri_InboundPassword := ip\<rparr>)"
  unfolding only_credentials_def
  by (rule exI [of _ "ri_Password item"], rule exI [of _ "ri_InboundPassword item"], rule exI [of _ "ri_UUID item"], simp)
    (rule exI [of _ "ri_Password item"], rule exI [of _ "ri_InboundPassword item"], rule exI [of _ u], simp,
     rule exI [of _ p], rule exI [of _ ip], rule exI [of _ "ri_UUID item"], simp)

definition proper_config :: "relay_item \<Rightarrow> (gmap \<times> gmap \<times> relay_item) result \<Rightarrow> bool" where
  "proper_config item r \<longleftrightarrow> (case r of Inl _ \<Rightarrow> True | Inr (opts, cfg, item') \<Rightarrow>
     list_all (\<lambda>(_, v). names_user (ri_Username item) v) cfg \<and> \<not> mhas opts ''tag'' \<and> only_credentials item item')"

lemma proper_config_simps:
  "proper_config item (NewErrorf e)"
  "proper_config item (Inr (opts, cfg, item')) \<longleftrightarrow>
     list_all (\<lambda>(_, v). names_user (ri_Username item) v) cfg \<and> \<not> mhas opts ''tag'' \<and> only_credentials item item'"
  by (simp_all add: proper_config_def NewErrorf_def)

lemma relayProtocolConfig_proper: "proper_config item (relayProtocolConfig uuid bytes pos req item)"
  unfolding relayProtocolConfig_def Let_def
  by (simp add: proper_config_simps names_user_pass names_user_named only_credentials_intros split del: if_split split: if_split)

lemma relayProtocolConfig_Inr:
  assumes "relayProtocolConfig uuid bytes pos req item = Inr (opts, cfg, item')"
  shows "list_all (\<lambda>(_, v). names_user (ri_Username item) v) cfg" "\<not> mhas opts ''tag''" "only_credentials item item'"
  using relayProtocolConfig_proper [of item uuid bytes pos req] by (simp_all add: assms proper_config_simps)

lemma names_user_norm:
  assumes "names_user user v"
  shows "\<exists>m. json_norm v = GMap m \<and> identity_config user (GMap m) = GMap m"
proof -
  obtain field rest where v: "v = GMap ((field, GStr user) # rest)" "field = ''name'' \<or> field = ''username''"
    and none: "\<not> mhas rest ''name''" "\<not> mhas rest ''username''" using assms by (auto simp: names_user_def)
  let ?m = "(field, GStr user) # map (map_prod id json_norm) rest"
  have "mput ?m field (GStr user) = ?m" by (simp add: mput_def)
  moreover have "\<not> mhas (map (map_prod id json_norm) rest) ''name''" using none by (simp add: mhas_map_prod)
  ultimately have "identity_config user (GMap ?m) = GMap ?m" using v(2) by (auto simp: identity_config_def)
  then show ?thesis using v(1) by simp
qed

lemma new_client_clean:
  assumes "list_all (\<lambda>(_, v). names_user name v) cfg"
  shows "clean_client (new_client env name cfg k links)"
proof -
  let ?cfg = "map (map_prod id json_norm) cfg"
  have entries: "\<exists>m. v = GMap m \<and> identity_config name v = v" if "(p, v) \<in> set ?cfg" for p v
    using that assms names_user_norm by (fastforce simp: list_all_iff)
  have "list_all (\<lambda>(_, v). case v of GMap _ \<Rightarrow> True | GNil \<Rightarrow> True | _ \<Rightarrow> False) ?cfg"
    unfolding list_all_iff using entries by (fastforce split: gval.split)
  moreover have "map (map_prod id (identity_config name)) ?cfg = ?cfg"
    by (rule map_idI) (use entries in fastforce)
  ultimately have "setConfigIdentity (new_client env name cfg k links) = Inr (new_client env name cfg k links)"
    by (simp add: setConfigIdentity_def new_client_def mustJSON_def del: map_map)
  then show ?thesis by (simp add: clean_client_def new_client_def mustJSON_def ids_of_def)
qed

lemma clean_client_key: "clean_client (with_cl_Id k c) = clean_client c"
proof -
  have key: "setConfigIdentity (with_cl_Id k c) = map_sum id (with_cl_Id k) (setConfigIdentity c)"
    by (auto simp: setConfigIdentity_def split: raw.split gval.split)
  show ?thesis
  proof (cases "setConfigIdentity c")
    case (Inr x)
    then have "cl_Id x = cl_Id c" by (auto simp: setConfigIdentity_def split: if_splits raw.splits gval.splits)
    then have "with_cl_Id k x = with_cl_Id k c \<longleftrightarrow> x = c" by (cases x; cases c) simp
    then show ?thesis using key Inr by (simp add: clean_client_def)
  qed (use key in \<open>simp add: clean_client_def\<close>)
qed

lemma save_client_sound:
  assumes "clean_client c" "sound_db db"
  shows "sound_db (save_client c db)"
proof -
  have "sound_clients (save_row cl_Id (\<lambda>k. with_cl_Id k) c (db_Clients db))"
    using sound_tables(4) [OF assms(2)] assms(1)
    by (auto simp: sound_clients_def keyed_def clean_client_key intro: clients.save_ok clients.good_saved)
  then show ?thesis unfolding save_client_def by (rule sound_update(4) [OF assms(2)])
qed

lemma store_outbound_sound:
  assumes "store_outbound r db = Inr db'" "clean_outbound r" "sound_db db"
  shows "sound_db db'"
proof -
  obtain r' t where t: "save_tagged out_Id (\<lambda>k. with_out_Id k) out_Tag r (db_Outbounds db) = Inr (r', t)" and db': "db' = db\<lparr>db_Outbounds := t\<rparr>"
    using assms(1) by (auto simp: store_outbound_def map_sum_Inr_iff)
  from outbounds.sound_saved [OF sound_tables(2) [OF assms(3)] t] assms(2) show ?thesis
    unfolding db' by (intro sound_update assms(3)) (simp add: keyed_def clean_outbound_def)
qed

lemma store_inbound_sound:
  assumes "store_inbound r db = Inr (r', db')" "clean_inbound r" "sound_db db"
  shows "sound_db db'"
proof -
  obtain row t where t: "save_tagged in_Id (\<lambda>k. with_in_Id k) in_Tag (r\<lparr>in_Tls := None\<rparr>) (db_Inbounds db) = Inr (row, t)" and db': "db' = db\<lparr>db_Inbounds := t\<rparr>"
    using assms(1) by (auto simp: store_inbound_def bindr_Inr_iff)
  from inbounds.sound_saved [OF sound_tables(1) [OF assms(3)] t] assms(2) show ?thesis
    unfolding db' by (intro sound_update assms(3)) (simp add: keyed_def clean_inbound_def)
qed

lemma clean_outbound_new: "\<not> mhas opts ''tag'' \<Longrightarrow> tag \<noteq> [] \<Longrightarrow> clean_outbound (new_outbound ty tag opts)"
  by (simp add: clean_outbound_def new_outbound_def clean_put)

lemma relay_outbounds_clean: "list_all clean_outbound (fst (relay_outbounds env req i it))"
  by (simp add: relay_outbounds_def Let_def clean_outbound_new upstream_options_def relayDirectOutboundOptions_def)

lemma relay_inbound_clean: "\<not> mhas opts ''tag'' \<Longrightarrow> clean_inbound (relay_inbound env req tls i port opts)"
  by (simp add: clean_inbound_def relay_inbound_def Let_def clean_put relayInboundOptions_def mhas_mmerge)

lemma relay_outbounds_item: "ri_Username (snd (relay_outbounds env req i it)) = ri_Username it"
  by (simp add: relay_outbounds_def Let_def)

lemma create_item_sound:
  assumes "create_item env req tls i it db = Inr (it', db')" "sound_db db"
  shows "sound_db db'"
proof -
  obtain opts cfg it1 inb db1 db2 links where
    cfg: "relayProtocolConfig (re_Uuid env i) (re_Bytes env) (64 * i) req it = Inr (opts, cfg, it1)"
    and inb: "store_inbound (relay_inbound env req tls i (ri_ListenPort it1) opts) db = Inr (inb, db1)"
    and outs: "eachr store_outbound (fst (relay_outbounds env req i (it1\<lparr>ri_InboundID := in_Id inb, ri_InboundTag := in_Tag inb\<rparr>))) db1 = Inr db2"
    and db': "db' = save_client (new_client env (ri_Username (snd (relay_outbounds env req i (it1\<lparr>ri_InboundID := in_Id inb, ri_InboundTag := in_Tag inb\<rparr>))))
      cfg (in_Id inb) links) db2"
    using assms(1) by (auto simp: create_item_def bindr_Inr_iff Let_def split_beta)
  have user: "ri_Username it1 = ri_Username it" using relayProtocolConfig_Inr(3) [OF cfg] by (auto simp: only_credentials_def)
  have "sound_db db1"
    by (rule store_inbound_sound [OF inb relay_inbound_clean [OF relayProtocolConfig_Inr(2) [OF cfg]] assms(2)])
  then have "sound_db db2"
    by (rule eachr_sound [OF outs]) (use relay_outbounds_clean in \<open>auto simp: list_all_iff intro: store_outbound_sound\<close>)
  then show ?thesis
    unfolding db' relay_outbounds_item
    by (intro save_client_sound new_client_clean) (use relayProtocolConfig_Inr(1) [OF cfg] user in simp_all)
qed

lemma create_items_sound: "create_items env req tls i its db = Inr (its', db') \<Longrightarrow> sound_db db \<Longrightarrow> sound_db db'"
proof (induction its arbitrary: i db its')
  case (Cons it its)
  then obtain it1 db1 its1 where "create_item env req tls i it db = Inr (it1, db1)" "create_items env req tls (Suc i) its db1 = Inr (its1, db')"
    by (auto simp: bindr_Inr_iff)
  with Cons show ?case using create_item_sound by blast
qed simp

lemma create_rows_sound: "keeps_sound (create_rows env req its)"
  unfolding keeps_sound_def
proof (intro allI impI)
  fix db x db'
  assume db: "sound_db db" "create_rows env req its db = Inr (x, db')"
  then obtain req' tls port its' db1 db3 k where
    items: "create_items env req' tls 0 (number_ports port its) db = Inr (its', db1)"
    and links: "ensureRelayRefreshLinksTx env k its' (db1\<lparr>db_Pools := save_row rp_Id (\<lambda>k. with_rp_Id k) (new_pool env req' its') (db_Pools db1)\<rparr>) = Inr db3"
    and rules: "update_stored_rules its' (rq_DomainStrategy req' = relayDomainStrategyIPv6Only) False db3 = Inr db'"
    by (auto simp: create_rows_def bindr_Inr_iff Let_def)
  have db1: "sound_db db1" by (rule create_items_sound [OF items db(1)])
  have "sound_db (db1\<lparr>db_Pools := save_row rp_Id (\<lambda>k. with_rp_Id k) (new_pool env req' its') (db_Pools db1)\<rparr>)"
    by (intro sound_update(5) db1 pools.save_ok sound_tables(5) [OF db1])
  with ensureTx_sound [OF links] update_stored_rules_sound [OF rules] show "sound_db db'" by blast
qed

end
