(* ===== verification/Panel_Steps.thy ===== *)
theory Panel_Steps
  imports Relay_Sound
begin

text \<open>
  The panel as a machine: a step is a save, an operation on a relay pool, or a command to the core.
  Whatever the steps do, and whether they succeed or fail, every state that can be reached has
  well-formed tables and a core that runs what the database says.
\<close>

section \<open>Operations that keep the panel fine\<close>

definition fine_panel :: "panel \<Rightarrow> bool" where
  "fine_panel p \<longleftrightarrow> fine (pn_Db p) (pn_Core p) \<and> \<not> pn_Busy p"

definition stays :: "'a relay_op \<Rightarrow> bool" where
  "stays m \<longleftrightarrow> (\<forall>s. fine_panel (rs_Panel s) \<longrightarrow> fine_panel (rs_Panel (snd (m s))))"

definition panel_stays :: "'a panel_op \<Rightarrow> bool" where
  "panel_stays m \<longleftrightarrow> (\<forall>p. fine_panel p \<longrightarrow> fine_panel (snd (m p)))"

named_theorems staying \<open>rules for stays\<close>

lemma staysD: "stays m \<Longrightarrow> m s = (r, s') \<Longrightarrow> fine_panel (rs_Panel s) \<Longrightarrow> fine_panel (rs_Panel s')"
  unfolding stays_def by (metis snd_conv)

lemma panel_staysD: "panel_stays m \<Longrightarrow> fine_panel p \<Longrightarrow> fine_panel (snd (m p))"
  by (simp add: panel_stays_def)

lemma log_panel [simp]: "rs_Panel (log_commands cs s) = rs_Panel s" "rs_Panel (delete_addresses env its s) = rs_Panel s"
  by (simp_all add: log_commands_def delete_addresses_def)

lemma keeps_in_step_lift [staying]: "stays (lift_svc r)"
  by (simp add: stays_def lift_svc_def)

lemma stays_quiet [staying]: "(\<And>s. rs_Panel (f s) = rs_Panel s) \<Longrightarrow> stays (\<lambda>s. (r s, f s))"
  by (simp add: stays_def)

lemma keeps_in_step_bind [staying]: "stays m \<Longrightarrow> (\<And>x. stays (f x)) \<Longrightarrow> stays (bind_svc m f)"
  by (simp add: stays_def bind_svc_snd split: sum.split)

lemma stays_on_panel [staying]: "panel_stays m \<Longrightarrow> stays (on_panel m)"
  by (simp add: stays_def panel_stays_def on_panel_def split: prod.split) (metis snd_conv)

lemma stays_cleaning [staying]: "stays m \<Longrightarrow> stays (cleaning_up env added m)"
  unfolding stays_def cleaning_up_def by (simp split: prod.split sum.split) (metis snd_conv)

lemma transaction_keeps:
  assumes "keeps_sound body" "fine (pn_Db p) (pn_Core p)"
  shows "fine (pn_Db (snd (relay_transaction env msg body ch p))) (pn_Core (snd (relay_transaction env msg body ch p)))
    \<and> pn_Busy (snd (relay_transaction env msg body ch p)) = pn_Busy p"
proof -
  obtain r p' where run: "relay_transaction env msg body ch p = (r, p')" by fastforce
  have "pn_Busy p' = pn_Busy p"
    using relay_transaction_outcome [OF run] by (cases r) (auto simp: rolled_back_def committed_def only_core_def)
  then show ?thesis using relay_transaction_fine [OF run assms(2,1)] by (simp add: run)
qed

lemma panel_stays_transaction [staying]: "keeps_sound body \<Longrightarrow> panel_stays (relay_transaction env msg body ch)"
  by (simp add: panel_stays_def fine_panel_def transaction_keeps)

lemma panel_stays_guard [staying]: "keeps_sound body \<Longrightarrow> panel_stays (rotation_guard (relay_transaction env msg body ch))"
  using transaction_keeps [of body "p\<lparr>pn_Busy := True\<rparr>" env msg ch for p]
  by (simp add: panel_stays_def fine_panel_def rotation_guard_def Let_def split_beta)

lemma panel_stays_settles: "settles in_line m \<Longrightarrow> panel_stays m"
  unfolding panel_stays_def
proof (intro allI impI)
  fix p :: panel
  assume m: "settles in_line m" and p: "fine_panel p"
  then have "db_clean (pn_Db p)" "in_line p" by (simp_all add: fine_panel_def fine_line in_line_def)
  then have "same_data p (snd (m p))" "in_line (snd (m p))" using settlesD [OF m] by blast+
  then show "fine_panel (snd (m p))" using p unfolding fine_panel_def fine_line in_line_def same_data_def by metis
qed

lemma panel_stays_start [staying]: "panel_stays (start_after env msg)"
proof -
  have "panel_stays (StartCore (re_Config env))" by (rule panel_stays_settles [OF settles_start])
  then show ?thesis unfolding panel_stays_def start_after_def by (simp split: prod.split sum.split) (metis snd_conv)
qed

section \<open>The relay operations\<close>

lemma stays_create_commit [staying]: "stays (create_commit env req_json actor req its)"
  unfolding create_commit_def by (intro staying create_rows_sound) (auto split: prod.split intro!: staying)

lemma create_added_stays: "stays (create_added env req_json actor req r added)"
proof -
  have "stays (bind_svc (cleaning_up env added (bind_svc (lift_svc r) (create_commit env req_json actor req))) (\<lambda>pool.
      bind_svc (on_panel (start_after env msg)) (\<lambda>_ s. (Inr (populated (pn_Db (rs_Panel s)) pool), s))))" for msg
    by (intro staying) simp_all
  then show ?thesis unfolding stays_def create_added_def by simp
qed

lemma CreateRelay_stays:
  assumes "CreateRelay env req_json req actor host s = Some (r, s')" "fine_panel (rs_Panel s)"
  shows "fine_panel (rs_Panel s')"
proof (cases "s' = s")
  case False
  then obtain req' its added where "create_added env req_json actor req' its added s = (r, s')"
    using assms(1) by (auto simp: CreateRelay_def split: sum.splits option.splits prod.splits)
  then show ?thesis using staysD [OF create_added_stays _ assms(2)] by blast
qed (use assms in simp)

lemma DeleteRelay_stays: "stays (DeleteRelay env k actor)"
  unfolding stays_def
proof (intro allI impI)
  fix s :: relay_state
  assume s: "fine_panel (rs_Panel s)"
  have body: "stays (bind_svc (on_panel (relay_transaction env msg (delete_pool_rows pool its) ch)) (\<lambda>_ s.
      (Inr (), delete_addresses env (filter ri_AddedByUs its) s)))" for msg pool its and ch :: "unit \<Rightarrow> change"
    by (intro staying delete_pool_rows_sound) simp
  show "fine_panel (rs_Panel (snd (DeleteRelay env k actor s)))"
    using body [unfolded stays_def] s by (auto simp: DeleteRelay_def not_found_def split: option.split)
qed

lemma rotate_selected_stays: "stays (rotate_selected env tag actor pool its selected rotated)"
proof -
  have body: "stays (bind_svc (cleaning_up env added (bind_svc (lift_svc r) (\<lambda>_. rotate_checked env tag actor pool rotated new))) (\<lambda>pool' s.
      (Inr (rotation_of selected rotated pool'), delete_addresses env (filter ri_AddedByUs (map ((!) its) selected)) s)))" for added new and r :: "unit result"
    unfolding rotate_checked_def by (intro staying rotate_rows_sound) simp
  show ?thesis
    unfolding stays_def rotate_selected_def Let_def split_beta using body [unfolded stays_def] by simp
qed

lemma rotate_stays: "stays (rotateRelayItemsLocked env k tag actor)"
  using rotate_selected_stays unfolding stays_def
  by (auto simp: rotateRelayItemsLocked_def not_found_def split: option.split list.split sum.split)

lemma by_token_stays: "stays (RotateRelayItemByToken env token actor)"
proof -
  have "stays (bind_svc (rotateRelayItemsLocked env k tag actor) (\<lambda>r. lift_svc (Inr (r\<lparr>rr_RefreshToken := token'\<rparr>))))" for k tag token'
    by (intro staying rotate_stays)
  then show ?thesis unfolding stays_def by (auto simp: RotateRelayItemByToken_def Let_def split: option.split)
qed

section \<open>Operations that write the database alone\<close>

lemma ensure_link_only:
  "ensure_link env k it db = Inr db' \<Longrightarrow> \<exists>t. db' = db\<lparr>db_Links := t\<rparr>"
  by (auto simp: ensure_link_def create_link_def bindr_Inr_iff split: if_splits intro: exI [of _ "db_Links db"])

lemma ensureTx_only: "ensureRelayRefreshLinksTx env k its db = Inr db' \<Longrightarrow> \<exists>t. db' = db\<lparr>db_Links := t\<rparr>"
  unfolding ensureRelayRefreshLinksTx_def
  by (erule eachr_invariant [where P = "\<lambda>x. \<exists>t. x = db\<lparr>db_Links := t\<rparr>"]) (auto dest!: ensure_link_only intro: exI [of _ "db_Links db"])

lemma ensure_pools_sound:
  assumes "ensure_pools env pools (existing_links pools db) db = Inr db'" "sound_db db"
  shows "sound_db db'" "\<exists>t. db' = db\<lparr>db_Links := t\<rparr>"
proof -
  have "table_ok rl_Id (db_Links db)" using sound_tables(3) [OF assms(2)] by (simp add: sound_table_def)
  then have each: "eachr (ensure_pool_links env) pools db = Inr db'"
    using assms(1) ensure_pools_reference [OF _ existing_links_keys order_refl] by metis
  then show "sound_db db'" using assms(2)
    by (rule eachr_sound) (auto simp: ensure_pool_links_def items_error_def intro: ensureTx_sound split: if_splits option.splits)
  show "\<exists>t. db' = db\<lparr>db_Links := t\<rparr>"
    using each by (rule eachr_invariant [where P = "\<lambda>x. \<exists>t. x = db\<lparr>db_Links := t\<rparr>"])
      (auto simp: ensure_pool_links_def items_error_def dest!: ensureTx_only split: if_splits option.splits intro: exI [of _ "db_Links db"])
qed

text \<open>Neither links nor pools show in the core.\<close>

lemma agrees_side [simp]:
  "agrees (db\<lparr>db_Links := t\<rparr>) core = agrees db core" "agrees (db\<lparr>db_Pools := u\<rparr>) core = agrees db core"
proof -
  have i: "inbound_config (db\<lparr>db_Links := t\<rparr>) = inbound_config db" "inbound_config (db\<lparr>db_Pools := u\<rparr>) = inbound_config db"
    by (auto simp: fun_eq_iff inbound_config_def preload_inbound_def addUsers_def put_users_def fetchUsers_def
        cong: if_cong option.case_cong)
  have s: "service_config (db\<lparr>db_Links := t\<rparr>) = service_config db" "service_config (db\<lparr>db_Pools := u\<rparr>) = service_config db"
    by (auto simp: fun_eq_iff service_config_def preload_service_def)
  have "expected (db\<lparr>db_Links := t\<rparr>) k = expected db k" "expected (db\<lparr>db_Pools := u\<rparr>) k = expected db k" for k
    by (cases k; simp add: expected_def i s)+
  then show "agrees (db\<lparr>db_Links := t\<rparr>) core = agrees db core" "agrees (db\<lparr>db_Pools := u\<rparr>) core = agrees db core"
    by (simp_all add: agrees_def)
qed

lemma fine_side:
  assumes "fine db core"
  shows "table_ok rp_Id u \<Longrightarrow> fine (db\<lparr>db_Pools := u\<rparr>) core" "sound_links t \<Longrightarrow> fine (db\<lparr>db_Links := t\<rparr>) core"
    "fine (add_change c db) core"
  using assms side_fine [OF side_add_change assms] by (simp_all add: fine_sound sound_update)

lemma panel_stays_links: "panel_stays (ensureRelayRefreshLinks env pools)"
  unfolding panel_stays_def
proof (intro allI impI)
  fix p :: panel
  assume p: "fine_panel p"
  show "fine_panel (snd (ensureRelayRefreshLinks env pools p))"
  proof (cases "ensure_pools env pools (existing_links pools (pn_Db p)) (pn_Db p)")
    case (Inr db')
    have "sound_db (pn_Db p)" using p by (simp add: fine_panel_def fine_sound)
    note only = ensure_pools_sound [OF Inr this]
    obtain t where t: "db' = (pn_Db p)\<lparr>db_Links := t\<rparr>" using only(2) ..
    have "fine db' (pn_Core p)"
      using fine_side(2) [of "pn_Db p" "pn_Core p" t] sound_tables(3) [OF only(1)] p by (simp add: t fine_panel_def)
    then show ?thesis using Inr p by (simp add: ensureRelayRefreshLinks_def fine_panel_def)
  qed (use p in \<open>simp add: ensureRelayRefreshLinks_def\<close>)
qed

lemma panel_stays_data: "panel_stays (GetRelayData env)"
  using panel_stays_links [of env pools for pools]
  unfolding panel_stays_def GetRelayData_def Let_def by (simp add: bind_svc_snd split: sum.split)

lemma panel_stays_schedule: "panel_stays (SetRelayRotation env k enabled interval actor)"
  unfolding panel_stays_def
proof (intro allI impI)
  fix p :: panel
  assume p: "fine_panel p"
  let ?set = "\<lambda>n pool. (pn_Db p)\<lparr>db_Pools := update_rows (\<lambda>r. rp_Id r = rp_Id pool) (schedule_pool env enabled n) (db_Pools (pn_Db p))\<rparr>"
  have "table_ok rp_Id (db_Pools (pn_Db p))" using p by (simp add: fine_panel_def fine_sound sound_tables)
  then have "fine (?set n pool) (pn_Core p)" for n pool
    using p by (intro fine_side(1) pools.update_ok) (simp_all add: fine_panel_def schedule_pool_def)
  from fine_side(3) [OF this] show "fine_panel (snd (SetRelayRotation env k enabled interval actor p))"
    using p by (auto simp: SetRelayRotation_def Let_def not_found_def fine_panel_def split: option.split sum.split)
qed

lemma settles_stop: "settles in_line (StopCore env)"
proof -
  have "settles in_line (on_core (core_Stop cv))" for cv
    using core_stopped by (auto simp: settles_def on_core_def same_data_def in_line_def agrees_def split: prod.split) (metis snd_conv)+
  then show ?thesis unfolding StopCore_bind stop_xray_def by (intro settling)
qed

lemma settles_restart_core: "settles in_line (RestartCore env)"
proof -
  have "settles in_line (\<lambda>p. StartCore env (p\<lparr>pn_LastStartFail := None\<rparr>))"
    using settles_start [of env] by (auto simp: settles_def same_data_def)
  then show ?thesis unfolding RestartCore_def by (intro settles_bind settles_stop)
qed

section \<open>The machine\<close>

inductive panel_step :: "relay_state \<Rightarrow> relay_state \<Rightarrow> bool" where
  save: "env_ok (cf_Svc env) \<Longrightarrow> proper_save (pn_Db (rs_Panel s)) obj act data users \<Longrightarrow>
    saveLocked env obj act data users login host (rs_Panel s) = (r, p') \<Longrightarrow> panel_step s (s\<lparr>rs_Panel := p'\<rparr>)"
| create: "CreateRelay env req_json req actor host s = Some (pool, s') \<Longrightarrow> panel_step s s'"
| delete: "DeleteRelay env k actor s = (deleted, s') \<Longrightarrow> panel_step s s'"
| rotate: "RotateRelay env k actor s = (rotation, s') \<Longrightarrow> panel_step s s'"
| rotate_item: "RotateRelayItemByToken env token actor s = (rotation, s') \<Longrightarrow> panel_step s s'"
| schedule: "SetRelayRotation env k enabled interval actor (rs_Panel s) = (scheduled, p') \<Longrightarrow> panel_step s (s\<lparr>rs_Panel := p'\<rparr>)"
| list_pools: "GetRelayData env (rs_Panel s) = (listed, p') \<Longrightarrow> panel_step s (s\<lparr>rs_Panel := p'\<rparr>)"
| start: "StartCore cenv (rs_Panel s) = (started, p') \<Longrightarrow> panel_step s (s\<lparr>rs_Panel := p'\<rparr>)"
| stop: "StopCore cenv (rs_Panel s) = (stopped, p') \<Longrightarrow> panel_step s (s\<lparr>rs_Panel := p'\<rparr>)"
| restart: "RestartCore cenv (rs_Panel s) = (restarted, p') \<Longrightarrow> panel_step s (s\<lparr>rs_Panel := p'\<rparr>)"

lemma panel_stays_after: "panel_stays m \<Longrightarrow> fine_panel (rs_Panel s) \<Longrightarrow> m (rs_Panel s) = (r, p') \<Longrightarrow> fine_panel (rs_Panel (s\<lparr>rs_Panel := p'\<rparr>))"
  using panel_staysD [of m "rs_Panel s"] by simp

lemma save_stays:
  assumes "fine_panel p" "env_ok (cf_Svc env)" "proper_save (pn_Db p) obj act data users"
    and "saveLocked env obj act data users login host p = (r, p')"
  shows "fine_panel p'"
  using saveLocked_fine [of p env obj act data users login host r p'] assms by (simp add: fine_panel_def)

lemma panel_step_fine: "panel_step s s' \<Longrightarrow> fine_panel (rs_Panel s) \<Longrightarrow> fine_panel (rs_Panel s')"
proof (induction rule: panel_step.induct)
  case (save env s obj act data users login host r p')
  then show ?case using save_stays by simp
next
  case (create env req_json req actor host s pool s')
  then show ?case by (rule CreateRelay_stays)
next
  case (delete env k actor s deleted s')
  then show ?case using staysD [OF DeleteRelay_stays] by blast
next
  case (rotate env k actor s r s')
  then show ?case using staysD [OF rotate_stays] unfolding RotateRelay_def by blast
next
  case (rotate_item env token actor s r s')
  then show ?case using staysD [OF by_token_stays] by blast
qed (simp_all only: panel_stays_after [OF panel_stays_schedule] panel_stays_after [OF panel_stays_data]
  panel_stays_after [OF panel_stays_settles [OF settles_start]] panel_stays_after [OF panel_stays_settles [OF settles_stop]]
  panel_stays_after [OF panel_stays_settles [OF settles_restart_core]])

text \<open>
  C1. Start from a state in which the tables are well formed and the core agrees with them. After
  any sequence of saves, relay operations and core commands, failed ones included, the tables are
  well formed, no core operation is left marked as running, and the core runs what a restart from
  the database would give, or does not run.
\<close>

theorem reachable_in_step:
  assumes "panel_step\<^sup>*\<^sup>* s s'" "fine_panel (rs_Panel s)"
  shows "fine_panel (rs_Panel s')"
  using assms by (induction rule: rtranclp_induct) (auto intro: panel_step_fine)

text \<open>A client is saved while the core runs, then the core is restarted.\<close>

theorem reachable_in_step_witness:
  "\<exists>p1 r p2. saveLocked example_config ''clients'' ''new'' reload_client [] ''admin'' ''example.com'' example_panel = (Inr [''clients'', ''inbounds''], p1)
     \<and> RestartCore example_config p1 = (r, p2) \<and> fine_panel p2"
proof -
  let ?s = "\<lparr>rs_Panel = example_panel, rs_Log = []\<rparr>"
  obtain p1 where save: "saveLocked example_config ''clients'' ''new'' reload_client [] ''admin'' ''example.com'' example_panel = (Inr [''clients'', ''inbounds''], p1)"
    using example_save by (metis prod.collapse)
  obtain r p2 where restart: "RestartCore example_config p1 = (r, p2)" by fastforce
  have "panel_step ?s (?s\<lparr>rs_Panel := p1\<rparr>)"
    by (rule panel_step.save [OF example_fine(3)]) (use example_fine(4) save in simp_all)
  moreover have "panel_step (?s\<lparr>rs_Panel := p1\<rparr>) (?s\<lparr>rs_Panel := p1, rs_Panel := p2\<rparr>)"
    by (rule panel_step.restart) (use restart in simp)
  ultimately have "panel_step\<^sup>*\<^sup>* ?s (?s\<lparr>rs_Panel := p1, rs_Panel := p2\<rparr>)" by (meson converse_rtranclp_into_rtranclp r_into_rtranclp)
  from reachable_in_step [OF this] save restart example_fine(1,2) show ?thesis by (simp add: fine_panel_def)
qed

end
