(* ===== verification/Relay_Outcomes.thy ===== *)
theory Relay_Outcomes
  imports Relay_Agreement
begin

text \<open>
  What the relay operations leave behind, on the machine and in the database: a failed operation
  takes the addresses it added away again and commits nothing; a rotation changes the addresses of
  the selected items and what is bound to them, nothing else.
\<close>

section \<open>Addresses that can be deleted\<close>

definition deletable :: "relay_env \<Rightarrow> relay_item \<Rightarrow> bool" where
  "deletable env it \<longleftrightarrow> re_Linux env \<and> re_Root env \<and> ri_Interface it \<noteq> [] \<and> ri_IPv6 it \<noteq> [] \<and> ri_AddedByUs it"

definition deletions_work :: "relay_env \<Rightarrow> bool" where
  "deletions_work env \<longleftrightarrow> (\<forall>iface ip n. re_IpDel env iface ip n = None)"

lemma deletable_deleted:
  assumes "deletions_work env" "list_all (deletable env) added"
  shows "delete_addresses env (filter ri_AddedByUs added) s = log_commands (map delete_command added) s"
proof -
  have "filter (\<lambda>it. deleteRelayAddress env (ri_Interface it) (ri_IPv6 it) (ri_Prefix it) = Inr True) (filter ri_AddedByUs added) = added"
    using assms by (induction added) (simp_all add: deletable_def deletions_work_def deleteRelayAddress_def)
  then show ?thesis by (simp add: delete_addresses_def)
qed

lemma addRelayAddress_Inr: "addRelayAddress env iface ip n = Inr u \<Longrightarrow> re_Linux env \<and> re_Root env \<and> iface \<noteq> []"
  by (auto simp: addRelayAddress_def split: if_splits)

lemma add_addresses_deletable: "list_all (deletable env) (snd (add_addresses env allowed existing its))"
proof (induction its arbitrary: existing)
  case (Cons it its)
  then show ?case
    using addRelayAddress_Inr [of env "ri_Interface it" "ri_IPv6 it" "ri_Prefix it"]
    by (auto simp: Let_def split_beta deletable_def split: sum.split)
qed simp

text \<open>The text of an IPv6 address is not empty.\<close>

lemma hex_str_ne: "hex_str n \<noteq> []"
  by (subst hex_str.simps) simp

lemma v6_str_ne: "v6_str w \<noteq> []"
proof -
  have "Join (map hex_str (v6_group_list w)) '':'' \<noteq> []"
    by (simp add: v6_group_list_def hex_str_ne upt_rec)
  then show ?thesis by (simp add: v6_str_def Let_def split: prod.split)
qed

lemma rotated_deletable:
  assumes "list_all2 rotated_item olds its"
  shows "list_all (deletable env) (snd (add_all env its))"
  using assms
proof (induction rule: list_all2_induct)
  case (Cons old olds it its)
  obtain b where "ri_IPv6 it = addr_String b" "Is6 b" "ri_AddedByUs it" using Cons.hyps(1) by (auto simp: rotated_item_def)
  then have "ri_IPv6 it \<noteq> []" "ri_AddedByUs it" by (auto simp: addr_String_def v6_str_ne Is6_def split: addr.splits)
  then show ?case using Cons.IH addRelayAddress_Inr [of env "ri_Interface it" "ri_IPv6 it" "ri_Prefix it"]
    by (auto simp: deletable_def split: sum.split)
qed simp

section \<open>Failures\<close>

text \<open>The address commands cancel; the panel has lost nothing, its core may have been restarted.\<close>

definition undone :: "relay_state \<Rightarrow> relay_state \<Rightarrow> bool" where
  "undone s s' \<longleftrightarrow> only_core (rs_Panel s) (rs_Panel s')
     \<and> (\<exists>added. rs_Log s' = rs_Log s @ map add_command added @ map delete_command added)"

lemma undone_refl [simp]: "undone s s"
  by (auto simp: undone_def intro: exI [of _ "[]"])

text \<open>An operation that on failure changes the core alone and runs no command.\<close>

definition clean_failure :: "'a relay_op \<Rightarrow> bool" where
  "clean_failure m \<longleftrightarrow> (\<forall>s e s'. m s = (Inl e, s') \<longrightarrow> only_core (rs_Panel s) (rs_Panel s') \<and> rs_Log s' = rs_Log s)"

lemma clean_failure_lift: "clean_failure (lift_svc r)"
  by (auto simp: clean_failure_def lift_svc_def)

lemma clean_failure_then:
  assumes "clean_failure m" "\<And>x. clean_failure (f x)" "\<And>s x s'. m s = (Inr x, s') \<Longrightarrow> s' = s"
  shows "clean_failure (bind_svc m f)"
  using assms unfolding clean_failure_def bind_svc_def by (fastforce split: prod.splits sum.splits)

lemma clean_failure_last:
  assumes "clean_failure m" "\<And>x s. \<not> isl (fst (f x s))"
  shows "clean_failure (bind_svc m f)"
  unfolding clean_failure_def
proof (intro allI impI)
  fix s e s'
  assume "bind_svc m f s = (Inl e, s')"
  then have "m s = (Inl e, s')" using assms(2) by (auto simp: bind_svc_def isl_def split: prod.splits sum.splits) (metis fst_conv)
  then show "only_core (rs_Panel s) (rs_Panel s') \<and> rs_Log s' = rs_Log s" using assms(1) unfolding clean_failure_def by blast
qed

lemma transaction_failure:
  "relay_transaction env msg body ch p = (Inl e, p') \<Longrightarrow> only_core p p'"
  using relay_transaction_outcome [of env msg body ch p "Inl e" p'] by (simp add: rolled_back_def)

lemma clean_failure_transaction: "clean_failure (on_panel (relay_transaction env msg body ch))"
  using transaction_failure by (fastforce simp: clean_failure_def on_panel_def split: prod.splits)

lemma clean_failure_guard: "clean_failure (on_panel (rotation_guard (relay_transaction env msg body ch)))"
  unfolding clean_failure_def
proof (intro allI impI)
  fix s e s'
  assume run: "on_panel (rotation_guard (relay_transaction env msg body ch)) s = (Inl e, s')"
  show "only_core (rs_Panel s) (rs_Panel s') \<and> rs_Log s' = rs_Log s"
  proof (cases "pn_Busy (rs_Panel s)")
    case True
    then show ?thesis using run by (auto simp: on_panel_def rotation_guard_def)
  next
    case False
    obtain r p1 where tx: "relay_transaction env msg body ch ((rs_Panel s)\<lparr>pn_Busy := True\<rparr>) = (r, p1)" by fastforce
    then have r: "r = Inl e" and s': "s' = s\<lparr>rs_Panel := p1\<lparr>pn_Busy := False\<rparr>\<rparr>"
      using run False by (auto simp: on_panel_def rotation_guard_def)
    obtain core where "p1 = (rs_Panel s)\<lparr>pn_Busy := True, pn_Core := core\<rparr>"
      using transaction_failure [OF tx [unfolded r]] by (auto simp: only_core_def)
    then show ?thesis using False s' by (cases s; cases "rs_Panel s") (auto simp: only_core_def)
  qed
qed

text \<open>With the clean-up around it, the additions before it are undone.\<close>

lemma cleaning_undone:
  assumes "cleaning_up env added m (log_commands (map add_command added) s) = (Inl e, s')"
    and "clean_failure m" "deletions_work env" "list_all (deletable env) added"
  shows "undone s s'"
proof -
  let ?s = "log_commands (map add_command added) s"
  obtain s1 where m: "m ?s = (Inl e, s1)" and s': "s' = delete_addresses env (filter ri_AddedByUs added) s1"
    using assms(1) by (auto simp: cleaning_up_def split: prod.splits sum.splits)
  have "only_core (rs_Panel ?s) (rs_Panel s1)" "rs_Log s1 = rs_Log ?s" using assms(2) m unfolding clean_failure_def by blast+
  then show ?thesis
    using deletable_deleted [OF assms(3,4), of s1] by (auto simp: s' undone_def log_commands_def)
qed

lemma clean_failure_commit: "clean_failure (create_commit env req_json actor req its)"
  unfolding create_commit_def
  by (intro clean_failure_then [OF clean_failure_lift] clean_failure_last [OF clean_failure_transaction])
    (auto simp: lift_svc_def split: prod.split)

lemma clean_failure_rotate: "clean_failure (rotate_checked env tag actor pool rotated its)"
  unfolding rotate_checked_def
  by (intro clean_failure_then [OF clean_failure_lift] clean_failure_guard) (auto simp: lift_svc_def)

text \<open>A creation can also fail after its commit, when the core does not start.\<close>

definition saved_not_started :: "string \<Rightarrow> bool" where
  "saved_not_started e \<longleftrightarrow> HasPrefix e ''relay saved, but core update failed: ''"

lemma create_added_failure:
  assumes "create_added env req_json actor req r added s = (Inl e, s')" "deletions_work env" "list_all (deletable env) added"
  shows "undone s s' \<or> saved_not_started e"
proof -
  let ?m = "bind_svc (lift_svc r) (create_commit env req_json actor req)"
  obtain r1 s1 where c: "cleaning_up env added ?m (log_commands (map add_command added) s) = (r1, s1)" by fastforce
  show ?thesis
  proof (cases r1)
    case (Inl e1)
    then have "e1 = e" "s1 = s'" using assms(1) c by (simp_all add: create_added_def bind_svc_def)
    then have "cleaning_up env added ?m (log_commands (map add_command added) s) = (Inl e, s')" using c Inl by simp
    moreover have "clean_failure ?m"
      by (intro clean_failure_then [OF clean_failure_lift] clean_failure_commit) (auto simp: lift_svc_def)
    ultimately show ?thesis using cleaning_undone assms(2,3) by blast
  next
    case (Inr pool)
    then show ?thesis using assms(1) c
      by (auto simp: create_added_def bind_svc_def on_panel_def start_after_def NewErrorf_def saved_not_started_def HasPrefix_def
          split: prod.splits sum.splits if_splits)
  qed
qed

lemma rotate_selected_failure:
  assumes "rotate_selected env tag actor pool its selected rotated s = (Inl e, s')" "deletions_work env"
    and "list_all2 rotated_item olds rotated"
  shows "undone s s'"
proof -
  obtain r added where add: "add_all env rotated = (r, added)" by fastforce
  let ?m = "bind_svc (lift_svc r) (\<lambda>_. rotate_checked env tag actor pool rotated (put_items (zip selected rotated) its))"
  have "cleaning_up env added ?m (log_commands (map add_command added) s) = (Inl e, s')"
    using assms(1) add by (auto simp: rotate_selected_def bind_svc_def [of "cleaning_up env added _"] split: prod.splits sum.splits)
  moreover have "clean_failure ?m"
    by (intro clean_failure_then [OF clean_failure_lift] clean_failure_rotate) (auto simp: lift_svc_def)
  moreover have "list_all (deletable env) added" using rotated_deletable [OF assms(3), of env] add by simp
  ultimately show ?thesis using cleaning_undone assms(2) by blast
qed

lemma rotate_failure:
  assumes "rotateRelayItemsLocked env k tag actor s = (Inl e, s')" "deletions_work env"
  shows "undone s s'"
proof (cases "s' = s")
  case False
  then obtain pool its selected rotated where rot: "rotation_items env its selected = Inr rotated"
    and run: "rotate_selected env tag actor pool its selected rotated s = (Inl e, s')"
    using assms(1) by (auto simp: rotateRelayItemsLocked_def not_found_def NewError_def split: if_splits option.splits list.splits sum.splits)
  from rot obtain occupied where "prepareRelayRotatedItems (re_Addresses env) 0 (map ((!) its) selected) occupied = Inr rotated"
    by (auto simp: rotation_items_def bindr_Inr_iff)
  then have "list_all2 rotated_item (map ((!) its) selected) rotated"
    using rotate_items_Inr by (auto simp: prepareRelayRotatedItems_def)
  from rotate_selected_failure [OF run assms(2) this] show ?thesis .
qed simp

lemma create_failure:
  assumes "CreateRelay env req_json req actor host s = Some (Inl e, s')" "deletions_work env"
  shows "undone s s' \<or> saved_not_started e"
proof (cases "s' = s")
  case False
  then obtain req' r its existing where "create_added env req_json actor req' r
      (snd (add_addresses env (rq_AddSystemAddresses req') existing its)) s = (Inl e, s')"
    using assms(1) by (auto simp: CreateRelay_def Let_def split_beta split: sum.splits option.splits)
  from create_added_failure [OF this assms(2) add_addresses_deletable] show ?thesis .
qed simp

lemma delete_failure:
  assumes "DeleteRelay env k actor s = (Inl e, s')"
  shows "undone s s'"
proof (cases "s' = s")
  case False
  then obtain pool its where pool: "find_row rp_Id k (db_Pools (pn_Db (rs_Panel s))) = Some pool" "rp_Items pool = Some its"
    using assms by (auto simp: DeleteRelay_def not_found_def split: option.splits)
  have "clean_failure (bind_svc (on_panel (relay_transaction env msg body ch)) (\<lambda>_ s. (Inr (), delete_addresses env (filter ri_AddedByUs its) s)))"
    for msg body and ch :: "unit \<Rightarrow> change"
    by (rule clean_failure_last [OF clean_failure_transaction]) simp
  then have "only_core (rs_Panel s) (rs_Panel s') \<and> rs_Log s' = rs_Log s"
    using assms pool unfolding clean_failure_def by (simp add: DeleteRelay_def)
  then show ?thesis by (auto simp: undone_def intro: exI [of _ "[]"])
qed simp

text \<open>
  C7. A relay operation that fails leaves nothing behind. Creating, deleting and rotating a pool:
  the database, the revision and the flag are as before, at most the core was restarted, and every
  address the operation had put on an interface was deleted again. The one exception is a creation
  whose rows are committed when the core then fails to start, and its error says so. Only
  \<^verbatim>\<open>ip addr del\<close> must not fail.
\<close>

theorem failed_relay_operation_undone:
  assumes "deletions_work env"
  shows "(CreateRelay env req_json req actor host s = Some (Inl e, s') \<longrightarrow> undone s s' \<or> saved_not_started e)
    \<and> (DeleteRelay env k actor s = (Inl e, s') \<longrightarrow> undone s s')
    \<and> (rotateRelayItemsLocked env k tag actor s = (Inl e, s') \<longrightarrow> undone s s')"
  using create_failure [OF _ assms] delete_failure rotate_failure [OF _ assms] by blast

section \<open>An example\<close>

definition example_outbound :: outbound where
  "example_outbound = new_outbound ''direct'' ''relay-out-1'' [(''inet6_bind_address'', GStr ''2001:db8::1''), (''domain_strategy'', GStr ''ipv6_only'')]"

definition example_state :: "bool \<Rightarrow> relay_state" where
  "example_state busy = \<lparr>rs_Panel = example_panel\<lparr>pn_Busy := busy, pn_Core := stopped_core,
     pn_Db := reload_db\<lparr>db_Pools := \<lparr>tb_Rows = [example_pool], tb_Seq = 1\<rparr>,
       db_Outbounds := \<lparr>tb_Rows = [example_outbound\<lparr>out_Id := 1\<rparr>], tb_Seq = 1\<rparr>\<rparr>\<rparr>, rs_Log = []\<rparr>"

definition example_rotated_item :: relay_item where
  "example_rotated_item = example_item\<lparr>ri_IPv6 := ''2001:db8::2'', ri_AddedByUs := True\<rparr>"

lemma example_rotation: "rotation_items example_machine [example_item] [0] = Inr [example_rotated_item]"
proof -
  let ?old = "V6 0x20010db8000000000000000000000001 []" and ?base = "V6 0x20010db8000000000000000000000000 []"
  have a: "rotatable_address example_item = Some ?old" by code_simp
  have m: "prefix_Masked (WithoutZone ?old) 64 = ?base" by code_simp
  have f: "ri_Interface example_item = ''eth0''" "ri_Prefix example_item = 64" by (simp_all add: example_item_def)
  have ds: "map_sum id (map r6_Address) (discoverRelayIPv6 (re_Interfaces example_machine)) = Inr [''2001:db8::1'']" by code_simp
  have new: "randomRelayIPv6 (re_Addresses example_machine 0) ?base 64 = V6 0x20010db8000000000000000000000002 []" by code_simp
  have "\<not> rotation_rejects ?old ?base {''2001:db8::1''} (V6 0x20010db8000000000000000000000002 [])" by code_simp
  then have "rotate_search (re_Addresses example_machine) ?old ?base 64 {''2001:db8::1''} 0 0 = Some (V6 0x20010db8000000000000000000000002 [], Suc 0)"
    using rotate_search_accept [of 0 ?old ?base "{''2001:db8::1''}" "re_Addresses example_machine" 0 64] by (simp add: new)
  moreover have "addr_String (V6 0x20010db8000000000000000000000002 []) = ''2001:db8::2''" by code_simp
  moreover obtain l where l: "discoverRelayIPv6 (re_Interfaces example_machine) = Inr l" "map r6_Address l = [''2001:db8::1'']"
    using ds by (auto simp: map_sum_Inr_iff)
  moreover have "set (map r6_Address l) = {''2001:db8::1''}" unfolding l(2) by simp
  ultimately show ?thesis
    by (simp add: rotation_items_def prepareRelayRotatedItems_def a m f Let_def example_rotated_item_def del: set_map)
qed

lemma example_locked: "rotateRelayItemsLocked example_machine 1 [] ''admin'' (example_state busy)
    = rotate_selected example_machine [] ''admin'' example_pool [example_item] [0] [example_rotated_item] (example_state busy)"
proof -
  have "find_row rp_Id 1 (db_Pools (pn_Db (rs_Panel (example_state busy)))) = Some example_pool"
    by (simp add: example_state_def find_row_def example_pool_def)
  moreover have "relayModeUsesIPv6 (rp_Mode example_pool)" "rp_Items example_pool = Some [example_item]" "re_Linux example_machine" "re_Root example_machine"
    by code_simp+
  moreover obtain ds where "discoverRelayIPv6 (re_Interfaces example_machine) = Inr ds"
    using example_rotation by (auto simp: rotation_items_def bindr_Inr_iff)
  moreover have "selected_indexes [] [example_item] = Inr [0]" by code_simp
  ultimately show ?thesis using example_rotation by (simp add: rotateRelayItemsLocked_def)
qed

text \<open>A core operation is in progress when the new address has been added: it is deleted again.\<close>

theorem failed_relay_operation_undone_witness:
  "\<exists>e s'. RotateRelay example_machine 1 ''admin'' (example_state True) = (Inl e, s')
     \<and> rs_Log s' \<noteq> [] \<and> undone (example_state True) s'"
proof -
  have works: "deletions_work example_machine" by (simp add: deletions_work_def example_machine_def)
  obtain r s' where run: "rotate_selected example_machine [] ''admin'' example_pool [example_item] [0] [example_rotated_item] (example_state True) = (r, s')"
    by fastforce
  have "isl (fst (rotate_selected example_machine [] ''admin'' example_pool [example_item] [0] [example_rotated_item] (example_state True)))"
    "rs_Log (snd (rotate_selected example_machine [] ''admin'' example_pool [example_item] [0] [example_rotated_item] (example_state True))) \<noteq> []"
    by code_simp+
  then obtain e where "rotateRelayItemsLocked example_machine 1 [] ''admin'' (example_state True) = (Inl e, s')" and log: "rs_Log s' \<noteq> []"
    unfolding example_locked run by (auto simp: isl_def)
  with failed_relay_operation_undone [OF works] show ?thesis unfolding RotateRelay_def by blast
qed

end
