(* ===== verification/Relay_Frame.thy ===== *)
theory Relay_Frame
  imports Relay_Outcomes Relay_Sound
begin

text \<open>
  The frame of a rotation: which rows it may change, and how. The outbounds of the selected items are
  bound to the new addresses; tags, ports, credentials and refresh tokens stay.
\<close>

section \<open>Outbounds\<close>

text \<open>Stored options as a map of JSON values; a row without options has none.\<close>

definition stored_options :: "raw \<Rightarrow> (string \<rightharpoonup> gval) option" where
  "stored_options r = (if r = RNil then Some Map.empty else map_option (\<lambda>m k. map_option json_norm (map_of m k)) (decode_map r))"

text \<open>What an item does to the options under its tag: its address, and the strategy of an Apple-ID item.\<close>

definition rebind :: "string \<Rightarrow> string \<Rightarrow> relay_item \<Rightarrow> (string \<rightharpoonup> gval) \<Rightarrow> (string \<rightharpoonup> gval)" where
  "rebind mode tag it m =
     (if relayItemIPv6OutboundTag mode it \<noteq> tag then m
      else if ri_AppleIDIPv4Only it then m(''inet6_bind_address'' \<mapsto> GStr (ri_IPv6 it), ''domain_strategy'' \<mapsto> GStr ''ipv6_only'')
      else m(''inet6_bind_address'' \<mapsto> GStr (ri_IPv6 it)))"

definition bound_to :: "relay_item \<Rightarrow> outbound \<Rightarrow> bool" where
  "bound_to it out \<longleftrightarrow> (\<exists>opts. stored_options (out_Options out) = Some opts \<and> opts ''inet6_bind_address'' = Some (GStr (ri_IPv6 it)))"

text \<open>An outbound with the tag of an item is direct and gets these options and no others; any other outbound stays.\<close>

definition rebound :: "string \<Rightarrow> relay_item list \<Rightarrow> outbound \<Rightarrow> outbound \<Rightarrow> bool" where
  "rebound mode its old new \<longleftrightarrow>
     (if out_Tag old \<in> relayItemIPv6OutboundTag mode ` set its
      then out_Type old = ''direct'' \<and> new = old\<lparr>out_Options := out_Options new\<rparr>
        \<and> (\<exists>m. stored_options (out_Options old) = Some m \<and> stored_options (out_Options new) = Some (fold (rebind mode (out_Tag old)) its m))
      else new = old)"

lemma rebind_others: "tag \<notin> relayItemIPv6OutboundTag mode ` set its \<Longrightarrow> fold (rebind mode tag) its m = m"
  by (induction its arbitrary: m) (auto simp: rebind_def)

lemma rebound_trans: "rebound mode a x y \<Longrightarrow> rebound mode b y z \<Longrightarrow> rebound mode (a @ b) x z"
proof -
  assume 1: "rebound mode a x y" and 2: "rebound mode b y z"
  have tag: "out_Tag y = out_Tag x" "out_Type y = out_Type x"
    using 1 by (auto simp: rebound_def split: if_splits) (metis outbound.select_convs outbound.surjective outbound.update_convs)+
  show ?thesis
    using 1 2 tag rebind_others [of "out_Tag x" mode a] rebind_others [of "out_Tag x" mode b]
    unfolding rebound_def by (cases x; cases y; cases z) (auto split: if_splits)
qed

lemma rebound_all_trans:
  "list_all2 (rebound mode a) xs ys \<Longrightarrow> list_all2 (rebound mode b) ys zs \<Longrightarrow> list_all2 (rebound mode (a @ b)) xs zs"
  using list_all2_trans [of "rebound mode a" "rebound mode b" "rebound mode (a @ b)" xs ys zs] rebound_trans by blast

lemma stored_mustJSON: "stored_options (mustJSON (GMap m)) = Some (\<lambda>k. map_option json_norm (map_of m k))"
proof -
  have "map_of (map (map_prod id json_norm) m) k = map_option json_norm (map_of m k)" for k by (induction m) auto
  moreover have "map_option json_norm (map_option json_norm x) = map_option json_norm x" for x by (cases x) simp_all
  ultimately show ?thesis by (simp add: stored_options_def fun_eq_iff) (simp add: mustJSON_def)
qed

lemma stored_outbound_options: "outbound_options out = Inr opts \<Longrightarrow> stored_options (out_Options out) = Some (\<lambda>k. map_option json_norm (map_of opts k))"
  by (auto simp: outbound_options_def stored_options_def split: if_splits option.splits)

lemma stored_rotated:
  "stored_options (mustJSON (GMap (rotated_options it opts)))
    = Some (rebind mode (relayItemIPv6OutboundTag mode it) it (\<lambda>k. map_option json_norm (map_of opts k)))"
  unfolding stored_mustJSON by (auto simp: rotated_options_def rebind_def mput_def update_conv' fun_eq_iff Let_def)

lemma rotated_bound: "bound_to it (out\<lparr>out_Options := mustJSON (GMap (rotated_options it opts))\<rparr>)"
  using stored_rotated [of it opts undefined] by (auto simp: bound_to_def rebind_def)

lemma find_map_same: "(\<And>x. P (g x) = P x) \<Longrightarrow> find P (map g xs) = map_option g (find P xs)"
  by (induction xs) simp_all

lemma rotate_outbound_effect:
  assumes "rotate_outbound mode (i, it) db = Inr db'" "sound_db db"
  shows "\<exists>t. db' = db\<lparr>db_Outbounds := t\<rparr>"
    and "tb_Seq (db_Outbounds db') = tb_Seq (db_Outbounds db)"
    and "list_all2 (rebound mode [it]) (tb_Rows (db_Outbounds db)) (tb_Rows (db_Outbounds db'))"
    and "\<exists>out. find_outbound (relayItemIPv6OutboundTag mode it) db' = Some out \<and> bound_to it out"
    and "tag \<noteq> relayItemIPv6OutboundTag mode it \<Longrightarrow> find_outbound tag db' = find_outbound tag db"
proof -
  let ?tag = "relayItemIPv6OutboundTag mode it"
  obtain out opts where out: "find_outbound ?tag db = Some out" "out_Type out = ''direct''"
    and opts: "outbound_options out = Inr opts" and db': "db' = set_outbound_options out (rotated_options it opts) db"
    using assms(1) by (auto simp: rotate_outbound_def Let_def bindr_Inr_iff not_found_def split: if_splits option.splits)
  have mem: "out \<in> set (tb_Rows (db_Outbounds db))" and tag: "out_Tag out = ?tag"
    using find_Some_mem [OF out(1) [unfolded find_outbound_def]] by simp_all
  have ok: "table_ok out_Id (db_Outbounds db)" using sound_tables(2) [OF assms(2)] by (simp add: sound_table_def)
  have unique: "r = out" if "r \<in> set (tb_Rows (db_Outbounds db))" "out_Tag r = ?tag" for r
    using sound_tables(2) [OF assms(2)] that mem tag inj_onD [of out_Tag "set (tb_Rows (db_Outbounds db))" r out]
    by (simp add: sound_table_def tags_ok_def distinct_map)
  have same: "r = out" if "r \<in> set (tb_Rows (db_Outbounds db))" "out_Id r = out_Id out" for r
    using outbounds.ok_rows(2) [OF ok] that mem by (auto simp: distinct_map dest: inj_onD)
  let ?g = "\<lambda>r. if out_Id r = out_Id out then r\<lparr>out_Options := mustJSON (GMap (rotated_options it opts))\<rparr> else r"
  have rows: "tb_Rows (db_Outbounds db') = map ?g (tb_Rows (db_Outbounds db))"
    by (simp add: db' set_outbound_options_def update_rows_def)
  show "\<exists>t. db' = db\<lparr>db_Outbounds := t\<rparr>" by (auto simp: db' set_outbound_options_def)
  show "tb_Seq (db_Outbounds db') = tb_Seq (db_Outbounds db)" by (simp add: db' set_outbound_options_def update_rows_def)
  have "rebound mode [it] r (?g r)" if r: "r \<in> set (tb_Rows (db_Outbounds db))" for r
  proof (cases "r = out")
    case True
    then show ?thesis using out(2) tag stored_outbound_options [OF opts] stored_rotated by (simp add: rebound_def)
  next
    case False
    then have "out_Id r \<noteq> out_Id out" "out_Tag r \<noteq> ?tag" using same [OF r] unique [OF r] by auto
    then show ?thesis by (simp add: rebound_def)
  qed
  then show "list_all2 (rebound mode [it]) (tb_Rows (db_Outbounds db)) (tb_Rows (db_Outbounds db'))"
    by (simp add: rows list_all2_conv_all_nth)
  have find: "find_outbound u db' = map_option ?g (find_outbound u db)" for u
    unfolding find_outbound_def rows by (rule find_map_same) simp
  show "\<exists>out. find_outbound ?tag db' = Some out \<and> bound_to it out"
    using rotated_bound by (simp add: find out(1))
  show "find_outbound tag db' = find_outbound tag db" if "tag \<noteq> ?tag"
  proof (cases "find_outbound tag db")
    case (Some r)
    then have "r \<in> set (tb_Rows (db_Outbounds db))" "out_Tag r = tag" using find_Some_mem by (fastforce simp: find_outbound_def)+
    then have "out_Id r \<noteq> out_Id out" using same that tag by blast
    then show ?thesis by (simp add: find Some)
  qed (simp add: find)
qed

text \<open>All items of the loop; with different tags every one ends up bound to its own address.\<close>

lemma rotate_outbounds_effect:
  assumes "eachr (rotate_outbound mode) (enumerate n its) db = Inr db'" "sound_db db"
  shows "(\<exists>t. db' = db\<lparr>db_Outbounds := t\<rparr>) \<and> tb_Seq (db_Outbounds db') = tb_Seq (db_Outbounds db)
    \<and> list_all2 (rebound mode its) (tb_Rows (db_Outbounds db)) (tb_Rows (db_Outbounds db'))
    \<and> (\<forall>tag. tag \<notin> relayItemIPv6OutboundTag mode ` set its \<longrightarrow> find_outbound tag db' = find_outbound tag db)
    \<and> (distinct (map (relayItemIPv6OutboundTag mode) its) \<longrightarrow>
        (\<forall>it\<in>set its. \<exists>out. find_outbound (relayItemIPv6OutboundTag mode it) db' = Some out \<and> bound_to it out))"
  using assms
proof (induction its arbitrary: n db)
  case Nil
  then show ?case by (auto simp: rebound_def list_all2_conv_all_nth intro: exI [of _ "db_Outbounds db"])
next
  case (Cons it its)
  then obtain db1 where one: "rotate_outbound mode (n, it) db = Inr db1" and rest: "eachr (rotate_outbound mode) (enumerate (Suc n) its) db1 = Inr db'"
    by (auto simp: bindr_Inr_iff)
  have sound: "sound_db db1" by (rule rotate_outbound_sound [OF one Cons.prems(2)])
  note step = rotate_outbound_effect [OF one Cons.prems(2)] and IH = Cons.IH [OF rest sound]
  have "\<exists>t. db' = db\<lparr>db_Outbounds := t\<rparr>" using step(1) IH by auto
  moreover have "tb_Seq (db_Outbounds db') = tb_Seq (db_Outbounds db)" using step(2) IH by simp
  moreover have "list_all2 (rebound mode (it # its)) (tb_Rows (db_Outbounds db)) (tb_Rows (db_Outbounds db'))"
    using rebound_all_trans [OF step(3)] IH by simp
  moreover have "\<forall>tag. tag \<notin> relayItemIPv6OutboundTag mode ` set (it # its) \<longrightarrow> find_outbound tag db' = find_outbound tag db"
    using step(5) IH by simp
  moreover have "\<forall>i\<in>set (it # its). \<exists>out. find_outbound (relayItemIPv6OutboundTag mode i) db' = Some out \<and> bound_to i out"
    if "distinct (map (relayItemIPv6OutboundTag mode) (it # its))"
  proof -
    have "find_outbound (relayItemIPv6OutboundTag mode it) db' = find_outbound (relayItemIPv6OutboundTag mode it) db1"
      using IH that by simp
    with step(4) IH that show ?thesis by simp
  qed
  ultimately show ?case by blast
qed

section \<open>The transaction\<close>

text \<open>The refresh links of the rotated items note the time, no other link changes.\<close>

definition link_rotated :: "relay_env \<Rightarrow> nat \<Rightarrow> relay_item list \<Rightarrow> relay_link \<Rightarrow> relay_link \<Rightarrow> bool" where
  "link_rotated env k its old new \<longleftrightarrow>
     new = (if rl_PoolID old = k \<and> rl_InboundTag old \<in> ri_InboundTag ` set its then old\<lparr>rl_LastRotatedAt := relay_now env\<rparr> else old)"

text \<open>The pool has the new items and times, everything else of it and all other pools stay.\<close>

definition pool_rotated :: "relay_env \<Rightarrow> string \<Rightarrow> nat \<Rightarrow> relay_item list \<Rightarrow> relay_pool \<Rightarrow> relay_pool \<Rightarrow> bool" where
  "pool_rotated env tag k its old new \<longleftrightarrow>
     (if rp_Id old \<noteq> k then new = old
      else if rp_RotationEnabled old \<and> tag = []
      then \<exists>n. normalizeRelayRotationInterval True (rp_RotationIntervalMinutes old) = Inr n
        \<and> new = old\<lparr>rp_Items := Some its, rp_LastRotatedAt := relay_now env, rp_NextRotateAt := relay_now env + 60 * n, rp_RotationIntervalMinutes := n\<rparr>
      else new = old\<lparr>rp_Items := Some its, rp_LastRotatedAt := relay_now env, rp_NextRotateAt := 0\<rparr>)"

definition rotation_frame :: "relay_env \<Rightarrow> string \<Rightarrow> string \<Rightarrow> relay_pool \<Rightarrow> relay_item list \<Rightarrow> relay_item list \<Rightarrow> panel_db \<Rightarrow> panel_db \<Rightarrow> bool" where
  "rotation_frame env tag actor pool rotated its db db' \<longleftrightarrow>
     (\<exists>t l p ch. db' = db\<lparr>db_Outbounds := t, db_Links := l, db_Pools := p, db_Changes := db_Changes db @ [ch]\<rparr>
       \<and> tb_Seq t = tb_Seq (db_Outbounds db) \<and> tb_Seq l = tb_Seq (db_Links db) \<and> tb_Seq p = tb_Seq (db_Pools db)
       \<and> ch_DateTime ch = relay_now env \<and> ch_Actor ch = actor \<and> ch_Key ch = ''relay'' \<and> ch_Action ch = ''rotate'')
   \<and> list_all2 (rebound (rp_Mode pool) rotated) (tb_Rows (db_Outbounds db)) (tb_Rows (db_Outbounds db'))
   \<and> (distinct (map (relayItemIPv6OutboundTag (rp_Mode pool)) rotated) \<longrightarrow>
       (\<forall>it\<in>set rotated. \<exists>out. find_outbound (relayItemIPv6OutboundTag (rp_Mode pool) it) db' = Some out \<and> bound_to it out))
   \<and> list_all2 (link_rotated env (rp_Id pool) rotated) (tb_Rows (db_Links db)) (tb_Rows (db_Links db'))
   \<and> list_all2 (pool_rotated env tag (rp_Id pool) its) (tb_Rows (db_Pools db)) (tb_Rows (db_Pools db'))"

lemma mark_rotated_links:
  "(\<exists>l. mark_rotated env pool its db = db\<lparr>db_Links := l\<rparr> \<and> tb_Seq l = tb_Seq (db_Links db))
    \<and> list_all2 (link_rotated env (rp_Id pool) its) (tb_Rows (db_Links db)) (tb_Rows (db_Links (mark_rotated env pool its db)))"
proof (induction its arbitrary: db)
  case Nil
  then show ?case by (auto simp: mark_rotated_def link_rotated_def list_all2_conv_all_nth intro: exI [of _ "db_Links db"])
next
  case (Cons it its)
  let ?db1 = "db\<lparr>db_Links := update_rows (\<lambda>l. rl_PoolID l = rp_Id pool \<and> rl_InboundTag l = ri_InboundTag it)
      (\<lambda>l. l\<lparr>rl_LastRotatedAt := relay_now env\<rparr>) (db_Links db)\<rparr>"
  have eq: "mark_rotated env pool (it # its) db = mark_rotated env pool its ?db1" by (simp add: mark_rotated_def)
  have "list_all2 (link_rotated env (rp_Id pool) [it]) (tb_Rows (db_Links db)) (tb_Rows (db_Links ?db1))"
    by (simp add: update_rows_def list_all2_conv_all_nth link_rotated_def)
  moreover have "link_rotated env k (it # its) x z" if "link_rotated env k [it] x y" "link_rotated env k its y z" for k x y z
    using that by (auto simp: link_rotated_def split: if_splits)
  ultimately have "list_all2 (link_rotated env (rp_Id pool) (it # its)) (tb_Rows (db_Links db)) (tb_Rows (db_Links (mark_rotated env pool its ?db1)))"
    using list_all2_trans [of "link_rotated env (rp_Id pool) [it]" "link_rotated env (rp_Id pool) its", OF _ _ Cons.IH [of ?db1, THEN conjunct2]] by blast
  moreover obtain l where "mark_rotated env pool its ?db1 = ?db1\<lparr>db_Links := l\<rparr>" "tb_Seq l = tb_Seq (db_Links ?db1)" using Cons.IH [of ?db1] by blast
  ultimately show ?case unfolding eq by (auto simp: update_rows_def)
qed

lemma rotate_rows_frame:
  assumes "rotate_rows env tag pool rotated its db = Inr (pool', db')" "sound_db db" "find_row rp_Id k (db_Pools db) = Some pool"
    and ch: "ch_DateTime ch = relay_now env" "ch_Actor ch = actor" "ch_Key ch = ''relay''" "ch_Action ch = ''rotate''"
  shows "rotation_frame env tag actor pool rotated its db (add_change ch db')"
proof -
  obtain db1 where outs: "eachr (rotate_outbound (rp_Mode pool)) (enumerate 0 rotated) db = Inr db1"
    and p': "rotated_pool env tag its pool = Inr pool'"
    and db': "db' = store_rotated pool' (mark_rotated env pool rotated db1)"
    using assms(1) by (auto simp: rotate_rows_def updateRelayRotatedOutbounds_def bindr_Inr_iff)
  note effect = rotate_outbounds_effect [OF outs assms(2)]
  obtain t where t: "db1 = db\<lparr>db_Outbounds := t\<rparr>" using effect by blast
  obtain l where l: "mark_rotated env pool rotated (db\<lparr>db_Outbounds := t\<rparr>) = db\<lparr>db_Outbounds := t, db_Links := l\<rparr>" "tb_Seq l = tb_Seq (db_Links db)"
    using mark_rotated_links [of env pool rotated "db\<lparr>db_Outbounds := t\<rparr>"] by auto
  let ?f = "\<lambda>r. r\<lparr>rp_Items := rp_Items pool', rp_LastRotatedAt := rp_LastRotatedAt pool', rp_NextRotateAt := rp_NextRotateAt pool',
      rp_RotationIntervalMinutes := rp_RotationIntervalMinutes pool'\<rparr>"
  let ?p = "update_rows (\<lambda>r. rp_Id r = rp_Id pool') ?f (db_Pools db)"
  have new: "add_change ch db' = db\<lparr>db_Outbounds := t, db_Links := l, db_Pools := ?p, db_Changes := db_Changes db @ [ch]\<rparr>"
    unfolding db' t l(1) by (simp add: store_rotated_def add_change_def)
  have mem: "pool \<in> set (tb_Rows (db_Pools db))" using find_Some_mem [OF assms(3) [unfolded find_row_def]] by simp
  have ok: "table_ok rp_Id (db_Pools db)" by (rule sound_tables(5) [OF assms(2)])
  have same: "r = pool" if "r \<in> set (tb_Rows (db_Pools db))" "rp_Id r = rp_Id pool" for r
    using pools.ok_rows(2) [OF ok] that mem by (auto simp: distinct_map dest: inj_onD)
  have id': "rp_Id pool' = rp_Id pool" using p' by (auto simp: rotated_pool_def bindr_Inr_iff split: if_splits)
  have "pool_rotated env tag (rp_Id pool) its pool (?f pool)"
  proof (cases "rp_RotationEnabled pool \<and> tag = []")
    case True
    then obtain n where "normalizeRelayRotationInterval True (rp_RotationIntervalMinutes pool) = Inr n"
      "pool' = pool\<lparr>rp_Items := Some its, rp_LastRotatedAt := relay_now env, rp_NextRotateAt := relay_now env + 60 * n, rp_RotationIntervalMinutes := n\<rparr>"
      using p' by (auto simp: rotated_pool_def bindr_Inr_iff)
    then show ?thesis using True by (simp add: pool_rotated_def)
  next
    case False
    then have "pool' = pool\<lparr>rp_Items := Some its, rp_LastRotatedAt := relay_now env, rp_NextRotateAt := 0\<rparr>"
      using p' by (auto simp: rotated_pool_def bindr_Inr_iff)
    then show ?thesis using False by (auto simp: pool_rotated_def)
  qed
  then have row: "pool_rotated env tag (rp_Id pool) its r (if rp_Id r = rp_Id pool' then ?f r else r)" if "r \<in> set (tb_Rows (db_Pools db))" for r
  proof (cases "rp_Id r = rp_Id pool")
    case True
    then show ?thesis using same [OF that True] \<open>pool_rotated env tag (rp_Id pool) its pool (?f pool)\<close> id' by simp
  next
    case False
    then show ?thesis by (simp add: pool_rotated_def id')
  qed
  have "list_all2 (pool_rotated env tag (rp_Id pool) its) (tb_Rows (db_Pools db)) (tb_Rows ?p)"
    unfolding list_all2_conv_all_nth using row by (simp add: update_rows_def)
  moreover have "list_all2 (link_rotated env (rp_Id pool) rotated) (tb_Rows (db_Links db)) (tb_Rows l)"
    using mark_rotated_links [of env pool rotated db1] l t by simp
  moreover have "find_outbound u (add_change ch db') = find_outbound u db1" for u by (simp add: find_outbound_def new t)
  moreover have "tb_Seq ?p = tb_Seq (db_Pools db)" by (simp add: update_rows_def)
  moreover have "\<exists>t l p c. add_change ch db' = db\<lparr>db_Outbounds := t, db_Links := l, db_Pools := p, db_Changes := db_Changes db @ [c]\<rparr>
       \<and> tb_Seq t = tb_Seq (db_Outbounds db) \<and> tb_Seq l = tb_Seq (db_Links db) \<and> tb_Seq p = tb_Seq (db_Pools db)
       \<and> ch_DateTime c = relay_now env \<and> ch_Actor c = actor \<and> ch_Key c = ''relay'' \<and> ch_Action c = ''rotate''"
    using effect l(2) ch calculation(4) by (intro exI [of _ t] exI [of _ l] exI [of _ ?p] exI [of _ ch] conjI new) (simp_all add: t)
  ultimately show ?thesis
    unfolding rotation_frame_def using effect by (simp add: new t)
qed

section \<open>The operation\<close>

lemma add_all_Inr: "add_all env its = (Inr u, added) \<Longrightarrow> added = its"
  by (induction its arbitrary: added) (auto simp: map_prod_def split: sum.splits prod.splits)

definition owned_addresses :: "relay_env \<Rightarrow> relay_item list \<Rightarrow> relay_item list" where
  "owned_addresses env its = filter (\<lambda>it. ri_AddedByUs it
     \<and> deleteRelayAddress env (ri_Interface it) (ri_IPv6 it) (ri_Prefix it) = Inr True) its"

lemma delete_owned: "rs_Log (delete_addresses env (filter ri_AddedByUs its) s) = rs_Log s @ map delete_command (owned_addresses env its)"
  by (simp add: delete_addresses_def log_commands_def owned_addresses_def conj_commute)

lemma rotate_checked_Inr:
  assumes "rotate_checked env tag actor pool rotated its s = (Inr pool', s')"
  shows "rs_Log s' = rs_Log s" "\<exists>db. rotate_rows env tag pool rotated its (pn_Db (rs_Panel s)) = Inr (pool', db)
    \<and> pn_Db (rs_Panel s') = add_change (rotate_change env actor tag pool (length rotated)) db"
proof -
  have run: "on_panel (rotation_guard (relay_transaction env ''rotated relay configuration rejected by sing-box: ''
         (rotate_rows env tag pool rotated its) (\<lambda>_. rotate_change env actor tag pool (length rotated)))) s = (Inr pool', s')"
    using assms by (auto simp: rotate_checked_def bind_svc_Inr lift_svc_Inr)
  then obtain p1 where tx: "relay_transaction env ''rotated relay configuration rejected by sing-box: ''
         (rotate_rows env tag pool rotated its) (\<lambda>_. rotate_change env actor tag pool (length rotated)) ((rs_Panel s)\<lparr>pn_Busy := True\<rparr>) = (Inr pool', p1)"
    and s': "s' = s\<lparr>rs_Panel := p1\<lparr>pn_Busy := False\<rparr>\<rparr>"
    by (auto simp: on_panel_def rotation_guard_def NewError_def split: if_splits prod.splits)
  show "rs_Log s' = rs_Log s" by (simp add: s')
  obtain db where "rotate_rows env tag pool rotated its (pn_Db (rs_Panel s)) = Inr (pool', db)"
    "committed env (rotate_change env actor tag pool (length rotated)) db ((rs_Panel s)\<lparr>pn_Busy := True\<rparr>) p1"
    using relay_transaction_outcome [OF tx] by auto
  then show "\<exists>db. rotate_rows env tag pool rotated its (pn_Db (rs_Panel s)) = Inr (pool', db)
      \<and> pn_Db (rs_Panel s') = add_change (rotate_change env actor tag pool (length rotated)) db"
    by (auto simp: s' committed_def)
qed

lemma rotate_selected_Inr:
  assumes "rotate_selected env tag actor pool its selected rotated s = (Inr res, s')" "sound_db (pn_Db (rs_Panel s))"
    "find_row rp_Id k (db_Pools (pn_Db (rs_Panel s))) = Some pool"
  shows "rotation_frame env tag actor pool rotated (put_items (zip selected rotated) its) (pn_Db (rs_Panel s)) (pn_Db (rs_Panel s'))"
    and "rs_Log s' = rs_Log s @ map add_command rotated @ map delete_command (owned_addresses env (map ((!) its) selected))"
    and "rr_IPv6 res = map ri_IPv6 rotated"
proof -
  obtain r added where add: "add_all env rotated = (r, added)" by fastforce
  obtain s1 pool' where cl: "cleaning_up env added (bind_svc (lift_svc r) (\<lambda>_.
      rotate_checked env tag actor pool rotated (put_items (zip selected rotated) its))) (log_commands (map add_command added) s) = (Inr pool', s1)"
    and res: "res = rotation_of selected rotated pool'"
    and s': "s' = delete_addresses env (filter ri_AddedByUs (map ((!) its) selected)) s1"
    using assms(1) add by (auto simp: rotate_selected_def bind_svc_Inr)
  from cl have ok: "r = Inr ()" and checked: "rotate_checked env tag actor pool rotated (put_items (zip selected rotated) its) (log_commands (map add_command added) s) = (Inr pool', s1)"
    by (auto simp: cleaning_up_def bind_svc_Inr lift_svc_Inr split: prod.splits sum.splits)
  have added: "added = rotated" using add_all_Inr add ok by blast
  have panel: "rs_Panel (log_commands cs s) = rs_Panel s" "rs_Panel (delete_addresses env xs s1) = rs_Panel s1" for cs xs
    by (simp_all add: log_commands_def delete_addresses_def)
  obtain db where "rotate_rows env tag pool rotated (put_items (zip selected rotated) its) (pn_Db (rs_Panel s)) = Inr (pool', db)"
    "pn_Db (rs_Panel s1) = add_change (rotate_change env actor tag pool (length rotated)) db"
    using rotate_checked_Inr(2) [OF checked] by (auto simp: panel)
  then show "rotation_frame env tag actor pool rotated (put_items (zip selected rotated) its) (pn_Db (rs_Panel s)) (pn_Db (rs_Panel s'))"
    using rotate_rows_frame [OF _ assms(2,3), of env tag rotated _ _ _ "rotate_change env actor tag pool (length rotated)" actor]
    by (simp add: s' panel rotate_change_def relay_change_def)
  show "rs_Log s' = rs_Log s @ map add_command rotated @ map delete_command (owned_addresses env (map ((!) its) selected))"
    using rotate_checked_Inr(1) [OF checked] by (simp add: s' delete_owned added log_commands_def)
  show "rr_IPv6 res = map ri_IPv6 rotated" by (simp add: res rotation_of_def)
qed

text \<open>
  C8. A successful rotation changes the selected items' addresses and nothing else. Their new
  addresses lie in the old prefixes; the direct outbounds of the items are bound to them, an
  Apple-ID item's with the strategy \<^verbatim>\<open>ipv6_only\<close>, and every other option, their tag, key and type
  stay; every other outbound, the inbounds, clients, rules and the other pools stay as they are.
  The refresh links of the items, and only these, note the time, the pool gets its new items and
  times; one change is recorded. On the machine the new addresses are added, then the old ones
  the panel owned are removed.
\<close>

theorem rotation_changes_addresses_only:
  assumes run: "rotateRelayItemsLocked env k tag actor s = (Inr res, s')" and sound: "sound_db (pn_Db (rs_Panel s))"
  shows "\<exists>pool its selected rotated. find_row rp_Id k (db_Pools (pn_Db (rs_Panel s))) = Some pool \<and> rp_Items pool = Some its
    \<and> selected_indexes tag its = Inr selected \<and> list_all2 rotated_item (map ((!) its) selected) rotated
    \<and> rr_IPv6 res = map ri_IPv6 rotated
    \<and> rotation_frame env tag actor pool rotated (put_items (zip selected rotated) its) (pn_Db (rs_Panel s)) (pn_Db (rs_Panel s'))
    \<and> rs_Log s' = rs_Log s @ map add_command rotated @ map delete_command (owned_addresses env (map ((!) its) selected))"
proof -
  obtain pool its selected rotated where found: "find_row rp_Id k (db_Pools (pn_Db (rs_Panel s))) = Some pool" "rp_Items pool = Some its"
    "selected_indexes tag its = Inr selected" and rot: "rotation_items env its selected = Inr rotated"
    and sel: "rotate_selected env tag actor pool its selected rotated s = (Inr res, s')"
    using run by (auto simp: rotateRelayItemsLocked_def not_found_def bindr_Inr_iff split: if_splits option.splits list.splits sum.splits)
  obtain occupied where "prepareRelayRotatedItems (re_Addresses env) 0 (map ((!) its) selected) occupied = Inr rotated"
    using rot by (auto simp: rotation_items_def bindr_Inr_iff)
  then have "list_all2 rotated_item (map ((!) its) selected) rotated"
    using rotate_items_Inr by (auto simp: prepareRelayRotatedItems_def)
  with found rotate_selected_Inr [OF sel sound found(1)] show ?thesis by blast
qed

theorem rotation_changes_addresses_only_witness:
  "\<exists>res s'. RotateRelay example_machine 1 ''admin'' (example_state False) = (Inr res, s') \<and> rr_IPv6 res = [''2001:db8::2'']
     \<and> rs_Log s' = [AddAddress ''eth0'' ''2001:db8::2'' 64]"
proof -
  obtain r s' where run: "rotate_selected example_machine [] ''admin'' example_pool [example_item] [0] [example_rotated_item] (example_state False) = (r, s')"
    by fastforce
  have "\<not> isl (fst (rotate_selected example_machine [] ''admin'' example_pool [example_item] [0] [example_rotated_item] (example_state False)))"
    "map_sum id rr_IPv6 (fst (rotate_selected example_machine [] ''admin'' example_pool [example_item] [0] [example_rotated_item] (example_state False))) = Inr [''2001:db8::2'']"
    "rs_Log (snd (rotate_selected example_machine [] ''admin'' example_pool [example_item] [0] [example_rotated_item] (example_state False))) = [AddAddress ''eth0'' ''2001:db8::2'' 64]"
    by code_simp+
  then obtain res where res: "r = Inr res" "rr_IPv6 res = [''2001:db8::2'']" "rs_Log s' = [AddAddress ''eth0'' ''2001:db8::2'' 64]"
    unfolding run by (auto simp: isl_def map_sum_Inr_iff)
  have "sound_db (pn_Db (rs_Panel (example_state False)))" by code_simp
  from rotation_changes_addresses_only [OF _ this, of example_machine 1 "[]" "''admin''" res s'] res run show ?thesis
    unfolding example_locked RotateRelay_def by blast
qed

end
