(* ===== verification/Relay_Undo.thy ===== *)
theory Relay_Undo
  imports Relay_Frame
begin

text \<open>
  Creating a pool and deleting it again: the rows it had added are gone, and nothing else has changed.
\<close>

section \<open>Appended rows\<close>

definition appended :: "'r table \<Rightarrow> 'r list \<Rightarrow> 'r table \<Rightarrow> bool" where
  "appended t rows t' \<longleftrightarrow> tb_Rows t' = tb_Rows t @ rows"

lemma appended_refl [simp]: "appended t [] t"
  by (simp add: appended_def)

lemma appended_trans: "appended t xs u \<Longrightarrow> appended u ys v \<Longrightarrow> appended t (xs @ ys) v"
  by (simp add: appended_def)

text \<open>Deleting exactly the appended rows restores the table.\<close>

lemma delete_appended:
  assumes "appended t rows t'" "\<forall>r\<in>set rows. P r" "\<forall>r\<in>set (tb_Rows t). \<not> P r"
  shows "tb_Rows (delete_rows P t') = tb_Rows t"
proof -
  have "filter (\<lambda>r. \<not> P r) rows = []" using assms(2) by (simp add: filter_empty_conv)
  moreover have "filter (\<lambda>r. \<not> P r) (tb_Rows t) = tb_Rows t" using assms(3) by (intro filter_True) simp
  ultimately show ?thesis using assms(1) by (simp add: appended_def delete_rows_def)
qed

text \<open>Different names, so no old row has the name of a new one.\<close>

lemma appended_names:
  assumes "appended t rows t'" "distinct (map name (tb_Rows t'))" "r \<in> set (tb_Rows t)"
  shows "name r \<notin> name ` set rows"
  using assms by (auto simp: appended_def)

section \<open>The rows of an item\<close>

definition item_rows :: "panel_db \<Rightarrow> relay_item list \<Rightarrow> panel_db \<Rightarrow> bool" where
  "item_rows db its db' \<longleftrightarrow> (\<exists>ti to tc inbs outs cs. db' = db\<lparr>db_Inbounds := ti, db_Outbounds := to, db_Clients := tc\<rparr>
     \<and> appended (db_Inbounds db) inbs ti \<and> map in_Tag inbs = map ri_InboundTag its
     \<and> appended (db_Outbounds db) outs to \<and> out_Tag ` set outs = set (concat (map item_outbound_tags its))
     \<and> appended (db_Clients db) cs tc \<and> map cl_Id cs = map ri_ClientID its \<and> list_all (\<lambda>it. 0 < ri_ClientID it) its)"

lemma store_outbound_appends:
  assumes "store_outbound out db = Inr db'" "table_ok out_Id (db_Outbounds db)" "out_Id out = 0"
  shows "\<exists>t r. db' = db\<lparr>db_Outbounds := t\<rparr> \<and> appended (db_Outbounds db) [r] t \<and> out_Tag r = out_Tag out \<and> table_ok out_Id t"
proof -
  let ?t = "save_row out_Id (\<lambda>k. with_out_Id k) out (db_Outbounds db)"
  have "db' = db\<lparr>db_Outbounds := ?t\<rparr>"
    using assms(1) by (auto simp: store_outbound_def map_sum_Inr_iff outbounds.save_tagged_Inr)
  then show ?thesis using outbounds.insert_rows [OF assms(2,3)] outbounds.save_ok [OF assms(2)]
    by (auto simp: appended_def)
qed

lemma store_outbounds_append:
  assumes "eachr store_outbound outs db = Inr db'" "table_ok out_Id (db_Outbounds db)" "\<forall>out\<in>set outs. out_Id out = 0"
  shows "\<exists>t rs. db' = db\<lparr>db_Outbounds := t\<rparr> \<and> appended (db_Outbounds db) rs t \<and> map out_Tag rs = map out_Tag outs"
  using assms
proof (induction outs arbitrary: db)
  case Nil
  then show ?case by (auto intro: exI [of _ "db_Outbounds db"] exI [of _ "[]"])
next
  case (Cons out outs)
  then obtain db1 where one: "store_outbound out db = Inr db1" and rest: "eachr store_outbound outs db1 = Inr db'"
    by (auto simp: bindr_Inr_iff)
  obtain t r where t: "db1 = db\<lparr>db_Outbounds := t\<rparr>" "appended (db_Outbounds db) [r] t" "out_Tag r = out_Tag out" "table_ok out_Id t"
    using store_outbound_appends [OF one Cons.prems(2)] Cons.prems(3) by auto
  obtain t' rs where "db' = db1\<lparr>db_Outbounds := t'\<rparr>" "appended t rs t'" "map out_Tag rs = map out_Tag outs"
    using Cons.IH [OF rest] t(1,4) Cons.prems(3) by auto
  then show ?case using appended_trans [OF t(2)] t(1,3) by (intro exI [of _ t'] exI [of _ "r # rs"]) auto
qed

lemma relay_outbounds_tags:
  "out_Tag ` set (fst (relay_outbounds env req i it)) = set (item_outbound_tags (snd (relay_outbounds env req i it)))"
  "\<forall>out\<in>set (fst (relay_outbounds env req i it)). out_Id out = 0"
  "ri_InboundTag (snd (relay_outbounds env req i it)) = ri_InboundTag it"
  if "ri_IPv6OutboundTag it = []" "ri_IPv4OutboundTag it = []"
  using that by (auto simp: relay_outbounds_def Let_def new_outbound_def item_outbound_tags_def)

lemma create_item_rows:
  assumes "create_item env req tls i it db = Inr (it', db')" "sound_db db"
    and "ri_IPv6OutboundTag it = []" "ri_IPv4OutboundTag it = []"
  shows "item_rows db [it'] db'"
proof -
  obtain opts cfg it1 inb db1 db2 links export where
    cfg: "relayProtocolConfig (re_Uuid env i) (re_Bytes env) (64 * i) req it = Inr (opts, cfg, it1)"
    and inb: "store_inbound (relay_inbound env req tls i (ri_ListenPort it1) opts) db = Inr (inb, db1)"
    and outs: "eachr store_outbound (fst (relay_outbounds env req i (it1\<lparr>ri_InboundID := in_Id inb, ri_InboundTag := in_Tag inb\<rparr>))) db1 = Inr db2"
    and db': "db' = save_client (new_client env (ri_Username (snd (relay_outbounds env req i (it1\<lparr>ri_InboundID := in_Id inb, ri_InboundTag := in_Tag inb\<rparr>))))
      cfg (in_Id inb) links) db2"
    and it': "it' = (snd (relay_outbounds env req i (it1\<lparr>ri_InboundID := in_Id inb, ri_InboundTag := in_Tag inb\<rparr>)))
      \<lparr>ri_ClientID := cl_Id (keyed cl_Id (\<lambda>k. with_cl_Id k) (db_Clients db2) (new_client env
          (ri_Username (snd (relay_outbounds env req i (it1\<lparr>ri_InboundID := in_Id inb, ri_InboundTag := in_Tag inb\<rparr>)))) cfg (in_Id inb) links)),
        ri_Protocol := rq_Protocol req, ri_Method := rq_ShadowsocksMethod req,
        ri_UUID := item_uuid cfg (rq_Protocol req) (ri_UUID (snd (relay_outbounds env req i (it1\<lparr>ri_InboundID := in_Id inb, ri_InboundTag := in_Tag inb\<rparr>)))),
        ri_Export := export\<rparr>"
    using assms(1) by (auto simp: create_item_def bindr_Inr_iff Let_def split_beta)
  let ?it2 = "it1\<lparr>ri_InboundID := in_Id inb, ri_InboundTag := in_Tag inb\<rparr>"
  have plain: "ri_IPv6OutboundTag ?it2 = []" "ri_IPv4OutboundTag ?it2 = []"
    using relayProtocolConfig_Inr(3) [OF cfg] assms(3,4) by (auto simp: only_credentials_def)
  note tags = relay_outbounds_tags [OF plain, of env req i]
  have ok: "table_ok in_Id (db_Inbounds db)" "table_ok out_Id (db_Outbounds db)" "table_ok cl_Id (db_Clients db)"
    using sound_tables [OF assms(2)] by (simp_all add: sound_table_def sound_clients_def)
  obtain row ti where ti: "db1 = db\<lparr>db_Inbounds := ti\<rparr>" "appended (db_Inbounds db) [row] ti" "in_Tag row = in_Tag inb"
  proof -
    obtain row t where st: "save_tagged in_Id (\<lambda>k. with_in_Id k) in_Tag ((relay_inbound env req tls i (ri_ListenPort it1) opts)\<lparr>in_Tls := None\<rparr>) (db_Inbounds db) = Inr (row, t)"
      and "db1 = db\<lparr>db_Inbounds := t\<rparr>" "in_Tag inb = in_Tag row"
      using inb by (auto simp: store_inbound_def bindr_Inr_iff)
    moreover have "appended (db_Inbounds db) [row] t"
      using st inbounds.insert_rows [OF ok(1)] by (auto simp: inbounds.save_tagged_Inr appended_def relay_inbound_def Let_def)
    ultimately show thesis using that by auto
  qed
  obtain to rs where to: "db2 = db1\<lparr>db_Outbounds := to\<rparr>" "appended (db_Outbounds db) rs to"
    "map out_Tag rs = map out_Tag (fst (relay_outbounds env req i ?it2))"
    using store_outbounds_append [OF outs _ tags(2)] ok(2) ti(1) by auto
  let ?c = "new_client env (ri_Username (snd (relay_outbounds env req i ?it2))) cfg (in_Id inb) links"
  have c: "appended (db_Clients db) [keyed cl_Id (\<lambda>k. with_cl_Id k) (db_Clients db) ?c] (save_row cl_Id (\<lambda>k. with_cl_Id k) ?c (db_Clients db))"
    unfolding appended_def by (rule clients.insert_rows [OF ok(3)]) (simp add: new_client_def)
  have same: "db_Clients db2 = db_Clients db" by (simp add: to(1) ti(1))
  have "out_Tag ` set rs = set (item_outbound_tags (snd (relay_outbounds env req i ?it2)))"
    using to(3) tags(1) by (metis list.set_map)
  moreover have "item_outbound_tags it' = item_outbound_tags (snd (relay_outbounds env req i ?it2))" by (simp add: it' item_outbound_tags_def)
  moreover have "ri_InboundTag it' = in_Tag row" using tags(3) by (simp add: it' ti(3))
  moreover have "ri_ClientID it' = cl_Id (keyed cl_Id (\<lambda>k. with_cl_Id k) (db_Clients db) ?c)" by (simp add: it' same)
  ultimately show ?thesis
    using ti(2) to(2) c clients.keyed_pos [of "db_Clients db" ?c]
    by (auto simp: item_rows_def db' save_client_def same to(1) ti(1) intro!: exI)
qed

lemma item_rows_trans:
  assumes "item_rows db its db1" "item_rows db1 its' db2"
  shows "item_rows db (its @ its') db2"
proof -
  obtain ti to tc inbs outs cs where a: "db1 = db\<lparr>db_Inbounds := ti, db_Outbounds := to, db_Clients := tc\<rparr>"
    "appended (db_Inbounds db) inbs ti" "map in_Tag inbs = map ri_InboundTag its"
    "appended (db_Outbounds db) outs to" "out_Tag ` set outs = set (concat (map item_outbound_tags its))"
    "appended (db_Clients db) cs tc" "map cl_Id cs = map ri_ClientID its" "list_all (\<lambda>it. 0 < ri_ClientID it) its"
    using assms(1) by (auto simp: item_rows_def)
  obtain ti' to' tc' inbs' outs' cs' where b: "db2 = db1\<lparr>db_Inbounds := ti', db_Outbounds := to', db_Clients := tc'\<rparr>"
    "appended ti inbs' ti'" "map in_Tag inbs' = map ri_InboundTag its'"
    "appended to outs' to'" "out_Tag ` set outs' = set (concat (map item_outbound_tags its'))"
    "appended tc cs' tc'" "map cl_Id cs' = map ri_ClientID its'" "list_all (\<lambda>it. 0 < ri_ClientID it) its'"
    using assms(2) a(1) by (auto simp: item_rows_def)
  have "db2 = db\<lparr>db_Inbounds := ti', db_Outbounds := to', db_Clients := tc'\<rparr>" using a(1) b(1) by simp
  moreover have "out_Tag ` set (outs @ outs') = set (concat (map item_outbound_tags (its @ its')))" using a(5) b(5) by (simp add: image_Un)
  moreover note appended_trans [OF a(2) b(2)] appended_trans [OF a(4) b(4)] appended_trans [OF a(6) b(6)]
  moreover have "map in_Tag (inbs @ inbs') = map ri_InboundTag (its @ its')" "map cl_Id (cs @ cs') = map ri_ClientID (its @ its')"
    "list_all (\<lambda>it. 0 < ri_ClientID it) (its @ its')" using a b by simp_all
  ultimately show ?thesis unfolding item_rows_def by blast
qed

definition untagged :: "relay_item list \<Rightarrow> bool" where
  "untagged its \<longleftrightarrow> list_all (\<lambda>it. ri_IPv6OutboundTag it = [] \<and> ri_IPv4OutboundTag it = []) its"

lemma create_items_rows:
  "create_items env req tls i its db = Inr (its', db') \<Longrightarrow> sound_db db \<Longrightarrow> untagged its \<Longrightarrow> item_rows db its' db'"
proof (induction its arbitrary: i db its')
  case Nil
  then show ?case by (auto simp: item_rows_def intro!: exI [of _ "db_Inbounds db"] exI [of _ "db_Outbounds db"] exI [of _ "db_Clients db"] exI [of _ "[]"])
next
  case (Cons it its)
  then obtain it1 db1 its1 where one: "create_item env req tls i it db = Inr (it1, db1)"
    and rest: "create_items env req tls (Suc i) its db1 = Inr (its1, db')" and its': "its' = [it1] @ its1"
    by (auto simp: bindr_Inr_iff)
  have "item_rows db [it1] db1" using create_item_rows [OF one Cons.prems(2)] Cons.prems(3) by (simp add: untagged_def)
  moreover have "item_rows db1 its1 db'"
    using Cons.IH [OF rest create_item_sound [OF one Cons.prems(2)]] Cons.prems(3) by (simp add: untagged_def)
  ultimately show ?case unfolding its' by (rule item_rows_trans)
qed

section \<open>The rows of a pool\<close>

lemma ensureTx_appends:
  assumes "ensureRelayRefreshLinksTx env k its db = Inr db'" "table_ok rl_Id (db_Links db)"
  shows "\<exists>t ls. db' = db\<lparr>db_Links := t\<rparr> \<and> appended (db_Links db) ls t \<and> (\<forall>l\<in>set ls. rl_PoolID l = k)"
  using assms
proof (induction its arbitrary: db)
  case Nil
  then show ?case by (intro exI [of _ "db_Links db"] exI [of _ "[]"]) simp
next
  case (Cons it its)
  then obtain db1 where one: "ensure_link env k it db = Inr db1" and rest: "ensureRelayRefreshLinksTx env k its db1 = Inr db'"
    by (auto simp: bindr_Inr_iff)
  have "\<exists>t ls. db1 = db\<lparr>db_Links := t\<rparr> \<and> appended (db_Links db) ls t \<and> (\<forall>l\<in>set ls. rl_PoolID l = k) \<and> table_ok rl_Id t"
  proof (cases "db1 = db")
    case True
    then show ?thesis using Cons.prems(2) by (intro exI [of _ "db_Links db"] exI [of _ "[]"]) simp
  next
    case False
    then have "create_link env k (ri_InboundTag it) db = Inr db1" using one by (auto simp: ensure_link_def split: if_splits)
    from create_link_Inr [OF this Cons.prems(2)] obtain l where l: "db1 = db\<lparr>db_Links := db_Links db1\<rparr>"
      "tb_Rows (db_Links db1) = tb_Rows (db_Links db) @ [l]" "rl_PoolID l = k" "table_ok rl_Id (db_Links db1)" by blast
    then show ?thesis by (intro exI [of _ "db_Links db1"] exI [of _ "[l]"]) (simp add: appended_def)
  qed
  then obtain t ls where t: "db1 = db\<lparr>db_Links := t\<rparr>" "appended (db_Links db) ls t" "\<forall>l\<in>set ls. rl_PoolID l = k" "table_ok rl_Id t" by blast
  obtain t' ls' where "db' = db1\<lparr>db_Links := t'\<rparr>" "appended t ls' t'" "\<forall>l\<in>set ls'. rl_PoolID l = k"
    using Cons.IH [OF rest] t(1,4) by auto
  then show ?case using appended_trans [OF t(2)] t(1,3) by (intro exI [of _ t'] exI [of _ "ls @ ls'"]) auto
qed

text \<open>What the transaction of a creation adds.\<close>

definition pool_created :: "relay_pool \<Rightarrow> relay_item list \<Rightarrow> panel_db \<Rightarrow> panel_db \<Rightarrow> bool" where
  "pool_created pool its db db' \<longleftrightarrow> rp_Items pool = Some its \<and> rp_Id pool = Suc (tb_Seq (db_Pools db))
     \<and> (\<exists>db1 tp tl ls c. item_rows db its db1 \<and> db' = db1\<lparr>db_Pools := tp, db_Links := tl, db_Config := c\<rparr>
         \<and> appended (db_Pools db) [pool] tp \<and> appended (db_Links db) ls tl \<and> (\<forall>l\<in>set ls. rl_PoolID l = rp_Id pool))"

lemma untagged_numbers: "untagged (number_ports n its) = untagged its"
  by (induction its arbitrary: n) (simp_all add: untagged_def)

lemma create_rows_created:
  assumes "create_rows env req its0 db = Inr ((pool, req'), db')" "sound_db db" "untagged its0"
  shows "\<exists>its. pool_created pool its db db' \<and> update_stored_rules its (rq_DomainStrategy req' = relayDomainStrategyIPv6Only) False
    (db'\<lparr>db_Config := db_Config db\<rparr>) = Inr db'"
proof -
  obtain tls port its db1 db3 where
    items: "create_items env req' tls 0 (number_ports port its0) db = Inr (its, db1)"
    and pool: "pool = keyed rp_Id (\<lambda>k. with_rp_Id k) (db_Pools db1) (new_pool env req' its)"
    and links: "ensureRelayRefreshLinksTx env (rp_Id pool) its
      (db1\<lparr>db_Pools := save_row rp_Id (\<lambda>k. with_rp_Id k) (new_pool env req' its) (db_Pools db1)\<rparr>) = Inr db3"
    and rules: "update_stored_rules its (rq_DomainStrategy req' = relayDomainStrategyIPv6Only) False db3 = Inr db'"
    using assms(1) by (auto simp: create_rows_def bindr_Inr_iff Let_def)
  have rows: "item_rows db its db1" by (rule create_items_rows [OF items assms(2)]) (simp add: untagged_numbers assms(3))
  obtain ti to tc where db1: "db1 = db\<lparr>db_Inbounds := ti, db_Outbounds := to, db_Clients := tc\<rparr>" using rows by (auto simp: item_rows_def)
  let ?tp = "save_row rp_Id (\<lambda>k. with_rp_Id k) (new_pool env req' its) (db_Pools db)"
  have "appended (db_Pools db) [pool] ?tp"
    using pools.insert_rows [OF sound_tables(5) [OF assms(2)], of "new_pool env req' its"]
    by (simp add: appended_def pool db1 new_pool_def)
  moreover have "rp_Items pool = Some its" "rp_Id pool = Suc (tb_Seq (db_Pools db))"
    by (simp_all add: pool keyed_def db1 new_pool_def)
  moreover have "table_ok rl_Id (db_Links db)" using sound_tables(3) [OF assms(2)] by (simp add: sound_table_def)
  then obtain tl ls where tl: "db3 = db1\<lparr>db_Pools := ?tp, db_Links := tl\<rparr>" "appended (db_Links db) ls tl" "\<forall>l\<in>set ls. rl_PoolID l = rp_Id pool"
    using ensureTx_appends [OF links] by (auto simp: db1)
  moreover obtain c where c: "db' = db3\<lparr>db_Config := c\<rparr>" using update_stored_rules_db [OF rules] by blast
  moreover have "db'\<lparr>db_Config := db_Config db\<rparr> = db3" using tl(1) c by (simp add: db1)
  ultimately show ?thesis using rows rules unfolding pool_created_def by auto
qed

section \<open>Deleting it again\<close>

text \<open>Links belong to pools that exist or existed.\<close>

definition no_stray_links :: "panel_db \<Rightarrow> bool" where
  "no_stray_links db \<longleftrightarrow> list_all (\<lambda>l. rl_PoolID l \<le> tb_Seq (db_Pools db)) (tb_Rows (db_Links db))"

text \<open>The same rows in every table, the same settings and traffic; keys given out are not reused.\<close>

definition same_rows :: "panel_db \<Rightarrow> panel_db \<Rightarrow> bool" where
  "same_rows db db' \<longleftrightarrow> (\<exists>ti to tc tp tl c ch. db' = db\<lparr>db_Inbounds := ti, db_Outbounds := to, db_Clients := tc, db_Pools := tp, db_Links := tl,
       db_Config := c, db_Changes := ch\<rparr>
     \<and> tb_Rows ti = tb_Rows (db_Inbounds db) \<and> tb_Rows to = tb_Rows (db_Outbounds db) \<and> tb_Rows tc = tb_Rows (db_Clients db)
     \<and> tb_Rows tp = tb_Rows (db_Pools db) \<and> tb_Rows tl = tb_Rows (db_Links db))"

lemma delete_created_rows:
  assumes created: "pool_created pool its db db1" and sound: "sound_db db" "sound_db db1" and stray: "no_stray_links db"
    and delete: "delete_pool_rows pool its (add_change ch db1) = Inr (u, db2)"
  shows "same_rows db (add_change ch' db2)"
proof -
  obtain dbi tp tl ls c where rows: "item_rows db its dbi" and db1: "db1 = dbi\<lparr>db_Pools := tp, db_Links := tl, db_Config := c\<rparr>"
    and tp: "appended (db_Pools db) [pool] tp" and tl: "appended (db_Links db) ls tl" "\<forall>l\<in>set ls. rl_PoolID l = rp_Id pool"
    and k: "rp_Id pool = Suc (tb_Seq (db_Pools db))" using created by (auto simp: pool_created_def)
  obtain ti to tc inbs outs cs where dbi: "dbi = db\<lparr>db_Inbounds := ti, db_Outbounds := to, db_Clients := tc\<rparr>"
    and ti: "appended (db_Inbounds db) inbs ti" "map in_Tag inbs = map ri_InboundTag its"
    and to: "appended (db_Outbounds db) outs to" "out_Tag ` set outs = set (concat (map item_outbound_tags its))"
    and tc: "appended (db_Clients db) cs tc" "map cl_Id cs = map ri_ClientID its" "list_all (\<lambda>it. 0 < ri_ClientID it) its"
    using rows by (auto simp: item_rows_def)
  have "table_ok cl_Id tc" using sound_tables(4) [OF sound(2)] by (simp add: db1 dbi sound_clients_def)
  then have names: "distinct (map in_Tag (tb_Rows ti))" "distinct (map out_Tag (tb_Rows to))" "distinct (map cl_Id (tb_Rows tc))"
    using sound_tables(1,2) [OF sound(2)] clients.ok_rows(2) [of tc]
    by (simp_all add: db1 dbi sound_table_def tags_ok_def)
  have "set (map ri_InboundTag its) = in_Tag ` set inbs" using ti(2) by (metis list.set_map)
  then have i: "tb_Rows (delete_rows (\<lambda>i. in_Tag i \<in> set (map ri_InboundTag its)) ti) = tb_Rows (db_Inbounds db)"
    using appended_names [OF ti(1) names(1)] by (intro delete_appended [OF ti(1)]) simp_all
  have o1: "tb_Rows (delete_rows (\<lambda>out. out_Tag out \<in> set (concat (map item_outbound_tags its))) to) = tb_Rows (db_Outbounds db)"
    unfolding to(2) [symmetric] using appended_names [OF to(1) names(2)] by (intro delete_appended [OF to(1)]) simp_all
  have "filter (\<lambda>k. k > 0) (map ri_ClientID its) = map cl_Id cs" unfolding tc(2) using tc(3) by (intro filter_True) (simp add: list_all_iff)
  then have c1: "tb_Rows (delete_rows (\<lambda>c. cl_Id c \<in> set (filter (\<lambda>k. k > 0) (map ri_ClientID its))) tc) = tb_Rows (db_Clients db)"
    using appended_names [OF tc(1) names(3)] by (intro delete_appended [OF tc(1)]) simp_all
  have "r \<in> set (tb_Rows (db_Pools db)) \<Longrightarrow> rp_Id r \<noteq> rp_Id pool" for r
    using pools.ok_rows(3) [OF sound_tables(5) [OF sound(1)]] k by fastforce
  then have p1: "tb_Rows (delete_rows (\<lambda>r. rp_Id r = rp_Id pool) tp) = tb_Rows (db_Pools db)"
    by (intro delete_appended [OF tp]) simp_all
  have l1: "tb_Rows (delete_rows (\<lambda>l. rl_PoolID l = rp_Id pool) tl) = tb_Rows (db_Links db)"
    using stray tl(2) k by (intro delete_appended [OF tl(1)]) (auto simp: no_stray_links_def list_all_iff)
  obtain c' where upd: "update_stored_rules its False True (add_change ch db1) = Inr ((add_change ch db1)\<lparr>db_Config := c'\<rparr>)"
    and db2: "db2 = (add_change ch db1)\<lparr>db_Config := c',
         db_Clients := delete_rows (\<lambda>c. cl_Id c \<in> set (filter (\<lambda>k. k > 0) (map ri_ClientID its))) tc,
         db_Inbounds := delete_rows (\<lambda>i. in_Tag i \<in> set (map ri_InboundTag its)) ti,
         db_Outbounds := delete_rows (\<lambda>out. out_Tag out \<in> set (concat (map item_outbound_tags its))) to,
         db_Links := delete_rows (\<lambda>l. rl_PoolID l = rp_Id pool) tl,
         db_Pools := delete_rows (\<lambda>p. rp_Id p = rp_Id pool) tp\<rparr>"
  proof -
    obtain dbx where x: "update_stored_rules its False True (add_change ch db1) = Inr dbx"
      using delete by (auto simp: delete_pool_rows_def bindr_Inr_iff)
    then obtain c' where c': "dbx = (add_change ch db1)\<lparr>db_Config := c'\<rparr>" using update_stored_rules_db by blast
    show thesis by (rule that [of c']) (use delete x c' in \<open>simp_all add: delete_pool_rows_def db1 dbi add_change_def\<close>)
  qed
  have "add_change ch' db2 = db\<lparr>
      db_Inbounds := delete_rows (\<lambda>i. in_Tag i \<in> set (map ri_InboundTag its)) ti,
      db_Outbounds := delete_rows (\<lambda>out. out_Tag out \<in> set (concat (map item_outbound_tags its))) to,
      db_Clients := delete_rows (\<lambda>c. cl_Id c \<in> set (filter (\<lambda>k. k > 0) (map ri_ClientID its))) tc,
      db_Pools := delete_rows (\<lambda>r. rp_Id r = rp_Id pool) tp, db_Links := delete_rows (\<lambda>l. rl_PoolID l = rp_Id pool) tl,
      db_Config := c', db_Changes := db_Changes db @ [ch, ch']\<rparr>"
    unfolding db2 db1 dbi add_change_def by simp
  then show ?thesis unfolding same_rows_def using i o1 c1 p1 l1 by blast
qed

section \<open>The rules\<close>

lemma stored_rules_cases:
  assumes "update_stored_rules its a b db = Inr db'" "db_Config db = Some r"
  shows "\<exists>cfg c. decode_map r = Some cfg \<and> updateRelayRouteRules its a b cfg = Inr c \<and> db' = db\<lparr>db_Config := Some (mustJSON (GMap c))\<rparr>"
  using assms by (auto simp: update_stored_rules_def bindr_Inr_iff split: option.splits raw.splits gval.splits)

definition stored_rules :: "panel_db \<Rightarrow> gval list" where
  "stored_rules db = (case db_Config db of None \<Rightarrow> [] | Some r \<Rightarrow> (case decode_map r of None \<Rightarrow> [] | Some cfg \<Rightarrow> config_rules cfg))"

text \<open>Rules that name none of the pool's inbounds, as they are read from the database.\<close>

definition foreign_rules :: "relay_item list \<Rightarrow> panel_db \<Rightarrow> bool" where
  "foreign_rules its db \<longleftrightarrow> db_Config db \<noteq> None \<and> list_all (rule_foreign its) (stored_rules db) \<and> map json_norm (stored_rules db) = stored_rules db"

lemma rules_restored:
  assumes create: "update_stored_rules its b False (db1\<lparr>db_Config := db_Config db\<rparr>) = Inr db1"
    and delete: "update_stored_rules its False True (add_change ch db1) = Inr db2"
    and its: "distinct (map ri_InboundTag its)" "foreign_rules its db"
  shows "stored_rules db2 = stored_rules db"
proof -
  obtain r where r: "db_Config db = Some r" using its(2) by (auto simp: foreign_rules_def)
  have "db_Config (db1\<lparr>db_Config := db_Config db\<rparr>) = Some r" by (simp add: r)
  from stored_rules_cases [OF create this] obtain cfg c where cfg: "decode_map r = Some cfg" "updateRelayRouteRules its b False cfg = Inr c"
    "db1 = (db1\<lparr>db_Config := db_Config db\<rparr>)\<lparr>db_Config := Some (mustJSON (GMap c))\<rparr>" by blast
  have "db_Config db1 = Some (mustJSON (GMap c))" by (subst cfg(3)) simp
  then have "db_Config (add_change ch db1) = Some (mustJSON (GMap c))" by (simp add: add_change_def)
  from stored_rules_cases [OF delete this] obtain cfg' d where d: "decode_map (mustJSON (GMap c)) = Some cfg'"
    "updateRelayRouteRules its False True cfg' = Inr d" "db2 = (add_change ch db1)\<lparr>db_Config := Some (mustJSON (GMap d))\<rparr>" by blast
  have cfg': "cfg' = stored c" using d(1) by (simp add: stored_def)
  have rules: "stored_rules db = config_rules cfg" by (simp add: stored_rules_def r cfg(1))
  have foreign: "list_all (rule_foreign its) (config_rules cfg)" "map json_norm (config_rules cfg) = config_rules cfg"
    using its(2) by (simp_all add: foreign_rules_def rules)
  note left = created_rules_deleted(1) [OF its(1) cfg(2) foreign]
  have "config_rules (stored d) = config_rules cfg"
    using updateRelayRouteRules_Inr(2) [OF d(2)] by (simp add: cfg' left foreign(2))
  moreover have "decode_map (mustJSON (GMap d)) = Some (stored d)" by (simp add: stored_def)
  ultimately show ?thesis by (simp add: stored_rules_def d(3) r cfg(1) del: decode_map_mustJSON)
qed

section \<open>The items of a request\<close>

definition plain_item :: "relay_item \<Rightarrow> bool" where
  "plain_item it \<longleftrightarrow> \<not> ri_AddedByUs it \<and> ri_IPv6OutboundTag it = [] \<and> ri_IPv4OutboundTag it = []"

lemma fresh_plain: "fresh_item rnd req i used pos = Some (it, used', pos') \<Longrightarrow> plain_item it"
  by (auto simp: fresh_item_def plain_item_def empty_item_def)

lemma upstream_items_plain: "upstream_items rnd req i us used pos = Some (Inr its) \<Longrightarrow> list_all plain_item its"
  by (induction us arbitrary: i used pos its)
    (auto simp: map_sum_Inr_iff index_panic_def set_upstream_def plain_item_def split: sum.splits option.splits prod.splits if_splits
      dest!: fresh_plain [unfolded plain_item_def])

lemma address_items_plain: "address_items rnd req iface plen i ips used pos = Some (Inr its) \<Longrightarrow> list_all plain_item its"
  by (induction ips arbitrary: i used pos its)
    (auto simp: map_sum_Inr_iff index_panic_def set_upstream_def plain_item_def Let_def split: sum.splits option.splits prod.splits if_splits
      dest!: fresh_plain [unfolded plain_item_def])

lemma prepareRelayItems_plain:
  assumes "prepareRelayItems ifs rnd pos rnd6 pos6 req = Some (Inr its)"
  shows "list_all plain_item its"
proof (cases "rq_Mode req = relayModeUpstream")
  case True
  then obtain us where "upstream_items rnd req 0 (rq_Upstreams req) {} pos = Some (Inr us)" "its = us @ replicate (nat (rq_Count req) - length us) empty_item"
    using assms by (auto simp: prepareRelayItems_def map_sum_Inr_iff)
  then show ?thesis using upstream_items_plain by (auto simp: list_all_iff plain_item_def empty_item_def)
next
  case False
  then show ?thesis using assms
    by (auto simp: prepareRelayItems_def NewErrorf_def bind_eq_Some_conv split: sum.splits if_splits prod.splits intro: address_items_plain)
qed

text \<open>The items that were marked are the ones whose address was added.\<close>

lemma add_addresses_marks:
  "add_addresses env allowed existing its = (Inr its', added) \<Longrightarrow> list_all plain_item its \<Longrightarrow>
     added = filter ri_AddedByUs its' \<and> untagged its'"
proof (induction its arbitrary: existing its' added)
  case (Cons it its)
  show ?case
  proof (cases "ri_IPv6 it = [] \<or> ri_IPv6 it \<in> existing")
    case True
    then obtain r where "add_addresses env allowed existing its = (Inr r, added)" "its' = it # r"
      using Cons.prems(1) by (auto simp: map_sum_Inr_iff split: prod.splits)
    then show ?thesis using Cons.IH Cons.prems(2) by (auto simp: plain_item_def untagged_def)
  next
    case False
    then obtain r a where "add_addresses env allowed (insert (ri_IPv6 it) existing) its = (Inr r, a)"
      "its' = it\<lparr>ri_AddedByUs := True\<rparr> # r" "added = it\<lparr>ri_AddedByUs := True\<rparr> # a"
      using Cons.prems(1) by (auto simp: map_sum_Inr_iff NewErrorf_def Let_def split: prod.splits if_splits sum.splits)
    then show ?thesis using Cons.IH Cons.prems(2) by (auto simp: plain_item_def untagged_def)
  qed
qed (simp add: untagged_def)

text \<open>Writing the rows of an item does not touch its address.\<close>

definition same_address :: "relay_item \<Rightarrow> relay_item \<Rightarrow> bool" where
  "same_address a b \<longleftrightarrow> ri_AddedByUs b = ri_AddedByUs a \<and> ri_IPv6 b = ri_IPv6 a \<and> ri_Interface b = ri_Interface a \<and> ri_Prefix b = ri_Prefix a"

lemma same_address_trans: "same_address a b \<Longrightarrow> same_address b c \<Longrightarrow> same_address a c"
  by (simp add: same_address_def)

lemma credentials_address: "only_credentials it it' \<Longrightarrow> same_address it it'"
  by (auto simp: only_credentials_def same_address_def)

lemma outbounds_address: "same_address it (snd (relay_outbounds env req i it))"
  by (simp add: relay_outbounds_def same_address_def Let_def)

lemma create_item_address:
  assumes "create_item env req tls i it db = Inr (it', db')"
  shows "same_address it it'"
proof -
  obtain opts cfg it1 k t c p m u e where cfg: "relayProtocolConfig (re_Uuid env i) (re_Bytes env) (64 * i) req it = Inr (opts, cfg, it1)"
    and it': "it' = (snd (relay_outbounds env req i (it1\<lparr>ri_InboundID := k, ri_InboundTag := t\<rparr>)))
      \<lparr>ri_ClientID := c, ri_Protocol := p, ri_Method := m, ri_UUID := u, ri_Export := e\<rparr>"
    using assms by (auto simp: create_item_def bindr_Inr_iff Let_def split_beta)
  have "same_address it1 it'"
    using outbounds_address [of "it1\<lparr>ri_InboundID := k, ri_InboundTag := t\<rparr>" env req i] by (simp add: it' same_address_def)
  with credentials_address [OF relayProtocolConfig_Inr(3) [OF cfg]] show ?thesis by (rule same_address_trans)
qed

lemma create_items_address: "create_items env req tls i its db = Inr (its', db') \<Longrightarrow> list_all2 same_address its its'"
  by (induction its arbitrary: i db its') (auto simp: bindr_Inr_iff dest: create_item_address)

lemma number_ports_address: "list_all2 same_address its (number_ports n its)"
  by (induction its arbitrary: n) (simp_all add: same_address_def)

lemma owned_Cons: "owned_addresses env (it # its) =
    (if ri_AddedByUs it \<and> deleteRelayAddress env (ri_Interface it) (ri_IPv6 it) (ri_Prefix it) = Inr True
     then it # owned_addresses env its else owned_addresses env its)"
  by (simp add: owned_addresses_def)

lemma delete_works:
  "deletions_work env \<Longrightarrow> re_Linux env \<Longrightarrow> re_Root env \<Longrightarrow> iface \<noteq> [] \<Longrightarrow> ip \<noteq> [] \<Longrightarrow> deleteRelayAddress env iface ip n = Inr True"
  by (simp add: deleteRelayAddress_def deletions_work_def)

lemma same_owned:
  assumes "list_all2 same_address its its'" "list_all (deletable env) (filter ri_AddedByUs its)"
    and env': "deletions_work env'" "re_Linux env'" "re_Root env'"
  shows "map delete_command (owned_addresses env' its') = map delete_command (filter ri_AddedByUs its)"
  using assms(1,2)
proof (induction rule: list_all2_induct)
  case (Cons x xs y ys)
  then show ?case
    using delete_works [OF env', of "ri_Interface x" "ri_IPv6 x" "ri_Prefix x"]
    by (auto simp: owned_Cons same_address_def delete_command_def deletable_def)
qed (simp add: owned_addresses_def)

lemma create_rows_address:
  assumes "create_rows env req its0 db = Inr ((pool, req'), db')" "rp_Items pool = Some its"
  shows "list_all2 same_address its0 its"
proof -
  obtain tls port its1 db1 where items: "create_items env req' tls 0 (number_ports port its0) db = Inr (its1, db1)"
    and pool: "pool = keyed rp_Id (\<lambda>k. with_rp_Id k) (db_Pools db1) (new_pool env req' its1)"
    using assms(1) by (auto simp: create_rows_def bindr_Inr_iff Let_def)
  have "its1 = its" using assms(2) by (simp add: pool keyed_def new_pool_def)
  then show ?thesis using create_items_address [OF items] number_ports_address [of its0 port]
    list_all2_trans [of same_address same_address same_address] same_address_trans by blast
qed

section \<open>The operations\<close>

lemma start_after_db:
  assumes "start_after env msg p = (r, p')"
  shows "pn_Db p' = pn_Db p"
proof -
  have "kept (snd (StartCore (re_Config env) p)) = kept p" by simp
  then show ?thesis using assms by (auto simp: start_after_def kept_def split: if_splits prod.splits sum.splits)
qed

lemma create_added_Inr:
  assumes "create_added env req_json actor req r added s = (Inr pool, s1)"
  shows "\<exists>its pool0 req' db ch. r = Inr its \<and> create_rows env req its (pn_Db (rs_Panel s)) = Inr ((pool0, req'), db)
    \<and> pn_Db (rs_Panel s1) = add_change ch db \<and> rp_Id pool = rp_Id pool0 \<and> rs_Log s1 = rs_Log s @ map add_command added"
proof -
  let ?s = "log_commands (map add_command added) s"
  obtain pool0 sa where cl: "cleaning_up env added (bind_svc (lift_svc r) (create_commit env req_json actor req)) ?s = (Inr pool0, sa)"
    and start: "bind_svc (on_panel (start_after env ''relay saved, but core update failed: ''))
      (\<lambda>_ s. (Inr (populated (pn_Db (rs_Panel s)) pool0), s)) sa = (Inr pool, s1)"
    using assms by (auto simp: create_added_def bind_svc_Inr)
  obtain u p1 where after: "start_after env ''relay saved, but core update failed: '' (rs_Panel sa) = (Inr u, p1)" and s1: "s1 = sa\<lparr>rs_Panel := p1\<rparr>"
    and pool: "pool = populated (pn_Db p1) pool0"
    using start by (auto simp: bind_svc_Inr on_panel_def split: prod.splits)
  obtain its where its: "r = Inr its" and commit: "create_commit env req_json actor req its ?s = (Inr pool0, sa)"
    using cl by (auto simp: cleaning_up_def bind_svc_Inr lift_svc_Inr split: prod.splits sum.splits)
  obtain req' p2 where tx: "relay_transaction env ''relay configuration rejected by sing-box: '' (create_rows env req its)
      (\<lambda>(pool, req'). relay_change env actor ''create'' (req_json req')) (rs_Panel ?s) = (Inr (pool0, req'), p2)" and sa: "sa = ?s\<lparr>rs_Panel := p2\<rparr>"
    using commit by (auto simp: create_commit_def bind_svc_Inr lift_svc_Inr on_panel_def split: prod.splits)
  obtain db where db: "create_rows env req its (pn_Db (rs_Panel s)) = Inr ((pool0, req'), db)"
    "committed env (relay_change env actor ''create'' (req_json req')) db (rs_Panel ?s) p2"
    using relay_transaction_outcome [OF tx] by (auto simp: log_commands_def)
  have "pn_Db (rs_Panel s1) = add_change (relay_change env actor ''create'' (req_json req')) db"
    using db(2) start_after_db [OF after] by (auto simp: s1 sa committed_def)
  moreover have "rp_Id pool = rp_Id pool0"
    by (auto simp: pool populated_def populateRelayRefreshTokens_def map_sum_def items_error_def split: sum.split list.split option.splits)
  moreover have "rs_Log s1 = rs_Log s @ map add_command added" by (simp add: s1 sa log_commands_def)
  ultimately show ?thesis using its db(1) by blast
qed

lemma DeleteRelay_Inr:
  assumes "DeleteRelay env k actor s = (Inr u, s')" "find_row rp_Id k (db_Pools (pn_Db (rs_Panel s))) = Some pool" "rp_Items pool = Some its"
  shows "\<exists>db ch. delete_pool_rows pool its (pn_Db (rs_Panel s)) = Inr ((), db) \<and> pn_Db (rs_Panel s') = add_change ch db"
    "rs_Log s' = rs_Log s @ map delete_command (owned_addresses env its)"
proof -
  let ?ch = "\<lambda>_::unit. relay_change env actor ''delete'' (mustJSON (GInt (int k)))"
  obtain p1 where tx: "relay_transaction env ''remaining configuration rejected by sing-box: '' (delete_pool_rows pool its) ?ch (rs_Panel s) = (Inr (), p1)"
    and s': "s' = delete_addresses env (filter ri_AddedByUs its) (s\<lparr>rs_Panel := p1\<rparr>)"
    using assms by (auto simp: DeleteRelay_def bind_svc_Inr on_panel_def split: prod.splits)
  show "\<exists>db ch. delete_pool_rows pool its (pn_Db (rs_Panel s)) = Inr ((), db) \<and> pn_Db (rs_Panel s') = add_change ch db"
    using relay_transaction_outcome [OF tx] by (auto simp: s' committed_def delete_addresses_def log_commands_def)
  show "rs_Log s' = rs_Log s @ map delete_command (owned_addresses env its)" by (simp add: s' delete_owned)
qed

text \<open>
  C6. Creating a pool and deleting it gives back the panel of before. Every table has the rows it
  had; the rules of the stored configuration are the old ones when they name none of the pool's
  inbounds; and the addresses put on the interfaces by the creation are removed by the deletion.
  What stays is the two changes in the log and the numbers given out. That links belong to
  pools is kept by all operations on links.
\<close>

theorem create_then_delete_relay:
  assumes create: "CreateRelay env req_json req actor host s = Some (Inr pool, s1)"
    and delete: "DeleteRelay env' (rp_Id pool) actor' s1 = (Inr (), s2)"
    and sound: "sound_db (pn_Db (rs_Panel s))" "no_stray_links (pn_Db (rs_Panel s))"
  shows "same_rows (pn_Db (rs_Panel s)) (pn_Db (rs_Panel s2))
    \<and> (\<exists>row its. find_row rp_Id (rp_Id pool) (db_Pools (pn_Db (rs_Panel s1))) = Some row \<and> rp_Items row = Some its
        \<and> (foreign_rules its (pn_Db (rs_Panel s)) \<longrightarrow> stored_rules (pn_Db (rs_Panel s2)) = stored_rules (pn_Db (rs_Panel s))))
    \<and> (deletions_work env' \<and> re_Linux env' \<and> re_Root env' \<longrightarrow>
        (\<exists>added. rs_Log s2 = rs_Log s @ map add_command added @ map delete_command added))"
proof -
  let ?db = "pn_Db (rs_Panel s)"
  obtain req1 its0 existing r added where prep: "prepareRelayItems (re_Interfaces env) (re_Names env) 5 (re_Addresses env) 0 req1 = Some (Inr its0)"
    and add: "add_addresses env (rq_AddSystemAddresses req1) existing its0 = (r, added)"
    and body: "create_added env req_json actor req1 r added s = (Inr pool, s1)"
    using create by (auto simp: CreateRelay_def bindr_Inr_iff split: sum.splits option.splits prod.splits)
  obtain its1 row req' db ch where r: "r = Inr its1" and rows: "create_rows env req1 its1 ?db = Inr ((row, req'), db)"
    and s1: "pn_Db (rs_Panel s1) = add_change ch db" "rp_Id pool = rp_Id row" "rs_Log s1 = rs_Log s @ map add_command added"
    using create_added_Inr [OF body] by blast
  have marks: "added = filter ri_AddedByUs its1" "untagged its1"
    using add_addresses_marks [OF add [unfolded r] prepareRelayItems_plain [OF prep]] by blast+
  obtain its where created: "pool_created row its ?db db"
    and rules: "update_stored_rules its (rq_DomainStrategy req' = relayDomainStrategyIPv6Only) False (db\<lparr>db_Config := db_Config ?db\<rparr>) = Inr db"
    using create_rows_created [OF rows sound(1) marks(2)] by blast
  have db: "sound_db db" using create_rows_sound sound(1) rows unfolding keeps_sound_def by blast
  have items: "rp_Items row = Some its" using created by (simp add: pool_created_def)
  have "row \<in> set (tb_Rows (db_Pools db))" using created by (auto simp: pool_created_def appended_def)
  then have found: "find_row rp_Id (rp_Id pool) (db_Pools (pn_Db (rs_Panel s1))) = Some row"
    using pools.find_Some [OF sound_tables(5) [OF db]] by (simp add: s1 add_change_def)
  obtain db2 ch' where del: "delete_pool_rows row its (add_change ch db) = Inr ((), db2)" and s2: "pn_Db (rs_Panel s2) = add_change ch' db2"
    and log: "rs_Log s2 = rs_Log s1 @ map delete_command (owned_addresses env' its)"
    using DeleteRelay_Inr [OF delete found items] by (auto simp: s1(1))
  have same: "same_rows ?db (pn_Db (rs_Panel s2))"
    unfolding s2 by (rule delete_created_rows [OF created sound(1) db sound(2) del])
  have "stored_rules (pn_Db (rs_Panel s2)) = stored_rules ?db" if "foreign_rules its ?db"
  proof -
    obtain dbx where x: "update_stored_rules its False True (add_change ch db) = Inr dbx" "db_Config db2 = db_Config dbx"
      using del by (auto simp: delete_pool_rows_def bindr_Inr_iff)
    obtain inbs ti where "appended (db_Inbounds ?db) inbs ti" "map in_Tag inbs = map ri_InboundTag its" "db_Inbounds db = ti"
      using created by (auto simp: pool_created_def item_rows_def)
    moreover have "distinct (map in_Tag (tb_Rows (db_Inbounds db)))" using sound_tables(1) [OF db] by (simp add: sound_table_def tags_ok_def)
    ultimately have "distinct (map ri_InboundTag its)" by (auto simp: appended_def)
    from rules_restored [OF rules x(1) this that] show ?thesis by (simp add: s2 stored_rules_def x(2) add_change_def)
  qed
  moreover have "\<exists>added. rs_Log s2 = rs_Log s @ map add_command added @ map delete_command added"
    if "deletions_work env'" "re_Linux env'" "re_Root env'"
  proof -
    have "list_all (deletable env) added" using add_addresses_deletable [of env "rq_AddSystemAddresses req1" existing its0] add by simp
    then have "map delete_command (owned_addresses env' its) = map delete_command added"
      using same_owned [OF create_rows_address [OF rows items] _ that, of env] by (simp add: marks(1))
    then show ?thesis using log s1(3) by (intro exI [of _ added]) simp
  qed
  ultimately show ?thesis using same found items by blast
qed

section \<open>An example\<close>

text \<open>One SOCKS item whose address is not on the interface yet.\<close>

definition create_request :: relay_request where
  "create_request = (protocol_request ''socks'')\<lparr>rq_Name := ''pool'', rq_Count := 1, rq_PortStart := 20000, rq_PublicHost := ''203.0.113.5'',
     rq_PasswordLength := 8, rq_UsernamePrefix := ''u'', rq_BaseIPv6 := ''2001:db8::1/64'', rq_Interface := ''eth0'', rq_CoreType := ''sing-box'',
     rq_DomainStrategy := ''ipv6_only'', rq_ShadowsocksMethod := ''2022-blake3-aes-256-gcm'',
     rq_IPv6Addresses := [''2001:db8::2''], rq_AddSystemAddresses := True\<rparr>"

definition create_state :: relay_state where
  "create_state = \<lparr>rs_Panel = example_panel\<lparr>pn_Core := stopped_core, pn_Db := empty_db\<lparr>db_Config := Some (RVal (GMap []))\<rparr>\<rparr>, rs_Log = []\<rparr>"

definition created_item :: relay_item where
  "created_item = empty_item\<lparr>ri_ListenPort := 20000, ri_Username := username_candidate (re_Names example_machine) ''u'' 0 5,
     ri_Password := Random (re_Names example_machine) 9 8, ri_IPv6 := ''2001:db8::2'', ri_Interface := ''eth0'', ri_Prefix := 64\<rparr>"

lemma created_item_prepared: "prepareRelayItems (re_Interfaces example_machine) (re_Names example_machine) 5 (re_Addresses example_machine) 0 create_request = Some (Inr [created_item])"
proof -
  have base: "resolveRelayBase (re_Interfaces example_machine) create_request = Inr (V6 0x20010db8000000000000000000000001 [], 64, ''eth0'')" by code_simp
  have asked: "requested_addresses (V6 0x20010db8000000000000000000000001 []) 64 [''2001:db8::2''] {} []
    = Inr ([V6 0x20010db8000000000000000000000002 []], {''2001:db8::2''})" by code_simp
  have f: "rq_Mode create_request = relayModeIPv6" "rq_IPv6Addresses create_request = [''2001:db8::2'']" "rq_Count create_request = 1"
    "rq_PortStart create_request = 20000" "rq_PasswordLength create_request = 8" "rq_UsernamePrefix create_request = ''u''" by (simp_all add: create_request_def protocol_request_def)
  have user: "uniqueRelayUsername (re_Names example_machine) ''u'' 0 {} 5 = Some (username_candidate (re_Names example_machine) ''u'' 0 5, 9)"
    using uniqueRelayUsername_first [of "re_Names example_machine" "''u''" 0 5 "{}"] by simp
  have text_of: "addr_String (V6 0x20010db8000000000000000000000002 []) = ''2001:db8::2''" by code_simp
  have modes: "\<not> relayModePairsUpstream relayModeIPv6" "relayModeIPv6 \<noteq> relayModeUpstream" by code_simp+
  show ?thesis
    by (simp add: prepareRelayItems_def f base asked draw_addresses_done fresh_item_def user text_of modes Let_def created_item_def del: requested_addresses.simps)
qed

abbreviation created_run :: "relay_pool result \<times> relay_state" where
  "created_run \<equiv> create_added example_machine (\<lambda>_. RNil) ''admin'' create_request
     (Inr [created_item\<lparr>ri_AddedByUs := True\<rparr>]) [created_item\<lparr>ri_AddedByUs := True\<rparr>] create_state"

lemma create_example: "CreateRelay example_machine (\<lambda>_. RNil) create_request ''admin'' [] create_state = Some created_run"
proof -
  have "normalizeRelayRequest example_machine create_request [] = Inr create_request"
    "check_pairs create_request [created_item] = Inr ()" "existing_addresses example_machine create_request = Inr {''2001:db8::1''}"
    "rq_AddSystemAddresses create_request"
    "add_addresses example_machine True {''2001:db8::1''} [created_item] = (Inr [created_item\<lparr>ri_AddedByUs := True\<rparr>], [created_item\<lparr>ri_AddedByUs := True\<rparr>])"
    by code_simp+
  then show ?thesis by (simp add: CreateRelay_def created_item_prepared del: add_addresses.simps)
qed

theorem create_then_delete_relay_witness:
  "\<exists>pool s1 s2. CreateRelay example_machine (\<lambda>_. RNil) create_request ''admin'' [] create_state = Some (Inr pool, s1)
     \<and> length (tb_Rows (db_Inbounds (pn_Db (rs_Panel s1)))) = 1
     \<and> DeleteRelay example_machine (rp_Id pool) ''admin'' s1 = (Inr (), s2) \<and> same_rows (pn_Db (rs_Panel create_state)) (pn_Db (rs_Panel s2))"
proof -
  have "map_sum id rp_Id (fst created_run) = Inr 1" by code_simp
  then obtain pool s1 where run: "created_run = (Inr pool, s1)" "rp_Id pool = 1" by (cases created_run) (auto simp: map_sum_Inr_iff)
  have "map_sum id (\<lambda>_. ()) (fst (DeleteRelay example_machine 1 ''admin'' (snd created_run))) = Inr ()" by code_simp
  then have "fst (DeleteRelay example_machine (rp_Id pool) ''admin'' s1) = Inr ()" unfolding run by (auto simp: map_sum_Inr_iff run(2))
  then obtain s2 where delete: "DeleteRelay example_machine (rp_Id pool) ''admin'' s1 = (Inr (), s2)" by (metis prod.collapse)
  have "length (tb_Rows (db_Inbounds (pn_Db (rs_Panel (snd created_run))))) = 1" by code_simp
  then have one: "length (tb_Rows (db_Inbounds (pn_Db (rs_Panel s1)))) = 1" unfolding run by simp
  have sound: "sound_db (pn_Db (rs_Panel create_state))" "no_stray_links (pn_Db (rs_Panel create_state))" by code_simp+
  from create_then_delete_relay [OF create_example [unfolded run] delete sound] create_example [unfolded run] one delete show ?thesis by blast
qed

end
