(* ===== verification/Quick_Add.thy ===== *)
theory Quick_Add
  imports Config_Service Agent_Nodes Relay_Items
begin

text \<open>
  Inbounds that a remote panel adds in one request (\<^verbatim>\<open>service/remote_quick_add.go\<close>) and the single
  saves it sends (\<^verbatim>\<open>service/local_control.go\<close>). Both go through \<open>SaveWithRevision\<close>, one transaction for each
  object, and are sequences of operations on the panel. The environment has one draw of each
  random value for every index, and the generator of certificates with the digest of its result.
\<close>

section \<open>Requests\<close>

record quick_request =
  qr_CoreType :: string
  qr_Protocol :: string
  qr_Tag :: string
  qr_Count :: int
  qr_Port :: int
  qr_Password :: string
  qr_Method :: string
  qr_ObfsPassword :: string
  qr_HandshakeServer :: string
  qr_ExpectedRevision :: nat
  qr_Actor :: string
  qr_PublicHost :: string

record quick_item =
  qi_ID :: nat
  qi_Tag :: string
  qi_Port :: int
  qi_ClientID :: nat
  qi_ClientName :: string

record quick_env =
  qe_Config :: config_env
  qe_NameDraw :: "nat \<Rightarrow> nat \<Rightarrow> nat"
  qe_PasswordDraw :: "nat \<Rightarrow> nat \<Rightarrow> nat"
  qe_ObfsDraw :: "nat \<Rightarrow> nat \<Rightarrow> nat"
  qe_UUID :: "nat \<Rightarrow> string"
  qe_IsLetter :: "string \<Rightarrow> bool"
  qe_Certificate :: "string \<Rightarrow> (string \<times> string \<times> string) result"

definition maxRemoteQuickAddCount :: int where
  "maxRemoteQuickAddCount = 100"

definition remoteQuickAddProtocols :: "string \<Rightarrow> string list" where
  "remoteQuickAddProtocols core =
     (if core = CoreTypeSingBox then
        [''mixed'', ''socks'', ''http'', ''shadowsocks'', ''vmess'', ''trojan'', ''vless'', ''hysteria2'', ''shadowtls'', ''tuic'',
         ''naive'', ''anytls'', ''direct'']
      else if core = CoreTypeXray then
        [''vless'', ''vmess'', ''trojan'', ''shadowsocks'', ''socks'', ''http'', ''mixed'', ''hysteria2'', ''dokodemo-door'']
      else [])"

definition remoteQuickAddTLSProtocols :: "string list" where
  "remoteQuickAddTLSProtocols = [''vmess'', ''vless'', ''trojan'', ''hysteria2'', ''tuic'', ''naive'', ''anytls'']"

definition remoteQuickAddClientProtocols :: "string list" where
  "remoteQuickAddClientProtocols =
     [''shadowsocks'', ''vmess'', ''vless'', ''trojan'', ''hysteria2'', ''shadowtls'', ''tuic'', ''naive'', ''anytls'']"

definition quick_method :: "string \<Rightarrow> string \<Rightarrow> string \<Rightarrow> string" where
  "quick_method core proto v =
     (let m = TrimSpace v; m1 = (if m = [] then ''2022-blake3-aes-256-gcm'' else m)
      in if core = CoreTypeXray \<and> proto = ''shadowsocks'' then ''2022-blake3-aes-256-gcm'' else m1)"

definition validateRemoteQuickAddRequest :: "quick_request \<Rightarrow> quick_request result" where
  "validateRemoteQuickAddRequest r =
     (let core0 = TrimSpace (qr_CoreType r); core = (if core0 = [] then CoreTypeSingBox else core0);
          proto = ToLower (TrimSpace (qr_Protocol r)); tag = TrimSpace (qr_Tag r); meth = quick_method core proto (qr_Method r)
      in if proto \<notin> set (remoteQuickAddProtocols core) then
           NewErrorf (''protocol '' @ quoted proto @ '' is not supported by '' @ core)
         else if qr_Count r < 1 \<or> qr_Count r > maxRemoteQuickAddCount then NewErrorf ''quick add count must be between 1 and 100''
         else if qr_Port r < 1 \<or> qr_Port r > 65535 then NewError ''quick add port must be between 1 and 65535''
         else if rune_count tag > 100 then NewError ''quick add tag is too long''
         else if has_control tag then NewError ''quick add tag contains control characters''
         else if proto = ''shadowsocks'' \<and> meth \<notin> set relayShadowsocksMethods then
           NewErrorf (''unsupported Shadowsocks method '' @ quoted meth)
         else Inr (r\<lparr>qr_CoreType := core, qr_Protocol := proto, qr_Tag := tag, qr_Method := meth\<rparr>))"

definition normalizeRemoteActor :: "string \<Rightarrow> string result" where
  "normalizeRemoteActor v =
     (let value = TrimSpace v; actor = (if value = [] then ''remote-panel'' else value)
      in if rune_count actor > 100 then NewError ''actor is too long''
         else if has_control actor then NewError ''actor contains control characters''
         else Inr actor)"

section \<open>Ports and tags\<close>

text \<open>
  What an entry of the list of inbounds holds in Go. The list of the panel keeps the port as the
  \<^verbatim>\<open>json.RawMessage\<close> it was stored as, for which \<open>intFromInterface\<close> has no case.
\<close>

datatype go_number = Go_Int int | Go_Float rat | Go_Raw gval | Go_Other

definition intFromInterface :: "go_number \<Rightarrow> int" where
  "intFromInterface v = (case v of Go_Int n \<Rightarrow> n | Go_Float r \<Rightarrow> trunc_rat r | _ \<Rightarrow> 0)"

type_synonym listed_inbound = "go_number \<times> string"

definition shown_item :: "gmap \<Rightarrow> listed_inbound" where
  "shown_item m = (if mhas m ''listen_port'' then Go_Raw (mget m ''listen_port'') else Go_Other, as_str (mget m ''tag''))"

definition used_ports :: "listed_inbound list \<Rightarrow> int list" where
  "used_ports items = filter (\<lambda>n. n > 0) (map (\<lambda>(v, _). intFromInterface v) items)"

definition used_tags :: "listed_inbound list \<Rightarrow> string list" where
  "used_tags items = filter (\<lambda>t. t \<noteq> []) (map snd items)"

definition next_port :: "int \<Rightarrow> int" where
  "next_port c = (if c + 1 > 65535 then 1 else c + 1)"

text \<open>\<open>left\<close> is what is left of the 65535 attempts.\<close>

function find_port :: "int \<Rightarrow> int list \<Rightarrow> int \<Rightarrow> int option" where
  "find_port left used c =
     (if left \<le> 0 then None else if c \<in> set used then find_port (left - 1) used (next_port c) else Some c)"
  by pat_completeness auto

termination find_port
  by (relation "measure (\<lambda>(left, used, c). nat left)") auto

declare find_port.simps [simp del]

fun find_ports :: "nat \<Rightarrow> int list \<Rightarrow> int \<Rightarrow> int list option" where
  "find_ports 0 used c = Some []"
| "find_ports (Suc n) used c =
     (case find_port 65535 used c of
        None \<Rightarrow> None
      | Some p \<Rightarrow> map_option (\<lambda>ps. p # ps) (find_ports n (p # used) (next_port p)))"

definition copy_name :: "string \<Rightarrow> nat \<Rightarrow> string" where
  "copy_name initial k = (if k = 0 then initial else initial @ ''-copy'' @ Itoa (int k))"

lemma copy_name_inj: "copy_name initial j = copy_name initial k \<longleftrightarrow> j = k"
  by (auto simp: copy_name_def dest: Itoa_inj)

function free_name :: "string list \<Rightarrow> string \<Rightarrow> nat \<Rightarrow> string" where
  "free_name used initial k =
     (if copy_name initial k \<in> set used then free_name used initial (Suc k) else copy_name initial k)"
  by pat_completeness auto

lemma taken_copies: "finite {j. k \<le> j \<and> copy_name initial j \<in> set used}"
proof (rule finite_imageD)
  show "finite (copy_name initial ` {j. k \<le> j \<and> copy_name initial j \<in> set used})"
    by (rule finite_subset [of _ "set used"]) auto
  show "inj_on (copy_name initial) {j. k \<le> j \<and> copy_name initial j \<in> set used}"
    by (simp add: inj_on_def copy_name_inj)
qed

termination free_name
proof (relation "measure (\<lambda>(used, initial, k). card {j. k \<le> j \<and> copy_name initial j \<in> set used})", goal_cases)
  case (2 used initial k)
  have "{j. Suc k \<le> j \<and> copy_name initial j \<in> set used} \<subset> {j. k \<le> j \<and> copy_name initial j \<in> set used}"
  proof (rule psubsetI)
    have "k \<in> {j. k \<le> j \<and> copy_name initial j \<in> set used}" using 2 by simp
    moreover have "k \<notin> {j. Suc k \<le> j \<and> copy_name initial j \<in> set used}" by simp
    ultimately show "{j. Suc k \<le> j \<and> copy_name initial j \<in> set used} \<noteq> {j. k \<le> j \<and> copy_name initial j \<in> set used}" by blast
  qed (auto intro: Suc_leD)
  then show ?case using taken_copies by (simp add: psubset_card_mono)
qed simp

declare free_name.simps [simp del]

fun free_tags :: "string list \<Rightarrow> string list \<Rightarrow> string list" where
  "free_tags used [] = []"
| "free_tags used (initial # rest) = (let tag = free_name used initial 0 in tag # free_tags (tag # used) rest)"

definition first_tags :: "string \<Rightarrow> nat \<Rightarrow> string list" where
  "first_tags base n = (if n > 1 then map (\<lambda>i. base @ ''-'' @ Itoa (int i + 1)) [0..<n] else replicate n base)"

text \<open>The first port names the tags; the count of a request that was checked is at least one, so there is one.\<close>

definition allocateRemoteQuickAdd :: "listed_inbound list \<Rightarrow> int \<Rightarrow> nat \<Rightarrow> string \<Rightarrow> string \<Rightarrow> (int list \<times> string list) result" where
  "allocateRemoteQuickAdd items start n baseTag proto =
     (case find_ports n (used_ports items) start of
        None \<Rightarrow> NewError ''no available ports for quick add''
      | Some ports \<Rightarrow>
          let base = (if baseTag = [] then proto @ ''-'' @ Itoa (hd ports) else baseTag)
          in Inr (ports, free_tags (used_tags items) (first_tags base n)))"

section \<open>The objects\<close>

definition quickAddPassword :: "quick_env \<Rightarrow> quick_request \<Rightarrow> nat \<Rightarrow> string" where
  "quickAddPassword env r index =
     (if index = 0 \<and> TrimSpace (qr_Password r) \<noteq> [] then qr_Password r
      else if qr_Protocol r = ''shadowsocks'' then relayShadowsocksKey (qe_PasswordDraw env index) 0 (qr_Method r)
      else Random (qe_PasswordDraw env index) 0 20)"

definition ws_or_plain :: "bool \<Rightarrow> string \<Rightarrow> gmap \<Rightarrow> gval" where
  "ws_or_plain isXray publicHost plain =
     GMap (if isXray then [(''type'', GStr ''ws''), (''path'', GStr ''/''), (''host'', GStr publicHost)] else plain)"

definition quick_fields :: "quick_env \<Rightarrow> quick_request \<Rightarrow> nat \<Rightarrow> string \<Rightarrow> string \<Rightarrow> gmap" where
  "quick_fields env r index password0 publicHost =
     (let p = qr_Protocol r; isXray = (qr_CoreType r = CoreTypeXray) in
      if p = ''shadowsocks'' then
        [(''method'', GStr (if isXray then ''2022-blake3-aes-256-gcm'' else qr_Method r)), (''password'', GStr password0)]
      else if p = ''vmess'' then [(''transport'', ws_or_plain isXray publicHost [(''type'', GStr ''http'')])]
      else if p = ''vless'' then
        [(''transport'', GMap (if isXray then [(''type'', GStr ''xhttp''), (''path'', GStr ''/xhttp''), (''host'', GStr publicHost),
            (''mode'', GStr ''auto'')] else []))]
      else if p = ''trojan'' then [(''transport'', ws_or_plain isXray publicHost [])]
      else if p = ''hysteria2'' then
        (if isXray then [(''transport'', GMap [(''type'', GStr ''hysteria''), (''udp_idle_timeout'', GInt 60)])]
         else let given = TrimSpace (qr_ObfsPassword r);
                  obfs = (if given = [] then b64_encode b64_std (Random (qe_ObfsDraw env index) 0 16) else given)
              in [(''obfs'', GMap [(''type'', GStr ''salamander''), (''password'', GStr obfs)])])
      else if p = ''shadowtls'' then
        (let given = TrimSpace (qr_HandshakeServer r); server = (if given = [] then ''www.microsoft.com'' else given)
         in [(''version'', GInt 3), (''password'', GStr password0),
             (''handshake'', GMap [(''server'', GStr server), (''server_port'', GInt 443)])])
      else if p = ''tuic'' then [(''congestion_control'', GStr ''cubic'')]
      else if p = ''anytls'' then [(''padding_scheme'', GStrs anytls_padding)]
      else if p = ''dokodemo-door'' then
        [(''network'', GStr ''tcp,udp''), (''follow_redirect'', GBool True),
         (''sniffing'', GMap [(''enabled'', GBool True), (''destOverride'', GStrs [''http'', ''tls'', ''quic'']), (''routeOnly'', GBool True)])]
      else [])"

definition buildRemoteQuickAddInbound ::
  "quick_env \<Rightarrow> quick_request \<Rightarrow> nat \<Rightarrow> string \<Rightarrow> int \<Rightarrow> string \<Rightarrow> nat \<Rightarrow> string \<Rightarrow> gmap" where
  "buildRemoteQuickAddInbound env r index tag port password0 tlsID publicHost =
     [(''id'', GInt 0), (''core_type'', GStr (qr_CoreType r)), (''type'', GStr (qr_Protocol r)), (''tag'', GStr tag),
      (''listen'', GStr ''::''), (''listen_port'', GInt port), (''tls_id'', GInt (int tlsID)), (''addrs'', GList []), (''out_json'', GMap [])]
     @ quick_fields env r index password0 publicHost"

definition quick_client_config :: "quick_request \<Rightarrow> string \<Rightarrow> string \<Rightarrow> string \<Rightarrow> gmap option" where
  "quick_client_config r name password0 uuid =
     (let p = qr_Protocol r in
      if p \<in> {''shadowsocks'', ''trojan'', ''hysteria2'', ''shadowtls'', ''anytls''} then Some [(p, user_pass ''name'' name password0)]
      else if p = ''vmess'' then Some [(p, GMap [(''name'', GStr name), (''uuid'', GStr uuid), (''alterId'', GInt 0)])]
      else if p = ''vless'' then
        Some [(p, GMap [(''name'', GStr name), (''uuid'', GStr uuid),
          (''flow'', GStr (if qr_CoreType r = CoreTypeXray then [] else ''xtls-rprx-vision''))])]
      else if p = ''tuic'' then Some [(p, GMap [(''name'', GStr name), (''uuid'', GStr uuid), (''password'', GStr password0)])]
      else if p = ''naive'' then Some [(p, user_pass ''username'' name password0)]
      else None)"

definition quick_client :: "string \<Rightarrow> gmap \<Rightarrow> gmap" where
  "quick_client name configValue =
     [(''id'', GInt 0), (''enable'', GBool True), (''name'', GStr name), (''config'', GMap configValue), (''inbounds'', GList []),
      (''links'', GList []), (''volume'', GInt 0), (''expiry'', GInt 0), (''up'', GInt 0), (''down'', GInt 0), (''desc'', GStr []),
      (''group'', GStr []), (''remark'', GStr [])]"

text \<open>A save at a revision, giving the next revision to the caller.\<close>

definition save_at :: "config_env \<Rightarrow> nat \<Rightarrow> string \<Rightarrow> raw \<Rightarrow> string \<Rightarrow> string \<Rightarrow> string \<Rightarrow> nat panel_op" where
  "save_at env revision obj data userIds actor publicHost p =
     (case SaveWithRevision env revision obj ''new'' data userIds (''agent:'' @ actor) publicHost p of
        ((Inl e, _), p') \<Rightarrow> (Inl e, p')
      | ((Inr _, next), p') \<Rightarrow> (Inr next, p'))"

definition found :: "('r \<Rightarrow> nat) \<Rightarrow> 'r option \<Rightarrow> nat result" where
  "found key r = (case r of None \<Rightarrow> Inl ''record not found'' | Some row \<Rightarrow> Inr (key row))"

definition createRemoteQuickAddClient ::
  "quick_env \<Rightarrow> quick_request \<Rightarrow> nat \<Rightarrow> string \<Rightarrow> string \<Rightarrow> nat \<Rightarrow> string \<Rightarrow> string \<Rightarrow> (nat \<times> nat) panel_op" where
  "createRemoteQuickAddClient env r index name password0 revision actor publicHost =
     (case quick_client_config r name password0 (qe_UUID env index) of
        None \<Rightarrow> lift_svc (NewErrorf (''protocol '' @ quoted (qr_Protocol r) @ '' does not use clients''))
      | Some cfg \<Rightarrow>
          bind_svc (save_at (qe_Config env) revision ''clients'' (mustJSON (GMap (quick_client name cfg))) [] actor publicHost) (\<lambda>next p.
            (map_sum id (\<lambda>k. (k, next))
               (found cl_Id (find (\<lambda>c. cl_Name c = name) (rev (tb_Rows (db_Clients (pn_Db p)))))), p)))"

text \<open>
  \<open>strings.Map\<close> over the runes of the name: letters and digits, dots and hyphens stay, anything else
  becomes a hyphen. Whether a rune of several bytes is a letter or a digit is asked of the environment.
\<close>

definition utf8_cont :: "char \<Rightarrow> bool" where
  "utf8_cont c \<longleftrightarrow> 128 \<le> byte c \<and> byte c < 192"

function utf8_runes :: "string \<Rightarrow> string list" where
  "utf8_runes [] = []"
| "utf8_runes (c # s) = (c # takeWhile utf8_cont s) # utf8_runes (dropWhile utf8_cont s)"
  by pat_completeness auto

termination utf8_runes
  by (relation "measure length") (auto simp: length_dropWhile_le le_imp_less_Suc)

definition certificate_name :: "quick_env \<Rightarrow> string \<Rightarrow> string" where
  "certificate_name env serverName =
     (let clean = concat (map (\<lambda>r. case r of
            [c] \<Rightarrow> if is_alnum c \<or> c = CHR ''.'' \<or> c = CHR ''-'' then [c] else ''-''
          | _ \<Rightarrow> if qe_IsLetter env r then r else ''-'') (utf8_runes serverName))
      in if clean = [] then ''managed-node'' else clean)"

definition quick_tls :: "string \<Rightarrow> string \<Rightarrow> string \<Rightarrow> string \<Rightarrow> gmap" where
  "quick_tls name privateKey certificate pin =
     [(''id'', GInt 0), (''name'', GStr name),
      (''server'', GMap [(''enabled'', GBool True), (''key'', GStrs (Split (TrimSpace privateKey) (CHR 0x0A))),
         (''certificate'', GStrs (Split (TrimSpace certificate) (CHR 0x0A)))]),
      (''client'', GMap [(''pinned_peer_certificate_sha256'', GStrs [pin])])]"

definition createRemoteQuickAddTLS :: "quick_env \<Rightarrow> string \<Rightarrow> nat \<Rightarrow> string \<Rightarrow> string \<Rightarrow> (nat \<times> nat) panel_op" where
  "createRemoteQuickAddTLS env serverName revision actor publicHost p =
     (case qe_Certificate env (certificate_name env serverName) of
        Inl e \<Rightarrow> (Inl e, p)
      | Inr (privateKey, certificate, pin) \<Rightarrow>
          let name = free_name (map tls_Name (tb_Rows (db_Tls (pn_Db p)))) (''auto-'' @ serverName) 0 in
          bind_svc (save_at (qe_Config env) revision ''tls'' (mustJSON (GMap (quick_tls name privateKey certificate pin))) [] actor publicHost) (\<lambda>next p.
            (map_sum id (\<lambda>k. (k, next)) (found tls_Id (find (\<lambda>t. tls_Name t = name) (tb_Rows (db_Tls (pn_Db p))))), p)) p)"

section \<open>The whole request\<close>

text \<open>
  One entry after another; what was created before an error stays. \<open>stopped\<close> words the error of a save with the
  number of finished entries.
\<close>

definition stopped :: "nat \<Rightarrow> int \<Rightarrow> 'a panel_op \<Rightarrow> 'a panel_op" where
  "stopped n count m p = (case m p of
     (Inl e, p') \<Rightarrow> (NewErrorf (''quick add stopped after '' @ Itoa (int n) @ ''/'' @ Itoa count @ '' nodes: '' @ e), p')
   | (Inr x, p') \<Rightarrow> (Inr x, p'))"

definition quick_entry ::
  "quick_env \<Rightarrow> quick_request \<Rightarrow> nat \<Rightarrow> nat \<Rightarrow> string \<Rightarrow> string \<Rightarrow> int \<Rightarrow> string \<Rightarrow> nat \<Rightarrow> (nat \<times> quick_item) panel_op" where
  "quick_entry env r tlsID index actor publicHost port tag revision =
     (let password0 = quickAddPassword env r index;
          hasClient = (qr_Protocol r \<in> set remoteQuickAddClientProtocols);
          name = (if hasClient then ''user-'' @ Random (qe_NameDraw env index) 0 8 else [])
      in bind_svc (if hasClient then stopped index (qr_Count r) (createRemoteQuickAddClient env r index name password0 revision actor publicHost)
                   else lift_svc (Inr (0, revision))) (\<lambda>(clientID, rev1).
         bind_svc (stopped index (qr_Count r) (save_at (qe_Config env) rev1 ''inbounds''
             (mustJSON (GMap (buildRemoteQuickAddInbound env r index tag port password0 tlsID publicHost)))
             (if clientID > 0 then Itoa (int clientID) else []) actor publicHost)) (\<lambda>rev2 p.
           (map_sum id (\<lambda>k. (rev2, \<lparr>qi_ID = k, qi_Tag = tag, qi_Port = port, qi_ClientID = clientID, qi_ClientName = name\<rparr>))
              (found in_Id (find (\<lambda>i. in_Tag i = tag) (tb_Rows (db_Inbounds (pn_Db p))))), p))))"

fun quick_entries ::
  "quick_env \<Rightarrow> quick_request \<Rightarrow> nat \<Rightarrow> nat \<Rightarrow> string \<Rightarrow> string \<Rightarrow> (int \<times> string) list \<Rightarrow> nat \<Rightarrow> (nat \<times> quick_item list) panel_op" where
  "quick_entries env r tlsID index actor publicHost [] revision = lift_svc (Inr (revision, []))"
| "quick_entries env r tlsID index actor publicHost ((port, tag) # rest) revision =
     bind_svc (quick_entry env r tlsID index actor publicHost port tag revision) (\<lambda>(rev1, item).
       bind_svc (quick_entries env r tlsID (Suc index) actor publicHost rest rev1) (\<lambda>(rev2, items).
         lift_svc (Inr (rev2, item # items))))"

text \<open>
  The self check of the Xray core (\<^verbatim>\<open>service/xray_capabilities.go\<close>), without the fixed lists of
  protocols and transports it also returns. It builds the configuration, which writes the
  certificate files, and asks the binary.
\<close>

record xray_check =
  xc_Disabled :: bool
  xc_Running :: bool
  xc_HasInbounds :: bool
  xc_BinaryAvailable :: bool
  xc_Version :: string
  xc_InboundCount :: nat
  xc_ConfigValid :: bool
  xc_Healthy :: bool
  xc_Error :: string
  xc_Checks :: "string list"

definition xray_checked :: "bool \<Rightarrow> bool \<Rightarrow> xray_check" where
  "xray_checked isRunning hasInbounds =
     \<lparr>xc_Disabled = False, xc_Running = isRunning, xc_HasInbounds = hasInbounds, xc_BinaryAvailable = False, xc_Version = [], xc_InboundCount = 0,
      xc_ConfigValid = False, xc_Healthy = False, xc_Error = [], xc_Checks = []\<rparr>"

definition config_inbounds :: "raw \<Rightarrow> nat" where
  "config_inbounds cfg = (case decode_map cfg of None \<Rightarrow> 0 | Some m \<Rightarrow> length (as_list (mget m ''inbounds'')))"

definition check_config :: "config_env \<Rightarrow> xray_check \<Rightarrow> panel \<Rightarrow> xray_check \<times> panel" where
  "check_config env c p =
     (case on_files (getXrayConfig (cf_XrayFiles env) (pn_Db p)) p of
        (Inl e, p1) \<Rightarrow> (c\<lparr>xc_Error := e, xc_Checks := xc_Checks c @ [''config build: failed'']\<rparr>, p1)
      | (Inr cfg, p1) \<Rightarrow>
          let n = config_inbounds cfg; c1 = c\<lparr>xc_InboundCount := n, xc_Checks := xc_Checks c @ [''inbounds: '' @ Itoa (int n)]\<rparr> in
          if n = 0 then
            (c1\<lparr>xc_ConfigValid := True, xc_Healthy := True, xc_Checks := xc_Checks c1 @ [''config: empty (no xray inbounds)'']\<rparr>, p1)
          else case on_xray (xray_Validate (cf_XrayEnv env) cfg) p1 of
            (Inl e, p2) \<Rightarrow> (c1\<lparr>xc_Error := e, xc_Checks := xc_Checks c1 @ [''config validate: failed'']\<rparr>, p2)
          | (Inr _, p2) \<Rightarrow>
              (c1\<lparr>xc_ConfigValid := True, xc_Healthy := True,
                 xc_Checks := xc_Checks c1 @ [''config validate: ok'', if xc_Running c then ''runtime: running'' else ''runtime: stopped'']\<rparr>, p2))"

definition CheckXray :: "config_env \<Rightarrow> panel \<Rightarrow> xray_check \<times> panel" where
  "CheckXray env p =
     (if cf_XrayDisabled env then
        ((xray_checked False (hasXrayInbounds (pn_Db p)))\<lparr>xc_Disabled := True,
           xc_Error := ''Xray-core is disabled on this low-resource server; use sing-box'',
           xc_Checks := [''runtime: disabled by low-resource profile'']\<rparr>, p)
      else let c = xray_checked (xray_IsRunning (pn_Xray p)) (hasXrayInbounds (pn_Db p)) in
        case on_xray (xray_Version (cf_XrayEnv env)) p of
          (Inl e, p1) \<Rightarrow> (c\<lparr>xc_Error := e, xc_Checks := [''binary: unavailable'']\<rparr>, p1)
        | (Inr version, p1) \<Rightarrow>
            check_config env (c\<lparr>xc_BinaryAvailable := True, xc_Version := version, xc_Checks := [''binary: ok ('' @ version @ '')'']\<rparr>) p1)"

definition xray_usable :: "quick_env \<Rightarrow> quick_request \<Rightarrow> unit panel_op" where
  "xray_usable env r p =
     (if qr_CoreType r \<noteq> CoreTypeXray then (Inr (), p)
      else let (c, p1) = CheckXray (qe_Config env) p in
        (if xc_Disabled c then NewError ''Xray-core is disabled on this managed server; use sing-box''
         else if \<not> xc_BinaryAvailable c then NewError ''Xray-core is not installed on this managed server''
         else Inr (), p1))"

definition quick_checks :: "quick_request \<Rightarrow> (quick_request \<times> string \<times> string) result" where
  "quick_checks r0 =
     bindr (validateRemoteQuickAddRequest r0) (\<lambda>r.
     bindr (normalizeRemoteActor (qr_Actor r)) (\<lambda>actor.
     bindr (normalizeAgentPublicHost (qr_PublicHost r)) (\<lambda>publicHost.
       if publicHost = [] then NewError ''managed server public host is required before quick add''
       else Inr (r, actor, publicHost))))"

definition quick_allocation :: "quick_request \<Rightarrow> panel_db \<Rightarrow> (int list \<times> string list) result" where
  "quick_allocation r db =
     bindr (Inbounds_GetAll db) (\<lambda>ms.
       allocateRemoteQuickAdd (map shown_item ms) (qr_Port r) (nat (qr_Count r)) (qr_Tag r) (qr_Protocol r))"

definition QuickAddInbounds :: "quick_env \<Rightarrow> quick_request \<Rightarrow> (nat \<times> quick_item list) panel_op" where
  "QuickAddInbounds env r0 =
     bind_svc (lift_svc (quick_checks r0)) (\<lambda>(r, actor, publicHost).
     bind_svc (xray_usable env r) (\<lambda>_ p0.
     bind_svc (lift_svc (quick_allocation r (pn_Db p0))) (\<lambda>(ports, tags).
     bind_svc (if qr_Protocol r \<in> set remoteQuickAddTLSProtocols
               then createRemoteQuickAddTLS env (hd tags) (qr_ExpectedRevision r) actor publicHost
               else lift_svc (Inr (0, qr_ExpectedRevision r))) (\<lambda>(tlsID, revision).
       quick_entries env r tlsID 0 actor publicHost (zip ports tags) revision)) p0))"

end
