(* ===== verification/Quick_Add_Rows.thy ===== *)
theory Quick_Add_Rows
  imports Quick_Add Config_Save
begin

text \<open>
  The rows a quick add stores: the three saves it is made of, each followed from the JSON object
  it sends to the row of the table, then an entry and a list of entries. Every save appends one
  row; the save of an inbound also writes the inbound into the list of its client.
\<close>

section \<open>A save as a change of the tables\<close>

lemma save_at_row:
  assumes "save_at env revision obj data users actor host p = (Inr next, p')"
  shows "\<exists>s core ch. save_object env obj ''new'' data users host (pn_Db p) (pn_Core p) = (Inr s, core) \<and> pn_Db p' = add_change ch (sd_Db s)"
proof -
  let ?login = "''agent:'' @ actor"
  obtain res where run: "saveLocked env obj ''new'' data users ?login host p = (Inr res, p')"
    using assms by (auto simp: save_at_def SaveWithRevision_def split: prod.splits sum.splits if_splits)
  obtain res0 p0 where tx: "save_transaction env obj ''new'' data users ?login host p = (res0, p0)" by fastforce
  have "cf_Begin env = None" using run by (auto simp: saveLocked_def split: option.splits)
  then obtain s u where s: "res0 = Inr s" and upd: "update_cores env s p0 = (u, p')"
    using run tx by (cases res0) (auto simp: saveLocked_def restore_core_def NewErrorf_def split: prod.splits sum.splits if_splits)
  have "kept p' = kept p0" using upd kept_update [of env s p0] by simp
  then show ?thesis using transaction_Inr [OF tx [unfolded s]] by (auto simp: kept_def)
qed

lemma change_tables [simp]:
  "db_Clients (add_change ch db) = db_Clients db" "db_Inbounds (add_change ch db) = db_Inbounds db" "db_Tls (add_change ch db) = db_Tls db"
  by (simp_all add: add_change_def)

lemma find_appended: "find P xs = None \<Longrightarrow> find P (xs @ [x]) = (if P x then Some x else None)"
  by (induction xs) (auto split: if_splits)

text \<open>A row without a key is stored as the last one, under the next key.\<close>

context keyed_table begin

lemma appended:
  assumes "table_ok key t" "key r = 0"
  shows "tb_Rows (save_row key with_key r t) = tb_Rows t @ [with_key (Suc (tb_Seq t)) r]" "tb_Seq (save_row key with_key r t) = Suc (tb_Seq t)"
  using insert_rows [OF assms] insert_seq [OF assms(2)] assms(2) by (simp_all add: keyed_def)

end

section \<open>The TLS settings\<close>

lemma free_name_free: "free_name used initial k \<notin> set used"
proof (induction used initial k rule: free_name.induct)
  case (1 used initial k)
  then show ?case by (simp add: free_name.simps [of used initial k])
qed

lemma stopped_Inr: "stopped n count m p = (Inr x, p') \<longleftrightarrow> m p = (Inr x, p')"
  by (auto simp: stopped_def NewErrorf_def split: prod.splits sum.splits)

text \<open>The settings a quick add has made for the server: the key and the certificate that were generated for its name.\<close>

definition created_tls :: "quick_env \<Rightarrow> string \<Rightarrow> nat \<Rightarrow> tls_row \<Rightarrow> bool" where
  "created_tls env serverName k t \<longleftrightarrow> tls_Id t = k
     \<and> (\<exists>privateKey certificate pin. qe_Certificate env (certificate_name env serverName) = Inr (privateKey, certificate, pin)
        \<and> tls_Server t = mustJSON (mget (quick_tls (tls_Name t) privateKey certificate pin) ''server'')
        \<and> tls_Client t = mustJSON (mget (quick_tls (tls_Name t) privateKey certificate pin) ''client''))"

lemma field_zero [simp]: "field_uint ((''id'', GFloat 0) # m) ''id'' = Inr 0"
  by (simp add: field_uint_def)

lemma quick_tls_row:
  "Tls_of_JSON (mustJSON (GMap (quick_tls name privateKey certificate pin))) = Inr \<lparr>tls_Id = 0, tls_Name = name,
     tls_Server = mustJSON (mget (quick_tls name privateKey certificate pin) ''server''),
     tls_Client = mustJSON (mget (quick_tls name privateKey certificate pin) ''client'')\<rparr>"
  by (simp add: Tls_of_JSON_def quick_tls_def field_str_def field_raw_def mustJSON_def decode_map_def)

lemma tls_created:
  assumes ok: "table_ok tls_Id (db_Tls (pn_Db p))"
    and run: "createRemoteQuickAddTLS env serverName revision actor host p = (Inr (k, next), p')"
  shows "\<exists>t. tb_Rows (db_Tls (pn_Db p')) = tb_Rows (db_Tls (pn_Db p)) @ [t] \<and> created_tls env serverName k t
    \<and> db_Clients (pn_Db p') = db_Clients (pn_Db p) \<and> db_Inbounds (pn_Db p') = db_Inbounds (pn_Db p)"
proof -
  define name where "name = free_name (map tls_Name (tb_Rows (db_Tls (pn_Db p)))) (''auto-'' @ serverName) 0"
  obtain privateKey certificate pin where cert: "qe_Certificate env (certificate_name env serverName) = Inr (privateKey, certificate, pin)"
    and save: "save_at (qe_Config env) revision ''tls'' (mustJSON (GMap (quick_tls name privateKey certificate pin))) [] actor host p = (Inr next, p')"
    and found: "found tls_Id (find (\<lambda>t. tls_Name t = name) (tb_Rows (db_Tls (pn_Db p')))) = Inr k"
    using run by (auto simp: createRemoteQuickAddTLS_def bind_svc_Inr Let_def map_sum_Inr_iff name_def split: sum.splits prod.splits)
  let ?t = "\<lparr>tls_Id = 0, tls_Name = name, tls_Server = mustJSON (mget (quick_tls name privateKey certificate pin) ''server''),
     tls_Client = mustJSON (mget (quick_tls name privateKey certificate pin) ''client'')\<rparr>"
  obtain s core ch where obj: "save_object (qe_Config env) ''tls'' ''new'' (mustJSON (GMap (quick_tls name privateKey certificate pin))) [] host
      (pn_Db p) (pn_Core p) = (Inr s, core)" and db': "pn_Db p' = add_change ch (sd_Db s)"
    using save_at_row [OF save] by blast
  have db: "sd_Db s = (pn_Db p)\<lparr>db_Tls := save_row tls_Id (\<lambda>k. with_tls_Id k) ?t (db_Tls (pn_Db p))\<rparr>"
    using obj by (auto simp: save_object_def Let_def Tls_Save_def quick_tls_row bind_svc_Inr lift_svc_Inr store_tls_def saved_as_def)
  have rows: "tb_Rows (db_Tls (pn_Db p')) = tb_Rows (db_Tls (pn_Db p)) @ [with_tls_Id (Suc (tb_Seq (db_Tls (pn_Db p)))) ?t]"
    using tlss.appended [OF ok, of ?t] by (simp add: db' db)
  have "find (\<lambda>t. tls_Name t = name) (tb_Rows (db_Tls (pn_Db p))) = None"
    using free_name_free [of "map tls_Name (tb_Rows (db_Tls (pn_Db p)))", folded name_def] unfolding find_None_iff name_def by (metis imageI list.set_map)
  then have "k = Suc (tb_Seq (db_Tls (pn_Db p)))" using found by (simp add: rows find_appended found_def)
  then show ?thesis using cert rows by (intro exI [of _ "with_tls_Id (Suc (tb_Seq (db_Tls (pn_Db p)))) ?t"]) (simp add: created_tls_def db' db)
qed

section \<open>The client of an entry\<close>

lemma quick_client_row:
  assumes cfg: "quick_client_config r name pw uuid = Some cfg" and name: "name \<noteq> []"
  shows "\<exists>c. Client_of_JSON (mustJSON (GMap (quick_client name cfg))) = Inr c \<and> setConfigIdentity c = Inr c \<and> cl_Id c = 0 \<and> cl_Enable c
    \<and> cl_Name c = name \<and> cl_Config c = mustJSON (GMap cfg) \<and> cl_Inbounds c = RVal (GList [])"
proof -
  let ?c = "\<lparr>cl_Id = 0, cl_Enable = True, cl_Name = name, cl_Config = mustJSON (GMap cfg), cl_Inbounds = RVal (GList []),
    cl_Links = RVal (GList []), cl_Volume = 0, cl_Expiry = 0, cl_Down = 0, cl_Up = 0, cl_Desc = [], cl_Group = [], cl_Remark = [],
    cl_CreatedAt = 0, cl_OnlineAt = 0, cl_DelayStart = False, cl_AutoReset = False, cl_ResetDays = 0, cl_NextReset = 0,
    cl_TotalUp = 0, cl_TotalDown = 0\<rparr>"
  have row: "Client_of_JSON (mustJSON (GMap (quick_client name cfg))) = Inr ?c"
    by (simp add: Client_of_JSON_def quick_client_def client_of_map_def field_uint_def field_bool_def field_str_def field_int_def field_raw_def
        mustJSON_def decode_map_def)
  have "setConfigIdentity ?c = Inr ?c"
    using cfg name by (auto simp: quick_client_config_def setConfigIdentity_def raw_short_def mustJSON_def identity_config_def user_pass_def
        mput_def Let_def split: if_splits)
  with row show ?thesis by (intro exI [of _ ?c]) simp
qed

lemma fresh_links:
  assumes "updateLinksWithFixedInbounds env db [c] host = Inr cs"
  shows "\<exists>l. cs = [c\<lparr>cl_Links := l\<rparr>]"
  using assms by (auto simp: updateLinksWithFixedInbounds_def mapr_Inr_iff bindr_Inr_iff fixed_links_def list_all2_Cons1)

text \<open>\<open>client_row r k item c\<close>: \<open>c\<close> is the client of entry \<open>k\<close>, up to its list of inbounds.\<close>

definition client_row :: "quick_env \<Rightarrow> quick_request \<Rightarrow> nat \<Rightarrow> nat \<Rightarrow> string \<Rightarrow> client \<Rightarrow> bool" where
  "client_row env r index k name c \<longleftrightarrow> cl_Id c = k \<and> cl_Name c = name \<and> cl_Enable c
     \<and> (\<exists>cfg. quick_client_config r name (quickAddPassword env r index) (qe_UUID env index) = Some cfg \<and> cl_Config c = mustJSON (GMap cfg))"

lemma client_created:
  assumes ok: "table_ok cl_Id (db_Clients (pn_Db p))" and name: "name \<noteq> []"
    and run: "createRemoteQuickAddClient env r index name (quickAddPassword env r index) revision actor host p = (Inr (k, next), p')"
  shows "\<exists>c. tb_Rows (db_Clients (pn_Db p')) = tb_Rows (db_Clients (pn_Db p)) @ [c] \<and> client_row env r index k name c \<and> cl_Inbounds c = RVal (GList [])
    \<and> tb_Seq (db_Clients (pn_Db p')) = Suc (tb_Seq (db_Clients (pn_Db p))) \<and> k = Suc (tb_Seq (db_Clients (pn_Db p)))
    \<and> table_ok cl_Id (db_Clients (pn_Db p')) \<and> db_Inbounds (pn_Db p') = db_Inbounds (pn_Db p) \<and> db_Tls (pn_Db p') = db_Tls (pn_Db p)"
proof -
  obtain cfg where cfg: "quick_client_config r name (quickAddPassword env r index) (qe_UUID env index) = Some cfg"
    and save: "save_at (qe_Config env) revision ''clients'' (mustJSON (GMap (quick_client name cfg))) [] actor host p = (Inr next, p')"
    and found: "found cl_Id (find (\<lambda>c. cl_Name c = name) (rev (tb_Rows (db_Clients (pn_Db p'))))) = Inr k"
    using run by (auto simp: createRemoteQuickAddClient_def bind_svc_Inr lift_svc_Inr map_sum_Inr_iff split: option.splits)
  obtain c where c: "Client_of_JSON (mustJSON (GMap (quick_client name cfg))) = Inr c" "setConfigIdentity c = Inr c" "cl_Id c = 0" "cl_Enable c"
    "cl_Name c = name" "cl_Config c = mustJSON (GMap cfg)" "cl_Inbounds c = RVal (GList [])"
    using quick_client_row [OF cfg name] by blast
  obtain s core ch where obj: "save_object (qe_Config env) ''clients'' ''new'' (mustJSON (GMap (quick_client name cfg))) [] host
      (pn_Db p) (pn_Core p) = (Inr s, core)" and db': "pn_Db p' = add_change ch (sd_Db s)"
    using save_at_row [OF save] by blast
  let ?env = "sv_Client (cf_Svc (qe_Config env))"
  obtain ids db1 where new: "save_new ?env (pn_Db p) (mustJSON (GMap (quick_client name cfg))) host = Inr (ids, db1)" and s: "sd_Db s = db1"
    using obj by (auto simp: save_object_def Let_def Clients_Save_def bind_svc_Inr lift_svc_Inr saved_as_def split: if_splits)
  obtain l where db1: "db1 = save_client (c\<lparr>cl_Links := l, cl_CreatedAt := ce_Now ?env\<rparr>) (pn_Db p)"
    using new by (auto simp: save_new_def bindr_Inr_iff c(1,2) dest!: fresh_links)
  let ?c = "c\<lparr>cl_Links := l, cl_CreatedAt := ce_Now ?env\<rparr>" and ?k = "Suc (tb_Seq (db_Clients (pn_Db p)))"
  have row: "tb_Rows (db_Clients (pn_Db p')) = tb_Rows (db_Clients (pn_Db p)) @ [with_cl_Id ?k ?c]" "tb_Seq (db_Clients (pn_Db p')) = ?k"
    using clients.appended [OF ok, of ?c] c(3) by (simp_all add: db' s db1 save_client_def)
  have "k = ?k" using found by (simp add: row found_def c(5))
  moreover have "table_ok cl_Id (db_Clients (pn_Db p'))" using clients.save_ok [OF ok] by (simp add: db' s db1 save_client_def)
  ultimately show ?thesis using row c cfg
    by (intro exI [of _ "with_cl_Id ?k ?c"]) (simp add: client_row_def db' s db1 save_client_def)
qed

section \<open>The inbound of an entry\<close>

text \<open>What the decoder leaves in the options of a quick add's inbound: the fields that have no column.\<close>

definition quick_options :: "quick_env \<Rightarrow> quick_request \<Rightarrow> nat \<Rightarrow> int \<Rightarrow> string \<Rightarrow> gmap" where
  "quick_options env r index port host =
     (''listen'', GStr ''::'') # (''listen_port'', GInt port) # quick_fields env r index (quickAddPassword env r index) host"

definition inbound_row :: "quick_env \<Rightarrow> quick_request \<Rightarrow> nat \<Rightarrow> nat \<Rightarrow> nat \<Rightarrow> string \<Rightarrow> int \<Rightarrow> string \<Rightarrow> inbound \<Rightarrow> bool" where
  "inbound_row env r tlsID index k tag port host i \<longleftrightarrow> in_Id i = k \<and> in_Tag i = tag \<and> in_Type i = qr_Protocol r \<and> in_CoreType i = qr_CoreType r
     \<and> in_TlsId i = tlsID \<and> in_Options i = mustJSON (GMap (quick_options env r index port host))"

lemma trunc_of_nat [simp]: "trunc_rat (of_nat n) = int n" "trunc_rat 0 = 0"
  by (simp_all add: trunc_rat_def)

lemma delete_norm: "AList.delete k (map (map_prod id f) m) = map (map_prod id f) (AList.delete k m)"
  by (induction m) auto

lemma quick_fields_plain:
  assumes "k \<in> {''id'', ''type'', ''tag'', ''core_type'', ''tls_id'', ''tls'', ''users'', ''addrs'', ''out_json''}"
  shows "AList.delete k (quick_fields env r index pw host) = quick_fields env r index pw host" "\<not> mhas (quick_fields env r index pw host) k"
proof -
  have "fst ` set (quick_fields env r index pw host) \<subseteq> {''method'', ''password'', ''transport'', ''obfs'', ''version'', ''handshake'',
    ''congestion_control'', ''padding_scheme'', ''network'', ''follow_redirect'', ''sniffing''}"
    by (simp add: quick_fields_def Let_def) auto
  then have "k \<notin> fst ` set (quick_fields env r index pw host)" using assms by auto
  then show "AList.delete k (quick_fields env r index pw host) = quick_fields env r index pw host" "\<not> mhas (quick_fields env r index pw host) k"
    by (simp_all add: delete_idem mhas_def map_of_eq_None_iff)
qed

lemma quick_inbound_row:
  assumes "qr_CoreType r \<noteq> []"
    and "Inbound_UnmarshalJSON empty_inbound (mustJSON (GMap (buildRemoteQuickAddInbound env r index tag port (quickAddPassword env r index) tlsID host))) = Inr i"
  shows "inbound_row env r tlsID index 0 tag port host i"
proof -
  note i = assms(2) [symmetric, unfolded Inbound_UnmarshalJSON_def decode_map_mustJSON option.case Let_def sum.inject]
  show ?thesis
    unfolding i buildRemoteQuickAddInbound_def using assms(1)
    by (simp add: inbound_row_def quick_options_def empty_inbound_def mdel_def delete_norm quick_fields_plain set_uint_def)
      (simp add: mustJSON_def comp_def map_prod_def split_def)
qed

text \<open>The list of clients the save of the inbound names: the one client, or nobody.\<close>

lemma named_client:
  "0 < k \<Longrightarrow> int k < 2 ^ 63 \<Longrightarrow> Some c \<in> set (map text_id (Split (Itoa (int k)) (CHR '',''))) \<longleftrightarrow> c = k"
  "Some c \<notin> set (map text_id (Split [] (CHR '','')))"
proof -
  assume k: "0 < k" "int k < 2 ^ 63"
  have "\<forall>ch\<in>set (Itoa (int k)). \<not> is_space ch" using Itoa_chars [of "int k"] by (fastforce simp: is_digit_def is_space_def)
  then have "TrimSpace (Itoa (int k)) = Itoa (int k)" unfolding TrimSpace_def by (intro trim_by_none) (simp add: list_all_iff)
  then have "text_id (Itoa (int k)) = Some k" using k Atoi_Itoa [of "int k"] by (simp add: text_id_def)
  moreover have "CHR '','' \<notin> set (Itoa (int k))" by (intro Itoa_not_in) (simp_all add: is_digit_def)
  ultimately show "Some c \<in> set (map text_id (Split (Itoa (int k)) (CHR '',''))) \<longleftrightarrow> c = k" by (auto simp: Split_none)
next
  have "text_id [] = None" by code_simp
  then show "Some c \<notin> set (map text_id (Split [] (CHR '','')))" by (simp add: Split_none)
qed

definition given_inbound :: "nat \<Rightarrow> (client \<Rightarrow> raw) \<Rightarrow> client \<Rightarrow> client" where
  "given_inbound k l c = c\<lparr>cl_Inbounds := uints_raw (lenient_ids (cl_Inbounds c) @ [k]), cl_Links := l c\<rparr>"

lemma inbound_created:
  assumes ok: "table_ok in_Id (db_Inbounds (pn_Db p))" "table_ok cl_Id (db_Clients (pn_Db p))" and core: "qr_CoreType r \<noteq> []"
    and save: "save_at (qe_Config env) revision ''inbounds''
      (mustJSON (GMap (buildRemoteQuickAddInbound env r index tag port (quickAddPassword env r index) tlsID host))) users actor host p = (Inr next, p')"
    and found: "found in_Id (find (\<lambda>i. in_Tag i = tag) (tb_Rows (db_Inbounds (pn_Db p')))) = Inr k"
  shows "\<exists>i l. tb_Rows (db_Inbounds (pn_Db p')) = tb_Rows (db_Inbounds (pn_Db p)) @ [i] \<and> inbound_row env r tlsID index k tag port host i
    \<and> table_ok in_Id (db_Inbounds (pn_Db p')) \<and> db_Tls (pn_Db p') = db_Tls (pn_Db p)
    \<and> db_Clients (pn_Db p') = update_rows (\<lambda>c. Some (cl_Id c) \<in> set (map text_id (Split users (CHR '','')))) (given_inbound k l) (db_Clients (pn_Db p))"
proof -
  let ?data = "mustJSON (GMap (buildRemoteQuickAddInbound env r index tag port (quickAddPassword env r index) tlsID host))" and ?sv = "cf_Svc (qe_Config env)"
  obtain s core core' ch where obj: "save_object (qe_Config env) ''inbounds'' ''new'' ?data users host (pn_Db p) core = (Inr s, core')"
    and db': "pn_Db p' = add_change ch (sd_Db s)"
    using save_at_row [OF save] by blast
  obtain core1 where "save_inbound ?sv (pn_Db p) ''new'' ?data users host core1 = (Inr (sd_Db s), core')"
    using obj by (auto simp: save_object_def Let_def Inbounds_Save_def bind_svc_Inr lift_svc_Inr saved_as_def)
  then obtain i0 i i2 row db1 where i0: "Inbound_UnmarshalJSON empty_inbound ?data = Inr i0"
    and i: "i = (if in_TlsId i0 > 0 then preload_inbound (pn_Db p) i0 else i0)" and fill: "FillOutJson (ce_Link (sv_Client ?sv)) i host = Inr i2"
    and store: "store_inbound i2 (pn_Db p) = Inr (row, db1)" and add: "UpdateClientsOnInboundAdd (sv_Client ?sv) db1 users (in_Id row) host = Inr (sd_Db s)"
    unfolding save_inbound_def bind_svc_Inr lift_svc_Inr Let_def by (auto simp: svc_Inr split: prod.splits)
  let ?r = "i2\<lparr>in_Tls := None\<rparr>" and ?n = "Suc (tb_Seq (db_Inbounds (pn_Db p)))"
  note dec = quick_inbound_row [OF core i0] and out = only_out_fields [OF FillOutJson_only_out [OF fill]]
  have "in_Id i = in_Id i0" "in_Tag i = in_Tag i0" "in_Options i = in_Options i0" "in_TlsId i = in_TlsId i0" "in_Type i = in_Type i0" "in_CoreType i = in_CoreType i0"
    by (simp_all add: i preload_inbound_def)
  then have r0: "inbound_row env r tlsID index 0 tag port host ?r" using dec by (simp add: inbound_row_def out)
  then have zero: "in_Id ?r = 0" by (simp add: inbound_row_def)
  obtain t where saved: "save_tagged in_Id (\<lambda>k. with_in_Id k) in_Tag ?r (db_Inbounds (pn_Db p)) = Inr (with_in_Id ?n ?r, t)"
    and db1: "db1 = (pn_Db p)\<lparr>db_Inbounds := t\<rparr>" and row: "in_Id row = ?n"
    using store zero by (auto simp: store_inbound_def bindr_Inr_iff inbounds.save_tagged_Inr keyed_def)
  note tagged = saved [unfolded inbounds.save_tagged_Inr]
  have rows: "tb_Rows t = tb_Rows (db_Inbounds (pn_Db p)) @ [with_in_Id ?n ?r]" "table_ok in_Id t"
    using inbounds.appended [OF ok(1) zero] inbounds.save_ok [OF ok(1)] tagged by simp_all
  have "table_ok cl_Id (db_Clients db1)" using ok(2) by (simp add: db1)
  from UpdateClientsOnInboundAdd_effect [OF this add] obtain l where
    s: "sd_Db s = db1\<lparr>db_Clients := update_rows (\<lambda>c. Some (cl_Id c) \<in> set (map text_id (Split users (CHR '','')))) (given_inbound ?n l) (db_Clients db1)\<rparr>"
    unfolding row given_inbound_def [abs_def] by blast
  have free: "find (\<lambda>i. in_Tag i = tag) (tb_Rows (db_Inbounds (pn_Db p))) = None"
  proof -
    have "in_Id x \<noteq> ?n" if "x \<in> set (tb_Rows (db_Inbounds (pn_Db p)))" for x using inbounds.ok_rows(3) [OF ok(1) that] by simp
    then show ?thesis using tagged r0 by (auto simp: find_None_iff tag_taken_def list_ex_iff inbound_row_def)
  qed
  have "k = ?n" using found free r0 by (simp add: db' s db1 rows find_appended found_def inbound_row_def)
  then show ?thesis using r0 rows
    by (intro exI [of _ "with_in_Id ?n ?r"] exI [of _ l]) (simp add: db' s db1 inbound_row_def)
qed

section \<open>An entry, and all of them\<close>

text \<open>The client of an entry after the save of its inbound.\<close>

definition created_client :: "quick_env \<Rightarrow> quick_request \<Rightarrow> nat \<Rightarrow> quick_item \<Rightarrow> client \<Rightarrow> bool" where
  "created_client env r index item c \<longleftrightarrow> client_row env r index (qi_ClientID item) (qi_ClientName item) c \<and> cl_Inbounds c = uints_raw [qi_ID item]"

definition created_inbound :: "quick_env \<Rightarrow> quick_request \<Rightarrow> nat \<Rightarrow> string \<Rightarrow> nat \<Rightarrow> quick_item \<Rightarrow> inbound \<Rightarrow> bool" where
  "created_inbound env r tlsID host index item i \<longleftrightarrow> inbound_row env r tlsID index (qi_ID item) (qi_Tag item) (qi_Port item) host i"

text \<open>The entries are numbered from \<open>k\<close> on, and each has its row.\<close>

fun each_row :: "(nat \<Rightarrow> 'i \<Rightarrow> 'r \<Rightarrow> bool) \<Rightarrow> nat \<Rightarrow> 'i list \<Rightarrow> 'r list \<Rightarrow> bool" where
  "each_row R k [] rows \<longleftrightarrow> rows = []"
| "each_row R k (x # xs) rows \<longleftrightarrow> (case rows of [] \<Rightarrow> False | y # ys \<Rightarrow> R k x y \<and> each_row R (Suc k) xs ys)"

definition rows_made :: "quick_env \<Rightarrow> quick_request \<Rightarrow> nat \<Rightarrow> string \<Rightarrow> nat \<Rightarrow> quick_item list \<Rightarrow> panel_db \<Rightarrow> panel_db \<Rightarrow> bool" where
  "rows_made env r tlsID host index items db db' \<longleftrightarrow>
     (\<exists>rows. tb_Rows (db_Inbounds db') = tb_Rows (db_Inbounds db) @ rows \<and> each_row (created_inbound env r tlsID host) index items rows)
   \<and> (\<exists>rows. tb_Rows (db_Clients db') = tb_Rows (db_Clients db) @ rows
        \<and> (if qr_Protocol r \<in> set remoteQuickAddClientProtocols then each_row (created_client env r) index items rows
           else rows = [] \<and> list_all (\<lambda>i. qi_ClientID i = 0 \<and> qi_ClientName i = []) items))
   \<and> db_Tls db' = db_Tls db"

lemma rows_made_one:
  "rows_made env r tlsID host index [item] db db' \<longleftrightarrow>
     (\<exists>i. tb_Rows (db_Inbounds db') = tb_Rows (db_Inbounds db) @ [i] \<and> created_inbound env r tlsID host index item i)
   \<and> (if qr_Protocol r \<in> set remoteQuickAddClientProtocols
      then \<exists>c. tb_Rows (db_Clients db') = tb_Rows (db_Clients db) @ [c] \<and> created_client env r index item c
      else tb_Rows (db_Clients db') = tb_Rows (db_Clients db) \<and> qi_ClientID item = 0 \<and> qi_ClientName item = [])
   \<and> db_Tls db' = db_Tls db"
proof -
  have one: "(\<exists>rows. xs' = xs @ rows \<and> each_row R index [item] rows) \<longleftrightarrow> (\<exists>y. xs' = xs @ [y] \<and> R index item y)" for xs xs' :: "'r list" and R
  proof -
    have "each_row R index [item] rows \<longleftrightarrow> (\<exists>y. rows = [y] \<and> R index item y)" for rows by (cases rows) auto
    then show ?thesis by auto
  qed
  show ?thesis unfolding rows_made_def one by (cases "qr_Protocol r \<in> set remoteQuickAddClientProtocols") (simp_all only: if_True if_False one, auto)
qed

lemma rows_made_Cons:
  assumes "rows_made env r tlsID host index [item] a b" "rows_made env r tlsID host (Suc index) items b c"
  shows "rows_made env r tlsID host index (item # items) a c"
  using assms unfolding rows_made_one unfolding rows_made_def by (auto split: if_splits)

text \<open>The tables an entry needs: well-formed ones, and room for keys that still are numbers of the machine.\<close>

definition quick_ready :: "nat \<Rightarrow> panel_db \<Rightarrow> bool" where
  "quick_ready n db \<longleftrightarrow> table_ok in_Id (db_Inbounds db) \<and> table_ok cl_Id (db_Clients db) \<and> int (tb_Seq (db_Clients db) + n) < 2 ^ 63"

lemma quick_entry_made:
  assumes ready: "quick_ready (Suc n) (pn_Db p)" and core: "qr_CoreType r \<noteq> []"
    and run: "quick_entry env r tlsID index actor host port tag revision p = (Inr (rev2, item), p')"
  shows "rows_made env r tlsID host index [item] (pn_Db p) (pn_Db p') \<and> quick_ready n (pn_Db p')"
proof -
  let ?client = "qr_Protocol r \<in> set remoteQuickAddClientProtocols"
  define name where "name = (if ?client then ''user-'' @ Random (qe_NameDraw env index) 0 8 else [])"
  obtain k rev1 p1 n1 where
    first: "(if ?client then stopped index (qr_Count r) (createRemoteQuickAddClient env r index name (quickAddPassword env r index) revision actor host)
        else lift_svc (Inr (0, revision))) p = (Inr (k, rev1), p1)"
    and save: "save_at (qe_Config env) rev1 ''inbounds''
        (mustJSON (GMap (buildRemoteQuickAddInbound env r index tag port (quickAddPassword env r index) tlsID host)))
        (if k > 0 then Itoa (int k) else []) actor host p1 = (Inr rev2, p')"
    and found: "found in_Id (find (\<lambda>i. in_Tag i = tag) (tb_Rows (db_Inbounds (pn_Db p')))) = Inr n1"
    and item: "item = \<lparr>qi_ID = n1, qi_Tag = tag, qi_Port = port, qi_ClientID = k, qi_ClientName = name\<rparr>"
    using run unfolding quick_entry_def Let_def bind_svc_Inr stopped_Inr name_def [symmetric]
    by (auto simp: bind_svc_Inr stopped_Inr map_sum_Inr_iff simp del: createRemoteQuickAddClient_def)
  show ?thesis
  proof (cases ?client)
    case False
    then have p1: "p1 = p" "k = 0" "name = []" using first by (auto simp: lift_svc_Inr name_def)
    note ok = ready [unfolded quick_ready_def]
    obtain i l where i: "tb_Rows (db_Inbounds (pn_Db p')) = tb_Rows (db_Inbounds (pn_Db p)) @ [i]" "inbound_row env r tlsID index n1 tag port host i"
      "table_ok in_Id (db_Inbounds (pn_Db p'))" "db_Tls (pn_Db p') = db_Tls (pn_Db p)"
      "db_Clients (pn_Db p') = update_rows (\<lambda>c. Some (cl_Id c) \<in> set (map text_id (Split [] (CHR '','')))) (given_inbound n1 l) (db_Clients (pn_Db p))"
      using inbound_created [OF _ _ core save [unfolded p1] found] ok by auto
    have "db_Clients (pn_Db p') = db_Clients (pn_Db p)" using i(5) named_client(2) by (simp add: update_rows_def)
    then show ?thesis using i(1-4) ok False by (simp add: rows_made_one created_inbound_def item p1 quick_ready_def)
  next
    case True
    note ok = ready [unfolded quick_ready_def]
    have "name \<noteq> []" using True by (simp add: name_def)
    moreover have "createRemoteQuickAddClient env r index name (quickAddPassword env r index) revision actor host p = (Inr (k, rev1), p1)"
      using first True by (simp add: stopped_Inr)
    ultimately obtain c where c: "tb_Rows (db_Clients (pn_Db p1)) = tb_Rows (db_Clients (pn_Db p)) @ [c]" "client_row env r index k name c"
      "cl_Inbounds c = RVal (GList [])" "tb_Seq (db_Clients (pn_Db p1)) = Suc (tb_Seq (db_Clients (pn_Db p)))"
      "k = Suc (tb_Seq (db_Clients (pn_Db p)))" "table_ok cl_Id (db_Clients (pn_Db p1))"
      "db_Inbounds (pn_Db p1) = db_Inbounds (pn_Db p)" "db_Tls (pn_Db p1) = db_Tls (pn_Db p)"
      using client_created ok by blast
    have ok1: "table_ok in_Id (db_Inbounds (pn_Db p1))" using ok c(7) by simp
    have k: "0 < k" "int k < 2 ^ 63" using ok c(5) by simp_all
    have "(if k > 0 then Itoa (int k) else []) = Itoa (int k)" using k by simp
    then obtain i l where i: "tb_Rows (db_Inbounds (pn_Db p')) = tb_Rows (db_Inbounds (pn_Db p1)) @ [i]" "inbound_row env r tlsID index n1 tag port host i"
      "table_ok in_Id (db_Inbounds (pn_Db p'))" "db_Tls (pn_Db p') = db_Tls (pn_Db p1)"
      "db_Clients (pn_Db p') = update_rows (\<lambda>c. cl_Id c = k) (given_inbound n1 l) (db_Clients (pn_Db p1))"
      using inbound_created [OF ok1 c(6) core save found] named_client(1) [OF k] by auto
    have old: "cl_Id x \<noteq> k" if "x \<in> set (tb_Rows (db_Clients (pn_Db p)))" for x
      using clients.ok_rows(3) [of "db_Clients (pn_Db p)" x] ok that c(5) by simp
    then have "map (\<lambda>x. if cl_Id x = k then given_inbound n1 l x else x) (tb_Rows (db_Clients (pn_Db p))) = tb_Rows (db_Clients (pn_Db p))"
      by (intro map_idI) simp
    then have "tb_Rows (db_Clients (pn_Db p')) = tb_Rows (db_Clients (pn_Db p)) @ [given_inbound n1 l c]"
      using c(1,2) by (simp add: i(5) update_rows_def client_row_def)
    moreover have "created_client env r index item (given_inbound n1 l c)"
      using c(2,3) by (simp add: created_client_def client_row_def item given_inbound_def lenient_ids_def)
    moreover have "table_ok cl_Id (db_Clients (pn_Db p'))" "tb_Seq (db_Clients (pn_Db p')) = k"
      using clients.update_ok [OF c(6)] c(4,5) by (simp_all add: i(5) given_inbound_def, simp add: update_rows_def)
    ultimately show ?thesis using i(1-4) c(5,7,8) ok True
      by (simp add: rows_made_one created_inbound_def item quick_ready_def)
  qed
qed

lemma quick_entries_made:
  "quick_entries env r tlsID index actor host es revision p = (Inr (rev1, items), p') \<Longrightarrow> quick_ready (length es) (pn_Db p) \<Longrightarrow> qr_CoreType r \<noteq> [] \<Longrightarrow>
    rows_made env r tlsID host index items (pn_Db p) (pn_Db p')"
proof (induction env r tlsID index actor host es revision arbitrary: p p' rev1 items rule: quick_entries.induct)
  case (2 env r tlsID index actor host port tag rest revision)
  obtain rev2 item p1 items1 where e: "quick_entry env r tlsID index actor host port tag revision p = (Inr (rev2, item), p1)"
    and es: "quick_entries env r tlsID (Suc index) actor host rest rev2 p1 = (Inr (rev1, items1), p')" "items = item # items1"
    using 2(2) by (auto simp: bind_svc_Inr lift_svc_Inr)
  have "quick_ready (Suc (length rest)) (pn_Db p)" using "2.prems"(2) by simp
  note made = quick_entry_made [OF this "2.prems"(3) e]
  show ?case unfolding es(2) using made "2.IH" [OF es(1) _ "2.prems"(3)] rows_made_Cons by blast
qed (simp add: lift_svc_Inr rows_made_def)

end
