(* ===== verification/Quick_Add_Safety.thy ===== *)
theory Quick_Add_Safety
  imports Quick_Add_Rows
begin

text \<open>
  What a quick add gives: the ports and tags it chooses, what a finished request has created and
  at which revision, and that the ports other inbounds use are not looked at.
\<close>

section \<open>Ports\<close>

definition port_ok :: "int \<Rightarrow> bool" where
  "port_ok c \<longleftrightarrow> 1 \<le> c \<and> c \<le> 65535"

lemma next_port_ok: "port_ok c \<Longrightarrow> port_ok (next_port c)"
  by (simp add: port_ok_def next_port_def)

text \<open>The port after \<open>n\<close> steps.\<close>

definition port_after :: "int \<Rightarrow> nat \<Rightarrow> int" where
  "port_after c n = (c - 1 + int n) mod 65535 + 1"

lemma port_after_simps: "port_ok c \<Longrightarrow> port_after c 0 = c" "port_ok c \<Longrightarrow> port_after (next_port c) n = port_after c (Suc n)"
proof -
  assume c: "port_ok c"
  then show "port_after c 0 = c" by (simp add: port_after_def port_ok_def mod_pos_pos_trivial)
  show "port_after (next_port c) n = port_after c (Suc n)"
  proof (cases "c = 65535")
    case True
    have "(65534 + int (Suc n)) mod 65535 = (int n + 65535) mod 65535" by (simp add: algebra_simps)
    also have "\<dots> = int n mod 65535" by (rule mod_add_self2)
    finally show ?thesis by (simp add: port_after_def next_port_def True)
  next
    case False
    then show ?thesis using c by (simp add: port_after_def next_port_def port_ok_def algebra_simps)
  qed
qed

lemma port_after_ok: "port_ok (port_after c n)"
  using pos_mod_bound [of 65535 "c - 1 + int n"] pos_mod_sign [of 65535 "c - 1 + int n"] by (simp add: port_after_def port_ok_def)

lemma port_after_reaches: "port_ok c \<Longrightarrow> port_ok q \<Longrightarrow> \<exists>n<65535. port_after c n = q"
proof -
  assume c: "port_ok c" and q: "port_ok q"
  let ?n = "nat ((q - c) mod 65535)"
  have "(c - 1 + (q - c) mod 65535) mod 65535 = (q - 1) mod 65535" by (simp add: mod_simps)
  then have "port_after c ?n = q" using q by (simp add: port_after_def port_ok_def mod_pos_pos_trivial)
  moreover have "?n < 65535" using pos_mod_bound [of 65535 "q - c"] by simp
  ultimately show ?thesis by blast
qed

lemma find_port_cases:
  assumes "port_ok c"
  shows "find_port (int n) used c = (if \<exists>j<n. port_after c j \<notin> set used then Some (port_after c (LEAST j. port_after c j \<notin> set used)) else None)"
  using assms
proof (induction n arbitrary: c)
  case 0
  show ?case by (simp add: find_port.simps)
next
  case (Suc n)
  have step: "find_port (int (Suc n)) used c = (if c \<in> set used then find_port (int n) used (next_port c) else Some c)"
    unfolding find_port.simps [of "int (Suc n)"] by simp
  note after = port_after_simps [OF Suc.prems]
  show ?case
  proof (cases "c \<in> set used")
    case False
    then have "(LEAST j. port_after c j \<notin> set used) = 0" using after(1) by (intro Least_equality) auto
    moreover have "\<exists>j<Suc n. port_after c j \<notin> set used" using False after(1) by (intro exI [of _ 0]) simp
    ultimately show ?thesis using False by (simp only: step after(1) if_False if_True)
  next
    case True
    have ex: "(\<exists>j<n. port_after (next_port c) j \<notin> set used) \<longleftrightarrow> (\<exists>j<Suc n. port_after c j \<notin> set used)"
      using True after by (metis (no_types, opaque_lifting) Suc_less_eq less_Suc_eq_0_disj)
    have "port_after (next_port c) (LEAST j. port_after (next_port c) j \<notin> set used) = port_after c (LEAST j. port_after c j \<notin> set used)"
      if "\<exists>j<Suc n. port_after c j \<notin> set used"
    proof -
      from that obtain j where j: "port_after c j \<notin> set used" by blast
      have "(LEAST j. port_after c j \<notin> set used) = Suc (LEAST j. port_after c (Suc j) \<notin> set used)"
        by (rule Least_Suc [of "\<lambda>j. port_after c j \<notin> set used" j, OF j]) (simp add: after(1) True)
      then show ?thesis by (simp add: after(2))
    qed
    then show ?thesis using True Suc.IH [OF next_port_ok [OF Suc.prems]] ex by (cases "\<exists>j<Suc n. port_after c j \<notin> set used") (simp_all only: step if_True if_False)
  qed
qed

lemmas find_port_all = find_port_cases [of _ 65535, unfolded of_nat_numeral]

lemma find_port_free:
  assumes "port_ok c" "find_port 65535 used c = Some p"
  shows "port_ok p \<and> p \<notin> set used"
proof -
  have ex: "\<exists>j<65535. port_after c j \<notin> set used" and p: "p = port_after c (LEAST j. port_after c j \<notin> set used)"
    using assms(2) unfolding find_port_all [OF assms(1)] by (auto split: if_splits)
  from ex have "port_after c (LEAST j. port_after c j \<notin> set used) \<notin> set used" by (metis (mono_tags, lifting) LeastI)
  then show ?thesis by (simp add: p port_after_ok)
qed

lemma find_port_full: "port_ok c \<Longrightarrow> find_port 65535 used c = None \<longleftrightarrow> (\<forall>q. port_ok q \<longrightarrow> q \<in> set used)"
  using port_after_reaches port_after_ok by (auto simp: find_port_all split: if_splits) blast+

lemma find_ports_sound:
  "port_ok c \<Longrightarrow> find_ports n used c = Some ps \<Longrightarrow> length ps = n \<and> distinct ps \<and> (\<forall>p\<in>set ps. port_ok p \<and> p \<notin> set used)"
proof (induction n used c arbitrary: ps rule: find_ports.induct)
  case (2 n used c)
  obtain p ps1 where p: "find_port 65535 used c = Some p" "find_ports n (p # used) (next_port p) = Some ps1" "ps = p # ps1"
    using 2(3) by (auto split: option.splits)
  note f = find_port_free [OF 2(2) p(1)]
  with 2(1) [OF p(1) _ p(2)] next_port_ok show ?case by (auto simp: p(3))
qed simp

lemma free_ports: "{q. port_ok q} - set used = {1..65535} - set used"
  by (auto simp: port_ok_def)

lemma find_ports_full:
  "port_ok c \<Longrightarrow> find_ports n used c = None \<longleftrightarrow> card ({1..65535} - set used) < n"
proof (induction n used c rule: find_ports.induct)
  case (2 n used c)
  show ?case
  proof (cases "find_port 65535 used c")
    case None
    then have "{1..65535} - set used = {}" using find_port_full [OF 2(2)] by (auto simp: port_ok_def)
    then have "card ({1..65535} - set used) < Suc n" by (simp only: card.empty zero_less_Suc)
    then show ?thesis using None by simp
  next
    case (Some p)
    note f = find_port_free [OF 2(2) Some]
    have "{1..65535} - set used = insert p ({1..65535} - set (p # used))" using f by (auto simp: port_ok_def)
    then have "card ({1..65535} - set used) = card (insert p ({1..65535} - set (p # used)))" by (rule arg_cong)
    also have "\<dots> = Suc (card ({1..65535} - set (p # used)))" by (rule card_insert_disjoint) simp_all
    finally have "card ({1..65535} - set used) = Suc (card ({1..65535} - set (p # used)))" .
    moreover have "find_ports n (p # used) (next_port p) = None \<longleftrightarrow> card ({1..65535} - set (p # used)) < n"
      using 2(1) [OF Some] f next_port_ok by simp
    ultimately show ?thesis using Some by simp
  qed
qed simp

section \<open>Tags\<close>

lemma free_tags_sound: "length (free_tags used ts) = length ts \<and> distinct (free_tags used ts) \<and> set (free_tags used ts) \<inter> set used = {}"
proof (induction used ts rule: free_tags.induct)
  case (2 used initial rest)
  then show ?case using free_name_free [of used initial 0] by (auto simp: Let_def)
qed simp

lemma length_first_tags [simp]: "length (first_tags base n) = n"
  by (simp add: first_tags_def)

text \<open>
  C36. The allocation of a quick add gives as many ports and tags as were asked for, all different, the
  ports between 1 and 65535 and none of them or of the tags in use; it fails exactly when too
  few ports are free. (What counts as in use is the matter of \<open>quick_add_ignores_ports\<close>.)
\<close>

theorem allocateRemoteQuickAdd_spec:
  assumes "1 \<le> start" "start \<le> 65535"
  shows "case allocateRemoteQuickAdd items start n baseTag proto of
      Inl _ \<Rightarrow> card ({1..65535} - set (used_ports items)) < n
    | Inr (ports, tags) \<Rightarrow> length ports = n \<and> length tags = n \<and> distinct ports \<and> distinct tags
        \<and> (\<forall>p\<in>set ports. 1 \<le> p \<and> p \<le> 65535 \<and> p \<notin> set (used_ports items)) \<and> set tags \<inter> set (used_tags items) = {}"
proof (cases "find_ports n (used_ports items) start")
  case None
  then show ?thesis using assms find_ports_full [of start n "used_ports items"] by (simp add: allocateRemoteQuickAdd_def NewError_def port_ok_def)
next
  case (Some ports)
  then show ?thesis
    using assms find_ports_sound [of start n "used_ports items" ports] free_tags_sound
    by (simp add: allocateRemoteQuickAdd_def port_ok_def Let_def)
qed

theorem allocateRemoteQuickAdd_spec_witness:
  "\<exists>ports tags. allocateRemoteQuickAdd [(Go_Float 30000, ''node-1''), (Go_Int 30002, ''node-2'')] 30000 2 ''node'' ''socks'' = Inr (ports, tags)
    \<and> length ports = 2 \<and> 30000 \<notin> set ports \<and> 30002 \<notin> set ports"
proof -
  let ?items = "[(Go_Float 30000, ''node-1''), (Go_Int 30002, ''node-2'')]"
  have used: "used_ports ?items = [30000, 30002]" by (simp add: used_ports_def intFromInterface_def trunc_rat_def)
  have free: "find_port 65535 u c = (if c \<in> set u then find_port 65534 u (next_port c) else Some c)"
    "find_port 65534 u c = (if c \<in> set u then find_port 65533 u (next_port c) else Some c)" for u c
    by (simp_all add: find_port.simps [of 65535] find_port.simps [of 65534])
  have "find_ports 2 [30000, 30002] 30000 = Some [30001, 30003]"
    by (simp add: numeral_2_eq_2 free next_port_def)
  then obtain ports tags where run: "allocateRemoteQuickAdd ?items 30000 2 ''node'' ''socks'' = Inr (ports, tags)"
    by (simp add: allocateRemoteQuickAdd_def used Let_def)
  from allocateRemoteQuickAdd_spec [of 30000 ?items 2 "''node''" "''socks''"] show ?thesis by (auto simp: run used)
qed

section \<open>What a finished request has done\<close>

lemma save_at_Inr:
  assumes "save_at env revision obj data userIds actor publicHost p = (Inr next, p')"
  shows "CurrentRevision p = revision \<and> next = Suc revision \<and> CurrentRevision p' = Suc revision"
proof -
  let ?q = "\<lparr>sr_Env = env, sr_Obj = obj, sr_Act = ''new'', sr_Data = data, sr_Users = userIds, sr_Login = ''agent:'' @ actor, sr_Host = publicHost\<rparr>"
  obtain r p1 where run: "save_revision revision ?q p = (r, p1)" by fastforce
  then have "SaveWithRevision env revision obj ''new'' data userIds (''agent:'' @ actor) publicHost p = (r, p1)" by (simp add: save_revision_def)
  with save_revision_cases [OF run] assms show ?thesis by (auto simp: save_at_def)
qed

lemma client_Inr:
  assumes "createRemoteQuickAddClient env r index name password0 revision actor publicHost p = (Inr (k, next), p')"
  shows "CurrentRevision p = revision \<and> next = Suc revision \<and> CurrentRevision p' = Suc revision"
  using assms by (auto simp: createRemoteQuickAddClient_def bind_svc_Inr lift_svc_Inr map_sum_Inr_iff dest!: save_at_Inr split: option.splits)

lemma tls_Inr:
  assumes "createRemoteQuickAddTLS env serverName revision actor publicHost p = (Inr (k, next), p')"
  shows "CurrentRevision p = revision \<and> next = Suc revision \<and> CurrentRevision p' = Suc revision"
  using assms by (auto simp: createRemoteQuickAddTLS_def bind_svc_Inr Let_def map_sum_Inr_iff dest!: save_at_Inr split: sum.splits prod.splits)

definition saves_per_entry :: "quick_request \<Rightarrow> nat" where
  "saves_per_entry r = (if qr_Protocol r \<in> set remoteQuickAddClientProtocols then 2 else 1)"

lemma quick_entry_Inr:
  assumes "quick_entry env r tlsID index actor publicHost port tag revision p = (Inr (rev1, item), p')"
  shows "CurrentRevision p = revision \<and> rev1 = revision + saves_per_entry r \<and> CurrentRevision p' = rev1 \<and> qi_Tag item = tag \<and> qi_Port item = port"
  using assms
  by (auto simp: quick_entry_def Let_def bind_svc_Inr lift_svc_Inr stopped_Inr saves_per_entry_def map_sum_Inr_iff dest!: save_at_Inr client_Inr split: if_splits)

lemma quick_entries_Inr:
  "quick_entries env r tlsID index actor publicHost es revision p = (Inr (rev1, items), p') \<Longrightarrow>
    (es \<noteq> [] \<longrightarrow> CurrentRevision p = revision \<and> CurrentRevision p' = rev1) \<and> rev1 = revision + length es * saves_per_entry r
    \<and> map (\<lambda>i. (qi_Port i, qi_Tag i)) items = es"
proof (induction env r tlsID index actor publicHost es revision arbitrary: p p' rev1 items rule: quick_entries.induct)
  case (2 env r tlsID index actor publicHost port tag rest revision)
  obtain rev2 item p1 items1 where e: "quick_entry env r tlsID index actor publicHost port tag revision p = (Inr (rev2, item), p1)"
    and es: "quick_entries env r tlsID (Suc index) actor publicHost rest rev2 p1 = (Inr (rev1, items1), p')" "items = item # items1"
    using 2(2) by (auto simp: bind_svc_Inr lift_svc_Inr)
  from quick_entry_Inr [OF e] "2.IH" [OF es(1)] es show ?case by (cases "rest = []") (auto simp: lift_svc_Inr)
qed (simp add: lift_svc_Inr)

lemma validated_fields:
  "validateRemoteQuickAddRequest r0 = Inr r \<Longrightarrow> qr_Count r = qr_Count r0 \<and> qr_Port r = qr_Port r0 \<and> qr_ExpectedRevision r = qr_ExpectedRevision r0
    \<and> 1 \<le> qr_Count r \<and> qr_Count r \<le> 100 \<and> 1 \<le> qr_Port r \<and> qr_Port r \<le> 65535"
  by (auto simp: validateRemoteQuickAddRequest_def Let_def maxRemoteQuickAddCount_def split: if_splits)

lemma validated_core: "validateRemoteQuickAddRequest r0 = Inr r \<Longrightarrow> qr_CoreType r \<noteq> []"
  by (auto simp: validateRemoteQuickAddRequest_def Let_def split: if_splits)

lemma quick_checks_Inr:
  "quick_checks r0 = Inr (r, actor, publicHost) \<Longrightarrow> validateRemoteQuickAddRequest r0 = Inr r"
  by (auto simp: quick_checks_def bindr_Inr_iff split: if_splits)

lemma xray_usable_db:
  assumes "xray_usable env r p = (u, p1)"
  shows "pn_Db p1 = pn_Db p"
proof -
  have x: "pn_Db (snd (on_xray m q)) = pn_Db q" "pn_Db (snd (on_files m' q)) = pn_Db q" for m :: "'a xray" and m' :: "'b xbuild" and q
    by (simp_all add: on_xray_def on_files_def split: prod.split)
  have c: "pn_Db (snd (check_config e c q)) = pn_Db q" for e c q
  proof -
    obtain rc q1 where f: "on_files (getXrayConfig (cf_XrayFiles e) (pn_Db q)) q = (rc, q1)" by fastforce
    have q1: "pn_Db q1 = pn_Db q" using x(2) [of "getXrayConfig (cf_XrayFiles e) (pn_Db q)" q] by (simp add: f)
    show ?thesis
    proof (cases rc)
      case (Inr cfg)
      obtain v q2 where v: "on_xray (xray_Validate (cf_XrayEnv e) cfg) q1 = (v, q2)" by fastforce
      have "pn_Db q2 = pn_Db q" using x(1) [of "xray_Validate (cf_XrayEnv e) cfg" q1] by (simp add: v q1)
      then show ?thesis using q1 by (cases v) (simp_all add: check_config_def f Inr v Let_def)
    qed (simp add: check_config_def f q1)
  qed
  obtain v q1 where v: "on_xray (xray_Version (cf_XrayEnv (qe_Config env))) p = (v, q1)" by fastforce
  have "pn_Db q1 = pn_Db p" using x(1) [of "xray_Version (cf_XrayEnv (qe_Config env))" p] by (simp add: v)
  then have "pn_Db (snd (CheckXray (qe_Config env) p)) = pn_Db p"
    using c by (cases v) (simp_all add: CheckXray_def v Let_def)
  then show ?thesis using assms by (auto simp: xray_usable_def split: if_splits prod.splits)
qed

lemma shown_tags: "Inbounds_GetAll db = Inr ms \<Longrightarrow> map (\<lambda>m. snd (shown_item m)) ms = map in_Tag (tb_Rows (db_Inbounds db))"
proof -
  assume "Inbounds_GetAll db = Inr ms"
  then have "list_all2 (\<lambda>i m. inbound_shown db i = Inr m) (tb_Rows (db_Inbounds db)) ms" by (simp add: Inbounds_GetAll_def mapr_Inr_iff)
  moreover have "snd (shown_item m) = in_Tag i" if "inbound_shown db i = Inr m" for i m
    using that unfolding inbound_shown_def bindr_Inr_iff by (elim exE conjE) (simp add: shown_item_def sum.inject eq_commute [of _ m])
  ultimately show ?thesis by (induction rule: list_all2_induct) auto
qed

lemma shown_ports: "used_ports (map shown_item ms) = []"
  by (simp add: used_ports_def shown_item_def intFromInterface_def)

lemma allocation_Inr:
  assumes "quick_allocation r db = Inr (ports, tags)"
  shows "\<exists>ms base. Inbounds_GetAll db = Inr ms \<and> find_ports (nat (qr_Count r)) [] (qr_Port r) = Some ports
    \<and> tags = free_tags (used_tags (map shown_item ms)) (first_tags base (nat (qr_Count r)))"
proof -
  obtain ms where ms: "Inbounds_GetAll db = Inr ms"
    and al: "allocateRemoteQuickAdd (map shown_item ms) (qr_Port r) (nat (qr_Count r)) (qr_Tag r) (qr_Protocol r) = Inr (ports, tags)"
    using assms unfolding quick_allocation_def bindr_Inr_iff by blast
  then show ?thesis
    by (cases "find_ports (nat (qr_Count r)) [] (qr_Port r)") (auto simp: allocateRemoteQuickAdd_def shown_ports Let_def NewError_def)
qed

text \<open>
  C35. A quick add that succeeds has stored what it reports. It ran from the expected revision with nothing in between:
  one change for the TLS settings its protocol needs and one or two for each entry, and the revision
  it answers is the one the panel has. The entries are as many as were asked for, on
  different ports and under different tags that no inbound had. To the table of inbounds it added exactly one row
  for each entry, with the entry's identifier, tag and port, the protocol and the core of the request, the identifier of the
  TLS settings and the options of the protocol; to the table of clients, for a protocol with
  clients, one enabled client for each entry, with its name, its credentials and just this inbound; and to the TLS
  settings one row with the certificate that was generated, or none. The tables must be well formed and have
  room for the new keys.
\<close>

theorem QuickAddInbounds_result:
  assumes "QuickAddInbounds env r0 p = (Inr (revision, items), p')"
    and "quick_ready (nat (qr_Count r0)) (pn_Db p)" "table_ok tls_Id (db_Tls (pn_Db p))"
  shows "\<exists>r actor host tlsID. quick_checks r0 = Inr (r, actor, host)
    \<and> CurrentRevision p = qr_ExpectedRevision r0 \<and> CurrentRevision p' = revision
    \<and> revision = qr_ExpectedRevision r0 + (if qr_Protocol r \<in> set remoteQuickAddTLSProtocols then 1 else 0) + nat (qr_Count r0) * saves_per_entry r
    \<and> length items = nat (qr_Count r0) \<and> distinct (map qi_Port items) \<and> distinct (map qi_Tag items)
    \<and> (\<forall>i\<in>set items. 1 \<le> qi_Port i \<and> qi_Port i \<le> 65535)
    \<and> (\<forall>t\<in>set (map qi_Tag items). t \<noteq> [] \<longrightarrow> t \<notin> in_Tag ` set (tb_Rows (db_Inbounds (pn_Db p))))
    \<and> (\<exists>rows. tb_Rows (db_Inbounds (pn_Db p')) = tb_Rows (db_Inbounds (pn_Db p)) @ rows \<and> each_row (created_inbound env r tlsID host) 0 items rows)
    \<and> (\<exists>rows. tb_Rows (db_Clients (pn_Db p')) = tb_Rows (db_Clients (pn_Db p)) @ rows
        \<and> (if qr_Protocol r \<in> set remoteQuickAddClientProtocols then each_row (created_client env r) 0 items rows
           else rows = [] \<and> list_all (\<lambda>i. qi_ClientID i = 0 \<and> qi_ClientName i = []) items))
    \<and> (\<exists>rows. tb_Rows (db_Tls (pn_Db p')) = tb_Rows (db_Tls (pn_Db p)) @ rows
        \<and> (if qr_Protocol r \<in> set remoteQuickAddTLSProtocols then \<exists>t. rows = [t] \<and> created_tls env (qi_Tag (hd items)) tlsID t
           else rows = [] \<and> tlsID = 0))"
proof -
  obtain r actor host p1 ports tags tlsID rev1 p2 where c: "quick_checks r0 = Inr (r, actor, host)" and x: "xray_usable env r p = (Inr (), p1)"
    and al: "quick_allocation r (pn_Db p1) = Inr (ports, tags)"
    and tls: "(if qr_Protocol r \<in> set remoteQuickAddTLSProtocols
        then createRemoteQuickAddTLS env (hd tags) (qr_ExpectedRevision r) actor host else lift_svc (Inr (0, qr_ExpectedRevision r))) p1
      = (Inr (tlsID, rev1), p2)"
    and es: "quick_entries env r tlsID 0 actor host (zip ports tags) rev1 p2 = (Inr (revision, items), p')"
    using assms(1) by (auto simp: QuickAddInbounds_def bind_svc_Inr lift_svc_Inr)
  note v = quick_checks_Inr [OF c] and f = validated_fields [OF quick_checks_Inr [OF c]] and db = xray_usable_db [OF x]
  obtain ms where ms: "Inbounds_GetAll (pn_Db p1) = Inr ms"
    and fp: "find_ports (nat (qr_Count r)) [] (qr_Port r) = Some ports"
    and tg: "\<exists>base. tags = free_tags (used_tags (map shown_item ms)) (first_tags base (nat (qr_Count r)))"
    using allocation_Inr [OF al] by blast
  have ports: "length ports = nat (qr_Count r)" "distinct ports" "\<forall>q\<in>set ports. port_ok q"
    using find_ports_sound [OF _ fp] f by (simp_all add: port_ok_def)
  have tags: "length tags = nat (qr_Count r)" "distinct tags" "set tags \<inter> set (used_tags (map shown_item ms)) = {}"
    using tg free_tags_sound by (auto simp del: Int_iff) 
  have new: "t \<notin> in_Tag ` set (tb_Rows (db_Inbounds (pn_Db p)))" if "t \<in> set tags" "t \<noteq> []" for t
  proof -
    have "t \<notin> set (map (\<lambda>m. snd (shown_item m)) ms)" using tags(3) that by (auto simp: used_tags_def)
    then show ?thesis unfolding shown_tags [OF ms] db by simp
  qed
  note q = quick_entries_Inr [OF es]
  have ne: "zip ports tags \<noteq> []" using ports(1) tags(1) f by (cases ports; cases tags) auto
  have items: "map qi_Port items = ports" "map qi_Tag items = tags" "length items = nat (qr_Count r)"
  proof -
    have m: "map (\<lambda>i. (qi_Port i, qi_Tag i)) items = zip ports tags" using q by blast
    from arg_cong [OF this, of "map fst"] show "map qi_Port items = ports" using ports(1) tags(1) by (simp add: comp_def)
    from arg_cong [OF m, of "map snd"] show "map qi_Tag items = tags" using ports(1) tags(1) by (simp add: comp_def)
    from arg_cong [OF m, of length] show "length items = nat (qr_Count r)" using ports(1) tags(1) by simp
  qed
  have first: "CurrentRevision p1 = qr_ExpectedRevision r \<and> rev1 = qr_ExpectedRevision r + (if qr_Protocol r \<in> set remoteQuickAddTLSProtocols then 1 else 0)"
  proof (cases "qr_Protocol r \<in> set remoteQuickAddTLSProtocols")
    case True
    then show ?thesis using tls tls_Inr by force
  next
    case False
    then show ?thesis using tls q ne by (auto simp: lift_svc_Inr)
  qed
  have range: "\<forall>i\<in>set items. 1 \<le> qi_Port i \<and> qi_Port i \<le> 65535"
    using ports(3) items(1) by (auto simp: port_ok_def)
  have hd_tag: "hd tags = qi_Tag (hd items)" using items(2,3) f by (cases items) auto
  obtain rows where tlsrows: "tb_Rows (db_Tls (pn_Db p2)) = tb_Rows (db_Tls (pn_Db p)) @ rows"
      "if qr_Protocol r \<in> set remoteQuickAddTLSProtocols then \<exists>t. rows = [t] \<and> created_tls env (qi_Tag (hd items)) tlsID t else rows = [] \<and> tlsID = 0"
    and same: "db_Clients (pn_Db p2) = db_Clients (pn_Db p)" "db_Inbounds (pn_Db p2) = db_Inbounds (pn_Db p)"
  proof (cases "qr_Protocol r \<in> set remoteQuickAddTLSProtocols")
    case True
    have "table_ok tls_Id (db_Tls (pn_Db p1))" using assms(3) by (simp add: db)
    moreover have "createRemoteQuickAddTLS env (qi_Tag (hd items)) (qr_ExpectedRevision r) actor host p1 = (Inr (tlsID, rev1), p2)"
      using tls True by (simp add: hd_tag)
    ultimately obtain t where "tb_Rows (db_Tls (pn_Db p2)) = tb_Rows (db_Tls (pn_Db p)) @ [t]" "created_tls env (qi_Tag (hd items)) tlsID t"
      "db_Clients (pn_Db p2) = db_Clients (pn_Db p)" "db_Inbounds (pn_Db p2) = db_Inbounds (pn_Db p)"
      using tls_created unfolding db [symmetric] by blast
    then show thesis using that [of "[t]"] True by simp
  next
    case False
    then have "p2 = p1" "tlsID = 0" using tls by (auto simp: lift_svc_Inr)
    then show thesis using that [of "[]"] False by (simp add: db)
  qed
  have "quick_ready (length (zip ports tags)) (pn_Db p2)" using assms(2) ports(1) tags(1) f by (simp add: quick_ready_def same)
  note made = quick_entries_made [OF es this validated_core [OF v], unfolded rows_made_def same]
  have "CurrentRevision p = CurrentRevision p1" by (simp add: CurrentRevision_def db)
  moreover have "revision = rev1 + nat (qr_Count r) * saves_per_entry r" "CurrentRevision p' = revision" using q ne ports(1) tags(1) by auto
  moreover have "\<forall>t\<in>set (map qi_Tag items). t \<noteq> [] \<longrightarrow> t \<notin> in_Tag ` set (tb_Rows (db_Inbounds (pn_Db p)))" using new unfolding items(2) by blast
  ultimately show ?thesis using first f c items range ports(2) tags(2) made tlsrows
    by (intro exI [of _ r] exI [of _ actor] exI [of _ host] exI [of _ tlsID]) simp
qed

text \<open>
  C37. The ports of the inbounds that exist are not avoided: the list of inbounds holds them in
  a form the allocation does not read, so the first port is the one asked for even when an inbound
  listens on it.
\<close>

theorem quick_add_ignores_ports:
  assumes "quick_checks r0 = Inr (r, actor, publicHost)" "quick_allocation r db = Inr (ports, tags)"
  shows "hd ports = qr_Port r0 \<and> (\<forall>db'. \<not> isl (Inbounds_GetAll db') \<longrightarrow> (\<exists>tags'. quick_allocation r db' = Inr (ports, tags')))"
proof -
  note f = validated_fields [OF quick_checks_Inr [OF assms(1)]]
  have fp: "find_ports (nat (qr_Count r)) [] (qr_Port r) = Some ports"
    using allocation_Inr [OF assms(2)] by blast
  obtain n where n: "nat (qr_Count r) = Suc n" using f by (cases "nat (qr_Count r)") auto
  have "find_port 65535 [] (qr_Port r) = Some (qr_Port r)" by (simp add: find_port.simps [of 65535])
  then have "hd ports = qr_Port r" using fp by (auto simp: n)
  moreover have "\<exists>tags'. quick_allocation r db' = Inr (ports, tags')" if "\<not> isl (Inbounds_GetAll db')" for db'
    using that by (cases "Inbounds_GetAll db'") (simp_all add: quick_allocation_def allocateRemoteQuickAdd_def shown_ports fp Let_def)
  ultimately show ?thesis using f by simp
qed

definition quick_example :: quick_env where
  "quick_example = \<lparr>qe_Config = example_config, qe_NameDraw = (\<lambda>_ _. 0), qe_PasswordDraw = (\<lambda>_ _. 0), qe_ObfsDraw = (\<lambda>_ _. 0), qe_UUID = (\<lambda>_. []),
     qe_IsLetter = (\<lambda>_. False), qe_Certificate = (\<lambda>_. Inl [])\<rparr>"

definition socks_request :: quick_request where
  "socks_request = \<lparr>qr_CoreType = [], qr_Protocol = ''socks'', qr_Tag = ''far'', qr_Count = 2, qr_Port = 65535, qr_Password = [], qr_Method = [],
     qr_ObfsPassword = [], qr_HandshakeServer = [], qr_ExpectedRevision = 0, qr_Actor = ''admin'', qr_PublicHost = ''vpn.example''\<rparr>"

definition trojan_example :: quick_env where
  "trojan_example = quick_example\<lparr>qe_NameDraw := (\<lambda>i _. i), qe_Certificate := (\<lambda>_. Inr (''key'', ''certificate'', ''pin''))\<rparr>"

definition trojan_request :: quick_request where
  "trojan_request = socks_request\<lparr>qr_Protocol := ''trojan''\<rparr>"

lemma each_row_two: "each_row R k [x, y] rows \<longleftrightarrow> (\<exists>a b. rows = [a, b] \<and> R k x a \<and> R (Suc k) y b)"
  by (cases rows; cases "tl rows") auto

text \<open>
  Two Trojan inbounds from the last port on: the second is given port 1. Each stored inbound has its own port and its own
  client, and both use the TLS settings that were made for them.
\<close>

theorem QuickAddInbounds_result_witness:
  "\<exists>items p' i j c d t. QuickAddInbounds trojan_example trojan_request example_panel = (Inr (5, items), p') \<and> CurrentRevision p' = 5
    \<and> tb_Rows (db_Inbounds (pn_Db p')) = tb_Rows (db_Inbounds (pn_Db example_panel)) @ [i, j]
    \<and> tb_Rows (db_Clients (pn_Db p')) = tb_Rows (db_Clients (pn_Db example_panel)) @ [c, d] \<and> tb_Rows (db_Tls (pn_Db p')) = [t]
    \<and> map_option (\<lambda>m. mget m ''listen_port'') (decode_map (in_Options i)) = Some (GFloat 65535)
    \<and> map_option (\<lambda>m. mget m ''listen_port'') (decode_map (in_Options j)) = Some (GFloat 1)
    \<and> in_TlsId i = tls_Id t \<and> in_TlsId j = tls_Id t \<and> cl_Inbounds c = uints_raw [in_Id i] \<and> cl_Inbounds d = uints_raw [in_Id j]"
proof -
  have "case fst (QuickAddInbounds trojan_example trojan_request example_panel) of Inr (n, items) \<Rightarrow> n = 5 \<and> map qi_Port items = [65535, 1] | Inl _ \<Rightarrow> False"
    by code_simp
  then obtain items p' where run: "QuickAddInbounds trojan_example trojan_request example_panel = (Inr (5, items), p')" "map qi_Port items = [65535, 1]"
    by (cases "QuickAddInbounds trojan_example trojan_request example_panel"; cases "fst (QuickAddInbounds trojan_example trojan_request example_panel)") auto
  have ready: "quick_ready (nat (qr_Count trojan_request)) (pn_Db example_panel)" "table_ok tls_Id (db_Tls (pn_Db example_panel))"
    by (simp_all add: quick_ready_def trojan_request_def socks_request_def example_panel_def reload_db_def empty_db_def empty_table_def table_ok_def)
  obtain a b where items: "items = [a, b]" "qi_Port a = 65535" "qi_Port b = 1" using run(2) by auto
  have protocol: "qr_Protocol r \<in> set remoteQuickAddTLSProtocols" "qr_Protocol r \<in> set remoteQuickAddClientProtocols"
    if "quick_checks trojan_request = Inr (r, actor, host)" for r actor host
  proof -
    have "case quick_checks trojan_request of Inr (r, _, _) \<Rightarrow> qr_Protocol r = ''trojan'' | Inl _ \<Rightarrow> True" by code_simp
    then have "qr_Protocol r = ''trojan''" by (simp add: that)
    then show "qr_Protocol r \<in> set remoteQuickAddTLSProtocols" "qr_Protocol r \<in> set remoteQuickAddClientProtocols"
      by (simp_all add: remoteQuickAddTLSProtocols_def remoteQuickAddClientProtocols_def)
  qed
  have none: "tb_Rows (db_Tls (pn_Db example_panel)) = []" by (simp add: example_panel_def reload_db_def empty_db_def empty_table_def)
  from QuickAddInbounds_result [OF run(1) ready] obtain r actor host tlsID ins cs t where checks: "quick_checks trojan_request = Inr (r, actor, host)"
    and rev: "CurrentRevision p' = 5" and ins: "tb_Rows (db_Inbounds (pn_Db p')) = tb_Rows (db_Inbounds (pn_Db example_panel)) @ ins"
      "each_row (created_inbound trojan_example r tlsID host) 0 items ins"
    and cls: "tb_Rows (db_Clients (pn_Db p')) = tb_Rows (db_Clients (pn_Db example_panel)) @ cs" "each_row (created_client trojan_example r) 0 items cs"
    and t: "tb_Rows (db_Tls (pn_Db p')) = [t]" "tls_Id t = tlsID"
    using protocol by (auto simp: none created_tls_def)
  obtain i j c d where rows: "ins = [i, j]" "cs = [c, d]" "created_inbound trojan_example r tlsID host 0 a i" "created_inbound trojan_example r tlsID host 1 b j"
    "created_client trojan_example r 0 a c" "created_client trojan_example r 1 b d"
    using ins(2) cls(2) unfolding items(1) each_row_two One_nat_def by blast
  then show ?thesis using run(1) rev ins(1) cls(1) t
    by (intro exI [of _ items] exI [of _ p'] exI [of _ i] exI [of _ j] exI [of _ c] exI [of _ d] exI [of _ t])
      (simp add: created_inbound_def inbound_row_def created_client_def items(2,3) quick_options_def)
qed

text \<open>The panel's inbound listens on the port that is asked for.\<close>

theorem quick_add_ignores_ports_witness:
  "\<exists>r ports tags db. quick_allocation r db = Inr (ports, tags) \<and> hd ports = 65535
    \<and> list_ex (\<lambda>i. decode_map (in_Options i) = Some [(''listen_port'', GFloat 65535)]) (tb_Rows (db_Inbounds db))"
proof -
  let ?db = "reload_db\<lparr>db_Inbounds := \<lparr>tb_Rows = [empty_inbound\<lparr>in_Id := 1, in_Type := ''direct'', in_Tag := ''d'',
      in_Options := RVal (GMap [(''listen_port'', GFloat 65535)])\<rparr>], tb_Seq = 1\<rparr>\<rparr>"
  have "case quick_checks socks_request of Inr (r, _, _) \<Rightarrow> \<not> isl (quick_allocation r ?db) | Inl _ \<Rightarrow> False" by code_simp
  then obtain r actor host where c: "quick_checks socks_request = Inr (r, actor, host)" and a: "\<not> isl (quick_allocation r ?db)"
    by (cases "quick_checks socks_request") auto
  obtain ports tags where al: "quick_allocation r ?db = Inr (ports, tags)" using a by (cases "quick_allocation r ?db") auto
  have "hd ports = 65535" using quick_add_ignores_ports [OF c al] by (simp add: socks_request_def)
  moreover have "list_ex (\<lambda>i. decode_map (in_Options i) = Some [(''listen_port'', GFloat 65535)]) (tb_Rows (db_Inbounds ?db))"
    by (simp add: decode_map_def)
  ultimately show ?thesis using al by blast
qed

end
