(* ===== verification/Local_Control.thy ===== *)
theory Local_Control
  imports Quick_Add Relay_Create Relay_Restore
begin

text \<open>
  What a managed server does for the panel that controls it (\<^verbatim>\<open>service/local_control.go\<close>,
  \<^verbatim>\<open>service/remote_relay.go\<close>): listing and saving inbounds and operating its relay pools, with the name of the
  remote user in the record of changes.
\<close>

section \<open>Inbounds\<close>

record inbound_list =
  il_Revision :: nat
  il_Inbounds :: "gmap list"
  il_TLS :: "tls_row list"

definition ListInbounds :: "panel \<Rightarrow> inbound_list result" where
  "ListInbounds p =
     bindr (Inbounds_GetAll (pn_Db p)) (\<lambda>items.
       Inr \<lparr>il_Revision = CurrentRevision p, il_Inbounds = items, il_TLS = tb_Rows (db_Tls (pn_Db p))\<rparr>)"

record inbound_editor =
  ie_Revision :: nat
  ie_Inbound :: "gmap option"
  ie_Tags :: "string list"
  ie_TLS :: "tls_row list"
  ie_Clients :: "client list"
  ie_Inbounds :: "gmap list"

definition inboundMapID :: "gmap \<Rightarrow> nat" where
  "inboundMapID item = (case mget item ''id'' of GInt n \<Rightarrow> nat n | GFloat r \<Rightarrow> nat (trunc_rat r) | _ \<Rightarrow> 0)"

text \<open>\<open>ClientService.GetAll\<close>: the columns it does not select are zero.\<close>

definition Clients_GetAll :: "panel_db \<Rightarrow> client list" where
  "Clients_GetAll db =
     map (\<lambda>c. c\<lparr>cl_Config := RNil, cl_Links := RNil, cl_DelayStart := False, cl_AutoReset := False, cl_ResetDays := 0, cl_NextReset := 0,
       cl_TotalUp := 0, cl_TotalDown := 0\<rparr>) (tb_Rows (db_Clients db))"

text \<open>The last entry with the identifier is the one that is edited.\<close>

definition InboundEditor :: "nat \<Rightarrow> panel \<Rightarrow> inbound_editor result" where
  "InboundEditor k p =
     bindr (Inbounds_GetAll (pn_Db p)) (\<lambda>items.
       let mine = (if k = 0 then None else find (\<lambda>m. inboundMapID m = k) (rev items))
       in if k > 0 \<and> mine = None then NewError ''inbound not found''
          else Inr
            \<lparr>ie_Revision = CurrentRevision p, ie_Inbound = mine,
             ie_Tags = concat (map (\<lambda>m. case mget m ''tag'' of GStr t \<Rightarrow> [t] | _ \<Rightarrow> []) items),
             ie_TLS = tb_Rows (db_Tls (pn_Db p)), ie_Clients = Clients_GetAll (pn_Db p), ie_Inbounds = items\<rparr>)"

text \<open>\<open>ls_Size\<close> is the number of bytes of the data.\<close>

record inbound_save =
  ls_Action :: string
  ls_Data :: raw
  ls_Size :: nat
  ls_InitUsers :: "nat list"
  ls_ExpectedRevision :: nat
  ls_Actor :: string
  ls_PublicHost :: string

definition SaveInbound :: "config_env \<Rightarrow> inbound_save \<Rightarrow> nat panel_op" where
  "SaveInbound env rq =
     (if ls_Action rq \<noteq> ''new'' \<and> ls_Action rq \<noteq> ''edit'' \<and> ls_Action rq \<noteq> ''del'' then lift_svc (NewError ''unsupported inbound action'')
      else if ls_Size rq = 0 \<or> ls_Size rq > 512 * 1024 then lift_svc (NewError ''invalid inbound payload'')
      else bind_svc (lift_svc (normalizeRemoteActor (ls_Actor rq))) (\<lambda>actor.
        bind_svc (lift_svc (normalizeAgentPublicHost (ls_PublicHost rq))) (\<lambda>publicHost p.
          if ls_Action rq \<noteq> ''del'' \<and> publicHost = [] then
            (NewError ''managed server public host is required before saving an inbound'', p)
          else
            let users = Join (map (\<lambda>k. Itoa (int k)) (filter (\<lambda>k. k > 0) (ls_InitUsers rq))) '',''
            in case SaveWithRevision env (ls_ExpectedRevision rq) ''inbounds'' (ls_Action rq) (ls_Data rq) users (''agent:'' @ actor) publicHost p of
                 ((Inl e, _), p') \<Rightarrow> (Inl e, p')
               | ((Inr _, revision), p') \<Rightarrow> (Inr revision, p'))))"

section \<open>Relay pools\<close>

definition CreateRemoteRelay ::
  "relay_env \<Rightarrow> (relay_request \<Rightarrow> raw) \<Rightarrow> relay_request \<Rightarrow> string \<Rightarrow> string \<Rightarrow> relay_state \<Rightarrow> (relay_pool result \<times> relay_state) option" where
  "CreateRemoteRelay env req_json req actor0 host0 s =
     (case bindr (normalizeRemoteActor actor0) (\<lambda>actor. bindr (normalizeAgentPublicHost host0) (\<lambda>host.
             if host = [] then NewError ''managed server public host is required before creating relay nodes'' else Inr (actor, host))) of
        Inl e \<Rightarrow> Some (Inl e, s)
      | Inr (actor, host) \<Rightarrow> CreateRelay env req_json (req\<lparr>rq_PublicHost := host\<rparr>) (''agent:'' @ actor) host s)"

definition invalid_pool :: "'a result" where
  "invalid_pool = NewError ''invalid relay pool id''"

definition as_actor :: "nat \<Rightarrow> string \<Rightarrow> (string \<Rightarrow> 's \<Rightarrow> 'a result \<times> 's) \<Rightarrow> 's \<Rightarrow> 'a result \<times> 's" where
  "as_actor k actor0 m =
     (if k = 0 then lift_svc invalid_pool
      else bind_svc (lift_svc (normalizeRemoteActor actor0)) (\<lambda>actor. m (''agent:'' @ actor)))"

definition DeleteRemoteRelay :: "relay_env \<Rightarrow> nat \<Rightarrow> string \<Rightarrow> unit relay_op" where
  "DeleteRemoteRelay env k actor0 = as_actor k actor0 (DeleteRelay env k)"

definition RotateRemoteRelay :: "relay_env \<Rightarrow> nat \<Rightarrow> string \<Rightarrow> rotation_result relay_op" where
  "RotateRemoteRelay env k actor0 = as_actor k actor0 (RotateRelay env k)"

definition SetRemoteRelayRotation :: "relay_env \<Rightarrow> nat \<Rightarrow> bool \<Rightarrow> int \<Rightarrow> string \<Rightarrow> relay_pool panel_op" where
  "SetRemoteRelayRotation env k enabled interval actor0 = as_actor k actor0 (SetRelayRotation env k enabled interval)"

text \<open>The workbook is answered in base64, which is left to the writer of the answer.\<close>

definition ExportRemoteRelay :: "relay_env \<Rightarrow> nat \<Rightarrow> string list list panel_op" where
  "ExportRemoteRelay env k = (if k = 0 then lift_svc invalid_pool else GetRelayBitBrowserExport env k [])"

section \<open>Facts\<close>

text \<open>A managed server that has no public host saves no inbound, whatever the request says.\<close>

lemma SaveInbound_needs_host:
  assumes "TrimSpace (ls_PublicHost rq) = []" "ls_Action rq \<noteq> ''del''" "SaveInbound env rq p = (r, p')"
  shows "isl r \<and> p' = p"
proof -
  have "normalizeAgentPublicHost (ls_PublicHost rq) = Inr []" using assms(1) by (simp add: normalizeAgentPublicHost_def)
  then show ?thesis
    using assms(2,3) by (cases "normalizeRemoteActor (ls_Actor rq)") (auto simp: SaveInbound_def bind_svc_def lift_svc_def NewError_def split: if_splits)
qed

end
