(* ===== verification/Relay_Fallback.thy ===== *)
theory Relay_Fallback
  imports Netip State_Result
begin

text \<open>
  The outbound that tries IPv6 first and falls back to IPv4 (\<^verbatim>\<open>core/relay_fallback_outbound.go\<close>). The two
  outbounds it is made of, the DNS router and the addresses of destinations belong to the sing
  libraries: they are the argument \<open>fb\<close>. The state is the list of the attempts that were made,
  latest last, which is what the properties are about; the results of the attempts are
  given by the environment.
\<close>

section \<open>Durations\<close>

text \<open>\<open>time.ParseDuration\<close>, in nanoseconds, for fractions of at most 18 digits.\<close>

definition duration_units :: "(string \<times> int) list" where
  "duration_units = [(''ns'', 1), (''us'', 1000), ([CHR 0xC2, CHR 0xB5, CHR ''s''], 1000), ([CHR 0xCE, CHR 0xBC, CHR ''s''], 1000),
     (''ms'', 1000000), (''s'', 1000000000), (''m'', 60000000000), (''h'', 3600000000000)]"

definition unit_char :: "char \<Rightarrow> bool" where
  "unit_char c \<longleftrightarrow> \<not> is_digit c \<and> c \<noteq> CHR ''.''"

definition fraction :: "string \<Rightarrow> string \<times> string" where
  "fraction s =
     (if s \<noteq> [] \<and> hd s = CHR ''.'' then (takeWhile is_digit (tl s), dropWhile is_digit (tl s)) else ([], s))"

definition duration_part :: "string \<Rightarrow> (int \<times> string) option" where
  "duration_part s =
     (let whole = takeWhile is_digit s; (frac, s2) = fraction (dropWhile is_digit s); name = takeWhile unit_char s2
      in if whole = [] \<and> frac = [] \<or> name = [] \<or> digits_val whole > 2 ^ 63 then None
         else case map_of duration_units name of
           None \<Rightarrow> None
         | Some u \<Rightarrow>
             let v = digits_val whole * u + digits_val frac * u div 10 ^ length frac
             in if digits_val whole > 2 ^ 63 div u \<or> v > 2 ^ 63 then None else Some (v, dropWhile unit_char s2))"

lemma duration_part_shorter: "duration_part s = Some (v, rest) \<Longrightarrow> length rest < length s"
proof -
  assume p: "duration_part s = Some (v, rest)"
  obtain frac s2 where f: "fraction (dropWhile is_digit s) = (frac, s2)" by fastforce
  have r: "rest = dropWhile unit_char s2" and name: "takeWhile unit_char s2 \<noteq> []"
    using p by (auto simp: duration_part_def Let_def f split: if_splits option.splits)
  have "length s2 = length (takeWhile unit_char s2) + length rest" unfolding r by (metis length_append takeWhile_dropWhile_id)
  then have "length rest < length s2" using name by simp
  also have "length s2 \<le> length (dropWhile is_digit s)"
    using f length_dropWhile_le [of is_digit "tl (dropWhile is_digit s)"] by (auto simp: fraction_def split: if_splits)
  also have "\<dots> \<le> length s" by (rule length_dropWhile_le)
  finally show ?thesis .
qed

function duration_parts :: "string \<Rightarrow> int \<Rightarrow> int option" where
  "duration_parts s d =
     (if s = [] then Some d
      else case duration_part s of
        None \<Rightarrow> None
      | Some (v, rest) \<Rightarrow> if d + v > 2 ^ 63 then None else duration_parts rest (d + v))"
  by pat_completeness auto

termination duration_parts
  by (relation "measure (\<lambda>(s, d). length s)") (auto dest: duration_part_shorter)

definition ParseDuration :: "string \<Rightarrow> int option" where
  "ParseDuration s =
     (let neg = HasPrefix s ''-''; t = (if neg \<or> HasPrefix s ''+'' then drop 1 s else s)
      in if t = ''0'' then Some 0 else if t = [] then None
         else case duration_parts t 0 of
           None \<Rightarrow> None
         | Some d \<Rightarrow> if neg then Some (- d) else if d > 2 ^ 63 - 1 then None else Some d)"

section \<open>The outbound\<close>

record fallback_options =
  fo_IPv6Outbound :: string
  fo_IPv4Outbound :: string
  fo_IPv6Timeout :: string

record fallback_outbound =
  fw_IPv6Tag :: string
  fw_IPv4Tag :: string
  fw_Timeout :: int

definition defaultRelayIPv6Timeout :: int where
  "defaultRelayIPv6Timeout = 3000000000"

definition newRelayFallbackOutbound :: "bool \<Rightarrow> fallback_options \<Rightarrow> fallback_outbound result" where
  "newRelayFallbackOutbound hasManager w =
     (let bad = ''relay fallback IPv6 timeout must be between 1ns and 30s'';
          timeout = (if fo_IPv6Timeout w = [] then Some defaultRelayIPv6Timeout
                     else case ParseDuration (fo_IPv6Timeout w) of
                       Some d \<Rightarrow> if d \<le> 0 \<or> d > 30000000000 then None else Some d
                     | None \<Rightarrow> None)
      in if fo_IPv6Outbound w = [] \<or> fo_IPv4Outbound w = [] then Inl ''relay fallback requires IPv6 and IPv4 outbound tags''
         else if fo_IPv6Outbound w = fo_IPv4Outbound w then Inl ''relay fallback outbound tags must be different''
         else case timeout of
           None \<Rightarrow> Inl bad
         | Some t \<Rightarrow>
             if \<not> hasManager then Inl ''missing outbound manager''
             else Inr \<lparr>fw_IPv6Tag = fo_IPv6Outbound w, fw_IPv4Tag = fo_IPv4Outbound w, fw_Timeout = t\<rparr>)"

definition fallback_Start :: "(string \<Rightarrow> bool) \<Rightarrow> fallback_outbound \<Rightarrow> unit result" where
  "fallback_Start loaded w =
     (if \<not> loaded (fw_IPv6Tag w) then Inl (''IPv6 outbound not found: '' @ fw_IPv6Tag w)
      else if \<not> loaded (fw_IPv4Tag w) then Inl (''IPv4 outbound not found: '' @ fw_IPv4Tag w)
      else Inr ())"

text \<open>Destinations, and the attempts: which outbound, with a time limit or not, and where to.\<close>

record sock_addr =
  sa_Addr :: addr
  sa_Fqdn :: string
  sa_Port :: nat

definition sa_IsIP :: "sock_addr \<Rightarrow> bool" where
  "sa_IsIP d \<longleftrightarrow> addr_IsValid (sa_Addr d)"

definition SocksaddrFrom :: "addr \<Rightarrow> nat \<Rightarrow> sock_addr" where
  "SocksaddrFrom a port = \<lparr>sa_Addr = a, sa_Fqdn = [], sa_Port = port\<rparr>"

datatype side = Side6 | Side4

datatype attempt =
    Dial side "int option" sock_addr
  | Dial_Parallel side "int option" sock_addr "addr list"
  | Listen side sock_addr
  | Lookup4 string

datatype dialer_kind = Network_Dialer | Parallel_Dialer | Plain_Dialer

record 'c fallback_env =
  fb_Result :: "attempt \<Rightarrow> 'c result"
  fb_Kind :: "side \<Rightarrow> dialer_kind"
  fb_IsDomain :: "sock_addr \<Rightarrow> bool"
  fb_Lookup :: "string \<Rightarrow> addr list result"
  fb_HasDNS :: bool

type_synonym 'a attempts = "attempt list \<Rightarrow> 'a result \<times> attempt list"

definition try_it :: "'c fallback_env \<Rightarrow> attempt \<Rightarrow> 'c attempts" where
  "try_it fb a tr = (fb_Result fb a, tr @ [a])"

text \<open>\<open>m\<close>, and when it fails \<open>f\<close> with the error.\<close>

definition or_else :: "'a attempts \<Rightarrow> (string \<Rightarrow> 'a attempts) \<Rightarrow> 'a attempts" where
  "or_else m f tr = (case m tr of (Inr x, tr') \<Rightarrow> (Inr x, tr') | (Inl e, tr') \<Rightarrow> f e tr')"

definition wrapped :: "string \<Rightarrow> 'a attempts \<Rightarrow> 'a attempts" where
  "wrapped what m = or_else m (\<lambda>e tr. (Inl (what @ '': '' @ e), tr))"

definition both_errors :: "string \<Rightarrow> string \<Rightarrow> 'a attempts \<Rightarrow> 'a attempts" where
  "both_errors first what m = or_else m (\<lambda>e tr. (Inl (first @ '' | '' @ what @ '': '' @ e), tr))"

definition real6 :: "addr \<Rightarrow> bool" where
  "real6 a \<longleftrightarrow> Is6 a \<and> \<not> Is4In6 a"

definition splitRelayDestinationAddresses :: "sock_addr \<Rightarrow> addr list \<Rightarrow> addr list \<times> addr list" where
  "splitRelayDestinationAddresses d addresses =
     (let as = (if addresses = [] \<and> sa_IsIP d then [sa_Addr d] else addresses)
      in (filter real6 as, filter (\<lambda>a. \<not> real6 a \<and> (Is4 a \<or> Is4In6 a)) as))"

fun dial_each :: "'c fallback_env \<Rightarrow> (addr \<Rightarrow> attempt) \<Rightarrow> string list \<Rightarrow> addr list \<Rightarrow> ('c \<times> addr) attempts" where
  "dial_each fb mk errs [] = (\<lambda>tr. (Inl (Join errs '' | ''), tr))"
| "dial_each fb mk errs (a # rest) =
     or_else (bind_svc (try_it fb (mk a)) (\<lambda>c. lift_svc (Inr (c, a)))) (\<lambda>e. dial_each fb mk (errs @ [e]) rest)"

definition first_of_pair :: "('c \<times> addr) attempts \<Rightarrow> 'c attempts" where
  "first_of_pair m = bind_svc m (\<lambda>(c, _). lift_svc (Inr c))"

definition dialRelayAddresses :: "'c fallback_env \<Rightarrow> side \<Rightarrow> int option \<Rightarrow> sock_addr \<Rightarrow> addr list \<Rightarrow> 'c attempts" where
  "dialRelayAddresses fb s limit d addresses =
     (if fb_Kind fb s = Plain_Dialer
      then first_of_pair (dial_each fb (\<lambda>a. Dial s limit (SocksaddrFrom a (sa_Port d))) [] addresses)
      else try_it fb (Dial_Parallel s limit d addresses))"

definition ipv4Addresses :: "'c fallback_env \<Rightarrow> sock_addr \<Rightarrow> addr list \<Rightarrow> addr list attempts" where
  "ipv4Addresses fb d addresses =
     (let addresses4 = snd (splitRelayDestinationAddresses d addresses) in
      if addresses4 \<noteq> [] \<or> \<not> fb_IsDomain fb d \<or> \<not> fb_HasDNS fb then lift_svc (Inr addresses4)
      else (\<lambda>tr. (case fb_Lookup fb (sa_Fqdn d) of
              Inl e \<Rightarrow> Inl (''IPv4 DNS lookup failed: '' @ e)
            | Inr resolved \<Rightarrow>
                let found4 = snd (splitRelayDestinationAddresses d resolved)
                in if found4 = [] then Inl ''destination has no IPv4 address'' else Inr found4, tr @ [Lookup4 (sa_Fqdn d)])))"

definition dialIPv4 :: "'c fallback_env \<Rightarrow> sock_addr \<Rightarrow> addr list \<Rightarrow> 'c attempts" where
  "dialIPv4 fb d addresses =
     bind_svc (ipv4Addresses fb d addresses) (\<lambda>addresses4.
       if addresses4 = [] then try_it fb (Dial Side4 None d) else dialRelayAddresses fb Side4 None d addresses4)"

definition listenIPv4Packet :: "'c fallback_env \<Rightarrow> sock_addr \<Rightarrow> addr list \<Rightarrow> ('c \<times> addr) attempts" where
  "listenIPv4Packet fb d addresses =
     bind_svc (ipv4Addresses fb d addresses) (\<lambda>addresses4.
       if addresses4 = [] then bind_svc (try_it fb (Listen Side4 d)) (\<lambda>c. lift_svc (Inr (c, sa_Addr d)))
       else dial_each fb (\<lambda>a. Listen Side4 (SocksaddrFrom a (sa_Port d))) [] addresses4)"

definition DialContext :: "'c fallback_env \<Rightarrow> fallback_outbound \<Rightarrow> sock_addr \<Rightarrow> 'c attempts" where
  "DialContext fb w d =
     (if sa_IsIP d then try_it fb (Dial (if real6 (sa_Addr d) then Side6 else Side4) None d)
      else or_else (try_it fb (Dial Side6 (Some (fw_Timeout w)) d)) (\<lambda>e6.
        both_errors (''IPv6 attempt failed: '' @ e6) ''IPv4 SOCKS5 fallback failed'' (dialIPv4 fb d [])))"

definition ListenPacket :: "'c fallback_env \<Rightarrow> sock_addr \<Rightarrow> 'c attempts" where
  "ListenPacket fb d =
     (if sa_IsIP d then try_it fb (Listen (if real6 (sa_Addr d) then Side6 else Side4) d)
      else or_else (try_it fb (Listen Side6 d)) (\<lambda>e6.
        both_errors (''IPv6 packet attempt failed: '' @ e6) ''IPv4 SOCKS5 packet fallback failed'' (first_of_pair (listenIPv4Packet fb d []))))"

text \<open>The IPv4 part of the parallel dial, after the error of the IPv6 part if there was one.\<close>

definition then_ipv4 :: "'c fallback_env \<Rightarrow> fallback_outbound \<Rightarrow> sock_addr \<Rightarrow> addr list \<Rightarrow> string option \<Rightarrow> 'c attempts" where
  "then_ipv4 fb w d addresses4 e6 =
     (if addresses4 \<noteq> [] then
        (case e6 of
           Some e \<Rightarrow> both_errors (''IPv6 attempt failed: '' @ e) ''IPv4 SOCKS5 fallback failed'' (dialIPv4 fb d addresses4)
         | None \<Rightarrow> wrapped ''IPv4 SOCKS5 connection failed'' (dialIPv4 fb d addresses4))
      else case e6 of
        Some e \<Rightarrow> lift_svc (Inl (''IPv6 connection failed and the destination has no IPv4 address: '' @ e))
      | None \<Rightarrow> DialContext fb w d)"

definition DialParallelNetwork :: "'c fallback_env \<Rightarrow> fallback_outbound \<Rightarrow> sock_addr \<Rightarrow> addr list \<Rightarrow> 'c attempts" where
  "DialParallelNetwork fb w d addresses =
     (let (addresses6, addresses4) = splitRelayDestinationAddresses d addresses in
      if addresses6 \<noteq> [] then
        or_else (dialRelayAddresses fb Side6 (Some (fw_Timeout w)) d addresses6) (\<lambda>e. then_ipv4 fb w d addresses4 (Some e))
      else then_ipv4 fb w d addresses4 None)"

text \<open>Only the last error of the IPv6 addresses is kept here.\<close>

fun listen_each :: "'c fallback_env \<Rightarrow> sock_addr \<Rightarrow> string option \<Rightarrow> addr list \<Rightarrow> (string option \<Rightarrow> ('c \<times> addr) attempts) \<Rightarrow> ('c \<times> addr) attempts" where
  "listen_each fb d e6 [] f = f e6"
| "listen_each fb d e6 (a # rest) f =
     or_else (bind_svc (try_it fb (Listen Side6 (SocksaddrFrom a (sa_Port d)))) (\<lambda>c. lift_svc (Inr (c, a)))) (\<lambda>e. listen_each fb d (Some e) rest f)"

definition ListenSerialNetworkPacket :: "'c fallback_env \<Rightarrow> sock_addr \<Rightarrow> addr list \<Rightarrow> ('c \<times> addr) attempts" where
  "ListenSerialNetworkPacket fb d addresses =
     (let (addresses6, addresses4) = splitRelayDestinationAddresses d addresses in
      listen_each fb d None addresses6 (\<lambda>e6.
        if addresses4 \<noteq> [] then
          (case e6 of
             Some e \<Rightarrow> both_errors (''IPv6 packet attempt failed: '' @ e) ''IPv4 SOCKS5 packet fallback failed'' (listenIPv4Packet fb d addresses4)
           | None \<Rightarrow> wrapped ''IPv4 SOCKS5 packet connection failed'' (listenIPv4Packet fb d addresses4))
        else case e6 of
          Some e \<Rightarrow> lift_svc (Inl e)
        | None \<Rightarrow> bind_svc (ListenPacket fb d) (\<lambda>c. lift_svc (Inr (c, sa_Addr d)))))"

section \<open>The families are kept apart\<close>

text \<open>
  A destination that is an IPv6 address goes through the IPv6 outbound, any other address through
  the IPv4 outbound. A name goes through the IPv6 outbound, and through the IPv4 outbound only when
  it cannot be looked up here.
\<close>

definition dest_ok :: "'c fallback_env \<Rightarrow> side \<Rightarrow> sock_addr \<Rightarrow> bool" where
  "dest_ok fb s d \<longleftrightarrow> (if sa_IsIP d then real6 (sa_Addr d) \<longleftrightarrow> s = Side6 else s = Side6 \<or> \<not> fb_IsDomain fb d \<or> \<not> fb_HasDNS fb)"

definition addr_ok :: "side \<Rightarrow> addr \<Rightarrow> bool" where
  "addr_ok s a \<longleftrightarrow> addr_IsValid a \<and> (real6 a \<longleftrightarrow> s = Side6)"

definition attempt_ok :: "'c fallback_env \<Rightarrow> attempt \<Rightarrow> bool" where
  "attempt_ok fb a \<longleftrightarrow> (case a of
     Dial s _ d \<Rightarrow> dest_ok fb s d
   | Dial_Parallel s _ _ as \<Rightarrow> list_all (addr_ok s) as
   | Listen s d \<Rightarrow> dest_ok fb s d
   | Lookup4 _ \<Rightarrow> True)"

text \<open>When addresses are given, nothing is looked up and every attempt goes to one of them on its side.\<close>

definition to_given :: "(side \<Rightarrow> addr list) \<Rightarrow> attempt \<Rightarrow> bool" where
  "to_given as a \<longleftrightarrow> (case a of
     Dial s _ d \<Rightarrow> sa_IsIP d \<and> sa_Addr d \<in> set (as s)
   | Dial_Parallel s _ _ bs \<Rightarrow> bs \<noteq> [] \<and> bs = as s
   | Listen s d \<Rightarrow> sa_IsIP d \<and> sa_Addr d \<in> set (as s)
   | Lookup4 _ \<Rightarrow> False)"

definition on_side :: "addr list \<times> addr list \<Rightarrow> side \<Rightarrow> addr list" where
  "on_side p s = (case s of Side6 \<Rightarrow> fst p | Side4 \<Rightarrow> snd p)"

text \<open>Both are kept through the rules for sequences of attempts.\<close>

definition all_attempts :: "(attempt \<Rightarrow> bool) \<Rightarrow> 'a attempts \<Rightarrow> bool" where
  "all_attempts P m \<longleftrightarrow> (\<forall>tr. list_all P tr \<longrightarrow> list_all P (snd (m tr)))"

named_theorems attempts \<open>rules for all_attempts\<close>

lemma attempts_try [attempts]: "P a \<Longrightarrow> all_attempts P (try_it fb a)"
  by (simp add: all_attempts_def try_it_def)

lemma attempts_lift [attempts]: "all_attempts P (lift_svc r)"
  by (simp add: all_attempts_def lift_svc_def)

lemma attempts_fail [attempts]: "all_attempts P (\<lambda>tr. (r, tr))"
  by (simp add: all_attempts_def)

lemma attempts_or_else [attempts]: "all_attempts P m \<Longrightarrow> (\<And>e. all_attempts P (f e)) \<Longrightarrow> all_attempts P (or_else m f)"
  unfolding all_attempts_def or_else_def by (auto split: prod.splits sum.splits)

lemma attempts_bind: "all_attempts P m \<Longrightarrow> (\<And>x tr tr'. m tr = (Inr x, tr') \<Longrightarrow> all_attempts P (f x)) \<Longrightarrow> all_attempts P (bind_svc m f)"
  unfolding all_attempts_def bind_svc_def by (auto split: prod.splits sum.splits)

lemma attempts_wrapped [attempts]:
  "all_attempts P m \<Longrightarrow> all_attempts P (wrapped what m)" "all_attempts P m \<Longrightarrow> all_attempts P (both_errors f what m)"
  by (simp_all add: wrapped_def both_errors_def attempts)

lemma attempts_first [attempts]: "all_attempts P m \<Longrightarrow> all_attempts P (first_of_pair m)"
  unfolding first_of_pair_def by (rule attempts_bind) (auto intro: attempts)

lemma attempts_each: "(\<And>a. a \<in> set as \<Longrightarrow> P (mk a)) \<Longrightarrow> all_attempts P (dial_each fb mk errs as)"
  by (induction fb mk errs as rule: dial_each.induct) (auto intro!: attempts attempts_bind)

lemma attempts_addresses:
  assumes "\<And>a. a \<in> set as \<Longrightarrow> P (Dial s l (SocksaddrFrom a (sa_Port d)))" "P (Dial_Parallel s l d as)"
  shows "all_attempts P (dialRelayAddresses fb s l d as)"
  unfolding dialRelayAddresses_def using assms by (auto intro!: attempts attempts_each)

lemma attempts_listen_each:
  "(\<And>a. a \<in> set as \<Longrightarrow> P (Listen Side6 (SocksaddrFrom a (sa_Port d)))) \<Longrightarrow> (\<And>e. (e = None \<longrightarrow> as = [] \<and> e6 = None) \<Longrightarrow> all_attempts P (f e))
    \<Longrightarrow> all_attempts P (listen_each fb d e6 as f)"
proof (induction fb d e6 as f rule: listen_each.induct)
  case (2 fb d e6 a rest f)
  show ?case unfolding listen_each.simps
    by (rule attempts_or_else, rule attempts_bind) (use 2 in \<open>auto intro!: attempts\<close>)
qed simp

section \<open>Addresses\<close>

lemma split_ok:
  "a \<in> set (fst (splitRelayDestinationAddresses d as)) \<Longrightarrow> addr_ok Side6 a" "a \<in> set (snd (splitRelayDestinationAddresses d as)) \<Longrightarrow> addr_ok Side4 a"
  by (cases a; auto simp: splitRelayDestinationAddresses_def addr_ok_def real6_def Is6_def Is4_def Is4In6_def addr_IsValid_def Let_def)+

lemma dest_from: "addr_ok s a \<Longrightarrow> dest_ok fb s (SocksaddrFrom a p)"
  by (simp add: dest_ok_def addr_ok_def SocksaddrFrom_def sa_IsIP_def)

lemma from_simps [simp]: "sa_Addr (SocksaddrFrom a p) = a" "sa_IsIP (SocksaddrFrom a p) \<longleftrightarrow> addr_IsValid a"
  by (simp_all add: SocksaddrFrom_def sa_IsIP_def)

lemma ipv4Addresses_ok: "ipv4Addresses fb d as tr = (Inr x, tr') \<Longrightarrow> a \<in> set x \<Longrightarrow> addr_ok Side4 a"
  by (auto simp: ipv4Addresses_def Let_def lift_svc_def dest: split_ok split: if_splits sum.splits)

lemma ipv4Addresses_none:
  "ipv4Addresses fb d as tr = (Inr [], tr') \<Longrightarrow> snd (splitRelayDestinationAddresses d as) = [] \<and> (\<not> fb_IsDomain fb d \<or> \<not> fb_HasDNS fb)"
  by (auto simp: ipv4Addresses_def Let_def lift_svc_def split: if_splits sum.splits)

lemma ok_ipv4Addresses: "all_attempts (attempt_ok fb) (ipv4Addresses fb d as)"
  by (auto simp: all_attempts_def ipv4Addresses_def Let_def lift_svc_def attempt_ok_def)

text \<open>The IPv4 part is entered with IPv4 addresses or with a name.\<close>

definition ipv4_case :: "sock_addr \<Rightarrow> addr list \<Rightarrow> bool" where
  "ipv4_case d as \<longleftrightarrow> snd (splitRelayDestinationAddresses d as) \<noteq> [] \<or> \<not> sa_IsIP d"

lemma ok_from: "addr_ok s a \<Longrightarrow> attempt_ok fb (Dial s l (SocksaddrFrom a p))" "addr_ok s a \<Longrightarrow> attempt_ok fb (Listen s (SocksaddrFrom a p))"
  by (simp_all add: attempt_ok_def dest_from)

lemma ok_name: "ipv4_case d as \<Longrightarrow> ipv4Addresses fb d as tr = (Inr [], tr') \<Longrightarrow> dest_ok fb Side4 d"
  by (auto simp: ipv4_case_def dest_ok_def dest: ipv4Addresses_none)

lemma ok_dialIPv4: "ipv4_case d as \<Longrightarrow> all_attempts (attempt_ok fb) (dialIPv4 fb d as)"
  unfolding dialIPv4_def
proof (rule attempts_bind [OF ok_ipv4Addresses])
  fix x tr tr'
  assume "ipv4_case d as" and x: "ipv4Addresses fb d as tr = (Inr x, tr')"
  then have "x = [] \<Longrightarrow> attempt_ok fb (Dial Side4 None d)" using ok_name by (simp add: attempt_ok_def)
  moreover have "all_attempts (attempt_ok fb) (dialRelayAddresses fb Side4 None d x)"
    by (rule attempts_addresses) (use ipv4Addresses_ok [OF x] in \<open>auto simp: ok_from attempt_ok_def list_all_iff dest_from\<close>)
  ultimately show "all_attempts (attempt_ok fb) (if x = [] then try_it fb (Dial Side4 None d) else dialRelayAddresses fb Side4 None d x)"
    by (simp add: attempts)
qed

lemma ok_listenIPv4: "ipv4_case d as \<Longrightarrow> all_attempts (attempt_ok fb) (listenIPv4Packet fb d as)"
  unfolding listenIPv4Packet_def
proof (rule attempts_bind [OF ok_ipv4Addresses])
  fix x tr tr'
  assume "ipv4_case d as" and x: "ipv4Addresses fb d as tr = (Inr x, tr')"
  then have "x = [] \<Longrightarrow> attempt_ok fb (Listen Side4 d)" using ok_name by (simp add: attempt_ok_def)
  moreover have "all_attempts (attempt_ok fb) (dial_each fb (\<lambda>a. Listen Side4 (SocksaddrFrom a (sa_Port d))) [] x)"
    by (rule attempts_each) (use ipv4Addresses_ok [OF x] ok_from in blast)
  ultimately show "all_attempts (attempt_ok fb) (if x = [] then bind_svc (try_it fb (Listen Side4 d)) (\<lambda>c. lift_svc (Inr (c, sa_Addr d)))
      else dial_each fb (\<lambda>a. Listen Side4 (SocksaddrFrom a (sa_Port d))) [] x)"
    by (auto intro!: attempts attempts_bind)
qed

lemma ok_DialContext: "all_attempts (attempt_ok fb) (DialContext fb w d)"
  unfolding DialContext_def by (auto simp: attempt_ok_def dest_ok_def ipv4_case_def intro!: attempts ok_dialIPv4)

lemma ok_ListenPacket: "all_attempts (attempt_ok fb) (ListenPacket fb d)"
  unfolding ListenPacket_def by (auto simp: attempt_ok_def dest_ok_def ipv4_case_def intro!: attempts ok_listenIPv4)

text \<open>The IPv4 addresses of a destination are split off again unchanged; with them nothing is looked up.\<close>

lemma split_again:
  assumes "splitRelayDestinationAddresses d as = (as6, as4)" "as4 \<noteq> []"
  shows "snd (splitRelayDestinationAddresses d as4) = as4"
proof -
  have "filter (\<lambda>a. \<not> real6 a \<and> (Is4 a \<or> Is4In6 a)) as4 = as4" using assms(1) by (auto simp: splitRelayDestinationAddresses_def Let_def)
  then show ?thesis using assms(2) by (simp add: splitRelayDestinationAddresses_def Let_def)
qed

lemma given_ipv4:
  assumes "snd (splitRelayDestinationAddresses d as4) = as4" "as4 \<noteq> []"
  shows "dialIPv4 fb d as4 = dialRelayAddresses fb Side4 None d as4"
    "listenIPv4Packet fb d as4 = dial_each fb (\<lambda>a. Listen Side4 (SocksaddrFrom a (sa_Port d))) [] as4"
  using assms by (auto simp: dialIPv4_def listenIPv4Packet_def ipv4Addresses_def bind_svc_def lift_svc_def fun_eq_iff)

lemma within_parallel:
  assumes s: "splitRelayDestinationAddresses d addresses = (as6, as4)" and some: "as6 \<noteq> [] \<or> as4 \<noteq> []"
  shows "all_attempts (to_given (on_side (as6, as4))) (DialParallelNetwork fb w d addresses)"
proof -
  have valid: "addr_IsValid a" if "a \<in> set as6 \<or> a \<in> set as4" for a
    using that split_ok [of a d addresses] by (auto simp: s addr_ok_def)
  have six: "as6 \<noteq> [] \<Longrightarrow> all_attempts (to_given (on_side (as6, as4))) (dialRelayAddresses fb Side6 l d as6)" for l
    by (rule attempts_addresses) (use valid in \<open>auto simp: to_given_def on_side_def\<close>)
  have four: "as4 \<noteq> [] \<Longrightarrow> all_attempts (to_given (on_side (as6, as4))) (dialIPv4 fb d as4)"
    unfolding given_ipv4(1) [OF split_again [OF s]] by (rule attempts_addresses) (use valid in \<open>auto simp: to_given_def on_side_def\<close>)
  show ?thesis
    using some six four by (auto simp: DialParallelNetwork_def s then_ipv4_def intro!: attempts split: option.split)
qed

lemma within_serial:
  assumes s: "splitRelayDestinationAddresses d addresses = (as6, as4)" and some: "as6 \<noteq> [] \<or> as4 \<noteq> []"
  shows "all_attempts (to_given (on_side (as6, as4))) (ListenSerialNetworkPacket fb d addresses)"
proof -
  have valid: "addr_IsValid a" if "a \<in> set as6 \<or> a \<in> set as4" for a
    using that split_ok [of a d addresses] by (auto simp: s addr_ok_def)
  have four: "as4 \<noteq> [] \<Longrightarrow> all_attempts (to_given (on_side (as6, as4))) (listenIPv4Packet fb d as4)"
    unfolding given_ipv4(2) [OF split_again [OF s]] by (rule attempts_each) (use valid in \<open>auto simp: to_given_def on_side_def\<close>)
  show ?thesis
    unfolding ListenSerialNetworkPacket_def s Let_def prod.case
    by (rule attempts_listen_each) (use some four valid in \<open>auto simp: to_given_def on_side_def intro!: attempts split: option.split\<close>)
qed

lemma ok_parallel: "all_attempts (attempt_ok fb) (DialParallelNetwork fb w d addresses)"
proof -
  obtain as6 as4 where s: "splitRelayDestinationAddresses d addresses = (as6, as4)" by fastforce
  have ok: "a \<in> set as6 \<Longrightarrow> addr_ok Side6 a" for a using split_ok(1) [of a d addresses] by (simp add: s)
  have four: "as4 \<noteq> [] \<Longrightarrow> all_attempts (attempt_ok fb) (dialIPv4 fb d as4)"
    by (rule ok_dialIPv4) (simp add: ipv4_case_def split_again [OF s])
  have six: "all_attempts (attempt_ok fb) (dialRelayAddresses fb Side6 l d as6)" for l
    by (rule attempts_addresses) (use ok in \<open>auto simp: attempt_ok_def list_all_iff dest_from\<close>)
  show ?thesis
    by (auto simp: DialParallelNetwork_def s then_ipv4_def intro!: attempts four six ok_DialContext split: option.split)
qed

lemma ok_serial: "all_attempts (attempt_ok fb) (ListenSerialNetworkPacket fb d addresses)"
proof -
  obtain as6 as4 where s: "splitRelayDestinationAddresses d addresses = (as6, as4)" by fastforce
  have ok: "a \<in> set as6 \<Longrightarrow> addr_ok Side6 a" for a using split_ok(1) [of a d addresses] by (simp add: s)
  have four: "as4 \<noteq> [] \<Longrightarrow> all_attempts (attempt_ok fb) (listenIPv4Packet fb d as4)"
    by (rule ok_listenIPv4) (simp add: ipv4_case_def split_again [OF s])
  show ?thesis
    unfolding ListenSerialNetworkPacket_def s Let_def prod.case
    by (rule attempts_listen_each)
      (use ok four in \<open>auto simp: attempt_ok_def dest_from intro!: attempts attempts_bind ok_ListenPacket split: option.split\<close>)
qed

text \<open>
  C38. Whatever the outbounds answer, a fallback outbound sends nothing to an IPv6 address through
  its IPv4 outbound and nothing to an IPv4 address through its IPv6 outbound, and a name goes
  through the IPv4 outbound only when it cannot be looked up, in all four ways it can be asked to
  connect. When the addresses of the destination are known, every attempt goes to one of them, on
  its own side, and never to the name: a destination with IPv6 addresses only is not sent to IPv4.
\<close>

theorem fallback_keeps_families_apart:
  "list_all (attempt_ok fb) (snd (DialContext fb w d [])) \<and> list_all (attempt_ok fb) (snd (ListenPacket fb d []))
   \<and> list_all (attempt_ok fb) (snd (DialParallelNetwork fb w d addresses []))
   \<and> list_all (attempt_ok fb) (snd (ListenSerialNetworkPacket fb d addresses []))
   \<and> (splitRelayDestinationAddresses d addresses \<noteq> ([], []) \<longrightarrow>
       list_all (to_given (on_side (splitRelayDestinationAddresses d addresses))) (snd (DialParallelNetwork fb w d addresses [])
         @ snd (ListenSerialNetworkPacket fb d addresses [])))"
proof -
  obtain as6 as4 where s: "splitRelayDestinationAddresses d addresses = (as6, as4)" by fastforce
  have run: "all_attempts P m \<Longrightarrow> list_all P (snd (m []))" for P and m :: "'z attempts" by (simp add: all_attempts_def)
  have "list_all (to_given (on_side (as6, as4))) (snd (DialParallelNetwork fb w d addresses []) @ snd (ListenSerialNetworkPacket fb d addresses []))"
    if "(as6, as4) \<noteq> ([], [])"
    using that run [OF within_parallel [OF s]] run [OF within_serial [OF s]] by auto
  then show ?thesis
    unfolding s using run [OF ok_DialContext] run [OF ok_ListenPacket] run [OF ok_parallel] run [OF ok_serial] by blast
qed

text \<open>A destination with one IPv6 address that cannot be reached: one attempt, and an error.\<close>

definition broken_ipv6 :: "string fallback_env" where
  "broken_ipv6 = \<lparr>fb_Result = (\<lambda>a. case a of Dial Side6 _ _ \<Rightarrow> Inl ''unreachable'' | Dial_Parallel Side6 _ _ _ \<Rightarrow> Inl ''unreachable''
       | Listen Side6 _ \<Rightarrow> Inl ''unreachable'' | _ \<Rightarrow> Inr ''conn''),
     fb_Kind = (\<lambda>_. Plain_Dialer), fb_IsDomain = (\<lambda>_. True), fb_Lookup = (\<lambda>_. Inr []), fb_HasDNS = True\<rparr>"

theorem fallback_keeps_families_apart_witness:
  "list_all (to_given (on_side ([V6 1 []], []))) (snd (DialParallelNetwork broken_ipv6 \<lparr>fw_IPv6Tag = ''a'', fw_IPv4Tag = ''b'', fw_Timeout = 1\<rparr>
      \<lparr>sa_Addr = AddrZero, sa_Fqdn = ''example.com'', sa_Port = 443\<rparr> [V6 1 []] []))
   \<and> isl (fst (DialParallelNetwork broken_ipv6 \<lparr>fw_IPv6Tag = ''a'', fw_IPv4Tag = ''b'', fw_Timeout = 1\<rparr>
      \<lparr>sa_Addr = AddrZero, sa_Fqdn = ''example.com'', sa_Port = 443\<rparr> [V6 1 []] []))"
proof -
  let ?d = "\<lparr>sa_Addr = AddrZero, sa_Fqdn = ''example.com'', sa_Port = 443\<rparr>"
  let ?w = "\<lparr>fw_IPv6Tag = ''a'', fw_IPv4Tag = ''b'', fw_Timeout = 1\<rparr>"
  have s: "splitRelayDestinationAddresses ?d [V6 1 []] = ([V6 1 []], [])"
    by (simp add: splitRelayDestinationAddresses_def real6_def Is6_def Is4_def Is4In6_def Let_def)
  have "isl (fst (DialParallelNetwork broken_ipv6 ?w ?d [V6 1 []] []))"
    by (simp add: DialParallelNetwork_def s dialRelayAddresses_def then_ipv4_def or_else_def bind_svc_def first_of_pair_def try_it_def lift_svc_def broken_ipv6_def)
  with fallback_keeps_families_apart [of broken_ipv6 ?w ?d "[V6 1 []]"] s show ?thesis by simp
qed

section \<open>The fallback is reached\<close>

definition side4_works :: "'c fallback_env \<Rightarrow> bool" where
  "side4_works fb \<longleftrightarrow> (\<forall>l d as. \<not> isl (fb_Result fb (Dial Side4 l d)) \<and> \<not> isl (fb_Result fb (Dial_Parallel Side4 l d as)))"

lemma or_else_succeeds: "(\<And>e tr. \<not> isl (fst (f e tr))) \<Longrightarrow> \<not> isl (fst (or_else m f tr))"
  by (auto simp: or_else_def split: prod.split sum.split)

lemma works_result: "side4_works fb \<Longrightarrow> \<exists>c. fb_Result fb (Dial Side4 l d) = Inr c" "side4_works fb \<Longrightarrow> \<exists>c. fb_Result fb (Dial_Parallel Side4 l d as) = Inr c"
  unfolding side4_works_def by (metis isl_def sum.exhaust_sel)+

lemma addresses_succeed:
  assumes "side4_works fb" "as \<noteq> []"
  shows "\<not> isl (fst (dialRelayAddresses fb Side4 l d as tr))"
proof -
  obtain a rest where as: "as = a # rest" using assms(2) by (cases as) auto
  show ?thesis
  proof (cases "fb_Kind fb Side4 = Plain_Dialer")
    case True
    obtain c where "fb_Result fb (Dial Side4 l (SocksaddrFrom a (sa_Port d))) = Inr c" using works_result(1) [OF assms(1)] by blast
    then show ?thesis using True by (simp add: dialRelayAddresses_def as first_of_pair_def or_else_def bind_svc_def try_it_def lift_svc_def)
  next
    case False
    obtain c where "fb_Result fb (Dial_Parallel Side4 l d as) = Inr c" using works_result(2) [OF assms(1)] by blast
    then show ?thesis using False by (simp add: dialRelayAddresses_def try_it_def)
  qed
qed

lemma dialIPv4_succeeds:
  assumes "side4_works fb" "snd (splitRelayDestinationAddresses d as) \<noteq> []"
  shows "\<not> isl (fst (dialIPv4 fb d as tr))"
  using addresses_succeed [OF assms] by (simp add: dialIPv4_def ipv4Addresses_def Let_def assms(2) bind_svc_def lift_svc_def)

text \<open>
  When the IPv4 outbound works and the destination has an IPv4 address, the connection is made, whatever
  happens to the attempts over IPv6 before.
\<close>

theorem fallback_connects:
  assumes "side4_works fb" "snd (splitRelayDestinationAddresses d addresses) \<noteq> []"
  shows "\<not> isl (fst (DialParallelNetwork fb w d addresses []))"
proof -
  obtain as6 as4 where s: "splitRelayDestinationAddresses d addresses = (as6, as4)" by fastforce
  have as4: "as4 \<noteq> []" and again: "snd (splitRelayDestinationAddresses d as4) \<noteq> []"
    using assms(2) split_again [OF s] by (simp_all add: s)
  have four: "\<not> isl (fst (then_ipv4 fb w d as4 e tr))" for e tr
  proof -
    have "\<not> isl (fst (or_else (dialIPv4 fb d as4) f tr))" for f
      using dialIPv4_succeeds [OF assms(1) again, of tr] by (auto simp: or_else_def isl_def split: prod.split sum.split)
    then show ?thesis by (simp add: then_ipv4_def as4 both_errors_def wrapped_def split: option.split)
  qed
  show ?thesis
    by (cases "as6 = []") (simp_all add: DialParallelNetwork_def s four or_else_succeeds)
qed

theorem fallback_connects_witness:
  "\<not> isl (fst (DialParallelNetwork broken_ipv6 \<lparr>fw_IPv6Tag = ''a'', fw_IPv4Tag = ''b'', fw_Timeout = 1\<rparr>
      \<lparr>sa_Addr = AddrZero, sa_Fqdn = ''example.com'', sa_Port = 443\<rparr> [V6 1 [], V4 7] []))
   \<and> snd (splitRelayDestinationAddresses \<lparr>sa_Addr = AddrZero, sa_Fqdn = ''example.com'', sa_Port = 443\<rparr> [V6 1 [], V4 7]) = [V4 7]"
proof -
  let ?d = "\<lparr>sa_Addr = AddrZero, sa_Fqdn = ''example.com'', sa_Port = 443\<rparr>"
  have s: "snd (splitRelayDestinationAddresses ?d [V6 1 [], V4 7]) = [V4 7]"
    by (simp add: splitRelayDestinationAddresses_def real6_def Is6_def Is4_def Is4In6_def Let_def)
  have "side4_works broken_ipv6" by (simp add: side4_works_def broken_ipv6_def)
  from fallback_connects [OF this, of ?d "[V6 1 [], V4 7]"] s show ?thesis by simp
qed

end
