(* ===== verification/Reverse_Proxy.thy ===== *)
theory Reverse_Proxy
  imports Settings_Service State_Result
begin

text \<open>
  The reverse proxy in front of the panel (\<^verbatim>\<open>service/reverse_proxy.go\<close>, \<^verbatim>\<open>service/reverse_proxy_linux.go\<close>): the
  configuration of Caddy or nginx is rendered, checked by the engine, activated with
  \<^verbatim>\<open>systemctl\<close>, and taken back when a step fails. The state has the two configuration files, the link
  that enables the nginx site, the services and the panel's settings. What the commands and
  the writes answer is given by the environment.
\<close>

section \<open>Names and texts\<close>

definition managed_begin :: string where
  "managed_begin = ''# BEGIN 1S-UI MANAGED REVERSE PROXY''"

definition managed_end :: string where
  "managed_end = ''# END 1S-UI MANAGED REVERSE PROXY''"

definition lower_alnum :: "char \<Rightarrow> bool" where
  "lower_alnum c \<longleftrightarrow> c \<in> set ''abcdefghijklmnopqrstuvwxyz0123456789''"

text \<open>\<^verbatim>\<open>^[a-z0-9](?:[a-z0-9-]{0,61}[a-z0-9])?$\<close>\<close>

definition reverseProxyDomainLabel :: "string \<Rightarrow> bool" where
  "reverseProxyDomainLabel s \<longleftrightarrow> s \<noteq> [] \<and> length s \<le> 63 \<and> lower_alnum (hd s) \<and> lower_alnum (last s)
     \<and> list_all (\<lambda>c. lower_alnum c \<or> c = CHR ''-'') s"

definition normalizeReverseProxyDomain :: "string \<Rightarrow> string result" where
  "normalizeReverseProxyDomain v =
     (let domain = TrimSuffix (ToLower (TrimSpace v)) ''.'' in
      if domain = [] then Inr []
      else if length domain > 253 \<or> ContainsAny domain (''/:@[] '' @ [CHR 0x09, CHR 0x0D, CHR 0x0A]) then
        NewError ''domain must be a hostname without scheme, port, or path''
      else if list_all reverseProxyDomainLabel (Split domain (CHR ''.'')) then Inr domain
      else NewError ''invalid reverse proxy domain'')"

definition normalizePanelPath :: "string \<Rightarrow> string" where
  "normalizePanelPath path =
     (let p = TrimSpace path in
      if p = [] then ''/app/''
      else let p1 = (if HasPrefix p ''/'' then p else ''/'' @ p) in if HasSuffix p1 ''/'' then p1 else p1 @ ''/'')"

definition reverseProxyPublicURL :: "string \<Rightarrow> string \<Rightarrow> string \<Rightarrow> string" where
  "reverseProxyPublicURL engine domain panelPath =
     (if domain = [] then []
      else (if engine = ''caddy'' then ''https'' else ''http'') @ ''://'' @ domain @ normalizePanelPath panelPath)"

definition text_lines :: "string list \<Rightarrow> string" where
  "text_lines ls = concat (map (\<lambda>l. l @ [CHR 0x0A]) ls)"

definition renderCaddyReverseProxy :: "string \<Rightarrow> int \<Rightarrow> string" where
  "renderCaddyReverseProxy domain panelPort =
     text_lines [managed_begin, (if domain = [] then '':80'' else domain) @ '' {'', CHR 0x09 # ''encode gzip'',
       CHR 0x09 # ''reverse_proxy 127.0.0.1:'' @ Itoa panelPort, ''}'', managed_end]"

definition renderNginxReverseProxy :: "string \<Rightarrow> int \<Rightarrow> string" where
  "renderNginxReverseProxy domain panelPort =
     text_lines [managed_begin, ''server {'', ''    listen 80;'', ''    listen [::]:80;'',
       ''    server_name '' @ (if domain = [] then ''_'' else domain) @ '';'', [], ''    client_max_body_size 32m;'', [], ''    location / {'',
       ''        proxy_http_version 1.1;'', ''        proxy_set_header Host $host;'', ''        proxy_set_header X-Real-IP $remote_addr;'',
       ''        proxy_set_header X-Forwarded-For $proxy_add_x_forwarded_for;'', ''        proxy_set_header X-Forwarded-Proto $scheme;'',
       ''        proxy_set_header Upgrade $http_upgrade;'', ''        proxy_set_header Connection '' @ quoted ''upgrade'' @ '';'',
       ''        proxy_pass http://127.0.0.1:'' @ Itoa panelPort @ '';'', ''    }'', ''}'', managed_end]"

section \<open>Which files may be replaced\<close>

text \<open>\<open>strings.Count\<close> of a text that is not empty\<close>

function count_text :: "string \<Rightarrow> string \<Rightarrow> nat" where
  "count_text s sub = (if sub = [] then 0 else case Cut s sub of None \<Rightarrow> 0 | Some (_, rest) \<Rightarrow> Suc (count_text rest sub))"
  by pat_completeness auto

lemma Cut_rest_shorter: "Cut s sep = Some (a, b) \<Longrightarrow> sep \<noteq> [] \<Longrightarrow> length b < length s"
proof (induction s sep arbitrary: a rule: Cut.induct)
  case (2 c s sep)
  show ?case
  proof (cases "HasPrefix (c # s) sep")
    case True
    then have "b = drop (length sep) (c # s)" using 2(2) by simp
    then show ?thesis using 2(3) by (cases sep) auto
  next
    case False
    then obtain a' where "Cut s sep = Some (a', b)" using 2(2) by auto
    from 2(1) [OF False this 2(3)] show ?thesis by simp
  qed
qed simp

termination count_text
  by (relation "measure (\<lambda>(s, sub). length s)") (auto dest: Cut_rest_shorter)

declare count_text.simps [simp del]

definition caddy_line_ok :: "string \<Rightarrow> bool" where
  "caddy_line_ok rawLine =
     (let line = TrimSpace rawLine; proxy = ''reverse_proxy 127.0.0.1:'' in
      if line \<in> {[], ''{'', ''}''} \<or> HasPrefix line ''email '' \<or> line = ''encode gzip'' then True
      else if HasPrefix line proxy then Atoi (TrimSuffix (TrimPrefix line proxy) '' {'') \<noteq> None
      else HasSuffix line '' {'' \<or> HasPrefix line ''header_up X-Real-IP '' \<or> HasPrefix line ''header_up X-Forwarded-For ''
        \<or> HasPrefix line ''header_up X-Forwarded-Proto '')"

definition isLegacyCaddyReverseProxy :: "string \<Rightarrow> bool" where
  "isLegacyCaddyReverseProxy content \<longleftrightarrow>
     count_text content ''reverse_proxy'' = 1
     \<and> list_all (Contains content) [''reverse_proxy 127.0.0.1:'', ''encode gzip'', ''header_up X-Real-IP {remote_host}'',
          ''header_up X-Forwarded-For {remote_host}'', ''header_up X-Forwarded-Proto {scheme}'']
     \<and> list_all caddy_line_ok (Split content (CHR 0x0A))"

definition isLegacyNginxReverseProxy :: "string \<Rightarrow> bool" where
  "isLegacyNginxReverseProxy content \<longleftrightarrow>
     count_text content ''server {'' = 1 \<and> count_text content ''proxy_pass '' = 1
     \<and> list_all (Contains content) [''proxy_pass http://127.0.0.1:'', ''client_max_body_size 32m;'',
          ''proxy_set_header X-Real-IP $remote_addr;'', ''proxy_set_header X-Forwarded-For $proxy_add_x_forwarded_for;'']
     \<and> \<not> Contains content ''include '' \<and> \<not> Contains content ''root ''"

definition canReplaceReverseProxyConfig :: "string \<Rightarrow> string \<Rightarrow> bool" where
  "canReplaceReverseProxyConfig engine content =
     (let trimmed = TrimSpace content in
      trimmed = [] \<or> HasPrefix trimmed managed_begin \<and> HasSuffix trimmed managed_end
      \<or> (if engine = ''caddy'' then isLegacyCaddyReverseProxy trimmed
         else if engine = ''nginx'' then isLegacyNginxReverseProxy trimmed else False))"

section \<open>The system\<close>

definition caddyConfigPath :: string where
  "caddyConfigPath = ''/etc/caddy/Caddyfile''"

definition nginxConfigPath :: string where
  "nginxConfigPath = ''/etc/nginx/sites-available/s-ui.conf''"

text \<open>\<open>px_Site\<close> is what \<^verbatim>\<open>/etc/nginx/sites-enabled/s-ui.conf\<close> is: a link to a file, or something else.\<close>

datatype site_entry = No_Entry | Link_To string | Other_Entry

record proxy_state =
  px_Files :: "string \<Rightarrow> string option"
  px_Site :: site_entry
  px_Active :: "string list"
  px_Enabled :: "string list"
  px_Db :: panel_db

record proxy_env =
  pe_Settings :: setting_env
  pe_Systemctl :: bool
  pe_Root :: bool
  pe_Caddy :: bool
  pe_Nginx :: bool
  pe_ReadErr :: "string \<Rightarrow> string option"
  pe_WriteErr :: "string \<Rightarrow> string \<Rightarrow> string option"
  pe_RemoveErr :: "string option"
  pe_SiteDirErr :: "string option"
  pe_SiteRemoveErr :: "string option"
  pe_SiteLinkErr :: "string option"
  pe_Validate :: "string \<Rightarrow> proxy_state \<Rightarrow> (string \<times> string) option"
  pe_Systemd :: "string \<Rightarrow> string \<Rightarrow> proxy_state \<Rightarrow> (string \<times> string) option"
  pe_SaveErr :: "string \<Rightarrow> string \<Rightarrow> string option"

type_synonym 'a proxy_op = "proxy_state \<Rightarrow> 'a result \<times> proxy_state"

definition serviceIsActive :: "proxy_env \<Rightarrow> string \<Rightarrow> proxy_state \<Rightarrow> bool" where
  "serviceIsActive env engine s \<longleftrightarrow> pe_Systemctl env \<and> engine \<in> set (px_Active s)"

definition proxyConfigIsManaged :: "proxy_env \<Rightarrow> string \<Rightarrow> string \<Rightarrow> proxy_state \<Rightarrow> bool" where
  "proxyConfigIsManaged env engine path s =
     (case px_Files s path of
        None \<Rightarrow> False
      | Some content \<Rightarrow> pe_ReadErr env path = None \<and> TrimSpace content \<noteq> [] \<and> canReplaceReverseProxyConfig engine content)"

definition readOptionalFile :: "proxy_env \<Rightarrow> string \<Rightarrow> proxy_state \<Rightarrow> (string \<times> bool) result" where
  "readOptionalFile env path s =
     (case px_Files s path of
        None \<Rightarrow> Inr ([], False)
      | Some content \<Rightarrow> (case pe_ReadErr env path of Some e \<Rightarrow> Inl e | None \<Rightarrow> Inr (content, True)))"

text \<open>The new content replaces the file in one rename, or nothing happens.\<close>

definition writeAtomicFile :: "proxy_env \<Rightarrow> string \<Rightarrow> string \<Rightarrow> unit proxy_op" where
  "writeAtomicFile env path content s =
     (case pe_WriteErr env path content of
        Some e \<Rightarrow> (Inl e, s)
      | None \<Rightarrow> (Inr (), s\<lparr>px_Files := (px_Files s)(path := Some content)\<rparr>))"

definition restoreProxyConfig :: "proxy_env \<Rightarrow> string \<Rightarrow> string \<Rightarrow> bool \<Rightarrow> proxy_state \<Rightarrow> proxy_state" where
  "restoreProxyConfig env path content existed s =
     (if existed then snd (writeAtomicFile env path content s)
      else if pe_RemoveErr env = None then s\<lparr>px_Files := (px_Files s)(path := None)\<rparr> else s)"

definition link_site :: "proxy_env \<Rightarrow> string \<Rightarrow> unit proxy_op" where
  "link_site env configPath s =
     (case pe_SiteLinkErr env of Some e \<Rightarrow> (Inl e, s) | None \<Rightarrow> (Inr (), s\<lparr>px_Site := Link_To configPath\<rparr>))"

definition enableNginxSite :: "proxy_env \<Rightarrow> string \<Rightarrow> unit proxy_op" where
  "enableNginxSite env configPath s =
     (case pe_SiteDirErr env of Some e \<Rightarrow> (Inl e, s) | None \<Rightarrow>
      if px_Site s = Link_To configPath then (Inr (), s)
      else if px_Site s = No_Entry then link_site env configPath s
      else case pe_SiteRemoveErr env of
        Some e \<Rightarrow> (Inl e, s)
      | None \<Rightarrow> link_site env configPath (s\<lparr>px_Site := No_Entry\<rparr>))"

definition commandOutput :: "string \<times> string \<Rightarrow> string" where
  "commandOutput oe = (let message = TrimSpace (fst oe) in if message \<noteq> [] then message else snd oe)"

text \<open>A command of \<^verbatim>\<open>systemctl\<close>: the output and the error, or its effect.\<close>

definition systemctl :: "proxy_env \<Rightarrow> string \<Rightarrow> string \<Rightarrow> proxy_state \<Rightarrow> (string \<times> string) option \<times> proxy_state" where
  "systemctl env act engine s =
     (case pe_Systemd env act engine s of
        Some oe \<Rightarrow> (Some oe, s)
      | None \<Rightarrow> (None,
          if act = ''enable'' then s\<lparr>px_Enabled := List.insert engine (px_Enabled s)\<rparr>
          else if act = ''start'' then s\<lparr>px_Active := List.insert engine (px_Active s)\<rparr>
          else if act = ''stop'' then s\<lparr>px_Active := removeAll engine (px_Active s)\<rparr>
          else s))"

section \<open>Status\<close>

record proxy_status =
  pst_Supported :: bool
  pst_Privileged :: bool
  pst_Enabled :: bool
  pst_Installed :: bool
  pst_Running :: bool
  pst_Managed :: bool
  pst_Engine :: string
  pst_Domain :: string
  pst_PanelListen :: string
  pst_PanelPort :: int
  pst_PanelPath :: string
  pst_PublicURL :: string
  pst_CaddyInstalled :: bool
  pst_NginxInstalled :: bool
  pst_Message :: string

text \<open>The engine, whether it runs and whether its configuration is the panel's.\<close>

definition proxy_engine :: "proxy_env \<Rightarrow> proxy_state \<Rightarrow> string \<times> bool \<times> bool" where
  "proxy_engine env s =
     (let caddyManaged = proxyConfigIsManaged env ''caddy'' caddyConfigPath s; nginxManaged = proxyConfigIsManaged env ''nginx'' nginxConfigPath s in
      if serviceIsActive env ''caddy'' s then (''caddy'', True, caddyManaged)
      else if serviceIsActive env ''nginx'' s then (''nginx'', True, nginxManaged)
      else if caddyManaged then (''caddy'', False, True)
      else if nginxManaged then (''nginx'', False, True)
      else (if pe_Caddy env then ''caddy'' else if pe_Nginx env then ''nginx'' else ''caddy'', False, False))"

definition reverseProxyStatusPlatform :: "proxy_env \<Rightarrow> proxy_state \<Rightarrow> proxy_status result" where
  "reverseProxyStatusPlatform env s =
     bindr (getString (pe_Settings env) (px_Db s) ''webListen'') (\<lambda>listen.
     bindr (getInt (pe_Settings env) (px_Db s) ''webPort'') (\<lambda>port.
     bindr (GetWebPath (pe_Settings env) (px_Db s)) (\<lambda>path.
     bindr (getString (pe_Settings env) (px_Db s) ''webDomain'') (\<lambda>domain.
       let (engine, isRunning, managed) = proxy_engine env s
       in Inr \<lparr>pst_Supported = (pe_Root env \<and> pe_Systemctl env), pst_Privileged = pe_Root env, pst_Enabled = (isRunning \<and> managed),
         pst_Installed = (engine = ''caddy'' \<and> pe_Caddy env \<or> engine = ''nginx'' \<and> pe_Nginx env),
         pst_Running = isRunning, pst_Managed = managed, pst_Engine = engine, pst_Domain = TrimSpace domain,
         pst_PanelListen = TrimSpace listen, pst_PanelPort = port, pst_PanelPath = path,
         pst_PublicURL = reverseProxyPublicURL engine (TrimSpace domain) path,
         pst_CaddyInstalled = pe_Caddy env, pst_NginxInstalled = pe_Nginx env,
         pst_Message = (if \<not> pe_Root env then ''s-ui must run as root to manage the system reverse proxy''
           else if \<not> pe_Systemctl env then ''systemd is unavailable; reverse proxy management is read-only''
           else if isRunning \<and> \<not> managed then ''the active reverse proxy has custom configuration and will not be overwritten''
           else if \<not> pe_Caddy env \<and> \<not> pe_Nginx env then ''Caddy or Nginx is not installed''
           else [])\<rparr>))))"

section \<open>Applying a configuration\<close>

record proxy_plan =
  pp_Engine :: string
  pp_Domain :: string
  pp_Path :: string
  pp_Rendered :: string
  pp_Old :: string
  pp_Existed :: bool
  pp_PublicURL :: string
  pp_Listen :: string
  pp_OldDomain :: string
  pp_URI :: string

definition proxy_checks :: "proxy_env \<Rightarrow> string \<Rightarrow> proxy_state \<Rightarrow> unit result" where
  "proxy_checks env engine s =
     bindr (reverseProxyStatusPlatform env s) (\<lambda>st.
       let other = (if engine = ''nginx'' then ''caddy'' else ''nginx'') in
       if \<not> pst_Supported st then NewError (pst_Message st)
       else if engine = ''caddy'' \<and> \<not> pe_Caddy env then NewError ''Caddy is not installed; install it first or rerun the full installer''
       else if engine = ''nginx'' \<and> \<not> pe_Nginx env then NewError ''Nginx is not installed; install it first or rerun the full installer''
       else if serviceIsActive env other s then NewErrorf (other @ '' is already active; stop it before switching reverse proxy engines'')
       else Inr ())"

definition make_plan :: "proxy_env \<Rightarrow> string \<Rightarrow> string \<Rightarrow> proxy_state \<Rightarrow> proxy_plan result" where
  "make_plan env engine domain s =
     (let get = getString (pe_Settings env) (px_Db s) in
      bindr (getInt (pe_Settings env) (px_Db s) ''webPort'') (\<lambda>panelPort.
      bindr (GetWebPath (pe_Settings env) (px_Db s)) (\<lambda>panelPath.
      bindr (get ''webListen'') (\<lambda>oldListen.
      bindr (get ''webDomain'') (\<lambda>oldDomain.
      bindr (get ''webURI'') (\<lambda>oldURI.
        let path = (if engine = ''nginx'' then nginxConfigPath else caddyConfigPath);
            rendered = (if engine = ''nginx'' then renderNginxReverseProxy domain panelPort else renderCaddyReverseProxy domain panelPort)
        in bindr (readOptionalFile env path s) (\<lambda>(old, existed).
             if \<not> canReplaceReverseProxyConfig engine old then
               NewErrorf (path @ '' contains custom configuration; the panel will not overwrite it'')
             else Inr \<lparr>pp_Engine = engine, pp_Domain = domain, pp_Path = path, pp_Rendered = rendered, pp_Old = old, pp_Existed = existed,
               pp_PublicURL = reverseProxyPublicURL engine domain panelPath, pp_Listen = oldListen, pp_OldDomain = oldDomain, pp_URI = oldURI\<rparr>)))))))"

definition take_back :: "proxy_env \<Rightarrow> proxy_plan \<Rightarrow> proxy_state \<Rightarrow> proxy_state" where
  "take_back env pp = restoreProxyConfig env (pp_Path pp) (pp_Old pp) (pp_Existed pp)"

definition enable_site :: "proxy_env \<Rightarrow> proxy_plan \<Rightarrow> unit proxy_op" where
  "enable_site env pp s =
     (if pp_Engine pp \<noteq> ''nginx'' then (Inr (), s)
      else case enableNginxSite env (pp_Path pp) s of
        (Inl e, s1) \<Rightarrow> (Inl e, take_back env pp s1)
      | (Inr _, s1) \<Rightarrow> (Inr (), s1))"

definition check_proxy :: "proxy_env \<Rightarrow> proxy_plan \<Rightarrow> unit proxy_op" where
  "check_proxy env pp s =
     (case pe_Validate env (pp_Engine pp) s of
        Some oe \<Rightarrow> (NewErrorf (pp_Engine pp @ '' configuration is invalid: '' @ commandOutput oe), take_back env pp s)
      | None \<Rightarrow> (Inr (), s))"

definition enable_service :: "proxy_env \<Rightarrow> proxy_plan \<Rightarrow> unit proxy_op" where
  "enable_service env pp s =
     (case systemctl env ''enable'' (pp_Engine pp) s of
        (Some oe, s1) \<Rightarrow> (NewErrorf (''failed to enable '' @ pp_Engine pp @ '': '' @ commandOutput oe), take_back env pp s1)
      | (None, s1) \<Rightarrow> (Inr (), s1))"

text \<open>The answer of a reload or a stop on the way back is not looked at.\<close>

definition run_service :: "proxy_env \<Rightarrow> proxy_plan \<Rightarrow> bool \<Rightarrow> unit proxy_op" where
  "run_service env pp wasRunning s =
     (let act = (if wasRunning then ''reload'' else ''start'') in
      case systemctl env act (pp_Engine pp) s of
        (Some oe, s1) \<Rightarrow>
          (NewErrorf (''failed to '' @ act @ '' '' @ pp_Engine pp @ '': '' @ commandOutput oe),
           let s2 = take_back env pp s1 in if wasRunning then snd (systemctl env ''reload'' (pp_Engine pp) s2) else s2)
      | (None, s1) \<Rightarrow> (Inr (), s1))"

definition store_setting :: "proxy_env \<Rightarrow> string \<Rightarrow> (string \<Rightarrow> panel_db \<Rightarrow> panel_db) \<Rightarrow> string \<Rightarrow> unit proxy_op" where
  "store_setting env k set_it v s =
     (case pe_SaveErr env k v of Some e \<Rightarrow> (Inl e, s) | None \<Rightarrow> (Inr (), s\<lparr>px_Db := set_it v (px_Db s)\<rparr>))"

definition saveReverseProxyPanelSettings :: "proxy_env \<Rightarrow> string \<Rightarrow> string \<Rightarrow> unit proxy_op" where
  "saveReverseProxyPanelSettings env domain publicURL =
     bind_svc (store_setting env ''webListen'' SetWebListen ''127.0.0.1'') (\<lambda>_.
     bind_svc (store_setting env ''webDomain'' SetWebDomain domain) (\<lambda>_.
       store_setting env ''webURI'' SetWebURI publicURL))"

definition old_settings :: "proxy_env \<Rightarrow> proxy_plan \<Rightarrow> proxy_state \<Rightarrow> proxy_state" where
  "old_settings env pp s =
     snd (store_setting env ''webURI'' SetWebURI (pp_URI pp)
       (snd (store_setting env ''webDomain'' SetWebDomain (pp_OldDomain pp)
         (snd (store_setting env ''webListen'' SetWebListen (pp_Listen pp) s)))))"

definition store_panel :: "proxy_env \<Rightarrow> proxy_plan \<Rightarrow> bool \<Rightarrow> unit proxy_op" where
  "store_panel env pp wasRunning s =
     (case saveReverseProxyPanelSettings env (pp_Domain pp) (pp_PublicURL pp) s of
        (Inl e, s1) \<Rightarrow>
          (Inl e, snd (systemctl env (if wasRunning then ''reload'' else ''stop'') (pp_Engine pp) (take_back env pp (old_settings env pp s1))))
      | (Inr _, s1) \<Rightarrow> (Inr (), s1))"

definition activate :: "proxy_env \<Rightarrow> proxy_plan \<Rightarrow> unit proxy_op" where
  "activate env pp =
     bind_svc (writeAtomicFile env (pp_Path pp) (pp_Rendered pp)) (\<lambda>_.
     bind_svc (enable_site env pp) (\<lambda>_.
     bind_svc (check_proxy env pp) (\<lambda>_ s.
       let wasRunning = serviceIsActive env (pp_Engine pp) s in
       bind_svc (enable_service env pp) (\<lambda>_.
       bind_svc (run_service env pp wasRunning) (\<lambda>_.
         store_panel env pp wasRunning)) s)))"

definition applyReverseProxyPlatform :: "proxy_env \<Rightarrow> string \<Rightarrow> string \<Rightarrow> proxy_status proxy_op" where
  "applyReverseProxyPlatform env engine domain s =
     (case bindr (proxy_checks env engine s) (\<lambda>_. make_plan env engine domain s) of
        Inl e \<Rightarrow> (Inl e, s)
      | Inr pp \<Rightarrow> bind_svc (activate env pp) (\<lambda>_ s1. (reverseProxyStatusPlatform env s1, s1)) s)"

definition ReverseProxy_Apply :: "proxy_env \<Rightarrow> string \<Rightarrow> string \<Rightarrow> proxy_status proxy_op" where
  "ReverseProxy_Apply env engine0 domain0 s =
     (let engine = ToLower (TrimSpace engine0) in
      if engine \<noteq> ''caddy'' \<and> engine \<noteq> ''nginx'' then (NewError ''reverse proxy engine must be caddy or nginx'', s)
      else case normalizeReverseProxyDomain domain0 of
        Inl e \<Rightarrow> (Inl e, s)
      | Inr domain \<Rightarrow> applyReverseProxyPlatform env engine domain s)"

end
