(* ===== verification/Proxy_Safety.thy ===== *)
theory Proxy_Safety
  imports Reverse_Proxy
begin

text \<open>
  What applying a reverse proxy may change: never a configuration somebody else wrote, nothing
  but the site link when it fails, and on success the file, the service and the settings
  together.
\<close>

section \<open>The rendered files are recognised\<close>

lemma trim_ends:
  assumes "s \<noteq> []" "\<not> is_space (hd s)" "\<not> is_space (last s)"
  shows "TrimSpace (s @ [CHR 0x0A]) = s"
proof -
  have sp: "is_space (CHR 0x0A)" by code_simp
  have "dropWhile is_space (s @ [CHR 0x0A]) = s @ [CHR 0x0A]" using assms(1,2) by (cases s) auto
  moreover have "dropWhile is_space (rev (s @ [CHR 0x0A])) = rev s"
    using sp assms(1,3) by (cases s rule: rev_cases) auto
  ultimately show ?thesis by (simp add: TrimSpace_def trim_by_def)
qed

lemma managed_recognised: "canReplaceReverseProxyConfig engine (text_lines (managed_begin # ls @ [managed_end]))"
proof -
  let ?s = "managed_begin @ [CHR 0x0A] @ text_lines ls @ managed_end"
  have hd: "?s \<noteq> []" "hd ?s = CHR ''#''" "last ?s = CHR ''Y''" by (simp_all add: managed_begin_def managed_end_def)
  have "text_lines (managed_begin # ls @ [managed_end]) = ?s @ [CHR 0x0A]" by (simp add: text_lines_def)
  moreover have "\<not> is_space (CHR ''#'')" "\<not> is_space (CHR ''Y'')" by code_simp+
  ultimately have "TrimSpace (text_lines (managed_begin # ls @ [managed_end])) = ?s" using trim_ends [of ?s] hd by simp
  moreover have "HasPrefix ?s managed_begin" by (simp add: HasPrefix_def)
  moreover have "HasSuffix ?s managed_end" by (simp add: HasSuffix_def HasPrefix_def)
  ultimately show ?thesis by (simp add: canReplaceReverseProxyConfig_def Let_def)
qed

lemma recognised_ends: "ls \<noteq> [] \<Longrightarrow> last ls = managed_end \<Longrightarrow> canReplaceReverseProxyConfig engine (text_lines (managed_begin # ls))"
  using managed_recognised [of engine "butlast ls"] by (metis append_butlast_last_id)

lemma rendered_recognised:
  "canReplaceReverseProxyConfig engine (renderCaddyReverseProxy domain port)" "canReplaceReverseProxyConfig engine (renderNginxReverseProxy domain port)"
  unfolding renderCaddyReverseProxy_def renderNginxReverseProxy_def by (rule recognised_ends; simp)+

section \<open>Plans\<close>

lemma make_plan_Inr:
  assumes "make_plan env engine domain s = Inr pp"
  shows "pp_Engine pp = engine" "pp_Domain pp = domain" "pp_Path pp = (if engine = ''nginx'' then nginxConfigPath else caddyConfigPath)"
    "px_Files s (pp_Path pp) = (if pp_Existed pp then Some (pp_Old pp) else None)" "canReplaceReverseProxyConfig engine (pp_Old pp)"
    "getString (pe_Settings env) (px_Db s) ''webListen'' = Inr (pp_Listen pp)" "getString (pe_Settings env) (px_Db s) ''webDomain'' = Inr (pp_OldDomain pp)"
    "getString (pe_Settings env) (px_Db s) ''webURI'' = Inr (pp_URI pp)" "canReplaceReverseProxyConfig engine (pp_Rendered pp)"
  using assms rendered_recognised
  by (auto simp: make_plan_def Let_def bindr_Inr_iff readOptionalFile_def split: if_splits option.splits)

lemma Apply_cases:
  assumes "ReverseProxy_Apply env engine0 domain0 s = (r, s')"
  obtains (refused) e where "r = Inl e" "s' = s"
    | (run) domain pp where "normalizeReverseProxyDomain domain0 = Inr domain" "make_plan env (ToLower (TrimSpace engine0)) domain s = Inr pp"
        "bind_svc (activate env pp) (\<lambda>_ s1. (reverseProxyStatusPlatform env s1, s1)) s = (r, s')" "\<not> isl (reverseProxyStatusPlatform env s)"
        "ToLower (TrimSpace engine0) \<in> {''caddy'', ''nginx''}"
proof -
  let ?engine = "ToLower (TrimSpace engine0)"
  show ?thesis
  proof (cases "?engine \<noteq> ''caddy'' \<and> ?engine \<noteq> ''nginx''")
    case True
    then show ?thesis using assms refused by (auto simp: ReverseProxy_Apply_def Let_def NewError_def)
  next
    case engine: False
    show ?thesis
    proof (cases "normalizeReverseProxyDomain domain0")
      case (Inl e)
      then show ?thesis using assms refused engine by (auto simp: ReverseProxy_Apply_def Let_def)
    next
      case (Inr domain)
      then have a: "applyReverseProxyPlatform env ?engine domain s = (r, s')" using assms engine by (auto simp: ReverseProxy_Apply_def Let_def)
      show ?thesis
      proof (cases "bindr (proxy_checks env ?engine s) (\<lambda>_. make_plan env ?engine domain s)")
        case (Inl e)
        then show ?thesis using a refused by (auto simp: applyReverseProxyPlatform_def)
      next
        case (Inr pp)
        then have "make_plan env ?engine domain s = Inr pp" "\<not> isl (reverseProxyStatusPlatform env s)"
          by (auto simp: bindr_Inr_iff proxy_checks_def isl_def)
        moreover have "bind_svc (activate env pp) (\<lambda>_ s1. (reverseProxyStatusPlatform env s1, s1)) s = (r, s')"
          using a Inr by (simp add: applyReverseProxyPlatform_def)
        ultimately show ?thesis using run \<open>normalizeReverseProxyDomain domain0 = Inr domain\<close> engine by auto
      qed
    qed
  qed
qed

text \<open>
  C39. A configuration file that the panel did not write, and that is not one of the forms older
  installers wrote, is never changed: the request fails and nothing at all has happened. The file is the one the engine is
  configured with; an entry of \<^verbatim>\<open>sites-enabled\<close> is not looked at.
\<close>

theorem custom_configuration_untouched:
  assumes "px_Files s (if ToLower (TrimSpace engine0) = ''nginx'' then nginxConfigPath else caddyConfigPath) = Some content"
    and "\<not> canReplaceReverseProxyConfig (ToLower (TrimSpace engine0)) content"
    and "ReverseProxy_Apply env engine0 domain0 s = (r, s')"
  shows "isl r \<and> s' = s"
  using assms(3)
proof (cases rule: Apply_cases)
  case (run domain pp)
  note p = make_plan_Inr [OF run(2)]
  have "pp_Old pp = content" using p(3,4) assms(1) by (auto split: if_splits)
  then show ?thesis using p(5) assms(2) by simp
qed simp

section \<open>Failures\<close>

text \<open>Nothing but the service flags and the site link differs.\<close>

definition same_panel :: "proxy_env \<Rightarrow> proxy_state \<Rightarrow> proxy_state \<Rightarrow> bool" where
  "same_panel env s s' \<longleftrightarrow> px_Files s' = px_Files s
     \<and> (\<forall>k. getString (pe_Settings env) (px_Db s') k = getString (pe_Settings env) (px_Db s) k)"

text \<open>The way back works: the old file can be written or the new one removed, the old settings stored.\<close>

definition way_back :: "proxy_env \<Rightarrow> proxy_plan \<Rightarrow> bool" where
  "way_back env pp \<longleftrightarrow> pe_WriteErr env (pp_Path pp) (pp_Old pp) = None \<and> pe_RemoveErr env = None
     \<and> pe_SaveErr env ''webListen'' (pp_Listen pp) = None \<and> pe_SaveErr env ''webDomain'' (pp_OldDomain pp) = None
     \<and> pe_SaveErr env ''webURI'' (pp_URI pp) = None
     \<and> TrimSpace (pp_Listen pp) = pp_Listen pp \<and> TrimSpace (pp_OldDomain pp) = pp_OldDomain pp \<and> TrimSpace (pp_URI pp) = pp_URI pp"

text \<open>Between the write and the end the state differs from the first by the new file only.\<close>

definition written :: "proxy_plan \<Rightarrow> proxy_state \<Rightarrow> proxy_state \<Rightarrow> bool" where
  "written pp s s1 \<longleftrightarrow> px_Files s1 = (px_Files s)(pp_Path pp := Some (pp_Rendered pp)) \<and> px_Db s1 = px_Db s"

lemma taken_back:
  assumes "px_Files s1 = (px_Files s)(pp_Path pp := Some v)" "way_back env pp"
    and "px_Files s (pp_Path pp) = (if pp_Existed pp then Some (pp_Old pp) else None)"
  shows "px_Files (take_back env pp s1) = px_Files s" "px_Db (take_back env pp s1) = px_Db s1"
  using assms by (auto simp: take_back_def restoreProxyConfig_def writeAtomicFile_def way_back_def fun_eq_iff)

lemma systemctl_keeps [simp]:
  "px_Files (snd (systemctl env act engine s)) = px_Files s" "px_Db (snd (systemctl env act engine s)) = px_Db s"
  "px_Site (snd (systemctl env act engine s)) = px_Site s"
  by (simp_all add: systemctl_def split: option.split)

lemma systemctl_state: "systemctl env act engine s = (x, s1) \<Longrightarrow> px_Files s1 = px_Files s \<and> px_Db s1 = px_Db s \<and> px_Site s1 = px_Site s"
  by (metis systemctl_keeps snd_conv)

lemma site_keeps: "enableNginxSite env path s = (x, s1) \<Longrightarrow> px_Files s1 = px_Files s \<and> px_Db s1 = px_Db s"
  by (auto simp: enableNginxSite_def link_site_def split: option.splits if_splits)

lemma getString_saved: "getString env (saveSetting k v db) j = (if j = k then Inr v else getString env db j)"
  by (simp add: getString_def)

lemma old_settings_back:
  assumes "way_back env pp" "\<And>k. k \<notin> {''webListen'', ''webDomain'', ''webURI''} \<Longrightarrow> getString (pe_Settings env) (px_Db s1) k = getString (pe_Settings env) (px_Db s) k"
    and "getString (pe_Settings env) (px_Db s) ''webListen'' = Inr (pp_Listen pp)" "getString (pe_Settings env) (px_Db s) ''webDomain'' = Inr (pp_OldDomain pp)"
    "getString (pe_Settings env) (px_Db s) ''webURI'' = Inr (pp_URI pp)"
  shows "getString (pe_Settings env) (px_Db (old_settings env pp s1)) k = getString (pe_Settings env) (px_Db s) k"
    "px_Files (old_settings env pp s1) = px_Files s1"
proof -
  have o: "old_settings env pp s1 = s1\<lparr>px_Db := saveSetting ''webURI'' (pp_URI pp) (saveSetting ''webDomain'' (pp_OldDomain pp)
      (saveSetting ''webListen'' (pp_Listen pp) (px_Db s1)))\<rparr>"
    using assms(1) by (simp add: old_settings_def store_setting_def way_back_def SetWebListen_def SetWebDomain_def SetWebURI_def)
  show "getString (pe_Settings env) (px_Db (old_settings env pp s1)) k = getString (pe_Settings env) (px_Db s) k"
    using assms(2) [of k] assms(3-5) by (auto simp: o getString_saved)
  show "px_Files (old_settings env pp s1) = px_Files s1" by (simp add: o)
qed

lemma save_panel_state:
  assumes "saveReverseProxyPanelSettings env domain url s = (x, s1)"
  shows "px_Files s1 = px_Files s \<and> (\<forall>k. k \<notin> {''webListen'', ''webDomain'', ''webURI''} \<longrightarrow> getString e (px_Db s1) k = getString e (px_Db s) k)"
  using assms
  by (auto simp: saveReverseProxyPanelSettings_def store_setting_def bind_svc_def SetWebListen_def SetWebDomain_def SetWebURI_def getString_saved
      split: option.splits)

lemma save_panel_done:
  assumes "saveReverseProxyPanelSettings env domain url s = (Inr x, s1)"
  shows "getString e (px_Db s1) ''webListen'' = Inr ''127.0.0.1''" "getString e (px_Db s1) ''webDomain'' = Inr (TrimSpace domain)"
    "getString e (px_Db s1) ''webURI'' = Inr (TrimSpace url)"
proof -
  have "TrimSpace ''127.0.0.1'' = ''127.0.0.1''" by code_simp
  then show "getString e (px_Db s1) ''webListen'' = Inr ''127.0.0.1''" "getString e (px_Db s1) ''webDomain'' = Inr (TrimSpace domain)"
    "getString e (px_Db s1) ''webURI'' = Inr (TrimSpace url)"
    using assms
    by (auto simp: saveReverseProxyPanelSettings_def store_setting_def bind_svc_def SetWebListen_def SetWebDomain_def SetWebURI_def getString_saved
        split: option.splits)
qed

lemma back_to_start:
  assumes "way_back env pp" "make_plan env engine domain s = Inr pp" "written pp s s1"
  shows "same_panel env s (take_back env pp s1)"
  using assms taken_back [of s1 s pp _ env] make_plan_Inr(4) [OF assms(2)] by (simp add: same_panel_def written_def)

lemma written_systemctl: "written pp s s1 \<Longrightarrow> systemctl env act engine s1 = (x, s2) \<Longrightarrow> written pp s s2"
  using systemctl_state by (fastforce simp: written_def)

lemma same_systemctl: "same_panel env s s1 \<Longrightarrow> same_panel env s (snd (systemctl env act engine s1))"
  by (simp add: same_panel_def)

text \<open>From \<open>P\<close> a step ends in \<open>Q\<close> when it fails and in \<open>R\<close> when it succeeds.\<close>

definition ends :: "(proxy_state \<Rightarrow> bool) \<Rightarrow> (proxy_state \<Rightarrow> bool) \<Rightarrow> (proxy_state \<Rightarrow> bool) \<Rightarrow> 'a proxy_op \<Rightarrow> bool" where
  "ends P Q R m \<longleftrightarrow> (\<forall>s r s'. P s \<longrightarrow> m s = (r, s') \<longrightarrow> (case r of Inl _ \<Rightarrow> Q s' | Inr _ \<Rightarrow> R s'))"

lemma ends_bind: "ends P Q P' m \<Longrightarrow> (\<And>x. ends P' Q R (f x)) \<Longrightarrow> ends P Q R (bind_svc m f)"
  unfolding ends_def bind_svc_def by (fastforce split: prod.splits sum.splits)

lemma ends_state: "(\<And>b. ends P Q R (m b)) \<Longrightarrow> ends P Q R (\<lambda>s. m (h s) s)"
  by (simp add: ends_def)

text \<open>What a request that succeeds has stored.\<close>

definition stored :: "proxy_env \<Rightarrow> proxy_plan \<Rightarrow> proxy_state \<Rightarrow> proxy_state \<Rightarrow> bool" where
  "stored env pp s s1 \<longleftrightarrow> px_Files s1 = (px_Files s)(pp_Path pp := Some (pp_Rendered pp))
     \<and> getString (pe_Settings env) (px_Db s1) ''webListen'' = Inr ''127.0.0.1''
     \<and> getString (pe_Settings env) (px_Db s1) ''webDomain'' = Inr (TrimSpace (pp_Domain pp))
     \<and> getString (pe_Settings env) (px_Db s1) ''webURI'' = Inr (TrimSpace (pp_PublicURL pp))
     \<and> (\<forall>k. k \<notin> {''webListen'', ''webDomain'', ''webURI''} \<longrightarrow> getString (pe_Settings env) (px_Db s1) k = getString (pe_Settings env) (px_Db s) k)"

lemma steps_end:
  assumes w: "way_back env pp" "make_plan env engine domain s = Inr pp"
  shows "ends (\<lambda>x. x = s) (same_panel env s) (written pp s) (writeAtomicFile env (pp_Path pp) (pp_Rendered pp))"
    "ends (written pp s) (same_panel env s) (written pp s) (enable_site env pp)"
    "ends (written pp s) (same_panel env s) (written pp s) (check_proxy env pp)"
    "ends (written pp s) (same_panel env s) (written pp s) (enable_service env pp)"
    "ends (written pp s) (same_panel env s) (written pp s) (run_service env pp b)"
proof -
  note undo = back_to_start [OF w]
  show "ends (\<lambda>x. x = s) (same_panel env s) (written pp s) (writeAtomicFile env (pp_Path pp) (pp_Rendered pp))"
    by (auto simp: ends_def writeAtomicFile_def same_panel_def written_def split: option.splits)
  show "ends (written pp s) (same_panel env s) (written pp s) (enable_site env pp)"
    by (auto simp: ends_def enable_site_def written_def dest!: site_keeps intro!: undo split: if_splits prod.splits sum.splits)
  show "ends (written pp s) (same_panel env s) (written pp s) (check_proxy env pp)"
    using undo by (auto simp: ends_def check_proxy_def NewErrorf_def split: option.splits)
  show "ends (written pp s) (same_panel env s) (written pp s) (enable_service env pp)"
    using written_systemctl undo by (fastforce simp: ends_def enable_service_def NewErrorf_def split: prod.splits option.splits)
  show "ends (written pp s) (same_panel env s) (written pp s) (run_service env pp b)"
    using written_systemctl undo same_systemctl
    by (auto simp: ends_def run_service_def NewErrorf_def Let_def split: prod.splits option.splits if_splits)
qed

lemma store_ends:
  assumes w: "way_back env pp" "make_plan env engine domain s = Inr pp"
  shows "ends (written pp s) (same_panel env s) (stored env pp s) (store_panel env pp b)"
  unfolding ends_def
proof (intro allI impI)
  fix s1 r s2
  assume s1: "written pp s s1" and run: "store_panel env pp b s1 = (r, s2)"
  note p = make_plan_Inr [OF w(2)]
  obtain r3 s3 where sv: "saveReverseProxyPanelSettings env (pp_Domain pp) (pp_PublicURL pp) s1 = (r3, s3)" by fastforce
  note kept = save_panel_state [OF sv, of "pe_Settings env"]
  have g: "getString (pe_Settings env) (px_Db s3) k = getString (pe_Settings env) (px_Db s) k" if "k \<notin> {''webListen'', ''webDomain'', ''webURI''}" for k
    using kept that s1 by (simp add: written_def)
  show "case r of Inl _ \<Rightarrow> same_panel env s s2 | Inr _ \<Rightarrow> stored env pp s s2"
  proof (cases r3)
    case (Inr u)
    have "r = Inr ()" "s2 = s3" using run by (simp_all add: store_panel_def sv Inr)
    moreover have "px_Files s3 = (px_Files s)(pp_Path pp := Some (pp_Rendered pp))" using kept s1 by (simp add: written_def)
    ultimately show ?thesis
      using g save_panel_done [OF sv [unfolded Inr]] unfolding stored_def by (simp only: sum.case) blast
  next
    case (Inl e)
    note o = old_settings_back [OF w(1) g p(6,7,8)]
    have "px_Files (old_settings env pp s3) = (px_Files s)(pp_Path pp := Some (pp_Rendered pp))"
      using o(2) kept s1 by (simp add: written_def)
    from taken_back [OF this w(1) p(4)] o(1) show ?thesis using run by (auto simp: store_panel_def sv Inl same_panel_def)
  qed
qed

lemma activate_ends:
  assumes w: "way_back env pp" "make_plan env engine domain s = Inr pp"
  shows "ends (\<lambda>x. x = s) (same_panel env s) (stored env pp s) (activate env pp)"
  unfolding activate_def Let_def
  by (intro ends_bind [OF steps_end(1) [OF w]] ends_bind [OF steps_end(2) [OF w]] ends_bind [OF steps_end(3) [OF w]]
      ends_state [of _ _ _ "\<lambda>b. bind_svc (enable_service env pp) (\<lambda>_. bind_svc (run_service env pp b) (\<lambda>_. store_panel env pp b))"
        "serviceIsActive env (pp_Engine pp)"]
      ends_bind [OF steps_end(4) [OF w]] ends_bind [OF steps_end(5) [OF w]] store_ends [OF w])

lemma not_isl_Inr: "\<not> isl x \<longleftrightarrow> (\<exists>y. x = Inr y)"
  by (cases x) auto

lemma status_kept:
  assumes "\<not> isl (reverseProxyStatusPlatform env s)" "\<And>k. k \<in> {''webPort'', ''webPath''} \<Longrightarrow> getString (pe_Settings env) (px_Db s1) k = getString (pe_Settings env) (px_Db s) k"
    and "\<not> isl (getString (pe_Settings env) (px_Db s1) ''webListen'')" "\<not> isl (getString (pe_Settings env) (px_Db s1) ''webDomain'')"
  shows "\<not> isl (reverseProxyStatusPlatform env s1)"
proof -
  obtain n path where "getInt (pe_Settings env) (px_Db s) ''webPort'' = Inr n" "GetWebPath (pe_Settings env) (px_Db s) = Inr path"
    using assms(1) by (auto simp: reverseProxyStatusPlatform_def not_isl_Inr bindr_Inr_iff)
  then have "getInt (pe_Settings env) (px_Db s1) ''webPort'' = Inr n" "GetWebPath (pe_Settings env) (px_Db s1) = Inr path"
    using assms(2) by (simp_all add: getInt_def GetWebPath_def)
  moreover obtain l d where "getString (pe_Settings env) (px_Db s1) ''webListen'' = Inr l" "getString (pe_Settings env) (px_Db s1) ''webDomain'' = Inr d"
    using assms(3,4) by (auto simp: not_isl_Inr)
  ultimately show ?thesis by (simp add: reverseProxyStatusPlatform_def split: prod.split)
qed

text \<open>
  C40. When a request fails, the configuration file, its absence included, and every setting of the
  panel are what they were, provided the writes of the way back succeed and the old values of the settings are stored without spaces
  around them; when it succeeds, the
  panel listens on the loopback address behind the configuration that was written.
\<close>

theorem proxy_request_atomic:
  assumes run: "ReverseProxy_Apply env engine0 domain0 s = (r, s')"
    and plan: "\<And>domain pp. make_plan env (ToLower (TrimSpace engine0)) domain s = Inr pp \<Longrightarrow> way_back env pp"
  shows "case r of Inl _ \<Rightarrow> same_panel env s s'
    | Inr _ \<Rightarrow> \<exists>domain pp. normalizeReverseProxyDomain domain0 = Inr domain \<and> make_plan env (ToLower (TrimSpace engine0)) domain s = Inr pp \<and> stored env pp s s'"
  using run
proof (cases rule: Apply_cases)
  case (refused e)
  then show ?thesis by (simp add: same_panel_def)
next
  case (run domain pp)
  note w = plan [OF run(2)] run(2)
  obtain a s0 where act: "activate env pp s = (a, s0)" by fastforce
  then have ends: "case a of Inl _ \<Rightarrow> same_panel env s s0 | Inr _ \<Rightarrow> stored env pp s s0"
    using activate_ends [OF w] by (simp add: ends_def)
  show ?thesis
  proof (cases a)
    case (Inl e)
    then show ?thesis using run(3) act ends by (auto simp: bind_svc_def)
  next
    case (Inr u)
    then have st: "stored env pp s s0" using ends by simp
    have "\<not> isl (reverseProxyStatusPlatform env s0)"
    proof (rule status_kept [OF run(4)])
      show "getString (pe_Settings env) (px_Db s0) k = getString (pe_Settings env) (px_Db s) k" if "k \<in> {''webPort'', ''webPath''}" for k
      proof -
        have "k \<notin> {''webListen'', ''webDomain'', ''webURI''}" using that by auto
        then show ?thesis using st unfolding stored_def by blast
      qed
      show "\<not> isl (getString (pe_Settings env) (px_Db s0) ''webListen'')" "\<not> isl (getString (pe_Settings env) (px_Db s0) ''webDomain'')"
        using st by (simp_all add: stored_def)
    qed
    then show ?thesis using run(1-3) act Inr st by (auto simp: bind_svc_def not_isl_Inr)
  qed
qed

text \<open>
  What a failed request leaves behind: the first nginx configuration that nginx rejects is removed
  again, but the link that enables it stays and points to a file that is not there.
\<close>

theorem rejected_site_leaves_link:
  assumes "ReverseProxy_Apply env ''nginx'' domain0 s = (Inl e, s')" "px_Files s nginxConfigPath = None" "px_Site s = No_Entry"
    and "\<not> isl (proxy_checks env ''nginx'' s)" "\<not> isl (normalizeReverseProxyDomain domain0)" "\<And>domain. \<not> isl (make_plan env ''nginx'' domain s)"
    and "\<And>path content. pe_WriteErr env path content = None" "pe_RemoveErr env = None" "pe_SiteDirErr env = None" "pe_SiteLinkErr env = None"
    and "\<And>t. pe_Validate env ''nginx'' t \<noteq> None"
  shows "px_Site s' = Link_To nginxConfigPath \<and> px_Files s' nginxConfigPath = None"
proof -
  have engine: "ToLower (TrimSpace ''nginx'') = ''nginx''" by code_simp
  obtain domain pp where d: "normalizeReverseProxyDomain domain0 = Inr domain" and pp: "make_plan env ''nginx'' domain s = Inr pp"
    using assms(5,6) by (metis not_isl_Inr)
  note p = make_plan_Inr [OF pp]
  have old: "pp_Path pp = nginxConfigPath" "\<not> pp_Existed pp" "pp_Engine pp = ''nginx''" using p assms(2) by (auto split: if_splits)
  define s1 where "s1 = s\<lparr>px_Files := (px_Files s)(nginxConfigPath := Some (pp_Rendered pp)), px_Site := Link_To nginxConfigPath\<rparr>"
  obtain oe where v: "pe_Validate env ''nginx'' s1 = Some oe" using assms(11) by blast
  have "enable_site env pp (s\<lparr>px_Files := (px_Files s)(nginxConfigPath := Some (pp_Rendered pp))\<rparr>) = (Inr (), s1)"
    using old assms(3,9,10) by (simp add: enable_site_def enableNginxSite_def link_site_def s1_def)
  then have "activate env pp s = (NewErrorf (''nginx configuration is invalid: '' @ commandOutput oe), take_back env pp s1)"
    by (simp add: activate_def bind_svc_def writeAtomicFile_def old assms(7) check_proxy_def v NewErrorf_def)
  then have "s' = take_back env pp s1"
    using assms(1,4) pp d by (auto simp: ReverseProxy_Apply_def engine applyReverseProxyPlatform_def bind_svc_def NewErrorf_def not_isl_Inr)
  then show ?thesis using old assms(8) by (simp add: take_back_def restoreProxyConfig_def s1_def)
qed

section \<open>Concrete requests\<close>

definition proxy_host :: proxy_env where
  "proxy_host = \<lparr>pe_Settings = example_settings, pe_Systemctl = True, pe_Root = True, pe_Caddy = True, pe_Nginx = True, pe_ReadErr = (\<lambda>_. None),
     pe_WriteErr = (\<lambda>_ _. None), pe_RemoveErr = None, pe_SiteDirErr = None, pe_SiteRemoveErr = None, pe_SiteLinkErr = None,
     pe_Validate = (\<lambda>engine _. if engine = ''nginx'' then Some (''bad directive'', ''exit status 1'') else None), pe_Systemd = (\<lambda>_ _ _. None),
     pe_SaveErr = (\<lambda>_ _. None)\<rparr>"

definition fresh_host :: proxy_state where
  "fresh_host = \<lparr>px_Files = (\<lambda>_. None), px_Site = No_Entry, px_Active = [], px_Enabled = [], px_Db = empty_db\<rparr>"

theorem custom_configuration_untouched_witness:
  "\<exists>r. ReverseProxy_Apply proxy_host '' Caddy '' ''vpn.example'' (fresh_host\<lparr>px_Files := (\<lambda>_. Some ''my.site { }'')\<rparr>)
      = (r, fresh_host\<lparr>px_Files := (\<lambda>_. Some ''my.site { }'')\<rparr>) \<and> isl r"
proof -
  let ?s = "fresh_host\<lparr>px_Files := (\<lambda>_. Some ''my.site { }'')\<rparr>"
  obtain r s' where run: "ReverseProxy_Apply proxy_host '' Caddy '' ''vpn.example'' ?s = (r, s')" by fastforce
  have "\<not> canReplaceReverseProxyConfig (ToLower (TrimSpace '' Caddy '')) ''my.site { }''" by code_simp
  from custom_configuration_untouched [OF _ this run] have "isl r \<and> s' = ?s" by simp
  then show ?thesis using run by blast
qed

lemma fresh_settings:
  "getString (pe_Settings proxy_host) (px_Db fresh_host) ''webListen'' = Inr []" "getString (pe_Settings proxy_host) (px_Db fresh_host) ''webDomain'' = Inr []"
  "getString (pe_Settings proxy_host) (px_Db fresh_host) ''webURI'' = Inr []"
  by code_simp+

lemma fresh_files: "px_Files fresh_host path = None"
  by (simp add: fresh_host_def)

theorem proxy_request_atomic_witness:
  "\<exists>st s' pp. ReverseProxy_Apply proxy_host ''caddy'' ''VPN.example.'' fresh_host = (Inr st, s') \<and> stored proxy_host pp fresh_host s'
     \<and> pp_Domain pp = ''vpn.example''"
proof -
  obtain r s' where run: "ReverseProxy_Apply proxy_host ''caddy'' ''VPN.example.'' fresh_host = (r, s')" by fastforce
  have "\<not> isl (fst (ReverseProxy_Apply proxy_host ''caddy'' ''VPN.example.'' fresh_host))" by code_simp
  then obtain st where r: "r = Inr st" using run by (auto simp: not_isl_Inr)
  have way: "way_back proxy_host pp" if "make_plan proxy_host (ToLower (TrimSpace ''caddy'')) domain fresh_host = Inr pp" for domain pp
  proof -
    have "pp_Listen pp = []" "pp_OldDomain pp = []" "pp_URI pp = []" using make_plan_Inr(6-8) [OF that] by (simp_all add: fresh_settings)
    moreover have "TrimSpace [] = []" by code_simp
    ultimately show ?thesis by (simp add: way_back_def proxy_host_def)
  qed
  have "case r of Inl _ \<Rightarrow> same_panel proxy_host fresh_host s'
    | Inr _ \<Rightarrow> \<exists>domain pp. normalizeReverseProxyDomain ''VPN.example.'' = Inr domain
        \<and> make_plan proxy_host (ToLower (TrimSpace ''caddy'')) domain fresh_host = Inr pp \<and> stored proxy_host pp fresh_host s'"
    by (rule proxy_request_atomic [OF run]) (rule way)
  then obtain domain pp where d: "normalizeReverseProxyDomain ''VPN.example.'' = Inr domain"
    "make_plan proxy_host (ToLower (TrimSpace ''caddy'')) domain fresh_host = Inr pp" "stored proxy_host pp fresh_host s'"
    using r by auto
  moreover have "normalizeReverseProxyDomain ''VPN.example.'' = Inr ''vpn.example''" by code_simp
  ultimately have "pp_Domain pp = ''vpn.example''" using make_plan_Inr(2) [OF d(2)] by simp
  then show ?thesis using run r d(3) by blast
qed

theorem rejected_site_leaves_link_witness:
  "\<exists>e s'. ReverseProxy_Apply proxy_host ''nginx'' [] fresh_host = (Inl e, s') \<and> px_Site s' = Link_To nginxConfigPath \<and> px_Files s' nginxConfigPath = None"
proof -
  obtain r s' where run: "ReverseProxy_Apply proxy_host ''nginx'' [] fresh_host = (r, s')" by fastforce
  have "isl (fst (ReverseProxy_Apply proxy_host ''nginx'' [] fresh_host))" by code_simp
  then obtain e where r: "r = Inl e" using run by (cases r) auto
  have checks: "\<not> isl (proxy_checks proxy_host ''nginx'' fresh_host)" "\<not> isl (normalizeReverseProxyDomain [])" by code_simp+
  have plan: "\<not> isl (make_plan proxy_host ''nginx'' domain fresh_host)" for domain
  proof -
    have "\<not> isl (getInt (pe_Settings proxy_host) (px_Db fresh_host) ''webPort'')" "\<not> isl (GetWebPath (pe_Settings proxy_host) (px_Db fresh_host))"
      "canReplaceReverseProxyConfig ''nginx'' []" by code_simp+
    then show ?thesis
      by (auto simp: make_plan_def Let_def fresh_settings readOptionalFile_def not_isl_Inr fresh_files)
  qed
  have "px_Files fresh_host nginxConfigPath = None" "px_Site fresh_host = No_Entry" by (simp_all add: fresh_host_def)
  from rejected_site_leaves_link [OF run [unfolded r] this checks plan] run r show ?thesis by (simp add: proxy_host_def)
qed

end
