(* ===== verification/Spec2Isabelle.thy ===== *)
theory Spec2Isabelle
  imports Relay_Routes Relay_Ports Relay_Exports Relay_Items Relay_Egress Relay_Summary Share_Roundtrip Traffic_Invariant Agent_Safety Agent_Pairing Sub_Documents Client_Jobs Client_Reload
    Xray_Files Xray_Safety Config_Xray Panel_Steps Relay_Undo Quick_Add_Safety Local_Control Relay_Fallback Proxy_Safety
begin

text \<open>
  \<^bold>\<open>A model of the panel's core logic.\<close> The program is a panel that keeps the configuration of a
  sing-box core and an Xray core in a database, edits it through a web interface, and keeps the
  running cores in step with it. The development translates the Go code under \<^verbatim>\<open>src/\<close> into
  definitions and proves what the parts promise.

  \<^bold>\<open>Language layer.\<close> \<open>Go_Strings\<close> (the functions of package strings and strconv on byte strings),
  \<open>Go_Values\<close> and \<open>Go_Json\<close> (dynamic values, maps, raw JSON and decoding), \<open>Go_Url\<close>, \<open>Go_Base64\<close>,
  \<open>Netip\<close> (addresses and prefixes), \<open>State_Result\<close> (a state threaded through failing steps).
  Errors are \<open>Inl\<close> of the message, a panic is \<open>Inl ''panic: ...''\<close>.

  \<^bold>\<open>Database.\<close> \<open>Db_Model\<close> has the rows of \<^verbatim>\<open>database/model\<close> with their JSON conversions, \<open>Panel_Db\<close> the
  tables with automatic ids and the laws of saving, finding and deleting (a locale, interpreted
  on every table). A transaction is a function to a result with the new database.

  \<^bold>\<open>Objects and the running core.\<close> \<open>Core_State\<close> is \<^verbatim>\<open>core/main.go\<close> and \<^verbatim>\<open>core/endpoint.go\<close>: four managers
  by tag; what the sing-box library accepts is a parameter. \<open>Clients\<close>, \<open>Client_Jobs\<close>
  (\<^verbatim>\<open>service/client.go\<close>), \<open>Inbounds_Service\<close>, \<open>Objects_Service\<close> (outbounds, endpoints, services, TLS),
  \<open>Out_Json\<close> (\<^verbatim>\<open>util/outJson.go\<close>) and \<open>Settings_Service\<close> are the services. \<open>Runtime_Agreement\<close> says when
  the running core is what a restart from the database would give, with locales for the tables
  that are configured by tag and for those that are kept in step; \<open>Hot_Changes\<close>,
  \<open>Client_Agreement\<close>, \<open>Client_Reload\<close>, \<open>Tls_Agreement\<close>, \<open>Inbound_Agreement\<close> show that the operations keep it.

  \<^bold>\<open>Configuration service.\<close> \<open>Config_Service\<close> is \<^verbatim>\<open>service/config.go\<close>: starting and stopping, the saving
  transaction with rollback and restoration, revisions. \<open>Config_Start\<close> shows what a start gives,
  \<open>Config_Save\<close> that a save is atomic, leaves the core in agreement with the committed database whatever
  its result, and that revisions let only one of several savers through, \<open>Config_Xray\<close> what happens to Xray.
  \<open>Xray_Config\<close> and \<open>Xray_Runtime\<close> are the Xray side, the latter with the process that \<open>Stop\<close> has killed but that
  is not reaped yet as a state of its own; \<open>Xray_Safety\<close> and \<open>Xray_Files\<close> its safety.

  \<^bold>\<open>Relay pools\<close> (\<^verbatim>\<open>service/relay.go\<close>). \<open>Relay_Model\<close> (rows, modes, request handling), \<open>Relay_Ports\<close>,
  \<open>Relay_Routes\<close> (rewriting of the stored routing), \<open>Relay_Upstreams\<close> and \<open>Relay_Exports\<close> (proxy lists
  and their round trips), \<open>Relay_Addresses\<close>, \<open>Relay_Items\<close>, \<open>Relay_Summary\<close> (addresses and items), and
  \<open>Relay_Egress\<close>, the concurrent probe workers as an inductive step relation. The operations are in
  \<open>Relay_System\<close> (addresses and \<^verbatim>\<open>ip\<close> commands, refresh links, the transaction with its core restart and
  restoration), \<open>Relay_Create\<close> (creation and deletion), \<open>Relay_Rotate\<close> and \<open>Relay_Restore\<close> (repair at start-up).
  \<open>Relay_Links\<close> compares the two loops over refresh links, \<open>Relay_Agreement\<close> gives the outcomes of a
  transaction, \<open>Relay_Sound\<close> that the rows written are well formed, \<open>Relay_Outcomes\<close> that failures are undone,
  \<open>Relay_Frame\<close> what a rotation changes, \<open>Relay_Undo\<close> that deletion undoes creation.

  \<^bold>\<open>The whole panel.\<close> \<open>Panel_Steps\<close> is the machine of saves, relay operations and core commands as an
  inductive step relation; every reachable state has well-formed tables and a core in agreement.

  \<^bold>\<open>Links.\<close> \<open>Gen_Link\<close> (\<^verbatim>\<open>util/genLink.go\<close>) writes the share links, \<open>Link_Import\<close> (\<^verbatim>\<open>util/linkToJson.go\<close>,
  \<^verbatim>\<open>util/subToJson.go\<close>) reads them, \<open>Tls_Pin\<close> (\<^verbatim>\<open>util/tls_pin.go\<close>) converts the pins. \<open>Link_Roundtrip\<close> and
  \<open>Share_Roundtrip\<close> show what comes back.

  \<^bold>\<open>Subscriptions.\<close> \<open>Sub_Links\<close> (\<^verbatim>\<open>sub/linkService.go\<close>, \<^verbatim>\<open>sub/subService.go\<close>), \<open>Sub_Json\<close>
  (\<^verbatim>\<open>sub/jsonService.go\<close>, with the nested map that the copies of an outbound share as a cell) and \<open>Sub_Clash\<close>
  (\<^verbatim>\<open>sub/clashService.go\<close>) build what a client fetches. \<open>Sub_Documents\<close> shows that the groups name
  outbounds of the document, and what overrides and imported links lose or leak.

  \<^bold>\<open>Traffic.\<close> \<open>Traffic_Stats\<close> is \<^verbatim>\<open>core/tracker_stats.go\<close> and \<^verbatim>\<open>service/stats.go\<close>: counters shared by the
  connections of an inbound, outbound or user as heap cells, and the job that collects them.
  \<open>Traffic_Accounts\<close> has the machine of connections, collecting runs, client jobs and restarts with
  the bytes counted and given up as ghosts, \<open>Traffic_Invariant\<close> that the accounts balance.

  \<^bold>\<open>Managed servers.\<close> \<open>Agent_Hub\<close> is \<^verbatim>\<open>service/agent_hub.go\<close>: sessions and the channels of pending
  calls as heap cells, the goroutines of calls, answers and connections as program points, their
  interleavings as an inductive step relation. \<open>Agent_Calls\<close> has the invariant (who may close a
  channel), \<open>Agent_Safety\<close> where the hub can panic, whose answer a call gets and the percentile.
  \<open>Agent_Nodes\<close> is \<^verbatim>\<open>service/agent.go\<close>, \<open>Agent_Pairing\<close> shows that a pairing code buys one token, once.

  \<^bold>\<open>Remote control.\<close> What the main panel can ask of a managed one: \<open>Quick_Add\<close> (\<^verbatim>\<open>service/remote_quick_add.go\<close>
  and the check of \<^verbatim>\<open>service/xray_capabilities.go\<close>) creates several inbounds with clients and a certificate through
  the saves of the configuration service, \<open>Local_Control\<close> (\<^verbatim>\<open>service/local_control.go\<close>,
  \<^verbatim>\<open>service/remote_relay.go\<close>) lists, edits and forwards. \<open>Quick_Add_Rows\<close> follows each save of a quick add
  to the row it stores; \<open>Quick_Add_Safety\<close> shows what an allocation gives, which rows a
  successful request has stored, and that the ports of existing inbounds are not looked at.

  \<^bold>\<open>Relay fallback.\<close> \<open>Relay_Fallback\<close> is \<^verbatim>\<open>core/relay_fallback_outbound.go\<close>: the state is the list of
  attempts made through the two outbounds; the families are kept apart, a name goes through IPv4 only when it
  cannot be looked up, and IPv4 takes over.

  \<^bold>\<open>Reverse proxy.\<close> \<open>Reverse_Proxy\<close> is \<^verbatim>\<open>service/reverse_proxy.go\<close> and \<^verbatim>\<open>service/reverse_proxy_linux.go\<close>: files,
  services and settings as the state, the operating system as a parameter. \<open>Proxy_Safety\<close> shows that
  custom configurations are not touched and what a failed request leaves.

  \<^bold>\<open>Bounds.\<close> Only the JSON reader (\<open>json_value\<close>) has fuel, more than the length of the text, of which
  every step consumes a byte. Other loops recurse on the data, on a measure, or are a
  \<open>partial_function (option)\<close> where they can run for ever (\<open>prepareRelayItems\<close>, which does for a
  detected /128 prefix). Random numbers and clocks are streams and readings given as arguments.

  \<^bold>\<open>Not modelled.\<close> The web server and request routing, process start-up, migrations and backup,
  logging, timers, and the sing-box library behind \<^verbatim>\<open>core/box.go\<close>: they forward to libraries that
  are not part of the repository. The connection tracker of the core, the interactive terminals, the
  program that runs on managed servers, their pairing client, the server status, users and sessions, the
  WARP registration and the HTTP side of subscriptions are left out as well.
\<close>

end
